(* ===== verification/Prelude.thy ===== *)
theory Prelude
  imports Complex_Main "HOL-Library.Multiset"
begin

text \<open>
  Shared vocabulary of the development: asynchronous methods as state-and-exception
  functions, the JavaScript array sort as a stable insertion sort, the insertion-ordered
  \<^verbatim>\<open>Map\<close> of the language, decimal printing of integers, and the ASCII part of the string
  methods.  Every later theory imports this one.
\<close>

named_theorems act_defs \<open>definitions of the effect combinators\<close>

section \<open>Methods with state and exceptions\<close>

text \<open>
  A method is a function from the state of its object to a result and a new state.  The
  result is \<^verbatim>\<open>Inl\<close> of the thrown error or \<^verbatim>\<open>Inr\<close> of the returned value; the state
  mutated before a throw is kept, as it is in the language.
\<close>

type_synonym ('s, 'e, 'a) act = "'s \<Rightarrow> ('e + 'a) \<times> 's"

definition act_ret :: "'a \<Rightarrow> ('s, 'e, 'a) act" where
  [act_defs]: "act_ret a s = (Inr a, s)"

definition act_throw :: "'e \<Rightarrow> ('s, 'e, 'a) act" where
  [act_defs]: "act_throw e s = (Inl e, s)"

definition act_bind :: "('s, 'e, 'a) act \<Rightarrow> ('a \<Rightarrow> ('s, 'e, 'b) act) \<Rightarrow> ('s, 'e, 'b) act" where
  [act_defs]: "act_bind m f s = (case m s of (Inl e, s') \<Rightarrow> (Inl e, s') | (Inr a, s') \<Rightarrow> f a s')"

definition act_seq :: "('s, 'e, 'a) act \<Rightarrow> ('s, 'e, 'b) act \<Rightarrow> ('s, 'e, 'b) act" where
  [act_defs]: "act_seq m n = act_bind m (\<lambda>_. n)"

definition act_catch :: "('s, 'e, 'a) act \<Rightarrow> ('e \<Rightarrow> ('s, 'e, 'a) act) \<Rightarrow> ('s, 'e, 'a) act" where
  [act_defs]: "act_catch m h s = (case m s of (Inl e, s') \<Rightarrow> h e s' | (Inr a, s') \<Rightarrow> (Inr a, s'))"

definition act_get :: "('s \<Rightarrow> 'a) \<Rightarrow> ('s, 'e, 'a) act" where
  [act_defs]: "act_get f s = (Inr (f s), s)"

definition act_modify :: "('s \<Rightarrow> 's) \<Rightarrow> ('s, 'e, unit) act" where
  [act_defs]: "act_modify f s = (Inr (), f s)"

text \<open>\<^verbatim>\<open>zoom\<close> runs a method of a part (a table, an injected service) on the whole state.\<close>

definition zoom :: "('s \<Rightarrow> 't) \<Rightarrow> ('t \<Rightarrow> 's \<Rightarrow> 's) \<Rightarrow> ('t, 'e, 'a) act \<Rightarrow> ('s, 'e, 'a) act" where
  [act_defs]: "zoom rd wr m s = (case m (rd s) of (r, t) \<Rightarrow> (r, wr t s))"

text \<open>A \<^verbatim>\<open>for\<close> loop over an array whose body may throw: the first throw ends the loop.\<close>

primrec act_for :: "'x list \<Rightarrow> ('x \<Rightarrow> ('s, 'e, unit) act) \<Rightarrow> ('s, 'e, unit) act" where
  "act_for [] f = act_ret ()"
| "act_for (x # xs) f = act_seq (f x) (act_for xs f)"

lemma act_bind_Inr [simp]: "m s = (Inr a, s') \<Longrightarrow> act_bind m f s = f a s'"
  by (simp add: act_defs)

lemma act_bind_Inl [simp]: "m s = (Inl e, s') \<Longrightarrow> act_bind m f s = (Inl e, s')"
  by (simp add: act_defs)

lemma act_seq_Inr [simp]: "m s = (Inr a, s') \<Longrightarrow> act_seq m n s = n s'"
  by (simp add: act_defs)

lemma act_seq_Inl [simp]: "m s = (Inl e, s') \<Longrightarrow> act_seq m n s = (Inl e, s')"
  by (simp add: act_defs)

lemma zoomD: "zoom rd wr m s = (r, s') \<Longrightarrow> \<exists>t. m (rd s) = (r, t) \<and> s' = wr t s"
  by (auto simp: zoom_def split: prod.splits)

lemma zoomI: "m (rd s) = (r, t) \<Longrightarrow> zoom rd wr m s = (r, wr t s)"
  by (simp add: zoom_def)

lemma act_bind_returns:
  "act_bind m f s = (Inr b, s'') \<longleftrightarrow> (\<exists>a s'. m s = (Inr a, s') \<and> f a s' = (Inr b, s''))"
  by (auto simp: act_defs split: prod.splits sum.splits)

lemma act_bind_throws:
  "act_bind m f s = (Inl e, s'') \<longleftrightarrow>
     m s = (Inl e, s'') \<or> (\<exists>a s'. m s = (Inr a, s') \<and> f a s' = (Inl e, s''))"
  by (auto simp: act_defs split: prod.splits sum.splits)

text \<open>
  A state relation that a part establishes is carried through the combinators: \<^verbatim>\<open>keeps\<close>
  says that whatever the method does, returned or thrown, it relates the states.
\<close>

definition keeps :: "('s \<Rightarrow> 's \<Rightarrow> bool) \<Rightarrow> ('s, 'e, 'a) act \<Rightarrow> bool" where
  "keeps P m \<longleftrightarrow> (\<forall>s. P s (snd (m s)))"

lemma keepsD: "keeps P m \<Longrightarrow> m s = (r, s') \<Longrightarrow> P s s'"
  by (metis keeps_def snd_conv)

lemma keeps_ret: "reflp P \<Longrightarrow> keeps P (act_ret a)"
  by (simp add: keeps_def act_defs reflpD)

lemma keeps_throw: "reflp P \<Longrightarrow> keeps P (act_throw e)"
  by (simp add: keeps_def act_defs reflpD)

lemma keeps_bind:
  assumes "transp P" "keeps P m" "\<And>a. keeps P (f a)"
  shows "keeps P (act_bind m f)"
  unfolding keeps_def
proof
  fix s
  obtain r s' where m: "m s = (r, s')" by (cases "m s")
  have 1: "P s s'" using assms(2) m by (rule keepsD)
  show "P s (snd (act_bind m f s))"
  proof (cases r)
    case (Inl e) then show ?thesis using m 1 by simp
  next
    case (Inr a)
    have "P s' (snd (f a s'))" using assms(3) by (simp add: keeps_def)
    then show ?thesis using m 1 Inr assms(1) by (auto dest: transpD)
  qed
qed

lemma keeps_seq: "transp P \<Longrightarrow> keeps P m \<Longrightarrow> keeps P n \<Longrightarrow> keeps P (act_seq m n)"
  by (simp add: act_seq_def keeps_bind)

lemma keeps_catch:
  assumes "transp P" "keeps P m" "\<And>e. keeps P (h e)"
  shows "keeps P (act_catch m h)"
  unfolding keeps_def
proof
  fix s
  obtain r s' where m: "m s = (r, s')" by (cases "m s")
  have 1: "P s s'" using assms(2) m by (rule keepsD)
  show "P s (snd (act_catch m h s))"
  proof (cases r)
    case (Inr a) then show ?thesis using m 1 by (simp add: act_defs)
  next
    case (Inl e)
    have "P s' (snd (h e s'))" using assms(3) by (simp add: keeps_def)
    then show ?thesis using m 1 Inl assms(1) by (auto simp: act_defs dest: transpD)
  qed
qed

lemma keeps_for:
  "reflp P \<Longrightarrow> transp P \<Longrightarrow> (\<And>x. x \<in> set xs \<Longrightarrow> keeps P (f x)) \<Longrightarrow> keeps P (act_for xs f)"
  by (induction xs) (auto intro: keeps_ret keeps_seq)

lemmas keeps_intros = keeps_ret keeps_throw keeps_bind keeps_seq keeps_catch keeps_for

lemma map_replicate_iff: "map f xs = replicate (length xs) c \<longleftrightarrow> (\<forall>x \<in> set xs. f x = c)"
  by (induction xs) auto

section \<open>The array sort\<close>

text \<open>
  \<^verbatim>\<open>Array.prototype.sort\<close> is stable and moves an element left only when the comparator
  is positive.  For a consistent comparator the result is determined by that, so the model
  is a stable insertion sort over the test \<^verbatim>\<open>cmp(x, y) > 0\<close>.
\<close>

fun insort_by :: "('a \<Rightarrow> 'a \<Rightarrow> bool) \<Rightarrow> 'a \<Rightarrow> 'a list \<Rightarrow> 'a list" where
  "insort_by gt x [] = [x]"
| "insort_by gt x (y # ys) = (if gt x y then y # insort_by gt x ys else x # y # ys)"

definition sort_by :: "('a \<Rightarrow> 'a \<Rightarrow> bool) \<Rightarrow> 'a list \<Rightarrow> 'a list" where
  "sort_by gt xs = foldr (insort_by gt) xs []"

lemma sort_by_Nil [simp]: "sort_by gt [] = []"
  and sort_by_Cons [simp]: "sort_by gt (x # xs) = insort_by gt x (sort_by gt xs)"
  by (simp_all add: sort_by_def)

lemma mset_insort_by [simp]: "mset (insort_by gt x xs) = add_mset x (mset xs)"
  by (induction xs) auto

lemma mset_sort_by [simp]: "mset (sort_by gt xs) = mset xs"
  by (induction xs) auto

lemma set_sort_by [simp]: "set (sort_by gt xs) = set xs"
  by (metis mset_sort_by set_mset_mset)

lemma set_insort_by [simp]: "set (insort_by gt x xs) = insert x (set xs)"
  by (metis mset_insort_by set_mset_mset set_mset_add_mset_insert)

lemma length_sort_by [simp]: "length (sort_by gt xs) = length xs"
  by (metis mset_sort_by size_mset)

text \<open>
  The contract of a comparator on the elements that satisfy \<^verbatim>\<open>V\<close>: \<open>gt x y\<close> is
  \<^verbatim>\<open>cmp(x, y) > 0\<close>.
\<close>

locale comparator =
  fixes gt :: "'a \<Rightarrow> 'a \<Rightarrow> bool" and V :: "'a \<Rightarrow> bool"
  assumes gt_asym: "V x \<Longrightarrow> V y \<Longrightarrow> gt x y \<Longrightarrow> \<not> gt y x"
    and not_gt_trans: "V x \<Longrightarrow> V y \<Longrightarrow> V z \<Longrightarrow> \<not> gt x y \<Longrightarrow> \<not> gt y z \<Longrightarrow> \<not> gt x z"
begin

abbreviation ordered :: "'a list \<Rightarrow> bool" where
  "ordered \<equiv> sorted_wrt (\<lambda>x y. \<not> gt x y)"

lemma gt_irrefl: "V x \<Longrightarrow> \<not> gt x x"
  using gt_asym by blast

lemma ordered_insort:
  "V x \<Longrightarrow> \<forall>y \<in> set ys. V y \<Longrightarrow> ordered ys \<Longrightarrow> ordered (insort_by gt x ys)"
proof (induction ys)
  case Nil
  then show ?case by simp
next
  case (Cons y ys)
  show ?case
  proof (cases "gt x y")
    case True
    then have "\<not> gt y x" using Cons.prems gt_asym by auto
    then show ?thesis using True Cons by simp
  next
    case False
    have "\<forall>z \<in> set ys. \<not> gt x z"
      using False Cons.prems not_gt_trans [of x y] by simp
    then show ?thesis using False Cons.prems by simp
  qed
qed

lemma ordered_sort: "\<forall>x \<in> set xs. V x \<Longrightarrow> ordered (sort_by gt xs)"
  by (induction xs) (auto intro: ordered_insort)

lemma insort_ordered_id: "\<forall>y \<in> set ys. \<not> gt x y \<Longrightarrow> insort_by gt x ys = x # ys"
  by (cases ys) auto

lemma sort_ordered_id: "ordered xs \<Longrightarrow> sort_by gt xs = xs"
  by (induction xs) (auto simp: insort_ordered_id)

lemma sort_idem: "\<forall>x \<in> set xs. V x \<Longrightarrow> sort_by gt (sort_by gt xs) = sort_by gt xs"
  by (simp add: ordered_sort sort_ordered_id)

text \<open>Stability: elements the comparator does not separate keep their relative order.\<close>

lemma filter_insort_equiv:
  assumes "V x" "V e" "\<forall>y \<in> set ys. V y"
  shows "filter (\<lambda>y. \<not> gt e y \<and> \<not> gt y e) (insort_by gt x ys) =
    filter (\<lambda>y. \<not> gt e y \<and> \<not> gt y e) (x # ys)"
  using assms
proof (induction ys)
  case Nil
  then show ?case by simp
next
  case (Cons y ys)
  have "\<not> (gt x y \<and> \<not> gt e x \<and> \<not> gt x e \<and> \<not> gt e y \<and> \<not> gt y e)"
    using Cons.prems not_gt_trans [of x e y] by auto
  then show ?case using Cons by auto
qed

lemma sort_stable:
  "V e \<Longrightarrow> \<forall>x \<in> set xs. V x \<Longrightarrow>
   filter (\<lambda>y. \<not> gt e y \<and> \<not> gt y e) (sort_by gt xs) = filter (\<lambda>y. \<not> gt e y \<and> \<not> gt y e) xs"
  by (induction xs) (auto simp: filter_insort_equiv)

end

section \<open>The insertion-ordered Map\<close>

text \<open>
  A \<^verbatim>\<open>Map\<close> is an association list in insertion order with distinct keys: \<^verbatim>\<open>set\<close> on a present
  key keeps its place, \<^verbatim>\<open>delete\<close> removes the entry.
\<close>

type_synonym ('k, 'v) jmap = "('k \<times> 'v) list"

fun jm_set :: "'k \<Rightarrow> 'v \<Rightarrow> ('k, 'v) jmap \<Rightarrow> ('k, 'v) jmap" where
  "jm_set k v [] = [(k, v)]"
| "jm_set k v ((k', v') # m) = (if k' = k then (k, v) # m else (k', v') # jm_set k v m)"

definition jm_get :: "'k \<Rightarrow> ('k, 'v) jmap \<Rightarrow> 'v option" where
  "jm_get k m = map_of m k"

definition jm_delete :: "'k \<Rightarrow> ('k, 'v) jmap \<Rightarrow> ('k, 'v) jmap" where
  "jm_delete k m = filter (\<lambda>(k', _). k' \<noteq> k) m"

definition jm_wf :: "('k, 'v) jmap \<Rightarrow> bool" where
  "jm_wf m \<longleftrightarrow> distinct (map fst m)"

lemma jm_get_set [simp]: "jm_get k (jm_set k' v m) = (if k = k' then Some v else jm_get k m)"
  by (induction k' v m rule: jm_set.induct) (auto simp: jm_get_def)

lemma jm_get_delete [simp]: "jm_get k (jm_delete k' m) = (if k = k' then None else jm_get k m)"
  by (induction m) (auto simp: jm_get_def jm_delete_def)

lemma jm_get_Nil [simp]: "jm_get k [] = None"
  by (simp add: jm_get_def)

lemma keys_jm_set [simp]: "fst ` set (jm_set k v m) = insert k (fst ` set m)"
  by (induction k v m rule: jm_set.induct) auto

lemma jm_wf_Nil [simp]: "jm_wf []"
  by (simp add: jm_wf_def)

lemma jm_wf_set [simp]: "jm_wf m \<Longrightarrow> jm_wf (jm_set k v m)"
proof (induction k v m rule: jm_set.induct)
  case (2 k v k' v' m)
  then show ?case using keys_jm_set [of k v m] by (auto simp: jm_wf_def)
qed (simp add: jm_wf_def)

lemma jm_wf_delete [simp]: "jm_wf m \<Longrightarrow> jm_wf (jm_delete k m)"
  by (induction m) (auto simp: jm_wf_def jm_delete_def)

lemma jm_get_None: "jm_get k m = None \<longleftrightarrow> k \<notin> fst ` set m"
  by (simp add: jm_get_def map_of_eq_None_iff)

lemma jm_get_in: "jm_wf m \<Longrightarrow> (k, v) \<in> set m \<longleftrightarrow> jm_get k m = Some v"
  by (simp add: jm_wf_def jm_get_def)

lemma jm_set_new: "jm_get k m = None \<Longrightarrow> jm_set k v m = m @ [(k, v)]"
  by (induction k v m rule: jm_set.induct) (auto simp: jm_get_def split: if_splits)

lemma set_jm_delete: "set (jm_delete k m) = {p \<in> set m. fst p \<noteq> k}"
  by (auto simp: jm_delete_def)

text \<open>The contract the clients of a key-value store use.\<close>

locale kv_store =
  fixes lookup :: "'k \<Rightarrow> 'm \<Rightarrow> 'v option"
    and insert :: "'k \<Rightarrow> 'v \<Rightarrow> 'm \<Rightarrow> 'm"
    and delete :: "'k \<Rightarrow> 'm \<Rightarrow> 'm"
  assumes lookup_insert: "lookup k (insert k' v m) = (if k = k' then Some v else lookup k m)"
    and lookup_delete: "lookup k (delete k' m) = (if k = k' then None else lookup k m)"
begin

lemma delete_insert: "lookup k (delete k (insert k v m)) = None"
  by (simp add: lookup_delete)

lemma lookup_delete_all: "lookup k (fold delete ks m) = (if k \<in> set ks then None else lookup k m)"
  by (induction ks arbitrary: m) (auto simp: lookup_delete)

end

interpretation jm: kv_store jm_get jm_set jm_delete
  by unfold_locales auto

section \<open>The insertion-ordered Set\<close>

text \<open>The elements of a \<^verbatim>\<open>Set\<close> made from an array, in insertion order.\<close>

definition set_of :: "'a list \<Rightarrow> 'a list" where
  "set_of xs = fold (\<lambda>x s. if x \<in> set s then s else s @ [x]) xs []"

lemma set_set_of: "set (set_of xs) = set xs" and distinct_set_of: "distinct (set_of xs)"
proof -
  have "set (fold (\<lambda>x s. if x \<in> set s then s else s @ [x]) xs s) = set s \<union> set xs \<and>
      (distinct s \<longrightarrow> distinct (fold (\<lambda>x s. if x \<in> set s then s else s @ [x]) xs s))" for s
    by (induction xs arbitrary: s) auto
  from this [of "[]"] show "set (set_of xs) = set xs" "distinct (set_of xs)" by (simp_all add: set_of_def)
qed

end
