(* ===== verification/Js_Strings.thy ===== *)
theory Js_Strings
  imports Prelude "HOL-Library.Char_ord"
begin

text \<open>
  The string methods the source uses, on the ASCII part of a string: \<^verbatim>\<open>toUpperCase\<close>,
  \<^verbatim>\<open>toLowerCase\<close>, \<^verbatim>\<open>trim\<close>, and the printing of an integer in a template literal.  Characters
  outside ASCII are left alone by the two case mappings; the program's words, topics, hashes
  and addresses are ASCII.
\<close>

section \<open>Case mapping and trimming\<close>

definition js_upper_char :: "char \<Rightarrow> char" where
  "js_upper_char c = (if CHR ''a'' \<le> c \<and> c \<le> CHR ''z'' then char_of (of_char c - 32 :: nat) else c)"

definition js_lower_char :: "char \<Rightarrow> char" where
  "js_lower_char c = (if CHR ''A'' \<le> c \<and> c \<le> CHR ''Z'' then char_of (of_char c + 32 :: nat) else c)"

definition toUpperCase :: "string \<Rightarrow> string" where
  "toUpperCase s = map js_upper_char s"

definition toLowerCase :: "string \<Rightarrow> string" where
  "toLowerCase s = map js_lower_char s"

definition js_space :: "char \<Rightarrow> bool" where
  "js_space c \<longleftrightarrow> (of_char c :: nat) \<in> {9, 10, 11, 12, 13, 32, 160}"

definition trim_left :: "string \<Rightarrow> string" where
  "trim_left s = dropWhile js_space s"

definition trim :: "string \<Rightarrow> string" where
  "trim s = rev (trim_left (rev (trim_left s)))"

lemma char_between: "a \<le> c \<longleftrightarrow> (of_char a :: nat) \<le> of_char c"
  by (simp add: less_eq_char_def)

lemma of_char_lt_256: "(of_char c :: nat) < 256"
  using nat_of_char_less_256 by simp

lemma js_upper_idem [simp]: "js_upper_char (js_upper_char c) = js_upper_char c"
  using of_char_lt_256 [of c] by (auto simp: js_upper_char_def char_between)

lemma js_lower_idem [simp]: "js_lower_char (js_lower_char c) = js_lower_char c"
  using of_char_lt_256 [of c] by (auto simp: js_lower_char_def char_between)

lemma js_upper_lower [simp]: "js_upper_char (js_lower_char c) = js_upper_char c"
  using of_char_lt_256 [of c] by (auto simp: js_lower_char_def js_upper_char_def char_between)

lemma js_lower_upper [simp]: "js_lower_char (js_upper_char c) = js_lower_char c"
  using of_char_lt_256 [of c] by (auto simp: js_lower_char_def js_upper_char_def char_between)

lemma js_space_upper [simp]: "js_space (js_upper_char c) = js_space c"
  using of_char_lt_256 [of c] by (auto simp: js_upper_char_def js_space_def char_between)

lemma js_space_lower [simp]: "js_space (js_lower_char c) = js_space c"
  using of_char_lt_256 [of c] by (auto simp: js_lower_char_def js_space_def char_between)

lemma length_toUpperCase [simp]: "length (toUpperCase s) = length s"
  and length_toLowerCase [simp]: "length (toLowerCase s) = length s"
  by (simp_all add: toUpperCase_def toLowerCase_def)

lemma toUpperCase_idem [simp]: "toUpperCase (toUpperCase s) = toUpperCase s"
  and toLowerCase_idem [simp]: "toLowerCase (toLowerCase s) = toLowerCase s"
  and toUpperCase_toLowerCase [simp]: "toUpperCase (toLowerCase s) = toUpperCase s"
  and toLowerCase_toUpperCase [simp]: "toLowerCase (toUpperCase s) = toLowerCase s"
  by (simp_all add: toUpperCase_def toLowerCase_def)

lemma dropWhile_map_inv:
  "(\<And>c. P (f c) = P c) \<Longrightarrow> dropWhile P (map f s) = map f (dropWhile P s)"
  by (induction s) auto

lemma trim_toUpperCase: "trim (toUpperCase s) = toUpperCase (trim s)"
  by (simp add: trim_def trim_left_def toUpperCase_def dropWhile_map_inv rev_map)

lemma trim_toLowerCase: "trim (toLowerCase s) = toLowerCase (trim s)"
  by (simp add: trim_def trim_left_def toLowerCase_def dropWhile_map_inv rev_map)

lemma dropWhile_hd: "dropWhile P s = [] \<or> \<not> P (hd (dropWhile P s))"
  by (induction s) auto

lemma dropWhile_id: "s = [] \<or> \<not> P (hd s) \<Longrightarrow> dropWhile P s = s"
  by (cases s) auto

lemma last_dropWhile: "dropWhile P s \<noteq> [] \<Longrightarrow> last (dropWhile P s) = last s"
  by (metis dropWhile_eq_drop last_drop drop_eq_Nil not_le)

lemma trim_ends:
  "trim s = [] \<or> (\<not> js_space (hd (trim s)) \<and> \<not> js_space (last (trim s)))"
proof (cases "trim s = []")
  case False
  let ?t = "dropWhile js_space s" and ?r = "dropWhile js_space (rev (dropWhile js_space s))"
  have r: "trim s = rev ?r" by (simp add: trim_def trim_left_def)
  with False have ne: "?r \<noteq> []" by simp
  then have rhd: "\<not> js_space (hd ?r)" using dropWhile_hd [of js_space "rev ?t"] by blast
  then have 1: "\<not> js_space (last (trim s))" using r by (simp add: last_rev)
  have tne: "?t \<noteq> []"
  proof
    assume "?t = []"
    then have "?r = []" by (simp only: rev.simps dropWhile.simps)
    with ne show False ..
  qed
  have "hd (trim s) = last ?r" using r by (simp add: hd_rev)
  also have "\<dots> = hd ?t" using ne by (simp add: last_dropWhile last_rev)
  finally have "\<not> js_space (hd (trim s))" using tne dropWhile_hd [of js_space s] by metis
  with 1 show ?thesis by blast
qed simp

lemma trim_idem [simp]: "trim (trim s) = trim s"
proof -
  have 1: "trim_left (trim s) = trim s"
    using trim_ends [of s] by (auto simp: trim_left_def intro!: dropWhile_id)
  have 2: "trim_left (rev (trim s)) = rev (trim s)"
    using trim_ends [of s] by (auto simp: trim_left_def hd_rev intro!: dropWhile_id)
  show ?thesis by (subst trim_def, subst 1, subst 2) simp
qed

section \<open>Integers in template literals\<close>

definition digit_char :: "nat \<Rightarrow> char" where
  "digit_char d = char_of (48 + d)"

fun show_nat :: "nat \<Rightarrow> string" where
  "show_nat n = (if n < 10 then [digit_char n] else show_nat (n div 10) @ [digit_char (n mod 10)])"

declare show_nat.simps [simp del]

definition show_int :: "int \<Rightarrow> string" where
  "show_int i = (if i < 0 then CHR ''-'' # show_nat (nat (- i)) else show_nat (nat i))"

definition char_in :: "char \<Rightarrow> char \<Rightarrow> char \<Rightarrow> bool" where
  "char_in lo hi c \<longleftrightarrow> lo \<le> c \<and> c \<le> hi"

definition is_letter :: "char \<Rightarrow> bool" where
  "is_letter c \<longleftrightarrow> char_in (CHR ''A'') (CHR ''Z'') c \<or> char_in (CHR ''a'') (CHR ''z'') c"

definition is_digit :: "char \<Rightarrow> bool" where
  "is_digit c \<longleftrightarrow> CHR ''0'' \<le> c \<and> c \<le> CHR ''9''"

definition read_nat :: "string \<Rightarrow> nat" where
  "read_nat s = foldl (\<lambda>n c. 10 * n + (of_char c - 48)) 0 s"

lemma digit_char_props: "d < 10 \<Longrightarrow> is_digit (digit_char d) \<and> of_char (digit_char d) = 48 + d"
  by (auto simp: digit_char_def is_digit_def char_between of_char_of)

lemma show_nat_digits: "list_all is_digit (show_nat n)"
proof (induction n rule: show_nat.induct)
  case (1 n)
  then show ?case
    by (subst show_nat.simps) (auto simp: digit_char_props)
qed

lemma show_nat_nonempty: "show_nat n \<noteq> []"
  by (subst show_nat.simps) auto

lemma read_show_nat: "read_nat (show_nat n) = n"
proof (induction n rule: show_nat.induct)
  case (1 n)
  then show ?case
    by (subst show_nat.simps) (auto simp: digit_char_props read_nat_def)
qed

lemma show_nat_inj: "show_nat m = show_nat n \<longleftrightarrow> m = n"
  by (metis read_show_nat)

lemma digit_not_minus: "is_digit c \<Longrightarrow> c \<noteq> CHR ''-'' \<and> c \<noteq> CHR '':''"
  by (auto simp: is_digit_def char_between)

lemma show_nat_not_minus: "show_nat n \<noteq> CHR ''-'' # s"
proof
  assume "show_nat n = CHR ''-'' # s"
  then have "is_digit (CHR ''-'')" using show_nat_digits [of n] by simp
  then show False using digit_not_minus by blast
qed

lemma show_int_inj: "show_int i = show_int j \<longleftrightarrow> i = j"
proof -
  have m: "show_nat n \<noteq> CHR ''-'' # s" "CHR ''-'' # s \<noteq> show_nat n" for n s
    using show_nat_not_minus [of n s] by simp_all
  show ?thesis
    by (cases "i < 0"; cases "j < 0") (simp_all add: show_int_def m show_nat_inj eq_nat_nat_iff)
qed

lemma show_int_no_colon: "CHR '':'' \<notin> set (show_int i)"
proof -
  have "CHR '':'' \<notin> set (show_nat n)" for n
    using show_nat_digits [of n] digit_not_minus [of "CHR '':''"] by (auto simp: list_all_iff)
  then show ?thesis by (auto simp: show_int_def)
qed

text \<open>A key of the form \<open>s:n\<close> determines both parts: the number has no colon.\<close>

lemma takeWhile_other_rev:
  assumes "c \<notin> set b"
  shows "takeWhile (\<lambda>x. x \<noteq> c) (rev (a @ c # b)) = rev b"
proof -
  have "\<forall>x \<in> set (rev b). x \<noteq> c" using assms by auto
  then have "takeWhile (\<lambda>x. x \<noteq> c) (rev b @ c # rev a) = rev b @ takeWhile (\<lambda>x. x \<noteq> c) (c # rev a)"
    by (intro takeWhile_append2) blast
  then show ?thesis by simp
qed

lemma append_sep_inj:
  assumes "c \<notin> set b" "c \<notin> set b'"
  shows "a @ c # b = a' @ c # b' \<longleftrightarrow> a = a' \<and> b = b'"
proof
  assume eq: "a @ c # b = a' @ c # b'"
  have "b = rev (takeWhile (\<lambda>x. x \<noteq> c) (rev (a @ c # b)))"
    using takeWhile_other_rev [OF assms(1), of a] by simp
  also have "\<dots> = rev (takeWhile (\<lambda>x. x \<noteq> c) (rev (a' @ c # b')))" using eq by simp
  also have "\<dots> = b'" using takeWhile_other_rev [OF assms(2), of a'] by simp
  finally show "a = a' \<and> b = b'" using eq by simp
qed simp

section \<open>Splitting and searching\<close>

text \<open>\<^verbatim>\<open>split(d)\<close> at a character, and whether a text occurs in another.\<close>

fun split_on :: "char \<Rightarrow> string \<Rightarrow> string list" where
  "split_on d [] = [[]]"
| "split_on d (c # s) =
    (if c = d then [] # split_on d s else (c # hd (split_on d s)) # tl (split_on d s))"

fun occurs_in :: "string \<Rightarrow> string \<Rightarrow> bool" where
  "occurs_in w [] = (w = [])"
| "occurs_in w (c # s) = (take (length w) (c # s) = w \<or> occurs_in w s)"

end
