(* ===== verification/Js_Values.thy ===== *)
theory Js_Values
  imports Js_Strings
begin

text \<open>
  Values of type \<^verbatim>\<open>unknown\<close> as they come out of \<^verbatim>\<open>JSON.parse\<close> (with \<^verbatim>\<open>undefined\<close> for an absent
  property), the numbers of the language, and the conversions the source applies to them:
  \<^verbatim>\<open>typeof\<close>, \<^verbatim>\<open>??\<close>, \<^verbatim>\<open>String\<close>, \<^verbatim>\<open>Number\<close>, \<^verbatim>\<open>Boolean\<close>, \<^verbatim>\<open>Number.isInteger\<close> and \<^verbatim>\<open>JSON.stringify\<close>.
  Finite numbers are rationals: rounding to double precision is not modelled.
\<close>

section \<open>Numbers\<close>

datatype jsnum = Fin rat | PosInf | NegInf | NaN

fun num_isInteger :: "jsnum \<Rightarrow> bool" where
  "num_isInteger (Fin r) = (of_int \<lfloor>r\<rfloor> = r)"
| "num_isInteger _ = False"

fun num_isFinite :: "jsnum \<Rightarrow> bool" where
  "num_isFinite (Fin r) = True"
| "num_isFinite _ = False"

text \<open>Strict equality: \<^verbatim>\<open>NaN\<close> differs from itself.\<close>

fun num_eq :: "jsnum \<Rightarrow> jsnum \<Rightarrow> bool" where
  "num_eq (Fin a) (Fin b) = (a = b)"
| "num_eq PosInf PosInf = True"
| "num_eq NegInf NegInf = True"
| "num_eq _ _ = False"

fun num_lt :: "jsnum \<Rightarrow> jsnum \<Rightarrow> bool" where
  "num_lt (Fin a) (Fin b) = (a < b)"
| "num_lt (Fin a) PosInf = True"
| "num_lt NegInf (Fin b) = True"
| "num_lt NegInf PosInf = True"
| "num_lt _ _ = False"

definition num_le :: "jsnum \<Rightarrow> jsnum \<Rightarrow> bool" where
  "num_le a b \<longleftrightarrow> num_lt a b \<or> num_eq a b"

fun num_neg :: "jsnum \<Rightarrow> jsnum" where
  "num_neg (Fin a) = Fin (- a)"
| "num_neg PosInf = NegInf"
| "num_neg NegInf = PosInf"
| "num_neg NaN = NaN"

fun num_add :: "jsnum \<Rightarrow> jsnum \<Rightarrow> jsnum" where
  "num_add (Fin a) (Fin b) = Fin (a + b)"
| "num_add (Fin a) y = y"
| "num_add x (Fin b) = x"
| "num_add PosInf PosInf = PosInf"
| "num_add NegInf NegInf = NegInf"
| "num_add _ _ = NaN"

definition num_sub :: "jsnum \<Rightarrow> jsnum \<Rightarrow> jsnum" where
  "num_sub a b = num_add a (num_neg b)"

definition num_mul :: "jsnum \<Rightarrow> jsnum \<Rightarrow> jsnum" where
  "num_mul x y = (case (x, y) of
      (Fin a, Fin b) \<Rightarrow> Fin (a * b)
    | _ \<Rightarrow> if x = NaN \<or> y = NaN \<or> x = Fin 0 \<or> y = Fin 0 then NaN
        else if num_lt (Fin 0) x = num_lt (Fin 0) y then PosInf else NegInf)"

text \<open>\<^verbatim>\<open>2 ** x\<close> for an integer or infinite exponent; the source has no other.\<close>

definition num_pow2 :: "jsnum \<Rightarrow> jsnum" where
  "num_pow2 x = (case x of
      Fin r \<Rightarrow> if of_int \<lfloor>r\<rfloor> \<noteq> r then NaN
        else if 0 \<le> r then Fin (2 ^ nat \<lfloor>r\<rfloor>) else Fin (1 / 2 ^ nat \<lfloor>- r\<rfloor>)
    | PosInf \<Rightarrow> PosInf | NegInf \<Rightarrow> Fin 0 | NaN \<Rightarrow> NaN)"

text \<open>The whole part of a finite number.\<close>

fun num_floor :: "jsnum \<Rightarrow> int" where
  "num_floor (Fin r) = \<lfloor>r\<rfloor>"
| "num_floor _ = 0"

text \<open>\<^verbatim>\<open>Math.max\<close> and \<^verbatim>\<open>Math.min\<close> of two arguments.\<close>

definition num_max :: "jsnum \<Rightarrow> jsnum \<Rightarrow> jsnum" where
  "num_max a b = (if a = NaN \<or> b = NaN then NaN else if num_lt a b then b else a)"

definition num_min :: "jsnum \<Rightarrow> jsnum \<Rightarrow> jsnum" where
  "num_min a b = (if a = NaN \<or> b = NaN then NaN else if num_lt b a then b else a)"

abbreviation num :: "int \<Rightarrow> jsnum" where
  "num i \<equiv> Fin (of_int i)"

lemma num_isInteger_num [simp]: "num_isInteger (num i)"
  by simp

lemma num_isIntegerE: "num_isInteger x \<Longrightarrow> (\<And>i. x = num i \<Longrightarrow> P) \<Longrightarrow> P"
proof (cases x)
  case (Fin r)
  assume "num_isInteger x" and P: "\<And>i. x = num i \<Longrightarrow> P"
  then have "x = num \<lfloor>r\<rfloor>" using Fin by (metis num_isInteger.simps(1))
  then show P by (rule P)
qed simp_all

lemma num_sub_Fin [simp]: "num_sub (Fin a) (Fin b) = Fin (a - b)"
  by (simp add: num_sub_def)

lemma num_eq_finite: "num_isFinite x \<Longrightarrow> num_eq x y \<longleftrightarrow> x = y"
  by (cases x; cases y) auto

section \<open>Parsed values\<close>

datatype js =
    Undef | Null | JBool bool | Num jsnum | Str string | Arr "js list" | Obj "(string \<times> js) list"

type_synonym js_record = "(string \<times> js) list"

text \<open>An optional string and an optional number: an absent one is \<^verbatim>\<open>undefined\<close>.\<close>

fun opt_str :: "string option \<Rightarrow> js" where
  "opt_str None = Undef"
| "opt_str (Some s) = Str s"

fun opt_num :: "jsnum option \<Rightarrow> js" where
  "opt_num None = Undef"
| "opt_num (Some n) = Num n"

text \<open>Reading a property: a missing one is \<^verbatim>\<open>undefined\<close>.\<close>

definition get_prop :: "js_record \<Rightarrow> string \<Rightarrow> js" where
  "get_prop r k = (case map_of r k of None \<Rightarrow> Undef | Some v \<Rightarrow> v)"

fun js_typeof :: "js \<Rightarrow> string" where
  "js_typeof Undef = ''undefined''"
| "js_typeof Null = ''object''"
| "js_typeof (JBool _) = ''boolean''"
| "js_typeof (Num _) = ''number''"
| "js_typeof (Str _) = ''string''"
| "js_typeof (Arr _) = ''object''"
| "js_typeof (Obj _) = ''object''"

fun is_array :: "js \<Rightarrow> bool" where
  "is_array (Arr _) = True"
| "is_array _ = False"

definition nullish :: "js \<Rightarrow> bool" where
  "nullish x \<longleftrightarrow> x = Undef \<or> x = Null"

text \<open>The operator \<^verbatim>\<open>??\<close>.\<close>

definition coalesce :: "js \<Rightarrow> js \<Rightarrow> js" where
  "coalesce x d = (if nullish x then d else x)"

lemma coalesce_simps [simp]:
  "coalesce Undef d = d" "coalesce Null d = d" "coalesce (JBool b) d = JBool b"
  "coalesce (Num n) d = Num n" "coalesce (Str s) d = Str s" "coalesce (Arr a) d = Arr a"
  "coalesce (Obj r) d = Obj r"
  by (simp_all add: coalesce_def nullish_def)

fun truthy :: "js \<Rightarrow> bool" where
  "truthy Undef = False"
| "truthy Null = False"
| "truthy (JBool b) = b"
| "truthy (Num n) = (n \<noteq> Fin 0 \<and> n \<noteq> NaN)"
| "truthy (Str s) = (s \<noteq> [])"
| "truthy (Arr _) = True"
| "truthy (Obj _) = True"

section \<open>What the host decides\<close>

text \<open>
  Three operations depend on the host and are parameters: collation (\<^verbatim>\<open>localeCompare\<close>), the
  decimal digits of a number that is not a safe integer, and the digest of a string.
\<close>

record host =
  localeCompare :: "string \<Rightarrow> string \<Rightarrow> int"
  fracToString :: "rat \<Rightarrow> string"
  sha256 :: "string \<Rightarrow> string"

definition num_to_string :: "host \<Rightarrow> jsnum \<Rightarrow> string" where
  "num_to_string h n = (case n of
      Fin r \<Rightarrow> (if of_int \<lfloor>r\<rfloor> = r \<and> \<bar>\<lfloor>r\<rfloor>\<bar> < 10 ^ 21 then show_int \<lfloor>r\<rfloor> else fracToString h r)
    | PosInf \<Rightarrow> ''Infinity'' | NegInf \<Rightarrow> ''-Infinity'' | NaN \<Rightarrow> ''NaN'')"

lemma num_to_string_int [simp]: "\<bar>i\<bar> < 10 ^ 21 \<Longrightarrow> num_to_string h (num i) = show_int i"
  by (simp add: num_to_string_def)

primrec intersperse :: "'a list \<Rightarrow> 'a list list \<Rightarrow> 'a list" where
  "intersperse sep [] = []"
| "intersperse sep (x # xs) = (if xs = [] then x else x @ sep @ intersperse sep xs)"

text \<open>\<^verbatim>\<open>String(x)\<close>; in a joined array \<^verbatim>\<open>null\<close> and \<^verbatim>\<open>undefined\<close> are empty.\<close>

fun js_String :: "host \<Rightarrow> js \<Rightarrow> string" where
  "js_String h Undef = ''undefined''"
| "js_String h Null = ''null''"
| "js_String h (JBool b) = (if b then ''true'' else ''false'')"
| "js_String h (Num n) = num_to_string h n"
| "js_String h (Str s) = s"
| "js_String h (Arr xs) =
     intersperse '','' (map (\<lambda>x. if nullish x then [] else js_String h x) xs)"
| "js_String h (Obj _) = ''[object Object]''"

section \<open>Number(x)\<close>

definition unsigned_decimal :: "string \<Rightarrow> jsnum" where
  "unsigned_decimal s =
    (let ip = takeWhile is_digit s; r = dropWhile is_digit s;
         fp = (if r \<noteq> [] \<and> hd r = CHR ''.'' then takeWhile is_digit (tl r) else []);
         r' = (if r \<noteq> [] \<and> hd r = CHR ''.'' then dropWhile is_digit (tl r) else r);
         m = of_nat (read_nat (ip @ fp)) / 10 ^ length fp
     in if ip = [] \<and> fp = [] then NaN
        else case r' of
            [] \<Rightarrow> Fin m
          | c # e \<Rightarrow>
              if c \<noteq> CHR ''e'' \<and> c \<noteq> CHR ''E'' then NaN
              else let sgn = (e \<noteq> [] \<and> (hd e = CHR ''-'' \<or> hd e = CHR ''+''));
                       ds = (if sgn then tl e else e)
                   in if ds = [] \<or> \<not> list_all is_digit ds then NaN
                      else if sgn \<and> hd e = CHR ''-'' then Fin (m / 10 ^ read_nat ds)
                      else Fin (m * 10 ^ read_nat ds))"

text \<open>
  The numeric value of a string: surrounding white space is dropped, the empty string is zero,
  a decimal literal with an optional sign, fraction and exponent is its value, and anything
  else is \<^verbatim>\<open>NaN\<close> (the prefixed hexadecimal, octal and binary forms are not modelled).
\<close>

definition string_to_num :: "string \<Rightarrow> jsnum" where
  "string_to_num s =
    (let t = trim s in
     case t of
       [] \<Rightarrow> Fin 0
     | c # u \<Rightarrow>
         if t = ''Infinity'' \<or> t = ''+Infinity'' then PosInf
         else if t = ''-Infinity'' then NegInf
         else if c = CHR ''-'' then num_neg (unsigned_decimal u)
         else if c = CHR ''+'' then unsigned_decimal u
         else unsigned_decimal t)"

text \<open>The digits of a natural number denote it.\<close>

lemma digit_not_space: "is_digit c \<Longrightarrow> \<not> js_space c"
  by (auto simp: is_digit_def js_space_def char_between)

lemma trim_digits:
  assumes "list_all is_digit s"
  shows "trim s = s"
proof -
  have "dropWhile js_space t = t" if "set t \<subseteq> set s" for t
  proof (rule dropWhile_id)
    show "t = [] \<or> \<not> js_space (hd t)"
      using that assms digit_not_space by (cases t) (auto simp: list_all_iff)
  qed
  then show ?thesis by (simp add: trim_def trim_left_def)
qed

lemma unsigned_decimal_digits:
  assumes "list_all is_digit s" "s \<noteq> []"
  shows "unsigned_decimal s = Fin (of_nat (read_nat s))"
proof -
  have tw: "takeWhile is_digit s = s" and dw: "dropWhile is_digit s = []"
    using assms(1) by (simp_all add: list_all_iff takeWhile_eq_all_conv)
  show ?thesis using assms(2) unfolding unsigned_decimal_def Let_def tw dw by simp
qed

lemma string_to_num_digits:
  assumes "list_all is_digit s" "s \<noteq> []"
  shows "string_to_num s = Fin (of_nat (read_nat s))"
proof -
  obtain c u where s: "s = c # u" using assms(2) by (cases s) auto
  then have "is_digit c" using assms(1) by simp
  then have "c \<noteq> CHR ''-'' \<and> c \<noteq> CHR ''+'' \<and> c \<noteq> CHR ''I''"
    by (auto simp: is_digit_def char_between)
  then show ?thesis
    using trim_digits [OF assms(1)] unsigned_decimal_digits [OF assms] s by (simp add: string_to_num_def Let_def)
qed

lemma string_to_num_show_nat [simp]: "string_to_num (show_nat n) = Fin (of_nat n)"
  by (simp add: string_to_num_digits show_nat_digits show_nat_nonempty read_show_nat)

fun js_Number :: "host \<Rightarrow> js \<Rightarrow> jsnum" where
  "js_Number h Undef = NaN"
| "js_Number h Null = Fin 0"
| "js_Number h (JBool b) = (if b then Fin 1 else Fin 0)"
| "js_Number h (Num n) = n"
| "js_Number h (Str s) = string_to_num s"
| "js_Number h (Arr xs) = string_to_num (js_String h (Arr xs))"
| "js_Number h (Obj _) = NaN"

text \<open>\<^verbatim>\<open>parseInt(s, 10)\<close>: the longest prefix that is a signed decimal integer.\<close>

definition js_parseInt :: "string \<Rightarrow> jsnum" where
  "js_parseInt s =
    (let t = dropWhile js_space s;
         neg = (t \<noteq> [] \<and> hd t = CHR ''-'');
         u = (if t \<noteq> [] \<and> (hd t = CHR ''-'' \<or> hd t = CHR ''+'') then tl t else t);
         ds = takeWhile is_digit u
     in if ds = [] then NaN
        else Fin (if neg then - of_nat (read_nat ds) else of_nat (read_nat ds)))"

section \<open>Thrown errors\<close>

text \<open>An \<^verbatim>\<open>Error\<close> object: its class name, its message and the fields a subclass adds.\<close>

datatype js_error = JsError (err_name: string) (err_message: string) (err_context: js_record)

section \<open>JSON.stringify\<close>

definition hex_digit :: "nat \<Rightarrow> char" where
  "hex_digit d = (if d < 10 then char_of (48 + d) else char_of (87 + d))"

definition json_escape :: "char \<Rightarrow> string" where
  "json_escape c = (let n = of_char c :: nat in
     if n = 34 then [CHR 0x5C, CHR 0x22]
     else if n = 92 then [CHR 0x5C, CHR 0x5C]
     else if n = 8 then [CHR 0x5C, CHR ''b'']
     else if n = 9 then [CHR 0x5C, CHR ''t'']
     else if n = 10 then [CHR 0x5C, CHR ''n'']
     else if n = 12 then [CHR 0x5C, CHR ''f'']
     else if n = 13 then [CHR 0x5C, CHR ''r'']
     else if n < 32 then [CHR 0x5C] @ ''u00'' @ [hex_digit (n div 16), hex_digit (n mod 16)]
     else [c])"

definition json_quote :: "string \<Rightarrow> string" where
  "json_quote s = [CHR 0x22] @ concat (map json_escape s) @ [CHR 0x22]"

fun stringify :: "host \<Rightarrow> js \<Rightarrow> string" where
  "stringify h Undef = ''null''"
| "stringify h Null = ''null''"
| "stringify h (JBool b) = (if b then ''true'' else ''false'')"
| "stringify h (Num n) = (if num_isFinite n then num_to_string h n else ''null'')"
| "stringify h (Str s) = json_quote s"
| "stringify h (Arr xs) = ''['' @ intersperse '','' (map (stringify h) xs) @ '']''"
| "stringify h (Obj kvs) =
     ''{'' @ intersperse '','' (map (\<lambda>(k, v). json_quote k @ '':'' @ stringify h v)
       (filter (\<lambda>(k, v). v \<noteq> Undef) kvs)) @ ''}''"

text \<open>\<^verbatim>\<open>Buffer.byteLength(s, 'utf8')\<close>: a code unit below 128 takes one byte, the others two.\<close>

definition utf8_bytes :: "string \<Rightarrow> nat" where
  "utf8_bytes s = sum_list (map (\<lambda>c. if (of_char c :: nat) < 128 then 1 else 2) s)"

section \<open>Collation\<close>

text \<open>
  What the callers of \<^verbatim>\<open>localeCompare\<close> rely on: a comparator whose sign is antisymmetric and
  whose non-positive part is transitive, and that separates distinct strings.
\<close>

locale collation =
  fixes lc :: "string \<Rightarrow> string \<Rightarrow> int"
  assumes lc_zero: "lc a b = 0 \<longleftrightarrow> a = b"
    and lc_sign: "lc a b < 0 \<longleftrightarrow> 0 < lc b a"
    and lc_trans: "lc a b \<le> 0 \<Longrightarrow> lc b c \<le> 0 \<Longrightarrow> lc a c \<le> 0"
begin

lemma lc_less_trans: "lc a b < 0 \<Longrightarrow> lc b c < 0 \<Longrightarrow> lc a c < 0"
  by (metis lc_sign lc_trans lc_zero less_le not_less)

lemma lc_total: "a \<noteq> b \<Longrightarrow> lc a b < 0 \<or> lc b a < 0"
  using lc_sign lc_zero by (metis linorder_cases)

lemma lc_refl [simp]: "lc a a = 0"
  by (simp add: lc_zero)

end

text \<open>Code-unit order, which collation agrees with on lower-case hexadecimal strings.\<close>

fun unitCompare :: "string \<Rightarrow> string \<Rightarrow> int" where
  "unitCompare [] [] = 0"
| "unitCompare [] (_ # _) = -1"
| "unitCompare (_ # _) [] = 1"
| "unitCompare (a # s) (b # t) = (if a < b then -1 else if b < a then 1 else unitCompare s t)"

lemma unitCompare_zero: "unitCompare a b = 0 \<longleftrightarrow> a = b"
  by (induction a b rule: unitCompare.induct) auto

lemma unitCompare_sign: "unitCompare a b = - unitCompare b a"
  by (induction a b rule: unitCompare.induct) auto

lemma unitCompare_trans: "unitCompare a b \<le> 0 \<Longrightarrow> unitCompare b c \<le> 0 \<Longrightarrow> unitCompare a c \<le> 0"
proof (induction a b arbitrary: c rule: unitCompare.induct)
  case (1)
  then show ?case by simp
next
  case (2 x xs)
  then show ?case by (cases c) auto
next
  case (3 x xs)
  then show ?case by simp
next
  case (4 x xs y ys)
  then show ?case by (cases c) (auto split: if_splits)
qed

interpretation unit_order: collation unitCompare
proof
  show "unitCompare a b = 0 \<longleftrightarrow> a = b" for a b by (rule unitCompare_zero)
  show "unitCompare a b < 0 \<longleftrightarrow> 0 < unitCompare b a" for a b
    using unitCompare_sign [of a b] by linarith
  show "unitCompare a b \<le> 0 \<Longrightarrow> unitCompare b c \<le> 0 \<Longrightarrow> unitCompare a c \<le> 0" for a b c
    by (rule unitCompare_trans)
qed

text \<open>A host, for concrete inputs.\<close>

definition plain_host :: host where
  "plain_host = \<lparr>localeCompare = unitCompare, fracToString = (\<lambda>_. []), sha256 = id\<rparr>"

end
