(* ===== verification/Wordle_Engine.thy ===== *)
theory Wordle_Engine
  imports Js_Values
begin

text \<open>
  The guess evaluation of \<^verbatim>\<open>backend/src/dewordle/wordle.engine.ts\<close>: a letter-count table of the
  solution, a first pass that marks exact matches and takes them from the table, and a second
  pass that marks the remaining letters while the table has copies left.  The lemmas relate
  the two passes to a closed description of every mark and to the letter counts of both words.
\<close>

section \<open>Data\<close>

datatype LetterStatus = Correct | Present | Absent

record LetterEvaluation =
  letter :: char
  status :: LetterStatus

datatype engine_error = GuessLengthMismatch nat nat | SolutionTooShort

type_synonym letter_counts = "char \<rightharpoonup> int"

section \<open>The two passes\<close>

text \<open>\<^verbatim>\<open>counts[letter] = (counts[letter] || 0) + 1\<close> over the solution.\<close>

definition count_of :: "letter_counts \<Rightarrow> char \<Rightarrow> int" where
  "count_of m c = (case m c of None \<Rightarrow> 0 | Some n \<Rightarrow> n)"

fun countLetters :: "string \<Rightarrow> letter_counts \<Rightarrow> letter_counts" where
  "countLetters [] m = m"
| "countLetters (c # cs) m = countLetters cs (m(c \<mapsto> count_of m c + 1))"

fun firstPass :: "string \<Rightarrow> string \<Rightarrow> LetterEvaluation list \<Rightarrow> letter_counts
    \<Rightarrow> LetterEvaluation list \<times> letter_counts" where
  "firstPass (g # gs) (s # ss) (r # rs) m =
     (let (r', m') = (if g = s then (r\<lparr>status := Correct\<rparr>, m(g \<mapsto> count_of m g - 1)) else (r, m));
          (rs', m'') = firstPass gs ss rs m'
      in (r' # rs', m''))"
| "firstPass _ _ rs m = (rs, m)"

fun secondPass :: "string \<Rightarrow> LetterEvaluation list \<Rightarrow> letter_counts \<Rightarrow> LetterEvaluation list" where
  "secondPass (g # gs) (r # rs) m =
     (if status r = Correct then r # secondPass gs rs m
      else if count_of m g > 0
      then r\<lparr>status := Present\<rparr> # secondPass gs rs (m(g \<mapsto> count_of m g - 1))
      else r # secondPass gs rs m)"
| "secondPass _ rs m = rs"

definition evaluateGuess :: "string \<Rightarrow> string \<Rightarrow> engine_error + LetterEvaluation list" where
  "evaluateGuess guess solution =
    (let normalizedGuess = trim (toUpperCase guess);
         normalizedSolution = trim (toUpperCase solution);
         wordLength = length normalizedSolution
     in if length normalizedGuess \<noteq> wordLength
        then Inl (GuessLengthMismatch (length normalizedGuess) wordLength)
        else if wordLength < 1 then Inl SolutionTooShort
        else
          let result = map (\<lambda>c. \<lparr>letter = c, status = Absent\<rparr>) normalizedGuess;
              counts = countLetters normalizedSolution Map.empty;
              (result', counts') = firstPass normalizedGuess normalizedSolution result counts
          in Inr (secondPass normalizedGuess result' counts'))"

section \<open>Rendering\<close>

text \<open>The squares in UTF-8.\<close>

definition status_symbol :: "LetterStatus \<Rightarrow> string" where
  "status_symbol st = (case st of
      Correct \<Rightarrow> [CHR 0xF0, CHR 0x9F, CHR 0x9F, CHR 0xA9]
    | Present \<Rightarrow> [CHR 0xF0, CHR 0x9F, CHR 0x9F, CHR 0xA8]
    | Absent \<Rightarrow> [CHR 0xE2, CHR 0xAC, CHR 0x9C])"

definition status_name :: "LetterStatus \<Rightarrow> string" where
  "status_name st = (case st of Correct \<Rightarrow> ''correct'' | Present \<Rightarrow> ''present'' | Absent \<Rightarrow> ''absent'')"

definition getStatusSymbols :: "LetterEvaluation list \<Rightarrow> string" where
  "getStatusSymbols evaluation = concat (map (\<lambda>e. status_symbol (status e)) evaluation)"

definition formatEvaluation :: "LetterEvaluation list \<Rightarrow> string" where
  "formatEvaluation evaluation =
     intersperse '', ''
       (map (\<lambda>e. letter e # '': '' @ status_name (status e) @ '' '' @ status_symbol (status e)) evaluation)"

section \<open>The closed description of the marks\<close>

text \<open>
  Position \<open>i\<close> is correct when the letters agree.  Otherwise its letter competes, from left
  to right, for the copies in the solution that no exact match has taken.
\<close>

definition unmatched :: "string \<Rightarrow> string \<Rightarrow> char \<Rightarrow> nat" where
  "unmatched g s c = length (filter (\<lambda>(a, b). b = c \<and> a \<noteq> b) (zip g s))"

definition earlier_misses :: "string \<Rightarrow> string \<Rightarrow> nat \<Rightarrow> nat" where
  "earlier_misses g s i = length (filter (\<lambda>(a, b). a = g ! i \<and> a \<noteq> b) (take i (zip g s)))"

definition spec_status :: "string \<Rightarrow> string \<Rightarrow> nat \<Rightarrow> LetterStatus" where
  "spec_status g s i =
     (if g ! i = s ! i then Correct
      else if earlier_misses g s i < unmatched g s (g ! i) then Present
      else Absent)"

lemma count_of_upd [simp]: "count_of (m(c \<mapsto> n)) d = (if d = c then n else count_of m d)"
  by (simp add: count_of_def)

lemma count_of_empty [simp]: "count_of Map.empty c = 0"
  by (simp add: count_of_def)

lemma count_countLetters: "count_of (countLetters s m) c = count_of m c + int (count_list s c)"
  by (induction s arbitrary: m) auto

lemma firstPass_counts:
  "length g = length s \<Longrightarrow> length rs = length s \<Longrightarrow>
   count_of (snd (firstPass g s rs m)) c =
     count_of m c - int (length (filter (\<lambda>(a, b). b = c \<and> a = b) (zip g s)))"
proof (induction g s rs m rule: firstPass.induct)
  case (1 g gs s ss r rs m)
  then show ?case by (cases "g = s") (auto simp: Let_def simp del: fun_upd_apply split: prod.splits)
qed auto

lemma firstPass_result:
  "length g = length s \<Longrightarrow> length rs = length s \<Longrightarrow>
   fst (firstPass g s rs m) =
     map (\<lambda>((a, b), r). if a = b then r\<lparr>status := Correct\<rparr> else r) (zip (zip g s) rs)"
proof (induction g s rs m rule: firstPass.induct)
  case (1 g gs s ss r rs m)
  then show ?case by (cases "g = s") (auto simp: Let_def simp del: fun_upd_apply split: prod.splits)
qed auto

text \<open>The table after the first pass holds the unmatched copies of every letter.\<close>

lemma count_list_split:
  "length g = length s \<Longrightarrow>
   count_list s c = length (filter (\<lambda>(a, b). b = c \<and> a = b) (zip g s)) + unmatched g s c"
  by (induction g s rule: list_induct2) (auto simp: unmatched_def)

text \<open>
  The second pass over a suffix: \<^verbatim>\<open>k\<close> counts the copies of each letter the pass has
  already handed out in the prefix.
\<close>

fun second_spec :: "(char \<times> char) list \<Rightarrow> (char \<Rightarrow> int) \<Rightarrow> LetterStatus list" where
  "second_spec [] k = []"
| "second_spec ((a, b) # ps) k =
     (if a = b then Correct # second_spec ps k
      else if k a > 0 then Present # second_spec ps (k(a := k a - 1))
      else Absent # second_spec ps k)"

lemma secondPass_spec:
  "map status (secondPass (map fst ps)
      (map (\<lambda>(a, b). \<lparr>letter = a, status = (if a = b then Correct else Absent)\<rparr>) ps) m) =
   second_spec ps (count_of m)"
proof (induction ps arbitrary: m)
  case (Cons p ps)
  have "count_of (m(c \<mapsto> n)) = (count_of m)(c := n)" for c n by (rule ext) simp
  with Cons show ?case by (cases p) (auto simp del: fun_upd_apply)
qed simp

lemma secondPass_letters:
  "map letter (secondPass g rs m) = map letter rs"
  by (induction g rs m rule: secondPass.induct) (auto simp del: fun_upd_apply)

lemma length_second_spec [simp]: "length (second_spec ps k) = length ps"
  by (induction ps k rule: second_spec.induct) (auto simp del: fun_upd_apply)

lemma second_spec_nth:
  "i < length ps \<Longrightarrow>
   second_spec ps k ! i =
     (case ps ! i of (a, b) \<Rightarrow>
        if a = b then Correct
        else if int (length (filter (\<lambda>(x, y). x = a \<and> x \<noteq> y) (take i ps))) < k a then Present
        else Absent)"
proof (induction ps k arbitrary: i rule: second_spec.induct)
  case (2 a b ps k)
  show ?case
  proof (cases i)
    case 0
    then show ?thesis by simp
  next
    case (Suc j)
    then have j: "j < length ps" using "2.prems" by simp
    obtain c d where cd: "ps ! j = (c, d)" by (cases "ps ! j")
    show ?thesis
    proof (cases "a = b")
      case True
      then show ?thesis using "2.IH"(1) j Suc cd by simp
    next
      case False
      then show ?thesis using "2.IH"(2,3) j Suc cd by (cases "k a > 0"; cases "c = a") (auto simp: fun_upd_def)
    qed
  qed
qed simp

section \<open>Correctness of the evaluation\<close>

definition normalized :: "string \<Rightarrow> string" where
  "normalized s = trim (toUpperCase s)"

lemma evaluateGuess_passes:
  assumes "length (normalized guess) = length (normalized solution)" "normalized solution \<noteq> []"
  shows "\<exists>m. (\<forall>c. count_of m c = int (unmatched (normalized guess) (normalized solution) c)) \<and>
    evaluateGuess guess solution = Inr (secondPass (normalized guess)
      (map (\<lambda>(a, b). \<lparr>letter = a, status = (if a = b then Correct else Absent)\<rparr>)
         (zip (normalized guess) (normalized solution))) m)"
proof -
  let ?g = "normalized guess" and ?s = "normalized solution"
  let ?init = "map (\<lambda>c. \<lparr>letter = c, status = Absent\<rparr>) ?g"
  let ?cs = "countLetters ?s Map.empty"
  let ?m = "snd (firstPass ?g ?s ?init ?cs)"
  have len: "length ?init = length ?s" using assms by simp
  have cnt: "count_of ?m c = int (unmatched ?g ?s c)" for c
    using firstPass_counts [OF assms(1) len, where m = ?cs and c = c] count_list_split [OF assms(1), of c]
    by (simp add: count_countLetters)
  have fst: "fst (firstPass ?g ?s ?init ?cs) =
      map (\<lambda>(a, b). \<lparr>letter = a, status = (if a = b then Correct else Absent)\<rparr>) (zip ?g ?s)"
    unfolding firstPass_result [OF assms(1) len]
    using assms(1) by (intro nth_equalityI) auto
  have "evaluateGuess guess solution = Inr (secondPass ?g (fst (firstPass ?g ?s ?init ?cs)) ?m)"
    using assms by (auto simp: evaluateGuess_def normalized_def Let_def split: prod.splits)
  then show ?thesis using cnt fst by (intro exI [of _ ?m]) simp
qed

lemma evaluateGuess_statuses:
  assumes "length (normalized guess) = length (normalized solution)" "normalized solution \<noteq> []"
  shows "\<exists>r. evaluateGuess guess solution = Inr r \<and> map letter r = normalized guess \<and>
    map status r = second_spec (zip (normalized guess) (normalized solution))
      (\<lambda>c. int (unmatched (normalized guess) (normalized solution) c))"
proof -
  let ?g = "normalized guess" and ?s = "normalized solution"
  obtain m where m: "\<forall>c. count_of m c = int (unmatched ?g ?s c)"
    and ev: "evaluateGuess guess solution = Inr (secondPass ?g
      (map (\<lambda>(a, b). \<lparr>letter = a, status = (if a = b then Correct else Absent)\<rparr>) (zip ?g ?s)) m)"
    using evaluateGuess_passes [OF assms] by blast
  have g: "?g = map fst (zip ?g ?s)" using assms(1) by simp
  have c: "count_of m = (\<lambda>c. int (unmatched ?g ?s c))" using m by auto
  let ?r = "secondPass ?g
      (map (\<lambda>(a, b). \<lparr>letter = a, status = (if a = b then Correct else Absent)\<rparr>) (zip ?g ?s)) m"
  have "map status ?r = second_spec (zip ?g ?s) (count_of m)"
    using secondPass_spec [of "zip ?g ?s" m] g by simp
  moreover have "map letter ?r = ?g"
    using assms(1) by (simp add: secondPass_letters comp_def case_prod_beta)
  ultimately show ?thesis using ev c by auto
qed

lemma evaluateGuess_returns_iff:
  "(\<exists>r. evaluateGuess guess solution = Inr r) \<longleftrightarrow>
     length (normalized guess) = length (normalized solution) \<and> normalized solution \<noteq> []"
proof -
  have "evaluateGuess guess solution \<noteq> Inr r"
    if "\<not> (length (normalized guess) = length (normalized solution) \<and> normalized solution \<noteq> [])" for r
    using that by (auto simp: evaluateGuess_def normalized_def Let_def)
  then show ?thesis using evaluateGuess_statuses by blast
qed

lemma zip_not_Correct_second_spec:
  "second_spec ps k = replicate (length ps) Correct \<longleftrightarrow> (\<forall>(a, b) \<in> set ps. a = b)"
  by (induction ps k rule: second_spec.induct) auto

lemma zip_all_eq: "length g = length s \<Longrightarrow> (\<forall>(a, b) \<in> set (zip g s). a = b) \<longleftrightarrow> g = s"
  by (induction g s rule: list_induct2) auto

text \<open>Marks of one letter over a list of pairs with a budget of copies.\<close>

lemma marks_second_spec:
  "0 \<le> k c \<Longrightarrow>
   int (length (filter (\<lambda>((a, b), st). a = c \<and> st \<noteq> Absent) (zip ps (second_spec ps k)))) =
     int (length (filter (\<lambda>(a, b). a = c \<and> a = b) ps)) +
     min (k c) (int (length (filter (\<lambda>(a, b). a = c \<and> a \<noteq> b) ps)))"
proof (induction ps k rule: second_spec.induct)
  case (2 a b ps k)
  show ?case
  proof (cases "a = b")
    case True
    then show ?thesis using 2 by auto
  next
    case False
    then show ?thesis using "2.IH"(2,3) "2.prems" by (cases "k a > 0"; cases "a = c") (auto simp: fun_upd_def)
  qed
qed simp

lemma count_list_pairs:
  "length g = length s \<Longrightarrow>
   count_list g c = length (filter (\<lambda>(a, b). a = c \<and> a = b) (zip g s)) +
     length (filter (\<lambda>(a, b). a = c \<and> a \<noteq> b) (zip g s))"
  by (induction g s rule: list_induct2) auto

lemma matched_sym:
  "filter (\<lambda>(a, b). a = c \<and> a = b) ps = filter (\<lambda>(a, b). b = c \<and> a = b) ps"
  by (induction ps) auto

lemma zip_map_length_filter:
  "length r = length ps \<Longrightarrow> map letter r = map fst ps \<Longrightarrow>
   length (filter (\<lambda>((a, b), st). a = c \<and> st \<noteq> Absent) (zip ps (map status r))) =
   length (filter (\<lambda>e. letter e = c \<and> status e \<noteq> Absent) r)"
  by (induction r ps rule: list_induct2) auto


lemma evaluateGuess_errs:
  "length (normalized guess) \<noteq> length (normalized solution) \<Longrightarrow>
     evaluateGuess guess solution =
       Inl (GuessLengthMismatch (length (normalized guess)) (length (normalized solution)))"
  "length (normalized guess) = length (normalized solution) \<Longrightarrow> normalized solution = [] \<Longrightarrow>
     evaluateGuess guess solution = Inl SolutionTooShort"
  by (simp_all add: evaluateGuess_def normalized_def Let_def)

lemma evaluateGuess_InrD:
  "evaluateGuess guess solution = Inr r \<Longrightarrow>
     length (normalized guess) = length (normalized solution) \<and> normalized solution \<noteq> []"
  using evaluateGuess_returns_iff by blast

lemma evaluateGuess_InrD_letters:
  "evaluateGuess guess solution = Inr r \<Longrightarrow> map letter r = normalized guess"
  using evaluateGuess_statuses evaluateGuess_InrD by (metis sum.inject(2))

lemma evaluateGuess_length:
  "evaluateGuess guess solution = Inr r \<Longrightarrow> length r = length (normalized solution)"
  using evaluateGuess_InrD evaluateGuess_InrD_letters by (metis length_map)

lemma evaluateGuess_InrD_statuses:
  "evaluateGuess guess solution = Inr r \<Longrightarrow>
   map status r = second_spec (zip (normalized guess) (normalized solution))
      (\<lambda>c. int (unmatched (normalized guess) (normalized solution) c))"
  using evaluateGuess_statuses evaluateGuess_InrD by (metis sum.inject(2))

lemma evaluateGuess_all_correct:
  assumes "evaluateGuess guess solution = Inr r"
  shows "(\<forall>e \<in> set r. status e = Correct) \<longleftrightarrow> normalized guess = normalized solution"
proof -
  let ?ps = "zip (normalized guess) (normalized solution)"
  have len: "length (normalized guess) = length (normalized solution)"
    using assms evaluateGuess_InrD by blast
  have "(\<forall>e \<in> set r. status e = Correct) \<longleftrightarrow> map status r = replicate (length ?ps) Correct"
    using evaluateGuess_length [OF assms] len map_replicate_iff [of status r Correct] by simp
  also have "\<dots> \<longleftrightarrow> normalized guess = normalized solution"
    unfolding evaluateGuess_InrD_statuses [OF assms] zip_not_Correct_second_spec
    by (rule zip_all_eq [OF len])
  finally show ?thesis .
qed

lemma normalized_toLowerCase [simp]: "normalized (toLowerCase s) = normalized s"
  by (simp add: normalized_def)

lemma normalized_trim [simp]: "normalized (trim s) = normalized s"
  by (simp add: normalized_def flip: trim_toUpperCase)

lemma evaluateGuess_normalized:
  "normalized g = normalized g' \<Longrightarrow> normalized s = normalized s' \<Longrightarrow>
   evaluateGuess g s = evaluateGuess g' s'"
  by (simp add: evaluateGuess_def normalized_def)

lemma status_symbol_inj: "status_symbol a @ x = status_symbol b @ y \<longleftrightarrow> a = b \<and> x = y"
  by (cases a; cases b) (auto simp: status_symbol_def)

section \<open>Properties\<close>

text \<open>
  C1: When the trimmed words have equal positive length the evaluation returns one entry per
  letter of the guess, in order, and every mark is the one the rules of the game give: correct
  on a match, present while the letters that no exact match has taken still hold a copy,
  counting from the left, and absent otherwise.
\<close>

theorem evaluateGuess_marks:
  assumes "length (normalized guess) = length (normalized solution)"
    and "normalized solution \<noteq> []"
  shows "\<exists>r. evaluateGuess guess solution = Inr r \<and> map letter r = normalized guess \<and>
    map status r = map (spec_status (normalized guess) (normalized solution)) [0..<length (normalized guess)]"
proof -
  let ?g = "normalized guess" and ?s = "normalized solution"
  let ?k = "\<lambda>c. int (unmatched ?g ?s c)"
  have "second_spec (zip ?g ?s) ?k = map (spec_status ?g ?s) [0..<length ?g]"
    using assms(1)
    by (intro nth_equalityI)
      (auto simp: second_spec_nth spec_status_def earlier_misses_def)
  then show ?thesis using evaluateGuess_statuses [OF assms] by auto
qed

theorem evaluateGuess_marks_witness:
  "\<exists>r. evaluateGuess ''llama'' '' APPLE'' = Inr r \<and> map letter r = ''LLAMA'' \<and>
    map status r = [Present, Absent, Present, Absent, Absent]"
proof -
  have n: "normalized ''llama'' = ''LLAMA''" "normalized '' APPLE'' = ''APPLE''" by code_simp+
  have m: "map (spec_status ''LLAMA'' ''APPLE'') [0..<length ''LLAMA''] =
      [Present, Absent, Present, Absent, Absent]"
    by code_simp
  show ?thesis
    by (rule evaluateGuess_marks [of "''llama''" "'' APPLE''", unfolded n m]) simp_all
qed

text \<open>
  However often a letter occurs in the guess, the number of its marks other than absent
  is the smaller of its number of occurrences in the guess and in the solution.
\<close>

theorem evaluateGuess_letter_budget:
  assumes "evaluateGuess guess solution = Inr r"
  shows "length (filter (\<lambda>e. letter e = c \<and> status e \<noteq> Absent) r) =
    min (count_list (normalized guess) c) (count_list (normalized solution) c)"
proof -
  let ?g = "normalized guess" and ?s = "normalized solution"
  have len: "length ?g = length ?s" using assms evaluateGuess_InrD by blast
  have r: "length r = length (zip ?g ?s)" "map letter r = map fst (zip ?g ?s)"
    using evaluateGuess_length [OF assms] evaluateGuess_InrD_letters [OF assms] len by auto
  show ?thesis
    using zip_map_length_filter [OF r, of c] count_list_pairs [OF len, of c]
      count_list_split [OF len, of c] marks_second_spec [of "\<lambda>c. int (unmatched ?g ?s c)" c "zip ?g ?s"]
    by (simp add: evaluateGuess_InrD_statuses [OF assms] matched_sym)
qed

theorem evaluateGuess_letter_budget_witness:
  "\<exists>r. evaluateGuess ''geese'' ''speed'' = Inr r \<and>
    length (filter (\<lambda>e. letter e = CHR ''E'' \<and> status e \<noteq> Absent) r) = 2"
proof -
  have n: "normalized ''geese'' = ''GEESE''" "normalized ''speed'' = ''SPEED''" by code_simp+
  then obtain r where r: "evaluateGuess ''geese'' ''speed'' = Inr r"
    using evaluateGuess_returns_iff [of "''geese''" "''speed''"] by auto
  then show ?thesis using evaluateGuess_letter_budget [OF r, of "CHR ''E''"] n by simp
qed

text \<open>
  All marks are correct exactly when the guess is the solution up to case and surrounding
  white space, so the win test of the callers accepts the solution and nothing else.
\<close>

theorem evaluateGuess_win_iff:
  assumes "evaluateGuess guess solution = Inr r"
  shows "list_all (\<lambda>e. status e = Correct) r \<longleftrightarrow>
    trim (toUpperCase guess) = trim (toUpperCase solution)"
  using evaluateGuess_all_correct [OF assms] by (simp add: list_all_iff normalized_def)

theorem evaluateGuess_win_iff_witness:
  "\<exists>r. evaluateGuess ''world'' ''WORLD '' = Inr r \<and> list_all (\<lambda>e. status e = Correct) r"
proof -
  have n: "trim (toUpperCase ''world'') = ''WORLD''" "trim (toUpperCase ''WORLD '') = ''WORLD''"
    by code_simp+
  then obtain r where r: "evaluateGuess ''world'' ''WORLD '' = Inr r"
    using evaluateGuess_returns_iff [of "''world''" "''WORLD ''"] by (auto simp: normalized_def)
  then show ?thesis using evaluateGuess_win_iff [OF r] n by simp
qed

text \<open>
  The evaluation throws for exactly two reasons, tested in this order: the trimmed lengths
  differ, and the error names both lengths, or both words are empty after trimming.
\<close>

theorem evaluateGuess_error_iff:
  "evaluateGuess guess solution = Inl e \<longleftrightarrow>
     (let n = length (normalized guess); m = length (normalized solution)
      in (n \<noteq> m \<and> e = GuessLengthMismatch n m) \<or> (n = m \<and> m = 0 \<and> e = SolutionTooShort))"
proof (cases "length (normalized guess) = length (normalized solution) \<and> normalized solution \<noteq> []")
  case True
  then obtain r where "evaluateGuess guess solution = Inr r"
    using evaluateGuess_returns_iff by blast
  then show ?thesis using True by (simp add: Let_def)
next
  case False
  then consider
      "length (normalized guess) \<noteq> length (normalized solution)"
    | "length (normalized guess) = length (normalized solution)" "normalized solution = []" by blast
  then show ?thesis
    by cases (auto simp: Let_def evaluateGuess_errs)
qed

text \<open>
  The row of coloured squares shown to a player determines the marks.\<close>

theorem getStatusSymbols_inj:
  "getStatusSymbols r = getStatusSymbols r' \<longleftrightarrow> map status r = map status r'"
proof (induction r arbitrary: r')
  case Nil
  then show ?case
    by (cases r') (auto simp: getStatusSymbols_def status_symbol_def split: LetterStatus.splits)
next
  case (Cons e r)
  show ?case
  proof (cases r')
    case Nil
    then show ?thesis
      by (auto simp: getStatusSymbols_def status_symbol_def split: LetterStatus.splits)
  next
    case (Cons e' r'')
    then show ?thesis
      using Cons.IH [of r''] by (auto simp: getStatusSymbols_def status_symbol_inj)
  qed
qed

end
