(* ===== verification/Event_Ordering.thy ===== *)
theory Event_Ordering
  imports Js_Values
begin

text \<open>
  The event the indexer passes around (\<^verbatim>\<open>backend/src/indexer/dto/ingested-event.dto.ts\<close>) and the
  order of events on a stream: \<^verbatim>\<open>processors/event-ordering.util.ts\<close> compares ledger, then
  transaction hash by collation, then event index.  For events whose two numbers are integers
  the comparison is a comparator in the sense of the array sort.
\<close>

record IngestedEventDto =
  ev_network :: string
  ev_contractId :: string
  ev_topic :: string
  ev_txHash :: string
  ev_ledger :: jsnum
  ev_eventIndex :: jsnum
  ev_payload :: js_record
  ev_observedAt :: int

definition compareEventsByCursor ::
    "(string \<Rightarrow> string \<Rightarrow> int) \<Rightarrow> IngestedEventDto \<Rightarrow> IngestedEventDto \<Rightarrow> jsnum" where
  "compareEventsByCursor lc a b =
    (if \<not> num_eq (ev_ledger a) (ev_ledger b) then num_sub (ev_ledger a) (ev_ledger b)
     else if ev_txHash a \<noteq> ev_txHash b then num (lc (ev_txHash a) (ev_txHash b))
     else num_sub (ev_eventIndex a) (ev_eventIndex b))"

text \<open>The test the sort makes on the comparator's result.\<close>

definition event_gt :: "(string \<Rightarrow> string \<Rightarrow> int) \<Rightarrow> IngestedEventDto \<Rightarrow> IngestedEventDto \<Rightarrow> bool" where
  "event_gt lc a b \<longleftrightarrow> num_lt (Fin 0) (compareEventsByCursor lc a b)"

definition sort_events :: "(string \<Rightarrow> string \<Rightarrow> int) \<Rightarrow> IngestedEventDto list \<Rightarrow> IngestedEventDto list" where
  "sort_events lc es = sort_by (event_gt lc) es"

lemma mset_sort_events [simp]: "mset (sort_events lc es) = mset es"
  by (simp add: sort_events_def)

lemma length_sort_events [simp]: "length (sort_events lc es) = length es"
  by (metis mset_sort_events size_mset)

text \<open>An event with the numbers its DTO declares.\<close>

definition placed :: "IngestedEventDto \<Rightarrow> bool" where
  "placed e \<longleftrightarrow> num_isInteger (ev_ledger e) \<and> num_isInteger (ev_eventIndex e)"

text \<open>Positions on the stream, and their strict order.\<close>

type_synonym position = "jsnum \<times> string \<times> jsnum"

definition position_of :: "IngestedEventDto \<Rightarrow> position" where
  "position_of e = (ev_ledger e, ev_txHash e, ev_eventIndex e)"

fun pos_gt :: "(string \<Rightarrow> string \<Rightarrow> int) \<Rightarrow> position \<Rightarrow> position \<Rightarrow> bool" where
  "pos_gt lc (l, t, i) (l', t', i') \<longleftrightarrow>
     num_lt l' l \<or> (l = l' \<and> (0 < lc t t' \<or> (t = t' \<and> num_lt i' i)))"

fun placed_pos :: "position \<Rightarrow> bool" where
  "placed_pos (l, t, i) \<longleftrightarrow> num_isFinite l \<and> num_isFinite i"

lemma placed_pos_placed: "placed e \<Longrightarrow> placed_pos (position_of e)"
  by (auto simp: placed_def position_of_def elim!: num_isIntegerE)

lemma placed_posE:
  "placed_pos p \<Longrightarrow> (\<And>l t i. p = (Fin l, t, Fin i) \<Longrightarrow> P) \<Longrightarrow> P"
  by (cases p rule: placed_pos.cases) (auto elim!: num_isFinite.elims)

lemma num_eq_Fin: "num_eq (Fin a) y \<longleftrightarrow> y = Fin a"
  by (cases y) auto

context collation begin

lemma pos_gt_irrefl: "placed_pos p \<Longrightarrow> \<not> pos_gt lc p p"
  by (auto elim!: placed_posE)

lemma lc_pos_asym: "0 < lc a b \<Longrightarrow> \<not> 0 < lc b a"
  using lc_sign [of b a] by linarith

lemma lc_pos_trans: "0 < lc a b \<Longrightarrow> 0 < lc b c \<Longrightarrow> 0 < lc a c"
  using lc_less_trans lc_sign by blast

lemma pos_gt_asym: "placed_pos p \<Longrightarrow> placed_pos q \<Longrightarrow> pos_gt lc p q \<Longrightarrow> \<not> pos_gt lc q p"
  by (auto elim!: placed_posE dest: lc_pos_asym)

lemma pos_gt_total: "placed_pos p \<Longrightarrow> placed_pos q \<Longrightarrow> p \<noteq> q \<Longrightarrow> pos_gt lc p q \<or> pos_gt lc q p"
  using lc_total lc_sign by (auto elim!: placed_posE) force+

lemma pos_gt_trans:
  "placed_pos p \<Longrightarrow> placed_pos q \<Longrightarrow> placed_pos r \<Longrightarrow> pos_gt lc p q \<Longrightarrow> pos_gt lc q r \<Longrightarrow> pos_gt lc p r"
  by (auto elim!: placed_posE dest: lc_pos_trans)

lemma event_gt_iff:
  "placed a \<Longrightarrow> placed b \<Longrightarrow> event_gt lc a b \<longleftrightarrow> pos_gt lc (position_of a) (position_of b)"
  by (auto simp: event_gt_def compareEventsByCursor_def position_of_def placed_def
      elim!: num_isIntegerE)

lemma not_pos_gt_trans:
  assumes "placed_pos p" "placed_pos q" "placed_pos r" "\<not> pos_gt lc p q" "\<not> pos_gt lc q r"
  shows "\<not> pos_gt lc p r"
proof
  assume pr: "pos_gt lc p r"
  then have "q \<noteq> r" using assms(4) by blast
  then have "pos_gt lc r q" using pos_gt_total assms(2,3,5) by blast
  then have "pos_gt lc p q" using pos_gt_trans [OF assms(1,3,2) pr] by blast
  with assms(4) show False ..
qed

end

sublocale collation \<subseteq> event_order: comparator "event_gt lc" placed
proof
  show "placed x \<Longrightarrow> placed y \<Longrightarrow> event_gt lc x y \<Longrightarrow> \<not> event_gt lc y x" for x y
    using pos_gt_asym placed_pos_placed event_gt_iff by blast
  show "placed x \<Longrightarrow> placed y \<Longrightarrow> placed z \<Longrightarrow> \<not> event_gt lc x y \<Longrightarrow> \<not> event_gt lc y z \<Longrightarrow>
      \<not> event_gt lc x z" for x y z
    using not_pos_gt_trans placed_pos_placed event_gt_iff by blast
qed

text \<open>
  With positions that all differ the sort has one possible result, however the events arrived:
  it depends on the set of events alone.
\<close>

context collation begin

lemma sort_events_strict:
  assumes "\<forall>e \<in> set es. placed e" "distinct (map position_of es)"
  shows "sorted_wrt (\<lambda>a b. pos_gt lc (position_of b) (position_of a)) (sort_events lc es)"
proof -
  let ?s = "sort_events lc es"
  have o: "sorted_wrt (\<lambda>a b. \<not> event_gt lc a b) ?s"
    unfolding sort_events_def by (rule event_order.ordered_sort) (rule assms(1))
  have v: "\<forall>e \<in> set ?s. placed e" using assms(1) by (simp add: sort_events_def)
  have "mset (map position_of ?s) = mset (map position_of es)" by (simp add: sort_events_def)
  then have "distinct (map position_of ?s)"
    using assms(2) by (metis mset_eq_imp_distinct_iff)
  then have "sorted_wrt (\<lambda>a b. position_of a \<noteq> position_of b) ?s"
    by (simp add: distinct_conv_nth sorted_wrt_iff_nth_less)
  with o have "sorted_wrt (\<lambda>a b. \<not> event_gt lc a b \<and> position_of a \<noteq> position_of b) ?s"
    by (simp add: sorted_wrt_iff_nth_less)
  then show ?thesis
  proof (rule sorted_wrt_mono_rel [rotated])
    fix a b assume "a \<in> set ?s" "b \<in> set ?s" "\<not> event_gt lc a b \<and> position_of a \<noteq> position_of b"
    then show "pos_gt lc (position_of b) (position_of a)"
      using v pos_gt_total placed_pos_placed event_gt_iff by blast
  qed
qed

end

end
