(* ===== verification/Indexer_Queue.thy ===== *)
theory Indexer_Queue
  imports Event_Ordering
begin

text \<open>
  The bounded, ordered buffer of \<^verbatim>\<open>queue/indexer-queue.service.ts\<close>: \<^verbatim>\<open>enqueue\<close> refuses an event at
  the bound and otherwise pushes and re-sorts; \<^verbatim>\<open>drain\<close> hands the buffer over and empties it.
  The promises a consumer relies on are the locale \<^verbatim>\<open>bounded_queue\<close>.
\<close>

definition INDEXER_QUEUE_MAX_BUFFER_SIZE :: nat where
  "INDEXER_QUEUE_MAX_BUFFER_SIZE = 500"

record IndexerQueue =
  buffer :: "IngestedEventDto list"

definition enqueue ::
    "(string \<Rightarrow> string \<Rightarrow> int) \<Rightarrow> IngestedEventDto \<Rightarrow> IndexerQueue \<Rightarrow> bool \<times> IndexerQueue" where
  "enqueue lc event q =
    (if length (buffer q) \<ge> INDEXER_QUEUE_MAX_BUFFER_SIZE then (False, q)
     else (True, q\<lparr>buffer := sort_events lc (buffer q @ [event])\<rparr>))"

definition drain :: "IndexerQueue \<Rightarrow> IngestedEventDto list \<times> IndexerQueue" where
  "drain q = (buffer q, q\<lparr>buffer := []\<rparr>)"

definition queue_size :: "IndexerQueue \<Rightarrow> nat" where
  "queue_size q = length (buffer q)"

text \<open>A batch of arrivals; the answers are those of the single calls.\<close>

fun enqueue_all ::
    "(string \<Rightarrow> string \<Rightarrow> int) \<Rightarrow> IngestedEventDto list \<Rightarrow> IndexerQueue \<Rightarrow> bool list \<times> IndexerQueue" where
  "enqueue_all lc [] q = ([], q)"
| "enqueue_all lc (e # es) q =
    (let (b, q') = enqueue lc e q; (bs, q'') = enqueue_all lc es q' in (b # bs, q''))"

section \<open>What a consumer relies on\<close>

locale bounded_queue =
  fixes enq :: "'e \<Rightarrow> 'q \<Rightarrow> bool \<times> 'q"
    and deq :: "'q \<Rightarrow> 'e list \<times> 'q"
    and contents :: "'q \<Rightarrow> 'e list"
    and cap :: nat
  assumes enq_full: "cap \<le> length (contents q) \<Longrightarrow> enq e q = (False, q)"
    and enq_room: "length (contents q) < cap \<Longrightarrow>
      fst (enq e q) \<and> mset (contents (snd (enq e q))) = add_mset e (mset (contents q))"
    and deq_contents: "fst (deq q) = contents q" "contents (snd (deq q)) = []"
begin

fun enq_all :: "'e list \<Rightarrow> 'q \<Rightarrow> bool list \<times> 'q" where
  "enq_all [] q = ([], q)"
| "enq_all (e # es) q = (let (b, q') = enq e q; (bs, q'') = enq_all es q' in (b # bs, q''))"

lemma length_enq_all: "length (fst (enq_all es q)) = length es"
  by (induction es arbitrary: q) (simp_all add: Let_def split_beta)

lemma enq_all_full: "cap \<le> length (contents q) \<Longrightarrow> enq_all es q = (replicate (length es) False, q)"
  by (induction es) (simp_all add: enq_full)

lemma enq_bounded: "length (contents q) \<le> cap \<Longrightarrow> length (contents (snd (enq e q))) \<le> cap"
proof (cases "length (contents q) < cap")
  case True
  then have "size (mset (contents (snd (enq e q)))) = Suc (size (mset (contents q)))"
    using enq_room [of q e] by simp
  then show ?thesis using True by simp
qed (simp add: enq_full)

lemma enq_all_accepts:
  assumes "length (contents q) \<le> cap"
  shows "let room = cap - length (contents q) in
    fst (enq_all es q) = replicate (min room (length es)) True @ replicate (length es - room) False \<and>
    mset (contents (snd (enq_all es q))) = mset (contents q) + mset (take room es)"
  using assms
proof (induction es arbitrary: q)
  case Nil
  then show ?case by simp
next
  case (Cons e es)
  show ?case
  proof (cases "length (contents q) < cap")
    case False
    then show ?thesis using Cons.prems by (simp add: enq_all_full Let_def enq_full)
  next
    case True
    obtain q' where q': "enq e q = (True, q')" and m: "mset (contents q') = add_mset e (mset (contents q))"
      using enq_room [OF True, of e] by (cases "enq e q") auto
    have l: "length (contents q') = Suc (length (contents q))" using m by (metis size_add_mset size_mset)
    obtain n where n: "cap - length (contents q) = Suc n" using True by (metis Suc_diff_Suc)
    have n': "cap - length (contents q') = n" using n l by simp
    have "length (contents q') \<le> cap" using True l by simp
    from Cons.IH [OF this] show ?thesis using q' m n n' by (simp add: Let_def split_beta)
  qed
qed

lemma deq_enq_all:
  "contents q = [] \<Longrightarrow> mset (fst (deq (snd (enq_all es q)))) = mset (take cap es)"
  using enq_all_accepts [of q es] by (simp add: deq_contents Let_def)

end

interpretation iq: bounded_queue "enqueue lc" drain buffer INDEXER_QUEUE_MAX_BUFFER_SIZE for lc
  by unfold_locales (auto simp: enqueue_def drain_def)

lemma enqueue_all_eq: "enqueue_all lc es q = iq.enq_all lc es q"
  by (induction es arbitrary: q) simp_all

section \<open>Order\<close>

context collation begin

lemma enqueue_ordered:
  "event_order.ordered (buffer q) \<Longrightarrow> \<forall>x \<in> set (buffer q). placed x \<Longrightarrow> placed e \<Longrightarrow>
   event_order.ordered (buffer (snd (enqueue lc e q))) \<and> (\<forall>x \<in> set (buffer (snd (enqueue lc e q))). placed x)"
  by (simp add: enqueue_def sort_events_def event_order.ordered_sort)

lemma enqueue_all_ordered:
  "event_order.ordered (buffer q) \<Longrightarrow> \<forall>x \<in> set (buffer q). placed x \<Longrightarrow> \<forall>x \<in> set es. placed x \<Longrightarrow>
   event_order.ordered (buffer (snd (enqueue_all lc es q)))"
proof (induction es arbitrary: q)
  case (Cons e es)
  have "event_order.ordered (buffer (snd (enqueue lc e q)))"
    "\<forall>x \<in> set (buffer (snd (enqueue lc e q))). placed x"
    using enqueue_ordered [of q e] Cons.prems by simp_all
  then have "event_order.ordered (buffer (snd (enqueue_all lc es (snd (enqueue lc e q)))))"
    using Cons.IH Cons.prems(3) by simp
  then show ?case by (simp add: split_beta Let_def)
qed simp

text \<open>The arrival order has no effect on what is drained when the positions differ.\<close>

lemma enqueue_all_drain_sorted:
  assumes "\<forall>x \<in> set es. placed x" "distinct (map position_of es)"
  shows "sorted_wrt (\<lambda>a b. pos_gt lc (position_of b) (position_of a))
    (fst (drain (snd (enqueue_all lc es \<lparr>buffer = []\<rparr>))))"
proof -
  let ?s = "buffer (snd (enqueue_all lc es \<lparr>buffer = []\<rparr>))"
  have o: "event_order.ordered ?s" using enqueue_all_ordered [of "\<lparr>buffer = []\<rparr>" es] assms(1) by simp
  have m: "mset ?s = mset (take INDEXER_QUEUE_MAX_BUFFER_SIZE es)"
    using iq.deq_enq_all [of "\<lparr>buffer = []\<rparr>" lc es] by (simp add: enqueue_all_eq drain_def)
  have v: "\<forall>x \<in> set ?s. placed x"
    using assms(1) m by (metis in_set_takeD set_mset_mset)
  have "distinct (map position_of (take INDEXER_QUEUE_MAX_BUFFER_SIZE es))"
    using assms(2) by (metis distinct_take take_map)
  then have "distinct (map position_of ?s)"
    using m by (metis mset_eq_imp_distinct_iff mset_map)
  then have "sort_events lc ?s = ?s" "distinct (map position_of ?s)"
    using o by (simp_all add: sort_events_def event_order.sort_ordered_id)
  then show ?thesis using sort_events_strict [OF v] by (simp add: drain_def)
qed

end

section \<open>Properties\<close>

text \<open>
  A burst of events on an empty queue: exactly the first 500 are accepted, the rest are
  refused, and the drained batch is those events, whatever the interleaving of the sorts, in
  strictly increasing stream position when the positions differ.
\<close>

theorem queue_burst:
  assumes "collation lc" "\<forall>e \<in> set es. placed e" "distinct (map position_of es)"
  shows "fst (enqueue_all lc es \<lparr>buffer = []\<rparr>) =
      replicate (min 500 (length es)) True @ replicate (length es - 500) False \<and>
    mset (fst (drain (snd (enqueue_all lc es \<lparr>buffer = []\<rparr>)))) = mset (take 500 es) \<and>
    sorted_wrt (\<lambda>a b. pos_gt lc (position_of b) (position_of a))
      (fst (drain (snd (enqueue_all lc es \<lparr>buffer = []\<rparr>)))) \<and>
    queue_size (snd (drain (snd (enqueue_all lc es \<lparr>buffer = []\<rparr>)))) = 0"
  using iq.enq_all_accepts [of "\<lparr>buffer = []\<rparr>" lc es] iq.deq_enq_all [of "\<lparr>buffer = []\<rparr>" lc es]
    collation.enqueue_all_drain_sorted [OF assms]
  by (simp_all add: INDEXER_QUEUE_MAX_BUFFER_SIZE_def enqueue_all_eq queue_size_def drain_def Let_def)

definition sample_event :: "int \<Rightarrow> string \<Rightarrow> int \<Rightarrow> IngestedEventDto" where
  "sample_event l t i = \<lparr>ev_network = ''testnet'', ev_contractId = ''C1'', ev_topic = ''guess_submitted'',
     ev_txHash = t, ev_ledger = num l, ev_eventIndex = num i, ev_payload = [], ev_observedAt = 0\<rparr>"

theorem queue_burst_witness:
  "sorted_wrt (\<lambda>a b. pos_gt unitCompare (position_of b) (position_of a))
     (fst (drain (snd (enqueue_all unitCompare
       [sample_event 7 ''b'' 0, sample_event 5 ''c'' 2, sample_event 5 ''c'' 1] \<lparr>buffer = []\<rparr>))))"
  by (rule queue_burst [OF unit_order.collation_axioms, THEN conjunct2, THEN conjunct2, THEN conjunct1])
     (simp_all add: sample_event_def placed_def position_of_def)

end
