(* ===== verification/Event_Hash.thy ===== *)
theory Event_Hash
  imports Js_Values
begin

text \<open>
  The audit fingerprint of an event (\<^verbatim>\<open>audit/event-hash.ts\<close>): the digest of a fixed-order JSON
  array.  The digest itself is a parameter; the serialization is shown to determine the fields.
\<close>

record AuditEventHashInput =
  ah_network :: string
  ah_contractId :: string
  ah_topic :: string
  ah_txHash :: string
  ah_ledger :: jsnum
  ah_eventIndex :: jsnum
  ah_payload :: js_record

definition audit_json :: "host \<Rightarrow> AuditEventHashInput \<Rightarrow> string" where
  "audit_json h e = stringify h (Arr [Str (ah_network e), Str (ah_contractId e), Str (ah_topic e),
     Str (ah_txHash e), Num (ah_ledger e), Num (ah_eventIndex e), Obj (ah_payload e)])"

definition computeAuditEventHash :: "host \<Rightarrow> AuditEventHashInput \<Rightarrow> string" where
  "computeAuditEventHash h e = sha256 h (audit_json h e)"

definition verifyAuditEventHash :: "host \<Rightarrow> AuditEventHashInput \<Rightarrow> string option \<Rightarrow> bool" where
  "verifyAuditEventHash h input storedHash =
    (case storedHash of
       None \<Rightarrow> False
     | Some s \<Rightarrow> if s = [] then False else computeAuditEventHash h input = s)"

section \<open>The serialization is injective\<close>

lemma hex_digit_inj: "a < 16 \<Longrightarrow> b < 16 \<Longrightarrow> hex_digit a = hex_digit b \<Longrightarrow> a = b"
proof -
  assume ab: "a < 16" "b < 16" "hex_digit a = hex_digit b"
  then have "(of_char (hex_digit a) :: nat) = of_char (hex_digit b)" by simp
  then show "a = b" using ab(1,2) by (auto simp: hex_digit_def split: if_splits)
qed

text \<open>An escaped character can be read off the front of a text.\<close>

lemma escape_plain:
  "(of_char c :: nat) \<ge> 32 \<Longrightarrow> (of_char c :: nat) \<noteq> 34 \<Longrightarrow> (of_char c :: nat) \<noteq> 92 \<Longrightarrow> json_escape c = [c]"
  by (simp add: json_escape_def Let_def)

definition special :: "char \<Rightarrow> bool" where
  "special c \<longleftrightarrow> (of_char c :: nat) < 32 \<or> (of_char c :: nat) = 34 \<or> (of_char c :: nat) = 92"

lemma escape_special: "special c \<Longrightarrow> \<exists>x xs. json_escape c = CHR 0x5C # x # xs"
  by (auto simp: special_def json_escape_def Let_def)

lemma escape_not_special: "\<not> special c \<Longrightarrow> json_escape c = [c] \<and> c \<noteq> CHR 0x5C \<and> c \<noteq> CHR 0x22"
  by (auto simp: special_def json_escape_def Let_def)

fun short_code :: "char \<Rightarrow> nat option" where
  "short_code x = (if x = CHR 0x22 then Some 34 else if x = CHR 0x5C then Some 92 else
     if x = CHR ''b'' then Some 8 else if x = CHR ''t'' then Some 9 else if x = CHR ''n'' then Some 10 else
     if x = CHR ''f'' then Some 12 else if x = CHR ''r'' then Some 13 else None)"

lemma escape_cases:
  assumes "special c"
  shows "(\<exists>x. json_escape c = [CHR 0x5C, x] \<and> short_code x = Some (of_char c)) \<or>
    (\<exists>n. n < 32 \<and> of_char c = n \<and>
       json_escape c = CHR 0x5C # CHR ''u'' # ''00'' @ [hex_digit (n div 16), hex_digit (n mod 16)])"
  using assms unfolding special_def json_escape_def Let_def by auto

lemma escape_prefix_special:
  assumes s: "special c" "special d" and eq: "json_escape c @ r = json_escape d @ r'"
  shows "c = d \<and> r = r'"
proof -
  have u: "short_code (CHR ''u'') = None" by simp
  have inj: "(of_char c :: nat) = of_char d \<Longrightarrow> c = d" by simp
  from escape_cases [OF s(1)] escape_cases [OF s(2)] show ?thesis
  proof (elim disjE exE conjE)
    fix x y assume "json_escape c = [CHR 0x5C, x]" "short_code x = Some (of_char c)"
      "json_escape d = [CHR 0x5C, y]" "short_code y = Some (of_char d)"
    then show ?thesis using eq by (auto simp del: short_code.simps)
  next
    fix x n assume "json_escape c = [CHR 0x5C, x]" "short_code x = Some (of_char c)"
      "json_escape d = CHR 0x5C # CHR ''u'' # ''00'' @ [hex_digit (n div 16), hex_digit (n mod 16)]"
    then show ?thesis using eq u by (auto simp del: short_code.simps)
  next
    fix x n assume "json_escape d = [CHR 0x5C, x]" "short_code x = Some (of_char d)"
      "json_escape c = CHR 0x5C # CHR ''u'' # ''00'' @ [hex_digit (n div 16), hex_digit (n mod 16)]"
    then show ?thesis using eq u by (auto simp del: short_code.simps)
  next
    fix n m :: nat
    assume nm: "n < 32" "m < 32" "of_char c = n" "of_char d = m"
      "json_escape c = CHR 0x5C # CHR ''u'' # ''00'' @ [hex_digit (n div 16), hex_digit (n mod 16)]"
      "json_escape d = CHR 0x5C # CHR ''u'' # ''00'' @ [hex_digit (m div 16), hex_digit (m mod 16)]"
    then have "hex_digit (n div 16) = hex_digit (m div 16)" "hex_digit (n mod 16) = hex_digit (m mod 16)" "r = r'"
      using eq by simp_all
    then have "n div 16 = m div 16" "n mod 16 = m mod 16" using nm(1,2) hex_digit_inj by simp_all
    then have "n = m" by (metis div_mult_mod_eq)
    then show ?thesis using nm inj \<open>r = r'\<close> by simp
  qed
qed

lemma escape_prefix:
  assumes "json_escape c @ r = json_escape d @ r'"
  shows "c = d \<and> r = r'"
proof (cases "special c"; cases "special d")
  assume "special c" "\<not> special d"
  then show ?thesis using escape_special [of c] escape_not_special [of d] assms by auto
next
  assume "\<not> special c" "special d"
  then show ?thesis using escape_special [of d] escape_not_special [of c] assms by auto
next
  assume "\<not> special c" "\<not> special d"
  then show ?thesis using escape_not_special [of c] escape_not_special [of d] assms by auto
qed (use assms escape_prefix_special in blast)

lemma escape_not_quote: "json_escape c \<noteq> CHR 0x22 # r" "json_escape c @ q \<noteq> CHR 0x22 # r" "json_escape c \<noteq> []"
proof -
  have "\<exists>x xs. json_escape c = x # xs \<and> x \<noteq> CHR 0x22"
    using escape_special [of c] escape_not_special [of c] by (cases "special c") auto
  then show "json_escape c \<noteq> CHR 0x22 # r" "json_escape c @ q \<noteq> CHR 0x22 # r" "json_escape c \<noteq> []" by auto
qed

lemma escaped_text_prefix:
  "concat (map json_escape s) @ CHR 0x22 # r = concat (map json_escape s') @ CHR 0x22 # r' \<Longrightarrow> s = s' \<and> r = r'"
proof (induction s arbitrary: s')
  case Nil
  then show ?case using escape_not_quote(2) by (cases s') (auto dest: sym)
next
  case (Cons c s)
  then show ?case
  proof (cases s')
    case Nil
    then show ?thesis using Cons.prems escape_not_quote(2) by auto
  next
    case (Cons d s'')
    then have "json_escape c @ (concat (map json_escape s) @ CHR 0x22 # r) =
        json_escape d @ (concat (map json_escape s'') @ CHR 0x22 # r')" using Cons.prems by simp
    from escape_prefix [OF this] Cons.IH [of s''] Cons show ?thesis by simp
  qed
qed

lemma json_quote_prefix: "json_quote s @ r = json_quote s' @ r' \<Longrightarrow> s = s' \<and> r = r'"
  using escaped_text_prefix [of s r s' r'] by (simp add: json_quote_def)

lemma show_int_comma:
  assumes "show_int i @ CHR '','' # r = show_int j @ CHR '','' # r'"
  shows "i = j \<and> r = r'"
proof -
  have d: "\<forall>c \<in> set (show_int k). c \<noteq> CHR '',''" for k
    using show_nat_digits [of "nat k"] show_nat_digits [of "nat (- k)"]
    by (auto simp: show_int_def list_all_iff is_digit_def char_between)
  have t: "takeWhile (\<lambda>c. c \<noteq> CHR '','') (show_int k @ CHR '','' # q) = show_int k" for k q
    by (subst takeWhile_append2) (use d [of k] in auto)
  have "show_int i = show_int j" using t [of i r] t [of j r'] assms by simp
  then show ?thesis using assms show_int_inj by simp
qed

lemma audit_json_inj:
  assumes eq: "audit_json h a = audit_json h b"
    and ints: "ah_ledger a = num la" "ah_eventIndex a = num ia" "ah_ledger b = num lb" "ah_eventIndex b = num ib"
    and range: "\<bar>la\<bar> < 10 ^ 21" "\<bar>ia\<bar> < 10 ^ 21" "\<bar>lb\<bar> < 10 ^ 21" "\<bar>ib\<bar> < 10 ^ 21"
  shows "ah_network a = ah_network b \<and> ah_contractId a = ah_contractId b \<and> ah_topic a = ah_topic b \<and>
    ah_txHash a = ah_txHash b \<and> la = lb \<and> ia = ib \<and>
    stringify h (Obj (ah_payload a)) = stringify h (Obj (ah_payload b))"
proof -
  have exp: "audit_json h x = ''['' @ json_quote (ah_network x) @ '','' @ json_quote (ah_contractId x) @ '','' @
      json_quote (ah_topic x) @ '','' @ json_quote (ah_txHash x) @ '','' @ show_int l @ '','' @
      show_int i @ '','' @ stringify h (Obj (ah_payload x)) @ '']''"
    if "ah_ledger x = num l" "ah_eventIndex x = num i" "\<bar>l\<bar> < 10 ^ 21" "\<bar>i\<bar> < 10 ^ 21" for x l i
    using that by (simp add: audit_json_def del: stringify.simps(7))
  from eq show ?thesis
    unfolding exp [OF ints(1,2) range(1,2)] exp [OF ints(3,4) range(3,4)]
    by (auto dest!: json_quote_prefix show_int_comma simp del: stringify.simps)
qed

section \<open>Properties\<close>

text \<open>
  Tampering is detected: a row stored with the hash of one event verifies another one's
  fields only if network, contract, topic, transaction, ledger, index and serialized payload all
  agree, given that the digest does not collide on the two serializations; the untouched event verifies, and a missing or
  empty hash never does.
\<close>

theorem audit_hash_detects_tampering:
  assumes "sha256 h (audit_json h b) = sha256 h (audit_json h a) \<longrightarrow> audit_json h b = audit_json h a"
    and "sha256 h (audit_json h a) \<noteq> []"
    and "ah_ledger a = num la" "ah_eventIndex a = num ia" "ah_ledger b = num lb" "ah_eventIndex b = num ib"
    and "\<bar>la\<bar> < 10 ^ 21" "\<bar>ia\<bar> < 10 ^ 21" "\<bar>lb\<bar> < 10 ^ 21" "\<bar>ib\<bar> < 10 ^ 21"
  shows "verifyAuditEventHash h a (Some (computeAuditEventHash h a)) \<and>
    \<not> verifyAuditEventHash h a None \<and> \<not> verifyAuditEventHash h a (Some []) \<and>
    (verifyAuditEventHash h b (Some (computeAuditEventHash h a)) \<longrightarrow>
       ah_network b = ah_network a \<and> ah_contractId b = ah_contractId a \<and> ah_topic b = ah_topic a \<and>
       ah_txHash b = ah_txHash a \<and> lb = la \<and> ib = ia \<and>
       stringify h (Obj (ah_payload b)) = stringify h (Obj (ah_payload a)))"
proof -
  have "verifyAuditEventHash h b (Some (computeAuditEventHash h a)) \<Longrightarrow> audit_json h b = audit_json h a"
    using assms(1) by (auto simp: verifyAuditEventHash_def computeAuditEventHash_def split: if_splits)
  then show ?thesis
    using audit_json_inj [of h b a, OF _ assms(5,6,3,4,9,10,7,8)] assms(2)
    by (auto simp: verifyAuditEventHash_def computeAuditEventHash_def)
qed

definition sample_audit :: "string \<Rightarrow> AuditEventHashInput" where
  "sample_audit topic = \<lparr>ah_network = ''testnet'', ah_contractId = ''C'', ah_topic = topic, ah_txHash = ''t'',
     ah_ledger = num 7, ah_eventIndex = num 0, ah_payload = []\<rparr>"

theorem audit_hash_detects_tampering_witness:
  "\<not> verifyAuditEventHash plain_host
     (sample_audit ''claimed'') (Some (computeAuditEventHash
       plain_host (sample_audit ''guess_submitted'')))"
proof -
  let ?h = plain_host
  have "sha256 ?h (audit_json ?h (sample_audit t)) \<noteq> []" for t
    by (simp add: audit_json_def plain_host_def)
  then show ?thesis
    using audit_hash_detects_tampering [of ?h "sample_audit ''claimed''" "sample_audit ''guess_submitted''" 7 0 7 0]
    by (auto simp: sample_audit_def plain_host_def)
qed

end
