(* ===== verification/Repository.thy ===== *)
theory Repository
  imports Prelude
begin

text \<open>
  The persistence interface of the services.  The repositories of the object-relational mapper
  are not part of the repository, so a service takes one as an argument: a record of the calls
  the services make, each an action on the table's rows that may throw.  The predicate
  \<^verbatim>\<open>repo_ok\<close> is the documented behaviour the services rely on.  It is stated with two
  projections: \<^verbatim>\<open>pk\<close>, the generated primary key of an entity (\<^verbatim>\<open>None\<close> before it is
  saved), and \<^verbatim>\<open>body\<close>, the columns the caller sets; the database fills in the others.
\<close>

record ('e, 'x) repo =
  r_find :: "('e \<Rightarrow> bool) \<Rightarrow> ('e \<Rightarrow> 'e \<Rightarrow> bool) \<Rightarrow> ('e list, 'x, 'e list) act"
  r_findOne :: "('e \<Rightarrow> bool) \<Rightarrow> ('e list, 'x, 'e option) act"
  r_save :: "'e \<Rightarrow> ('e list, 'x, 'e) act"
  r_update :: "('e \<Rightarrow> bool) \<Rightarrow> ('e \<Rightarrow> 'e) \<Rightarrow> ('e list, 'x, nat) act"
  r_delete :: "('e \<Rightarrow> bool) \<Rightarrow> ('e list, 'x, nat) act"

section \<open>The behaviour relied on\<close>

text \<open>A call that throws leaves the table as it was.\<close>

definition atomic :: "('t, 'x, 'a) act \<Rightarrow> bool" where
  "atomic m \<longleftrightarrow> (\<forall>t x t'. m t = (Inl x, t') \<longrightarrow> t' = t)"

definition findOne_ok :: "('e, 'x) repo \<Rightarrow> bool" where
  "findOne_ok R \<longleftrightarrow> (\<forall>P t r t'. r_findOne R P t = (Inr r, t') \<longrightarrow>
     t' = t \<and> (case r of None \<Rightarrow> \<forall>e \<in> set t. \<not> P e | Some e \<Rightarrow> e \<in> set t \<and> P e))"

text \<open>\<^verbatim>\<open>find\<close> with an order: the matching rows, no row after one it must precede.\<close>

definition find_ok :: "('e, 'x) repo \<Rightarrow> bool" where
  "find_ok R \<longleftrightarrow> (\<forall>P gt t es t'. r_find R P gt t = (Inr es, t') \<longrightarrow>
     t' = t \<and> mset es = mset (filter P t) \<and>
     (comparator gt (\<lambda>_. True) \<longrightarrow> sorted_wrt (\<lambda>x y. \<not> gt x y) es))"

text \<open>
  \<^verbatim>\<open>save\<close>: the stored row has the entity's columns and its key, a fresh one for a new entity;
  it replaces the row with its key or is added, and no other row changes.
\<close>

definition save_ok :: "('e \<Rightarrow> nat option) \<Rightarrow> ('e \<Rightarrow> 'b) \<Rightarrow> ('e, 'x) repo \<Rightarrow> bool" where
  "save_ok pk body R \<longleftrightarrow> (\<forall>e t e' t'. r_save R e t = (Inr e', t') \<longrightarrow>
     body e' = body e \<and> pk e' \<noteq> None \<and> (pk e \<noteq> None \<longrightarrow> pk e' = pk e) \<and>
     (pk e = None \<longrightarrow> pk e' \<notin> pk ` set t) \<and>
     set t' = insert e' {r \<in> set t. pk r \<noteq> pk e'} \<and>
     (distinct (map pk t) \<longrightarrow> distinct (map pk t')))"

definition update_ok :: "('e \<Rightarrow> nat option) \<Rightarrow> ('e, 'x) repo \<Rightarrow> bool" where
  "update_ok pk R \<longleftrightarrow> (\<forall>P f t n t'. r_update R P f t = (Inr n, t') \<longrightarrow>
     n = length (filter P t) \<and> mset t' = mset (map (\<lambda>r. if P r then f r else r) t))"

definition delete_ok :: "('e, 'x) repo \<Rightarrow> bool" where
  "delete_ok R \<longleftrightarrow> (\<forall>P t n t'. r_delete R P t = (Inr n, t') \<longrightarrow>
     n = length (filter P t) \<and> mset t' = mset (filter (\<lambda>r. \<not> P r) t))"

definition repo_ok :: "('e \<Rightarrow> nat option) \<Rightarrow> ('e \<Rightarrow> 'b) \<Rightarrow> ('e, 'x) repo \<Rightarrow> bool" where
  "repo_ok pk body R \<longleftrightarrow>
     find_ok R \<and> findOne_ok R \<and> save_ok pk body R \<and> update_ok pk R \<and> delete_ok R \<and>
     (\<forall>P gt. atomic (r_find R P gt)) \<and> (\<forall>P. atomic (r_findOne R P)) \<and> (\<forall>e. atomic (r_save R e)) \<and>
     (\<forall>P f. atomic (r_update R P f)) \<and> (\<forall>P. atomic (r_delete R P))"

text \<open>A reliable repository: no call throws.\<close>

definition returns :: "('s, 'x, 'a) act \<Rightarrow> bool" where
  "returns m \<longleftrightarrow> (\<forall>s. \<exists>a s'. m s = (Inr a, s'))"

definition repo_reliable :: "('e, 'x) repo \<Rightarrow> bool" where
  "repo_reliable R \<longleftrightarrow>
     (\<forall>P gt. returns (r_find R P gt)) \<and> (\<forall>P. returns (r_findOne R P)) \<and> (\<forall>e. returns (r_save R e)) \<and>
     (\<forall>P f. returns (r_update R P f)) \<and> (\<forall>P. returns (r_delete R P))"

lemma returnsE: "returns m \<Longrightarrow> (\<And>a s'. m s = (Inr a, s') \<Longrightarrow> thesis) \<Longrightarrow> thesis"
  by (auto simp: returns_def)

lemma reliable_find: "repo_reliable R \<Longrightarrow> (\<And>x t'. r_find R P gt t = (Inr x, t') \<Longrightarrow> thesis) \<Longrightarrow> thesis"
  and reliable_findOne: "repo_reliable R \<Longrightarrow> (\<And>x t'. r_findOne R P t = (Inr x, t') \<Longrightarrow> thesis) \<Longrightarrow> thesis"
  and reliable_save: "repo_reliable R \<Longrightarrow> (\<And>x t'. r_save R e t = (Inr x, t') \<Longrightarrow> thesis) \<Longrightarrow> thesis"
  and reliable_update: "repo_reliable R \<Longrightarrow> (\<And>x t'. r_update R P f t = (Inr x, t') \<Longrightarrow> thesis) \<Longrightarrow> thesis"
  and reliable_delete: "repo_reliable R \<Longrightarrow> (\<And>x t'. r_delete R P t = (Inr x, t') \<Longrightarrow> thesis) \<Longrightarrow> thesis"
  unfolding repo_reliable_def returns_def by meson+

lemma repo_okD:
  assumes "repo_ok pk body R"
  shows "find_ok R" "findOne_ok R" "save_ok pk body R" "update_ok pk R" "delete_ok R"
    "atomic (r_find R P gt)" "atomic (r_findOne R P)" "atomic (r_save R e)"
    "atomic (r_update R P f)" "atomic (r_delete R P)"
  using assms by (auto simp: repo_ok_def)

lemma atomicD: "atomic m \<Longrightarrow> m t = (Inl x, t') \<Longrightarrow> t' = t"
  by (auto simp: atomic_def)

lemma findOne_returns:
  assumes "repo_ok pk body R" "r_findOne R P t = (Inr r, t')"
  shows "t' = t \<and> (case r of None \<Rightarrow> \<forall>e \<in> set t. \<not> P e | Some e \<Rightarrow> e \<in> set t \<and> P e)"
  using repo_okD(2) [OF assms(1)] assms(2) unfolding findOne_ok_def by blast

lemma findOne_Some:
  "repo_ok pk body R \<Longrightarrow> r_findOne R P t = (Inr (Some e), t') \<Longrightarrow> t' = t \<and> e \<in> set t \<and> P e"
  by (drule (1) findOne_returns) simp

lemma findOne_None:
  "repo_ok pk body R \<Longrightarrow> r_findOne R P t = (Inr None, t') \<Longrightarrow> t' = t \<and> (\<forall>e \<in> set t. \<not> P e)"
  by (drule (1) findOne_returns) simp

lemma findOne_same:
  assumes "repo_ok pk body R" "r_findOne R P t = (r, t')"
  shows "t' = t"
proof (cases r)
  case (Inl x)
  then show ?thesis using atomicD [OF repo_okD(7) [OF assms(1)]] assms(2) by blast
next
  case (Inr a)
  then show ?thesis using findOne_returns [OF assms(1)] assms(2) by blast
qed

lemma save_throws: "repo_ok pk body R \<Longrightarrow> r_save R e t = (Inl x, t') \<Longrightarrow> t' = t"
  by (auto simp: repo_ok_def atomic_def)

lemma save_returns:
  assumes "repo_ok pk body R" "r_save R e t = (Inr e', t')"
  shows "body e' = body e" "pk e' \<noteq> None" "pk e \<noteq> None \<Longrightarrow> pk e' = pk e"
    "pk e = None \<Longrightarrow> pk e' \<notin> pk ` set t" "set t' = insert e' {r \<in> set t. pk r \<noteq> pk e'}"
    "distinct (map pk t) \<Longrightarrow> distinct (map pk t')"
proof -
  have "save_ok pk body R" using assms(1) by (simp add: repo_ok_def)
  then show "body e' = body e" "pk e' \<noteq> None" "pk e \<noteq> None \<Longrightarrow> pk e' = pk e"
    "pk e = None \<Longrightarrow> pk e' \<notin> pk ` set t" "set t' = insert e' {r \<in> set t. pk r \<noteq> pk e'}"
    "distinct (map pk t) \<Longrightarrow> distinct (map pk t')"
    using assms(2) unfolding save_ok_def by blast+
qed

text \<open>A new entity is added beside the rows there were.\<close>

lemma save_new_set:
  "repo_ok pk body R \<Longrightarrow> r_save R e t = (Inr e', t') \<Longrightarrow> pk e = None \<Longrightarrow> set t' = insert e' (set t)"
  using save_returns(4,5) [of pk body R e t e' t'] by (auto simp: image_iff)

lemma update_mset:
  "repo_ok pk body R \<Longrightarrow> r_update R P f t = (Inr n, t') \<Longrightarrow>
     n = length (filter P t) \<and> mset t' = mset (map (\<lambda>r. if P r then f r else r) t)"
  by (auto simp: repo_ok_def update_ok_def)

lemma update_throws: "repo_ok pk body R \<Longrightarrow> r_update R P f t = (Inl x, t') \<Longrightarrow> t' = t"
  by (auto simp: repo_ok_def atomic_def)

lemma update_set:
  assumes "repo_ok pk body R" "r_update R P f t = (Inr n, t')"
  shows "set t' = (\<lambda>r. if P r then f r else r) ` set t"
proof -
  have "set_mset (mset t') = set_mset (mset (map (\<lambda>r. if P r then f r else r) t))"
    using update_mset [OF assms] by simp
  then show ?thesis by simp
qed

lemma delete_set:
  assumes "repo_ok pk body R" "r_delete R P t = (Inr n, t')"
  shows "set t' = {r \<in> set t. \<not> P r}"
proof -
  have "mset t' = mset (filter (\<lambda>r. \<not> P r) t)"
    using repo_okD(5) [OF assms(1)] assms(2) unfolding delete_ok_def by blast
  then have "set_mset (mset t') = set_mset (mset (filter (\<lambda>r. \<not> P r) t))" by simp
  then show ?thesis by simp
qed

lemma find_returns:
  assumes "repo_ok pk body R" "r_find R P gt t = (Inr es, t')"
  shows "t' = t" "mset es = mset (filter P t)"
    "comparator gt (\<lambda>_. True) \<Longrightarrow> sorted_wrt (\<lambda>x y. \<not> gt x y) es"
  using repo_okD(1) [OF assms(1)] assms(2) unfolding find_ok_def by blast+

lemma find_same:
  assumes "repo_ok pk body R" "r_find R P gt t = (r, t')"
  shows "t' = t"
proof (cases r)
  case (Inl x)
  then show ?thesis using atomicD [OF repo_okD(6) [OF assms(1)]] assms(2) by blast
next
  case (Inr a)
  then show ?thesis using find_returns [OF assms(1)] assms(2) by blast
qed

section \<open>Tables with a unique key\<close>

text \<open>
  Tables such as the cursors, the session projections and the registry snapshots carry a unique
  index over columns of the body.  The services keep it by looking the row up first and saving
  with the key found; \<^verbatim>\<open>row_of\<close> reads the row of a key.
\<close>

definition row_of :: "('e \<Rightarrow> 'k) \<Rightarrow> 'k \<Rightarrow> 'e list \<Rightarrow> 'e option" where
  "row_of key k t = List.find (\<lambda>r. key r = k) t"

definition keyed :: "('e \<Rightarrow> nat option) \<Rightarrow> ('e \<Rightarrow> 'k) \<Rightarrow> 'e list \<Rightarrow> bool" where
  "keyed pk key t \<longleftrightarrow> distinct (map pk t) \<and> (\<forall>r \<in> set t. pk r \<noteq> None) \<and> inj_on key (set t)"

lemma keyed_Nil [simp]: "keyed pk key []"
  by (simp add: keyed_def)

lemma row_of_Nil [simp]: "row_of key k [] = None"
  by (simp add: row_of_def)

lemma find_SomeD: "List.find P t = Some e \<Longrightarrow> e \<in> set t \<and> P e"
  by (induction t) (auto split: if_splits)

lemma row_of_None: "row_of key k t = None \<longleftrightarrow> (\<forall>r \<in> set t. key r \<noteq> k)"
  by (auto simp: row_of_def find_None_iff)

lemma row_of_SomeD: "row_of key k t = Some r \<Longrightarrow> r \<in> set t \<and> key r = k"
  unfolding row_of_def by (drule find_SomeD) simp

lemma row_of_inj: "inj_on key (set t) \<Longrightarrow> row_of key k t = Some r \<longleftrightarrow> r \<in> set t \<and> key r = k"
proof
  assume i: "inj_on key (set t)" and r: "r \<in> set t \<and> key r = k"
  then obtain r' where "row_of key k t = Some r'" using row_of_None [of key k t] by fastforce
  moreover have "r' = r" using row_of_SomeD [OF calculation] i r by (auto dest: inj_onD)
  ultimately show "row_of key k t = Some r" by simp
qed (rule row_of_SomeD)

lemma row_of_set:
  assumes "inj_on key (set t)" "inj_on key (set t')" "{r \<in> set t. key r = k} = {r \<in> set t'. key r = k}"
  shows "row_of key k t = row_of key k t'"
proof (cases "row_of key k t'")
  case None
  have "r \<in> set t \<Longrightarrow> key r \<noteq> k" for r
  proof
    assume "r \<in> set t" "key r = k"
    then have "r \<in> {r \<in> set t. key r = k}" by simp
    then have "r \<in> set t' \<and> key r = k" unfolding assms(3) by simp
    then show False using None unfolding row_of_None by blast
  qed
  then have "row_of key k t = None" unfolding row_of_None by blast
  then show ?thesis using None by simp
next
  case (Some r)
  then have "r \<in> {r \<in> set t'. key r = k}" by (auto dest: row_of_SomeD)
  then have "r \<in> set t \<and> key r = k" unfolding assms(3) [symmetric] by simp
  then show ?thesis using Some row_of_inj [OF assms(1)] by simp
qed

lemma keyed_inj: "keyed pk key t \<Longrightarrow> inj_on key (set t)"
  by (simp add: keyed_def)

lemma keyed_pk_inj: "keyed pk key t \<Longrightarrow> inj_on pk (set t)"
  by (simp add: keyed_def distinct_map)

lemma findOne_row_of:
  assumes "repo_ok pk body R" "keyed pk key t" "r_findOne R (\<lambda>r. key r = k) t = (Inr x, t')"
  shows "t' = t \<and> x = row_of key k t"
proof (cases x)
  case None
  then have "t' = t \<and> row_of key k t = None"
    unfolding row_of_None using findOne_None [OF assms(1)] assms(3) by blast
  then show ?thesis using None by simp
next
  case (Some r)
  then have "t' = t \<and> row_of key k t = Some r"
    unfolding row_of_inj [OF keyed_inj [OF assms(2)]]
    using findOne_Some [OF assms(1), of "\<lambda>r. key r = k" t r t'] assms(3) by blast
  then show ?thesis using Some by simp
qed

text \<open>
  Saving an entity under the primary key of the row found for its key, or under none when no
  row was found, is an upsert: the table stays keyed, the key's row is the saved one and no
  other key's row changes.
\<close>

lemma save_upsert:
  assumes ok: "repo_ok pk body R" and wf: "keyed pk key t"
    and kb: "\<And>a b. body a = body b \<Longrightarrow> key a = key b"
    and pk: "pk e = Option.bind (row_of key (key e) t) pk"
    and sv: "r_save R e t = (Inr e', t')"
  shows "keyed pk key t' \<and> body e' = body e \<and> row_of key (key e) t' = Some e' \<and>
    (\<forall>k. k \<noteq> key e \<longrightarrow> row_of key k t' = row_of key k t)"
proof -
  note S = save_returns [OF ok sv]
  have ke: "key e' = key e" using S(1) kb by blast
  have other: "key r = key e \<Longrightarrow> r \<in> set t \<Longrightarrow> pk r = pk e'" for r
  proof -
    assume r: "key r = key e" "r \<in> set t"
    then have "row_of key (key e) t = Some r" using row_of_inj [OF keyed_inj [OF wf]] by simp
    then have "pk e = pk r" using pk by simp
    moreover have "pk r \<noteq> None" using wf r(2) by (simp add: keyed_def)
    ultimately show "pk r = pk e'" using S(3) by simp
  qed
  have new: "r \<in> set t \<Longrightarrow> pk r = pk e' \<Longrightarrow> key r = key e" for r
  proof (cases "pk e = None")
    case True
    assume "r \<in> set t" "pk r = pk e'"
    then show "key r = key e" using S(4) [OF True] by (metis imageI)
  next
    case False
    assume r: "r \<in> set t" "pk r = pk e'"
    obtain q where q: "row_of key (key e) t = Some q" "pk q = pk e" using False pk
      by (cases "row_of key (key e) t") auto
    then have "pk q = pk r" using S(3) False r(2) by simp
    then have "q = r" using q(1) r(1) keyed_pk_inj [OF wf] by (metis inj_onD row_of_SomeD)
    then show "key r = key e" using q(1) row_of_SomeD by metis
  qed
  have st: "set t' = insert e' {r \<in> set t. key r \<noteq> key e}"
    using S(5) other new by auto
  have inj: "inj_on key (set t')"
    unfolding st using keyed_inj [OF wf] ke by (auto simp: inj_on_def)
  have k: "keyed pk key t'"
    using S(2,6) wf inj st by (auto simp: keyed_def)
  have "row_of key (key e) t' = Some e'" using row_of_inj [OF inj] st ke by simp
  moreover have "row_of key k t' = row_of key k t" if "k \<noteq> key e" for k
    by (rule row_of_set [OF inj keyed_inj [OF wf]]) (use st ke that in auto)
  ultimately show ?thesis using k S(1) by blast
qed

section \<open>A repository held in memory\<close>

text \<open>
  The interface can be met: rows in a list, \<^verbatim>\<open>findOne\<close> takes the first match, \<^verbatim>\<open>save\<close> replaces in
  place or appends with the next key.  The witnesses of the services run on it.
\<close>

definition next_key :: "('e \<Rightarrow> nat option) \<Rightarrow> 'e list \<Rightarrow> nat" where
  "next_key pk t = Suc (sum_list (map (\<lambda>e. case pk e of None \<Rightarrow> 0 | Some i \<Rightarrow> i) t))"

definition mem_save :: "('e \<Rightarrow> nat option) \<Rightarrow> (nat \<Rightarrow> 'e \<Rightarrow> 'e) \<Rightarrow> 'e \<Rightarrow> ('e list, 'x, 'e) act" where
  "mem_save pk set_pk e t =
    (case pk e of
       None \<Rightarrow> (let e' = set_pk (next_key pk t) e in (Inr e', t @ [e']))
     | Some i \<Rightarrow> (Inr e, filter (\<lambda>r. pk r \<noteq> Some i) t @ [e]))"

definition mem_repo :: "('e \<Rightarrow> nat option) \<Rightarrow> (nat \<Rightarrow> 'e \<Rightarrow> 'e) \<Rightarrow> ('e, 'x) repo" where
  "mem_repo pk set_pk = \<lparr>
     r_find = (\<lambda>P gt t. (Inr (sort_by gt (filter P t)), t)),
     r_findOne = (\<lambda>P t. (Inr (List.find P t), t)),
     r_save = mem_save pk set_pk,
     r_update = (\<lambda>P f t. (Inr (length (filter P t)), map (\<lambda>r. if P r then f r else r) t)),
     r_delete = (\<lambda>P t. (Inr (length (filter P t)), filter (\<lambda>r. \<not> P r) t)) \<rparr>"

lemma next_key_above: "e \<in> set t \<Longrightarrow> pk e = Some i \<Longrightarrow> i < next_key pk t"
  using member_le_sum_list [of i "map (\<lambda>e. case pk e of None \<Rightarrow> 0 | Some i \<Rightarrow> i) t"]
  by (force simp: next_key_def less_Suc_eq_le)

lemma mem_save_ok:
  assumes "\<And>i e. pk (set_pk i e) = Some i" "\<And>i e. body (set_pk i e) = body e"
  shows "save_ok pk body (mem_repo pk set_pk)"
proof -
  have fresh: "pk r \<noteq> Some (next_key pk t)" if "r \<in> set t" for r t
    using next_key_above [OF that] by blast
  then have new: "Some (next_key pk t) \<notin> pk ` set t" for t by force
  have notin: "set_pk (next_key pk t) e \<notin> set t" for t e
    using fresh [of "set_pk (next_key pk t) e" t] assms(1) by blast
  then show ?thesis
    unfolding save_ok_def mem_repo_def mem_save_def
    using assms fresh fresh [THEN not_sym] new notin by (auto simp: Let_def distinct_map inj_on_def split: option.splits)
qed

lemma mem_repo_ok:
  assumes "\<And>i e. pk (set_pk i e) = Some i" "\<And>i e. body (set_pk i e) = body e"
  shows "repo_ok pk body (mem_repo pk set_pk)"
proof -
  have f: "find_ok (mem_repo pk set_pk)"
    using comparator.ordered_sort by (force simp: find_ok_def mem_repo_def)
  have "case List.find P t of None \<Rightarrow> \<forall>e \<in> set t. \<not> P e | Some e \<Rightarrow> e \<in> set t \<and> P e" for P and t :: "'a list"
  proof (cases "List.find P t")
    case None
    then have "\<forall>e \<in> set t. \<not> P e" by (simp add: find_None_iff)
    then show ?thesis by (simp add: None)
  next
    case (Some e)
    then show ?thesis using find_SomeD [OF Some] by simp
  qed
  then have o1: "findOne_ok (mem_repo pk set_pk)"
    by (simp add: findOne_ok_def mem_repo_def)
  show ?thesis
    using f o1 mem_save_ok [of pk set_pk body, OF assms]
    by (auto simp: repo_ok_def update_ok_def delete_ok_def atomic_def mem_repo_def mem_save_def Let_def
        split: option.splits)
qed

lemma mem_repo_reliable: "repo_reliable (mem_repo pk set_pk)"
  by (auto simp: repo_reliable_def returns_def mem_repo_def mem_save_def Let_def split: option.splits)

end
