(* ===== verification/Projection_Service.thy ===== *)
theory Projection_Service
  imports Event_Ordering Repository
begin

text \<open>
  \<^verbatim>\<open>projections/projection.service.ts\<close>: a \<^verbatim>\<open>session_finalized\<close> event is written to the session
  projections, one row per network and session, under the row's key when there is one.  The
  abstract view of the table is a map from network and session to the projected columns; the
  service refines an update of that map.  The migration registry of
  \<^verbatim>\<open>projections/projection-version.ts\<close> is here too.
\<close>

definition CURRENT_PROJECTION_VERSION :: int where
  "CURRENT_PROJECTION_VERSION = 1"

record SessionProjectionEntity =
  sp_id :: "nat option"
  sp_network :: string
  sp_sessionId :: string
  sp_player :: string
  sp_dayId :: jsnum
  sp_status :: string
  sp_attemptsUsed :: jsnum
  sp_finalized :: bool
  sp_schemaVersion :: int
  sp_updatedAt :: "int option"

type_synonym session_repo = "(SessionProjectionEntity, js_error) repo"
type_synonym 'a session_act = "(SessionProjectionEntity list, js_error, 'a) act"

definition readStringField :: "js_record \<Rightarrow> string \<Rightarrow> string \<Rightarrow> string" where
  "readStringField payload key fallback =
    (case get_prop payload key of Str s \<Rightarrow> s | _ \<Rightarrow> fallback)"

definition create_projection ::
    "host \<Rightarrow> IngestedEventDto \<Rightarrow> string \<Rightarrow> SessionProjectionEntity option \<Rightarrow> SessionProjectionEntity" where
  "create_projection h event sessionId existing = \<lparr>
     sp_id = Option.bind existing sp_id,
     sp_network = ev_network event,
     sp_sessionId = sessionId,
     sp_player = readStringField (ev_payload event) ''player'' [],
     sp_dayId = js_Number h (coalesce (get_prop (ev_payload event) ''dayId'') (Num (Fin 0))),
     sp_status = readStringField (ev_payload event) ''status'' ''Finalized'',
     sp_attemptsUsed = js_Number h (coalesce (get_prop (ev_payload event) ''attemptsUsed'') (Num (Fin 0))),
     sp_finalized = True,
     sp_schemaVersion = CURRENT_PROJECTION_VERSION,
     sp_updatedAt = None \<rparr>"

definition apply_event :: "host \<Rightarrow> session_repo \<Rightarrow> IngestedEventDto \<Rightarrow> bool session_act" where
  "apply_event h R event =
    (if ev_topic event \<noteq> ''session_finalized'' then act_ret False
     else (let sessionId = readStringField (ev_payload event) ''sessionId'' [] in
       if sessionId = [] then act_ret False
       else act_bind (r_findOne R (\<lambda>r. (sp_network r, sp_sessionId r) = (ev_network event, sessionId)))
         (\<lambda>existing. act_seq (r_save R (create_projection h event sessionId existing)) (act_ret True))))"

definition apply_events :: "host \<Rightarrow> session_repo \<Rightarrow> IngestedEventDto list \<Rightarrow> unit session_act" where
  "apply_events h R es = act_for es (\<lambda>e. act_seq (apply_event h R e) (act_ret ()))"

section \<open>Schema migrations\<close>

record ProjectionMigration =
  fromVersion :: int
  toVersion :: int
  mig_description :: string
  migrate :: "js_record \<Rightarrow> js_record"

definition PROJECTION_MIGRATIONS :: "ProjectionMigration list" where
  "PROJECTION_MIGRATIONS = []"

text \<open>The path through a registry; the function of the source reads the constant.\<close>

definition migration_path :: "ProjectionMigration list \<Rightarrow> int \<Rightarrow> int \<Rightarrow> ProjectionMigration list" where
  "migration_path registry from to =
    (if from \<ge> to then []
     else sort_by (\<lambda>a b. fromVersion a - fromVersion b > 0)
       (filter (\<lambda>m. fromVersion m \<ge> from \<and> toVersion m \<le> to) registry))"

definition getMigrationPath :: "int \<Rightarrow> int \<Rightarrow> ProjectionMigration list" where
  "getMigrationPath = migration_path PROJECTION_MIGRATIONS"

interpretation by_version: comparator "\<lambda>a b. fromVersion a - fromVersion b > 0" "\<lambda>_. True"
  by unfold_locales auto

lemma migration_path_ordered:
  "sorted_wrt (\<lambda>a b. fromVersion a \<le> fromVersion b) (migration_path registry from to) \<and>
   set (migration_path registry from to) \<subseteq> {m \<in> set registry. from \<le> fromVersion m \<and> toVersion m \<le> to}"
proof -
  have "by_version.ordered (migration_path registry from to)"
    using by_version.ordered_sort [of "filter (\<lambda>m. fromVersion m \<ge> from \<and> toVersion m \<le> to) registry"]
    by (simp add: migration_path_def)
  then have "sorted_wrt (\<lambda>a b. fromVersion a \<le> fromVersion b) (migration_path registry from to)"
    by (rule sorted_wrt_mono_rel [rotated]) simp
  then show ?thesis by (auto simp: migration_path_def)
qed

section \<open>The abstract view\<close>

type_synonym session_body = "string \<times> string \<times> string \<times> jsnum \<times> string \<times> jsnum \<times> bool \<times> int"
type_synonym session_view = "string \<times> string \<Rightarrow> session_body option"

definition sp_body :: "SessionProjectionEntity \<Rightarrow> session_body" where
  "sp_body p = (sp_network p, sp_sessionId p, sp_player p, sp_dayId p, sp_status p,
     sp_attemptsUsed p, sp_finalized p, sp_schemaVersion p)"

definition sp_key :: "SessionProjectionEntity \<Rightarrow> string \<times> string" where
  "sp_key p = (sp_network p, sp_sessionId p)"

abbreviation sessions_ok :: "SessionProjectionEntity list \<Rightarrow> bool" where
  "sessions_ok \<equiv> keyed sp_id sp_key"

abbreviation session_repo_ok :: "session_repo \<Rightarrow> bool" where
  "session_repo_ok \<equiv> repo_ok sp_id sp_body"

definition view :: "SessionProjectionEntity list \<Rightarrow> session_view" where
  "view t k = map_option sp_body (row_of sp_key k t)"

text \<open>The specification: what an event does to the view.\<close>

definition sessionId_of :: "IngestedEventDto \<Rightarrow> string" where
  "sessionId_of e = readStringField (ev_payload e) ''sessionId'' []"

definition projectable :: "IngestedEventDto \<Rightarrow> bool" where
  "projectable e \<longleftrightarrow> ev_topic e = ''session_finalized'' \<and> sessionId_of e \<noteq> []"

definition project :: "host \<Rightarrow> IngestedEventDto \<Rightarrow> session_view \<Rightarrow> session_view" where
  "project h e v = (if projectable e
     then v((ev_network e, sessionId_of e) \<mapsto> sp_body (create_projection h e (sessionId_of e) None)) else v)"

section \<open>Refinement\<close>

lemma sp_key_body: "sp_body a = sp_body b \<Longrightarrow> sp_key a = sp_key b"
  by (simp add: sp_body_def sp_key_def)

lemma sp_key_fold: "(\<lambda>r. (sp_network r, sp_sessionId r) = k) = (\<lambda>r. sp_key r = k)"
  by (simp add: sp_key_def)

lemma create_projection_simps:
  "sp_id (create_projection h e s x) = Option.bind x sp_id"
  "sp_key (create_projection h e s x) = (ev_network e, s)"
  "sp_body (create_projection h e s x) = sp_body (create_projection h e s None)"
  by (simp_all add: create_projection_def sp_key_def sp_body_def)

lemma not_projectable: "\<not> projectable e \<Longrightarrow> apply_event h R e = act_ret False"
  by (simp add: apply_event_def projectable_def sessionId_of_def Let_def)

lemma apply_event_projectable:
  "projectable e \<Longrightarrow> apply_event h R e =
     act_bind (r_findOne R (\<lambda>r. sp_key r = (ev_network e, sessionId_of e)))
       (\<lambda>x. act_seq (r_save R (create_projection h e (sessionId_of e) x)) (act_ret True))"
  unfolding sp_key_fold [symmetric]
  by (simp add: apply_event_def projectable_def sessionId_of_def Let_def)

lemma apply_event_refines:
  assumes ok: "session_repo_ok R" and t: "sessions_ok t" and a: "apply_event h R e t = (r, t')"
  shows "sessions_ok t'" "r = Inr b \<Longrightarrow> b = projectable e \<and> view t' = project h e (view t)"
    "r = Inl x \<Longrightarrow> t' = t"
proof -
  let ?s = "sessionId_of e" and ?k = "(ev_network e, sessionId_of e)"
  have H: "sessions_ok t' \<and> (case r of Inl x \<Rightarrow> t' = t
      | Inr b \<Rightarrow> b = projectable e \<and> view t' = project h e (view t))"
  proof (cases "projectable e")
    case False
    then show ?thesis using a t not_projectable [OF False] by (auto simp: act_ret_def project_def)
  next
    case True
    obtain f u where f: "r_findOne R (\<lambda>r. sp_key r = ?k) t = (f, u)" by (metis surj_pair)
    have u: "u = t" by (rule findOne_same [OF ok f])
    show ?thesis
    proof (cases f)
      case (Inl y)
      then have "r = Inl y" "t' = t" using a f u apply_event_projectable [OF True] by simp_all
      then show ?thesis using t by simp
    next
      case (Inr x)
      have x: "x = row_of sp_key ?k t" using findOne_row_of [OF ok t f [unfolded Inr]] by simp
      let ?e = "create_projection h e ?s x"
      obtain g w where g: "r_save R ?e t = (g, w)" by (metis surj_pair)
      have a': "act_seq (r_save R ?e) (act_ret True) t = (r, t')"
        using a f Inr u apply_event_projectable [OF True] by simp
      show ?thesis
      proof (cases g)
        case (Inl y)
        then have "r = Inl y" "t' = w" using a' g by simp_all
        moreover have "w = t" using g Inl save_throws [OF ok] by blast
        ultimately show ?thesis using t by simp
      next
        case (Inr e')
        have S: "sessions_ok w \<and> sp_body e' = sp_body ?e \<and> row_of sp_key ?k w = Some e' \<and>
            (\<forall>k. k \<noteq> ?k \<longrightarrow> row_of sp_key k w = row_of sp_key k t)"
          using save_upsert [OF ok t sp_key_body _ g [unfolded Inr], unfolded create_projection_simps(1,2)] x
          by simp
        have b: "sp_body e' = sp_body (create_projection h e ?s None)"
          using S by (subst create_projection_simps(3) [symmetric]) blast
        have v: "view w = project h e (view t)"
        proof
          fix k show "view w k = project h e (view t) k"
          proof (cases "k = ?k")
            case False
            then have "row_of sp_key k w = row_of sp_key k t" using S by blast
            then show ?thesis using False True by (simp add: view_def project_def)
          qed (use S True b in \<open>simp add: view_def project_def\<close>)
        qed
        have "r = Inr True" "t' = w" using a' g Inr by (simp_all add: act_ret_def)
        then show ?thesis using S True v by simp
      qed
    qed
  qed
  show "sessions_ok t'" using H ..
  show "b = projectable e \<and> view t' = project h e (view t)" if "r = Inr b"
    using H unfolding that sum.case ..
  show "t' = t" if "r = Inl x"
    using H unfolding that sum.case ..
qed

lemma apply_events_refines:
  "session_repo_ok R \<Longrightarrow> sessions_ok t \<Longrightarrow> apply_events h R es t = (Inr (), t') \<Longrightarrow>
   sessions_ok t' \<and> view t' = fold (project h) es (view t)"
proof (induction es arbitrary: t)
  case Nil
  then show ?case by (simp add: apply_events_def act_ret_def)
next
  case (Cons e es)
  obtain b u where a: "apply_event h R e t = (Inr b, u)" and rest: "apply_events h R es u = (Inr (), t')"
    using Cons.prems(3) unfolding apply_events_def act_for.simps act_seq_def act_bind_returns
    by (auto simp: act_ret_def)
  note S = apply_event_refines [OF Cons.prems(1,2) a]
  show ?case using Cons.IH [OF Cons.prems(1) S(1) rest] S(2) [OF refl] by simp
qed

lemma apply_event_reliable:
  assumes "repo_reliable R"
  obtains b t' where "apply_event h R e t = (Inr b, t')"
proof (cases "projectable e")
  case False
  then show thesis using that not_projectable [OF False] by (simp add: act_ret_def)
next
  case True
  obtain x u where f: "r_findOne R (\<lambda>r. sp_key r = (ev_network e, sessionId_of e)) t = (Inr x, u)"
    by (rule reliable_findOne [OF assms])
  obtain y v where "r_save R (create_projection h e (sessionId_of e) x) u = (Inr y, v)"
    by (rule reliable_save [OF assms])
  then show thesis using f that apply_event_projectable [OF True] by (simp add: act_ret_def)
qed

lemma apply_events_reliable:
  assumes "repo_reliable R"
  shows "\<exists>t'. apply_events h R es t = (Inr (), t')"
proof (induction es arbitrary: t)
  case Nil
  then show ?case by (simp add: apply_events_def act_ret_def)
next
  case (Cons e es)
  obtain b u where a: "apply_event h R e t = (Inr b, u)" using apply_event_reliable [OF assms] .
  moreover obtain t' where "apply_events h R es u = (Inr (), t')" using Cons.IH by blast
  ultimately have "apply_events h R (e # es) t = (Inr (), t')"
    by (simp add: apply_events_def act_ret_def)
  then show ?case by blast
qed

text \<open>Replaying a log over its own result changes nothing: every key was last written by the log.\<close>

definition log_writes :: "host \<Rightarrow> IngestedEventDto list \<Rightarrow> session_view" where
  "log_writes h es = fold (project h) es Map.empty"

lemma project_add: "project h e (v ++ w) = v ++ project h e w"
  by (simp add: project_def del: fun_upd_apply)

lemma fold_project: "fold (project h) es v = v ++ log_writes h es"
proof (induction es rule: rev_induct)
  case (snoc e es)
  then show ?case by (simp add: log_writes_def project_add)
qed (simp add: log_writes_def)

lemma replay_view: "fold (project h) es (fold (project h) es v) = fold (project h) es v"
  by (auto simp: fold_project map_add_def split: option.splits)

lemma log_covers: "e \<in> set es \<Longrightarrow> projectable e \<Longrightarrow> (ev_network e, sessionId_of e) \<in> dom (fold (project h) es v)"
  by (induction es rule: rev_induct) (auto simp: project_def simp del: fun_upd_apply)

section \<open>Properties\<close>

text \<open>
  An event answers true exactly when it is a \<^verbatim>\<open>session_finalized\<close> with a non-empty string
  session id; then that session's row holds the event's columns and every other row is as it
  was.  Another event changes nothing, and a call that throws leaves the table unchanged.
\<close>

theorem projection_refines:
  assumes "session_repo_ok R" "sessions_ok t" "apply_event h R e t = (r, t')"
  shows "sessions_ok t' \<and> (case r of
      Inl _ \<Rightarrow> t' = t
    | Inr b \<Rightarrow> b = (ev_topic e = ''session_finalized'' \<and> sessionId_of e \<noteq> []) \<and>
        view t' = (if b then (view t)((ev_network e, sessionId_of e) \<mapsto>
            (ev_network e, sessionId_of e, readStringField (ev_payload e) ''player'' [],
             js_Number h (coalesce (get_prop (ev_payload e) ''dayId'') (Num (Fin 0))),
             readStringField (ev_payload e) ''status'' ''Finalized'',
             js_Number h (coalesce (get_prop (ev_payload e) ''attemptsUsed'') (Num (Fin 0))), True, 1))
          else view t))"
  using apply_event_refines [OF assms]
  by (auto simp: project_def projectable_def create_projection_def sp_body_def CURRENT_PROJECTION_VERSION_def
      split: sum.split)

definition mem_sessions :: session_repo where
  "mem_sessions = mem_repo sp_id (\<lambda>i c. c\<lparr>sp_id := Some i\<rparr>)"

lemma mem_sessions_ok: "session_repo_ok mem_sessions"
  unfolding mem_sessions_def by (rule mem_repo_ok) (simp_all add: sp_body_def)

lemma mem_sessions_reliable: "repo_reliable mem_sessions"
  by (simp add: mem_sessions_def mem_repo_reliable)

definition finalized_event :: "string \<Rightarrow> int \<Rightarrow> IngestedEventDto" where
  "finalized_event s n = \<lparr>ev_network = ''testnet'', ev_contractId = ''C1'', ev_topic = ''session_finalized'',
     ev_txHash = ''t'', ev_ledger = num 7, ev_eventIndex = num 0,
     ev_payload = [(''sessionId'', Str s), (''attemptsUsed'', Num (num n))], ev_observedAt = 0\<rparr>"

theorem projection_refines_witness:
  "view (snd (apply_event plain_host mem_sessions (finalized_event ''s1'' 4) [])) (''testnet'', ''s1'') =
   Some (''testnet'', ''s1'', [], Fin 0, ''Finalized'', Fin 4, True, 1)"
proof -
  obtain b t' where a: "apply_event plain_host mem_sessions (finalized_event ''s1'' 4) [] = (Inr b, t')"
    by (rule apply_event_reliable [OF mem_sessions_reliable])
  have s: "sessionId_of (finalized_event ''s1'' 4) = ''s1''"
    by (simp add: sessionId_of_def readStringField_def finalized_event_def get_prop_def)
  show ?thesis
    using projection_refines [OF mem_sessions_ok keyed_Nil a]
    unfolding a snd_conv s
    by (simp add: finalized_event_def get_prop_def readStringField_def)
qed

text \<open>
  Replaying an event log is idempotent: with a repository that answers, applying a log and
  then the same log again returns both times and leaves every session's columns as after the
  first pass.
\<close>

theorem projection_replay_idempotent:
  assumes "session_repo_ok R" "repo_reliable R" "sessions_ok t"
  shows "\<exists>t1 t2. apply_events h R es t = (Inr (), t1) \<and> apply_events h R es t1 = (Inr (), t2) \<and>
    view t2 = view t1 \<and> (\<forall>e \<in> set es. projectable e \<longrightarrow> view t1 (ev_network e, sessionId_of e) \<noteq> None)"
proof -
  obtain t1 where 1: "apply_events h R es t = (Inr (), t1)" using apply_events_reliable [OF assms(2)] by blast
  obtain t2 where 2: "apply_events h R es t1 = (Inr (), t2)" using apply_events_reliable [OF assms(2)] by blast
  have v1: "sessions_ok t1 \<and> view t1 = fold (project h) es (view t)"
    by (rule apply_events_refines [OF assms(1,3) 1])
  then have "view t2 = view t1" using apply_events_refines [OF assms(1) _ 2] replay_view by simp
  moreover have "\<forall>e \<in> set es. projectable e \<longrightarrow> view t1 (ev_network e, sessionId_of e) \<noteq> None"
    using v1 log_covers by (metis domIff)
  ultimately show ?thesis using 1 2 by blast
qed

theorem projection_replay_idempotent_witness:
  "\<exists>t1 t2. apply_events plain_host mem_sessions [finalized_event ''s1'' 4, finalized_event ''s1'' 2] [] = (Inr (), t1) \<and>
     apply_events plain_host mem_sessions [finalized_event ''s1'' 4, finalized_event ''s1'' 2] t1 = (Inr (), t2) \<and>
     view t2 = view t1"
  using projection_replay_idempotent [OF mem_sessions_ok mem_sessions_reliable keyed_Nil,
      of plain_host "[finalized_event ''s1'' 4, finalized_event ''s1'' 2]"] by blast

end
