(* ===== verification/Admin_Registry.thy ===== *)
theory Admin_Registry
  imports Projection_Service
begin

text \<open>
  The in-memory registry of administrators (\<^verbatim>\<open>common/admin-role.registry.ts\<close>), whose entries may
  expire and are dropped when a lookup finds them expired, and the event processor that fills it
  (\<^verbatim>\<open>processors/admin-registry-processor.service.ts\<close>).  The current time is an argument.
\<close>

record AdminRegistryEntry =
  adm_address :: string
  adm_role :: string
  adm_grantedAt :: int
  adm_expiresAt :: "int option"

type_synonym admin_registry = "(string, AdminRegistryEntry) jmap"

definition adm_register :: "AdminRegistryEntry \<Rightarrow> admin_registry \<Rightarrow> admin_registry" where
  "adm_register entry reg = jm_set (adm_address entry) entry reg"

definition adm_getRole :: "int \<Rightarrow> string \<Rightarrow> admin_registry \<Rightarrow> string option \<times> admin_registry" where
  "adm_getRole now address reg =
    (case jm_get address reg of
       None \<Rightarrow> (None, reg)
     | Some entry \<Rightarrow>
         (case adm_expiresAt entry of
            Some x \<Rightarrow> if x < now then (None, jm_delete address reg) else (Some (adm_role entry), reg)
          | None \<Rightarrow> (Some (adm_role entry), reg)))"

definition adm_isAdmin :: "int \<Rightarrow> string \<Rightarrow> admin_registry \<Rightarrow> bool \<times> admin_registry" where
  "adm_isAdmin now address reg = (case adm_getRole now address reg of (r, reg') \<Rightarrow> (r \<noteq> None, reg'))"

definition adm_hasRole :: "int \<Rightarrow> string \<Rightarrow> string \<Rightarrow> admin_registry \<Rightarrow> bool \<times> admin_registry" where
  "adm_hasRole now address role reg = (case adm_getRole now address reg of (r, reg') \<Rightarrow> (r = Some role, reg'))"

definition adm_getAll :: "admin_registry \<Rightarrow> AdminRegistryEntry list" where
  "adm_getAll reg = map snd reg"

definition adm_remove :: "string \<Rightarrow> admin_registry \<Rightarrow> admin_registry" where
  "adm_remove address reg = jm_delete address reg"

section \<open>The event processor\<close>

definition process_admin :: "int \<Rightarrow> IngestedEventDto \<Rightarrow> admin_registry \<Rightarrow> bool \<times> admin_registry" where
  "process_admin now event reg =
    (if ev_topic event \<noteq> ''admin_role_registered'' \<and> ev_topic event \<noteq> ''admin_role_revoked'' then (False, reg)
     else (let address = readStringField (ev_payload event) ''address'' [] in
       if address = [] then (False, reg)
       else if ev_topic event = ''admin_role_registered'' then
         (let role = readStringField (ev_payload event) ''role'' [] in
          if role = [] then (False, reg)
          else (True, adm_register
            \<lparr>adm_address = address, adm_role = role, adm_grantedAt = now, adm_expiresAt = None\<rparr> reg))
       else (True, adm_remove address reg)))"

section \<open>Lemmas\<close>

text \<open>The role an address holds at a time, without the sweep.\<close>

definition role_at :: "int \<Rightarrow> string \<Rightarrow> admin_registry \<Rightarrow> string option" where
  "role_at now address reg =
    (case jm_get address reg of
       None \<Rightarrow> None
     | Some entry \<Rightarrow> if (\<exists>x. adm_expiresAt entry = Some x \<and> x < now) then None else Some (adm_role entry))"

lemma fst_getRole: "fst (adm_getRole now a reg) = role_at now a reg"
  by (simp add: adm_getRole_def role_at_def split: option.split)

lemma snd_getRole: "snd (adm_getRole now a reg) = reg \<or>
    snd (adm_getRole now a reg) = jm_delete a reg \<and>
      (\<exists>entry x. jm_get a reg = Some entry \<and> adm_expiresAt entry = Some x \<and> x < now)"
  by (auto simp: adm_getRole_def split: option.split)

lemma role_at_delete: "role_at now b (jm_delete a reg) = (if b = a then None else role_at now b reg)"
  by (simp add: role_at_def)

lemma role_at_register: "role_at now b (adm_register e reg) =
    (if b = adm_address e then
       (if (\<exists>x. adm_expiresAt e = Some x \<and> x < now) then None else Some (adm_role e))
     else role_at now b reg)"
  by (simp add: role_at_def adm_register_def)

lemma role_at_expired_later:
  "jm_get a reg = Some entry \<Longrightarrow> adm_expiresAt entry = Some x \<Longrightarrow> x < now \<Longrightarrow> now \<le> now' \<Longrightarrow>
   role_at now' a reg = None"
  by (simp add: role_at_def)

lemma getRole_transparent:
  assumes "now \<le> now'"
  shows "role_at now' b (snd (adm_getRole now a reg)) = role_at now' b reg"
proof -
  have "snd (adm_getRole now a reg) = reg \<or>
    (snd (adm_getRole now a reg) = jm_delete a reg \<and> role_at now' a reg = None)"
    using snd_getRole [of now a reg] role_at_expired_later assms by blast
  then show ?thesis by (auto simp: role_at_delete)
qed

lemma getRole_wf: "jm_wf reg \<Longrightarrow> jm_wf (snd (adm_getRole now a reg))"
  using snd_getRole [of now a reg] by auto

section \<open>Use over time\<close>

text \<open>A history of the registry: registrations, removals and lookups, each at a time.\<close>

datatype adm_op = Register AdminRegistryEntry | Remove string | Lookup string

fun adm_step :: "int \<times> adm_op \<Rightarrow> admin_registry \<Rightarrow> admin_registry" where
  "adm_step (now, Register e) reg = adm_register e reg"
| "adm_step (now, Remove a) reg = adm_remove a reg"
| "adm_step (now, Lookup a) reg = snd (adm_getRole now a reg)"

definition adm_run :: "(int \<times> adm_op) list \<Rightarrow> admin_registry" where
  "adm_run ops = fold adm_step ops []"

fun is_lookup :: "int \<times> adm_op \<Rightarrow> bool" where
  "is_lookup (_, Lookup _) = True"
| "is_lookup _ = False"

lemma role_at_step:
  assumes "\<And>b. role_at now' b r1 = role_at now' b r2" "fst op \<le> now'"
  shows "role_at now' b (adm_step op r1) = role_at now' b (if is_lookup op then r2 else adm_step op r2)"
proof -
  obtain now q where op: "op = (now, q)" by (cases op)
  show ?thesis
  proof (cases q)
    case (Lookup a)
    then show ?thesis using assms op getRole_transparent [of now now'] by simp
  qed (use assms op in \<open>simp_all add: role_at_register role_at_delete adm_remove_def\<close>)
qed

lemma role_at_run:
  assumes "\<forall>op \<in> set ops. fst op \<le> now'"
  shows "role_at now' b (adm_run ops) = role_at now' b (adm_run (filter (\<lambda>op. \<not> is_lookup op) ops))"
  using assms
proof (induction ops arbitrary: b rule: rev_induct)
  case (snoc op ops)
  then have "role_at now' c (adm_run ops) = role_at now' c (adm_run (filter (\<lambda>op. \<not> is_lookup op) ops))" for c
    by simp
  then have "role_at now' b (adm_step op (adm_run ops)) = role_at now' b
      (if is_lookup op then adm_run (filter (\<lambda>op. \<not> is_lookup op) ops)
       else adm_step op (adm_run (filter (\<lambda>op. \<not> is_lookup op) ops)))"
    by (rule role_at_step) (use snoc.prems in simp)
  then show ?case by (simp add: adm_run_def)
qed (simp add: adm_run_def)

section \<open>Properties\<close>

text \<open>
  Dropping an expired entry during a lookup cannot be observed: after any history whose
  steps lie no later than now, the answers of \<^verbatim>\<open>getRole\<close>, \<^verbatim>\<open>isAdmin\<close> and \<^verbatim>\<open>hasRole\<close> are those of the
  history with its lookups left out.
\<close>

theorem registry_lookups_transparent:
  assumes "\<forall>op \<in> set ops. fst op \<le> now"
  shows "let reg = adm_run ops; reg' = adm_run (filter (\<lambda>op. \<not> is_lookup op) ops) in
    fst (adm_getRole now a reg) = fst (adm_getRole now a reg') \<and>
    fst (adm_isAdmin now a reg) = fst (adm_isAdmin now a reg') \<and>
    fst (adm_hasRole now a r reg) = fst (adm_hasRole now a r reg')"
  using role_at_run [OF assms, of a]
  by (simp add: Let_def adm_isAdmin_def adm_hasRole_def split_beta fst_getRole)

definition temp_admin :: AdminRegistryEntry where
  "temp_admin = \<lparr>adm_address = ''GA'', adm_role = ''game_admin'', adm_grantedAt = 1, adm_expiresAt = Some 5\<rparr>"

theorem registry_lookups_transparent_witness:
  "fst (adm_getRole 9 ''GA'' (adm_run [(1, Register temp_admin), (7, Lookup ''GA'')])) = None"
proof -
  let ?ops = "[(1, Register temp_admin), (7, Lookup ''GA'')]"
  have "fst (adm_getRole 9 ''GA'' (adm_run ?ops)) =
      fst (adm_getRole 9 ''GA'' (adm_run (filter (\<lambda>op. \<not> is_lookup op) ?ops)))"
    using registry_lookups_transparent [of ?ops 9 "''GA''"] by (simp add: Let_def)
  also have "\<dots> = None"
    by (simp add: adm_run_def adm_register_def adm_getRole_def temp_admin_def jm_get_def)
  finally show ?thesis .
qed

text \<open>
  Processing an event: a registration with an address and a role makes exactly that address
  hold exactly that role, from then on; a revocation with an address takes its role away; every
  other event answers false and leaves the registry as it was.
\<close>

theorem process_admin_effect:
  "case process_admin now e reg of (b, reg') \<Rightarrow>
     (let a = readStringField (ev_payload e) ''address'' []; r = readStringField (ev_payload e) ''role'' [];
          reg_ev = (ev_topic e = ''admin_role_registered'' \<and> a \<noteq> [] \<and> r \<noteq> []);
          rev_ev = (ev_topic e = ''admin_role_revoked'' \<and> a \<noteq> [])
      in b = (reg_ev \<or> rev_ev) \<and>
         (if b then fst (adm_getRole later c reg') =
            (if c = a then (if reg_ev then Some r else None) else fst (adm_getRole later c reg))
          else reg' = reg))"
  by (simp add: process_admin_def Let_def fst_getRole role_at_register role_at_delete adm_remove_def)

end
