(* ===== verification/Event_Processor.thy ===== *)
theory Event_Processor
  imports Event_Hash Admin_Registry
begin

text \<open>
  \<^verbatim>\<open>processors/event-processor.service.ts\<close>: an event that was not seen before is stored with its
  audit hash, projected, and offered to the administrator registry; a seen one is counted and
  skipped.  The service acts on the tables of events and of sessions, on the registry and on its
  own counter, which are the fields of \<^verbatim>\<open>processor\<close>.
\<close>

record IngestedEventEntity =
  ie_id :: "nat option"
  ie_network :: string
  ie_contractId :: string
  ie_topic :: string
  ie_txHash :: string
  ie_ledger :: jsnum
  ie_eventIndex :: jsnum
  ie_auditHash :: "string option"
  ie_payload :: js_record
  ie_createdAt :: "int option"

type_synonym event_repo = "(IngestedEventEntity, js_error) repo"

record processor =
  pr_events :: "IngestedEventEntity list"
  pr_sessions :: "SessionProjectionEntity list"
  pr_admins :: admin_registry
  pr_replaySkipCount :: nat

type_synonym ('z, 'a) processor_act = "('z processor_scheme, js_error, 'a) act"

definition audit_input :: "IngestedEventDto \<Rightarrow> AuditEventHashInput" where
  "audit_input e = \<lparr>ah_network = ev_network e, ah_contractId = ev_contractId e, ah_topic = ev_topic e,
     ah_txHash = ev_txHash e, ah_ledger = ev_ledger e, ah_eventIndex = ev_eventIndex e, ah_payload = ev_payload e\<rparr>"

text \<open>\<^verbatim>\<open>eventsRepo.create({ ...event, auditHash })\<close>: the columns of the entity are kept.\<close>

definition create_ingested :: "host \<Rightarrow> IngestedEventDto \<Rightarrow> IngestedEventEntity" where
  "create_ingested h e = \<lparr>ie_id = None, ie_network = ev_network e, ie_contractId = ev_contractId e,
     ie_topic = ev_topic e, ie_txHash = ev_txHash e, ie_ledger = ev_ledger e, ie_eventIndex = ev_eventIndex e,
     ie_auditHash = Some (computeAuditEventHash h (audit_input e)), ie_payload = ev_payload e, ie_createdAt = None\<rparr>"

definition on_events :: "(IngestedEventEntity list, js_error, 'a) act \<Rightarrow> ('z, 'a) processor_act" where
  "on_events = zoom pr_events (\<lambda>t s. s\<lparr>pr_events := t\<rparr>)"

definition on_sessions :: "'a session_act \<Rightarrow> ('z, 'a) processor_act" where
  "on_sessions = zoom pr_sessions (\<lambda>t s. s\<lparr>pr_sessions := t\<rparr>)"

definition process_event ::
    "host \<Rightarrow> event_repo \<Rightarrow> session_repo \<Rightarrow> int \<Rightarrow> IngestedEventDto \<Rightarrow> ('z, bool) processor_act" where
  "process_event h E S now event =
    act_bind (on_events (r_findOne E (\<lambda>r. (ie_network r, ie_txHash r, ie_eventIndex r) =
        (ev_network event, ev_txHash event, ev_eventIndex event))))
      (\<lambda>exists. case exists of
          Some _ \<Rightarrow> act_seq (act_modify (\<lambda>s. s\<lparr>pr_replaySkipCount := pr_replaySkipCount s + 1\<rparr>)) (act_ret False)
        | None \<Rightarrow>
            act_seq (on_events (r_save E (create_ingested h event)))
              (act_seq (on_sessions (apply_event h S event))
                (act_seq (act_modify (\<lambda>s. s\<lparr>pr_admins := snd (process_admin now event (pr_admins s))\<rparr>))
                  (act_ret True))))"

definition getReplaySkipCount :: "'z processor_scheme \<Rightarrow> nat" where
  "getReplaySkipCount s = pr_replaySkipCount s"

section \<open>The event table\<close>

type_synonym event_key = "string \<times> string \<times> jsnum"

definition ie_key :: "IngestedEventEntity \<Rightarrow> event_key" where
  "ie_key r = (ie_network r, ie_txHash r, ie_eventIndex r)"

definition ev_key :: "IngestedEventDto \<Rightarrow> event_key" where
  "ev_key e = (ev_network e, ev_txHash e, ev_eventIndex e)"

definition ie_body where
  "ie_body r = (ie_network r, ie_contractId r, ie_topic r, ie_txHash r, ie_ledger r, ie_eventIndex r,
     ie_auditHash r, ie_payload r)"

abbreviation events_ok :: "IngestedEventEntity list \<Rightarrow> bool" where
  "events_ok \<equiv> keyed ie_id ie_key"

abbreviation event_repo_ok :: "event_repo \<Rightarrow> bool" where
  "event_repo_ok \<equiv> repo_ok ie_id ie_body"

definition seen :: "'z processor_scheme \<Rightarrow> event_key set" where
  "seen s = ie_key ` set (pr_events s)"

definition processor_ok :: "'z processor_scheme \<Rightarrow> bool" where
  "processor_ok s \<longleftrightarrow> events_ok (pr_events s) \<and> sessions_ok (pr_sessions s)"

lemma ie_key_body: "ie_body a = ie_body b \<Longrightarrow> ie_key a = ie_key b"
  by (simp add: ie_body_def ie_key_def)

lemma ie_key_fold: "(\<lambda>r. (ie_network r, ie_txHash r, ie_eventIndex r) = k) = (\<lambda>r. ie_key r = k)"
  by (simp add: ie_key_def)

lemma create_ingested_simps: "ie_id (create_ingested h e) = None" "ie_key (create_ingested h e) = ev_key e"
  by (simp_all add: create_ingested_def ie_key_def ev_key_def)

lemma seen_iff: "ev_key e \<in> seen s \<longleftrightarrow> row_of ie_key (ev_key e) (pr_events s) \<noteq> None"
  unfolding seen_def option.simps row_of_None by (metis imageE imageI)

text \<open>Storing a new event.\<close>

lemma save_event:
  assumes ok: "event_repo_ok E" and t: "events_ok t" and new: "row_of ie_key (ev_key e) t = None"
    and sv: "r_save E (create_ingested h e) t = (Inr x, t')"
  shows "events_ok t'" "ie_key ` set t' = insert (ev_key e) (ie_key ` set t)"
    "ie_body x = ie_body (create_ingested h e)" "row_of ie_key (ev_key e) t' = Some x"
    "\<And>k. k \<noteq> ev_key e \<Longrightarrow> row_of ie_key k t' = row_of ie_key k t"
proof -
  have U: "events_ok t' \<and> ie_body x = ie_body (create_ingested h e) \<and> row_of ie_key (ev_key e) t' = Some x \<and>
      (\<forall>k. k \<noteq> ev_key e \<longrightarrow> row_of ie_key k t' = row_of ie_key k t)"
    using save_upsert [OF ok t ie_key_body _ sv, unfolded create_ingested_simps] new by simp
  then show "events_ok t'" "ie_body x = ie_body (create_ingested h e)" "row_of ie_key (ev_key e) t' = Some x"
    "\<And>k. k \<noteq> ev_key e \<Longrightarrow> row_of ie_key k t' = row_of ie_key k t" by blast+
  have "set t' = insert x (set t)" by (rule save_new_set [OF ok sv create_ingested_simps(1)])
  moreover have "ie_key x = ev_key e" using U row_of_SomeD by metis
  ultimately show "ie_key ` set t' = insert (ev_key e) (ie_key ` set t)" by simp
qed

section \<open>What one call can do\<close>

text \<open>
  The four outcomes of a call: the event is a duplicate; it is stored and projected; nothing
  happened before a throw; or the row was stored and the projection threw.
\<close>

inductive outcome ::
    "host \<Rightarrow> int \<Rightarrow> IngestedEventDto \<Rightarrow> 'z processor_scheme \<Rightarrow> js_error + bool \<Rightarrow> 'z processor_scheme \<Rightarrow> bool"
  for h now e s where
    duplicate: "ev_key e \<in> seen s \<Longrightarrow>
      outcome h now e s (Inr False) (s\<lparr>pr_replaySkipCount := pr_replaySkipCount s + 1\<rparr>)"
  | stored: "ev_key e \<notin> seen s \<Longrightarrow> events_ok t \<Longrightarrow> ie_key ` set t = insert (ev_key e) (seen s) \<Longrightarrow>
      sessions_ok u \<Longrightarrow> view u = project h e (view (pr_sessions s)) \<Longrightarrow>
      outcome h now e s (Inr True)
        (s\<lparr>pr_events := t, pr_sessions := u, pr_admins := snd (process_admin now e (pr_admins s))\<rparr>)"
  | aborted: "outcome h now e s (Inl x) s"
  | half: "ev_key e \<notin> seen s \<Longrightarrow> events_ok t \<Longrightarrow> ie_key ` set t = insert (ev_key e) (seen s) \<Longrightarrow>
      outcome h now e s (Inl x) (s\<lparr>pr_events := t\<rparr>)"

inductive_cases outcome_InrE: "outcome h now e s (Inr b) s'"
inductive_cases outcome_InlE: "outcome h now e s (Inl x) s'"

lemma process_event_outcome:
  assumes ok: "event_repo_ok E" "session_repo_ok S" and inv: "processor_ok s"
    and p: "process_event h E S now e s = (r, s')"
  shows "outcome h now e s r s'"
proof -
  let ?find = "on_events (r_findOne E (\<lambda>r. ie_key r = ev_key e)) :: ('a, _) processor_act"
  have ev: "events_ok (pr_events s)" and se: "sessions_ok (pr_sessions s)" using inv by (simp_all add: processor_ok_def)
  obtain f t0 where f: "r_findOne E (\<lambda>r. ie_key r = ev_key e) (pr_events s) = (f, t0)" by (metis surj_pair)
  have t0: "t0 = pr_events s" by (rule findOne_same [OF ok(1) f])
  have find: "?find s = (f, s)" using f t0 by (simp add: on_events_def zoom_def)
  have key: "(\<lambda>r. (ie_network r, ie_txHash r, ie_eventIndex r) = (ev_network e, ev_txHash e, ev_eventIndex e)) =
      (\<lambda>r. ie_key r = ev_key e)" by (simp add: ie_key_def ev_key_def)
  show ?thesis
  proof (cases f)
    case (Inl x)
    then have "r = Inl x" "s' = s" using p find unfolding process_event_def key by simp_all
    then show ?thesis by (simp add: outcome.aborted)
  next
    case (Inr row)
    have row: "row = row_of ie_key (ev_key e) (pr_events s)"
      using findOne_row_of [OF ok(1) ev f [unfolded Inr]] by simp
    show ?thesis
    proof (cases row)
      case (Some y)
      then have "r = Inr False" "s' = s\<lparr>pr_replaySkipCount := pr_replaySkipCount s + 1\<rparr>"
        using p find Inr unfolding process_event_def key by (simp_all add: act_ret_def act_modify_def)
      moreover have "ev_key e \<in> seen s" using Some unfolding seen_iff row by simp
      ultimately show ?thesis using outcome.duplicate [of e s h now] by simp
    next
      case None
      have new: "ev_key e \<notin> seen s" using row None by (simp add: seen_iff)
      obtain g t where g: "r_save E (create_ingested h e) (pr_events s) = (g, t)" by (metis surj_pair)
      have save: "on_events (r_save E (create_ingested h e)) s = (g, s\<lparr>pr_events := t\<rparr>)"
        using g by (simp add: on_events_def zoom_def)
      have p1: "act_seq (on_events (r_save E (create_ingested h e))) (act_seq (on_sessions (apply_event h S e))
          (act_seq (act_modify (\<lambda>s. s\<lparr>pr_admins := snd (process_admin now e (pr_admins s))\<rparr>)) (act_ret True))) s = (r, s')"
        using p find Inr None unfolding process_event_def key by simp
      show ?thesis
      proof (cases g)
        case (Inl x)
        then have "t = pr_events s" using g save_throws [OF ok(1)] by blast
        then have "r = Inl x" "s' = s" using p1 save Inl by simp_all
        then show ?thesis by (simp add: outcome.aborted)
      next
        case (Inr x)
        note T = save_event(1,2) [OF ok(1) ev _ g [unfolded Inr]]
        have t: "events_ok t" "ie_key ` set t = insert (ev_key e) (seen s)"
          using T row None by (simp_all add: seen_def)
        obtain a u where a: "apply_event h S e (pr_sessions s) = (a, u)" by (metis surj_pair)
        have ap: "on_sessions (apply_event h S e) (s\<lparr>pr_events := t\<rparr>) =
            (a, s\<lparr>pr_events := t, pr_sessions := u\<rparr>)" using a by (simp add: on_sessions_def zoom_def)
        note A = apply_event_refines [OF ok(2) se a]
        show ?thesis
        proof (cases a)
          case (Inl z)
          then have "u = pr_sessions s" using A(3) by simp
          then have "r = Inl z" "s' = s\<lparr>pr_events := t\<rparr>" using p1 save \<open>g = Inr x\<close> ap Inl by simp_all
          then show ?thesis using outcome.half [OF new t] by simp
        next
          case (Inr b)
          have "r = Inr True"
            "s' = s\<lparr>pr_events := t, pr_sessions := u, pr_admins := snd (process_admin now e (pr_admins s))\<rparr>"
            using p1 save \<open>g = Inr x\<close> ap Inr by (simp_all add: act_modify_def act_ret_def)
          then show ?thesis using outcome.stored [OF new t A(1)] A(2) [OF Inr] by simp
        qed
      qed
    qed
  qed
qed

lemma outcome_ok: "outcome h now e s r s' \<Longrightarrow> processor_ok s \<Longrightarrow> processor_ok s' \<and> seen s \<subseteq> seen s'"
  by (induction rule: outcome.induct) (auto simp: processor_ok_def seen_def)

lemma outcome_seen: "outcome h now e s (Inr b) s' \<Longrightarrow> ev_key e \<in> seen s'"
  by (erule outcome_InrE) (auto simp: seen_def)

section \<open>A stream of events\<close>

definition process_all ::
    "host \<Rightarrow> event_repo \<Rightarrow> session_repo \<Rightarrow> (int \<times> IngestedEventDto) list \<Rightarrow> ('z, unit) processor_act" where
  "process_all h E S es = act_for es (\<lambda>(now, e). act_seq (process_event h E S now e) (act_ret ()))"

text \<open>
  The abstract processor: the keys seen, the view of the sessions, the administrators, and the
  count of skips.
\<close>

type_synonym abs_processor = "event_key set \<times> session_view \<times> admin_registry \<times> nat"

definition abs_proc :: "'z processor_scheme \<Rightarrow> abs_processor" where
  "abs_proc s = (seen s, view (pr_sessions s), pr_admins s, pr_replaySkipCount s)"

fun abs_process :: "host \<Rightarrow> int \<times> IngestedEventDto \<Rightarrow> abs_processor \<Rightarrow> abs_processor" where
  "abs_process h (now, e) (ks, v, a, n) =
    (if ev_key e \<in> ks then (ks, v, a, n + 1)
     else (insert (ev_key e) ks, project h e v, snd (process_admin now e a), n))"

lemma outcome_abs:
  "outcome h now e s (Inr b) s' \<Longrightarrow> abs_proc s' = abs_process h (now, e) (abs_proc s) \<and> b = (ev_key e \<notin> seen s)"
  by (erule outcome_InrE) (auto simp: abs_proc_def seen_def)

lemma process_event_reliable:
  assumes "repo_reliable E" "repo_reliable S"
  obtains b s' where "process_event h E S now e s = (Inr b, s')"
proof -
  obtain f t where f: "r_findOne E (\<lambda>r. (ie_network r, ie_txHash r, ie_eventIndex r) =
      (ev_network e, ev_txHash e, ev_eventIndex e)) (pr_events s) = (Inr f, t)"
    by (rule reliable_findOne [OF assms(1)])
  obtain x t1 where g: "r_save E (create_ingested h e) t = (Inr x, t1)" by (rule reliable_save [OF assms(1)])
  obtain b u where "apply_event h S e (pr_sessions s) = (Inr b, u)"
    using apply_event_reliable [OF assms(2)] .
  then show thesis using f g that
    by (cases f) (auto simp: process_event_def on_events_def on_sessions_def act_defs)
qed

lemma process_all_abs:
  assumes "event_repo_ok E" "session_repo_ok S" "repo_reliable E" "repo_reliable S" "processor_ok s"
  shows "\<exists>s'. process_all h E S es s = (Inr (), s') \<and> processor_ok s' \<and> abs_proc s' = fold (abs_process h) es (abs_proc s)"
  using assms(5)
proof (induction es arbitrary: s)
  case Nil
  then show ?case by (simp add: process_all_def act_ret_def)
next
  case (Cons x es)
  obtain now e where x: "x = (now, e)" by (cases x)
  obtain b u where p: "process_event h E S now e s = (Inr b, u)" using process_event_reliable [OF assms(3,4)] .
  have o: "outcome h now e s (Inr b) u" by (rule process_event_outcome [OF assms(1,2) Cons.prems p])
  obtain s' where "process_all h E S es u = (Inr (), s')" "processor_ok s'" "abs_proc s' = fold (abs_process h) es (abs_proc u)"
    using Cons.IH outcome_ok [OF o Cons.prems] by blast
  moreover have "process_all h E S (x # es) s = process_all h E S es u"
    using p x by (simp add: process_all_def act_ret_def)
  ultimately show ?case using outcome_abs [OF o] x by simp
qed

section \<open>Properties\<close>

text \<open>
  C6: processing is exactly once: with repositories that answer, a stream of events returns and
  the processor stands where the abstract one does, which stores, projects and offers to the
  registry only the first event of each network, transaction and index, and counts the others.
\<close>

theorem processor_refines:
  assumes "event_repo_ok E" "session_repo_ok S" "repo_reliable E" "repo_reliable S" "processor_ok s"
  shows "\<exists>s'. process_all h E S es s = (Inr (), s') \<and> processor_ok s' \<and>
    abs_proc s' = fold (abs_process h) es (abs_proc s) \<and> seen s' = seen s \<union> ev_key ` snd ` set es"
proof -
  have "fst (fold (abs_process h) es a) = fst a \<union> ev_key ` snd ` set es" for a
    by (induction es arbitrary: a) (auto split: if_splits)
  then show ?thesis using process_all_abs [OF assms] by (metis abs_proc_def fst_conv)
qed

definition mem_events :: event_repo where
  "mem_events = mem_repo ie_id (\<lambda>i c. c\<lparr>ie_id := Some i\<rparr>)"

lemma mem_events_ok: "event_repo_ok mem_events" "repo_reliable mem_events"
  unfolding mem_events_def by (rule mem_repo_ok) (simp_all add: ie_body_def mem_repo_reliable)

definition empty_processor :: processor where
  "empty_processor = \<lparr>pr_events = [], pr_sessions = [], pr_admins = [], pr_replaySkipCount = 0\<rparr>"

lemma empty_processor_ok: "processor_ok empty_processor" "seen empty_processor = {}"
  by (simp_all add: processor_ok_def empty_processor_def seen_def)

theorem processor_refines_witness:
  "\<exists>s'. process_all plain_host mem_events mem_sessions [(0, finalized_event ''s1'' 4), (1, finalized_event ''s1'' 2)]
      empty_processor = (Inr (), s') \<and> pr_replaySkipCount s' = 1 \<and> seen s' = {(''testnet'', ''t'', num 0)}"
proof -
  let ?es = "[(0 :: int, finalized_event ''s1'' 4), (1, finalized_event ''s1'' 2)]"
  obtain s' where s': "process_all plain_host mem_events mem_sessions ?es empty_processor = (Inr (), s')"
    "abs_proc s' = fold (abs_process plain_host) ?es (abs_proc empty_processor)"
    "seen s' = seen empty_processor \<union> ev_key ` snd ` set ?es"
    using processor_refines [OF mem_events_ok(1) mem_sessions_ok mem_events_ok(2) mem_sessions_reliable
        empty_processor_ok(1), where h = plain_host and es = ?es] by blast
  have k: "ev_key (finalized_event x n) = (''testnet'', ''t'', num 0)" for x n
    by (simp add: ev_key_def finalized_event_def)
  have a: "abs_proc empty_processor = ({}, view [], [], 0)"
    using empty_processor_ok(2) by (simp add: abs_proc_def) (simp add: empty_processor_def)
  have "pr_replaySkipCount s' = 1"
    using s'(2) unfolding a by (simp add: abs_proc_def k)
  moreover have "seen s' = {(''testnet'', ''t'', num 0)}"
    using s'(3) by (simp add: k empty_processor_ok(2))
  ultimately show ?thesis using s'(1) by blast
qed

text \<open>
  Storing and projecting are not one transaction: when the projection throws after the row
  was stored, the event counts as seen, so every later delivery of it answers false and neither
  the session view nor the registry ever shows it.
\<close>

theorem failed_projection_lost:
  assumes "event_repo_ok E" "session_repo_ok S" "processor_ok s" "ev_key e \<notin> seen s"
    and "process_event h E S now e s = (Inl x, s1)" "ev_key e \<in> seen s1"
    and "event_repo_ok E'" "repo_reliable E'" "session_repo_ok S'" "repo_reliable S'"
  shows "\<exists>s2. process_event h E' S' later e s1 = (Inr False, s2) \<and>
    view (pr_sessions s2) = view (pr_sessions s) \<and> pr_admins s2 = pr_admins s"
proof -
  have o: "outcome h now e s (Inl x) s1" by (rule process_event_outcome [OF assms(1-3,5)])
  have ok1: "processor_ok s1" using outcome_ok [OF o assms(3)] by blast
  have same: "pr_sessions s1 = pr_sessions s" "pr_admins s1 = pr_admins s"
    using o by (auto elim: outcome_InlE)
  obtain b s2 where p: "process_event h E' S' later e s1 = (Inr b, s2)"
    using process_event_reliable [OF assms(8,10)] .
  have "outcome h later e s1 (Inr b) s2" by (rule process_event_outcome [OF assms(7,9) ok1 p])
  then have "b = False \<and> abs_proc s2 = abs_process h (later, e) (abs_proc s1)" using outcome_abs assms(6) by blast
  then show ?thesis using p same assms(6) by (auto simp: abs_proc_def)
qed

definition broken_sessions :: session_repo where
  "broken_sessions = mem_sessions\<lparr>r_save := (\<lambda>e t. (Inl (JsError ''QueryFailedError'' ''connection lost'' []), t))\<rparr>"

lemma broken_sessions_ok: "session_repo_ok broken_sessions"
  using mem_sessions_ok
  by (auto simp: broken_sessions_def repo_ok_def find_ok_def findOne_ok_def save_ok_def update_ok_def
      delete_ok_def atomic_def)

lemma broken_apply: "projectable e \<Longrightarrow> apply_event h broken_sessions e [] =
    (Inl (JsError ''QueryFailedError'' ''connection lost'' []), [])"
  by (simp add: apply_event_projectable broken_sessions_def mem_sessions_def mem_repo_def act_bind_def)

lemma process_broken:
  assumes "projectable e" "pr_events s = []" "pr_sessions s = []"
  shows "\<exists>s'. process_event h mem_events broken_sessions now e s =
      (Inl (JsError ''QueryFailedError'' ''connection lost'' []), s') \<and> pr_sessions s' = [] \<and> ev_key e \<in> seen s'"
proof -
  have f: "r_findOne mem_events P [] = (Inr None, [])" for P by (simp add: mem_events_def mem_repo_def)
  obtain x where x: "r_save mem_events (create_ingested h e) [] = (Inr x, [x])" "ie_key x = ev_key e"
    by (simp add: mem_events_def mem_repo_def mem_save_def create_ingested_simps Let_def)
      (simp add: create_ingested_def ie_key_def ev_key_def)
  show ?thesis
    using f x broken_apply [OF assms(1), of h] assms(2,3)
    by (simp add: process_event_def on_events_def on_sessions_def act_defs seen_def)
qed

theorem failed_projection_lost_witness:
  "\<exists>s1 x. process_event plain_host mem_events broken_sessions 0 (finalized_event ''s1'' 4) empty_processor = (Inl x, s1) \<and>
     (\<exists>s2. process_event plain_host mem_events mem_sessions 1 (finalized_event ''s1'' 4) s1 = (Inr False, s2) \<and>
        view (pr_sessions s2) = view [])"
proof -
  let ?e = "finalized_event ''s1'' 4"
  have s: "sessionId_of ?e = ''s1''" "projectable ?e"
    by (simp_all add: projectable_def sessionId_of_def readStringField_def finalized_event_def get_prop_def)
  obtain s1 where p: "process_event plain_host mem_events broken_sessions 0 ?e empty_processor =
      (Inl (JsError ''QueryFailedError'' ''connection lost'' []), s1)" and "ev_key ?e \<in> seen s1"
    using process_broken [OF s(2), of empty_processor plain_host 0] by (auto simp: empty_processor_def)
  moreover have "ev_key ?e \<notin> seen empty_processor" by (simp add: empty_processor_ok)
  ultimately obtain s2 where "process_event plain_host mem_events mem_sessions 1 ?e s1 = (Inr False, s2)"
    "view (pr_sessions s2) = view (pr_sessions empty_processor)"
    using failed_projection_lost [OF mem_events_ok(1) broken_sessions_ok empty_processor_ok(1) _ p _
        mem_events_ok mem_sessions_ok mem_sessions_reliable, of 1] by blast
  then show ?thesis using p by (auto simp: empty_processor_def)
qed

end
