(* ===== verification/Rpc_Validator.thy ===== *)
theory Rpc_Validator
  imports Js_Values
begin

text \<open>
  The two checks of \<^verbatim>\<open>processors/rpc-response.validator.ts\<close> on data the RPC node returns: the
  envelope of a response, whose failures abort the poll cycle, and the shape of a single raw
  event, whose failures are reported as a diagnostic.
\<close>

definition RpcValidationError :: "string \<Rightarrow> js_record \<Rightarrow> js_error" where
  "RpcValidationError message context = JsError ''RpcValidationError'' message context"

definition validateRpcResponseShape :: "js \<Rightarrow> js_error + js list" where
  "validateRpcResponseShape data =
    (case data of
       Obj body \<Rightarrow>
         (if get_prop body ''error'' \<noteq> Undef then
            (let err = (case get_prop body ''error'' of Obj r \<Rightarrow> r | _ \<Rightarrow> []) in
             Inl (RpcValidationError ''RPC returned an error response''
               [(''code'', get_prop err ''code''), (''message'', get_prop err ''message'')]))
          else if nullish (get_prop body ''result'') then
            Inl (RpcValidationError (''RPC response missing '' @ json_quote ''result'' @ '' field'')
               [(''presentKeys'', Arr (map (Str \<circ> fst) body))])
          else (case get_prop body ''result'' of
            Obj result \<Rightarrow>
              (case get_prop result ''events'' of
                 Arr events \<Rightarrow> Inr events
               | v \<Rightarrow> Inl (RpcValidationError (json_quote ''result.events'' @ '' is not an array'')
                   [(''receivedType'', Str (if v = Undef then ''missing'' else js_typeof v))]))
          | v \<Rightarrow> Inl (RpcValidationError (json_quote ''result'' @ '' is not an object'')
                   [(''receivedType'', Str (js_typeof v))])))
     | _ \<Rightarrow> Inl (RpcValidationError ''RPC response body is not a JSON object''
               [(''receivedType'', Str (if data = Null then ''null'' else js_typeof data))]))"

text \<open>The diagnostic: missing fields, and the malformed ones with the expected and received type.\<close>

record RawEventDiagnostic =
  diag_index :: nat
  missingFields :: "string list"
  malformedFields :: "(string \<times> string \<times> string) list"

text \<open>One field: absent, of another type than expected, or fine.\<close>

definition checkField ::
    "js_record \<Rightarrow> string \<Rightarrow> string \<Rightarrow> RawEventDiagnostic \<Rightarrow> RawEventDiagnostic" where
  "checkField e field expected d =
    (let v = get_prop e field in
     if nullish v then d\<lparr>missingFields := missingFields d @ [field]\<rparr>
     else if js_typeof v \<noteq> expected
       then d\<lparr>malformedFields := malformedFields d @ [(field, expected, js_typeof v)]\<rparr>
     else d)"

definition checkPayload :: "js_record \<Rightarrow> RawEventDiagnostic \<Rightarrow> RawEventDiagnostic" where
  "checkPayload e d =
    (let v = get_prop e ''payload'' in
     if v \<noteq> Undef \<and> v \<noteq> Null \<and> (js_typeof v \<noteq> ''object'' \<or> is_array v)
       then d\<lparr>malformedFields := malformedFields d @
         [(''payload'', ''object'', if is_array v then ''array'' else js_typeof v)]\<rparr>
     else d)"

definition diagnoseMalformedEvent :: "js \<Rightarrow> nat \<Rightarrow> RawEventDiagnostic option" where
  "diagnoseMalformedEvent raw index =
    (case raw of
       Obj e \<Rightarrow>
         (let d = \<lparr>diag_index = index, missingFields = [], malformedFields = []\<rparr>;
              d = fold (\<lambda>f. checkField e f ''string'') [''contractId'', ''txHash'', ''topic''] d;
              d = checkField e ''ledger'' ''number'' d;
              d = checkField e ''eventIndex'' ''number'' d;
              d = checkPayload e d
          in if missingFields d = [] \<and> malformedFields d = [] then None else Some d)
     | _ \<Rightarrow> Some \<lparr>diag_index = index, missingFields = [],
         malformedFields = [(''<event>'', ''object'',
           if raw = Null then ''null'' else if is_array raw then ''array'' else js_typeof raw)]\<rparr>)"

section \<open>What the checks accept\<close>

definition field_types :: "(string \<times> string) list" where
  "field_types = [(''contractId'', ''string''), (''txHash'', ''string''), (''topic'', ''string''),
     (''ledger'', ''number''), (''eventIndex'', ''number'')]"

inductive well_shaped :: "js \<Rightarrow> bool" where
  "get_prop e ''contractId'' = Str c \<Longrightarrow> get_prop e ''txHash'' = Str t \<Longrightarrow> get_prop e ''topic'' = Str p \<Longrightarrow>
   get_prop e ''ledger'' = Num l \<Longrightarrow> get_prop e ''eventIndex'' = Num i \<Longrightarrow>
   nullish (get_prop e ''payload'') \<or> get_prop e ''payload'' = Obj r \<Longrightarrow> well_shaped (Obj e)"

inductive_cases well_shapedE: "well_shaped x"
inductive_simps well_shaped_Obj: "well_shaped (Obj e)"

lemma typeof_string: "js_typeof v = ''string'' \<longleftrightarrow> (\<exists>s. v = Str s)"
  and typeof_number: "js_typeof v = ''number'' \<longleftrightarrow> (\<exists>n. v = Num n)"
  and typeof_object: "js_typeof v = ''object'' \<longleftrightarrow> v = Null \<or> (\<exists>a. v = Arr a) \<or> (\<exists>r. v = Obj r)"
  by (cases v; simp)+

lemma typed_not_nullish: "js_typeof v = ''string'' \<or> js_typeof v = ''number'' \<Longrightarrow> \<not> nullish v"
  by (cases v) (auto simp: nullish_def)

lemma checkField_missing: "missingFields (checkField e f t d) =
    missingFields d @ (if nullish (get_prop e f) then [f] else [])"
  by (simp add: checkField_def Let_def)

lemma checkField_malformed: "malformedFields (checkField e f t d) = malformedFields d @
    (if \<not> nullish (get_prop e f) \<and> js_typeof (get_prop e f) \<noteq> t then [(f, t, js_typeof (get_prop e f))] else [])"
  by (simp add: checkField_def Let_def)

lemma checkField_index: "diag_index (checkField e f t d) = diag_index d"
  by (simp add: checkField_def Let_def)

lemmas checkField_simps = checkField_missing checkField_malformed checkField_index

lemma checkPayload_simps:
  "missingFields (checkPayload e d) = missingFields d" "diag_index (checkPayload e d) = diag_index d"
  "malformedFields (checkPayload e d) = malformedFields d @
     (let v = get_prop e ''payload'' in
      if nullish v \<or> (\<exists>r. v = Obj r) then []
      else [(''payload'', ''object'', if is_array v then ''array'' else js_typeof v)])"
  by (cases "get_prop e ''payload''"; simp add: checkPayload_def nullish_def)+

lemma nullish_or_Obj:
  "nullish v \<or> (\<exists>r. v = Obj r) \<longleftrightarrow> (\<exists>r. nullish v \<or> v = Obj r)"
  by auto

lemma if_None_Some: "(if c then None else Some x) = Some d \<longleftrightarrow> \<not> c \<and> x = d"
  by simp

text \<open>The diagnostic of an object, field by field.\<close>

lemma diagnose_Obj:
  "diagnoseMalformedEvent (Obj e) i =
    (let miss = filter (\<lambda>f. nullish (get_prop e f)) (map fst field_types);
         bad = map (\<lambda>(f, t). (f, t, js_typeof (get_prop e f)))
           (filter (\<lambda>(f, t). \<not> nullish (get_prop e f) \<and> js_typeof (get_prop e f) \<noteq> t) field_types) @
           (let v = get_prop e ''payload'' in
            if nullish v \<or> (\<exists>r. v = Obj r) then []
            else [(''payload'', ''object'', if is_array v then ''array'' else js_typeof v)])
     in if miss = [] \<and> bad = [] then None
        else Some \<lparr>diag_index = i, missingFields = miss, malformedFields = bad\<rparr>)"
proof -
  define d where "d = checkPayload e (checkField e ''eventIndex'' ''number'' (checkField e ''ledger'' ''number''
    (fold (\<lambda>f. checkField e f ''string'') [''contractId'', ''txHash'', ''topic'']
      \<lparr>diag_index = i, missingFields = [], malformedFields = []\<rparr>)))"
  have m: "missingFields d = filter (\<lambda>f. nullish (get_prop e f)) (map fst field_types)"
    by (simp add: d_def checkField_simps checkPayload_simps field_types_def)
  have b: "malformedFields d = map (\<lambda>(f, t). (f, t, js_typeof (get_prop e f)))
      (filter (\<lambda>(f, t). \<not> nullish (get_prop e f) \<and> js_typeof (get_prop e f) \<noteq> t) field_types) @
      (let v = get_prop e ''payload'' in
       if nullish v \<or> (\<exists>r. v = Obj r) then []
       else [(''payload'', ''object'', if is_array v then ''array'' else js_typeof v)])"
    by (simp add: d_def checkField_simps checkPayload_simps field_types_def)
  have i: "diag_index d = i" by (simp add: d_def checkField_simps checkPayload_simps)
  have "diagnoseMalformedEvent (Obj e) i =
      (if missingFields d = [] \<and> malformedFields d = [] then None else Some d)"
    unfolding d_def by (simp add: diagnoseMalformedEvent_def Let_def)
  also have "d = \<lparr>diag_index = i, missingFields = missingFields d, malformedFields = malformedFields d\<rparr>"
    by (simp add: i)
  finally show ?thesis by (simp add: m b Let_def)
qed

lemma diagnose_None_iff: "diagnoseMalformedEvent raw i = None \<longleftrightarrow> well_shaped raw"
proof (cases raw)
  case (Obj e)
  have 1: "\<not> nullish v \<and> js_typeof v = ''string'' \<longleftrightarrow> (\<exists>s. v = Str s)" for v
    using typeof_string typed_not_nullish by blast
  have 2: "\<not> nullish v \<and> js_typeof v = ''number'' \<longleftrightarrow> (\<exists>n. v = Num n)" for v
    using typeof_number typed_not_nullish by blast
  have "diagnoseMalformedEvent raw i = None \<longleftrightarrow>
      (\<forall>(f, t) \<in> set field_types. \<not> nullish (get_prop e f) \<and> js_typeof (get_prop e f) = t) \<and>
      (nullish (get_prop e ''payload'') \<or> (\<exists>r. get_prop e ''payload'' = Obj r))"
    unfolding Obj diagnose_Obj Let_def by (simp add: filter_empty_conv field_types_def)
  then show ?thesis
    unfolding Obj well_shaped_Obj using 1 2 by (simp add: field_types_def)
qed (auto simp: diagnoseMalformedEvent_def elim: well_shaped.cases)

section \<open>Properties\<close>

text \<open>
  A response body is accepted exactly when it is an object with no \<^verbatim>\<open>error\<close> field whose
  \<^verbatim>\<open>result\<close> is an object with an array \<^verbatim>\<open>events\<close>, and then the events come back unchanged; every
  other body is refused with an \<^verbatim>\<open>RpcValidationError\<close>.
\<close>

theorem validateRpcResponseShape_iff:
  "(validateRpcResponseShape data = Inr es \<longleftrightarrow>
      (\<exists>body result. data = Obj body \<and> get_prop body ''error'' = Undef \<and>
         get_prop body ''result'' = Obj result \<and> get_prop result ''events'' = Arr es)) \<and>
   (case validateRpcResponseShape data of Inl err \<Rightarrow> err_name err = ''RpcValidationError'' | Inr _ \<Rightarrow> True)"
proof (cases data)
  case (Obj body)
  show ?thesis
  proof (cases "get_prop body ''result''")
    case r: (Obj result)
    then show ?thesis
      by (cases "get_prop result ''events''")
        (auto simp: Obj validateRpcResponseShape_def nullish_def RpcValidationError_def Let_def)
  qed (auto simp: Obj validateRpcResponseShape_def nullish_def RpcValidationError_def Let_def)
qed (auto simp: validateRpcResponseShape_def RpcValidationError_def)

text \<open>
  A raw event passes exactly when its three strings and two numbers are present with those
  types and the payload is absent, null or a plain object; otherwise the diagnostic carries the
  event's index, and for an object it names exactly the absent fields and exactly the fields of
  another type.
\<close>

theorem diagnoseMalformedEvent_complete:
  "case diagnoseMalformedEvent raw i of
     None \<Rightarrow> well_shaped raw
   | Some d \<Rightarrow> \<not> well_shaped raw \<and> diag_index d = i \<and>
       (\<forall>e. raw = Obj e \<longrightarrow>
          set (missingFields d) = {f \<in> fst ` set field_types. nullish (get_prop e f)} \<and>
          (\<forall>(f, t) \<in> set field_types. f \<in> fst ` set (malformedFields d) \<longleftrightarrow>
             \<not> nullish (get_prop e f) \<and> js_typeof (get_prop e f) \<noteq> t) \<and>
          (''payload'' \<in> fst ` set (malformedFields d) \<longleftrightarrow>
             \<not> nullish (get_prop e ''payload'') \<and> (\<forall>r. get_prop e ''payload'' \<noteq> Obj r)))"
proof (cases "diagnoseMalformedEvent raw i")
  case None
  moreover have "well_shaped raw" using None diagnose_None_iff [of raw i] by simp
  ultimately show ?thesis by simp
next
  case (Some d)
  then have n: "\<not> well_shaped raw" using diagnose_None_iff [of raw i] by simp
  show ?thesis
  proof (cases raw)
    case (Obj e)
    have d: "d = \<lparr>diag_index = i, missingFields = filter (\<lambda>f. nullish (get_prop e f)) (map fst field_types),
      malformedFields = map (\<lambda>(f, t). (f, t, js_typeof (get_prop e f)))
           (filter (\<lambda>(f, t). \<not> nullish (get_prop e f) \<and> js_typeof (get_prop e f) \<noteq> t) field_types) @
           (let v = get_prop e ''payload'' in
            if nullish v \<or> (\<exists>r. v = Obj r) then []
            else [(''payload'', ''object'', if is_array v then ''array'' else js_typeof v)])\<rparr>"
      using Some [unfolded Obj diagnose_Obj Let_def if_None_Some] unfolding Let_def
      by (rule conjunct2 [THEN sym])
    have m: "set (missingFields d) = {f \<in> fst ` set field_types. nullish (get_prop e f)}"
      by (simp add: d)
    let ?bad = "\<lambda>f t. \<not> nullish (get_prop e f) \<and> js_typeof (get_prop e f) \<noteq> t"
    let ?pay = "nullish (get_prop e ''payload'') \<or> (\<exists>r. get_prop e ''payload'' = Obj r)"
    have keys: "fst ` set (malformedFields d) =
        {f. \<exists>t. (f, t) \<in> set field_types \<and> ?bad f t} \<union> (if ?pay then {} else {''payload''})"
      unfolding d by (auto simp: Let_def image_iff)
    have one: "(f, t) \<in> set field_types \<Longrightarrow> (f, t') \<in> set field_types \<Longrightarrow> t' = t"
      and no_pay: "(''payload'', t) \<notin> set field_types" for f t t'
      by (auto simp: field_types_def)
    have b: "\<forall>(f, t) \<in> set field_types. f \<in> fst ` set (malformedFields d) \<longleftrightarrow> ?bad f t"
      unfolding keys using one no_pay by (auto split: if_splits)
    have p: "''payload'' \<in> fst ` set (malformedFields d) \<longleftrightarrow>
        \<not> nullish (get_prop e ''payload'') \<and> (\<forall>r. get_prop e ''payload'' \<noteq> Obj r)"
      unfolding keys using no_pay by (auto split: if_splits)
    have i: "diag_index d = i" by (simp add: d)
    show ?thesis using n Some m b p i by (simp add: Obj)
  qed (use n Some in \<open>auto simp: diagnoseMalformedEvent_def\<close>)
qed

theorem diagnoseMalformedEvent_complete_witness:
  "case diagnoseMalformedEvent (Obj [(''contractId'', Num (num 3)), (''txHash'', Str ''t''), (''ledger'', Num (num 1))]) 4 of
     None \<Rightarrow> False
   | Some d \<Rightarrow> diag_index d = 4 \<and> set (missingFields d) = {''topic'', ''eventIndex''}"
proof -
  let ?raw = "[(''contractId'', Num (num 3)), (''txHash'', Str ''t''), (''ledger'', Num (num 1))]"
  have "diagnoseMalformedEvent (Obj ?raw) 4 \<noteq> None"
    by (simp add: diagnose_None_iff well_shaped_Obj get_prop_def)
  moreover have "{f \<in> fst ` set field_types. nullish (get_prop ?raw f)} = {''topic'', ''eventIndex''}"
    by (auto simp: field_types_def nullish_def get_prop_def)
  moreover obtain d where d: "diagnoseMalformedEvent (Obj ?raw) 4 = Some d" using calculation(1) by blast
  moreover have "diag_index d = 4 \<and> set (missingFields d) = {f \<in> fst ` set field_types. nullish (get_prop ?raw f)}"
    using diagnoseMalformedEvent_complete [of "Obj ?raw" 4] unfolding d option.case by blast
  ultimately show ?thesis by simp
qed

end
