(* ===== verification/Event_Normalizer.thy ===== *)
theory Event_Normalizer
  imports Event_Ordering Rpc_Validator
begin

text \<open>
  \<^verbatim>\<open>processors/event-normalizer.service.ts\<close>: a raw event becomes a DTO by coercion, and
  \<^verbatim>\<open>isValid\<close> applies the semantic limits.  The byte limit is read from the environment once.
  The declared type of a raw event makes its payload a record; the poll cycle only passes
  events that satisfy it.
\<close>

definition ALLOWED_TOPICS :: "string list" where
  "ALLOWED_TOPICS = [''session_started'', ''guess_submitted'', ''session_finalized'',
     ''reward_claimed'', ''claimed'', ''achievement_unlocked'']"

definition DEFAULT_MAX_PAYLOAD_BYTES :: int where
  "DEFAULT_MAX_PAYLOAD_BYTES = 8192"

text \<open>The constructor: the argument is \<^verbatim>\<open>process.env.INDEXER_MAX_PAYLOAD_BYTES\<close>.\<close>

definition maxPayloadBytes :: "string option \<Rightarrow> jsnum" where
  "maxPayloadBytes env =
    (case env of
       None \<Rightarrow> num DEFAULT_MAX_PAYLOAD_BYTES
     | Some s \<Rightarrow> if s = [] then num DEFAULT_MAX_PAYLOAD_BYTES else js_parseInt s)"

fun as_record :: "js \<Rightarrow> js_record" where
  "as_record (Obj r) = r"
| "as_record _ = []"

definition normalize :: "host \<Rightarrow> int \<Rightarrow> string \<Rightarrow> js_record \<Rightarrow> IngestedEventDto" where
  "normalize h now network raw = \<lparr>
     ev_network = network,
     ev_contractId = js_String h (coalesce (get_prop raw ''contractId'') (Str [])),
     ev_topic = toLowerCase (trim (js_String h (coalesce (get_prop raw ''topic'') (Str [])))),
     ev_txHash = js_String h (coalesce (get_prop raw ''txHash'') (Str [])),
     ev_ledger = js_Number h (coalesce (get_prop raw ''ledger'') (Num (Fin 0))),
     ev_eventIndex = js_Number h (coalesce (get_prop raw ''eventIndex'') (Num (Fin 0))),
     ev_payload = as_record (coalesce (get_prop raw ''payload'') (Obj [])),
     ev_observedAt = now \<rparr>"

definition payloadBytes :: "host \<Rightarrow> js_record \<Rightarrow> jsnum" where
  "payloadBytes h payload = num (int (utf8_bytes (stringify h (Obj payload))))"

definition isValid :: "host \<Rightarrow> jsnum \<Rightarrow> IngestedEventDto \<Rightarrow> bool" where
  "isValid h limit event =
    (if ev_contractId event = [] \<or> ev_topic event = [] \<or> ev_txHash event = [] then False
     else if \<not> num_isInteger (ev_ledger event) \<or> num_le (ev_ledger event) (Fin 0) then False
     else if \<not> num_isInteger (ev_eventIndex event) \<or> num_lt (ev_eventIndex event) (Fin 0) then False
     else if ev_topic event \<notin> set ALLOWED_TOPICS then False
     else if num_lt limit (payloadBytes h (ev_payload event)) then False
     else True)"

section \<open>Lemmas\<close>

lemma isValid_placed: "isValid h limit e \<Longrightarrow> placed e"
  by (auto simp: isValid_def placed_def split: if_splits)

lemma isValid_topic: "isValid h limit e \<Longrightarrow> ev_topic e \<in> set ALLOWED_TOPICS"
  by (auto simp: isValid_def split: if_splits)

lemma isValid_ids: "isValid h limit e \<Longrightarrow> ev_contractId e \<noteq> [] \<and> ev_txHash e \<noteq> []"
  by (auto simp: isValid_def split: if_splits)

lemma isValid_numbers:
  assumes "isValid h limit e"
  obtains l i where "ev_ledger e = num l" "0 < l" "ev_eventIndex e = num i" "0 \<le> i"
proof -
  from assms have 1: "num_isInteger (ev_ledger e)" "num_isInteger (ev_eventIndex e)"
    "\<not> num_le (ev_ledger e) (Fin 0)" "\<not> num_lt (ev_eventIndex e) (Fin 0)"
    by (auto simp: isValid_def split: if_splits)
  then obtain l i where "ev_ledger e = num l" "ev_eventIndex e = num i" by (auto elim!: num_isIntegerE)
  with 1 that show thesis by (auto simp: num_le_def not_less le_less)
qed

text \<open>The six topics are non-empty, trimmed and in lower case.\<close>

lemma allowed_normal_all: "\<forall>t \<in> set ALLOWED_TOPICS. t \<noteq> [] \<and> trim t = t \<and> toLowerCase t = t"
  by code_simp

lemma allowed_normal: "t \<in> set ALLOWED_TOPICS \<Longrightarrow> t \<noteq> [] \<and> trim t = t \<and> toLowerCase t = t"
  using allowed_normal_all by blast

lemma normalize_shaped:
  assumes "get_prop raw ''contractId'' = Str c" "get_prop raw ''txHash'' = Str t"
    "get_prop raw ''topic'' = Str p" "get_prop raw ''ledger'' = Num l" "get_prop raw ''eventIndex'' = Num i"
  shows "normalize h now network raw = \<lparr>ev_network = network, ev_contractId = c,
    ev_topic = toLowerCase (trim p), ev_txHash = t, ev_ledger = l, ev_eventIndex = i,
    ev_payload = as_record (coalesce (get_prop raw ''payload'') (Obj [])), ev_observedAt = now\<rparr>"
  using assms by (simp add: normalize_def)

lemma isValid_iff:
  "isValid h limit e \<longleftrightarrow> ev_contractId e \<noteq> [] \<and> ev_txHash e \<noteq> [] \<and> ev_topic e \<in> set ALLOWED_TOPICS \<and>
     (\<exists>l > 0. ev_ledger e = num l) \<and> (\<exists>i \<ge> 0. ev_eventIndex e = num i) \<and>
     \<not> num_lt limit (payloadBytes h (ev_payload e))"
proof
  assume v: "isValid h limit e"
  then have "\<not> num_lt limit (payloadBytes h (ev_payload e))"
    by (auto simp: isValid_def split: if_splits)
  then show "ev_contractId e \<noteq> [] \<and> ev_txHash e \<noteq> [] \<and> ev_topic e \<in> set ALLOWED_TOPICS \<and>
     (\<exists>l > 0. ev_ledger e = num l) \<and> (\<exists>i \<ge> 0. ev_eventIndex e = num i) \<and>
     \<not> num_lt limit (payloadBytes h (ev_payload e))"
    using isValid_ids [OF v] isValid_topic [OF v] isValid_numbers [OF v] by metis
next
  assume "ev_contractId e \<noteq> [] \<and> ev_txHash e \<noteq> [] \<and> ev_topic e \<in> set ALLOWED_TOPICS \<and>
     (\<exists>l > 0. ev_ledger e = num l) \<and> (\<exists>i \<ge> 0. ev_eventIndex e = num i) \<and>
     \<not> num_lt limit (payloadBytes h (ev_payload e))"
  then show "isValid h limit e"
    using allowed_normal by (auto simp: isValid_def num_le_def)
qed

section \<open>Properties\<close>

text \<open>
  A raw event that passed the structural check is accepted after normalization exactly when
  its two identifiers are non-empty, its topic, up to case and surrounding white space, is one
  of the six, its ledger is a positive integer, its index a non-negative one, and its payload
  serializes within the limit; the event keeps the raw identifiers and numbers.
\<close>

theorem normalize_isValid_iff:
  assumes "well_shaped (Obj raw)"
  shows "\<exists>c t p l i. get_prop raw ''contractId'' = Str c \<and> get_prop raw ''txHash'' = Str t \<and>
    get_prop raw ''topic'' = Str p \<and> get_prop raw ''ledger'' = Num l \<and> get_prop raw ''eventIndex'' = Num i \<and>
    (let e = normalize h now network raw in
     ev_contractId e = c \<and> position_of e = (l, t, i) \<and> ev_topic e = toLowerCase (trim p) \<and>
     (isValid h (maxPayloadBytes env) e \<longleftrightarrow> c \<noteq> [] \<and> t \<noteq> [] \<and> toLowerCase (trim p) \<in> set ALLOWED_TOPICS \<and>
       (\<exists>n > 0. l = num n) \<and> (\<exists>n \<ge> 0. i = num n) \<and>
       \<not> num_lt (maxPayloadBytes env) (payloadBytes h (ev_payload e))))"
proof -
  from assms obtain c t p l i where
    "get_prop raw ''contractId'' = Str c" "get_prop raw ''txHash'' = Str t"
    "get_prop raw ''topic'' = Str p" "get_prop raw ''ledger'' = Num l" "get_prop raw ''eventIndex'' = Num i"
    by (auto simp: well_shaped_Obj)
  then show ?thesis
    by (simp add: normalize_shaped isValid_iff position_of_def Let_def)
qed

definition sample_raw :: js_record where
  "sample_raw = [(''contractId'', Str ''C1''), (''txHash'', Str ''t''), (''topic'', Str '' Session_Finalized''),
     (''ledger'', Num (num 7)), (''eventIndex'', Num (num 0)),
     (''payload'', Obj [(''sessionId'', Str ''s1''), (''attemptsUsed'', Num (num 4))])]"

lemma sample_topic: "toLowerCase (trim '' Session_Finalized'') = ''session_finalized''"
  by code_simp

lemma sample_raw_shaped: "well_shaped (Obj sample_raw)"
  by (simp add: well_shaped_Obj sample_raw_def get_prop_def)

theorem normalize_isValid_iff_witness:
  "ev_topic (normalize plain_host 0 ''testnet'' sample_raw) = ''session_finalized''"
proof -
  obtain p where "get_prop sample_raw ''topic'' = Str p"
    "ev_topic (normalize plain_host 0 ''testnet'' sample_raw) = toLowerCase (trim p)"
    using normalize_isValid_iff [OF sample_raw_shaped, of plain_host 0 "''testnet''" None]
    unfolding Let_def by blast
  moreover have "get_prop sample_raw ''topic'' = Str '' Session_Finalized''"
    by (simp add: sample_raw_def get_prop_def)
  ultimately show ?thesis using sample_topic by simp
qed

text \<open>
  An \<^verbatim>\<open>INDEXER_MAX_PAYLOAD_BYTES\<close> that does not start with a number turns the size limit off:
  the parsed limit is \<^verbatim>\<open>NaN\<close>, no comparison with it holds, and validity no longer depends on
  the payload.  Without the variable the limit is 8192 bytes.
\<close>

theorem unparsable_limit_disables:
  assumes "env \<noteq> []" "dropWhile js_space env = c # s" "\<not> is_digit c" "c \<noteq> CHR ''-''" "c \<noteq> CHR ''+''"
  shows "maxPayloadBytes (Some env) = NaN \<and>
    isValid h (maxPayloadBytes (Some env)) (e\<lparr>ev_payload := payload\<rparr>) = isValid h (maxPayloadBytes (Some env)) e \<and>
    maxPayloadBytes None = num 8192"
  using assms by (simp add: maxPayloadBytes_def js_parseInt_def DEFAULT_MAX_PAYLOAD_BYTES_def isValid_iff)

theorem unparsable_limit_disables_witness:
  "maxPayloadBytes (Some ''unlimited'') = NaN"
  using unparsable_limit_disables [of "''unlimited''" "CHR ''u''" "''nlimited''" plain_host "[]"
    "normalize plain_host 0 ''testnet'' sample_raw"]
  by (simp add: js_space_def is_digit_def char_between)

end
