(* ===== verification/Event_Dedup.thy ===== *)
theory Event_Dedup
  imports Js_Values
begin

text \<open>
  Deduplication of redelivered events (\<^verbatim>\<open>dedup/event-dedup.service.ts\<close>) and the alert on
  replays (\<^verbatim>\<open>queue/replay-alert.service.ts\<close>).  The key-value server is not part of the program:
  its two commands are a parameter, and \<^verbatim>\<open>redis_ok\<close> is what the service relies on, stated
  over an observation of when each key expires.  Times are in milliseconds.
\<close>

definition EVENT_DEDUP_TTL_SECONDS :: int where
  "EVENT_DEDUP_TTL_SECONDS = 24 * 60 * 60"

definition EVENT_DEDUP_KEY_PREFIX :: string where
  "EVENT_DEDUP_KEY_PREFIX = ''indexer:dedup:event''"

record 'r redis =
  rd_exists :: "int \<Rightarrow> string \<Rightarrow> ('r, js_error, int) act"
  rd_set :: "int \<Rightarrow> string \<Rightarrow> string \<Rightarrow> int \<Rightarrow> ('r, js_error, unit) act"

type_synonym 'r expiry = "'r \<Rightarrow> string \<Rightarrow> int option"

definition alive :: "'r expiry \<Rightarrow> int \<Rightarrow> string \<Rightarrow> 'r \<Rightarrow> bool" where
  "alive ex now k r = (case ex r k of None \<Rightarrow> False | Some x \<Rightarrow> now < x)"

definition redis_ok :: "'r redis \<Rightarrow> 'r expiry \<Rightarrow> bool" where
  "redis_ok R ex \<longleftrightarrow>
     (\<forall>now k r n r'. rd_exists R now k r = (Inr n, r') \<longrightarrow> ex r' = ex r \<and> (n = 1 \<longleftrightarrow> alive ex now k r)) \<and>
     (\<forall>now k r e r'. rd_exists R now k r = (Inl e, r') \<longrightarrow> ex r' = ex r) \<and>
     (\<forall>now k v ttl r r'. rd_set R now k v ttl r = (Inr (), r') \<longrightarrow> ex r' = (ex r)(k \<mapsto> now + ttl * 1000)) \<and>
     (\<forall>now k v ttl r e r'. rd_set R now k v ttl r = (Inl e, r') \<longrightarrow> (\<forall>k'. k' \<noteq> k \<longrightarrow> ex r' k' = ex r k'))"

lemma redis_existsD:
  assumes "redis_ok R ex" "rd_exists R now k r = (Inr n, r')"
  shows "ex r' = ex r \<and> (n = 1 \<longleftrightarrow> alive ex now k r)"
  by (rule assms(1) [unfolded redis_ok_def, THEN conjunct1, rule_format, OF assms(2)])

lemma redis_setD:
  assumes "redis_ok R ex" "rd_set R now k v ttl r = (Inr (), r')"
  shows "ex r' = (ex r)(k \<mapsto> now + ttl * 1000)"
  by (rule assms(1) [unfolded redis_ok_def, THEN conjunct2, THEN conjunct2, THEN conjunct1, rule_format, OF assms(2)])

section \<open>The service\<close>

text \<open>The cache over the server, then the service over the cache.\<close>

definition cache_has :: "'r redis \<Rightarrow> int \<Rightarrow> string \<Rightarrow> ('r, js_error, bool) act" where
  "cache_has R now key = act_bind (rd_exists R now key) (\<lambda>n. act_ret (n = 1))"

definition cache_set :: "'r redis \<Rightarrow> int \<Rightarrow> string \<Rightarrow> int \<Rightarrow> ('r, js_error, unit) act" where
  "cache_set R now key ttlSeconds = rd_set R now key ''1'' ttlSeconds"

definition buildKey :: "host \<Rightarrow> string \<Rightarrow> jsnum \<Rightarrow> string" where
  "buildKey h txHash eventIndex =
     EVENT_DEDUP_KEY_PREFIX @ '':'' @ txHash @ '':'' @ num_to_string h eventIndex"

definition isDuplicate :: "host \<Rightarrow> 'r redis \<Rightarrow> int \<Rightarrow> string \<Rightarrow> jsnum \<Rightarrow> ('r, js_error, bool) act" where
  "isDuplicate h R now txHash eventIndex =
    (let key = buildKey h txHash eventIndex in
     act_bind (cache_has R now key) (\<lambda>hit.
       if hit then act_ret True
       else act_seq (cache_set R now key EVENT_DEDUP_TTL_SECONDS) (act_ret False)))"

text \<open>Redelivery at successive times.\<close>

definition small_int :: "jsnum \<Rightarrow> bool" where
  "small_int x \<longleftrightarrow> (\<exists>i. x = num i \<and> \<bar>i\<bar> < 10 ^ 21)"

lemma buildKey_inj:
  assumes "small_int i" "small_int j"
  shows "buildKey h t i = buildKey h u j \<longleftrightarrow> t = u \<and> i = j"
proof -
  obtain a b where ab: "i = num a" "\<bar>a\<bar> < 10 ^ 21" "j = num b" "\<bar>b\<bar> < 10 ^ 21"
    using assms by (auto simp: small_int_def)
  then have "buildKey h t i = buildKey h u j \<longleftrightarrow> t @ CHR '':'' # show_int a = u @ CHR '':'' # show_int b"
    by (simp add: buildKey_def)
  also have "\<dots> \<longleftrightarrow> t = u \<and> show_int a = show_int b"
    by (rule append_sep_inj) (rule show_int_no_colon)+
  finally show ?thesis using ab by (simp add: show_int_inj)
qed

lemma isDuplicate_returns:
  assumes "redis_ok R ex" "isDuplicate h R now t i r = (Inr b, r')"
  shows "b = alive ex now (buildKey h t i) r \<and>
    ex r' = (if b then ex r else (ex r)(buildKey h t i \<mapsto> now + 86400000))"
proof -
  let ?k = "buildKey h t i"
  obtain n r1 where e: "rd_exists R now ?k r = (Inr n, r1)"
    and rest: "(if n = 1 then act_ret True
        else act_seq (cache_set R now ?k EVENT_DEDUP_TTL_SECONDS) (act_ret False)) r1 = (Inr b, r')"
    using assms(2) unfolding isDuplicate_def cache_has_def Let_def act_bind_returns by (auto simp: act_ret_def)
  have r1: "ex r1 = ex r" "n = 1 \<longleftrightarrow> alive ex now ?k r"
    using redis_existsD [OF assms(1) e] by simp_all
  show ?thesis
  proof (cases "n = 1")
    case True
    then show ?thesis using rest r1 by (simp add: act_ret_def)
  next
    case False
    then have s: "rd_set R now ?k ''1'' EVENT_DEDUP_TTL_SECONDS r1 = (Inr (), r')" "b = False"
      using rest unfolding cache_set_def act_seq_def by (auto simp: act_bind_returns act_ret_def)
    then have "ex r' = (ex r1)(?k \<mapsto> now + EVENT_DEDUP_TTL_SECONDS * 1000)"
      using redis_setD [OF assms(1)] by simp
    then show ?thesis using r1 False s(2) by (simp add: EVENT_DEDUP_TTL_SECONDS_def)
  qed
qed

section \<open>A server held in memory\<close>

definition mem_redis :: "(string \<Rightarrow> int option) redis" where
  "mem_redis = \<lparr>
     rd_exists = (\<lambda>now k r. (Inr (if alive id now k r then 1 else 0), r)),
     rd_set = (\<lambda>now k v ttl r. (Inr (), r(k \<mapsto> now + ttl * 1000))) \<rparr>"

lemma mem_redis_ok: "redis_ok mem_redis id"
  by (auto simp: redis_ok_def mem_redis_def)

lemma mem_redis_returns:
  "isDuplicate h mem_redis now t i r =
    (let k = buildKey h t i in
     if alive id now k r then (Inr True, r) else (Inr False, r(k \<mapsto> now + 86400000)))"
  by (simp add: isDuplicate_def cache_has_def cache_set_def mem_redis_def act_defs Let_def EVENT_DEDUP_TTL_SECONDS_def)

section \<open>Replay alerts\<close>

definition REPLAY_REJECTION_ALERT_THRESHOLD :: nat where
  "REPLAY_REJECTION_ALERT_THRESHOLD = 5"

record ReplayAlert =
  windowSkips :: nat
  lastRejectedAt :: "int option"

record ReplayAlertSnapshot =
  snap_windowSkips :: nat
  snap_threshold :: nat
  snap_isAlerting :: bool
  snap_lastRejectedAt :: "int option"
  snap_alertTag :: string

definition alert_snapshot :: "ReplayAlert \<Rightarrow> ReplayAlertSnapshot" where
  "alert_snapshot a =
    (let isAlerting = windowSkips a \<ge> REPLAY_REJECTION_ALERT_THRESHOLD in
     \<lparr>snap_windowSkips = windowSkips a, snap_threshold = REPLAY_REJECTION_ALERT_THRESHOLD,
      snap_isAlerting = isAlerting, snap_lastRejectedAt = lastRejectedAt a,
      snap_alertTag = (if isAlerting then ''replay_rejection_threshold_exceeded''
        else ''replay_rejection_observed'')\<rparr>)"

definition recordReplayRejection :: "int \<Rightarrow> ReplayAlert \<Rightarrow> ReplayAlertSnapshot \<times> ReplayAlert" where
  "recordReplayRejection now a =
    (let a' = a\<lparr>windowSkips := windowSkips a + 1, lastRejectedAt := Some now\<rparr> in (alert_snapshot a', a'))"

definition resetWindow :: "ReplayAlert \<Rightarrow> ReplayAlert" where
  "resetWindow a = a\<lparr>windowSkips := 0, lastRejectedAt := None\<rparr>"

section \<open>Properties\<close>

text \<open>
  Within 24 hours of an event that was new, the same transaction and index is a duplicate,
  and the answer for any other pair is what it would have been without it: the keys of two
  pairs never clash.
\<close>

theorem dedup_window:
  assumes "redis_ok R ex" "small_int i" "small_int j"
    and "isDuplicate h R now t i r = (Inr False, r1)" "later < now + 86400000"
    and "isDuplicate h R later u j r1 = (Inr b, r2)"
  shows "b = (if (u, j) = (t, i) then True else alive ex later (buildKey h u j) r)"
proof -
  have "ex r1 = (ex r)(buildKey h t i \<mapsto> now + 86400000)"
    using isDuplicate_returns [OF assms(1,4)] by simp
  then have "alive ex later (buildKey h u j) r1 =
      (if buildKey h u j = buildKey h t i then True else alive ex later (buildKey h u j) r)"
    using assms(5) by (simp add: alive_def)
  then show ?thesis
    using isDuplicate_returns [OF assms(1,6)] buildKey_inj [OF assms(3,2)] by simp
qed

theorem dedup_window_witness:
  "fst (isDuplicate plain_host mem_redis 5000 ''tx'' (num 1) (snd (isDuplicate plain_host mem_redis 0 ''tx'' (num 1) Map.empty))) = Inr True"
proof -
  have i: "small_int (num 1)" unfolding small_int_def by (rule exI [of _ 1]) simp
  obtain r1 where 1: "isDuplicate plain_host mem_redis 0 ''tx'' (num 1) Map.empty = (Inr False, r1)"
    by (simp add: mem_redis_returns alive_def Let_def)
  obtain b r2 where 2: "isDuplicate plain_host mem_redis 5000 ''tx'' (num 1) r1 = (Inr b, r2)"
    unfolding mem_redis_returns Let_def by (cases "alive id 5000 (buildKey plain_host ''tx'' (num 1)) r1") simp_all
  show ?thesis using dedup_window [OF mem_redis_ok i i 1 _ 2] 1 2 by simp
qed

text \<open>
  The replay alert fires exactly from the fifth rejection after the window was reset: after
  any number of rejections the last snapshot counts them, alerts when there are at least five,
  and the tag follows the alert.
\<close>

theorem replay_alert_threshold:
  "let a = fold (\<lambda>now a. snd (recordReplayRejection now a)) ts (resetWindow a0); s = alert_snapshot a in
   snap_windowSkips s = length ts \<and> snap_isAlerting s = (5 \<le> length ts) \<and>
   snap_lastRejectedAt s = (if ts = [] then None else Some (last ts)) \<and>
   (snap_alertTag s = ''replay_rejection_threshold_exceeded'') = (5 \<le> length ts)"
proof -
  let ?a = "fold (\<lambda>now a. snd (recordReplayRejection now a)) ts (resetWindow a0)"
  have "windowSkips ?a = length ts \<and> lastRejectedAt ?a = (if ts = [] then None else Some (last ts))"
    by (induction ts rule: rev_induct) (auto simp: resetWindow_def recordReplayRejection_def Let_def)
  then show ?thesis
    by (simp add: alert_snapshot_def Let_def REPLAY_REJECTION_ALERT_THRESHOLD_def)
qed

end
