(* ===== verification/Cursor_Service.thy ===== *)
theory Cursor_Service
  imports Event_Ordering Repository
begin

text \<open>
  \<^verbatim>\<open>projections/cursor.service.ts\<close>: the persisted position of the indexer on each stream.
  \<^verbatim>\<open>checkpoint\<close> moves a cursor forward only; \<^verbatim>\<open>reset\<close> takes it back to genesis.  The table has a
  unique index on network and stream.
\<close>

record IndexerCursorEntity =
  cur_id :: "nat option"
  cur_network :: string
  cur_streamKey :: string
  lastLedger :: jsnum
  lastTxHash :: string
  lastEventIndex :: jsnum
  cur_updatedAt :: "int option"

type_synonym cursor_repo = "(IndexerCursorEntity, js_error) repo"
type_synonym 'a cursor_act = "(IndexerCursorEntity list, js_error, 'a) act"

definition fresh_cursor :: "string \<Rightarrow> string \<Rightarrow> IndexerCursorEntity" where
  "fresh_cursor network streamKey = \<lparr>cur_id = None, cur_network = network, cur_streamKey = streamKey,
     lastLedger = Fin 0, lastTxHash = [], lastEventIndex = Fin 0, cur_updatedAt = None\<rparr>"

definition getOrCreate :: "cursor_repo \<Rightarrow> string \<Rightarrow> string \<Rightarrow> IndexerCursorEntity cursor_act" where
  "getOrCreate R network streamKey =
    act_bind (r_findOne R (\<lambda>r. (cur_network r, cur_streamKey r) = (network, streamKey)))
      (\<lambda>existing. case existing of
          Some c \<Rightarrow> act_ret c
        | None \<Rightarrow> r_save R (fresh_cursor network streamKey))"

definition isMonotonicallyGreater ::
    "(string \<Rightarrow> string \<Rightarrow> int) \<Rightarrow> IndexerCursorEntity \<Rightarrow> jsnum \<Rightarrow> string \<Rightarrow> jsnum \<Rightarrow> bool" where
  "isMonotonicallyGreater lc cursor ledger txHash eventIndex =
    (if num_lt (lastLedger cursor) ledger then True
     else if num_lt ledger (lastLedger cursor) then False
     else (let txCmp = lc txHash (lastTxHash cursor) in
       if txCmp > 0 then True
       else if txCmp < 0 then False
       else num_lt (lastEventIndex cursor) eventIndex))"

definition checkpoint ::
    "(string \<Rightarrow> string \<Rightarrow> int) \<Rightarrow> cursor_repo \<Rightarrow> string \<Rightarrow> string \<Rightarrow> jsnum \<Rightarrow> string \<Rightarrow> jsnum \<Rightarrow> bool cursor_act" where
  "checkpoint lc R network streamKey ledger txHash eventIndex =
    act_bind (getOrCreate R network streamKey) (\<lambda>cursor.
      if \<not> isMonotonicallyGreater lc cursor ledger txHash eventIndex then act_ret False
      else act_seq
        (r_save R (cursor\<lparr>lastLedger := ledger, lastTxHash := txHash, lastEventIndex := eventIndex\<rparr>))
        (act_ret True))"

definition reset_cursor :: "cursor_repo \<Rightarrow> string \<Rightarrow> string \<Rightarrow> unit cursor_act" where
  "reset_cursor R network streamKey =
    act_bind (getOrCreate R network streamKey) (\<lambda>cursor.
      act_seq (r_save R (cursor\<lparr>lastLedger := Fin 0, lastTxHash := [], lastEventIndex := Fin 0\<rparr>))
        (act_ret ()))"

text \<open>\<^verbatim>\<open>resetProjections\<close> deletes every row of the session projections through the query builder.\<close>

definition reset_projections :: "('r, js_error) repo \<Rightarrow> ('r list, js_error, unit) act" where
  "reset_projections S = act_seq (r_delete S (\<lambda>_. True)) (act_ret ())"

section \<open>The table and the positions\<close>

definition cursor_key :: "IndexerCursorEntity \<Rightarrow> string \<times> string" where
  "cursor_key c = (cur_network c, cur_streamKey c)"

definition cursor_body :: "IndexerCursorEntity \<Rightarrow> string \<times> string \<times> jsnum \<times> string \<times> jsnum" where
  "cursor_body c = (cur_network c, cur_streamKey c, lastLedger c, lastTxHash c, lastEventIndex c)"

definition cursor_pos :: "IndexerCursorEntity \<Rightarrow> position" where
  "cursor_pos c = (lastLedger c, lastTxHash c, lastEventIndex c)"

definition genesis :: position where
  "genesis = (Fin 0, [], Fin 0)"

abbreviation cursors_ok :: "IndexerCursorEntity list \<Rightarrow> bool" where
  "cursors_ok \<equiv> keyed cur_id cursor_key"

abbreviation cursor_repo_ok :: "cursor_repo \<Rightarrow> bool" where
  "cursor_repo_ok \<equiv> repo_ok cur_id cursor_body"

text \<open>The position of a stream; a stream without a row is at genesis.\<close>

definition stream_pos :: "string \<Rightarrow> string \<Rightarrow> IndexerCursorEntity list \<Rightarrow> position" where
  "stream_pos n s t = (case row_of cursor_key (n, s) t of None \<Rightarrow> genesis | Some c \<Rightarrow> cursor_pos c)"

definition cursors_placed :: "IndexerCursorEntity list \<Rightarrow> bool" where
  "cursors_placed t \<longleftrightarrow> (\<forall>n s. placed_pos (stream_pos n s t))"

lemma cursor_key_body: "cursor_body a = cursor_body b \<Longrightarrow> cursor_key a = cursor_key b"
  by (simp add: cursor_body_def cursor_key_def)

lemma cursor_pos_body: "cursor_body a = cursor_body b \<Longrightarrow> cursor_pos a = cursor_pos b"
  by (simp add: cursor_body_def cursor_pos_def)

lemma cursor_key_fold: "(\<lambda>r. (cur_network r, cur_streamKey r) = k) = (\<lambda>r. cursor_key r = k)"
  by (simp add: cursor_key_def)

lemma getOrCreate_returns:
  assumes ok: "cursor_repo_ok R" and t: "cursors_ok t" and g: "getOrCreate R n s t = (Inr c, t')"
  shows "cursors_ok t'" "row_of cursor_key (n, s) t' = Some c" "cursor_pos c = stream_pos n s t"
    "\<And>k. k \<noteq> (n, s) \<Longrightarrow> row_of cursor_key k t' = row_of cursor_key k t"
proof -
  obtain x u where f: "r_findOne R (\<lambda>r. cursor_key r = (n, s)) t = (Inr x, u)"
    and rest: "(case x of Some c \<Rightarrow> act_ret c | None \<Rightarrow> r_save R (fresh_cursor n s)) u = (Inr c, t')"
    using g unfolding getOrCreate_def cursor_key_fold act_bind_returns by blast
  have u: "u = t" "x = row_of cursor_key (n, s) t" using findOne_row_of [OF ok t f] by auto
  have "cursors_ok t' \<and> row_of cursor_key (n, s) t' = Some c \<and> cursor_pos c = stream_pos n s t \<and>
    (\<forall>k. k \<noteq> (n, s) \<longrightarrow> row_of cursor_key k t' = row_of cursor_key k t)"
  proof (cases x)
    case (Some d)
    then show ?thesis using rest u t by (simp add: act_defs stream_pos_def)
  next
    case None
    have k: "cursor_key (fresh_cursor n s) = (n, s)" by (simp add: cursor_key_def fresh_cursor_def)
    have sv: "r_save R (fresh_cursor n s) t = (Inr c, t')" using rest None u by simp
    have "cursors_ok t' \<and> cursor_body c = cursor_body (fresh_cursor n s) \<and>
        row_of cursor_key (n, s) t' = Some c \<and> (\<forall>k. k \<noteq> (n, s) \<longrightarrow> row_of cursor_key k t' = row_of cursor_key k t)"
      using save_upsert [OF ok t cursor_key_body _ sv, unfolded k] None u(2)
      by (simp add: fresh_cursor_def)
    moreover have "cursor_pos c = genesis"
      using calculation cursor_pos_body [of c "fresh_cursor n s"]
      by (simp add: cursor_pos_def fresh_cursor_def genesis_def)
    ultimately show ?thesis using None u(2) by (simp add: stream_pos_def)
  qed
  then show "cursors_ok t'" "row_of cursor_key (n, s) t' = Some c" "cursor_pos c = stream_pos n s t"
    "\<And>k. k \<noteq> (n, s) \<Longrightarrow> row_of cursor_key k t' = row_of cursor_key k t" by blast+
qed

lemma getOrCreate_throws:
  assumes "cursor_repo_ok R" "getOrCreate R n s t = (Inl e, t')"
  shows "t' = t"
  using assms(2) findOne_same [OF assms(1)] save_throws [OF assms(1)]
  unfolding getOrCreate_def act_bind_throws
  by (fastforce simp: act_defs split: option.splits)

text \<open>Overwriting the position of the row in hand.\<close>

lemma save_position:
  assumes ok: "cursor_repo_ok R" and t: "cursors_ok t" and c: "row_of cursor_key (n, s) t = Some c"
    and sv: "r_save R (c\<lparr>lastLedger := l, lastTxHash := x, lastEventIndex := i\<rparr>) t = (Inr c', t')"
  shows "cursors_ok t'" "stream_pos n s t' = (l, x, i)"
    "\<And>k. k \<noteq> (n, s) \<Longrightarrow> row_of cursor_key k t' = row_of cursor_key k t"
proof -
  let ?c = "c\<lparr>lastLedger := l, lastTxHash := x, lastEventIndex := i\<rparr>"
  have k: "cursor_key ?c = (n, s)" using row_of_SomeD [OF c] by (simp add: cursor_key_def)
  have u: "cursors_ok t' \<and> cursor_body c' = cursor_body ?c \<and>
      row_of cursor_key (n, s) t' = Some c' \<and> (\<forall>k. k \<noteq> (n, s) \<longrightarrow> row_of cursor_key k t' = row_of cursor_key k t)"
    using save_upsert [OF ok t cursor_key_body _ sv, unfolded k] c by simp
  then show "cursors_ok t'" "\<And>k. k \<noteq> (n, s) \<Longrightarrow> row_of cursor_key k t' = row_of cursor_key k t" by blast+
  show "stream_pos n s t' = (l, x, i)"
    using u cursor_pos_body [of c' ?c] by (simp add: stream_pos_def cursor_pos_def)
qed

text \<open>What a method may do to the cursor table: keep it well formed and leave other streams alone.\<close>

definition only_stream :: "string \<Rightarrow> string \<Rightarrow> IndexerCursorEntity list \<Rightarrow> IndexerCursorEntity list \<Rightarrow> bool" where
  "only_stream n s t t' \<longleftrightarrow> cursors_ok t' \<and>
     (\<forall>n' s'. (n', s') \<noteq> (n, s) \<longrightarrow> stream_pos n' s' t' = stream_pos n' s' t)"

lemma only_streamI:
  "cursors_ok t' \<Longrightarrow> (\<And>k. k \<noteq> (n, s) \<Longrightarrow> row_of cursor_key k t' = row_of cursor_key k t) \<Longrightarrow> only_stream n s t t'"
  by (simp add: only_stream_def stream_pos_def)

lemma only_stream_refl: "cursors_ok t \<Longrightarrow> only_stream n s t t"
  by (simp add: only_stream_def)

lemma only_stream_trans: "only_stream n s t u \<Longrightarrow> only_stream n s u v \<Longrightarrow> only_stream n s t v"
  by (simp add: only_stream_def)

lemma reset_cursor_returns:
  assumes ok: "cursor_repo_ok R" and t: "cursors_ok t" and r: "reset_cursor R n s t = (Inr (), t')"
  shows "only_stream n s t t' \<and> stream_pos n s t' = genesis"
proof -
  obtain c u c' where g: "getOrCreate R n s t = (Inr c, u)"
    and sv: "r_save R (c\<lparr>lastLedger := Fin 0, lastTxHash := [], lastEventIndex := Fin 0\<rparr>) u = (Inr c', t')"
    using r unfolding reset_cursor_def act_seq_def act_bind_returns by (auto simp: act_ret_def)
  note G = getOrCreate_returns [OF ok t g]
  note S = save_position [OF ok G(1,2) sv]
  have "only_stream n s t t'"
    by (rule only_stream_trans [OF only_streamI [OF G(1,4)] only_streamI [OF S(1,3)]])
  then show ?thesis using S(2) by (simp add: genesis_def)
qed

lemma num_lt_connex: "num_isFinite a \<Longrightarrow> num_isFinite b \<Longrightarrow> \<not> num_lt a b \<Longrightarrow> \<not> num_lt b a \<Longrightarrow> a = b"
  by (cases a; cases b) auto

context collation begin

lemma isMonotonicallyGreater_iff:
  assumes "placed_pos (cursor_pos c)" "placed_pos (l, t, i)"
  shows "isMonotonicallyGreater lc c l t i \<longleftrightarrow> pos_gt lc (l, t, i) (cursor_pos c)"
proof -
  have "num_lt (lastLedger c) l \<or> num_lt l (lastLedger c) \<or> l = lastLedger c"
    using assms num_lt_connex by (auto simp: cursor_pos_def)
  moreover have "\<not> (num_lt (lastLedger c) l \<and> num_lt l (lastLedger c))"
    using assms by (cases l; cases "lastLedger c") (auto simp: cursor_pos_def)
  moreover have "\<not> num_lt l l" by (cases l) auto
  moreover have "\<not> lc t (lastTxHash c) > 0 \<Longrightarrow> \<not> lc t (lastTxHash c) < 0 \<Longrightarrow> t = lastTxHash c"
    using lc_zero [of t "lastTxHash c"] by linarith
  ultimately show ?thesis
    by (auto simp: isMonotonicallyGreater_def cursor_pos_def Let_def)
qed

lemma checkpoint_spec:
  assumes ok: "cursor_repo_ok R" and t: "cursors_ok t" and p: "placed_pos (stream_pos n s t)" "placed_pos (l, x, i)"
    and c: "checkpoint lc R n s l x i t = (r, t')"
  shows "only_stream n s t t'"
    "r = Inr True \<Longrightarrow> pos_gt lc (l, x, i) (stream_pos n s t) \<and> stream_pos n s t' = (l, x, i)"
    "r = Inr False \<Longrightarrow> \<not> pos_gt lc (l, x, i) (stream_pos n s t) \<and> stream_pos n s t' = stream_pos n s t"
    "r = Inl e \<Longrightarrow> stream_pos n s t' = stream_pos n s t"
proof -
  obtain g u where g: "getOrCreate R n s t = (g, u)" by (cases "getOrCreate R n s t")
  have "only_stream n s t t' \<and>
    (case r of Inl e \<Rightarrow> stream_pos n s t' = stream_pos n s t
     | Inr b \<Rightarrow> b = pos_gt lc (l, x, i) (stream_pos n s t) \<and>
         stream_pos n s t' = (if b then (l, x, i) else stream_pos n s t))"
  proof (cases g)
    case (Inl e)
    then have "u = t" using g getOrCreate_throws [OF ok] by blast
    moreover have "r = Inl e" "t' = u" using Inl g c by (simp_all add: checkpoint_def)
    ultimately show ?thesis using t by (simp add: only_stream_refl)
  next
    case (Inr cur)
    note G = getOrCreate_returns [OF ok t g [unfolded Inr]]
    have pu: "stream_pos n s u = stream_pos n s t" using G(2,3) by (simp add: stream_pos_def)
    have ou: "only_stream n s t u" using G(1,4) by (rule only_streamI)
    have gt: "isMonotonicallyGreater lc cur l x i \<longleftrightarrow> pos_gt lc (l, x, i) (stream_pos n s t)"
      using isMonotonicallyGreater_iff [of cur l x i] G(3) p by simp
    let ?c = "cur\<lparr>lastLedger := l, lastTxHash := x, lastEventIndex := i\<rparr>"
    have c': "(if \<not> pos_gt lc (l, x, i) (stream_pos n s t) then act_ret False
        else act_seq (r_save R ?c) (act_ret True)) u = (r, t')"
      using c g Inr gt by (simp add: checkpoint_def)
    show ?thesis
    proof (cases "pos_gt lc (l, x, i) (stream_pos n s t)")
      case False
      then show ?thesis using c' pu ou by (auto simp: act_ret_def)
    next
      case True
      obtain v w where sv: "r_save R ?c u = (v, w)" by (cases "r_save R ?c u")
      show ?thesis
      proof (cases v)
        case (Inl e)
        then have "w = u" using sv save_throws [OF ok] by blast
        moreover have "r = Inl e" "t' = w" using c' True sv Inl by simp_all
        ultimately show ?thesis using pu ou by simp
      next
        case (Inr c'')
        note S = save_position [OF ok G(1,2) sv [unfolded Inr]]
        have "r = Inr True" "t' = w" using c' True sv Inr by (simp_all add: act_ret_def)
        then show ?thesis
          using True S(2) only_stream_trans [OF ou only_streamI [OF S(1,3)]] by simp
      qed
    qed
  qed
  then show "only_stream n s t t'"
    "r = Inr True \<Longrightarrow> pos_gt lc (l, x, i) (stream_pos n s t) \<and> stream_pos n s t' = (l, x, i)"
    "r = Inr False \<Longrightarrow> \<not> pos_gt lc (l, x, i) (stream_pos n s t) \<and> stream_pos n s t' = stream_pos n s t"
    "r = Inl e \<Longrightarrow> stream_pos n s t' = stream_pos n s t"
    by auto
qed

lemma checkpoint_forward:
  assumes "cursor_repo_ok R" "cursors_ok t" "placed_pos (stream_pos n s t)" "placed_pos (l, x, i)"
    and "checkpoint lc R n s l x i t = (r, t')"
  shows "only_stream n s t t' \<and> placed_pos (stream_pos n s t') \<and> \<not> pos_gt lc (stream_pos n s t) (stream_pos n s t')"
proof -
  note S = checkpoint_spec [OF assms]
  consider "r = Inr True" | "stream_pos n s t' = stream_pos n s t" using S(3,4) by (cases r) auto
  then show ?thesis
  proof cases
    case 1
    then show ?thesis using S(1,2) assms(4) pos_gt_asym [OF assms(4,3)] by simp
  next
    case 2
    then show ?thesis using S(1) assms(3) pos_gt_irrefl [OF assms(3)] by simp
  qed
qed

text \<open>The larger of two positions, and what a run of checkpoints leaves.\<close>

definition pos_max :: "position \<Rightarrow> position \<Rightarrow> position" where
  "pos_max p q = (if pos_gt lc q p then q else p)"

lemma fold_pos_max:
  assumes "placed_pos p" "\<forall>q \<in> set ps. placed_pos q"
  shows "fold (\<lambda>q p. pos_max p q) ps p \<in> insert p (set ps) \<and>
    (\<forall>q \<in> insert p (set ps). \<not> pos_gt lc q (fold (\<lambda>q p. pos_max p q) ps p))"
  using assms
proof (induction ps arbitrary: p)
  case Nil
  then show ?case by (simp add: pos_gt_irrefl)
next
  case (Cons a ps)
  let ?p = "pos_max p a" and ?m = "fold (\<lambda>q p. pos_max p q) ps (pos_max p a)"
  have pl: "placed_pos ?p" using Cons.prems by (simp add: pos_max_def)
  have IH: "?m \<in> insert ?p (set ps)" "\<forall>q \<in> insert ?p (set ps). \<not> pos_gt lc q ?m"
    using Cons.IH [OF pl] Cons.prems(2) by simp_all
  have plm: "placed_pos ?m" using IH(1) pl Cons.prems(2) by auto
  have "\<not> pos_gt lc p ?p" "\<not> pos_gt lc a ?p"
    using Cons.prems pos_gt_irrefl pos_gt_asym by (auto simp: pos_max_def)
  then have "\<not> pos_gt lc p ?m" "\<not> pos_gt lc a ?m"
    using not_pos_gt_trans [of _ ?p ?m] IH(2) Cons.prems pl plm by auto
  moreover have "?m \<in> insert p (insert a (set ps))" using IH(1) by (auto simp: pos_max_def)
  ultimately show ?case using IH(2) by simp
qed

end

definition checkpoint_all ::
    "(string \<Rightarrow> string \<Rightarrow> int) \<Rightarrow> cursor_repo \<Rightarrow> string \<Rightarrow> string \<Rightarrow> position list \<Rightarrow> unit cursor_act" where
  "checkpoint_all lc R n s ps =
     act_for ps (\<lambda>(l, x, i). act_seq (checkpoint lc R n s l x i) (act_ret ()))"

lemma getOrCreate_reliable:
  assumes "repo_reliable R"
  obtains c t' where "getOrCreate R n s t = (Inr c, t')"
proof -
  obtain x u where f: "r_findOne R (\<lambda>r. (cur_network r, cur_streamKey r) = (n, s)) t = (Inr x, u)"
    by (rule reliable_findOne [OF assms])
  obtain c v where "r_save R (fresh_cursor n s) u = (Inr c, v)"
    by (rule reliable_save [OF assms])
  then show thesis using f that by (cases x) (auto simp: getOrCreate_def act_ret_def)
qed

lemma checkpoint_reliable:
  assumes "repo_reliable R"
  obtains b t' where "checkpoint lc R n s l x i t = (Inr b, t')"
proof -
  obtain c u where g: "getOrCreate R n s t = (Inr c, u)" using getOrCreate_reliable [OF assms] .
  obtain c' v where "r_save R (c\<lparr>lastLedger := l, lastTxHash := x, lastEventIndex := i\<rparr>) u = (Inr c', v)"
    by (rule reliable_save [OF assms])
  then show thesis using g that by (cases "isMonotonicallyGreater lc c l x i") (auto simp: checkpoint_def act_ret_def)
qed

context collation begin

lemma checkpoint_all_fold:
  assumes ok: "cursor_repo_ok R" "repo_reliable R" and t: "cursors_ok t" "placed_pos (stream_pos n s t)"
    and ps: "\<forall>p \<in> set ps. placed_pos p"
  shows "\<exists>t'. checkpoint_all lc R n s ps t = (Inr (), t') \<and> only_stream n s t t' \<and>
    stream_pos n s t' = fold (\<lambda>q p. pos_max p q) ps (stream_pos n s t)"
  using t ps
proof (induction ps arbitrary: t)
  case Nil
  then show ?case by (simp add: checkpoint_all_def act_ret_def only_stream_refl)
next
  case (Cons p ps)
  obtain l x i where p: "p = (l, x, i)" by (cases p)
  obtain b u where c: "checkpoint lc R n s l x i t = (Inr b, u)" using checkpoint_reliable [OF ok(2)] .
  have pl: "placed_pos (l, x, i)" using Cons.prems(3) p by simp
  note S = checkpoint_spec [OF ok(1) Cons.prems(1,2) pl c]
  have u: "stream_pos n s u = pos_max (stream_pos n s t) p"
    using S(2,3) p by (cases b) (auto simp: pos_max_def)
  have "cursors_ok u" "placed_pos (stream_pos n s u)"
    using S(1) u Cons.prems(2) pl p by (simp_all add: only_stream_def pos_max_def)
  then obtain t' where t': "checkpoint_all lc R n s ps u = (Inr (), t')" "only_stream n s u t'"
    "stream_pos n s t' = fold (\<lambda>q p. pos_max p q) ps (stream_pos n s u)"
    using Cons.IH [of u] Cons.prems(3) by auto
  have "checkpoint_all lc R n s (p # ps) t = (Inr (), t')"
    using c t'(1) p by (simp add: checkpoint_all_def act_ret_def)
  then show ?case using t'(2,3) u only_stream_trans [OF S(1)] by auto
qed

end

section \<open>Properties\<close>

text \<open>
  A checkpoint never moves a cursor back and never touches another stream: it returns true
  exactly when the new position is strictly later, and then the stream stands there; when it
  returns false or throws the stream stays where it was.
\<close>

theorem checkpoint_monotone:
  assumes "collation lc" "cursor_repo_ok R" "cursors_ok t"
    and "placed_pos (stream_pos n s t)" "placed_pos (l, x, i)"
    and "checkpoint lc R n s l x i t = (r, t')"
  shows "cursors_ok t' \<and> (\<forall>n' s'. (n', s') \<noteq> (n, s) \<longrightarrow> stream_pos n' s' t' = stream_pos n' s' t) \<and>
    stream_pos n s t' = (if r = Inr True then (l, x, i) else stream_pos n s t) \<and>
    (case r of Inl _ \<Rightarrow> True | Inr b \<Rightarrow> b = pos_gt lc (l, x, i) (stream_pos n s t)) \<and>
    \<not> pos_gt lc (stream_pos n s t) (stream_pos n s t')"
proof -
  note S = collation.checkpoint_spec [OF assms]
  have "\<not> pos_gt lc (stream_pos n s t) (stream_pos n s t')"
    using collation.checkpoint_forward [OF assms] by blast
  then show ?thesis using S by (cases r) (auto simp: only_stream_def)
qed

definition sample_cursors :: "IndexerCursorEntity list" where
  "sample_cursors = [\<lparr>cur_id = Some 1, cur_network = ''testnet'', cur_streamKey = ''core_game_events'',
     lastLedger = num 9, lastTxHash = ''b'', lastEventIndex = num 1, cur_updatedAt = None\<rparr>]"

definition mem_cursors :: cursor_repo where
  "mem_cursors = mem_repo cur_id (\<lambda>i c. c\<lparr>cur_id := Some i\<rparr>)"

lemma mem_cursors_ok: "cursor_repo_ok mem_cursors"
  unfolding mem_cursors_def by (rule mem_repo_ok) (simp_all add: cursor_body_def)

lemma sample_cursors_ok: "cursors_ok sample_cursors"
  by (simp add: keyed_def sample_cursors_def)

lemma sample_cursors_pos: "stream_pos ''testnet'' ''core_game_events'' sample_cursors = (num 9, ''b'', num 1)"
  by (simp add: stream_pos_def row_of_def sample_cursors_def cursor_key_def cursor_pos_def)

theorem checkpoint_monotone_witness:
  "stream_pos ''testnet'' ''core_game_events''
     (snd (checkpoint unitCompare mem_cursors ''testnet'' ''core_game_events'' (num 9) ''a'' (num 5) sample_cursors)) =
   (num 9, ''b'', num 1)"
proof -
  obtain r t' where c: "checkpoint unitCompare mem_cursors ''testnet'' ''core_game_events''
      (num 9) ''a'' (num 5) sample_cursors = (r, t')" by (metis surj_pair)
  have "\<not> pos_gt unitCompare (num 9, ''a'', num 5) (num 9, ''b'', num 1)" by simp
  then have "stream_pos ''testnet'' ''core_game_events'' t' = (num 9, ''b'', num 1)"
    using checkpoint_monotone [OF unit_order.collation_axioms mem_cursors_ok sample_cursors_ok _ _ c]
    by (auto simp: sample_cursors_pos split: sum.splits if_splits)
  then show ?thesis unfolding c snd_conv .
qed

text \<open>
  With a repository that answers, any sequence of checkpoints returns and leaves the stream
  at the latest of the positions offered and the one it started from; so it does not depend on
  the order they came in, repeated ones included.
\<close>

theorem checkpoints_reach_latest:
  assumes "collation lc" "cursor_repo_ok R" "repo_reliable R" "cursors_ok t"
    and "placed_pos (stream_pos n s t)" "\<forall>p \<in> set ps. placed_pos p"
  shows "\<exists>t'. checkpoint_all lc R n s ps t = (Inr (), t') \<and>
    stream_pos n s t' \<in> insert (stream_pos n s t) (set ps) \<and>
    (\<forall>p \<in> insert (stream_pos n s t) (set ps). p = stream_pos n s t' \<or> pos_gt lc (stream_pos n s t') p)"
proof -
  obtain t' where t': "checkpoint_all lc R n s ps t = (Inr (), t')"
    "stream_pos n s t' = fold (\<lambda>q p. collation.pos_max lc p q) ps (stream_pos n s t)"
    using collation.checkpoint_all_fold [OF assms] by blast
  have m: "stream_pos n s t' \<in> insert (stream_pos n s t) (set ps)"
    "\<forall>p \<in> insert (stream_pos n s t) (set ps). \<not> pos_gt lc p (stream_pos n s t')"
    using collation.fold_pos_max [OF assms(1,5,6)] t'(2) by simp_all
  have pl: "\<forall>p \<in> insert (stream_pos n s t) (set ps). placed_pos p" using assms(5,6) by blast
  then have "\<forall>p \<in> insert (stream_pos n s t) (set ps). p = stream_pos n s t' \<or> pos_gt lc (stream_pos n s t') p"
    using m collation.pos_gt_total [OF assms(1)] by blast
  then show ?thesis using t'(1) m(1) by blast
qed

theorem checkpoints_reach_latest_witness:
  "\<exists>t'. checkpoint_all unitCompare mem_cursors ''testnet'' ''core_game_events''
     [(num 12, ''c'', num 0), (num 10, ''z'', num 3), (num 12, ''c'', num 2)] sample_cursors = (Inr (), t') \<and>
   stream_pos ''testnet'' ''core_game_events'' t' = (num 12, ''c'', num 2)"
proof -
  let ?n = "''testnet''" and ?s = "''core_game_events''"
    and ?ps = "[(num 12, ''c'', num 0), (num 10, ''z'', num 3), (num 12, ''c'', num 2)]"
  have "repo_reliable mem_cursors" by (simp add: mem_cursors_def mem_repo_reliable)
  moreover have "placed_pos (stream_pos ?n ?s sample_cursors)" by (simp add: sample_cursors_pos)
  moreover have "\<forall>p \<in> set ?ps. placed_pos p" by simp
  ultimately obtain t' where t': "checkpoint_all unitCompare mem_cursors ?n ?s ?ps sample_cursors = (Inr (), t')"
    and m: "stream_pos ?n ?s t' \<in> insert (stream_pos ?n ?s sample_cursors) (set ?ps)"
    and g: "\<forall>p \<in> insert (stream_pos ?n ?s sample_cursors) (set ?ps).
       p = stream_pos ?n ?s t' \<or> pos_gt unitCompare (stream_pos ?n ?s t') p"
    using checkpoints_reach_latest [OF unit_order.collation_axioms mem_cursors_ok _ sample_cursors_ok] by blast
  define q where "q = stream_pos ?n ?s t'"
  have "(num 12, ''c'', num 2) = q \<or> pos_gt unitCompare q (num 12, ''c'', num 2)"
    using g unfolding q_def by simp
  moreover have "q \<in> insert (num 9, ''b'', num 1) (set ?ps)" using m unfolding q_def sample_cursors_pos .
  ultimately have "q = (num 12, ''c'', num 2)" by auto
  then show ?thesis using t' unfolding q_def by blast
qed

end
