(* ===== verification/Indexer_Service.thy ===== *)
theory Indexer_Service
  imports Event_Processor Event_Normalizer Event_Dedup Cursor_Service
begin

text \<open>
  \<^verbatim>\<open>indexer.service.ts\<close>: the poll cycle that ties the indexer together.  It reads the cursor,
  fetches raw events past it, sets malformed ones aside, normalizes, validates and sorts the
  rest, and ingests them one by one; an ingested event is deduplicated, processed and
  checkpointed.  The state is that of the event processor with the cursors, the deduplication
  server, the sink for malformed events, the metrics and the replay alert beside it.
\<close>

definition INDEXER_STREAM_CORE_GAME :: string where
  "INDEXER_STREAM_CORE_GAME = ''core_game_events''"

record MalformedEvent =
  me_raw :: js
  me_index :: nat
  me_stage :: string
  me_reason :: string

record ('r, 'k) indexer = processor +
  ix_cursors :: "IndexerCursorEntity list"
  ix_redis :: 'r
  ix_sink :: 'k
  ix_ingestedTotal :: nat
  ix_replaySkips :: nat
  ix_projectionErrors :: nat
  ix_pollCycles :: nat
  ix_lastCursorLedger :: jsnum
  ix_lastTickAt :: "int option"
  ix_replayAlert :: ReplayAlert

text \<open>
  What the constructor injects and the configuration it reads.  \<^verbatim>\<open>d_post\<close> answers an HTTP
  request with the parsed body or throws; \<^verbatim>\<open>d_sink\<close> is the registered sink, if any.
\<close>

record ('r, 'k) indexer_deps =
  d_host :: host
  d_events :: event_repo
  d_sessions :: session_repo
  d_cursors :: cursor_repo
  d_redis :: "'r redis"
  d_limit :: jsnum
  d_network :: "string option"
  d_rpcUrl :: "string option"
  d_contractId :: "string option"
  d_post :: "string \<Rightarrow> js \<Rightarrow> js_error + js"
  d_sink :: "(MalformedEvent \<Rightarrow> ('k, js_error, unit) act) option"

type_synonym ('r, 'k, 'a) indexer_act = "(('r, 'k) indexer, js_error, 'a) act"

definition on_cursors :: "'a cursor_act \<Rightarrow> ('r, 'k, 'a) indexer_act" where
  "on_cursors = zoom ix_cursors (\<lambda>t s. s\<lparr>ix_cursors := t\<rparr>)"

definition on_redis :: "('r, js_error, 'a) act \<Rightarrow> ('r, 'k, 'a) indexer_act" where
  "on_redis = zoom ix_redis (\<lambda>t s. s\<lparr>ix_redis := t\<rparr>)"

definition on_sink :: "('k, js_error, 'a) act \<Rightarrow> ('r, 'k, 'a) indexer_act" where
  "on_sink = zoom ix_sink (\<lambda>t s. s\<lparr>ix_sink := t\<rparr>)"

definition act_sum :: "'e + 'a \<Rightarrow> ('s, 'e, 'a) act" where
  "act_sum r s = (r, s)"

definition network_of :: "('r, 'k) indexer_deps \<Rightarrow> string" where
  "network_of D = (case d_network D of Some n \<Rightarrow> if n = [] then ''testnet'' else n | None \<Rightarrow> ''testnet'')"

section \<open>Ingesting one event\<close>

definition sendToMalformedSink ::
    "('r, 'k) indexer_deps \<Rightarrow> js \<Rightarrow> nat \<Rightarrow> string \<Rightarrow> string \<Rightarrow> ('r, 'k, unit) indexer_act" where
  "sendToMalformedSink D raw index stage reason =
    (case d_sink D of
       None \<Rightarrow> act_ret ()
     | Some record_event \<Rightarrow> act_catch
         (on_sink (record_event \<lparr>me_raw = raw, me_index = index, me_stage = stage, me_reason = reason\<rparr>))
         (\<lambda>err. act_ret ()))"

definition ingest :: "('r, 'k) indexer_deps \<Rightarrow> int \<Rightarrow> IngestedEventDto \<Rightarrow> ('r, 'k, unit) indexer_act" where
  "ingest D now event =
    act_catch
      (act_bind (on_redis (isDuplicate (d_host D) (d_redis D) now (ev_txHash event) (ev_eventIndex event)))
        (\<lambda>duplicate. if duplicate then act_ret ()
          else act_seq (process_event (d_host D) (d_events D) (d_sessions D) now event)
            (act_seq (on_cursors (checkpoint (localeCompare (d_host D)) (d_cursors D) (ev_network event)
                INDEXER_STREAM_CORE_GAME (ev_ledger event) (ev_txHash event) (ev_eventIndex event)))
              (act_modify (\<lambda>s. s\<lparr>ix_ingestedTotal := ix_ingestedTotal s + 1,
                 ix_lastCursorLedger := ev_ledger event\<rparr>)))))
      (\<lambda>err. act_seq (act_modify (\<lambda>s. s\<lparr>ix_projectionErrors := ix_projectionErrors s + 1\<rparr>)) (act_throw err))"

section \<open>The poll cycle\<close>

text \<open>The request and its checked answer.\<close>

definition request_body :: "string \<Rightarrow> jsnum \<Rightarrow> js" where
  "request_body contractId afterLedger = Obj [
     (''jsonrpc'', Str ''2.0''), (''id'', Num (num 1)), (''method'', Str ''getEvents''),
     (''params'', Obj [
       (''startLedger'', Num (if num_lt (Fin 0) afterLedger then num_add afterLedger (num 1) else num 1)),
       (''filters'', Arr [Obj [(''type'', Str ''contract''), (''contractIds'', Arr [Str contractId])]]),
       (''pagination'', Obj [(''limit'', Num (num 200))])])]"

definition fetchEvents ::
    "('r, 'k) indexer_deps \<Rightarrow> string \<Rightarrow> string \<Rightarrow> jsnum \<Rightarrow> js_error + js list" where
  "fetchEvents D rpcUrl contractId afterLedger =
    (case d_post D rpcUrl (request_body contractId afterLedger) of
       Inl err \<Rightarrow> Inl err
     | Inr data \<Rightarrow> validateRpcResponseShape data)"

definition diagnostic_json :: "RawEventDiagnostic \<Rightarrow> js" where
  "diagnostic_json d = Obj [
     (''index'', Num (num (int (diag_index d)))),
     (''missingFields'', Arr (map Str (missingFields d))),
     (''malformedFields'', Obj (map (\<lambda>(f, x, r). (f, Obj [(''expected'', Str x), (''received'', Str r)]))
        (malformedFields d)))]"

fun structural_pass :: "('r, 'k) indexer_deps \<Rightarrow> nat \<Rightarrow> js list \<Rightarrow> ('r, 'k, js_record list) indexer_act" where
  "structural_pass D idx [] = act_ret []"
| "structural_pass D idx (raw # raws) =
    (case diagnoseMalformedEvent raw idx of
       Some diagnostic \<Rightarrow>
         act_seq (sendToMalformedSink D raw idx ''structure'' (stringify (d_host D) (diagnostic_json diagnostic)))
           (structural_pass D (idx + 1) raws)
     | None \<Rightarrow> act_bind (structural_pass D (idx + 1) raws) (\<lambda>rest. act_ret (as_record raw # rest)))"

fun validation_pass ::
    "('r, 'k) indexer_deps \<Rightarrow> int \<Rightarrow> nat \<Rightarrow> js_record list \<Rightarrow> ('r, 'k, IngestedEventDto list) indexer_act" where
  "validation_pass D now idx [] = act_ret []"
| "validation_pass D now idx (raw # raws) =
    (let event = normalize (d_host D) now (network_of D) raw in
     if \<not> isValid (d_host D) (d_limit D) event then
       act_seq (sendToMalformedSink D (Obj raw) idx ''validation''
           (''event failed validation (topic='' @ ev_topic event @ '')''))
         (validation_pass D now (idx + 1) raws)
     else act_bind (validation_pass D now (idx + 1) raws) (\<lambda>rest. act_ret (event # rest)))"

text \<open>The loop over the sorted events; \<^verbatim>\<open>clock\<close> gives the time each iteration starts at.\<close>

fun ingest_all ::
    "('r, 'k) indexer_deps \<Rightarrow> (nat \<Rightarrow> int) \<Rightarrow> nat \<Rightarrow> IngestedEventDto list \<Rightarrow> ('r, 'k, nat) indexer_act" where
  "ingest_all D clock ingested [] = act_ret ingested"
| "ingest_all D clock ingested (event # events) =
     act_seq (ingest D (clock ingested) event) (ingest_all D clock (ingested + 1) events)"

definition config_value :: "string option \<Rightarrow> string option" where
  "config_value x = (case x of Some s \<Rightarrow> if s = [] then None else Some s | None \<Rightarrow> None)"

definition poll :: "('r, 'k) indexer_deps \<Rightarrow> (nat \<Rightarrow> int) \<Rightarrow> ('r, 'k, nat) indexer_act" where
  "poll D clock =
    (case (config_value (d_rpcUrl D), config_value (d_contractId D)) of
       (Some rpcUrl, Some contractId) \<Rightarrow>
         act_bind (on_cursors (getOrCreate (d_cursors D) (network_of D) INDEXER_STREAM_CORE_GAME)) (\<lambda>cursor.
           act_seq (act_modify (\<lambda>s. s\<lparr>ix_pollCycles := ix_pollCycles s + 1,
               ix_lastCursorLedger := lastLedger cursor, ix_lastTickAt := Some (clock 0)\<rparr>))
             (act_bind (act_sum (fetchEvents D rpcUrl contractId (lastLedger cursor))) (\<lambda>rawEvents.
               act_bind (structural_pass D 0 rawEvents) (\<lambda>structurallyValid.
                 act_bind (validation_pass D (clock 0) 0 structurallyValid) (\<lambda>normalized.
                   ingest_all D clock 0 (sort_events (localeCompare (d_host D)) normalized))))))
     | _ \<Rightarrow> act_ret 0)"

section \<open>Status, lag and maintenance\<close>

datatype HealthStatus = Alive | Stale | Down

record Healthcheck =
  hc_status :: HealthStatus
  hc_secondsSinceLastTick :: jsnum
  hc_lastTickAt :: "int option"
  hc_ingestedTotal :: nat
  hc_projectionErrors :: nat

definition getHealthcheck :: "int \<Rightarrow> ('r, 'k) indexer \<Rightarrow> Healthcheck" where
  "getHealthcheck now s =
    (let lastTick = (case ix_lastTickAt s of Some t \<Rightarrow> t | None \<Rightarrow> 0);
         secs = (if lastTick = 0 then PosInf else num ((now - lastTick) div 1000));
         st = (if num_lt (num 60) secs then Down else if num_lt (num 30) secs then Stale else Alive);
         st = (if ix_pollCycles s = 0 then Down else st)
     in \<lparr>hc_status = st, hc_secondsSinceLastTick = secs, hc_lastTickAt = ix_lastTickAt s,
         hc_ingestedTotal = ix_ingestedTotal s, hc_projectionErrors = ix_projectionErrors s\<rparr>)"

text \<open>Optional chaining into a parsed body.\<close>

fun opt_prop :: "js \<Rightarrow> string \<Rightarrow> js" where
  "opt_prop (Obj r) k = get_prop r k"
| "opt_prop _ k = Undef"

definition fetchLatestLedger :: "('r, 'k) indexer_deps \<Rightarrow> string \<Rightarrow> js_error + js" where
  "fetchLatestLedger D rpcUrl =
    (case d_post D rpcUrl (Obj [(''jsonrpc'', Str ''2.0''), (''id'', Num (num 1)), (''method'', Str ''getHealth'')]) of
       Inl err \<Rightarrow> Inl err
     | Inr data \<Rightarrow> Inr (coalesce (opt_prop (opt_prop data ''result'') ''latestLedger'') (Num (Fin 0))))"

record IndexerLagSnapshot =
  lag_network :: string
  lag_streamKey :: string
  lag_cursor :: position
  lag_lastProcessedTxHash :: string
  lag_networkLatestLedger :: "js option"
  lag_lagLedgers :: "jsnum option"
  lag_replaySkips :: nat
  lag_ingestedTotal :: nat
  lag_projectionErrors :: nat
  lag_pollCycles :: nat

definition getLagSnapshot :: "('r, 'k) indexer_deps \<Rightarrow> ('r, 'k, IndexerLagSnapshot) indexer_act" where
  "getLagSnapshot D =
    act_bind (on_cursors (getOrCreate (d_cursors D) (network_of D) INDEXER_STREAM_CORE_GAME)) (\<lambda>cursor.
      act_bind (case config_value (d_rpcUrl D) of
          Some rpcUrl \<Rightarrow> act_bind (act_sum (fetchLatestLedger D rpcUrl)) (\<lambda>l. act_ret (Some l))
        | None \<Rightarrow> act_ret None) (\<lambda>latest.
        act_get (\<lambda>s. \<lparr>lag_network = network_of D, lag_streamKey = INDEXER_STREAM_CORE_GAME,
          lag_cursor = (lastLedger cursor, lastTxHash cursor, lastEventIndex cursor),
          lag_lastProcessedTxHash = lastTxHash cursor,
          lag_networkLatestLedger = latest,
          lag_lagLedgers = map_option (\<lambda>l. num_max (num_sub (js_Number (d_host D) l) (lastLedger cursor)) (Fin 0)) latest,
          lag_replaySkips = ix_replaySkips s, lag_ingestedTotal = ix_ingestedTotal s,
          lag_projectionErrors = ix_projectionErrors s, lag_pollCycles = ix_pollCycles s\<rparr>)))"

definition resetCursor :: "('r, 'k) indexer_deps \<Rightarrow> string \<Rightarrow> string \<Rightarrow> ('r, 'k, unit) indexer_act" where
  "resetCursor D network streamKey =
    act_seq (on_cursors (reset_cursor (d_cursors D) network streamKey))
      (act_modify (\<lambda>s. s\<lparr>ix_lastCursorLedger := Fin 0, ix_ingestedTotal := 0, ix_replaySkips := 0,
         ix_projectionErrors := 0, ix_lastTickAt := None\<rparr>))"

definition resetProjections :: "('r, 'k) indexer_deps \<Rightarrow> ('r, 'k, unit) indexer_act" where
  "resetProjections D =
    act_seq (on_sessions (reset_projections (d_sessions D)))
      (act_modify (\<lambda>s. s\<lparr>ix_projectionErrors := 0\<rparr>))"

definition recordReplaySkip :: "int \<Rightarrow> ('r, 'k, unit) indexer_act" where
  "recordReplaySkip now = act_modify (\<lambda>s. s\<lparr>ix_replaySkips := ix_replaySkips s + 1,
     ix_replayAlert := snd (recordReplayRejection now (ix_replayAlert s))\<rparr>)"

end
