(* ===== verification/Indexer_Poll.thy ===== *)
theory Indexer_Poll
  imports Indexer_Service
begin

text \<open>
  What a poll cycle guarantees.  A single ingestion is analysed into its five outcomes
  (\<^verbatim>\<open>ingest_step\<close>); the lemmas about the cycle carry a state relation through the loop.
\<close>

section \<open>The two passes never throw and only write to the sink\<close>

lemma sink_self: "\<exists>k. s = s\<lparr>ix_sink := k\<rparr>"
  by (rule exI [of _ "ix_sink s"]) simp

lemma sendToMalformedSink_returns:
  "\<exists>k. sendToMalformedSink D raw i stage reason s = (Inr (), s\<lparr>ix_sink := k\<rparr>)"
proof (cases "d_sink D")
  case None
  then show ?thesis using sink_self [of s] by (simp add: sendToMalformedSink_def act_ret_def)
next
  case (Some f)
  then show ?thesis
    by (auto simp: sendToMalformedSink_def on_sink_def act_defs split: prod.splits sum.splits)
qed

lemma sendToMalformedSinkE:
  obtains k where "sendToMalformedSink D raw i stage reason s = (Inr (), s\<lparr>ix_sink := k\<rparr>)"
  using sendToMalformedSink_returns [of D raw i stage reason s] by (elim exE)

lemma structural_pass_returns:
  "\<exists>k. structural_pass D idx raws s = (Inr (map as_record (filter well_shaped raws)), s\<lparr>ix_sink := k\<rparr>)"
proof (induction raws arbitrary: idx s)
  case Nil
  then show ?case using sink_self [of s] by (simp add: act_ret_def)
next
  case (Cons raw raws)
  show ?case
  proof (cases "diagnoseMalformedEvent raw idx")
    case None
    then have "well_shaped raw" using diagnose_None_iff [of raw idx] by simp
    moreover obtain k where "structural_pass D (idx + 1) raws s =
        (Inr (map as_record (filter well_shaped raws)), s\<lparr>ix_sink := k\<rparr>)" using Cons.IH by blast
    ultimately show ?thesis using None by (auto simp: act_ret_def)
  next
    case (Some d)
    then have "\<not> well_shaped raw" using diagnose_None_iff [of raw idx] by simp
    moreover obtain k where k: "sendToMalformedSink D raw idx ''structure''
        (stringify (d_host D) (diagnostic_json d)) s = (Inr (), s\<lparr>ix_sink := k\<rparr>)"
      by (rule sendToMalformedSinkE)
    moreover obtain k' where "structural_pass D (idx + 1) raws (s\<lparr>ix_sink := k\<rparr>) =
        (Inr (map as_record (filter well_shaped raws)), s\<lparr>ix_sink := k\<rparr>\<lparr>ix_sink := k'\<rparr>)"
      using Cons.IH by blast
    ultimately show ?thesis using Some by auto
  qed
qed

lemma validation_pass_returns:
  "\<exists>k. validation_pass D now idx raws s =
    (Inr (filter (isValid (d_host D) (d_limit D)) (map (normalize (d_host D) now (network_of D)) raws)),
     s\<lparr>ix_sink := k\<rparr>)"
proof (induction raws arbitrary: idx s)
  case Nil
  then show ?case using sink_self [of s] by (simp add: act_ret_def)
next
  case (Cons raw raws)
  let ?e = "normalize (d_host D) now (network_of D) raw"
  let ?rest = "filter (isValid (d_host D) (d_limit D)) (map (normalize (d_host D) now (network_of D)) raws)"
  show ?case
  proof (cases "isValid (d_host D) (d_limit D) ?e")
    case True
    moreover obtain k where "validation_pass D now (idx + 1) raws s = (Inr ?rest, s\<lparr>ix_sink := k\<rparr>)"
      using Cons.IH by blast
    ultimately show ?thesis by (auto simp: act_ret_def Let_def)
  next
    case False
    obtain k where "sendToMalformedSink D (Obj raw) idx ''validation''
        (''event failed validation (topic='' @ ev_topic ?e @ '')'') s = (Inr (), s\<lparr>ix_sink := k\<rparr>)"
      by (rule sendToMalformedSinkE)
    moreover obtain k' where "validation_pass D now (idx + 1) raws (s\<lparr>ix_sink := k\<rparr>) =
        (Inr ?rest, s\<lparr>ix_sink := k\<rparr>\<lparr>ix_sink := k'\<rparr>)"
      using Cons.IH by blast
    ultimately show ?thesis using False by (auto simp: Let_def)
  qed
qed

section \<open>The outcomes of one ingestion\<close>

inductive ingest_step ::
    "('r, 'k) indexer_deps \<Rightarrow> int \<Rightarrow> IngestedEventDto \<Rightarrow> ('r, 'k) indexer \<Rightarrow> js_error + unit \<Rightarrow> ('r, 'k) indexer \<Rightarrow> bool"
  for D now e s where
    skipped: "isDuplicate (d_host D) (d_redis D) now (ev_txHash e) (ev_eventIndex e) (ix_redis s) = (Inr True, r) \<Longrightarrow>
      ingest_step D now e s (Inr ()) (s\<lparr>ix_redis := r\<rparr>)"
  | dedup_failed: "isDuplicate (d_host D) (d_redis D) now (ev_txHash e) (ev_eventIndex e) (ix_redis s) = (Inl x, r) \<Longrightarrow>
      ingest_step D now e s (Inl x) (s\<lparr>ix_redis := r, ix_projectionErrors := ix_projectionErrors s + 1\<rparr>)"
  | process_failed: "isDuplicate (d_host D) (d_redis D) now (ev_txHash e) (ev_eventIndex e) (ix_redis s) = (Inr False, r) \<Longrightarrow>
      process_event (d_host D) (d_events D) (d_sessions D) now e (s\<lparr>ix_redis := r\<rparr>) = (Inl x, s1) \<Longrightarrow>
      ingest_step D now e s (Inl x) (s1\<lparr>ix_projectionErrors := ix_projectionErrors s1 + 1\<rparr>)"
  | checkpoint_failed: "isDuplicate (d_host D) (d_redis D) now (ev_txHash e) (ev_eventIndex e) (ix_redis s) = (Inr False, r) \<Longrightarrow>
      process_event (d_host D) (d_events D) (d_sessions D) now e (s\<lparr>ix_redis := r\<rparr>) = (Inr b, s1) \<Longrightarrow>
      checkpoint (localeCompare (d_host D)) (d_cursors D) (ev_network e) INDEXER_STREAM_CORE_GAME
        (ev_ledger e) (ev_txHash e) (ev_eventIndex e) (ix_cursors s1) = (Inl x, t) \<Longrightarrow>
      ingest_step D now e s (Inl x) (s1\<lparr>ix_cursors := t, ix_projectionErrors := ix_projectionErrors s1 + 1\<rparr>)"
  | ingested: "isDuplicate (d_host D) (d_redis D) now (ev_txHash e) (ev_eventIndex e) (ix_redis s) = (Inr False, r) \<Longrightarrow>
      process_event (d_host D) (d_events D) (d_sessions D) now e (s\<lparr>ix_redis := r\<rparr>) = (Inr b, s1) \<Longrightarrow>
      checkpoint (localeCompare (d_host D)) (d_cursors D) (ev_network e) INDEXER_STREAM_CORE_GAME
        (ev_ledger e) (ev_txHash e) (ev_eventIndex e) (ix_cursors s1) = (Inr c, t) \<Longrightarrow>
      ingest_step D now e s (Inr ())
        (s1\<lparr>ix_cursors := t, ix_ingestedTotal := ix_ingestedTotal s1 + 1, ix_lastCursorLedger := ev_ledger e\<rparr>)"

inductive_cases ingest_InlE: "ingest_step D now e s (Inl x) s'"
inductive_cases ingest_InrE: "ingest_step D now e s (Inr u) s'"

lemma ingest_step:
  assumes "ingest D now e s = (r, s')"
  shows "ingest_step D now e s r s'"
proof -
  obtain d rd where d: "isDuplicate (d_host D) (d_redis D) now (ev_txHash e) (ev_eventIndex e) (ix_redis s) = (d, rd)"
    by (metis surj_pair)
  obtain p s1 where p: "process_event (d_host D) (d_events D) (d_sessions D) now e (s\<lparr>ix_redis := rd\<rparr>) = (p, s1)"
    by (metis surj_pair)
  obtain c t where c: "checkpoint (localeCompare (d_host D)) (d_cursors D) (ev_network e) INDEXER_STREAM_CORE_GAME
      (ev_ledger e) (ev_txHash e) (ev_eventIndex e) (ix_cursors s1) = (c, t)" by (metis surj_pair)
  show ?thesis
  proof (cases d)
    case (Inl x)
    then show ?thesis using assms d ingest_step.dedup_failed [of D now e s x rd]
      by (simp add: ingest_def on_redis_def act_defs)
  next
    case (Inr dup)
    show ?thesis
    proof (cases dup)
      case True
      then show ?thesis using assms d Inr ingest_step.skipped [of D now e s rd]
        by (simp add: ingest_def on_redis_def act_defs)
    next
      case False
      have "d = Inr False" using Inr False by simp
      note d' = d [unfolded this]
      show ?thesis
      proof (cases p)
        case (Inl x)
        then show ?thesis using assms d' p ingest_step.process_failed [OF d' p [unfolded Inl]] False
          by (simp add: ingest_def on_redis_def act_defs)
      next
        case (Inr b)
        note p' = p [unfolded Inr]
        show ?thesis
        proof (cases c)
          case (Inl x)
          then show ?thesis using assms d' p' c ingest_step.checkpoint_failed [OF d' p' c [unfolded Inl]]
            by (simp add: ingest_def on_redis_def on_cursors_def act_defs)
        next
          case (Inr b')
          then show ?thesis using assms d' p' c ingest_step.ingested [OF d' p' c [unfolded Inr]]
            by (simp add: ingest_def on_redis_def on_cursors_def act_defs)
        qed
      qed
    qed
  qed
qed

section \<open>What holds of every step\<close>

definition deps_ok :: "('r, 'k) indexer_deps \<Rightarrow> 'r expiry \<Rightarrow> bool" where
  "deps_ok D ex \<longleftrightarrow> collation (localeCompare (d_host D)) \<and> event_repo_ok (d_events D) \<and>
     session_repo_ok (d_sessions D) \<and> cursor_repo_ok (d_cursors D) \<and> redis_ok (d_redis D) ex"

definition indexer_ok :: "('r, 'k) indexer \<Rightarrow> bool" where
  "indexer_ok s \<longleftrightarrow> processor_ok s \<and> cursors_ok (ix_cursors s) \<and> cursors_placed (ix_cursors s)"

definition core_pos :: "('r, 'k) indexer_deps \<Rightarrow> ('r, 'k) indexer \<Rightarrow> position" where
  "core_pos D s = stream_pos (network_of D) INDEXER_STREAM_CORE_GAME (ix_cursors s)"

text \<open>
  From one state to a later one: the tables stay well formed, no stored event is lost, the
  cursor of the indexer's stream does not move back and the other cursors do not move, and the
  administrators do not change.
\<close>

definition advances :: "('r, 'k) indexer_deps \<Rightarrow> ('r, 'k) indexer \<Rightarrow> ('r, 'k) indexer \<Rightarrow> bool" where
  "advances D s s' \<longleftrightarrow> (indexer_ok s \<longrightarrow> indexer_ok s' \<and> seen s \<subseteq> seen s' \<and>
     \<not> pos_gt (localeCompare (d_host D)) (core_pos D s) (core_pos D s') \<and>
     (\<forall>n k. (n, k) \<noteq> (network_of D, INDEXER_STREAM_CORE_GAME) \<longrightarrow>
        stream_pos n k (ix_cursors s') = stream_pos n k (ix_cursors s)) \<and>
     pr_admins s' = pr_admins s)"

definition good_event :: "('r, 'k) indexer_deps \<Rightarrow> IngestedEventDto \<Rightarrow> bool" where
  "good_event D e \<longleftrightarrow> placed e \<and> ev_network e = network_of D \<and> ev_topic e \<in> set ALLOWED_TOPICS"

lemma core_pos_placed: "indexer_ok s \<Longrightarrow> placed_pos (core_pos D s)"
  by (simp add: indexer_ok_def cursors_placed_def core_pos_def)

lemma processor_fields [simp]:
  "processor_ok (s\<lparr>ix_redis := r\<rparr>) = processor_ok s" "seen (s\<lparr>ix_redis := r\<rparr>) = seen s"
  "processor_ok (s\<lparr>ix_cursors := t\<rparr>) = processor_ok s" "seen (s\<lparr>ix_cursors := t\<rparr>) = seen s"
  "processor_ok (s\<lparr>ix_sink := k\<rparr>) = processor_ok s" "seen (s\<lparr>ix_sink := k\<rparr>) = seen s"
  "processor_ok (s\<lparr>ix_projectionErrors := n\<rparr>) = processor_ok s" "seen (s\<lparr>ix_projectionErrors := n\<rparr>) = seen s"
  "processor_ok (s\<lparr>ix_ingestedTotal := n\<rparr>) = processor_ok s" "seen (s\<lparr>ix_ingestedTotal := n\<rparr>) = seen s"
  "processor_ok (s\<lparr>ix_pollCycles := n\<rparr>) = processor_ok s" "seen (s\<lparr>ix_pollCycles := n\<rparr>) = seen s"
  "processor_ok (s\<lparr>ix_lastCursorLedger := l\<rparr>) = processor_ok s" "seen (s\<lparr>ix_lastCursorLedger := l\<rparr>) = seen s"
  "processor_ok (s\<lparr>ix_lastTickAt := w\<rparr>) = processor_ok s" "seen (s\<lparr>ix_lastTickAt := w\<rparr>) = seen s"
  by (simp_all add: processor_ok_def seen_def)

lemma advances_refl: "collation (localeCompare (d_host D)) \<Longrightarrow> reflp (advances D)"
  using collation.pos_gt_irrefl [OF _ core_pos_placed] by (auto simp: reflp_def advances_def)

lemma advances_trans: "collation (localeCompare (d_host D)) \<Longrightarrow> transp (advances D)"
proof (rule transpI)
  fix s t u assume c: "collation (localeCompare (d_host D))" and 1: "advances D s t" and 2: "advances D t u"
  show "advances D s u"
    unfolding advances_def
  proof
    assume s: "indexer_ok s"
    note T = 1 [unfolded advances_def, rule_format, OF s]
    have t: "indexer_ok t" using T by blast
    note U = 2 [unfolded advances_def, rule_format, OF t]
    have u: "indexer_ok u" using U by blast
    have "\<not> pos_gt (localeCompare (d_host D)) (core_pos D s) (core_pos D u)"
      using collation.not_pos_gt_trans [OF c core_pos_placed [OF s] core_pos_placed [OF t] core_pos_placed [OF u]] T U
      by blast
    then show "indexer_ok u \<and> seen s \<subseteq> seen u \<and>
       \<not> pos_gt (localeCompare (d_host D)) (core_pos D s) (core_pos D u) \<and>
       (\<forall>n k. (n, k) \<noteq> (network_of D, INDEXER_STREAM_CORE_GAME) \<longrightarrow>
          stream_pos n k (ix_cursors u) = stream_pos n k (ix_cursors s)) \<and>
       pr_admins u = pr_admins s"
      using T U by auto
  qed
qed

text \<open>A change to fields that are neither tables nor registry.\<close>

lemma advances_same:
  assumes "collation (localeCompare (d_host D))" "processor_ok s' = processor_ok s" "seen s' = seen s"
    "ix_cursors s' = ix_cursors s" "pr_admins s' = pr_admins s"
  shows "advances D s s'"
proof -
  have "core_pos D s' = core_pos D s" using assms(4) by (simp add: core_pos_def)
  then show ?thesis
    using assms collation.pos_gt_irrefl [OF assms(1) core_pos_placed, of s D]
    by (auto simp: advances_def indexer_ok_def)
qed

lemma process_indexer:
  assumes ok: "event_repo_ok E" "session_repo_ok S" and inv: "processor_ok s"
    and topic: "ev_topic e \<in> set ALLOWED_TOPICS"
    and p: "process_event h E S now e (s :: ('r, 'k) indexer) = (r, s')"
  shows "ix_cursors s' = ix_cursors s" "ix_redis s' = ix_redis s" "processor_ok s'" "seen s \<subseteq> seen s'"
    "pr_admins s' = pr_admins s" "r = Inr b \<Longrightarrow> ev_key e \<in> seen s'"
proof -
  have o: "outcome h now e s r s'" by (rule process_event_outcome [OF ok inv p])
  have "snd (process_admin now e a) = a" for a
    using topic by (auto simp: process_admin_def ALLOWED_TOPICS_def)
  then show "ix_cursors s' = ix_cursors s" "ix_redis s' = ix_redis s" "pr_admins s' = pr_admins s"
    using o by (auto elim: outcome.cases)
  show "processor_ok s'" "seen s \<subseteq> seen s'" using outcome_ok [OF o inv] by blast+
  show "r = Inr b \<Longrightarrow> ev_key e \<in> seen s'" using o outcome_seen by blast
qed

text \<open>A checkpoint of the indexer's stream advances it.\<close>

lemma checkpoint_advances:
  assumes D: "deps_ok D ex" and s: "indexer_ok s" and e: "good_event D e"
    and c: "checkpoint (localeCompare (d_host D)) (d_cursors D) (ev_network e) INDEXER_STREAM_CORE_GAME
      (ev_ledger e) (ev_txHash e) (ev_eventIndex e) (ix_cursors s) = (r, t)"
  shows "advances D s (s\<lparr>ix_cursors := t\<rparr>)"
proof -
  let ?n = "network_of D" and ?lc = "localeCompare (d_host D)"
  have co: "collation ?lc" and ro: "cursor_repo_ok (d_cursors D)" using D by (simp_all add: deps_ok_def)
  have ct: "cursors_ok (ix_cursors s)" and pl: "placed_pos (core_pos D s)"
    using s core_pos_placed by (simp_all add: indexer_ok_def)
  have pe: "placed_pos (ev_ledger e, ev_txHash e, ev_eventIndex e)"
    using e placed_pos_placed [of e] by (simp add: good_event_def position_of_def)
  have n: "ev_network e = ?n" using e by (simp add: good_event_def)
  have M: "cursors_ok t" "placed_pos (stream_pos ?n INDEXER_STREAM_CORE_GAME t)"
    "\<not> pos_gt ?lc (core_pos D s) (stream_pos ?n INDEXER_STREAM_CORE_GAME t)"
    and others: "\<forall>n k. (n, k) \<noteq> (?n, INDEXER_STREAM_CORE_GAME) \<longrightarrow> stream_pos n k t = stream_pos n k (ix_cursors s)"
    using collation.checkpoint_forward [OF co ro ct pl [unfolded core_pos_def] pe c [unfolded n]]
    by (simp_all add: only_stream_def core_pos_def)
  have "cursors_placed t"
    unfolding cursors_placed_def
  proof (intro allI)
    fix n k
    show "placed_pos (stream_pos n k t)"
    proof (cases "(n, k) = (?n, INDEXER_STREAM_CORE_GAME)")
      case True
      then show ?thesis using M(2) by simp
    next
      case False
      then have "stream_pos n k t = stream_pos n k (ix_cursors s)" using others by blast
      then show ?thesis using s by (simp add: indexer_ok_def cursors_placed_def)
    qed
  qed
  then have "indexer_ok (s\<lparr>ix_cursors := t\<rparr>)" using M(1) s by (simp add: indexer_ok_def)
  moreover have "core_pos D (s\<lparr>ix_cursors := t\<rparr>) = stream_pos ?n INDEXER_STREAM_CORE_GAME t"
    by (simp add: core_pos_def)
  ultimately show ?thesis using M(3) others by (simp add: advances_def)
qed

lemma ingest_advances:
  assumes D: "deps_ok D ex" and e: "good_event D e" and i: "ingest D now e s = (r, s')"
  shows "advances D s s'"
proof (cases "indexer_ok s")
  case False
  then show ?thesis by (simp add: advances_def)
next
  case True
  have co: "collation (localeCompare (d_host D))" and ro: "event_repo_ok (d_events D)" "session_repo_ok (d_sessions D)"
    using D by (simp_all add: deps_ok_def)
  have topic: "ev_topic e \<in> set ALLOWED_TOPICS" using e by (simp add: good_event_def)
  note tr = transpD [OF advances_trans [OF co]]
  have p: "advances D s s1" if "process_event (d_host D) (d_events D) (d_sessions D) now e (s\<lparr>ix_redis := x\<rparr>) = (p, s1)" for x p s1
  proof -
    have "processor_ok (s\<lparr>ix_redis := x\<rparr>)" using True by (simp add: indexer_ok_def)
    note P = process_indexer [OF ro this topic that]
    show ?thesis
      using P(1,3,4,5) True collation.pos_gt_irrefl [OF co core_pos_placed [OF True], of D]
      by (simp add: advances_def indexer_ok_def core_pos_def)
  qed
  from ingest_step [OF i] show ?thesis
  proof cases
    case (skipped x)
    then show ?thesis by (intro advances_same [OF co]) simp_all
  next
    case (dedup_failed x y)
    then show ?thesis by (intro advances_same [OF co]) simp_all
  next
    case (process_failed x y s1)
    have "advances D s1 s'" using process_failed by (intro advances_same [OF co]) simp_all
    then show ?thesis using tr p [OF process_failed(4)] by blast
  next
    case (checkpoint_failed x b s1 y t)
    have "indexer_ok s1" using p [OF checkpoint_failed(4)] True by (simp add: advances_def)
    then have "advances D s1 (s1\<lparr>ix_cursors := t\<rparr>)" by (rule checkpoint_advances [OF D _ e checkpoint_failed(5)])
    moreover have "advances D (s1\<lparr>ix_cursors := t\<rparr>) s'"
      using checkpoint_failed by (intro advances_same [OF co]) simp_all
    ultimately show ?thesis using tr p [OF checkpoint_failed(4)] by blast
  next
    case (ingested x b s1 c t)
    have "indexer_ok s1" using p [OF ingested(4)] True by (simp add: advances_def)
    then have "advances D s1 (s1\<lparr>ix_cursors := t\<rparr>)" by (rule checkpoint_advances [OF D _ e ingested(5)])
    moreover have "advances D (s1\<lparr>ix_cursors := t\<rparr>) s'"
      using ingested by (intro advances_same [OF co]) simp_all
    ultimately show ?thesis using tr p [OF ingested(4)] by blast
  qed
qed

lemma ingest_all_advances:
  assumes D: "deps_ok D ex"
  shows "\<forall>e \<in> set es. good_event D e \<Longrightarrow> keeps (advances D) (ingest_all D clock n es)"
proof (induction es arbitrary: n)
  case Nil
  then show ?case using D by (simp add: keeps_ret advances_refl deps_ok_def)
next
  case (Cons e es)
  have "keeps (advances D) (ingest D (clock n) e)"
    unfolding keeps_def using ingest_advances [OF D] Cons.prems by (metis list.set_intros(1) prod.collapse)
  then show ?case using Cons D by (simp add: keeps_seq advances_trans deps_ok_def)
qed

text \<open>The events a cycle ingests: those that pass both checks.\<close>

definition valid_events :: "('r, 'k) indexer_deps \<Rightarrow> int \<Rightarrow> js list \<Rightarrow> IngestedEventDto list" where
  "valid_events D now raws = filter (isValid (d_host D) (d_limit D))
     (map (normalize (d_host D) now (network_of D)) (map as_record (filter well_shaped raws)))"

lemma valid_events_good: "e \<in> set (valid_events D now raws) \<Longrightarrow> good_event D e"
proof -
  assume e: "e \<in> set (valid_events D now raws)"
  then have "isValid (d_host D) (d_limit D) e" by (simp add: valid_events_def)
  then have "placed e \<and> ev_topic e \<in> set ALLOWED_TOPICS" using isValid_placed isValid_topic by blast
  moreover have "ev_network e = network_of D" using e by (auto simp: valid_events_def normalize_def)
  ultimately show ?thesis by (simp add: good_event_def)
qed

section \<open>The shape of a cycle\<close>

definition started :: "('r, 'k) indexer \<Rightarrow> IndexerCursorEntity list \<Rightarrow> IndexerCursorEntity \<Rightarrow> int \<Rightarrow> ('r, 'k) indexer" where
  "started s t cursor now = s\<lparr>ix_cursors := t, ix_pollCycles := ix_pollCycles s + 1,
     ix_lastCursorLedger := lastLedger cursor, ix_lastTickAt := Some now\<rparr>"

definition configured :: "('r, 'k) indexer_deps \<Rightarrow> string \<Rightarrow> string \<Rightarrow> bool" where
  "configured D rpcUrl contractId \<longleftrightarrow>
     config_value (d_rpcUrl D) = Some rpcUrl \<and> config_value (d_contractId D) = Some contractId"

lemma poll_unconfigured: "\<nexists>u c. configured D u c \<Longrightarrow> poll D clock s = (Inr 0, s)"
  by (auto simp: configured_def poll_def act_ret_def split: option.split)

lemma poll_no_cursor:
  "configured D u c \<Longrightarrow>
   getOrCreate (d_cursors D) (network_of D) INDEXER_STREAM_CORE_GAME (ix_cursors s) = (Inl x, t) \<Longrightarrow>
   poll D clock s = (Inl x, s\<lparr>ix_cursors := t\<rparr>)"
  by (simp add: configured_def poll_def on_cursors_def zoom_def act_bind_def)

lemma poll_no_answer:
  "configured D u c \<Longrightarrow>
   getOrCreate (d_cursors D) (network_of D) INDEXER_STREAM_CORE_GAME (ix_cursors s) = (Inr cursor, t) \<Longrightarrow>
   fetchEvents D u c (lastLedger cursor) = Inl x \<Longrightarrow>
   poll D clock s = (Inl x, started s t cursor (clock 0))"
  by (simp add: configured_def poll_def on_cursors_def act_defs act_sum_def started_def)

lemma poll_fetched:
  assumes "configured D u c"
    and "getOrCreate (d_cursors D) (network_of D) INDEXER_STREAM_CORE_GAME (ix_cursors s) = (Inr cursor, t)"
    and "fetchEvents D u c (lastLedger cursor) = Inr raws"
  obtains k where "poll D clock s = ingest_all D clock 0
      (sort_events (localeCompare (d_host D)) (valid_events D (clock 0) raws)) (started s t cursor (clock 0)\<lparr>ix_sink := k\<rparr>)"
proof -
  let ?s = "started s t cursor (clock 0)"
  obtain k where k: "structural_pass D 0 raws ?s = (Inr (map as_record (filter well_shaped raws)), ?s\<lparr>ix_sink := k\<rparr>)"
    using structural_pass_returns [of D 0 raws ?s] by (elim exE)
  obtain k' where k': "validation_pass D (clock 0) 0 (map as_record (filter well_shaped raws)) (?s\<lparr>ix_sink := k\<rparr>) =
      (Inr (valid_events D (clock 0) raws), ?s\<lparr>ix_sink := k\<rparr>\<lparr>ix_sink := k'\<rparr>)"
    using validation_pass_returns [of D "clock 0" 0 "map as_record (filter well_shaped raws)" "?s\<lparr>ix_sink := k\<rparr>"]
    unfolding valid_events_def by (elim exE)
  have "poll D clock s = act_bind (structural_pass D 0 raws) (\<lambda>ok.
      act_bind (validation_pass D (clock 0) 0 ok) (\<lambda>normalized.
        ingest_all D clock 0 (sort_events (localeCompare (d_host D)) normalized))) ?s"
    using assms by (simp add: configured_def poll_def on_cursors_def act_defs act_sum_def started_def)
  also have "\<dots> = ingest_all D clock 0 (sort_events (localeCompare (d_host D)) (valid_events D (clock 0) raws))
      (?s\<lparr>ix_sink := k'\<rparr>)"
    using k k' by simp
  finally show thesis by (rule that)
qed

lemma getOrCreate_same:
  assumes D: "deps_ok D ex" and s: "indexer_ok s"
    and g: "getOrCreate (d_cursors D) n k (ix_cursors s) = (r, t)"
  shows "advances D s (s\<lparr>ix_cursors := t\<rparr>)" "\<And>n' k'. stream_pos n' k' t = stream_pos n' k' (ix_cursors s)"
proof -
  have co: "collation (localeCompare (d_host D))" and ro: "cursor_repo_ok (d_cursors D)" and ct: "cursors_ok (ix_cursors s)"
    using D s by (simp_all add: deps_ok_def indexer_ok_def)
  have "cursors_ok t \<and> (\<forall>n' k'. stream_pos n' k' t = stream_pos n' k' (ix_cursors s))"
  proof (cases r)
    case (Inl x)
    then show ?thesis using getOrCreate_throws [OF ro g [unfolded Inl]] ct by simp
  next
    case (Inr c)
    note G = getOrCreate_returns [OF ro ct g [unfolded Inr]]
    have "stream_pos n' k' t = stream_pos n' k' (ix_cursors s)" for n' k'
    proof (cases "(n', k') = (n, k)")
      case True
      then show ?thesis using G(2,3) by (simp add: stream_pos_def [of n k t])
    next
      case False
      then show ?thesis using G(4) unfolding stream_pos_def by simp
    qed
    then show ?thesis using G(1) by blast
  qed
  then show p: "\<And>n' k'. stream_pos n' k' t = stream_pos n' k' (ix_cursors s)" by blast
  show "advances D s (s\<lparr>ix_cursors := t\<rparr>)"
    using p \<open>cursors_ok t \<and> _\<close> s collation.pos_gt_irrefl [OF co core_pos_placed [OF s], of D]
    by (simp add: advances_def indexer_ok_def cursors_placed_def core_pos_def)
qed

lemma started_advances:
  assumes "deps_ok D ex" "indexer_ok s"
    "getOrCreate (d_cursors D) (network_of D) INDEXER_STREAM_CORE_GAME (ix_cursors s) = (Inr c, t)"
  shows "advances D s (started s t c now)" "advances D s (started s t c now\<lparr>ix_sink := k\<rparr>)"
proof -
  have co: "collation (localeCompare (d_host D))" using assms(1) by (simp add: deps_ok_def)
  have 1: "advances D s (s\<lparr>ix_cursors := t\<rparr>)" by (rule getOrCreate_same(1) [OF assms])
  have "advances D (s\<lparr>ix_cursors := t\<rparr>) (started s t c now)"
    by (intro advances_same [OF co]) (simp_all add: started_def)
  then show 2: "advances D s (started s t c now)" using 1 advances_trans [OF co] by (blast dest: transpD)
  have "advances D (started s t c now) (started s t c now\<lparr>ix_sink := k\<rparr>)"
    by (intro advances_same [OF co]) simp_all
  then show "advances D s (started s t c now\<lparr>ix_sink := k\<rparr>)"
    using 2 advances_trans [OF co] by (blast dest: transpD)
qed

lemma poll_advances:
  assumes D: "deps_ok D ex" and s: "indexer_ok s" and p: "poll D clock s = (r, s')"
  shows "advances D s s'"
proof -
  have co: "collation (localeCompare (d_host D))" using D by (simp add: deps_ok_def)
  show ?thesis
  proof (cases "\<exists>u c. configured D u c")
    case False
    then show ?thesis using p poll_unconfigured [of D clock s] advances_refl [OF co] by (auto dest: reflpD)
  next
    case True
    then obtain u c where conf: "configured D u c" by blast
    obtain g t where g: "getOrCreate (d_cursors D) (network_of D) INDEXER_STREAM_CORE_GAME (ix_cursors s) = (g, t)"
      by (metis surj_pair)
    show ?thesis
    proof (cases g)
      case (Inl x)
      then show ?thesis using p poll_no_cursor [OF conf g [unfolded Inl]] getOrCreate_same(1) [OF D s g] by simp
    next
      case (Inr cursor)
      note g' = g [unfolded Inr]
      show ?thesis
      proof (cases "fetchEvents D u c (lastLedger cursor)")
        case (Inl x)
        then have "s' = started s t cursor (clock 0)" using p poll_no_answer [OF conf g' Inl, of clock] by simp
        then show ?thesis using started_advances(1) [OF D s g'] by simp
      next
        case (Inr raws)
        let ?es = "sort_events (localeCompare (d_host D)) (valid_events D (clock 0) raws)"
        obtain k where k: "poll D clock s = ingest_all D clock 0 ?es (started s t cursor (clock 0)\<lparr>ix_sink := k\<rparr>)"
          using poll_fetched [OF conf g' Inr] .
        have "\<forall>e \<in> set ?es. good_event D e" using valid_events_good [of _ D "clock 0" raws] by (auto simp: sort_events_def)
        then have "advances D (started s t cursor (clock 0)\<lparr>ix_sink := k\<rparr>) s'"
          using ingest_all_advances [OF D] p unfolding k by (meson keepsD)
        then show ?thesis using started_advances(2) [OF D s g'] advances_trans [OF co] by (blast dest: transpD)
      qed
    qed
  qed
qed

section \<open>A cycle with services that answer\<close>

definition redis_reliable :: "'r redis \<Rightarrow> bool" where
  "redis_reliable R \<longleftrightarrow> (\<forall>now k. returns (rd_exists R now k)) \<and> (\<forall>now k v ttl. returns (rd_set R now k v ttl))"

definition deps_reliable :: "('r, 'k) indexer_deps \<Rightarrow> bool" where
  "deps_reliable D \<longleftrightarrow> repo_reliable (d_events D) \<and> repo_reliable (d_sessions D) \<and>
     repo_reliable (d_cursors D) \<and> redis_reliable (d_redis D)"

text \<open>
  The deduplication keys are in step with the event table when a live key always belongs to a
  stored event.
\<close>

definition dedup_synced :: "('r, 'k) indexer_deps \<Rightarrow> 'r expiry \<Rightarrow> ('r, 'k) indexer \<Rightarrow> bool" where
  "dedup_synced D ex s \<longleftrightarrow> (\<forall>w t i. small_int i \<longrightarrow>
     alive ex w (buildKey (d_host D) t i) (ix_redis s) \<longrightarrow> (network_of D, t, i) \<in> seen s)"

text \<open>The abstract cycle: the keys seen and the view of the sessions.\<close>

fun intake :: "host \<Rightarrow> IngestedEventDto \<Rightarrow> event_key set \<times> session_view \<Rightarrow> event_key set \<times> session_view" where
  "intake h e (ks, v) = (if ev_key e \<in> ks then (ks, v) else (insert (ev_key e) ks, project h e v))"

definition abs_indexer :: "('r, 'k) indexer \<Rightarrow> event_key set \<times> session_view" where
  "abs_indexer s = (seen s, view (pr_sessions s))"

lemma abs_indexer_fields [simp]:
  "abs_indexer (s\<lparr>ix_redis := r\<rparr>) = abs_indexer s" "abs_indexer (s\<lparr>ix_cursors := t\<rparr>) = abs_indexer s"
  "abs_indexer (s\<lparr>ix_sink := k\<rparr>) = abs_indexer s" "abs_indexer (s\<lparr>ix_ingestedTotal := n\<rparr>) = abs_indexer s"
  "abs_indexer (s\<lparr>ix_lastCursorLedger := l\<rparr>) = abs_indexer s" "abs_indexer (s\<lparr>ix_pollCycles := n\<rparr>) = abs_indexer s"
  "abs_indexer (s\<lparr>ix_lastTickAt := w\<rparr>) = abs_indexer s"
  by (simp_all add: abs_indexer_def)

lemma isDuplicate_reliable:
  assumes "redis_reliable R"
  obtains b r' where "isDuplicate h R now t i r = (Inr b, r')"
proof -
  let ?k = "buildKey h t i"
  obtain n r1 where e: "rd_exists R now ?k r = (Inr n, r1)"
    using assms unfolding redis_reliable_def returns_def by meson
  obtain u r2 where "rd_set R now ?k ''1'' EVENT_DEDUP_TTL_SECONDS r1 = (Inr u, r2)"
    using assms unfolding redis_reliable_def returns_def by meson
  then show thesis using e that
    by (cases "n = 1") (auto simp: isDuplicate_def cache_has_def cache_set_def act_defs Let_def)
qed

lemma ingest_reliable:
  assumes D: "deps_ok D ex" and rel: "deps_reliable D" and s: "indexer_ok s" "dedup_synced D ex s"
    and e: "good_event D e" "small_int (ev_eventIndex e)"
  shows "\<exists>s'. ingest D now e s = (Inr (), s') \<and> dedup_synced D ex s' \<and> abs_indexer s' = intake (d_host D) e (abs_indexer s)"
proof -
  let ?k = "buildKey (d_host D) (ev_txHash e) (ev_eventIndex e)"
  have ok: "event_repo_ok (d_events D)" "session_repo_ok (d_sessions D)" and rd: "redis_ok (d_redis D) ex"
    and rr: "repo_reliable (d_events D)" "repo_reliable (d_sessions D)" "repo_reliable (d_cursors D)"
      "redis_reliable (d_redis D)"
    using D rel by (simp_all add: deps_ok_def deps_reliable_def)
  have key: "ev_key e = (network_of D, ev_txHash e, ev_eventIndex e)" using e(1) by (simp add: good_event_def ev_key_def)
  obtain b r where d: "isDuplicate (d_host D) (d_redis D) now (ev_txHash e) (ev_eventIndex e) (ix_redis s) = (Inr b, r)"
    using isDuplicate_reliable [OF rr(4)] .
  note I = isDuplicate_returns [OF rd d]
  show ?thesis
  proof (cases b)
    case True
    then have "ev_key e \<in> seen s" using I s(2) e(2) key by (auto simp: dedup_synced_def)
    moreover have "dedup_synced D ex (s\<lparr>ix_redis := r\<rparr>)"
      using s(2) I True by (simp add: dedup_synced_def alive_def)
    moreover have "ingest D now e s = (Inr (), s\<lparr>ix_redis := r\<rparr>)"
      using d True by (simp add: ingest_def on_redis_def act_defs)
    ultimately show ?thesis by (simp add: abs_indexer_def)
  next
    case False
    have pr: "processor_ok (s\<lparr>ix_redis := r\<rparr>)" using s(1) by (simp add: indexer_ok_def)
    obtain c s1 where p: "process_event (d_host D) (d_events D) (d_sessions D) now e (s\<lparr>ix_redis := r\<rparr>) = (Inr c, s1)"
      using process_event_reliable [OF rr(1,2)] .
    have P: "ix_redis s1 = r" "seen s \<subseteq> seen s1" "ev_key e \<in> seen s1"
      using process_indexer [OF ok pr _ p] e(1) by (simp_all add: good_event_def)
    have a: "abs_proc s1 = abs_process (d_host D) (now, e) (abs_proc (s\<lparr>ix_redis := r\<rparr>))"
      using outcome_abs [OF process_event_outcome [OF ok pr p]] by blast
    obtain m t where c: "checkpoint (localeCompare (d_host D)) (d_cursors D) (ev_network e) INDEXER_STREAM_CORE_GAME
        (ev_ledger e) (ev_txHash e) (ev_eventIndex e) (ix_cursors s1) = (Inr m, t)"
      using checkpoint_reliable [OF rr(3)] .
    let ?s' = "s1\<lparr>ix_cursors := t, ix_ingestedTotal := ix_ingestedTotal s1 + 1, ix_lastCursorLedger := ev_ledger e\<rparr>"
    have "ingest D now e s = (Inr (), ?s')"
      using d False p c by (simp add: ingest_def on_redis_def on_cursors_def act_defs)
    moreover have "dedup_synced D ex ?s'"
      unfolding dedup_synced_def
    proof (intro allI impI)
      fix w u i assume i: "small_int i" and al: "alive ex w (buildKey (d_host D) u i) (ix_redis ?s')"
      show "(network_of D, u, i) \<in> seen ?s'"
      proof (cases "buildKey (d_host D) u i = ?k")
        case True
        then show ?thesis using buildKey_inj [OF i e(2)] P(3) key by simp
      next
        case neq: False
        then have "alive ex w (buildKey (d_host D) u i) (ix_redis s)"
          using al I False P(1) by (simp add: alive_def)
        then show ?thesis using s(2) i P(2) by (auto simp: dedup_synced_def)
      qed
    qed
    moreover have "abs_indexer ?s' = intake (d_host D) e (abs_indexer s)"
      using a by (auto simp: abs_indexer_def abs_proc_def split: if_splits)
    ultimately show ?thesis by blast
  qed
qed

lemma ingest_all_reliable:
  assumes D: "deps_ok D ex" "deps_reliable D"
  shows "indexer_ok s \<Longrightarrow> dedup_synced D ex s \<Longrightarrow> \<forall>e \<in> set es. good_event D e \<and> small_int (ev_eventIndex e) \<Longrightarrow>
    \<exists>s'. ingest_all D clock n es s = (Inr (n + length es), s') \<and> dedup_synced D ex s' \<and>
      abs_indexer s' = fold (intake (d_host D)) es (abs_indexer s)"
proof (induction es arbitrary: n s)
  case Nil
  then show ?case by (simp add: act_ret_def)
next
  case (Cons e es)
  have e: "good_event D e" "small_int (ev_eventIndex e)" using Cons.prems(3) by simp_all
  obtain u where u: "ingest D (clock n) e s = (Inr (), u)" "dedup_synced D ex u"
    "abs_indexer u = intake (d_host D) e (abs_indexer s)"
    using ingest_reliable [OF D Cons.prems(1,2) e] by blast
  have "indexer_ok u" using ingest_advances [OF D(1) e(1) u(1)] Cons.prems(1) by (simp add: advances_def)
  moreover have "\<forall>e \<in> set es. good_event D e \<and> small_int (ev_eventIndex e)" using Cons.prems(3) by simp
  ultimately obtain s' where
    "ingest_all D clock (n + 1) es u = (Inr (n + 1 + length es), s')" "dedup_synced D ex s'"
    "abs_indexer s' = fold (intake (d_host D)) es (abs_indexer u)" using Cons.IH [OF _ u(2)] by blast
  then show ?case using u by auto
qed

lemma fold_intake_seen: "fst (fold (intake h) es a) = fst a \<union> ev_key ` set es"
  by (induction es arbitrary: a) (auto split: if_splits)

section \<open>Properties\<close>

text \<open>
  C7: whatever happens in a poll cycle, a throw in the middle included: the tables stay well
  formed, no stored event is lost, the cursor of the indexer's stream never moves back and no
  other cursor moves.
\<close>

theorem poll_safe:
  assumes "deps_ok D ex" "indexer_ok s" "poll D clock s = (r, s')"
  shows "indexer_ok s' \<and> seen s \<subseteq> seen s' \<and>
    \<not> pos_gt (localeCompare (d_host D)) (core_pos D s) (core_pos D s') \<and>
    (\<forall>n k. (n, k) \<noteq> (network_of D, INDEXER_STREAM_CORE_GAME) \<longrightarrow>
       stream_pos n k (ix_cursors s') = stream_pos n k (ix_cursors s))"
  using poll_advances [OF assms] assms(2) by (simp add: advances_def)

text \<open>A configuration on in-memory services, for the witnesses.\<close>

definition mem_deps :: "js list \<Rightarrow> (string \<Rightarrow> int option, MalformedEvent list) indexer_deps" where
  "mem_deps raws = \<lparr>d_host = plain_host, d_events = mem_events, d_sessions = mem_sessions, d_cursors = mem_cursors,
     d_redis = mem_redis, d_limit = num 8192, d_network = None, d_rpcUrl = Some ''http://rpc'', d_contractId = Some ''C1'',
     d_post = (\<lambda>url body. Inr (Obj [(''result'', Obj [(''events'', Arr raws)])])),
     d_sink = Some (\<lambda>m k. (Inr (), k @ [m]))\<rparr>"

definition empty_indexer :: "(string \<Rightarrow> int option, MalformedEvent list) indexer" where
  "empty_indexer = \<lparr>pr_events = [], pr_sessions = [], pr_admins = [], pr_replaySkipCount = 0, ix_cursors = [],
     ix_redis = Map.empty, ix_sink = [], ix_ingestedTotal = 0, ix_replaySkips = 0, ix_projectionErrors = 0,
     ix_pollCycles = 0, ix_lastCursorLedger = Fin 0, ix_lastTickAt = None,
     ix_replayAlert = \<lparr>windowSkips = 0, lastRejectedAt = None\<rparr>\<rparr>"

lemma mem_deps_ok: "deps_ok (mem_deps raws) id" "deps_reliable (mem_deps raws)"
  using mem_events_ok mem_sessions_ok mem_cursors_ok mem_redis_ok mem_sessions_reliable unit_order.collation_axioms
  by (auto simp: deps_ok_def deps_reliable_def mem_deps_def plain_host_def mem_cursors_def mem_repo_reliable
      redis_reliable_def mem_redis_def returns_def)

lemma empty_indexer_ok: "indexer_ok empty_indexer" "seen empty_indexer = {}" "dedup_synced D id empty_indexer"
  by (simp_all add: indexer_ok_def empty_indexer_def processor_ok_def cursors_placed_def stream_pos_def genesis_def
      seen_def dedup_synced_def alive_def)

theorem poll_safe_witness:
  "indexer_ok (snd (poll (mem_deps [Null]) (\<lambda>_. 0) empty_indexer))"
  using poll_safe [OF mem_deps_ok(1) empty_indexer_ok(1)] by (metis prod.collapse)

text \<open>
  C2: with services that answer, a configured cycle whose response is well formed returns the
  number of valid events, and it leaves the stored keys and the session view exactly as taking
  the sorted valid events in one by one does: each new one is stored and projected once.  The
  deduplication keys stay in step with the event table.
\<close>

theorem poll_refines:
  assumes "deps_ok D ex" "deps_reliable D" "indexer_ok s" "dedup_synced D ex s" "configured D u c"
    and "\<forall>l. fetchEvents D u c l = Inr raws"
    and "\<forall>e \<in> set (valid_events D (clock 0) raws). small_int (ev_eventIndex e)"
  shows "\<exists>s'. poll D clock s = (Inr (length (valid_events D (clock 0) raws)), s') \<and> dedup_synced D ex s' \<and>
    (seen s', view (pr_sessions s')) = fold (intake (d_host D))
       (sort_events (localeCompare (d_host D)) (valid_events D (clock 0) raws)) (seen s, view (pr_sessions s)) \<and>
    seen s' = seen s \<union> ev_key ` set (valid_events D (clock 0) raws)"
proof -
  let ?es = "sort_events (localeCompare (d_host D)) (valid_events D (clock 0) raws)"
  obtain cur t where g: "getOrCreate (d_cursors D) (network_of D) INDEXER_STREAM_CORE_GAME (ix_cursors s) = (Inr cur, t)"
    using getOrCreate_reliable assms(2) unfolding deps_reliable_def by metis
  obtain k where k: "poll D clock s = ingest_all D clock 0 ?es (started s t cur (clock 0)\<lparr>ix_sink := k\<rparr>)"
    using poll_fetched [OF assms(5) g] assms(6) by blast
  let ?s = "started s t cur (clock 0)\<lparr>ix_sink := k\<rparr>"
  have ok: "indexer_ok ?s" using started_advances(2) [OF assms(1,3) g] assms(3) by (simp add: advances_def)
  have sy: "dedup_synced D ex ?s" and ab: "abs_indexer ?s = abs_indexer s"
    using assms(4) by (simp_all add: dedup_synced_def started_def)
  have "\<forall>e \<in> set ?es. good_event D e \<and> small_int (ev_eventIndex e)"
    using valid_events_good assms(7) by (simp add: sort_events_def) blast
  then obtain s' where s': "ingest_all D clock 0 ?es ?s = (Inr (0 + length ?es), s')" "dedup_synced D ex s'"
    "abs_indexer s' = fold (intake (d_host D)) ?es (abs_indexer ?s)"
    using ingest_all_reliable [OF assms(1,2) ok sy] by blast
  have "seen s' = seen s \<union> ev_key ` set (valid_events D (clock 0) raws)"
  proof -
    have "seen s' = fst (abs_indexer s')" by (simp add: abs_indexer_def)
    also have "\<dots> = fst (abs_indexer s) \<union> ev_key ` set ?es" unfolding s'(3) fold_intake_seen ab ..
    finally show ?thesis by (simp add: abs_indexer_def sort_events_def)
  qed
  then show ?thesis using s' k ab by (auto simp: abs_indexer_def)
qed

lemma sample_bytes: "\<not> num_lt (num 8192) (payloadBytes plain_host (ev_payload (normalize plain_host now n sample_raw)))"
proof -
  have "ev_payload (normalize plain_host now n sample_raw) = [(''sessionId'', Str ''s1''), (''attemptsUsed'', Num (num 4))]"
    by (simp add: normalize_def sample_raw_def get_prop_def)
  moreover have "utf8_bytes (stringify plain_host (Obj [(''sessionId'', Str ''s1''), (''attemptsUsed'', Num (num 4))])) = 35"
    by code_simp
  ultimately show ?thesis by (simp add: payloadBytes_def)
qed

lemma sample_valid: "valid_events (mem_deps raws) now [Null, Obj sample_raw] = [normalize plain_host now ''testnet'' sample_raw]"
proof -
  have n: "network_of (mem_deps raws) = ''testnet''" by (simp add: network_of_def mem_deps_def)
  have f: "filter well_shaped [Null, Obj sample_raw] = [Obj sample_raw]"
    using sample_raw_shaped by (auto elim: well_shaped.cases)
  let ?e = "normalize plain_host now ''testnet'' sample_raw"
  have "?e = \<lparr>ev_network = ''testnet'', ev_contractId = ''C1'', ev_topic = ''session_finalized'', ev_txHash = ''t'',
      ev_ledger = num 7, ev_eventIndex = num 0, ev_payload = ev_payload ?e, ev_observedAt = now\<rparr>"
    using normalize_shaped [of sample_raw "''C1''" "''t''" "'' Session_Finalized''" "num 7" "num 0" plain_host now "''testnet''"]
      sample_topic by (simp add: sample_raw_def get_prop_def)
  then have "ev_contractId ?e = ''C1'' \<and> ev_topic ?e = ''session_finalized'' \<and> ev_txHash ?e = ''t'' \<and>
      ev_ledger ?e = num 7 \<and> ev_eventIndex ?e = num 0" by (metis IngestedEventDto.select_convs(2,3,4,5,6))
  then have "isValid plain_host (num 8192) ?e"
    using sample_bytes [of now "''testnet''"] unfolding isValid_iff by (simp add: ALLOWED_TOPICS_def exI [of _ 7] exI [of _ 0])
  then show ?thesis unfolding valid_events_def f n by (simp add: mem_deps_def)
qed

theorem poll_refines_witness:
  "\<exists>s'. poll (mem_deps [Null, Obj sample_raw]) (\<lambda>_. 5) empty_indexer = (Inr 1, s') \<and>
     seen s' = {(''testnet'', ''t'', num 0)}"
proof -
  let ?raws = "[Null, Obj sample_raw]" and ?D = "mem_deps [Null, Obj sample_raw]"
  have c: "configured ?D ''http://rpc'' ''C1''" by (simp add: configured_def config_value_def mem_deps_def)
  have f: "fetchEvents ?D ''http://rpc'' ''C1'' l = Inr ?raws" for l
    by (simp add: fetchEvents_def mem_deps_def validateRpcResponseShape_def get_prop_def nullish_def)
  have k: "ev_key (normalize plain_host 5 ''testnet'' sample_raw) = (''testnet'', ''t'', num 0)"
    by (simp add: ev_key_def normalize_def sample_raw_def get_prop_def)
  have i: "small_int (ev_eventIndex (normalize plain_host 5 ''testnet'' sample_raw))"
    using k unfolding small_int_def by (intro exI [of _ 0]) (simp add: ev_key_def)
  obtain s' where "poll ?D (\<lambda>_. 5) empty_indexer = (Inr (length (valid_events ?D 5 ?raws)), s')"
    "seen s' = seen empty_indexer \<union> ev_key ` set (valid_events ?D 5 ?raws)"
    using poll_refines [OF mem_deps_ok empty_indexer_ok(1,3) c, of ?raws "\<lambda>_. 5"] f i unfolding sample_valid by auto
  then show ?thesis unfolding sample_valid using k empty_indexer_ok(2) by simp
qed

text \<open>
  C12: the key is recorded before the event is processed: when processing throws, the next
  delivery of the event within 24 hours returns normally and changes nothing but the
  deduplication server, so the event is never stored though every later call succeeds.
\<close>

theorem failed_event_swallowed:
  assumes "deps_ok D ex" "indexer_ok s" "ingest D now e s = (Inl x, s1)"
    and "isDuplicate (d_host D) (d_redis D) now (ev_txHash e) (ev_eventIndex e) (ix_redis s) = (Inr False, r0)"
    and "process_event (d_host D) (d_events D) (d_sessions D) now e (s\<lparr>ix_redis := r0\<rparr>) = (Inl x, s0)"
    and "d_host D' = d_host D" "d_redis D' = d_redis D" "redis_reliable (d_redis D)" "later < now + 86400000"
  shows "\<exists>r. ingest D' later e s1 = (Inr (), s1\<lparr>ix_redis := r\<rparr>)"
proof -
  let ?k = "buildKey (d_host D) (ev_txHash e) (ev_eventIndex e)"
  have ok: "event_repo_ok (d_events D)" "session_repo_ok (d_sessions D)" and rd: "redis_ok (d_redis D) ex"
    using assms(1) by (simp_all add: deps_ok_def)
  have pr: "processor_ok (s\<lparr>ix_redis := r0\<rparr>)" using assms(2) by (simp add: indexer_ok_def)
  have "ix_redis s0 = r0" using process_event_outcome [OF ok pr assms(5)] by (auto elim: outcome_InlE)
  moreover have "s1 = s0\<lparr>ix_projectionErrors := ix_projectionErrors s0 + 1\<rparr>"
    using assms(3-5) by (simp add: ingest_def on_redis_def act_defs)
  ultimately have r: "ix_redis s1 = r0" by simp
  have "ex r0 ?k = Some (now + 86400000)" using isDuplicate_returns [OF rd assms(4)] by simp
  then have al: "alive ex later ?k r0" using assms(9) by (simp add: alive_def)
  obtain b r2 where b: "isDuplicate (d_host D) (d_redis D) later (ev_txHash e) (ev_eventIndex e) r0 = (Inr b, r2)"
    using isDuplicate_reliable [OF assms(8)] .
  then have "b" using isDuplicate_returns [OF rd b] al by simp
  then have "ingest D' later e s1 = (Inr (), s1\<lparr>ix_redis := r2\<rparr>)"
    using b r assms(6,7) by (simp add: ingest_def on_redis_def act_defs)
  then show ?thesis by blast
qed

theorem failed_event_swallowed_witness:
  "let D = (mem_deps [])\<lparr>d_sessions := broken_sessions\<rparr>; e = finalized_event ''s1'' 4 in
   \<exists>x s1 r. ingest D 0 e empty_indexer = (Inl x, s1) \<and>
     ingest (mem_deps []) 60000 e s1 = (Inr (), s1\<lparr>ix_redis := r\<rparr>) \<and> view (pr_sessions s1) = view []"
proof -
  let ?D = "(mem_deps [])\<lparr>d_sessions := broken_sessions\<rparr>" and ?e = "finalized_event ''s1'' 4"
  let ?x = "JsError ''QueryFailedError'' ''connection lost'' []"
  have D: "deps_ok ?D id" using mem_deps_ok(1) [of "[]"] broken_sessions_ok by (simp add: deps_ok_def)
  have p: "projectable ?e"
    by (simp add: projectable_def sessionId_of_def readStringField_def finalized_event_def get_prop_def)
  have d: "isDuplicate (d_host ?D) (d_redis ?D) 0 (ev_txHash ?e) (ev_eventIndex ?e) (ix_redis empty_indexer) =
      (Inr False, Map.empty(buildKey plain_host ''t'' (num 0) \<mapsto> 86400000))"
    by (simp add: mem_deps_def mem_redis_returns alive_def empty_indexer_def finalized_event_def Let_def)
  obtain s0 where s0: "process_event (d_host ?D) (d_events ?D) (d_sessions ?D) 0 ?e
      (empty_indexer\<lparr>ix_redis := Map.empty(buildKey plain_host ''t'' (num 0) \<mapsto> 86400000)\<rparr>) = (Inl ?x, s0)"
    and v: "pr_sessions s0 = []"
    using process_broken [OF p, of "empty_indexer\<lparr>ix_redis := Map.empty(buildKey plain_host ''t'' (num 0) \<mapsto> 86400000)\<rparr>"
        plain_host 0] by (auto simp: mem_deps_def) (auto simp: empty_indexer_def)
  obtain s1 where s1: "ingest ?D 0 ?e empty_indexer = (Inl ?x, s1)" "pr_sessions s1 = []"
    using d s0 v by (simp add: ingest_def on_redis_def act_defs)
  have rr: "redis_reliable (d_redis ?D)" using mem_deps_ok(2) [of "[]"] by (simp add: deps_reliable_def)
  obtain r where "ingest (mem_deps []) 60000 ?e s1 = (Inr (), s1\<lparr>ix_redis := r\<rparr>)"
    using failed_event_swallowed [OF D empty_indexer_ok(1) s1(1) d s0 _ _ rr, of "mem_deps []" 60000] by auto
  then show ?thesis using s1 unfolding Let_def by auto
qed

text \<open>
  No poll cycle changes the administrators: the two topics the registry processor listens
  to are not among the allowed ones, so their events are dropped before they reach it, while the
  processor given such an event directly would register the address.
\<close>

theorem poll_never_registers_admins:
  assumes "deps_ok D ex" "indexer_ok s" "poll D clock s = (r, s')"
  shows "pr_admins s' = pr_admins s \<and> ''admin_role_registered'' \<notin> set ALLOWED_TOPICS \<and>
    ''admin_role_revoked'' \<notin> set ALLOWED_TOPICS"
  using poll_advances [OF assms] assms(2) by (simp add: advances_def ALLOWED_TOPICS_def)

theorem poll_never_registers_admins_witness:
  "pr_admins (snd (poll (mem_deps [Obj sample_raw]) (\<lambda>_. 0) empty_indexer)) = []"
proof -
  have "pr_admins (snd (poll (mem_deps [Obj sample_raw]) (\<lambda>_. 0) empty_indexer)) = pr_admins empty_indexer"
    using poll_never_registers_admins [OF mem_deps_ok(1) empty_indexer_ok(1)] by (metis prod.collapse)
  then show ?thesis by (simp add: empty_indexer_def)
qed

text \<open>
  The health status: \<^verbatim>\<open>alive\<close> exactly when a cycle has run and the last tick is at most 30
  whole seconds old, \<^verbatim>\<open>stale\<close> from 31 to 60 seconds, and \<^verbatim>\<open>down\<close> otherwise; after a cursor reset it
  is \<^verbatim>\<open>down\<close> until the next tick.
\<close>

theorem healthcheck_status:
  "let age = (\<lambda>t. (now - t) div 1000) in
   (hc_status (getHealthcheck now s) = Alive \<longleftrightarrow>
      0 < ix_pollCycles s \<and> (\<exists>t. ix_lastTickAt s = Some t \<and> t \<noteq> 0 \<and> age t \<le> 30)) \<and>
   (hc_status (getHealthcheck now s) = Stale \<longleftrightarrow>
      0 < ix_pollCycles s \<and> (\<exists>t. ix_lastTickAt s = Some t \<and> t \<noteq> 0 \<and> 30 < age t \<and> age t \<le> 60)) \<and>
   hc_status (getHealthcheck now (s\<lparr>ix_lastTickAt := None\<rparr>)) = Down"
  by (cases "ix_lastTickAt s") (auto simp: getHealthcheck_def Let_def)

text \<open>
  A lag snapshot reports the stored cursor position, no lag without an RPC address, and a
  lag that is never negative and is the ledger difference when the cursor is behind; taking it
  moves no cursor.
\<close>

theorem lag_snapshot:
  assumes "deps_ok D ex" "indexer_ok s" "getLagSnapshot D s = (Inr snap, s')"
  shows "lag_cursor snap = core_pos D s \<and> core_pos D s' = core_pos D s \<and>
    (lag_lagLedgers snap = None \<longleftrightarrow> config_value (d_rpcUrl D) = None) \<and>
    (\<forall>v l c. lag_networkLatestLedger snap = Some v \<longrightarrow> js_Number (d_host D) v = num l \<longrightarrow> fst (core_pos D s) = num c \<longrightarrow>
       lag_lagLedgers snap = Some (num (max (l - c) 0)))"
proof -
  let ?n = "network_of D"
  obtain cur t where g: "getOrCreate (d_cursors D) ?n INDEXER_STREAM_CORE_GAME (ix_cursors s) = (Inr cur, t)"
    and rest: "act_bind (case config_value (d_rpcUrl D) of
          Some rpcUrl \<Rightarrow> act_bind (act_sum (fetchLatestLedger D rpcUrl)) (\<lambda>l. act_ret (Some l))
        | None \<Rightarrow> act_ret None) (\<lambda>latest.
        act_get (\<lambda>s. \<lparr>lag_network = ?n, lag_streamKey = INDEXER_STREAM_CORE_GAME,
          lag_cursor = (lastLedger cur, lastTxHash cur, lastEventIndex cur),
          lag_lastProcessedTxHash = lastTxHash cur,
          lag_networkLatestLedger = latest,
          lag_lagLedgers = map_option (\<lambda>l. num_max (num_sub (js_Number (d_host D) l) (lastLedger cur)) (Fin 0)) latest,
          lag_replaySkips = ix_replaySkips s, lag_ingestedTotal = ix_ingestedTotal s,
          lag_projectionErrors = ix_projectionErrors s, lag_pollCycles = ix_pollCycles s\<rparr>))
      (s\<lparr>ix_cursors := t\<rparr>) = (Inr snap, s')"
    using assms(3) unfolding getLagSnapshot_def act_bind_returns by (auto simp: on_cursors_def dest!: zoomD)
  have cur: "cursor_pos cur = core_pos D s"
    using getOrCreate_returns(3) [OF _ _ g] assms(1,2) by (simp add: deps_ok_def indexer_ok_def core_pos_def)
  have same: "core_pos D (s\<lparr>ix_cursors := t\<rparr>) = core_pos D s"
    using getOrCreate_same(2) [OF assms(1,2) g] by (simp add: core_pos_def)
  obtain latest where l: "snap = \<lparr>lag_network = ?n, lag_streamKey = INDEXER_STREAM_CORE_GAME,
          lag_cursor = (lastLedger cur, lastTxHash cur, lastEventIndex cur),
          lag_lastProcessedTxHash = lastTxHash cur, lag_networkLatestLedger = latest,
          lag_lagLedgers = map_option (\<lambda>l. num_max (num_sub (js_Number (d_host D) l) (lastLedger cur)) (Fin 0)) latest,
          lag_replaySkips = ix_replaySkips s, lag_ingestedTotal = ix_ingestedTotal s,
          lag_projectionErrors = ix_projectionErrors s, lag_pollCycles = ix_pollCycles s\<rparr>"
    and st: "s' = s\<lparr>ix_cursors := t\<rparr>" and none: "latest = None \<longleftrightarrow> config_value (d_rpcUrl D) = None"
    using rest by (auto simp: act_bind_returns act_get_def act_ret_def act_sum_def split: option.splits)
  have "num_max (num_sub (num a) (num c)) (Fin 0) = num (max (a - c) 0)" for a c
    by (simp add: num_max_def max_def)
  moreover have "lastLedger cur = fst (core_pos D s)" using cur by (metis cursor_pos_def fst_conv)
  ultimately have "num_max (num_sub (num a) (lastLedger cur)) (Fin 0) = num (max (a - c) 0)"
    if "fst (core_pos D s) = num c" for a c using that by simp
  then show ?thesis using cur same l st none by (auto simp: cursor_pos_def)
qed

theorem lag_snapshot_witness:
  "\<exists>snap s'. getLagSnapshot (mem_deps []) empty_indexer = (Inr snap, s') \<and> lag_cursor snap = genesis"
proof -
  have c: "config_value (d_rpcUrl (mem_deps [])) = Some ''http://rpc''" by (simp add: config_value_def mem_deps_def)
  obtain cur t where g: "getOrCreate (d_cursors (mem_deps [])) (network_of (mem_deps [])) INDEXER_STREAM_CORE_GAME
      (ix_cursors empty_indexer) = (Inr cur, t)"
    using getOrCreate_reliable mem_deps_ok(2) [of "[]"] unfolding deps_reliable_def by metis
  obtain snap s' where s: "getLagSnapshot (mem_deps []) empty_indexer = (Inr snap, s')"
    using g c by (simp add: getLagSnapshot_def on_cursors_def act_defs act_sum_def fetchLatestLedger_def mem_deps_def)
  have "core_pos (mem_deps []) empty_indexer = genesis"
    by (simp add: core_pos_def empty_indexer_def stream_pos_def)
  then show ?thesis using lag_snapshot [OF mem_deps_ok(1) empty_indexer_ok(1) s] s by simp
qed

end
