(* ===== verification/User_Service.thy ===== *)
theory User_Service
  imports Js_Values Repository
begin

text \<open>
  User accounts (\<^verbatim>\<open>auth/entities/user.entity.ts\<close>, \<^verbatim>\<open>user/user.service.ts\<close>): lookups, the two
  update operations with their lists of fields a caller may set, and removal.  How the mapper
  writes a partial entity into a row is the library's and a parameter.
\<close>

datatype user_role = Role_user | Role_admin

record User =
  us_id :: "nat option"
  us_email :: string
  us_role :: user_role
  us_password :: string
  us_username :: "string option"
  us_walletAddress :: "string option"
  us_digestOptIn :: bool
  us_avatarUrl :: "string option"
  us_createdAt :: int
  us_updatedAt :: int

type_synonym user_repo = "(User, js_error) repo"
type_synonym 'a user_act = "(User list, js_error, 'a) act"

definition BadRequestException :: "string \<Rightarrow> js_error" where
  "BadRequestException message = JsError ''BadRequestException'' message []"

definition NotFoundException :: "string \<Rightarrow> js_error" where
  "NotFoundException message = JsError ''NotFoundException'' message []"

definition user_create :: "user_repo \<Rightarrow> User \<Rightarrow> User user_act" where
  "user_create R userData = r_save R userData"

definition findById :: "user_repo \<Rightarrow> nat \<Rightarrow> User option user_act" where
  "findById R i = r_findOne R (\<lambda>u. us_id u = Some i)"

definition findByEmail :: "user_repo \<Rightarrow> string \<Rightarrow> User option user_act" where
  "findByEmail R email = r_findOne R (\<lambda>u. us_email u = email)"

definition findByUserName :: "user_repo \<Rightarrow> string \<Rightarrow> User option user_act" where
  "findByUserName R username = r_findOne R (\<lambda>u. us_username u = Some username)"

definition findAll :: "user_repo \<Rightarrow> User list user_act" where
  "findAll R = r_find R (\<lambda>_. True) (\<lambda>_ _. False)"

definition user_findOne :: "user_repo \<Rightarrow> nat \<Rightarrow> User option user_act" where
  "user_findOne R i = r_findOne R (\<lambda>u. us_id u = Some i)"

text \<open>The first key that is not allowed decides the message.\<close>

definition immutable_field :: "string \<Rightarrow> js_error" where
  "immutable_field key = BadRequestException (''Field '' @ [CHR 0x27] @ key @ [CHR 0x27] @ '' is immutable or not allowed to be updated.'')"

definition check_fields :: "string list \<Rightarrow> js_record \<Rightarrow> ('s, js_error, unit) act" where
  "check_fields allowedFields dto =
     (case List.find (\<lambda>key. key \<notin> set allowedFields) (map fst dto) of
        Some key \<Rightarrow> act_throw (immutable_field key)
      | None \<Rightarrow> act_ret ())"

definition user_update :: "user_repo \<Rightarrow> (js_record \<Rightarrow> User \<Rightarrow> User) \<Rightarrow> nat \<Rightarrow> js_record \<Rightarrow> User option user_act" where
  "user_update R merge i dto =
     act_seq (check_fields [''username'', ''avatarUrl'', ''digestOptIn''] dto)
       (act_seq (r_update R (\<lambda>u. us_id u = Some i) (merge dto)) (user_findOne R i))"

definition user_remove :: "user_repo \<Rightarrow> nat \<Rightarrow> unit user_act" where
  "user_remove R i = act_seq (r_delete R (\<lambda>u. us_id u = Some i)) (act_ret ())"

text \<open>A field of the profile that is present must be a string with a visible character.\<close>

fun nonempty_string :: "js \<Rightarrow> string option" where
  "nonempty_string (Str s) = (if trim s \<noteq> [] then Some s else None)"
| "nonempty_string _ = None"

definition set_username :: "js_record \<Rightarrow> User \<Rightarrow> js_error + User" where
  "set_username dto user = (case map_of dto ''username'' of
      None \<Rightarrow> Inr user
    | Some v \<Rightarrow> (case nonempty_string v of
          None \<Rightarrow> Inl (BadRequestException ''Username must be a non-empty string'')
        | Some s \<Rightarrow> Inr (user\<lparr>us_username := Some s\<rparr>)))"

definition set_avatarUrl :: "js_record \<Rightarrow> User \<Rightarrow> js_error + User" where
  "set_avatarUrl dto user = (case map_of dto ''avatarUrl'' of
      None \<Rightarrow> Inr user
    | Some v \<Rightarrow> (case nonempty_string v of
          None \<Rightarrow> Inl (BadRequestException ''AvatarUrl must be a non-empty string'')
        | Some s \<Rightarrow> Inr (user\<lparr>us_avatarUrl := Some s\<rparr>)))"

definition set_digestOptIn :: "js_record \<Rightarrow> User \<Rightarrow> js_error + User" where
  "set_digestOptIn dto user = (case map_of dto ''digestOptIn'' of
      None \<Rightarrow> Inr user
    | Some (JBool b) \<Rightarrow> Inr (user\<lparr>us_digestOptIn := b\<rparr>)
    | Some _ \<Rightarrow> Inl (BadRequestException ''digestOptIn must be a boolean''))"

definition act_lift :: "'e + 'a \<Rightarrow> ('s, 'e, 'a) act" where
  "act_lift r s = (r, s)"

definition profile_body :: "user_repo \<Rightarrow> nat \<Rightarrow> js_record \<Rightarrow> User user_act" where
  "profile_body R userId dto =
     act_seq (check_fields [''username'', ''avatarUrl''] dto)
       (act_bind (findById R userId) (\<lambda>found. case found of
          None \<Rightarrow> act_throw (NotFoundException ''User not found'')
        | Some user \<Rightarrow>
            act_bind (act_lift (set_username dto user)) (\<lambda>user.
            act_bind (act_lift (set_avatarUrl dto user)) (\<lambda>user.
            act_bind (act_lift (set_digestOptIn dto user)) (\<lambda>user.
              act_seq (r_save R user) (act_ret user))))))"

definition updateProfile :: "user_repo \<Rightarrow> nat \<Rightarrow> js_record \<Rightarrow> User user_act" where
  "updateProfile R userId dto = act_catch (profile_body R userId dto)
     (\<lambda>err. act_throw (BadRequestException (''Error updating user profile: '' @
        (if err_message err \<noteq> [] then err_message err else err_name err))))"

section \<open>Lemmas\<close>

abbreviation us_body :: "User \<Rightarrow> User" where
  "us_body u \<equiv> u\<lparr>us_id := None, us_createdAt := 0, us_updatedAt := 0\<rparr>"

lemma check_fields_run:
  "check_fields allowed dto s =
     (case List.find (\<lambda>key. key \<notin> set allowed) (map fst dto) of
        Some key \<Rightarrow> (Inl (immutable_field key), s) | None \<Rightarrow> (Inr (), s))"
  by (simp add: check_fields_def act_defs split: option.splits)

lemma check_fields_pass: "set (map fst dto) \<subseteq> set allowed \<Longrightarrow> check_fields allowed dto s = (Inr (), s)"
  by (auto simp: check_fields_run find_None_iff subset_iff split: option.splits dest: find_SomeD)

lemma check_fields_stop: "k \<in> set (map fst dto) \<Longrightarrow> k \<notin> set allowed \<Longrightarrow> \<exists>key. check_fields allowed dto s = (Inl (immutable_field key), s)"
  by (auto simp: check_fields_run find_None_iff split: option.splits)

lemma findByEmail_run:
  assumes "repo_ok us_id us_body R" "repo_reliable R"
  obtains x where "findByEmail R email t = (Inr x, t)"
    "case x of None \<Rightarrow> \<forall>u \<in> set t. us_email u \<noteq> email | Some u \<Rightarrow> u \<in> set t \<and> us_email u = email"
proof -
  obtain x t' where f: "r_findOne R (\<lambda>u. us_email u = email) t = (Inr x, t')"
    using assms(2) by (rule reliable_findOne)
  show thesis
    using that [of x] findOne_returns [OF assms(1) f] f by (simp add: findByEmail_def)
qed

section \<open>Properties\<close>

text \<open>
  A profile update either changes the user name and the picture of the one row, to strings
  that are not blank, and nothing else of any row, or throws and changes nothing; in particular
  an update that names the digest preference, which the body could store, is always refused.
\<close>

theorem updateProfile_safe:
  assumes "repo_ok us_id us_body R" "repo_reliable R" "distinct (map us_id t)"
  shows "\<exists>r t'. updateProfile R i dto t = (r, t') \<and>
    (case r of
       Inl e \<Rightarrow> err_name e = ''BadRequestException'' \<and> t' = t
     | Inr u' \<Rightarrow> set (map fst dto) \<subseteq> {''username'', ''avatarUrl''} \<and>
         (\<exists>u \<in> set t. us_id u = Some i \<and>
           u' = u\<lparr>us_username := us_username u', us_avatarUrl := us_avatarUrl u'\<rparr> \<and>
           (\<exists>v. us_body v = us_body u' \<and> us_id v = Some i \<and> set t' = insert v (set t - {u}))))"
proof -
  obtain x t' where f0: "r_findOne R (\<lambda>u. us_id u = Some i) t = (Inr x, t')"
    using assms(2) by (rule reliable_findOne)
  note f = f0 [unfolded findOne_same [OF assms(1) f0]]
  have throws: ?thesis if "profile_body R i dto t = (Inl e, t)" for e
  proof -
    have "\<exists>e'. updateProfile R i dto t = (Inl e', t) \<and> err_name e' = ''BadRequestException''"
      using that by (simp add: updateProfile_def act_catch_def act_throw_def BadRequestException_def)
    then obtain e' where "updateProfile R i dto t = (Inl e', t)" "err_name e' = ''BadRequestException''" by blast
    then show ?thesis by (intro exI [of _ "Inl e'"] exI [of _ t]) simp
  qed
  show ?thesis
  proof (cases "set (map fst dto) \<subseteq> set [''username'', ''avatarUrl'']")
    case False
    then obtain k where k: "k \<in> set (map fst dto)" "k \<notin> set [''username'', ''avatarUrl'']" by blast
    obtain key where "check_fields [''username'', ''avatarUrl''] dto t = (Inl (immutable_field key), t)"
      using check_fields_stop [OF k, of t] by (rule exE)
    then have "profile_body R i dto t = (Inl (immutable_field key), t)" by (simp add: profile_body_def)
    then show ?thesis by (rule throws)
  next
    case True
    then have c: "check_fields [''username'', ''avatarUrl''] dto t = (Inr (), t)" by (rule check_fields_pass)
    have "''digestOptIn'' \<notin> fst ` set dto" using True by auto
    then have d: "set_digestOptIn dto u = Inr u" for u
      by (simp add: set_digestOptIn_def map_of_eq_None_iff [symmetric] split: option.splits)
    show ?thesis
    proof (cases x)
      case None
      then have "profile_body R i dto t = (Inl (NotFoundException ''User not found''), t)"
        using c f by (simp add: profile_body_def findById_def act_throw_def)
      then show ?thesis by (rule throws)
    next
      case (Some u)
      have u: "u \<in> set t" "us_id u = Some i" using findOne_Some [OF assms(1) f [unfolded Some]] by auto
      define r where "r = (case set_username dto u of Inl e \<Rightarrow> Inl e | Inr u1 \<Rightarrow> set_avatarUrl dto u1)"
      show ?thesis
      proof (cases r)
        case (Inl e)
        then have "profile_body R i dto t = (Inl e, t)"
          using c f Some by (auto simp: profile_body_def findById_def act_lift_def act_bind_def r_def split: sum.splits)
        then show ?thesis by (rule throws)
      next
        case (Inr u')
        have only: "u' = u\<lparr>us_username := us_username u', us_avatarUrl := us_avatarUrl u'\<rparr>"
          using Inr by (auto simp: r_def set_username_def set_avatarUrl_def split: sum.splits option.splits)
        then have idu: "us_id u' = Some i" using u(2) by (metis User.select_convs(1) User.surjective User.update_convs(5,8))
        obtain v t2 where sv: "r_save R u' t = (Inr v, t2)" using assms(2) by (rule reliable_save)
        note S = save_returns [OF assms(1) sv]
        have "profile_body R i dto t = (Inr u', t2)"
          using c f Some Inr sv d by (auto simp: profile_body_def findById_def act_lift_def act_seq_def act_bind_def act_ret_def r_def split: sum.splits)
        then have run: "updateProfile R i dto t = (Inr u', t2)" by (simp add: updateProfile_def act_catch_def)
        have v: "us_id v = Some i" using S(3) idu by simp
        have "us_id r \<noteq> Some i \<longleftrightarrow> r \<noteq> u" if "r \<in> set t" for r
          using assms(3) that u inj_on_eq_iff [of us_id "set t" r u] by (auto simp: distinct_map)
        then have "set t2 = insert v (set t - {u})" using S(5) v by auto
        moreover have "set (map fst dto) \<subseteq> {''username'', ''avatarUrl''}" using True by simp
        ultimately show ?thesis using run S(1) v u only by (intro exI [of _ "Inr u'"] exI [of _ t2]) auto
      qed
    qed
  qed
qed

definition some_user :: "nat \<Rightarrow> User" where
  "some_user i = \<lparr>us_id = Some i, us_email = ''a@b.c'', us_role = Role_user, us_password = ''h'', us_username = Some ''ann'',
     us_walletAddress = None, us_digestOptIn = True, us_avatarUrl = None, us_createdAt = 0, us_updatedAt = 0\<rparr>"

definition user_mem :: user_repo where
  "user_mem = mem_repo us_id (\<lambda>i u. u\<lparr>us_id := Some i\<rparr>)"

lemma user_mem_ok: "repo_ok us_id us_body user_mem" and user_mem_reliable: "repo_reliable user_mem"
  unfolding user_mem_def by (rule mem_repo_ok; simp) (rule mem_repo_reliable)

theorem updateProfile_safe_witness:
  "\<exists>e. updateProfile user_mem 1 [(''digestOptIn'', JBool False)] [some_user 1] = (Inl e, [some_user 1])"
proof -
  have "distinct (map us_id [some_user 1])" by simp
  from updateProfile_safe [OF user_mem_ok user_mem_reliable this, of 1 "[(''digestOptIn'', JBool False)]"]
  show ?thesis
  proof (elim exE conjE)
    fix r t' assume "updateProfile user_mem 1 [(''digestOptIn'', JBool False)] [some_user 1] = (r, t')"
    moreover assume "case r of Inl e \<Rightarrow> err_name e = ''BadRequestException'' \<and> t' = [some_user 1]
      | Inr u' \<Rightarrow> set (map fst [(''digestOptIn'', JBool False)]) \<subseteq> {''username'', ''avatarUrl''} \<and>
         (\<exists>u \<in> set [some_user 1]. us_id u = Some 1 \<and>
           u' = u\<lparr>us_username := us_username u', us_avatarUrl := us_avatarUrl u'\<rparr> \<and>
           (\<exists>v. us_body v = us_body u' \<and> us_id v = Some 1 \<and> set t' = insert v (set [some_user 1] - {u})))"
    ultimately show ?thesis by (cases r) auto
  qed
qed

end
