(* ===== verification/Refresh_Tokens.thy ===== *)
theory Refresh_Tokens
  imports Js_Values Repository
begin

text \<open>
  Refresh tokens and sessions (\<^verbatim>\<open>auth/refresh-token.service.ts\<close>): a token is exchanged once for a
  successor of its family, in a transaction; presenting a used token revokes every token of the
  wallet.  Random values are arguments.  The transaction of the manager, and what the mapper does
  with a \<^verbatim>\<open>null\<close> in a condition, belong to the library and are parameters.  Primary keys are
  numbers in the model.
\<close>

definition MAX_SESSIONS_PER_WALLET :: nat where "MAX_SESSIONS_PER_WALLET = 3"
definition REFRESH_TOKEN_EXPIRY_DAYS :: int where "REFRESH_TOKEN_EXPIRY_DAYS = 7"
definition MAX_REFRESH_FAMILY_DEPTH :: int where "MAX_REFRESH_FAMILY_DEPTH = 100"

record RefreshToken =
  rt_id :: "nat option"
  rt_tokenHash :: string
  rt_walletAddress :: string
  rt_expiresAt :: int
  rt_revokedAt :: "int option"
  rt_usedAt :: "int option"
  rt_familyId :: string
  rt_depth :: int
  rt_userAgent :: "string option"
  rt_ipAddress :: "string option"
  rt_userId :: int

record AuthSession =
  se_id :: "nat option"
  se_walletAddress :: string
  se_isActive :: bool
  se_userAgent :: "string option"
  se_ipAddress :: "string option"
  se_userId :: int
  se_createdAt :: int

type_synonym token_repo = "(RefreshToken, js_error) repo"
type_synonym session_repo' = "(AuthSession, js_error) repo"

record auth_db =
  db_tokens :: "RefreshToken list"
  db_sessions :: "AuthSession list"
  db_audit :: "(string \<times> js_record) list"

type_synonym 'a auth_act = "(auth_db, js_error, 'a) act"

datatype outcome =
    RInvalid | RReplay RefreshToken | RDepth | ROk string int

text \<open>How a condition \<^verbatim>\<open>column: null\<close> is read: as \<^verbatim>\<open>IS NULL\<close>, as no condition, or as an error.\<close>

datatype null_where = IsNullWhere | NoCondition | ThrowsWhere

record auth_deps =
  a_host :: host
  a_tokens :: token_repo
  a_sessions :: session_repo'
  a_transaction :: "(RefreshToken list, js_error, outcome) act \<Rightarrow> (RefreshToken list, js_error, outcome) act"
  a_null :: null_where

definition on_tokens :: "(RefreshToken list, js_error, 'a) act \<Rightarrow> 'a auth_act" where
  "on_tokens = zoom db_tokens (\<lambda>t s. s\<lparr>db_tokens := t\<rparr>)"

definition on_auth_sessions :: "(AuthSession list, js_error, 'a) act \<Rightarrow> 'a auth_act" where
  "on_auth_sessions = zoom db_sessions (\<lambda>t s. s\<lparr>db_sessions := t\<rparr>)"

definition null_matches :: "null_where \<Rightarrow> 'a option \<Rightarrow> bool" where
  "null_matches nw v = (nw = NoCondition \<or> v = None)"

definition with_null :: "null_where \<Rightarrow> ('s, js_error, 'a) act \<Rightarrow> ('s, js_error, 'a) act" where
  "with_null nw m = (if nw = ThrowsWhere
     then act_throw (JsError ''TypeORMError'' ''Null value encountered in a where condition'' []) else m)"

definition UnauthorizedException :: "string \<Rightarrow> js_error" where
  "UnauthorizedException message = JsError ''UnauthorizedException'' message []"

section \<open>Issuing\<close>

record token_params =
  tp_walletAddress :: string
  tp_userId :: int
  tp_userAgent :: "string option"
  tp_ipAddress :: "string option"
  tp_familyId :: string
  tp_depth :: int

text \<open>\<^verbatim>\<open>rawToken\<close> is the fresh random token; the week is seven days of 24 hours.\<close>

definition issueToken ::
    "host \<Rightarrow> token_repo \<Rightarrow> int \<Rightarrow> string \<Rightarrow> token_params \<Rightarrow> (RefreshToken list, js_error, string \<times> int) act" where
  "issueToken h R now rawToken p =
    (let expiresAt = now + REFRESH_TOKEN_EXPIRY_DAYS * 86400000 in
     act_seq (r_save R \<lparr>rt_id = None, rt_tokenHash = sha256 h rawToken, rt_walletAddress = tp_walletAddress p,
         rt_expiresAt = expiresAt, rt_revokedAt = None, rt_usedAt = None, rt_familyId = tp_familyId p,
         rt_depth = tp_depth p, rt_userAgent = tp_userAgent p, rt_ipAddress = tp_ipAddress p, rt_userId = tp_userId p\<rparr>)
       (act_ret (rawToken, expiresAt)))"

fun deactivate_all :: "session_repo' \<Rightarrow> AuthSession list \<Rightarrow> (AuthSession list, js_error, unit) act" where
  "deactivate_all R [] = act_ret ()"
| "deactivate_all R (session # sessions) =
     act_seq (r_save R (session\<lparr>se_isActive := False\<rparr>)) (deactivate_all R sessions)"

definition enforceConcurrentSessionLimit :: "auth_deps \<Rightarrow> string \<Rightarrow> unit auth_act" where
  "enforceConcurrentSessionLimit D walletAddress =
    act_bind (on_auth_sessions (r_find (a_sessions D) (\<lambda>s. se_walletAddress s = walletAddress \<and> se_isActive s)
        (\<lambda>a b. se_createdAt a > se_createdAt b)))
      (\<lambda>activeSessions. if length activeSessions \<ge> MAX_SESSIONS_PER_WALLET
         then on_auth_sessions (deactivate_all (a_sessions D)
           (take (length activeSessions - MAX_SESSIONS_PER_WALLET + 1) activeSessions))
         else act_ret ())"

definition generateRefreshToken ::
    "auth_deps \<Rightarrow> int \<Rightarrow> string \<Rightarrow> string \<Rightarrow> string \<Rightarrow> int \<Rightarrow> string option \<Rightarrow> string option \<Rightarrow> (string \<times> int) auth_act" where
  "generateRefreshToken D now rawToken uuid walletAddress userId userAgent ipAddress =
    act_bind (on_tokens (issueToken (a_host D) (a_tokens D) now rawToken
        \<lparr>tp_walletAddress = walletAddress, tp_userId = userId, tp_userAgent = userAgent, tp_ipAddress = ipAddress,
         tp_familyId = uuid, tp_depth = 0\<rparr>))
      (\<lambda>issued. act_seq (enforceConcurrentSessionLimit D walletAddress) (act_ret issued))"

section \<open>Checking and revoking\<close>

definition validateRefreshToken :: "auth_deps \<Rightarrow> int \<Rightarrow> string \<Rightarrow> RefreshToken auth_act" where
  "validateRefreshToken D now token =
    act_bind (on_tokens (with_null (a_null D) (r_findOne (a_tokens D) (\<lambda>r. rt_tokenHash r = sha256 (a_host D) token \<and>
        rt_expiresAt r > now \<and> null_matches (a_null D) (rt_revokedAt r)))))
      (\<lambda>found. case found of
          None \<Rightarrow> act_throw (UnauthorizedException ''Invalid or expired refresh token'')
        | Some r \<Rightarrow> act_ret r)"

definition revokeRefreshToken :: "auth_deps \<Rightarrow> int \<Rightarrow> string \<Rightarrow> unit auth_act" where
  "revokeRefreshToken D now token =
    act_seq (on_tokens (r_update (a_tokens D) (\<lambda>r. rt_tokenHash r = sha256 (a_host D) token)
      (\<lambda>r. r\<lparr>rt_revokedAt := Some now\<rparr>))) (act_ret ())"

definition revokeAllRefreshTokens :: "auth_deps \<Rightarrow> int \<Rightarrow> string \<Rightarrow> unit auth_act" where
  "revokeAllRefreshTokens D now walletAddress =
    act_seq (on_tokens (with_null (a_null D) (r_update (a_tokens D)
      (\<lambda>r. rt_walletAddress r = walletAddress \<and> null_matches (a_null D) (rt_revokedAt r))
      (\<lambda>r. r\<lparr>rt_revokedAt := Some now\<rparr>)))) (act_ret ())"

section \<open>Rotation\<close>

text \<open>What the transaction does with the row it found, and the transaction.\<close>

definition rotate_existing ::
    "host \<Rightarrow> token_repo \<Rightarrow> int \<Rightarrow> string \<Rightarrow> string \<Rightarrow> int \<Rightarrow> string option \<Rightarrow> string option \<Rightarrow> RefreshToken \<Rightarrow>
     (RefreshToken list, js_error, outcome) act" where
  "rotate_existing h R now rawToken walletAddress userId userAgent ipAddress e =
    (if rt_usedAt e \<noteq> None then act_ret (RReplay e)
     else if rt_revokedAt e \<noteq> None \<or> rt_expiresAt e \<le> now then act_ret RInvalid
     else if rt_depth e \<ge> MAX_REFRESH_FAMILY_DEPTH then
       act_seq (r_update R (\<lambda>r. rt_familyId r = rt_familyId e \<and> rt_revokedAt r = None)
         (\<lambda>r. r\<lparr>rt_revokedAt := Some now\<rparr>)) (act_ret RDepth)
     else act_bind (r_update R (\<lambda>r. rt_id r = rt_id e \<and> rt_usedAt r = None \<and> rt_revokedAt r = None)
         (\<lambda>r. r\<lparr>rt_usedAt := Some now\<rparr>)) (\<lambda>affected.
       if affected = 0 then act_ret (RReplay e)
       else act_bind (issueToken h R now rawToken \<lparr>tp_walletAddress = walletAddress, tp_userId = userId,
           tp_userAgent = userAgent, tp_ipAddress = ipAddress, tp_familyId = rt_familyId e,
           tp_depth = rt_depth e + 1\<rparr>) (\<lambda>(t, x). act_ret (ROk t x))))"

definition rotation_body ::
    "host \<Rightarrow> token_repo \<Rightarrow> int \<Rightarrow> string \<Rightarrow> string \<Rightarrow> string \<Rightarrow> int \<Rightarrow> string option \<Rightarrow> string option \<Rightarrow>
     (RefreshToken list, js_error, outcome) act" where
  "rotation_body h R now rawToken tokenHash walletAddress userId userAgent ipAddress =
    act_bind (r_findOne R (\<lambda>r. rt_tokenHash r = tokenHash)) (\<lambda>found.
      case found of
        None \<Rightarrow> act_ret RInvalid
      | Some e \<Rightarrow> rotate_existing h R now rawToken walletAddress userId userAgent ipAddress e)"

definition rotateRefreshToken ::
    "auth_deps \<Rightarrow> int \<Rightarrow> string \<Rightarrow> string \<Rightarrow> string \<Rightarrow> int \<Rightarrow> string option \<Rightarrow> string option \<Rightarrow> (string \<times> int) auth_act" where
  "rotateRefreshToken D now rawToken oldToken walletAddress userId userAgent ipAddress =
    act_bind (on_tokens (a_transaction D (rotation_body (a_host D) (a_tokens D) now rawToken
        (sha256 (a_host D) oldToken) walletAddress userId userAgent ipAddress)))
      (\<lambda>res. case res of
          ROk t x \<Rightarrow> act_seq (enforceConcurrentSessionLimit D walletAddress) (act_ret (t, x))
        | RReplay e \<Rightarrow>
            act_seq (revokeAllRefreshTokens D now (rt_walletAddress e))
              (act_seq (act_modify (\<lambda>s. s\<lparr>db_audit := db_audit s @ [(''AUTH_REFRESH_REPLAY_DETECTED'',
                  [(''walletAddress'', Str (rt_walletAddress e)), (''ipAddress'', opt_str ipAddress),
                   (''userAgent'', opt_str userAgent),
                   (''metadata'', Obj [(''userId'', Num (num userId)), (''familyId'', Str (rt_familyId e)),
                      (''tokenId'', opt_num (map_option (\<lambda>i. num (int i)) (rt_id e))),
                      (''depth'', Num (num (rt_depth e)))])])]\<rparr>))
                (act_throw (UnauthorizedException ''Refresh token reuse detected; all sessions revoked'')))
        | RDepth \<Rightarrow> act_throw (UnauthorizedException ''Refresh token family depth exceeded; please sign in again'')
        | RInvalid \<Rightarrow> act_throw (UnauthorizedException ''Token already revoked or invalid''))"

section \<open>Sessions\<close>

definition getActiveSessions :: "auth_deps \<Rightarrow> string \<Rightarrow> AuthSession list auth_act" where
  "getActiveSessions D walletAddress = on_auth_sessions (r_find (a_sessions D)
     (\<lambda>s. se_walletAddress s = walletAddress \<and> se_isActive s) (\<lambda>a b. se_createdAt a < se_createdAt b))"

text \<open>The creation date and the default of the active flag are filled in with the row.\<close>

definition createSession ::
    "auth_deps \<Rightarrow> int \<Rightarrow> string \<Rightarrow> int \<Rightarrow> string option \<Rightarrow> string option \<Rightarrow> AuthSession auth_act" where
  "createSession D now walletAddress userId userAgent ipAddress =
     on_auth_sessions (r_save (a_sessions D) \<lparr>se_id = None, se_walletAddress = walletAddress, se_isActive = True,
       se_userAgent = userAgent, se_ipAddress = ipAddress, se_userId = userId, se_createdAt = now\<rparr>)"

definition invalidateSession :: "auth_deps \<Rightarrow> nat \<Rightarrow> unit auth_act" where
  "invalidateSession D sessionId = act_seq (on_auth_sessions (r_update (a_sessions D)
     (\<lambda>s. se_id s = Some sessionId) (\<lambda>s. s\<lparr>se_isActive := False\<rparr>))) (act_ret ())"

section \<open>What the library promises\<close>

text \<open>A transaction is all or nothing: it commits what its body did, or throws and changes nothing.\<close>

definition transaction_ok ::
    "((RefreshToken list, js_error, outcome) act \<Rightarrow> (RefreshToken list, js_error, outcome) act) \<Rightarrow> bool" where
  "transaction_ok T \<longleftrightarrow> (\<forall>m t. (\<exists>e. T m t = (Inl e, t)) \<or> (\<exists>a t'. m t = (Inr a, t') \<and> T m t = (Inr a, t')))"

abbreviation rt_body :: "RefreshToken \<Rightarrow> RefreshToken" where
  "rt_body r \<equiv> r\<lparr>rt_id := None\<rparr>"

abbreviation se_body :: "AuthSession \<Rightarrow> AuthSession" where
  "se_body r \<equiv> r\<lparr>se_id := None\<rparr>"

definition auth_deps_ok :: "auth_deps \<Rightarrow> bool" where
  "auth_deps_ok D \<longleftrightarrow> repo_ok rt_id rt_body (a_tokens D) \<and> repo_ok se_id se_body (a_sessions D) \<and>
     transaction_ok (a_transaction D)"

lemma on_tokensD: "on_tokens m s = (r, s') \<Longrightarrow> \<exists>t. m (db_tokens s) = (r, t) \<and> s' = s\<lparr>db_tokens := t\<rparr>"
  unfolding on_tokens_def by (drule zoomD) blast

lemma on_sessionsD: "on_auth_sessions m s = (r, s') \<Longrightarrow> \<exists>t. m (db_sessions s) = (r, t) \<and> s' = s\<lparr>db_sessions := t\<rparr>"
  unfolding on_auth_sessions_def by (drule zoomD) blast

section \<open>Families\<close>

text \<open>
  The invariant of the token table: keys are assigned and distinct, the depth of a token is
  within the bound, and a family has at most one token that has not been exchanged.
\<close>

definition unused :: "string \<Rightarrow> RefreshToken \<Rightarrow> bool" where
  "unused f r \<longleftrightarrow> rt_familyId r = f \<and> rt_usedAt r = None"

definition families_ok :: "RefreshToken list \<Rightarrow> bool" where
  "families_ok t \<longleftrightarrow> (\<forall>r \<in> set t. rt_id r \<noteq> None \<and> 0 \<le> rt_depth r \<and> rt_depth r \<le> MAX_REFRESH_FAMILY_DEPTH) \<and>
     (\<forall>r \<in> set t. \<forall>r' \<in> set t. (rt_id r = rt_id r' \<longrightarrow> r = r') \<and>
        (rt_familyId r = rt_familyId r' \<longrightarrow> rt_usedAt r = None \<longrightarrow> rt_usedAt r' = None \<longrightarrow> r = r'))"

lemma families_okD:
  assumes "families_ok t" "r \<in> set t"
  shows "rt_id r \<noteq> None" "0 \<le> rt_depth r" "rt_depth r \<le> MAX_REFRESH_FAMILY_DEPTH"
    "r' \<in> set t \<Longrightarrow> rt_id r = rt_id r' \<Longrightarrow> r = r'"
    "r' \<in> set t \<Longrightarrow> rt_familyId r = rt_familyId r' \<Longrightarrow> rt_usedAt r = None \<Longrightarrow> rt_usedAt r' = None \<Longrightarrow> r = r'"
  using assms by (simp_all add: families_ok_def)

text \<open>Setting the revocation date of some tokens keeps it.\<close>

lemma families_ok_revoke:
  assumes "families_ok t" "set t' = (\<lambda>r. if P r then r\<lparr>rt_revokedAt := x\<rparr> else r) ` set t"
  shows "families_ok t'"
proof -
  let ?f = "\<lambda>r. if P r then r\<lparr>rt_revokedAt := x\<rparr> else r"
  have same: "rt_id (?f r) = rt_id r" "rt_depth (?f r) = rt_depth r" "rt_familyId (?f r) = rt_familyId r"
    "rt_usedAt (?f r) = rt_usedAt r" for r by auto
  note F = families_okD [OF assms(1)]
  show ?thesis
    unfolding families_ok_def assms(2) Ball_image_comp comp_def same
  proof (intro conjI ballI impI)
    fix r assume r: "r \<in> set t"
    show "rt_id r \<noteq> None" "0 \<le> rt_depth r" "rt_depth r \<le> MAX_REFRESH_FAMILY_DEPTH" using F(1-3) [OF r] by auto
    fix r' assume r': "r' \<in> set t"
    show "?f r = ?f r'" if "rt_id r = rt_id r'" using F(4) [OF r r' that] by simp
    show "?f r = ?f r'" if "rt_familyId r = rt_familyId r'" "rt_usedAt r = None" "rt_usedAt r' = None"
      using F(5) [OF r r' that] by simp
  qed
qed

text \<open>The claim of a rotation, followed by the successor in the same family, keeps it too.\<close>

lemma families_ok_rotate:
  assumes ok: "families_ok t" and e: "e \<in> set t" "rt_usedAt e = None" "rt_depth e < MAX_REFRESH_FAMILY_DEPTH"
    and t1: "set t1 = (\<lambda>r. if rt_id r = rt_id e \<and> Q r then r\<lparr>rt_usedAt := Some now\<rparr> else r) ` set t" and q: "Q e"
    and n: "rt_id n \<noteq> None" "rt_id n \<notin> rt_id ` set t1" "rt_familyId n = rt_familyId e" "rt_depth n = rt_depth e + 1"
    and t2: "set t2 = insert n (set t1)"
  shows "families_ok t2"
proof -
  note F = families_okD [OF ok]
  have mem: "\<exists>r0 \<in> set t. r = (if r0 = e then e\<lparr>rt_usedAt := Some now\<rparr> else r0)" if m: "r \<in> set t1" for r
  proof -
    obtain r0 where r0: "r0 \<in> set t" "r = (if rt_id r0 = rt_id e \<and> Q r0 then r0\<lparr>rt_usedAt := Some now\<rparr> else r0)"
      using m unfolding t1 image_iff by blast
    show ?thesis using r0 F(4) [OF r0(1) e(1)] q by (intro bexI [of _ r0]) auto
  qed
  have one: "rt_familyId r \<noteq> rt_familyId e \<or> rt_usedAt r \<noteq> None" if "r \<in> set t1" for r
    using mem [OF that] F(5) [OF _ e(1) _ _ e(2)] by (auto split: if_splits)
  have old: "rt_id r \<noteq> None \<and> 0 \<le> rt_depth r \<and> rt_depth r \<le> MAX_REFRESH_FAMILY_DEPTH" if "r \<in> set t1" for r
    using mem [OF that] F(1-3) by (auto split: if_splits)
  have inj: "r = r'" if "r \<in> set t1" "r' \<in> set t1" "rt_id r = rt_id r'" for r r'
    using mem [OF that(1)] mem [OF that(2)] F(4) that(3) e(1) by (auto split: if_splits)
  have fam: "r = r'" if "r \<in> set t1" "r' \<in> set t1" "rt_familyId r = rt_familyId r'" "rt_usedAt r = None" "rt_usedAt r' = None" for r r'
    using mem [OF that(1)] mem [OF that(2)] F(5) that(3-) by (auto split: if_splits)
  have nin: "rt_id r \<noteq> rt_id n" "rt_id n \<noteq> rt_id r" if "r \<in> set t1" for r
    using n(2) that by (metis imageI)+
  have ne: "0 \<le> rt_depth n" "rt_depth n \<le> MAX_REFRESH_FAMILY_DEPTH"
    using n(4) F(2) [OF e(1)] e(3) by simp_all
  show ?thesis
    unfolding families_ok_def t2
  proof (intro conjI ballI impI)
    fix r assume r: "r \<in> insert n (set t1)"
    show "rt_id r \<noteq> None" "0 \<le> rt_depth r" "rt_depth r \<le> MAX_REFRESH_FAMILY_DEPTH"
      using r old n(1) ne by auto
    fix r' assume r': "r' \<in> insert n (set t1)"
    show "r = r'" if "rt_id r = rt_id r'" using r r' that inj nin by blast
    show "r = r'" if "rt_familyId r = rt_familyId r'" "rt_usedAt r = None" "rt_usedAt r' = None"
      using r r' that fam one n(3) by (metis insertE)
  qed
qed

lemma families_ok_new:
  assumes ok: "families_ok t" and f: "\<forall>r \<in> set t. rt_familyId r \<noteq> rt_familyId n"
    and n: "rt_id n \<noteq> None" "rt_id n \<notin> rt_id ` set t" "rt_depth n = 0"
    and t': "set t' = insert n (set t)"
  shows "families_ok t'"
proof -
  have "rt_id r \<noteq> rt_id n" "rt_id n \<noteq> rt_id r" if "r \<in> set t" for r using n(2) that by (metis imageI)+
  then show ?thesis
    using ok f n(1,3) unfolding families_ok_def t' by (auto simp: MAX_REFRESH_FAMILY_DEPTH_def)
qed

section \<open>What the methods do to the table\<close>

lemma issue_table:
  assumes ok: "repo_ok rt_id rt_body R" and run: "issueToken h R now raw p t = (r, t')"
  shows "(\<exists>x. r = Inl x) \<and> t' = t \<or> (\<exists>n. rt_id n \<noteq> None \<and> rt_id n \<notin> rt_id ` set t \<and> set t' = insert n (set t) \<and>
    rt_familyId n = tp_familyId p \<and> rt_depth n = tp_depth p \<and> rt_usedAt n = None \<and> rt_revokedAt n = None \<and>
    rt_walletAddress n = tp_walletAddress p \<and> rt_tokenHash n = sha256 h raw \<and>
    r = Inr (raw, now + REFRESH_TOKEN_EXPIRY_DAYS * 86400000))"
proof -
  define e where "e = \<lparr>rt_id = None, rt_tokenHash = sha256 h raw, rt_walletAddress = tp_walletAddress p,
         rt_expiresAt = now + REFRESH_TOKEN_EXPIRY_DAYS * 86400000, rt_revokedAt = None, rt_usedAt = None, rt_familyId = tp_familyId p,
         rt_depth = tp_depth p, rt_userAgent = tp_userAgent p, rt_ipAddress = tp_ipAddress p, rt_userId = tp_userId p\<rparr>"
  obtain q t1 where s: "r_save R e t = (q, t1)" by fastforce
  have run': "(case q of Inl x \<Rightarrow> (Inl x, t1) | Inr _ \<Rightarrow> (Inr (raw, now + REFRESH_TOKEN_EXPIRY_DAYS * 86400000), t1)) = (r, t')"
    using run s by (cases q) (simp_all add: issueToken_def act_defs Let_def e_def)
  show ?thesis
  proof (cases q)
    case (Inl x)
    then show ?thesis using run' save_throws [OF ok] s by auto
  next
    case (Inr n)
    note S = save_returns [OF ok s [unfolded Inr]]
    have nb: "rt_body n = rt_body e" using S(1) by simp
    have "rt_familyId n = rt_familyId e" "rt_depth n = rt_depth e" "rt_usedAt n = rt_usedAt e"
      "rt_revokedAt n = rt_revokedAt e" "rt_walletAddress n = rt_walletAddress e" "rt_tokenHash n = rt_tokenHash e"
      using nb by (cases n; cases e; simp)+
    moreover have "rt_id e = None" by (simp add: e_def)
    ultimately show ?thesis
      using run' Inr S(2,4) save_new_set [OF ok s [unfolded Inr]] by (intro disjI2 exI [of _ n]) (auto simp: e_def)
  qed
qed

text \<open>A rotation's transaction, step by step, whatever it answers.\<close>

lemma rotation_families:
  assumes ok: "repo_ok rt_id rt_body R" and wf: "families_ok t"
    and run: "rotation_body h R now raw th w u ua ip t = (Inr a, t')"
  shows "families_ok t'"
proof -
  obtain found where f: "r_findOne R (\<lambda>r. rt_tokenHash r = th) t = (Inr found, t)"
    and r: "(case found of None \<Rightarrow> act_ret RInvalid | Some e \<Rightarrow> rotate_existing h R now raw w u ua ip e) t = (Inr a, t')"
    using run findOne_same [OF ok] unfolding rotation_body_def act_bind_returns by fastforce
  show ?thesis
  proof (cases found)
    case None
    then show ?thesis using r wf by (simp add: act_ret_def)
  next
    case (Some e)
    have e: "e \<in> set t" using findOne_Some [OF ok f [unfolded Some]] by blast
    have R: "rotate_existing h R now raw w u ua ip e t = (Inr a, t')" using r Some by simp
    show ?thesis
    proof (cases "rt_usedAt e \<noteq> None \<or> (rt_revokedAt e \<noteq> None \<or> rt_expiresAt e \<le> now)")
      case True
      then show ?thesis using R wf by (auto simp: rotate_existing_def act_ret_def split: if_splits)
    next
      case valid: False
      show ?thesis
      proof (cases "rt_depth e \<ge> MAX_REFRESH_FAMILY_DEPTH")
        case True
        have "\<exists>n. r_update R (\<lambda>r. rt_familyId r = rt_familyId e \<and> rt_revokedAt r = None)
            (\<lambda>r. r\<lparr>rt_revokedAt := Some now\<rparr>) t = (Inr n, t')"
          using R valid True by (auto simp: rotate_existing_def act_seq_def act_bind_returns act_ret_def)
        then show ?thesis using update_set [OF ok] by (elim exE) (rule families_ok_revoke [OF wf])
      next
        case False
        let ?claim = "r_update R (\<lambda>r. rt_id r = rt_id e \<and> rt_usedAt r = None \<and> rt_revokedAt r = None) (\<lambda>r. r\<lparr>rt_usedAt := Some now\<rparr>)"
        let ?p = "\<lparr>tp_walletAddress = w, tp_userId = u, tp_userAgent = ua, tp_ipAddress = ip, tp_familyId = rt_familyId e, tp_depth = rt_depth e + 1\<rparr>"
        obtain n t1 where c: "?claim t = (Inr n, t1)"
            "(if n = 0 then act_ret (RReplay e) else act_bind (issueToken h R now raw ?p) (\<lambda>(tk, x). act_ret (ROk tk x))) t1 = (Inr a, t')"
          using R valid False by (auto simp: rotate_existing_def act_bind_returns)
        note u = update_mset [OF ok c(1)] update_set [OF ok c(1)]
        have "n \<noteq> 0"
        proof
          assume "n = 0"
          then have "filter (\<lambda>r. rt_id r = rt_id e \<and> rt_usedAt r = None \<and> rt_revokedAt r = None) t = []" using u(1) by simp
          then show False using e valid by (auto simp: filter_empty_conv)
        qed
        then obtain x where i: "issueToken h R now raw ?p t1 = (Inr x, t')"
          using c(2) by (auto simp: act_bind_returns act_ret_def)
        then obtain m where m: "rt_id m \<noteq> None" "rt_id m \<notin> rt_id ` set t1" "set t' = insert m (set t1)"
          "rt_familyId m = rt_familyId e" "rt_depth m = rt_depth e + 1"
          using issue_table [OF ok i] by auto
        show ?thesis
          using families_ok_rotate [OF wf e _ _ _ _ m(1,2,4,5,3), of "\<lambda>r. rt_usedAt r = None \<and> rt_revokedAt r = None" now]
            u(2) valid False by simp
      qed
    qed
  qed
qed

section \<open>The table over time\<close>

lemma sessions_only:
  "enforceConcurrentSessionLimit D w s = (r, s') \<Longrightarrow> db_tokens s' = db_tokens s"
  unfolding enforceConcurrentSessionLimit_def
  by (auto simp: act_defs on_auth_sessions_def zoom_def split: prod.splits sum.splits if_splits)

lemma revokeAll_table:
  assumes ok: "repo_ok rt_id rt_body (a_tokens D)" and run: "revokeAllRefreshTokens D now w s = (r, s')"
  shows "db_tokens s' = db_tokens s \<and> r \<noteq> Inr () \<or>
    r = Inr () \<and> a_null D \<noteq> ThrowsWhere \<and> set (db_tokens s') = (\<lambda>t. if rt_walletAddress t = w \<and> null_matches (a_null D) (rt_revokedAt t)
       then t\<lparr>rt_revokedAt := Some now\<rparr> else t) ` set (db_tokens s)"
proof (cases "a_null D = ThrowsWhere")
  case True
  then show ?thesis using run
    by (auto simp: revokeAllRefreshTokens_def with_null_def act_defs on_tokens_def)
next
  case False
  let ?P = "\<lambda>t. rt_walletAddress t = w \<and> null_matches (a_null D) (rt_revokedAt t)"
  obtain q t1 where u: "r_update (a_tokens D) ?P (\<lambda>r. r\<lparr>rt_revokedAt := Some now\<rparr>) (db_tokens s) = (q, t1)" by fastforce
  then have run': "r = (case q of Inl x \<Rightarrow> Inl x | Inr _ \<Rightarrow> Inr ())" "s' = s\<lparr>db_tokens := t1\<rparr>"
    using run False by (auto simp: revokeAllRefreshTokens_def with_null_def act_defs on_tokens_def split: sum.splits)
  show ?thesis
  proof (cases q)
    case (Inl x)
    then show ?thesis using run' u update_throws [OF ok] by auto
  next
    case (Inr n)
    then show ?thesis using run' update_set [OF ok u [unfolded Inr]] False by simp
  qed
qed

lemma revoke_table:
  assumes ok: "repo_ok rt_id rt_body (a_tokens D)" and run: "revokeRefreshToken D now tok s = (r, s')"
  shows "db_tokens s' = db_tokens s \<or> set (db_tokens s') = (\<lambda>t. if rt_tokenHash t = sha256 (a_host D) tok
       then t\<lparr>rt_revokedAt := Some now\<rparr> else t) ` set (db_tokens s)"
proof -
  let ?P = "\<lambda>t. rt_tokenHash t = sha256 (a_host D) tok"
  obtain q t1 where u: "r_update (a_tokens D) ?P (\<lambda>r. r\<lparr>rt_revokedAt := Some now\<rparr>) (db_tokens s) = (q, t1)" by fastforce
  then have s': "s' = s\<lparr>db_tokens := t1\<rparr>"
    using run by (auto simp: revokeRefreshToken_def act_defs on_tokens_def split: sum.splits)
  show ?thesis
  proof (cases q)
    case (Inl x)
    then show ?thesis using s' u update_throws [OF ok] by auto
  next
    case (Inr n)
    then show ?thesis using s' update_set [OF ok u [unfolded Inr]] by simp
  qed
qed

lemma revokeAll_families:
  assumes ok: "repo_ok rt_id rt_body (a_tokens D)" and wf: "families_ok (db_tokens s)"
    and run: "revokeAllRefreshTokens D now w s = (r, s')"
  shows "families_ok (db_tokens s')"
  using revokeAll_table [OF ok run] wf by (elim disjE conjE) (simp, erule (1) families_ok_revoke)

lemma revoke_families:
  assumes ok: "repo_ok rt_id rt_body (a_tokens D)" and wf: "families_ok (db_tokens s)"
    and run: "revokeRefreshToken D now tok s = (r, s')"
  shows "families_ok (db_tokens s')"
  using revoke_table [OF ok run] wf by (elim disjE) (simp, erule (1) families_ok_revoke)

lemma rotate_table:
  assumes D: "auth_deps_ok D" and wf: "families_ok (db_tokens s)"
    and run: "rotateRefreshToken D now raw old w u ua ip s = (r, s')"
  shows "families_ok (db_tokens s')"
proof -
  have ok: "repo_ok rt_id rt_body (a_tokens D)" and T: "transaction_ok (a_transaction D)"
    using D by (simp_all add: auth_deps_ok_def)
  let ?m = "rotation_body (a_host D) (a_tokens D) now raw (sha256 (a_host D) old) w u ua ip"
  obtain q t1 where t: "a_transaction D ?m (db_tokens s) = (q, t1)" by fastforce
  then have o: "on_tokens (a_transaction D ?m) s = (q, s\<lparr>db_tokens := t1\<rparr>)"
    by (simp add: on_tokens_def zoom_def)
  have wf1: "families_ok t1"
    using T [unfolded transaction_ok_def, rule_format, of ?m "db_tokens s"] t wf rotation_families [OF ok wf] by auto
  show ?thesis
  proof (cases q)
    case (Inl x)
    then show ?thesis using run o wf1 by (auto simp: rotateRefreshToken_def act_defs)
  next
    case (Inr out)
    show ?thesis
    proof (cases out)
      case (ROk tk x)
      then obtain c s2 where "enforceConcurrentSessionLimit D w (s\<lparr>db_tokens := t1\<rparr>) = (c, s2)" "db_tokens s' = db_tokens s2"
        using run o Inr by (auto simp: rotateRefreshToken_def act_defs split: prod.splits sum.splits)
      then show ?thesis using sessions_only wf1 by fastforce
    next
      case (RReplay e)
      obtain c s2 where c: "revokeAllRefreshTokens D now (rt_walletAddress e) (s\<lparr>db_tokens := t1\<rparr>) = (c, s2)" by fastforce
      then have "db_tokens s' = db_tokens s2"
        using run o Inr RReplay by (auto simp: rotateRefreshToken_def act_defs split: sum.splits)
      then show ?thesis using revokeAll_families [OF ok _ c] wf1 by simp
    qed (use run o Inr wf1 in \<open>auto simp: rotateRefreshToken_def act_defs\<close>)
  qed
qed

lemma generate_table:
  assumes D: "auth_deps_ok D" and wf: "families_ok (db_tokens s)"
    and fresh: "uuid \<notin> rt_familyId ` set (db_tokens s)"
    and run: "generateRefreshToken D now raw uuid w u ua ip s = (r, s')"
  shows "families_ok (db_tokens s')"
proof -
  have ok: "repo_ok rt_id rt_body (a_tokens D)" using D by (simp add: auth_deps_ok_def)
  let ?p = "\<lparr>tp_walletAddress = w, tp_userId = u, tp_userAgent = ua, tp_ipAddress = ip, tp_familyId = uuid, tp_depth = 0\<rparr>"
  obtain q t1 where i: "issueToken (a_host D) (a_tokens D) now raw ?p (db_tokens s) = (q, t1)" by fastforce
  have wf1: "families_ok t1"
    using issue_table [OF ok i]
  proof
    assume "(\<exists>x. q = Inl x) \<and> t1 = db_tokens s"
    then show ?thesis using wf by simp
  next
    assume "\<exists>n. rt_id n \<noteq> None \<and> rt_id n \<notin> rt_id ` set (db_tokens s) \<and> set t1 = insert n (set (db_tokens s)) \<and>
      rt_familyId n = tp_familyId ?p \<and> rt_depth n = tp_depth ?p \<and> rt_usedAt n = None \<and> rt_revokedAt n = None \<and>
      rt_walletAddress n = tp_walletAddress ?p \<and> rt_tokenHash n = sha256 (a_host D) raw \<and>
      q = Inr (raw, now + REFRESH_TOKEN_EXPIRY_DAYS * 86400000)"
    then obtain n where "rt_id n \<noteq> None" "rt_id n \<notin> rt_id ` set (db_tokens s)" "set t1 = insert n (set (db_tokens s))"
      "rt_familyId n = uuid" "rt_depth n = 0" by auto
    moreover have "\<forall>r \<in> set (db_tokens s). rt_familyId r \<noteq> uuid" using fresh by (metis imageI)
    ultimately show ?thesis using families_ok_new [OF wf] by auto
  qed
  have "db_tokens s' = t1"
    using run i sessions_only [of D w "s\<lparr>db_tokens := t1\<rparr>"]
    by (auto simp: generateRefreshToken_def on_tokens_def act_defs split: sum.splits prod.splits)
  then show ?thesis using wf1 by simp
qed

text \<open>
  A state the service can reach from an empty database: tokens are generated with a new family
  identifier and rotated or revoked in any order, each call returning or throwing.
\<close>

inductive token_reach :: "auth_deps \<Rightarrow> auth_db \<Rightarrow> bool" for D where
  start: "db_tokens s = [] \<Longrightarrow> token_reach D s"
| generate: "token_reach D s \<Longrightarrow> uuid \<notin> rt_familyId ` set (db_tokens s) \<Longrightarrow>
     generateRefreshToken D now raw uuid w u ua ip s = (r, s') \<Longrightarrow> token_reach D s'"
| rotate: "token_reach D s \<Longrightarrow> rotateRefreshToken D now raw old w u ua ip s = (r, s') \<Longrightarrow> token_reach D s'"
| revoke: "token_reach D s \<Longrightarrow> revokeRefreshToken D now tok s = (r, s') \<Longrightarrow> token_reach D s'"
| revoke_all: "token_reach D s \<Longrightarrow> revokeAllRefreshTokens D now w s = (r', s') \<Longrightarrow> token_reach D s'"

lemma token_reach_families:
  assumes D: "auth_deps_ok D"
  shows "token_reach D s \<Longrightarrow> families_ok (db_tokens s)"
proof (induction rule: token_reach.induct)
  case (start s)
  then show ?case by (simp add: families_ok_def)
next
  case (generate s uuid now raw w u ua ip r s')
  then show ?case using generate_table [OF D] by blast
next
  case (rotate s now raw old w u ua ip r s')
  then show ?case using rotate_table [OF D] by blast
next
  case (revoke s now tok r s')
  then show ?case using revoke_families D unfolding auth_deps_ok_def by blast
next
  case (revoke_all s now w r' s')
  then show ?case using revokeAll_families D unfolding auth_deps_ok_def by blast
qed

section \<open>Properties\<close>

text \<open>
  C5: whatever sequence of logins, rotations and revocations the service went through, every
  family of refresh tokens has at most one token that can still be exchanged, and no token is
  deeper than the bound.
\<close>

theorem one_unused_token_per_family:
  assumes "auth_deps_ok D" "token_reach D s"
    and "r \<in> set (db_tokens s)" "r' \<in> set (db_tokens s)" "rt_familyId r = rt_familyId r'"
    and "rt_usedAt r = None" "rt_usedAt r' = None"
  shows "r = r' \<and> 0 \<le> rt_depth r \<and> rt_depth r \<le> MAX_REFRESH_FAMILY_DEPTH"
  using families_okD [OF token_reach_families [OF assms(1,2)]] assms(3-) by blast

text \<open>A library that meets its promises, for concrete runs.\<close>

definition plain_transaction ::
    "(RefreshToken list, js_error, outcome) act \<Rightarrow> (RefreshToken list, js_error, outcome) act" where
  "plain_transaction m t = (case m t of (Inl e, _) \<Rightarrow> (Inl e, t) | (Inr a, t') \<Rightarrow> (Inr a, t'))"

definition plain_auth :: auth_deps where
  "plain_auth = \<lparr>a_host = plain_host, a_tokens = mem_repo rt_id (\<lambda>i r. r\<lparr>rt_id := Some i\<rparr>),
     a_sessions = mem_repo se_id (\<lambda>i r. r\<lparr>se_id := Some i\<rparr>), a_transaction = plain_transaction, a_null = IsNullWhere\<rparr>"

lemma plain_auth_ok: "auth_deps_ok plain_auth"
proof -
  have "transaction_ok plain_transaction"
    by (auto simp: transaction_ok_def plain_transaction_def split: prod.splits sum.splits)
  then show ?thesis by (simp add: auth_deps_ok_def plain_auth_def mem_repo_ok)
qed

text \<open>A login and a rotation at 1000, starting from nothing.\<close>

definition one_login :: auth_db where
  "one_login = snd (generateRefreshToken plain_auth 1000 ''t0'' ''fam'' ''w'' 1 None None \<lparr>db_tokens = [], db_sessions = [], db_audit = []\<rparr>)"

definition one_rotation :: auth_db where
  "one_rotation = snd (rotateRefreshToken plain_auth 1000 ''t1'' ''t0'' ''w'' 1 None None one_login)"

lemma one_rotation_reached: "token_reach plain_auth one_rotation"
proof -
  let ?s0 = "\<lparr>db_tokens = [], db_sessions = [], db_audit = []\<rparr>"
  have "token_reach plain_auth ?s0" by (rule token_reach.start) simp
  then have "token_reach plain_auth one_login"
    unfolding one_login_def by (rule token_reach.generate [where uuid = "''fam''"]) (auto simp: prod_eq_iff)
  then show ?thesis
    unfolding one_rotation_def by (rule token_reach.rotate) (auto simp: prod_eq_iff)
qed

lemma one_rotation_tokens:
  "map (\<lambda>r. (rt_tokenHash r, rt_familyId r, rt_usedAt r, rt_depth r)) (db_tokens one_rotation) =
     [(''t0'', ''fam'', Some 1000, 0), (''t1'', ''fam'', None, 1)]"
  by code_simp

theorem one_unused_token_per_family_witness:
  "\<exists>r \<in> set (db_tokens one_rotation). rt_usedAt r = None \<and> rt_depth r \<le> MAX_REFRESH_FAMILY_DEPTH"
proof -
  have "(''t1'', ''fam'', None, 1) \<in> (\<lambda>r. (rt_tokenHash r, rt_familyId r, rt_usedAt r, rt_depth r)) ` set (db_tokens one_rotation)"
    unfolding set_map [symmetric] one_rotation_tokens by simp
  then obtain r where r: "r \<in> set (db_tokens one_rotation)" "rt_usedAt r = None" by auto
  then show ?thesis
    using one_unused_token_per_family [OF plain_auth_ok one_rotation_reached r(1) r(1) refl r(2) r(2)] by blast
qed

section \<open>The session limit\<close>









section \<open>Replay\<close>

text \<open>
  C13: presenting a refresh token that was already exchanged issues no token.  When the mapper reads
  the null condition of the revocation as \<^verbatim>\<open>IS NULL\<close> or as no condition, the call is answered with
  the reuse error, recorded in the audit trail, and every token of the wallet is revoked, the
  others left as they were.  When it refuses a null there, which is the default of the pinned
  version, the call fails with the mapper's error: no token is revoked and nothing is recorded.
\<close>

theorem replay_revokes_wallet:
  assumes "auth_deps_ok D" "repo_reliable (a_tokens D)"
    and commit: "\<And>m t a t'. m t = (Inr a, t') \<Longrightarrow> a_transaction D m t = (Inr a, t')"
    and e: "e \<in> set (db_tokens s)" "rt_tokenHash e = sha256 (a_host D) old" "rt_usedAt e \<noteq> None"
    and uniq: "\<forall>r \<in> set (db_tokens s). rt_tokenHash r = rt_tokenHash e \<longrightarrow> r = e"
  shows "\<exists>x s'. rotateRefreshToken D now raw old w u ua ip s = (Inl x, s') \<and> db_sessions s' = db_sessions s \<and>
    rt_tokenHash ` set (db_tokens s') = rt_tokenHash ` set (db_tokens s) \<and>
    (if a_null D = ThrowsWhere then err_name x = ''TypeORMError'' \<and> s' = s
     else x = UnauthorizedException ''Refresh token reuse detected; all sessions revoked'' \<and>
       (\<forall>r \<in> set (db_tokens s'). rt_walletAddress r = rt_walletAddress e \<longrightarrow> rt_revokedAt r \<noteq> None) \<and>
       {r \<in> set (db_tokens s'). rt_walletAddress r \<noteq> rt_walletAddress e} = {r \<in> set (db_tokens s). rt_walletAddress r \<noteq> rt_walletAddress e} \<and>
       (\<exists>c. db_audit s' = db_audit s @ [(''AUTH_REFRESH_REPLAY_DETECTED'', c)]))"
proof -
  have ok: "repo_ok rt_id rt_body (a_tokens D)" using assms(1) by (simp add: auth_deps_ok_def)
  let ?th = "sha256 (a_host D) old"
  obtain x t' where f0: "r_findOne (a_tokens D) (\<lambda>r. rt_tokenHash r = ?th) (db_tokens s) = (Inr x, t')"
    using assms(2) by (rule reliable_findOne)
  note f = f0 [unfolded findOne_same [OF ok f0]]
  have x: "x = Some e"
  proof (cases x)
    case None
    then show ?thesis using findOne_None [OF ok f [unfolded None]] e by blast
  next
    case (Some r)
    have "r \<in> set (db_tokens s)" "rt_tokenHash r = ?th" using findOne_Some [OF ok f [unfolded Some]] by blast+
    then have "r = e" using e(2) uniq by metis
    then show ?thesis using Some by simp
  qed
  let ?m = "rotation_body (a_host D) (a_tokens D) now raw ?th w u ua ip"
  have "?m (db_tokens s) = (Inr (RReplay e), db_tokens s)"
    using f x e(3) by (simp add: rotation_body_def rotate_existing_def act_ret_def)
  then have T: "on_tokens (a_transaction D ?m) s = (Inr (RReplay e), s)"
    using commit by (simp add: on_tokens_def zoom_def)
  let ?P = "\<lambda>t. rt_walletAddress t = rt_walletAddress e \<and> null_matches (a_null D) (rt_revokedAt t)"
  show ?thesis
  proof (cases "a_null D = ThrowsWhere")
    case True
    then have "revokeAllRefreshTokens D now (rt_walletAddress e) s =
        (Inl (JsError ''TypeORMError'' ''Null value encountered in a where condition'' []), s)"
      by (simp add: revokeAllRefreshTokens_def with_null_def act_defs on_tokens_def)
    then show ?thesis using T True by (simp add: rotateRefreshToken_def act_seq_def)
  next
    case False
    obtain n t1 where u: "r_update (a_tokens D) ?P (\<lambda>r. r\<lparr>rt_revokedAt := Some now\<rparr>) (db_tokens s) = (Inr n, t1)"
      using assms(2) by (rule reliable_update)
    then have R: "revokeAllRefreshTokens D now (rt_walletAddress e) s = (Inr (), s\<lparr>db_tokens := t1\<rparr>)"
      using False by (simp add: revokeAllRefreshTokens_def with_null_def act_defs on_tokens_def)
    note t1 = update_set [OF ok u]
    have "\<forall>r \<in> set t1. rt_walletAddress r = rt_walletAddress e \<longrightarrow> rt_revokedAt r \<noteq> None"
      unfolding t1 by (auto simp: null_matches_def)
    moreover have "rt_tokenHash ` set t1 = rt_tokenHash ` set (db_tokens s)" unfolding t1 image_image by (rule image_cong) simp_all
    moreover have "{r \<in> set t1. rt_walletAddress r \<noteq> rt_walletAddress e} = {r \<in> set (db_tokens s). rt_walletAddress r \<noteq> rt_walletAddress e}"
      unfolding t1 by (auto simp: image_iff split: if_splits)
    ultimately show ?thesis
      using T R False by (auto simp: rotateRefreshToken_def act_seq_def act_modify_def act_throw_def)
  qed
qed

theorem replay_revokes_wallet_witness:
  "\<exists>s'. rotateRefreshToken plain_auth 2000 ''t2'' ''t0'' ''w'' 1 None None one_rotation =
      (Inl (UnauthorizedException ''Refresh token reuse detected; all sessions revoked''), s') \<and>
    (\<forall>r \<in> set (db_tokens s'). rt_walletAddress r = ''w'' \<longrightarrow> rt_revokedAt r \<noteq> None) \<and>
    (\<exists>x. rotateRefreshToken (plain_auth\<lparr>a_null := ThrowsWhere\<rparr>) 2000 ''t2'' ''t0'' ''w'' 1 None None one_rotation = (Inl x, one_rotation))"
proof -
  let ?t = "db_tokens one_rotation" and ?e = "hd (db_tokens one_rotation)" and ?D = "plain_auth\<lparr>a_null := ThrowsWhere\<rparr>"
  have k: "?e \<in> set ?t" "rt_tokenHash ?e = ''t0''" "rt_walletAddress ?e = ''w''" "rt_usedAt ?e = Some 1000"
    "list_all (\<lambda>r. rt_tokenHash r = rt_tokenHash ?e \<longrightarrow> r = ?e) ?t"
    by code_simp+
  have tx: "\<And>m t a t'. m t = (Inr a, t') \<Longrightarrow> a_transaction plain_auth m t = (Inr a, t')"
    by (simp add: plain_auth_def plain_transaction_def)
  have p: "repo_reliable (a_tokens plain_auth)" "a_null plain_auth \<noteq> ThrowsWhere" "sha256 (a_host plain_auth) ''t0'' = ''t0''"
    by (simp_all add: plain_auth_def plain_host_def mem_repo_reliable)
  have u: "rt_tokenHash ?e = sha256 (a_host plain_auth) ''t0''" "rt_usedAt ?e \<noteq> None"
    "\<forall>r \<in> set ?t. rt_tokenHash r = rt_tokenHash ?e \<longrightarrow> r = ?e"
    using k(2) k(4) p(3) k(5) [unfolded list_all_iff] by (simp, simp, blast)
  have W: "\<exists>s'. rotateRefreshToken plain_auth 2000 ''t2'' ''t0'' ''w'' 1 None None one_rotation =
      (Inl (UnauthorizedException ''Refresh token reuse detected; all sessions revoked''), s') \<and>
    (\<forall>r \<in> set (db_tokens s'). rt_walletAddress r = ''w'' \<longrightarrow> rt_revokedAt r \<noteq> None)"
    using replay_revokes_wallet [OF plain_auth_ok p(1) tx k(1) u, of 2000 "''t2''" "''w''" 1 None None] p(2)
    unfolding k(3) by auto
  have D: "auth_deps_ok ?D" "repo_reliable (a_tokens ?D)" "\<And>m t a t'. m t = (Inr a, t') \<Longrightarrow> a_transaction ?D m t = (Inr a, t')"
    "rt_tokenHash ?e = sha256 (a_host ?D) ''t0''"
    using plain_auth_ok p(1) tx u(1) by (simp_all add: auth_deps_ok_def)
  have "\<exists>x. rotateRefreshToken ?D 2000 ''t2'' ''t0'' ''w'' 1 None None one_rotation = (Inl x, one_rotation)"
    using replay_revokes_wallet [OF D(1,2) D(3) k(1) D(4) u(2,3), of 2000 "''t2''" "''w''" 1 None None] by auto
  then show ?thesis using W by blast
qed

end
