(* ===== verification/Login_Attempts.thy ===== *)
theory Login_Attempts
  imports Js_Values
begin

text \<open>
  The counters behind brute-force protection (\<^verbatim>\<open>auth/login-attempt.store.ts\<close>): the interface of a
  store with expiring keys, the in-memory provider, and the provider over a key-value server,
  whose commands are parameters.  Times are in milliseconds; the current time is an argument.
\<close>

record 'm attempt_store =
  as_incr :: "int \<Rightarrow> string \<Rightarrow> int \<Rightarrow> ('m, js_error, jsnum) act"
  as_get :: "int \<Rightarrow> string \<Rightarrow> ('m, js_error, string option) act"
  as_set :: "int \<Rightarrow> string \<Rightarrow> string \<Rightarrow> int \<Rightarrow> ('m, js_error, unit) act"
  as_del :: "string list \<Rightarrow> ('m, js_error, unit) act"
  as_ttl :: "int \<Rightarrow> string \<Rightarrow> ('m, js_error, int option) act"

section \<open>The in-memory store\<close>

record attempt_entry =
  ae_value :: string
  ae_expiresAt :: int

type_synonym attempt_data = "(string, attempt_entry) jmap"

definition mem_live :: "int \<Rightarrow> string \<Rightarrow> attempt_data \<Rightarrow> attempt_entry option \<times> attempt_data" where
  "mem_live now key data =
    (case jm_get key data of
       Some entry \<Rightarrow> if ae_expiresAt entry \<le> now then (None, jm_delete key data) else (Some entry, data)
     | None \<Rightarrow> (None, data))"

definition mem_incr :: "host \<Rightarrow> int \<Rightarrow> string \<Rightarrow> int \<Rightarrow> (attempt_data, js_error, jsnum) act" where
  "mem_incr h now key ttlSeconds data =
    (case mem_live now key data of
       (None, data') \<Rightarrow> (Inr (num 1), jm_set key \<lparr>ae_value = ''1'', ae_expiresAt = now + ttlSeconds * 1000\<rparr> data')
     | (Some entry, data') \<Rightarrow>
         (let value = num_to_string h (num_add (string_to_num (ae_value entry)) (num 1)) in
          (Inr (string_to_num value), jm_set key (entry\<lparr>ae_value := value\<rparr>) data')))"

definition mem_get :: "int \<Rightarrow> string \<Rightarrow> (attempt_data, js_error, string option) act" where
  "mem_get now key data = (case mem_live now key data of (e, data') \<Rightarrow> (Inr (map_option ae_value e), data'))"

definition mem_set :: "int \<Rightarrow> string \<Rightarrow> string \<Rightarrow> int \<Rightarrow> (attempt_data, js_error, unit) act" where
  "mem_set now key v ttlSeconds data =
    (Inr (), jm_set key \<lparr>ae_value = v, ae_expiresAt = now + ttlSeconds * 1000\<rparr> data)"

definition mem_del :: "string list \<Rightarrow> (attempt_data, js_error, unit) act" where
  "mem_del keys data = (Inr (), fold jm_delete keys data)"

text \<open>\<^verbatim>\<open>Math.ceil(ms / 1000)\<close> on integers.\<close>

definition ceil_seconds :: "int \<Rightarrow> int" where
  "ceil_seconds ms = - ((- ms) div 1000)"

definition mem_ttl :: "int \<Rightarrow> string \<Rightarrow> (attempt_data, js_error, int option) act" where
  "mem_ttl now key data =
    (case mem_live now key data of
       (e, data') \<Rightarrow> (Inr (map_option (\<lambda>e. ceil_seconds (ae_expiresAt e - now)) e), data'))"

definition MemoryLoginAttemptStore :: "host \<Rightarrow> attempt_data attempt_store" where
  "MemoryLoginAttemptStore h = \<lparr>as_incr = mem_incr h, as_get = mem_get, as_set = mem_set, as_del = mem_del,
     as_ttl = mem_ttl\<rparr>"

section \<open>The store over a server\<close>

record 'r counter_server =
  cs_incr :: "int \<Rightarrow> string \<Rightarrow> ('r, js_error, int) act"
  cs_expire :: "int \<Rightarrow> string \<Rightarrow> int \<Rightarrow> ('r, js_error, unit) act"
  cs_get :: "int \<Rightarrow> string \<Rightarrow> ('r, js_error, string option) act"
  cs_set :: "int \<Rightarrow> string \<Rightarrow> string \<Rightarrow> int \<Rightarrow> ('r, js_error, unit) act"
  cs_del :: "string list \<Rightarrow> ('r, js_error, unit) act"
  cs_ttl :: "int \<Rightarrow> string \<Rightarrow> ('r, js_error, int) act"

definition redis_incr :: "'r counter_server \<Rightarrow> int \<Rightarrow> string \<Rightarrow> int \<Rightarrow> ('r, js_error, jsnum) act" where
  "redis_incr R now key ttlSeconds = act_bind (cs_incr R now key) (\<lambda>value.
     if value = 1 then act_seq (cs_expire R now key ttlSeconds) (act_ret (num value)) else act_ret (num value))"

definition redis_del :: "'r counter_server \<Rightarrow> string list \<Rightarrow> ('r, js_error, unit) act" where
  "redis_del R keys = (if keys \<noteq> [] then cs_del R keys else act_ret ())"

definition redis_ttl :: "'r counter_server \<Rightarrow> int \<Rightarrow> string \<Rightarrow> ('r, js_error, int option) act" where
  "redis_ttl R now key = act_bind (cs_ttl R now key) (\<lambda>seconds.
     act_ret (if seconds \<ge> 0 then Some seconds else None))"

definition RedisLoginAttemptStore :: "'r counter_server \<Rightarrow> 'r attempt_store" where
  "RedisLoginAttemptStore R = \<lparr>as_incr = redis_incr R, as_get = cs_get R, as_set = cs_set R,
     as_del = redis_del R, as_ttl = redis_ttl R\<rparr>"

section \<open>The contract\<close>

text \<open>
  What the clients rely on, over an observation \<^verbatim>\<open>entry t k m\<close> of the value and the expiry of a
  key at a time: every operation answers and acts on the keys named only, for all times from now.
\<close>

definition expires :: "string \<times> int \<Rightarrow> int \<Rightarrow> (string \<times> int) option" where
  "expires p t = (if snd p \<le> t then None else Some p)"

locale attempt_store =
  fixes S :: "'m attempt_store" and entry :: "int \<Rightarrow> string \<Rightarrow> 'm \<Rightarrow> (string \<times> int) option"
  assumes get_ok: "\<exists>m'. as_get S now k m = (Inr (map_option fst (entry now k m)), m') \<and>
      (\<forall>t \<ge> now. \<forall>k'. entry t k' m' = entry t k' m)"
    and ttl_ok: "\<exists>m'. as_ttl S now k m = (Inr (map_option (\<lambda>p. ceil_seconds (snd p - now)) (entry now k m)), m') \<and>
      (\<forall>t \<ge> now. \<forall>k'. entry t k' m' = entry t k' m)"
    and set_ok: "\<exists>m'. as_set S now k v ttl m = (Inr (), m') \<and>
      (\<forall>t \<ge> now. entry t k m' = expires (v, now + ttl * 1000) t) \<and>
      (\<forall>t \<ge> now. \<forall>k'. k' \<noteq> k \<longrightarrow> entry t k' m' = entry t k' m)"
    and del_ok: "\<exists>m'. as_del S ks m = (Inr (), m') \<and>
      (\<forall>t k'. entry t k' m' = (if k' \<in> set ks then None else entry t k' m))"
    and incr_new: "entry now k m = None \<Longrightarrow> \<exists>m'. as_incr S now k ttl m = (Inr (num 1), m') \<and>
      (\<forall>t \<ge> now. entry t k m' = expires (''1'', now + ttl * 1000) t) \<and>
      (\<forall>t \<ge> now. \<forall>k'. k' \<noteq> k \<longrightarrow> entry t k' m' = entry t k' m)"
    and incr_old: "entry now k m = Some (show_nat n, x) \<Longrightarrow> n + 1 < 10 ^ 21 \<Longrightarrow>
      \<exists>m'. as_incr S now k ttl m = (Inr (num (int (n + 1))), m') \<and>
      (\<forall>t \<ge> now. entry t k m' = expires (show_nat (n + 1), x) t) \<and>
      (\<forall>t \<ge> now. \<forall>k'. k' \<noteq> k \<longrightarrow> entry t k' m' = entry t k' m)"
    and entry_mono: "entry t k m = Some p \<Longrightarrow> t < snd p \<and> (\<forall>u. t \<le> u \<longrightarrow> entry u k m = expires p u)"
    and entry_None_mono: "entry t k m = None \<Longrightarrow> t \<le> u \<Longrightarrow> entry u k m = None"
begin

text \<open>A counter: absent is zero.\<close>

definition counter :: "int \<Rightarrow> string \<Rightarrow> 'm \<Rightarrow> nat \<Rightarrow> bool" where
  "counter t k m n \<longleftrightarrow> (if n = 0 then entry t k m = None else (\<exists>x. entry t k m = Some (show_nat n, x)))"

lemma incr_counter:
  assumes "counter now k m n" "n + 1 < 10 ^ 21" "0 < ttl"
  shows "\<exists>m'. as_incr S now k ttl m = (Inr (num (int (n + 1))), m') \<and> counter now k m' (n + 1) \<and>
    (\<forall>t \<ge> now. \<forall>k'. k' \<noteq> k \<longrightarrow> entry t k' m' = entry t k' m)"
proof (cases n)
  case 0
  then have "entry now k m = None" using assms(1) by (simp add: counter_def)
  from incr_new [OF this, of ttl] obtain m' where m': "as_incr S now k ttl m = (Inr (num 1), m')"
    "\<forall>t \<ge> now. entry t k m' = expires (''1'', now + ttl * 1000) t"
    "\<forall>t \<ge> now. \<forall>k'. k' \<noteq> k \<longrightarrow> entry t k' m' = entry t k' m" by blast
  have "show_nat 1 = ''1''" by code_simp
  then have "counter now k m' 1" using m'(2) assms(3) by (simp add: counter_def expires_def)
  then show ?thesis using m' 0 by auto
next
  case (Suc i)
  then obtain x where e: "entry now k m = Some (show_nat n, x)" using assms(1) by (auto simp: counter_def)
  from incr_old [OF e assms(2), of ttl] obtain m' where m': "as_incr S now k ttl m = (Inr (num (int (n + 1))), m')"
    "\<forall>t \<ge> now. entry t k m' = expires (show_nat (n + 1), x) t"
    "\<forall>t \<ge> now. \<forall>k'. k' \<noteq> k \<longrightarrow> entry t k' m' = entry t k' m" by blast
  have "now < x" using entry_mono [OF e] by simp
  then have "counter now k m' (n + 1)" using m'(2) by (simp add: counter_def expires_def)
  then show ?thesis using m' by blast
qed

end

section \<open>The in-memory store meets it\<close>

definition mem_entry :: "int \<Rightarrow> string \<Rightarrow> attempt_data \<Rightarrow> (string \<times> int) option" where
  "mem_entry t k data = (case jm_get k data of
     None \<Rightarrow> None | Some e \<Rightarrow> expires (ae_value e, ae_expiresAt e) t)"

lemma mem_live_cases:
  obtains (live) x where "jm_get k data = Some x" "now < ae_expiresAt x" "mem_live now k data = (Some x, data)"
    "mem_entry now k data = Some (ae_value x, ae_expiresAt x)"
  | (dead) data' where "mem_live now k data = (None, data')" "mem_entry now k data = None"
    "\<And>t k'. now \<le> t \<Longrightarrow> mem_entry t k' data' = mem_entry t k' data"
proof (cases "jm_get k data")
  case None
  then show thesis using dead [of data] by (simp add: mem_live_def mem_entry_def)
next
  case (Some x)
  show thesis
  proof (cases "ae_expiresAt x \<le> now")
    case True
    have "mem_entry t k' (jm_delete k data) = mem_entry t k' data" if "now \<le> t" for t k'
      using that True Some by (auto simp: mem_entry_def expires_def)
    then show thesis using dead [of "jm_delete k data"] True Some by (simp add: mem_live_def mem_entry_def expires_def)
  next
    case False
    then show thesis using live [of x] Some by (simp add: mem_live_def mem_entry_def expires_def)
  qed
qed

lemma jm_get_fold_delete: "jm_get k (fold jm_delete ks m) = (if k \<in> set ks then None else jm_get k m)"
  by (rule jm.lookup_delete_all)

interpretation memory: attempt_store "MemoryLoginAttemptStore h" mem_entry for h
proof
  fix now k m
  show "\<exists>m'. as_get (MemoryLoginAttemptStore h) now k m = (Inr (map_option fst (mem_entry now k m)), m') \<and>
      (\<forall>t \<ge> now. \<forall>k'. mem_entry t k' m' = mem_entry t k' m)"
    by (rule mem_live_cases [of k m now]) (auto simp: MemoryLoginAttemptStore_def mem_get_def)
  show "\<exists>m'. as_ttl (MemoryLoginAttemptStore h) now k m =
      (Inr (map_option (\<lambda>p. ceil_seconds (snd p - now)) (mem_entry now k m)), m') \<and>
      (\<forall>t \<ge> now. \<forall>k'. mem_entry t k' m' = mem_entry t k' m)"
    by (rule mem_live_cases [of k m now]) (auto simp: MemoryLoginAttemptStore_def mem_ttl_def)
next
  fix now k v ttl m
  show "\<exists>m'. as_set (MemoryLoginAttemptStore h) now k v ttl m = (Inr (), m') \<and>
      (\<forall>t \<ge> now. mem_entry t k m' = expires (v, now + ttl * 1000) t) \<and>
      (\<forall>t \<ge> now. \<forall>k'. k' \<noteq> k \<longrightarrow> mem_entry t k' m' = mem_entry t k' m)"
    by (simp add: MemoryLoginAttemptStore_def mem_set_def mem_entry_def)
next
  fix ks m
  show "\<exists>m'. as_del (MemoryLoginAttemptStore h) ks m = (Inr (), m') \<and>
      (\<forall>t k'. mem_entry t k' m' = (if k' \<in> set ks then None else mem_entry t k' m))"
    by (simp add: MemoryLoginAttemptStore_def mem_del_def mem_entry_def jm_get_fold_delete)
next
  fix now k m ttl assume e: "mem_entry now k m = None"
  then obtain m0 where m0: "mem_live now k m = (None, m0)"
    "\<And>t k'. now \<le> t \<Longrightarrow> mem_entry t k' m0 = mem_entry t k' m"
    using mem_live_cases [of k m now] by (metis option.distinct(1))
  have "mem_entry t k' (jm_set k x m0) = mem_entry t k' m0" if "k' \<noteq> k" for t k' x
    using that by (simp add: mem_entry_def)
  then show "\<exists>m'. as_incr (MemoryLoginAttemptStore h) now k ttl m = (Inr (num 1), m') \<and>
      (\<forall>t \<ge> now. mem_entry t k m' = expires (''1'', now + ttl * 1000) t) \<and>
      (\<forall>t \<ge> now. \<forall>k'. k' \<noteq> k \<longrightarrow> mem_entry t k' m' = mem_entry t k' m)"
    using m0 by (simp add: MemoryLoginAttemptStore_def mem_incr_def) (simp add: mem_entry_def)
next
  fix now k m n x ttl assume e: "mem_entry now k m = Some (show_nat n, x)" and n: "n + 1 < 10 ^ 21"
  then obtain a where a: "jm_get k m = Some a" "mem_live now k m = (Some a, m)" "ae_value a = show_nat n" "ae_expiresAt a = x"
    using mem_live_cases [of k m now] by (metis option.distinct(1) option.inject prod.inject)
  have "num_add (string_to_num (ae_value a)) (num 1) = num (int (n + 1))" using a(3) by simp
  moreover have "num_to_string h (num (int (n + 1))) = show_int (int (n + 1))"
    by (rule num_to_string_int) (use n in simp)
  moreover have "show_int (int (n + 1)) = show_nat (n + 1)" by (simp add: show_int_def nat_add_distrib)
  ultimately have "num_to_string h (num_add (string_to_num (ae_value a)) (num 1)) = show_nat (n + 1)" by simp
  then show "\<exists>m'. as_incr (MemoryLoginAttemptStore h) now k ttl m = (Inr (num (int (n + 1))), m') \<and>
      (\<forall>t \<ge> now. mem_entry t k m' = expires (show_nat (n + 1), x) t) \<and>
      (\<forall>t \<ge> now. \<forall>k'. k' \<noteq> k \<longrightarrow> mem_entry t k' m' = mem_entry t k' m)"
    using a by (simp add: MemoryLoginAttemptStore_def mem_incr_def Let_def mem_entry_def)
next
  fix t k m p assume "mem_entry t k m = Some p"
  then show "t < snd p \<and> (\<forall>u. t \<le> u \<longrightarrow> mem_entry u k m = expires p u)"
    by (auto simp: mem_entry_def expires_def split: option.splits if_splits)
next
  fix t u k m assume "mem_entry t k m = None" "t \<le> u"
  then show "mem_entry u k m = None"
    by (auto simp: mem_entry_def expires_def split: option.splits if_splits)
qed

section \<open>A counter without expiry\<close>

text \<open>
  The server's \<^verbatim>\<open>INCR\<close> and \<^verbatim>\<open>EXPIRE\<close>, over observations of the value of a key and of its expiry:
  incrementing keeps the expiry, a new key has none until \<^verbatim>\<open>EXPIRE\<close> sets it, and a command that
  throws changes nothing.
\<close>

definition counter_server_ok :: "'r counter_server \<Rightarrow> (string \<Rightarrow> 'r \<Rightarrow> int) \<Rightarrow> (string \<Rightarrow> 'r \<Rightarrow> int option) \<Rightarrow> bool" where
  "counter_server_ok R val expiry \<longleftrightarrow>
     (\<forall>now k r. (\<forall>x. expiry k r = Some x \<longrightarrow> now < x) \<longrightarrow>
        (case cs_incr R now k r of
           (Inr n, r') \<Rightarrow> n = val k r + 1 \<and> val k r' = n \<and> expiry k r' = expiry k r
         | (Inl e, r') \<Rightarrow> r' = r)) \<and>
     (\<forall>now k ttl r. case cs_expire R now k ttl r of
           (Inr _, r') \<Rightarrow> val k r' = val k r \<and> expiry k r' = Some (now + ttl * 1000)
         | (Inl e, r') \<Rightarrow> r' = r)"

fun redis_incrs :: "'r counter_server \<Rightarrow> string \<Rightarrow> int \<Rightarrow> int list \<Rightarrow> 'r \<Rightarrow> 'r" where
  "redis_incrs R k ttl [] r = r"
| "redis_incrs R k ttl (now # ts) r = redis_incrs R k ttl ts (snd (redis_incr R now k ttl r))"

lemma redis_incr_no_expiry:
  assumes ok: "counter_server_ok R val expiry" and r: "1 \<le> val k r" "expiry k r = None"
    and i: "redis_incr R now k ttl r = (c, r')"
  shows "expiry k r' = None \<and> (case c of Inr n \<Rightarrow> n = num (val k r + 1) \<and> val k r' = val k r + 1 | Inl _ \<Rightarrow> r' = r)"
proof -
  have step: "case cs_incr R now k r of (Inr n, r') \<Rightarrow> n = val k r + 1 \<and> val k r' = n \<and> expiry k r' = expiry k r
      | (Inl e, r') \<Rightarrow> r' = r"
    using ok r(2) unfolding counter_server_ok_def by simp
  show ?thesis
  proof (cases "fst (cs_incr R now k r)")
    case (Inl e)
    then show ?thesis using step i r by (cases "cs_incr R now k r") (auto simp: redis_incr_def)
  next
    case (Inr n)
    then show ?thesis using step i r by (cases "cs_incr R now k r") (auto simp: redis_incr_def act_ret_def)
  qed
qed

lemma redis_incrs_no_expiry:
  "counter_server_ok R val expiry \<Longrightarrow> 1 \<le> val k r \<Longrightarrow> expiry k r = None \<Longrightarrow>
   expiry k (redis_incrs R k ttl ts r) = None \<and> val k r \<le> val k (redis_incrs R k ttl ts r)"
proof (induction ts arbitrary: r)
  case (Cons now ts)
  obtain c r' where i: "redis_incr R now k ttl r = (c, r')" by (metis surj_pair)
  have n: "expiry k r' = None" "val k r \<le> val k r'"
    using redis_incr_no_expiry [OF Cons.prems i] by (cases c; simp)+
  then show ?case using Cons.IH [OF Cons.prems(1) _ n(1)] Cons.prems(2) i by simp
qed simp

section \<open>Properties\<close>

text \<open>
  Over the server a counter is created and given its expiry by two commands: when the second
  one throws, the counter stays without expiry through any number of later increments, so the
  window it counts never ends.
\<close>

theorem redis_counter_may_never_expire:
  assumes "counter_server_ok R val expiry" "val k r = 0" "expiry k r = None"
    and "cs_incr R now k r = (Inr 1, r1)" "cs_expire R now k ttl r1 = (Inl e, r1)"
  shows "fst (redis_incr R now k ttl r) = Inl e \<and>
    expiry k (redis_incrs R k ttl ts (snd (redis_incr R now k ttl r))) = None \<and>
    1 \<le> val k (redis_incrs R k ttl ts (snd (redis_incr R now k ttl r)))"
proof -
  have i: "redis_incr R now k ttl r = (Inl e, r1)" using assms(4,5) by (simp add: redis_incr_def)
  have "case cs_incr R now k r of (Inr n, r') \<Rightarrow> n = val k r + 1 \<and> val k r' = n \<and> expiry k r' = expiry k r
      | (Inl e, r') \<Rightarrow> r' = r"
    using assms(1,3) unfolding counter_server_ok_def by simp
  then have "val k r1 = 1" "expiry k r1 = None" using assms(3,4) by simp_all
  then show ?thesis using redis_incrs_no_expiry [OF assms(1), of k r1 ttl ts] i by simp
qed

definition flaky_server :: "int counter_server" where
  "flaky_server = \<lparr>cs_incr = (\<lambda>now k r. (Inr (r + 1), r + 1)),
     cs_expire = (\<lambda>now k ttl r. (Inl (JsError ''Error'' ''Connection is closed.'' []), r)),
     cs_get = (\<lambda>now k r. (Inr None, r)), cs_set = (\<lambda>now k v ttl r. (Inr (), r)),
     cs_del = (\<lambda>ks r. (Inr (), r)), cs_ttl = (\<lambda>now k r. (Inr (- 1), r))\<rparr>"

theorem redis_counter_may_never_expire_witness:
  "1 \<le> redis_incrs flaky_server ''auth:rate:a@b.c'' 60 [90000, 200000]
     (snd (redis_incr flaky_server 0 ''auth:rate:a@b.c'' 60 0))"
  by (rule redis_counter_may_never_expire [of flaky_server "\<lambda>_ r. r" "\<lambda>_ _. None", THEN conjunct2, THEN conjunct2])
    (simp_all add: counter_server_ok_def flaky_server_def)

end
