(* ===== verification/Account_Lockout.thy ===== *)
theory Account_Lockout
  imports Login_Attempts
begin

text \<open>
  Brute-force protection (\<^verbatim>\<open>auth/account-lockout.service.ts\<close>) as a client of the attempt store: a
  per-minute budget, a streak of failures, and locks whose length doubles with every lockout of
  the last week up to a day.  The audit trail is written and forgotten by the source; the model
  keeps the entries in a list.
\<close>

definition LOGIN_RATE_LIMIT :: int where "LOGIN_RATE_LIMIT = 5"
definition LOGIN_RATE_WINDOW_SECONDS :: int where "LOGIN_RATE_WINDOW_SECONDS = 60"
definition LOCKOUT_FAILURE_THRESHOLD :: int where "LOCKOUT_FAILURE_THRESHOLD = 10"
definition LOCKOUT_BASE_MINUTES :: int where "LOCKOUT_BASE_MINUTES = 30"
definition LOCKOUT_MAX_MINUTES :: int where "LOCKOUT_MAX_MINUTES = 24 * 60"
definition FAILURE_TTL_SECONDS :: int where "FAILURE_TTL_SECONDS = 24 * 60 * 60"
definition LOCKOUT_HISTORY_TTL_SECONDS :: int where "LOCKOUT_HISTORY_TTL_SECONDS = 7 * 24 * 60 * 60"

record 'm lockout =
  lk_store :: 'm
  lk_audit :: "(string \<times> js_record) list"

record AttemptContext =
  ctx_ipAddress :: "string option"
  ctx_userAgent :: "string option"

type_synonym ('m, 'a) lockout_act = "('m lockout, js_error, 'a) act"

definition on_store :: "('m, js_error, 'a) act \<Rightarrow> ('m, 'a) lockout_act" where
  "on_store = zoom lk_store (\<lambda>m s. s\<lparr>lk_store := m\<rparr>)"

definition audit_log :: "string \<Rightarrow> js_record \<Rightarrow> ('m, unit) lockout_act" where
  "audit_log action context = act_modify (\<lambda>s. s\<lparr>lk_audit := lk_audit s @ [(action, context)]\<rparr>)"

definition norm_email :: "string \<Rightarrow> string" where
  "norm_email email = trim (toLowerCase email)"

definition lock_key :: "string \<Rightarrow> string \<Rightarrow> string" where
  "lock_key kind email = ''auth:'' @ kind @ '':'' @ norm_email email"

definition HttpException :: "int \<Rightarrow> string \<Rightarrow> int \<Rightarrow> js_error" where
  "HttpException status message retryAfter = JsError ''HttpException'' message
     [(''statusCode'', Num (num status)), (''message'', Str message), (''retryAfterSeconds'', Num (num retryAfter))]"

definition assertCanAttempt :: "'m attempt_store \<Rightarrow> int \<Rightarrow> string \<Rightarrow> ('m, unit) lockout_act" where
  "assertCanAttempt S now email =
    act_bind (on_store (as_get S now (lock_key ''lock'' email))) (\<lambda>lock.
      if lock \<noteq> None then
        act_bind (on_store (as_ttl S now (lock_key ''lock'' email))) (\<lambda>ttl.
          act_throw (HttpException 423 ''Account temporarily locked due to repeated failed logins''
            (case ttl of Some t \<Rightarrow> t | None \<Rightarrow> 0)))
      else
        act_bind (on_store (as_incr S now (lock_key ''rate'' email) LOGIN_RATE_WINDOW_SECONDS)) (\<lambda>attempts.
          if num_lt (num LOGIN_RATE_LIMIT) attempts then
            act_bind (on_store (as_ttl S now (lock_key ''rate'' email))) (\<lambda>ttl.
              act_throw (HttpException 429 ''Too many login attempts, try again later''
                (case ttl of Some t \<Rightarrow> t | None \<Rightarrow> LOGIN_RATE_WINDOW_SECONDS)))
          else act_ret ()))"

definition lockout_minutes :: "jsnum \<Rightarrow> jsnum" where
  "lockout_minutes lockouts =
     num_min (num_mul (num LOCKOUT_BASE_MINUTES) (num_pow2 (num_sub lockouts (num 1)))) (num LOCKOUT_MAX_MINUTES)"

definition recordFailure ::
    "host \<Rightarrow> 'm attempt_store \<Rightarrow> int \<Rightarrow> string \<Rightarrow> AttemptContext \<Rightarrow> ('m, unit) lockout_act" where
  "recordFailure h S now email ctx =
    act_bind (on_store (as_incr S now (lock_key ''fail'' email) FAILURE_TTL_SECONDS)) (\<lambda>failures.
      if num_lt failures (num LOCKOUT_FAILURE_THRESHOLD) then act_ret ()
      else act_bind (on_store (as_incr S now (lock_key ''lockouts'' email) LOCKOUT_HISTORY_TTL_SECONDS)) (\<lambda>lockouts.
        let minutes = lockout_minutes lockouts in
        act_seq (on_store (as_set S now (lock_key ''lock'' email)
            (num_to_string h (num_add (num now) (num_mul minutes (num 60000)))) (num_floor minutes * 60)))
          (act_seq (on_store (as_del S [lock_key ''fail'' email]))
            (audit_log ''AUTH_ACCOUNT_LOCKED'' [(''walletAddress'', Str (norm_email email)),
               (''ipAddress'', opt_str (ctx_ipAddress ctx)), (''userAgent'', opt_str (ctx_userAgent ctx)),
               (''metadata'', Obj [(''email'', Str (norm_email email)), (''lockoutCount'', Num lockouts),
                  (''minutes'', Num minutes)])]))))"

definition recordSuccess :: "'m attempt_store \<Rightarrow> string \<Rightarrow> ('m, unit) lockout_act" where
  "recordSuccess S email = on_store (as_del S [lock_key ''fail'' email, lock_key ''rate'' email])"

definition isLocked :: "'m attempt_store \<Rightarrow> int \<Rightarrow> string \<Rightarrow> ('m, bool) lockout_act" where
  "isLocked S now email = act_bind (on_store (as_get S now (lock_key ''lock'' email))) (\<lambda>v. act_ret (v \<noteq> None))"

definition unlock :: "'m attempt_store \<Rightarrow> int \<Rightarrow> string \<Rightarrow> string \<Rightarrow> ('m, bool) lockout_act" where
  "unlock S now email adminEmail =
    act_bind (isLocked S now email) (\<lambda>wasLocked.
      act_seq (on_store (as_del S [lock_key ''lock'' email, lock_key ''fail'' email, lock_key ''lockouts'' email,
          lock_key ''rate'' email]))
        (act_seq (audit_log ''AUTH_ACCOUNT_UNLOCKED'' [(''walletAddress'', Str (norm_email email)),
            (''metadata'', Obj [(''email'', Str (norm_email email)), (''unlockedBy'', Str adminEmail),
               (''wasLocked'', JBool wasLocked)])])
          (act_ret wasLocked)))"

section \<open>Keys\<close>

lemma lock_key_inj:
  "k \<in> {''lock'', ''rate'', ''fail'', ''lockouts''} \<Longrightarrow> k' \<in> {''lock'', ''rate'', ''fail'', ''lockouts''} \<Longrightarrow>
   lock_key k e = lock_key k' e' \<longleftrightarrow> k = k' \<and> norm_email e = norm_email e'"
  by (auto simp: lock_key_def)

lemma lock_key_simps [simp]:
  "lock_key ''lock'' e \<noteq> lock_key ''rate'' e'" "lock_key ''lock'' e \<noteq> lock_key ''fail'' e'"
  "lock_key ''lock'' e \<noteq> lock_key ''lockouts'' e'" "lock_key ''rate'' e \<noteq> lock_key ''lock'' e'"
  "lock_key ''rate'' e \<noteq> lock_key ''fail'' e'" "lock_key ''rate'' e \<noteq> lock_key ''lockouts'' e'"
  "lock_key ''fail'' e \<noteq> lock_key ''lock'' e'" "lock_key ''fail'' e \<noteq> lock_key ''rate'' e'"
  "lock_key ''fail'' e \<noteq> lock_key ''lockouts'' e'" "lock_key ''lockouts'' e \<noteq> lock_key ''lock'' e'"
  "lock_key ''lockouts'' e \<noteq> lock_key ''rate'' e'" "lock_key ''lockouts'' e \<noteq> lock_key ''fail'' e'"
  by (simp_all add: lock_key_def)

lemma on_storeI: "m (lk_store s) = (r, t) \<Longrightarrow> on_store m s = (r, s\<lparr>lk_store := t\<rparr>)"
  by (simp add: on_store_def zoom_def)

section \<open>How long a lock lasts\<close>

lemma num_le_of_int: "num_lt (num a) (num b) \<longleftrightarrow> a < b"
  by simp

lemma lockout_minutes_nat: "lockout_minutes (num (int (n + 1))) = num (min (30 * 2 ^ n) 1440)"
proof -
  have "num_pow2 (num_sub (num (int (n + 1))) (num 1)) = Fin (2 ^ n)" by (simp add: num_pow2_def)
  then have "num_mul (num LOCKOUT_BASE_MINUTES) (num_pow2 (num_sub (num (int (n + 1))) (num 1))) = num (30 * 2 ^ n)"
    by (simp add: num_mul_def LOCKOUT_BASE_MINUTES_def)
  then have "lockout_minutes (num (int (n + 1))) = num_min (num (30 * 2 ^ n)) (num 1440)"
    by (simp add: lockout_minutes_def LOCKOUT_MAX_MINUTES_def)
  moreover have "num_min (num a) (num b) = num (min a b)" for a b
    by (simp only: num_min_def num_le_of_int) (simp add: min_def)
  ultimately show ?thesis by (simp only:)
qed

lemmas acts = on_store_def zoom_def act_bind_def act_seq_def act_ret_def act_throw_def act_modify_def

lemmas numeric = num_lt.simps of_nat_Suc of_nat_add of_int_min of_int_of_nat_eq

section \<open>What a client of any store can rely on\<close>

context attempt_store begin

text \<open>The state of an address: failures, lockouts, attempts in the window, and the lock.\<close>

definition tally :: "string \<Rightarrow> int \<Rightarrow> string \<Rightarrow> 'm lockout \<Rightarrow> nat \<Rightarrow> bool" where
  "tally kind t email s n \<longleftrightarrow> counter t (lock_key kind email) (lk_store s) n"

definition locked_at :: "int \<Rightarrow> string \<Rightarrow> 'm lockout \<Rightarrow> bool" where
  "locked_at t email s \<longleftrightarrow> entry t (lock_key ''lock'' email) (lk_store s) \<noteq> None"

lemma recordFailure_effect:
  assumes f: "tally ''fail'' now email s f" "f + 1 < 10 ^ 21"
    and l: "tally ''lockouts'' now email s l" "l + 1 < 10 ^ 21"
  shows "\<exists>s'. recordFailure h S now email ctx s = (Inr (), s') \<and>
    (if f + 1 < 10 then
       tally ''fail'' now email s' (f + 1) \<and> tally ''lockouts'' now email s' l \<and> lk_audit s' = lk_audit s \<and>
       (\<forall>t \<ge> now. locked_at t email s' = locked_at t email s)
     else
       tally ''fail'' now email s' 0 \<and> tally ''lockouts'' now email s' (l + 1) \<and>
       map fst (lk_audit s') = map fst (lk_audit s) @ [''AUTH_ACCOUNT_LOCKED''] \<and>
       (\<forall>t \<ge> now. locked_at t email s' = (t < now + min (30 * 2 ^ l) 1440 * 60000)))"
proof -
  let ?F = "lock_key ''fail'' email" and ?L = "lock_key ''lockouts'' email" and ?K = "lock_key ''lock'' email"
  obtain m1 where 1: "as_incr S now ?F FAILURE_TTL_SECONDS (lk_store s) = (Inr (num (int (f + 1))), m1)"
    "counter now ?F m1 (f + 1)" "\<forall>t \<ge> now. \<forall>k'. k' \<noteq> ?F \<longrightarrow> entry t k' m1 = entry t k' (lk_store s)"
    using incr_counter [OF f [unfolded tally_def], of FAILURE_TTL_SECONDS] by (auto simp: FAILURE_TTL_SECONDS_def)
  have l1: "counter now ?L m1 l" using l(1) 1(3) by (simp add: tally_def counter_def)
  show ?thesis
  proof (cases "f + 1 < 10")
    case True
    then have "num_lt (num (int (f + 1))) (num LOCKOUT_FAILURE_THRESHOLD)"
      unfolding num_le_of_int by (simp add: LOCKOUT_FAILURE_THRESHOLD_def)
    then have "recordFailure h S now email ctx s = (Inr (), s\<lparr>lk_store := m1\<rparr>)"
      using 1(1) by (simp add: recordFailure_def acts del: numeric)
    then show ?thesis using True 1(2,3) l1 by (simp add: tally_def locked_at_def)
  next
    case False
    then have n: "\<not> num_lt (num (int (f + 1))) (num LOCKOUT_FAILURE_THRESHOLD)"
      unfolding num_le_of_int by (simp add: LOCKOUT_FAILURE_THRESHOLD_def)
    obtain m2 where 2: "as_incr S now ?L LOCKOUT_HISTORY_TTL_SECONDS m1 = (Inr (num (int (l + 1))), m2)"
      "counter now ?L m2 (l + 1)" "\<forall>t \<ge> now. \<forall>k'. k' \<noteq> ?L \<longrightarrow> entry t k' m2 = entry t k' m1"
      using incr_counter [OF l1 l(2), of LOCKOUT_HISTORY_TTL_SECONDS] by (auto simp: LOCKOUT_HISTORY_TTL_SECONDS_def)
    let ?min = "min (30 * 2 ^ l) 1440 :: int"
    have mins: "lockout_minutes (num (int (l + 1))) = num ?min" by (rule lockout_minutes_nat)
    let ?v = "num_to_string h (num_add (num now) (num_mul (num ?min) (num 60000)))"
    obtain m3 where 3: "as_set S now ?K ?v (?min * 60) m2 = (Inr (), m3)"
      "\<forall>t \<ge> now. entry t ?K m3 = expires (?v, now + ?min * 60 * 1000) t"
      "\<forall>t \<ge> now. \<forall>k'. k' \<noteq> ?K \<longrightarrow> entry t k' m3 = entry t k' m2"
      using set_ok [of now ?K ?v "?min * 60" m2] by blast
    obtain m4 where 4: "as_del S [?F] m3 = (Inr (), m4)"
      "\<forall>t k'. entry t k' m4 = (if k' \<in> set [?F] then None else entry t k' m3)"
      using del_ok [of "[?F]" m3] by blast
    obtain a where run: "recordFailure h S now email ctx s = (Inr (), s\<lparr>lk_store := m4, lk_audit := lk_audit s @ [(''AUTH_ACCOUNT_LOCKED'', a)]\<rparr>)"
      using n 1(1) 2(1) 3(1) 4(1) mins by (simp add: recordFailure_def acts Let_def audit_log_def del: numeric)
    have "t < now + ?min * 60000 \<longleftrightarrow> \<not> now + ?min * 60 * 1000 \<le> t" for t by linarith
    then have "\<forall>t \<ge> now. locked_at t email (s\<lparr>lk_store := m4, lk_audit := b\<rparr>) = (t < now + ?min * 60000)" for b
      using 3(2) 4(2) by (simp add: locked_at_def expires_def)
    moreover have "counter now ?F m4 0" "counter now ?L m4 (l + 1)"
      using 4(2) 3(3) 2(2) by (simp_all add: counter_def)
    ultimately show ?thesis using False run by (simp add: tally_def)
  qed
qed

lemma assertCanAttempt_frame:
  assumes r: "tally ''rate'' now email s r" "r + 1 < 10 ^ 21"
  shows "\<exists>c s'. assertCanAttempt S now email s = (c, s') \<and>
    (\<forall>t \<ge> now. \<forall>k'. k' \<noteq> lock_key ''rate'' email \<longrightarrow> entry t k' (lk_store s') = entry t k' (lk_store s)) \<and>
    (if locked_at now email s then
       (\<exists>msg sec. c = Inl (HttpException 423 msg sec)) \<and> tally ''rate'' now email s' r
     else tally ''rate'' now email s' (r + 1) \<and>
       (if r + 1 \<le> 5 then c = Inr () else (\<exists>msg sec. c = Inl (HttpException 429 msg sec))))"
proof -
  let ?K = "lock_key ''lock'' email" and ?R = "lock_key ''rate'' email"
  obtain m1 where 1: "as_get S now ?K (lk_store s) = (Inr (map_option fst (entry now ?K (lk_store s))), m1)"
    "\<forall>t \<ge> now. \<forall>k'. entry t k' m1 = entry t k' (lk_store s)"
    using get_ok [of now ?K "lk_store s"] by blast
  show ?thesis
  proof (cases "locked_at now email s")
    case True
    obtain m2 where 2: "as_ttl S now ?K m1 = (Inr (map_option (\<lambda>p. ceil_seconds (snd p - now)) (entry now ?K m1)), m2)"
      "\<forall>t \<ge> now. \<forall>k'. entry t k' m2 = entry t k' m1"
      using ttl_ok [of now ?K m1] by blast
    obtain msg sec where "assertCanAttempt S now email s = (Inl (HttpException 423 msg sec), s\<lparr>lk_store := m2\<rparr>)"
      using True 1(1) 2(1) by (auto simp: assertCanAttempt_def acts locked_at_def)
    moreover have "tally ''rate'' now email (s\<lparr>lk_store := m2\<rparr>) r" using 1(2) 2(2) r(1) by (simp add: tally_def counter_def)
    moreover have "\<forall>t \<ge> now. \<forall>k'. k' \<noteq> ?R \<longrightarrow> entry t k' (lk_store (s\<lparr>lk_store := m2\<rparr>)) = entry t k' (lk_store s)"
      using 1(2) 2(2) by simp
    ultimately show ?thesis using True by auto
  next
    case False
    have c1: "counter now ?R m1 r" using r(1) 1(2) by (simp add: tally_def counter_def)
    obtain m2 where 2: "as_incr S now ?R LOGIN_RATE_WINDOW_SECONDS m1 = (Inr (num (int (r + 1))), m2)"
      "counter now ?R m2 (r + 1)" "\<forall>t \<ge> now. \<forall>k'. k' \<noteq> ?R \<longrightarrow> entry t k' m2 = entry t k' m1"
      using incr_counter [OF c1 r(2), of LOGIN_RATE_WINDOW_SECONDS] by (auto simp: LOGIN_RATE_WINDOW_SECONDS_def)
    have lim: "num_lt (num LOGIN_RATE_LIMIT) (num (int (r + 1))) \<longleftrightarrow> \<not> r + 1 \<le> 5"
      unfolding num_le_of_int by (simp add: LOGIN_RATE_LIMIT_def) linarith
    show ?thesis
    proof (cases "r + 1 \<le> 5")
      case True
      have "assertCanAttempt S now email s = (Inr (), s\<lparr>lk_store := m2\<rparr>)"
        using True False 1(1) 2(1) lim by (simp add: assertCanAttempt_def acts locked_at_def del: numeric)
      moreover have "tally ''rate'' now email (s\<lparr>lk_store := m2\<rparr>) (r + 1)" using 2(2) by (simp add: tally_def)
      moreover have "\<forall>t \<ge> now. \<forall>k'. k' \<noteq> ?R \<longrightarrow> entry t k' (lk_store (s\<lparr>lk_store := m2\<rparr>)) = entry t k' (lk_store s)"
        using 1(2) 2(3) by simp
      ultimately show ?thesis using True False by auto
    next
      case more: False
      obtain m3 where 3: "as_ttl S now ?R m2 = (Inr (map_option (\<lambda>p. ceil_seconds (snd p - now)) (entry now ?R m2)), m3)"
        "\<forall>t \<ge> now. \<forall>k'. entry t k' m3 = entry t k' m2"
        using ttl_ok [of now ?R m2] by blast
      obtain msg sec where "assertCanAttempt S now email s = (Inl (HttpException 429 msg sec), s\<lparr>lk_store := m3\<rparr>)"
        using False more 1(1) 2(1) 3(1) lim by (auto simp: assertCanAttempt_def acts locked_at_def simp del: numeric)
      moreover have "tally ''rate'' now email (s\<lparr>lk_store := m3\<rparr>) (r + 1)" using 2(2) 3(2) by (simp add: tally_def counter_def)
      moreover have "\<forall>t \<ge> now. \<forall>k'. k' \<noteq> ?R \<longrightarrow> entry t k' (lk_store (s\<lparr>lk_store := m3\<rparr>)) = entry t k' (lk_store s)"
        using 1(2) 2(3) 3(2) by simp
      ultimately show ?thesis using False more by auto
    qed
  qed
qed

lemma assertCanAttempt_effect:
  assumes r: "tally ''rate'' now email s r" "r + 1 < 10 ^ 21"
  shows "\<exists>c s'. assertCanAttempt S now email s = (c, s') \<and>
    (\<forall>t \<ge> now. locked_at t email s' = locked_at t email s) \<and>
    (\<forall>kind \<in> {''fail'', ''lockouts''}. \<forall>n. tally kind now email s' n = tally kind now email s n) \<and>
    (if locked_at now email s then
       (\<exists>msg sec. c = Inl (HttpException 423 msg sec)) \<and> tally ''rate'' now email s' r
     else tally ''rate'' now email s' (r + 1) \<and>
       (if r + 1 \<le> 5 then c = Inr () else (\<exists>msg sec. c = Inl (HttpException 429 msg sec))))"
proof -
  obtain c s' where f: "assertCanAttempt S now email s = (c, s')"
    and k: "\<forall>t \<ge> now. \<forall>k'. k' \<noteq> lock_key ''rate'' email \<longrightarrow> entry t k' (lk_store s') = entry t k' (lk_store s)"
    and v: "if locked_at now email s then
       (\<exists>msg sec. c = Inl (HttpException 423 msg sec)) \<and> tally ''rate'' now email s' r
     else tally ''rate'' now email s' (r + 1) \<and>
       (if r + 1 \<le> 5 then c = Inr () else (\<exists>msg sec. c = Inl (HttpException 429 msg sec)))"
    using assertCanAttempt_frame [OF r] by blast
  have "\<forall>t \<ge> now. locked_at t email s' = locked_at t email s"
    "\<forall>kind \<in> {''fail'', ''lockouts''}. \<forall>n. tally kind now email s' n = tally kind now email s n"
    using k by (auto simp: locked_at_def tally_def counter_def)
  then show ?thesis using f v by blast
qed

lemma recordSuccess_effect:
  "\<exists>s'. recordSuccess S email s = (Inr (), s') \<and> tally ''fail'' now email s' 0 \<and> tally ''rate'' now email s' 0 \<and>
    (\<forall>t. locked_at t email s' = locked_at t email s) \<and> (\<forall>n. tally ''lockouts'' now email s' n = tally ''lockouts'' now email s n)"
proof -
  let ?ks = "[lock_key ''fail'' email, lock_key ''rate'' email]"
  obtain m where m: "as_del S ?ks (lk_store s) = (Inr (), m)"
    "\<forall>t k'. entry t k' m = (if k' \<in> set ?ks then None else entry t k' (lk_store s))"
    using del_ok [of ?ks "lk_store s"] by blast
  then have "recordSuccess S email s = (Inr (), s\<lparr>lk_store := m\<rparr>)" by (simp add: recordSuccess_def on_storeI)
  then show ?thesis using m(2) by (simp add: tally_def counter_def locked_at_def)
qed

lemma unlock_effect:
  "\<exists>s'. unlock S now email admin s = (Inr (locked_at now email s), s') \<and>
    (\<forall>t \<ge> now. \<not> locked_at t email s') \<and>
    (\<forall>kind \<in> {''fail'', ''lockouts'', ''rate''}. tally kind now email s' 0) \<and>
    (\<forall>t \<ge> now. \<forall>e. norm_email e \<noteq> norm_email email \<longrightarrow> locked_at t e s' = locked_at t e s)"
proof -
  let ?K = "lock_key ''lock'' email"
  let ?ks = "[?K, lock_key ''fail'' email, lock_key ''lockouts'' email, lock_key ''rate'' email]"
  obtain m1 where 1: "as_get S now ?K (lk_store s) = (Inr (map_option fst (entry now ?K (lk_store s))), m1)"
    "\<forall>t \<ge> now. \<forall>k'. entry t k' m1 = entry t k' (lk_store s)"
    using get_ok [of now ?K "lk_store s"] by blast
  obtain m2 where 2: "as_del S ?ks m1 = (Inr (), m2)"
    "\<forall>t k'. entry t k' m2 = (if k' \<in> set ?ks then None else entry t k' m1)"
    using del_ok [of ?ks m1] by blast
  have "\<exists>a. unlock S now email admin s = (Inr (locked_at now email s), s\<lparr>lk_store := m2, lk_audit := a\<rparr>)"
    using 1(1) 2(1) by (auto simp: unlock_def isLocked_def acts audit_log_def locked_at_def)
  moreover have "norm_email e \<noteq> norm_email email \<Longrightarrow> lock_key ''lock'' e \<notin> set ?ks" for e
    by (simp add: lock_key_inj)
  ultimately show ?thesis using 1(2) 2(2) by (auto simp: tally_def counter_def locked_at_def)
qed

end

section \<open>Properties\<close>

text \<open>The tallies and the lock of an address in the in-memory store.\<close>

definition mem_tally :: "string \<Rightarrow> int \<Rightarrow> string \<Rightarrow> attempt_data lockout \<Rightarrow> nat \<Rightarrow> bool" where
  "mem_tally kind t email s n \<longleftrightarrow>
     (if n = 0 then mem_entry t (lock_key kind email) (lk_store s) = None
      else (\<exists>x. mem_entry t (lock_key kind email) (lk_store s) = Some (show_nat n, x)))"

definition mem_locked :: "int \<Rightarrow> string \<Rightarrow> attempt_data lockout \<Rightarrow> bool" where
  "mem_locked t email s \<longleftrightarrow> mem_entry t (lock_key ''lock'' email) (lk_store s) \<noteq> None"

lemma mem_tally_eq: "mem_tally = memory.tally"
  by (simp add: fun_eq_iff mem_tally_def memory.tally_def memory.counter_def)

lemma mem_locked_eq: "mem_locked = memory.locked_at"
  by (simp add: fun_eq_iff mem_locked_def memory.locked_at_def)

text \<open>
  A failed login raises the streak; the tenth one clears it, raises the lockout count and
  locks the address for 30 minutes doubled with every earlier lockout of the week, a day at
  most: the address is locked from now until exactly then.
\<close>

theorem recordFailure_locks:
  assumes "mem_tally ''fail'' now email s f" "f + 1 < 10 ^ 21"
    and "mem_tally ''lockouts'' now email s l" "l + 1 < 10 ^ 21"
  shows "\<exists>s'. recordFailure h (MemoryLoginAttemptStore h) now email ctx s = (Inr (), s') \<and>
    (if f + 1 < 10 then
       mem_tally ''fail'' now email s' (f + 1) \<and> mem_tally ''lockouts'' now email s' l \<and>
       (\<forall>t \<ge> now. mem_locked t email s' = mem_locked t email s)
     else
       mem_tally ''fail'' now email s' 0 \<and> mem_tally ''lockouts'' now email s' (l + 1) \<and>
       (\<forall>t \<ge> now. mem_locked t email s' = (t < now + min (30 * 2 ^ l) 1440 * 60000)))"
  using memory.recordFailure_effect [OF assms [unfolded mem_tally_eq], of h h ctx]
  unfolding mem_tally_eq mem_locked_eq by (auto split: if_splits)

definition ninth_failure :: "attempt_data lockout" where
  "ninth_failure = \<lparr>lk_store = [(lock_key ''fail'' ''a@b.c'', \<lparr>ae_value = ''9'', ae_expiresAt = 86400000\<rparr>)], lk_audit = []\<rparr>"

theorem recordFailure_locks_witness:
  "\<exists>s'. recordFailure plain_host (MemoryLoginAttemptStore plain_host) 1000 ''A@b.c '' \<lparr>ctx_ipAddress = None, ctx_userAgent = None\<rparr>
      ninth_failure = (Inr (), s') \<and> mem_locked 1700000 ''a@b.c'' s' \<and> \<not> mem_locked 1801000 ''a@b.c'' s'"
proof -
  have k: "lock_key kind ''A@b.c '' = lock_key kind ''a@b.c''" for kind
  proof -
    have "norm_email ''A@b.c '' = norm_email ''a@b.c''" by code_simp
    then show ?thesis by (simp add: lock_key_def)
  qed
  have "show_nat 9 = ''9''" by code_simp
  then have t: "mem_tally ''fail'' 1000 ''A@b.c '' ninth_failure 9" "mem_tally ''lockouts'' 1000 ''A@b.c '' ninth_failure 0"
    by (simp_all add: mem_tally_def mem_entry_def ninth_failure_def expires_def k jm_get_def)
  obtain s' where "recordFailure plain_host (MemoryLoginAttemptStore plain_host) 1000 ''A@b.c ''
      \<lparr>ctx_ipAddress = None, ctx_userAgent = None\<rparr> ninth_failure = (Inr (), s')"
    and l: "\<forall>t \<ge> 1000. mem_locked t ''A@b.c '' s' = (t < 1000 + min (30 * 2 ^ 0) 1440 * 60000)"
    using recordFailure_locks [OF t(1) _ t(2), of plain_host "\<lparr>ctx_ipAddress = None, ctx_userAgent = None\<rparr>"] by auto
  moreover have "mem_locked t ''A@b.c '' s' = mem_locked t ''a@b.c'' s'" for t by (simp add: mem_locked_def k)
  moreover have "mem_locked 1700000 ''A@b.c '' s'" "\<not> mem_locked 1801000 ''A@b.c '' s'"
    using l [rule_format, of 1700000] l [rule_format, of 1801000] by simp_all
  ultimately show ?thesis by blast
qed

text \<open>
  The gate before a login: a locked address is refused with 423 and nothing is counted; an
  unlocked one is counted, passes while the window has at most five attempts, and is refused
  with 429 from the sixth on.  The gate never changes a lock.
\<close>

theorem assertCanAttempt_gate:
  assumes "mem_tally ''rate'' now email s r" "r + 1 < 10 ^ 21"
  shows "\<exists>c s'. assertCanAttempt (MemoryLoginAttemptStore h) now email s = (c, s') \<and>
    (\<forall>t \<ge> now. mem_locked t email s' = mem_locked t email s) \<and>
    (if mem_locked now email s then
       (\<exists>msg sec. c = Inl (HttpException 423 msg sec)) \<and> mem_tally ''rate'' now email s' r
     else mem_tally ''rate'' now email s' (r + 1) \<and>
       (if r + 1 \<le> 5 then c = Inr () else (\<exists>msg sec. c = Inl (HttpException 429 msg sec))))"
  using memory.assertCanAttempt_effect [OF assms [unfolded mem_tally_eq], of h]
  unfolding mem_tally_eq mem_locked_eq by blast

theorem assertCanAttempt_gate_witness:
  "\<exists>c s'. assertCanAttempt (MemoryLoginAttemptStore plain_host) 1000 ''x@y.z'' ninth_failure = (c, s') \<and>
     c = Inr () \<and> mem_tally ''rate'' 1000 ''x@y.z'' s' 1"
proof -
  have "mem_tally ''rate'' 1000 ''x@y.z'' ninth_failure 0" "\<not> mem_locked 1000 ''x@y.z'' ninth_failure"
    by (simp_all add: mem_tally_def mem_locked_def mem_entry_def ninth_failure_def jm_get_def)
  then show ?thesis using assertCanAttempt_gate [of 1000 "''x@y.z''" ninth_failure 0 plain_host] by auto
qed

end
