(* ===== verification/Auth_Service.thy ===== *)
theory Auth_Service
  imports User_Service Refresh_Tokens Account_Lockout
begin

text \<open>
  The authentication service (\<^verbatim>\<open>auth/auth.service.ts\<close>) over the users, the password resets, the
  refresh tokens, the brute-force protection and the mailer (\<^verbatim>\<open>auth/email.service.ts\<close>).  The
  password hash, the token signature and the mail transport are library calls and parameters;
  random strings and salts are arguments.
\<close>

definition ACCESS_TOKEN_EXPIRY :: string where "ACCESS_TOKEN_EXPIRY = ''15m''"
definition BCRYPT_SALT_ROUNDS :: nat where "BCRYPT_SALT_ROUNDS = 12"

record PasswordReset =
  pr_id :: "nat option"
  pr_tokenHash :: string
  pr_expiresAt :: int
  pr_userId :: int

type_synonym mail = "string \<times> string \<times> string"

record 'm auth_world =
  aw_users :: "User list"
  aw_resets :: "PasswordReset list"
  aw_auth :: auth_db
  aw_lock :: "'m lockout"
  aw_mails :: "mail list"

record 'm auth_service =
  sv_auth :: auth_deps
  sv_users :: user_repo
  sv_resets :: "(PasswordReset, js_error) repo"
  sv_store :: "'m attempt_store"
  sv_hash :: "string \<Rightarrow> nat \<Rightarrow> string \<Rightarrow> string"
  sv_compare :: "string \<Rightarrow> string \<Rightarrow> bool"
  sv_sign :: "js_record \<Rightarrow> string \<Rightarrow> string"
  sv_transport :: "mail \<Rightarrow> (mail list, js_error, unit) act"
  sv_frontendUrl :: "string option"

type_synonym ('m, 'a) svc_act = "('m auth_world, js_error, 'a) act"

definition on_users :: "'a user_act \<Rightarrow> ('m, 'a) svc_act" where
  "on_users = zoom aw_users (\<lambda>t s. s\<lparr>aw_users := t\<rparr>)"

definition on_resets :: "(PasswordReset list, js_error, 'a) act \<Rightarrow> ('m, 'a) svc_act" where
  "on_resets = zoom aw_resets (\<lambda>t s. s\<lparr>aw_resets := t\<rparr>)"

definition on_auth :: "'a auth_act \<Rightarrow> ('m, 'a) svc_act" where
  "on_auth = zoom aw_auth (\<lambda>t s. s\<lparr>aw_auth := t\<rparr>)"

definition on_lock :: "('m, 'a) lockout_act \<Rightarrow> ('m, 'a) svc_act" where
  "on_lock = zoom aw_lock (\<lambda>t s. s\<lparr>aw_lock := t\<rparr>)"

text \<open>The number of a stored user, and the user a relation column points to.\<close>

definition user_number :: "User \<Rightarrow> int" where
  "user_number u = (case us_id u of Some i \<Rightarrow> int i | None \<Rightarrow> 0)"

definition related_user :: "int \<Rightarrow> 'm auth_world \<Rightarrow> User option" where
  "related_user i w = List.find (\<lambda>u. us_id u \<noteq> None \<and> user_number u = i) (aw_users w)"

definition null_property :: "string \<Rightarrow> js_error" where
  "null_property p = JsError ''TypeError'' (''Cannot read properties of null (reading '' @ [CHR 0x27] @ p @ [CHR 0x27] @ '')'') []"

section \<open>Mail\<close>

text \<open>A failing transport is logged and answered with \<^verbatim>\<open>false\<close>.\<close>

definition sendMail :: "'m auth_service \<Rightarrow> string \<Rightarrow> string \<Rightarrow> string \<Rightarrow> ('m, bool) svc_act" where
  "sendMail V to subject html = zoom aw_mails (\<lambda>t s. s\<lparr>aw_mails := t\<rparr>)
     (act_catch (act_seq (sv_transport V (to, subject, html)) (act_ret True)) (\<lambda>_. act_ret False))"

section \<open>Password reset\<close>

definition reset_html :: "string \<Rightarrow> string" where
  "reset_html resetUrl = ''<p>You requested a password reset. <a href='' @ [CHR 0x22] @ resetUrl @ [CHR 0x22] @
     ''>Click here to reset your password</a>. This link will expire in 15 minutes.</p>''"

definition baseUrl :: "'m auth_service \<Rightarrow> string" where
  "baseUrl V = (case sv_frontendUrl V of
      None \<Rightarrow> ''http://localhost:3000'' | Some u \<Rightarrow> if u = [] then ''http://localhost:3000'' else u)"

definition forgotPassword :: "'m auth_service \<Rightarrow> int \<Rightarrow> string \<Rightarrow> string \<Rightarrow> ('m, unit) svc_act" where
  "forgotPassword V now token email =
    act_bind (on_users (findByEmail (sv_users V) (trim (toLowerCase email)))) (\<lambda>found. case found of
      None \<Rightarrow> act_ret ()
    | Some user \<Rightarrow>
        act_seq (on_resets (r_delete (sv_resets V) (\<lambda>r. pr_userId r = user_number user)))
          (act_seq (on_resets (r_save (sv_resets V) \<lparr>pr_id = None, pr_tokenHash = sha256 (a_host (sv_auth V)) token,
              pr_expiresAt = now + 15 * 60000, pr_userId = user_number user\<rparr>))
            (act_seq (sendMail V (us_email user) ''Password Reset Request''
                (reset_html (baseUrl V @ ''/reset-password?token='' @ token)))
              (act_ret ()))))"

definition resetPassword :: "'m auth_service \<Rightarrow> int \<Rightarrow> string \<Rightarrow> string \<Rightarrow> string \<Rightarrow> ('m, unit) svc_act" where
  "resetPassword V now salt token newPassword =
    act_bind (on_resets (r_findOne (sv_resets V) (\<lambda>r. pr_tokenHash r = sha256 (a_host (sv_auth V)) token \<and> pr_expiresAt r > now)))
      (\<lambda>found. case found of
        None \<Rightarrow> act_throw (UnauthorizedException ''The password reset link is invalid or has expired.'')
      | Some reset \<Rightarrow>
          act_bind (act_get (related_user (pr_userId reset))) (\<lambda>u. case u of
            None \<Rightarrow> act_throw (null_property ''password'')
          | Some user \<Rightarrow>
              act_seq (on_users (user_create (sv_users V) (user\<lparr>us_password := sv_hash V newPassword BCRYPT_SALT_ROUNDS salt\<rparr>)))
                (act_seq (on_resets (r_delete (sv_resets V) (\<lambda>r. pr_id r = pr_id reset))) (act_ret ()))))"

section \<open>Sign-up and sign-in\<close>

fun role_name :: "user_role \<Rightarrow> string" where
  "role_name Role_user = ''user''"
| "role_name Role_admin = ''admin''"

definition generateAccessToken :: "'m auth_service \<Rightarrow> int \<Rightarrow> string \<Rightarrow> user_role \<Rightarrow> string" where
  "generateAccessToken V userId email role =
     sv_sign V [(''sub'', Num (num userId)), (''email'', Str email), (''roles'', Arr [Str (role_name role)])] ACCESS_TOKEN_EXPIRY"

record auth_answer =
  an_access_token :: string
  an_refresh_token :: string
  an_user :: "(int \<times> string \<times> string option) option"
  an_success_message :: "string option"

definition ConflictException :: "string \<Rightarrow> js_error" where
  "ConflictException message = JsError ''ConflictException'' message []"

text \<open>A new account: the database fills in the role, the digest preference and the dates.\<close>

definition new_account :: "string \<Rightarrow> string \<Rightarrow> string \<Rightarrow> User" where
  "new_account username email password = \<lparr>us_id = None, us_email = email, us_role = Role_user, us_password = password,
     us_username = Some username, us_walletAddress = None, us_digestOptIn = True, us_avatarUrl = None,
     us_createdAt = 0, us_updatedAt = 0\<rparr>"

text \<open>The tokens of a user who has just signed up or in.\<close>

definition issue_tokens ::
    "'m auth_service \<Rightarrow> int \<Rightarrow> string \<Rightarrow> string \<Rightarrow> User \<Rightarrow> string option \<Rightarrow> string option \<Rightarrow> string option \<Rightarrow> ('m, auth_answer) svc_act" where
  "issue_tokens V now rawToken uuid user userAgent ipAddress message =
    (let access_token = generateAccessToken V (user_number user) (us_email user) (us_role user) in
     act_bind (on_auth (generateRefreshToken (sv_auth V) now rawToken uuid (us_email user) (user_number user) userAgent ipAddress))
       (\<lambda>(token, _). act_ret \<lparr>an_access_token = access_token, an_refresh_token = token,
          an_user = Some (user_number user, us_email user, us_username user), an_success_message = message\<rparr>))"

definition signup ::
    "'m auth_service \<Rightarrow> int \<Rightarrow> string \<Rightarrow> string \<Rightarrow> string \<Rightarrow> string \<Rightarrow> string \<Rightarrow> string \<Rightarrow> string option \<Rightarrow> string option \<Rightarrow>
     ('m, auth_answer) svc_act" where
  "signup V now salt rawToken uuid email password username userAgent ipAddress =
    (let standardizedEmail = trim (toLowerCase email) in
     act_bind (on_users (findByEmail (sv_users V) standardizedEmail)) (\<lambda>existingByEmail.
       if existingByEmail \<noteq> None then act_throw (ConflictException ''Email already exists'')
       else act_bind (on_users (findByUserName (sv_users V) username)) (\<lambda>existingUserName.
         if existingUserName \<noteq> None then act_throw (ConflictException ''Username already exists'')
         else act_bind (on_users (user_create (sv_users V)
             (new_account username standardizedEmail (sv_hash V password BCRYPT_SALT_ROUNDS salt)))) (\<lambda>newUser.
           issue_tokens V now rawToken uuid newUser userAgent ipAddress None))))"

definition login ::
    "'m auth_service \<Rightarrow> int \<Rightarrow> string \<Rightarrow> string \<Rightarrow> string \<Rightarrow> string \<Rightarrow> string option \<Rightarrow> string option \<Rightarrow> ('m, auth_answer) svc_act" where
  "login V now rawToken uuid email password userAgent ipAddress =
    (let normalizedEmail = trim (toLowerCase email);
         attemptCtx = \<lparr>ctx_ipAddress = ipAddress, ctx_userAgent = userAgent\<rparr> in
     act_seq (on_lock (assertCanAttempt (sv_store V) now normalizedEmail))
       (act_bind (on_users (findByEmail (sv_users V) normalizedEmail)) (\<lambda>found.
         case (case found of Some u \<Rightarrow> if sv_compare V password (us_password u) then Some u else None | None \<Rightarrow> None) of
           None \<Rightarrow> act_seq (on_lock (recordFailure (a_host (sv_auth V)) (sv_store V) now normalizedEmail attemptCtx))
               (act_throw (UnauthorizedException ''Invalid credentials''))
         | Some user \<Rightarrow> act_seq (on_lock (recordSuccess (sv_store V) normalizedEmail))
               (issue_tokens V now rawToken uuid user userAgent ipAddress (Some ''Sign in Successful'')))))"

section \<open>The other endpoints\<close>

definition getProfile :: "'m auth_service \<Rightarrow> nat \<Rightarrow> ('m, int \<times> string \<times> int) svc_act" where
  "getProfile V userId = act_bind (on_users (findById (sv_users V) userId)) (\<lambda>found. case found of
      None \<Rightarrow> act_throw (UnauthorizedException ''User not found'')
    | Some user \<Rightarrow> act_ret (user_number user, us_email user, us_createdAt user))"

definition refreshTokens ::
    "'m auth_service \<Rightarrow> int \<Rightarrow> string \<Rightarrow> string \<Rightarrow> string option \<Rightarrow> string option \<Rightarrow> ('m, auth_answer) svc_act" where
  "refreshTokens V now rawToken refreshToken userAgent ipAddress =
    act_bind (on_auth (validateRefreshToken (sv_auth V) now refreshToken)) (\<lambda>tokenData.
      act_bind (act_get (related_user (rt_userId tokenData))) (\<lambda>u. case u of
        None \<Rightarrow> act_throw (null_property ''id'')
      | Some user \<Rightarrow>
          act_bind (on_auth (rotateRefreshToken (sv_auth V) now rawToken refreshToken (rt_walletAddress tokenData)
              (user_number user) userAgent ipAddress)) (\<lambda>(newRefreshToken, _).
            act_ret \<lparr>an_access_token = generateAccessToken V (user_number user) (us_email user) (us_role user),
              an_refresh_token = newRefreshToken, an_user = None, an_success_message = None\<rparr>)))"

definition logout :: "'m auth_service \<Rightarrow> int \<Rightarrow> string \<Rightarrow> ('m, unit) svc_act" where
  "logout V now refreshToken = on_auth (revokeRefreshToken (sv_auth V) now refreshToken)"

definition unlockAccount :: "'m auth_service \<Rightarrow> int \<Rightarrow> string \<Rightarrow> string \<Rightarrow> ('m, bool) svc_act" where
  "unlockAccount V now email adminEmail = on_lock (unlock (sv_store V) now email adminEmail)"

definition getSessions :: "'m auth_service \<Rightarrow> string \<Rightarrow> ('m, AuthSession list) svc_act" where
  "getSessions V walletAddress = on_auth (getActiveSessions (sv_auth V) walletAddress)"

section \<open>Lemmas\<close>

lemma norm_email_idem: "norm_email (trim (toLowerCase email)) = norm_email email"
  by (simp add: norm_email_def trim_toLowerCase)

lemma lock_key_norm: "lock_key kind (trim (toLowerCase email)) = lock_key kind email"
  by (simp add: lock_key_def norm_email_idem)

lemma us_body_email: "us_body a = us_body b \<Longrightarrow> us_email a = us_email b"
  and us_body_password: "us_body a = us_body b \<Longrightarrow> us_password a = us_password b"
  by (cases a; cases b; simp)+

lemma deactivate_all_returns:
  assumes "repo_reliable R"
  shows "\<exists>t'. deactivate_all R es t = (Inr (), t')"
proof (induction es arbitrary: t)
  case Nil
  then show ?case by (simp add: act_ret_def)
next
  case (Cons e es)
  obtain e' t1 where "r_save R (e\<lparr>se_isActive := False\<rparr>) t = (Inr e', t1)" using assms by (rule reliable_save)
  then show ?case using Cons by simp
qed

lemma enforce_returns:
  assumes "repo_reliable (a_sessions D)"
  shows "\<exists>s'. enforceConcurrentSessionLimit D w s = (Inr (), s')"
proof -
  obtain es t' where f: "r_find (a_sessions D) (\<lambda>s. se_walletAddress s = w \<and> se_isActive s) (\<lambda>a b. se_createdAt a > se_createdAt b)
      (db_sessions s) = (Inr es, t')" using assms by (rule reliable_find)
  obtain t2 where "deactivate_all (a_sessions D) (take (length es - MAX_SESSIONS_PER_WALLET + 1) es) t' = (Inr (), t2)"
    using deactivate_all_returns [OF assms] by blast
  then show ?thesis using f by (simp add: enforceConcurrentSessionLimit_def on_auth_sessions_def act_defs)
qed

lemma generate_returns:
  assumes "repo_reliable (a_tokens D)" "repo_reliable (a_sessions D)"
  shows "\<exists>x s'. generateRefreshToken D now raw uuid w u ua ip s = (Inr (raw, x), s')"
proof -
  let ?e = "\<lparr>rt_id = None, rt_tokenHash = sha256 (a_host D) raw, rt_walletAddress = w,
         rt_expiresAt = now + REFRESH_TOKEN_EXPIRY_DAYS * 86400000, rt_revokedAt = None, rt_usedAt = None, rt_familyId = uuid,
         rt_depth = 0, rt_userAgent = ua, rt_ipAddress = ip, rt_userId = u\<rparr>"
  obtain e' t where s: "r_save (a_tokens D) ?e (db_tokens s) = (Inr e', t)" using assms(1) by (rule reliable_save)
  obtain s' where "enforceConcurrentSessionLimit D w (s\<lparr>db_tokens := t\<rparr>) = (Inr (), s')"
    using enforce_returns [OF assms(2)] by blast
  then show ?thesis using s
    by (simp add: generateRefreshToken_def issueToken_def Let_def on_tokens_def zoom_def act_bind_def act_seq_def act_ret_def)
qed

lemmas svc_acts = on_users_def on_resets_def on_auth_def on_lock_def zoom_def act_bind_def act_seq_def act_ret_def act_throw_def

text \<open>The user a login finds: the row of the address, if the password fits.\<close>

definition login_user :: "'m auth_service \<Rightarrow> string \<Rightarrow> string \<Rightarrow> 'm auth_world \<Rightarrow> User option" where
  "login_user V email password w = (case row_of us_email (trim (toLowerCase email)) (aw_users w) of
      Some u \<Rightarrow> if sv_compare V password (us_password u) then Some u else None
    | None \<Rightarrow> None)"

lemma findByEmail_row:
  assumes "repo_ok us_id us_body R" "repo_reliable R" "inj_on us_email (set t)"
  shows "findByEmail R email t = (Inr (row_of us_email email t), t)"
proof -
  obtain x where x: "findByEmail R email t = (Inr x, t)"
    "case x of None \<Rightarrow> \<forall>u \<in> set t. us_email u \<noteq> email | Some u \<Rightarrow> u \<in> set t \<and> us_email u = email"
    using findByEmail_run [OF assms(1,2)] .
  then have "x = row_of us_email email t"
    using row_of_None [of us_email email t] row_of_inj [OF assms(3)] by (cases x) (simp_all, metis)
  then show ?thesis using x(1) by simp
qed

definition users_ok :: "'m auth_service \<Rightarrow> 'm auth_world \<Rightarrow> bool" where
  "users_ok V w \<longleftrightarrow> repo_ok us_id us_body (sv_users V) \<and> repo_reliable (sv_users V) \<and>
     repo_reliable (a_tokens (sv_auth V)) \<and> repo_reliable (a_sessions (sv_auth V)) \<and> inj_on us_email (set (aw_users w))"

text \<open>A login after the gate.\<close>

lemma login_passed:
  assumes V: "users_ok V w" and g: "assertCanAttempt (sv_store V) now (trim (toLowerCase email)) (aw_lock w) = (Inr (), l)"
  shows "login_user V email pw w = None \<Longrightarrow>
      recordFailure (a_host (sv_auth V)) (sv_store V) now (trim (toLowerCase email)) \<lparr>ctx_ipAddress = ip, ctx_userAgent = ua\<rparr> l = (Inr (), l') \<Longrightarrow>
      login V now raw uuid email pw ua ip w = (Inl (UnauthorizedException ''Invalid credentials''), w\<lparr>aw_lock := l'\<rparr>)"
    and "login_user V email pw w = Some u \<Longrightarrow> recordSuccess (sv_store V) (trim (toLowerCase email)) l = (Inr (), l') \<Longrightarrow>
      \<exists>a w'. login V now raw uuid email pw ua ip w = (Inr a, w') \<and> aw_users w' = aw_users w \<and> aw_lock w' = l' \<and>
        an_refresh_token a = raw \<and> an_user a = Some (user_number u, us_email u, us_username u)"
proof -
  let ?E = "trim (toLowerCase email)"
  have f: "findByEmail (sv_users V) ?E (aw_users w) = (Inr (row_of us_email ?E (aw_users w)), aw_users w)"
    using findByEmail_row V unfolding users_ok_def by blast
  note L = login_def Let_def svc_acts g f
  show "login V now raw uuid email pw ua ip w = (Inl (UnauthorizedException ''Invalid credentials''), w\<lparr>aw_lock := l'\<rparr>)"
    if n: "login_user V email pw w = None" and r: "recordFailure (a_host (sv_auth V)) (sv_store V) now ?E \<lparr>ctx_ipAddress = ip, ctx_userAgent = ua\<rparr> l = (Inr (), l')"
    using n f by (simp add: L r login_user_def)
  show "\<exists>a w'. login V now raw uuid email pw ua ip w = (Inr a, w') \<and> aw_users w' = aw_users w \<and> aw_lock w' = l' \<and>
        an_refresh_token a = raw \<and> an_user a = Some (user_number u, us_email u, us_username u)"
    if n: "login_user V email pw w = Some u" and r: "recordSuccess (sv_store V) ?E l = (Inr (), l')"
  proof -
    obtain x s' where "generateRefreshToken (sv_auth V) now raw uuid (us_email u) (user_number u) ua ip (aw_auth w) = (Inr (raw, x), s')"
      using generate_returns V unfolding users_ok_def by blast
    then show ?thesis using n f by (simp add: L r login_user_def issue_tokens_def)
  qed
qed

section \<open>Properties\<close>

text \<open>
  C4: a login checks the lock and the budget before any credential: a locked address is refused
  with 423 and the sixth attempt of a minute with 429, whatever the password.  After the gate a
  wrong password or an unknown address is refused alike and raises the streak of the address,
  the tenth in a row locking it; the right password clears the counters and answers with
  tokens for the user of that address.  No login changes a user.
\<close>

theorem login_gate:
  assumes "users_ok V w" "sv_store V = MemoryLoginAttemptStore h"
    and "mem_tally ''rate'' now email (aw_lock w) r" "r + 1 < 10 ^ 21"
    and "mem_tally ''fail'' now email (aw_lock w) f" "f + 1 < 10 ^ 21"
    and "mem_tally ''lockouts'' now email (aw_lock w) l" "l + 1 < 10 ^ 21"
  shows "\<exists>c w'. login V now raw uuid email pw ua ip w = (c, w') \<and> aw_users w' = aw_users w \<and>
    (if mem_locked now email (aw_lock w) then (\<exists>msg sec. c = Inl (HttpException 423 msg sec)) \<and> aw_auth w' = aw_auth w
     else if r + 1 > 5 then (\<exists>msg sec. c = Inl (HttpException 429 msg sec)) \<and> aw_auth w' = aw_auth w
     else (case login_user V email pw w of
         None \<Rightarrow> c = Inl (UnauthorizedException ''Invalid credentials'') \<and> aw_auth w' = aw_auth w \<and>
           (if f + 1 < 10 then mem_tally ''fail'' now email (aw_lock w') (f + 1) \<and> \<not> mem_locked now email (aw_lock w')
            else mem_locked now email (aw_lock w'))
       | Some u \<Rightarrow> (\<exists>a. c = Inr a \<and> an_refresh_token a = raw \<and> an_user a = Some (user_number u, us_email u, us_username u)) \<and>
           mem_tally ''fail'' now email (aw_lock w') 0 \<and> mem_tally ''rate'' now email (aw_lock w') 0))"
proof -
  let ?E = "trim (toLowerCase email)"
  note T = assms(3-8) [unfolded mem_tally_eq]
  have te: "memory.tally k t ?E = memory.tally k t email" "memory.locked_at t ?E = memory.locked_at t email" for k t
    by (simp_all add: fun_eq_iff memory.tally_def memory.locked_at_def lock_key_norm)
  obtain c s where g: "assertCanAttempt (sv_store V) now ?E (aw_lock w) = (c, s)"
    and lk: "\<forall>t \<ge> now. memory.locked_at t email s = memory.locked_at t email (aw_lock w)"
    and tl: "\<forall>kind \<in> {''fail'', ''lockouts''}. \<forall>n. memory.tally kind now email s n = memory.tally kind now email (aw_lock w) n"
    and v0: "if memory.locked_at now email (aw_lock w) then
       (\<exists>msg sec. c = Inl (HttpException 423 msg sec)) \<and> memory.tally ''rate'' now email s r
     else memory.tally ''rate'' now email s (r + 1) \<and>
       (if r + 1 \<le> 5 then c = Inr () else (\<exists>msg sec. c = Inl (HttpException 429 msg sec)))"
    using memory.assertCanAttempt_effect [of now ?E "aw_lock w" r h, unfolded te, OF T(1,2)] unfolding assms(2) by blast
  have v: "if memory.locked_at now email (aw_lock w) then \<exists>msg sec. c = Inl (HttpException 423 msg sec)
      else if r + 1 \<le> 5 then c = Inr () else \<exists>msg sec. c = Inl (HttpException 429 msg sec)"
    using v0 by presburger
  have fl: "memory.tally ''fail'' now ?E s f" "memory.tally ''lockouts'' now ?E s l" using tl T(3,5) by (simp_all add: te)
  show ?thesis
  proof (cases c)
    case (Inl e)
    then have "login V now raw uuid email pw ua ip w = (Inl e, w\<lparr>aw_lock := s\<rparr>)" using g by (simp add: login_def Let_def svc_acts)
    then show ?thesis using v Inl unfolding mem_locked_eq by (auto split: if_splits)
  next
    case (Inr u)
    then have g': "assertCanAttempt (sv_store V) now ?E (aw_lock w) = (Inr (), s)" using g by simp
    have free: "\<not> memory.locked_at now email (aw_lock w)" "\<not> r + 1 > 5" using v Inr by (auto split: if_splits)
    note P = login_passed [OF assms(1) g']
    show ?thesis
    proof (cases "login_user V email pw w")
      case None
      let ?ctx = "\<lparr>ctx_ipAddress = ip, ctx_userAgent = ua\<rparr>"
      obtain s' where r: "recordFailure (a_host (sv_auth V)) (sv_store V) now ?E ?ctx s = (Inr (), s')"
        "if f + 1 < 10 then memory.tally ''fail'' now ?E s' (f + 1) \<and> (\<forall>t \<ge> now. memory.locked_at t ?E s' = memory.locked_at t ?E s)
         else (\<forall>t \<ge> now. memory.locked_at t ?E s' = (t < now + min (30 * 2 ^ l) 1440 * 60000))"
        using memory.recordFailure_effect [OF fl(1) T(4) fl(2) T(6), of "a_host (sv_auth V)" h ?ctx] unfolding assms(2)
        by (elim exE conjE, intro that) (simp add: assms(2), simp split: if_splits)
      have "(0::int) < min (30 * 2 ^ l) 1440 * 60000" by simp
      then have "if f + 1 < 10 then memory.tally ''fail'' now email s' (f + 1) \<and> \<not> memory.locked_at now email s'
         else memory.locked_at now email s'"
        using r(2) lk free(1) unfolding te by (simp split: if_splits)
      then show ?thesis
        using P(1) [OF None r(1)] None free unfolding mem_tally_eq mem_locked_eq by (simp split: if_splits)
    next
      case (Some u)
      obtain s' where r: "recordSuccess (sv_store V) ?E s = (Inr (), s')" "memory.tally ''fail'' now ?E s' 0" "memory.tally ''rate'' now ?E s' 0"
        using memory.recordSuccess_effect [of h ?E s now] unfolding assms(2) by blast
      show ?thesis
        using P(2) [OF Some r(1), of raw uuid ua ip] r(2,3) Some free unfolding te mem_tally_eq mem_locked_eq by auto
    qed
  qed
qed

text \<open>A service, for concrete inputs: passwords are hashed by a prefix.\<close>

definition plain_service :: "attempt_data auth_service" where
  "plain_service = \<lparr>sv_auth = plain_auth, sv_users = user_mem,
     sv_resets = mem_repo pr_id (\<lambda>i r. r\<lparr>pr_id := Some i\<rparr>), sv_store = MemoryLoginAttemptStore plain_host,
     sv_hash = (\<lambda>p n s. ''h'' @ p), sv_compare = (\<lambda>p q. q = ''h'' @ p), sv_sign = (\<lambda>p x. ''jwt''),
     sv_transport = (\<lambda>m ms. (Inr (), ms @ [m])), sv_frontendUrl = None\<rparr>"

definition ninth_world :: "attempt_data auth_world" where
  "ninth_world = \<lparr>aw_users = [some_user 1], aw_resets = [], aw_auth = \<lparr>db_tokens = [], db_sessions = [], db_audit = []\<rparr>,
     aw_lock = ninth_failure, aw_mails = []\<rparr>"

lemma plain_service_ok: "users_ok plain_service ninth_world"
  by (simp add: users_ok_def plain_service_def plain_auth_def ninth_world_def user_mem_ok user_mem_reliable mem_repo_reliable)

theorem login_gate_witness:
  "\<exists>w'. login plain_service 1000 ''t'' ''f'' ''A@b.c'' ''wrong'' None None ninth_world =
      (Inl (UnauthorizedException ''Invalid credentials''), w') \<and> mem_locked 1000 ''A@b.c'' (aw_lock w')"
proof -
  have "norm_email ''A@b.c'' = norm_email ''a@b.c''" by code_simp
  then have k: "lock_key kind ''A@b.c'' = lock_key kind ''a@b.c''" for kind by (simp add: lock_key_def)
  have "show_nat 9 = ''9''" by code_simp
  then have t: "mem_tally ''rate'' 1000 ''A@b.c'' (aw_lock ninth_world) 0" "mem_tally ''fail'' 1000 ''A@b.c'' (aw_lock ninth_world) 9"
    "mem_tally ''lockouts'' 1000 ''A@b.c'' (aw_lock ninth_world) 0" "\<not> mem_locked 1000 ''A@b.c'' (aw_lock ninth_world)"
    by (simp_all add: mem_tally_def mem_locked_def mem_entry_def ninth_world_def ninth_failure_def expires_def k jm_get_def)
  have n: "login_user plain_service ''A@b.c'' ''wrong'' ninth_world = None" by code_simp
  have "sv_store plain_service = MemoryLoginAttemptStore plain_host" by (simp add: plain_service_def)
  from login_gate [OF plain_service_ok this t(1) _ t(2) _ t(3), of "''t''" "''f''" "''wrong''" None None]
  show ?thesis using t(4) n by auto
qed

text \<open>
  A valid reset link sets the password of its user, after which the new password fits the
  account of that address and no other account changed, and the link is spent: a second use is
  refused.
\<close>

theorem reset_once:
  assumes users: "repo_ok us_id us_body (sv_users V)" "repo_reliable (sv_users V)" "keyed us_id us_email (aw_users w)"
    and resets: "repo_ok pr_id (\<lambda>r. r\<lparr>pr_id := None\<rparr>) (sv_resets V)" "repo_reliable (sv_resets V)"
    and hash: "\<And>p n s. sv_compare V p (sv_hash V p n s)"
    and r: "r \<in> set (aw_resets w)" "pr_tokenHash r = sha256 (a_host (sv_auth V)) token" "now < pr_expiresAt r"
    and uniq: "\<forall>q \<in> set (aw_resets w). pr_tokenHash q = pr_tokenHash r \<longrightarrow> q = r"
    and u: "related_user (pr_userId r) w = Some user"
  shows "\<exists>w'. resetPassword V now salt token pw w = (Inr (), w') \<and>
    (\<exists>u'. row_of us_email (us_email user) (aw_users w') = Some u' \<and> us_id u' = us_id user \<and> sv_compare V pw (us_password u')) \<and>
    (\<forall>e. e \<noteq> us_email user \<longrightarrow> row_of us_email e (aw_users w') = row_of us_email e (aw_users w)) \<and>
    (\<forall>now' salt' pw'. resetPassword V now' salt' token pw' w' =
      (Inl (UnauthorizedException ''The password reset link is invalid or has expired.''), w'))"
proof -
  let ?h = "sha256 (a_host (sv_auth V)) token"
  obtain x t' where f0: "r_findOne (sv_resets V) (\<lambda>r. pr_tokenHash r = ?h \<and> pr_expiresAt r > now) (aw_resets w) = (Inr x, t')"
    using resets(2) by (rule reliable_findOne)
  note f = f0 [unfolded findOne_same [OF resets(1) f0]]
  have x: "x = Some r"
  proof (cases x)
    case None
    then show ?thesis using findOne_None [OF resets(1) f [unfolded None]] r by blast
  next
    case (Some q)
    have "q \<in> set (aw_resets w)" "pr_tokenHash q = ?h" using findOne_Some [OF resets(1) f [unfolded Some]] by blast+
    then have "q = r" using uniq r(2) by metis
    then show ?thesis using Some by simp
  qed
  have um: "user \<in> set (aw_users w)" using u find_SomeD unfolding related_user_def by fast
  then have row: "row_of us_email (us_email user) (aw_users w) = Some user" using row_of_inj [OF keyed_inj [OF users(3)]] by simp
  let ?u = "user\<lparr>us_password := sv_hash V pw BCRYPT_SALT_ROUNDS salt\<rparr>"
  obtain v t2 where sv: "r_save (sv_users V) ?u (aw_users w) = (Inr v, t2)" using users(2) by (rule reliable_save)
  have up: "us_body v = us_body ?u \<and> row_of us_email (us_email ?u) t2 = Some v \<and>
      (\<forall>k. k \<noteq> us_email ?u \<longrightarrow> row_of us_email k t2 = row_of us_email k (aw_users w))"
    using save_upsert [OF users(1,3) us_body_email _ sv] row by simp
  have vid: "us_id v = us_id user" using save_returns(3) [OF users(1) sv] users(3) um by (simp add: keyed_def)
  have vpw: "us_password v = sv_hash V pw BCRYPT_SALT_ROUNDS salt" using up us_body_password [of v ?u] by simp
  obtain n t3 where d: "r_delete (sv_resets V) (\<lambda>q. pr_id q = pr_id r) (aw_resets w) = (Inr n, t3)"
    using resets(2) by (rule reliable_delete)
  have run: "resetPassword V now salt token pw w = (Inr (), w\<lparr>aw_users := t2, aw_resets := t3\<rparr>)"
    using f x u sv d by (simp add: resetPassword_def svc_acts act_get_def user_create_def)
  have gone: "\<forall>q \<in> set t3. pr_tokenHash q \<noteq> ?h"
    unfolding delete_set [OF resets(1) d] using uniq r(2) by auto
  have again: "resetPassword V now' salt' token pw' (w\<lparr>aw_users := t2, aw_resets := t3\<rparr>) =
      (Inl (UnauthorizedException ''The password reset link is invalid or has expired.''), w\<lparr>aw_users := t2, aw_resets := t3\<rparr>)" for now' salt' pw'
  proof -
    obtain y t4 where g0: "r_findOne (sv_resets V) (\<lambda>r. pr_tokenHash r = ?h \<and> pr_expiresAt r > now') t3 = (Inr y, t4)"
      using resets(2) by (rule reliable_findOne)
    note g = g0 [unfolded findOne_same [OF resets(1) g0]]
    have "y = None"
    proof (cases y)
      case (Some q)
      then show ?thesis using findOne_Some [OF resets(1) g [unfolded Some]] gone by blast
    qed
    then show ?thesis using g by (simp add: resetPassword_def svc_acts)
  qed
  show ?thesis
    using run again up vid hash [of pw BCRYPT_SALT_ROUNDS salt] vpw by (intro exI [of _ "w\<lparr>aw_users := t2, aw_resets := t3\<rparr>"]) simp
qed

definition reset_world :: "attempt_data auth_world" where
  "reset_world = ninth_world\<lparr>aw_resets := [\<lparr>pr_id = Some 1, pr_tokenHash = ''tok'', pr_expiresAt = 5000, pr_userId = 1\<rparr>]\<rparr>"

theorem reset_once_witness:
  "\<exists>w'. resetPassword plain_service 1000 [] ''tok'' ''new'' reset_world = (Inr (), w') \<and>
    (\<exists>u'. row_of us_email ''a@b.c'' (aw_users w') = Some u' \<and> sv_compare plain_service ''new'' (us_password u'))"
proof -
  let ?r = "\<lparr>pr_id = Some 1, pr_tokenHash = ''tok'', pr_expiresAt = 5000, pr_userId = 1\<rparr> :: PasswordReset"
  have V: "repo_ok us_id us_body (sv_users plain_service)" "repo_reliable (sv_users plain_service)"
    "repo_reliable (sv_resets plain_service)" "\<And>p n s. sv_compare plain_service p (sv_hash plain_service p n s)"
    by (simp_all add: plain_service_def user_mem_ok user_mem_reliable mem_repo_reliable)
  have R: "repo_ok pr_id (\<lambda>r. r\<lparr>pr_id := None\<rparr>) (sv_resets plain_service)"
    unfolding plain_service_def by simp (rule mem_repo_ok; simp)
  have k: "keyed us_id us_email (aw_users reset_world)"
    by (simp add: keyed_def reset_world_def ninth_world_def some_user_def)
  have r: "?r \<in> set (aw_resets reset_world)" "pr_tokenHash ?r = sha256 (a_host (sv_auth plain_service)) ''tok''" "1000 < pr_expiresAt ?r"
    "\<forall>q \<in> set (aw_resets reset_world). pr_tokenHash q = pr_tokenHash ?r \<longrightarrow> q = ?r"
    by (simp_all add: reset_world_def plain_service_def plain_auth_def plain_host_def)
  have u: "related_user (pr_userId ?r) reset_world = Some (some_user 1)"
    by (simp add: related_user_def user_number_def reset_world_def ninth_world_def some_user_def)
  show ?thesis
    using reset_once [OF V(1,2) k R V(3,4) r u, of "[]" "''new''"] by (auto simp: some_user_def)
qed

end
