(* ===== verification/Dictionary_Helper.thy ===== *)
theory Dictionary_Helper
  imports Js_Values
begin

text \<open>
  Word enrichment (\<^verbatim>\<open>utils/dictionary.helper.ts\<close>): a bounded least-recently-used cache in front of a
  dictionary server that is asked up to three times.  The answer of the server to each attempt
  is an argument; waiting has no effect on the state and the delays are part of the result.
\<close>

record EnrichedWord =
  ew_id :: string
  ew_word :: string
  ew_definition :: "string option"
  ew_example :: "string option"
  ew_partOfSpeech :: "string option"
  ew_phonetics :: "string option"
  ew_isEnriched :: bool

record word_definition =
  df_definition :: string
  df_example :: "string option"

record word_meaning =
  mn_partOfSpeech :: string
  mn_definitions :: "word_definition list"

text \<open>A response of the server; the list of phonetic texts stands for the phonetics.\<close>

record DictionaryApiResponse =
  ap_word :: string
  ap_phonetics :: "string option list option"
  ap_meanings :: "word_meaning list option"

section \<open>The cache\<close>

type_synonym lru = "(string, EnrichedWord) jmap"

definition maxRetries :: nat where "maxRetries = 3"
definition baseDelay :: nat where "baseDelay = 1000"

definition getCached :: "string \<Rightarrow> lru \<Rightarrow> EnrichedWord option \<times> lru" where
  "getCached word cache = (case jm_get word cache of
      None \<Rightarrow> (None, cache)
    | Some entry \<Rightarrow> (Some entry, jm_set word entry (jm_delete word cache)))"

definition setCached :: "nat \<Rightarrow> string \<Rightarrow> EnrichedWord \<Rightarrow> lru \<Rightarrow> lru" where
  "setCached maxCacheSize word entry cache =
    (let c1 = (if jm_get word cache \<noteq> None then jm_delete word cache else cache);
         c2 = jm_set word entry c1 in
     if length c2 > maxCacheSize
     then (case c2 of (oldest, _) # _ \<Rightarrow> jm_delete oldest c2 | [] \<Rightarrow> c2)
     else c2)"

definition getCacheSize :: "lru \<Rightarrow> nat" where
  "getCacheSize cache = length cache"

definition isCached :: "string \<Rightarrow> lru \<Rightarrow> bool" where
  "isCached word cache = (jm_get word cache \<noteq> None)"

section \<open>The server\<close>

text \<open>
  An attempt is answered with a body, with an HTTP error and its retry-after header, or fails
  without a response.  An unparsable header is \<^verbatim>\<open>NaN\<close>, as are the milliseconds computed from it.
\<close>

datatype attempt_result =
    Answer "DictionaryApiResponse list option"
  | HttpError nat "string option"
  | NetworkError

definition calculateBackoffDelay :: "nat \<Rightarrow> jsnum" where
  "calculateBackoffDelay attempt = num (int (min (baseDelay * 2 ^ (attempt - 1)) 10000))"

definition retry_delay :: "string option \<Rightarrow> nat \<Rightarrow> jsnum" where
  "retry_delay retryAfter attempt = (case retryAfter of
      None \<Rightarrow> calculateBackoffDelay attempt
    | Some s \<Rightarrow> if s = [] then calculateBackoffDelay attempt else num_mul (js_parseInt s) (num 1000))"

text \<open>
  \<^verbatim>\<open>fetch_from\<close> is the loop from an attempt on, with the number of attempts left; it returns the
  error that is thrown or the body, and the delays waited.
\<close>

fun fetch_from :: "nat \<Rightarrow> nat \<Rightarrow> (nat \<Rightarrow> attempt_result) \<Rightarrow> attempt_result option \<Rightarrow>
    (attempt_result option + DictionaryApiResponse list option) \<times> jsnum list" where
  "fetch_from 0 attempt answers lastError = (Inl lastError, [])"
| "fetch_from (Suc n) attempt answers lastError =
    (case answers attempt of
       Answer body \<Rightarrow> (Inr body, [])
     | HttpError status retryAfter \<Rightarrow>
         if status = 404 \<or> (status \<ge> 400 \<and> status < 500 \<and> status \<noteq> 429) then (Inl (Some (HttpError status retryAfter)), [])
         else if status = 429 then
           (case fetch_from n (attempt + 1) answers (Some (HttpError status retryAfter)) of
              (r, ds) \<Rightarrow> (r, retry_delay retryAfter attempt # ds))
         else
           (case fetch_from n (attempt + 1) answers (Some (HttpError status retryAfter)) of
              (r, ds) \<Rightarrow> (r, if attempt < maxRetries then calculateBackoffDelay attempt # ds else ds))
     | NetworkError \<Rightarrow>
         (case fetch_from n (attempt + 1) answers (Some NetworkError) of
            (r, ds) \<Rightarrow> (r, if attempt < maxRetries then calculateBackoffDelay attempt # ds else ds)))"

definition fetchWithRetry :: "(nat \<Rightarrow> attempt_result) \<Rightarrow>
    (attempt_result option + DictionaryApiResponse list option) \<times> jsnum list" where
  "fetchWithRetry answers = fetch_from maxRetries 1 answers None"

text \<open>An empty string counts as absent.\<close>

definition nonempty :: "string option \<Rightarrow> string option" where
  "nonempty s = (if s = Some [] then None else s)"

definition transformApiResponse :: "DictionaryApiResponse \<Rightarrow> EnrichedWord \<Rightarrow> EnrichedWord" where
  "transformApiResponse apiData baseWord =
    (let e0 = baseWord\<lparr>ew_isEnriched := True\<rparr>;
         e1 = (case ap_phonetics apiData of
                 None \<Rightarrow> e0
               | Some ps \<Rightarrow> (case List.find (\<lambda>p. nonempty p \<noteq> None) ps of
                     Some (Some txt) \<Rightarrow> e0\<lparr>ew_phonetics := Some txt\<rparr> | _ \<Rightarrow> e0))
     in case ap_meanings apiData of
          Some (m # _) \<Rightarrow>
            (let e2 = (if mn_partOfSpeech m \<noteq> [] then e1\<lparr>ew_partOfSpeech := Some (mn_partOfSpeech m)\<rparr> else e1)
             in case mn_definitions m of
                  d # _ \<Rightarrow>
                    (let e3 = (if df_definition d \<noteq> [] then e2\<lparr>ew_definition := Some (df_definition d)\<rparr> else e2)
                     in case nonempty (df_example d) of Some x \<Rightarrow> e3\<lparr>ew_example := Some x\<rparr> | None \<Rightarrow> e3)
                | [] \<Rightarrow> e2)
        | _ \<Rightarrow> e1)"

definition enrichWordWithMetadata ::
    "nat \<Rightarrow> (nat \<Rightarrow> attempt_result) \<Rightarrow> string \<Rightarrow> string \<Rightarrow> lru \<Rightarrow> EnrichedWord \<times> lru" where
  "enrichWordWithMetadata maxCacheSize answers word wordId cache =
    (let baseWord = \<lparr>ew_id = wordId, ew_word = word, ew_definition = None, ew_example = None, ew_partOfSpeech = None,
           ew_phonetics = None, ew_isEnriched = False\<rparr>
     in case getCached word cache of
          (Some entry, cache') \<Rightarrow> (entry, cache')
        | (None, cache') \<Rightarrow>
            (case fst (fetchWithRetry answers) of
               Inr (Some (wordData # _)) \<Rightarrow>
                 (let enrichedWord = transformApiResponse wordData baseWord
                  in (enrichedWord, setCached maxCacheSize word enrichedWord cache'))
             | _ \<Rightarrow> (baseWord, cache')))"

section \<open>The cache keeps the most recently used words\<close>

text \<open>
  The specification: with \<^verbatim>\<open>h\<close> the words stored or found so far, in order, the keys are the last
  \<^verbatim>\<open>n\<close> distinct words of \<^verbatim>\<open>h\<close>, the most recent at the end.
\<close>

definition last_n :: "nat \<Rightarrow> 'a list \<Rightarrow> 'a list" where
  "last_n n xs = drop (length xs - n) xs"

definition recent :: "nat \<Rightarrow> string list \<Rightarrow> string list" where
  "recent n h = last_n n (remdups h)"

lemma remdups_snoc: "remdups (h @ [w]) = removeAll w (remdups h) @ [w]"
  by (induction h) auto

lemma last_n_snoc: "0 < n \<Longrightarrow> last_n n (xs @ [w]) = last_n (n - 1) xs @ [w]"
  by (cases n) (simp_all add: last_n_def)

lemma length_last_n [simp]: "length (last_n n xs) = min n (length xs)"
  by (simp add: last_n_def)

lemma last_n_split: "\<exists>ys. xs = ys @ last_n n xs"
  unfolding last_n_def by (metis append_take_drop_id)

text \<open>Touching a word: it moves to the end, and the list is cut to the bound.\<close>

lemma recent_touch:
  assumes "0 < n"
  shows "recent n (h @ [w]) = last_n n (removeAll w (recent n h) @ [w])"
proof -
  let ?r = "remdups h"
  obtain ys where ys: "?r = ys @ last_n n ?r" using last_n_split by blast
  have d: "distinct (ys @ last_n n ?r)" using ys by (metis distinct_remdups)
  have "last_n (n - 1) (removeAll w ?r) = last_n (n - 1) (removeAll w (last_n n ?r))"
  proof (cases "length ?r \<le> n")
    case True
    then have "last_n n ?r = ?r" by (simp add: last_n_def)
    then show ?thesis by simp
  next
    case False
    have "distinct (last_n n ?r)" using d by simp
    then have "n - 1 \<le> length (removeAll w (last_n n ?r))"
      using False by (simp add: distinct_remove1_removeAll [symmetric] length_remove1)
    then have "last_n (n - 1) (removeAll w ys @ removeAll w (last_n n ?r)) = last_n (n - 1) (removeAll w (last_n n ?r))"
      by (simp add: last_n_def)
    then show ?thesis using ys by (metis removeAll_append)
  qed
  then show ?thesis
    using assms by (simp add: recent_def remdups_snoc last_n_snoc)
qed

lemma keys_delete: "map fst (jm_delete k m) = removeAll k (map fst m)"
  by (induction m) (auto simp: jm_delete_def)

lemma distinct_last_n: "distinct xs \<Longrightarrow> distinct (last_n n xs)"
  by (simp add: last_n_def)

lemma keys_touch: "map fst (jm_set k v (jm_delete k m)) = removeAll k (map fst m) @ [k]"
  by (simp add: jm_set_new keys_delete)

lemma delete_absent: "jm_get k m = None \<Longrightarrow> jm_delete k m = m"
  by (auto simp: jm_delete_def jm_get_None image_iff intro!: filter_True)

lemma keys_setCached:
  assumes "jm_wf m" "length m \<le> n" "0 < n"
  shows "map fst (setCached n w e m) = last_n n (removeAll w (map fst m) @ [w])"
proof -
  let ?c = "jm_set w e (jm_delete w m)"
  have c: "setCached n w e m = (if length ?c > n then (case ?c of (k, _) # _ \<Rightarrow> jm_delete k ?c | [] \<Rightarrow> ?c) else ?c)"
    by (cases "jm_get w m") (simp_all add: setCached_def Let_def delete_absent split: list.split)
  have keys: "map fst ?c = removeAll w (map fst m) @ [w]" by (rule keys_touch)
  have len: "length ?c = length (removeAll w (map fst m)) + 1" using arg_cong [OF keys, of length] by simp
  have d: "distinct (map fst ?c)" using assms(1) keys by (simp add: jm_wf_def distinct_removeAll)
  show ?thesis
  proof (cases "length ?c > n")
    case False
    then show ?thesis using c keys len by (simp add: last_n_def)
  next
    case True
    have "length (removeAll w (map fst m)) \<le> length m" by (metis length_map length_removeAll_less_eq)
    then have l: "length ?c = Suc n" using True len assms(2) by simp
    then obtain k v r where r: "?c = (k, v) # r" by (cases ?c) auto
    have "map fst (jm_delete k ?c) = map fst r" using d r by (simp add: keys_delete)
    moreover have "last_n n (map fst ?c) = map fst r" using l r by (simp add: last_n_def)
    ultimately show ?thesis using True c r keys by simp
  qed
qed

definition lru_state :: "nat \<Rightarrow> string list \<Rightarrow> lru \<Rightarrow> bool" where
  "lru_state n h c \<longleftrightarrow> map fst c = recent n h"

lemma lru_state_wf: "lru_state n h c \<Longrightarrow> jm_wf c \<and> length c \<le> n"
proof -
  assume a: "lru_state n h c"
  then have "length (map fst c) = length (recent n h)" by (simp add: lru_state_def)
  moreover have "distinct (recent n h)" by (simp add: recent_def distinct_last_n)
  ultimately show ?thesis using a by (simp add: lru_state_def jm_wf_def recent_def)
qed

lemma lru_store: "0 < n \<Longrightarrow> lru_state n h c \<Longrightarrow> lru_state n (h @ [w]) (setCached n w e c)"
  using lru_state_wf [of n h c] by (simp add: lru_state_def keys_setCached recent_touch)

lemma lru_hit:
  assumes "0 < n" "lru_state n h c" "getCached w c = (Some e, c')"
  shows "lru_state n (h @ [w]) c'"
proof -
  have e: "jm_get w c = Some e" "c' = jm_set w e (jm_delete w c)"
    using assms(3) by (auto simp: getCached_def split: option.splits)
  have "w \<in> fst ` set c" using e(1) jm_get_None [of w c] by simp
  then have "w \<in> set (map fst c)" by simp
  moreover have "distinct (map fst c)" using lru_state_wf [OF assms(2)] by (simp add: jm_wf_def)
  ultimately have "length (removeAll w (map fst c)) = length (map fst c) - 1" "0 < length (map fst c)"
    by (auto simp: distinct_remove1_removeAll [symmetric] length_remove1 length_pos_if_in_set)
  then have "length (removeAll w (map fst c) @ [w]) \<le> n" using lru_state_wf [OF assms(2)] by simp
  then have "last_n n (removeAll w (map fst c) @ [w]) = removeAll w (map fst c) @ [w]" by (simp add: last_n_def)
  then show ?thesis using assms(1,2) e(2) by (simp add: lru_state_def recent_touch keys_touch)
qed

text \<open>
  C14: after any sequence of enrichments, starting from an empty cache of capacity \<^verbatim>\<open>n\<close>, the keys
  of the cache are the \<^verbatim>\<open>n\<close> most recently used of the words that were enriched or found in it,
  in the order of their last use; a word found is answered from the cache whatever the server
  would say, and a word that could not be enriched is not kept.
\<close>

theorem enrich_lru:
  assumes "0 < n" "lru_state n h c"
  shows "lru_state n
      (if isCached w c \<or> (\<exists>d ds. fst (fetchWithRetry answers) = Inr (Some (d # ds))) then h @ [w] else h)
      (snd (enrichWordWithMetadata n answers w i c)) \<and>
    (isCached w c \<longrightarrow> fst (enrichWordWithMetadata n answers w i c) = the (jm_get w c)) \<and>
    getCacheSize (snd (enrichWordWithMetadata n answers w i c)) \<le> n"
proof -
  obtain x c' where g: "getCached w c = (x, c')" by fastforce
  have main: "lru_state n
      (if isCached w c \<or> (\<exists>d ds. fst (fetchWithRetry answers) = Inr (Some (d # ds))) then h @ [w] else h)
      (snd (enrichWordWithMetadata n answers w i c)) \<and>
    (isCached w c \<longrightarrow> fst (enrichWordWithMetadata n answers w i c) = the (jm_get w c))"
  proof (cases x)
    case None
    then have c: "jm_get w c = None" "c' = c" using g by (auto simp: getCached_def split: option.splits)
    then show ?thesis
      using g None assms lru_store [OF assms]
      by (auto simp: enrichWordWithMetadata_def isCached_def Let_def split: sum.splits option.splits list.splits)
  next
    case (Some e)
    then have "jm_get w c = Some e" using g by (auto simp: getCached_def split: option.splits)
    then show ?thesis
      using g Some lru_hit [OF assms, of w e c'] by (simp add: enrichWordWithMetadata_def isCached_def)
  qed
  then show ?thesis using lru_state_wf unfolding getCacheSize_def by blast
qed

definition plain_word :: "string \<Rightarrow> EnrichedWord" where
  "plain_word w = \<lparr>ew_id = w, ew_word = w, ew_definition = None, ew_example = None, ew_partOfSpeech = None,
     ew_phonetics = None, ew_isEnriched = True\<rparr>"

theorem enrich_lru_witness:
  "lru_state 2 [''a'', ''b'', ''c''] (snd (enrichWordWithMetadata 2
     (\<lambda>_. Answer (Some [\<lparr>ap_word = ''c'', ap_phonetics = None, ap_meanings = None\<rparr>]))
     ''c'' ''3'' [(''a'', plain_word ''a''), (''b'', plain_word ''b'')]))"
proof -
  let ?c = "[(''a'', plain_word ''a''), (''b'', plain_word ''b'')]"
  let ?d = "\<lparr>ap_word = ''c'', ap_phonetics = None, ap_meanings = None\<rparr> :: DictionaryApiResponse"
  have "lru_state 2 [''a'', ''b''] ?c" by (simp add: lru_state_def recent_def last_n_def)
  moreover have "fst (fetchWithRetry (\<lambda>_. Answer (Some [?d]))) = Inr (Some [?d])"
    by (simp add: fetchWithRetry_def maxRetries_def numeral_3_eq_3)
  ultimately show ?thesis
    using enrich_lru [of 2 "[''a'', ''b'']" ?c "''c''" "\<lambda>_. Answer (Some [?d])" "''3''"] by auto
qed

end
