(* ===== verification/Words.thy ===== *)
theory Words
  imports Js_Values Repository
begin

text \<open>
  The dictionary of playable words: the entity (\<^verbatim>\<open>entities/word.entity.ts\<close>), the in-memory cache
  (\<^verbatim>\<open>dewordle/words/word-cache.service.ts\<close>) and the validation service that reads the cache when it
  is loaded and the table otherwise (\<^verbatim>\<open>dewordle/words/word-validation.service.ts\<close>).  Log lines and
  the process's memory figures are left out.
\<close>

datatype WordStatus = PENDING | APPROVED | REJECTED | REVIEW
datatype WordDifficulty = EASY | MEDIUM | HARD

record Word =
  wd_id :: "nat option"
  wd_word :: string
  wd_metadata :: "js_record option"
  wd_isEnriched :: bool
  wd_definition :: "string option"
  wd_example :: "string option"
  wd_partOfSpeech :: "string option"
  wd_phonetics :: "string option"
  wd_isDaily :: bool
  wd_dailyDate :: "int option"
  wd_difficulty :: "WordDifficulty option"
  wd_status :: WordStatus
  wd_qualityScore :: "jsnum option"
  wd_sources :: "string list option"
  wd_createdAt :: int
  wd_updatedAt :: int

type_synonym word_repo = "(Word, js_error) repo"

abbreviation wd_body :: "Word \<Rightarrow> Word" where
  "wd_body w \<equiv> w\<lparr>wd_id := None, wd_createdAt := 0, wd_updatedAt := 0\<rparr>"

section \<open>The cache\<close>

text \<open>The \<^verbatim>\<open>Set\<close> of the cache is a list of distinct words in insertion order.\<close>

record word_cache =
  wc_cache :: "string list"
  wc_loaded :: bool
  wc_lastLoadedAt :: "int option"
  wc_lastLoadDurationMs :: "int option"
  wc_lastReloadReason :: "string option"
  wc_hits :: nat
  wc_misses :: nat

record word_world =
  ww_words :: "Word list"
  ww_cache :: word_cache

type_synonym 'a word_act = "(word_world, js_error, 'a) act"

definition on_words :: "(Word list, js_error, 'a) act \<Rightarrow> 'a word_act" where
  "on_words = zoom ww_words (\<lambda>t s. s\<lparr>ww_words := t\<rparr>)"

definition new_cache :: word_cache where
  "new_cache = \<lparr>wc_cache = [], wc_loaded = False, wc_lastLoadedAt = None, wc_lastLoadDurationMs = None,
     wc_lastReloadReason = None, wc_hits = 0, wc_misses = 0\<rparr>"

definition set_add :: "string \<Rightarrow> string list \<Rightarrow> string list" where
  "set_add w s = (if w \<in> set s then s else s @ [w])"

text \<open>The two readings of the clock are arguments.\<close>

definition reload :: "word_repo \<Rightarrow> int \<Rightarrow> int \<Rightarrow> string \<Rightarrow> unit word_act" where
  "reload R startedAt finishedAt reason =
    act_bind (on_words (r_find R (\<lambda>_. True) (\<lambda>_ _. False))) (\<lambda>words.
      act_modify (\<lambda>s. s\<lparr>ww_cache := (ww_cache s)\<lparr>
        wc_cache := fold (\<lambda>row. set_add (toLowerCase (wd_word row))) words [],
        wc_loaded := True, wc_lastLoadedAt := Some finishedAt,
        wc_lastLoadDurationMs := Some (finishedAt - startedAt), wc_lastReloadReason := Some reason\<rparr>\<rparr>))"

definition cache_init :: "word_repo \<Rightarrow> int \<Rightarrow> int \<Rightarrow> unit word_act" where
  "cache_init R startedAt finishedAt = reload R startedAt finishedAt ''startup''"

definition invalidate :: "word_repo \<Rightarrow> int \<Rightarrow> int \<Rightarrow> string \<Rightarrow> unit word_act" where
  "invalidate R startedAt finishedAt reason =
     reload R startedAt finishedAt (if reason \<noteq> [] then reason else ''event'')"

text \<open>\<^verbatim>\<open>count()\<close> is the number of rows; a failure of either call is logged and swallowed.\<close>

definition reconcile :: "word_repo \<Rightarrow> int \<Rightarrow> int \<Rightarrow> unit word_act" where
  "reconcile R startedAt finishedAt = act_catch
    (act_bind (on_words (r_find R (\<lambda>_. True) (\<lambda>_ _. False))) (\<lambda>rows.
      act_bind (act_get (\<lambda>s. length (wc_cache (ww_cache s)))) (\<lambda>size.
        if length rows \<noteq> size then reload R startedAt finishedAt ''reconcile'' else act_ret ())))
    (\<lambda>_. act_ret ())"

definition isLoaded :: "word_cache \<Rightarrow> bool" where
  "isLoaded c = wc_loaded c"

definition cache_contains :: "string \<Rightarrow> bool word_act" where
  "cache_contains word s =
    (let c = ww_cache s; found = (word \<in> set (wc_cache c)) in
     (Inr found, s\<lparr>ww_cache := (if found then c\<lparr>wc_hits := wc_hits c + 1\<rparr> else c\<lparr>wc_misses := wc_misses c + 1\<rparr>)\<rparr>))"

definition cache_size :: "word_cache \<Rightarrow> nat" where
  "cache_size c = length (wc_cache c)"

section \<open>Validation\<close>

text \<open>The cache is injected optionally; \<^verbatim>\<open>injected\<close> says whether it was.\<close>

definition isValidWord :: "bool \<Rightarrow> word_repo \<Rightarrow> string \<Rightarrow> bool word_act" where
  "isValidWord injected R word =
    (if word = [] \<or> length word \<noteq> 5 then act_ret False
     else let normalizedWord = trim (toLowerCase word) in
       act_bind (act_get (\<lambda>s. injected \<and> isLoaded (ww_cache s))) (\<lambda>warm.
         if warm then cache_contains normalizedWord
         else act_catch
           (act_bind (on_words (r_findOne R (\<lambda>r. wd_word r = normalizedWord))) (\<lambda>found. act_ret (found \<noteq> None)))
           (\<lambda>_. act_ret False)))"

primrec lookup_all :: "string list \<Rightarrow> (string, bool) jmap \<Rightarrow> (string, bool) jmap word_act" where
  "lookup_all [] results = act_ret results"
| "lookup_all (w # ws) results =
     act_bind (cache_contains (trim (toLowerCase w))) (\<lambda>b. lookup_all ws (jm_set w b results))"

definition validateWords :: "bool \<Rightarrow> word_repo \<Rightarrow> string list \<Rightarrow> (string, bool) jmap word_act" where
  "validateWords injected R words =
    act_bind (act_get (\<lambda>s. injected \<and> isLoaded (ww_cache s))) (\<lambda>warm.
      if warm then lookup_all words []
      else act_catch
        (act_bind (on_words (r_find R (\<lambda>r. wd_word r \<in> set (map (\<lambda>w. trim (toLowerCase w)) words)) (\<lambda>_ _. False)))
          (\<lambda>foundWords. act_ret (fold (\<lambda>w. jm_set w (trim (toLowerCase w) \<in> set (map wd_word foundWords))) words [])))
        (\<lambda>_. act_ret (fold (\<lambda>w. jm_set w False) words [])))"

section \<open>Lemmas\<close>

lemma set_set_add [simp]: "set (set_add w s) = insert w (set s)"
  by (auto simp: set_add_def)

lemma fold_set_add: "set (fold (\<lambda>row. set_add (f row)) rows s) = f ` set rows \<union> set s"
  by (induction rows arbitrary: s) auto

lemma distinct_fold_set_add: "distinct s \<Longrightarrow> distinct (fold (\<lambda>row. set_add (f row)) rows s)"
  by (induction rows arbitrary: s) (auto simp: set_add_def)

lemma reload_run:
  assumes "repo_ok wd_id wd_body R" "repo_reliable R"
  obtains c where "reload R t0 t1 reason s = (Inr (), s\<lparr>ww_cache := c\<rparr>)" "wc_loaded c"
    "set (wc_cache c) = (\<lambda>r. toLowerCase (wd_word r)) ` set (ww_words s)" "distinct (wc_cache c)"
    "wc_hits c = wc_hits (ww_cache s)" "wc_misses c = wc_misses (ww_cache s)"
proof -
  obtain ws t' where f0: "r_find R (\<lambda>_. True) (\<lambda>_ _. False) (ww_words s) = (Inr ws, t')"
    using assms(2) by (rule reliable_find)
  note F = find_returns [OF assms(1) f0]
  have "set_mset (mset ws) = set_mset (mset (filter (\<lambda>_. True) (ww_words s)))" using F(2) by simp
  then have ws: "set ws = set (ww_words s)" by simp
  let ?c = "(ww_cache s)\<lparr>wc_cache := fold (\<lambda>row. set_add (toLowerCase (wd_word row))) ws [],
        wc_loaded := True, wc_lastLoadedAt := Some t1, wc_lastLoadDurationMs := Some (t1 - t0), wc_lastReloadReason := Some reason\<rparr>"
  show thesis
  proof (rule that [of ?c])
    show "reload R t0 t1 reason s = (Inr (), s\<lparr>ww_cache := ?c\<rparr>)"
      using f0 F(1) by (simp add: reload_def on_words_def act_defs)
    show "set (wc_cache ?c) = (\<lambda>r. toLowerCase (wd_word r)) ` set (ww_words s)"
      by (simp add: fold_set_add ws)
    show "distinct (wc_cache ?c)" by (simp add: distinct_fold_set_add)
  qed simp_all
qed

section \<open>Properties\<close>

text \<open>
  On a dictionary stored in lower case a freshly loaded cache and the table answer every
  validation alike: a word is valid exactly when it has five characters and its lower-case,
  trimmed form is stored.
\<close>

theorem cache_and_table_agree:
  assumes "repo_ok wd_id wd_body R" "repo_reliable R"
    and "\<forall>r \<in> set (ww_words s). toLowerCase (wd_word r) = wd_word r"
  shows "\<exists>s1 s2 s3. reload R t0 t1 reason s = (Inr (), s1) \<and>
    isValidWord True R w s1 = (Inr (length w = 5 \<and> trim (toLowerCase w) \<in> wd_word ` set (ww_words s)), s2) \<and>
    isValidWord False R w s = (Inr (length w = 5 \<and> trim (toLowerCase w) \<in> wd_word ` set (ww_words s)), s3)"
proof -
  obtain c where c: "reload R t0 t1 reason s = (Inr (), s\<lparr>ww_cache := c\<rparr>)" "wc_loaded c"
    "set (wc_cache c) = (\<lambda>r. toLowerCase (wd_word r)) ` set (ww_words s)" "distinct (wc_cache c)"
    "wc_hits c = wc_hits (ww_cache s)" "wc_misses c = wc_misses (ww_cache s)"
    by (rule reload_run [OF assms(1,2)])
  have img: "(\<lambda>r. toLowerCase (wd_word r)) ` set (ww_words s) = wd_word ` set (ww_words s)"
    using assms(3) by (intro image_cong) auto
  obtain x t' where f0: "r_findOne R (\<lambda>r. wd_word r = trim (toLowerCase w)) (ww_words s) = (Inr x, t')"
    using assms(2) by (rule reliable_findOne)
  have x: "x \<noteq> None \<longleftrightarrow> trim (toLowerCase w) \<in> wd_word ` set (ww_words s)"
    using findOne_returns [OF assms(1) f0] by (cases x) (auto intro: image_eqI [OF sym])
  have 1: "\<exists>s2. isValidWord True R w (s\<lparr>ww_cache := c\<rparr>) = (Inr (length w = 5 \<and> trim (toLowerCase w) \<in> wd_word ` set (ww_words s)), s2)"
    using c(2,3) img by (auto simp: isValidWord_def isLoaded_def cache_contains_def Let_def act_defs)
  have 2: "\<exists>s3. isValidWord False R w s = (Inr (length w = 5 \<and> trim (toLowerCase w) \<in> wd_word ` set (ww_words s)), s3)"
    using f0 x by (auto simp: isValidWord_def on_words_def Let_def act_defs)
  show ?thesis using c(1) 1 2 by blast
qed

definition a_word :: "nat \<Rightarrow> string \<Rightarrow> Word" where
  "a_word i w = \<lparr>wd_id = Some i, wd_word = w, wd_metadata = None, wd_isEnriched = False, wd_definition = None,
     wd_example = None, wd_partOfSpeech = None, wd_phonetics = None, wd_isDaily = False, wd_dailyDate = None,
     wd_difficulty = None, wd_status = PENDING, wd_qualityScore = None, wd_sources = None,
     wd_createdAt = int i, wd_updatedAt = int i\<rparr>"

definition word_mem :: word_repo where
  "word_mem = mem_repo wd_id (\<lambda>i w. w\<lparr>wd_id := Some i\<rparr>)"

lemma word_mem_ok: "repo_ok wd_id wd_body word_mem" and word_mem_reliable: "repo_reliable word_mem"
  unfolding word_mem_def by (rule mem_repo_ok; simp) (rule mem_repo_reliable)

theorem cache_and_table_agree_witness:
  "\<exists>s. isValidWord False word_mem ''CRANE'' \<lparr>ww_words = [a_word 1 ''crane''], ww_cache = new_cache\<rparr> = (Inr True, s)"
proof -
  let ?s = "\<lparr>ww_words = [a_word 1 ''crane''], ww_cache = new_cache\<rparr>"
  have "toLowerCase ''crane'' = ''crane''" "trim (toLowerCase ''CRANE'') = ''crane''" by code_simp+
  then show ?thesis
    using cache_and_table_agree [OF word_mem_ok word_mem_reliable, of ?s 0 0 "''startup''" "''CRANE''"] by (auto simp: a_word_def)
qed

end
