(* ===== verification/Word_Scheduler.thy ===== *)
theory Word_Scheduler
  imports Words
begin

text \<open>
  The daily word (\<^verbatim>\<open>dewordle/words/word.scheduler.ts\<close>): the cron expression, the choice of a word
  for a puzzle day, the bounded retries around it, and the manual rotation.  The puzzle day and
  its instant, which the time zone library computes from the clock, are arguments; the
  transaction of the data source and the midnight expression of the scheduler library are
  parameters.
\<close>

section \<open>The rotation time\<close>

definition DEFAULT_ROTATION_TIME :: string where "DEFAULT_ROTATION_TIME = ''00:00''"
definition DEFAULT_MAX_ATTEMPTS :: int where "DEFAULT_MAX_ATTEMPTS = 3"
definition RETRY_BACKOFF_MS :: int where "RETRY_BACKOFF_MS = 5000"

text \<open>The pattern of a rotation time: one or two digits, a colon, two digits.\<close>

definition match_time :: "string \<Rightarrow> (string \<times> string) option" where
  "match_time s =
    (let hs = takeWhile is_digit s; r = dropWhile is_digit s in
     case r of
       c # ms \<Rightarrow> if c = CHR '':'' \<and> (length hs = 1 \<or> length hs = 2) \<and> length ms = 2 \<and> list_all is_digit ms
           then Some (hs, ms) else None
     | [] \<Rightarrow> None)"

definition clamp :: "int \<Rightarrow> int \<Rightarrow> int" where
  "clamp x hi = min (max x 0) hi"

definition resolveRotationCronExpression :: "string \<Rightarrow> string option \<Rightarrow> string option \<Rightarrow> string" where
  "resolveRotationCronExpression midnight schedule rotationTime =
    (case schedule of
       Some s \<Rightarrow> if length (trim s) > 0 then trim s else
         (case match_time (trim (case rotationTime of Some t \<Rightarrow> t | None \<Rightarrow> DEFAULT_ROTATION_TIME)) of
            None \<Rightarrow> midnight
          | Some (hs, ms) \<Rightarrow> show_int (clamp (int (read_nat ms)) 59) @ '' '' @ show_int (clamp (int (read_nat hs)) 23) @ '' * * *'')
     | None \<Rightarrow>
         (case match_time (trim (case rotationTime of Some t \<Rightarrow> t | None \<Rightarrow> DEFAULT_ROTATION_TIME)) of
            None \<Rightarrow> midnight
          | Some (hs, ms) \<Rightarrow> show_int (clamp (int (read_nat ms)) 59) @ '' '' @ show_int (clamp (int (read_nat hs)) 23) @ '' * * *''))"

definition hashWord :: "host \<Rightarrow> string \<Rightarrow> string" where
  "hashWord h word = take 16 (sha256 h word)"

section \<open>Choosing a word\<close>

type_synonym 'a table_act = "(Word list, js_error, 'a) act"

record sched_deps =
  sd_words :: word_repo
  sd_transaction :: "Word option table_act \<Rightarrow> Word option table_act"

text \<open>\<^verbatim>\<open>findOne\<close> with an order is the first row of the ordered rows.\<close>

definition oldest_unused :: "word_repo \<Rightarrow> Word option table_act" where
  "oldest_unused R = act_bind (r_find R (\<lambda>w. \<not> wd_isDaily w) (\<lambda>a b. wd_createdAt a > wd_createdAt b))
     (\<lambda>rows. act_ret (case rows of [] \<Rightarrow> None | w # _ \<Rightarrow> Some w))"

definition mark_daily :: "word_repo \<Rightarrow> int \<Rightarrow> Word \<Rightarrow> nat table_act" where
  "mark_daily R todayDate w = r_update R (\<lambda>r. wd_id r = wd_id w) (\<lambda>r. r\<lparr>wd_isDaily := True, wd_dailyDate := Some todayDate\<rparr>)"

definition reset_pool :: "word_repo \<Rightarrow> nat table_act" where
  "reset_pool R = r_update R (\<lambda>r. wd_id r \<noteq> None) (\<lambda>r. r\<lparr>wd_isDaily := False\<rparr>)"

definition select_body :: "word_repo \<Rightarrow> int \<Rightarrow> Word option table_act" where
  "select_body R todayDate =
    act_bind (oldest_unused R) (\<lambda>unusedWord. case unusedWord of
      None \<Rightarrow> act_seq (reset_pool R) (act_ret None)
    | Some w \<Rightarrow> act_seq (mark_daily R todayDate w) (act_ret (Some w)))"

definition ensureTodayWord :: "sched_deps \<Rightarrow> int \<Rightarrow> unit table_act" where
  "ensureTodayWord D todayDate =
    act_bind (r_findOne (sd_words D) (\<lambda>w. wd_dailyDate w = Some todayDate)) (\<lambda>existing.
      if existing \<noteq> None then act_ret ()
      else act_seq (sd_transaction D (select_body (sd_words D) todayDate)) (act_ret ()))"

text \<open>
  The retries.  The attempts of the configuration are at least one, and an unreadable or zero
  setting counts as the default.  Attempt \<^verbatim>\<open>k\<close> meets the database \<^verbatim>\<open>D k\<close>, so that a failure can
  be transient; the result lists the delays waited.
\<close>

definition rotation_attempts :: "string option \<Rightarrow> nat" where
  "rotation_attempts setting =
    (let n = js_parseInt (case setting of Some s \<Rightarrow> s | None \<Rightarrow> show_int DEFAULT_MAX_ATTEMPTS)
     in nat (max (if truthy (Num n) then num_floor n else DEFAULT_MAX_ATTEMPTS) 1))"

fun rotation_loop :: "nat \<Rightarrow> nat \<Rightarrow> (nat \<Rightarrow> sched_deps) \<Rightarrow> int \<Rightarrow> int list table_act" where
  "rotation_loop 0 attempt D todayDate = act_ret []"
| "rotation_loop (Suc n) attempt D todayDate =
     act_catch (act_seq (ensureTodayWord (D attempt) todayDate) (act_ret []))
       (\<lambda>error. if n = 0 then act_ret []
          else act_bind (rotation_loop n (attempt + 1) D todayDate) (\<lambda>ds. act_ret (RETRY_BACKOFF_MS * int attempt # ds)))"

definition runRotation :: "(nat \<Rightarrow> sched_deps) \<Rightarrow> string option \<Rightarrow> int \<Rightarrow> int list table_act" where
  "runRotation D setting todayDate = rotation_loop (rotation_attempts setting) 1 D todayDate"

section \<open>The manual rotation\<close>

record rotation_answer =
  ra_status :: string
  ra_timezone :: string
  ra_puzzleDate :: string
  ra_wordHash :: string
  ra_rotatedAt :: int

definition release_word :: "word_repo \<Rightarrow> Word option \<Rightarrow> unit table_act" where
  "release_word R previous = (case previous of
      None \<Rightarrow> act_ret ()
    | Some p \<Rightarrow> act_seq (r_update R (\<lambda>r. wd_id r = wd_id p) (\<lambda>r. r\<lparr>wd_isDaily := False, wd_dailyDate := None\<rparr>)) (act_ret ()))"

definition rotate_body :: "word_repo \<Rightarrow> int \<Rightarrow> Word option \<Rightarrow> Word option table_act" where
  "rotate_body R todayDate previous =
    act_seq (release_word R previous)
      (act_bind (oldest_unused R) (\<lambda>first.
        act_bind (case first of Some w \<Rightarrow> act_ret (Some w) | None \<Rightarrow> act_seq (reset_pool R) (oldest_unused R)) (\<lambda>candidate.
          case candidate of
            None \<Rightarrow> act_throw (JsError ''Error'' ''Word pool is empty; manual rotation aborted'' [])
          | Some w \<Rightarrow> act_seq (mark_daily R todayDate w) (act_ret (Some w)))))"

definition rotateNow :: "host \<Rightarrow> sched_deps \<Rightarrow> string \<Rightarrow> string \<Rightarrow> int \<Rightarrow> int \<Rightarrow> rotation_answer table_act" where
  "rotateNow h D timezone today todayDate now =
    act_bind (r_findOne (sd_words D) (\<lambda>w. wd_dailyDate w = Some todayDate)) (\<lambda>previous.
      act_bind (sd_transaction D (rotate_body (sd_words D) todayDate previous)) (\<lambda>rotated.
        act_ret \<lparr>ra_status = ''Rotated'', ra_timezone = timezone, ra_puzzleDate = today,
          ra_wordHash = (case rotated of Some w \<Rightarrow> hashWord h (wd_word w) | None \<Rightarrow> ''unknown''), ra_rotatedAt = now\<rparr>))"

section \<open>Lemmas\<close>

text \<open>
  A safe database throws without effect and its transactions are all or nothing; a sound one
  moreover never throws and commits what a body did.
\<close>

definition sched_safe :: "sched_deps \<Rightarrow> bool" where
  "sched_safe D \<longleftrightarrow> repo_ok wd_id wd_body (sd_words D) \<and>
     (\<forall>m t. (\<exists>e. sd_transaction D m t = (Inl e, t)) \<or> (\<exists>a t'. m t = (Inr a, t') \<and> sd_transaction D m t = (Inr a, t')))"

definition sched_ok :: "sched_deps \<Rightarrow> bool" where
  "sched_ok D \<longleftrightarrow> sched_safe D \<and> repo_reliable (sd_words D) \<and>
     (\<forall>m t a t'. m t = (Inr a, t') \<longrightarrow> sd_transaction D m t = (Inr a, t'))"

definition pool :: "Word list \<Rightarrow> Word set" where
  "pool t = {w \<in> set t. \<not> wd_isDaily w}"

definition daily_on :: "int \<Rightarrow> Word list \<Rightarrow> Word set" where
  "daily_on day t = {w \<in> set t. wd_dailyDate w = Some day}"

definition marked :: "int \<Rightarrow> Word \<Rightarrow> Word" where
  "marked day w = w\<lparr>wd_isDaily := True, wd_dailyDate := Some day\<rparr>"

text \<open>An oldest word of the pool.\<close>

definition oldest :: "Word \<Rightarrow> Word list \<Rightarrow> bool" where
  "oldest w t \<longleftrightarrow> w \<in> pool t \<and> (\<forall>v \<in> pool t. wd_createdAt w \<le> wd_createdAt v)"

lemma update_row:
  assumes "inj_on wd_id (set t)" "w \<in> set t"
  shows "(\<lambda>r. if wd_id r = wd_id w then f r else r) ` set t = insert (f w) (set t - {w})"
proof -
  have "(\<lambda>r. if wd_id r = wd_id w then f r else r) ` set t = (\<lambda>r. if r = w then f w else r) ` set t"
    using inj_on_eq_iff [OF assms(1) _ assms(2)] by (intro image_cong) auto
  also have "\<dots> = insert (f w) (set t - {w})" using assms(2) by auto
  finally show ?thesis .
qed

lemma oldest_returns:
  assumes ok: "repo_ok wd_id wd_body R" and run: "oldest_unused R t = (Inr x, t')"
  shows "t' = t \<and> (case x of None \<Rightarrow> pool t = {} | Some w \<Rightarrow> oldest w t)"
proof -
  let ?gt = "\<lambda>a b. wd_createdAt a > wd_createdAt b" and ?P = "\<lambda>w. \<not> wd_isDaily w"
  obtain ws where f: "r_find R ?P ?gt t = (Inr ws, t')" "x = (case ws of [] \<Rightarrow> None | w # _ \<Rightarrow> Some w)"
    using run by (auto simp: oldest_unused_def act_bind_returns act_ret_def)
  note F = find_returns [OF ok f(1)]
  have "comparator ?gt (\<lambda>_. True)" by unfold_locales auto
  then have s: "sorted_wrt (\<lambda>x y. \<not> ?gt x y) ws" by (rule F(3))
  have "set_mset (mset ws) = set_mset (mset (filter ?P t))" using F(2) by simp
  then have ws: "set ws = pool t" by (simp add: pool_def)
  show ?thesis using f(2) F(1) s ws [symmetric] by (cases ws) (auto simp: oldest_def)
qed

lemma oldest_reliable:
  assumes "repo_reliable R"
  shows "\<exists>x t'. oldest_unused R t = (Inr x, t')"
proof -
  obtain ws t' where "r_find R (\<lambda>w. \<not> wd_isDaily w) (\<lambda>a b. wd_createdAt a > wd_createdAt b) t = (Inr ws, t')"
    using assms by (rule reliable_find)
  then show ?thesis by (simp add: oldest_unused_def act_ret_def)
qed

lemma oldest_throws:
  assumes ok: "repo_ok wd_id wd_body R" and run: "oldest_unused R t = (Inl e, t')"
  shows "t' = t"
proof -
  have "r_find R (\<lambda>w. \<not> wd_isDaily w) (\<lambda>a b. wd_createdAt a > wd_createdAt b) t = (Inl e, t')"
    using run by (simp add: oldest_unused_def act_bind_throws act_ret_def)
  then show ?thesis by (rule find_same [OF ok])
qed

text \<open>What a committed selection did.\<close>

lemma select_returns:
  assumes ok: "repo_ok wd_id wd_body R" and inj: "inj_on wd_id (set t)" and run: "select_body R day t = (Inr x, t')"
  shows "case x of
      None \<Rightarrow> pool t = {} \<and> set t' = (\<lambda>r. if wd_id r \<noteq> None then r\<lparr>wd_isDaily := False\<rparr> else r) ` set t
    | Some w \<Rightarrow> oldest w t \<and> set t' = insert (marked day w) (set t - {w})"
proof -
  obtain y t1 where o: "oldest_unused R t = (Inr y, t1)"
    and r: "(case y of None \<Rightarrow> act_seq (reset_pool R) (act_ret None) | Some w \<Rightarrow> act_seq (mark_daily R day w) (act_ret (Some w))) t1 = (Inr x, t')"
    using run by (auto simp: select_body_def act_bind_returns)
  note O = oldest_returns [OF ok o]
  show ?thesis
  proof (cases y)
    case None
    then obtain n where "reset_pool R t = (Inr n, t')" "x = None"
      using r O by (auto simp: act_seq_def act_bind_returns act_ret_def)
    then show ?thesis using O None update_set [OF ok] unfolding reset_pool_def by simp
  next
    case (Some w)
    then obtain n where u: "mark_daily R day w t = (Inr n, t')" "x = Some w"
      using r O by (auto simp: act_seq_def act_bind_returns act_ret_def)
    have w: "oldest w t" "w \<in> set t" using O Some by (auto simp: oldest_def pool_def)
    show ?thesis
      using u w update_set [OF ok u(1) [unfolded mark_daily_def]] update_row [OF inj w(2), of "marked day"]
      by (simp add: marked_def)
  qed
qed

lemma select_reliable:
  assumes "repo_reliable R"
  shows "\<exists>x t'. select_body R day t = (Inr x, t')"
proof -
  obtain y t1 where o: "oldest_unused R t = (Inr y, t1)" using oldest_reliable [OF assms] by blast
  show ?thesis
  proof (cases y)
    case None
    obtain n t2 where "reset_pool R t1 = (Inr n, t2)" unfolding reset_pool_def using assms by (rule reliable_update)
    then show ?thesis using o None by (simp add: select_body_def act_ret_def)
  next
    case (Some w)
    obtain n t2 where "mark_daily R day w t1 = (Inr n, t2)" unfolding mark_daily_def using assms by (rule reliable_update)
    then show ?thesis using o Some by (simp add: select_body_def act_ret_def)
  qed
qed

text \<open>The three outcomes of an attempt that returned; one that threw changed nothing.\<close>

lemma ensure_cases:
  assumes D: "sched_safe D" and inj: "inj_on wd_id (set t)" and run: "ensureTodayWord D day t = (r, t')"
  shows "(\<exists>e. r = Inl e) \<and> t' = t \<or>
    r = Inr () \<and> (if daily_on day t \<noteq> {} then t' = t
      else if pool t = {} then set t' = (\<lambda>r. if wd_id r \<noteq> None then r\<lparr>wd_isDaily := False\<rparr> else r) ` set t
      else (\<exists>w. oldest w t \<and> set t' = insert (marked day w) (set t - {w})))"
proof -
  let ?R = "sd_words D"
  have ok: "repo_ok wd_id wd_body ?R" using D by (simp add: sched_safe_def)
  obtain q t1 where f: "r_findOne ?R (\<lambda>w. wd_dailyDate w = Some day) t = (q, t1)" by fastforce
  have t1: "t1 = t" using findOne_same [OF ok f] .
  show ?thesis
  proof (cases q)
    case (Inl e)
    then have "r = Inl e" "t' = t" using f t1 run by (simp_all add: ensureTodayWord_def)
    then show ?thesis by simp
  next
    case (Inr x)
    show ?thesis
    proof (cases x)
      case (Some w)
      then have "daily_on day t \<noteq> {}" using findOne_Some [OF ok, of "\<lambda>w. wd_dailyDate w = Some day"] f Inr by (auto simp: daily_on_def)
      then show ?thesis using f t1 run Inr Some by (simp add: ensureTodayWord_def act_ret_def)
    next
      case None
      have no: "daily_on day t = {}" using findOne_None [OF ok f [unfolded Inr None]] by (auto simp: daily_on_def)
      have T: "(\<exists>e. sd_transaction D (select_body ?R day) t = (Inl e, t)) \<or>
          (\<exists>a t2. select_body ?R day t = (Inr a, t2) \<and> sd_transaction D (select_body ?R day) t = (Inr a, t2))"
        using D by (simp add: sched_safe_def)
      then show ?thesis
      proof (elim disjE exE conjE)
        fix e assume "sd_transaction D (select_body ?R day) t = (Inl e, t)"
        then have "r = Inl e" "t' = t" using f t1 run Inr None by (simp_all add: ensureTodayWord_def act_seq_def)
        then show ?thesis by simp
      next
        fix a t2 assume s: "select_body ?R day t = (Inr a, t2)" "sd_transaction D (select_body ?R day) t = (Inr a, t2)"
        have r: "r = Inr ()" "t' = t2" using f t1 run Inr None s(2) by (simp_all add: ensureTodayWord_def act_seq_def act_ret_def)
        show ?thesis
          using select_returns [OF ok inj s(1)] r no by (cases a) (auto simp: oldest_def)
      qed
    qed
  qed
qed

lemma ensure_returns:
  assumes D: "sched_ok D"
  shows "\<exists>t'. ensureTodayWord D day t = (Inr (), t')"
proof -
  let ?R = "sd_words D"
  have rel: "repo_reliable ?R" using D by (simp add: sched_ok_def)
  obtain x t1 where f: "r_findOne ?R (\<lambda>w. wd_dailyDate w = Some day) t = (Inr x, t1)" using rel by (rule reliable_findOne)
  obtain y t2 where "select_body ?R day t1 = (Inr y, t2)" using select_reliable [OF rel] by blast
  then have "sd_transaction D (select_body ?R day) t1 = (Inr y, t2)" using D by (simp add: sched_ok_def)
  then show ?thesis using f by (cases x) (simp_all add: ensureTodayWord_def act_ret_def)
qed

text \<open>The outcome of an undisturbed selection: the day keeps its word, gets the oldest unused one, or the pool is released.\<close>

definition day_selected :: "int \<Rightarrow> Word list \<Rightarrow> Word list \<Rightarrow> bool" where
  "day_selected day t t' \<longleftrightarrow>
    (if daily_on day t \<noteq> {} then t' = t
     else if pool t = {} then daily_on day t' = {} \<and> pool t' = set t'
     else \<exists>w. oldest w t \<and> daily_on day t' = {marked day w} \<and> set t' = insert (marked day w) (set t - {w}))"

lemma ensure_selected:
  assumes "sched_safe D" "inj_on wd_id (set t)" "\<forall>w \<in> set t. wd_id w \<noteq> None" and run: "ensureTodayWord D day t = (Inr (), t')"
  shows "day_selected day t t'"
proof -
  note E = ensure_cases [OF assms(1,2) run]
  show ?thesis
  proof (cases "daily_on day t = {} \<and> pool t \<noteq> {}")
    case True
    then obtain w where w: "oldest w t" "set t' = insert (marked day w) (set t - {w})" using E by auto
    have "daily_on day t' = {marked day w}" using True unfolding daily_on_def w(2) by (auto simp: marked_def)
    then show ?thesis using w True by (auto simp: day_selected_def)
  next
    case False
    then show ?thesis using E assms(3) by (auto simp: day_selected_def daily_on_def pool_def)
  qed
qed

section \<open>Properties\<close>

text \<open>
  C10: when the day has no word, an undisturbed rotation gives it the oldest unused word and
  touches no other row; when every word was used it only releases them all, and the day is left
  without a word.  A day that has its word keeps it.
\<close>

theorem daily_word_selected:
  assumes "sched_ok D" "inj_on wd_id (set t)" "\<forall>w \<in> set t. wd_id w \<noteq> None"
  shows "\<exists>t'. ensureTodayWord D day t = (Inr (), t') \<and>
    (if daily_on day t \<noteq> {} then t' = t
     else if pool t = {} then daily_on day t' = {} \<and> pool t' = set t'
     else \<exists>w. oldest w t \<and> daily_on day t' = {marked day w} \<and> set t' = insert (marked day w) (set t - {w}))"
proof -
  obtain t' where run: "ensureTodayWord D day t = (Inr (), t')" using ensure_returns [OF assms(1)] by blast
  have "sched_safe D" using assms(1) by (simp add: sched_ok_def)
  from ensure_selected [OF this assms(2,3) run] show ?thesis using run unfolding day_selected_def by blast
qed

definition word_sched :: sched_deps where
  "word_sched = \<lparr>sd_words = word_mem,
     sd_transaction = (\<lambda>m t. case m t of (Inl e, _) \<Rightarrow> (Inl e, t) | (Inr a, t') \<Rightarrow> (Inr a, t'))\<rparr>"

lemma word_sched_safe: "sched_safe word_sched"
  by (auto simp: sched_safe_def word_sched_def word_mem_ok split: prod.splits sum.splits)

lemma word_sched_ok: "sched_ok word_sched"
  using word_sched_safe by (simp add: sched_ok_def word_sched_def word_mem_reliable)

abbreviation two_words :: "Word list" where
  "two_words \<equiv> [a_word 2 ''brave'', a_word 1 ''crane'']"

lemma two_words_ids: "inj_on wd_id (set two_words)" "\<forall>w \<in> set two_words. wd_id w \<noteq> None"
  and two_words_free: "daily_on 7 two_words = {}" "pool two_words = set two_words"
  and two_words_ages: "inj_on wd_createdAt (set two_words)"
  by (auto simp: a_word_def daily_on_def pool_def inj_on_def)

theorem daily_word_selected_witness:
  "\<exists>t'. ensureTodayWord word_sched 7 two_words = (Inr (), t') \<and> (\<exists>w. oldest w two_words \<and> daily_on 7 t' = {marked 7 w})"
  using daily_word_selected [OF word_sched_ok two_words_ids, of 7] two_words_free by auto

text \<open>
  The manual rotation, meant to force a new word, gives the day the word it already had: the
  word the daily selection took is released first and is then again the oldest unused one.
\<close>

theorem rotation_repeats_word:
  assumes "sched_ok D" "inj_on wd_id (set t)" "inj_on wd_createdAt (set t)" "daily_on day t = {}" "pool t \<noteq> {}"
  shows "\<exists>w t1 a t2. w \<in> set t \<and> ensureTodayWord D day t = (Inr (), t1) \<and> daily_on day t1 = {marked day w} \<and>
    rotateNow h D timezone today day now t1 = (Inr a, t2) \<and> ra_wordHash a = hashWord h (wd_word w) \<and> set t2 = set t1"
proof -
  let ?R = "sd_words D"
  have safe: "sched_safe D" and rel: "repo_reliable ?R" and commit: "\<And>m t a t'. m t = (Inr a, t') \<Longrightarrow> sd_transaction D m t = (Inr a, t')"
    using assms(1) by (simp_all add: sched_ok_def)
  have ok: "repo_ok wd_id wd_body ?R" using safe by (simp add: sched_safe_def)
  obtain t1 where e: "ensureTodayWord D day t = (Inr (), t1)" using ensure_returns [OF assms(1)] by blast
  obtain w where w: "oldest w t" "set t1 = insert (marked day w) (set t - {w})"
    using ensure_cases [OF safe assms(2) e] assms(4,5) by auto
  let ?m = "marked day w" and ?u = "w\<lparr>wd_isDaily := False, wd_dailyDate := None\<rparr>"
  have wt: "w \<in> set t" "\<not> wd_isDaily w" and old: "\<And>v. v \<in> pool t \<Longrightarrow> wd_createdAt w \<le> wd_createdAt v"
    using w(1) by (auto simp: oldest_def pool_def)
  have day1: "daily_on day t1 = {?m}" using assms(4) unfolding daily_on_def w(2) by (auto simp: marked_def)
  have inj1: "inj_on wd_id (set t1)" unfolding w(2) using assms(2) wt(1) by (auto simp: inj_on_def marked_def)
  obtain x t1' where f0: "r_findOne ?R (\<lambda>w. wd_dailyDate w = Some day) t1 = (Inr x, t1')" using rel by (rule reliable_findOne)
  note f = f0 [unfolded findOne_same [OF ok f0]]
  have x: "x = Some ?m"
  proof (cases x)
    case None
    have "?m \<in> daily_on day t1" using day1 by simp
    then show ?thesis using findOne_None [OF ok f [unfolded None]] by (auto simp: daily_on_def)
  next
    case (Some v)
    then have "v \<in> daily_on day t1" using findOne_Some [OF ok f [unfolded Some]] by (simp add: daily_on_def)
    then show ?thesis using day1 Some by simp
  qed
  obtain n t3 where u3: "r_update ?R (\<lambda>r. wd_id r = wd_id ?m) (\<lambda>r. r\<lparr>wd_isDaily := False, wd_dailyDate := None\<rparr>) t1 = (Inr n, t3)"
    using rel by (rule reliable_update)
  have m1: "?m \<in> set t1" "wd_id ?m = wd_id w" using w(2) by (simp_all add: marked_def)
  have "set t3 = insert ?u (set t1 - {?m})"
    using update_set [OF ok u3] update_row [OF inj1 m1(1), of "\<lambda>r. r\<lparr>wd_isDaily := False, wd_dailyDate := None\<rparr>"]
    by (simp add: marked_def)
  then have t3: "set t3 = insert ?u (set t - {w} - {?m})" using w(2) by auto
  have "?m \<notin> set t - {w}" using assms(2) wt(1) by (auto simp: inj_on_def marked_def)
  then have t3': "set t3 = insert ?u (set t - {w})" using t3 by auto
  obtain y t4 where o0: "oldest_unused ?R t3 = (Inr y, t4)" using oldest_reliable [OF rel] by blast
  note O = oldest_returns [OF ok o0]
  have u: "?u \<in> pool t3" by (simp add: pool_def t3')
  have y: "y = Some ?u"
  proof (cases y)
    case None
    then show ?thesis using O u by simp
  next
    case (Some v)
    then have v: "v \<in> pool t3" "wd_createdAt v \<le> wd_createdAt ?u" using O u by (auto simp: oldest_def)
    have "v = ?u"
    proof (rule ccontr)
      assume "v \<noteq> ?u"
      then have "v \<in> set t" "v \<noteq> w" "v \<in> pool t" using v(1) t3' by (auto simp: pool_def)
      then show False using old [of v] v(2) assms(3) wt(1) by (auto simp: inj_on_def)
    qed
    then show ?thesis using Some by simp
  qed
  obtain k t5 where u5: "mark_daily ?R day ?u t3 = (Inr k, t5)" unfolding mark_daily_def using rel by (rule reliable_update)
  have inj3: "inj_on wd_id (set t3)" unfolding t3' using assms(2) wt(1) by (auto simp: inj_on_def)
  have "set t5 = insert (marked day ?u) (set t3 - {?u})"
    using update_set [OF ok u5 [unfolded mark_daily_def]] update_row [OF inj3, of ?u "marked day"] u by (simp add: pool_def marked_def)
  moreover have "marked day ?u = ?m" by (simp add: marked_def)
  moreover have "?u \<notin> set t - {w}" using assms(2) wt(1) by (auto simp: inj_on_def)
  ultimately have t5: "set t5 = set t1" using t3' w(2) by auto
  have "rotate_body ?R day (Some ?m) t1 = (Inr (Some ?u), t5)"
    using u3 o0 O y u5 by (simp add: rotate_body_def release_word_def act_seq_def act_bind_def act_ret_def)
  then have "sd_transaction D (rotate_body ?R day (Some ?m)) t1 = (Inr (Some ?u), t5)" by (rule commit)
  then have "rotateNow h D timezone today day now t1 = (Inr \<lparr>ra_status = ''Rotated'', ra_timezone = timezone, ra_puzzleDate = today,
      ra_wordHash = hashWord h (wd_word w), ra_rotatedAt = now\<rparr>, t5)"
    using f x by (simp add: rotateNow_def act_ret_def)
  then show ?thesis using wt(1) e day1 t5 by fastforce
qed

theorem rotation_repeats_word_witness:
  "\<exists>w \<in> set two_words. \<exists>t1 a t2. ensureTodayWord word_sched 7 two_words = (Inr (), t1) \<and>
    rotateNow plain_host word_sched ''UTC'' ''1970-01-01'' 7 9 t1 = (Inr a, t2) \<and> ra_wordHash a = hashWord plain_host (wd_word w) \<and> set t2 = set t1"
proof -
  have "pool two_words \<noteq> {}" using two_words_free(2) by simp
  from rotation_repeats_word [OF word_sched_ok two_words_ids(1) two_words_ages two_words_free(1) this, of plain_host "''UTC''" "''1970-01-01''" 9]
  show ?thesis by blast
qed

section \<open>The retries\<close>

lemma upt_shift: "map (\<lambda>i. f (int i)) [a..<a + Suc n] = f (int a) # map (\<lambda>i. f (int i)) [a + 1..<a + 1 + n]"
proof -
  have "[a..<a + Suc n] = a # [a + 1..<a + 1 + n]" by (simp add: upt_conv_Cons)
  then show ?thesis by simp
qed

lemma rotation_loop_selects:
  assumes safe: "\<And>i. sched_safe (D i)" and inj: "inj_on wd_id (set t)" and ids: "\<forall>w \<in> set t. wd_id w \<noteq> None"
  shows "k < n \<Longrightarrow> sched_ok (D (a + k)) \<Longrightarrow>
    \<exists>j t'. j \<le> k \<and> rotation_loop n a D day t = (Inr (map (\<lambda>i. RETRY_BACKOFF_MS * int i) [a..<a + j]), t') \<and> day_selected day t t'"
proof (induction n arbitrary: a k)
  case 0
  then show ?case by simp
next
  case (Suc n)
  obtain r t1 where e: "ensureTodayWord (D a) day t = (r, t1)" by fastforce
  show ?case
  proof (cases r)
    case (Inr u)
    then have "day_selected day t t1" using ensure_selected [OF safe inj ids] e by simp
    then show ?thesis using e Inr by (intro exI [of _ 0] exI [of _ t1]) (simp add: act_catch_def act_ret_def)
  next
    case (Inl x)
    then have t1: "t1 = t" using ensure_cases [OF safe inj e] by simp
    have "k \<noteq> 0"
    proof
      assume "k = 0"
      then show False using ensure_returns [of "D a" day t] Suc.prems(2) e Inl by simp
    qed
    then obtain k' where k: "k = Suc k'" by (cases k) auto
    then have "k' < n" "sched_ok (D (a + 1 + k'))" using Suc.prems by simp_all
    then obtain j t' where l: "j \<le> k'" "rotation_loop n (a + 1) D day t = (Inr (map (\<lambda>i. RETRY_BACKOFF_MS * int i) [a + 1..<a + 1 + j]), t')"
      "day_selected day t t'" using Suc.IH by blast
    then have "rotation_loop (Suc n) a D day t = (Inr (map (\<lambda>i. RETRY_BACKOFF_MS * int i) [a..<a + Suc j]), t')"
      using e Inl t1 \<open>k' < n\<close> unfolding upt_shift by (simp add: act_catch_def act_ret_def)
    then show ?thesis using l(1,3) k by (intro exI [of _ "Suc j"] exI [of _ t']) simp
  qed
qed

text \<open>
  C11: transient failures do not cost a day: if attempt \<^verbatim>\<open>k + 1\<close>, among those configured, meets a
  database that works, the rotation ends, after at most \<^verbatim>\<open>k\<close> waits of five seconds, ten seconds
  and so on, as an undisturbed selection does: the day keeps its word, or gets the oldest unused one
  and no other row is touched, or, when every word was used, all are released and the day is left
  without a word.
\<close>

theorem rotation_survives_failures:
  assumes "\<And>i. sched_safe (D i)" "inj_on wd_id (set t)" "\<forall>w \<in> set t. wd_id w \<noteq> None"
    and "k < rotation_attempts setting" "sched_ok (D (Suc k))"
  shows "\<exists>j t'. j \<le> k \<and> runRotation D setting day t = (Inr (map (\<lambda>i. 5000 * int i) [1..<Suc j]), t') \<and>
    (if daily_on day t \<noteq> {} then t' = t
     else if pool t = {} then daily_on day t' = {} \<and> pool t' = set t'
     else \<exists>w. oldest w t \<and> daily_on day t' = {marked day w} \<and> set t' = insert (marked day w) (set t - {w}))"
proof -
  have "sched_ok (D (1 + k))" using assms(5) by simp
  from rotation_loop_selects [where D = D and day = day and a = 1, OF assms(1-3) assms(4) this]
  obtain j t' where "j \<le> k" "day_selected day t t'"
    "rotation_loop (rotation_attempts setting) 1 D day t = (Inr (map (\<lambda>i. RETRY_BACKOFF_MS * int i) [1..<1 + j]), t')" by blast
  then show ?thesis by (intro exI [of _ j] exI [of _ t']) (simp add: runRotation_def day_selected_def RETRY_BACKOFF_MS_def)
qed

text \<open>A database that refuses its first transaction.\<close>

definition flaky :: "nat \<Rightarrow> sched_deps" where
  "flaky i = (if i = 1 then word_sched\<lparr>sd_transaction := (\<lambda>m t. (Inl (JsError ''Error'' ''deadlock'' []), t))\<rparr> else word_sched)"

theorem rotation_survives_failures_witness:
  "\<exists>j t'. j \<le> 1 \<and> runRotation flaky None 7 two_words = (Inr (map (\<lambda>i. 5000 * int i) [1..<Suc j]), t') \<and> daily_on 7 t' \<noteq> {}"
proof -
  have "sched_safe (flaky i)" for i
    using word_sched_safe by (auto simp: flaky_def sched_safe_def)
  moreover have "1 < rotation_attempts None" by code_simp
  moreover have "sched_ok (flaky (Suc 1))" using word_sched_ok by (simp add: flaky_def)
  ultimately obtain j t' where "j \<le> 1" "runRotation flaky None 7 two_words = (Inr (map (\<lambda>i. 5000 * int i) [1..<Suc j]), t')"
    "daily_on 7 t' \<noteq> {}"
    using rotation_survives_failures [of flaky two_words 1 None 7] two_words_ids two_words_free by auto
  then show ?thesis by blast
qed

end
