(* ===== verification/Word_Service.thy ===== *)
theory Word_Service
  imports Words Dictionary_Helper User_Service
begin

text \<open>
  The words service (\<^verbatim>\<open>dewordle/words/words.service.ts\<close>) with its scoring and validation providers
  (\<^verbatim>\<open>providers/word-scoring-provider.ts\<close>, \<^verbatim>\<open>providers/word-validation-provider.ts\<close>).  The answers of
  the three dictionary servers, the keys of the environment, the profanity list (a data file),
  the random index and the generated identifiers are arguments.
\<close>

section \<open>Difficulty\<close>

text \<open>The weights of the source are decimal fractions; no score meets a threshold exactly.\<close>

definition highFrequencyWords :: "string list" where
  "highFrequencyWords = [''the'', ''be'', ''to'', ''of'', ''and'']"

definition midFrequencyWords :: "string list" where
  "midFrequencyWords = [''gather'', ''symbol'', ''typical'']"

definition rareWords :: "string list" where
  "rareWords = [''xylophone'', ''quizzical'', ''zephyr'']"

definition calculateObscurity :: "string \<Rightarrow> rat" where
  "calculateObscurity word =
    (let w = toLowerCase word in
     if w \<in> set highFrequencyWords then 1 / 10
     else if w \<in> set midFrequencyWords then 5 / 10
     else if w \<in> set rareWords then 1
     else 6 / 10)"

fun hasRepeatedLetters :: "string \<Rightarrow> bool" where
  "hasRepeatedLetters (a # b # s) = ((a = b \<and> a \<noteq> CHR 0x0A) \<or> hasRepeatedLetters (b # s))"
| "hasRepeatedLetters _ = False"

definition calculateComplexity :: "string \<Rightarrow> rat" where
  "calculateComplexity word =
    (let w = toLowerCase word;
         hasUncommonLetters = list_ex (\<lambda>c. c \<in> set ''qxz'') w;
         vowelCount = length (filter (\<lambda>c. c \<in> set ''aeiou'') w);
         consonantCount = length w - vowelCount;
         s1 = (if hasUncommonLetters then 4 / 10 else 0);
         s2 = (if hasRepeatedLetters w then s1 + 2 / 10 else s1);
         ratio = (of_nat vowelCount / of_nat (if consonantCount = 0 then 1 else consonantCount) :: rat);
         s3 = (if ratio < 3 / 10 \<or> ratio > 8 / 10 then s2 + 2 / 10 else s2)
     in min s3 1)"

definition scoreWord :: "string \<Rightarrow> WordDifficulty" where
  "scoreWord word =
    (let finalScore = 7 / 10 * calculateObscurity word + 3 / 10 * calculateComplexity word in
     if finalScore < 4 / 10 then EASY else if finalScore < 75 / 100 then MEDIUM else HARD)"

section \<open>Looking a word up\<close>

text \<open>Reading an element and the length of a parsed answer; what is absent is \<^verbatim>\<open>undefined\<close>.\<close>

fun js_field :: "js \<Rightarrow> string \<Rightarrow> js" where
  "js_field (Obj r) k = get_prop r k"
| "js_field _ k = Undef"

fun js_item :: "js \<Rightarrow> nat \<Rightarrow> js" where
  "js_item (Arr xs) i = (if i < length xs then xs ! i else Undef)"
| "js_item (Obj r) i = get_prop r (show_nat i)"
| "js_item (Str s) i = (if i < length s then Str [s ! i] else Undef)"
| "js_item _ i = Undef"

fun js_length :: "js \<Rightarrow> js" where
  "js_length (Arr xs) = Num (num (int (length xs)))"
| "js_length (Str s) = Num (num (int (length s)))"
| "js_length (Obj r) = get_prop r ''length''"
| "js_length _ = Undef"

text \<open>A lookup: the definition and its source.  A failed request, \<^verbatim>\<open>None\<close>, is caught by each.\<close>

type_synonym lookup = "(js \<times> string) option"

definition lookupMerriamWebster :: "string option \<Rightarrow> js option \<Rightarrow> lookup" where
  "lookupMerriamWebster apiKey answer =
    (if apiKey = None \<or> apiKey = Some [] then None
     else case answer of
       None \<Rightarrow> None
     | Some body \<Rightarrow>
         (let shortdef = js_field (js_item body 0) ''shortdef'' in
          if truthy (js_length shortdef) then Some (js_item shortdef 0, ''Merriam-Webster'') else None))"

definition lookupOxford :: "string option \<Rightarrow> string option \<Rightarrow> js option \<Rightarrow> lookup" where
  "lookupOxford appId appKey answer =
    (if appId = None \<or> appId = Some [] \<or> appKey = None \<or> appKey = Some [] then None
     else case answer of
       None \<Rightarrow> None
     | Some body \<Rightarrow>
         (let lexicalEntries = js_field (js_item (js_field body ''results'') 0) ''lexicalEntries'' in
          if \<not> truthy (js_length lexicalEntries) then None
          else let d = js_item (js_field (js_item (js_field (js_item (js_field (js_item lexicalEntries 0) ''entries'') 0)
                   ''senses'') 0) ''definitions'') 0
               in if truthy d then Some (d, ''Oxford'') else None))"

text \<open>Removing tags: a \<^verbatim>\<open><\<close>, at least one character that is not \<^verbatim>\<open>>\<close>, and a \<^verbatim>\<open>>\<close>.\<close>

function strip_tags :: "string \<Rightarrow> string" where
  "strip_tags s = (case s of
      [] \<Rightarrow> []
    | c # r \<Rightarrow>
        (let body = takeWhile (\<lambda>x. x \<noteq> CHR ''>'') r; rest = dropWhile (\<lambda>x. x \<noteq> CHR ''>'') r in
         if c = CHR ''<'' \<and> body \<noteq> [] \<and> rest \<noteq> [] then strip_tags (tl rest) else c # strip_tags r))"
  by pat_completeness auto
termination
proof (relation "measure length")
  show "(tl rest, s) \<in> measure length"
    if "s = c # r" "rest = dropWhile (\<lambda>x. x \<noteq> CHR ''>'') r" for s c r rest
    using that length_dropWhile_le [of "\<lambda>x. x \<noteq> CHR ''>''" r] by simp
qed auto

text \<open>The text before the first full stop followed by a space.\<close>

fun first_sentence :: "string \<Rightarrow> string" where
  "first_sentence (a # b # s) = (if a = CHR ''.'' \<and> b = CHR '' '' then [] else a # first_sentence (b # s))"
| "first_sentence s = s"

fun first_page :: "js \<Rightarrow> (string \<times> js) option" where
  "first_page (Obj (p # _)) = Some p"
| "first_page (Arr (x # _)) = Some (''0'', x)"
| "first_page _ = None"

definition lookupWiktionary :: "js option \<Rightarrow> lookup" where
  "lookupWiktionary answer =
    (case answer of
       None \<Rightarrow> None
     | Some body \<Rightarrow>
         (case first_page (js_field (js_field body ''query'') ''pages'') of
            Some (k, page) \<Rightarrow>
              if k = [] \<or> k = ''-1'' then None
              else (case js_field page ''extract'' of
                  Str extract \<Rightarrow>
                    (let d = first_sentence (trim (strip_tags extract)) in
                     if d = [] then None else Some (Str d, ''Wiktionary''))
                | _ \<Rightarrow> None)
          | None \<Rightarrow> None))"

section \<open>Judging a word\<close>

record word_verdict =
  wv_valid :: bool
  wv_reasons :: "string list"
  wv_score :: int
  wv_definition :: "js option"
  wv_sources :: "string list option"

text \<open>The loop over the settled lookups: the first definition, the sources, 40 points each.\<close>

definition tally_lookup :: "lookup \<Rightarrow> js option \<times> string list \<times> int \<Rightarrow> js option \<times> string list \<times> int" where
  "tally_lookup result acc =
    (case (result, acc) of
       (Some (d, src), (definition, sources, score)) \<Rightarrow>
         if truthy d then (case definition of None \<Rightarrow> Some d | Some x \<Rightarrow> Some x, sources @ [src], score + 40) else acc
     | (None, _) \<Rightarrow> acc)"

definition is_letter :: "char \<Rightarrow> bool" where
  "is_letter c = ((CHR ''a'' \<le> c \<and> c \<le> CHR ''z'') \<or> (CHR ''A'' \<le> c \<and> c \<le> CHR ''Z''))"

definition word_reasons :: "string \<Rightarrow> string list" where
  "word_reasons wordText =
     (if list_all is_letter wordText then [] else [''Contains non-alphabetic characters'']) @
     (if CHR ''-'' \<in> set wordText then [''Hyphenated word''] else []) @
     (if length wordText < 2 then [''Too short to be playable''] else [])"

definition validateWord :: "string list \<Rightarrow> lookup list \<Rightarrow> string \<Rightarrow> word_verdict" where
  "validateWord profanityList dictApis wordText =
    (let fail = (\<lambda>reasons score. \<lparr>wv_valid = False, wv_reasons = reasons, wv_score = score, wv_definition = None, wv_sources = None\<rparr>) in
     if toLowerCase wordText \<in> set profanityList then fail [''Profanity detected''] 0
     else if word_reasons wordText \<noteq> [] then fail (word_reasons wordText) 0
     else case fold tally_lookup dictApis (None, [], 0) of
       (definition, sources, score) \<Rightarrow>
         (case definition of
            None \<Rightarrow> fail [''No valid dictionary definition found''] score
          | Some d \<Rightarrow>
              (let score' = min (if length sources > 1 then score + 20 else score) 100 in
               \<lparr>wv_valid = (score' \<ge> 70), wv_reasons = [], wv_score = score', wv_definition = Some d, wv_sources = Some sources\<rparr>)))"

section \<open>The service\<close>

record word_entry =
  we_id :: string
  we_word :: string
  we_length :: nat

definition fiveLetterWords :: "string list" where
  "fiveLetterWords =
    [''apple'', ''baker'', ''crane'', ''dream'', ''eagle'', ''flame'', ''grape'', ''house'', ''igloo'', ''jolly'', ''knife'', ''lemon'',
     ''magic'', ''night'', ''ocean'', ''peach'', ''queen'', ''river'', ''sugar'', ''table'', ''umbra'', ''vivid'', ''whale'', ''xerox'',
     ''yacht'', ''zebra'', ''abode'', ''blaze'', ''chill'', ''daisy'', ''earth'', ''fable'', ''giant'', ''happy'', ''ivory'', ''jumbo'',
     ''kiosk'', ''light'', ''mirth'', ''noble'', ''oasis'', ''pixel'', ''quilt'', ''robot'', ''shade'', ''tango'', ''unity'', ''vowel'',
     ''witty'', ''xenon'', ''yield'', ''zonal'', ''about'', ''board'', ''cabin'', ''dance'', ''early'', ''fancy'', ''grace'', ''hello'',
     ''ideal'', ''joint'', ''karma'', ''latch'', ''mango'', ''north'', ''opera'', ''party'', ''quiet'', ''ruler'', ''smile'', ''train'',
     ''urban'', ''value'', ''watch'', ''xylem'', ''young'', ''zesty'', ''above'', ''brave'', ''chase'', ''drive'', ''empty'', ''feast'',
     ''glory'', ''honor'', ''image'', ''joust'', ''kudos'', ''lucky'', ''mount'', ''never'', ''order'', ''plant'', ''quick'', ''rusty'',
     ''shine'', ''truth'', ''unity'', ''vogue'', ''wagon'', ''extra'', ''yummy'', ''zesty'', ''alert'', ''birth'', ''charm'', ''drain'',
     ''entry'', ''fluid'', ''grand'', ''hasty'', ''inner'', ''jolly'', ''kiosk'', ''lunar'', ''major'', ''naive'', ''ozone'', ''proud'',
     ''quash'', ''rapid'', ''story'', ''tasty'', ''ultra'', ''vocal'', ''waste'', ''xeric'', ''yacht'', ''zonal'']"

text \<open>\<^verbatim>\<open>uuids\<close> supplies the identifiers, one for each seeded word.\<close>

definition seedWords :: "string list \<Rightarrow> word_entry list" where
  "seedWords uuids = map (\<lambda>(i, word). \<lparr>we_id = i, we_word = word, we_length = length word\<rparr>) (zip uuids fiveLetterWords)"

definition InternalServerErrorException :: "string \<Rightarrow> js_error" where
  "InternalServerErrorException message = JsError ''InternalServerErrorException'' message []"

text \<open>
  The choice of a word for the random index, enriched by the helper; the helper answers with a
  plain word whenever it fails, so the fallback of the source repeats its answer.
\<close>

definition getRandomWord ::
    "word_entry list \<Rightarrow> nat \<Rightarrow> nat \<Rightarrow> (nat \<Rightarrow> attempt_result) \<Rightarrow> (lru, js_error, EnrichedWord) act" where
  "getRandomWord words randomIndex maxCacheSize answers cache =
    (let fives = filter (\<lambda>w. we_length w = 5) words in
     if fives = [] then (Inl (NotFoundException ''No 5-letter words available in the database.''), cache)
     else if randomIndex < length fives then
       (let w = fives ! randomIndex;
            r = enrichWordWithMetadata maxCacheSize answers (we_word w) (we_id w) cache
        in (Inr (fst r), snd r))
     else (Inl (InternalServerErrorException ''Failed to retrieve a random word.''), cache))"

definition getTodaysWord :: "word_repo \<Rightarrow> int \<Rightarrow> (Word list, js_error, Word) act" where
  "getTodaysWord R todayDate = act_bind (r_findOne R (\<lambda>w. wd_dailyDate w = Some todayDate)) (\<lambda>word.
     case word of None \<Rightarrow> act_throw (NotFoundException ''Daily word not found'') | Some w \<Rightarrow> act_ret w)"

record words_health =
  wh_status :: string
  wh_last_update :: "int option"
  wh_next_update :: string
  wh_words_remaining :: nat

text \<open>\<^verbatim>\<open>nextUpdate\<close> is the start of the following day, printed by the date library.\<close>

definition getHealthStatus :: "word_repo \<Rightarrow> int \<Rightarrow> string \<Rightarrow> (Word list, js_error, words_health) act" where
  "getHealthStatus R todayDate nextUpdate =
    act_bind (r_findOne R (\<lambda>w. wd_dailyDate w = Some todayDate)) (\<lambda>word.
      act_bind (r_find R (\<lambda>w. \<not> wd_isDaily w) (\<lambda>_ _. False)) (\<lambda>free.
        act_ret \<lparr>wh_status = (if word \<noteq> None then ''ok'' else ''missing''), wh_last_update = map_option wd_updatedAt word,
          wh_next_update = nextUpdate, wh_words_remaining = length free\<rparr>))"

primrec save_all :: "word_repo \<Rightarrow> Word list \<Rightarrow> (Word list, js_error, unit) act" where
  "save_all R [] = act_ret ()"
| "save_all R (w # ws) = act_seq (r_save R w) (save_all R ws)"

definition tagAllWords :: "word_repo \<Rightarrow> (Word list, js_error, nat) act" where
  "tagAllWords R = act_bind (r_find R (\<lambda>_. True) (\<lambda>_ _. False)) (\<lambda>words.
     let toUpdate = map (\<lambda>w. w\<lparr>wd_difficulty := Some (scoreWord (wd_word w))\<rparr>) words in
     act_seq (save_all R toUpdate) (act_ret (length toUpdate)))"

text \<open>A definition that is not a string is stored as the driver prints it.\<close>

definition new_word :: "host \<Rightarrow> string \<Rightarrow> WordDifficulty \<Rightarrow> js option \<Rightarrow> string list option \<Rightarrow> Word" where
  "new_word h word difficulty d sources = \<lparr>wd_id = None, wd_word = word, wd_metadata = None, wd_isEnriched = False,
     wd_definition = map_option (js_String h) d, wd_example = None, wd_partOfSpeech = None, wd_phonetics = None,
     wd_isDaily = False, wd_dailyDate = None, wd_difficulty = Some difficulty, wd_status = PENDING,
     wd_qualityScore = None, wd_sources = sources, wd_createdAt = 0, wd_updatedAt = 0\<rparr>"

definition createWord :: "host \<Rightarrow> word_repo \<Rightarrow> string list \<Rightarrow> lookup list \<Rightarrow> string \<Rightarrow> (Word list, js_error, Word) act" where
  "createWord h R profanityList dictApis word =
    (let validation = validateWord profanityList dictApis word in
     if \<not> wv_valid validation then
       act_throw (JsError ''BadRequestException'' ''Word validation failed'' [(''reasons'', Arr (map Str (wv_reasons validation)))])
     else r_save R (new_word h word (scoreWord word) (wv_definition validation) (wv_sources validation)))"

section \<open>Lemmas\<close>

definition found :: "lookup \<Rightarrow> bool" where
  "found l = (case l of Some (d, _) \<Rightarrow> truthy d | None \<Rightarrow> False)"

text \<open>What the loop over the lookups collects.\<close>

lemma tally_lookups:
  "fold tally_lookup ls (d, s, n) =
    (case d of Some x \<Rightarrow> Some x | None \<Rightarrow> map_option (fst \<circ> the) (List.find found ls),
     s @ map (snd \<circ> the) (filter found ls), n + 40 * int (length (filter found ls)))"
proof (induction ls arbitrary: d s n)
  case Nil
  then show ?case by (cases d) simp_all
next
  case (Cons l ls)
  show ?case
  proof (cases "found l")
    case True
    then obtain x src where l: "l = Some (x, src)" "truthy x" by (cases l) (auto simp: found_def split: prod.splits)
    then show ?thesis using True Cons by (cases d) (simp_all add: tally_lookup_def)
  next
    case False
    then have "tally_lookup l (d, s, n) = (d, s, n)"
      by (cases l) (auto simp: found_def tally_lookup_def)
    then show ?thesis using False Cons by (cases d) simp_all
  qed
qed

lemma find_found_None: "List.find found ls = None \<longleftrightarrow> filter found ls = []"
  by (induction ls) auto

section \<open>Properties\<close>

text \<open>
  A word is accepted exactly when it is not on the profanity list, consists of at least two
  letters, and at least two of the three dictionaries define it; a word that only one dictionary
  defines is refused with an empty list of reasons.
\<close>

theorem validateWord_valid_iff:
  "(wv_valid (validateWord profanity ls w) \<longleftrightarrow>
      toLowerCase w \<notin> set profanity \<and> list_all is_letter w \<and> 2 \<le> length w \<and> 2 \<le> length (filter found ls)) \<and>
   (\<not> wv_valid (validateWord profanity ls w) \<and> wv_reasons (validateWord profanity ls w) = [] \<longleftrightarrow>
      toLowerCase w \<notin> set profanity \<and> list_all is_letter w \<and> 2 \<le> length w \<and> length (filter found ls) = 1)"
proof -
  have hyphen: "list_all is_letter w \<Longrightarrow> CHR ''-'' \<notin> set w"
    by (auto simp: list_all_iff is_letter_def char_between)
  have reasons: "word_reasons w = [] \<longleftrightarrow> list_all is_letter w \<and> 2 \<le> length w"
    using hyphen by (auto simp: word_reasons_def)
  show ?thesis
  proof (cases "toLowerCase w \<notin> set profanity \<and> word_reasons w = []")
    case False
    then show ?thesis using reasons by (auto simp: validateWord_def Let_def)
  next
    case True
    let ?n = "length (filter found ls)"
    show ?thesis
    proof (cases "List.find found ls")
      case None
      then have "?n = 0" by (simp add: find_found_None)
      then show ?thesis using True None reasons by (simp add: validateWord_def Let_def tally_lookups)
    next
      case (Some l)
      then have "?n \<noteq> 0" by (metis find_found_None length_0_conv option.distinct(1))
      then consider "?n = 1" | "2 \<le> ?n" by linarith
      then show ?thesis
      proof cases
        case 1
        then show ?thesis using True Some reasons by (simp add: validateWord_def Let_def tally_lookups)
      next
        case 2
        then have "70 \<le> min (if length (map (snd \<circ> the) (filter found ls)) > 1 then 40 * int ?n + 20 else 40 * int ?n) 100" by simp
        then show ?thesis using True Some reasons 2 by (simp add: validateWord_def Let_def tally_lookups)
      qed
    qed
  qed
qed

text \<open>Every seeded word has five lower-case letters.\<close>

lemma seeded_words: "list_all (\<lambda>w. length w = 5 \<and> list_all (\<lambda>c. CHR ''a'' \<le> c \<and> c \<le> CHR ''z'') w) fiveLetterWords"
  by code_simp

lemma seeded_five: "w \<in> set (seedWords uuids) \<Longrightarrow> we_length w = 5 \<and> length (we_word w) = 5"
  using seeded_words by (auto simp: seedWords_def list_all_iff dest!: set_zip_rightD)

end
