(* ===== verification/Game_Sessions.thy ===== *)
theory Game_Sessions
  imports Wordle_Engine Word_Service
begin

text \<open>
  Game sessions (\<^verbatim>\<open>game-sessions/game-sessions.service.ts\<close>, \<^verbatim>\<open>providers/submit-guess.ts\<close>) and the
  leaderboard they feed (\<^verbatim>\<open>leaderboard/leaderboard.service.ts\<close>): creating a session with a random
  solution, guessing, and the status a guess leaves.  A session row holds its guess history; users
  and games are known by their numbers.  Generated columns of a guess are left to the database.
\<close>

section \<open>Data\<close>

datatype GameSessionStatus = IN_PROGRESS | WON | LOST

definition MAX_ATTEMPTS :: nat where "MAX_ATTEMPTS = 6"

record GuessHistory =
  gh_guess :: string
  gh_result :: "LetterEvaluation list"
  gh_attemptNumber :: nat

record GameSession =
  gs_id :: "nat option"
  gs_user :: "nat option"
  gs_game :: nat
  gs_score :: int
  gs_durationSeconds :: int
  gs_status :: GameSessionStatus
  gs_metadata :: "js_record option"
  gs_playedAt :: int
  gs_solution :: string
  gs_history :: "GuessHistory list"

record LeaderboardEntry =
  lb_id :: "nat option"
  lb_user :: nat
  lb_game :: nat
  lb_totalScore :: int
  lb_wins :: nat
  lb_totalSessions :: nat
  lb_lastUpdated :: int

record Game =
  ga_id :: nat

text \<open>The payloads of \<^verbatim>\<open>session.completed\<close>: the saved session at creation, a summary at the end.\<close>

datatype session_event =
    SessionSaved GameSession
  | SessionCompletedEvent "nat option" "nat option" GameSessionStatus nat string

record game_world =
  gw_sessions :: "GameSession list"
  gw_games :: "Game list"
  gw_leaderboard :: "LeaderboardEntry list"
  gw_words :: word_world
  gw_enriched :: lru
  gw_events :: "session_event list"

type_synonym 'a game_act = "(game_world, js_error, 'a) act"

record game_deps =
  gd_sessions :: "(GameSession, js_error) repo"
  gd_games :: "(Game, js_error) repo"
  gd_leaderboard :: "(LeaderboardEntry, js_error) repo"
  gd_words :: word_repo
  gd_injected :: bool
  gd_seeded :: "word_entry list"
  gd_maxCache :: nat

definition on_sessions :: "(GameSession list, js_error, 'a) act \<Rightarrow> 'a game_act" where
  "on_sessions = zoom gw_sessions (\<lambda>t s. s\<lparr>gw_sessions := t\<rparr>)"

definition on_games :: "(Game list, js_error, 'a) act \<Rightarrow> 'a game_act" where
  "on_games = zoom gw_games (\<lambda>t s. s\<lparr>gw_games := t\<rparr>)"

definition on_leaderboard :: "(LeaderboardEntry list, js_error, 'a) act \<Rightarrow> 'a game_act" where
  "on_leaderboard = zoom gw_leaderboard (\<lambda>t s. s\<lparr>gw_leaderboard := t\<rparr>)"

definition on_dictionary :: "'a word_act \<Rightarrow> 'a game_act" where
  "on_dictionary = zoom gw_words (\<lambda>t s. s\<lparr>gw_words := t\<rparr>)"

definition on_enriched :: "(lru, js_error, 'a) act \<Rightarrow> 'a game_act" where
  "on_enriched = zoom gw_enriched (\<lambda>t s. s\<lparr>gw_enriched := t\<rparr>)"

definition game_emit :: "session_event \<Rightarrow> unit game_act" where
  "game_emit e = act_modify (\<lambda>s. s\<lparr>gw_events := gw_events s @ [e]\<rparr>)"

section \<open>The leaderboard\<close>

definition upsertEntry ::
    "(LeaderboardEntry, js_error) repo \<Rightarrow> nat \<Rightarrow> nat \<Rightarrow> int \<Rightarrow> bool \<Rightarrow> (LeaderboardEntry list, js_error, LeaderboardEntry) act" where
  "upsertEntry R user game score win = act_catch
    (act_bind (r_findOne R (\<lambda>e. lb_user e = user \<and> lb_game e = game)) (\<lambda>found.
      r_save R (case found of
          None \<Rightarrow> \<lparr>lb_id = None, lb_user = user, lb_game = game, lb_totalScore = score, lb_wins = (if win then 1 else 0),
              lb_totalSessions = 1, lb_lastUpdated = 0\<rparr>
        | Some entry \<Rightarrow> entry\<lparr>lb_totalScore := lb_totalScore entry + score, lb_wins := lb_wins entry + (if win then 1 else 0),
              lb_totalSessions := lb_totalSessions entry + 1\<rparr>)))
    (\<lambda>_. act_throw (InternalServerErrorException ''Could not update leaderboard''))"

text \<open>A page: the offset and the limit of the request, which must be whole numbers for the database.\<close>

definition page_bounds :: "jsnum \<Rightarrow> jsnum \<Rightarrow> (nat \<times> nat) option" where
  "page_bounds skip take_n =
    (let s = num_max (num 0) skip; t = num_max (num 1) (num_min take_n (num 100)) in
     if num_isInteger s \<and> num_isInteger t then Some (nat (num_floor s), nat (num_floor t)) else None)"

definition board_gt :: "LeaderboardEntry \<Rightarrow> LeaderboardEntry \<Rightarrow> bool" where
  "board_gt a b = (lb_totalScore a < lb_totalScore b \<or>
     (lb_totalScore a = lb_totalScore b \<and> lb_lastUpdated a < lb_lastUpdated b))"

definition getGameLeaderboard ::
    "(LeaderboardEntry, js_error) repo \<Rightarrow> nat option \<Rightarrow> jsnum \<Rightarrow> jsnum \<Rightarrow> (LeaderboardEntry list, js_error, LeaderboardEntry list) act" where
  "getGameLeaderboard R game skip take_n =
    (case game of
       None \<Rightarrow> act_throw (NotFoundException ''Game not found'')
     | Some g \<Rightarrow> act_catch
         (case page_bounds skip take_n of
            None \<Rightarrow> act_throw (JsError ''QueryFailedError'' [] [])
          | Some (s, t) \<Rightarrow> act_bind (r_find R (\<lambda>e. lb_game e = g) board_gt) (\<lambda>rows. act_ret (take t (drop s rows))))
         (\<lambda>_. act_throw (InternalServerErrorException ''Could not fetch game leaderboard'')))"

record board_total =
  bt_userId :: nat
  bt_totalScore :: int
  bt_wins :: nat
  bt_totalSessions :: nat
  bt_lastUpdated :: int

text \<open>The grouped query: one row per user with the sums and the latest update.\<close>

definition user_total :: "LeaderboardEntry list \<Rightarrow> nat \<Rightarrow> board_total" where
  "user_total rows u = (let mine = filter (\<lambda>e. lb_user e = u) rows in
     \<lparr>bt_userId = u, bt_totalScore = sum_list (map lb_totalScore mine), bt_wins = sum_list (map lb_wins mine),
      bt_totalSessions = sum_list (map lb_totalSessions mine), bt_lastUpdated = fold max (map lb_lastUpdated mine) 0\<rparr>)"

definition getGlobalLeaderboard ::
    "(LeaderboardEntry, js_error) repo \<Rightarrow> jsnum \<Rightarrow> jsnum \<Rightarrow> (LeaderboardEntry list, js_error, board_total list) act" where
  "getGlobalLeaderboard R skip take_n = act_catch
    (case page_bounds skip take_n of
       None \<Rightarrow> act_throw (JsError ''QueryFailedError'' [] [])
     | Some (s, t) \<Rightarrow> act_bind (r_find R (\<lambda>_. True) (\<lambda>_ _. False)) (\<lambda>rows.
         act_ret (take t (drop s (sort_by (\<lambda>a b. bt_totalScore a < bt_totalScore b \<or>
             (bt_totalScore a = bt_totalScore b \<and> bt_lastUpdated a < bt_lastUpdated b))
           (map (user_total rows) (remdups (map lb_user rows))))))))
    (\<lambda>_. act_throw (InternalServerErrorException ''Could not fetch global leaderboard''))"

section \<open>Creating a session\<close>

record CreateSessionDto =
  cs_gameId :: nat
  cs_score :: int
  cs_durationSeconds :: int
  cs_metadata :: "js_record option"

definition create_session ::
    "game_deps \<Rightarrow> nat \<Rightarrow> (nat \<Rightarrow> attempt_result) \<Rightarrow> CreateSessionDto \<Rightarrow> nat option \<Rightarrow> GameSession game_act" where
  "create_session D randomIndex answers createDto user =
    act_bind (on_games (r_findOne (gd_games D) (\<lambda>g. ga_id g = cs_gameId createDto))) (\<lambda>game.
      if game = None then act_throw (NotFoundException ''Game not found'')
      else if user = None \<and> cs_score createDto < 0 then act_throw (BadRequestException ''Invalid score for guest session'')
      else act_bind (on_enriched (getRandomWord (gd_seeded D) randomIndex (gd_maxCache D) answers)) (\<lambda>w.
        act_bind (on_sessions (r_save (gd_sessions D) \<lparr>gs_id = None, gs_user = user, gs_game = cs_gameId createDto,
            gs_score = cs_score createDto, gs_durationSeconds = cs_durationSeconds createDto, gs_status = IN_PROGRESS,
            gs_metadata = cs_metadata createDto, gs_playedAt = 0, gs_solution = ew_word w, gs_history = []\<rparr>)) (\<lambda>saved.
          act_seq (case user of
              Some u \<Rightarrow> act_seq (on_leaderboard (upsertEntry (gd_leaderboard D) u (cs_gameId createDto) (cs_score createDto) False)) (act_ret ())
            | None \<Rightarrow> act_ret ())
            (act_seq (game_emit (SessionSaved saved)) (act_ret saved)))))"

text \<open>The guest identifier of a session's metadata, as the database reads it.\<close>

definition guest_of :: "GameSession \<Rightarrow> string option" where
  "guest_of s = (case gs_metadata s of
      Some m \<Rightarrow> (case get_prop m ''guestId'' of Str g \<Rightarrow> Some g | _ \<Rightarrow> None) | None \<Rightarrow> None)"

definition newest_first :: "GameSession \<Rightarrow> GameSession \<Rightarrow> bool" where
  "newest_first a b = (gs_playedAt a < gs_playedAt b)"

definition getUserSessions :: "game_deps \<Rightarrow> nat option \<Rightarrow> string option \<Rightarrow> GameSession list game_act" where
  "getUserSessions D user guestId =
    (case user of
       Some u \<Rightarrow> on_sessions (r_find (gd_sessions D) (\<lambda>s. gs_user s = Some u) newest_first)
     | None \<Rightarrow> (if guestId = None \<or> guestId = Some [] then act_ret []
         else on_sessions (r_find (gd_sessions D) (\<lambda>s. gs_user s = None \<and> guest_of s = guestId) newest_first)))"

section \<open>Guessing\<close>

definition sessionStatus :: "LetterEvaluation list \<Rightarrow> nat \<Rightarrow> nat \<Rightarrow> GameSessionStatus" where
  "sessionStatus evaluation attemptNumber maxAttempts =
    (if attemptNumber > maxAttempts then LOST
     else if list_all (\<lambda>e. status e = Correct) evaluation then WON
     else if attemptNumber = maxAttempts then LOST
     else IN_PROGRESS)"

definition engine_message :: "engine_error \<Rightarrow> string" where
  "engine_message e = (case e of
      GuessLengthMismatch g w \<Rightarrow> ''Guess length ('' @ show_nat g @ '') must match solution length ('' @ show_nat w @ '')''
    | SolutionTooShort \<Rightarrow> ''Solution must be at least 1 character long'')"

text \<open>
  A session as a query loads it: the status is only there when the query selects it.  The query
  for a user selects the identifier, the solution and the history; the one for a guest selects
  every column.
\<close>

record loaded_session =
  ls_row :: GameSession
  ls_status :: "GameSessionStatus option"

definition load_session :: "game_deps \<Rightarrow> nat \<Rightarrow> nat option \<Rightarrow> string option \<Rightarrow> loaded_session option game_act" where
  "load_session D sessionId user guestId =
    (case user of
       Some u \<Rightarrow> act_bind (on_sessions (r_findOne (gd_sessions D) (\<lambda>s. gs_id s = Some sessionId \<and> gs_user s = Some u)))
         (\<lambda>x. act_ret (map_option (\<lambda>s. \<lparr>ls_row = s, ls_status = None\<rparr>) x))
     | None \<Rightarrow> act_bind (on_sessions (r_findOne (gd_sessions D)
           (\<lambda>s. gs_id s = Some sessionId \<and> gs_user s = None \<and> guest_of s = guestId)))
         (\<lambda>x. act_ret (map_option (\<lambda>s. \<lparr>ls_row = s, ls_status = Some (gs_status s)\<rparr>) x)))"

record guess_answer =
  gn_evaluation :: "LetterEvaluation list"
  gn_attemptNumber :: nat
  gn_status :: GameSessionStatus

text \<open>The part of a guess after the session was found in progress.\<close>

definition accept_guess :: "game_deps \<Rightarrow> nat option \<Rightarrow> GameSession \<Rightarrow> string \<Rightarrow> guess_answer game_act" where
  "accept_guess D userId session guess =
    act_bind (on_dictionary (isValidWord (gd_injected D) (gd_words D) guess)) (\<lambda>valid.
      if \<not> valid then act_throw (BadRequestException ''Not in word list'')
      else (case evaluateGuess guess (gs_solution session) of
          Inl error \<Rightarrow> act_throw (BadRequestException (''Invalid guess: '' @ engine_message error))
        | Inr result \<Rightarrow>
            (let attemptNumber = length (gs_history session) + 1;
                 st = sessionStatus result attemptNumber MAX_ATTEMPTS in
             act_bind (on_sessions (r_save (gd_sessions D) (session\<lparr>gs_status := st,
                 gs_history := gs_history session @ [\<lparr>gh_guess = guess, gh_result = result, gh_attemptNumber = attemptNumber\<rparr>]\<rparr>)))
               (\<lambda>savedSession.
                 act_seq (if st = WON \<or> st = LOST
                   then game_emit (SessionCompletedEvent (gs_id savedSession) userId st (length (gs_history savedSession)) (gs_solution savedSession))
                   else act_ret ())
                   (act_ret \<lparr>gn_evaluation = result, gn_attemptNumber = attemptNumber, gn_status = st\<rparr>)))))"

text \<open>The loaded session carries no user, so the completion event never names one.\<close>

definition guess_session :: "game_deps \<Rightarrow> nat \<Rightarrow> string \<Rightarrow> nat option \<Rightarrow> string option \<Rightarrow> guess_answer game_act" where
  "guess_session D sessionId guess user guestId =
    (if user = None \<and> (guestId = None \<or> guestId = Some []) then
       act_throw (BadRequestException ''GuestId is required for guest sessions'')
     else act_bind (load_session D sessionId user guestId) (\<lambda>found.
       case found of
         None \<Rightarrow> act_throw (NotFoundException ''Session not found'')
       | Some session \<Rightarrow>
           if ls_status session \<noteq> Some IN_PROGRESS then act_throw (BadRequestException ''Session is not in progress'')
           else if guess \<in> set (map gh_guess (gs_history (ls_row session))) then
             act_throw (JsError ''ConflictException'' ''Word Already Guessed'' [])
           else accept_guess D None (ls_row session) guess))"

section \<open>The submit provider\<close>

text \<open>It saves the session as it was and answers with its status; the guess is not used.\<close>

definition submitGuess :: "game_deps \<Rightarrow> nat \<Rightarrow> string \<Rightarrow> (string \<times> GameSessionStatus) game_act" where
  "submitGuess D sessionId guess =
    act_bind (on_sessions (r_findOne (gd_sessions D) (\<lambda>s. gs_id s = Some sessionId))) (\<lambda>found.
      case found of
        None \<Rightarrow> act_throw (NotFoundException ''Session not found'')
      | Some session \<Rightarrow>
          if gs_status session = WON \<or> gs_status session = LOST then
            act_throw (JsError ''ForbiddenException'' ''Game session is already complete'' [])
          else act_seq (on_sessions (r_save (gd_sessions D) session))
            (act_ret (''Guess processed'', gs_status session)))"

section \<open>What a session's row says\<close>

abbreviation gs_body :: "GameSession \<Rightarrow> GameSession" where
  "gs_body s \<equiv> s\<lparr>gs_id := None, gs_playedAt := 0\<rparr>"

definition status_of :: "string \<Rightarrow> GuessHistory list \<Rightarrow> GameSessionStatus" where
  "status_of solution h =
    (if h \<noteq> [] \<and> normalized (gh_guess (last h)) = normalized solution then WON
     else if length h \<ge> MAX_ATTEMPTS then LOST else IN_PROGRESS)"

definition session_ok :: "GameSession \<Rightarrow> bool" where
  "session_ok s \<longleftrightarrow> (let h = gs_history s in
     map gh_attemptNumber h = [1..<Suc (length h)] \<and> distinct (map gh_guess h) \<and> length h \<le> MAX_ATTEMPTS \<and>
     (\<forall>g \<in> set h. evaluateGuess (gh_guess g) (gs_solution s) = Inr (gh_result g)) \<and>
     (\<forall>g \<in> set (butlast h). normalized (gh_guess g) \<noteq> normalized (gs_solution s)) \<and>
     gs_status s = status_of (gs_solution s) h)"

lemma session_ok_body:
  assumes "gs_body a = gs_body b"
  shows "session_ok a \<longleftrightarrow> session_ok b"
proof -
  have "gs_history a = gs_history b" "gs_solution a = gs_solution b" "gs_status a = gs_status b"
    using assms by (cases a; cases b; simp)+
  then show ?thesis by (simp add: session_ok_def)
qed

lemma session_ok_new: "gs_history s = [] \<Longrightarrow> gs_status s = IN_PROGRESS \<Longrightarrow> session_ok s"
  by (simp add: session_ok_def status_of_def MAX_ATTEMPTS_def)

lemma in_progress_iff:
  "session_ok s \<Longrightarrow> gs_status s = IN_PROGRESS \<longleftrightarrow> length (gs_history s) < MAX_ATTEMPTS \<and>
     (\<forall>g \<in> set (gs_history s). normalized (gh_guess g) \<noteq> normalized (gs_solution s))"
proof -
  assume ok: "session_ok s"
  show ?thesis
  proof (cases "gs_history s" rule: rev_cases)
    case Nil
    then show ?thesis using ok by (simp add: session_ok_def Let_def status_of_def MAX_ATTEMPTS_def)
  next
    case (snoc h g)
    then show ?thesis using ok by (auto simp: session_ok_def Let_def status_of_def)
  qed
qed

text \<open>The status computed for an evaluated guess is the one its history calls for.\<close>

lemma sessionStatus_eq:
  assumes "evaluateGuess guess solution = Inr r" "length h < MAX_ATTEMPTS"
  shows "sessionStatus r (length h + 1) MAX_ATTEMPTS =
    status_of solution (h @ [\<lparr>gh_guess = guess, gh_result = r, gh_attemptNumber = length h + 1\<rparr>])"
proof -
  have "list_all (\<lambda>e. status e = Correct) r \<longleftrightarrow> normalized guess = normalized solution"
    using evaluateGuess_all_correct [OF assms(1)] by (simp add: list_all_iff)
  then show ?thesis using assms(2) by (auto simp: sessionStatus_def status_of_def)
qed

lemma session_ok_guess:
  assumes ok: "session_ok s" and ip: "gs_status s = IN_PROGRESS" and new: "guess \<notin> set (map gh_guess (gs_history s))"
    and ev: "evaluateGuess guess (gs_solution s) = Inr r"
  shows "session_ok (s\<lparr>gs_status := sessionStatus r (length (gs_history s) + 1) MAX_ATTEMPTS,
    gs_history := gs_history s @ [\<lparr>gh_guess = guess, gh_result = r, gh_attemptNumber = length (gs_history s) + 1\<rparr>]\<rparr>)"
proof -
  have len: "length (gs_history s) < MAX_ATTEMPTS"
    and no: "\<forall>g \<in> set (gs_history s). normalized (gh_guess g) \<noteq> normalized (gs_solution s)"
    using in_progress_iff [OF ok] ip by blast+
  note S = ok [unfolded session_ok_def Let_def]
  have num: "map gh_attemptNumber (gs_history s) = [1..<Suc (length (gs_history s))]" using S by blast
  show ?thesis
    unfolding session_ok_def Let_def
    using S len no new ev num sessionStatus_eq [OF ev len] by (auto simp: butlast_append)
qed

definition sessions_ok :: "game_world \<Rightarrow> bool" where
  "sessions_ok w \<longleftrightarrow> (\<forall>s \<in> set (gw_sessions w). session_ok s)"

definition game_repo_ok :: "game_deps \<Rightarrow> bool" where
  "game_repo_ok D \<longleftrightarrow> repo_ok gs_id gs_body (gd_sessions D)"

lemma game_sessionsD: "on_sessions m w = (r, w') \<Longrightarrow> \<exists>t. m (gw_sessions w) = (r, t) \<and> w' = w\<lparr>gw_sessions := t\<rparr>"
  unfolding on_sessions_def by (drule zoomD) blast

text \<open>Saving a consistent row keeps the table consistent.\<close>

lemma save_session:
  assumes "game_repo_ok D" "sessions_ok w" "session_ok s" "on_sessions (r_save (gd_sessions D) s) w = (r, w')"
  shows "sessions_ok w'"
proof -
  obtain t where t: "r_save (gd_sessions D) s (gw_sessions w) = (r, t)" "w' = w\<lparr>gw_sessions := t\<rparr>"
    using game_sessionsD [OF assms(4)] by blast
  have ok: "repo_ok gs_id gs_body (gd_sessions D)" using assms(1) by (simp add: game_repo_ok_def)
  show ?thesis
  proof (cases r)
    case (Inl e)
    then have "t = gw_sessions w" using save_throws [OF ok, of s "gw_sessions w" e t] t(1) by simp
    then show ?thesis using t(2) assms(2) by (simp add: sessions_ok_def)
  next
    case (Inr e)
    note S = save_returns [OF ok t(1) [unfolded Inr]]
    have "session_ok e" using session_ok_body [of e s] S(1) assms(3) by simp
    then show ?thesis using S(5) assms(2) t(2) by (auto simp: sessions_ok_def)
  qed
qed

lemma find_session:
  assumes "game_repo_ok D" "on_sessions (r_findOne (gd_sessions D) P) w = (r, w')"
  shows "w' = w \<and> (case r of Inr (Some s) \<Rightarrow> s \<in> set (gw_sessions w) \<and> P s | _ \<Rightarrow> True)"
proof -
  have ok: "repo_ok gs_id gs_body (gd_sessions D)" using assms(1) by (simp add: game_repo_ok_def)
  obtain t where t: "r_findOne (gd_sessions D) P (gw_sessions w) = (r, t)" "w' = w\<lparr>gw_sessions := t\<rparr>"
    using game_sessionsD [OF assms(2)] by blast
  have "w' = w" using findOne_same [OF ok t(1)] t(2) by simp
  moreover have "s \<in> set (gw_sessions w) \<and> P s" if "r = Inr (Some s)" for s
    using findOne_Some [OF ok, of P "gw_sessions w" s t] t(1) that by blast
  ultimately show ?thesis by (auto split: sum.splits option.splits)
qed

text \<open>The other services leave the sessions alone.\<close>

lemma other_services:
  "on_games m1 w = (r1, w') \<Longrightarrow> gw_sessions w' = gw_sessions w"
  "on_leaderboard m2 w = (r2, w') \<Longrightarrow> gw_sessions w' = gw_sessions w"
  "on_dictionary m3 w = (r3, w') \<Longrightarrow> gw_sessions w' = gw_sessions w"
  "on_enriched m4 w = (r4, w') \<Longrightarrow> gw_sessions w' = gw_sessions w"
  "game_emit e w = (r5, w') \<Longrightarrow> gw_sessions w' = gw_sessions w"
  by (auto simp: on_games_def on_leaderboard_def on_dictionary_def on_enriched_def game_emit_def act_modify_def
      dest!: zoomD)

text \<open>A relation carried through the combinators: consistency is kept.\<close>

definition keeps_ok :: "game_world \<Rightarrow> game_world \<Rightarrow> bool" where
  "keeps_ok w w' \<longleftrightarrow> (sessions_ok w \<longrightarrow> sessions_ok w')"

lemma keeps_ok_refl: "reflp keeps_ok" and keeps_ok_trans: "transp keeps_ok"
  by (auto simp: reflp_def transp_def keeps_ok_def)

lemma keeps_same: "(\<And>w r w'. m w = (r, w') \<Longrightarrow> gw_sessions w' = gw_sessions w) \<Longrightarrow> keeps keeps_ok m"
  unfolding keeps_def keeps_ok_def sessions_ok_def by (metis prod.collapse)

lemma keeps_others:
  "keeps keeps_ok (on_games m1)" "keeps keeps_ok (on_leaderboard m2)" "keeps keeps_ok (on_dictionary m3)"
  "keeps keeps_ok (on_enriched m4)" "keeps keeps_ok (game_emit e)"
  by (rule keeps_same; erule other_services)+

lemmas keeps_game = keeps_ret [OF keeps_ok_refl] keeps_throw [OF keeps_ok_refl] keeps_bind [OF keeps_ok_trans]
  keeps_seq [OF keeps_ok_trans] keeps_others

lemma keeps_save: "game_repo_ok D \<Longrightarrow> session_ok s \<Longrightarrow> keeps keeps_ok (on_sessions (r_save (gd_sessions D) s))"
  unfolding keeps_def keeps_ok_def by (metis prod.collapse save_session)

lemma keeps_create: "game_repo_ok D \<Longrightarrow> keeps keeps_ok (create_session D i answers dto user)"
  unfolding create_session_def
  by (intro keeps_game keeps_save session_ok_new; auto intro!: keeps_game keeps_save session_ok_new split: option.split)

lemma keeps_accept:
  assumes "game_repo_ok D" "session_ok s" "gs_status s = IN_PROGRESS" "guess \<notin> set (map gh_guess (gs_history s))"
  shows "keeps keeps_ok (accept_guess D u s guess)"
  unfolding accept_guess_def Let_def
  using session_ok_guess [OF assms(2-4)] assms(1)
  by (intro keeps_game; auto intro!: keeps_game keeps_save split: sum.split)

section \<open>Sessions over time\<close>

lemma load_found:
  assumes "game_repo_ok D" "load_session D i user guestId w = (r, w')"
  shows "w' = w \<and> (case r of
      Inr (Some l) \<Rightarrow> ls_row l \<in> set (gw_sessions w) \<and> gs_id (ls_row l) = Some i \<and> gs_user (ls_row l) = user \<and>
        ls_status l = (if user = None then Some (gs_status (ls_row l)) else None)
    | _ \<Rightarrow> True)"
proof (cases user)
  case None
  obtain q w1 where f: "on_sessions (r_findOne (gd_sessions D)
      (\<lambda>s. gs_id s = Some i \<and> gs_user s = None \<and> guest_of s = guestId)) w = (q, w1)" by fastforce
  note F = find_session [OF assms(1) f]
  show ?thesis
  proof (cases q)
    case (Inl e)
    then show ?thesis using assms(2) None f F by (auto simp: load_session_def)
  next
    case (Inr x)
    then show ?thesis using assms(2) None f F by (cases x) (auto simp: load_session_def act_ret_def)
  qed
next
  case (Some u)
  obtain q w1 where f: "on_sessions (r_findOne (gd_sessions D) (\<lambda>s. gs_id s = Some i \<and> gs_user s = Some u)) w = (q, w1)"
    by fastforce
  note F = find_session [OF assms(1) f]
  show ?thesis
  proof (cases q)
    case (Inl e)
    then show ?thesis using assms(2) Some f F by (auto simp: load_session_def)
  next
    case (Inr x)
    then show ?thesis using assms(2) Some f F by (cases x) (auto simp: load_session_def act_ret_def)
  qed
qed

lemma guess_keeps:
  assumes D: "game_repo_ok D" and ok: "sessions_ok w" and run: "guess_session D i g user guestId w = (r, w')"
  shows "sessions_ok w'"
proof (cases "user = None \<and> (guestId = None \<or> guestId = Some [])")
  case True
  then show ?thesis using run ok by (auto simp: guess_session_def act_throw_def)
next
  case False
  obtain q w1 where l: "load_session D i user guestId w = (q, w1)" by fastforce
  note L = load_found [OF D l]
  show ?thesis
  proof (cases q)
    case (Inl e)
    then show ?thesis using run False l L ok by (auto simp: guess_session_def)
  next
    case (Inr x)
    show ?thesis
    proof (cases x)
      case None
      then show ?thesis using run False l L ok Inr by (auto simp: guess_session_def act_throw_def)
    next
      case (Some s)
      show ?thesis
      proof (cases "ls_status s \<noteq> Some IN_PROGRESS \<or> g \<in> set (map gh_guess (gs_history (ls_row s)))")
        case True
        then have "w' = w" using run False l L Inr Some by (auto simp: guess_session_def act_throw_def split: if_splits)
        then show ?thesis using ok by simp
      next
        case go: False
        then have "accept_guess D None (ls_row s) g w = (r, w')"
          using run False l L Inr Some by (auto simp: guess_session_def)
        moreover have "session_ok (ls_row s)" "gs_status (ls_row s) = IN_PROGRESS"
          using L Inr Some go ok by (auto simp: sessions_ok_def split: if_splits)
        ultimately show ?thesis
          using keepsD [OF keeps_accept [OF D, of "ls_row s" g None]] go ok by (simp add: keeps_ok_def)
      qed
    qed
  qed
qed

lemma submit_keeps:
  assumes D: "game_repo_ok D" and ok: "sessions_ok w" and run: "submitGuess D i g w = (r, w')"
  shows "sessions_ok w'"
proof -
  obtain q w1 where f: "on_sessions (r_findOne (gd_sessions D) (\<lambda>s. gs_id s = Some i)) w = (q, w1)" by fastforce
  note F = find_session [OF D f]
  show ?thesis
  proof (cases "\<exists>s. q = Inr (Some s) \<and> gs_status s = IN_PROGRESS")
    case True
    then obtain s where s: "q = Inr (Some s)" "gs_status s = IN_PROGRESS" by blast
    then have "session_ok s" using F ok by (auto simp: sessions_ok_def)
    then have "keeps keeps_ok (act_seq (on_sessions (r_save (gd_sessions D) s)) (act_ret (''Guess processed'', gs_status s)))"
      by (intro keeps_game keeps_save [OF D])
    moreover have "act_seq (on_sessions (r_save (gd_sessions D) s)) (act_ret (''Guess processed'', gs_status s)) w = (r, w')"
      using run f F s by (auto simp: submitGuess_def)
    ultimately show ?thesis using ok by (auto simp: keeps_ok_def dest: keepsD)
  next
    case False
    have "w' = w" if "gs_status s \<noteq> IN_PROGRESS" "q = Inr (Some s)" for s
      using run f F that by (cases "gs_status s") (auto simp: submitGuess_def act_throw_def)
    moreover have "w' = w" if "q = Inr None" using run f F that by (auto simp: submitGuess_def act_throw_def)
    moreover have "w' = w" if "q = Inl e" for e using run f F that by (auto simp: submitGuess_def)
    moreover consider e where "q = Inl e" | "q = Inr None" | s where "q = Inr (Some s)"
      by (metis old.sum.exhaust option.exhaust)
    ultimately have "w' = w" using False by metis
    then show ?thesis using ok by simp
  qed
qed

text \<open>One request to the service, whatever it answers, and the worlds requests lead to.\<close>

inductive game_step :: "game_deps \<Rightarrow> game_world \<Rightarrow> game_world \<Rightarrow> bool" for D where
  step_create: "create_session D i answers dto user w = (r, w') \<Longrightarrow> game_step D w w'"
| step_guess: "guess_session D i g user guestId w = (r', w') \<Longrightarrow> game_step D w w'"
| step_submit: "submitGuess D i g w = (r'', w') \<Longrightarrow> game_step D w w'"

inductive game_reach :: "game_deps \<Rightarrow> game_world \<Rightarrow> bool" for D where
  reach_start: "gw_sessions w = [] \<Longrightarrow> game_reach D w"
| reach_step: "game_reach D w \<Longrightarrow> game_step D w w' \<Longrightarrow> game_reach D w'"

lemma game_step_ok: "game_step D w w' \<Longrightarrow> game_repo_ok D \<Longrightarrow> sessions_ok w \<Longrightarrow> sessions_ok w'"
proof (induction rule: game_step.induct)
  case (step_create i answers dto user w r w')
  then show ?case using keepsD [OF keeps_create] by (auto simp: keeps_ok_def)
next
  case (step_guess i g user guestId w r' w')
  then show ?case using guess_keeps by blast
next
  case (step_submit i g w r'' w')
  then show ?case using submit_keeps by blast
qed

lemma game_reach_ok:
  assumes "game_repo_ok D"
  shows "game_reach D w \<Longrightarrow> sessions_ok w"
proof (induction rule: game_reach.induct)
  case (reach_start w)
  then show ?case by (simp add: sessions_ok_def)
next
  case (reach_step w w')
  then show ?case using game_step_ok assms by blast
qed

section \<open>Properties\<close>

text \<open>
  C3: in every world the requests of players can lead to, a session has at most six guesses,
  numbered from one and all different, each with the marks the engine gives; it is won exactly
  when its last guess is the solution up to case and white space, lost when six guesses missed
  it, and in progress otherwise, and no guess follows a win.
\<close>

theorem session_lifecycle:
  assumes "game_repo_ok D" "game_reach D w" "s \<in> set (gw_sessions w)"
  shows "map gh_attemptNumber (gs_history s) = [1..<Suc (length (gs_history s))] \<and> length (gs_history s) \<le> 6 \<and>
    distinct (map gh_guess (gs_history s)) \<and>
    (\<forall>g \<in> set (gs_history s). evaluateGuess (gh_guess g) (gs_solution s) = Inr (gh_result g)) \<and>
    (\<forall>g \<in> set (butlast (gs_history s)). normalized (gh_guess g) \<noteq> normalized (gs_solution s)) \<and>
    (gs_status s = WON \<longleftrightarrow> gs_history s \<noteq> [] \<and> normalized (gh_guess (last (gs_history s))) = normalized (gs_solution s)) \<and>
    (gs_status s = LOST \<longleftrightarrow> length (gs_history s) = 6 \<and> normalized (gh_guess (last (gs_history s))) \<noteq> normalized (gs_solution s))"
proof -
  have ok: "session_ok s" using game_reach_ok [OF assms(1,2)] assms(3) by (simp add: sessions_ok_def)
  note S = ok [unfolded session_ok_def Let_def]
  have st: "gs_status s = status_of (gs_solution s) (gs_history s)" using S by blast
  have six: "length (gs_history s) \<le> 6" using S by (simp add: MAX_ATTEMPTS_def)
  have "gs_status s = WON \<longleftrightarrow> gs_history s \<noteq> [] \<and> normalized (gh_guess (last (gs_history s))) = normalized (gs_solution s)"
    using st by (auto simp: status_of_def)
  moreover have "gs_status s = LOST \<longleftrightarrow> length (gs_history s) = 6 \<and> normalized (gh_guess (last (gs_history s))) \<noteq> normalized (gs_solution s)"
    using st six by (auto simp: status_of_def MAX_ATTEMPTS_def)
  ultimately show ?thesis using S six by blast
qed

text \<open>A guest session over a one-word dictionary, and the winning guess.\<close>

definition plain_game :: game_deps where
  "plain_game = \<lparr>gd_sessions = mem_repo gs_id (\<lambda>i s. s\<lparr>gs_id := Some i\<rparr>), gd_games = mem_repo (Some \<circ> ga_id) (\<lambda>i g. g),
     gd_leaderboard = mem_repo lb_id (\<lambda>i e. e\<lparr>lb_id := Some i\<rparr>), gd_words = word_mem, gd_injected = True,
     gd_seeded = [\<lparr>we_id = ''1'', we_word = ''crane'', we_length = 5\<rparr>], gd_maxCache = 100\<rparr>"

lemma plain_game_ok: "game_repo_ok plain_game"
  unfolding game_repo_ok_def plain_game_def by simp (rule mem_repo_ok; simp)

definition empty_game :: game_world where
  "empty_game = \<lparr>gw_sessions = [], gw_games = [\<lparr>ga_id = 1\<rparr>], gw_leaderboard = [],
     gw_words = \<lparr>ww_words = [a_word 1 ''crane''], ww_cache = new_cache\<rparr>, gw_enriched = [], gw_events = []\<rparr>"

definition guest_session :: game_world where
  "guest_session = snd (create_session plain_game 0 (\<lambda>_. NetworkError)
     \<lparr>cs_gameId = 1, cs_score = 0, cs_durationSeconds = 0, cs_metadata = Some [(''guestId'', Str ''g'')]\<rparr> None empty_game)"

definition won_session :: game_world where
  "won_session = snd (guess_session plain_game 1 ''Crane'' None (Some ''g'') guest_session)"

lemma won_session_reached: "game_reach plain_game won_session"
proof -
  have "game_reach plain_game empty_game" by (rule reach_start) (simp add: empty_game_def)
  then have "game_reach plain_game guest_session"
    by (rule reach_step) (unfold guest_session_def, rule step_create, rule prod.collapse [symmetric])
  then show ?thesis
    by (rule reach_step) (unfold won_session_def, rule step_guess, rule prod.collapse [symmetric])
qed

definition first_session :: GameSession where
  "first_session = \<lparr>gs_id = Some 1, gs_user = None, gs_game = 1, gs_score = 0, gs_durationSeconds = 0, gs_status = IN_PROGRESS,
     gs_metadata = Some [(''guestId'', Str ''g'')], gs_playedAt = 0, gs_solution = ''crane'', gs_history = []\<rparr>"

lemma guest_session_rows: "gw_sessions guest_session = [first_session] \<and> gw_words guest_session = gw_words empty_game"
  by (simp add: guest_session_def create_session_def empty_game_def plain_game_def mem_repo_def mem_save_def next_key_def
      act_defs on_games_def on_enriched_def on_sessions_def game_emit_def getRandomWord_def enrichWordWithMetadata_def
      getCached_def jm_get_def fetchWithRetry_def maxRetries_def numeral_3_eq_3 first_session_def Let_def)

lemma crane_evaluated: "evaluateGuess ''Crane'' ''crane'' = Inr (map (\<lambda>c. \<lparr>letter = c, status = Correct\<rparr>) ''CRANE'')"
  by code_simp

lemma crane_valid: "isValidWord True word_mem ''Crane'' (gw_words empty_game) = (Inr True, gw_words empty_game)"
  by code_simp

lemma won_session_rows: "\<exists>s \<in> set (gw_sessions won_session). gs_status s = WON"
proof -
  obtain ss where "guest_session = ss" "gw_sessions ss = [first_session]" "gw_words ss = gw_words empty_game"
    using guest_session_rows by blast
  then show ?thesis
    using crane_evaluated crane_valid
    by (simp add: won_session_def guess_session_def load_session_def accept_guess_def plain_game_def mem_repo_def mem_save_def
        act_defs on_sessions_def on_dictionary_def game_emit_def first_session_def guest_of_def get_prop_def sessionStatus_def
        MAX_ATTEMPTS_def Let_def)
qed

theorem session_lifecycle_witness:
  "\<exists>s \<in> set (gw_sessions won_session). gs_status s = WON \<and> normalized (gh_guess (last (gs_history s))) = normalized (gs_solution s)"
proof -
  obtain s where s: "s \<in> set (gw_sessions won_session)" "gs_status s = WON" using won_session_rows by blast
  then show ?thesis using session_lifecycle [OF plain_game_ok won_session_reached s(1)] by blast
qed

text \<open>
  The guess endpoint never accepts a guess of an authenticated player: their query does not
  select the status of the session, so the session is not seen to be in progress, and the call
  throws and changes nothing.
\<close>

theorem authenticated_guess_refused:
  assumes "game_repo_ok D"
  shows "\<exists>e. guess_session D i g (Some u) guestId w = (Inl e, w)"
proof -
  obtain q w1 where l: "load_session D i (Some u) guestId w = (q, w1)" by fastforce
  note L = load_found [OF assms l]
  show ?thesis
  proof (cases q)
    case (Inl e)
    then show ?thesis using l L by (auto simp: guess_session_def)
  next
    case (Inr x)
    then show ?thesis using l L by (cases x) (auto simp: guess_session_def act_throw_def)
  qed
qed

theorem authenticated_guess_refused_witness:
  "\<exists>e. guess_session plain_game 1 ''crane'' (Some 5) None guest_session = (Inl e, guest_session)"
  by (rule authenticated_guess_refused [OF plain_game_ok])

end
