(* ===== verification/Matchmaking.thy ===== *)
theory Matchmaking
  imports Word_Service
begin

text \<open>
  Competitive matchmaking (\<^verbatim>\<open>matchmaking/matchmaking.module.ts\<close>): a queue of waiting players, each
  with a timer, pairing by skill, the solo match of a player who waited too long, and the results
  of a match.  Pending timers are part of the state; a timer fires as a step of its own.  The word
  of a match comes from the words service; the session identifier is an argument.
\<close>

section \<open>Data\<close>

definition SKILL_TOLERANCE :: rat where "SKILL_TOLERANCE = 25"
definition MATCH_TIMEOUT_MS :: int where "MATCH_TIMEOUT_MS = 30000"
definition MATCH_MAX_ATTEMPTS :: rat where "MATCH_MAX_ATTEMPTS = 6"

datatype MatchStatus = ACTIVE | COMPLETED | SOLO

record Match =
  mt_id :: "nat option"
  mt_sharedSessionId :: string
  mt_targetWord :: string
  mt_player1Id :: nat
  mt_player2Id :: "nat option"
  mt_player1SkillScore :: rat
  mt_player2SkillScore :: "rat option"
  mt_player1Attempts :: "nat option"
  mt_player2Attempts :: "nat option"
  mt_status :: MatchStatus
  mt_completedAt :: "int option"
  mt_createdAt :: int

record QueueEntry =
  qe_playerId :: nat
  qe_skillScore :: rat
  qe_joinedAt :: int
  qe_timer :: nat

text \<open>\<^verbatim>\<open>match.found\<close> names the players, one for a solo match; \<^verbatim>\<open>match.completed\<close> the results.\<close>

datatype match_event =
    MatchFound "nat option" string string "nat list" bool
  | MatchCompleted "nat option" string nat "nat option" "nat option" "nat option"

text \<open>A pending timer: its handle, and the player and skill of its callback.\<close>

type_synonym timer = "nat \<times> nat \<times> rat"

record mm_state =
  mm_queue :: "(nat, QueueEntry) jmap"
  mm_timers :: "timer list"
  mm_nextTimer :: nat
  mm_matches :: "Match list"
  mm_events :: "match_event list"

type_synonym 'a mm_act = "(mm_state, js_error, 'a) act"
type_synonym match_repo = "(Match, js_error) repo"

text \<open>\<^verbatim>\<open>md_word\<close> is the word service's random word, or the error it throws.\<close>

record mm_deps =
  md_matches :: match_repo
  md_word :: "js_error + string"

definition on_matches :: "(Match list, js_error, 'a) act \<Rightarrow> 'a mm_act" where
  "on_matches = zoom mm_matches (\<lambda>t s. s\<lparr>mm_matches := t\<rparr>)"

definition mm_emit :: "match_event \<Rightarrow> unit mm_act" where
  "mm_emit e = act_modify (\<lambda>s. s\<lparr>mm_events := mm_events s @ [e]\<rparr>)"

definition computeSkillScore :: "rat \<Rightarrow> rat \<Rightarrow> rat" where
  "computeSkillScore winRate avgAttempts = winRate * 100 + (MATCH_MAX_ATTEMPTS - avgAttempts) * 5"

section \<open>Timers and the queue\<close>

definition clearTimeout :: "nat \<Rightarrow> mm_state \<Rightarrow> mm_state" where
  "clearTimeout h s = s\<lparr>mm_timers := filter (\<lambda>t. fst t \<noteq> h) (mm_timers s)\<rparr>"

definition setTimeout :: "nat \<Rightarrow> rat \<Rightarrow> mm_state \<Rightarrow> nat \<times> mm_state" where
  "setTimeout playerId skillScore s =
    (mm_nextTimer s, s\<lparr>mm_timers := mm_timers s @ [(mm_nextTimer s, playerId, skillScore)], mm_nextTimer := mm_nextTimer s + 1\<rparr>)"

definition onModuleDestroy :: "mm_state \<Rightarrow> mm_state" where
  "onModuleDestroy s = (fold (\<lambda>p. clearTimeout (qe_timer (snd p))) (mm_queue s) s)\<lparr>mm_queue := []\<rparr>"

definition positionInQueue :: "nat \<Rightarrow> (nat, QueueEntry) jmap \<Rightarrow> int" where
  "positionInQueue playerId queue =
    (let sorted_entries = sort_by (\<lambda>a b. qe_joinedAt a - qe_joinedAt b > 0) (map snd queue);
         before = takeWhile (\<lambda>e. qe_playerId e \<noteq> playerId) sorted_entries
     in if length before = length sorted_entries then 0 else int (length before) + 1)"

text \<open>The loop over the queue: the closest entry so far and its distance.\<close>

definition closer :: "nat \<Rightarrow> rat \<Rightarrow> QueueEntry \<Rightarrow> QueueEntry option \<times> rat \<Rightarrow> QueueEntry option \<times> rat" where
  "closer playerId skillScore entry acc =
    (if qe_playerId entry = playerId then acc
     else let distance = \<bar>qe_skillScore entry - skillScore\<bar> in
       if distance \<le> snd acc then (Some entry, distance) else acc)"

definition best_entry :: "nat \<Rightarrow> rat \<Rightarrow> QueueEntry list \<Rightarrow> QueueEntry option" where
  "best_entry playerId skillScore entries = fst (fold (closer playerId skillScore) entries (None, SKILL_TOLERANCE))"

definition findOpponent :: "nat \<Rightarrow> rat \<Rightarrow> mm_state \<Rightarrow> QueueEntry option \<times> mm_state" where
  "findOpponent playerId skillScore s =
    (case best_entry playerId skillScore (map snd (mm_queue s)) of
       None \<Rightarrow> (None, s)
     | Some best \<Rightarrow> (Some best, (clearTimeout (qe_timer best) s)\<lparr>mm_queue := jm_delete (qe_playerId best) (mm_queue s)\<rparr>))"

section \<open>Matches\<close>

definition new_match :: "string \<Rightarrow> string \<Rightarrow> nat \<times> rat \<Rightarrow> (nat \<times> rat) option \<Rightarrow> Match" where
  "new_match sessionId word p1 p2 = \<lparr>mt_id = None, mt_sharedSessionId = sessionId, mt_targetWord = word,
     mt_player1Id = fst p1, mt_player2Id = map_option fst p2, mt_player1SkillScore = snd p1,
     mt_player2SkillScore = map_option snd p2, mt_player1Attempts = None, mt_player2Attempts = None,
     mt_status = (if p2 = None then SOLO else ACTIVE), mt_completedAt = None, mt_createdAt = 0\<rparr>"

definition createMatch :: "mm_deps \<Rightarrow> string \<Rightarrow> nat \<times> rat \<Rightarrow> nat \<times> rat \<Rightarrow> Match mm_act" where
  "createMatch D sessionId p1 p2 = (case md_word D of
      Inl e \<Rightarrow> act_throw e
    | Inr word \<Rightarrow> act_bind (on_matches (r_save (md_matches D) (new_match sessionId word p1 (Some p2)))) (\<lambda>saved.
        act_seq (mm_emit (MatchFound (mt_id saved) (mt_sharedSessionId saved) (mt_targetWord saved)
            (mt_player1Id saved # (case mt_player2Id saved of Some q \<Rightarrow> [q] | None \<Rightarrow> [])) False))
          (act_ret saved)))"

definition createSoloMatch :: "mm_deps \<Rightarrow> string \<Rightarrow> nat \<Rightarrow> rat \<Rightarrow> Match mm_act" where
  "createSoloMatch D sessionId playerId skillScore = (case md_word D of
      Inl e \<Rightarrow> act_throw e
    | Inr word \<Rightarrow> act_bind (on_matches (r_save (md_matches D) (new_match sessionId word (playerId, skillScore) None))) (\<lambda>saved.
        act_seq (mm_emit (MatchFound (mt_id saved) (mt_sharedSessionId saved) (mt_targetWord saved) [mt_player1Id saved] True))
          (act_ret saved)))"

datatype join_answer =
    StillQueued int int
  | NowQueued int int
  | Matched Match

definition enqueue_player :: "mm_deps \<Rightarrow> int \<Rightarrow> string \<Rightarrow> nat \<Rightarrow> rat \<Rightarrow> rat \<Rightarrow> join_answer mm_act" where
  "enqueue_player D now sessionId playerId winRate avgAttempts s =
    (case jm_get playerId (mm_queue s) of
       Some entry \<Rightarrow> (Inr (StillQueued (positionInQueue playerId (mm_queue s)) (now - qe_joinedAt entry)), s)
     | None \<Rightarrow>
        (let skillScore = computeSkillScore winRate avgAttempts in
         case findOpponent playerId skillScore s of
           (Some opponent, s1) \<Rightarrow>
             act_bind (createMatch D sessionId (qe_playerId opponent, qe_skillScore opponent) (playerId, skillScore))
               (\<lambda>match. act_ret (Matched match)) s1
         | (None, s1) \<Rightarrow>
             (case setTimeout playerId skillScore s1 of
                (timer, s2) \<Rightarrow>
                  (let queue = jm_set playerId \<lparr>qe_playerId = playerId, qe_skillScore = skillScore, qe_joinedAt = now, qe_timer = timer\<rparr>
                         (mm_queue s2)
                   in (Inr (NowQueued (positionInQueue playerId queue) MATCH_TIMEOUT_MS), s2\<lparr>mm_queue := queue\<rparr>)))))"

text \<open>A timer fires: it is no longer pending, and its callback runs.\<close>

definition onQueueTimeout :: "mm_deps \<Rightarrow> string \<Rightarrow> nat \<Rightarrow> rat \<Rightarrow> unit mm_act" where
  "onQueueTimeout D sessionId playerId skillScore s =
    (if jm_get playerId (mm_queue s) = None then (Inr (), s)
     else act_catch (act_seq (createSoloMatch D sessionId playerId skillScore) (act_ret ())) (\<lambda>_. act_ret ())
       (s\<lparr>mm_queue := jm_delete playerId (mm_queue s)\<rparr>))"

definition fire_timer :: "mm_deps \<Rightarrow> string \<Rightarrow> timer \<Rightarrow> unit mm_act" where
  "fire_timer D sessionId t s = (case t of (h, playerId, skillScore) \<Rightarrow>
     onQueueTimeout D sessionId playerId skillScore (clearTimeout h s))"

definition getMatch :: "mm_deps \<Rightarrow> nat \<Rightarrow> Match mm_act" where
  "getMatch D i = act_bind (on_matches (r_findOne (md_matches D) (\<lambda>m. mt_id m = Some i))) (\<lambda>found.
     case found of None \<Rightarrow> act_throw (NotFoundException ''Match not found'') | Some m \<Rightarrow> act_ret m)"

section \<open>Results\<close>

definition record_attempts :: "nat \<Rightarrow> nat \<Rightarrow> Match \<Rightarrow> Match" where
  "record_attempts playerId attempts m =
    (if mt_player1Id m = playerId then m\<lparr>mt_player1Attempts := Some attempts\<rparr>
     else m\<lparr>mt_player2Attempts := Some attempts\<rparr>)"

definition bothSubmitted :: "Match \<Rightarrow> bool" where
  "bothSubmitted m = (mt_player1Attempts m \<noteq> None \<and> (mt_player2Id m = None \<or> mt_player2Attempts m \<noteq> None))"

definition submitResult :: "mm_deps \<Rightarrow> int \<Rightarrow> nat \<Rightarrow> nat \<Rightarrow> nat \<Rightarrow> Match mm_act" where
  "submitResult D now i playerId attempts =
    act_bind (on_matches (r_findOne (md_matches D) (\<lambda>m. mt_id m = Some i))) (\<lambda>found.
      case found of
        None \<Rightarrow> act_throw (NotFoundException ''Match not found'')
      | Some match \<Rightarrow>
          if mt_status match = COMPLETED then act_throw (BadRequestException ''Match already completed'')
          else if mt_player1Id match \<noteq> playerId \<and> mt_player2Id match \<noteq> Some playerId then
            act_throw (BadRequestException ''Player is not part of this match'')
          else (let m = record_attempts playerId attempts match in
            if bothSubmitted m then
              (let m' = m\<lparr>mt_status := (if mt_player2Id m = None then SOLO else COMPLETED), mt_completedAt := Some now\<rparr> in
               act_seq (mm_emit (MatchCompleted (mt_id m') (mt_sharedSessionId m') (mt_player1Id m') (mt_player2Id m')
                   (mt_player1Attempts m') (mt_player2Attempts m')))
                 (on_matches (r_save (md_matches D) m')))
            else on_matches (r_save (md_matches D) m)))"

section \<open>The closest opponent\<close>

text \<open>The loop keeps the last of the closest entries within the bound it started with.\<close>

lemma closer_fold:
  assumes "fold (closer p k) es (b, d) = (b', d')"
  shows "d' \<le> d \<and> (\<forall>e \<in> set es. qe_playerId e \<noteq> p \<longrightarrow> \<bar>qe_skillScore e - k\<bar> \<le> d \<longrightarrow> d' \<le> \<bar>qe_skillScore e - k\<bar>) \<and>
    (b' = b \<and> d' = d \<and> (\<forall>e \<in> set es. qe_playerId e \<noteq> p \<longrightarrow> \<not> \<bar>qe_skillScore e - k\<bar> \<le> d) \<or>
     (\<exists>e \<in> set es. b' = Some e \<and> qe_playerId e \<noteq> p \<and> \<bar>qe_skillScore e - k\<bar> = d'))"
  using assms
proof (induction es arbitrary: b d)
  case Nil
  then show ?case by simp
next
  case (Cons e es)
  show ?case
  proof (cases "qe_playerId e \<noteq> p \<and> \<bar>qe_skillScore e - k\<bar> \<le> d")
    case True
    let ?d = "\<bar>qe_skillScore e - k\<bar>"
    have "closer p k e (b, d) = (Some e, ?d)" using True by (simp add: closer_def Let_def)
    then have "fold (closer p k) es (Some e, ?d) = (b', d')" using Cons.prems by simp
    note I = Cons.IH [OF this]
    have le: "d' \<le> ?d" using I by blast
    have "\<bar>qe_skillScore x - k\<bar> \<le> d \<Longrightarrow> qe_playerId x \<noteq> p \<Longrightarrow> x \<in> set es \<Longrightarrow> d' \<le> \<bar>qe_skillScore x - k\<bar>" for x
      using I le by (meson linear order_trans)
    then show ?thesis using I le True by auto
  next
    case False
    then have "closer p k e (b, d) = (b, d)" by (auto simp: closer_def Let_def)
    then have "fold (closer p k) es (b, d) = (b', d')" using Cons.prems by simp
    note I = Cons.IH [OF this]
    show ?thesis using I False by auto
  qed
qed

lemma best_entry_spec:
  "case best_entry p k es of
     None \<Rightarrow> \<forall>e \<in> set es. qe_playerId e \<noteq> p \<longrightarrow> \<bar>qe_skillScore e - k\<bar> > SKILL_TOLERANCE
   | Some b \<Rightarrow> b \<in> set es \<and> qe_playerId b \<noteq> p \<and> \<bar>qe_skillScore b - k\<bar> \<le> SKILL_TOLERANCE \<and>
       (\<forall>e \<in> set es. qe_playerId e \<noteq> p \<longrightarrow> \<bar>qe_skillScore b - k\<bar> \<le> \<bar>qe_skillScore e - k\<bar>)"
proof -
  obtain b d where f: "fold (closer p k) es (None, SKILL_TOLERANCE) = (b, d)" by fastforce
  have be: "best_entry p k es = b" using f by (simp add: best_entry_def)
  note C = closer_fold [OF f]
  show ?thesis
  proof (cases b)
    case None
    then show ?thesis using C be by (auto simp: not_le)
  next
    case (Some e)
    have "\<bar>qe_skillScore e - k\<bar> \<le> \<bar>qe_skillScore x - k\<bar>" if "x \<in> set es" "qe_playerId x \<noteq> p" for x
      using C Some that by (cases "\<bar>qe_skillScore x - k\<bar> \<le> SKILL_TOLERANCE") (auto simp: not_le)
    then show ?thesis using C be Some by auto
  qed
qed

section \<open>Calls on the matches leave the queue alone\<close>

definition same_queue :: "mm_state \<Rightarrow> mm_state \<Rightarrow> bool" where
  "same_queue s s' \<longleftrightarrow> mm_queue s' = mm_queue s \<and> mm_timers s' = mm_timers s \<and> mm_nextTimer s' = mm_nextTimer s"

lemma same_queue_refl: "reflp same_queue" and same_queue_trans: "transp same_queue"
  by (auto simp: same_queue_def intro!: reflpI transpI)

lemma frame_on_matches: "keeps same_queue (on_matches m)"
  by (auto simp: keeps_def on_matches_def zoom_def same_queue_def split: prod.split)

lemma frame_emit: "keeps same_queue (mm_emit e)"
  by (simp add: keeps_def mm_emit_def act_modify_def same_queue_def)

lemmas queue_frame = frame_on_matches frame_emit keeps_ret [OF same_queue_refl] keeps_throw [OF same_queue_refl]
  keeps_bind [OF same_queue_trans] keeps_seq [OF same_queue_trans] keeps_catch [OF same_queue_trans]

lemma frame_createMatch: "keeps same_queue (createMatch D sid p1 p2)"
  unfolding createMatch_def by (auto split: sum.split intro!: queue_frame)

lemma frame_createSoloMatch: "keeps same_queue (createSoloMatch D sid p k)"
  unfolding createSoloMatch_def by (auto split: sum.split intro!: queue_frame)

lemma frame_submitResult: "keeps same_queue (submitResult D now i p a)"
  unfolding submitResult_def
proof (rule keeps_bind [OF same_queue_trans frame_on_matches])
  show "keeps same_queue (case found of None \<Rightarrow> act_throw (NotFoundException ''Match not found'')
      | Some match \<Rightarrow>
          if mt_status match = COMPLETED then act_throw (BadRequestException ''Match already completed'')
          else if mt_player1Id match \<noteq> p \<and> mt_player2Id match \<noteq> Some p then
            act_throw (BadRequestException ''Player is not part of this match'')
          else (let m = record_attempts p a match in
            if bothSubmitted m then
              (let m' = m\<lparr>mt_status := (if mt_player2Id m = None then SOLO else COMPLETED), mt_completedAt := Some now\<rparr> in
               act_seq (mm_emit (MatchCompleted (mt_id m') (mt_sharedSessionId m') (mt_player1Id m') (mt_player2Id m')
                   (mt_player1Attempts m') (mt_player2Attempts m')))
                 (on_matches (r_save (md_matches D) m')))
            else on_matches (r_save (md_matches D) m)))" for found
    by (cases found) (auto simp: Let_def intro!: queue_frame)
qed

section \<open>The steps and their invariant\<close>

inductive mm_step :: "mm_deps \<Rightarrow> mm_state \<Rightarrow> mm_state \<Rightarrow> bool" for D where
  step_join: "enqueue_player D now sid p w a s = (r, s') \<Longrightarrow> mm_step D s s'"
| step_timer: "t \<in> set (mm_timers s) \<Longrightarrow> fire_timer D sid t s = (r, s') \<Longrightarrow> mm_step D s s'"
| step_result: "submitResult D now i p n s = (r, s') \<Longrightarrow> mm_step D s s'"
| step_destroy: "mm_step D s (onModuleDestroy s)"

inductive mm_reach :: "mm_deps \<Rightarrow> mm_state \<Rightarrow> bool" for D where
  mm_init: "mm_reach D \<lparr>mm_queue = [], mm_timers = [], mm_nextTimer = n, mm_matches = t, mm_events = []\<rparr>"
| mm_next: "mm_reach D s \<Longrightarrow> mm_step D s s' \<Longrightarrow> mm_reach D s'"

definition timer_of :: "nat \<times> QueueEntry \<Rightarrow> timer" where
  "timer_of p = (qe_timer (snd p), fst p, qe_skillScore (snd p))"

definition mm_ok :: "mm_state \<Rightarrow> bool" where
  "mm_ok s \<longleftrightarrow> mm_timers s = map timer_of (mm_queue s) \<and> jm_wf (mm_queue s) \<and>
     distinct (map (\<lambda>p. qe_timer (snd p)) (mm_queue s)) \<and> (\<forall>p \<in> set (mm_queue s). qe_timer (snd p) < mm_nextTimer s) \<and>
     (\<forall>p \<in> set (mm_queue s). qe_playerId (snd p) = fst p)"

lemma same_queue_ok: "same_queue s s' \<Longrightarrow> mm_ok s \<Longrightarrow> mm_ok s'"
  unfolding same_queue_def mm_ok_def by (elim conjE) (intro conjI; simp only:)

text \<open>Removing an entry and clearing its timer keep the two in step.\<close>

lemma mm_remove:
  assumes ok: "mm_ok s" and m: "(p, e) \<in> set (mm_queue s)"
  shows "mm_ok ((clearTimeout (qe_timer e) s)\<lparr>mm_queue := jm_delete p (mm_queue s)\<rparr>)"
proof -
  have q: "distinct (map fst (mm_queue s))" and t: "mm_timers s = map timer_of (mm_queue s)"
    and h: "distinct (map (\<lambda>p. qe_timer (snd p)) (mm_queue s))"
    using ok by (auto simp: mm_ok_def jm_wf_def timer_of_def comp_def)
  have "fst x = p \<longleftrightarrow> qe_timer (snd x) = qe_timer e" if "x \<in> set (mm_queue s)" for x
    using inj_on_eq_iff [of fst, OF _ that m] inj_on_eq_iff [of "\<lambda>p. qe_timer (snd p)", OF _ that m] q h
    by (simp add: distinct_map)
  then have "filter (\<lambda>x. qe_timer (snd x) \<noteq> qe_timer e) (mm_queue s) = filter (\<lambda>x. fst x \<noteq> p) (mm_queue s)"
    by (intro filter_cong) auto
  then have "filter (\<lambda>t. fst t \<noteq> qe_timer e) (mm_timers s) = map timer_of (jm_delete p (mm_queue s))"
    by (simp add: t filter_map comp_def timer_of_def jm_delete_def case_prod_unfold)
  moreover have "distinct (map (\<lambda>p. qe_timer (snd p)) (jm_delete p (mm_queue s)))"
    unfolding jm_delete_def by (rule distinct_map_filter [OF h])
  ultimately show ?thesis
    using ok by (auto simp: mm_ok_def clearTimeout_def set_jm_delete)
qed

lemma mm_add:
  assumes ok: "mm_ok s" and new: "jm_get p (mm_queue s) = None" and st: "setTimeout p k s = (h, s2)"
  shows "mm_ok (s2\<lparr>mm_queue := jm_set p \<lparr>qe_playerId = p, qe_skillScore = k, qe_joinedAt = now, qe_timer = h\<rparr> (mm_queue s2)\<rparr>)"
proof -
  have s2: "h = mm_nextTimer s" "mm_queue s2 = mm_queue s" "mm_timers s2 = mm_timers s @ [(h, p, k)]"
    "mm_nextTimer s2 = h + 1"
    using st by (auto simp: setTimeout_def)
  have "h \<notin> (\<lambda>p. qe_timer (snd p)) ` set (mm_queue s)" using ok s2(1) by (auto simp: mm_ok_def)
  then show ?thesis
    using ok new by (auto simp: mm_ok_def s2 jm_set_new timer_of_def jm_wf_def jm_get_None less_Suc_eq)
qed

lemma findOpponent_ok:
  assumes "mm_ok s" "findOpponent p k s = (Some b, s1)"
  shows "mm_ok s1 \<and> (qe_playerId b, b) \<in> set (mm_queue s) \<and> best_entry p k (map snd (mm_queue s)) = Some b \<and>
    mm_queue s1 = jm_delete (qe_playerId b) (mm_queue s) \<and> mm_matches s1 = mm_matches s \<and> mm_events s1 = mm_events s"
proof -
  have b: "best_entry p k (map snd (mm_queue s)) = Some b"
    and s1: "s1 = (clearTimeout (qe_timer b) s)\<lparr>mm_queue := jm_delete (qe_playerId b) (mm_queue s)\<rparr>"
    using assms(2) by (auto simp: findOpponent_def split: option.splits)
  have "b \<in> snd ` set (mm_queue s)" using best_entry_spec [where p = p and k = k and es = "map snd (mm_queue s)"] b by simp
  then have m: "(qe_playerId b, b) \<in> set (mm_queue s)" using assms(1) by (auto simp: mm_ok_def)
  show ?thesis using mm_remove [OF assms(1) m] m b by (simp add: s1 clearTimeout_def)
qed

lemma findOpponent_none: "findOpponent p k s = (None, s1) \<longleftrightarrow> s1 = s \<and> best_entry p k (map snd (mm_queue s)) = None"
  by (auto simp: findOpponent_def split: option.splits)

lemma enqueue_ok:
  assumes ok: "mm_ok s" and e: "enqueue_player D now sid p w a s = (r, s')"
  shows "mm_ok s'"
proof (cases "jm_get p (mm_queue s)")
  case (Some x)
  then show ?thesis using ok e by (simp add: enqueue_player_def)
next
  case None
  let ?k = "computeSkillScore w a"
  obtain op s1 where f: "findOpponent p ?k s = (op, s1)" by fastforce
  show ?thesis
  proof (cases op)
    case None
    then have s1: "s1 = s" using f by (simp add: findOpponent_none)
    obtain h s2 where t: "setTimeout p ?k s = (h, s2)" by fastforce
    show ?thesis using e mm_add [OF ok \<open>jm_get p (mm_queue s) = None\<close> t, of now] \<open>jm_get p (mm_queue s) = None\<close>
      by (auto simp: enqueue_player_def f None s1 t Let_def)
  next
    case (Some b)
    have "keeps same_queue (act_bind (createMatch D sid (qe_playerId b, qe_skillScore b) (p, ?k)) (\<lambda>match. act_ret (Matched match)))"
      by (intro queue_frame frame_createMatch)
    then have "same_queue s1 s'"
      using e \<open>jm_get p (mm_queue s) = None\<close> by (auto simp: enqueue_player_def f Some intro: keepsD)
    then show ?thesis using findOpponent_ok [OF ok f [unfolded Some]] same_queue_ok by blast
  qed
qed

lemma fire_ok:
  assumes ok: "mm_ok s" and t: "t \<in> set (mm_timers s)" and f: "fire_timer D sid t s = (r, s')"
  shows "mm_ok s'"
proof -
  obtain p e where m: "(p, e) \<in> set (mm_queue s)" and te: "t = (qe_timer e, p, qe_skillScore e)"
    using ok t by (auto simp: mm_ok_def timer_of_def)
  let ?s = "clearTimeout (qe_timer e) s"
  have q: "mm_queue ?s = mm_queue s" by (simp add: clearTimeout_def)
  have "jm_wf (mm_queue s)" using ok by (simp only: mm_ok_def)
  then have "jm_get p (mm_queue s) = Some e" using m by (simp add: jm_get_in)
  then have run: "act_catch (act_seq (createSoloMatch D sid p (qe_skillScore e)) (act_ret ())) (\<lambda>_. act_ret ())
      (?s\<lparr>mm_queue := jm_delete p (mm_queue s)\<rparr>) = (r, s')"
    using f by (simp add: fire_timer_def te onQueueTimeout_def q)
  have "keeps same_queue (act_catch (act_seq (createSoloMatch D sid p (qe_skillScore e)) (act_ret ())) (\<lambda>_. act_ret ()))"
    by (intro queue_frame frame_createSoloMatch)
  then have "same_queue (?s\<lparr>mm_queue := jm_delete p (mm_queue s)\<rparr>) s'" by (rule keepsD) (rule run)
  then show ?thesis using mm_remove [OF ok m] by (rule same_queue_ok)
qed

lemma clear_all:
  "mm_timers (fold (\<lambda>p. clearTimeout (qe_timer (snd p))) q s) =
     filter (\<lambda>t. fst t \<notin> (qe_timer \<circ> snd) ` set q) (mm_timers s)"
  by (induction q arbitrary: s) (auto simp: clearTimeout_def intro: filter_cong)

lemma destroy_ok: "mm_ok s \<Longrightarrow> mm_timers (onModuleDestroy s) = [] \<and> mm_queue (onModuleDestroy s) = []"
  by (auto simp: onModuleDestroy_def clear_all mm_ok_def timer_of_def filter_empty_conv)

lemma mm_reach_ok: "mm_reach D s \<Longrightarrow> mm_ok s"
proof (induction rule: mm_reach.induct)
  case (mm_init n t)
  then show ?case by (simp add: mm_ok_def)
next
  case (mm_next s s')
  from mm_next.hyps(2) mm_next.IH show ?case
  proof (cases rule: mm_step.cases)
    case (step_join now sid p w a r)
    then show ?thesis using enqueue_ok mm_next.IH by blast
  next
    case (step_timer t sid r)
    then show ?thesis using fire_ok mm_next.IH by blast
  next
    case (step_result now i p n r)
    then show ?thesis using keepsD [OF frame_submitResult] same_queue_ok mm_next.IH by blast
  next
    case step_destroy
    then show ?thesis using destroy_ok [OF mm_next.IH] by (simp add: mm_ok_def)
  qed
qed

text \<open>What creating a match leaves: the stored row and the announcement, or, when the words service or
  the save throws, nothing.\<close>

definition match_body :: "Match \<Rightarrow> Match" where
  "match_body m = m\<lparr>mt_id := None, mt_createdAt := 0\<rparr>"

lemma createMatch_result:
  assumes R: "repo_ok mt_id match_body (md_matches D)" and c: "createMatch D sid p1 p2 s = (r, s')"
  shows "case r of
      Inl e \<Rightarrow> mm_matches s' = mm_matches s \<and> mm_events s' = mm_events s
    | Inr m \<Rightarrow> mt_player1Id m = fst p1 \<and> mt_player2Id m = Some (fst p2) \<and> mt_status m = ACTIVE \<and>
        md_word D = Inr (mt_targetWord m) \<and> set (mm_matches s') = insert m (set (mm_matches s)) \<and>
        mm_events s' = mm_events s @
          [MatchFound (mt_id m) (mt_sharedSessionId m) (mt_targetWord m) [fst p1, fst p2] False]"
proof (cases "md_word D")
  case (Inl e)
  then show ?thesis using c by (auto simp: createMatch_def act_throw_def)
next
  case (Inr w)
  obtain q t where sv: "r_save (md_matches D) (new_match sid w p1 (Some p2)) (mm_matches s) = (q, t)" by fastforce
  have z: "on_matches (r_save (md_matches D) (new_match sid w p1 (Some p2))) s = (q, s\<lparr>mm_matches := t\<rparr>)"
    unfolding on_matches_def by (rule zoomI) (rule sv)
  show ?thesis
  proof (cases q)
    case (Inl e)
    have "t = mm_matches s" by (rule save_throws [OF R sv [unfolded Inl]])
    then show ?thesis using c z Inl by (auto simp: createMatch_def Inr)
  next
    case (Inr m)
    note S = save_returns [OF R sv [unfolded Inr]] save_new_set [OF R sv [unfolded Inr]]
    have "mt_player1Id (match_body m) = fst p1" "mt_player2Id (match_body m) = Some (fst p2)"
      "mt_status (match_body m) = ACTIVE" "mt_targetWord (match_body m) = w"
      unfolding S(1) by (simp_all add: match_body_def new_match_def)
    then show ?thesis using c z S(7) Inr \<open>md_word D = Inr w\<close>
      by (auto simp: createMatch_def match_body_def new_match_def mm_emit_def act_modify_def act_ret_def)
  qed
qed

text \<open>
  C9: in every state reached from an empty service by joins, timers, results and the shutdown, no player
  waits twice and the pending timers are those of the waiting players, in the order they joined:
  every waiting player has one timer, carrying their own id and score, and no timer is left for a
  player who was paired.
\<close>

theorem queue_timers_match:
  assumes "mm_reach D s"
  shows "distinct (map fst (mm_queue s)) \<and> distinct (map fst (mm_timers s)) \<and>
    map (\<lambda>(_, p, k). (p, k)) (mm_timers s) = map (\<lambda>(p, e). (p, qe_skillScore e)) (mm_queue s) \<and>
    (\<forall>(p, e) \<in> set (mm_queue s). qe_playerId e = p \<and> (qe_timer e, p, qe_skillScore e) \<in> set (mm_timers s)) \<and>
    mm_timers (onModuleDestroy s) = []"
proof -
  have ok: "mm_ok s" by (rule mm_reach_ok [OF assms])
  then have t: "mm_timers s = map timer_of (mm_queue s)" by (simp only: mm_ok_def)
  have "distinct (map fst (mm_timers s))" using ok unfolding t by (simp add: mm_ok_def timer_of_def comp_def)
  moreover have "(qe_timer e, p, qe_skillScore e) \<in> timer_of ` set (mm_queue s)" if "(p, e) \<in> set (mm_queue s)" for p e
    using imageI [OF that, of timer_of] by (simp add: timer_of_def)
  ultimately show ?thesis using ok destroy_ok [OF ok] unfolding t
    by (auto simp: mm_ok_def jm_wf_def timer_of_def [abs_def])
qed

definition demo_matching :: mm_deps where
  "demo_matching = \<lparr>md_matches = mem_repo mt_id (\<lambda>i m. m\<lparr>mt_id := Some i\<rparr>), md_word = Inr ''crane''\<rparr>"

definition demo_lobby :: mm_state where
  "demo_lobby = \<lparr>mm_queue = [], mm_timers = [], mm_nextTimer = 0, mm_matches = [], mm_events = []\<rparr>"

definition demo_waiting :: mm_state where
  "demo_waiting = snd (enqueue_player demo_matching 5 ''s1'' 7 (1/2) 4 demo_lobby)"

lemma demo_waiting_queue:
  "mm_queue demo_waiting = [(7, \<lparr>qe_playerId = 7, qe_skillScore = 60, qe_joinedAt = 5, qe_timer = 0\<rparr>)]"
  "mm_timers demo_waiting = [(0, 7, 60)]" "mm_matches demo_waiting = []"
  by (simp_all add: demo_waiting_def demo_lobby_def enqueue_player_def findOpponent_def best_entry_def
      setTimeout_def computeSkillScore_def MATCH_MAX_ATTEMPTS_def Let_def)

lemma demo_waiting_reach: "mm_reach demo_matching demo_waiting"
  unfolding demo_waiting_def demo_lobby_def
  by (rule mm_next [OF mm_init], rule step_join [OF surjective_pairing])

lemma queue_timers_match_witness:
  "mm_reach demo_matching demo_waiting \<and> map fst (mm_queue demo_waiting) = [7] \<and>
   (0, 7, 60) \<in> set (mm_timers demo_waiting) \<and> mm_timers (onModuleDestroy demo_waiting) = []"
  using demo_waiting_reach queue_timers_match [OF demo_waiting_reach] demo_waiting_queue by auto

text \<open>
  C8: a player who joins is paired with the closest waiting player within the tolerance, who leaves the
  queue, and the match is stored and announced; if choosing the word or storing the match throws,
  the opponent has already left the queue and has neither a match nor a timer.  When nobody is
  close enough, the player joins the end of the queue.
\<close>

theorem enqueue_pairs_closest:
  assumes "repo_ok mt_id match_body (md_matches D)" "mm_reach D s" "jm_get p (mm_queue s) = None"
    and "k = computeSkillScore w a" "enqueue_player D now sid p w a s = (r, s')"
  shows "if \<exists>e \<in> snd ` set (mm_queue s). \<bar>qe_skillScore e - k\<bar> \<le> SKILL_TOLERANCE
    then (\<exists>b. (qe_playerId b, b) \<in> set (mm_queue s) \<and>
        (\<forall>e \<in> snd ` set (mm_queue s). \<bar>qe_skillScore b - k\<bar> \<le> \<bar>qe_skillScore e - k\<bar>) \<and>
        jm_get p (mm_queue s') = None \<and> jm_get (qe_playerId b) (mm_queue s') = None \<and>
        (\<forall>t \<in> set (mm_timers s'). fst (snd t) \<noteq> qe_playerId b \<and> fst (snd t) \<noteq> p) \<and>
        (case r of
           Inr (Matched m) \<Rightarrow> mt_player1Id m = qe_playerId b \<and> mt_player2Id m = Some p \<and> mt_status m = ACTIVE \<and>
             set (mm_matches s') = insert m (set (mm_matches s))
         | Inr _ \<Rightarrow> False
         | Inl _ \<Rightarrow> mm_matches s' = mm_matches s \<and> mm_events s' = mm_events s))
    else mm_matches s' = mm_matches s \<and> mm_events s' = mm_events s \<and>
      map fst (mm_queue s') = map fst (mm_queue s) @ [p]"
proof -
  have ok: "mm_ok s" by (rule mm_reach_ok [OF assms(2)])
  have ok': "mm_ok s'" by (rule enqueue_ok [OF ok assms(5)])
  have np: "qe_playerId e \<noteq> p" if "e \<in> snd ` set (mm_queue s)" for e
    using that ok assms(3) by (force simp: mm_ok_def jm_get_None)
  note B = best_entry_spec [where p = p and k = k and es = "map snd (mm_queue s)"]
  obtain op s1 where f: "findOpponent p k s = (op, s1)" by fastforce
  have gone: "jm_get q (mm_queue s') = None \<Longrightarrow> t \<in> set (mm_timers s') \<Longrightarrow> fst (snd t) \<noteq> q" for q t
    using ok' by (force simp: mm_ok_def jm_get_None timer_of_def)
  show ?thesis
  proof (cases op)
    case None
    then have n: "s1 = s" "best_entry p k (map snd (mm_queue s)) = None" using f by (simp_all add: findOpponent_none)
    then have "\<not> (\<exists>e \<in> snd ` set (mm_queue s). \<bar>qe_skillScore e - k\<bar> \<le> SKILL_TOLERANCE)" using B np by (auto simp: not_le)
    moreover have "mm_matches s' = mm_matches s \<and> mm_events s' = mm_events s \<and> map fst (mm_queue s') = map fst (mm_queue s) @ [p]"
      using assms(3,5) f None n(1)
      by (auto simp: enqueue_player_def assms(4) [symmetric] setTimeout_def Let_def jm_set_new)
    ultimately show ?thesis by simp
  next
    case (Some b)
    note F = findOpponent_ok [OF ok f [unfolded Some]]
    obtain q t where c: "createMatch D sid (qe_playerId b, qe_skillScore b) (p, k) s1 = (q, t)" by fastforce
    have st: "s' = t" and rq: "r = (case q of Inl e \<Rightarrow> Inl e | Inr m \<Rightarrow> Inr (Matched m))"
      using assms(3,5) f Some c
      by (cases q; simp add: enqueue_player_def assms(4) [symmetric] Let_def act_ret_def)+
    have "same_queue s1 t" by (rule keepsD [OF frame_createMatch c])
    then have q': "mm_queue s' = jm_delete (qe_playerId b) (mm_queue s)" using F st by (simp add: same_queue_def)
    have near: "\<bar>qe_skillScore b - k\<bar> \<le> SKILL_TOLERANCE"
      "\<forall>e \<in> snd ` set (mm_queue s). \<bar>qe_skillScore b - k\<bar> \<le> \<bar>qe_skillScore e - k\<bar>" using B F np by auto
    have bq: "(qe_playerId b, b) \<in> set (mm_queue s)" using F by blast
    have away: "jm_get p (mm_queue s') = None" "jm_get (qe_playerId b) (mm_queue s') = None" using q' assms(3) by simp_all
    have ts: "\<forall>t \<in> set (mm_timers s'). fst (snd t) \<noteq> qe_playerId b \<and> fst (snd t) \<noteq> p" using gone away by blast
    have res: "case r of
           Inr (Matched m) \<Rightarrow> mt_player1Id m = qe_playerId b \<and> mt_player2Id m = Some p \<and> mt_status m = ACTIVE \<and>
             set (mm_matches s') = insert m (set (mm_matches s))
         | Inr _ \<Rightarrow> False
         | Inl _ \<Rightarrow> mm_matches s' = mm_matches s \<and> mm_events s' = mm_events s"
      using createMatch_result [OF assms(1) c] F by (cases q) (simp_all add: rq st)
    have ex: "\<exists>e \<in> snd ` set (mm_queue s). \<bar>qe_skillScore e - k\<bar> \<le> SKILL_TOLERANCE" using bq near(1) by force
    show ?thesis unfolding if_P [OF ex] using bq near(2) away ts res by blast
  qed
qed

lemma demo_matches_ok: "repo_ok mt_id match_body (md_matches demo_matching)"
  unfolding demo_matching_def by (simp, rule mem_repo_ok) (simp_all add: match_body_def)

lemma enqueue_pairs_closest_witness:
  "\<exists>r s'. enqueue_player demo_matching 9 ''s2'' 8 (1/2) 5 demo_waiting = (r, s') \<and>
     jm_get 7 (mm_queue demo_waiting) \<noteq> None \<and> jm_get 7 (mm_queue s') = None \<and>
     7 \<notin> (\<lambda>t. fst (snd t)) ` set (mm_timers s')"
proof -
  obtain r s' where e: "enqueue_player demo_matching 9 ''s2'' 8 (1/2) 5 demo_waiting = (r, s')" by fastforce
  have k: "55 = computeSkillScore (1/2) 5" by (simp add: computeSkillScore_def MATCH_MAX_ATTEMPTS_def)
  have n: "jm_get 8 (mm_queue demo_waiting) = None" by (simp add: demo_waiting_queue jm_get_def)
  show ?thesis
    using enqueue_pairs_closest [OF demo_matches_ok demo_waiting_reach n k e] e
    by (auto simp: demo_waiting_queue SKILL_TOLERANCE_def jm_get_def)
qed

end
