(* ===== verification/Sdk_Network.thy ===== *)
theory Sdk_Network
  imports Js_Values
begin

text \<open>
  The contract registry of the client library (\<^verbatim>\<open>soroban/sdk/ts/network.ts\<close>, \<^verbatim>\<open>registry.ts\<close>,
  \<^verbatim>\<open>registry-diagnostics.ts\<close>): where the addresses of the four contracts come from (the
  environment, a JSON value, a provider function), how they are checked, and the diagnostics of a
  mismatch.  Network names are strings, as they are at run time.
\<close>

section \<open>Data\<close>

datatype contract_key = K_admin_registry | K_core_game | K_rewards | K_achievements

fun key_name :: "contract_key \<Rightarrow> string" where
  "key_name K_admin_registry = ''admin_registry''"
| "key_name K_core_game = ''core_game''"
| "key_name K_rewards = ''rewards''"
| "key_name K_achievements = ''achievements''"

definition contract_keys :: "contract_key list" where
  "contract_keys = [K_admin_registry, K_core_game, K_rewards, K_achievements]"

record SorobanNetworkConfig =
  nc_name :: string
  nc_rpcUrl :: string
  nc_passphrase :: string
  nc_horizonUrl :: "string option"

record ContractRegistry =
  cr_network :: string
  cr_admin_registry :: string
  cr_core_game :: string
  cr_rewards :: string
  cr_achievements :: string

fun contract_of :: "ContractRegistry \<Rightarrow> contract_key \<Rightarrow> string" where
  "contract_of r K_admin_registry = cr_admin_registry r"
| "contract_of r K_core_game = cr_core_game r"
| "contract_of r K_rewards = cr_rewards r"
| "contract_of r K_achievements = cr_achievements r"

definition registry_of :: "string \<Rightarrow> (contract_key \<Rightarrow> string) \<Rightarrow> ContractRegistry" where
  "registry_of network c = \<lparr>cr_network = network, cr_admin_registry = c K_admin_registry, cr_core_game = c K_core_game,
     cr_rewards = c K_rewards, cr_achievements = c K_achievements\<rparr>"

definition known_networks :: "string list" where
  "known_networks = [''testnet'', ''mainnet'']"

definition NETWORKS :: "string \<Rightarrow> SorobanNetworkConfig option" where
  "NETWORKS = [
     ''testnet'' \<mapsto> \<lparr>nc_name = ''testnet'', nc_rpcUrl = ''https://soroban-testnet.stellar.org'',
       nc_passphrase = ''Test SDF Network ; September 2015'', nc_horizonUrl = Some ''https://horizon-testnet.stellar.org''\<rparr>,
     ''mainnet'' \<mapsto> \<lparr>nc_name = ''mainnet'', nc_rpcUrl = ''https://mainnet.sorobanrpc.com'',
       nc_passphrase = ''Public Global Stellar Network ; September 2015'', nc_horizonUrl = Some ''https://horizon.stellar.org''\<rparr>]"

definition sdk_error :: "string \<Rightarrow> js_error" where
  "sdk_error m = JsError ''Error'' m []"

definition js_type_error :: "string \<Rightarrow> js_error" where
  "js_type_error m = JsError ''TypeError'' m []"

section \<open>Diagnostics\<close>

datatype RegistryMismatchCause = network_mismatch | missing_contract_id | invalid_registry_network

fun cause_name :: "RegistryMismatchCause \<Rightarrow> string" where
  "cause_name network_mismatch = ''network_mismatch''"
| "cause_name missing_contract_id = ''missing_contract_id''"
| "cause_name invalid_registry_network = ''invalid_registry_network''"

record RegistryMismatchDiagnostics =
  rd_cause :: RegistryMismatchCause
  rd_expectedNetwork :: "string option"
  rd_actualNetwork :: "string option"
  rd_contractKey :: "contract_key option"
  rd_remediation :: string

text \<open>A string that counts as true: present and not empty.\<close>

fun filled :: "string option \<Rightarrow> string list" where
  "filled None = []"
| "filled (Some s) = (if s = [] then [] else [s])"

definition formatRegistryMismatchDiagnostics :: "RegistryMismatchDiagnostics \<Rightarrow> string" where
  "formatRegistryMismatchDiagnostics d =
    (let details = [''cause='' @ cause_name (rd_cause d)] @
           map (\<lambda>s. ''expected='' @ s) (filled (rd_expectedNetwork d)) @
           map (\<lambda>s. ''actual='' @ s) (filled (rd_actualNetwork d)) @
           (case rd_contractKey d of None \<Rightarrow> [] | Some k \<Rightarrow> [''contract='' @ key_name k])
     in intersperse '', '' details @ ''. Remediation: '' @ rd_remediation d)"

definition diagnoseRegistryMismatch ::
    "string option \<Rightarrow> string option \<Rightarrow> contract_key option \<Rightarrow> bool \<Rightarrow> RegistryMismatchDiagnostics option" where
  "diagnoseRegistryMismatch expectedNetwork actualNetwork contractKey missingContractId =
    (if filled expectedNetwork \<noteq> [] \<and> filled actualNetwork \<noteq> [] \<and> expectedNetwork \<noteq> actualNetwork then
       Some \<lparr>rd_cause = network_mismatch, rd_expectedNetwork = expectedNetwork, rd_actualNetwork = actualNetwork,
         rd_contractKey = None,
         rd_remediation = ''Load the registry for the active network or switch SOROBAN_NETWORK before resolving contract IDs.''\<rparr>
     else if contractKey \<noteq> None \<and> missingContractId then
       Some \<lparr>rd_cause = missing_contract_id, rd_expectedNetwork = None, rd_actualNetwork = None, rd_contractKey = contractKey,
         rd_remediation = ''Populate the missing contract address in the registry before constructing the client.''\<rparr>
     else if filled expectedNetwork \<noteq> [] \<and> filled actualNetwork \<noteq> [] \<and> the actualNetwork \<notin> set known_networks then
       Some \<lparr>rd_cause = invalid_registry_network, rd_expectedNetwork = expectedNetwork, rd_actualNetwork = actualNetwork,
         rd_contractKey = None,
         rd_remediation = ''Ensure the registry provider returns a valid testnet or mainnet value before passing it to the SDK.''\<rparr>
     else None)"

text \<open>The callers format the diagnostics without a check: \<^verbatim>\<open>null\<close> would be a type error.\<close>

definition format_diagnostics :: "RegistryMismatchDiagnostics option \<Rightarrow> js_error + string" where
  "format_diagnostics d = (case d of
      None \<Rightarrow> Inl (js_type_error (''Cannot read properties of null (reading '' @ [CHR 0x27] @ ''cause'' @ [CHR 0x27] @ '')''))
    | Some x \<Rightarrow> Inr (formatRegistryMismatchDiagnostics x))"

definition throw_diagnosed :: "string \<Rightarrow> RegistryMismatchDiagnostics option \<Rightarrow> js_error" where
  "throw_diagnosed message d = (case format_diagnostics d of Inl e \<Rightarrow> e | Inr text \<Rightarrow> sdk_error (message @ text))"

section \<open>Loaders\<close>

definition env_name :: "contract_key \<Rightarrow> string" where
  "env_name k = ''SOROBAN_CONTRACT_'' @ toUpperCase (key_name k)"

definition loadRegistryFromEnv :: "(string \<Rightarrow> string option) \<Rightarrow> js_error + ContractRegistry" where
  "loadRegistryFromEnv env =
    (let network = env ''SOROBAN_NETWORK'' in
     if filled network = [] \<or> the network \<notin> set known_networks then
       Inl (sdk_error (''SOROBAN_NETWORK must be '' @ [CHR 0x22] @ ''testnet'' @ [CHR 0x22] @ '' or '' @ [CHR 0x22] @ ''mainnet'' @ [CHR 0x22] @
         '', got: '' @ (case network of None \<Rightarrow> ''(unset)'' | Some n \<Rightarrow> n)))
     else let contract = (\<lambda>k. case env (env_name k) of None \<Rightarrow> [] | Some v \<Rightarrow> v);
              missing = filter (\<lambda>k. trim (contract k) = []) contract_keys
          in if missing \<noteq> [] then
               Inl (sdk_error (''Missing contract addresses in env: '' @ intersperse '', '' (map key_name missing)))
             else Inr (registry_of (the network) contract))"

text \<open>\<^verbatim>\<open>!contracts[k]?.trim()\<close>: absent or blank; \<^verbatim>\<open>trim\<close> of another value is not a function.\<close>

fun missing_address :: "js \<Rightarrow> js_error + bool" where
  "missing_address (Str s) = Inr (trim s = [])"
| "missing_address Undef = Inr True"
| "missing_address Null = Inr True"
| "missing_address _ = Inl (js_type_error ''contracts[k]?.trim is not a function'')"

primrec missing_keys :: "(contract_key \<Rightarrow> js) \<Rightarrow> contract_key list \<Rightarrow> js_error + contract_key list" where
  "missing_keys c [] = Inr []"
| "missing_keys c (k # ks) = (case missing_address (c k) of
      Inl e \<Rightarrow> Inl e
    | Inr m \<Rightarrow> (case missing_keys c ks of Inl e \<Rightarrow> Inl e | Inr ms \<Rightarrow> Inr (if m then k # ms else ms)))"

fun js_member :: "js \<Rightarrow> string \<Rightarrow> js" where
  "js_member (Obj r) k = get_prop r k"
| "js_member _ k = Undef"

fun as_string :: "js \<Rightarrow> string" where
  "as_string (Str s) = s"
| "as_string _ = []"

definition loadRegistryFromJson :: "host \<Rightarrow> js \<Rightarrow> js_error + ContractRegistry" where
  "loadRegistryFromJson h json =
    (if \<not> truthy json \<or> js_typeof json \<noteq> ''object'' then Inl (sdk_error ''Registry JSON must be a non-null object'')
     else let network = js_member json ''network'' in
       if network \<notin> Str ` set known_networks then
         Inl (sdk_error (''Registry JSON: invalid network '' @ [CHR 0x22] @ js_String h network @ [CHR 0x22]))
       else let contracts = js_member json ''contracts'' in
         if \<not> truthy contracts \<or> js_typeof contracts \<noteq> ''object'' then Inl (sdk_error ''Registry JSON: missing contracts object'')
         else (case missing_keys (\<lambda>k. js_member contracts (key_name k)) contract_keys of
             Inl e \<Rightarrow> Inl e
           | Inr missing \<Rightarrow>
               if missing \<noteq> [] then
                 Inl (sdk_error (''Registry JSON: missing contract addresses: '' @ intersperse '', '' (map key_name missing)))
               else Inr (registry_of (as_string network) (\<lambda>k. as_string (js_member contracts (key_name k))))))"

definition loadRegistryFromProvider :: "js_error + ContractRegistry \<Rightarrow> js_error + ContractRegistry" where
  "loadRegistryFromProvider provided = (case provided of
      Inl e \<Rightarrow> Inl e
    | Inr registry \<Rightarrow>
        if cr_network registry \<notin> set known_networks then
          Inl (sdk_error (''Registry provider returned invalid network: '' @ cr_network registry))
        else Inr registry)"

definition loadContractRegistry ::
    "(string \<Rightarrow> string option) \<Rightarrow> string \<Rightarrow> (js_error + ContractRegistry) option \<Rightarrow> js_error + ContractRegistry" where
  "loadContractRegistry env network loader =
    (case (case loader of
        Some provided \<Rightarrow> loadRegistryFromProvider provided
      | None \<Rightarrow> (case loadRegistryFromEnv env of
            Inl _ \<Rightarrow> Inl (sdk_error (''No contract registry loader provided for '' @ network @ ''. '' @
              ''Set SOROBAN_NETWORK and SOROBAN_CONTRACT_* env vars, or pass a loader function.''))
          | Inr r \<Rightarrow> Inr r)) of
       Inl e \<Rightarrow> Inl e
     | Inr registry \<Rightarrow>
         if cr_network registry \<noteq> network then
           Inl (throw_diagnosed (''Contract registry network mismatch: expected '' @ [CHR 0x22] @ network @ [CHR 0x22] @ '', got '' @
               [CHR 0x22] @ cr_network registry @ [CHR 0x22] @ ''. '')
             (diagnoseRegistryMismatch (Some network) (Some (cr_network registry)) None False))
         else Inr registry)"

section \<open>Use of a registry\<close>

definition resolveContractId :: "ContractRegistry \<Rightarrow> contract_key \<Rightarrow> js_error + string" where
  "resolveContractId registry k =
    (let v = contract_of registry k in
     if trim v = [] then
       Inl (throw_diagnosed (''Missing contract id for '' @ key_name k @ ''. '') (diagnoseRegistryMismatch None None (Some k) True))
     else Inr v)"

definition assertRegistryNetwork :: "ContractRegistry \<Rightarrow> string \<Rightarrow> js_error + unit" where
  "assertRegistryNetwork registry network =
    (if cr_network registry \<noteq> network then
       Inl (throw_diagnosed (''Contract registry mismatch: expected '' @ network @ '', got '' @ cr_network registry @ ''. '')
         (diagnoseRegistryMismatch (Some network) (Some (cr_network registry)) None False))
     else Inr ())"

section \<open>Well-formed registries\<close>

definition registry_typed :: "ContractRegistry \<Rightarrow> bool" where
  "registry_typed r \<longleftrightarrow> cr_network r \<in> set known_networks \<and> (\<forall>k \<in> set contract_keys. trim (contract_of r k) \<noteq> [])"

lemma all_keys: "set contract_keys = UNIV"
  using contract_key.exhaust by (auto simp: contract_keys_def)

lemma contract_registry_of [simp]: "contract_of (registry_of n c) k = c k" "cr_network (registry_of n c) = n"
  by (cases k; simp add: registry_of_def)+

lemma registry_of_contract: "registry_of (cr_network r) (contract_of r) = r"
  by (simp add: registry_of_def)

lemma missing_keys_none: "missing_keys c ks = Inr [] \<longleftrightarrow> (\<forall>k \<in> set ks. \<exists>s. c k = Str s \<and> trim s \<noteq> [])"
proof (induction ks)
  case (Cons k ks)
  have "missing_address (c k) = Inr False \<longleftrightarrow> (\<exists>s. c k = Str s \<and> trim s \<noteq> [])" by (cases "c k") auto
  then show ?case using Cons by (auto split: sum.splits)
qed simp

text \<open>The registry as the value and the environment it is loaded from.\<close>

definition registry_json :: "ContractRegistry \<Rightarrow> js" where
  "registry_json r = Obj [(''network'', Str (cr_network r)),
     (''contracts'', Obj (map (\<lambda>k. (key_name k, Str (contract_of r k))) contract_keys))]"

definition registry_env :: "ContractRegistry \<Rightarrow> string \<Rightarrow> string option" where
  "registry_env r = map_of ((''SOROBAN_NETWORK'', cr_network r) # map (\<lambda>k. (env_name k, contract_of r k)) contract_keys)"

lemma registry_env_simps [simp]:
  "registry_env r ''SOROBAN_NETWORK'' = Some (cr_network r)"
  "registry_env r (env_name k) = Some (contract_of r k)"
proof -
  have u: "toUpperCase ''admin_registry'' = ''ADMIN_REGISTRY''" "toUpperCase ''core_game'' = ''CORE_GAME''"
    "toUpperCase ''rewards'' = ''REWARDS''" "toUpperCase ''achievements'' = ''ACHIEVEMENTS''"
    by code_simp+
  show "registry_env r ''SOROBAN_NETWORK'' = Some (cr_network r)" by (simp add: registry_env_def)
  show "registry_env r (env_name k) = Some (contract_of r k)"
    by (cases k) (simp_all add: registry_env_def contract_keys_def env_name_def u)
qed

lemma loadFromEnv_typed: "loadRegistryFromEnv env = Inr r \<Longrightarrow> registry_typed r"
  by (auto simp: loadRegistryFromEnv_def registry_typed_def Let_def filter_empty_conv split: if_splits)

lemma loadFromJson_typed:
  assumes "loadRegistryFromJson h json = Inr r"
  shows "registry_typed r"
proof -
  let ?c = "\<lambda>k. js_member (js_member json ''contracts'') (key_name k)"
  have n: "js_member json ''network'' \<in> Str ` set known_networks"
    and m: "missing_keys ?c contract_keys = Inr []"
    and r: "r = registry_of (as_string (js_member json ''network'')) (\<lambda>k. as_string (?c k))"
    using assms by (auto simp: loadRegistryFromJson_def Let_def split: if_splits sum.splits)
  have "\<forall>k \<in> set contract_keys. trim (as_string (?c k)) \<noteq> []" using m unfolding missing_keys_none by fastforce
  then show ?thesis using n r by (auto simp: registry_typed_def)
qed

text \<open>
  C17: a registry that is loaded from JSON or from the environment names a known network and has a
  non-blank address for every contract, so that every contract resolves to its address and the
  check of the network passes; and every such registry is returned as it is by loading its JSON form
  or its environment.  A supplied loader is trusted with the addresses: its registry is passed on
  exactly when it names the expected network and that is a known one, and a blank address is found
  only when that contract is resolved.
\<close>

theorem registry_loaders:
  "(loadRegistryFromJson h json = Inr r \<or> loadRegistryFromEnv env = Inr r \<longrightarrow>
      registry_typed r \<and> resolveContractId r k = Inr (contract_of r k) \<and> assertRegistryNetwork r (cr_network r) = Inr ()) \<and>
   (registry_typed q \<longrightarrow> loadRegistryFromJson h (registry_json q) = Inr q \<and> loadRegistryFromEnv (registry_env q) = Inr q \<and>
      loadContractRegistry (registry_env q) (cr_network q) None = Inr q) \<and>
   (loadContractRegistry env network None = Inr r \<longrightarrow> registry_typed r \<and> cr_network r = network) \<and>
   (loadContractRegistry env network (Some provided) = Inr r \<longleftrightarrow>
      provided = Inr r \<and> cr_network r = network \<and> network \<in> {''testnet'', ''mainnet''}) \<and>
   (resolveContractId r k = Inr a \<longleftrightarrow> a = contract_of r k \<and> trim a \<noteq> [])"
proof (intro conjI impI)
  assume "loadRegistryFromJson h json = Inr r \<or> loadRegistryFromEnv env = Inr r"
  then show t: "registry_typed r" using loadFromJson_typed loadFromEnv_typed by blast
  then show "resolveContractId r k = Inr (contract_of r k)"
    by (simp add: resolveContractId_def registry_typed_def all_keys Let_def)
  show "assertRegistryNetwork r (cr_network r) = Inr ()" by (simp add: assertRegistryNetwork_def)
next
  assume t: "registry_typed q"
  then have n: "cr_network q \<in> set known_networks" and a: "\<And>k. trim (contract_of q k) \<noteq> []"
    by (simp_all add: registry_typed_def all_keys)
  have ne: "cr_network q \<noteq> []" using n by (auto simp: known_networks_def)
  have c: "js_member (Obj (map (\<lambda>k. (key_name k, Str (contract_of q k))) contract_keys)) (key_name k) = Str (contract_of q k)" for k
    by (cases k) (simp_all add: contract_keys_def get_prop_def)
  show "loadRegistryFromJson h (registry_json q) = Inr q"
    using n a by (simp add: loadRegistryFromJson_def registry_json_def get_prop_def c [unfolded js_member.simps get_prop_def]
        missing_keys_none [THEN iffD2] registry_of_contract)
  show e: "loadRegistryFromEnv (registry_env q) = Inr q"
    using n a ne by (simp add: loadRegistryFromEnv_def registry_of_contract)
  show "loadContractRegistry (registry_env q) (cr_network q) None = Inr q"
    by (simp add: loadContractRegistry_def e)
next
  assume "loadContractRegistry env network None = Inr r"
  then have "loadRegistryFromEnv env = Inr r \<and> cr_network r = network"
    by (auto simp: loadContractRegistry_def split: sum.splits if_splits)
  then show "registry_typed r" "cr_network r = network" using loadFromEnv_typed by auto
next
  show "loadContractRegistry env network (Some provided) = Inr r \<longleftrightarrow>
      provided = Inr r \<and> cr_network r = network \<and> network \<in> {''testnet'', ''mainnet''}"
    by (cases provided) (auto simp: loadContractRegistry_def loadRegistryFromProvider_def known_networks_def)
next
  show "resolveContractId r k = Inr a \<longleftrightarrow> a = contract_of r k \<and> trim a \<noteq> []"
    by (auto simp: resolveContractId_def Let_def)
qed

definition demo_registry :: ContractRegistry where
  "demo_registry = registry_of ''testnet'' (\<lambda>k. ''C'' @ key_name k)"

lemma demo_registry_typed: "registry_typed demo_registry"
proof -
  have "\<forall>k \<in> {K_admin_registry, K_core_game, K_rewards, K_achievements}. trim (''C'' @ key_name k) \<noteq> []"
    by (simp add: trim_def trim_left_def js_space_def)
  then show ?thesis by (simp add: registry_typed_def demo_registry_def known_networks_def contract_keys_def)
qed

lemma registry_loaders_witness:
  "loadRegistryFromJson plain_host (registry_json demo_registry) = Inr demo_registry \<and>
   resolveContractId demo_registry K_rewards = Inr ''Crewards''"
proof -
  have "loadRegistryFromJson plain_host (registry_json demo_registry) = Inr demo_registry"
    using registry_loaders [where q = demo_registry and h = plain_host] demo_registry_typed by blast
  moreover from this have "resolveContractId demo_registry K_rewards = Inr (contract_of demo_registry K_rewards)"
    using registry_loaders [where r = demo_registry and h = plain_host and json = "registry_json demo_registry"] by blast
  ultimately show ?thesis by (simp add: demo_registry_def registry_of_def)
qed

text \<open>
  With an expected network that is a known one, the third diagnosis is never made: a registry of an
  unknown network differs from the expected one and is diagnosed as a mismatch.
\<close>

lemma invalid_network_unreachable:
  "expected \<in> set known_networks \<Longrightarrow> diagnoseRegistryMismatch (Some expected) actual k m = Some d \<Longrightarrow>
     rd_cause d \<noteq> invalid_registry_network"
  by (cases actual) (auto simp: diagnoseRegistryMismatch_def split: if_splits)

end
