(* ===== verification/Sdk_Tx.thy ===== *)
theory Sdk_Tx
  imports Sdk_Network
begin

text \<open>
  Building, simulating, submitting and following a transaction (\<^verbatim>\<open>soroban/sdk/ts/tx-builder.ts\<close>), and
  the decoding of contract errors there and in \<^verbatim>\<open>errors.ts\<close>.  The ledger's library and the RPC
  server are parameters: a record of the calls the source makes, each an action on the state of
  the outside world.
\<close>

section \<open>The ledger's library and the server\<close>

text \<open>Values as the library reads them from the ledger; members of a record may be byte arrays.\<close>

datatype chain_value = Plain js | Bytes "nat list"

datatype chain_data = Scalar js | Blob "nat list" | Record "(string \<times> chain_value) list"

text \<open>Arguments of a contract call, before their conversion by the library.\<close>

datatype call_arg = ArgAddress string | ArgU32 jsnum | ArgBytes string | ArgBool bool | ArgSymbol string

datatype ('s, 'v) simulation = SimError string | SimOk 's "'v option"

record sent_tx =
  sn_status :: string
  sn_hash :: string
  sn_errorResult :: "string option"

record tx_response =
  tr_status :: string
  tr_resultXdr :: string

record ('w, 'a, 't, 's, 'v) ledger =
  ld_getAccount :: "string \<Rightarrow> ('w, js_error, 'a) act"
  ld_account :: "string \<Rightarrow> 'a"
  ld_arg :: "call_arg \<Rightarrow> js_error + 'v"
  ld_build :: "'a \<Rightarrow> string \<Rightarrow> string \<Rightarrow> string \<Rightarrow> string \<Rightarrow> 'v list \<Rightarrow> js_error + 't"
  ld_simulate :: "'t \<Rightarrow> ('w, js_error, ('s, 'v) simulation) act"
  ld_assemble :: "'t \<Rightarrow> 's \<Rightarrow> js_error + 't"
  ld_native :: "'v \<Rightarrow> js_error + chain_data"
  ld_fromXDR :: "string \<Rightarrow> js_error + 't"
  ld_send :: "'t \<Rightarrow> ('w, js_error, sent_tx) act"
  ld_getTransaction :: "string \<Rightarrow> ('w, js_error, tx_response) act"

definition act_result :: "'e + 'a \<Rightarrow> ('s, 'e, 'a) act" where
  [act_defs]: "act_result r s = (r, s)"

section \<open>Building and simulating\<close>

definition buildContractTx ::
    "('w, 'a, 't, 's, 'v) ledger \<Rightarrow> 'a \<Rightarrow> SorobanNetworkConfig \<Rightarrow> string \<Rightarrow> string \<Rightarrow> 'v list \<Rightarrow> string option \<Rightarrow> js_error + 't" where
  "buildContractTx D source network contractId method args fee =
    ld_build D source (case fee of None \<Rightarrow> ''100'' | Some f \<Rightarrow> f) (nc_passphrase network) contractId method args"

definition simulateAndAssemble ::
    "('w, 'a, 't, 's, 'v) ledger \<Rightarrow> 't \<Rightarrow> ('w, js_error, 'v option \<times> 't) act" where
  "simulateAndAssemble D tx = act_bind (ld_simulate D tx) (\<lambda>simulated. case simulated of
      SimError e \<Rightarrow> act_throw (sdk_error (''Simulation failed: '' @ e))
    | SimOk s retval \<Rightarrow> act_bind (act_result (ld_assemble D tx s)) (\<lambda>assembled. act_ret (retval, assembled)))"

definition submitTransaction :: "('w, 'a, 't, 's, 'v) ledger \<Rightarrow> 't \<Rightarrow> ('w, js_error, sent_tx) act" where
  "submitTransaction D tx = act_bind (ld_send D tx) (\<lambda>sent.
     if sn_status sent = ''ERROR'' then
       act_throw (sdk_error (case filled (sn_errorResult sent) of [] \<Rightarrow> ''Transaction submit failed'' | e # _ \<Rightarrow> e))
     else act_ret sent)"

section \<open>Following a transaction\<close>

datatype TxPollStatus = TxPending | TxSuccess | TxFailed | TxNotFound

record TxPollResult =
  tp_status :: TxPollStatus
  tp_txHash :: string
  tp_resultXdr :: "string option"
  tp_errorResultXdr :: "string option"

definition poll_result :: "TxPollStatus \<Rightarrow> string \<Rightarrow> TxPollResult" where
  "poll_result status txHash = \<lparr>tp_status = status, tp_txHash = txHash, tp_resultXdr = None, tp_errorResultXdr = None\<rparr>"

text \<open>What one response settles; \<^verbatim>\<open>None\<close> for one that is waited out.\<close>

definition settled :: "string \<Rightarrow> tx_response \<Rightarrow> TxPollResult option" where
  "settled txHash response =
    (if tr_status response = ''SUCCESS'' then Some ((poll_result TxSuccess txHash)\<lparr>tp_resultXdr := Some (tr_resultXdr response)\<rparr>)
     else if tr_status response = ''FAILED'' then
       Some ((poll_result TxFailed txHash)\<lparr>tp_errorResultXdr := Some (tr_resultXdr response)\<rparr>)
     else if tr_status response = ''NOT_FOUND'' then Some (poll_result TxNotFound txHash)
     else None)"

text \<open>The loop, with the number of attempts left; the waits between them are not visible.\<close>

primrec poll_loop :: "('w, 'a, 't, 's, 'v) ledger \<Rightarrow> string \<Rightarrow> nat \<Rightarrow> ('w, js_error, TxPollResult) act" where
  "poll_loop D txHash 0 = act_ret (poll_result TxPending txHash)"
| "poll_loop D txHash (Suc n) = act_bind (ld_getTransaction D txHash) (\<lambda>response.
     case settled txHash response of Some r \<Rightarrow> act_ret r | None \<Rightarrow> poll_loop D txHash n)"

definition pollTransaction :: "('w, 'a, 't, 's, 'v) ledger \<Rightarrow> string \<Rightarrow> int option \<Rightarrow> ('w, js_error, TxPollResult) act" where
  "pollTransaction D txHash maxAttempts = poll_loop D txHash (nat (case maxAttempts of None \<Rightarrow> 20 | Some n \<Rightarrow> n))"

definition submitSignedTx :: "('w, 'a, 't, 's, 'v) ledger \<Rightarrow> string \<Rightarrow> int option \<Rightarrow> ('w, js_error, TxPollResult) act" where
  "submitSignedTx D signedXdr maxAttempts =
    act_bind (act_result (ld_fromXDR D signedXdr)) (\<lambda>tx.
      act_bind (submitTransaction D tx) (\<lambda>sent.
        if sn_status sent = ''ERROR'' then
          act_ret ((poll_result TxFailed (sn_hash sent))\<lparr>tp_errorResultXdr := sn_errorResult sent\<rparr>)
        else pollTransaction D (sn_hash sent) maxAttempts))"

section \<open>Errors of a contract\<close>

text \<open>The dash of the messages is not an ASCII character: it is an argument.\<close>

definition CONTRACT_ERROR_CODES :: "string \<Rightarrow> (nat \<times> string) list" where
  "CONTRACT_ERROR_CODES dash = [
     (1, ''AlreadyInitialized '' @ dash @ '' contract has already been initialized''),
     (2, ''InvalidMaxAttempts '' @ dash @ '' max attempts value is out of valid range''),
     (3, ''DayNotFound '' @ dash @ '' no word set for the current day''),
     (4, ''DayNotActive '' @ dash @ '' the day window has not started yet''),
     (5, ''DayClosed '' @ dash @ '' the day window has already closed''),
     (6, ''NonceAlreadyUsed '' @ dash @ '' this nonce has already been consumed''),
     (7, ''SessionNotFound '' @ dash @ '' no game session found for the given id''),
     (8, ''UnauthorizedSessionOwner '' @ dash @ '' caller is not the session owner''),
     (9, ''SessionAlreadyFinalized '' @ dash @ '' session has already been finalized''),
     (10, ''AttemptLimitReached '' @ dash @ '' maximum guess attempts have been exhausted''),
     (11, ''SessionStillInProgress '' @ dash @ '' session has not been finalized yet''),
     (13, ''InvalidCommitment '' @ dash @ '' the submitted commitment is invalid''),
     (14, ''ContractPaused '' @ dash @ '' contract operations are currently paused'')]"

text \<open>The pattern \<^verbatim>\<open>/Error\(Contract,\s*#(\d+)\)/\<close>: a match at the front of a string, and the first
  match in it.\<close>

definition error_pattern :: string where "error_pattern = ''Error(Contract,''"

definition match_code_here :: "string \<Rightarrow> nat option" where
  "match_code_here s =
    (if take (length error_pattern) s \<noteq> error_pattern then None
     else case dropWhile js_space (drop (length error_pattern) s) of
        [] \<Rightarrow> None
      | c # t \<Rightarrow>
          (let ds = takeWhile is_digit t; rest = dropWhile is_digit t in
           if c = CHR ''#'' \<and> ds \<noteq> [] \<and> rest \<noteq> [] \<and> hd rest = CHR '')'' then Some (read_nat ds) else None))"

fun match_code :: "string \<Rightarrow> nat option" where
  "match_code [] = None"
| "match_code (c # s) = (case match_code_here (c # s) of Some n \<Rightarrow> Some n | None \<Rightarrow> match_code s)"

text \<open>What was thrown: an \<^verbatim>\<open>Error\<close>, or any value.\<close>

datatype thrown = ThrownError js_error | ThrownValue js

definition describe_code :: "string \<Rightarrow> string \<Rightarrow> string" where
  "describe_code dash raw = (case match_code raw of
      None \<Rightarrow> raw
    | Some code \<Rightarrow> (case map_of (CONTRACT_ERROR_CODES dash) code of
          Some description \<Rightarrow> raw @ '' '' @ dash @ '' '' @ description
        | None \<Rightarrow> raw @ '' '' @ dash @ '' Unknown contract error code '' @ show_nat code))"

definition normalizeTxError :: "host \<Rightarrow> string \<Rightarrow> thrown \<Rightarrow> string" where
  "normalizeTxError h dash error = (case error of
      ThrownError e \<Rightarrow> describe_code dash (err_message e)
    | ThrownValue (Str s) \<Rightarrow> describe_code dash s
    | ThrownValue (Obj r) \<Rightarrow>
        if ''message'' \<in> fst ` set r then describe_code dash (js_String h (get_prop r ''message''))
        else ''Unknown transaction error''
    | _ \<Rightarrow> ''Unknown transaction error'')"

definition ERROR_MESSAGES :: "(string \<times> (nat \<times> string) list) list" where
  "ERROR_MESSAGES = [
     (''core_game'', [(1, ''Game session not found.''), (2, ''This game has already finished.''),
        (3, ''Invalid guess. Please try another word.''), (4, ''You have no guesses left.'')]),
     (''rewards'', [(1, ''No rewards available to claim.''), (2, ''You are not authorized to do that.'')]),
     (''achievements'', [(1, ''Achievement not found.''), (2, ''Achievement already unlocked.'')])]"

definition decodeError :: "string \<Rightarrow> nat \<Rightarrow> string" where
  "decodeError contract code =
    (case Option.bind (map_of ERROR_MESSAGES contract) (\<lambda>m. map_of m code) of
       Some text \<Rightarrow> text
     | None \<Rightarrow> ''Unknown error (code '' @ show_nat code @ '').'')"

section \<open>Following a transaction: what the answers mean\<close>

text \<open>The responses of a server that answers the \<^verbatim>\<open>k\<close>-th query with \<^verbatim>\<open>f k\<close>; it counts the queries.\<close>

definition answers :: "('w, 'a, 't, 's, 'v) ledger \<Rightarrow> ('w \<Rightarrow> nat) \<Rightarrow> (nat \<Rightarrow> tx_response) \<Rightarrow> bool" where
  "answers D calls f \<longleftrightarrow>
     (\<forall>txHash w. \<exists>w'. ld_getTransaction D txHash w = (Inr (f (calls w)), w') \<and> calls w' = Suc (calls w))"

lemma poll_loop_pending:
  assumes a: "answers D calls f"
  shows "\<forall>k < n. settled txHash (f (calls w + k)) = None \<Longrightarrow>
    \<exists>w'. poll_loop D txHash n w = (Inr (poll_result TxPending txHash), w') \<and> calls w' = calls w + n"
proof (induction n arbitrary: w)
  case 0
  then show ?case by (simp add: act_ret_def)
next
  case (Suc n)
  obtain w1 where g: "ld_getTransaction D txHash w = (Inr (f (calls w)), w1)" and c: "calls w1 = Suc (calls w)"
    using a unfolding answers_def by blast
  have "settled txHash (f (calls w)) = None" using Suc.prems by force
  moreover have "\<forall>k < n. settled txHash (f (calls w1 + k)) = None" using Suc.prems c by force
  ultimately show ?case using Suc.IH [of w1] g c by simp
qed

lemma poll_loop_settles:
  assumes a: "answers D calls f"
  shows "\<forall>j < k. settled txHash (f (calls w + j)) = None \<Longrightarrow> settled txHash (f (calls w + k)) = Some r \<Longrightarrow> k < n \<Longrightarrow>
    \<exists>w'. poll_loop D txHash n w = (Inr r, w') \<and> calls w' = calls w + Suc k"
proof (induction n arbitrary: w k)
  case (Suc n)
  obtain w1 where g: "ld_getTransaction D txHash w = (Inr (f (calls w)), w1)" and c: "calls w1 = Suc (calls w)"
    using a unfolding answers_def by blast
  show ?case
  proof (cases k)
    case 0
    then show ?thesis using Suc.prems(2) g c by (simp add: act_ret_def)
  next
    case (Suc l)
    have "settled txHash (f (calls w)) = None" using Suc.prems(1) Suc by force
    moreover have "\<forall>j < l. settled txHash (f (calls w1 + j)) = None" "settled txHash (f (calls w1 + l)) = Some r" "l < n"
      using Suc.prems Suc c by force+
    ultimately show ?thesis using Suc.IH [of l w1] g c Suc by simp
  qed
qed simp

text \<open>
  Following a transaction on a server that answers: the result is that of the first answer that
  settles it, which \<^verbatim>\<open>NOT_FOUND\<close> does too, and no query is sent after it; when none of the first
  answers up to the limit does, the result is pending after exactly that many queries.
\<close>

theorem pollTransaction_outcome:
  assumes "answers D calls f" "n = nat (case maxAttempts of None \<Rightarrow> 20 | Some i \<Rightarrow> i)"
  shows "\<exists>r w'. pollTransaction D txHash maxAttempts w = (Inr r, w') \<and> tp_txHash r = txHash \<and>
    (if \<exists>k < n. settled txHash (f (calls w + k)) \<noteq> None
     then let k = LEAST k. settled txHash (f (calls w + k)) \<noteq> None in
       settled txHash (f (calls w + k)) = Some r \<and> calls w' = calls w + Suc k \<and> Suc k \<le> n
     else r = poll_result TxPending txHash \<and> calls w' = calls w + n)"
proof -
  let ?P = "\<lambda>k. settled txHash (f (calls w + k)) \<noteq> None"
  have hash: "settled txHash a = Some r \<Longrightarrow> tp_txHash r = txHash" for a r
    by (auto simp: settled_def poll_result_def split: if_splits)
  have run: "pollTransaction D txHash maxAttempts = poll_loop D txHash n" by (simp add: pollTransaction_def assms(2))
  show ?thesis
  proof (cases "\<exists>k < n. ?P k")
    case True
    then obtain j where j: "j < n" "?P j" by blast
    define k where "k = (LEAST k. ?P k)"
    have k: "?P k" "k \<le> j" unfolding k_def by (rule LeastI [of ?P, OF j(2)], rule Least_le [of ?P, OF j(2)])
    obtain r where r: "settled txHash (f (calls w + k)) = Some r" using k(1) by auto
    have "\<forall>i < k. settled txHash (f (calls w + i)) = None" using not_less_Least [of _ ?P] unfolding k_def by blast
    then obtain w' where "poll_loop D txHash n w = (Inr r, w')" "calls w' = calls w + Suc k"
      using poll_loop_settles [OF assms(1) _ r] j(1) k(2) by (meson le_less_trans)
    then show ?thesis using r hash j(1) k(2) unfolding if_P [OF True] Let_def run k_def [symmetric]
      by (intro exI [of _ r] exI [of _ w']) auto
  next
    case False
    then have "\<forall>k < n. settled txHash (f (calls w + k)) = None" by auto
    from poll_loop_pending [OF assms(1) this] show ?thesis unfolding if_not_P [OF False] run by (auto simp: poll_result_def)
  qed
qed

text \<open>A server that reports the transaction missing twice and then done.\<close>

definition late_server :: "(nat, unit, unit, unit, unit) ledger" where
  "late_server = \<lparr>ld_getAccount = (\<lambda>_. act_ret ()), ld_account = (\<lambda>_. ()), ld_arg = (\<lambda>_. Inr ()),
     ld_build = (\<lambda>_ _ _ _ _ _. Inr ()), ld_simulate = (\<lambda>_. act_ret (SimOk () None)), ld_assemble = (\<lambda>_ _. Inr ()),
     ld_native = (\<lambda>_. Inr (Scalar Null)), ld_fromXDR = (\<lambda>_. Inr ()),
     ld_send = (\<lambda>_. act_ret \<lparr>sn_status = ''PENDING'', sn_hash = ''h'', sn_errorResult = None\<rparr>),
     ld_getTransaction = (\<lambda>_ n. (Inr \<lparr>tr_status = if n < 2 then ''NOT_FOUND'' else ''SUCCESS'', tr_resultXdr = ''x''\<rparr>, Suc n))\<rparr>"

lemma late_answers: "answers late_server id (\<lambda>k. \<lparr>tr_status = if k < 2 then ''NOT_FOUND'' else ''SUCCESS'', tr_resultXdr = ''x''\<rparr>)"
  by (simp add: answers_def late_server_def)

lemma pollTransaction_outcome_witness:
  "\<exists>r. pollTransaction late_server ''h'' None 0 = (Inr r, 1) \<and> tp_status r = TxNotFound"
proof -
  let ?f = "\<lambda>k::nat. \<lparr>tr_status = if k < 2 then ''NOT_FOUND'' else ''SUCCESS'', tr_resultXdr = ''x''\<rparr>"
  have s: "settled ''h'' (?f 0) = Some (poll_result TxNotFound ''h'')" by (simp add: settled_def)
  have l: "(LEAST k. settled ''h'' (?f (id 0 + k)) \<noteq> None) = 0" by (rule Least_equality) (simp_all add: settled_def)
  have ex: "\<exists>k < 20::nat. settled ''h'' (?f (id 0 + k)) \<noteq> None" using s by (intro exI [of _ 0]) simp
  show ?thesis
    using pollTransaction_outcome [OF late_answers, where maxAttempts = None and n = 20 and w = 0 and txHash = "''h''"]
    unfolding if_P [OF ex] Let_def l using s by (auto simp: poll_result_def)
qed

text \<open>The printed form of a contract error is recognised, wherever the text before it ends.\<close>

lemma match_code_printed: "match_code_here (error_pattern @ '' #'' @ show_nat n @ '')'' @ rest) = Some n"
proof -
  have d: "list_all is_digit (show_nat n)" "show_nat n \<noteq> []" by (simp_all add: show_nat_digits show_nat_nonempty)
  have p: "\<not> is_digit (CHR '')'')" by (simp add: is_digit_def char_between)
  have "takeWhile is_digit (show_nat n @ '')'' @ rest) = show_nat n" "dropWhile is_digit (show_nat n @ '')'' @ rest) = '')'' @ rest"
    using d(1) p by (simp_all add: takeWhile_append2 dropWhile_append2 list_all_iff)
  moreover have "\<not> js_space (CHR ''#'')" "js_space (CHR '' '')" by (simp_all add: js_space_def)
  ultimately show ?thesis using d p by (simp add: match_code_here_def error_pattern_def read_show_nat Let_def)
qed

end
