(* ===== verification/Sdk_Compat.thy ===== *)
theory Sdk_Compat
  imports Sdk_Tx
begin

text \<open>
  The compatibility check of the client library (\<^verbatim>\<open>soroban/sdk/ts/contract-compat.ts\<close>): the order of
  version numbers, the metadata of a contract, and the guard that checks a contract once and
  remembers a check that passed.
\<close>

section \<open>Version numbers\<close>

definition SDK_VERSION :: string where "SDK_VERSION = ''0.1.0''"

text \<open>\<^verbatim>\<open>Number.parseInt(p, 10) || 0\<close>.\<close>

definition part_number :: "string \<Rightarrow> int" where
  "part_number p = num_floor (js_parseInt p)"

definition version_parts :: "string \<Rightarrow> int list" where
  "version_parts v =
    (let t = trim v; u = (if t \<noteq> [] \<and> hd t = CHR ''v'' then tl t else t)
     in map part_number (split_on (CHR ''.'') (hd (split_on (CHR ''-'') u))))"

text \<open>\<^verbatim>\<open>pa[i] ?? 0\<close>.\<close>

definition part_at :: "int list \<Rightarrow> nat \<Rightarrow> int" where
  "part_at xs i = (if i < length xs then xs ! i else 0)"

text \<open>The loop from index \<^verbatim>\<open>i\<close> on, with \<^verbatim>\<open>n\<close> indices left.\<close>

fun semver_loop :: "int list \<Rightarrow> int list \<Rightarrow> nat \<Rightarrow> nat \<Rightarrow> int" where
  "semver_loop pa pb i 0 = 0"
| "semver_loop pa pb i (Suc n) =
    (let diff = part_at pa i - part_at pb i in if diff \<noteq> 0 then diff else semver_loop pa pb (Suc i) n)"

definition compareSemver :: "string \<Rightarrow> string \<Rightarrow> int" where
  "compareSemver a b =
    (let pa = version_parts a; pb = version_parts b
     in semver_loop pa pb 0 (max (max (length pa) (length pb)) 3))"

section \<open>Metadata\<close>

record ContractMetadata =
  cm_version :: jsnum
  cm_abiHash :: string
  cm_minSdkVersion :: string

definition hex_byte :: "nat \<Rightarrow> string" where
  "hex_byte b = [hex_digit (b div 16), hex_digit (b mod 16)]"

text \<open>The members of an object; an array or a byte array has none of the names the source reads.\<close>

fun chain_fields :: "chain_data \<Rightarrow> (string \<times> chain_value) list option" where
  "chain_fields (Record r) = Some r"
| "chain_fields (Blob _) = Some []"
| "chain_fields (Scalar (Obj r)) = Some (map (\<lambda>(k, v). (k, Plain v)) r)"
| "chain_fields (Scalar (Arr _)) = Some []"
| "chain_fields (Scalar _) = None"

definition chain_member :: "(string \<times> chain_value) list \<Rightarrow> string \<Rightarrow> chain_value" where
  "chain_member r k = (case map_of r k of None \<Rightarrow> Plain Undef | Some v \<Rightarrow> v)"

definition chain_coalesce :: "chain_value \<Rightarrow> chain_value \<Rightarrow> chain_value" where
  "chain_coalesce x d = (if x = Plain Undef \<or> x = Plain Null then d else x)"

text \<open>\<^verbatim>\<open>a.snake_name ?? a.camelName\<close>\<close>

definition either_name :: "(string \<times> chain_value) list \<Rightarrow> string \<Rightarrow> string \<Rightarrow> chain_value" where
  "either_name r a b = chain_coalesce (chain_member r a) (chain_member r b)"

text \<open>Conversions; how a byte array prints depends on the host and is an argument.\<close>

fun chain_String :: "host \<Rightarrow> (nat list \<Rightarrow> string) \<Rightarrow> chain_value \<Rightarrow> string" where
  "chain_String h show_bytes (Plain x) = js_String h x"
| "chain_String h show_bytes (Bytes bs) = show_bytes bs"

fun chain_Number :: "host \<Rightarrow> (nat list \<Rightarrow> string) \<Rightarrow> chain_value \<Rightarrow> jsnum" where
  "chain_Number h show_bytes (Plain x) = js_Number h x"
| "chain_Number h show_bytes (Bytes bs) = string_to_num (show_bytes bs)"

fun chain_Boolean :: "chain_value \<Rightarrow> bool" where
  "chain_Boolean (Plain x) = truthy x"
| "chain_Boolean (Bytes _) = True"

definition parseContractMetadata :: "host \<Rightarrow> (nat list \<Rightarrow> string) \<Rightarrow> chain_data \<Rightarrow> ContractMetadata option" where
  "parseContractMetadata h show_bytes raw = (case chain_fields raw of
      None \<Rightarrow> None
    | Some obj \<Rightarrow>
        (let version = chain_Number h show_bytes (chain_member obj ''version'');
             sdk = either_name obj ''min_sdk_version'' ''minSdkVersion'';
             hash = either_name obj ''abi_hash'' ''abiHash''
         in case sdk of
              Plain (Str s) \<Rightarrow>
                if \<not> num_isFinite version then None
                else Some \<lparr>cm_version = version,
                  cm_abiHash = (case hash of Plain (Str t) \<Rightarrow> t | Bytes bs \<Rightarrow> concat (map hex_byte bs) | _ \<Rightarrow> []),
                  cm_minSdkVersion = s\<rparr>
            | _ \<Rightarrow> None))"

definition IncompatibleContractError :: "host \<Rightarrow> string \<Rightarrow> string \<Rightarrow> string \<Rightarrow> jsnum \<Rightarrow> js_error" where
  "IncompatibleContractError h contractName sdkVersion minSdkVersion contractVersion =
    JsError ''IncompatibleContractError''
      (''The '' @ contractName @ '' contract (v'' @ num_to_string h contractVersion @ '') requires SDK '' @ minSdkVersion @
       '' or newer, but this app uses '' @ sdkVersion @ ''. Please refresh or update the app to continue.'')
      [(''contractName'', Str contractName), (''sdkVersion'', Str sdkVersion), (''minSdkVersion'', Str minSdkVersion),
       (''contractVersion'', Num contractVersion)]"

definition assertCompatible :: "host \<Rightarrow> string \<Rightarrow> ContractMetadata \<Rightarrow> string \<Rightarrow> js_error + unit" where
  "assertCompatible h contractName metadata sdkVersion =
    (if compareSemver sdkVersion (cm_minSdkVersion metadata) < 0
     then Inl (IncompatibleContractError h contractName sdkVersion (cm_minSdkVersion metadata) (cm_version metadata))
     else Inr ())"

section \<open>The order of versions\<close>

lemma semver_loop_zero: "semver_loop pa pb i n = 0 \<longleftrightarrow> (\<forall>j \<in> {i..<i + n}. part_at pa j = part_at pb j)"
proof (induction n arbitrary: i)
  case (Suc n)
  have "{i..<i + Suc n} = insert i {Suc i..<Suc i + n}" by auto
  then show ?case using Suc.IH [of "Suc i"] by (simp add: Let_def del: semver_loop.simps add: semver_loop.simps(2))
qed simp

lemma semver_loop_sign:
  assumes "semver_loop pa pb i n \<noteq> 0"
  shows "\<exists>k \<ge> i. (\<forall>j \<in> {i..<k}. part_at pa j = part_at pb j) \<and> semver_loop pa pb i n = part_at pa k - part_at pb k"
  using assms
proof (induction n arbitrary: i)
  case (Suc n)
  show ?case
  proof (cases "part_at pa i = part_at pb i")
    case False
    then show ?thesis by (intro exI [of _ i]) (simp add: Let_def)
  next
    case True
    then obtain k where k: "k \<ge> Suc i" "\<forall>j \<in> {Suc i..<k}. part_at pa j = part_at pb j"
      "semver_loop pa pb (Suc i) n = part_at pa k - part_at pb k" using Suc.IH [of "Suc i"] Suc.prems by auto
    have "\<forall>j \<in> {i..<k}. part_at pa j = part_at pb j"
    proof
      fix j assume "j \<in> {i..<k}"
      then show "part_at pa j = part_at pb j" using k(2) True by (cases "j = i") auto
    qed
    then show ?thesis using k True by (intro exI [of _ k]) (simp add: Let_def)
  qed
qed simp

definition version_at :: "string \<Rightarrow> nat \<Rightarrow> int" where
  "version_at v = part_at (version_parts v)"

text \<open>The order of the infinite sequences of parts, missing ones being zero: the first difference decides.\<close>

definition version_less :: "string \<Rightarrow> string \<Rightarrow> bool" where
  "version_less a b \<longleftrightarrow> (\<exists>k. (\<forall>j < k. version_at a j = version_at b j) \<and> version_at a k < version_at b k)"

lemma version_less_trans: "version_less a b \<Longrightarrow> version_less b c \<Longrightarrow> version_less a c"
proof -
  assume "version_less a b" "version_less b c"
  then obtain k l where k: "\<forall>j < k. version_at a j = version_at b j" "version_at a k < version_at b k"
    and l: "\<forall>j < l. version_at b j = version_at c j" "version_at b l < version_at c l" by (auto simp: version_less_def)
  show "version_less a c"
    unfolding version_less_def
  proof (intro exI conjI allI impI)
    show "version_at a j = version_at c j" if "j < min k l" for j using that k(1) l(1) by simp
    show "version_at a (min k l) < version_at c (min k l)"
      using k l by (cases k l rule: linorder_cases) (auto simp: min_def)
  qed
qed

lemma version_less_connex: "version_less a b \<or> version_less b a \<or> version_at a = version_at b"
proof (cases "version_at a = version_at b")
  case False
  then have "\<exists>k. version_at a k \<noteq> version_at b k" by auto
  then obtain k where "version_at a k \<noteq> version_at b k" "\<forall>j < k. version_at a j = version_at b j"
    using exists_least_iff [of "\<lambda>k. version_at a k \<noteq> version_at b k"] by auto
  then show ?thesis by (auto simp: version_less_def dest: not_less_iff_gr_or_eq [THEN iffD1] intro!: exI [of _ k])
qed simp

lemma version_less_asym: "version_less a b \<Longrightarrow> \<not> version_less b a"
proof
  assume "version_less a b" "version_less b a"
  then have "version_less a a" by (rule version_less_trans)
  then show False by (auto simp: version_less_def)
qed

lemma compareSemver_zero: "compareSemver a b = 0 \<longleftrightarrow> version_at a = version_at b"
proof -
  let ?n = "max (max (length (version_parts a)) (length (version_parts b))) 3"
  have "version_at a j = version_at b j" if "j \<ge> ?n" for j using that by (simp add: version_at_def part_at_def)
  then have "(\<forall>j \<in> {0..<0 + ?n}. version_at a j = version_at b j) \<longleftrightarrow> version_at a = version_at b"
    by (auto simp: fun_eq_iff not_less [symmetric])
  then show ?thesis by (simp add: compareSemver_def Let_def semver_loop_zero version_at_def)
qed

lemma compareSemver_neg: "compareSemver a b < 0 \<Longrightarrow> version_less a b"
proof -
  let ?c = "compareSemver a b"
  assume n: "?c < 0"
  then obtain k where "\<forall>j \<in> {0..<k}. version_at a j = version_at b j" "?c = version_at a k - version_at b k"
    using semver_loop_sign [of "version_parts a" "version_parts b" 0]
    by (metis compareSemver_def version_at_def less_irrefl)
  then show "version_less a b" using n unfolding version_less_def by (intro exI [of _ k]) auto
qed

lemma compareSemver_pos: "compareSemver a b > 0 \<Longrightarrow> version_less b a"
proof -
  let ?c = "compareSemver a b"
  assume n: "?c > 0"
  then obtain k where "\<forall>j \<in> {0..<k}. version_at a j = version_at b j" "?c = version_at a k - version_at b k"
    using semver_loop_sign [of "version_parts a" "version_parts b" 0]
    by (metis compareSemver_def version_at_def less_irrefl)
  then show "version_less b a" using n unfolding version_less_def by (intro exI [of _ k]) auto
qed

lemma compareSemver_iff:
  "compareSemver a b < 0 \<longleftrightarrow> version_less a b" "compareSemver a b > 0 \<longleftrightarrow> version_less b a"
proof -
  have e: "version_at a = version_at b \<Longrightarrow> \<not> version_less a b \<and> \<not> version_less b a" by (simp add: version_less_def)
  show "compareSemver a b < 0 \<longleftrightarrow> version_less a b"
    using compareSemver_neg compareSemver_pos compareSemver_zero e version_less_asym by (metis linorder_neqE_linordered_idom)
  show "compareSemver a b > 0 \<longleftrightarrow> version_less b a"
    using compareSemver_neg compareSemver_pos compareSemver_zero e version_less_asym by (metis linorder_neqE_linordered_idom)
qed

text \<open>The comparison of versions is a comparator on all strings.\<close>

interpretation semver: comparator "\<lambda>a b. compareSemver a b > 0" "\<lambda>_. True"
proof
  show "compareSemver x y > 0 \<Longrightarrow> \<not> compareSemver y x > 0" for x y
    unfolding compareSemver_iff by (rule version_less_asym)
  show "\<not> compareSemver x y > 0 \<Longrightarrow> \<not> compareSemver y z > 0 \<Longrightarrow> \<not> compareSemver x z > 0" for x y z
    unfolding compareSemver_iff using version_less_trans version_less_connex
    by (metis version_less_def)
qed

section \<open>The guard\<close>

text \<open>
  What a client is made with.  \<^verbatim>\<open>gp_throwaway\<close> is the random key the metadata is read with.
\<close>

record compat_params =
  gp_contractName :: string
  gp_contractId :: string
  gp_network :: SorobanNetworkConfig
  gp_skip :: bool
  gp_sdkVersion :: "string option"
  gp_throwaway :: string

definition fetchContractMetadata ::
    "host \<Rightarrow> (nat list \<Rightarrow> string) \<Rightarrow> ('w, 'a, 't, 's, 'v) ledger \<Rightarrow> compat_params \<Rightarrow> ('w, js_error, ContractMetadata option) act" where
  "fetchContractMetadata h show_bytes D P =
    act_bind (act_result (buildContractTx D (ld_account D (gp_throwaway P)) (gp_network P) (gp_contractId P) ''get_metadata'' [] None))
      (\<lambda>tx. act_catch
         (act_bind (simulateAndAssemble D tx) (\<lambda>(retval, _). case retval of
             None \<Rightarrow> act_ret None
           | Some v \<Rightarrow> act_bind (act_result (ld_native D v)) (\<lambda>x. act_ret (parseContractMetadata h show_bytes x))))
         (\<lambda>error. if take (length ''Simulation failed'') (err_message error) = ''Simulation failed'' then act_ret None
            else act_throw error))"

text \<open>The client's state: whether a check has passed, and the outside world.\<close>

record 'w guarded =
  gd_passed :: bool
  gd_world :: 'w

definition outside :: "('w, 'e, 'a) act \<Rightarrow> ('w guarded, 'e, 'a) act" where
  "outside = zoom gd_world (\<lambda>w s. s\<lparr>gd_world := w\<rparr>)"

definition check_metadata :: "host \<Rightarrow> compat_params \<Rightarrow> ContractMetadata option \<Rightarrow> js_error + unit" where
  "check_metadata h P m = (case m of
      None \<Rightarrow> Inr ()
    | Some metadata \<Rightarrow> assertCompatible h (gp_contractName P) metadata
        (case gp_sdkVersion P of None \<Rightarrow> SDK_VERSION | Some v \<Rightarrow> v))"

definition ensure :: "host \<Rightarrow> ('w, js_error, ContractMetadata option) act \<Rightarrow> compat_params \<Rightarrow> ('w guarded, js_error, unit) act" where
  "ensure h fetcher P s =
    (if gp_skip P \<or> gd_passed s then (Inr (), s)
     else act_bind (outside fetcher) (\<lambda>m. act_seq (act_result (check_metadata h P m))
       (act_modify (\<lambda>s. s\<lparr>gd_passed := True\<rparr>))) s)"

text \<open>
  C16: the guard of a client that has not passed yet: it passes exactly when the metadata could be read
  and either there was none or the contract's minimal version does not exceed the library's in the
  order of version numbers; a check that fails, or cannot be made, is not remembered, and one that
  passed makes every later check return at once, with no call to the server.
\<close>

theorem ensure_outcome:
  assumes "\<not> gp_skip P" "\<not> gd_passed s" "fetcher (gd_world s) = (m, w)"
    and "v = (case gp_sdkVersion P of None \<Rightarrow> SDK_VERSION | Some x \<Rightarrow> x)"
    and "ensure h fetcher P s = (r, s')"
  shows "gd_world s' = w \<and> (r = Inr () \<longleftrightarrow> gd_passed s') \<and>
    (gd_passed s' \<longleftrightarrow> (\<exists>x. m = Inr x \<and> (\<forall>md. x = Some md \<longrightarrow> \<not> version_less v (cm_minSdkVersion md)))) \<and>
    (\<forall>e. m = Inl e \<longrightarrow> r = Inl e) \<and>
    (gd_passed s' \<longrightarrow> (\<forall>other. ensure h other P s' = (Inr (), s')))"
proof -
  have o: "outside fetcher s = (m, s\<lparr>gd_world := w\<rparr>)" unfolding outside_def by (rule zoomI) (rule assms(3))
  have run: "ensure h fetcher P s = act_bind (outside fetcher) (\<lambda>m. act_seq (act_result (check_metadata h P m))
      (act_modify (\<lambda>s. s\<lparr>gd_passed := True\<rparr>))) s" using assms(1,2) by (simp add: ensure_def)
  have cm: "check_metadata h P (Some md) = (if version_less v (cm_minSdkVersion md)
      then Inl (IncompatibleContractError h (gp_contractName P) v (cm_minSdkVersion md) (cm_version md)) else Inr ())" for md
    by (simp add: check_metadata_def assertCompatible_def compareSemver_iff assms(4))
  show ?thesis
  proof (cases m)
    case (Inl e)
    then show ?thesis using assms(2,5) o unfolding run by auto
  next
    case (Inr x)
    then show ?thesis using assms(2,5) o cm unfolding run
      by (cases x) (auto simp: act_defs check_metadata_def ensure_def split: if_splits)
  qed
qed

definition old_sdk :: compat_params where
  "old_sdk = \<lparr>gp_contractName = ''core_game'', gp_contractId = ''C1'', gp_network = the (NETWORKS ''testnet''), gp_skip = False,
     gp_sdkVersion = Some ''v0.9'', gp_throwaway = ''G''\<rparr>"

lemma old_sdk_less: "version_less ''v0.9'' ''0.10.0''"
proof -
  have "compareSemver ''v0.9'' ''0.10.0'' < 0" by code_simp
  then show ?thesis by (simp only: compareSemver_iff)
qed

lemma ensure_outcome_witness:
  "\<exists>e s'. ensure plain_host (\<lambda>w. (Inr (Some \<lparr>cm_version = num 2, cm_abiHash = [], cm_minSdkVersion = ''0.10.0''\<rparr>), w)) old_sdk
     \<lparr>gd_passed = False, gd_world = ()\<rparr> = (Inl e, s') \<and> \<not> gd_passed s'"
proof -
  let ?m = "Some \<lparr>cm_version = num 2, cm_abiHash = [], cm_minSdkVersion = ''0.10.0''\<rparr>"
  let ?s = "\<lparr>gd_passed = False, gd_world = ()\<rparr>"
  obtain r s' where e: "ensure plain_host (\<lambda>w. (Inr ?m, w)) old_sdk ?s = (r, s')" by fastforce
  have p: "\<not> gp_skip old_sdk" "\<not> gd_passed ?s" "(\<lambda>w. (Inr ?m, w)) (gd_world ?s) = (Inr ?m, ())"
    "''v0.9'' = (case gp_sdkVersion old_sdk of None \<Rightarrow> SDK_VERSION | Some x \<Rightarrow> x)" by (simp_all add: old_sdk_def)
  note E = ensure_outcome [OF p e]
  have "\<not> gd_passed s'" using E old_sdk_less by auto
  moreover from this have "r \<noteq> Inr ()" using E by blast
  ultimately show ?thesis using e by (cases r) auto
qed

end
