(* ===== verification/Sdk_Client.thy ===== *)
theory Sdk_Client
  imports Sdk_Compat
begin

text \<open>
  The four contract clients (\<^verbatim>\<open>soroban/sdk/ts/core-game-client.ts\<close>, \<^verbatim>\<open>rewards-client.ts\<close>,
  \<^verbatim>\<open>achievements-client.ts\<close>, \<^verbatim>\<open>admin-registry-client.ts\<close>): the transactions they build behind the
  compatibility guard, the reads that turn every failure into \<^verbatim>\<open>null\<close>, and the parsing of what a
  contract returns.
\<close>

section \<open>Making a client\<close>

record ('w, 'a, 't, 's, 'v) client =
  cl_host :: host
  cl_bytes :: "nat list \<Rightarrow> string"
  cl_ledger :: "('w, 'a, 't, 's, 'v) ledger"
  cl_params :: compat_params
  cl_readKey :: string

definition compat_for :: "SorobanNetworkConfig \<Rightarrow> contract_key \<Rightarrow> string \<Rightarrow> bool \<Rightarrow> string option \<Rightarrow> string \<Rightarrow> compat_params" where
  "compat_for network k contractId skip sdkVersion throwaway =
    \<lparr>gp_contractName = key_name k, gp_contractId = contractId, gp_network = network, gp_skip = skip,
     gp_sdkVersion = sdkVersion, gp_throwaway = throwaway\<rparr>"

definition client_fromRegistry ::
    "host \<Rightarrow> (nat list \<Rightarrow> string) \<Rightarrow> ('w, 'a, 't, 's, 'v) ledger \<Rightarrow> SorobanNetworkConfig \<Rightarrow> ContractRegistry \<Rightarrow> contract_key \<Rightarrow>
     bool \<Rightarrow> string option \<Rightarrow> string \<Rightarrow> string \<Rightarrow> js_error + ('w, 'a, 't, 's, 'v) client" where
  "client_fromRegistry h show_bytes D network registry k skip sdkVersion throwaway readKey =
    (case resolveContractId registry k of
       Inl e \<Rightarrow> Inl e
     | Inr contractId \<Rightarrow> Inr \<lparr>cl_host = h, cl_bytes = show_bytes, cl_ledger = D,
         cl_params = compat_for network k contractId skip sdkVersion throwaway, cl_readKey = readKey\<rparr>)"

type_synonym ('w, 'b) client_act = "('w guarded, js_error, 'b) act"

definition compat_ensure :: "('w, 'a, 't, 's, 'v) client \<Rightarrow> ('w, unit) client_act" where
  "compat_ensure C = ensure (cl_host C) (fetchContractMetadata (cl_host C) (cl_bytes C) (cl_ledger C) (cl_params C)) (cl_params C)"

text \<open>The arguments of a call are converted from left to right.\<close>

primrec convert_args :: "(call_arg \<Rightarrow> js_error + 'v) \<Rightarrow> call_arg list \<Rightarrow> js_error + 'v list" where
  "convert_args f [] = Inr []"
| "convert_args f (x # xs) = (case f x of
      Inl e \<Rightarrow> Inl e
    | Inr v \<Rightarrow> (case convert_args f xs of Inl e \<Rightarrow> Inl e | Inr vs \<Rightarrow> Inr (v # vs)))"

definition build_with ::
    "('w, 'a, 't, 's, 'v) client \<Rightarrow> 'a \<Rightarrow> string \<Rightarrow> call_arg list \<Rightarrow> ('w, 't) client_act" where
  "build_with C account method args = act_bind (act_result (convert_args (ld_arg (cl_ledger C)) args)) (\<lambda>vs.
     act_result (buildContractTx (cl_ledger C) account (gp_network (cl_params C)) (gp_contractId (cl_params C)) method vs None))"

text \<open>The shape all builders share: check, load the account, build, simulate.\<close>

definition build_call :: "('w, 'a, 't, 's, 'v) client \<Rightarrow> string \<Rightarrow> string \<Rightarrow> call_arg list \<Rightarrow> ('w, 'v option \<times> 't) client_act" where
  "build_call C sourcePublicKey method args =
    act_seq (compat_ensure C)
      (act_bind (outside (ld_getAccount (cl_ledger C) sourcePublicKey)) (\<lambda>account.
        act_bind (build_with C account method args) (\<lambda>tx. outside (simulateAndAssemble (cl_ledger C) tx))))"

definition buildCreateSessionTx :: "('w, 'a, 't, 's, 'v) client \<Rightarrow> string \<Rightarrow> jsnum \<Rightarrow> jsnum \<Rightarrow> ('w, 'v option \<times> 't) client_act" where
  "buildCreateSessionTx C sourcePublicKey dayId nonce =
    build_call C sourcePublicKey ''create_session'' [ArgAddress sourcePublicKey, ArgU32 dayId, ArgU32 nonce]"

record SubmitGuessInput =
  sg_player :: string
  sg_sessionId :: string
  sg_guessCommitment :: string
  sg_outcomeCode :: jsnum
  sg_isCorrect :: bool

definition buildSubmitGuessTx :: "('w, 'a, 't, 's, 'v) client \<Rightarrow> string \<Rightarrow> SubmitGuessInput \<Rightarrow> ('w, 'v option \<times> 't) client_act" where
  "buildSubmitGuessTx C sourcePublicKey input =
    build_call C sourcePublicKey ''submit_guess''
      [ArgAddress (sg_player input), ArgBytes (sg_sessionId input), ArgBytes (sg_guessCommitment input),
       ArgU32 (sg_outcomeCode input), ArgBool (sg_isCorrect input)]"

definition buildClaimTx :: "('w, 'a, 't, 's, 'v) client \<Rightarrow> string \<Rightarrow> ('w, 'v option \<times> 't) client_act" where
  "buildClaimTx C sourcePublicKey = build_call C sourcePublicKey ''claim'' [ArgAddress sourcePublicKey]"

definition buildGetUnlockedTx :: "('w, 'a, 't, 's, 'v) client \<Rightarrow> string \<Rightarrow> string \<Rightarrow> ('w, 'v option \<times> 't) client_act" where
  "buildGetUnlockedTx C sourcePublicKey achievementId =
    build_call C sourcePublicKey ''get_unlocked'' [ArgAddress sourcePublicKey, ArgSymbol achievementId]"

definition buildGetContractTx :: "('w, 'a, 't, 's, 'v) client \<Rightarrow> string \<Rightarrow> string \<Rightarrow> ('w, 'v option \<times> 't) client_act" where
  "buildGetContractTx C sourcePublicKey key = build_call C sourcePublicKey ''get_contract'' [ArgSymbol key]"

section \<open>Parsing\<close>

record DayConfig =
  dc_dayId :: jsnum
  dc_puzzleCommitment :: string
  dc_maxAttempts :: jsnum
  dc_closesAt :: jsnum
  dc_published :: bool

record chain_session =
  cs_id :: string
  cs_player :: string
  cs_dayId :: jsnum
  cs_attemptsUsed :: jsnum
  cs_maxAttempts :: jsnum
  cs_status :: chain_value
  cs_finalized :: bool
  cs_startedAt :: jsnum
  cs_updatedAt :: jsnum

record GuessResult =
  gr_attemptNo :: jsnum
  gr_outcomeCode :: jsnum
  gr_isCorrect :: bool

definition parseDayConfig :: "host \<Rightarrow> (nat list \<Rightarrow> string) \<Rightarrow> chain_data \<Rightarrow> DayConfig option" where
  "parseDayConfig h show_bytes raw = (case chain_fields raw of
      None \<Rightarrow> None
    | Some obj \<Rightarrow> Some \<lparr>
        dc_dayId = chain_Number h show_bytes (either_name obj ''day_id'' ''dayId''),
        dc_puzzleCommitment = chain_String h show_bytes
          (chain_coalesce (either_name obj ''puzzle_commitment'' ''puzzleCommitment'') (Plain (Str []))),
        dc_maxAttempts = chain_Number h show_bytes (either_name obj ''max_attempts'' ''maxAttempts''),
        dc_closesAt = chain_Number h show_bytes (either_name obj ''closes_at'' ''closesAt''),
        dc_published = chain_Boolean (chain_member obj ''published'')\<rparr>)"

definition parseSession :: "host \<Rightarrow> (nat list \<Rightarrow> string) \<Rightarrow> chain_data \<Rightarrow> chain_session option" where
  "parseSession h show_bytes raw = (case chain_fields raw of
      None \<Rightarrow> None
    | Some obj \<Rightarrow> Some \<lparr>
        cs_id = chain_String h show_bytes (chain_coalesce (chain_member obj ''id'') (Plain (Str []))),
        cs_player = chain_String h show_bytes (chain_coalesce (chain_member obj ''player'') (Plain (Str []))),
        cs_dayId = chain_Number h show_bytes (either_name obj ''day_id'' ''dayId''),
        cs_attemptsUsed = chain_Number h show_bytes (either_name obj ''attempts_used'' ''attemptsUsed''),
        cs_maxAttempts = chain_Number h show_bytes (either_name obj ''max_attempts'' ''maxAttempts''),
        cs_status = chain_coalesce (chain_member obj ''status'') (Plain (Str ''InProgress'')),
        cs_finalized = chain_Boolean (chain_member obj ''finalized''),
        cs_startedAt = chain_Number h show_bytes (either_name obj ''started_at'' ''startedAt''),
        cs_updatedAt = chain_Number h show_bytes (either_name obj ''updated_at'' ''updatedAt'')\<rparr>)"

definition parseGuessResult :: "host \<Rightarrow> (nat list \<Rightarrow> string) \<Rightarrow> chain_data \<Rightarrow> GuessResult option" where
  "parseGuessResult h show_bytes raw = (case chain_fields raw of
      None \<Rightarrow> None
    | Some obj \<Rightarrow>
        (let attemptNo = chain_Number h show_bytes (either_name obj ''attempt_no'' ''attemptNo'');
             outcomeCode = chain_Number h show_bytes (either_name obj ''outcome_code'' ''outcomeCode'');
             isCorrect = chain_Boolean (either_name obj ''is_correct'' ''isCorrect'')
         in if attemptNo = NaN \<or> outcomeCode = NaN then None
            else Some \<lparr>gr_attemptNo = attemptNo, gr_outcomeCode = outcomeCode, gr_isCorrect = isCorrect\<rparr>))"

section \<open>Reads\<close>

text \<open>A read of the contract with the fixed read-only account; whatever goes wrong in it is \<^verbatim>\<open>null\<close>.\<close>

definition read_contract ::
    "('w, 'a, 't, 's, 'v) client \<Rightarrow> string \<Rightarrow> call_arg list \<Rightarrow> (chain_data \<Rightarrow> 'b option) \<Rightarrow> ('w, 'b option) client_act" where
  "read_contract C method args parse =
    act_seq (compat_ensure C)
      (act_catch
        (act_bind (build_with C (ld_account (cl_ledger C) (cl_readKey C)) method args) (\<lambda>tx.
          act_bind (outside (simulateAndAssemble (cl_ledger C) tx)) (\<lambda>(retval, _). case retval of
              None \<Rightarrow> act_ret None
            | Some v \<Rightarrow> act_bind (act_result (ld_native (cl_ledger C) v)) (\<lambda>x. act_ret (parse x)))))
        (\<lambda>_. act_ret None))"

definition getDayConfig :: "('w, 'a, 't, 's, 'v) client \<Rightarrow> jsnum \<Rightarrow> ('w, DayConfig option) client_act" where
  "getDayConfig C dayId = read_contract C ''get_day_config'' [ArgU32 dayId] (parseDayConfig (cl_host C) (cl_bytes C))"

definition getSession :: "('w, 'a, 't, 's, 'v) client \<Rightarrow> string \<Rightarrow> ('w, chain_session option) client_act" where
  "getSession C sessionId = read_contract C ''get_session'' [ArgBytes sessionId] (parseSession (cl_host C) (cl_bytes C))"

section \<open>What the clients guarantee\<close>

lemma compat_ensure_skip: "gp_skip (cl_params C) \<or> gd_passed s \<Longrightarrow> compat_ensure C s = (Inr (), s)"
  by (simp add: compat_ensure_def ensure_def)

text \<open>A read fails only in the compatibility check.\<close>

lemma read_throws:
  assumes "read_contract C method args parse s = (Inl e, s')"
  shows "compat_ensure C s = (Inl e, s')"
proof (cases "compat_ensure C s")
  case (Pair r t)
  then show ?thesis using assms
    by (cases r) (auto simp: read_contract_def act_defs split: prod.splits sum.splits)
qed

text \<open>A transaction is only built by a client whose check has passed, or is skipped.\<close>

lemma outside_passed: "outside m s = (r, s') \<Longrightarrow> gd_passed s' = gd_passed s"
  unfolding outside_def by (auto dest!: zoomD)

lemma ensure_passes: "ensure h f P s = (Inr (), s') \<Longrightarrow> gp_skip P \<or> gd_passed s'"
  by (auto simp: ensure_def act_defs outside_def split: if_splits prod.splits sum.splits)

lemma build_with_state: "build_with C a m args s = (r, s') \<Longrightarrow> s' = s"
  by (auto simp: build_with_def act_defs split: sum.splits)

lemma build_call_passed:
  assumes "build_call C source method args s = (Inr x, s')"
  shows "gp_skip (cl_params C) \<or> gd_passed s'"
proof -
  obtain s1 where e: "compat_ensure C s = (Inr (), s1)"
    and b: "act_bind (outside (ld_getAccount (cl_ledger C) source)) (\<lambda>account.
        act_bind (build_with C account method args) (\<lambda>tx. outside (simulateAndAssemble (cl_ledger C) tx))) s1 = (Inr x, s')"
    using assms by (auto simp: build_call_def act_seq_def act_bind_returns)
  have "gd_passed s' = gd_passed s1"
    using b by (auto simp: act_bind_returns dest!: outside_passed build_with_state)
  then show ?thesis using ensure_passes e unfolding compat_ensure_def by metis
qed

end
