(* ===== verification/Sdk_Wallet.thy ===== *)
theory Sdk_Wallet
  imports Js_Values
begin

text \<open>
  The wallet's state machine with its reconnection loop, the dry run and the offline queue of the
  client library (\<^verbatim>\<open>soroban/sdk/ts/wallet-state.ts\<close>), and the retrying submission, deployment and
  batch read (\<^verbatim>\<open>retry-deploy-batch-read.ts\<close>).  What a callback answers at its \<^verbatim>\<open>k\<close>-th call is an
  argument.
\<close>

section \<open>The state machine\<close>

datatype WalletState = Disconnected | Connecting | Connected | WalletError | NetworkMismatch

text \<open>The machine; what it told its listeners (next and previous state) is kept in \<^verbatim>\<open>wm_told\<close>.\<close>

record wallet_machine =
  wm_state :: WalletState
  wm_retries :: int
  wm_maxRetries :: int
  wm_told :: "(WalletState \<times> WalletState) list"

definition new_wallet :: "int option \<Rightarrow> wallet_machine" where
  "new_wallet maxRetries = \<lparr>wm_state = Disconnected, wm_retries = 0,
     wm_maxRetries = (case maxRetries of None \<Rightarrow> 3 | Some n \<Rightarrow> n), wm_told = []\<rparr>"

definition transition :: "WalletState \<Rightarrow> wallet_machine \<Rightarrow> wallet_machine" where
  "transition next m = m\<lparr>wm_state := next, wm_told := wm_told m @ [(next, wm_state m)]\<rparr>"

text \<open>
  The \<^verbatim>\<open>while\<close> loop of a reconnection.  \<^verbatim>\<open>connect k\<close> says whether the \<^verbatim>\<open>k\<close>-th call of the callback
  succeeds; the result counts the calls made.
\<close>

function reconnect :: "(nat \<Rightarrow> bool) \<Rightarrow> nat \<Rightarrow> wallet_machine \<Rightarrow> nat \<times> wallet_machine" where
  "reconnect connect calls m =
    (if wm_retries m < wm_maxRetries m then
       (let m1 = transition Connecting (m\<lparr>wm_retries := wm_retries m + 1\<rparr>) in
        if connect calls then (calls + 1, transition Connected (m1\<lparr>wm_retries := 0\<rparr>))
        else reconnect connect (calls + 1) m1)
     else (calls, transition WalletError m))"
  by pat_completeness auto

termination
  by (relation "measure (\<lambda>(_, _, m). nat (wm_maxRetries m - wm_retries m))") (auto simp: transition_def)

declare reconnect.simps [simp del]

definition onDisconnect :: "(nat \<Rightarrow> bool) \<Rightarrow> wallet_machine \<Rightarrow> nat \<times> wallet_machine" where
  "onDisconnect connect m = reconnect connect 0 (transition Disconnected m)"

definition checkNetwork :: "string \<Rightarrow> string \<Rightarrow> wallet_machine \<Rightarrow> wallet_machine" where
  "checkNetwork expected actual m = (if expected \<noteq> actual then transition NetworkMismatch m else m)"

section \<open>The dry run\<close>

record raw_simulation =
  rs_cpu :: jsnum
  rs_mem :: jsnum
  rs_ops :: jsnum
  rs_feeStroops :: jsnum

record SimulationResult =
  sr_cpuInstructions :: jsnum
  sr_memoryBytes :: jsnum
  sr_storageOps :: jsnum
  sr_feeXlm :: jsnum

definition simulate :: "js_error + raw_simulation \<Rightarrow> js_error + SimulationResult" where
  "simulate answer = (case answer of Inl e \<Rightarrow> Inl e
    | Inr r \<Rightarrow> Inr \<lparr>sr_cpuInstructions = rs_cpu r, sr_memoryBytes = rs_mem r, sr_storageOps = rs_ops r,
        sr_feeXlm = num_mul (rs_feeStroops r) (Fin (1 / 10 ^ 7))\<rparr>)"

section \<open>The offline queue\<close>

definition MAX_QUEUE :: nat where "MAX_QUEUE = 10"
definition TTL_MS :: int where "TTL_MS = 60 * 60 * 1000"

record Queued =
  qd_xdr :: string
  qd_at :: int

text \<open>The stored value: the parsed list, or nothing under the key.\<close>

type_synonym tx_store = "Queued list option"

definition load_queue :: "tx_store \<Rightarrow> Queued list" where
  "load_queue s = (case s of None \<Rightarrow> [] | Some q \<Rightarrow> q)"

definition fresh_entries :: "int \<Rightarrow> Queued list \<Rightarrow> Queued list" where
  "fresh_entries now q = filter (\<lambda>t. now - qd_at t < TTL_MS) q"

definition queueTransaction :: "int \<Rightarrow> string \<Rightarrow> tx_store \<Rightarrow> bool \<times> tx_store" where
  "queueTransaction now x s =
    (let q = fresh_entries now (load_queue s) in
     if length q \<ge> MAX_QUEUE then (False, s)
     else (True, Some (q @ [\<lparr>qd_xdr = x, qd_at = now\<rparr>])))"

text \<open>The submissions of a flush, up to the first that fails: those made, and the error.\<close>

fun flush_all :: "(string \<Rightarrow> js_error option) \<Rightarrow> string list \<Rightarrow> string list \<times> js_error option" where
  "flush_all submit [] = ([], None)"
| "flush_all submit (x # xs) = (case submit x of
      Some e \<Rightarrow> ([x], Some e)
    | None \<Rightarrow> (case flush_all submit xs of (done_txs, e) \<Rightarrow> (x # done_txs, e)))"

text \<open>The handler of the \<^verbatim>\<open>online\<close> event that \<^verbatim>\<open>autoFlush\<close> registers: the store is emptied first.\<close>

definition autoFlush :: "int \<Rightarrow> (string \<Rightarrow> js_error option) \<Rightarrow> tx_store \<Rightarrow> (string list \<times> js_error option) \<times> tx_store" where
  "autoFlush now submit s = (flush_all submit (map qd_xdr (fresh_entries now (load_queue s))), Some [])"

section \<open>Retrying\<close>

text \<open>\<^verbatim>\<open>/timeout|rate limit|ECONNRESET|429|503/i\<close>: one of the words occurs, case aside.\<close>

definition defaultRetryable :: "js_error \<Rightarrow> bool" where
  "defaultRetryable err = (\<exists>w \<in> set [''timeout'', ''rate limit'', ''econnreset'', ''429'', ''503''].
     occurs_in w (toLowerCase (err_message err)))"

text \<open>
  The loop, which has no bound of its own: it ends when a call succeeds, fails in a way that is not
  retried, or the retries are used up.  A run that does not end is \<^verbatim>\<open>None\<close>.  The result holds the
  delays waited.
\<close>

partial_function (option) retry_loop ::
    "(nat \<Rightarrow> js_error + 'a) \<Rightarrow> jsnum \<Rightarrow> rat \<Rightarrow> (js_error \<Rightarrow> bool) \<Rightarrow> nat \<Rightarrow> rat list \<Rightarrow> ((js_error + 'a) \<times> rat list) option" where
  "retry_loop submit maxRetries baseDelayMs isRetryable attempt waited =
    (case submit attempt of
       Inr v \<Rightarrow> Some (Inr v, waited)
     | Inl err \<Rightarrow>
         if num_le maxRetries (num (int attempt)) \<or> \<not> isRetryable err then Some (Inl err, waited)
         else retry_loop submit maxRetries baseDelayMs isRetryable (attempt + 1) (waited @ [baseDelayMs * 2 ^ attempt]))"

record retry_options =
  ro_maxRetries :: "jsnum option"
  ro_baseDelayMs :: "rat option"
  ro_isRetryable :: "(js_error \<Rightarrow> bool) option"

definition submitWithRetry ::
    "(nat \<Rightarrow> js_error + 'a) \<Rightarrow> retry_options \<Rightarrow> ((js_error + 'a) \<times> rat list) option" where
  "submitWithRetry submit opts =
    retry_loop submit (case ro_maxRetries opts of None \<Rightarrow> num 3 | Some n \<Rightarrow> n)
      (case ro_baseDelayMs opts of None \<Rightarrow> 1000 | Some d \<Rightarrow> d)
      (case ro_isRetryable opts of None \<Rightarrow> defaultRetryable | Some f \<Rightarrow> f) 0 []"

section \<open>Deployment and batch reads\<close>

text \<open>The callbacks of a deployment; \<^verbatim>\<open>'w\<close> is the network they act on.\<close>

record ('w, 'p) deploy_options =
  do_network :: string
  do_uploadWasm :: "nat list \<Rightarrow> ('w, js_error, string) act"
  do_deploy :: "string \<Rightarrow> ('w, js_error, string) act"
  do_init :: "string \<Rightarrow> 'p list \<Rightarrow> ('w, js_error, unit) act"
  do_onEvent :: "(string \<Rightarrow> string \<Rightarrow> string \<Rightarrow> ('w, js_error, unit) act) option"

definition deployContract :: "nat list \<Rightarrow> 'p list \<Rightarrow> ('w, 'p) deploy_options \<Rightarrow> ('w, js_error, string) act" where
  "deployContract wasm initParams o1 =
    act_bind (do_uploadWasm o1 wasm) (\<lambda>hash.
      act_bind (do_deploy o1 hash) (\<lambda>i.
        act_seq (do_init o1 i initParams)
          (act_seq (case do_onEvent o1 of None \<Rightarrow> act_ret () | Some f \<Rightarrow> f ''contract_deployed'' (do_network o1) i)
            (act_ret i))))"

text \<open>All reads are started; a failed one is a value of its own.\<close>

definition batchRead :: "'q list \<Rightarrow> ('q \<Rightarrow> js_error + 'a) \<Rightarrow> (js_error + 'a) list" where
  "batchRead specs read = map read specs"

section \<open>Reconnection ends\<close>

lemma reconnect_stops:
  "wm_maxRetries m \<le> wm_retries m \<Longrightarrow> reconnect connect calls m = (calls, transition WalletError m)"
  by (simp add: reconnect.simps)

text \<open>With \<^verbatim>\<open>n\<close> retries left: the first call that succeeds ends the loop, or all fail.\<close>

lemma reconnect_outcome:
  "wm_maxRetries m - wm_retries m = int n \<Longrightarrow>
     \<exists>m'. reconnect connect calls m = (if \<exists>k < n. connect (calls + k)
       then calls + Suc (LEAST k. connect (calls + k)) else calls + n, m') \<and> wm_maxRetries m' = wm_maxRetries m \<and>
     (if \<exists>k < n. connect (calls + k) then wm_state m' = Connected \<and> wm_retries m' = 0
      else wm_state m' = WalletError \<and> wm_retries m' = wm_maxRetries m)"
proof (induction n arbitrary: m calls)
  case 0
  then show ?case by (simp add: reconnect_stops transition_def)
next
  case (Suc n)
  let ?m = "transition Connecting (m\<lparr>wm_retries := wm_retries m + 1\<rparr>)"
  have lt: "wm_retries m < wm_maxRetries m" using Suc.prems by linarith
  show ?case
  proof (cases "connect calls")
    case True
    then have l: "(LEAST k. connect (calls + k)) = 0" and ex: "\<exists>k < Suc n. connect (calls + k)"
      by (auto intro: Least_equality)
    show ?thesis unfolding if_P [OF ex] l using lt True
      by (subst reconnect.simps) (simp add: Let_def transition_def)
  next
    case False
    have step: "reconnect connect calls m = reconnect connect (calls + 1) ?m"
      using lt False by (subst reconnect.simps) (simp add: Let_def)
    have left: "wm_maxRetries ?m - wm_retries ?m = int n" using Suc.prems by (simp add: transition_def)
    have mx: "wm_maxRetries ?m = wm_maxRetries m" by (simp add: transition_def)
    have ex: "(\<exists>k < Suc n. connect (calls + k)) = (\<exists>k < n. connect (calls + 1 + k))"
    proof
      assume "\<exists>k < Suc n. connect (calls + k)"
      then obtain k where "k < Suc n" "connect (calls + k)" by blast
      then show "\<exists>k < n. connect (calls + 1 + k)" using False by (cases k) auto
    next
      assume "\<exists>k < n. connect (calls + 1 + k)"
      then obtain k where "k < n" "connect (calls + 1 + k)" by blast
      then show "\<exists>k < Suc n. connect (calls + k)" by (intro exI [of _ "Suc k"]) simp
    qed
    have l: "(LEAST k. connect (calls + k)) = Suc (LEAST k. connect (calls + 1 + k))" if later: "\<exists>k < n. connect (calls + 1 + k)"
    proof -
      from later obtain k where "connect (calls + 1 + k)" by blast
      then have "connect (calls + Suc k)" by simp
      from Least_Suc [of "\<lambda>k. connect (calls + k)", OF this] False show ?thesis by simp
    qed
    show ?thesis using Suc.IH [OF left, where calls = "calls + 1"] l unfolding step ex mx by auto
  qed
qed

text \<open>
  C15: a reconnection ends: with \<^verbatim>\<open>n\<close> retries left it calls \<^verbatim>\<open>connect\<close> at most \<^verbatim>\<open>n\<close> times, and ends connected with
  its retries restored after the first call that succeeds, or in the error state after \<^verbatim>\<open>n\<close> failures.
  In that state the retries are used up for good: every later disconnection ends in the error
  state without a single call, even when the network is back.
\<close>

theorem onDisconnect_ends:
  assumes "wm_maxRetries m - wm_retries m = int n" "onDisconnect connect m = (k, m')"
  shows "k \<le> n \<and>
    (if \<exists>j < n. connect j then wm_state m' = Connected \<and> wm_retries m' = 0 \<and> k = Suc (LEAST j. connect j)
     else wm_state m' = WalletError \<and> k = n \<and>
       (\<forall>later. \<exists>m''. onDisconnect later m' = (0, m'') \<and> wm_state m'' = WalletError))"
proof -
  have left: "wm_maxRetries (transition Disconnected m) - wm_retries (transition Disconnected m) = int n"
    using assms(1) by (simp add: transition_def)
  note R = reconnect_outcome [OF left, of connect 0, folded onDisconnect_def]
  have dead: "\<exists>m''. onDisconnect later m' = (0, m'') \<and> wm_state m'' = WalletError"
    if "wm_retries m' = wm_maxRetries m'" for later
    using that by (simp add: onDisconnect_def reconnect_stops transition_def)
  show ?thesis
  proof (cases "\<exists>j < n. connect j")
    case True
    then obtain j where j: "j < n" "connect j" by blast
    then have "(LEAST j. connect j) < n" using Least_le [of connect j] by linarith
    then show ?thesis using R assms(2) True by auto
  next
    case False
    then show ?thesis using R assms(2) dead by (auto simp: transition_def)
  qed
qed

lemma onDisconnect_ends_witness:
  "\<exists>m' m''. onDisconnect (\<lambda>_. False) (new_wallet None) = (3, m') \<and> onDisconnect (\<lambda>_. True) m' = (0, m'') \<and>
     wm_state m'' = WalletError"
proof -
  obtain k m' where o: "onDisconnect (\<lambda>_. False) (new_wallet None) = (k, m')" by fastforce
  have left: "wm_maxRetries (new_wallet None) - wm_retries (new_wallet None) = int 3" by (simp add: new_wallet_def)
  show ?thesis using onDisconnect_ends [OF left o] o by auto
qed

section \<open>Retrying ends\<close>

text \<open>The outcome of a run: the delays waited double, every failure before the last was retried, and the
  last call succeeded or may not be retried.\<close>

definition retry_outcome :: "(nat \<Rightarrow> js_error + 'a) \<Rightarrow> jsnum \<Rightarrow> rat \<Rightarrow> (js_error \<Rightarrow> bool) \<Rightarrow> nat \<Rightarrow> nat \<Rightarrow> bool" where
  "retry_outcome submit maxRetries base isRetryable i k \<longleftrightarrow> i \<le> k \<and>
     (\<forall>j. i \<le> j \<longrightarrow> j < k \<longrightarrow> (\<exists>e. submit j = Inl e \<and> isRetryable e \<and> \<not> num_le maxRetries (num (int j)))) \<and>
     (\<forall>e. submit k = Inl e \<longrightarrow> num_le maxRetries (num (int k)) \<or> \<not> isRetryable e)"

lemma retry_stops:
  assumes "\<not> (\<exists>e. submit attempt = Inl e \<and> isRetryable e \<and> \<not> num_le maxRetries (num (int attempt)))"
  shows "retry_loop submit maxRetries base isRetryable attempt waited = Some (submit attempt, waited)"
  using assms by (cases "submit attempt"; subst retry_loop.simps) auto

lemma retry_goes_on:
  assumes "submit attempt = Inl e" "isRetryable e" "\<not> num_le maxRetries (num (int attempt))"
  shows "retry_loop submit maxRetries base isRetryable attempt waited =
    retry_loop submit maxRetries base isRetryable (Suc attempt) (waited @ [base * 2 ^ attempt])"
  using assms by (subst retry_loop.simps) simp

lemma retry_returns:
  "r \<le> of_nat (attempt + n) \<Longrightarrow> \<exists>k. k \<le> attempt + n \<and> retry_outcome submit (Fin r) base isRetryable attempt k \<and>
     retry_loop submit (Fin r) base isRetryable attempt waited =
       Some (submit k, waited @ map (\<lambda>i. base * 2 ^ i) [attempt..<k])"
proof (induction n arbitrary: attempt waited)
  case 0
  then have "num_le (Fin r) (num (int attempt))" by (auto simp: num_le_def order_le_less)
  then show ?case by (intro exI [of _ attempt] conjI) (simp_all add: retry_outcome_def retry_stops)
next
  case (Suc n)
  show ?case
  proof (cases "\<exists>e. submit attempt = Inl e \<and> isRetryable e \<and> \<not> num_le (Fin r) (num (int attempt))")
    case False
    then show ?thesis using retry_stops [where submit = submit and attempt = attempt and isRetryable = isRetryable and maxRetries = "Fin r", OF False]
      by (intro exI [of _ attempt] conjI) (auto simp: retry_outcome_def)
  next
    case True
    then obtain e where e: "submit attempt = Inl e" "isRetryable e" "\<not> num_le (Fin r) (num (int attempt))" by blast
    note step = retry_goes_on [where submit = submit and attempt = attempt and isRetryable = isRetryable and maxRetries = "Fin r",
      OF e, where base = base and waited = waited]
    obtain k where k: "k \<le> Suc attempt + n" "retry_outcome submit (Fin r) base isRetryable (Suc attempt) k"
      "retry_loop submit (Fin r) base isRetryable (Suc attempt) (waited @ [base * 2 ^ attempt]) =
        Some (submit k, (waited @ [base * 2 ^ attempt]) @ map (\<lambda>i. base * 2 ^ i) [Suc attempt..<k])"
      using Suc.IH [of "Suc attempt" "waited @ [base * 2 ^ attempt]"] Suc.prems by auto
    have lt: "attempt < k" using k(2) by (simp add: retry_outcome_def)
    then have "map (\<lambda>i. base * 2 ^ i) [attempt..<k] = base * 2 ^ attempt # map (\<lambda>i. base * 2 ^ i) [Suc attempt..<k]"
      by (simp add: upt_conv_Cons)
    moreover have "retry_outcome submit (Fin r) base isRetryable attempt k"
      unfolding retry_outcome_def
    proof (intro conjI allI impI)
      show "attempt \<le> k" using lt by simp
      show "\<exists>e. submit j = Inl e \<and> isRetryable e \<and> \<not> num_le (Fin r) (num (int j))" if "attempt \<le> j" "j < k" for j
        using that k(2) e by (cases "j = attempt") (auto simp: retry_outcome_def)
      show "num_le (Fin r) (num (int k)) \<or> \<not> isRetryable e" if "submit k = Inl e" for e
        using that k(2) by (simp add: retry_outcome_def)
    qed
    ultimately show ?thesis using k(1,3) step by (intro exI [of _ k]) simp
  qed
qed

lemma retry_diverges:
  assumes "\<And>k. submit k = Inl (e k) \<and> isRetryable (e k)" "\<And>k. \<not> num_le maxRetries (num (int k))"
  shows "retry_loop submit maxRetries base isRetryable attempt waited = None"
proof (cases "retry_loop submit maxRetries base isRetryable attempt waited")
  case (Some r)
  have "\<not> (submit = submit \<and> maxRetries = maxRetries \<and> isRetryable = isRetryable)"
  proof (rule retry_loop.raw_induct [OF _ Some, where P = "\<lambda>s mx b rt i w r. \<not> (s = submit \<and> mx = maxRetries \<and> rt = isRetryable)"])
    show "\<not> (s = submit \<and> mx = maxRetries \<and> rt = isRetryable)"
      if IH: "\<And>s mx b rt i w r. loop s mx b rt i w = Some r \<Longrightarrow> \<not> (s = submit \<and> mx = maxRetries \<and> rt = isRetryable)"
        and run: "(case s i of Inl err \<Rightarrow> if num_le mx (num (int i)) \<or> \<not> rt err then Some (Inl err, w)
            else loop s mx b rt (i + 1) (w @ [b * 2 ^ i])
          | Inr v \<Rightarrow> Some (Inr v, w)) = Some r"
      for loop s mx rt i r and b :: rat and w :: "rat list"
      using run assms IH [of s mx b rt "i + 1" "w @ [b * 2 ^ i]" r] by (auto split: sum.splits)
  qed
  then show ?thesis by simp
qed

text \<open>
  Submitting with a finite number of retries returns, after at most that many retries, rounded up:
  the answer is that of the first call that succeeds, fails in a way that is not retried, or uses
  the last retry up, and the waits before it double from the base delay.  With \<^verbatim>\<open>NaN\<close> as the
  number of retries no bound is reached: while the failures can be retried it never returns.
\<close>

theorem submitWithRetry_ends:
  fixes submit :: "nat \<Rightarrow> js_error + 'a"
  assumes "opts = \<lparr>ro_maxRetries = Some m, ro_baseDelayMs = Some base, ro_isRetryable = Some retry\<rparr>"
  shows "(\<forall>r. m = Fin r \<longrightarrow> (\<exists>k. k \<le> nat \<lceil>r\<rceil> \<and> retry_outcome submit m base retry 0 k \<and>
      submitWithRetry submit opts = Some (submit k, map (\<lambda>i. base * 2 ^ i) [0..<k]))) \<and>
    (m = NaN \<longrightarrow> (\<forall>k. \<exists>e. submit k = Inl e \<and> retry e) \<longrightarrow> submitWithRetry submit opts = None)"
proof (intro conjI allI impI)
  fix r assume m: "m = Fin r"
  have "r \<le> of_nat (0 + nat \<lceil>r\<rceil>)"
  proof (cases "0 \<le> r")
    case True
    then show ?thesis by simp
  next
    case False
    then show ?thesis by simp
  qed
  from retry_returns [OF this, where submit = submit and base = base and isRetryable = retry and waited = "[]"]
  show "\<exists>k. k \<le> nat \<lceil>r\<rceil> \<and> retry_outcome submit m base retry 0 k \<and>
      submitWithRetry submit opts = Some (submit k, map (\<lambda>i. base * 2 ^ i) [0..<k])"
    by (simp add: submitWithRetry_def assms m)
next
  assume m: "m = NaN" and f: "\<forall>k. \<exists>e. submit k = Inl e \<and> retry e"
  then obtain e where "\<And>k. submit k = Inl (e k) \<and> retry (e k)" by metis
  then have "retry_loop submit m base retry 0 [] = None" by (rule retry_diverges) (simp add: m num_le_def)
  then show "submitWithRetry submit opts = None" by (simp add: submitWithRetry_def assms)
qed

definition plain_retry :: retry_options where
  "plain_retry = \<lparr>ro_maxRetries = Some (num 3), ro_baseDelayMs = Some 1000, ro_isRetryable = Some (\<lambda>_. True)\<rparr>"

lemma submitWithRetry_ends_witness:
  "\<exists>k. k \<le> 3 \<and> submitWithRetry (\<lambda>k. if k < 2 then Inl (JsError ''Error'' ''timeout'' []) else Inr k) plain_retry =
     Some (if k < 2 then Inl (JsError ''Error'' ''timeout'' []) else Inr k, map (\<lambda>i. 1000 * 2 ^ i) [0..<k])"
proof -
  let ?s = "\<lambda>k. if k < 2 then Inl (JsError ''Error'' ''timeout'' []) else Inr k"
  obtain k where k: "k \<le> nat \<lceil>of_int 3 :: rat\<rceil>" "submitWithRetry ?s plain_retry = Some (?s k, map (\<lambda>i. 1000 * 2 ^ i) [0..<k])"
    using submitWithRetry_ends [OF plain_retry_def, where submit = ?s, THEN conjunct1, rule_format, OF refl] by blast
  have "k \<le> 3" using k(1) by simp
  then show ?thesis using k(2) by blast
qed

section \<open>The offline queue\<close>

lemma fresh_idem: "fresh_entries now (fresh_entries now q) = fresh_entries now q"
  by (simp add: fresh_entries_def)

lemma fresh_later: "now \<le> later \<Longrightarrow> fresh_entries later (fresh_entries now q) = fresh_entries later q"
  by (induction q) (auto simp: fresh_entries_def)

text \<open>The queue never holds more than its bound, and holds the last accepted transactions in order.\<close>

lemma queueTransaction_bound:
  "length (load_queue s) \<le> MAX_QUEUE \<Longrightarrow> length (load_queue (snd (queueTransaction now x s))) \<le> MAX_QUEUE"
  by (auto simp: queueTransaction_def load_queue_def Let_def split: option.splits)

text \<open>A flush submits the fresh transactions in order up to the first failure; the store is empty
  afterwards, so the transactions after a failed one are lost.\<close>

lemma flush_all_prefix: "flush_all submit xs = (ys, e) \<Longrightarrow> (\<exists>zs. xs = ys @ zs) \<and> (e = None \<longrightarrow> ys = xs)"
  by (induction xs arbitrary: ys e) (fastforce split: option.splits prod.splits)+

lemma autoFlush_loses_rest:
  "submit x = Some e \<Longrightarrow> autoFlush now submit (Some (\<lparr>qd_xdr = x, qd_at = now\<rparr> # q)) = (([x], Some e), Some [])"
  by (simp add: autoFlush_def load_queue_def fresh_entries_def TTL_MS_def)

end
