(* ===== verification/Sdk_Events.thy ===== *)
theory Sdk_Events
  imports Js_Values
begin

text \<open>
  The decoding of contract events on the client (\<^verbatim>\<open>soroban/sdk/ts/events.ts\<close>, \<^verbatim>\<open>event-parser.ts\<close>) and
  the table of event schemas both sides share (\<^verbatim>\<open>shared/events/schemas.ts\<close>).
\<close>

section \<open>Families and topics\<close>

datatype event_family = core_game | rewards | achievements | admin_registry | unknown

definition normalizeTopic :: "string \<Rightarrow> string" where
  "normalizeTopic rawTopic = toLowerCase (trim rawTopic)"

definition core_game_topics :: "string list" where
  "core_game_topics = [''day_published'', ''session_started'', ''guess_submitted'', ''session_finalized'',
     ''streak_updated'', ''core_game_paused'']"

definition rewards_topics :: "string list" where
  "rewards_topics = [''accrued'', ''claimed'', ''emission_set'']"

definition achievements_topics :: "string list" where
  "achievements_topics = [''achievement_defined'', ''achievement_unlocked'']"

definition admin_registry_topics :: "string list" where
  "admin_registry_topics = [''contract_set'', ''role_set'']"

definition isCoreGameEvent :: "string \<Rightarrow> bool" where
  "isCoreGameEvent topic = (normalizeTopic topic \<in> set core_game_topics)"

definition isRewardsEvent :: "string \<Rightarrow> bool" where
  "isRewardsEvent topic = (normalizeTopic topic \<in> set rewards_topics)"

definition isAchievementsEvent :: "string \<Rightarrow> bool" where
  "isAchievementsEvent topic = (normalizeTopic topic \<in> set achievements_topics)"

definition isAdminRegistryEvent :: "string \<Rightarrow> bool" where
  "isAdminRegistryEvent topic = (normalizeTopic topic \<in> set admin_registry_topics)"

definition resolveEventFamily :: "string \<Rightarrow> event_family" where
  "resolveEventFamily topic =
    (let t = normalizeTopic topic in
     if isCoreGameEvent t then core_game
     else if isRewardsEvent t then rewards
     else if isAchievementsEvent t then achievements
     else if isAdminRegistryEvent t then admin_registry
     else unknown)"

section \<open>Decoding\<close>

record SdkRawEvent =
  re_contractId :: string
  re_topic :: string
  re_value :: js
  re_ledger :: "jsnum option"
  re_txHash :: "string option"

record DecodedEvent =
  de_contractId :: string
  de_topic :: string
  de_payload :: js
  de_ledger :: "jsnum option"
  de_txHash :: "string option"

definition parse_sdk_event :: "SdkRawEvent \<Rightarrow> DecodedEvent" where
  "parse_sdk_event raw = \<lparr>de_contractId = re_contractId raw, de_topic = normalizeTopic (re_topic raw), de_payload = re_value raw,
     de_ledger = re_ledger raw, de_txHash = re_txHash raw\<rparr>"

definition parseCoreGameEvent :: "SdkRawEvent \<Rightarrow> DecodedEvent" where "parseCoreGameEvent = parse_sdk_event"
definition parseRewardsEvent :: "SdkRawEvent \<Rightarrow> DecodedEvent" where "parseRewardsEvent = parse_sdk_event"
definition parseAchievementsEvent :: "SdkRawEvent \<Rightarrow> DecodedEvent" where "parseAchievementsEvent = parse_sdk_event"
definition parseAdminRegistryEvent :: "SdkRawEvent \<Rightarrow> DecodedEvent" where "parseAdminRegistryEvent = parse_sdk_event"

definition decodeEvent :: "SdkRawEvent \<Rightarrow> DecodedEvent" where
  "decodeEvent raw =
    (let topic = normalizeTopic (re_topic raw) in
     if isCoreGameEvent topic then parseCoreGameEvent raw
     else if isRewardsEvent topic then parseRewardsEvent raw
     else if isAchievementsEvent topic then parseAchievementsEvent raw
     else if isAdminRegistryEvent topic then parseAdminRegistryEvent raw
     else \<lparr>de_contractId = re_contractId raw, de_topic = topic, de_payload = re_value raw,
       de_ledger = re_ledger raw, de_txHash = re_txHash raw\<rparr>)"

datatype trace_phase = Normalize | Classify | Parse | Fallback

record EventDecodeTraceEntry =
  te_phase :: trace_phase
  te_topic :: string
  te_detail :: string
  te_timestamp :: int

text \<open>A trace collector, when the caller passed one.\<close>

type_synonym decode_trace = "EventDecodeTraceEntry list option"

definition traceAdd :: "int \<Rightarrow> trace_phase \<Rightarrow> string \<Rightarrow> string \<Rightarrow> decode_trace \<Rightarrow> decode_trace" where
  "traceAdd now phase topic detail trace =
    map_option (\<lambda>es. es @ [\<lparr>te_phase = phase, te_topic = topic, te_detail = detail, te_timestamp = now\<rparr>]) trace"

definition createEventDecodeTrace :: "EventDecodeTraceEntry list" where
  "createEventDecodeTrace = []"

text \<open>The dash of one message is not an ASCII character: it is an argument.\<close>

definition decodeEventWithTrace :: "string \<Rightarrow> int \<Rightarrow> SdkRawEvent \<Rightarrow> decode_trace \<Rightarrow> DecodedEvent \<times> decode_trace" where
  "decodeEventWithTrace dash now raw trace =
    (let topic = normalizeTopic (re_topic raw);
         trace = traceAdd now Normalize (re_topic raw) (''normalized to '' @ [CHR 0x22] @ topic @ [CHR 0x22]) trace in
     if isCoreGameEvent topic then (parseCoreGameEvent raw, traceAdd now Classify topic ''routed to core_game parser'' trace)
     else if isRewardsEvent topic then (parseRewardsEvent raw, traceAdd now Classify topic ''routed to rewards parser'' trace)
     else if isAchievementsEvent topic then
       (parseAchievementsEvent raw, traceAdd now Classify topic ''routed to achievements parser'' trace)
     else if isAdminRegistryEvent topic then
       (parseAdminRegistryEvent raw, traceAdd now Classify topic ''routed to admin_registry parser'' trace)
     else (\<lparr>de_contractId = re_contractId raw, de_topic = topic, de_payload = re_value raw,
         de_ledger = re_ledger raw, de_txHash = re_txHash raw\<rparr>,
       traceAdd now Fallback topic ''payload passed through as-is''
         (traceAdd now Classify topic (''unrecognised '' @ dash @ '' using fallback decoder'') trace)))"

section \<open>Typed events\<close>

record TopicEvent =
  xe_topics :: "string list"
  xe_data :: js_record

datatype DeWordleEvent =
    SessionCreatedEvent string string
  | GuessSubmittedEvent string string
  | SessionFinalizedEvent string bool
  | UnknownEvent TopicEvent

definition parseTopicEvent :: "host \<Rightarrow> TopicEvent \<Rightarrow> DeWordleEvent" where
  "parseTopicEvent h raw =
    (let d = xe_data raw; s = (\<lambda>k. js_String h (get_prop d k)) in
     case xe_topics raw of
       [] \<Rightarrow> UnknownEvent raw
     | topic # _ \<Rightarrow>
         if topic = ''session_created'' then SessionCreatedEvent (s ''sessionId'') (s ''player'')
         else if topic = ''guess_submitted'' then GuessSubmittedEvent (s ''sessionId'') (s ''guess'')
         else if topic = ''session_finalized'' then SessionFinalizedEvent (s ''sessionId'') (truthy (get_prop d ''won''))
         else UnknownEvent raw)"

section \<open>Schemas\<close>

record EventSchemaField =
  sf_name :: string
  sf_type :: string
  sf_required :: "bool option"

record EventSchema =
  es_topic :: string
  es_family :: event_family
  es_description :: string
  es_topicFields :: "EventSchemaField list"
  es_payloadFields :: "EventSchemaField list"
  es_version :: nat

definition schema_field :: "string \<Rightarrow> string \<Rightarrow> EventSchemaField" where
  "schema_field name type = \<lparr>sf_name = name, sf_type = type, sf_required = None\<rparr>"

definition EVENT_SCHEMAS :: "EventSchema list" where
  "EVENT_SCHEMAS = [
    \<lparr>es_topic = ''session_started'', es_family = core_game, es_description = ''Emitted when a player starts a new game session'',
      es_topicFields = [schema_field ''category'' ''Symbol'', schema_field ''action'' ''Symbol'', schema_field ''player'' ''Address'',
        schema_field ''day_id'' ''u32''],
      es_payloadFields = [schema_field ''session_id'' ''BytesN<32>''], es_version = 2\<rparr>,
    \<lparr>es_topic = ''guess_submitted'', es_family = core_game, es_description = ''Emitted when a player submits a guess'',
      es_topicFields = [schema_field ''category'' ''Symbol'', schema_field ''action'' ''Symbol'', schema_field ''session_id'' ''BytesN<32>''],
      es_payloadFields = [schema_field ''guess_commitment'' ''BytesN<32>'', schema_field ''attempt_no'' ''u32'',
        schema_field ''outcome_code'' ''u32'', schema_field ''is_correct'' ''bool''], es_version = 2\<rparr>,
    \<lparr>es_topic = ''session_finalized'', es_family = core_game, es_description = ''Emitted when a session is finalized (won or lost)'',
      es_topicFields = [schema_field ''category'' ''Symbol'', schema_field ''action'' ''Symbol'', schema_field ''session_id'' ''BytesN<32>''],
      es_payloadFields = [schema_field ''player'' ''Address''], es_version = 2\<rparr>,
    \<lparr>es_topic = ''streak_updated'', es_family = core_game,
      es_description = ''Emitted when a player'' @ [CHR 0x27] @ ''s streak is updated'',
      es_topicFields = [schema_field ''category'' ''Symbol'', schema_field ''action'' ''Symbol'', schema_field ''player'' ''Address''],
      es_payloadFields = [schema_field ''current'' ''u32'', schema_field ''max'' ''u32'', schema_field ''last_day_played'' ''u32''],
      es_version = 2\<rparr>,
    \<lparr>es_topic = ''claimed'', es_family = rewards, es_description = ''Emitted when a player claims accrued reward points'',
      es_topicFields = [schema_field ''topic'' ''Symbol'', schema_field ''player'' ''Address''],
      es_payloadFields = [schema_field ''amount'' ''u64''], es_version = 1\<rparr>,
    \<lparr>es_topic = ''achievement_unlocked'', es_family = achievements, es_description = ''Emitted when a player unlocks an achievement'',
      es_topicFields = [schema_field ''topic'' ''Symbol'', schema_field ''player'' ''Address'', schema_field ''id'' ''Symbol''],
      es_payloadFields = [schema_field ''player'' ''Address'', schema_field ''id'' ''Symbol'', schema_field ''unlocked_at'' ''u64'',
        schema_field ''nonce'' ''u64''], es_version = 1\<rparr>]"

definition SCHEMA_VERSION :: nat where "SCHEMA_VERSION = 2"

definition getSchemaByTopic :: "string \<Rightarrow> EventSchema option" where
  "getSchemaByTopic topic = List.find (\<lambda>s. es_topic s = topic) EVENT_SCHEMAS"

definition getSchemasForFamily :: "event_family \<Rightarrow> EventSchema list" where
  "getSchemasForFamily family = filter (\<lambda>s. es_family s = family) EVENT_SCHEMAS"

section \<open>Routing\<close>

lemma normalizeTopic_idem [simp]: "normalizeTopic (normalizeTopic t) = normalizeTopic t"
  by (simp add: normalizeTopic_def trim_toLowerCase trim_idem)

lemma is_event_normalized [simp]:
  "isCoreGameEvent (normalizeTopic t) = isCoreGameEvent t" "isRewardsEvent (normalizeTopic t) = isRewardsEvent t"
  "isAchievementsEvent (normalizeTopic t) = isAchievementsEvent t" "isAdminRegistryEvent (normalizeTopic t) = isAdminRegistryEvent t"
  by (simp_all add: isCoreGameEvent_def isRewardsEvent_def isAchievementsEvent_def isAdminRegistryEvent_def)

text \<open>Every route decodes alike: the families differ in nothing but their trace.\<close>

lemma decodeEvent_eq: "decodeEvent raw = parse_sdk_event raw"
  by (simp add: decodeEvent_def Let_def parse_sdk_event_def parseCoreGameEvent_def parseRewardsEvent_def
      parseAchievementsEvent_def parseAdminRegistryEvent_def)

definition trace_entry :: "int \<Rightarrow> trace_phase \<Rightarrow> string \<Rightarrow> string \<Rightarrow> EventDecodeTraceEntry" where
  "trace_entry now phase topic detail = \<lparr>te_phase = phase, te_topic = topic, te_detail = detail, te_timestamp = now\<rparr>"

lemma traceAdd_simps [simp]:
  "traceAdd now p t d None = None" "traceAdd now p t d (Some es) = Some (es @ [trace_entry now p t d])"
  by (simp_all add: traceAdd_def trace_entry_def)

text \<open>
  Decoding with a trace gives the event that decoding without one gives, whose topic is normalized and
  whose other fields are untouched; without a collector nothing is collected, and with one the
  entries it held are kept and followed by the normalization and one classification, which is a
  fallback exactly for a topic that belongs to no family.
\<close>

theorem trace_transparent:
  "fst (decodeEventWithTrace dash now raw trace) = decodeEvent raw \<and>
   decodeEvent raw = \<lparr>de_contractId = re_contractId raw, de_topic = normalizeTopic (re_topic raw), de_payload = re_value raw,
     de_ledger = re_ledger raw, de_txHash = re_txHash raw\<rparr> \<and>
   snd (decodeEventWithTrace dash now raw None) = None \<and>
   (\<exists>new. snd (decodeEventWithTrace dash now raw (Some es)) = Some (es @ new) \<and>
      map te_phase new = [Normalize, Classify] @ (if resolveEventFamily (re_topic raw) = unknown then [Fallback] else []))"
proof (intro conjI)
  show "fst (decodeEventWithTrace dash now raw trace) = decodeEvent raw"
    by (simp add: decodeEventWithTrace_def decodeEvent_def Let_def)
  show "decodeEvent raw = \<lparr>de_contractId = re_contractId raw, de_topic = normalizeTopic (re_topic raw), de_payload = re_value raw,
     de_ledger = re_ledger raw, de_txHash = re_txHash raw\<rparr>" by (simp add: decodeEvent_eq parse_sdk_event_def)
  show "snd (decodeEventWithTrace dash now raw None) = None" by (simp add: decodeEventWithTrace_def Let_def)
  show "\<exists>new. snd (decodeEventWithTrace dash now raw (Some es)) = Some (es @ new) \<and>
      map te_phase new = [Normalize, Classify] @ (if resolveEventFamily (re_topic raw) = unknown then [Fallback] else [])"
    by (simp add: decodeEventWithTrace_def resolveEventFamily_def Let_def trace_entry_def)
qed

text \<open>A topic belongs to one family at most.\<close>

lemma families_disjoint:
  "isCoreGameEvent t \<Longrightarrow> \<not> isRewardsEvent t \<and> \<not> isAchievementsEvent t \<and> \<not> isAdminRegistryEvent t"
  "isRewardsEvent t \<Longrightarrow> \<not> isAchievementsEvent t \<and> \<not> isAdminRegistryEvent t"
  "isAchievementsEvent t \<Longrightarrow> \<not> isAdminRegistryEvent t"
  by (auto simp: isCoreGameEvent_def isRewardsEvent_def isAchievementsEvent_def isAdminRegistryEvent_def
      core_game_topics_def rewards_topics_def achievements_topics_def admin_registry_topics_def)

text \<open>Every schema is filed under the family its topic is routed to, no topic has two, and a schema is found
  by its topic.\<close>

lemma schemas_routed: "\<forall>s \<in> set EVENT_SCHEMAS. resolveEventFamily (es_topic s) = es_family s \<and> getSchemaByTopic (es_topic s) = Some s"
proof -
  have n: "normalizeTopic ''session_started'' = ''session_started''" "normalizeTopic ''guess_submitted'' = ''guess_submitted''"
    "normalizeTopic ''session_finalized'' = ''session_finalized''" "normalizeTopic ''streak_updated'' = ''streak_updated''"
    "normalizeTopic ''claimed'' = ''claimed''" "normalizeTopic ''achievement_unlocked'' = ''achievement_unlocked''"
    by code_simp+
  show ?thesis
    by (simp add: EVENT_SCHEMAS_def getSchemaByTopic_def resolveEventFamily_def Let_def isCoreGameEvent_def isRewardsEvent_def
        isAchievementsEvent_def isAdminRegistryEvent_def n core_game_topics_def rewards_topics_def achievements_topics_def)
qed

end
