(* ===== verification/Indexer_Records.thy ===== *)
theory Indexer_Records
  imports Indexer_Service
begin

text \<open>
  What the indexer keeps and serves besides the projections: the audit trail
  (\<^verbatim>\<open>indexer/audit-trail.service.ts\<close>), the snapshots of the contract registry
  (\<^verbatim>\<open>indexer/registry/registry-snapshot.service.ts\<close>), the reward summary of a player
  (\<^verbatim>\<open>indexer/reward-summary.service.ts\<close>), and the worker whose ticks run the poll cycle
  (\<^verbatim>\<open>indexer/queue/indexer-worker.service.ts\<close>).
\<close>

section \<open>The audit trail\<close>

datatype AuditAction = REGISTRY_CHANGE | CONFIG_UPDATE | PAUSE | UNPAUSE | CURSOR_RESET | PROJECTIONS_RESET

record AuditTrailEntity =
  at_id :: "nat option"
  at_action :: AuditAction
  at_actor :: string
  at_details :: js_record
  at_targetResource :: "string option"
  at_network :: "string option"
  at_createdAt :: int

type_synonym audit_repo = "(AuditTrailEntity, js_error) repo"
type_synonym 'a audit_act = "(AuditTrailEntity list, js_error, 'a) act"

record AuditLogInput =
  al_action :: AuditAction
  al_actor :: "string option"
  al_details :: "js_record option"
  al_targetResource :: "string option"
  al_network :: "string option"

definition audit_entry :: "AuditLogInput \<Rightarrow> AuditTrailEntity" where
  "audit_entry input = \<lparr>at_id = None, at_action = al_action input,
     at_actor = (case al_actor input of None \<Rightarrow> ''system'' | Some a \<Rightarrow> a),
     at_details = (case al_details input of None \<Rightarrow> [] | Some d \<Rightarrow> d),
     at_targetResource = al_targetResource input, at_network = al_network input, at_createdAt = 0\<rparr>"

definition audit_trail_log :: "audit_repo \<Rightarrow> AuditLogInput \<Rightarrow> AuditTrailEntity audit_act" where
  "audit_trail_log R input = r_save R (audit_entry input)"

record AuditQueryInput =
  aq_action :: "AuditAction option"
  aq_actor :: "string option"
  aq_network :: "string option"
  aq_limit :: "int option"
  aq_offset :: "int option"

definition audit_limit :: "AuditQueryInput \<Rightarrow> nat" where
  "audit_limit input = nat (min (max (case aq_limit input of None \<Rightarrow> 50 | Some n \<Rightarrow> n) 1) 200)"

definition audit_offset :: "AuditQueryInput \<Rightarrow> nat" where
  "audit_offset input = nat (max (case aq_offset input of None \<Rightarrow> 0 | Some n \<Rightarrow> n) 0)"

text \<open>The conditions the query builder collects; an empty string adds none.\<close>

definition audit_matches :: "AuditQueryInput \<Rightarrow> AuditTrailEntity \<Rightarrow> bool" where
  "audit_matches input e =
    ((case aq_action input of None \<Rightarrow> True | Some a \<Rightarrow> at_action e = a) \<and>
     (case config_value (aq_actor input) of None \<Rightarrow> True | Some a \<Rightarrow> at_actor e = a) \<and>
     (case config_value (aq_network input) of None \<Rightarrow> True | Some n \<Rightarrow> at_network e = Some n))"

definition audit_query :: "audit_repo \<Rightarrow> AuditQueryInput \<Rightarrow> (AuditTrailEntity list \<times> nat) audit_act" where
  "audit_query R input = act_bind (r_find R (audit_matches input) (\<lambda>a b. at_createdAt a < at_createdAt b)) (\<lambda>rows.
     act_ret (take (audit_limit input) (drop (audit_offset input) rows), length rows))"

definition audit_findById :: "audit_repo \<Rightarrow> nat \<Rightarrow> AuditTrailEntity option audit_act" where
  "audit_findById R i = r_findOne R (\<lambda>e. at_id e = Some i)"

section \<open>Registry snapshots\<close>

record RegistrySnapshotEntity =
  rg_id :: "nat option"
  rg_network :: string
  rg_contractId :: string
  rg_registry :: js_record
  rg_capturedAtLedger :: int
  rg_updatedAt :: int

type_synonym snapshot_repo = "(RegistrySnapshotEntity, js_error) repo"

record RegistrySnapshotInput =
  si_network :: string
  si_contractId :: string
  si_registry :: js_record
  si_capturedAtLedger :: "int option"

record snapshot_state =
  sn_snapshots :: "RegistrySnapshotEntity list"
  sn_audit :: "AuditTrailEntity list"

type_synonym 'a snapshot_act = "(snapshot_state, js_error, 'a) act"

definition on_snapshots :: "(RegistrySnapshotEntity list, js_error, 'a) act \<Rightarrow> 'a snapshot_act" where
  "on_snapshots = zoom sn_snapshots (\<lambda>t s. s\<lparr>sn_snapshots := t\<rparr>)"

definition on_audit :: "'a audit_act \<Rightarrow> 'a snapshot_act" where
  "on_audit = zoom sn_audit (\<lambda>t s. s\<lparr>sn_audit := t\<rparr>)"

definition new_snapshot :: "RegistrySnapshotInput \<Rightarrow> RegistrySnapshotEntity option \<Rightarrow> RegistrySnapshotEntity" where
  "new_snapshot input existing = \<lparr>rg_id = Option.bind existing rg_id, rg_network = si_network input,
     rg_contractId = si_contractId input, rg_registry = si_registry input,
     rg_capturedAtLedger = (case si_capturedAtLedger input of Some l \<Rightarrow> l
       | None \<Rightarrow> (case existing of Some e \<Rightarrow> rg_capturedAtLedger e | None \<Rightarrow> 0)),
     rg_updatedAt = 0\<rparr>"

definition snapshot_audit :: "RegistrySnapshotInput \<Rightarrow> RegistrySnapshotEntity \<Rightarrow> AuditLogInput" where
  "snapshot_audit input saved = \<lparr>al_action = REGISTRY_CHANGE, al_actor = Some ''indexer'',
     al_details = Some [(''capturedAtLedger'', Num (num (rg_capturedAtLedger saved))),
       (''registryKeys'', Arr (map (\<lambda>(k, _). Str k) (si_registry input)))],
     al_targetResource = Some (si_contractId input), al_network = Some (si_network input)\<rparr>"

definition save_snapshot :: "snapshot_repo \<Rightarrow> audit_repo \<Rightarrow> RegistrySnapshotInput \<Rightarrow> RegistrySnapshotEntity snapshot_act" where
  "save_snapshot R A input =
    act_bind (on_snapshots (r_findOne R (\<lambda>r. rg_network r = si_network input \<and> rg_contractId r = si_contractId input))) (\<lambda>existing.
      act_bind (on_snapshots (r_save R (new_snapshot input existing))) (\<lambda>saved.
        act_seq (on_audit (audit_trail_log A (snapshot_audit input saved))) (act_ret saved)))"

definition recently_updated :: "RegistrySnapshotEntity \<Rightarrow> RegistrySnapshotEntity \<Rightarrow> bool" where
  "recently_updated a b = (rg_updatedAt a < rg_updatedAt b)"

definition getLatest :: "snapshot_repo \<Rightarrow> string \<Rightarrow> string \<Rightarrow> (RegistrySnapshotEntity list, js_error, RegistrySnapshotEntity option) act" where
  "getLatest R network contractId =
    act_bind (r_find R (\<lambda>r. rg_network r = network \<and> rg_contractId r = contractId) recently_updated)
      (\<lambda>rows. act_ret (case rows of [] \<Rightarrow> None | r # _ \<Rightarrow> Some r))"

definition listByNetwork :: "snapshot_repo \<Rightarrow> string \<Rightarrow> (RegistrySnapshotEntity list, js_error, RegistrySnapshotEntity list) act" where
  "listByNetwork R network = r_find R (\<lambda>r. rg_network r = network) recently_updated"

section \<open>The reward summary\<close>

definition REWARD_MAX_ATTEMPTS :: jsnum where "REWARD_MAX_ATTEMPTS = num 6"
definition POINTS_PER_LOST_SESSION :: jsnum where "POINTS_PER_LOST_SESSION = num 0"

definition attemptsToPoints :: "jsnum \<Rightarrow> string \<Rightarrow> jsnum" where
  "attemptsToPoints attemptsUsed status =
    (if toLowerCase status \<noteq> ''won'' \<and> toLowerCase status \<noteq> ''finalized'' then POINTS_PER_LOST_SESSION
     else let clamped = num_max (num 1) (num_min attemptsUsed REWARD_MAX_ATTEMPTS)
       in num_add (num_sub REWARD_MAX_ATTEMPTS clamped) (num 1))"

datatype RewardFieldState = RewardAvailable | RewardPending | RewardUnavailable

record RewardSummary =
  rw_accrued :: jsnum
  rw_claimed :: jsnum
  rw_pendingClaim :: jsnum
  rw_sessionCount :: nat
  rw_state :: RewardFieldState
  rw_lastUpdatedAt :: "int option"

definition reward_points :: "SessionProjectionEntity list \<Rightarrow> jsnum" where
  "reward_points sessions = fold (\<lambda>s t. num_add t (attemptsToPoints (sp_attemptsUsed s) (sp_status s))) sessions (num 0)"

definition summarize :: "SessionProjectionEntity list \<Rightarrow> RewardSummary" where
  "summarize sessions = (case sessions of
      [] \<Rightarrow> \<lparr>rw_accrued = num 0, rw_claimed = num 0, rw_pendingClaim = num 0, rw_sessionCount = 0,
        rw_state = RewardUnavailable, rw_lastUpdatedAt = None\<rparr>
    | s # _ \<Rightarrow> \<lparr>rw_accrued = reward_points sessions, rw_claimed = num 0,
        rw_pendingClaim = num_sub (reward_points sessions) (num 0), rw_sessionCount = length sessions,
        rw_state = RewardPending, rw_lastUpdatedAt = sp_updatedAt s\<rparr>)"

definition session_newer :: "SessionProjectionEntity \<Rightarrow> SessionProjectionEntity \<Rightarrow> bool" where
  "session_newer a b = (case (sp_updatedAt a, sp_updatedAt b) of (Some x, Some y) \<Rightarrow> x < y | _ \<Rightarrow> False)"

definition getForPlayer :: "session_repo \<Rightarrow> string \<Rightarrow> string \<Rightarrow> RewardSummary session_act" where
  "getForPlayer R network player =
    act_bind (r_find R (\<lambda>s. sp_network s = network \<and> sp_player s = player \<and> sp_finalized s) session_newer)
      (\<lambda>sessions. act_ret (summarize sessions))"

section \<open>The worker\<close>

text \<open>A tick creates the cursor if there is none, reads the alert, and runs a poll cycle.\<close>

definition tick :: "('r, 'k) indexer_deps \<Rightarrow> (nat \<Rightarrow> int) \<Rightarrow> ('r, 'k, nat) indexer_act" where
  "tick D clock =
    act_seq (on_cursors (getOrCreate (d_cursors D) (network_of D) INDEXER_STREAM_CORE_GAME)) (poll D clock)"

section \<open>A snapshot is an upsert with one audit entry\<close>

definition rg_key :: "RegistrySnapshotEntity \<Rightarrow> string \<times> string" where
  "rg_key r = (rg_network r, rg_contractId r)"

definition rg_body :: "RegistrySnapshotEntity \<Rightarrow> RegistrySnapshotEntity" where
  "rg_body r = r\<lparr>rg_id := None, rg_updatedAt := 0\<rparr>"

definition at_body :: "AuditTrailEntity \<Rightarrow> AuditTrailEntity" where
  "at_body e = e\<lparr>at_id := None, at_createdAt := 0\<rparr>"

lemma rg_key_body: "rg_body a = rg_body b \<Longrightarrow> rg_key a = rg_key b"
  by (auto simp: rg_body_def rg_key_def dest: arg_cong [where f = rg_network] arg_cong [where f = rg_contractId])

lemma at_body_fields: "at_body e = at_body x \<Longrightarrow> at_action e = at_action x \<and> at_details e = at_details x \<and>
    at_targetResource e = at_targetResource x \<and> at_network e = at_network x \<and> at_actor e = at_actor x"
  by (cases e; cases x) (auto simp: at_body_def)

text \<open>The lookup and the save: nothing has happened, or the row is in place and the rest runs.\<close>

lemma store_snapshot:
  assumes R: "repo_ok rg_id rg_body R" and wf: "keyed rg_id rg_key (sn_snapshots s)"
    and k: "k = (si_network input, si_contractId input)" and old: "old = row_of rg_key k (sn_snapshots s)"
    and run: "act_bind (on_snapshots (r_findOne R (\<lambda>r. rg_network r = si_network input \<and> rg_contractId r = si_contractId input)))
      (\<lambda>existing. act_bind (on_snapshots (r_save R (new_snapshot input existing))) f) s = (r, s')"
  shows "(\<exists>e. r = Inl e) \<and> s' = s \<or>
    (\<exists>saved t. f saved (s\<lparr>sn_snapshots := t\<rparr>) = (r, s') \<and> keyed rg_id rg_key t \<and>
      rg_body saved = rg_body (new_snapshot input old) \<and> row_of rg_key k t = Some saved \<and>
      (\<forall>j. j \<noteq> k \<longrightarrow> row_of rg_key j t = row_of rg_key j (sn_snapshots s)))"
proof -
  let ?P = "\<lambda>r. rg_network r = si_network input \<and> rg_contractId r = si_contractId input"
  have P: "?P = (\<lambda>r. rg_key r = k)" by (simp add: rg_key_def k)
  obtain x t where f: "r_findOne R ?P (sn_snapshots s) = (x, t)" by fastforce
  have t: "t = sn_snapshots s" by (rule findOne_same [OF R f])
  have zf: "on_snapshots (r_findOne R ?P) s = (x, s)" by (simp add: on_snapshots_def zoom_def f t)
  show ?thesis
  proof (cases x)
    case (Inl e)
    then show ?thesis using run zf by auto
  next
    case (Inr found)
    have found: "found = old" using findOne_row_of [OF R wf, of k found t] f Inr unfolding P old by simp
    let ?n = "new_snapshot input old"
    have nk: "rg_key ?n = k" by (simp add: new_snapshot_def rg_key_def k)
    have npk: "rg_id ?n = Option.bind (row_of rg_key (rg_key ?n) (sn_snapshots s)) rg_id"
      unfolding nk by (simp add: new_snapshot_def old)
    obtain y t1 where w: "r_save R ?n (sn_snapshots s) = (y, t1)" by fastforce
    have zw: "on_snapshots (r_save R ?n) s = (y, s\<lparr>sn_snapshots := t1\<rparr>)"
      unfolding on_snapshots_def by (rule zoomI) (rule w)
    show ?thesis
    proof (cases y)
      case (Inl e)
      then have "t1 = sn_snapshots s" using save_throws [OF R] w by blast
      then show ?thesis using run zf zw Inl Inr found by auto
    next
      case (Inr saved)
      note U = save_upsert [OF R wf rg_key_body npk w [unfolded Inr], unfolded nk]
      show ?thesis using run zf zw U \<open>x = Inr found\<close> Inr found by auto
    qed
  qed
qed

lemma audit_added:
  assumes A: "repo_ok at_id at_body A" and l: "on_audit (audit_trail_log A (snapshot_audit input saved)) s = (z, s')"
  shows "sn_snapshots s' = sn_snapshots s \<and>
    (case z of Inl _ \<Rightarrow> sn_audit s' = sn_audit s
     | Inr e \<Rightarrow> set (sn_audit s') = insert e (set (sn_audit s)) \<and> at_action e = REGISTRY_CHANGE \<and>
         at_targetResource e = Some (si_contractId input) \<and> at_network e = Some (si_network input))"
proof -
  obtain t where a: "r_save A (audit_entry (snapshot_audit input saved)) (sn_audit s) = (z, t)" and s': "s' = s\<lparr>sn_audit := t\<rparr>"
    using l unfolding on_audit_def audit_trail_log_def by (auto dest!: zoomD)
  show ?thesis
  proof (cases z)
    case (Inl e)
    then show ?thesis using save_throws [OF A] a s' by auto
  next
    case (Inr e)
    have new: "at_id (audit_entry (snapshot_audit input saved)) = None" by (simp add: audit_entry_def)
    show ?thesis
      using save_new_set [OF A a [unfolded Inr] new] at_body_fields [OF save_returns(1) [OF A a [unfolded Inr]]] s'
      by (simp add: Inr audit_entry_def snapshot_audit_def)
  qed
qed

text \<open>
  Saving a snapshot replaces the row of its network and contract, or adds one, and touches no other row;
  the row holds the registry given and the ledger given, or the one it had, or zero; and exactly
  one audit entry is added, which names the contract.  When the snapshot cannot be stored, the
  trail is left alone; when the trail cannot be written, the snapshot is stored all the same.
\<close>

theorem save_snapshot_upserts:
  assumes R: "repo_ok rg_id rg_body R" and A: "repo_ok at_id at_body A"
    and wf: "keyed rg_id rg_key (sn_snapshots s)" and sv: "save_snapshot R A input s = (r, s')"
    and k: "k = (si_network input, si_contractId input)"
    and old: "old = row_of rg_key k (sn_snapshots s)"
  shows "keyed rg_id rg_key (sn_snapshots s') \<and>
    (\<forall>j. j \<noteq> k \<longrightarrow> row_of rg_key j (sn_snapshots s') = row_of rg_key j (sn_snapshots s)) \<and>
    (case r of
       Inr saved \<Rightarrow> row_of rg_key k (sn_snapshots s') = Some saved \<and> rg_body saved = rg_body (new_snapshot input old) \<and>
         (\<exists>e. set (sn_audit s') = insert e (set (sn_audit s)) \<and> at_action e = REGISTRY_CHANGE \<and>
            at_targetResource e = Some (si_contractId input) \<and> at_network e = Some (si_network input))
     | Inl _ \<Rightarrow> sn_audit s' = sn_audit s \<and>
         (sn_snapshots s' = sn_snapshots s \<or>
          (\<exists>saved. row_of rg_key k (sn_snapshots s') = Some saved \<and> rg_body saved = rg_body (new_snapshot input old))))"
proof -
  from store_snapshot [OF R wf k old sv [unfolded save_snapshot_def]] show ?thesis
  proof (elim disjE conjE exE)
    fix e assume "r = Inl e" "s' = s"
    then show ?thesis using wf by simp
  next
    fix saved t
    assume f: "act_seq (on_audit (audit_trail_log A (snapshot_audit input saved))) (act_ret saved) (s\<lparr>sn_snapshots := t\<rparr>) = (r, s')"
      and U: "keyed rg_id rg_key t" "rg_body saved = rg_body (new_snapshot input old)" "row_of rg_key k t = Some saved"
        "\<forall>j. j \<noteq> k \<longrightarrow> row_of rg_key j t = row_of rg_key j (sn_snapshots s)"
    obtain z s1 where l: "on_audit (audit_trail_log A (snapshot_audit input saved)) (s\<lparr>sn_snapshots := t\<rparr>) = (z, s1)" by fastforce
    then have "s' = s1 \<and> r = (case z of Inl e \<Rightarrow> Inl e | Inr _ \<Rightarrow> Inr saved)" using f by (cases z) (auto simp: act_ret_def)
    then show ?thesis using audit_added [OF A l] U by (cases z) auto
  qed
qed

text \<open>A snapshot taken at an earlier ledger replaces a later one: the ledger is not compared.\<close>

definition snapshot_at :: "int \<Rightarrow> RegistrySnapshotInput" where
  "snapshot_at l = \<lparr>si_network = ''testnet'', si_contractId = ''C1'', si_registry = [(''core_game'', Str ''C2'')],
     si_capturedAtLedger = Some l\<rparr>"

definition snapshot_mem :: snapshot_repo where
  "snapshot_mem = mem_repo rg_id (\<lambda>i r. r\<lparr>rg_id := Some i\<rparr>)"

definition audit_mem :: audit_repo where
  "audit_mem = mem_repo at_id (\<lambda>i e. e\<lparr>at_id := Some i\<rparr>)"

lemma snapshot_mem_ok: "repo_ok rg_id rg_body snapshot_mem" and audit_mem_ok: "repo_ok at_id at_body audit_mem"
  unfolding snapshot_mem_def audit_mem_def by (rule mem_repo_ok; simp add: rg_body_def at_body_def)+

definition after_newer :: snapshot_state where
  "after_newer = snd (save_snapshot snapshot_mem audit_mem (snapshot_at 90) \<lparr>sn_snapshots = [], sn_audit = []\<rparr>)"

lemma save_snapshot_upserts_witness:
  "\<exists>saved s'. save_snapshot snapshot_mem audit_mem (snapshot_at 50) after_newer = (Inr saved, s') \<and>
     map rg_capturedAtLedger (sn_snapshots after_newer) = [90] \<and>
     row_of rg_key (''testnet'', ''C1'') (sn_snapshots s') = Some saved \<and> rg_capturedAtLedger saved = 50"
proof -
  let ?k = "(si_network (snapshot_at 50), si_contractId (snapshot_at 50))"
  have rows: "\<exists>i. sn_snapshots after_newer = [\<lparr>rg_id = Some i, rg_network = ''testnet'', rg_contractId = ''C1'',
      rg_registry = [(''core_game'', Str ''C2'')], rg_capturedAtLedger = 90, rg_updatedAt = 0\<rparr>]"
    by (simp add: after_newer_def save_snapshot_def snapshot_mem_def audit_mem_def mem_repo_def mem_save_def on_snapshots_def
        on_audit_def audit_trail_log_def audit_entry_def snapshot_audit_def new_snapshot_def snapshot_at_def act_defs Let_def)
  then have wf: "keyed rg_id rg_key (sn_snapshots after_newer)" by (auto simp: keyed_def)
  obtain r s' where sv: "save_snapshot snapshot_mem audit_mem (snapshot_at 50) after_newer = (r, s')" by fastforce
  have ok: "\<exists>saved. r = Inr saved"
    using sv by (auto simp: save_snapshot_def snapshot_mem_def audit_mem_def mem_repo_def mem_save_def on_snapshots_def
        on_audit_def audit_trail_log_def act_defs Let_def split: option.splits)
  then obtain saved where r: "r = Inr saved" by blast
  note S = save_snapshot_upserts [OF snapshot_mem_ok audit_mem_ok wf sv refl refl]
  have b: "rg_body saved = rg_body (new_snapshot (snapshot_at 50) (row_of rg_key ?k (sn_snapshots after_newer)))"
    "row_of rg_key ?k (sn_snapshots s') = Some saved" using S unfolding r by auto
  have "rg_capturedAtLedger saved = 50" using arg_cong [where f = rg_capturedAtLedger, OF b(1)]
    by (simp add: rg_body_def new_snapshot_def snapshot_at_def)
  then show ?thesis using sv r b(2) rows by (auto simp: snapshot_at_def)
qed

section \<open>What a finalized session earns\<close>

lemma attemptsToPoints_range:
  assumes "num_isInteger a"
  shows "\<exists>i. attemptsToPoints a status = num i \<and> 0 \<le> i \<and> i \<le> 6"
proof -
  obtain j where j: "a = num j" using num_isIntegerE [OF assms] by blast
  show ?thesis
  proof (cases "toLowerCase status \<noteq> ''won'' \<and> toLowerCase status \<noteq> ''finalized''")
    case True
    then show ?thesis by (intro exI [of _ 0]) (simp add: attemptsToPoints_def POINTS_PER_LOST_SESSION_def)
  next
    case False
    have "num_max (num 1) (num_min a REWARD_MAX_ATTEMPTS) = num (max 1 (min j 6))"
      by (auto simp: j num_max_def num_min_def REWARD_MAX_ATTEMPTS_def max_def min_def)
    then have "attemptsToPoints a status = num (6 - max 1 (min j 6) + 1)"
      unfolding attemptsToPoints_def if_not_P [OF False] by (simp add: REWARD_MAX_ATTEMPTS_def Let_def)
    then show ?thesis by (intro exI [of _ "6 - max 1 (min j 6) + 1"]) simp
  qed
qed

lemma reward_points_acc:
  assumes "\<forall>s \<in> set ss. num_isInteger (sp_attemptsUsed s)"
  shows "\<exists>i. fold (\<lambda>s t. num_add t (attemptsToPoints (sp_attemptsUsed s) (sp_status s))) ss (num a) = num i \<and>
    a \<le> i \<and> i \<le> a + 6 * int (length ss)"
  using assms
proof (induction ss arbitrary: a)
  case Nil
  then show ?case by (intro exI [of _ a]) simp
next
  case (Cons s ss)
  then have "num_isInteger (sp_attemptsUsed s)" by simp
  then obtain i where i: "attemptsToPoints (sp_attemptsUsed s) (sp_status s) = num i" "0 \<le> i" "i \<le> 6"
    using attemptsToPoints_range by blast
  have "num_add (num a) (num i) = num (a + i)" by simp
  then show ?case using Cons.IH [of "a + i"] Cons.prems i by (auto simp: i(1))
qed

lemma reward_points_range:
  "\<forall>s \<in> set ss. num_isInteger (sp_attemptsUsed s) \<Longrightarrow>
     \<exists>i. reward_points ss = num i \<and> 0 \<le> i \<and> i \<le> 6 * int (length ss)"
  using reward_points_acc [of ss 0] by (simp add: reward_points_def)

text \<open>
  The summary of a player counts the finalized sessions of that player and no others, and credits at
  most six points for each; but a session whose event carried neither a status nor a number of
  attempts, which is how the contract's event is described, is projected with the status
  \<^verbatim>\<open>Finalized\<close> and no attempts, and earns the full six points, won or lost.
\<close>

theorem reward_summary_counts:
  assumes R: "repo_ok sp_id sp_body R" and whole: "\<forall>s \<in> set t. num_isInteger (sp_attemptsUsed s)"
    and g: "getForPlayer R network player t = (Inr w, t')"
    and bare: "get_prop (ev_payload e) ''status'' = Undef" "get_prop (ev_payload e) ''attemptsUsed'' = Undef"
  shows "t' = t \<and>
    rw_sessionCount w = length (filter (\<lambda>s. sp_network s = network \<and> sp_player s = player \<and> sp_finalized s) t) \<and>
    (\<exists>i. rw_accrued w = num i \<and> rw_pendingClaim w = num i \<and> 0 \<le> i \<and> i \<le> 6 * int (rw_sessionCount w)) \<and>
    (let p = create_projection h e sessionId old in attemptsToPoints (sp_attemptsUsed p) (sp_status p) = num 6)"
proof -
  let ?P = "\<lambda>s. sp_network s = network \<and> sp_player s = player \<and> sp_finalized s"
  obtain ss where f: "r_find R ?P session_newer t = (Inr ss, t')" and w: "w = summarize ss"
    using g by (auto simp: getForPlayer_def act_bind_returns act_ret_def)
  note F = find_returns [OF R f]
  have len: "length ss = length (filter ?P t)" using F(2) by (metis size_mset)
  have "set ss \<subseteq> set t" using F(2) by (metis filter_is_subset set_mset_mset)
  then obtain i where i: "reward_points ss = num i" "0 \<le> i" "i \<le> 6 * int (length ss)"
    using reward_points_range [of ss] whole by blast
  have acc: "\<exists>i. rw_accrued w = num i \<and> rw_pendingClaim w = num i \<and> 0 \<le> i \<and> i \<le> 6 * int (rw_sessionCount w)"
    using i by (cases ss) (auto simp: w summarize_def intro!: exI [of _ 0] exI [of _ i])
  have cnt: "rw_sessionCount w = length ss" by (cases ss) (simp_all add: w summarize_def)
  have st: "toLowerCase ''Finalized'' = ''finalized''" by code_simp
  have six: "attemptsToPoints (num 0) ''Finalized'' = num 6"
    by (simp add: attemptsToPoints_def st num_max_def num_min_def REWARD_MAX_ATTEMPTS_def)
  have "attemptsToPoints (sp_attemptsUsed (create_projection h e sessionId old)) (sp_status (create_projection h e sessionId old)) = num 6"
    using six bare by (simp add: create_projection_def readStringField_def)
  then show ?thesis using F(1) len cnt acc by simp
qed

definition session_mem :: session_repo where
  "session_mem = mem_repo sp_id (\<lambda>i p. p\<lparr>sp_id := Some i\<rparr>)"

lemma session_mem_ok: "repo_ok sp_id sp_body session_mem"
  unfolding session_mem_def by (rule mem_repo_ok) (simp_all add: sp_body_def)

definition bare_event :: IngestedEventDto where
  "bare_event = \<lparr>ev_network = ''testnet'', ev_contractId = ''C1'', ev_topic = ''session_finalized'', ev_txHash = ''t'', ev_ledger = num 5,
     ev_eventIndex = num 0, ev_payload = [(''sessionId'', Str ''s1''), (''player'', Str ''G1'')], ev_observedAt = 0\<rparr>"

definition bare_row :: SessionProjectionEntity where
  "bare_row = (create_projection plain_host bare_event ''s1'' None)\<lparr>sp_id := Some 1\<rparr>"

lemma bare_row_fields: "sp_attemptsUsed bare_row = num 0" "sp_network bare_row = ''testnet''" "sp_player bare_row = ''G1''" "sp_finalized bare_row"
  by (simp_all add: bare_row_def create_projection_def bare_event_def readStringField_def get_prop_def)

lemma reward_summary_counts_witness:
  "\<exists>w. getForPlayer session_mem ''testnet'' ''G1'' [bare_row] = (Inr w, [bare_row]) \<and> rw_sessionCount w = 1 \<and>
     attemptsToPoints (sp_attemptsUsed bare_row) (sp_status bare_row) = num 6"
proof -
  have bare: "get_prop (ev_payload bare_event) ''status'' = Undef" "get_prop (ev_payload bare_event) ''attemptsUsed'' = Undef"
    by (simp_all add: bare_event_def get_prop_def)
  have whole: "\<forall>s \<in> set [bare_row]. num_isInteger (sp_attemptsUsed s)" by (simp add: bare_row_fields)
  obtain w t' where g: "getForPlayer session_mem ''testnet'' ''G1'' [bare_row] = (Inr w, t')"
    by (simp add: getForPlayer_def session_mem_def mem_repo_def act_defs)
  note C = reward_summary_counts [OF session_mem_ok whole g bare, of plain_host "''s1''" None]
  have p: "sp_attemptsUsed (create_projection plain_host bare_event ''s1'' None) = sp_attemptsUsed bare_row"
    "sp_status (create_projection plain_host bare_event ''s1'' None) = sp_status bare_row" by (simp_all add: bare_row_def)
  have cnt: "filter (\<lambda>s. sp_network s = ''testnet'' \<and> sp_player s = ''G1'' \<and> sp_finalized s) [bare_row] = [bare_row]"
    by (simp add: bare_row_fields)
  show ?thesis using C g unfolding Let_def p cnt by simp
qed

end
