(* ===== verification/Sanitization.thy ===== *)
theory Sanitization
  imports Js_Values
begin

text \<open>
  What is stripped, masked and redacted: the request middleware
  (\<^verbatim>\<open>backend/src/common/middleware/sanitize.middleware.ts\<close>), the masking of sensitive fields before
  they are logged (\<^verbatim>\<open>common/audit-log-sanitizer.util.ts\<close>), and the redaction of wallet addresses in
  log texts (\<^verbatim>\<open>common/redaction.ts\<close>; the pattern of e-mail addresses there is not modelled).
\<close>

section \<open>Request bodies and queries\<close>

text \<open>\<^verbatim>\<open>replace(/<[^>]*>/g, '')\<close>: from the first \<^verbatim>\<open><\<close> with a \<^verbatim>\<open>>\<close> after it to that \<^verbatim>\<open>>\<close>, and on.\<close>

function strip_markup :: "string \<Rightarrow> string" where
  "strip_markup [] = []"
| "strip_markup (c # s) =
    (if c = CHR ''<'' \<and> CHR ''>'' \<in> set s then strip_markup (tl (dropWhile (\<lambda>x. x \<noteq> CHR ''>'') s))
     else c # strip_markup s)"
  by pat_completeness auto

termination
proof (relation "measure length")
  show "(tl (dropWhile (\<lambda>x. x \<noteq> CHR ''>'') s), c # s) \<in> measure length" for c s
    using length_dropWhile_le [of "\<lambda>x. x \<noteq> CHR ''>''" s] by simp
qed simp_all

text \<open>The entities that are decoded; a match in another letter case is put back as it is.\<close>

definition entity_map :: "(string \<times> string) list" where
  "entity_map = [(''&amp;'', ''&''), (''&lt;'', ''<''), (''&gt;'', ''>''), (''&quot;'', [CHR 0x22]), (''&#x27;'', [CHR 0x27]),
     (''&#x2F;'', ''/'')]"

definition entity_at :: "string \<Rightarrow> (string \<times> string) option" where
  "entity_at s = List.find (\<lambda>(e, r). take (length e) s = e) entity_map"

lemma entity_at_length: "entity_at s = Some (e, r) \<Longrightarrow> 0 < length e \<and> length e \<le> length s"
  unfolding entity_at_def entity_map_def
  by (auto split: if_splits dest!: arg_cong [where f = length] simp: min_def)

function decode_entities :: "string \<Rightarrow> string" where
  "decode_entities [] = []"
| "decode_entities (c # s) = (case entity_at (c # s) of
      Some (e, r) \<Rightarrow> r @ decode_entities (drop (length e) (c # s))
    | None \<Rightarrow> c # decode_entities s)"
  by pat_completeness auto

termination
  by (relation "measure length") (auto dest!: entity_at_length)

definition stripHtml :: "string \<Rightarrow> string" where
  "stripHtml str = trim (decode_entities (strip_markup str))"

fun sanitizeObject :: "js \<Rightarrow> js" where
  "sanitizeObject (Str s) = Str (stripHtml s)"
| "sanitizeObject (Arr xs) = Arr (map sanitizeObject xs)"
| "sanitizeObject (Obj r) = Obj (map (\<lambda>(k, v). (k, sanitizeObject v)) r)"
| "sanitizeObject x = x"

definition skipFields :: "string list" where
  "skipFields = [''password'', ''currentPassword'', ''newPassword'', ''confirmPassword'', ''token'', ''accessToken'',
     ''refreshToken'', ''secret'']"

definition sanitizeWithSkip :: "js_record \<Rightarrow> js_record" where
  "sanitizeWithSkip obj = map (\<lambda>(k, v). (k, if k \<in> set skipFields then v else sanitizeObject v)) obj"

text \<open>The members of an array are its indices, so an array becomes an object of them.\<close>

fun js_entries :: "js \<Rightarrow> js_record" where
  "js_entries (Obj r) = r"
| "js_entries (Arr xs) = map (\<lambda>(i, x). (show_nat i, x)) (enumerate 0 xs)"
| "js_entries _ = []"

record http_request =
  rq_body :: js
  rq_query :: js

fun sanitize_query :: "js \<Rightarrow> js" where
  "sanitize_query (Obj r) = Obj (map (\<lambda>(k, v). (k, case v of Str s \<Rightarrow> Str (stripHtml s) | _ \<Rightarrow> v)) r)"
| "sanitize_query x = x"

definition sanitize_request :: "http_request \<Rightarrow> http_request" where
  "sanitize_request req = req\<lparr>
     rq_body := (if truthy (rq_body req) \<and> js_typeof (rq_body req) = ''object'' then Obj (sanitizeWithSkip (js_entries (rq_body req)))
       else rq_body req),
     rq_query := sanitize_query (rq_query req)\<rparr>"

section \<open>Audit logs\<close>

definition SENSITIVE_KEYS :: "string list" where
  "SENSITIVE_KEYS = [''password'', ''passwordHash'', ''token'', ''accessToken'', ''refreshToken'', ''secret'', ''privateKey'',
     ''ssn'', ''creditCard'']"

definition MASK :: string where "MASK = ''***REDACTED***''"

fun sanitizeForAuditLog :: "js \<Rightarrow> js" where
  "sanitizeForAuditLog (Arr xs) = Arr (map sanitizeForAuditLog xs)"
| "sanitizeForAuditLog (Obj r) = Obj (map (\<lambda>(k, v). (k, if k \<in> set SENSITIVE_KEYS then Str MASK else sanitizeForAuditLog v)) r)"
| "sanitizeForAuditLog x = x"

section \<open>Log texts\<close>

definition alnum :: "char \<Rightarrow> bool" where
  "alnum c \<longleftrightarrow> is_letter c \<or> is_digit c"

definition redactWalletAddress :: "string \<Rightarrow> string" where
  "redactWalletAddress address =
    (if length address < 8 then ''****'' else take 4 address @ ''****'' @ drop (length address - 4) address)"

text \<open>\<^verbatim>\<open>replace(/[A-Za-z0-9]{20,}/g, redact)\<close>: the longest runs of letters and digits, when they are long enough.\<close>

function redactWalletAddresses :: "string \<Rightarrow> string" where
  "redactWalletAddresses [] = []"
| "redactWalletAddresses (c # s) =
    (if \<not> alnum c then c # redactWalletAddresses s
     else let run = takeWhile alnum (c # s); rest = dropWhile alnum (c # s)
       in (if length run \<ge> 20 then redactWalletAddress run else run) @ redactWalletAddresses rest)"
  by pat_completeness auto

termination
  by (relation "measure length") (auto simp: less_Suc_eq_le length_dropWhile_le)

definition sanitizeLogPayload :: "js_record \<Rightarrow> js_record" where
  "sanitizeLogPayload r = map (\<lambda>(k, v). (k, case v of
      Str s \<Rightarrow> Str (redactWalletAddresses s)
    | _ \<Rightarrow> if k = ''error'' \<or> k = ''stack'' then Str ''[redacted]'' else v)) r"

section \<open>Markup\<close>

text \<open>A text has markup when a \<^verbatim>\<open><\<close> has a \<^verbatim>\<open>>\<close> after it.\<close>

fun has_markup :: "string \<Rightarrow> bool" where
  "has_markup [] = False"
| "has_markup (c # s) = (c = CHR ''<'' \<and> CHR ''>'' \<in> set s \<or> has_markup s)"

lemma set_strip_markup: "set (strip_markup s) \<subseteq> set s"
proof (induction s rule: strip_markup.induct)
  case (2 c s)
  have tl: "set (tl xs) \<subseteq> set xs" for xs :: string by (cases xs) auto
  have "set (tl (dropWhile (\<lambda>x. x \<noteq> CHR ''>'') s)) \<subseteq> set s"
    by (rule subset_trans [OF tl]) (auto dest: set_dropWhileD)
  then show ?case using 2 by auto
qed simp

lemma strip_markup_none: "\<not> has_markup (strip_markup s)"
proof (induction s rule: strip_markup.induct)
  case (2 c s)
  then show ?case using set_strip_markup [of s] by auto
qed simp

lemma has_markup_append: "has_markup (xs @ ys) \<longleftrightarrow> has_markup xs \<or> has_markup ys \<or> CHR ''<'' \<in> set xs \<and> CHR ''>'' \<in> set ys"
  by (induction xs) auto

lemma dropWhile_suffix: "\<exists>ys. s = ys @ dropWhile P s"
  by (metis takeWhile_dropWhile_id)

lemma has_markup_trim: "has_markup (trim s) \<Longrightarrow> has_markup s"
proof -
  obtain ys where a: "s = ys @ trim_left s" using dropWhile_suffix unfolding trim_left_def by blast
  obtain zs where "rev (trim_left s) = zs @ trim_left (rev (trim_left s))" using dropWhile_suffix unfolding trim_left_def by blast
  then have "trim_left s = trim s @ rev zs" unfolding trim_def by (metis rev_append rev_rev_ident)
  then have "s = ys @ trim s @ rev zs" using a by simp
  then show "has_markup (trim s) \<Longrightarrow> has_markup s" by (metis has_markup_append)
qed

lemma entity_ampersand: "entity_at (c # s) = Some (e, r) \<Longrightarrow> c = CHR ''&''"
  by (cases s) (auto simp: entity_at_def entity_map_def split: if_splits)

lemma decode_plain: "CHR ''&'' \<notin> set s \<Longrightarrow> decode_entities s = s"
proof (induction s)
  case (Cons c s)
  have "entity_at (c # s) = None"
  proof (cases "entity_at (c # s)")
    case (Some x)
    then obtain e r where "entity_at (c # s) = Some (e, r)" by (cases x) auto
    then have "c = CHR ''&''" by (rule entity_ampersand)
    then show ?thesis using Cons.prems by simp
  qed
  then show ?case using Cons by simp
qed simp

text \<open>A text with its angle brackets written as entities.\<close>

definition encode_brackets :: "string \<Rightarrow> string" where
  "encode_brackets s = concat (map (\<lambda>c. if c = CHR ''<'' then ''&lt;'' else if c = CHR ''>'' then ''&gt;'' else [c]) s)"

lemma encode_no_brackets: "set (encode_brackets s) \<inter> {CHR ''<'', CHR ''>''} = {}"
  by (induction s) (auto simp: encode_brackets_def)

lemma strip_markup_plain: "CHR ''<'' \<notin> set s \<Longrightarrow> strip_markup s = s"
  by (induction s) auto

lemma entity_lt: "entity_at (''&lt;'' @ s) = Some (''&lt;'', ''<'')" and entity_gt: "entity_at (''&gt;'' @ s) = Some (''&gt;'', ''>'')"
  by (simp_all add: entity_at_def entity_map_def)

lemma decode_encoded: "CHR ''&'' \<notin> set s \<Longrightarrow> decode_entities (encode_brackets s) = s"
proof (induction s)
  case (Cons c s)
  have e: "encode_brackets (c # s) = (if c = CHR ''<'' then ''&lt;'' else if c = CHR ''>'' then ''&gt;'' else [c]) @ encode_brackets s"
    by (simp add: encode_brackets_def)
  have "c \<noteq> CHR ''&''" using Cons.prems by auto
  then have "entity_at (c # encode_brackets s) = None"
    using entity_ampersand by (cases "entity_at (c # encode_brackets s)") auto
  then show ?case
    using Cons entity_lt [of "encode_brackets s"] entity_gt [of "encode_brackets s"] unfolding e by simp
qed (simp add: encode_brackets_def)

text \<open>
  A text without an ampersand loses all its markup; but the entities are decoded after the markup was
  removed, so for every text without an ampersand, markup included, there is an input that the
  middleware turns into exactly that text, up to the white space around it: whatever the filter
  removes can be sent in another form.
\<close>

theorem stripHtml_markup:
  assumes "CHR ''&'' \<notin> set s"
  shows "\<not> has_markup (stripHtml s) \<and>
    \<not> has_markup (encode_brackets s) \<and> stripHtml (encode_brackets s) = trim s"
proof (intro conjI)
  have "CHR ''&'' \<notin> set (strip_markup s)" using set_strip_markup assms by blast
  then have "stripHtml s = trim (strip_markup s)" by (simp add: stripHtml_def decode_plain)
  then show "\<not> has_markup (stripHtml s)" using strip_markup_none has_markup_trim by metis
  have n: "CHR ''<'' \<notin> set (encode_brackets s)" using encode_no_brackets [of s] by blast
  then show "\<not> has_markup (encode_brackets s)"
    using strip_markup_none [of "encode_brackets s"] by (simp add: strip_markup_plain)
  show "stripHtml (encode_brackets s) = trim s"
    by (simp add: stripHtml_def strip_markup_plain [OF n] decode_encoded [OF assms])
qed

lemma stripHtml_markup_witness: "stripHtml (encode_brackets ''<img src=x onerror=f()>'') = ''<img src=x onerror=f()>''"
proof -
  have "trim ''<img src=x onerror=f()>'' = ''<img src=x onerror=f()>''" by code_simp
  then show ?thesis using stripHtml_markup [of "''<img src=x onerror=f()>''"] by simp
qed

section \<open>Masking\<close>

text \<open>A sensitive field that is not masked, at any depth.\<close>

fun exposes :: "js \<Rightarrow> bool" where
  "exposes (Arr xs) = (\<exists>x \<in> set xs. exposes x)"
| "exposes (Obj r) = (\<exists>p \<in> set r. if fst p \<in> set SENSITIVE_KEYS then snd p \<noteq> Str MASK else exposes (snd p))"
| "exposes _ = False"

lemma sanitize_not_exposes: "\<not> exposes (sanitizeForAuditLog x)"
  by (induction x rule: sanitizeForAuditLog.induct) auto

lemma not_exposes_same: "\<not> exposes x \<Longrightarrow> sanitizeForAuditLog x = x"
proof (induction x rule: sanitizeForAuditLog.induct)
  case (1 xs)
  then show ?case by (auto intro: map_idI)
next
  case (2 r)
  have "(case p of (k, v) \<Rightarrow> (k, if k \<in> set SENSITIVE_KEYS then Str MASK else sanitizeForAuditLog v)) = p" if "p \<in> set r" for p
    using 2 that by (cases p) (auto split: if_splits)
  then show ?case by (simp add: map_idI)
qed simp_all

text \<open>
  No sensitive field of a logged value, however deeply it is nested in objects and arrays, keeps its
  value; a value without such a field is logged as it is, so that masking again changes nothing;
  and the fields of an object keep their names and order.
\<close>

theorem audit_log_masked:
  "\<not> exposes (sanitizeForAuditLog x) \<and> (sanitizeForAuditLog x = x \<longleftrightarrow> \<not> exposes x) \<and>
   sanitizeForAuditLog (sanitizeForAuditLog x) = sanitizeForAuditLog x \<and>
   (\<exists>r'. sanitizeForAuditLog (Obj r) = Obj r' \<and> map fst r' = map fst r)"
  using sanitize_not_exposes [of x] not_exposes_same not_exposes_same [OF sanitize_not_exposes [of x]]
  by (auto simp: comp_def case_prod_unfold)

section \<open>Redaction\<close>

text \<open>Whether \<^verbatim>\<open>n\<close> letters and digits follow each other somewhere.\<close>

fun long_run :: "nat \<Rightarrow> string \<Rightarrow> bool" where
  "long_run n [] = (n = 0)"
| "long_run n (c # s) = (n \<le> length (takeWhile alnum (c # s)) \<or> long_run n s)"

lemma long_run_append:
  "list_all alnum xs \<Longrightarrow> ys = [] \<or> \<not> alnum (hd ys) \<Longrightarrow> 0 < n \<Longrightarrow> long_run n (xs @ ys) \<longleftrightarrow> n \<le> length xs \<or> long_run n ys"
proof (induction xs)
  case (Cons x xs)
  have "takeWhile alnum (xs @ ys) = xs"
    using Cons.prems by (cases ys) (auto simp: takeWhile_append2 list_all_iff takeWhile_eq_all_conv)
  then show ?case using Cons by auto
qed simp

lemma redact_front: "redactWalletAddresses s = [] \<and> s = [] \<or> s \<noteq> [] \<and> redactWalletAddresses s \<noteq> [] \<and> alnum (hd (redactWalletAddresses s)) = alnum (hd s)"
proof (cases s)
  case (Cons c t)
  have "length (take 4 (takeWhile alnum (c # t))) > 0" if "alnum c" using that by simp
  then show ?thesis using Cons by (auto simp: Let_def redactWalletAddress_def hd_append)
qed simp

lemma redact_run_short:
  assumes "list_all alnum run" "20 \<le> length run" "ys = [] \<or> \<not> alnum (hd ys)" "\<not> long_run 20 ys"
  shows "\<not> long_run 20 (redactWalletAddress run @ ys)"
proof -
  let ?d = "drop (length run - 4) run"
  have star: "\<not> alnum (CHR ''*'')" by (simp add: alnum_def is_letter_def char_in_def is_digit_def char_between)
  have a: "list_all alnum (take 4 run)" "list_all alnum ?d" using assms(1) by (auto simp: list_all_iff dest: in_set_takeD in_set_dropD)
  have "\<not> long_run 20 (?d @ ys)" using long_run_append [OF a(2) assms(3), of 20] assms(2,4) by simp
  then have s: "\<not> long_run 20 (''****'' @ ?d @ ys)" using star by simp
  have "\<not> long_run 20 (take 4 run @ ''****'' @ ?d @ ys)"
    using long_run_append [OF a(1), of "''****'' @ ?d @ ys" 20] star s by simp
  then show ?thesis using assms(2) by (simp add: redactWalletAddress_def)
qed

lemma redact_no_long_run: "\<not> long_run 20 (redactWalletAddresses s)"
proof (induction s rule: redactWalletAddresses.induct)
  case (2 c s)
  show ?case
  proof (cases "alnum c")
    case False
    then show ?thesis using 2 by simp
  next
    case True
    let ?run = "takeWhile alnum (c # s)" and ?rest = "dropWhile alnum (c # s)"
    have IH: "\<not> long_run 20 (redactWalletAddresses ?rest)" using 2(2) True by blast
    have "?rest = [] \<or> \<not> alnum (hd ?rest)" by (rule dropWhile_hd)
    then have front: "redactWalletAddresses ?rest = [] \<or> \<not> alnum (hd (redactWalletAddresses ?rest))"
      using redact_front [of ?rest] by auto
    have run: "list_all alnum ?run" by (simp add: list_all_iff del: takeWhile.simps) (meson set_takeWhileD)
    have eq: "redactWalletAddresses (c # s) =
        (if length ?run \<ge> 20 then redactWalletAddress ?run else ?run) @ redactWalletAddresses ?rest"
      using True by (simp only: redactWalletAddresses.simps Let_def not_not not_True_eq_False if_False simp_thms)
    show ?thesis
    proof (cases "length ?run \<ge> 20")
      case True
      then show ?thesis unfolding eq if_P [OF True] by (rule redact_run_short [OF run _ front IH])
    next
      case False
      then show ?thesis unfolding eq if_not_P [OF False] using long_run_append [OF run front, of 20] IH by simp
    qed
  qed
qed simp

end
