(* ===== verification/Client_Words.thy ===== *)
theory Client_Words
  imports Wordle_Engine
begin

text \<open>
  The guesses of the web client (\<^verbatim>\<open>frontend/src/lib/word-validation.ts\<close>): the check of a guess, the
  marks the client computes itself, and hard mode.  The client scans the target for a copy that no
  other letter has taken, where the engine keeps a table of counts; the marks are shown to be the
  same.  Hard mode is characterized by what the earlier guesses revealed, and admits the solution.
\<close>

section \<open>Checking a guess\<close>

record ValidationResult =
  vr_isValid :: bool
  vr_error :: "string option"

abbreviation accepted :: ValidationResult where
  "accepted \<equiv> \<lparr>vr_isValid = True, vr_error = None\<rparr>"

abbreviation refused :: "string \<Rightarrow> ValidationResult" where
  "refused e \<equiv> \<lparr>vr_isValid = False, vr_error = Some e\<rparr>"

definition WORD_LENGTH :: nat where "WORD_LENGTH = 5"

text \<open>\<^verbatim>\<open>/^[A-Z]+$/\<close>\<close>

definition VALID_LETTERS :: "string \<Rightarrow> bool" where
  "VALID_LETTERS s \<longleftrightarrow> s \<noteq> [] \<and> list_all (char_in (CHR ''A'') (CHR ''Z'')) s"

definition validateGuess :: "string \<Rightarrow> string list \<Rightarrow> ValidationResult" where
  "validateGuess guess validWords =
    (let normalizedGuess = toUpperCase (trim guess) in
     if normalizedGuess = [] then refused ''Guess cannot be empty''
     else if length normalizedGuess \<noteq> WORD_LENGTH
     then refused (''Guess must be exactly '' @ show_nat WORD_LENGTH @ '' letters. Got '' @ show_nat (length normalizedGuess) @ ''.'')
     else if \<not> VALID_LETTERS normalizedGuess then refused ''Guess must contain only letters A-Z''
     else if normalizedGuess \<notin> set (map (\<lambda>word. toUpperCase (trim word)) validWords)
     then refused ([CHR 0x22] @ normalizedGuess @ [CHR 0x22] @ '' is not a valid word'')
     else accepted)"

section \<open>Marking a guess\<close>

text \<open>The two arrays the loops update: the marks and the letters of the target already taken.\<close>

type_synonym marking = "LetterStatus list \<times> bool list"

definition exact_step :: "string \<Rightarrow> string \<Rightarrow> nat \<Rightarrow> marking \<Rightarrow> marking" where
  "exact_step gs ts i = (\<lambda>(result, used).
     if i < length ts \<and> gs ! i = ts ! i then (result[i := Correct], used[i := True]) else (result, used))"

definition present_step :: "string \<Rightarrow> string \<Rightarrow> nat \<Rightarrow> marking \<Rightarrow> marking" where
  "present_step gs ts i = (\<lambda>(result, used).
     if result ! i = Correct then (result, used)
     else case List.find (\<lambda>j. \<not> used ! j \<and> gs ! i = ts ! j) [0..<length ts] of
         Some j \<Rightarrow> (result[i := Present], used[j := True])
       | None \<Rightarrow> (result, used))"

definition calculateLetterStatuses :: "string \<Rightarrow> string \<Rightarrow> LetterStatus list" where
  "calculateLetterStatuses guess targetWord =
    (let ts = toUpperCase targetWord; gs = toUpperCase guess;
         start = (replicate (length guess) Absent, replicate (length ts) False)
     in fst (fold (present_step gs ts) [0..<length gs] (fold (exact_step gs ts) [0..<length gs] start)))"

definition isGameWon :: "LetterStatus list \<Rightarrow> bool" where
  "isGameWon statuses \<longleftrightarrow> list_all (\<lambda>s. s = Correct) statuses"

section \<open>Hard mode\<close>

record EvaluatedGuess =
  eg_guess :: string
  eg_statuses :: "LetterStatus list"

definition ordinal :: "nat \<Rightarrow> string" where
  "ordinal n = show_nat n @ (if n = 1 then ''st'' else if n = 2 then ''nd'' else if n = 3 then ''rd'' else ''th'')"

text \<open>An element of an array, \<^verbatim>\<open>undefined\<close> past its end.\<close>

definition elem :: "'a list \<Rightarrow> nat \<Rightarrow> 'a option" where
  "elem xs i = (if i < length xs then Some (xs ! i) else None)"

definition letter_text :: "char option \<Rightarrow> string" where
  "letter_text c = (case c of None \<Rightarrow> ''undefined'' | Some x \<Rightarrow> [x])"

definition moved_letter :: "string \<Rightarrow> EvaluatedGuess \<Rightarrow> string option" where
  "moved_letter letters p =
    (let priorLetters = toUpperCase (eg_guess p) in
     map_option (\<lambda>i. ''Hard mode: '' @ ordinal (i + 1) @ '' letter must be '' @ letter_text (elem priorLetters i))
       (List.find (\<lambda>i. eg_statuses p ! i = Correct \<and> elem letters i \<noteq> elem priorLetters i) [0..<length (eg_statuses p)]))"

text \<open>The letters a guess revealed, with the number of their marks.\<close>

definition revealed_at :: "EvaluatedGuess \<Rightarrow> nat \<Rightarrow> bool" where
  "revealed_at p i \<longleftrightarrow> elem (eg_statuses p) i = Some Correct \<or> elem (eg_statuses p) i = Some Present"

definition count_letter :: "char \<Rightarrow> (char, nat) jmap \<Rightarrow> (char, nat) jmap" where
  "count_letter l m = jm_set l (case jm_get l m of None \<Rightarrow> 1 | Some n \<Rightarrow> n + 1) m"

definition revealed_counts :: "EvaluatedGuess \<Rightarrow> (char, nat) jmap" where
  "revealed_counts p =
    (let priorLetters = toUpperCase (eg_guess p) in
     fold (\<lambda>i m. if revealed_at p i then count_letter (priorLetters ! i) m else m) [0..<length priorLetters] [])"

definition raise_required :: "char \<times> nat \<Rightarrow> (char, nat) jmap \<Rightarrow> (char, nat) jmap" where
  "raise_required = (\<lambda>(l, n) m. jm_set l (max (case jm_get l m of None \<Rightarrow> 0 | Some k \<Rightarrow> k) n) m)"

definition required_letters :: "EvaluatedGuess list \<Rightarrow> (char, nat) jmap" where
  "required_letters ps = fold (\<lambda>p. fold raise_required (revealed_counts p)) ps []"

definition missing_text :: "char \<times> nat \<Rightarrow> string" where
  "missing_text = (\<lambda>(l, n). if n > 1 then ''Hard mode: guess must contain '' @ [l] @ '' '' @ show_nat n @ '' times''
     else ''Hard mode: guess must contain '' @ [l])"

definition validateHardModeGuess :: "string \<Rightarrow> EvaluatedGuess list \<Rightarrow> ValidationResult" where
  "validateHardModeGuess guess previousGuesses =
    (let letters = toUpperCase (trim guess) in
     case List.find (\<lambda>p. moved_letter letters p \<noteq> None) previousGuesses of
       Some p \<Rightarrow> refused (the (moved_letter letters p))
     | None \<Rightarrow>
        (case List.find (\<lambda>(l, n). length (filter (\<lambda>x. x = l) letters) < n) (required_letters previousGuesses) of
           Some r \<Rightarrow> refused (missing_text r)
         | None \<Rightarrow> accepted))"

section \<open>The marks are those of the engine\<close>

lemma exact_steps:
  assumes "k \<le> length gs" "length ts = length gs"
  shows "case fold (exact_step gs ts) [0..<k] (replicate (length gs) Absent, replicate (length ts) False) of (r, u) \<Rightarrow>
    length r = length gs \<and> length u = length gs \<and>
    (\<forall>i < length gs. r ! i = (if i < k \<and> gs ! i = ts ! i then Correct else Absent) \<and> u ! i = (i < k \<and> gs ! i = ts ! i))"
  using assms(1)
proof (induction k)
  case (Suc k)
  obtain r u where ru: "fold (exact_step gs ts) [0..<k] (replicate (length gs) Absent, replicate (length ts) False) = (r, u)" by fastforce
  have IH: "length r = length gs" "length u = length gs"
    "\<And>i. i < length gs \<Longrightarrow> r ! i = (if i < k \<and> gs ! i = ts ! i then Correct else Absent) \<and> u ! i = (i < k \<and> gs ! i = ts ! i)"
    using Suc ru by auto
  have step: "fold (exact_step gs ts) [0..<Suc k] (replicate (length gs) Absent, replicate (length ts) False) = exact_step gs ts k (r, u)"
    using ru by simp
  show ?case unfolding step using IH Suc.prems assms(2) by (auto simp: exact_step_def nth_list_update less_Suc_eq)
qed (use assms(2) in simp)

text \<open>The copies of a letter that are still free, and the letters before a position that competed for one.\<close>

definition free_copies :: "string \<Rightarrow> bool list \<Rightarrow> char \<Rightarrow> nat set" where
  "free_copies ts used c = {j. j < length ts \<and> \<not> used ! j \<and> ts ! j = c}"

definition misses :: "string \<Rightarrow> string \<Rightarrow> nat \<Rightarrow> char \<Rightarrow> nat" where
  "misses gs ts k c = length (filter (\<lambda>(a, b). a = c \<and> a \<noteq> b) (take k (zip gs ts)))"

lemma free_copies_take:
  "\<not> used ! j \<Longrightarrow> j < length ts \<Longrightarrow> length used = length ts \<Longrightarrow>
   card (free_copies ts (used[j := True]) c) = card (free_copies ts used c) - (if ts ! j = c then 1 else 0)"
proof -
  assume a: "\<not> used ! j" "j < length ts" "length used = length ts"
  have "free_copies ts (used[j := True]) c = free_copies ts used c - {j}"
    using a by (auto simp: free_copies_def nth_list_update)
  moreover have "j \<in> free_copies ts used c \<longleftrightarrow> ts ! j = c" using a by (auto simp: free_copies_def)
  moreover have "finite (free_copies ts used c)" by (simp add: free_copies_def)
  ultimately show ?thesis by (simp add: card_Diff_singleton_if)
qed

lemma misses_Suc:
  "k < length gs \<Longrightarrow> length ts = length gs \<Longrightarrow>
   misses gs ts (Suc k) c = misses gs ts k c + (if gs ! k = c \<and> gs ! k \<noteq> ts ! k then 1 else 0)"
  by (auto simp: misses_def take_Suc_conv_app_nth)

definition marked :: "string \<Rightarrow> string \<Rightarrow> nat \<Rightarrow> marking \<Rightarrow> bool" where
  "marked gs ts k = (\<lambda>(r, u). length r = length gs \<and> length u = length gs \<and>
     (\<forall>i < length gs. r ! i = (if i < k then spec_status gs ts i else if gs ! i = ts ! i then Correct else Absent)) \<and>
     (\<forall>c. card (free_copies ts u c) = unmatched gs ts c - misses gs ts k c))"

lemma spec_status_misses: "spec_status gs ts i = (if gs ! i = ts ! i then Correct
    else if misses gs ts i (gs ! i) < unmatched gs ts (gs ! i) then Present else Absent)"
  by (simp add: spec_status_def earlier_misses_def misses_def)

lemma present_step_marked:
  assumes m: "marked gs ts k (r, u)" and k: "k < length gs" and len: "length ts = length gs"
  shows "marked gs ts (Suc k) (present_step gs ts k (r, u))"
proof -
  have L: "length r = length gs" "length u = length gs"
    and R: "\<And>i. i < length gs \<Longrightarrow> r ! i = (if i < k then spec_status gs ts i else if gs ! i = ts ! i then Correct else Absent)"
    and F: "\<And>c. card (free_copies ts u c) = unmatched gs ts c - misses gs ts k c"
    using m by (auto simp: marked_def)
  let ?P = "\<lambda>j. \<not> u ! j \<and> gs ! k = ts ! j"
  show ?thesis
  proof (cases "gs ! k = ts ! k")
    case True
    then have "present_step gs ts k (r, u) = (r, u)" using R [OF k] by (simp add: present_step_def)
    then show ?thesis using L R F True k by (auto simp: marked_def misses_Suc [OF k len] less_Suc_eq spec_status_misses)
  next
    case False
    then have rk: "r ! k = Absent" using R [OF k] by simp
    show ?thesis
    proof (cases "List.find ?P [0..<length ts]")
      case None
      then have "free_copies ts u (gs ! k) = {}" by (auto simp: find_None_iff free_copies_def)
      then have full: "unmatched gs ts (gs ! k) \<le> misses gs ts k (gs ! k)" using F [of "gs ! k"] by simp
      have "present_step gs ts k (r, u) = (r, u)" using rk None by (simp add: present_step_def)
      then show ?thesis using L R F False k full
        by (auto simp: marked_def misses_Suc [OF k len] less_Suc_eq spec_status_misses)
    next
      case (Some j)
      then have j: "j < length ts" "\<not> u ! j" "gs ! k = ts ! j" by (auto simp: find_Some_iff)
      have st: "present_step gs ts k (r, u) = (r[k := Present], u[j := True])" using rk Some by (simp add: present_step_def)
      have "j \<in> free_copies ts u (gs ! k)" using j by (simp add: free_copies_def)
      then have "card (free_copies ts u (gs ! k)) \<noteq> 0" by (auto simp: free_copies_def)
      then have room: "misses gs ts k (gs ! k) < unmatched gs ts (gs ! k)" using F [of "gs ! k"] by simp
      have C: "card (free_copies ts (u[j := True]) c) = unmatched gs ts c - misses gs ts (Suc k) c" for c
        using free_copies_take [OF j(2,1), of c] F [of c] L len j(3) False by (auto simp: misses_Suc [OF k len])
      have "r[k := Present] ! i = (if i < Suc k then spec_status gs ts i else if gs ! i = ts ! i then Correct else Absent)"
        if "i < length gs" for i
        using R [OF that] room False L(1) k by (cases "i = k") (auto simp: spec_status_misses)
      then show ?thesis using L C by (simp add: st marked_def)
    qed
  qed
qed

lemma present_steps:
  assumes m: "marked gs ts 0 s" and len: "length ts = length gs"
  shows "k \<le> length gs \<Longrightarrow> marked gs ts k (fold (present_step gs ts) [0..<k] s)"
proof (induction k)
  case (Suc k)
  then have IH: "marked gs ts k (fold (present_step gs ts) [0..<k] s)" by simp
  obtain r u where ru: "fold (present_step gs ts) [0..<k] s = (r, u)" by fastforce
  show ?case using present_step_marked [OF IH [unfolded ru] _ len] Suc.prems ru by simp
qed (simp add: m)

lemma unmatched_free:
  assumes "length ts = length gs" "length u = length gs" "\<forall>i < length gs. u ! i = (gs ! i = ts ! i)"
  shows "card (free_copies ts u c) = unmatched gs ts c"
proof -
  have "free_copies ts u c = {i. i < length (zip gs ts) \<and> (case zip gs ts ! i of (a, b) \<Rightarrow> b = c \<and> a \<noteq> b)}"
    using assms by (auto simp: free_copies_def)
  then show ?thesis by (simp add: unmatched_def length_filter_conv_card)
qed

lemma calculateLetterStatuses_spec:
  assumes "length guess = length target"
  shows "calculateLetterStatuses guess target =
    map (spec_status (toUpperCase guess) (toUpperCase target)) [0..<length guess]"
proof -
  let ?gs = "toUpperCase guess" and ?ts = "toUpperCase target"
  have len: "length ?ts = length ?gs" using assms by simp
  let ?s = "fold (exact_step ?gs ?ts) [0..<length ?gs] (replicate (length ?gs) Absent, replicate (length ?ts) False)"
  obtain r u where ru: "?s = (r, u)" by fastforce
  have E: "length r = length ?gs" "length u = length ?gs"
    "\<forall>i < length ?gs. r ! i = (if ?gs ! i = ?ts ! i then Correct else Absent) \<and> u ! i = (?gs ! i = ?ts ! i)"
    using exact_steps [OF order_refl len] unfolding ru by auto
  then have "marked ?gs ?ts 0 ?s" using unmatched_free [OF len E(2)] unfolding ru by (simp add: marked_def misses_def)
  from present_steps [OF this len order_refl]
  have "marked ?gs ?ts (length ?gs) (fold (present_step ?gs ?ts) [0..<length ?gs] ?s)" .
  then show ?thesis
    by (auto simp: calculateLetterStatuses_def Let_def marked_def split: prod.splits intro!: nth_equalityI)
qed

text \<open>
  C18: the marks the client shows are those of the engine: for a guess and a solution without white space around
  them, whenever the engine returns an evaluation its marks are exactly the client's, and the
  client's test of a win is the engine's.
\<close>

theorem client_marks_agree:
  assumes "evaluateGuess guess solution = Inr r" "trim guess = guess" "trim solution = solution"
  shows "calculateLetterStatuses guess solution = map status r \<and>
    (isGameWon (calculateLetterStatuses guess solution) \<longleftrightarrow> toUpperCase guess = toUpperCase solution)"
proof -
  have n: "normalized guess = toUpperCase guess" "normalized solution = toUpperCase solution"
    using assms(2,3) by (simp_all add: normalized_def trim_toUpperCase)
  have len: "length guess = length solution" using evaluateGuess_InrD [OF assms(1)] n by simp
  have e: "map status r = map (spec_status (toUpperCase guess) (toUpperCase solution)) [0..<length guess]"
    unfolding evaluateGuess_InrD_statuses [OF assms(1)] n using len
    by (intro nth_equalityI) (auto simp: second_spec_nth spec_status_def earlier_misses_def)
  then have c: "calculateLetterStatuses guess solution = map status r" using calculateLetterStatuses_spec [OF len] by simp
  show ?thesis using c evaluateGuess_all_correct [OF assms(1)] n by (simp add: isGameWon_def list_all_iff)
qed

lemma client_marks_agree_witness: "calculateLetterStatuses ''llama'' ''apple'' = [Present, Absent, Present, Absent, Absent]"
proof -
  have t: "trim ''llama'' = ''llama''" "trim ''apple'' = ''apple''" by code_simp+
  have "normalized ''llama'' = ''LLAMA''" "normalized ''apple'' = ''APPLE''" by code_simp+
  then obtain r where r: "evaluateGuess ''llama'' ''apple'' = Inr r"
    using evaluateGuess_returns_iff [of "''llama''" "''apple''"] by auto
  have "evaluateGuess ''llama'' ''apple'' = Inr (map (\<lambda>(c, s). \<lparr>letter = c, status = s\<rparr>)
      (zip ''LLAMA'' [Present, Absent, Present, Absent, Absent]))" by code_simp
  then show ?thesis using client_marks_agree [OF r t] r by simp
qed

section \<open>What hard mode asks for\<close>

text \<open>How often a guess revealed a letter.\<close>

definition revealed :: "EvaluatedGuess \<Rightarrow> char \<Rightarrow> nat" where
  "revealed p c = length (filter (\<lambda>i. toUpperCase (eg_guess p) ! i = c \<and> revealed_at p i) [0..<length (eg_guess p)])"

definition amount :: "char \<Rightarrow> (char, nat) jmap \<Rightarrow> nat" where
  "amount c m = (case jm_get c m of None \<Rightarrow> 0 | Some n \<Rightarrow> n)"

lemma amount_count_letter: "amount c (count_letter l m) = amount c m + (if l = c then 1 else 0)"
  by (simp add: amount_def count_letter_def split: option.splits)

lemma jm_wf_count_letter: "jm_wf m \<Longrightarrow> jm_wf (count_letter l m)"
  by (simp add: count_letter_def)

lemma revealed_counts_amount: "amount c (revealed_counts p) = revealed p c"
proof -
  have "amount c (fold (\<lambda>i m. if revealed_at p i then count_letter (xs ! i) m else m) is m) =
      amount c m + length (filter (\<lambda>i. xs ! i = c \<and> revealed_at p i) is)" for xs m "is"
    by (induction "is" arbitrary: m) (auto simp: amount_count_letter)
  then show ?thesis by (simp add: revealed_counts_def revealed_def Let_def amount_def)
qed

lemma revealed_counts_wf: "jm_wf (revealed_counts p)"
proof -
  have "jm_wf m \<Longrightarrow> jm_wf (fold (\<lambda>i m. if revealed_at p i then count_letter (xs ! i) m else m) is m)" for xs m "is"
    by (induction "is" arbitrary: m) (auto simp: jm_wf_count_letter)
  then show ?thesis by (simp add: revealed_counts_def Let_def)
qed

lemma raise_required_amount: "amount c (raise_required (l, n) m) = (if l = c then max (amount c m) n else amount c m)"
  by (simp add: amount_def raise_required_def split: option.splits)

lemma fold_raise_amount:
  "distinct (map fst rs) \<Longrightarrow> amount c (fold raise_required rs m) = max (amount c m) (amount c rs)"
proof (induction rs arbitrary: m)
  case (Cons r rs)
  obtain l n where r: "r = (l, n)" by fastforce
  have "amount c rs = 0" if "l = c"
    using Cons.prems r that by (simp add: amount_def jm_get_def map_of_eq_None_iff [THEN iffD2])
  moreover have "amount c (r # rs) = (if l = c then n else amount c rs)" by (simp add: r amount_def jm_get_def)
  ultimately show ?case using Cons by (simp add: r raise_required_amount)
qed (simp add: amount_def)

lemma fold_raise_wf: "jm_wf m \<Longrightarrow> jm_wf (fold raise_required rs m)"
  by (induction rs arbitrary: m) (auto simp: raise_required_def)

lemma required_letters_from:
  "jm_wf m \<Longrightarrow> jm_wf (fold (\<lambda>p. fold raise_required (revealed_counts p)) ps m) \<and>
   (amount c (fold (\<lambda>p. fold raise_required (revealed_counts p)) ps m) \<le> k \<longleftrightarrow> amount c m \<le> k \<and> (\<forall>p \<in> set ps. revealed p c \<le> k))"
proof (induction ps arbitrary: m)
  case (Cons p ps)
  have "distinct (map fst (revealed_counts p))" using revealed_counts_wf [of p] by (simp add: jm_wf_def)
  then have "amount c (fold raise_required (revealed_counts p) m) = max (amount c m) (revealed p c)"
    by (simp add: fold_raise_amount revealed_counts_amount)
  then show ?case using Cons.IH [OF fold_raise_wf [OF Cons.prems, of "revealed_counts p"]] by auto
qed simp

lemma required_letters_met:
  "(\<forall>(l, n) \<in> set (required_letters ps). n \<le> f l) \<longleftrightarrow> (\<forall>p \<in> set ps. \<forall>c. revealed p c \<le> f c)"
proof -
  have wf: "jm_wf (required_letters ps)" and le: "amount c (required_letters ps) \<le> f c \<longleftrightarrow> (\<forall>p \<in> set ps. revealed p c \<le> f c)" for c
    using required_letters_from [of "[]" ps c "f c"] by (simp_all add: required_letters_def amount_def)
  have "(\<forall>(l, n) \<in> set (required_letters ps). n \<le> f l) \<longleftrightarrow> (\<forall>c. amount c (required_letters ps) \<le> f c)"
    using jm_get_in [OF wf] by (fastforce simp: amount_def split: option.splits)
  then show ?thesis using le by blast
qed

lemma moved_letter_None:
  "moved_letter letters p = None \<longleftrightarrow>
   (\<forall>i < length (eg_statuses p). eg_statuses p ! i = Correct \<longrightarrow> elem letters i = elem (toUpperCase (eg_guess p)) i)"
  by (auto simp: moved_letter_def Let_def find_None_iff)

lemma hard_mode_valid_iff:
  "vr_isValid (validateHardModeGuess guess ps) \<longleftrightarrow>
     (\<forall>p \<in> set ps. moved_letter (toUpperCase (trim guess)) p = None \<and>
        (\<forall>c. revealed p c \<le> count_list (toUpperCase (trim guess)) c))"
proof -
  let ?l = "toUpperCase (trim guess)"
  have cnt: "length (filter (\<lambda>x. x = c) ?l) = count_list ?l c" for c
  proof -
    have "(\<lambda>x. x = c) = (=) c" by auto
    then show ?thesis by (simp add: count_list_eq_length_filter)
  qed
  have "vr_isValid (validateHardModeGuess guess ps) \<longleftrightarrow>
      List.find (\<lambda>p. moved_letter ?l p \<noteq> None) ps = None \<and>
      List.find (\<lambda>(l, n). length (filter (\<lambda>x. x = l) ?l) < n) (required_letters ps) = None"
    by (simp add: validateHardModeGuess_def Let_def split: option.splits)
  also have "\<dots> \<longleftrightarrow> (\<forall>p \<in> set ps. moved_letter ?l p = None) \<and> (\<forall>(l, n) \<in> set (required_letters ps). n \<le> count_list ?l l)"
    by (auto simp: find_None_iff cnt not_less)
  finally show ?thesis using required_letters_met [of ps "count_list ?l"] by blast
qed

text \<open>A guess marked truthfully reveals no letter more often than the solution holds it.\<close>

lemma revealed_solution:
  assumes "length (eg_guess p) = length target" "eg_statuses p = calculateLetterStatuses (eg_guess p) target"
  shows "revealed p c \<le> count_list (toUpperCase target) c" and "moved_letter (toUpperCase target) p = None"
proof -
  let ?g = "toUpperCase (eg_guess p)" and ?t = "toUpperCase target"
  let ?ps = "zip ?g ?t" and ?k = "\<lambda>c. int (unmatched ?g ?t c)"
  have len: "length ?g = length ?t" using assms(1) by simp
  have st: "eg_statuses p = map (spec_status ?g ?t) [0..<length target]"
    using calculateLetterStatuses_spec [OF assms(1)] assms by simp
  show "moved_letter ?t p = None"
    using assms(1) unfolding moved_letter_None by (auto simp: st spec_status_def elem_def split: if_splits)
  have sp: "second_spec ?ps ?k = map (spec_status ?g ?t) [0..<length target]"
    using assms(1) by (intro nth_equalityI) (auto simp: second_spec_nth spec_status_def earlier_misses_def)
  have "revealed p c = length (filter (\<lambda>i. ?g ! i = c \<and> spec_status ?g ?t i \<noteq> Absent) [0..<length target])"
    unfolding revealed_def assms(1)
  proof (intro arg_cong [where f = length] filter_cong refl)
    fix i assume "i \<in> set [0..<length target]"
    then have "elem (eg_statuses p) i = Some (spec_status ?g ?t i)" by (simp add: st elem_def)
    then show "(?g ! i = c \<and> revealed_at p i) = (?g ! i = c \<and> spec_status ?g ?t i \<noteq> Absent)"
      by (cases "spec_status ?g ?t i") (auto simp: revealed_at_def)
  qed
  also have "\<dots> = length (filter (\<lambda>((a, b), st). a = c \<and> st \<noteq> Absent) (zip ?ps (second_spec ?ps ?k)))"
  proof -
    have "zip ?ps (second_spec ?ps ?k) = map (\<lambda>i. ((?g ! i, ?t ! i), spec_status ?g ?t i)) [0..<length target]"
      using assms(1) by (intro nth_equalityI) (auto simp: sp)
    then show ?thesis by (simp add: filter_map comp_def)
  qed
  finally have "int (revealed p c) \<le> int (length (filter (\<lambda>(a, b). a = c \<and> a = b) ?ps)) + ?k c"
    using marks_second_spec [of ?k c ?ps] by simp
  then show "revealed p c \<le> count_list ?t c" using count_list_split [OF len, of c] by (simp add: matched_sym)
qed

text \<open>
  C19: hard mode accepts a guess exactly when it keeps every letter marked correct in its place and holds every
  letter as often as some earlier guess revealed it; and for guesses that were marked against a
  target of their length, the target itself is never refused.
\<close>

theorem hard_mode_exact:
  "(vr_isValid (validateHardModeGuess guess ps) \<longleftrightarrow>
     (\<forall>p \<in> set ps.
        (\<forall>i < length (eg_statuses p). eg_statuses p ! i = Correct \<longrightarrow>
           elem (toUpperCase (trim guess)) i = elem (toUpperCase (eg_guess p)) i) \<and>
        (\<forall>c. revealed p c \<le> count_list (toUpperCase (trim guess)) c))) \<and>
   (trim target = target \<longrightarrow>
    (\<forall>p \<in> set ps. length (eg_guess p) = length target \<and> eg_statuses p = calculateLetterStatuses (eg_guess p) target) \<longrightarrow>
    vr_isValid (validateHardModeGuess target ps))"
proof (intro conjI impI)
  assume t: "trim target = target"
    and ps: "\<forall>p \<in> set ps. length (eg_guess p) = length target \<and> eg_statuses p = calculateLetterStatuses (eg_guess p) target"
  show "vr_isValid (validateHardModeGuess target ps)"
    unfolding hard_mode_valid_iff t using ps revealed_solution by blast
qed (simp add: hard_mode_valid_iff moved_letter_None)

lemma hard_mode_exact_witness:
  "vr_isValid (validateHardModeGuess ''apple'' [\<lparr>eg_guess = ''llama'', eg_statuses = calculateLetterStatuses ''llama'' ''apple''\<rparr>,
     \<lparr>eg_guess = ''ample'', eg_statuses = calculateLetterStatuses ''ample'' ''apple''\<rparr>])"
proof -
  have t: "trim ''apple'' = ''apple''" by code_simp
  show ?thesis
    by (rule hard_mode_exact [THEN conjunct2, rule_format, OF t, of "[\<lparr>eg_guess = ''llama'', eg_statuses = calculateLetterStatuses ''llama'' ''apple''\<rparr>,
      \<lparr>eg_guess = ''ample'', eg_statuses = calculateLetterStatuses ''ample'' ''apple''\<rparr>]"]) auto
qed

end
