(* ===== verification/Js_Doubles.thy ===== *)
theory Js_Doubles
  imports Complex_Main
begin

text \<open>
  The rounding of a double: the nearest number with 53 significant bits, ties to the even one.
  Rationals of ordinary size are meant: overflow and subnormal numbers do not occur in the
  counts, rates and averages of the program.
\<close>

section \<open>Rounding\<close>

fun bits :: "nat \<Rightarrow> nat" where
  "bits n = (if n = 0 then 0 else 1 + bits (n div 2))"

declare bits.simps [simp del]

definition round_even :: "rat \<Rightarrow> int" where
  "round_even x = (let n = \<lfloor>x\<rfloor>; d = x - of_int n
     in if d < 1 / 2 then n else if 1 / 2 < d then n + 1 else if even n then n else n + 1)"

text \<open>The exponent of the last of the 53 bits of a positive number; exact powers of two may get one less.\<close>

definition last_bit :: "rat \<Rightarrow> int" where
  "last_bit x = (if 1 \<le> x then int (bits (nat \<lfloor>x\<rfloor>)) - 53 else - int (bits (nat \<lfloor>1 / x\<rfloor>)) - 52)"

definition round_pos :: "rat \<Rightarrow> rat" where
  "round_pos x = of_int (round_even (x / 2 powi last_bit x)) * 2 powi last_bit x"

definition to_double :: "rat \<Rightarrow> rat" where
  "to_double x = (if x = 0 then 0 else if x < 0 then - round_pos (- x) else round_pos x)"

text \<open>Division and multiplication of doubles, and \<^verbatim>\<open>Math.round\<close>, which takes halves upwards.\<close>

definition div_d :: "rat \<Rightarrow> rat \<Rightarrow> rat" where
  "div_d x y = to_double (x / y)"

definition mult_d :: "rat \<Rightarrow> rat \<Rightarrow> rat" where
  "mult_d x y = to_double (x * y)"

definition math_round :: "rat \<Rightarrow> int" where
  "math_round x = \<lfloor>x + 1 / 2\<rfloor>"

section \<open>Bounds\<close>

lemma bits_bounds: "0 < n \<Longrightarrow> 2 ^ (bits n - 1) \<le> n \<and> n < 2 ^ bits n \<and> 0 < bits n"
proof (induction n rule: bits.induct)
  case (1 n)
  have b: "bits n = Suc (bits (n div 2))" using 1(2) by (simp add: bits.simps)
  show ?case
  proof (cases "n div 2 = 0")
    case True
    then have "n = 1" using 1(2) by presburger
    then show ?thesis by (simp add: bits.simps)
  next
    case False
    then have i: "2 ^ (bits (n div 2) - 1) \<le> n div 2 \<and> n div 2 < 2 ^ bits (n div 2) \<and> 0 < bits (n div 2)" using 1 by simp
    then obtain k where k: "bits (n div 2) = Suc k" by (metis gr0_implies_Suc)
    define m :: nat where "m = 2 ^ k"
    have "m \<le> n div 2" "n div 2 < 2 * m" using i k by (simp_all add: m_def)
    then have "2 * m \<le> n" "n < 4 * m" by linarith+
    then show ?thesis using b k by (simp add: m_def)
  qed
qed

lemma bits_nat: "0 < n \<Longrightarrow> (2 ^ (bits (nat n) - 1) :: rat) \<le> of_int n \<and> of_int n + 1 \<le> (2 ^ bits (nat n) :: rat)"
proof -
  assume "0 < n"
  then have b: "2 ^ (bits (nat n) - 1) \<le> nat n" "nat n + 1 \<le> 2 ^ bits (nat n)" and n: "of_int n = (of_nat (nat n) :: rat)"
    using bits_bounds [of "nat n"] by (simp_all add: Suc_le_eq)
  have "of_nat (2 ^ (bits (nat n) - 1)) \<le> (of_nat (nat n) :: rat)" using b(1) by (simp only: of_nat_le_iff)
  moreover have "of_nat (nat n + 1) \<le> (of_nat (2 ^ bits (nat n)) :: rat)" using b(2) by (simp only: of_nat_le_iff)
  ultimately show ?thesis unfolding n by simp
qed

lemma last_bit_low:
  assumes "0 < x"
  shows "2 ^ 52 \<le> x / 2 powi last_bit x"
proof -
  have e: "2 ^ 52 * 2 powi (k - 52) = (2 powi k :: rat)" for k :: int
    using power_int_add [of "2 :: rat" 52 "k - 52"] by simp
  have "2 powi (last_bit x + 52) \<le> x"
  proof (cases "1 \<le> x")
    case True
    let ?b = "bits (nat \<lfloor>x\<rfloor>)"
    have "0 < \<lfloor>x\<rfloor>" using True by simp
    then have "2 ^ (?b - 1) \<le> x" "0 < ?b" using bits_nat [of "\<lfloor>x\<rfloor>"] bits_bounds [of "nat \<lfloor>x\<rfloor>"] of_int_floor_le [of x] by linarith+
    moreover have l: "last_bit x + 52 = int (?b - 1)" using True \<open>0 < ?b\<close> by (simp add: last_bit_def of_nat_diff)
    ultimately show ?thesis unfolding l power_int_of_nat by blast
  next
    case False
    let ?b = "bits (nat \<lfloor>1 / x\<rfloor>)"
    have "1 \<le> 1 / x" using False assms by simp
    then have "0 < \<lfloor>1 / x\<rfloor>" by simp
    then have "1 / x \<le> 2 ^ ?b" using bits_nat [of "\<lfloor>1 / x\<rfloor>"] floor_correct [of "1 / x"] by linarith
    then have "1 / 2 ^ ?b \<le> x" using assms by (simp add: divide_simps mult.commute)
    moreover have "last_bit x + 52 = - int ?b" using False by (simp add: last_bit_def)
    ultimately show ?thesis by (simp add: power_int_minus divide_simps)
  qed
  then show ?thesis using e [of "last_bit x + 52"] by (simp add: pos_le_divide_eq)
qed

lemma round_even_le: "x \<le> of_int n \<Longrightarrow> round_even x \<le> n"
proof -
  assume a: "x \<le> of_int n"
  show ?thesis
  proof (cases "\<lfloor>x\<rfloor> < n")
    case True
    then show ?thesis by (simp add: round_even_def Let_def)
  next
    case False
    then have "n \<le> \<lfloor>x\<rfloor>" by simp
    then have "of_int n \<le> x" by (simp only: le_floor_iff)
    then have "x = of_int n" using a by simp
    then show ?thesis by (simp add: round_even_def)
  qed
qed

lemma round_even_ge0: "0 \<le> x \<Longrightarrow> 0 \<le> round_even x"
  by (simp add: round_even_def Let_def)

text \<open>Rounding does not pass an integer of at most 53 bits.\<close>

lemma to_double_le:
  assumes "0 \<le> x" "x \<le> of_int n" "n < 2 ^ 53"
  shows "0 \<le> to_double x \<and> to_double x \<le> of_int n"
proof (cases "x = 0")
  case False
  then have x: "0 < x" using assms(1) by simp
  define e where "e = last_bit x"
  have s: "2 ^ 52 \<le> x / 2 powi e" unfolding e_def by (rule last_bit_low [OF x])
  have "e \<le> 0"
  proof (rule ccontr)
    assume "\<not> e \<le> 0"
    then have "(2 powi 1 :: rat) \<le> 2 powi e" by (intro power_int_increasing) simp_all
    then have "2 ^ 52 * 2 \<le> (2 ^ 52 :: rat) * 2 powi e" by simp
    also have "\<dots> \<le> x" using s by (simp add: pos_le_divide_eq)
    finally have "2 ^ 53 \<le> x" by simp
    moreover have "(of_int n :: rat) < 2 ^ 53" using assms(3) by (metis of_int_less_iff of_int_numeral of_int_power)
    ultimately show False using assms(2) by simp
  qed
  then obtain k where k: "e = - int k" by (metis minus_minus nonneg_int_cases neg_0_le_iff_le)
  have t: "(2 powi e :: rat) = 1 / 2 ^ k" unfolding k by (simp add: power_int_minus inverse_eq_divide)
  have "x / 2 powi e \<le> of_int (n * 2 ^ k)" using assms(2) by (simp add: t)
  then have "round_even (x / 2 powi e) \<le> n * 2 ^ k" by (rule round_even_le)
  then have "of_int (round_even (x / 2 powi e)) \<le> (of_int (n * 2 ^ k) :: rat)" by (simp only: of_int_le_iff)
  then have "round_pos x \<le> of_int n" by (simp add: round_pos_def e_def [symmetric] t divide_simps)
  moreover have "0 \<le> round_even (x / 2 powi e)" using x by (intro round_even_ge0) simp
  then have "0 \<le> round_pos x" unfolding round_pos_def e_def [symmetric] by simp
  ultimately show ?thesis using x by (simp add: to_double_def)
qed (use assms in \<open>simp add: to_double_def\<close>)

text \<open>Rates of a part in percent.\<close>

definition percent_d :: "nat \<Rightarrow> nat \<Rightarrow> int" where
  "percent_d part whole' = math_round (mult_d (div_d (of_nat part) (of_nat whole')) 100)"

lemma percent_range:
  assumes "part \<le> whole'" "0 < whole'"
  shows "0 \<le> percent_d part whole' \<and> percent_d part whole' \<le> 100"
proof -
  let ?q = "div_d (of_nat part) (of_nat whole')"
  have "0 \<le> ?q" "?q \<le> 1" using to_double_le [of "of_nat part / of_nat whole'" 1] assms by (simp_all add: div_d_def)
  then have "0 \<le> mult_d ?q 100" "mult_d ?q 100 \<le> 100" using to_double_le [of "?q * 100" 100] by (simp_all add: mult_d_def)
  then have "0 \<le> mult_d ?q 100 + 1 / 2" "mult_d ?q 100 + 1 / 2 < of_int (100 + 1)" by simp_all
  then show ?thesis unfolding percent_d_def math_round_def by (simp add: floor_less_iff flip: zle_diff1_eq)
qed

text \<open>The double nearest to 23/40 is below it, and so is its product with 100: 57.5 is not reached.\<close>

text \<open>Evaluation on numerals.\<close>

lemma bits_numeral [simp]:
  "bits 0 = 0" "bits (Suc 0) = 1" "bits (numeral (num.Bit0 n)) = Suc (bits (numeral n))" "bits (numeral (num.Bit1 n)) = Suc (bits (numeral n))"
  "bits (numeral num.One) = 1"
proof -
  show "bits 0 = 0" "bits (Suc 0) = 1" "bits (numeral num.One) = 1" by (simp_all add: bits.simps)
  have "numeral (num.Bit0 n) div 2 = (numeral n :: nat)" "numeral (num.Bit1 n) div 2 = (numeral n :: nat)" by simp_all
  then show "bits (numeral (num.Bit0 n)) = Suc (bits (numeral n))" "bits (numeral (num.Bit1 n)) = Suc (bits (numeral n))"
    by (subst bits.simps; simp)+
qed

lemma powi_neg: "2 powi (- numeral n) = (1 / 2 ^ numeral n :: rat)"
  by (simp add: power_int_minus inverse_eq_divide)

lemma rat_floor [simp]: "\<lfloor>numeral a / numeral b :: rat\<rfloor> = numeral a div numeral b"
  by (metis floor_divide_of_int_eq of_int_numeral)

lemmas double_eval = Let_def to_double_def round_pos_def last_bit_def round_even_def powi_neg

text \<open>The double nearest to 23/40 is below it, and so is its product with 100: 57.5 is not reached.\<close>

lemma percent_23_40: "percent_d 23 40 = 57"
proof -
  have 1: "div_d 23 40 = 5179139571476070 / 9007199254740992" by (simp add: div_d_def double_eval)
  have 2: "mult_d (5179139571476070 / 9007199254740992) 100 = 8092405580431359 / 140737488355328" by (simp add: mult_d_def double_eval)
  show ?thesis unfolding percent_d_def of_nat_numeral 1 2 by (simp add: math_round_def)
qed

end
