(* ===== verification/Js_Dates.thy ===== *)
theory Js_Dates
  imports Js_Values
begin

text \<open>
  Calendar days: the date forms that \<^verbatim>\<open>Date.parse\<close> reads, the number of a day, the printing of a
  day as \<^verbatim>\<open>toISOString\<close> begins, and runs of consecutive days.  Reading and printing are inverse
  on the years of four digits.
\<close>

section \<open>Reading a date\<close>

text \<open>
  \<^verbatim>\<open>Date.parse\<close> of a date with the time \<^verbatim>\<open>T00:00:00Z\<close>: the date forms of the language standard, a
  year of four digits, or six with a sign, then optionally a month and a day of that month.  What
  the standard leaves to the engine is \<^verbatim>\<open>NaN\<close> here.
\<close>

definition leap_year :: "int \<Rightarrow> bool" where
  "leap_year y \<longleftrightarrow> y mod 4 = 0 \<and> (y mod 100 \<noteq> 0 \<or> y mod 400 = 0)"

definition month_lengths :: "int \<Rightarrow> nat list" where
  "month_lengths y = [31, if leap_year y then 29 else 28, 31, 30, 31, 30, 31, 31, 30, 31, 30, 31]"

definition day_from_year :: "int \<Rightarrow> int" where
  "day_from_year y = 365 * (y - 1970) + (y - 1969) div 4 - (y - 1901) div 100 + (y - 1601) div 400"

definition civil_day :: "int \<Rightarrow> nat \<Rightarrow> nat \<Rightarrow> int" where
  "civil_day y m d = day_from_year y + int (sum_list (take (m - 1) (month_lengths y))) + int d - 1"

definition take_year :: "string \<Rightarrow> (int \<times> string) option" where
  "take_year s =
    (if length s \<ge> 4 \<and> list_all is_digit (take 4 s) then Some (int (read_nat (take 4 s)), drop 4 s)
     else if length s \<ge> 7 \<and> (hd s = CHR ''+'' \<or> hd s = CHR ''-'') \<and> list_all is_digit (take 6 (tl s))
       \<and> take 7 s \<noteq> ''-000000''
     then Some ((if hd s = CHR ''-'' then -1 else 1) * int (read_nat (take 6 (tl s))), drop 7 s)
     else None)"

text \<open>Two digits after a hyphen, or the value one when nothing is left.\<close>

definition take_part :: "string \<Rightarrow> (nat \<times> string) option" where
  "take_part s =
    (if s = [] then Some (1, [])
     else if length s \<ge> 3 \<and> hd s = CHR ''-'' \<and> list_all is_digit (take 2 (tl s)) then Some (read_nat (take 2 (tl s)), drop 3 s)
     else None)"

definition parse_iso_date :: "string \<Rightarrow> (int \<times> nat \<times> nat) option" where
  "parse_iso_date s = (case take_year s of None \<Rightarrow> None | Some (y, r) \<Rightarrow>
     (case take_part r of None \<Rightarrow> None | Some (m, r') \<Rightarrow>
     (case take_part r' of None \<Rightarrow> None | Some (d, r'') \<Rightarrow>
        if r'' = [] \<and> 1 \<le> m \<and> m \<le> 12 \<and> 1 \<le> d \<and> d \<le> month_lengths y ! (m - 1) then Some (y, m, d) else None)))"

definition DAY_MS :: int where "DAY_MS = 86400000"

definition date_parse_midnight :: "string \<Rightarrow> jsnum" where
  "date_parse_midnight s = (case parse_iso_date s of None \<Rightarrow> NaN
     | Some (y, m, d) \<Rightarrow> (let t = civil_day y m d * DAY_MS in if \<bar>t\<bar> \<le> 8640000000000000 then num t else NaN))"

section \<open>Printing a day\<close>

text \<open>
  The year of a day: the estimate by the mean length of a year is off by at most one.  Then the
  months are counted off.
\<close>

definition year_of_day :: "int \<Rightarrow> int" where
  "year_of_day n = (let y = 1970 + (400 * n) div 146097 in
     if n < day_from_year y then y - 1 else if day_from_year (y + 1) \<le> n then y + 1 else y)"

fun find_month :: "nat list \<Rightarrow> nat \<Rightarrow> nat \<Rightarrow> nat \<times> nat" where
  "find_month [] m k = (m, k + 1)"
| "find_month (l # ls) m k = (if k < l then (m, k + 1) else find_month ls (m + 1) (k - l))"

definition civil_of_day :: "int \<Rightarrow> int \<times> nat \<times> nat" where
  "civil_of_day n = (let y = year_of_day n; (m, d) = find_month (month_lengths y) 1 (nat (n - day_from_year y)) in (y, m, d))"

fun pad_digits :: "nat \<Rightarrow> nat \<Rightarrow> string" where
  "pad_digits 0 n = []"
| "pad_digits (Suc k) n = pad_digits k (n div 10) @ [digit_char (n mod 10)]"

definition iso_year :: "int \<Rightarrow> string" where
  "iso_year y = (if 0 \<le> y \<and> y \<le> 9999 then pad_digits 4 (nat y)
     else (if y < 0 then CHR ''-'' else CHR ''+'') # pad_digits 6 (nat \<bar>y\<bar>))"

text \<open>The date of \<^verbatim>\<open>toISOString()\<close>, and its first ten characters.\<close>

definition iso_date :: "int \<Rightarrow> string" where
  "iso_date n = (case civil_of_day n of (y, m, d) \<Rightarrow> iso_year y @ ''-'' @ pad_digits 2 m @ ''-'' @ pad_digits 2 d)"

definition iso_day :: "int \<Rightarrow> string" where
  "iso_day n = take 10 (iso_date n)"

section \<open>Reading what was printed\<close>

lemma div_below: "(0 :: int) < c \<Longrightarrow> c * (x div c) \<le> x"
  and div_above: "(0 :: int) < c \<Longrightarrow> x < c * (x div c) + c"
  using mult_div_mod_eq [of c x] pos_mod_bound [of c x] pos_mod_sign [of c x] by linarith+

text \<open>The first day of a year lies within two days of the line of mean years.\<close>

lemma day_from_year_low: "146097 * y - 287811596 \<le> 400 * day_from_year y"
proof -
  have "y - 1969 < 4 * ((y - 1969) div 4) + 4" "100 * ((y - 1901) div 100) \<le> y - 1901" "y - 1601 < 400 * ((y - 1601) div 400) + 400"
    by (rule div_above div_below; simp)+
  then show ?thesis unfolding day_from_year_def right_diff_distrib distrib_left by linarith
qed

lemma day_from_year_high: "400 * day_from_year y \<le> 146097 * y - 287810501"
proof -
  have "4 * ((y - 1969) div 4) \<le> y - 1969" "y - 1901 < 100 * ((y - 1901) div 100) + 100" "400 * ((y - 1601) div 400) \<le> y - 1601"
    by (rule div_above div_below; simp)+
  then show ?thesis unfolding day_from_year_def right_diff_distrib distrib_left by linarith
qed

lemma year_of_day_bounds: "day_from_year (year_of_day n) \<le> n \<and> n < day_from_year (year_of_day n + 1)"
proof -
  define q where "q = (400 * n) div 146097"
  have b: "146097 * q \<le> 400 * n" "400 * n < 146097 * q + 146097"
    unfolding q_def by (rule div_below div_above; simp)+
  have "400 * day_from_year (1970 + q - 1) \<le> 146097 * (1970 + q - 1) - 287810501" by (rule day_from_year_high)
  then have lo: "day_from_year (1970 + q - 1) \<le> n" using b(1) unfolding right_diff_distrib distrib_left by linarith
  have "146097 * (1970 + q + 1 + 1) - 287811596 \<le> 400 * day_from_year (1970 + q + 1 + 1)" by (rule day_from_year_low)
  then have "n < day_from_year (1970 + q + 1 + 1)" using b(2) unfolding right_diff_distrib distrib_left by linarith
  then show ?thesis using lo by (simp add: year_of_day_def Let_def q_def)
qed

lemma div_step: "(0 :: int) < c \<Longrightarrow> (x + 1) div c = x div c + (if (x + 1) mod c = 0 then 1 else 0)"
proof -
  assume c: "0 < c"
  have b: "c * (x div c) \<le> x" "x < c * (x div c) + c" using div_below [OF c] div_above [OF c] .
  show ?thesis
  proof (cases "(x + 1) mod c = 0")
    case True
    then have e: "x + 1 = c * ((x + 1) div c)" by (metis add.right_neutral mult_div_mod_eq)
    have "c * (x div c) < c * ((x + 1) div c)" "c * ((x + 1) div c) \<le> c * (x div c + 1)" using b e by (simp_all add: distrib_left)
    then have "x div c < (x + 1) div c" "(x + 1) div c \<le> x div c + 1" using c by simp_all
    then show ?thesis using True by simp
  next
    case False
    have "x + 1 \<noteq> c * (x div c + 1)" using False by (metis mod_mult_self1_is_0)
    then have "c * (x div c) \<le> x + 1" "x + 1 < c * (x div c) + c" using b by (simp_all add: distrib_left)
    then have "(x + 1) div c = x div c" using c by (intro int_div_pos_eq [where r = "x + 1 - c * (x div c)"]) simp_all
    then show ?thesis using False by simp
  qed
qed

lemma year_length: "day_from_year (y + 1) = day_from_year y + (if leap_year y then 366 else 365)"
proof -
  have m: "(y - 1968) mod 4 = y mod 4" "(y - 1900) mod 100 = y mod 100" "(y - 1600) mod 400 = y mod 400"
    using mod_mult_self1 [of y "- 492" 4] mod_mult_self1 [of y "- 19" 100] mod_mult_self1 [of y "- 4" 400] by simp_all
  define A B C where "A = (y - 1969) div 4" and "B = (y - 1901) div 100" and "C = (y - 1601) div 400"
  have e: "y - 1969 + 1 = y - 1968" "y - 1901 + 1 = y - 1900" "y - 1601 + 1 = y - 1600" by simp_all
  have d: "(y - 1968) div 4 = (y - 1969) div 4 + (if y mod 4 = 0 then 1 else 0)"
    "(y - 1900) div 100 = (y - 1901) div 100 + (if y mod 100 = 0 then 1 else 0)"
    "(y - 1600) div 400 = (y - 1601) div 400 + (if y mod 400 = 0 then 1 else 0)"
    using div_step [of 4 "y - 1969", unfolded e m] div_step [of 100 "y - 1901", unfolded e m] div_step [of 400 "y - 1601", unfolded e m]
    by (simp_all only: zero_less_numeral simp_thms)
  have c: "y mod 400 = 0 \<Longrightarrow> y mod 100 = 0" "y mod 100 = 0 \<Longrightarrow> y mod 4 = 0"
    using mod_mod_cancel [of 100 400 y] mod_mod_cancel [of 4 100 y] by simp_all
  have "day_from_year (y + 1) = 365 * (y - 1970) + 365 + (y - 1968) div 4 - (y - 1900) div 100 + (y - 1600) div 400"
    by (simp add: day_from_year_def algebra_simps)
  then have next_year: "day_from_year (y + 1) = 365 * (y - 1970) + 365 + (A + (if y mod 4 = 0 then 1 else 0)) -
      (B + (if y mod 100 = 0 then 1 else 0)) + (C + (if y mod 400 = 0 then 1 else 0))"
    unfolding d A_def B_def C_def .
  have this_year: "day_from_year y = 365 * (y - 1970) + A - B + C" by (simp only: day_from_year_def A_def B_def C_def)
  show ?thesis
  proof (cases "y mod 400 = 0")
    case True
    then show ?thesis using c unfolding next_year this_year leap_year_def by simp
  next
    case not400: False
    show ?thesis
    proof (cases "y mod 100 = 0")
      case True
      then show ?thesis using c not400 unfolding next_year this_year leap_year_def by simp
    next
      case False
      then show ?thesis using not400 unfolding next_year this_year leap_year_def by simp
    qed
  qed
qed


lemma find_month_spec:
  "k < sum_list ls \<Longrightarrow> find_month ls m0 k = (m, d) \<Longrightarrow>
    m0 \<le> m \<and> m < m0 + length ls \<and> 1 \<le> d \<and> d \<le> ls ! (m - m0) \<and> sum_list (take (m - m0) ls) + d = k + 1"
proof (induction ls m0 k rule: find_month.induct)
  case (2 l ls m0 k)
  show ?case
  proof (cases "k < l")
    case True
    then show ?thesis using "2.prems" by auto
  next
    case False
    then have "m0 + 1 \<le> m \<and> m < m0 + 1 + length ls \<and> 1 \<le> d \<and> d \<le> ls ! (m - (m0 + 1)) \<and>
        sum_list (take (m - (m0 + 1)) ls) + d = (k - l) + 1"
      using "2.prems" by (intro "2.IH") auto
    moreover obtain j where "m = m0 + Suc j" using calculation by (metis add_Suc_right less_eqE Suc_eq_plus1 add_Suc)
    ultimately have "m = m0 + Suc j" "j < length ls" "1 \<le> d" "d \<le> ls ! j" "sum_list (take j ls) + d = k - l + 1" by simp_all
    moreover have "l + (k - l) = k" using False by simp
    ultimately show ?thesis by simp
  qed
qed simp

lemma month_lengths_sum: "sum_list (month_lengths y) = (if leap_year y then 366 else 365)"
  and month_lengths_length: "length (month_lengths y) = 12"
  and month_lengths_31: "i < 12 \<Longrightarrow> month_lengths y ! i \<le> 31"
  by (auto simp: month_lengths_def less_Suc_eq numeral_eq_Suc)

text \<open>The calendar date of a day is the date whose number it is.\<close>

lemma civil_of_day_spec:
  assumes "civil_of_day n = (y, m, d)"
  shows "y = year_of_day n \<and> 1 \<le> m \<and> m \<le> 12 \<and> 1 \<le> d \<and> d \<le> month_lengths y ! (m - 1) \<and> civil_day y m d = n"
proof -
  let ?k = "nat (n - day_from_year (year_of_day n))"
  have y: "y = year_of_day n" and f: "find_month (month_lengths y) 1 ?k = (m, d)"
    using assms by (auto simp: civil_of_day_def Let_def split: prod.splits)
  have b: "day_from_year y \<le> n" "n < day_from_year y + (if leap_year y then 366 else 365)"
    using year_of_day_bounds [of n] year_length [of y] y by simp_all
  have "?k < sum_list (month_lengths y)" using b y by (simp add: month_lengths_sum split: if_splits)
  from find_month_spec [OF this f] have F: "1 \<le> m" "m < 1 + 12" "1 \<le> d" "d \<le> month_lengths y ! (m - 1)"
      "sum_list (take (m - 1) (month_lengths y)) + d = ?k + 1"
    by (simp_all add: month_lengths_length)
  have "int (sum_list (take (m - 1) (month_lengths y))) + int d = int ?k + 1" using F(5) by linarith
  then have "civil_day y m d = n" using b(1) y by (simp add: civil_day_def)
  then show ?thesis using F y by simp
qed

lemma length_pad_digits [simp]: "length (pad_digits k n) = k"
  by (induction k arbitrary: n) simp_all

lemma digits_pad_digits [simp]: "list_all is_digit (pad_digits k n)"
  by (induction k arbitrary: n) (simp_all add: digit_char_props)

lemma read_pad_digits: "n < 10 ^ k \<Longrightarrow> read_nat (pad_digits k n) = n"
proof (induction k arbitrary: n)
  case (Suc k)
  have "n div 10 < 10 ^ k" using Suc.prems by (simp add: less_mult_imp_div_less mult.commute)
  then have "read_nat (pad_digits k (n div 10)) = n div 10" by (rule Suc.IH)
  then show ?case by (simp add: read_nat_def digit_char_props)
qed (simp add: read_nat_def)

lemma take_part_pad: "n < 100 \<Longrightarrow> take_part (CHR ''-'' # pad_digits 2 n @ r) = Some (n, r)"
  using read_pad_digits [of n 2] by (simp add: take_part_def)

definition four_digit_day :: "int \<Rightarrow> bool" where
  "four_digit_day n \<longleftrightarrow> 0 \<le> year_of_day n \<and> year_of_day n \<le> 9999"

lemma iso_day_parts:
  assumes "four_digit_day n" "civil_of_day n = (y, m, d)"
  shows "iso_day n = pad_digits 4 (nat y) @ ''-'' @ pad_digits 2 m @ ''-'' @ pad_digits 2 d"
  using assms civil_of_day_spec [OF assms(2)] by (simp add: iso_day_def iso_date_def iso_year_def four_digit_day_def)

theorem parse_iso_day:
  assumes "four_digit_day n"
  shows "parse_iso_date (iso_day n) = Some (civil_of_day n) \<and> date_parse_midnight (iso_day n) = num (n * DAY_MS)"
proof -
  obtain y m d where c: "civil_of_day n = (y, m, d)" by (rule prod_cases3)
  note C = civil_of_day_spec [OF c]
  have y: "0 \<le> y" "y \<le> 9999" using assms C by (simp_all add: four_digit_day_def)
  have "month_lengths y ! (m - 1) \<le> 31" using C by (intro month_lengths_31) linarith
  moreover have range: "1 \<le> m" "m \<le> 12" "1 \<le> d" "d \<le> month_lengths y ! (m - 1)" using C by blast+
  ultimately have r: "nat y < 10 ^ 4" "m < 100" "d < 100" using y by simp_all
  have i: "iso_day n = pad_digits 4 (nat y) @ CHR ''-'' # pad_digits 2 m @ CHR ''-'' # pad_digits 2 d"
    using iso_day_parts [OF assms c] by simp
  have "take_year (iso_day n) = Some (y, CHR ''-'' # pad_digits 2 m @ CHR ''-'' # pad_digits 2 d)"
    using read_pad_digits [OF r(1)] y(1) by (simp add: take_year_def i)
  moreover have "take_part (CHR ''-'' # pad_digits 2 d) = Some (d, [])" using take_part_pad [OF r(3), of "[]"] by simp
  ultimately have p: "parse_iso_date (iso_day n) = Some (y, m, d)"
    using take_part_pad [OF r(2)] range by (simp add: parse_iso_date_def)
  have "- 1000000 \<le> n" "n < 3000000"
  proof -
    have "day_from_year y \<le> n" "n < day_from_year (y + 1)" using year_of_day_bounds [of n] C by simp_all
    then show "- 1000000 \<le> n" "n < 3000000" using day_from_year_low [of y] day_from_year_high [of "y + 1"] y unfolding distrib_left by linarith+
  qed
  then have "\<bar>n * DAY_MS\<bar> \<le> 8640000000000000" by (simp add: DAY_MS_def abs_if)
  moreover have "civil_day y m d = n" using C by blast
  ultimately show ?thesis using p by (simp add: date_parse_midnight_def c Let_def)
qed

lemma iso_day_inj: "four_digit_day n \<Longrightarrow> four_digit_day n' \<Longrightarrow> iso_day n = iso_day n' \<Longrightarrow> n = n'"
proof -
  assume a: "four_digit_day n" "four_digit_day n'" "iso_day n = iso_day n'"
  have "num (n * DAY_MS) = num (n' * DAY_MS)"
    using parse_iso_day [OF a(1)] parse_iso_day [OF a(2)] unfolding a(3) by metis
  then have "n * DAY_MS = n' * DAY_MS" by simp
  then show "n = n'" by (simp add: DAY_MS_def)
qed

lemma iso_date_inj: "four_digit_day n \<Longrightarrow> four_digit_day n' \<Longrightarrow> iso_date n = iso_date n' \<Longrightarrow> n = n'"
  using iso_day_inj [of n n'] by (simp add: iso_day_def)

lemma length_iso_date:
  assumes "four_digit_day n"
  shows "length (iso_date n) = 10"
proof (cases "civil_of_day n")
  case (fields y m d)
  then show ?thesis using assms civil_of_day_spec [OF fields] by (simp add: iso_date_def iso_year_def four_digit_day_def)
qed

section \<open>Runs of consecutive days\<close>

definition run_of :: "int \<Rightarrow> nat \<Rightarrow> int set" where
  "run_of d k = {d - int k <.. d}"

lemma run_of_0 [simp]: "run_of d 0 = {}" by (simp add: run_of_def)

lemma run_of_Suc: "run_of d (Suc k) = insert d (run_of (d - 1) k)"
  by (auto simp: run_of_def)

lemma run_of_mono: "k \<le> k' \<Longrightarrow> run_of d k \<subseteq> run_of d k'"
  by (auto simp: run_of_def)

definition longest_at :: "int set \<Rightarrow> int \<Rightarrow> nat \<Rightarrow> bool" where
  "longest_at D d k \<longleftrightarrow> (\<forall>j. run_of d j \<subseteq> D \<longleftrightarrow> j \<le> k)"

definition longest_run :: "int set \<Rightarrow> nat \<Rightarrow> bool" where
  "longest_run D k \<longleftrightarrow> (\<exists>d. run_of d k \<subseteq> D) \<and> (\<forall>d j. run_of d j \<subseteq> D \<longrightarrow> j \<le> k)"

lemma run_at_new: "run_of n (Suc j) \<subseteq> insert n D \<longleftrightarrow> run_of (n - 1) j \<subseteq> D"
proof -
  have "n \<notin> run_of (n - 1) j" by (simp add: run_of_def)
  then show ?thesis unfolding run_of_Suc by blast
qed

lemma longest_at_new:
  assumes k: "longest_at D (n - 1) k"
  shows "longest_at (insert n D) n (Suc k)"
proof -
  have "run_of n j \<subseteq> insert n D \<longleftrightarrow> j \<le> Suc k" for j
    using run_at_new k by (cases j) (auto simp: longest_at_def)
  then show ?thesis by (simp add: longest_at_def)
qed

lemma longest_at_absent: "d \<notin> D \<Longrightarrow> longest_at D d 0"
proof -
  assume d: "d \<notin> D"
  have "run_of d j \<subseteq> D \<longleftrightarrow> j \<le> 0" for j using d by (cases j) (auto simp: run_of_Suc)
  then show ?thesis by (simp add: longest_at_def)
qed

lemma run_ends: "run_of d j \<subseteq> insert n D \<Longrightarrow> (\<forall>x \<in> D. x < n) \<Longrightarrow> d \<noteq> n \<Longrightarrow> run_of d j \<subseteq> D"
proof -
  assume a: "run_of d j \<subseteq> insert n D" "\<forall>x \<in> D. x < n" "d \<noteq> n"
  have "n \<notin> run_of d j"
  proof
    assume n: "n \<in> run_of d j"
    then have "n < d" "d \<in> run_of d j" using a(3) by (auto simp: run_of_def)
    then show False using a by force
  qed
  then show ?thesis using a(1) by blast
qed

lemma longest_run_new:
  assumes "\<forall>x \<in> D. x < n" "longest_run D m" "longest_at (insert n D) n k"
  shows "longest_run (insert n D) (max m k)"
proof -
  obtain d where d: "run_of d m \<subseteq> D" using assms(2) by (auto simp: longest_run_def)
  have "run_of n k \<subseteq> insert n D" using assms(3) by (auto simp: longest_at_def)
  then have ex: "\<exists>d. run_of d (max m k) \<subseteq> insert n D" using d by (cases "m \<le> k") (auto simp: max_def)
  have "j \<le> max m k" if r: "run_of e j \<subseteq> insert n D" for e j
  proof (cases "e = n")
    case True
    then show ?thesis using r assms(3) by (auto simp: longest_at_def)
  next
    case False
    then have "j \<le> m" using run_ends [OF r assms(1) False] assms(2) by (auto simp: longest_run_def)
    then show ?thesis by simp
  qed
  with ex show ?thesis by (auto simp: longest_run_def)
qed

lemma longest_run_empty: "longest_run {} 0"
proof -
  have "run_of d j \<subseteq> {} \<Longrightarrow> j \<le> 0" for d j by (cases j) (auto simp: run_of_Suc)
  then show ?thesis by (auto simp: longest_run_def)
qed

lemma sorted_last: "sorted ds \<Longrightarrow> x \<in> set ds \<Longrightarrow> x \<le> last (ds :: int list)"
  by (induction ds) auto

lemma four_digit_range:
  assumes "- 719000 \<le> n" "n \<le> 2932000"
  shows "four_digit_day n"
proof -
  have "day_from_year (year_of_day n) \<le> n" "n < day_from_year (year_of_day n + 1)" using year_of_day_bounds by simp_all
  then show ?thesis
    using day_from_year_low [of "year_of_day n"] day_from_year_high [of "year_of_day n + 1"] assms
    unfolding four_digit_day_def distrib_left by linarith
qed

end
