(* ===== verification/Client_Statistics.thy ===== *)
theory Client_Statistics
  imports Js_Doubles Js_Dates
begin

text \<open>
  The statistics of finished games (\<^verbatim>\<open>frontend/src/lib/game-statistics.ts\<close>): the day number of a
  calendar day, the streaks over the winning days, the win rate and the histogram of guesses.  The
  loop that computes the streaks is characterized by the runs of consecutive winning days.
\<close>

section \<open>Day numbers\<close>

definition dayNumber :: "string \<Rightarrow> jsnum" where
  "dayNumber day = (case date_parse_midnight day of Fin r \<Rightarrow> num \<lfloor>r / of_int DAY_MS\<rfloor> | x \<Rightarrow> x)"

section \<open>Streaks\<close>

definition MAX_GUESSES :: nat where "MAX_GUESSES = 6"

record GameRecord =
  gr_day :: string
  gr_won :: bool
  gr_guesses :: jsnum

definition num_after :: "jsnum \<Rightarrow> jsnum \<Rightarrow> bool" where
  "num_after a b \<longleftrightarrow> num_lt (num 0) (num_sub a b)"

definition win_days :: "GameRecord list \<Rightarrow> jsnum list" where
  "win_days records = sort_by num_after (set_of (map (\<lambda>r. dayNumber (gr_day r)) (filter gr_won records)))"

fun streak_loop :: "jsnum list \<Rightarrow> nat \<Rightarrow> nat \<Rightarrow> jsnum option \<Rightarrow> nat \<times> nat" where
  "streak_loop [] run m previous = (run, m)"
| "streak_loop (d # ds) run m previous =
    (let run' = (case previous of Some p \<Rightarrow> if num_eq d (num_add p (num 1)) then run + 1 else 1 | None \<Rightarrow> 1)
     in streak_loop ds run' (max m run') (Some d))"

definition calculateStreaks :: "GameRecord list \<Rightarrow> string \<Rightarrow> nat \<times> nat" where
  "calculateStreaks records today =
    (let winDays = win_days records; (run, m) = streak_loop winDays 0 0 None
     in (if winDays \<noteq> [] \<and> num_le (num_sub (dayNumber today) (last winDays)) (num 1) then run else 0, m))"

section \<open>Rates and histogram\<close>

definition calculateWinRate :: "nat \<Rightarrow> nat \<Rightarrow> int" where
  "calculateWinRate wins played = (if played \<le> 0 then 0 else percent_d wins played)"

fun num_trunc :: "jsnum \<Rightarrow> jsnum" where
  "num_trunc (Fin r) = num (if 0 \<le> r then \<lfloor>r\<rfloor> else \<lceil>r\<rceil>)"
| "num_trunc x = x"

record GuessDistribution =
  ds_buckets :: "nat list"
  ds_max :: nat

text \<open>An index that is not a number adds no element to the array.\<close>

definition bucket_index :: "jsnum \<Rightarrow> nat option" where
  "bucket_index guesses = (case num_sub (num_min (num_max (num_trunc guesses) (num 1)) (num (int MAX_GUESSES))) (num 1) of
     Fin r \<Rightarrow> Some (nat \<lfloor>r\<rfloor>) | _ \<Rightarrow> None)"

definition count_win :: "GameRecord \<Rightarrow> nat list \<Rightarrow> nat list" where
  "count_win r buckets = (if \<not> gr_won r then buckets
     else case bucket_index (gr_guesses r) of None \<Rightarrow> buckets | Some i \<Rightarrow> buckets[i := buckets ! i + 1])"

definition buildGuessDistribution :: "GameRecord list \<Rightarrow> GuessDistribution" where
  "buildGuessDistribution records =
    (let buckets = fold count_win records (replicate MAX_GUESSES 0)
     in \<lparr>ds_buckets = buckets, ds_max = foldr max buckets 0\<rparr>)"

record GameStatistics =
  st_played :: nat
  st_wins :: nat
  st_losses :: nat
  st_winRate :: int
  st_currentStreak :: nat
  st_maxStreak :: nat
  st_distribution :: GuessDistribution

definition calculateGameStatistics :: "GameRecord list \<Rightarrow> string \<Rightarrow> GameStatistics" where
  "calculateGameStatistics records today =
    (let played = length records; wins = length (filter gr_won records); (current, m) = calculateStreaks records today
     in \<lparr>st_played = played, st_wins = wins, st_losses = played - wins, st_winRate = calculateWinRate wins played,
         st_currentStreak = current, st_maxStreak = m, st_distribution = buildGuessDistribution records\<rparr>)"

section \<open>Runs of days\<close>

text \<open>The winning days as a set of day numbers, and the days of a run.\<close>

definition won_on :: "GameRecord list \<Rightarrow> int set" where
  "won_on records = {n. \<exists>r \<in> set records. gr_won r \<and> dayNumber (gr_day r) = num n}"

lemma num_after_num: "num_after (num a) (num b) \<longleftrightarrow> b < a"
  by (simp add: num_after_def)

interpretation day_order: comparator num_after "\<lambda>x. \<exists>i. x = num i"
  by unfold_locales (auto simp: num_after_num)

text \<open>The winning days as integers, in order.\<close>

lemma win_days_ints:
  assumes "\<forall>r \<in> set records. gr_won r \<longrightarrow> (\<exists>n. dayNumber (gr_day r) = num n)"
  shows "\<exists>ns. win_days records = map num ns \<and> sorted_wrt (<) ns \<and> set ns = won_on records"
proof -
  let ?w = "win_days records"
  have w: "set ?w = dayNumber ` gr_day ` {r \<in> set records. gr_won r}" by (auto simp: win_days_def set_set_of)
  then have all: "\<forall>x \<in> set ?w. \<exists>i. x = num i" using assms by auto
  then obtain ns where ns: "?w = map num ns" by (metis ex_map_conv)
  have "\<forall>x \<in> set (set_of (map (\<lambda>r. dayNumber (gr_day r)) (filter gr_won records))). \<exists>i. x = num i"
    using assms by (auto simp: set_set_of)
  then have "sorted_wrt (\<lambda>x y. \<not> num_after x y) ?w" unfolding win_days_def by (rule day_order.ordered_sort)
  then have le: "sorted ns" unfolding ns by (simp add: sorted_wrt_map num_after_num not_less)
  have "distinct ?w" unfolding win_days_def by (metis mset_sort_by mset_eq_imp_distinct_iff distinct_set_of)
  then have "distinct ns" unfolding ns by (simp add: distinct_map)
  with le have "sorted_wrt (<) ns" by (simp add: strict_sorted_iff)
  moreover have "set ns = won_on records"
  proof -
    have "n \<in> set ns \<longleftrightarrow> num n \<in> set ?w" for n unfolding ns by auto
    then show ?thesis unfolding w by (auto simp: won_on_def image_iff) metis+
  qed
  ultimately show ?thesis using ns by blast
qed

text \<open>
  The invariant of the loop: \<^verbatim>\<open>run\<close> is the longest run that ends at the last day seen, and \<^verbatim>\<open>m\<close> the
  longest run among the days seen.
\<close>

lemma streak_loop_runs:
  assumes "sorted_wrt (<) (ds @ ns)" "longest_run (set ds) m" "ds \<noteq> []" "longest_at (set ds) (last ds) run"
    and "streak_loop (map num ns) run m (Some (num (last ds))) = (run', m')"
  shows "longest_run (set (ds @ ns)) m' \<and> longest_at (set (ds @ ns)) (last (ds @ ns)) run'"
  using assms
proof (induction ns arbitrary: ds run m)
  case (Cons n ns)
  let ?run = "if n = last ds + 1 then run + 1 else 1"
  have lt: "\<forall>x \<in> set ds. x < n" using Cons.prems(1) by (simp add: sorted_wrt_append)
  have at_new: "longest_at (insert n (set ds)) n ?run"
  proof (cases "n = last ds + 1")
    case True
    then show ?thesis using longest_at_new Cons.prems(4) by simp
  next
    case False
    have s: "sorted ds" using Cons.prems(1) by (simp add: sorted_wrt_append strict_sorted_iff)
    have "n - 1 \<notin> set ds"
    proof
      assume "n - 1 \<in> set ds"
      then have "n - 1 \<le> last ds" by (rule sorted_last [OF s])
      moreover have "last ds < n" using lt Cons.prems(3) by simp
      ultimately show False using False by linarith
    qed
    then show ?thesis using longest_at_new [OF longest_at_absent] False by simp
  qed
  have "streak_loop (map num ns) ?run (max m ?run) (Some (num (last (ds @ [n])))) = (run', m')"
    using Cons.prems(5) by (simp add: Let_def split: if_splits)
  moreover have "longest_run (set (ds @ [n])) (max m ?run)" using longest_run_new [OF lt Cons.prems(2) at_new] by simp
  ultimately show ?case using Cons.IH [of "ds @ [n]" "max m ?run" ?run] Cons.prems(1) at_new by simp
qed simp

text \<open>The streaks of the loop, from the empty set of days on.\<close>

lemma streak_loop_start:
  assumes "sorted_wrt (<) ns" "streak_loop (map num ns) 0 0 None = (run, m)"
  shows "longest_run (set ns) m \<and> (ns \<noteq> [] \<longrightarrow> longest_at (set ns) (last ns) run)"
proof (cases ns)
  case Nil
  then show ?thesis using assms(2) longest_run_empty by simp
next
  case (Cons n ns')
  have new: "longest_at {n} n 1" using longest_at_new [OF longest_at_absent, of n "{}"] by simp
  then have "longest_run {n} 1" using longest_run_new [of "{}" n 0 1] longest_run_empty by simp
  then show ?thesis
    using streak_loop_runs [of "[n]" ns' 1 1 run m] assms new by (simp add: Cons)
qed

lemma calculateStreaks_runs:
  assumes "\<forall>r \<in> set records. gr_won r \<longrightarrow> (\<exists>n. dayNumber (gr_day r) = num n)" and t: "dayNumber today = num t"
    and c: "calculateStreaks records today = (current, m)"
  shows "longest_run (won_on records) m"
    and "if won_on records = {} \<or> 1 < t - Max (won_on records) then current = 0
      else longest_at (won_on records) (Max (won_on records)) current"
proof -
  obtain ns where ns: "win_days records = map num ns" "sorted_wrt (<) ns" "set ns = won_on records"
    using win_days_ints [OF assms(1)] by blast
  obtain run where l: "streak_loop (map num ns) 0 0 None = (run, m)"
    and cur: "current = (if ns \<noteq> [] \<and> num_le (num_sub (num t) (last (map num ns))) (num 1) then run else 0)"
    using c by (auto simp: calculateStreaks_def ns t Let_def split: prod.splits)
  note S = streak_loop_start [OF ns(2) l]
  then show "longest_run (won_on records) m" by (simp add: ns)
  have "Max (set ns) = last ns" if "ns \<noteq> []"
    using sorted_last [of ns] ns(2) that by (intro Max_eqI) (auto simp: strict_sorted_iff)
  moreover have "num_le (num_sub (num t) (num x)) (num 1) \<longleftrightarrow> t - x \<le> 1" for x :: int
    by (auto simp: num_le_def simp flip: of_int_diff)
  ultimately have "current = (if ns = [] \<or> 1 < t - Max (set ns) then 0 else run)"
    using cur by (cases "ns = []") (simp_all add: last_map not_less)
  then show "if won_on records = {} \<or> 1 < t - Max (won_on records) then current = 0
      else longest_at (won_on records) (Max (won_on records)) current"
    using S \<open>ns \<noteq> [] \<Longrightarrow> Max (set ns) = last ns\<close> by (cases "ns = []") (simp_all flip: ns(3))
qed

lemma longest_at_le: "longest_run D m \<Longrightarrow> longest_at D d k \<Longrightarrow> k \<le> m"
  unfolding longest_run_def longest_at_def by blast

section \<open>The histogram\<close>

lemma bucket_index_range: "guesses \<noteq> NaN \<Longrightarrow> \<exists>i < MAX_GUESSES. bucket_index guesses = Some i"
proof -
  assume "guesses \<noteq> NaN"
  then obtain x where "x \<in> {num_trunc guesses}" "x = PosInf \<or> x = NegInf \<or> (\<exists>i. x = num i)" by (cases guesses) auto
  then show ?thesis
    by (auto simp: bucket_index_def MAX_GUESSES_def num_max_def num_min_def nat_less_iff simp flip: of_int_diff)
qed

text \<open>
  The bucket of a number of guesses: the whole number of guesses, where the first bucket also takes
  what is less than two and the last what is six or more.
\<close>

definition falls_in :: "nat \<Rightarrow> jsnum \<Rightarrow> bool" where
  "falls_in i g \<longleftrightarrow> (i = 0 \<or> num_le (num (int i + 1)) g) \<and> (i = 5 \<or> num_lt g (num (int i + 2)))"

lemma bucket_index_num: "num_trunc g = num k \<Longrightarrow> bucket_index g = Some (nat (min (max k 1) 6 - 1))"
  by (auto simp: bucket_index_def MAX_GUESSES_def num_max_def num_min_def nat_eq_iff simp flip: of_int_diff)

lemma bucket_index_falls:
  assumes "g \<noteq> NaN" "i < MAX_GUESSES"
  shows "bucket_index g = Some i \<longleftrightarrow> falls_in i g"
proof -
  have i: "i = 0 \<or> i = 1 \<or> i = 2 \<or> i = 3 \<or> i = 4 \<or> i = 5" using assms(2) by (auto simp: MAX_GUESSES_def)
  show ?thesis
  proof (cases g)
    case (Fin r)
    let ?t = "if 0 \<le> r then \<lfloor>r\<rfloor> else \<lceil>r\<rceil>"
    have b: "bucket_index g = Some (nat (min (max ?t 1) 6 - 1))"
      by (rule bucket_index_num) (simp add: Fin)
    have t: "k \<le> ?t \<longleftrightarrow> of_int k \<le> r" if "1 \<le> k" for k :: int
    proof (cases "0 \<le> r")
      case True
      then show ?thesis by (simp add: le_floor_iff)
    next
      case False
      have "(0 :: rat) \<le> of_int k" using that by simp
      then have "r < of_int k" "\<lceil>r\<rceil> \<le> 0" using False by (simp_all add: ceiling_le_iff)
      then have "\<not> of_int k \<le> r" "\<not> k \<le> \<lceil>r\<rceil>" using that by linarith+
      then show ?thesis using False by simp
    qed
    have "falls_in i g \<longleftrightarrow> (i = 0 \<or> int i + 1 \<le> ?t) \<and> (i = 5 \<or> \<not> int i + 2 \<le> ?t)"
      using t [of "int i + 1"] t [of "int i + 2"] by (auto simp: falls_in_def num_le_def Fin not_le)
    moreover have "(i = 0 \<or> int i + 1 \<le> k) \<and> (i = 5 \<or> \<not> int i + 2 \<le> k) \<longleftrightarrow> nat (min (max k 1) 6 - 1) = i" for k :: int
      using i by (elim disjE) ((simp add: nat_eq_iff min_def max_def; fail) | (simp add: nat_eq_iff min_def max_def, presburger))+
    ultimately show ?thesis using b by (simp only: option.inject)
  qed (use assms(1) i in \<open>auto simp: falls_in_def bucket_index_def MAX_GUESSES_def num_max_def num_min_def num_le_def\<close>)
qed

text \<open>Every bucket holds the number of the wins that fall in it.\<close>

lemma buckets_count:
  assumes "\<forall>r \<in> set records. gr_won r \<longrightarrow> gr_guesses r \<noteq> NaN" "length bs = MAX_GUESSES" "i < MAX_GUESSES"
  shows "length (fold count_win records bs) = MAX_GUESSES \<and>
    fold count_win records bs ! i = bs ! i + length (filter (\<lambda>r. gr_won r \<and> falls_in i (gr_guesses r)) records)"
  using assms
proof (induction records arbitrary: bs)
  case (Cons r rs)
  show ?case
  proof (cases "gr_won r")
    case True
    then have "gr_guesses r \<noteq> NaN" using Cons.prems by simp
    then obtain k where k: "bucket_index (gr_guesses r) = Some k" "k < length bs"
      using Cons.prems bucket_index_range [of "gr_guesses r"] by auto
    then have "falls_in i (gr_guesses r) \<longleftrightarrow> k = i"
      using bucket_index_falls [OF \<open>gr_guesses r \<noteq> NaN\<close> Cons.prems(3)] by auto
    then show ?thesis using Cons True k by (simp add: count_win_def nth_list_update)
  next
    case False
    then show ?thesis using Cons by (simp add: count_win_def)
  qed
qed simp

lemma sum_list_bump: "i < length bs \<Longrightarrow> sum_list (bs[i := Suc (bs ! i)]) = Suc (sum_list bs)"
  by (induction bs arbitrary: i) (auto simp: nth_Cons list_update_def split: nat.splits)

lemma buckets_sum:
  assumes "\<forall>r \<in> set records. gr_won r \<longrightarrow> gr_guesses r \<noteq> NaN" "length bs = MAX_GUESSES"
  shows "length (fold count_win records bs) = MAX_GUESSES \<and>
    sum_list (fold count_win records bs) = sum_list bs + length (filter gr_won records)"
  using assms
proof (induction records arbitrary: bs)
  case (Cons r rs)
  show ?case
  proof (cases "gr_won r")
    case True
    then obtain i where i: "bucket_index (gr_guesses r) = Some i" "i < length bs"
      using Cons.prems bucket_index_range [of "gr_guesses r"] by auto
    then show ?thesis using Cons True by (simp add: count_win_def sum_list_bump)
  next
    case False
    then show ?thesis using Cons by (simp add: count_win_def)
  qed
qed simp

lemma foldr_max: "bs \<noteq> [] \<Longrightarrow> foldr max bs (0 :: nat) = Max (set bs)"
proof (induction bs)
  case (Cons b bs)
  then show ?case by (cases "bs = []") simp_all
qed simp

lemma winRate_range: "wins \<le> played \<Longrightarrow> 0 \<le> calculateWinRate wins played \<and> calculateWinRate wins played \<le> 100"
  using percent_range [of wins played] by (cases "played = 0") (simp_all add: calculateWinRate_def)

text \<open>The rate is not the nearest whole number to 57.5 percent.\<close>

lemma winRate_23_40: "calculateWinRate 23 40 = 57"
  by (simp add: calculateWinRate_def percent_23_40)

text \<open>
  C20: for games on calendar days with a number of guesses, the longest streak is the length of the longest run of
  consecutive days with a win, and the current streak that of the longest run that ends at the
  latest winning day, when that is yesterday or later, and zero otherwise; the wins and losses
  add up to the games played, and the rate is a percentage.  There are six buckets: each counts the
  wins that took its number of guesses, the last those that took six or more, together they hold
  every win, and the largest of them is the scale.
\<close>

theorem game_statistics_exact:
  assumes "\<forall>r \<in> set records. gr_won r \<longrightarrow> (\<exists>n. dayNumber (gr_day r) = num n) \<and> gr_guesses r \<noteq> NaN"
    and t: "dayNumber today = num t" and s: "s = calculateGameStatistics records today"
  shows "longest_run (won_on records) (st_maxStreak s) \<and>
    (if won_on records = {} \<or> 1 < t - Max (won_on records) then st_currentStreak s = 0
     else longest_at (won_on records) (Max (won_on records)) (st_currentStreak s)) \<and>
    st_currentStreak s \<le> st_maxStreak s \<and>
    st_wins s + st_losses s = st_played s \<and> 0 \<le> st_winRate s \<and> st_winRate s \<le> 100 \<and>
    st_wins s = length (filter gr_won records) \<and> length (ds_buckets (st_distribution s)) = 6 \<and>
    (\<forall>i < 6. ds_buckets (st_distribution s) ! i = length (filter (\<lambda>r. gr_won r \<and> falls_in i (gr_guesses r)) records)) \<and>
    sum_list (ds_buckets (st_distribution s)) = st_wins s \<and>
    ds_max (st_distribution s) = Max (set (ds_buckets (st_distribution s)))"
proof -
  obtain c m where cm: "calculateStreaks records today = (c, m)" by fastforce
  have v: "\<forall>r \<in> set records. gr_won r \<longrightarrow> (\<exists>n. dayNumber (gr_day r) = num n)"
    and g: "\<forall>r \<in> set records. gr_won r \<longrightarrow> gr_guesses r \<noteq> NaN" using assms(1) by auto
  note R = calculateStreaks_runs [OF v t cm]
  then have cm_le: "c \<le> m" using longest_at_le [of "won_on records" m] by (auto split: if_splits)
  let ?b = "fold count_win records (replicate MAX_GUESSES 0)"
  have "sum_list ?b = length (filter gr_won records)"
    using buckets_sum [OF g, of "replicate MAX_GUESSES 0"] by (simp add: sum_list_replicate)
  moreover have "length (filter gr_won records) \<le> length records" by simp
  moreover have "length ?b = MAX_GUESSES" "\<forall>i < MAX_GUESSES. ?b ! i = length (filter (\<lambda>r. gr_won r \<and> falls_in i (gr_guesses r)) records)"
    using buckets_sum [OF g, of "replicate MAX_GUESSES 0"] buckets_count [OF g, of "replicate MAX_GUESSES 0"] by auto
  moreover from this(1) have "foldr max ?b 0 = Max (set ?b)" by (intro foldr_max) (auto simp: MAX_GUESSES_def)
  ultimately show ?thesis
    using R winRate_range cm_le
    by (simp add: s calculateGameStatistics_def cm Let_def buildGuessDistribution_def MAX_GUESSES_def)
qed

definition sample_games :: "GameRecord list" where
  "sample_games = [\<lparr>gr_day = ''2024-02-28'', gr_won = True, gr_guesses = num 3\<rparr>, \<lparr>gr_day = ''2024-03-01'', gr_won = True, gr_guesses = num 9\<rparr>,
     \<lparr>gr_day = ''2024-02-29'', gr_won = True, gr_guesses = num 4\<rparr>, \<lparr>gr_day = ''2024-03-01'', gr_won = False, gr_guesses = num 6\<rparr>]"

lemma game_statistics_exact_witness:
  "longest_run (won_on sample_games) 3 \<and> st_currentStreak (calculateGameStatistics sample_games ''2024-03-02'') \<le> 3 \<and>
    ds_buckets (st_distribution (calculateGameStatistics sample_games ''2024-03-02'')) ! 5 =
      length (filter (\<lambda>r. gr_won r \<and> falls_in 5 (gr_guesses r)) sample_games)"
proof -
  have d: "dayNumber ''2024-02-28'' = num 19781" "dayNumber ''2024-02-29'' = num 19782" "dayNumber ''2024-03-01'' = num 19783"
    "dayNumber ''2024-03-02'' = num 19784"
    by code_simp+
  have m: "st_maxStreak (calculateGameStatistics sample_games ''2024-03-02'') = 3" by code_simp
  have "\<forall>r \<in> set sample_games. gr_won r \<longrightarrow> (\<exists>n. dayNumber (gr_day r) = num n) \<and> gr_guesses r \<noteq> NaN"
    using d(1-3) by (auto simp: sample_games_def intro: exI [of _ 19781] exI [of _ 19782] exI [of _ 19783])
  note S = game_statistics_exact [OF this d(4) refl]
  have "(5 :: nat) < 6" by simp
  then show ?thesis using S unfolding m by blast
qed

end
