(* ===== verification/Client_Stores.thy ===== *)
theory Client_Stores
  imports Client_Words "HOL-Library.Word"
begin

text \<open>
  The stores of the web client that views subscribe to: toasts (\<^verbatim>\<open>frontend/src/store/useToastStore.ts\<close>),
  the history of guesses (\<^verbatim>\<open>useGuessHistoryStore.ts\<close>) and unlocked achievements
  (\<^verbatim>\<open>useAchievementStore.ts\<close>), and the hard-mode check that raises a toast (\<^verbatim>\<open>lib/hard-mode.ts\<close>).
  A store counts how often it told its subscribers.  The identifier of a toast is a hash of its text
  in 32-bit arithmetic.
\<close>

section \<open>Toasts\<close>

datatype ToastTone = Info | Success | Failure | Warning

record ToastItem =
  ti_id :: string
  ti_message :: string
  ti_tone :: ToastTone
  ti_durationMs :: int
  ti_createdAt :: int

text \<open>The list, the timers set for the identifiers, and the number of notifications.\<close>

record toast_store =
  ts_list :: "ToastItem list"
  ts_timers :: "(string \<times> int) list"
  ts_emits :: nat

definition DEFAULT_DURATION_MS :: int where "DEFAULT_DURATION_MS = 2500"

text \<open>\<^verbatim>\<open>(hash * 31 + code) | 0\<close>: exact in the numbers of the language, then cut to 32 bits.\<close>

definition hash_step :: "char \<Rightarrow> 32 word \<Rightarrow> 32 word" where
  "hash_step c h = h * 31 + of_char c"

definition toast_hash :: "string \<Rightarrow> 32 word" where
  "toast_hash message = fold hash_step message 0"

text \<open>\<^verbatim>\<open>toString(36)\<close> of a natural number.\<close>

definition digit36 :: "nat \<Rightarrow> char" where
  "digit36 d = (if d < 10 then char_of (48 + d) else char_of (87 + d))"

fun show_base36 :: "nat \<Rightarrow> string" where
  "show_base36 n = (if n < 36 then [digit36 n] else show_base36 (n div 36) @ [digit36 (n mod 36)])"

declare show_base36.simps [simp del]

definition deterministicId :: "string \<Rightarrow> string" where
  "deterministicId message =
     ''toast-'' @ show_nat (length message) @ ''-'' @ show_base36 (nat \<bar>sint (toast_hash message)\<bar>)"

definition pushToast :: "int \<Rightarrow> string \<Rightarrow> ToastTone option \<Rightarrow> int option \<Rightarrow> toast_store \<Rightarrow> string option \<times> toast_store" where
  "pushToast now message tone durationMs s =
    (let normalized = trim message in
     if normalized = [] then (None, s)
     else if \<exists>t \<in> set (ts_list s). ti_message t = normalized then (None, s)
     else let item = \<lparr>ti_id = deterministicId normalized, ti_message = normalized,
            ti_tone = (case tone of None \<Rightarrow> Info | Some t \<Rightarrow> t),
            ti_durationMs = (case durationMs of None \<Rightarrow> DEFAULT_DURATION_MS | Some d \<Rightarrow> d), ti_createdAt = now\<rparr>
       in (Some (ti_id item), s\<lparr>ts_list := ts_list s @ [item], ts_emits := ts_emits s + 1,
            ts_timers := (if ti_durationMs item > 0 then ts_timers s @ [(ti_id item, ti_durationMs item)] else ts_timers s)\<rparr>))"

definition dismissToast :: "string \<Rightarrow> toast_store \<Rightarrow> toast_store" where
  "dismissToast i s =
    (let next = filter (\<lambda>t. ti_id t \<noteq> i) (ts_list s)
     in if length next = length (ts_list s) then s else s\<lparr>ts_list := next, ts_emits := ts_emits s + 1\<rparr>)"

definition clearToasts :: "toast_store \<Rightarrow> toast_store" where
  "clearToasts s = (if ts_list s = [] then s else s\<lparr>ts_list := [], ts_emits := ts_emits s + 1\<rparr>)"

text \<open>A timer fires: it is gone, and its toast is dismissed.\<close>

definition toast_timer :: "nat \<Rightarrow> toast_store \<Rightarrow> toast_store" where
  "toast_timer k s = (if k < length (ts_timers s)
     then dismissToast (fst (ts_timers s ! k)) (s\<lparr>ts_timers := take k (ts_timers s) @ drop (Suc k) (ts_timers s)\<rparr>) else s)"

text \<open>The check before a guess is submitted.\<close>

definition guardHardModeGuess :: "int \<Rightarrow> string \<Rightarrow> EvaluatedGuess list \<Rightarrow> bool \<Rightarrow> toast_store \<Rightarrow> bool \<times> toast_store" where
  "guardHardModeGuess now guess previousGuesses hardMode s =
    (if \<not> hardMode then (True, s)
     else let result = validateHardModeGuess guess previousGuesses;
              raised = (case vr_error result of None \<Rightarrow> False | Some e \<Rightarrow> e \<noteq> [])
          in (vr_isValid result,
              if \<not> vr_isValid result \<and> raised then snd (pushToast now (the (vr_error result)) (Some Warning) None s) else s))"

section \<open>Guesses and achievements\<close>

record GuessLetter =
  gl_letter :: string
  gl_state :: LetterStatus

record GuessEntry =
  ge_word :: string
  ge_letters :: "GuessLetter list"
  ge_submittedAt :: int

record guess_store =
  gh_guesses :: "GuessEntry list"
  gh_emits :: nat

definition recordGuess :: "GuessLetter list \<Rightarrow> int \<Rightarrow> guess_store \<Rightarrow> guess_store" where
  "recordGuess letters submittedAt s =
    (if letters = [] then s
     else s\<lparr>gh_guesses := gh_guesses s @ [\<lparr>ge_word = toLowerCase (concat (map gl_letter letters)), ge_letters = letters,
       ge_submittedAt = submittedAt\<rparr>], gh_emits := gh_emits s + 1\<rparr>)"

definition replaceGuesses :: "GuessEntry list \<Rightarrow> guess_store \<Rightarrow> guess_store" where
  "replaceGuesses entries s = s\<lparr>gh_guesses := entries, gh_emits := gh_emits s + 1\<rparr>"

definition clearGuesses :: "guess_store \<Rightarrow> guess_store" where
  "clearGuesses s = (if gh_guesses s = [] then s else s\<lparr>gh_guesses := [], gh_emits := gh_emits s + 1\<rparr>)"

record UnlockedAchievement =
  ua_id :: string
  ua_name :: string
  ua_icon :: string

record achievement_store =
  ac_queue :: "UnlockedAchievement list"
  ac_emits :: nat

definition announceAchievement :: "UnlockedAchievement \<Rightarrow> achievement_store \<Rightarrow> achievement_store" where
  "announceAchievement a s =
    (if \<exists>b \<in> set (ac_queue s). ua_id b = ua_id a then s else s\<lparr>ac_queue := ac_queue s @ [a], ac_emits := ac_emits s + 1\<rparr>)"

definition dismissCurrentAchievement :: "achievement_store \<Rightarrow> achievement_store" where
  "dismissCurrentAchievement s = (if ac_queue s = [] then s else s\<lparr>ac_queue := tl (ac_queue s), ac_emits := ac_emits s + 1\<rparr>)"

definition clearAchievements :: "achievement_store \<Rightarrow> achievement_store" where
  "clearAchievements s = s\<lparr>ac_queue := [], ac_emits := ac_emits s + 1\<rparr>"

definition useCurrentAchievement :: "achievement_store \<Rightarrow> UnlockedAchievement option" where
  "useCurrentAchievement s = elem (ac_queue s) 0"

section \<open>Identifiers that collide\<close>

text \<open>Swapping two neighbours of a text for two with the same weight keeps the hash.\<close>

lemma toast_hash_pair:
  assumes "31 * (of_char a :: int) + of_char b = 31 * of_char c + of_char d"
  shows "toast_hash (xs @ [a, b] @ ys) = toast_hash (xs @ [c, d] @ ys)"
proof -
  have "of_int (31 * of_char a + of_char b) = (of_int (31 * of_char c + of_char d) :: 32 word)" using assms by simp
  then have "31 * of_char a + of_char b = (31 * of_char c + of_char d :: 32 word)" by (simp only: of_int_add of_int_mult of_int_numeral of_int_of_char)
  then have "hash_step b (hash_step a h) = hash_step d (hash_step c h)" for h
    by (simp add: hash_step_def algebra_simps)
  then show ?thesis by (simp add: toast_hash_def)
qed

text \<open>No two toasts shown have the same text, and every one is there once pushed.\<close>

definition toasts_ok :: "toast_store \<Rightarrow> bool" where
  "toasts_ok s \<longleftrightarrow> distinct (map ti_message (ts_list s)) \<and> (\<forall>t \<in> set (ts_list s). ti_id t = deterministicId (ti_message t) \<and> ti_message t \<noteq> [])"

lemma toasts_ok_push: "toasts_ok s \<Longrightarrow> toasts_ok (snd (pushToast now m tone d s))"
  by (auto simp: pushToast_def Let_def toasts_ok_def)

lemma toasts_ok_dismiss: "toasts_ok s \<Longrightarrow> toasts_ok (dismissToast i s)"
  by (auto simp: dismissToast_def Let_def toasts_ok_def distinct_map_filter)

lemma toasts_ok_clear: "toasts_ok s \<Longrightarrow> toasts_ok (clearToasts s)"
  by (simp add: clearToasts_def toasts_ok_def)

lemma toasts_ok_timer: "toasts_ok s \<Longrightarrow> toasts_ok (toast_timer k s)"
  using toasts_ok_dismiss [of "s\<lparr>ts_timers := take k (ts_timers s) @ drop (Suc k) (ts_timers s)\<rparr>"]
  by (simp add: toast_timer_def toasts_ok_def)

text \<open>
  Dismissing a toast removes all whose text has its length and hash: two texts that differ in two neighbours
  of equal weight, like \<^verbatim>\<open>Aa\<close> and \<^verbatim>\<open>BB\<close>, are both shown, under one identifier, and the timer of
  the first takes the second away with it.
\<close>

theorem toast_ids_collide:
  assumes w: "31 * (of_char a :: int) + of_char b = 31 * of_char c + of_char d" and ne: "(a, b) \<noteq> (c, d)"
    and t: "trim (xs @ [a, b] @ ys) = xs @ [a, b] @ ys" "trim (xs @ [c, d] @ ys) = xs @ [c, d] @ ys"
    and s: "ts_list s = []"
  shows "let (i, s1) = pushToast n (xs @ [a, b] @ ys) tn (Some 1) s; (j, s2) = pushToast m (xs @ [c, d] @ ys) tn (Some 1000) s1
    in i = j \<and> i \<noteq> None \<and> length (ts_list s2) = 2 \<and> ts_list (dismissToast (the i) s2) = []"
proof -
  have "deterministicId (xs @ [a, b] @ ys) = deterministicId (xs @ [c, d] @ ys)"
    using toast_hash_pair [OF w, of xs ys] by (simp add: deterministicId_def)
  moreover have "xs @ [a, b] @ ys \<noteq> xs @ [c, d] @ ys" using ne by simp
  ultimately show ?thesis using s t by (simp add: pushToast_def Let_def dismissToast_def)
qed

lemma toast_ids_collide_witness: "deterministicId ''Aa'' = deterministicId ''BB''"
proof -
  have t: "trim ([] @ [CHR ''A'', CHR ''a''] @ []) = [] @ [CHR ''A'', CHR ''a''] @ []"
    "trim ([] @ [CHR ''B'', CHR ''B''] @ []) = [] @ [CHR ''B'', CHR ''B''] @ []"
    by code_simp+
  have w: "31 * (of_char (CHR ''A'') :: int) + of_char (CHR ''a'') = 31 * of_char (CHR ''B'') + of_char (CHR ''B'')" by simp
  show ?thesis
    using toast_ids_collide [OF w _ t, of "\<lparr>ts_list = [], ts_timers = [], ts_emits = 0\<rparr>" 0 None 0] t
    by (simp add: pushToast_def Let_def)
qed

end
