(* ===== verification/Client_Flow.thy ===== *)
theory Client_Flow
  imports Js_Values
begin

text \<open>
  A transaction of the web client from the click to its confirmation: the snapshot shown while it is
  under way (\<^verbatim>\<open>frontend/src/lib/stellar/gameplay-flow.ts\<close>), signing and submission
  (\<^verbatim>\<open>lib/stellar/wallet-flow.ts\<close>, \<^verbatim>\<open>network.ts\<close>, \<^verbatim>\<open>soroban.ts\<close>), the wallet
  (\<^verbatim>\<open>providers/stellar-wallet-provider.tsx\<close>) and the hook that drives them
  (\<^verbatim>\<open>hooks/useGameplayTx.ts\<close>).  An execution of the hook is suspended twice, while the wallet signs
  and while the server answers; other calls run in between.  The state therefore lists the suspended
  executions, and every call and every answer is one step.
\<close>

section \<open>Snapshots\<close>

datatype TxState = TxIdle | TxSimulating | TxSigning | TxSubmitting | TxSuccess | TxError

record TxLifecycleStatus =
  tl_id :: string
  tl_state :: TxState
  tl_error :: "string option"
  tl_txHash :: "string option"

record GameplayTxSnapshot =
  gt_pendingId :: "string option"
  gt_optimisticSessionId :: "string option"
  gt_confirmedHash :: "string option"
  gt_lastError :: "string option"

definition no_snapshot :: GameplayTxSnapshot where
  "no_snapshot = \<lparr>gt_pendingId = None, gt_optimisticSessionId = None, gt_confirmedHash = None, gt_lastError = None\<rparr>"

text \<open>\<^verbatim>\<open>!!s\<close> of an optional string.\<close>

definition has_text :: "string option \<Rightarrow> bool" where
  "has_text s \<longleftrightarrow> s \<noteq> None \<and> s \<noteq> Some []"

definition or_else :: "'a option \<Rightarrow> 'a option \<Rightarrow> 'a option" where
  "or_else a b = (if a = None then b else a)"

definition nextLifecycle :: "string \<Rightarrow> TxState \<Rightarrow> string option \<Rightarrow> TxLifecycleStatus" where
  "nextLifecycle i st err = \<lparr>tl_id = i, tl_state = st, tl_error = err, tl_txHash = None\<rparr>"

definition reconcileGameplayState :: "TxLifecycleStatus \<Rightarrow> string option \<Rightarrow> string option \<Rightarrow> GameplayTxSnapshot" where
  "reconcileGameplayState st session txHash =
    (if tl_state st = TxError then no_snapshot\<lparr>gt_optimisticSessionId := session, gt_lastError := tl_error st\<rparr>
     else if tl_state st = TxSuccess
     then no_snapshot\<lparr>gt_optimisticSessionId := session, gt_confirmedHash := or_else txHash (tl_txHash st)\<rparr>
     else if tl_state st = TxSigning \<or> tl_state st = TxSubmitting
     then no_snapshot\<lparr>gt_pendingId := Some (tl_id st), gt_optimisticSessionId := session\<rparr>
     else no_snapshot)"

record OptimisticSessionState =
  os_sessionId :: string
  os_isPending :: bool
  os_confirmedHash :: "string option"
  os_error :: "string option"

definition deriveOptimisticState :: "GameplayTxSnapshot \<Rightarrow> OptimisticSessionState option" where
  "deriveOptimisticState s =
    (if \<not> has_text (gt_optimisticSessionId s) then None
     else Some \<lparr>os_sessionId = the (gt_optimisticSessionId s),
        os_isPending = (has_text (gt_pendingId s) \<and> \<not> has_text (gt_confirmedHash s) \<and> \<not> has_text (gt_lastError s)),
        os_confirmedHash = gt_confirmedHash s, os_error = gt_lastError s\<rparr>)"

definition isConfirmed :: "GameplayTxSnapshot \<Rightarrow> bool" where
  "isConfirmed s \<longleftrightarrow> has_text (gt_confirmedHash s) \<and> \<not> has_text (gt_pendingId s) \<and> \<not> has_text (gt_lastError s)"

definition needsRollback :: "GameplayTxSnapshot \<Rightarrow> bool" where
  "needsRollback s \<longleftrightarrow> has_text (gt_lastError s) \<and> \<not> has_text (gt_confirmedHash s)"

section \<open>Networks\<close>

datatype StellarNetwork = Testnet | Mainnet

definition network_text :: "StellarNetwork \<Rightarrow> string" where
  "network_text n = (case n of Testnet \<Rightarrow> ''testnet'' | Mainnet \<Rightarrow> ''mainnet'')"

record StellarNetworkConfig =
  nc_network :: StellarNetwork
  nc_rpcUrl :: string
  nc_horizonUrl :: string
  nc_passphrase :: string

definition STELLAR_NETWORKS :: "StellarNetwork \<Rightarrow> StellarNetworkConfig" where
  "STELLAR_NETWORKS n = (case n of
     Testnet \<Rightarrow> \<lparr>nc_network = Testnet, nc_rpcUrl = ''https://soroban-testnet.stellar.org'',
       nc_horizonUrl = ''https://horizon-testnet.stellar.org'', nc_passphrase = ''Test SDF Network ; September 2015''\<rparr>
   | Mainnet \<Rightarrow> \<lparr>nc_network = Mainnet, nc_rpcUrl = ''https://mainnet.sorobanrpc.com'',
       nc_horizonUrl = ''https://horizon.stellar.org'', nc_passphrase = ''Public Global Stellar Network ; September 2015''\<rparr>)"

definition getDefaultNetwork :: "string option \<Rightarrow> StellarNetwork" where
  "getDefaultNetwork env = (if env = Some ''mainnet'' then Mainnet else Testnet)"

text \<open>The protocol and the host name of a URL come from the platform; a text that is no URL has none.\<close>

type_synonym url_parser = "string \<Rightarrow> (string \<times> string) option"

definition quoted :: "string \<Rightarrow> string" where
  "quoted s = [CHR 0x27] @ s @ [CHR 0x27]"

definition validateRpcUrl :: "url_parser \<Rightarrow> string \<Rightarrow> string \<Rightarrow> string + unit" where
  "validateRpcUrl parse env rpcUrl = (case parse rpcUrl of
      None \<Rightarrow> Inl (''Malformed RPC URL: '' @ quoted rpcUrl)
    | Some (protocol, hostname) \<Rightarrow>
        if env = ''production'' \<or> env = ''test'' then
          (if protocol \<noteq> ''https:'' then Inl (''Insecure RPC URL '' @ quoted rpcUrl @ '' is strictly forbidden in '' @ env @ ''.'')
           else Inr ())
        else if protocol = ''http:'' \<and> hostname \<noteq> ''localhost'' \<and> hostname \<noteq> ''127.0.0.1''
        then Inl (''Insecure RPC URL '' @ quoted rpcUrl @ '' is only permitted for localhost during development.'')
        else Inr ())"

definition createSorobanServerConfig :: "url_parser \<Rightarrow> string \<Rightarrow> StellarNetwork \<Rightarrow> string + string \<times> string" where
  "createSorobanServerConfig parse env network =
    (let config = STELLAR_NETWORKS network in
     case validateRpcUrl parse env (nc_rpcUrl config) of Inl e \<Rightarrow> Inl e | Inr _ \<Rightarrow> Inr (nc_rpcUrl config, nc_passphrase config))"

section \<open>Signing and submission\<close>

text \<open>A thrown value: an \<^verbatim>\<open>Error\<close> with its message, or something else.\<close>

datatype thrown = ThrownError string | ThrownOther

definition thrown_message :: "string \<Rightarrow> thrown \<Rightarrow> string" where
  "thrown_message d t = (case t of ThrownError m \<Rightarrow> m | ThrownOther \<Rightarrow> d)"

text \<open>What the wallet extension answers: nothing when it is absent, a rejection, or its error and the signed text.\<close>

datatype sign_answer = SignUnavailable | SignRejects thrown | SignAnswer "string option" "string option"

definition signWithFreighter :: "sign_answer \<Rightarrow> thrown + string" where
  "signWithFreighter ans = (case ans of
      SignUnavailable \<Rightarrow> Inl (ThrownError ''Freighter API is unavailable in this runtime'')
    | SignRejects t \<Rightarrow> Inl t
    | SignAnswer err signed \<Rightarrow>
        if has_text err then Inl (ThrownError (the err))
        else if \<not> has_text signed then Inl (ThrownError ''Freighter signing failed'')
        else Inr (the signed))"

text \<open>
  What the server answers: the request fails, a status that is not ok, or a payload of the type the
  code casts it to, an optional error with an optional message and an optional result with a hash.
\<close>

datatype rpc_answer = RpcFails thrown | RpcStatus nat | RpcPayload "string option option" "string option option"

definition submitSignedTransaction :: "url_parser \<Rightarrow> string \<Rightarrow> StellarNetwork \<Rightarrow> rpc_answer \<Rightarrow> thrown + string" where
  "submitSignedTransaction parse env network ans = (case createSorobanServerConfig parse env network of
      Inl e \<Rightarrow> Inl (ThrownError e)
    | Inr _ \<Rightarrow> (case ans of
          RpcFails t \<Rightarrow> Inl t
        | RpcStatus n \<Rightarrow> Inl (ThrownError (''RPC submission failed with status '' @ show_nat n))
        | RpcPayload (Some message) _ \<Rightarrow> Inl (ThrownError (if has_text message then the message else ''sendTransaction failed''))
        | RpcPayload None r \<Rightarrow>
            (let hash = Option.bind r id in
             if has_text hash then Inr (the hash) else Inl (ThrownError ''Missing transaction hash in RPC response''))))"

section \<open>The wallet and the hook\<close>

record wallet =
  wl_connected :: bool
  wl_address :: "string option"
  wl_network :: StellarNetwork
  wl_status :: TxLifecycleStatus

text \<open>An execution waits for the wallet or for the server.\<close>

datatype phase = AwaitSignature | AwaitSubmission

record execution =
  ex_id :: string
  ex_phase :: phase
  ex_network :: StellarNetwork
  ex_session :: "string option"

record gameplay =
  gp_wallet :: wallet
  gp_snapshot :: GameplayTxSnapshot
  gp_inFlight :: bool
  gp_ids :: nat
  gp_running :: "execution list"

text \<open>The supply of random identifiers, the configured network, and the platform.\<close>

record flow_host =
  fh_uuid :: "nat \<Rightarrow> string"
  fh_configured :: "string option"
  fh_parse :: url_parser
  fh_env :: string

definition defaultStatus :: TxLifecycleStatus where
  "defaultStatus = nextLifecycle [] TxIdle None"

definition setTxStatus :: "TxLifecycleStatus \<Rightarrow> gameplay \<Rightarrow> gameplay" where
  "setTxStatus st g = g\<lparr>gp_wallet := (gp_wallet g)\<lparr>wl_status := st\<rparr>\<rparr>"

text \<open>The wallet numbers its own statuses.\<close>

definition wallet_status :: "flow_host \<Rightarrow> (string \<Rightarrow> TxLifecycleStatus) \<Rightarrow> gameplay \<Rightarrow> gameplay" where
  "wallet_status H f g = setTxStatus (f (fh_uuid H (gp_ids g))) g\<lparr>gp_ids := gp_ids g + 1\<rparr>"

definition networkMismatch :: "flow_host \<Rightarrow> gameplay \<Rightarrow> bool" where
  "networkMismatch H g \<longleftrightarrow> has_text (fh_configured H) \<and> fh_configured H \<noteq> Some (network_text (wl_network (gp_wallet g)))"

datatype flow_error = StaleContextError string | PlainError string

text \<open>\<^verbatim>\<open>execute\<close> up to its first suspension.\<close>

definition execute :: "flow_host \<Rightarrow> string option \<Rightarrow> gameplay \<Rightarrow> (flow_error + string) \<times> gameplay" where
  "execute H session g =
    (if \<not> wl_connected (gp_wallet g) \<or> \<not> has_text (wl_address (gp_wallet g))
     then (Inl (StaleContextError ''Wallet is not connected. Please reconnect before submitting.''), g)
     else if networkMismatch H g
     then (Inl (StaleContextError (''Network mismatch: app expects '' @ quoted (the (fh_configured H)) @ '' but wallet is on '' @
       quoted (network_text (wl_network (gp_wallet g))) @ ''. Please switch networks.'')), g)
     else if gp_inFlight g then (Inl (PlainError ''A transaction is already in progress. Please wait.''), g)
     else
       let i = fh_uuid H (gp_ids g);
           g1 = setTxStatus (nextLifecycle i TxSigning None) g
             \<lparr>gp_inFlight := True, gp_ids := gp_ids g + 1,
              gp_snapshot := no_snapshot\<lparr>gt_pendingId := Some i, gt_optimisticSessionId := session\<rparr>,
              gp_running := gp_running g @ [\<lparr>ex_id = i, ex_phase = AwaitSignature, ex_network = wl_network (gp_wallet g), ex_session = session\<rparr>]\<rparr>
       in (Inr i, wallet_status H (\<lambda>j. nextLifecycle j TxSigning None) g1))"

text \<open>Leaving an execution: the snapshot is reconciled, and the lock released in \<^verbatim>\<open>finally\<close>.\<close>

definition settle :: "execution \<Rightarrow> TxLifecycleStatus \<Rightarrow> string option \<Rightarrow> gameplay \<Rightarrow> gameplay" where
  "settle x st txHash g = setTxStatus st g
    \<lparr>gp_snapshot := reconcileGameplayState st (ex_session x) txHash, gp_inFlight := False,
     gp_running := filter (\<lambda>y. ex_id y \<noteq> ex_id x) (gp_running g)\<rparr>"

definition fail_execution :: "execution \<Rightarrow> thrown \<Rightarrow> gameplay \<Rightarrow> gameplay" where
  "fail_execution x t g = settle x (nextLifecycle (ex_id x) TxError (Some (thrown_message ''Unknown transaction error'' t))) None g"

definition wallet_failed :: "flow_host \<Rightarrow> string \<Rightarrow> thrown \<Rightarrow> gameplay \<Rightarrow> gameplay" where
  "wallet_failed H d t = wallet_status H (\<lambda>j. nextLifecycle j TxError (Some (thrown_message d t)))"

definition resume :: "string \<Rightarrow> phase \<Rightarrow> gameplay \<Rightarrow> execution option" where
  "resume i p g = List.find (\<lambda>x. ex_id x = i \<and> ex_phase x = p) (gp_running g)"

text \<open>The wallet answers: from the first suspension to the second, or to the end.\<close>

definition signed :: "flow_host \<Rightarrow> string \<Rightarrow> sign_answer \<Rightarrow> gameplay \<Rightarrow> gameplay" where
  "signed H i ans g = (case resume i AwaitSignature g of None \<Rightarrow> g | Some x \<Rightarrow>
     (case signWithFreighter ans of
        Inl t \<Rightarrow> fail_execution x t (wallet_failed H ''Unknown signing error'' t g)
      | Inr _ \<Rightarrow>
          (let g1 = setTxStatus (nextLifecycle i TxSubmitting None) (wallet_status H (\<lambda>j. nextLifecycle j TxSuccess None) g)
           in wallet_status H (\<lambda>j. nextLifecycle j TxSubmitting None)
             g1\<lparr>gp_running := map (\<lambda>y. if ex_id y = i then y\<lparr>ex_phase := AwaitSubmission\<rparr> else y) (gp_running g1)\<rparr>)))"

text \<open>The server answers.\<close>

definition submitted :: "flow_host \<Rightarrow> string \<Rightarrow> rpc_answer \<Rightarrow> gameplay \<Rightarrow> gameplay" where
  "submitted H i ans g = (case resume i AwaitSubmission g of None \<Rightarrow> g | Some x \<Rightarrow>
     (case submitSignedTransaction (fh_parse H) (fh_env H) (ex_network x) ans of
        Inl t \<Rightarrow> fail_execution x t (wallet_failed H ''Unknown submission error'' t g)
      | Inr hash \<Rightarrow>
          settle x ((nextLifecycle i TxSuccess None)\<lparr>tl_txHash := Some hash\<rparr>) (Some hash)
            (wallet_status H (\<lambda>j. (nextLifecycle j TxSuccess None)\<lparr>tl_txHash := Some hash\<rparr>) g)))"

definition reset_gameplay :: "gameplay \<Rightarrow> gameplay" where
  "reset_gameplay g = setTxStatus defaultStatus g\<lparr>gp_inFlight := False, gp_snapshot := no_snapshot\<rparr>"

text \<open>
  The check on focus: when the extension reports another account, the wallet takes it and the
  listeners run; the hook's listener resets.
\<close>

definition checkForAccountSwitch :: "(string option \<times> string option) option \<Rightarrow> gameplay \<Rightarrow> gameplay" where
  "checkForAccountSwitch response g =
    (if \<not> wl_connected (gp_wallet g) then g
     else case response of None \<Rightarrow> g | Some (err, address) \<Rightarrow>
       if has_text err \<or> \<not> has_text address \<or> address = wl_address (gp_wallet g) then g
       else reset_gameplay (g\<lparr>gp_wallet := (gp_wallet g)\<lparr>wl_address := address, wl_status := defaultStatus\<rparr>\<rparr>))"

text \<open>
  How a connection goes: the wallet dialogue resolves, with or without a wallet selected by then, or
  throws; without the dialogue the extension says whether it is connected and gives an address.
\<close>

datatype connect_answer =
    ModalResolves "string option"
  | ConnectThrows thrown
  | Freighter bool "(string option \<times> string option) option"

definition walletSelected :: "string \<Rightarrow> gameplay \<Rightarrow> gameplay" where
  "walletSelected a g = g\<lparr>gp_wallet := (gp_wallet g)\<lparr>wl_connected := True, wl_address := Some a\<rparr>\<rparr>"

definition connect :: "connect_answer \<Rightarrow> gameplay \<Rightarrow> (thrown + unit) \<times> gameplay" where
  "connect ans g = (case ans of
      ModalResolves selected \<Rightarrow> (Inr (), case selected of None \<Rightarrow> g | Some a \<Rightarrow> walletSelected a g)
    | ConnectThrows t \<Rightarrow> (Inl t, g)
    | Freighter isConnected response \<Rightarrow>
        if \<not> isConnected then (Inl (ThrownError ''Freighter is not connected''), g)
        else (case response of
            None \<Rightarrow> (Inl (ThrownError ''Failed to read Freighter address''), g)
          | Some (err, address) \<Rightarrow>
              if has_text err \<or> \<not> has_text address
              then (Inl (ThrownError (if has_text err then the err else ''Failed to read Freighter address'')), g)
              else (Inr (), walletSelected (the address) g)))"

definition disconnect :: "gameplay \<Rightarrow> gameplay" where
  "disconnect g = g\<lparr>gp_wallet := (gp_wallet g)\<lparr>wl_connected := False, wl_address := None, wl_status := defaultStatus\<rparr>\<rparr>"

definition switchNetwork :: "flow_host \<Rightarrow> StellarNetwork \<Rightarrow> gameplay \<Rightarrow> gameplay" where
  "switchNetwork H n g = wallet_status H (\<lambda>j. nextLifecycle j TxIdle None) (g\<lparr>gp_wallet := (gp_wallet g)\<lparr>wl_network := n\<rparr>\<rparr>)"

definition ensureConnected :: "connect_answer \<Rightarrow> gameplay \<Rightarrow> bool \<times> gameplay" where
  "ensureConnected ans g =
    (if wl_connected (gp_wallet g) then (True, g)
     else case connect ans g of (Inr _, g') \<Rightarrow> (True, g') | (Inl _, g') \<Rightarrow> (False, g'))"

section \<open>Steps\<close>

datatype flow_event =
    Execute "string option"
  | Signed string sign_answer
  | Submitted string rpc_answer
  | Connect connect_answer
  | Selected string
  | Disconnect
  | SwitchNetwork StellarNetwork
  | Focus "(string option \<times> string option) option"
  | Reset

fun flow_step :: "flow_host \<Rightarrow> flow_event \<Rightarrow> gameplay \<Rightarrow> gameplay" where
  "flow_step H (Execute session) g = snd (execute H session g)"
| "flow_step H (Signed i a) g = signed H i a g"
| "flow_step H (Submitted i a) g = submitted H i a g"
| "flow_step H (Connect a) g = snd (connect a g)"
| "flow_step H (Selected a) g = walletSelected a g"
| "flow_step H Disconnect g = disconnect g"
| "flow_step H (SwitchNetwork n) g = switchNetwork H n g"
| "flow_step H (Focus r) g = checkForAccountSwitch r g"
| "flow_step H Reset g = reset_gameplay g"

definition flow_start :: "StellarNetwork \<Rightarrow> gameplay" where
  "flow_start n = \<lparr>gp_wallet = \<lparr>wl_connected = False, wl_address = None, wl_network = n, wl_status = defaultStatus\<rparr>,
     gp_snapshot = no_snapshot, gp_inFlight = False, gp_ids = 0, gp_running = []\<rparr>"

inductive flows :: "flow_host \<Rightarrow> (flow_event \<Rightarrow> bool) \<Rightarrow> gameplay \<Rightarrow> bool" for H P where
  start: "flows H P (flow_start n)"
| step: "flows H P g \<Longrightarrow> P e \<Longrightarrow> flows H P (flow_step H e g)"


section \<open>What the steps change\<close>

lemma status_keeps [simp]:
  "gp_running (setTxStatus st g) = gp_running g" "gp_inFlight (setTxStatus st g) = gp_inFlight g"
  "gp_snapshot (setTxStatus st g) = gp_snapshot g" "gp_running (wallet_status H f g) = gp_running g"
  "gp_inFlight (wallet_status H f g) = gp_inFlight g" "gp_snapshot (wallet_status H f g) = gp_snapshot g"
  "wl_address (gp_wallet (setTxStatus st g)) = wl_address (gp_wallet g)"
  "wl_address (gp_wallet (wallet_status H f g)) = wl_address (gp_wallet g)"
  by (simp_all add: setTxStatus_def wallet_status_def)

lemma settle_fields [simp]:
  "gp_running (settle x st h g) = filter (\<lambda>y. ex_id y \<noteq> ex_id x) (gp_running g)"
  "\<not> gp_inFlight (settle x st h g)"
  "gp_snapshot (settle x st h g) = reconcileGameplayState st (ex_session x) h"
  "wl_address (gp_wallet (settle x st h g)) = wl_address (gp_wallet g)"
  by (simp_all add: settle_def)

lemma connect_keeps:
  "gp_running (snd (connect a g)) = gp_running g" "gp_inFlight (snd (connect a g)) = gp_inFlight g"
  "gp_snapshot (snd (connect a g)) = gp_snapshot g"
  by (simp_all add: connect_def walletSelected_def split: connect_answer.splits option.splits)

text \<open>At most one execution is under way, the lock says which, and the snapshot shows it.\<close>

definition single_flight :: "gameplay \<Rightarrow> bool" where
  "single_flight g \<longleftrightarrow>
     (gp_running g = [] \<and> \<not> gp_inFlight g \<and> gt_pendingId (gp_snapshot g) = None) \<or>
     (\<exists>x. gp_running g = [x] \<and> gp_inFlight g \<and> gt_pendingId (gp_snapshot g) = Some (ex_id x) \<and>
        gt_optimisticSessionId (gp_snapshot g) = ex_session x)"

lemma single_flight_same:
  "single_flight g \<Longrightarrow> gp_running g' = gp_running g \<Longrightarrow> gp_inFlight g' = gp_inFlight g \<Longrightarrow>
   gp_snapshot g' = gp_snapshot g \<Longrightarrow> single_flight g'"
  by (simp add: single_flight_def)

lemma resume_Some: "resume i p g = Some x \<Longrightarrow> x \<in> set (gp_running g) \<and> ex_id x = i \<and> ex_phase x = p"
  by (auto simp: resume_def find_Some_iff)

lemma single_flight_settle:
  assumes "single_flight g" "gp_running g' = gp_running g" "x \<in> set (gp_running g)" "tl_state st = TxSuccess \<or> tl_state st = TxError"
  shows "single_flight (settle x st h g')"
  using assms by (auto simp: single_flight_def reconcileGameplayState_def no_snapshot_def)

lemma single_flight_execute: "single_flight g \<Longrightarrow> single_flight (snd (execute H session g))"
  by (auto simp: execute_def single_flight_def Let_def)

lemma single_flight_signed: "single_flight g \<Longrightarrow> single_flight (signed H i ans g)"
proof (cases "resume i AwaitSignature g")
  case (Some x)
  assume s: "single_flight g"
  have x: "x \<in> set (gp_running g)" "ex_id x = i" using resume_Some [OF Some] by simp_all
  show ?thesis
  proof (cases "signWithFreighter ans")
    case (Inl t)
    then show ?thesis using Some s x
      by (simp add: signed_def fail_execution_def wallet_failed_def single_flight_settle nextLifecycle_def)
  next
    case (Inr r)
    then show ?thesis using Some s x by (auto simp: signed_def Let_def single_flight_def)
  qed
qed (simp add: signed_def)

lemma single_flight_submitted: "single_flight g \<Longrightarrow> single_flight (submitted H i ans g)"
proof (cases "resume i AwaitSubmission g")
  case (Some x)
  assume s: "single_flight g"
  have x: "x \<in> set (gp_running g)" using resume_Some [OF Some] by simp
  show ?thesis
    using Some s x
    by (cases "submitSignedTransaction (fh_parse H) (fh_env H) (ex_network x) ans")
      (simp_all add: submitted_def fail_execution_def wallet_failed_def single_flight_settle nextLifecycle_def)
qed (simp add: submitted_def)

lemma single_flight_step:
  assumes "single_flight g" "e \<noteq> Reset" "\<forall>r. e \<noteq> Focus r"
  shows "single_flight (flow_step H e g)"
proof (cases e)
  case (Execute session)
  then show ?thesis using assms by (simp add: single_flight_execute)
next
  case (Connect a)
  then show ?thesis using assms single_flight_same [OF assms(1)] by (simp add: connect_keeps)
qed (use assms single_flight_same [OF assms(1)] in
  \<open>simp_all add: single_flight_signed single_flight_submitted disconnect_def switchNetwork_def walletSelected_def\<close>)

lemma execute_starts:
  assumes "\<not> gp_inFlight g" "wl_connected (gp_wallet g)" "has_text (wl_address (gp_wallet g))" "\<not> networkMismatch H g"
  shows "\<exists>g1. execute H session g = (Inr (fh_uuid H (gp_ids g)), g1) \<and> wl_address (gp_wallet g1) = wl_address (gp_wallet g) \<and>
    gp_running g1 = gp_running g @ [\<lparr>ex_id = fh_uuid H (gp_ids g), ex_phase = AwaitSignature, ex_network = wl_network (gp_wallet g), ex_session = session\<rparr>]"
  using assms by (simp add: execute_def Let_def)

section \<open>Properties\<close>

text \<open>
  C21: as long as the hook is not reset and the wallet reports no other account, at most one execution is under way
  at any time: the lock is held exactly while there is one, and the snapshot shows its identifier
  and its session as pending; when there is none, nothing is shown as pending.
\<close>

theorem gameplay_single_flight:
  assumes "flows H (\<lambda>e. e \<noteq> Reset \<and> (\<forall>r. e \<noteq> Focus r)) g"
  shows "(gp_running g = [] \<and> \<not> gp_inFlight g \<and> gt_pendingId (gp_snapshot g) = None) \<or>
    (\<exists>x. gp_running g = [x] \<and> gp_inFlight g \<and> gt_pendingId (gp_snapshot g) = Some (ex_id x) \<and>
       gt_optimisticSessionId (gp_snapshot g) = ex_session x)"
  using assms
proof (induction rule: flows.induct)
  case (start n)
  then show ?case by (simp add: flow_start_def no_snapshot_def)
next
  case (step g e)
  then have "single_flight (flow_step H e g)" by (intro single_flight_step) (auto simp: single_flight_def)
  then show ?case by (simp add: single_flight_def)
qed

definition plain_flow :: flow_host where
  "plain_flow = \<lparr>fh_uuid = (\<lambda>n. ''tx'' @ show_nat n), fh_configured = Some ''testnet'',
     fh_parse = (\<lambda>u. Some (''https:'', u)), fh_env = ''production''\<rparr>"

definition connected_start :: gameplay where
  "connected_start = walletSelected ''GA'' (flow_start Testnet)"

lemma flows_connected: "flows plain_flow (\<lambda>e. e \<noteq> Reset \<and> (\<forall>r. e \<noteq> Focus r)) connected_start"
  using flows.step [OF flows.start [of plain_flow _ Testnet], of "\<lambda>e. e \<noteq> Reset \<and> (\<forall>r. e \<noteq> Focus r)" "Selected ''GA''"]
  by (simp add: connected_start_def)

lemma gameplay_single_flight_witness:
  "\<exists>g. flows plain_flow (\<lambda>e. e \<noteq> Reset \<and> (\<forall>r. e \<noteq> Focus r)) g \<and> length (gp_running g) = 1 \<and> gp_inFlight g"
proof -
  let ?g = "flow_step plain_flow (Execute (Some ''s1'')) connected_start"
  have f: "flows plain_flow (\<lambda>e. e \<noteq> Reset \<and> (\<forall>r. e \<noteq> Focus r)) ?g"
    using flows.step [OF flows_connected, of "Execute (Some ''s1'')"] by simp
  have "length (gp_running ?g) = 1" by code_simp
  then show ?thesis using gameplay_single_flight [OF f] f by (intro exI [of _ ?g]) auto
qed

text \<open>
  C22: an execution that nothing interrupts ends: after the wallet's answer and the server's, whatever they are,
  the lock is free and nothing is shown as pending.  A hash confirms the snapshot; an error is left
  in the snapshot and in the status of the wallet with exactly its text, which asks for a rollback
  when it is not empty.  The messages of the wallet and of the server get there as they are.
\<close>

theorem gameplay_outcome:
  assumes idle: "gp_running g = []" "\<not> gp_inFlight g"
    and ready: "wl_connected (gp_wallet g)" "has_text (wl_address (gp_wallet g))" "\<not> networkMismatch H g"
  shows "\<exists>i g1. execute H session g = (Inr i, g1) \<and>
    (let g3 = submitted H i b (signed H i a g1); s = gp_snapshot g3; st = wl_status (gp_wallet g3);
         outcome = (case signWithFreighter a of Inl t \<Rightarrow> Inl t
           | Inr _ \<Rightarrow> submitSignedTransaction (fh_parse H) (fh_env H) (wl_network (gp_wallet g)) b)
     in gp_running g3 = [] \<and> \<not> gp_inFlight g3 \<and> gt_optimisticSessionId s = session \<and> gt_pendingId s = None \<and> tl_id st = i \<and>
        (case outcome of
           Inr h \<Rightarrow> isConfirmed s \<and> gt_confirmedHash s = Some h \<and> gt_lastError s = None \<and> \<not> needsRollback s \<and>
             tl_state st = TxSuccess \<and> tl_txHash st = Some h
         | Inl t \<Rightarrow> \<not> isConfirmed s \<and> gt_confirmedHash s = None \<and> tl_state st = TxError \<and>
             gt_lastError s = Some (case t of ThrownError m \<Rightarrow> m | ThrownOther \<Rightarrow> ''Unknown transaction error'') \<and>
             tl_error st = gt_lastError s \<and> (needsRollback s \<longleftrightarrow> gt_lastError s \<noteq> Some [])) \<and>
        (\<forall>m. a = SignRejects (ThrownError m) \<longrightarrow> gt_lastError s = Some m) \<and>
        (\<forall>m x. m \<noteq> [] \<and> a = SignAnswer (Some m) x \<longrightarrow> gt_lastError s = Some m) \<and>
        (\<forall>m x c. x \<noteq> [] \<and> a = SignAnswer None (Some x) \<and>
            createSorobanServerConfig (fh_parse H) (fh_env H) (wl_network (gp_wallet g)) = Inr c \<longrightarrow>
          (b = RpcFails (ThrownError m) \<longrightarrow> gt_lastError s = Some m) \<and>
          (\<forall>n. b = RpcStatus n \<longrightarrow> gt_lastError s = Some (''RPC submission failed with status '' @ show_nat n)) \<and>
          (m \<noteq> [] \<and> b = RpcPayload (Some (Some m)) None \<longrightarrow> gt_lastError s = Some m) \<and>
          (m \<noteq> [] \<and> b = RpcPayload None (Some (Some m)) \<longrightarrow> gt_confirmedHash s = Some m)))"
proof -
  obtain i g1 where e: "execute H session g = (Inr i, g1)"
    and run: "gp_running g1 = [\<lparr>ex_id = i, ex_phase = AwaitSignature, ex_network = wl_network (gp_wallet g), ex_session = session\<rparr>]"
    using execute_starts [OF idle(2) ready, of session] idle(1) by auto
  have nh: "\<not> has_text None" "has_text (Some t) \<longleftrightarrow> t \<noteq> []" for t by (simp_all add: has_text_def)
  let ?x = "\<lambda>p. \<lparr>ex_id = i, ex_phase = p, ex_network = wl_network (gp_wallet g), ex_session = session\<rparr>"
  let ?r = "submitSignedTransaction (fh_parse H) (fh_env H) (wl_network (gp_wallet g)) b"
  have hash: "?r = Inr h \<Longrightarrow> h \<noteq> []" for h
    by (auto simp: submitSignedTransaction_def Let_def nh has_text_def split: sum.splits rpc_answer.splits option.splits if_splits)
  note D = signed_def submitted_def resume_def fail_execution_def wallet_failed_def reconcileGameplayState_def nextLifecycle_def
    no_snapshot_def or_else_def isConfirmed_def needsRollback_def nh thrown_message_def settle_def setTxStatus_def
  show ?thesis
  proof (cases "signWithFreighter a")
    case (Inl t)
    have "\<forall>m. a = SignRejects (ThrownError m) \<longrightarrow> t = ThrownError m" "\<forall>m x. m \<noteq> [] \<and> a = SignAnswer (Some m) x \<longrightarrow> t = ThrownError m"
      "\<forall>x. x \<noteq> [] \<longrightarrow> a \<noteq> SignAnswer None (Some x)"
      using Inl by (auto simp: signWithFreighter_def nh)
    then show ?thesis using e run by (cases t) (auto simp: D Inl)
  next
    case (Inr y)
    have s: "\<forall>t. a \<noteq> SignRejects t" "\<forall>m x. m \<noteq> [] \<longrightarrow> a \<noteq> SignAnswer (Some m) x" using Inr by (auto simp: signWithFreighter_def nh)
    show ?thesis
    proof (cases ?r)
      case (Inl t)
      have "createSorobanServerConfig (fh_parse H) (fh_env H) (wl_network (gp_wallet g)) = Inr c \<Longrightarrow>
        (\<forall>m. b = RpcFails (ThrownError m) \<longrightarrow> t = ThrownError m) \<and> (\<forall>n. b = RpcStatus n \<longrightarrow> t = ThrownError (''RPC submission failed with status '' @ show_nat n)) \<and>
        (\<forall>m. m \<noteq> [] \<longrightarrow> (b = RpcPayload (Some (Some m)) None \<longrightarrow> t = ThrownError m) \<and> b \<noteq> RpcPayload None (Some (Some m)))" for c
        using Inl by (auto simp: submitSignedTransaction_def nh)
      then show ?thesis using e run s \<open>signWithFreighter a = Inr y\<close> Inl by (cases t) (auto simp: D)
    next
      case (Inr h)
      have "createSorobanServerConfig (fh_parse H) (fh_env H) (wl_network (gp_wallet g)) = Inr c \<Longrightarrow>
        (\<forall>t. b \<noteq> RpcFails t) \<and> (\<forall>n. b \<noteq> RpcStatus n) \<and>
        (\<forall>m. m \<noteq> [] \<longrightarrow> b \<noteq> RpcPayload (Some (Some m)) None \<and> (b = RpcPayload None (Some (Some m)) \<longrightarrow> h = m))" for c
        using Inr by (auto simp: submitSignedTransaction_def nh)
      then show ?thesis using e run s \<open>signWithFreighter a = Inr y\<close> hash [OF Inr] Inr by (auto simp: D)
    qed
  qed
qed

lemma gameplay_outcome_witness:
  "\<exists>i g1. execute plain_flow (Some ''s1'') connected_start = (Inr i, g1) \<and>
    isConfirmed (gp_snapshot (submitted plain_flow i (RpcPayload None (Some (Some ''h1''))) (signed plain_flow i (SignAnswer None (Some ''x'')) g1)))"
proof -
  have c: "gp_running connected_start = []" "\<not> gp_inFlight connected_start" "wl_connected (gp_wallet connected_start)"
    "has_text (wl_address (gp_wallet connected_start))" "\<not> networkMismatch plain_flow connected_start"
    by code_simp+
  have s: "signWithFreighter (SignAnswer None (Some ''x'')) = Inr ''x''" by code_simp
  have "submitSignedTransaction (fh_parse plain_flow) (fh_env plain_flow) (wl_network (gp_wallet connected_start))
      (RpcPayload None (Some (Some ''h1''))) = Inr ''h1''" by code_simp
  then show ?thesis
    using gameplay_outcome [OF c, of "Some ''s1''" "RpcPayload None (Some (Some ''h1''))" "SignAnswer None (Some ''x'')"] s
    by (auto simp: Let_def)
qed

text \<open>
  A switch of accounts clears the snapshot but not the execution under way: a second one can then be started
  next to it, and when the first is answered, its session is shown as confirmed to the new
  account and the lock is released although the second is still running.
\<close>

theorem account_switch_leaks:
  assumes run: "gp_running g = [x]" "ex_phase x = AwaitSubmission"
    and wallet: "wl_connected (gp_wallet g)" "address \<noteq> wl_address (gp_wallet g)" "has_text address" "\<not> networkMismatch H g"
    and fresh: "fh_uuid H (gp_ids g) \<noteq> ex_id x"
    and ok: "submitSignedTransaction (fh_parse H) (fh_env H) (ex_network x) ans = Inr h"
  shows "let g1 = checkForAccountSwitch (Some (None, address)) g; (r, g2) = execute H session g1; g3 = submitted H (ex_id x) ans g2 in
    gp_snapshot g1 = no_snapshot \<and> r = Inr (fh_uuid H (gp_ids g)) \<and> length (gp_running g2) = 2 \<and>
    wl_address (gp_wallet g3) = address \<and> gt_optimisticSessionId (gp_snapshot g3) = ex_session x \<and>
    gt_confirmedHash (gp_snapshot g3) = Some h \<and> \<not> gp_inFlight g3 \<and> map ex_id (gp_running g3) = [fh_uuid H (gp_ids g)]"
proof -
  let ?g1 = "checkForAccountSwitch (Some (None, address)) g"
  have n: "\<not> has_text None" by (simp add: has_text_def)
  have g1: "gp_running ?g1 = [x]" "gp_ids ?g1 = gp_ids g" "gp_snapshot ?g1 = no_snapshot" "\<not> gp_inFlight ?g1"
    "wl_connected (gp_wallet ?g1)" "wl_address (gp_wallet ?g1) = address" "\<not> networkMismatch H ?g1"
    using run wallet n by (simp_all add: checkForAccountSwitch_def reset_gameplay_def setTxStatus_def networkMismatch_def)
  obtain g2 y where e: "execute H session ?g1 = (Inr (fh_uuid H (gp_ids g)), g2)"
    and g2: "wl_address (gp_wallet g2) = address" and y: "gp_running g2 = [x, y]" "ex_id y = fh_uuid H (gp_ids g)"
    using execute_starts [of ?g1 H session] g1 wallet(3) by fastforce
  have "resume (ex_id x) AwaitSubmission g2 = Some x" using y run(2) by (simp add: resume_def)
  then show ?thesis
    using e y g1(3) g2 ok fresh
    by (simp add: submitted_def Let_def reconcileGameplayState_def nextLifecycle_def no_snapshot_def or_else_def)
qed

definition awaiting_submission :: gameplay where
  "awaiting_submission = signed plain_flow ''tx0'' (SignAnswer None (Some ''x'')) (snd (execute plain_flow (Some ''s1'') connected_start))"

lemma account_switch_leaks_witness:
  "gt_optimisticSessionId (gp_snapshot (submitted plain_flow ''tx0'' (RpcPayload None (Some (Some ''h1'')))
     (snd (execute plain_flow (Some ''s2'') (checkForAccountSwitch (Some (None, Some ''GB'')) awaiting_submission))))) = Some ''s1''"
proof -
  let ?x = "\<lparr>ex_id = ''tx0'', ex_phase = AwaitSubmission, ex_network = Testnet, ex_session = Some ''s1''\<rparr>"
  have r: "gp_running awaiting_submission = [?x]" by code_simp
  have w: "wl_connected (gp_wallet awaiting_submission)" "Some ''GB'' \<noteq> wl_address (gp_wallet awaiting_submission)"
    "has_text (Some ''GB'')" "\<not> networkMismatch plain_flow awaiting_submission"
    "fh_uuid plain_flow (gp_ids awaiting_submission) \<noteq> ex_id ?x"
    "submitSignedTransaction (fh_parse plain_flow) (fh_env plain_flow) (ex_network ?x) (RpcPayload None (Some (Some ''h1''))) = Inr ''h1''"
    by code_simp+
  show ?thesis
    using account_switch_leaks [OF r _ w, of "Some ''s2''"] by (simp add: Let_def case_prod_beta)
qed

end
