(* ===== verification/Client_Sync.thy ===== *)
theory Client_Sync
  imports Js_Values
begin

text \<open>
  What the web client keeps while it is offline: the cached word list and its store
  (\<^verbatim>\<open>frontend/src/lib/word-dictionary-cache.ts\<close>), the session with the queue of results that wait for
  the server (\<^verbatim>\<open>hooks/useOfflineSession.ts\<close>), and the synchronization of an active session between
  devices (\<^verbatim>\<open>lib/session-sync.ts\<close>, \<^verbatim>\<open>hooks/useSessionSync.ts\<close>).  A flush of the queue is suspended while
  the server answers; other calls, other flushes included, run in between, so the state lists the
  flushes under way and every answer is a step.
\<close>

section \<open>The dictionary store\<close>

text \<open>The interface of a store, and what its users rely on.\<close>

locale dictionary_store =
  fixes putAll :: "string list \<Rightarrow> 's \<Rightarrow> 's" and has_word :: "string \<Rightarrow> 's \<Rightarrow> bool" and count_words :: "'s \<Rightarrow> nat"
    and empty_store :: 's
  assumes has_empty: "\<not> has_word w empty_store"
    and has_putAll: "has_word w (putAll ws s) \<longleftrightarrow> toLowerCase w \<in> toLowerCase ` set ws \<or> has_word w s"
    and count_empty: "count_words empty_store = 0"
    and count_putAll: "count_words (putAll ws s) \<le> count_words s + length ws"
begin

lemma has_case: "has_word (toUpperCase w) (putAll ws s) \<Longrightarrow> \<not> has_word (toUpperCase w) s \<Longrightarrow> has_word w (putAll ws s)"
  by (simp add: has_putAll)

lemma has_all: "w \<in> set ws \<Longrightarrow> has_word w (putAll ws s)"
  by (auto simp: has_putAll)

lemma count_filled: "count_words (putAll ws empty_store) \<le> length ws"
  using count_putAll [of ws empty_store] by (simp add: count_empty)

end

text \<open>The memory store is a set in insertion order.\<close>

definition mem_putAll :: "string list \<Rightarrow> string list \<Rightarrow> string list" where
  "mem_putAll words s = fold (\<lambda>w s. if toLowerCase w \<in> set s then s else s @ [toLowerCase w]) words s"

definition mem_has :: "string \<Rightarrow> string list \<Rightarrow> bool" where
  "mem_has word s \<longleftrightarrow> toLowerCase word \<in> set s"

text \<open>The database store maps the lower-case words to \<^verbatim>\<open>true\<close>.\<close>

definition idb_putAll :: "string list \<Rightarrow> (string, bool) jmap \<Rightarrow> (string, bool) jmap" where
  "idb_putAll words s = fold (\<lambda>w. jm_set (toLowerCase w) True) words s"

definition idb_has :: "string \<Rightarrow> (string, bool) jmap \<Rightarrow> bool" where
  "idb_has word s \<longleftrightarrow> jm_get (toLowerCase word) s \<noteq> None"

lemma set_mem_putAll: "set (mem_putAll ws s) = toLowerCase ` set ws \<union> set s"
  unfolding mem_putAll_def by (induction ws arbitrary: s) auto

interpretation memory_store: dictionary_store mem_putAll mem_has length "[]"
proof
  show "mem_has w (mem_putAll ws s) \<longleftrightarrow> toLowerCase w \<in> toLowerCase ` set ws \<or> mem_has w s" for w ws s
    by (simp add: mem_has_def set_mem_putAll)
  show "length (mem_putAll ws s) \<le> length s + length ws" for ws s
    unfolding mem_putAll_def
  proof (induction ws arbitrary: s)
    case (Cons w ws)
    then show ?case using Cons [of "s @ [toLowerCase w]"] le_SucI [OF Cons [of s]] by simp
  qed simp
qed (simp_all add: mem_has_def)

lemma length_jm_set: "length (jm_set k v m) \<le> Suc (length m)"
  by (induction k v m rule: jm_set.induct) auto

interpretation indexed_store: dictionary_store idb_putAll idb_has length "[]"
proof
  show "idb_has w (idb_putAll ws s) \<longleftrightarrow> toLowerCase w \<in> toLowerCase ` set ws \<or> idb_has w s" for w ws s
    unfolding idb_putAll_def idb_has_def by (induction ws arbitrary: s) auto
  show "length (idb_putAll ws s) \<le> length s + length ws" for ws s
    unfolding idb_putAll_def
  proof (induction ws arbitrary: s)
    case (Cons w ws)
    show ?case using length_jm_set [of "toLowerCase w" True s] Cons [of "jm_set (toLowerCase w) True s"] by simp
  qed simp
qed (simp_all add: idb_has_def)

text \<open>Downloading the list: the response's status and its body, when that parses.\<close>

definition all_strings :: "js list \<Rightarrow> bool" where
  "all_strings xs = list_all (\<lambda>x. js_typeof x = ''string'') xs"

fun js_text :: "js \<Rightarrow> string" where
  "js_text (Str s) = s"
| "js_text _ = []"

definition syncDictionary :: "(string list \<Rightarrow> 's \<Rightarrow> 's) \<Rightarrow> bool \<times> nat \<Rightarrow> js_error + js \<Rightarrow> 's \<Rightarrow> (js_error + nat) \<times> 's" where
  "syncDictionary put res body s =
    (if \<not> fst res then (Inl (JsError ''Error'' (''Dictionary fetch failed with status '' @ show_nat (snd res)) []), s)
     else case body of Inl e \<Rightarrow> (Inl e, s)
      | Inr (Arr ws) \<Rightarrow>
          if all_strings ws then (Inr (length ws), put (map js_text ws) s)
          else (Inl (JsError ''Error'' ''Dictionary payload must be an array of strings'' []), s)
      | Inr _ \<Rightarrow> (Inl (JsError ''Error'' ''Dictionary payload must be an array of strings'' []), s))"

section \<open>The offline session\<close>

datatype OfflineSessionStatus = SessionActive | SessionCompleted
datatype outcome = Win | Loss

record OfflineSessionRecord =
  or_sessionId :: string
  or_guesses :: "string list"
  or_status :: OfflineSessionStatus
  or_outcome :: "outcome option"
  or_startedAt :: string
  or_finishedAt :: "string option"

record OfflineSyncResult =
  oy_gameId :: jsnum
  oy_score :: jsnum
  oy_durationSeconds :: jsnum
  oy_metadata :: "(string, string) jmap option"

record PendingSync =
  ps_sessionId :: string
  ps_record :: OfflineSessionRecord
  ps_result :: OfflineSyncResult

text \<open>
  The hook's state; the storage behind the two keys, the flushes under way with what they still have
  to send, the errors told, and two records of what happened: the sessions queued so far and the
  results the server accepted.
\<close>

record offline =
  of_session :: "OfflineSessionRecord option"
  of_stored :: "OfflineSessionRecord option"
  of_pending :: "PendingSync list"
  of_count :: nat
  of_enqueued :: "string option"
  of_online :: bool
  of_flushes :: "(nat \<times> PendingSync list) list"
  of_started :: nat
  of_errors :: "OfflineSessionRecord list"
  of_queued :: "string list"
  of_accepted :: "PendingSync list"

record offline_host =
  oh_storage :: bool
  oh_guestId :: "string option"
  oh_build :: "OfflineSessionRecord \<Rightarrow> OfflineSyncResult"

text \<open>Without storage a read gives the fallback and a write does nothing.\<close>

definition read_pending :: "offline_host \<Rightarrow> offline \<Rightarrow> PendingSync list" where
  "read_pending H s = (if oh_storage H then of_pending s else [])"

definition write_pending :: "offline_host \<Rightarrow> PendingSync list \<Rightarrow> offline \<Rightarrow> offline" where
  "write_pending H q s = (if oh_storage H then s\<lparr>of_pending := q\<rparr> else s)"

definition write_session :: "offline_host \<Rightarrow> OfflineSessionRecord option \<Rightarrow> offline \<Rightarrow> offline" where
  "write_session H r s = (if oh_storage H then s\<lparr>of_stored := r\<rparr> else s)"

text \<open>A flush up to its first request.\<close>

definition flushPendingSyncs :: "offline_host \<Rightarrow> offline \<Rightarrow> offline" where
  "flushPendingSyncs H s =
    (if \<not> of_online s then s
     else let pending = read_pending H s in
       if pending = [] then s
       else s\<lparr>of_flushes := of_flushes s @ [(of_started s, pending)], of_started := of_started s + 1\<rparr>)"

text \<open>The answer to the request of a flush: on success it goes on with the next item, else it stops.\<close>

definition flush_answer :: "offline_host \<Rightarrow> nat \<Rightarrow> bool \<Rightarrow> offline \<Rightarrow> offline" where
  "flush_answer H n accepts s = (case map_of (of_flushes s) n of
      Some (item # rest) \<Rightarrow>
        (let others = filter (\<lambda>f. fst f \<noteq> n) (of_flushes s) in
         if accepts then
           (let remaining = filter (\<lambda>q. ps_sessionId q \<noteq> ps_sessionId item) (read_pending H s)
            in write_pending H remaining s
              \<lparr>of_count := length remaining, of_accepted := of_accepted s @ [item],
               of_flushes := (if rest = [] then others else others @ [(n, rest)])\<rparr>)
         else s\<lparr>of_errors := of_errors s @ [ps_record item], of_flushes := others\<rparr>)
    | _ \<Rightarrow> s)"

definition pending_item :: "offline_host \<Rightarrow> OfflineSessionRecord \<Rightarrow> PendingSync" where
  "pending_item H session =
    (let result = oh_build H session;
         metadata = (case oy_metadata result of Some m \<Rightarrow> m | None \<Rightarrow> []);
         metadata' = (case oh_guestId H of Some g \<Rightarrow> if g = [] then metadata else jm_set ''guestId'' g metadata | None \<Rightarrow> metadata)
     in \<lparr>ps_sessionId = or_sessionId session, ps_record = session, ps_result = result\<lparr>oy_metadata := Some metadata'\<rparr>\<rparr>)"

text \<open>The effects after the session changed: it is stored, and a completed one is queued, once.\<close>

definition enqueue_effect :: "offline_host \<Rightarrow> offline \<Rightarrow> offline" where
  "enqueue_effect H s = (case of_session s of None \<Rightarrow> s | Some session \<Rightarrow>
     if or_status session \<noteq> SessionCompleted \<or> of_enqueued s = Some (or_sessionId session) then s
     else let s1 = s\<lparr>of_enqueued := Some (or_sessionId session), of_queued := of_queued s @ [or_sessionId session]\<rparr>;
              s2 = write_pending H (read_pending H s1 @ [pending_item H session]) s1
            in flushPendingSyncs H (s2\<lparr>of_count := of_count s2 + 1\<rparr>))"

definition session_effects :: "offline_host \<Rightarrow> offline \<Rightarrow> offline" where
  "session_effects H s = enqueue_effect H (if of_session s = None then s else write_session H (of_session s) s)"

definition createSession :: "string \<Rightarrow> string \<Rightarrow> OfflineSessionRecord" where
  "createSession i now = \<lparr>or_sessionId = i, or_guesses = [], or_status = SessionActive, or_outcome = None,
     or_startedAt = now, or_finishedAt = None\<rparr>"

definition submitGuess_offline :: "offline_host \<Rightarrow> string \<Rightarrow> string \<Rightarrow> string \<Rightarrow> offline \<Rightarrow> offline" where
  "submitGuess_offline H i now guess s =
    (let base = (case of_session s of Some r \<Rightarrow> r | None \<Rightarrow> createSession i now)
     in session_effects H (s\<lparr>of_session := Some (base\<lparr>or_guesses := or_guesses base @ [guess]\<rparr>)\<rparr>))"

definition completeSession :: "offline_host \<Rightarrow> string \<Rightarrow> outcome \<Rightarrow> offline \<Rightarrow> offline" where
  "completeSession H now w s = (case of_session s of None \<Rightarrow> s
     | Some r \<Rightarrow> session_effects H (s\<lparr>of_session := Some (r\<lparr>or_status := SessionCompleted, or_outcome := Some w, or_finishedAt := Some now\<rparr>)\<rparr>))"

definition resetSession :: "offline_host \<Rightarrow> offline \<Rightarrow> offline" where
  "resetSession H s = write_session H None (s\<lparr>of_enqueued := None, of_session := None\<rparr>)"

definition set_online :: "offline_host \<Rightarrow> bool \<Rightarrow> offline \<Rightarrow> offline" where
  "set_online H b s = (if b = of_online s then s else if b then flushPendingSyncs H (s\<lparr>of_online := True\<rparr>) else s\<lparr>of_online := False\<rparr>)"

text \<open>The page is loaded again: the state comes from the storage and the effects run; flushes of the old page are gone.\<close>

definition mount :: "offline_host \<Rightarrow> bool \<Rightarrow> offline \<Rightarrow> offline" where
  "mount H online s =
    (let s1 = s\<lparr>of_session := (if oh_storage H then of_stored s else None), of_count := length (read_pending H s),
       of_enqueued := None, of_online := online, of_flushes := []\<rparr>
     in session_effects H (flushPendingSyncs H s1))"

text \<open>Validation while offline: the dictionary's answer, true when there is none or it fails.\<close>

definition validateGuess_offline :: "(js_error + bool) option \<Rightarrow> bool" where
  "validateGuess_offline d = (case d of None \<Rightarrow> True | Some (Inl _) \<Rightarrow> True | Some (Inr b) \<Rightarrow> b)"

datatype offline_event =
    Guess string string string | Complete string outcome | ResetSession | Online bool | Answer nat bool | Flush | Mount bool

fun offline_step :: "offline_host \<Rightarrow> offline_event \<Rightarrow> offline \<Rightarrow> offline" where
  "offline_step H (Guess i now g) s = submitGuess_offline H i now g s"
| "offline_step H (Complete now w) s = completeSession H now w s"
| "offline_step H ResetSession s = resetSession H s"
| "offline_step H (Online b) s = set_online H b s"
| "offline_step H (Answer n b) s = flush_answer H n b s"
| "offline_step H Flush s = flushPendingSyncs H s"
| "offline_step H (Mount b) s = mount H b s"

definition offline_start :: offline where
  "offline_start = \<lparr>of_session = None, of_stored = None, of_pending = [], of_count = 0, of_enqueued = None, of_online = True,
     of_flushes = [], of_started = 0, of_errors = [], of_queued = [], of_accepted = []\<rparr>"

definition offline_runs :: "offline_host \<Rightarrow> offline_event list \<Rightarrow> offline" where
  "offline_runs H es = fold (offline_step H) es offline_start"

section \<open>No queued result is lost\<close>

definition results_kept :: "offline \<Rightarrow> bool" where
  "results_kept s \<longleftrightarrow> of_count s = length (of_pending s) \<and>
     set (of_queued s) \<subseteq> ps_sessionId ` set (of_pending s) \<union> ps_sessionId ` set (of_accepted s)"

lemma flush_keeps:
  "of_pending (flushPendingSyncs H s) = of_pending s" "of_count (flushPendingSyncs H s) = of_count s"
  "of_queued (flushPendingSyncs H s) = of_queued s" "of_accepted (flushPendingSyncs H s) = of_accepted s"
  by (simp_all add: flushPendingSyncs_def Let_def)

lemma write_session_keeps:
  "of_pending (write_session H r s) = of_pending s" "of_count (write_session H r s) = of_count s"
  "of_queued (write_session H r s) = of_queued s" "of_accepted (write_session H r s) = of_accepted s"
  "of_session (write_session H r s) = of_session s" "of_flushes (write_session H r s) = of_flushes s"
  "of_enqueued (write_session H r s) = of_enqueued s"
  by (simp_all add: write_session_def)

lemma results_kept_same:
  "results_kept s \<Longrightarrow> of_pending s' = of_pending s \<Longrightarrow> of_count s' = of_count s \<Longrightarrow>
   of_queued s' = of_queued s \<Longrightarrow> of_accepted s' = of_accepted s \<Longrightarrow> results_kept s'"
  by (simp add: results_kept_def)

lemma results_kept_flush: "results_kept s \<Longrightarrow> results_kept (flushPendingSyncs H s)"
  by (simp add: results_kept_def flush_keeps)

lemma results_kept_effects:
  assumes "oh_storage H" "results_kept s"
  shows "results_kept (session_effects H s)"
proof -
  have "results_kept (enqueue_effect H t)" if "results_kept t" for t
    using that assms(1)
    by (auto simp: enqueue_effect_def results_kept_def flush_keeps Let_def write_pending_def read_pending_def pending_item_def split: option.splits)
  then show ?thesis using assms by (simp add: session_effects_def results_kept_same [of s] write_session_keeps)
qed

lemma results_kept_answer:
  assumes "oh_storage H" "results_kept s"
  shows "results_kept (flush_answer H n b s)"
proof (cases "map_of (of_flushes s) n")
  case None
  then show ?thesis using assms by (simp add: flush_answer_def)
next
  case (Some items)
  then show ?thesis
    using assms by (cases items) (auto simp: flush_answer_def results_kept_def Let_def write_pending_def read_pending_def)
qed

lemma results_kept_step:
  assumes "oh_storage H" "results_kept s"
  shows "results_kept (offline_step H e s)"
proof (cases e)
  case (Mount b)
  have "results_kept (s\<lparr>of_session := r, of_count := length (of_pending s), of_enqueued := None, of_online := b, of_flushes := []\<rparr>)" for r
    using assms(2) by (simp add: results_kept_def)
  then show ?thesis
    using results_kept_effects [OF assms(1)] results_kept_flush Mount assms(1) by (simp add: mount_def Let_def read_pending_def)
next
  case (Complete now w)
  show ?thesis
    using results_kept_effects [OF assms(1)] results_kept_same [OF assms(2)] Complete assms(2)
    by (auto simp: completeSession_def split: option.splits)
qed (use results_kept_effects [OF assms(1)] results_kept_same [OF assms(2)] results_kept_answer [OF assms] in
  \<open>simp_all add: submitGuess_offline_def Let_def resetSession_def set_online_def flush_keeps write_session_keeps assms\<close>)

text \<open>
  C23: while the storage works, every result that was ever queued still waits there or was accepted by the server,
  whatever calls, failures, overlapping flushes and reloads of the page come in between, and the
  number shown is the number that wait.
\<close>

theorem offline_results_kept:
  assumes "oh_storage H"
  shows "set (of_queued (offline_runs H es)) \<subseteq>
      ps_sessionId ` set (of_pending (offline_runs H es)) \<union> ps_sessionId ` set (of_accepted (offline_runs H es)) \<and>
    of_count (offline_runs H es) = length (of_pending (offline_runs H es))"
proof -
  have "results_kept s \<Longrightarrow> results_kept (fold (offline_step H) es s)" for s
    by (induction es arbitrary: s) (simp_all add: results_kept_step [OF assms])
  moreover have "results_kept offline_start" by (simp add: results_kept_def offline_start_def)
  ultimately show ?thesis by (simp add: offline_runs_def results_kept_def)
qed

definition sample_host :: "bool \<Rightarrow> offline_host" where
  "sample_host b = \<lparr>oh_storage = b, oh_guestId = None,
     oh_build = (\<lambda>_. \<lparr>oy_gameId = num 1, oy_score = num 10, oy_durationSeconds = num 60, oy_metadata = None\<rparr>)\<rparr>"

lemma offline_results_kept_witness:
  "map ps_sessionId (of_pending (offline_runs (sample_host True) [Guess ''s1'' ''t'' ''apple'', Complete ''u'' Win, Answer 0 False])) = [''s1''] \<and>
   of_count (offline_runs (sample_host True) [Guess ''s1'' ''t'' ''apple'', Complete ''u'' Win, Answer 0 False]) = 1"
proof -
  let ?es = "[Guess ''s1'' ''t'' ''apple'', Complete ''u'' Win, Answer 0 False]"
  have p: "map ps_sessionId (of_pending (offline_runs (sample_host True) ?es)) = [''s1'']" by code_simp
  then have "length (of_pending (offline_runs (sample_host True) ?es)) = 1" by (metis length_map One_nat_def length_Cons list.size(3))
  moreover have "oh_storage (sample_host True)" by (simp add: sample_host_def)
  ultimately show ?thesis using offline_results_kept [of "sample_host True" ?es] p by simp
qed

lemma no_storage_step:
  assumes "\<not> oh_storage H" "of_flushes s = []"
  shows "of_flushes (offline_step H e s) = [] \<and> of_accepted (offline_step H e s) = of_accepted s"
proof -
  have f: "flushPendingSyncs H t = t" for t using assms(1) by (simp add: flushPendingSyncs_def read_pending_def)
  have e: "of_flushes (session_effects H t) = of_flushes t \<and> of_accepted (session_effects H t) = of_accepted t" for t
    using assms(1) by (auto simp: session_effects_def enqueue_effect_def f Let_def write_pending_def write_session_keeps split: option.splits)
  show ?thesis
    using assms by (cases e) (simp_all add: e f submitGuess_offline_def completeSession_def Let_def resetSession_def
      write_session_keeps set_online_def flush_answer_def mount_def split: option.splits)
qed

text \<open>
  A reload queues the stored session again when it is completed, also after the server accepted it; and
  without storage no result is ever sent, online or not.
\<close>

theorem offline_repeats_or_drops:
  "(oh_storage H \<and> of_stored s = Some r \<and> or_status r = SessionCompleted \<longrightarrow>
     of_pending (mount H b s) = of_pending s @ [pending_item H r]) \<and>
   (\<not> oh_storage H \<longrightarrow> of_accepted (offline_runs H es) = [] \<and> of_flushes (offline_runs H es) = [])"
proof (intro conjI impI)
  assume "oh_storage H \<and> of_stored s = Some r \<and> or_status r = SessionCompleted"
  then show "of_pending (mount H b s) = of_pending s @ [pending_item H r]"
    by (simp add: mount_def session_effects_def enqueue_effect_def Let_def write_session_def flush_keeps flushPendingSyncs_def
      write_pending_def read_pending_def)
next
  assume n: "\<not> oh_storage H"
  have "of_flushes s = [] \<Longrightarrow> of_flushes (fold (offline_step H) es s) = [] \<and> of_accepted (fold (offline_step H) es s) = of_accepted s" for s
    by (induction es arbitrary: s) (simp_all add: no_storage_step [OF n])
  from this [of offline_start]
  show "of_accepted (offline_runs H es) = []" "of_flushes (offline_runs H es) = []" by (simp_all add: offline_runs_def offline_start_def)
qed

definition synced_state :: offline where
  "synced_state = offline_runs (sample_host True) [Guess ''s1'' ''t'' ''apple'', Complete ''u'' Win, Answer 0 True]"

lemma offline_repeats_or_drops_witness:
  "map ps_sessionId (of_accepted synced_state) = [''s1''] \<and> map ps_sessionId (of_pending (mount (sample_host True) True synced_state)) = [''s1''] \<and>
   of_accepted (offline_runs (sample_host False) [Guess ''s1'' ''t'' ''apple'', Complete ''u'' Win, Flush]) = []"
proof -
  let ?r = "\<lparr>or_sessionId = ''s1'', or_guesses = [''apple''], or_status = SessionCompleted, or_outcome = Some Win, or_startedAt = ''t'', or_finishedAt = Some ''u''\<rparr>"
  have a: "map ps_sessionId (of_accepted synced_state) = [''s1'']" and p: "of_pending synced_state = []"
    and st: "of_stored synced_state = Some ?r" and i: "ps_sessionId (pending_item (sample_host True) ?r) = ''s1''"
    by code_simp+
  have h: "oh_storage (sample_host True)" "\<not> oh_storage (sample_host False)" by (simp_all add: sample_host_def)
  have m: "of_pending (mount (sample_host True) True synced_state) = [pending_item (sample_host True) ?r]"
    using offline_repeats_or_drops [of "sample_host True" synced_state ?r True "[]"] h(1) st p by simp
  show ?thesis
    using a i m offline_repeats_or_drops [of "sample_host False" synced_state ?r True "[Guess ''s1'' ''t'' ''apple'', Complete ''u'' Win, Flush]"] h(2)
    by simp
qed

section \<open>Sessions on several devices\<close>

record SyncedSessionState =
  sy_sessionId :: string
  sy_guesses :: "string list"
  sy_updatedAt :: jsnum

datatype SyncStatus = SyncIdle | Syncing | Synced | Retrying

definition resolveConflict :: "SyncedSessionState option \<Rightarrow> SyncedSessionState option \<Rightarrow> SyncedSessionState option" where
  "resolveConflict l r = (case l of None \<Rightarrow> r | Some a \<Rightarrow> (case r of None \<Rightarrow> l
     | Some b \<Rightarrow> if num_lt (sy_updatedAt a) (sy_updatedAt b) then r else l))"

text \<open>A response: the request fails, or a status with the body, when it parses.\<close>

datatype http_answer = HttpFails js_error | HttpAnswer nat "js_error + js"

definition status_ok :: "nat \<Rightarrow> bool" where
  "status_ok n \<longleftrightarrow> 200 \<le> n \<and> n \<le> 299"

definition pushSessionState :: "http_answer \<Rightarrow> js_error + unit" where
  "pushSessionState ans = (case ans of HttpFails e \<Rightarrow> Inl e
     | HttpAnswer n _ \<Rightarrow> if status_ok n then Inr () else Inl (JsError ''Error'' (''Session sync failed with status '' @ show_nat n) []))"

text \<open>The body is checked field by field; one that is not a session counts as none.\<close>

definition parse_synced :: "host \<Rightarrow> js \<Rightarrow> SyncedSessionState option" where
  "parse_synced h body = (case body of
      Obj r \<Rightarrow> (case (get_prop r ''sessionId'', get_prop r ''guesses'', get_prop r ''updatedAt'') of
          (Str i, Arr gs, Num t) \<Rightarrow> Some \<lparr>sy_sessionId = i, sy_guesses = map (js_String h) gs, sy_updatedAt = t\<rparr>
        | _ \<Rightarrow> None)
    | _ \<Rightarrow> None)"

definition fetchActiveSession :: "host \<Rightarrow> http_answer \<Rightarrow> js_error + SyncedSessionState option" where
  "fetchActiveSession h ans = (case ans of HttpFails e \<Rightarrow> Inl e
     | HttpAnswer n body \<Rightarrow>
         if n = 404 \<or> n = 204 then Inr None
         else if \<not> status_ok n then Inl (JsError ''Error'' (''Active session fetch failed with status '' @ show_nat n) [])
         else (case body of Inl e \<Rightarrow> Inl e | Inr b \<Rightarrow> Inr (parse_synced h b)))"

text \<open>The hook: the local state it is given, what it pushed last, and what it told its parent.\<close>

record sync_state =
  sc_local :: "SyncedSessionState option"
  sc_pushedAt :: "jsnum option"
  sc_status :: SyncStatus
  sc_lastSyncedAt :: "int option"
  sc_told :: "SyncedSessionState list"
  sc_pushes :: "SyncedSessionState list"

definition needs_push :: "sync_state \<Rightarrow> bool" where
  "needs_push s \<longleftrightarrow> (case sc_local s of None \<Rightarrow> False
     | Some c \<Rightarrow> (case sc_pushedAt s of None \<Rightarrow> True | Some t \<Rightarrow> \<not> num_eq (sy_updatedAt c) t))"

definition push_phase :: "http_answer \<Rightarrow> sync_state \<Rightarrow> (js_error + unit) \<times> sync_state" where
  "push_phase ans s =
    (if needs_push s then
       let c = the (sc_local s); s1 = s\<lparr>sc_pushes := sc_pushes s @ [c]\<rparr> in
       (case pushSessionState ans of Inl e \<Rightarrow> (Inl e, s1) | Inr _ \<Rightarrow> (Inr (), s1\<lparr>sc_pushedAt := Some (sy_updatedAt c)\<rparr>))
     else (Inr (), s))"

definition take_remote :: "SyncedSessionState option \<Rightarrow> sync_state \<Rightarrow> sync_state" where
  "take_remote remote s =
    (if sc_local s = None \<or> resolveConflict (sc_local s) remote \<noteq> sc_local s then
       (case remote of None \<Rightarrow> s
        | Some r \<Rightarrow> s\<lparr>sc_pushedAt := Some (sy_updatedAt r), sc_told := sc_told s @ [r]\<rparr>)
     else s)"

definition sync :: "host \<Rightarrow> http_answer \<Rightarrow> http_answer \<Rightarrow> int \<Rightarrow> sync_state \<Rightarrow> sync_state" where
  "sync h push_ans fetch_ans now s =
    (case push_phase push_ans (s\<lparr>sc_status := Syncing\<rparr>) of
       (Inl _, s1) \<Rightarrow> s1\<lparr>sc_status := Retrying\<rparr>
     | (Inr _, s1) \<Rightarrow> (case fetchActiveSession h fetch_ans of
           Inl _ \<Rightarrow> s1\<lparr>sc_status := Retrying\<rparr>
         | Inr remote \<Rightarrow> (take_remote remote s1)\<lparr>sc_lastSyncedAt := Some now, sc_status := Synced\<rparr>))"

lemma resolveConflict_newest:
  "resolveConflict (Some a) (Some b) = Some b \<longleftrightarrow> num_lt (sy_updatedAt a) (sy_updatedAt b) \<or> a = b"
  by (auto simp: resolveConflict_def)

end
