(* ===== verification/Client_Settings.thy ===== *)
theory Client_Settings
  imports Js_Values
begin

text \<open>
  The settings the web client keeps in the browser: visual settings
  (\<^verbatim>\<open>frontend/src/hooks/useVisualSettings.ts\<close>, \<^verbatim>\<open>lib/zoom.ts\<close>), the theme (\<^verbatim>\<open>hooks/useTheme.ts\<close>,
  \<^verbatim>\<open>lib/theme.ts\<close>), the game's settings (\<^verbatim>\<open>providers/settings-provider.tsx\<close>) and the introduction
  (\<^verbatim>\<open>providers/onboarding-provider.tsx\<close>, \<^verbatim>\<open>hooks/useOnboarding.ts\<close>).  A stored text is represented by
  the value it parses to; the storage may be unavailable.  Visual settings and theme share one key.
\<close>

section \<open>Zoom\<close>

definition ZOOM_MIN :: int where "ZOOM_MIN = 100"
definition ZOOM_MAX :: int where "ZOOM_MAX = 200"
definition ZOOM_STEP :: int where "ZOOM_STEP = 25"

text \<open>\<^verbatim>\<open>Number.isFinite\<close> is false of a value that is no number.\<close>

definition clampZoom :: "js \<Rightarrow> int" where
  "clampZoom v = (case v of
      Num (Fin r) \<Rightarrow> min ZOOM_MAX (max ZOOM_MIN (\<lfloor>r / of_int ZOOM_STEP + 1 / 2\<rfloor> * ZOOM_STEP))
    | _ \<Rightarrow> ZOOM_MIN)"

definition stepZoom :: "int \<Rightarrow> bool \<Rightarrow> int" where
  "stepZoom current up = clampZoom (Num (num (current + (if up then 1 else -1) * ZOOM_STEP)))"

section \<open>Spreading objects\<close>

text \<open>The properties that the spread of a value copies, and the object literal \<^verbatim>\<open>{ ...a, ...b }\<close>.\<close>

definition indexed :: "'a list \<Rightarrow> ('a \<Rightarrow> js) \<Rightarrow> js_record" where
  "indexed xs f = map (\<lambda>(i, x). (show_nat i, f x)) (enumerate 0 xs)"

fun own_props :: "js \<Rightarrow> js_record" where
  "own_props (Obj r) = r"
| "own_props (Arr xs) = indexed xs id"
| "own_props (Str s) = indexed s (\<lambda>c. Str [c])"
| "own_props _ = []"

definition spread :: "js_record \<Rightarrow> js_record \<Rightarrow> js_record" where
  "spread a b = fold (\<lambda>(k, v). jm_set k v) b a"

section \<open>Visual settings and theme\<close>

definition DEFAULT_SETTINGS :: js_record where
  "DEFAULT_SETTINGS = [(''theme'', Str ''system''), (''highContrast'', JBool False), (''fontSize'', Str ''medium''), (''zoom'', Num (num 100))]"

datatype ThemePreference = Light | Dark | System

definition theme_text :: "ThemePreference \<Rightarrow> string" where
  "theme_text t = (case t of Light \<Rightarrow> ''light'' | Dark \<Rightarrow> ''dark'' | System \<Rightarrow> ''system'')"

definition theme_order :: "ThemePreference list" where
  "theme_order = [Light, Dark, System]"

definition resolveTheme :: "ThemePreference \<Rightarrow> bool \<Rightarrow> ThemePreference" where
  "resolveTheme preference systemPrefersDark =
    (if preference = System then (if systemPrefersDark then Dark else Light) else preference)"

text \<open>What is stored under the common key, and the states of the two hooks.\<close>

record look =
  lk_storage :: bool
  lk_stored :: "js option"
  lk_settings :: js_record
  lk_preference :: ThemePreference
  lk_systemDark :: bool

definition store_look :: "js option \<Rightarrow> look \<Rightarrow> look" where
  "store_look v s = (if lk_storage s then s\<lparr>lk_stored := v\<rparr> else s)"

definition load_visual :: "look \<Rightarrow> js_record" where
  "load_visual s = (if \<not> lk_storage s then DEFAULT_SETTINGS
     else case lk_stored s of None \<Rightarrow> DEFAULT_SETTINGS
       | Some v \<Rightarrow> (let parsed = spread DEFAULT_SETTINGS (own_props v)
                    in spread parsed [(''zoom'', Num (num (clampZoom (get_prop parsed ''zoom''))))]))"

text \<open>The first render reads the storage, and the effect writes the settings back.\<close>

definition mount_visual :: "look \<Rightarrow> look" where
  "mount_visual s = (let r = load_visual s in store_look (Some (Obj r)) (s\<lparr>lk_settings := r\<rparr>))"

definition updateSetting :: "string \<Rightarrow> js \<Rightarrow> look \<Rightarrow> look" where
  "updateSetting k v s = (let r = spread (lk_settings s) [(k, v)] in store_look (Some (Obj r)) (s\<lparr>lk_settings := r\<rparr>))"

text \<open>The key is removed, and the effect writes the defaults unless they were there already.\<close>

definition resetSettings :: "look \<Rightarrow> look" where
  "resetSettings s = (let s1 = store_look None s in
     if lk_settings s = DEFAULT_SETTINGS then s1 else store_look (Some (Obj DEFAULT_SETTINGS)) (s1\<lparr>lk_settings := DEFAULT_SETTINGS\<rparr>))"

definition readPreference :: "look \<Rightarrow> ThemePreference" where
  "readPreference s = (if \<not> lk_storage s then System
     else case lk_stored s of None \<Rightarrow> System
       | Some v \<Rightarrow> (case List.find (\<lambda>t. get_prop (own_props v) ''theme'' = Str (theme_text t)) theme_order of
            Some t \<Rightarrow> t | None \<Rightarrow> System))"

definition persist_theme :: "ThemePreference \<Rightarrow> look \<Rightarrow> look" where
  "persist_theme t s = store_look (Some (Obj (spread (case lk_stored s of None \<Rightarrow> [] | Some v \<Rightarrow> spread [] (own_props v))
     [(''theme'', Str (theme_text t))]))) s"

definition mount_theme :: "bool \<Rightarrow> look \<Rightarrow> look" where
  "mount_theme systemDark s = s\<lparr>lk_preference := readPreference s, lk_systemDark := systemDark\<rparr>"

definition setTheme :: "ThemePreference \<Rightarrow> look \<Rightarrow> look" where
  "setTheme t s = persist_theme t (s\<lparr>lk_preference := t\<rparr>)"

definition next_theme :: "ThemePreference \<Rightarrow> ThemePreference" where
  "next_theme t = (case t of Light \<Rightarrow> Dark | Dark \<Rightarrow> System | System \<Rightarrow> Light)"

definition cycleTheme :: "look \<Rightarrow> look" where
  "cycleTheme s = setTheme (next_theme (lk_preference s)) s"

definition resolved_theme :: "look \<Rightarrow> ThemePreference" where
  "resolved_theme s = resolveTheme (lk_preference s) (lk_systemDark s)"

section \<open>The game's settings\<close>

definition game_defaults :: js_record where
  "game_defaults = [(''colorBlindMode'', JBool False), (''soundEffects'', JBool False), (''showDifficultyBadge'', JBool True), (''hardMode'', JBool False)]"

record game_settings =
  gs_storage :: bool
  gs_stored :: "js option"
  gs_values :: js_record

definition loadSettings :: "game_settings \<Rightarrow> js_record" where
  "loadSettings s = (if \<not> gs_storage s then game_defaults
     else case gs_stored s of None \<Rightarrow> game_defaults | Some v \<Rightarrow> spread game_defaults (own_props v))"

definition mount_settings :: "game_settings \<Rightarrow> game_settings" where
  "mount_settings s = s\<lparr>gs_values := loadSettings s\<rparr>"

definition persistSettings :: "js_record \<Rightarrow> game_settings \<Rightarrow> game_settings" where
  "persistSettings v s = (if gs_storage s then s\<lparr>gs_stored := Some (Obj v)\<rparr> else s)"

definition set_game_setting :: "string \<Rightarrow> bool \<Rightarrow> game_settings \<Rightarrow> game_settings" where
  "set_game_setting k b s = (let next = spread (gs_values s) [(k, JBool b)] in (persistSettings next s)\<lparr>gs_values := next\<rparr>)"

definition setColorBlindMode :: "bool \<Rightarrow> game_settings \<Rightarrow> game_settings" where
  "setColorBlindMode = set_game_setting ''colorBlindMode''"
definition setSoundEffects :: "bool \<Rightarrow> game_settings \<Rightarrow> game_settings" where
  "setSoundEffects = set_game_setting ''soundEffects''"
definition setShowDifficultyBadge :: "bool \<Rightarrow> game_settings \<Rightarrow> game_settings" where
  "setShowDifficultyBadge = set_game_setting ''showDifficultyBadge''"
definition setHardMode :: "bool \<Rightarrow> game_settings \<Rightarrow> game_settings" where
  "setHardMode = set_game_setting ''hardMode''"

section \<open>The introduction\<close>

definition onboarding_steps :: "string list" where
  "onboarding_steps = [''welcome'', ''wallet-connect'', ''first-game'', ''rewards-overview'']"

record onboarding =
  ob_currentStep :: string
  ob_isComplete :: bool
  ob_storage :: bool
  ob_storedComplete :: "string option"
  ob_storedStep :: "string option"

definition mount_onboarding :: "onboarding \<Rightarrow> onboarding" where
  "mount_onboarding s =
    (if \<not> ob_storage s then s\<lparr>ob_isComplete := True\<rparr>
     else if ob_storedComplete s = Some ''true'' then s\<lparr>ob_isComplete := True\<rparr>
     else s\<lparr>ob_currentStep := (case ob_storedStep s of Some i \<Rightarrow> if i = [] then ''welcome'' else i | None \<Rightarrow> ''welcome''), ob_isComplete := False\<rparr>)"

definition setCurrentStep :: "string \<Rightarrow> onboarding \<Rightarrow> onboarding" where
  "setCurrentStep i s = (if ob_storage s then s\<lparr>ob_currentStep := i, ob_storedStep := Some i\<rparr> else s\<lparr>ob_currentStep := i\<rparr>)"

definition setComplete :: "bool \<Rightarrow> onboarding \<Rightarrow> onboarding" where
  "setComplete b s = (let s1 = s\<lparr>ob_isComplete := b\<rparr> in
     if ob_storage s then s1\<lparr>ob_storedComplete := Some (if b then ''true'' else ''false'')\<rparr> else s1)"

definition restart_onboarding :: "onboarding \<Rightarrow> onboarding" where
  "restart_onboarding s = (let s1 = s\<lparr>ob_currentStep := ''welcome'', ob_isComplete := False\<rparr> in
     if ob_storage s then s1\<lparr>ob_storedComplete := None, ob_storedStep := Some ''welcome''\<rparr> else s1)"

text \<open>\<^verbatim>\<open>indexOf\<close>: the first position, or -1.\<close>

definition indexOf :: "'a \<Rightarrow> 'a list \<Rightarrow> int" where
  "indexOf x xs = (case List.find (\<lambda>i. xs ! i = x) [0..<length xs] of Some i \<Rightarrow> int i | None \<Rightarrow> -1)"

definition nextStep :: "onboarding \<Rightarrow> onboarding" where
  "nextStep s = (let idx = indexOf (ob_currentStep s) onboarding_steps in
     if idx < int (length onboarding_steps) - 1 then setCurrentStep (onboarding_steps ! nat (idx + 1)) s else setComplete True s)"

definition prevStep :: "onboarding \<Rightarrow> onboarding" where
  "prevStep s = (let idx = indexOf (ob_currentStep s) onboarding_steps in
     if idx > 0 then setCurrentStep (onboarding_steps ! nat (idx - 1)) s else s)"

definition skip_onboarding :: "onboarding \<Rightarrow> onboarding" where
  "skip_onboarding = setComplete True"

section \<open>Properties\<close>

lemma get_prop_set: "get_prop (jm_set k v r) j = (if j = k then v else get_prop r j)"
  using jm_get_set [of j k v r] by (simp add: get_prop_def jm_get_def)

lemma get_prop_spread1: "get_prop (spread r [(k, v)]) j = (if j = k then v else get_prop r j)"
  by (simp add: spread_def get_prop_set)

lemma jm_set_wf: "distinct (map fst r) \<Longrightarrow> distinct (map fst (jm_set k v r))"
  using jm_wf_set [of r k v] by (simp add: jm_wf_def)

lemma spread_wf: "distinct (map fst a) \<Longrightarrow> distinct (map fst (spread a b))"
  unfolding spread_def by (induction b arbitrary: a) (auto intro: jm_set_wf)

lemma clampZoom_range: "clampZoom v \<in> {100, 125, 150, 175, 200}"
proof (cases "\<exists>r. v = Num (Fin r)")
  case True
  then obtain r where r: "v = Num (Fin r)" by blast
  obtain k where k: "\<lfloor>r / of_int ZOOM_STEP + 1 / 2\<rfloor> = k" by blast
  have z: "clampZoom v = min 200 (max 100 (k * 25))" by (simp add: r clampZoom_def k ZOOM_MIN_def ZOOM_MAX_def) (simp add: ZOOM_STEP_def)
  have "k \<le> 4 \<or> 8 \<le> k \<or> k = 5 \<or> k = 6 \<or> k = 7" by presburger
  then show ?thesis unfolding z by auto
next
  case False
  then show ?thesis by (auto simp: clampZoom_def ZOOM_MIN_def split: js.splits jsnum.splits)
qed

lemma clampZoom_fixed: "z \<in> {100, 125, 150, 175, 200} \<Longrightarrow> clampZoom (Num (num z)) = z"
  by (auto simp: clampZoom_def ZOOM_MIN_def ZOOM_MAX_def ZOOM_STEP_def intro!: floor_unique)

lemma load_visual_zoom: "\<exists>z \<in> {100, 125, 150, 175, 200}. get_prop (load_visual s) ''zoom'' = Num (num z)"
proof (cases "lk_storage s \<and> lk_stored s \<noteq> None")
  case True
  then show ?thesis using clampZoom_range by (force simp: load_visual_def Let_def get_prop_spread1)
next
  case False
  then have "load_visual s = DEFAULT_SETTINGS" by (auto simp: load_visual_def)
  then show ?thesis by (simp add: DEFAULT_SETTINGS_def get_prop_def)
qed

lemma readPreference_stored:
  "lk_storage s \<Longrightarrow> lk_stored s = Some (Obj r) \<Longrightarrow> get_prop r ''theme'' = Str (theme_text t) \<Longrightarrow> readPreference s = t"
  by (cases t) (simp_all add: readPreference_def theme_order_def theme_text_def)

text \<open>
  A theme that is set survives a reload; but the hook of the visual settings keeps the theme it loaded and
  writes all its settings, so a change of another setting after that brings the loaded theme
  back, at the next reload, whatever theme was set in between.
\<close>

theorem theme_lost_update:
  assumes st: "lk_storage s" and r: "get_prop (lk_settings s) ''theme'' = Str (theme_text old)" and k: "k \<noteq> ''theme''"
  shows "readPreference (setTheme t s) = t \<and> readPreference (updateSetting k v (setTheme t s)) = old"
proof -
  let ?base = "case lk_stored s of None \<Rightarrow> [] | Some v \<Rightarrow> spread [] (own_props v)"
  have 1: "lk_storage (setTheme t s)" "lk_stored (setTheme t s) = Some (Obj (spread ?base [(''theme'', Str (theme_text t))]))"
    using st by (simp_all add: setTheme_def persist_theme_def store_look_def)
  have 2: "lk_storage (updateSetting k v (setTheme t s))" "lk_stored (updateSetting k v (setTheme t s)) = Some (Obj (spread (lk_settings s) [(k, v)]))"
    using st by (simp_all add: updateSetting_def setTheme_def persist_theme_def store_look_def Let_def)
  show ?thesis
    using readPreference_stored [OF 1] readPreference_stored [OF 2, of old] r k by (simp add: get_prop_spread1)
qed

definition fresh_look :: look where
  "fresh_look = mount_visual \<lparr>lk_storage = True, lk_stored = None, lk_settings = [], lk_preference = System, lk_systemDark = False\<rparr>"

lemma theme_lost_update_witness:
  "readPreference (setTheme Dark fresh_look) = Dark \<and>
   readPreference (updateSetting ''fontSize'' (Str ''large'') (setTheme Dark fresh_look)) = System"
proof -
  have "lk_storage fresh_look" "get_prop (lk_settings fresh_look) ''theme'' = Str (theme_text System)" by code_simp+
  then show ?thesis by (rule theme_lost_update) simp
qed

text \<open>
  Whatever is stored, the page opens with one of the five zoom levels, and a step goes to the next level in
  its direction, if there is one.
\<close>

theorem zoom_levels:
  assumes "get_prop (load_visual s) ''zoom'' = Num (num z)"
  shows "z \<in> {100, 125, 150, 175, 200} \<and> stepZoom z True = min 200 (z + 25) \<and> stepZoom z False = max 100 (z - 25)"
proof -
  have z: "z \<in> {100, 125, 150, 175, 200}" using load_visual_zoom [of s] assms by auto
  have edge: "clampZoom (Num (num 225)) = 200" "clampZoom (Num (num 75)) = 100" by code_simp+
  have "stepZoom z True = clampZoom (Num (num (z + 25)))" "stepZoom z False = clampZoom (Num (num (z - 25)))"
    by (simp_all add: stepZoom_def ZOOM_STEP_def)
  moreover have "clampZoom (Num (num (z + 25))) = min 200 (z + 25)"
    using z edge(1) clampZoom_fixed [of "z + 25"] by auto
  moreover have "clampZoom (Num (num (z - 25))) = max 100 (z - 25)"
    using z edge(2) clampZoom_fixed [of "z - 25"] by auto
  ultimately show ?thesis using z by simp
qed

definition odd_look :: look where
  "odd_look = \<lparr>lk_storage = True, lk_stored = Some (Obj [(''zoom'', Num (Fin (1621 / 10)))]), lk_settings = [], lk_preference = System, lk_systemDark = False\<rparr>"

lemma zoom_levels_witness: "stepZoom 150 True = 175 \<and> stepZoom 150 False = 125"
proof -
  have "get_prop (load_visual odd_look) ''zoom'' = Num (num 150)" by code_simp
  from zoom_levels [OF this] show ?thesis by simp
qed

text \<open>The settings of the game come back as they were set.\<close>

lemma get_prop_spread:
  "distinct (map fst b) \<Longrightarrow> get_prop (spread a b) j = (if j \<in> fst ` set b then get_prop b j else get_prop a j)"
  unfolding spread_def
proof (induction b arbitrary: a)
  case (Cons p b)
  obtain k v where p: "p = (k, v)" by fastforce
  have "k \<notin> fst ` set b" using Cons.prems p by force
  moreover have "get_prop (p # b) j = (if j = k then v else get_prop b j)" by (simp add: p get_prop_def)
  ultimately show ?case using Cons.IH [of "jm_set k v a"] Cons.prems by (simp add: p get_prop_set)
qed simp

lemma game_settings_kept:
  assumes "gs_storage s" "distinct (map fst (gs_values s))" "fst ` set game_defaults \<subseteq> fst ` set (gs_values s)"
  shows "get_prop (gs_values (mount_settings (set_game_setting k b s))) j = (if j = k then JBool b else get_prop (gs_values s) j)"
proof -
  let ?next = "spread (gs_values s) [(k, JBool b)]"
  have "distinct (map fst ?next)" by (rule spread_wf [OF assms(2)])
  then have "get_prop (spread game_defaults ?next) j = (if j \<in> fst ` set ?next then get_prop ?next j else get_prop game_defaults j)"
    by (rule get_prop_spread)
  moreover have "fst ` set ?next = insert k (fst ` set (gs_values s))" by (simp add: spread_def)
  moreover have "get_prop game_defaults j = Undef" if "j \<notin> fst ` set game_defaults"
    using that by (simp add: get_prop_def map_of_eq_None_iff [THEN iffD2])
  moreover have "get_prop (gs_values s) j = Undef" if "j \<notin> fst ` set (gs_values s)"
    using that by (simp add: get_prop_def map_of_eq_None_iff [THEN iffD2])
  ultimately show ?thesis
    using assms(1,3) by (auto simp: mount_settings_def loadSettings_def set_game_setting_def persistSettings_def Let_def get_prop_spread1)
qed

end
