(* ===== verification/Client_View.thy ===== *)
theory Client_View
  imports Js_Values Js_Doubles "HOL-Library.Signed_Division"
begin

text \<open>
  The decisions behind the views of the web client: the content security policy
  (\<^verbatim>\<open>frontend/src/lib/csp.ts\<close>), breakpoints (\<^verbatim>\<open>lib/responsive.ts\<close>), the keyboard
  (\<^verbatim>\<open>hooks/useKeyboardNavigation.ts\<close>, \<^verbatim>\<open>lib/accessibility.ts\<close>), the latency of reads
  (\<^verbatim>\<open>lib/performance/projection-timing.ts\<close>, \<^verbatim>\<open>hooks/useProjectionLatency.ts\<close>), and the two routes the
  client serves itself (\<^verbatim>\<open>app/api/definition/route.ts\<close>, \<^verbatim>\<open>app/api/csp-report/route.ts\<close>).
\<close>

section \<open>Content security policy\<close>

definition DEFAULT_CSP_REPORT_URI :: string where "DEFAULT_CSP_REPORT_URI = ''/api/csp-report''"

definition STELLAR_ORIGINS :: "string list" where
  "STELLAR_ORIGINS = [''https://soroban-testnet.stellar.org'', ''https://horizon-testnet.stellar.org'',
     ''https://mainnet.sorobanrpc.com'', ''https://horizon.stellar.org'']"

definition IMAGE_ORIGINS :: "string list" where "IMAGE_ORIGINS = [''https://assets.dewordle.io'']"

record csp_options =
  co_apiUrl :: "string option"
  co_reportUri :: "string option"
  co_scriptOrigins :: "string list"
  co_connectOrigins :: "string list"
  co_isDev :: bool
  co_forMeta :: bool

text \<open>The origin of a URL comes from the platform; a text that is no URL has none.\<close>

definition originOf :: "(string \<Rightarrow> string option) \<Rightarrow> string option \<Rightarrow> string option" where
  "originOf parse url = (case url of None \<Rightarrow> None | Some u \<Rightarrow> if u = [] then None else parse u)"

definition wsOriginOf :: "string \<Rightarrow> string" where
  "wsOriginOf origin = (if take 4 origin = ''http'' then ''ws'' @ drop 4 origin else origin)"

definition unique_texts :: "string option list \<Rightarrow> string list" where
  "unique_texts values = set_of (concat (map (\<lambda>v. case v of None \<Rightarrow> [] | Some s \<Rightarrow> if s = [] then [] else [s]) values))"

definition apos :: "string \<Rightarrow> string" where
  "apos s = [CHR 0x27] @ s @ [CHR 0x27]"

definition csp_directives :: "(string \<Rightarrow> string option) \<Rightarrow> csp_options \<Rightarrow> (string \<times> string list) list" where
  "csp_directives parse opts =
    (let apiOrigin = originOf parse (co_apiUrl opts);
         connect = unique_texts ([Some (apos ''self''), apiOrigin,
             (case apiOrigin of None \<Rightarrow> None | Some u \<Rightarrow> if u = [] then None else Some (wsOriginOf u))] @
           map Some STELLAR_ORIGINS @ map Some (co_connectOrigins opts) @ [if co_isDev opts then Some ''ws:'' else None])
     in [(''default-src'', [apos ''self'']),
         (''script-src'', unique_texts ([Some (apos ''self''), Some (apos ''unsafe-inline''),
            if co_isDev opts then Some (apos ''unsafe-eval'') else None] @ map Some (co_scriptOrigins opts))),
         (''style-src'', [apos ''self'', apos ''unsafe-inline'']),
         (''img-src'', [apos ''self'', ''data:'', ''blob:''] @ IMAGE_ORIGINS),
         (''font-src'', [apos ''self'', ''data:'']),
         (''connect-src'', connect),
         (''worker-src'', [apos ''self'', ''blob:'']),
         (''manifest-src'', [apos ''self'']),
         (''object-src'', [apos ''none'']),
         (''base-uri'', [apos ''self'']),
         (''form-action'', [apos ''self''])] @
        (if co_forMeta opts then []
         else [(''frame-ancestors'', [apos ''none'']),
               (''report-uri'', [case co_reportUri opts of None \<Rightarrow> DEFAULT_CSP_REPORT_URI
                  | Some u \<Rightarrow> if u = [] then DEFAULT_CSP_REPORT_URI else u])]))"

definition buildCsp :: "(string \<Rightarrow> string option) \<Rightarrow> csp_options \<Rightarrow> string" where
  "buildCsp parse opts =
     intersperse ''; '' (map (\<lambda>(name, values). name @ '' '' @ intersperse '' '' values) (csp_directives parse opts))"

definition env_list :: "string option \<Rightarrow> string list" where
  "env_list v = filter (\<lambda>s. s \<noteq> []) (map trim (split_on (CHR '','') (case v of None \<Rightarrow> [] | Some s \<Rightarrow> s)))"

definition env_or :: "string option \<Rightarrow> string \<Rightarrow> string" where
  "env_or v d = (case v of None \<Rightarrow> d | Some s \<Rightarrow> if s = [] then d else s)"

definition cspOptionsFromEnv :: "(string \<Rightarrow> string option) \<Rightarrow> csp_options" where
  "cspOptionsFromEnv env =
    \<lparr>co_apiUrl = Some (env_or (env ''NEXT_PUBLIC_API_URL'') ''http://localhost:3001''),
     co_reportUri = Some (env_or (env ''NEXT_PUBLIC_CSP_REPORT_URI'') DEFAULT_CSP_REPORT_URI),
     co_scriptOrigins = env_list (env ''NEXT_PUBLIC_CSP_SCRIPT_ORIGINS''),
     co_connectOrigins = env_list (env ''NEXT_PUBLIC_CSP_CONNECT_ORIGINS''),
     co_isDev = (env ''NODE_ENV'' = Some ''development''), co_forMeta = False\<rparr>"

section \<open>Breakpoints\<close>

datatype Breakpoint = XS | SM | MD | LG | XL | XXL

definition breakpoints :: "Breakpoint \<Rightarrow> int" where
  "breakpoints b = (case b of XS \<Rightarrow> 320 | SM \<Rightarrow> 640 | MD \<Rightarrow> 768 | LG \<Rightarrow> 1024 | XL \<Rightarrow> 1280 | XXL \<Rightarrow> 1536)"

definition isMobile :: "jsnum \<Rightarrow> bool" where "isMobile width = num_lt width (num (breakpoints MD))"
definition isTablet :: "jsnum \<Rightarrow> bool" where
  "isTablet width = (num_le (num (breakpoints MD)) width \<and> num_lt width (num (breakpoints LG)))"
definition isDesktop :: "jsnum \<Rightarrow> bool" where "isDesktop width = num_le (num (breakpoints LG)) width"

definition getBreakpoint :: "jsnum \<Rightarrow> Breakpoint" where
  "getBreakpoint width =
    (if num_lt width (num (breakpoints SM)) then XS else if num_lt width (num (breakpoints MD)) then SM
     else if num_lt width (num (breakpoints LG)) then MD else if num_lt width (num (breakpoints XL)) then LG
     else if num_lt width (num (breakpoints XXL)) then XL else XXL)"

definition orderedBreakpoints :: "Breakpoint list" where
  "orderedBreakpoints = [XXL, XL, LG, MD, SM, XS]"

definition responsive :: "(Breakpoint \<Rightarrow> 'a option) \<Rightarrow> Breakpoint \<Rightarrow> 'a option" where
  "responsive values current =
     Option.bind (List.find (\<lambda>b. values b \<noteq> None) (dropWhile (\<lambda>b. b \<noteq> current) orderedBreakpoints)) values"

section \<open>The keyboard\<close>

text \<open>The options of the hook: which handlers are given, and the two flags.\<close>

datatype nav_key = ArrowUp | ArrowDown | ArrowLeft | ArrowRight | Enter | Backspace | Escape | QuestionMark | OtherKey

record nav_options =
  no_handlers :: "nav_key list"
  no_enabled :: "bool option"
  no_isSubmitting :: "bool option"

record key_event =
  ke_key :: nav_key
  ke_editing :: bool
  ke_now :: int

definition ENTER_DEBOUNCE_MS :: int where "ENTER_DEBOUNCE_MS = 300"

text \<open>Whether the listener is registered: \<^verbatim>\<open>enabled\<close> is true by default.\<close>

definition listens :: "nav_options \<Rightarrow> bool" where
  "listens opts = (case no_enabled opts of None \<Rightarrow> True | Some b \<Rightarrow> b)"

text \<open>
  The listener, which reads the flag from the options as they were given; the state is the time of
  the last \<^verbatim>\<open>Enter\<close>, the result the handler called, if any.
\<close>

definition handleKeyDown :: "nav_options \<Rightarrow> key_event \<Rightarrow> int \<Rightarrow> nav_key option \<times> int" where
  "handleKeyDown opts e lastEnter =
    (if no_enabled opts \<noteq> Some True then (None, lastEnter)
     else if ke_editing e then (None, lastEnter)
     else let call = (if ke_key e \<in> set (no_handlers opts) then Some (ke_key e) else None) in
       case ke_key e of
         OtherKey \<Rightarrow> (None, lastEnter)
       | Enter \<Rightarrow> (if no_isSubmitting opts \<noteq> Some True \<and> ke_now e - lastEnter \<ge> ENTER_DEBOUNCE_MS then (call, ke_now e) else (None, lastEnter))
       | _ \<Rightarrow> (call, lastEnter))"

fun key_presses :: "nav_options \<Rightarrow> key_event list \<Rightarrow> int \<Rightarrow> (nav_key \<times> int) list" where
  "key_presses opts [] lastEnter = []"
| "key_presses opts (e # es) lastEnter = (case handleKeyDown opts e lastEnter of
      (None, t) \<Rightarrow> key_presses opts es t
    | (Some k, t) \<Rightarrow> (k, ke_now e) # key_presses opts es t)"

text \<open>
  Moving among items: the index that is focused, if there is one.  In a ring of no items the
  remainder is not a number.
\<close>

definition focusItem :: "bool \<Rightarrow> nat \<Rightarrow> int \<Rightarrow> nat option" where
  "focusItem loop n index =
    (if n = 0 then None
     else if loop then (let r = (index + int n) smod int n in if 0 \<le> r then Some (nat r) else None)
     else Some (nat (max 0 (min index (int n - 1)))))"

definition nav_target :: "bool \<Rightarrow> nat \<Rightarrow> string \<Rightarrow> int \<Rightarrow> nat option" where
  "nav_target loop n key currentIndex =
    (if key = ''ArrowDown'' \<or> key = ''ArrowRight'' then focusItem loop n (currentIndex + 1)
     else if key = ''ArrowUp'' \<or> key = ''ArrowLeft'' then focusItem loop n (currentIndex - 1)
     else if key = ''Home'' then focusItem loop n 0
     else if key = ''End'' then focusItem loop n (int n - 1)
     else None)"

text \<open>The focus trap: where \<^verbatim>\<open>Tab\<close> is sent instead, if at all, among the focusable elements.\<close>

definition trap_tab :: "'a list \<Rightarrow> 'a option \<Rightarrow> bool \<Rightarrow> 'a option" where
  "trap_tab focusable active shift =
    (if focusable = [] then None
     else if shift then (if active = Some (hd focusable) then Some (last focusable) else None)
     else if active = Some (last focusable) then Some (hd focusable) else None)"

datatype CellStatus = CellCorrect | CellPresent | CellAbsent | CellEmpty

definition cell_text :: "CellStatus \<Rightarrow> string" where
  "cell_text st = (case st of CellCorrect \<Rightarrow> ''correct'' | CellPresent \<Rightarrow> ''present'' | CellAbsent \<Rightarrow> ''absent'' | CellEmpty \<Rightarrow> ''empty'')"

definition generateGameCellLabel :: "nat \<Rightarrow> string \<Rightarrow> CellStatus \<Rightarrow> string" where
  "generateGameCellLabel position letter st =
    (let positionLabel = ''row position '' @ show_nat (position + 1) in
     if st = CellEmpty then positionLabel @ '', empty''
     else positionLabel @ '', letter '' @ toUpperCase letter @ '', '' @ cell_text st)"

definition generateBoardSummary :: "nat \<Rightarrow> nat \<Rightarrow> nat \<Rightarrow> nat \<Rightarrow> string" where
  "generateBoardSummary currentRow totalRows guessesUsed maxGuesses =
     ''Guess '' @ show_nat guessesUsed @ '' of '' @ show_nat maxGuesses @ ''. Row '' @ show_nat (currentRow + 1) @ '' of '' @ show_nat totalRows @ ''.''"

section \<open>The latency of reads\<close>

record ProjectionTimingEntry =
  pt_key :: string
  pt_durationMs :: int
  pt_success :: bool
  pt_completedAt :: string

text \<open>The measured call: its answer goes through, and the entry is emitted either way.\<close>

definition measureProjectionFetch :: "string \<Rightarrow> 'e + 'a \<Rightarrow> rat \<Rightarrow> rat \<Rightarrow> string \<Rightarrow> ('e + 'a) \<times> ProjectionTimingEntry" where
  "measureProjectionFetch key answer start finish now =
    (answer, \<lparr>pt_key = key, pt_durationMs = \<lfloor>finish - start + 1 / 2\<rfloor>,
       pt_success = (case answer of Inl _ \<Rightarrow> False | Inr _ \<Rightarrow> True), pt_completedAt = now\<rparr>)"

record latency_state =
  la_latest :: "ProjectionTimingEntry option"
  la_average :: "int option"
  la_count :: nat
  la_total :: int

definition latency_start :: latency_state where
  "latency_start = \<lparr>la_latest = None, la_average = None, la_count = 0, la_total = 0\<rparr>"

definition handleEntry :: "string option \<Rightarrow> ProjectionTimingEntry \<Rightarrow> latency_state \<Rightarrow> latency_state" where
  "handleEntry prefix entry s =
    (if (case prefix of None \<Rightarrow> False | Some p \<Rightarrow> p \<noteq> [] \<and> take (length p) (pt_key entry) \<noteq> p) then s
     else let total = la_total s + pt_durationMs entry; n = la_count s + 1
       in \<lparr>la_latest = Some entry, la_average = Some (math_round (div_d (of_int total) (of_nat n))), la_count = n, la_total = total\<rparr>)"

section \<open>The routes\<close>

text \<open>A member of a value; \<^verbatim>\<open>null\<close> and \<^verbatim>\<open>undefined\<close> have none and throw, unless the access is optional.\<close>

fun member_of :: "string \<Rightarrow> js \<Rightarrow> js" where
  "member_of k (Obj r) = get_prop r k"
| "member_of k _ = Undef"

fun first_of :: "js \<Rightarrow> js" where
  "first_of (Arr (x # xs)) = x"
| "first_of (Str (c # cs)) = Str [c]"
| "first_of (Obj r) = get_prop r ''0''"
| "first_of _ = Undef"

definition js_or_null :: "js \<Rightarrow> js" where
  "js_or_null v = coalesce v Null"

text \<open>A reply: its status and its body.\<close>

type_synonym reply = "nat \<times> js_record"

definition reply_message :: "nat \<Rightarrow> string \<Rightarrow> reply" where
  "reply_message n m = (n, [(''message'', Str m)])"

definition definition_payload :: "string \<Rightarrow> js \<Rightarrow> reply" where
  "definition_payload word entries =
    (if nullish entries then reply_message 502 ''Definition unavailable''
     else let entry = first_of entries;
              meaning = first_of (member_of ''meanings'' entry);
              firstDefinition = first_of (member_of ''definitions'' meaning)
       in if \<not> truthy (member_of ''definition'' firstDefinition) then reply_message 404 ''Definition unavailable''
          else (200, [(''word'', coalesce (member_of ''word'' entry) (Str word)),
            (''definition'', member_of ''definition'' firstDefinition),
            (''partOfSpeech'', js_or_null (member_of ''partOfSpeech'' meaning)),
            (''example'', js_or_null (member_of ''example'' firstDefinition)),
            (''phonetic'', js_or_null (coalesce (member_of ''phonetic'' entry) (member_of ''text'' (first_of (member_of ''phonetics'' entry)))))]))"

text \<open>The upstream answer: the request fails, or a status with a body that parses or not.\<close>

datatype upstream = UpstreamFails | UpstreamAnswer bool "js option"

definition lookup_definition :: "string option \<Rightarrow> upstream \<Rightarrow> reply" where
  "lookup_definition param ans =
    (let word = toLowerCase (trim (case param of None \<Rightarrow> [] | Some w \<Rightarrow> w)) in
     if \<not> (2 \<le> length word \<and> length word \<le> 32 \<and> list_all (char_in (CHR ''a'') (CHR ''z'')) word)
     then reply_message 400 ''A valid word is required''
     else case ans of
         UpstreamFails \<Rightarrow> reply_message 502 ''Definition unavailable''
       | UpstreamAnswer ok body \<Rightarrow>
           if \<not> ok then reply_message 404 ''Definition unavailable''
           else (case body of None \<Rightarrow> reply_message 502 ''Definition unavailable'' | Some entries \<Rightarrow> definition_payload word entries))"

definition CSP_MAX_BYTES :: nat where "CSP_MAX_BYTES = 16 * 1024"

text \<open>The sink for reports: the status, and the report it logs and forwards.\<close>

definition csp_report :: "host \<Rightarrow> string option \<Rightarrow> string \<Rightarrow> (string \<Rightarrow> js option) \<Rightarrow> nat \<times> js option" where
  "csp_report h content_length body parse =
    (let declared = (case content_length of None \<Rightarrow> num 0 | Some t \<Rightarrow> js_Number h (Str t)) in
     if num_lt (num (int CSP_MAX_BYTES)) declared then (413, None)
     else if length body > CSP_MAX_BYTES then (413, None)
     else case parse body of None \<Rightarrow> (400, None) | Some report \<Rightarrow> (204, Some report))"

section \<open>Properties\<close>

lemma handleKeyDown_enter:
  "handleKeyDown opts e t = (r, t') \<Longrightarrow> (r = Some Enter \<longrightarrow> t' = ke_now e \<and> t + 300 \<le> ke_now e) \<and>
     (t' = t \<or> t' = ke_now e \<and> t + 300 \<le> ke_now e)"
  by (auto simp: handleKeyDown_def Let_def ENTER_DEBOUNCE_MS_def split: nav_key.splits if_splits)

lemma key_presses_spaced:
  "sorted_wrt (\<lambda>a b. a + 300 \<le> b) (map snd (filter (\<lambda>p. fst p = Enter) (key_presses opts es t))) \<and>
   (\<forall>u \<in> snd ` set (filter (\<lambda>p. fst p = Enter) (key_presses opts es t)). t + 300 \<le> u)"
proof (induction opts es t rule: key_presses.induct)
  case (2 opts e es t)
  obtain r t' where h: "handleKeyDown opts e t = (r, t')" by fastforce
  note H = handleKeyDown_enter [OF h]
  show ?case
  proof (cases r)
    case None
    then show ?thesis using 2(1) [OF h [symmetric]] H h by fastforce
  next
    case (Some k)
    then show ?thesis using 2(2) [OF h [symmetric]] H h by (cases "k = Enter") (fastforce)+
  qed
qed simp

lemma focusItem_range: "focusItem loop n i = Some j \<Longrightarrow> j < n"
proof (cases loop)
  case True
  assume a: "focusItem loop n i = Some j"
  then have n: "0 < n" and j: "0 \<le> (i + int n) smod int n" "j = nat ((i + int n) smod int n)"
    using True by (auto simp: focusItem_def Let_def split: if_splits)
  have "(i + int n) smod int n < int n"
  proof -
    have "\<bar>(i + int n) smod int n\<bar> < \<bar>int n\<bar>" using n by (simp add: signed_modulo_int_def sgn_if)
    then show ?thesis using n by simp
  qed
  then show ?thesis using j by simp
next
  case False
  assume "focusItem loop n i = Some j"
  then show ?thesis using False by (auto simp: focusItem_def split: if_splits)
qed

text \<open>
  Calls of the \<^verbatim>\<open>Enter\<close> handler are at least 300 milliseconds apart, whatever keys are pressed when; but
  when the hook is used without \<^verbatim>\<open>enabled\<close>, which counts as true and registers the listener, the
  listener never calls any handler.
\<close>

theorem keyboard_enter_spaced:
  "sorted_wrt (\<lambda>a b. a + 300 \<le> b) (map snd (filter (\<lambda>p. fst p = Enter) (key_presses opts es t))) \<and>
   listens (opts\<lparr>no_enabled := None\<rparr>) \<and> key_presses (opts\<lparr>no_enabled := None\<rparr>) es t = []"
proof -
  have "key_presses (opts\<lparr>no_enabled := None\<rparr>) es t = []"
    by (induction es) (simp_all add: handleKeyDown_def)
  then show ?thesis using key_presses_spaced [of opts es t] by (simp add: listens_def)
qed

end
