(* ===== verification/Pool_Pressure.thy ===== *)
theory Pool_Pressure
  imports Js_Values
begin

text \<open>
  The guard against an exhausted connection pool: the pressure monitor and the retry helper of
  \<^verbatim>\<open>database/pool-pressure.ts\<close>, the snapshot of \<^verbatim>\<open>database/pool-pressure.service.ts\<close>, and the
  warning of \<^verbatim>\<open>database/pool-leak-monitor.ts\<close>.  The operation, the clock and the sleep act on a
  world of their own, which is a parameter; the counters of a pool are integers.
\<close>

section \<open>The monitor\<close>

definition POOL_PRESSURE_THRESHOLD :: rat where "POOL_PRESSURE_THRESHOLD = 9 / 10"
definition POOL_RETRY_DEFAULT_MAX :: int where "POOL_RETRY_DEFAULT_MAX = 3"
definition POOL_RETRY_DEFAULT_BASE_DELAY_MS :: int where "POOL_RETRY_DEFAULT_BASE_DELAY_MS = 200"

record PoolStats =
  ps_total :: int
  ps_idle :: int
  ps_waiting :: int
  ps_used :: int

record PoolPressureDecision =
  pd_underPressure :: bool
  pd_utilization :: rat
  pd_suggestedBackoffMs :: rat
  pd_retryCount :: int
  pd_maxRetries :: int

record PoolPressureMonitor =
  pm_consecutiveRetries :: int
  pm_threshold :: rat
  pm_maxRetries :: int
  pm_baseDelayMs :: int

definition new_monitor :: PoolPressureMonitor where
  "new_monitor = \<lparr>pm_consecutiveRetries = 0, pm_threshold = POOL_PRESSURE_THRESHOLD,
     pm_maxRetries = POOL_RETRY_DEFAULT_MAX, pm_baseDelayMs = POOL_RETRY_DEFAULT_BASE_DELAY_MS\<rparr>"

text \<open>\<^verbatim>\<open>base * 2 ** Math.min(consecutive, 5)\<close>; the count is negative only for a negative budget.\<close>

definition pool_backoff :: "PoolPressureMonitor \<Rightarrow> rat" where
  "pool_backoff m = of_int (pm_baseDelayMs m) * 2 powi (min (pm_consecutiveRetries m) 5)"

definition evaluate :: "PoolPressureMonitor \<Rightarrow> PoolStats \<Rightarrow> PoolPressureDecision" where
  "evaluate m stats =
    (let utilization = (if 0 < ps_total stats then of_int (ps_used stats) / of_int (ps_total stats) else 0);
         underPressure = (pm_threshold m \<le> utilization \<or> 0 < ps_waiting stats)
     in \<lparr>pd_underPressure = underPressure, pd_utilization = utilization,
         pd_suggestedBackoffMs = (if underPressure then pool_backoff m else 0),
         pd_retryCount = pm_consecutiveRetries m, pd_maxRetries = pm_maxRetries m\<rparr>)"

definition recordRetry :: "PoolPressureMonitor \<Rightarrow> PoolPressureMonitor" where
  "recordRetry m = m\<lparr>pm_consecutiveRetries := min (pm_consecutiveRetries m + 1) (pm_maxRetries m)\<rparr>"

definition reset_monitor :: "PoolPressureMonitor \<Rightarrow> PoolPressureMonitor" where
  "reset_monitor m = m\<lparr>pm_consecutiveRetries := 0\<rparr>"

section \<open>Errors of the pool\<close>

text \<open>A thrown value: an \<^verbatim>\<open>Error\<close> with its message and optional code, or anything else.\<close>

datatype pool_error = ThrownError string "string option" | ThrownOther

definition pool_signs :: "string list" where
  "pool_signs = [''timeout'', ''etimedout'', ''econnrefused'', ''econnreset'', ''57p01'', ''pool'']"

fun isPoolExhaustionError :: "pool_error \<Rightarrow> bool" where
  "isPoolExhaustionError ThrownOther = False"
| "isPoolExhaustionError (ThrownError message code) =
     (let haystack = message @ '' '' @ (case code of Some c \<Rightarrow> c | None \<Rightarrow> '''')
      in \<exists>sign \<in> set pool_signs. occurs_in sign (toLowerCase haystack))"

section \<open>Retrying an operation\<close>

text \<open>What the helper uses of its surroundings.\<close>

record ('w, 'a) pool_env =
  pe_operation :: "('w, pool_error, 'a) act"
  pe_now :: "'w \<Rightarrow> int"
  pe_sleep :: "rat \<Rightarrow> 'w \<Rightarrow> 'w"

definition waiting_one :: PoolStats where
  "waiting_one = \<lparr>ps_total = 0, ps_idle = 0, ps_waiting = 1, ps_used = 0\<rparr>"

function retry_from :: "('w, 'a) pool_env \<Rightarrow> int \<Rightarrow> int \<Rightarrow> ('w \<times> PoolPressureMonitor, pool_error, 'a) act" where
  "retry_from E deadline attempt (w, m) =
    (if attempt \<le> pm_maxRetries m then
       (case pe_operation E w of
          (Inr result, w') \<Rightarrow> (Inr result, (w', reset_monitor m))
        | (Inl err, w') \<Rightarrow>
            if \<not> isPoolExhaustionError err then (Inl err, (w', m))
            else if pm_maxRetries m \<le> attempt \<or> deadline \<le> pe_now E w' then (Inl err, (w', m))
            else (let m' = recordRetry m
              in retry_from E deadline (attempt + 1) (pe_sleep E (pd_suggestedBackoffMs (evaluate m' waiting_one)) w', m')))
     else (Inl (ThrownError ''withConnectionRetry exhausted attempts'' None), (w, m)))"
  by pat_completeness auto
termination
  by (relation "measure (\<lambda>(E, deadline, attempt, w, m). nat (pm_maxRetries m + 1 - attempt))")
    (auto simp: recordRetry_def)

declare retry_from.simps [simp del]

definition withConnectionRetry ::
  "('w, 'a) pool_env \<Rightarrow> int option \<Rightarrow> ('w \<times> PoolPressureMonitor, pool_error, 'a) act" where
  "withConnectionRetry E timeoutMs s =
    retry_from E (pe_now E (fst s) + (case timeoutMs of Some t \<Rightarrow> t | None \<Rightarrow> 30000)) 0 s"

section \<open>The live pool\<close>

text \<open>The driver's pool, when there is one; a counter may be missing.\<close>

record pg_pool =
  pp_totalCount :: "int option"
  pp_idleCount :: "int option"
  pp_waitingCount :: "int option"

definition getStats :: "pg_pool option \<Rightarrow> PoolStats option" where
  "getStats pool = (case pool of None \<Rightarrow> None
    | Some p \<Rightarrow> (let total = (case pp_totalCount p of Some n \<Rightarrow> n | None \<Rightarrow> 0);
          idle = (case pp_idleCount p of Some n \<Rightarrow> n | None \<Rightarrow> 0);
          waiting = (case pp_waitingCount p of Some n \<Rightarrow> n | None \<Rightarrow> 0)
        in Some \<lparr>ps_total = total, ps_idle = idle, ps_waiting = waiting, ps_used = max (total - idle) 0\<rparr>))"

definition isUnderPressure :: "PoolPressureMonitor \<Rightarrow> pg_pool option \<Rightarrow> bool" where
  "isUnderPressure m pool = (case getStats pool of None \<Rightarrow> False | Some stats \<Rightarrow> pd_underPressure (evaluate m stats))"

text \<open>The warning of \<^verbatim>\<open>refresh\<close>, when it emits one: the snapshot and the suggested wait.\<close>

definition pool_refresh :: "PoolPressureMonitor \<Rightarrow> pg_pool option \<Rightarrow> (rat \<times> PoolStats \<times> rat) option" where
  "pool_refresh m pool = (case getStats pool of None \<Rightarrow> None
    | Some stats \<Rightarrow> (let decision = evaluate m stats in
        if pd_underPressure decision then Some (pd_utilization decision, stats, pd_suggestedBackoffMs decision) else None))"

text \<open>The service reads \<^verbatim>\<open>driver.master\<close>, else \<^verbatim>\<open>driver.pool\<close>.\<close>

definition driver_pool :: "pg_pool option \<Rightarrow> pg_pool option \<Rightarrow> pg_pool option" where
  "driver_pool master pool = (case master of Some p \<Rightarrow> Some p | None \<Rightarrow> pool)"

definition LEAK_POOL_MAX :: int where "LEAK_POOL_MAX = 25"
definition WARN_UTILIZATION :: rat where "WARN_UTILIZATION = 8 / 10"

text \<open>One tick of \<^verbatim>\<open>watchPoolUtilization\<close>: the utilization it warns about, if any.\<close>

definition leak_tick :: "(int \<times> int) option \<Rightarrow> rat option" where
  "leak_tick pool = (case pool of None \<Rightarrow> None
    | Some (totalCount, idleCount) \<Rightarrow> (let utilization = of_int (totalCount - idleCount) / of_int LEAK_POOL_MAX in
        if WARN_UTILIZATION \<le> utilization then Some utilization else None))"

section \<open>Lemmas\<close>

lemma recordRetry_budget [simp]:
  "pm_maxRetries (recordRetry m) = pm_maxRetries m" "pm_baseDelayMs (recordRetry m) = pm_baseDelayMs m"
  "pm_consecutiveRetries (recordRetry m) = min (pm_consecutiveRetries m + 1) (pm_maxRetries m)"
  by (simp_all add: recordRetry_def)

lemma backoff_waiting: "pd_suggestedBackoffMs (evaluate m waiting_one) = pool_backoff m"
  by (simp add: evaluate_def waiting_one_def)

text \<open>The pressure decision without the division.\<close>

lemma pressure_iff:
  assumes "0 < ps_total stats"
  shows "pd_underPressure (evaluate new_monitor stats) \<longleftrightarrow> 9 * ps_total stats \<le> 10 * ps_used stats \<or> 0 < ps_waiting stats"
proof -
  have "(9 / 10 \<le> (of_int (ps_used stats) / of_int (ps_total stats) :: rat)) \<longleftrightarrow>
      (of_int (9 * ps_total stats) :: rat) \<le> of_int (10 * ps_used stats)"
    using assms by (simp add: field_simps)
  also have "\<dots> \<longleftrightarrow> 9 * ps_total stats \<le> 10 * ps_used stats" by (rule of_int_le_iff)
  finally show ?thesis using assms by (simp add: evaluate_def new_monitor_def POOL_PRESSURE_THRESHOLD_def Let_def)
qed

text \<open>
  The reference: the worlds before attempt \<^verbatim>\<open>k\<close> when all earlier ones failed and were waited
  for, and the monitor that goes with them.
\<close>

primrec retries :: "nat \<Rightarrow> PoolPressureMonitor \<Rightarrow> PoolPressureMonitor" where
  "retries 0 m = m"
| "retries (Suc k) m = recordRetry (retries k m)"

primrec world_at :: "('w, 'a) pool_env \<Rightarrow> PoolPressureMonitor \<Rightarrow> 'w \<Rightarrow> nat \<Rightarrow> 'w" where
  "world_at E m w 0 = w"
| "world_at E m w (Suc k) = pe_sleep E (pool_backoff (retries (Suc k) m)) (snd (pe_operation E (world_at E m w k)))"

definition waits_after :: "('w, 'a) pool_env \<Rightarrow> int \<Rightarrow> 'w \<Rightarrow> bool" where
  "waits_after E deadline w \<longleftrightarrow> (case pe_operation E w of
     (Inr _, _) \<Rightarrow> False | (Inl err, w') \<Rightarrow> isPoolExhaustionError err \<and> pe_now E w' < deadline)"

lemma retries_budget [simp]: "pm_maxRetries (retries k m) = pm_maxRetries m" "pm_baseDelayMs (retries k m) = pm_baseDelayMs m"
  by (induction k) simp_all

lemma retries_count:
  assumes "pm_consecutiveRetries m \<le> pm_maxRetries m"
  shows "pm_consecutiveRetries (retries k m) = min (pm_consecutiveRetries m + int k) (pm_maxRetries m)"
  using assms by (induction k) auto

lemma retries_only_count: "retries k m = m\<lparr>pm_consecutiveRetries := pm_consecutiveRetries (retries k m)\<rparr>"
proof (induction k)
  case (Suc k)
  obtain c where "retries k m = m\<lparr>pm_consecutiveRetries := c\<rparr>" using Suc by blast
  then show ?case by (simp add: recordRetry_def)
qed simp

lemma retries_shift: "retries k (recordRetry m) = retries (Suc k) m"
  by (induction k) simp_all

lemma retry_from_waits:
  assumes "waits_after E deadline w" "attempt < pm_maxRetries m"
  shows "retry_from E deadline attempt (w, m) =
    retry_from E deadline (attempt + 1) (pe_sleep E (pool_backoff (recordRetry m)) (snd (pe_operation E w)), recordRetry m)"
  using assms by (subst retry_from.simps) (auto simp: waits_after_def backoff_waiting Let_def split: prod.splits sum.splits)

lemma retry_from_ends:
  assumes "\<not> waits_after E deadline w \<or> attempt = pm_maxRetries m" "attempt \<le> pm_maxRetries m" "pe_operation E w = (r, w')"
  shows "retry_from E deadline attempt (w, m) = (r, (w', if isl r then m else reset_monitor m))"
  using assms by (subst retry_from.simps) (auto simp: waits_after_def split: sum.splits)

lemma world_at_shift:
  "world_at E (recordRetry m) (pe_sleep E (pool_backoff (recordRetry m)) (snd (pe_operation E w))) k = world_at E m w (Suc k)"
proof (induction k)
  case (Suc k)
  have "world_at E m w (Suc (Suc k)) =
      pe_sleep E (pool_backoff (retries (Suc (Suc k)) m)) (snd (pe_operation E (world_at E m w (Suc k))))" by simp
  then show ?case using Suc by (simp only: world_at.simps retries_shift)
qed simp

lemma retry_from_spec:
  assumes "\<forall>i < k. waits_after E deadline (world_at E m w i)" "attempt + int k \<le> pm_maxRetries m"
    and "\<not> waits_after E deadline (world_at E m w k) \<or> attempt + int k = pm_maxRetries m"
    and "pe_operation E (world_at E m w k) = (r, w')"
  shows "retry_from E deadline attempt (w, m) = (r, (w', if isl r then retries k m else reset_monitor (retries k m)))"
  using assms
proof (induction k arbitrary: attempt w m)
  case 0
  then show ?case by (simp add: retry_from_ends)
next
  case (Suc k)
  have "waits_after E deadline w" using Suc.prems(1) by force
  then have "retry_from E deadline attempt (w, m) =
      retry_from E deadline (attempt + 1) (pe_sleep E (pool_backoff (recordRetry m)) (snd (pe_operation E w)), recordRetry m)"
    using Suc.prems(2) by (intro retry_from_waits) auto
  also have "\<dots> = (r, (w', if isl r then retries k (recordRetry m) else reset_monitor (retries k (recordRetry m))))"
    using Suc.prems by (intro Suc.IH) (simp_all only: world_at_shift, auto)
  finally show ?case by (simp only: retries_shift)
qed

text \<open>The attempt that ends the loop: the first one that is not followed by a wait.\<close>

lemma first_end:
  "\<exists>k \<le> n. (\<forall>i < k. P i) \<and> (\<not> P k \<or> k = (n :: nat))"
proof (induction n)
  case (Suc n)
  then obtain k where k: "k \<le> n" "\<forall>i < k. P i" "\<not> P k \<or> k = n" by blast
  show ?case
  proof (cases "P k")
    case True
    then have "\<forall>i < Suc n. P i" using k by (auto simp: less_Suc_eq)
    then show ?thesis by blast
  next
    case False
    then show ?thesis using k(1,2) le_SucI by blast
  qed
qed auto

section \<open>Properties\<close>

text \<open>
  C31: the retry helper returns what one of its first \<^verbatim>\<open>maxRetries + 1\<close> attempts returned or threw:
  the first attempt whose outcome is not a pool error before the deadline, or the last one the
  budget has.  Every earlier attempt failed for the pool, and the \<^verbatim>\<open>k\<close>-th wait after a fresh
  start is \<^verbatim>\<open>base * 2 ^ min k 5\<close>.  It never ends with its own \<^verbatim>\<open>exhausted attempts\<close> error.  A
  success clears the counter; giving up leaves it where it was.
\<close>

theorem connection_retry_outcome:
  assumes N: "0 \<le> pm_maxRetries m" "pm_consecutiveRetries m = 0"
  shows "\<exists>k r w'. int k \<le> pm_maxRetries m \<and>
    (\<forall>i < k. waits_after E (pe_now E w + 30000) (world_at E m w i)) \<and>
    (\<not> waits_after E (pe_now E w + 30000) (world_at E m w k) \<or> int k = pm_maxRetries m) \<and>
    pe_operation E (world_at E m w k) = (r, w') \<and>
    (\<forall>i < k. pool_backoff (retries (Suc i) m) = of_int (pm_baseDelayMs m) * 2 ^ min (Suc i) 5) \<and>
    withConnectionRetry E None (w, m) = (r, (w', m\<lparr>pm_consecutiveRetries := if isl r then int k else 0\<rparr>))"
proof -
  let ?d = "pe_now E w + 30000"
  obtain k where k: "k \<le> nat (pm_maxRetries m)" "\<forall>i < k. waits_after E ?d (world_at E m w i)"
      "\<not> waits_after E ?d (world_at E m w k) \<or> k = nat (pm_maxRetries m)"
    using first_end [of "nat (pm_maxRetries m)" "\<lambda>i. waits_after E ?d (world_at E m w i)"] by blast
  have kN: "int k \<le> pm_maxRetries m" "\<not> waits_after E ?d (world_at E m w k) \<or> int k = pm_maxRetries m"
    using k(1,3) N(1) by auto
  obtain r w' where op: "pe_operation E (world_at E m w k) = (r, w')" by fastforce
  have "retry_from E ?d 0 (w, m) = (r, (w', if isl r then retries k m else reset_monitor (retries k m)))"
    using k(2) kN op by (intro retry_from_spec) auto
  moreover have cnt: "pm_consecutiveRetries (retries i m) = int i" if "i \<le> k" for i
    using retries_count [of m i] N kN(1) that by simp
  moreover note retries_only_count [of k m]
  ultimately have "withConnectionRetry E None (w, m) = (r, (w', m\<lparr>pm_consecutiveRetries := if isl r then int k else 0\<rparr>))"
    by (cases r) (auto simp: withConnectionRetry_def reset_monitor_def)
  moreover have "pool_backoff (retries (Suc i) m) = of_int (pm_baseDelayMs m) * 2 ^ min (Suc i) 5" if "i < k" for i
  proof -
    have "min (int (Suc i)) 5 = int (min (Suc i) 5)" by simp
    then show ?thesis using cnt [of "Suc i"] that unfolding pool_backoff_def by (simp only: retries_budget power_int_of_nat)
  qed
  ultimately show ?thesis using kN k(2) op by blast
qed

text \<open>A world of a clock and a script of outcomes: each attempt takes a second.\<close>

definition scripted :: "(int \<times> (pool_error + nat) list, nat) pool_env" where
  "scripted = \<lparr>pe_operation = (\<lambda>(t, script). case script of [] \<Rightarrow> (Inl ThrownOther, (t + 1000, [])) | r # rs \<Rightarrow> (r, (t + 1000, rs))),
     pe_now = fst, pe_sleep = (\<lambda>d (t, script). (t + \<lfloor>d\<rfloor>, script))\<rparr>"

abbreviation pool_timeout :: pool_error where
  "pool_timeout \<equiv> ThrownError ''timeout exceeded when trying to connect'' None"

theorem connection_retry_outcome_witness:
  "withConnectionRetry scripted None ((0, [Inl pool_timeout, Inl pool_timeout, Inr 7]), new_monitor) = (Inr 7, ((4200, []), new_monitor))"
proof -
  let ?w = "(0, [Inl pool_timeout, Inl pool_timeout, Inr 7]) :: int \<times> (pool_error + nat) list"
  have N: "0 \<le> pm_maxRetries new_monitor" "pm_consecutiveRetries new_monitor = 0" by code_simp+
  have W: "waits_after scripted (pe_now scripted ?w + 30000) (world_at scripted new_monitor ?w 0)"
    "waits_after scripted (pe_now scripted ?w + 30000) (world_at scripted new_monitor ?w 1)"
    "\<not> waits_after scripted (pe_now scripted ?w + 30000) (world_at scripted new_monitor ?w 2)"
    and op: "pe_operation scripted (world_at scripted new_monitor ?w 2) = (Inr 7, (4200, []))"
    and M: "pm_maxRetries new_monitor = 3" by code_simp+
  obtain k r w' where k: "int k \<le> pm_maxRetries new_monitor"
      "\<forall>i < k. waits_after scripted (pe_now scripted ?w + 30000) (world_at scripted new_monitor ?w i)"
      "\<not> waits_after scripted (pe_now scripted ?w + 30000) (world_at scripted new_monitor ?w k) \<or> int k = pm_maxRetries new_monitor"
      "pe_operation scripted (world_at scripted new_monitor ?w k) = (r, w')"
      "withConnectionRetry scripted None (?w, new_monitor) = (r, (w', new_monitor\<lparr>pm_consecutiveRetries := if isl r then int k else 0\<rparr>))"
    using connection_retry_outcome [of new_monitor scripted ?w, OF N] by blast
  have "k = 2"
  proof -
    have "\<not> 2 < k" using k(2) W(3) by blast
    moreover have "k \<noteq> 0" using k(3) W(1) M by (cases "k = 0") simp_all
    moreover have "k \<noteq> 1" using k(3) W(2) M by (cases "k = 1") simp_all
    ultimately show ?thesis by simp
  qed
  then show ?thesis using k(4,5) op by (simp add: new_monitor_def)
qed

text \<open>
  The leak monitor measures against a pool of 25 connections while the data source is configured
  with 20: at the default size it warns only when every connection is in use.
\<close>

lemma leak_warns_when_full:
  assumes "0 \<le> idle" "idle \<le> opened" "opened \<le> 20"
  shows "leak_tick (Some (opened, idle)) \<noteq> None \<longleftrightarrow> opened = 20 \<and> idle = 0"
proof -
  have "WARN_UTILIZATION \<le> of_int (opened - idle) / of_int LEAK_POOL_MAX \<longleftrightarrow> of_int 20 \<le> (of_int (opened - idle) :: rat)"
    by (simp add: field_simps WARN_UTILIZATION_def LEAK_POOL_MAX_def)
  also have "\<dots> \<longleftrightarrow> 20 \<le> opened - idle" by (rule of_int_le_iff)
  finally show ?thesis using assms unfolding leak_tick_def by (auto simp: Let_def)
qed

text \<open>The message of an empty word pool counts as an exhausted connection pool.\<close>

lemma word_pool_mistaken: "isPoolExhaustionError (ThrownError ''Word pool is empty; manual rotation aborted'' None)"
  by code_simp

end
