(* ===== verification/Background_Jobs.thy ===== *)
theory Background_Jobs
  imports Js_Values
begin

text \<open>
  The background jobs (\<^verbatim>\<open>common/job.constants.ts\<close>, \<^verbatim>\<open>common/job.service.ts\<close>,
  \<^verbatim>\<open>common/processors\<close>), the dead-letter queue (\<^verbatim>\<open>common/dlq.service.ts\<close>) and the two
  controllers that report on them.  The queues of the Bull library are a parameter: a record of
  the calls the services make, acting on the state of its server.
\<close>

section \<open>Queues and jobs\<close>

definition REWARD_CALCULATION :: string where "REWARD_CALCULATION = ''reward-calculation''"
definition ACHIEVEMENT_CHECK :: string where "ACHIEVEMENT_CHECK = ''achievement-check''"
definition ANALYTICS_AGGREGATE :: string where "ANALYTICS_AGGREGATE = ''analytics-aggregate''"

definition JOB_QUEUES :: "string list" where
  "JOB_QUEUES = [REWARD_CALCULATION, ACHIEVEMENT_CHECK, ANALYTICS_AGGREGATE]"

definition DLQ_MAX_RETRIES :: int where "DLQ_MAX_RETRIES = 5"
definition JOB_RETRY_ATTEMPTS :: int where "JOB_RETRY_ATTEMPTS = DLQ_MAX_RETRIES"
definition JOB_BACKOFF_DELAY_MS :: int where "JOB_BACKOFF_DELAY_MS = 1000"
definition JOB_BACKOFF_TYPE :: string where "JOB_BACKOFF_TYPE = ''exponential''"
definition DEAD_LETTER_QUEUE :: string where "DEAD_LETTER_QUEUE = ''dead-letter-queue''"

text \<open>The fields of a job the services read; \<^verbatim>\<open>'d\<close> is its payload.\<close>

record 'd job =
  jb_id :: string
  jb_name :: string
  jb_queue :: string
  jb_data :: "'d option"
  jb_attemptsMade :: int
  jb_failedReason :: "string option"
  jb_stacktrace :: js
  jb_timestamp :: int

record job_options =
  jo_attempts :: "int option"
  jo_backoff :: "(string \<times> int) option"
  jo_removeOnComplete :: bool

record ('q, 'd) bull =
  bq_add :: "string \<Rightarrow> 'd \<Rightarrow> job_options \<Rightarrow> ('q, js_error, 'd job) act"
  bq_getWaitingCount :: "('q, js_error, nat) act"
  bq_getActiveCount :: "('q, js_error, nat) act"
  bq_getCompletedCount :: "('q, js_error, nat) act"
  bq_getFailedCount :: "('q, js_error, nat) act"
  bq_getFailed :: "int \<Rightarrow> int \<Rightarrow> ('q, js_error, 'd job list) act"
  bq_getWaiting :: "int \<Rightarrow> int \<Rightarrow> ('q, js_error, 'd job list) act"

section \<open>The job service\<close>

record RewardJobData =
  rj_sessionId :: string
  rj_playerId :: string
  rj_outcome :: string
  rj_dayId :: int

record AchievementJobData =
  aj_playerId :: string
  aj_metric :: string
  aj_value :: int

record AnalyticsJobData =
  nj_dayId :: int
  nj_aggregateType :: string

record 'q JobService =
  js_rewardQueue :: "('q, RewardJobData) bull"
  js_achievementQueue :: "('q, AchievementJobData) bull"
  js_analyticsQueue :: "('q, AnalyticsJobData) bull"

definition job_retry_options :: job_options where
  "job_retry_options = \<lparr>jo_attempts = Some JOB_RETRY_ATTEMPTS, jo_backoff = Some (JOB_BACKOFF_TYPE, JOB_BACKOFF_DELAY_MS),
     jo_removeOnComplete = False\<rparr>"

definition addRewardCalculation :: "'q JobService \<Rightarrow> RewardJobData \<Rightarrow> ('q, js_error, RewardJobData job) act" where
  "addRewardCalculation S data = bq_add (js_rewardQueue S) ''calculate'' data job_retry_options"

definition addAchievementCheck :: "'q JobService \<Rightarrow> AchievementJobData \<Rightarrow> ('q, js_error, AchievementJobData job) act" where
  "addAchievementCheck S data = bq_add (js_achievementQueue S) ''check'' data job_retry_options"

definition addAnalyticsAggregate :: "'q JobService \<Rightarrow> AnalyticsJobData \<Rightarrow> ('q, js_error, AnalyticsJobData job) act" where
  "addAnalyticsAggregate S data = bq_add (js_analyticsQueue S) ''aggregate'' data job_retry_options"

record queue_counts =
  qc_waiting :: nat
  qc_active :: nat
  qc_completed :: nat
  qc_failed :: nat

definition queue_counts_of :: "('q, 'd) bull \<Rightarrow> ('q, js_error, queue_counts) act" where
  "queue_counts_of B =
    act_bind (bq_getWaitingCount B) (\<lambda>waiting. act_bind (bq_getActiveCount B) (\<lambda>active.
      act_bind (bq_getCompletedCount B) (\<lambda>completed. act_bind (bq_getFailedCount B) (\<lambda>failed.
        act_ret \<lparr>qc_waiting = waiting, qc_active = active, qc_completed = completed, qc_failed = failed\<rparr>))))"

definition getQueueStats :: "'q JobService \<Rightarrow> ('q, js_error, (string \<times> queue_counts) list) act" where
  "getQueueStats S =
    act_bind (queue_counts_of (js_rewardQueue S)) (\<lambda>reward.
      act_bind (queue_counts_of (js_achievementQueue S)) (\<lambda>ach.
        act_bind (queue_counts_of (js_analyticsQueue S)) (\<lambda>ana.
          act_ret [(REWARD_CALCULATION, reward), (ACHIEVEMENT_CHECK, ach), (ANALYTICS_AGGREGATE, ana)])))"

text \<open>A job of one of the three queues, as the endpoints report it.\<close>

datatype job_data = RewardData RewardJobData | AchievementData AchievementJobData | AnalyticsData AnalyticsJobData

record failed_job =
  fj_id :: string
  fj_data :: "job_data option"
  fj_failedReason :: "string option"
  fj_attemptsMade :: int
  fj_timestamp :: int

definition report_job :: "('d \<Rightarrow> job_data) \<Rightarrow> 'd job \<Rightarrow> failed_job" where
  "report_job f j = \<lparr>fj_id = jb_id j, fj_data = map_option f (jb_data j), fj_failedReason = jb_failedReason j,
     fj_attemptsMade = jb_attemptsMade j, fj_timestamp = jb_timestamp j\<rparr>"

definition failed_of :: "('d \<Rightarrow> job_data) \<Rightarrow> ('q, 'd) bull \<Rightarrow> ('q, js_error, failed_job list) act" where
  "failed_of f B = act_bind (bq_getFailed B 0 100) (\<lambda>js. act_ret (map (report_job f) js))"

text \<open>
  \<^verbatim>\<open>getDeadLetterJobs\<close> with the mapping of its only caller; the \<^verbatim>\<open>switch\<close> covers the names the
  caller lets through.
\<close>

definition getDeadLetterJobs :: "'q JobService \<Rightarrow> string \<Rightarrow> ('q, js_error, failed_job list) act" where
  "getDeadLetterJobs S queueName =
    (if queueName = REWARD_CALCULATION then failed_of RewardData (js_rewardQueue S)
     else if queueName = ACHIEVEMENT_CHECK then failed_of AchievementData (js_achievementQueue S)
     else if queueName = ANALYTICS_AGGREGATE then failed_of AnalyticsData (js_analyticsQueue S)
     else act_throw (JsError ''TypeError'' ''Cannot read properties of undefined'' []))"

text \<open>The monitoring endpoint: an unknown name is answered, not thrown.\<close>

definition getDeadLetter :: "'q JobService \<Rightarrow> string \<Rightarrow> ('q, js_error, string + failed_job list) act" where
  "getDeadLetter S queue =
    (if queue \<notin> set JOB_QUEUES
     then act_ret (Inl (''Invalid queue. Valid queues: '' @ intersperse '', '' JOB_QUEUES))
     else act_bind (getDeadLetterJobs S queue) (\<lambda>jobs. act_ret (Inr jobs)))"

section \<open>The dead-letter queue\<close>

record DeadLetterError =
  de_name :: string
  de_message :: string
  de_stack :: "string option"

record DeadLetterRecord =
  dl_originalQueue :: string
  dl_sourceJobId :: string
  dl_payload :: "job_data option"
  dl_attemptsMade :: int
  dl_error :: DeadLetterError
  dl_failedAt :: string

type_synonym 'q dlq = "('q, DeadLetterRecord) bull"

fun stack_string :: "js \<Rightarrow> string option" where
  "stack_string (Str s) = Some s"
| "stack_string _ = None"

fun firstStackFrame :: "js \<Rightarrow> string option" where
  "firstStackFrame (Arr frames) = Option.bind (List.find (\<lambda>x. stack_string x \<noteq> None) frames) stack_string"
| "firstStackFrame _ = None"

text \<open>The record of a failed job; \<^verbatim>\<open>None\<close> for the payload is the empty object.\<close>

definition dead_letter_record :: "string \<Rightarrow> ('d \<Rightarrow> job_data) \<Rightarrow> 'd job \<Rightarrow> DeadLetterRecord" where
  "dead_letter_record nowIso f j = \<lparr>dl_originalQueue = jb_queue j, dl_sourceJobId = jb_id j,
     dl_payload = map_option f (jb_data j), dl_attemptsMade = jb_attemptsMade j,
     dl_error = \<lparr>de_name = ''JobFailed'',
       de_message = (case jb_failedReason j of Some r \<Rightarrow> r | None \<Rightarrow> ''Processing failed without a reason''),
       de_stack = firstStackFrame (jb_stacktrace j)\<rparr>,
     dl_failedAt = nowIso\<rparr>"

definition sendToDeadLetter :: "'q dlq \<Rightarrow> string \<Rightarrow> ('d \<Rightarrow> job_data) \<Rightarrow> 'd job \<Rightarrow> ('q, js_error, unit) act" where
  "sendToDeadLetter Q nowIso f j =
    act_seq (bq_add Q ''inspect'' (dead_letter_record nowIso f j) \<lparr>jo_attempts = None, jo_backoff = None, jo_removeOnComplete = True\<rparr>)
      (act_ret ())"

definition maybeSendToDeadLetter :: "'q dlq \<Rightarrow> string \<Rightarrow> ('d \<Rightarrow> job_data) \<Rightarrow> 'd job \<Rightarrow> int \<Rightarrow> ('q, js_error, unit) act" where
  "maybeSendToDeadLetter Q nowIso f j maxRetries =
    (if jb_attemptsMade j < maxRetries then act_ret () else sendToDeadLetter Q nowIso f j)"

record DeadLetterInspection =
  di_id :: string
  di_name :: string
  di_attemptsMade :: int
  di_timestamp :: int
  di_data :: "DeadLetterRecord option"

definition listDeadLetterJobs :: "'q dlq \<Rightarrow> int \<Rightarrow> ('q, js_error, DeadLetterInspection list) act" where
  "listDeadLetterJobs Q limit = act_bind (bq_getWaiting Q 0 limit) (\<lambda>jobs.
     act_ret (map (\<lambda>j. \<lparr>di_id = jb_id j, di_name = jb_name j, di_attemptsMade = jb_attemptsMade j,
       di_timestamp = jb_timestamp j, di_data = jb_data j\<rparr>) jobs))"

definition getDeadLetterCount :: "'q dlq \<Rightarrow> ('q, js_error, nat) act" where
  "getDeadLetterCount Q = bq_getWaitingCount Q"

section \<open>The processors\<close>

record reward_result =
  rr_sessionId :: string
  rr_playerId :: string
  rr_points :: int
  rr_reason :: string
  rr_dayId :: int

definition handleCalculate :: "RewardJobData \<Rightarrow> reward_result" where
  "handleCalculate d = \<lparr>rr_sessionId = rj_sessionId d, rr_playerId = rj_playerId d,
     rr_points = (if rj_outcome d = ''won'' then 100 else 10),
     rr_reason = (if rj_outcome d = ''won'' then ''win'' else ''participation''), rr_dayId = rj_dayId d\<rparr>"

definition handleCheck :: "AchievementJobData \<Rightarrow> AchievementJobData \<times> bool" where
  "handleCheck d = (d, True)"

definition handleAggregate :: "AnalyticsJobData \<Rightarrow> AnalyticsJobData \<times> bool" where
  "handleAggregate d = (d, True)"

text \<open>The failure listeners of the three processors.\<close>

definition reward_onFailed :: "'q dlq \<Rightarrow> string \<Rightarrow> RewardJobData job \<Rightarrow> ('q, js_error, unit) act" where
  "reward_onFailed Q nowIso j = maybeSendToDeadLetter Q nowIso RewardData j DLQ_MAX_RETRIES"

definition achievement_onFailed :: "'q dlq \<Rightarrow> string \<Rightarrow> AchievementJobData job \<Rightarrow> ('q, js_error, unit) act" where
  "achievement_onFailed Q nowIso j = maybeSendToDeadLetter Q nowIso AchievementData j DLQ_MAX_RETRIES"

definition analytics_onFailed :: "'q dlq \<Rightarrow> string \<Rightarrow> AnalyticsJobData job \<Rightarrow> ('q, js_error, unit) act" where
  "analytics_onFailed Q nowIso j = maybeSendToDeadLetter Q nowIso AnalyticsData j DLQ_MAX_RETRIES"

section \<open>What the services rely on\<close>

text \<open>
  The documented behaviour of a queue, through its waiting jobs: \<^verbatim>\<open>add\<close> appends one that carries
  the payload or throws without effect, and the ranges of the getters include both ends.
\<close>

definition bull_ok :: "('q, 'd) bull \<Rightarrow> ('q \<Rightarrow> 'd job list) \<Rightarrow> bool" where
  "bull_ok B waiting \<longleftrightarrow>
    (\<forall>name d opts q r q'. bq_add B name d opts q = (r, q') \<longrightarrow> (case r of
        Inl _ \<Rightarrow> waiting q' = waiting q
      | Inr j \<Rightarrow> waiting q' = waiting q @ [j] \<and> jb_data j = Some d \<and> jb_name j = name)) \<and>
    (\<forall>a b q js q'. bq_getWaiting B a b q = (Inr js, q') \<longrightarrow> 0 \<le> a \<and> a \<le> b \<longrightarrow>
        waiting q' = waiting q \<and> js = take (nat (b - a) + 1) (drop (nat a) (waiting q))) \<and>
    (\<forall>q n q'. bq_getWaitingCount B q = (Inr n, q') \<longrightarrow> waiting q' = waiting q \<and> n = length (waiting q))"

lemma bull_add: "bull_ok B waiting \<Longrightarrow> bq_add B name d opts q = (Inr j, q') \<Longrightarrow>
    waiting q' = waiting q @ [j] \<and> jb_data j = Some d"
  unfolding bull_ok_def by fastforce

lemma bull_waiting: "bull_ok B waiting \<Longrightarrow> bq_getWaiting B 0 b q = (Inr js, q') \<Longrightarrow> 0 \<le> b \<Longrightarrow>
    js = take (nat b + 1) (waiting q)"
  unfolding bull_ok_def by (elim conjE) fastforce

lemma bull_count: "bull_ok B waiting \<Longrightarrow> bq_getWaitingCount B q = (Inr n, q') \<Longrightarrow> n = length (waiting q)"
  unfolding bull_ok_def by blast

text \<open>The failures a listener is told of: the library counts the attempts from one.\<close>

definition failure_events :: "'d job \<Rightarrow> nat \<Rightarrow> 'd job list" where
  "failure_events j k = map (\<lambda>i. j\<lparr>jb_attemptsMade := int i\<rparr>) [1..<Suc k]"

definition payloads :: "'d job list \<Rightarrow> 'd list" where
  "payloads js = List.map_filter jb_data js"

lemma payloads_simps [simp]: "payloads [] = []" "payloads (js @ js') = payloads js @ payloads js'"
  "jb_data j = Some d \<Longrightarrow> payloads [j] = [d]"
  by (simp_all add: payloads_def List.map_filter_def)

lemma below_budget: "int k < maxRetries \<Longrightarrow> act_for (failure_events j k) (\<lambda>e. maybeSendToDeadLetter Q nowIso f e maxRetries) q = (Inr (), q)"
proof -
  have "act_for js (\<lambda>e. maybeSendToDeadLetter Q nowIso f e maxRetries) q = (Inr (), q)"
    if "\<forall>e \<in> set js. jb_attemptsMade e < maxRetries" for js
    using that by (induction js) (simp_all add: act_ret_def maybeSendToDeadLetter_def)
  then show "int k < maxRetries \<Longrightarrow> ?thesis" by (auto simp: failure_events_def simp del: upt_Suc)
qed

lemma act_for_append: "act_for (xs @ ys) f q = act_seq (act_for xs f) (act_for ys f) q"
proof (induction xs arbitrary: q)
  case (Cons x xs)
  then show ?case by (cases "f x q"; cases "fst (f x q)") (auto simp: act_defs split: prod.splits sum.splits)
qed (simp add: act_defs)

lemma send_adds:
  assumes "bull_ok Q waiting" "sendToDeadLetter Q nowIso f j q = (Inr u, q')"
  shows "payloads (waiting q') = payloads (waiting q) @ [dead_letter_record nowIso f j]"
  using assms(2) by (auto simp: sendToDeadLetter_def act_seq_def act_bind_returns act_ret_def dest!: bull_add [OF assms(1)])

section \<open>Properties\<close>

text \<open>
  C30: a job that fails \<^verbatim>\<open>k\<close> times in a row, no more often than the attempts it was queued with,
  leaves a record in the dead-letter queue exactly when it used them all, and then exactly one:
  the listener of the last failure writes it, with the payload and the number of attempts.
\<close>

theorem dead_letter_exactly_once:
  assumes Q: "bull_ok Q waiting" and k: "int k \<le> the (jo_attempts job_retry_options)"
    and run: "act_for (failure_events j k) (reward_onFailed Q nowIso) q = (Inr (), q')"
  shows "payloads (waiting q') = payloads (waiting q) @
    (if int k = the (jo_attempts job_retry_options) then [dead_letter_record nowIso RewardData (j\<lparr>jb_attemptsMade := int k\<rparr>)] else [])"
proof -
  have listener: "reward_onFailed Q nowIso = (\<lambda>e. maybeSendToDeadLetter Q nowIso RewardData e DLQ_MAX_RETRIES)"
    by (simp add: fun_eq_iff reward_onFailed_def)
  note below = below_budget [of _ DLQ_MAX_RETRIES j Q nowIso RewardData q, folded listener]
  show ?thesis
  proof (cases "int k = DLQ_MAX_RETRIES")
    case False
    then have "int k < DLQ_MAX_RETRIES" using k by (simp add: job_retry_options_def JOB_RETRY_ATTEMPTS_def)
    then have "q' = q" using run below by simp
    then show ?thesis using False by (simp add: job_retry_options_def JOB_RETRY_ATTEMPTS_def)
  next
    case True
    let ?l = "j\<lparr>jb_attemptsMade := int k\<rparr>"
    have "k = Suc (k - 1)" using True by (simp add: DLQ_MAX_RETRIES_def)
    then have ev: "failure_events j k = failure_events j (k - 1) @ [?l]"
      by (simp add: failure_events_def upt_Suc_append del: upt_Suc)
    have "int (k - 1) < DLQ_MAX_RETRIES" using True by (simp add: DLQ_MAX_RETRIES_def)
    then have "act_for (failure_events j (k - 1)) (reward_onFailed Q nowIso) q = (Inr (), q)"
      by (rule below)
    then have "act_for [?l] (reward_onFailed Q nowIso) q = (Inr (), q')" using run by (simp add: ev act_for_append)
    then have "\<exists>u. sendToDeadLetter Q nowIso RewardData ?l q = (Inr u, q')"
      using True by (auto simp: reward_onFailed_def maybeSendToDeadLetter_def act_defs split: prod.splits sum.splits)
    then show ?thesis using send_adds [OF Q] True by (auto simp: job_retry_options_def JOB_RETRY_ATTEMPTS_def)
  qed
qed

text \<open>A queue in memory.\<close>

definition mem_bull :: "('d job list, 'd) bull" where
  "mem_bull = \<lparr>bq_add = (\<lambda>name d opts q. let j = \<lparr>jb_id = show_nat (length q + 1), jb_name = name, jb_queue = DEAD_LETTER_QUEUE,
       jb_data = Some d, jb_attemptsMade = 0, jb_failedReason = None, jb_stacktrace = Arr [], jb_timestamp = 0\<rparr> in (Inr j, q @ [j])),
     bq_getWaitingCount = (\<lambda>q. (Inr (length q), q)), bq_getActiveCount = act_ret 0, bq_getCompletedCount = act_ret 0,
     bq_getFailedCount = act_ret 0, bq_getFailed = (\<lambda>a b. act_ret []),
     bq_getWaiting = (\<lambda>a b q. (Inr (take (nat (b - a) + 1) (drop (nat a) q)), q))\<rparr>"

lemma mem_bull_ok: "bull_ok mem_bull (\<lambda>q. q)"
  by (auto simp: bull_ok_def mem_bull_def Let_def)

definition lost_reward :: "RewardJobData job" where
  "lost_reward = \<lparr>jb_id = ''9'', jb_name = ''calculate'', jb_queue = REWARD_CALCULATION,
     jb_data = Some \<lparr>rj_sessionId = ''s'', rj_playerId = ''p'', rj_outcome = ''won'', rj_dayId = 3\<rparr>,
     jb_attemptsMade = 0, jb_failedReason = Some ''boom'', jb_stacktrace = Arr [Null, Str ''at f''], jb_timestamp = 0\<rparr>"

theorem dead_letter_exactly_once_witness:
  "payloads (snd (act_for (failure_events lost_reward 5) (reward_onFailed mem_bull ''t'') [])) =
     [dead_letter_record ''t'' RewardData (lost_reward\<lparr>jb_attemptsMade := 5\<rparr>)]"
proof -
  let ?r = "act_for (failure_events lost_reward 5) (reward_onFailed mem_bull ''t'') []"
  have k: "int 5 \<le> the (jo_attempts job_retry_options)" "int 5 = the (jo_attempts job_retry_options)" by code_simp+
  have "fst ?r = Inr ()" by code_simp
  then have "?r = (Inr (), snd ?r)" by (metis prod.collapse)
  from dead_letter_exactly_once [OF mem_bull_ok k(1) this] show ?thesis using k(2) by simp
qed

text \<open>
  The limit of the inspection list is the last index it asks for: a list of at most \<^verbatim>\<open>limit\<close>
  records has one more.
\<close>

lemma inspection_one_more:
  assumes "bull_ok Q waiting" "0 \<le> limit" "listDeadLetterJobs Q limit q = (Inr rs, q')"
  shows "length rs = min (nat limit + 1) (length (waiting q))"
  using assms(2,3) by (auto simp: listDeadLetterJobs_def act_bind_returns act_ret_def dest!: bull_waiting [OF assms(1)])

lemma inspection_lists_all:
  assumes Q: "bull_ok Q waiting" and l: "listDeadLetterJobs Q limit q = (Inr rs, q')" and c: "getDeadLetterCount Q q = (Inr n, q'')"
    and "0 \<le> limit" "int n \<le> limit"
  shows "map di_data rs = map jb_data (waiting q)"
proof -
  have "n = length (waiting q)" using bull_count [OF Q] c by (simp add: getDeadLetterCount_def)
  then have "take (nat limit + 1) (waiting q) = waiting q" using assms(5) by simp
  then show ?thesis using l assms(4)
    by (auto simp: listDeadLetterJobs_def act_bind_returns act_ret_def dest!: bull_waiting [OF Q])
qed

text \<open>An unknown queue name changes nothing and is answered with the valid ones.\<close>

lemma dead_letter_unknown:
  "queue \<notin> set JOB_QUEUES \<Longrightarrow> \<exists>m. getDeadLetter S queue q = (Inr (Inl m), q)"
  by (simp add: getDeadLetter_def act_ret_def)

end
