(* ===== verification/Dictionary_Service.thy ===== *)
theory Dictionary_Service
  imports Js_Values
begin

text \<open>
  The word dictionary of \<^verbatim>\<open>word/dictionary.service.ts\<close>: the local index built from the bundled
  file, the member sets it loads into the key-value server, and the lookup that asks the server
  and falls back to the index.  The server's commands are a parameter; the contents of the file
  are an argument, as its parsed entries.
\<close>

section \<open>The service\<close>

definition DICTIONARY_MIN_LOOKUP_LENGTH :: nat where "DICTIONARY_MIN_LOOKUP_LENGTH = 4"
definition DICTIONARY_MAX_LOOKUP_LENGTH :: nat where "DICTIONARY_MAX_LOOKUP_LENGTH = 8"

definition dictionarySetKey :: "int \<Rightarrow> string" where
  "dictionarySetKey n = ''words:'' @ show_int n @ ''-letter''"

text \<open>The commands of the server, on its state.\<close>

record 'r set_server =
  ss_connect :: "('r, js_error, unit) act"
  ss_ping :: "('r, js_error, string) act"
  ss_del :: "string \<Rightarrow> ('r, js_error, unit) act"
  ss_sadd :: "string \<Rightarrow> string list \<Rightarrow> ('r, js_error, unit) act"
  ss_sismember :: "string \<Rightarrow> string \<Rightarrow> ('r, js_error, int) act"
  ss_quit :: "('r, js_error, unit) act"

text \<open>The index maps a length to the set of its words, in insertion order.\<close>

record DictionaryService =
  dy_localIndex :: "(int, string list) jmap"
  dy_totalWords :: nat
  dy_redisReady :: bool

definition new_dictionary :: DictionaryService where
  "new_dictionary = \<lparr>dy_localIndex = [], dy_totalWords = 0, dy_redisReady = False\<rparr>"

definition dict_normalize :: "string \<Rightarrow> string" where
  "dict_normalize word = toLowerCase (trim word)"

definition only_letters :: "string \<Rightarrow> bool" where
  "only_letters w \<longleftrightarrow> w \<noteq> [] \<and> list_all (char_in CHR ''a'' CHR ''z'') w"

text \<open>\<^verbatim>\<open>Number.parseInt\<close> of a key and the test that it is an integer.\<close>

definition length_key :: "string \<Rightarrow> int option" where
  "length_key k = (let n = js_parseInt k in if num_isInteger n then Some (num_floor n) else None)"

definition clean_words :: "int \<Rightarrow> string list \<Rightarrow> string list" where
  "clean_words len ws = filter (\<lambda>w. int (length w) = len) (filter only_letters (map dict_normalize ws))"

definition load_entry :: "string \<times> string list \<Rightarrow> DictionaryService \<Rightarrow> DictionaryService" where
  "load_entry entry s = (case length_key (fst entry) of
      None \<Rightarrow> s
    | Some len \<Rightarrow> (let normalized = clean_words len (snd entry) in
        s\<lparr>dy_localIndex := jm_set len (set_of normalized) (dy_localIndex s),
          dy_totalWords := dy_totalWords s + length normalized\<rparr>))"

text \<open>A missing file leaves the index empty; an unreadable one throws.\<close>

definition loadLocalIndex ::
  "(js_error + (string \<times> string list) list) option \<Rightarrow> (DictionaryService, js_error, unit) act" where
  "loadLocalIndex file = (case file of
      None \<Rightarrow> act_ret ()
    | Some (Inl e) \<Rightarrow> act_throw e
    | Some (Inr raw) \<Rightarrow> act_modify (fold load_entry raw))"

definition sync_length :: "'r set_server \<Rightarrow> int \<times> string list \<Rightarrow> ('r, js_error, unit) act" where
  "sync_length R p =
    act_seq (ss_del R (dictionarySetKey (fst p)))
      (if snd p \<noteq> [] then ss_sadd R (dictionarySetKey (fst p)) (snd p) else act_ret ())"

definition warm_server :: "'r set_server \<Rightarrow> (int, string list) jmap \<Rightarrow> ('r, js_error, unit) act" where
  "warm_server R index =
    act_seq (ss_connect R) (act_bind (ss_ping R) (\<lambda>pong.
      if pong \<noteq> ''PONG'' then act_throw (JsError ''Error'' (''unexpected redis ping response: '' @ pong) [])
      else act_for index (sync_length R)))"

type_synonym 'r dict_state = "DictionaryService \<times> 'r"

definition on_server :: "('r, js_error, 'a) act \<Rightarrow> ('r dict_state, js_error, 'a) act" where
  "on_server = zoom snd (\<lambda>r (s, _). (s, r))"

definition set_ready :: "bool \<Rightarrow> ('r dict_state, js_error, unit) act" where
  "set_ready b = act_modify (\<lambda>(s, r). (s\<lparr>dy_redisReady := b\<rparr>, r))"

definition warmRedisCache :: "'r set_server option \<Rightarrow> ('r dict_state, js_error, unit) act" where
  "warmRedisCache redis = (case redis of
      None \<Rightarrow> act_ret ()
    | Some R \<Rightarrow> act_catch
        (act_bind (act_get (\<lambda>(s, _). dy_localIndex s)) (\<lambda>index.
          act_seq (on_server (warm_server R index)) (set_ready True)))
        (\<lambda>_. set_ready False))"

definition dict_onModuleInit ::
  "(js_error + (string \<times> string list) list) option \<Rightarrow> 'r set_server option \<Rightarrow> ('r dict_state, js_error, unit) act" where
  "dict_onModuleInit file redis =
    act_seq (zoom fst (\<lambda>s (_, r). (s, r)) (loadLocalIndex file)) (warmRedisCache redis)"

definition dict_onModuleDestroy :: "'r set_server option \<Rightarrow> ('r dict_state, js_error, unit) act" where
  "dict_onModuleDestroy redis = (case redis of
      None \<Rightarrow> act_ret ()
    | Some R \<Rightarrow> act_catch (on_server (ss_quit R)) (\<lambda>_. act_ret ()))"

definition in_local :: "DictionaryService \<Rightarrow> nat \<Rightarrow> string \<Rightarrow> bool" where
  "in_local s n w = (case jm_get (int n) (dy_localIndex s) of None \<Rightarrow> False | Some ws \<Rightarrow> w \<in> set ws)"

definition lookup_local :: "string \<Rightarrow> ('r dict_state, js_error, bool) act" where
  "lookup_local w = act_get (\<lambda>(s, _). in_local s (length w) w)"

definition dict_isValidWord :: "'r set_server option \<Rightarrow> string \<Rightarrow> ('r dict_state, js_error, bool) act" where
  "dict_isValidWord redis word =
    (let normalized = dict_normalize word; n = length normalized in
     if n < DICTIONARY_MIN_LOOKUP_LENGTH \<or> DICTIONARY_MAX_LOOKUP_LENGTH < n then act_ret False
     else act_bind (act_get (\<lambda>(s, _). dy_redisReady s)) (\<lambda>ready. case redis of
        Some R \<Rightarrow>
          if ready then act_catch (act_bind (on_server (ss_sismember R (dictionarySetKey (int n)) normalized)) (\<lambda>inSet. act_ret (inSet = 1)))
            (\<lambda>_. act_seq (set_ready False) (lookup_local normalized))
          else lookup_local normalized
      | None \<Rightarrow> lookup_local normalized))"

definition wordCountForLength :: "DictionaryService \<Rightarrow> int \<Rightarrow> nat" where
  "wordCountForLength s n = (case jm_get n (dy_localIndex s) of None \<Rightarrow> 0 | Some ws \<Rightarrow> length ws)"

definition isRedisCacheActive :: "DictionaryService \<Rightarrow> bool" where
  "isRedisCacheActive s = dy_redisReady s"

section \<open>The server relied on\<close>

text \<open>
  The documented behaviour of the commands, through the members \<^verbatim>\<open>mem r k\<close> of a key: the reads
  change nothing, \<^verbatim>\<open>del\<close> and \<^verbatim>\<open>sadd\<close> change their key only.  Any command may throw.
\<close>

definition sets_ok :: "'r set_server \<Rightarrow> ('r \<Rightarrow> string \<Rightarrow> string set) \<Rightarrow> bool" where
  "sets_ok R mem \<longleftrightarrow>
    keeps (\<lambda>r r'. mem r' = mem r) (ss_connect R) \<and> keeps (\<lambda>r r'. mem r' = mem r) (ss_ping R) \<and>
    keeps (\<lambda>r r'. mem r' = mem r) (ss_quit R) \<and>
    (\<forall>k r r'. ss_del R k r = (Inr (), r') \<longrightarrow> mem r' = (mem r)(k := {})) \<and>
    (\<forall>k ws r r'. ss_sadd R k ws r = (Inr (), r') \<longrightarrow> mem r' = (mem r)(k := mem r k \<union> set ws)) \<and>
    (\<forall>k w r x r'. ss_sismember R k w r = (x, r') \<longrightarrow> mem r' = mem r \<and> (\<forall>n. x = Inr n \<longrightarrow> (n = 1) = (w \<in> mem r k)))"

lemma dictionarySetKey_inj: "dictionarySetKey m = dictionarySetKey n \<longleftrightarrow> m = n"
  by (simp add: dictionarySetKey_def show_int_inj)

lemma sync_length_mem:
  assumes "sets_ok R mem" "sync_length R (n, ws) r = (Inr (), r')"
  shows "mem r' = (mem r)(dictionarySetKey n := set ws)"
proof -
  obtain r1 where d: "ss_del R (dictionarySetKey n) r = (Inr (), r1)"
    and a: "(if ws \<noteq> [] then ss_sadd R (dictionarySetKey n) ws else act_ret ()) r1 = (Inr (), r')"
    using assms(2) unfolding sync_length_def act_seq_def act_bind_returns fst_conv snd_conv by auto
  have 1: "mem r1 = (mem r)(dictionarySetKey n := {})" using assms(1) d unfolding sets_ok_def by blast
  show ?thesis
  proof (cases "ws = []")
    case False
    then have "mem r' = (mem r1)(dictionarySetKey n := mem r1 (dictionarySetKey n) \<union> set ws)"
      using assms(1) a unfolding sets_ok_def by simp
    then show ?thesis using 1 by simp
  qed (use 1 a in \<open>simp add: act_ret_def\<close>)
qed

text \<open>After the loop every length of the index has its words, and no other key changed.\<close>

lemma sync_all_mem:
  assumes R: "sets_ok R mem"
  shows "jm_wf index \<Longrightarrow> act_for index (sync_length R) r = (Inr (), r') \<Longrightarrow>
    mem r' (dictionarySetKey n) = (case jm_get n index of Some ws \<Rightarrow> set ws | None \<Rightarrow> mem r (dictionarySetKey n))"
proof (induction index arbitrary: r)
  case (Cons p index)
  obtain m ws where p: "p = (m, ws)" by fastforce
  obtain r1 where s: "sync_length R p r = (Inr (), r1)" "act_for index (sync_length R) r1 = (Inr (), r')"
    using Cons.prems(2) by (auto simp: act_seq_def act_bind_returns)
  have wf: "jm_wf index" "jm_get m index = None"
    using Cons.prems(1) by (simp_all add: p jm_wf_def jm_get_None)
  note IH = Cons.IH [OF wf(1) s(2)]
  show ?case using IH sync_length_mem [OF R s(1) [unfolded p]] wf(2)
    by (auto simp: p jm_get_def dictionarySetKey_inj split: option.splits)
qed (simp add: act_ret_def)

definition covers :: "DictionaryService \<Rightarrow> ('r \<Rightarrow> string \<Rightarrow> string set) \<Rightarrow> 'r \<Rightarrow> bool" where
  "covers s mem r \<longleftrightarrow> (\<forall>n \<in> {DICTIONARY_MIN_LOOKUP_LENGTH..DICTIONARY_MAX_LOOKUP_LENGTH}.
     jm_get (int n) (dy_localIndex s) \<noteq> None \<or> mem r (dictionarySetKey (int n)) = {})"

text \<open>The invariant: a server that is asked holds what the index holds.\<close>

definition agrees :: "('r \<Rightarrow> string \<Rightarrow> string set) \<Rightarrow> 'r dict_state \<Rightarrow> bool" where
  "agrees mem st \<longleftrightarrow> (dy_redisReady (fst st) \<longrightarrow> (\<forall>n \<in> {DICTIONARY_MIN_LOOKUP_LENGTH..DICTIONARY_MAX_LOOKUP_LENGTH}.
     \<forall>w. w \<in> mem (snd st) (dictionarySetKey (int n)) \<longleftrightarrow> in_local (fst st) n w))"

lemma fold_load_wf: "jm_wf (dy_localIndex s) \<Longrightarrow> jm_wf (dy_localIndex (fold load_entry raw s))"
  by (induction raw arbitrary: s) (auto simp: load_entry_def Let_def split: option.splits)

text \<open>The dictionary a file stands for.\<close>

definition file_index :: "(string \<times> string list) list \<Rightarrow> DictionaryService" where
  "file_index raw = fold load_entry raw new_dictionary"

definition valid_word :: "(string \<times> string list) list \<Rightarrow> string \<Rightarrow> bool" where
  "valid_word raw word \<longleftrightarrow> (let w = dict_normalize word in
     DICTIONARY_MIN_LOOKUP_LENGTH \<le> length w \<and> length w \<le> DICTIONARY_MAX_LOOKUP_LENGTH \<and> in_local (file_index raw) (length w) w)"

lemma warm_returns: "\<exists>s' r'. warmRedisCache redis (s, r) = (Inr (), (s', r')) \<and> dy_localIndex s' = dy_localIndex s"
proof (cases redis)
  case (Some R)
  then show ?thesis
    by (cases "warm_server R (dy_localIndex s) r"; cases "fst (warm_server R (dy_localIndex s) r)")
      (auto simp: warmRedisCache_def on_server_def set_ready_def act_defs)
qed (simp add: warmRedisCache_def act_ret_def)

lemma warm_server_mem:
  assumes R: "sets_ok R mem" and wf: "jm_wf index" and run: "warm_server R index r = (Inr (), r')"
  shows "mem r' (dictionarySetKey n) = (case jm_get n index of Some ws \<Rightarrow> set ws | None \<Rightarrow> mem r (dictionarySetKey n))"
proof -
  obtain r1 p r2 where c: "ss_connect R r = (Inr (), r1)" and p: "ss_ping R r1 = (Inr p, r2)"
    and f: "(if p \<noteq> ''PONG'' then act_throw (JsError ''Error'' (''unexpected redis ping response: '' @ p) [])
      else act_for index (sync_length R)) r2 = (Inr (), r')"
    using run unfolding warm_server_def act_seq_def act_bind_returns by auto
  have "mem r1 = mem r" "mem r2 = mem r1" using R c p by (auto simp: sets_ok_def keeps_def) (metis snd_conv)+
  moreover have "act_for index (sync_length R) r2 = (Inr (), r')" using f by (auto simp: act_throw_def split: if_splits)
  ultimately show ?thesis using sync_all_mem [OF R wf, of r2 r' n] by (simp split: option.splits)
qed

lemma warm_agrees:
  assumes R: "sets_ok R mem" and wf: "jm_wf (dy_localIndex s)" and c: "covers s mem r" and ready: "\<not> dy_redisReady s"
  shows "agrees mem (snd (warmRedisCache (Some R) (s, r)))"
proof (cases "warm_server R (dy_localIndex s) r")
  case (Pair x r')
  show ?thesis
  proof (cases x)
    case (Inl e)
    then show ?thesis using Pair by (simp add: warmRedisCache_def on_server_def set_ready_def agrees_def act_defs)
  next
    case (Inr u)
    then have end_state: "warmRedisCache (Some R) (s, r) = (Inr (), (s\<lparr>dy_redisReady := True\<rparr>, r'))"
      using Pair by (simp add: warmRedisCache_def on_server_def set_ready_def act_defs)
    have M: "mem r' (dictionarySetKey n) = (case jm_get n (dy_localIndex s) of Some ws \<Rightarrow> set ws | None \<Rightarrow> mem r (dictionarySetKey n))" for n
      using warm_server_mem [OF R wf] Pair Inr by simp
    have "w \<in> mem r' (dictionarySetKey (int n)) \<longleftrightarrow> in_local s n w"
      if "n \<in> {DICTIONARY_MIN_LOOKUP_LENGTH..DICTIONARY_MAX_LOOKUP_LENGTH}" for n w
      using c [unfolded covers_def, rule_format, OF that] by (auto simp: M in_local_def split: option.splits)
    then show ?thesis by (simp add: end_state agrees_def in_local_def)
  qed
qed

text \<open>A lookup answers what the index says, keeps the index, and keeps the invariant.\<close>

lemma lookup_agrees:
  assumes R: "case redis of None \<Rightarrow> True | Some R \<Rightarrow> sets_ok R mem" and a: "agrees mem (s, r)"
  shows "\<exists>s' r'. dict_isValidWord redis word (s, r) =
      (Inr (let w = dict_normalize word in DICTIONARY_MIN_LOOKUP_LENGTH \<le> length w \<and> length w \<le> DICTIONARY_MAX_LOOKUP_LENGTH \<and>
         in_local s (length w) w), (s', r')) \<and>
    dy_localIndex s' = dy_localIndex s \<and> agrees mem (s', r')"
proof (cases "length (dict_normalize word) < DICTIONARY_MIN_LOOKUP_LENGTH \<or> DICTIONARY_MAX_LOOKUP_LENGTH < length (dict_normalize word)")
  case True
  then show ?thesis using a by (auto simp: dict_isValidWord_def Let_def act_ret_def)
next
  case False
  let ?w = "dict_normalize word" and ?k = "dictionarySetKey (int (length (dict_normalize word)))"
  show ?thesis
  proof (cases "redis = None \<or> \<not> dy_redisReady s")
    case True
    then have "dict_isValidWord redis word (s, r) = lookup_local ?w (s, r)"
      using False by (cases redis) (auto simp: dict_isValidWord_def Let_def act_get_def act_bind_def)
    then show ?thesis using False a by (simp add: lookup_local_def act_get_def Let_def not_less)
  next
    case on: False
    then obtain R where red: "redis = Some R" and ok: "sets_ok R mem" using R by auto
    obtain x r' where m: "ss_sismember R ?k ?w r = (x, r')" by fastforce
    have M: "mem r' = mem r" "\<And>n. x = Inr n \<Longrightarrow> (n = 1) = (?w \<in> mem r ?k)" using ok m unfolding sets_ok_def by blast+
    have L: "?w \<in> mem r ?k \<longleftrightarrow> in_local s (length ?w) ?w" using a on False by (auto simp: agrees_def)
    show ?thesis
    proof (cases x)
      case (Inr n)
      have "dict_isValidWord redis word (s, r) = (Inr (n = 1), (s, r'))"
        using False on red m Inr by (simp add: dict_isValidWord_def Let_def on_server_def act_defs)
      moreover have "agrees mem (s, r')" using a M(1) by (simp add: agrees_def)
      ultimately show ?thesis using M(2) [OF Inr] L False by (simp add: Let_def not_less)
    next
      case (Inl e)
      have "dict_isValidWord redis word (s, r) = (Inr (in_local s (length ?w) ?w), (s\<lparr>dy_redisReady := False\<rparr>, r'))"
        using False on red m Inl
        by (simp add: dict_isValidWord_def Let_def on_server_def lookup_local_def set_ready_def in_local_def act_defs)
      then show ?thesis using False by (simp add: agrees_def Let_def not_less)
    qed
  qed
qed

section \<open>Properties\<close>

text \<open>The answers of a sequence of lookups.\<close>

fun lookups :: "'r set_server option \<Rightarrow> string list \<Rightarrow> ('r dict_state, js_error, bool list) act" where
  "lookups redis [] = act_ret []"
| "lookups redis (w # ws) = act_bind (dict_isValidWord redis w) (\<lambda>b. act_bind (lookups redis ws) (\<lambda>bs. act_ret (b # bs)))"

lemma lookups_agree:
  assumes "case redis of None \<Rightarrow> True | Some R \<Rightarrow> sets_ok R mem"
  shows "agrees mem (s, r) \<Longrightarrow> dy_localIndex s = dy_localIndex (file_index raw) \<Longrightarrow>
    \<exists>st. lookups redis ws (s, r) = (Inr (map (valid_word raw) ws), st)"
proof (induction ws arbitrary: s r)
  case (Cons w ws)
  have loc: "in_local s = in_local (file_index raw)" using Cons.prems(2) by (intro ext) (simp add: in_local_def)
  obtain s1 r1 where l: "dict_isValidWord redis w (s, r) = (Inr (valid_word raw w), (s1, r1))"
    "dy_localIndex s1 = dy_localIndex s" "agrees mem (s1, r1)"
    using lookup_agrees [OF assms Cons.prems(1), of w] by (auto simp: valid_word_def loc)
  then show ?case using Cons.IH [OF l(3)] Cons.prems(2) by (auto simp: act_ret_def)
qed (simp add: act_ret_def)

text \<open>
  C28: the server is only a cache: whatever commands fail, while it is warmed or while it is
  asked, every lookup after the start answers what the file says, provided that the file has an
  entry for each length that can be asked or the server holds no set for it from before.
\<close>

theorem dictionary_answers_file:
  assumes R: "case redis of None \<Rightarrow> True | Some R \<Rightarrow> sets_ok R mem" and c: "covers (file_index raw) mem r"
  shows "\<exists>st'. act_seq (dict_onModuleInit (Some (Inr raw)) redis) (lookups redis ws) (new_dictionary, r) =
    (Inr (map (valid_word raw) ws), st')"
proof -
  have ready: "\<not> dy_redisReady (fold load_entry raw s)" if "\<not> dy_redisReady s" for s
    using that by (induction raw arbitrary: s) (simp_all add: load_entry_def Let_def split: option.splits)
  have wf: "jm_wf (dy_localIndex (file_index raw))" and off: "\<not> dy_redisReady (file_index raw)"
    using fold_load_wf [of new_dictionary raw] ready [of new_dictionary] by (simp_all add: file_index_def new_dictionary_def)
  have init: "dict_onModuleInit (Some (Inr raw)) redis (new_dictionary, r) = warmRedisCache redis (file_index raw, r)"
    by (simp add: dict_onModuleInit_def loadLocalIndex_def file_index_def act_seq_def act_bind_def zoom_def act_modify_def)
  obtain s1 r1 where w: "warmRedisCache redis (file_index raw, r) = (Inr (), (s1, r1))"
    "dy_localIndex s1 = dy_localIndex (file_index raw)" using warm_returns [of redis "file_index raw" r] by blast
  have "agrees mem (s1, r1)"
  proof (cases redis)
    case None
    then show ?thesis using w off by (simp add: warmRedisCache_def act_ret_def agrees_def)
  next
    case (Some R0)
    then show ?thesis using warm_agrees [of R0 mem, OF _ wf c off] R w by simp
  qed
  then show ?thesis using lookups_agree [OF R _ w(2)] init w(1) by simp
qed

text \<open>A server in memory that refuses one member test.\<close>

definition flaky_sets :: "(string \<Rightarrow> string set) set_server" where
  "flaky_sets = \<lparr>ss_connect = act_ret (), ss_ping = act_ret ''PONG'', ss_del = (\<lambda>k m. (Inr (), m(k := {}))),
     ss_sadd = (\<lambda>k ws m. (Inr (), m(k := m k \<union> set ws))),
     ss_sismember = (\<lambda>k w m. (if w = ''crane'' then Inl (JsError ''Error'' ''timeout'' []) else Inr (if w \<in> m k then 1 else 0), m)),
     ss_quit = act_ret ()\<rparr>"

lemma flaky_sets_ok: "sets_ok flaky_sets (\<lambda>m. m)"
  by (auto simp: sets_ok_def flaky_sets_def keeps_def act_ret_def)

theorem dictionary_answers_file_witness:
  "\<exists>st'. act_seq (dict_onModuleInit (Some (Inr [(''5'', [''Brave'', ''crane'', ''x''])])) (Some flaky_sets))
     (lookups (Some flaky_sets) ['' BRAVE'', ''crane'', ''stone'', ''x'']) (new_dictionary, \<lambda>_. {}) = (Inr [True, True, False, False], st')"
proof -
  have "map (valid_word [(''5'', [''Brave'', ''crane'', ''x''])]) ['' BRAVE'', ''crane'', ''stone'', ''x''] = [True, True, False, False]"
    by code_simp
  moreover have "covers (file_index [(''5'', [''Brave'', ''crane'', ''x''])]) (\<lambda>m. m) (\<lambda>_. {})" by (simp add: covers_def)
  ultimately show ?thesis
    using dictionary_answers_file [where redis = "Some flaky_sets" and mem = "\<lambda>m. m" and raw = "[(''5'', [''Brave'', ''crane'', ''x''])]" and r = "\<lambda>_. {}" and
      ws = "['' BRAVE'', ''crane'', ''stone'', ''x'']"] flaky_sets_ok by simp
qed

text \<open>
  Without the proviso it fails: the warm-up clears the sets of the lengths the file has, and with
  no file at all a set another process left behind is served as the dictionary.
\<close>

lemma stale_set_served:
  "fst (act_seq (dict_onModuleInit None (Some flaky_sets)) (dict_isValidWord (Some flaky_sets) ''stale'')
     (new_dictionary, \<lambda>k. if k = ''words:5-letter'' then {''stale''} else {})) = Inr True"
  by code_simp

text \<open>After one failed lookup the server is never asked again.\<close>

lemma failure_is_final: "\<not> dy_redisReady s \<Longrightarrow> \<exists>b. dict_isValidWord redis word (s, r) = (Inr b, (s, r))"
  by (cases redis) (auto simp: dict_isValidWord_def lookup_local_def Let_def act_defs)

end
