(* ===== verification/Security_Monitor.thy ===== *)
theory Security_Monitor
  imports Repository Js_Values
begin

text \<open>
  The request limiter (\<^verbatim>\<open>common/sliding-window-rate-limiter.guard.ts\<close>), the audit log
  (\<^verbatim>\<open>common/audit\<close>), the scan for attack patterns over it
  (\<^verbatim>\<open>common/security/security-monitor.service.ts\<close>) and the cache counters
  (\<^verbatim>\<open>common/cache-metrics.service.ts\<close>).  The sorted sets of the key-value server and the audit
  table are parameters.
\<close>

section \<open>The sliding window\<close>

definition WINDOW_MS :: int where "WINDOW_MS = 60000"
definition MAX_REQUESTS :: nat where "MAX_REQUESTS = 60"

text \<open>The commands on sorted sets; each is sent at a time.\<close>

record 'r zset_server =
  zs_remrange :: "int \<Rightarrow> string \<Rightarrow> int \<Rightarrow> int \<Rightarrow> ('r, js_error, unit) act"
  zs_card :: "int \<Rightarrow> string \<Rightarrow> ('r, js_error, nat) act"
  zs_add :: "int \<Rightarrow> string \<Rightarrow> int \<Rightarrow> string \<Rightarrow> ('r, js_error, unit) act"
  zs_pexpire :: "int \<Rightarrow> string \<Rightarrow> int \<Rightarrow> ('r, js_error, unit) act"

definition too_many_requests :: js_error where
  "too_many_requests = JsError ''HttpException'' ''Too Many Requests'' [(''status'', Num (num 429))]"

definition client_ip :: "string option \<Rightarrow> string option \<Rightarrow> string" where
  "client_ip ip remoteAddress = (case ip of Some a \<Rightarrow> a | None \<Rightarrow> (case remoteAddress of Some a \<Rightarrow> a | None \<Rightarrow> ''unknown''))"

definition rate_key :: "string \<Rightarrow> string" where
  "rate_key ip = ''ratelimit:'' @ ip"

text \<open>
  The guard in two halves, the count and the entry of an admitted request: the server is asked
  twice, and another request can come between.
\<close>

definition window_check :: "'r zset_server \<Rightarrow> string \<Rightarrow> int \<Rightarrow> ('r, js_error, unit) act" where
  "window_check R key now =
    act_seq (zs_remrange R now key 0 (now - WINDOW_MS)) (act_bind (zs_card R now key) (\<lambda>n.
      if MAX_REQUESTS \<le> n then act_throw too_many_requests else act_ret ()))"

definition window_record :: "'r zset_server \<Rightarrow> string \<Rightarrow> int \<Rightarrow> string \<Rightarrow> ('r, js_error, bool) act" where
  "window_record R key now random =
    act_seq (zs_add R now key now (show_int now @ ''-'' @ random)) (act_seq (zs_pexpire R now key WINDOW_MS) (act_ret True))"

definition canActivate :: "'r zset_server \<Rightarrow> string \<Rightarrow> int \<Rightarrow> string \<Rightarrow> ('r, js_error, bool) act" where
  "canActivate R ip now random = act_seq (window_check R (rate_key ip) now) (window_record R (rate_key ip) now random)"

text \<open>
  What the guard relies on, through the members \<^verbatim>\<open>live u r k\<close> a key has at time \<^verbatim>\<open>u\<close> if nothing
  more is sent: a range removal takes the scores of the range, an addition keeps the others, and
  an expiry keeps the members until it is due.  A command that throws had no effect.
\<close>

definition zset_ok :: "'r zset_server \<Rightarrow> (int \<Rightarrow> 'r \<Rightarrow> string \<Rightarrow> (string \<times> int) set) \<Rightarrow> bool" where
  "zset_ok R live \<longleftrightarrow>
    (\<forall>t r k. finite (live t r k)) \<and>
    (\<forall>t k lo hi r x r'. zs_remrange R t k lo hi r = (x, r') \<longrightarrow> (case x of
        Inl _ \<Rightarrow> r' = r | Inr _ \<Rightarrow> \<forall>u \<ge> t. live u r' k = {p \<in> live u r k. \<not> (lo \<le> snd p \<and> snd p \<le> hi)})) \<and>
    (\<forall>t k r x r'. zs_card R t k r = (x, r') \<longrightarrow> r' = r \<and> (\<forall>n. x = Inr n \<longrightarrow> n = card (live t r k))) \<and>
    (\<forall>t k s m r x r'. zs_add R t k s m r = (x, r') \<longrightarrow> (case x of
        Inl _ \<Rightarrow> r' = r | Inr _ \<Rightarrow> (m, s) \<in> live t r' k \<and> (\<forall>u \<ge> t. {p \<in> live u r k. fst p \<noteq> m} \<subseteq> live u r' k))) \<and>
    (\<forall>t k ms r x r'. zs_pexpire R t k ms r = (x, r') \<longrightarrow> (case x of
        Inl _ \<Rightarrow> r' = r | Inr _ \<Rightarrow> \<forall>u \<ge> t. u < t + ms \<longrightarrow> live u r' k = live t r k))"

text \<open>A sequence of requests of one client, each a time and a random suffix; the admitted ones.\<close>

fun admitted :: "'r zset_server \<Rightarrow> string \<Rightarrow> (int \<times> string) list \<Rightarrow> 'r \<Rightarrow> (int \<times> string) list" where
  "admitted R ip [] r = []"
| "admitted R ip ((now, random) # reqs) r =
     (case canActivate R ip now random r of
        (Inr _, r') \<Rightarrow> (now, random) # admitted R ip reqs r'
      | (Inl _, r') \<Rightarrow> admitted R ip reqs r')"

definition entry_member :: "int \<times> string \<Rightarrow> string \<times> int" where
  "entry_member q = (show_int (fst q) @ ''-'' @ snd q, fst q)"

text \<open>The invariant: whatever was admitted within the window is still in the set.\<close>

definition remembered :: "(int \<Rightarrow> 'r \<Rightarrow> string \<Rightarrow> (string \<times> int) set) \<Rightarrow> string \<Rightarrow> (int \<times> string) list \<Rightarrow> int \<Rightarrow> 'r \<Rightarrow> bool" where
  "remembered live key past now r \<longleftrightarrow> (\<forall>u \<ge> now. \<forall>q \<in> set past. u - WINDOW_MS < fst q \<longrightarrow> entry_member q \<in> live u r key)"

lemma remembered_later: "remembered live key past now r \<Longrightarrow> now \<le> now' \<Longrightarrow> remembered live key past now' r"
  by (auto simp: remembered_def)

lemma check_keeps:
  assumes R: "zset_ok R live" and inv: "remembered live key past now r" and run: "window_check R key now r = (x, r')"
  shows "remembered live key past now r' \<and> (\<forall>u. x = Inr u \<longrightarrow> card (live now r' key) < MAX_REQUESTS)"
proof -
  obtain y r1 where z: "zs_remrange R now key 0 (now - WINDOW_MS) r = (y, r1)" by fastforce
  have inv1: "remembered live key past now r1"
  proof (cases y)
    case (Inl e)
    then have "r1 = r" using R z unfolding zset_ok_def by fastforce
    then show ?thesis using inv by simp
  next
    case (Inr u)
    then have "live u r1 key = {p \<in> live u r key. \<not> (0 \<le> snd p \<and> snd p \<le> now - WINDOW_MS)}" if "now \<le> u" for u
      using R z that unfolding zset_ok_def by fastforce
    then show ?thesis using inv by (force simp: remembered_def entry_member_def)
  qed
  show ?thesis
  proof (cases y)
    case (Inl e)
    then show ?thesis using run z inv1 by (auto simp: window_check_def act_seq_def)
  next
    case (Inr v)
    obtain n r2 where c: "zs_card R now key r1 = (n, r2)" by fastforce
    then have "r2 = r1" "\<And>k. n = Inr k \<Longrightarrow> k = card (live now r1 key)" using R unfolding zset_ok_def by blast+
    then show ?thesis using run z c Inr inv1
      by (cases n) (auto simp: window_check_def act_seq_def act_throw_def act_ret_def split: if_splits)
  qed
qed

lemma record_keeps:
  assumes R: "zset_ok R live" and inv: "remembered live key past now r" and le: "\<forall>q \<in> set past. fst q \<le> now"
    and new: "fst (entry_member (now, random)) \<notin> fst ` entry_member ` set past" and run: "window_record R key now random r = (x, r')"
  shows "remembered live key past now r' \<and> (\<forall>b. x = Inr b \<longrightarrow> remembered live key ((now, random) # past) now r')"
proof -
  let ?m = "show_int now @ ''-'' @ random"
  obtain y r1 where a: "zs_add R now key now ?m r = (y, r1)" by fastforce
  show ?thesis
  proof (cases y)
    case (Inl e)
    then have "r1 = r" using R a unfolding zset_ok_def by fastforce
    then show ?thesis using run a Inl inv by (auto simp: window_record_def act_seq_def)
  next
    case (Inr v)
    then have add: "(?m, now) \<in> live now r1 key" "\<And>u. now \<le> u \<Longrightarrow> {p \<in> live u r key. fst p \<noteq> ?m} \<subseteq> live u r1 key"
      using R a unfolding zset_ok_def by fastforce+
    have other: "fst (entry_member q) \<noteq> ?m" if "q \<in> set past" for q
      using new that by (force simp: entry_member_def)
    have inv1: "remembered live key past now r1" using inv add(2) other unfolding remembered_def by blast
    obtain z r2 where e: "zs_pexpire R now key WINDOW_MS r1 = (z, r2)" by fastforce
    show ?thesis
    proof (cases z)
      case (Inl err)
      then have "r2 = r1" using R e unfolding zset_ok_def by fastforce
      then show ?thesis using run a Inr e Inl inv1 by (auto simp: window_record_def act_seq_def)
    next
      case z: (Inr w)
      then have live2: "live u r2 key = live now r1 key" if "now \<le> u" "u < now + WINDOW_MS" for u
        using R e that unfolding zset_ok_def by fastforce
      have "entry_member q \<in> live u r2 key" if q: "q \<in> set ((now, random) # past)" "now \<le> u" "u - WINDOW_MS < fst q" for q u
      proof -
        have "fst q \<le> now" using q(1) le by auto
        then have "live u r2 key = live now r1 key" using q by (intro live2) auto
        moreover have "entry_member q \<in> live now r1 key"
          using q inv1 add(1) by (auto simp: remembered_def entry_member_def)
        ultimately show ?thesis by simp
      qed
      then have "remembered live key ((now, random) # past) now r2" by (auto simp: remembered_def)
      moreover have "remembered live key past now r2" using calculation by (simp add: remembered_def)
      ultimately show ?thesis using run a Inr e z by (auto simp: window_record_def act_seq_def act_ret_def)
    qed
  qed
qed


lemma admitted_steps:
  assumes R: "zset_ok R live"
  shows "remembered live (rate_key ip) past now0 r \<Longrightarrow> sorted_wrt (\<le>) (map fst reqs) \<Longrightarrow>
    \<forall>q \<in> set past. fst q \<le> now0 \<Longrightarrow> \<forall>q \<in> set reqs. now0 \<le> fst q \<Longrightarrow>
    distinct (map (fst \<circ> entry_member) (reqs @ past)) \<Longrightarrow>
    \<forall>t. card (set past \<inter> {q. t - WINDOW_MS < fst q \<and> fst q \<le> t}) \<le> MAX_REQUESTS \<Longrightarrow>
    card ((set past \<union> set (admitted R ip reqs r)) \<inter> {q. t - WINDOW_MS < fst q \<and> fst q \<le> t}) \<le> MAX_REQUESTS"
proof (induction reqs arbitrary: past now0 r)
  case (Cons q reqs)
  let ?k = "rate_key ip"
  obtain now random where q: "q = (now, random)" by fastforce
  obtain x r1 where c: "window_check R ?k now r = (x, r1)" by fastforce
  have le: "now0 \<le> now" "\<forall>p \<in> set past. fst p \<le> now" "\<forall>p \<in> set reqs. now \<le> fst p"
    using Cons.prems(2,3,4) by (auto simp: q)
  note C = check_keeps [OF R remembered_later [OF Cons.prems(1) le(1)] c]
  have rest: "card ((set past \<union> set (admitted R ip reqs r')) \<inter> {q. t - WINDOW_MS < fst q \<and> fst q \<le> t}) \<le> MAX_REQUESTS"
    if "remembered live ?k past now r'" for r'
    using Cons.IH [OF that _ le(2,3) _ Cons.prems(6)] Cons.prems(2,5) by simp
  show ?case
  proof (cases x)
    case (Inl e)
    then show ?thesis using rest [of r1] C c by (simp add: q canActivate_def act_seq_def)
  next
    case (Inr u)
    obtain y r2 where w: "window_record R ?k now random r1 = (y, r2)" by fastforce
    have "fst (entry_member (now, random)) \<notin> fst ` entry_member ` set past" using Cons.prems(5) by (auto simp: q image_comp)
    note W = record_keeps [OF R _ le(2) this w]
    show ?thesis
    proof (cases y)
      case (Inl e)
      then show ?thesis using rest [of r2] W C c w Inr by (simp add: q canActivate_def act_seq_def)
    next
      case y: (Inr b)
      let ?past = "(now, random) # past"
      have "set past \<inter> {p. now - WINDOW_MS < fst p \<and> fst p \<le> now} = {p \<in> set past. now - WINDOW_MS < fst p}" using le(2) by auto
      have inj: "inj_on entry_member (set past)" using Cons.prems(5) by (auto simp: distinct_map inj_on_def)
      have "entry_member ` {p \<in> set past. now - WINDOW_MS < fst p} \<subseteq> live now r1 ?k" using C by (auto simp: remembered_def)
      then have "card (entry_member ` {p \<in> set past. now - WINDOW_MS < fst p}) \<le> card (live now r1 ?k)"
        using R by (intro card_mono) (simp_all add: zset_ok_def)
      then have few: "card {p \<in> set past. now - WINDOW_MS < fst p} < MAX_REQUESTS"
        using C Inr card_image [OF inj_on_subset [OF inj]] by (simp add: subset_iff)
      have bound: "card (set ?past \<inter> {p. t - WINDOW_MS < fst p \<and> fst p \<le> t}) \<le> MAX_REQUESTS" for t
      proof (cases "t - WINDOW_MS < now \<and> now \<le> t")
        case True
        have "set ?past \<inter> {p. t - WINDOW_MS < fst p \<and> fst p \<le> t} \<subseteq> insert (now, random) {p \<in> set past. now - WINDOW_MS < fst p}"
          using True by auto
        then have "card (set ?past \<inter> {p. t - WINDOW_MS < fst p \<and> fst p \<le> t}) \<le> card (insert (now, random) {p \<in> set past. now - WINDOW_MS < fst p})"
          by (intro card_mono) simp_all
        also have "\<dots> \<le> Suc (card {p \<in> set past. now - WINDOW_MS < fst p})" by (rule card_insert_le_m1) simp_all
        finally show ?thesis using few by simp
      next
        case False
        then have "set ?past \<inter> {p. t - WINDOW_MS < fst p \<and> fst p \<le> t} = set past \<inter> {p. t - WINDOW_MS < fst p \<and> fst p \<le> t}" by auto
        then show ?thesis using Cons.prems(6) by simp
      qed
      have "card ((set ?past \<union> set (admitted R ip reqs r2)) \<inter> {q. t - WINDOW_MS < fst q \<and> fst q \<le> t}) \<le> MAX_REQUESTS"
        using W C y le Cons.prems(2,5) bound by (intro Cons.IH [where ?now0.0 = now]) (auto simp: q)
      then show ?thesis using c w Inr y by (simp add: q canActivate_def act_seq_def Un_assoc)
    qed
  qed
qed simp

section \<open>Property of the limiter\<close>

text \<open>
  C29: of a client's requests handled one after the other at most \<^verbatim>\<open>MAX_REQUESTS\<close> are admitted in
  any window of a minute, whatever commands fail and whenever the key expires, provided that no
  two requests of the client get the same member name.
\<close>

theorem window_rate_bound:
  assumes "zset_ok R live" "sorted_wrt (\<le>) (map fst reqs)" "distinct (map (fst \<circ> entry_member) reqs)"
  shows "card (set (admitted R ip reqs r) \<inter> {q. t - WINDOW_MS < fst q \<and> fst q \<le> t}) \<le> MAX_REQUESTS"
proof (cases reqs)
  case (Cons q qs)
  then show ?thesis
    using admitted_steps [OF assms(1), of ip "[]" "fst q" r reqs t] assms(2,3) by (simp add: remembered_def)
qed simp

text \<open>A server in memory: the members of a key and when it expires.\<close>

type_synonym mem_zsets = "string \<Rightarrow> (string \<times> int) list \<times> int option"

definition zmem_live :: "int \<Rightarrow> mem_zsets \<Rightarrow> string \<Rightarrow> (string \<times> int) list" where
  "zmem_live t r k = (case snd (r k) of None \<Rightarrow> fst (r k) | Some e \<Rightarrow> if e \<le> t then [] else fst (r k))"

definition zmem_ttl :: "int \<Rightarrow> mem_zsets \<Rightarrow> string \<Rightarrow> int option" where
  "zmem_ttl t r k = (case snd (r k) of None \<Rightarrow> None | Some e \<Rightarrow> if e \<le> t then None else Some e)"

definition mem_zset :: "mem_zsets zset_server" where
  "mem_zset = \<lparr>zs_remrange = (\<lambda>t k lo hi r. (Inr (), r(k := (filter (\<lambda>p. \<not> (lo \<le> snd p \<and> snd p \<le> hi)) (zmem_live t r k), zmem_ttl t r k)))),
     zs_card = (\<lambda>t k r. (Inr (card (set (zmem_live t r k))), r)),
     zs_add = (\<lambda>t k s m r. (Inr (), r(k := ((m, s) # filter (\<lambda>p. fst p \<noteq> m) (zmem_live t r k), zmem_ttl t r k)))),
     zs_pexpire = (\<lambda>t k ms r. (Inr (), r(k := (zmem_live t r k, Some (t + ms)))))\<rparr>"

lemma mem_zset_ok: "zset_ok mem_zset (\<lambda>t r k. set (zmem_live t r k))"
  by (auto simp: zset_ok_def mem_zset_def zmem_live_def zmem_ttl_def split: option.splits if_splits)

definition burst :: "(int \<times> string) list" where
  "burst = [(0, ''x''), (1000, ''x''), (2000, ''x'')]"

theorem window_rate_bound_witness:
  "card (set (admitted mem_zset ''10.0.0.1'' burst (\<lambda>_. ([], None))) \<inter> {q. 4000 - WINDOW_MS < fst q \<and> fst q \<le> 4000}) \<le> MAX_REQUESTS"
proof (rule window_rate_bound [OF mem_zset_ok])
  show "sorted_wrt (\<le>) (map fst burst)" by (simp add: burst_def)
  show "distinct (map (fst \<circ> entry_member) burst)" by (simp add: burst_def entry_member_def show_int_inj)
qed

text \<open>Two requests that are counted before either is entered are both admitted, past the limit.\<close>

definition nearly_full :: mem_zsets where
  "nearly_full = (\<lambda>k. (map (\<lambda>i. (show_nat i, 500)) [0..<59], Some 60500))"

lemma window_race:
  "fst (act_seq (window_check mem_zset ''k'' 1000) (act_seq (window_check mem_zset ''k'' 1000)
     (act_seq (window_record mem_zset ''k'' 1000 ''a'') (act_seq (window_record mem_zset ''k'' 1000 ''b'') (zs_card mem_zset 1000 ''k'')))) nearly_full) =
   Inr (MAX_REQUESTS + 1)"
  by code_simp

section \<open>The audit log\<close>

record AuditLog =
  al_id :: "nat option"
  al_action :: string
  al_userId :: "string option"
  al_walletAddress :: "string option"
  al_ipAddress :: "string option"
  al_userAgent :: "string option"
  al_metadata :: js_record
  al_occurredAt :: int

record AuditContext =
  ac_userId :: "string option"
  ac_walletAddress :: "string option"
  ac_ipAddress :: "string option"
  ac_userAgent :: "string option"
  ac_metadata :: "js_record option"

type_synonym log_repo = "(AuditLog, js_error) repo"
type_synonym 'a log_act = "(AuditLog list, js_error, 'a) act"

definition audit_row :: "string \<Rightarrow> AuditContext \<Rightarrow> int \<Rightarrow> AuditLog" where
  "audit_row action c now = \<lparr>al_id = None, al_action = action, al_userId = ac_userId c, al_walletAddress = ac_walletAddress c,
     al_ipAddress = ac_ipAddress c, al_userAgent = ac_userAgent c,
     al_metadata = (case ac_metadata c of Some m \<Rightarrow> m | None \<Rightarrow> []), al_occurredAt = now\<rparr>"

definition security_log :: "log_repo \<Rightarrow> string \<Rightarrow> AuditContext \<Rightarrow> int \<Rightarrow> unit log_act" where
  "security_log R action c now = act_catch (act_seq (r_save R (audit_row action c now)) (act_ret ())) (\<lambda>_. act_ret ())"

definition newest_log :: "AuditLog \<Rightarrow> AuditLog \<Rightarrow> bool" where
  "newest_log a b \<longleftrightarrow> al_occurredAt a < al_occurredAt b"

definition audit_findByUser :: "log_repo \<Rightarrow> string \<Rightarrow> nat \<Rightarrow> AuditLog list log_act" where
  "audit_findByUser R userId limit =
    act_bind (r_find R (\<lambda>a. al_userId a = Some userId) newest_log) (\<lambda>rows. act_ret (take limit rows))"

definition SUSPICIOUS_ACTIONS :: "string list" where
  "SUSPICIOUS_ACTIONS = [''AUTH_LOGIN_FAILED'', ''RATE_LIMIT_EXCEEDED'', ''SECURITY_SUSPICIOUS_ACTIVITY'']"

definition findSuspicious :: "log_repo \<Rightarrow> int \<Rightarrow> int \<Rightarrow> AuditLog list log_act" where
  "findSuspicious R now sinceMinutes =
    (let since = now - sinceMinutes * 60000
     in r_find R (\<lambda>a. al_action a \<in> set SUSPICIOUS_ACTIONS \<and> since \<le> al_occurredAt a) newest_log)"

section \<open>The scan\<close>

record SuspiciousPattern =
  sp_type :: string
  sp_severity :: string
  sp_description :: string
  sp_ipAddress :: string
  sp_count :: nat
  sp_detectedAt :: int

text \<open>The counts per address of the rows with an action; an absent or empty address is skipped.\<close>

definition count_ip :: "string \<Rightarrow> AuditLog \<Rightarrow> (string, nat) jmap \<Rightarrow> (string, nat) jmap" where
  "count_ip action a m =
    (if al_action a = action then (case al_ipAddress a of
        Some ip \<Rightarrow> if ip = [] then m else jm_set ip ((case jm_get ip m of Some n \<Rightarrow> n | None \<Rightarrow> 0) + 1) m
      | None \<Rightarrow> m)
     else m)"

definition counts_by_ip :: "string \<Rightarrow> AuditLog list \<Rightarrow> (string, nat) jmap" where
  "counts_by_ip action rows = fold (count_ip action) rows []"

definition stuffing :: "int \<Rightarrow> string \<times> nat \<Rightarrow> SuspiciousPattern" where
  "stuffing now p = \<lparr>sp_type = ''CREDENTIAL_STUFFING'', sp_severity = (if 50 \<le> snd p then ''critical'' else ''high''),
     sp_description = show_nat (snd p) @ '' failed login attempts from IP '' @ fst p @ '' in the last 15 minutes'',
     sp_ipAddress = fst p, sp_count = snd p, sp_detectedAt = now\<rparr>"

definition rate_abuse :: "int \<Rightarrow> string \<times> nat \<Rightarrow> SuspiciousPattern" where
  "rate_abuse now p = \<lparr>sp_type = ''RATE_LIMIT_ABUSE'', sp_severity = ''medium'',
     sp_description = ''IP '' @ fst p @ '' hit rate limits '' @ show_nat (snd p) @ '' times in 15 minutes'',
     sp_ipAddress = fst p, sp_count = snd p, sp_detectedAt = now\<rparr>"

definition threats_of :: "int \<Rightarrow> AuditLog list \<Rightarrow> SuspiciousPattern list" where
  "threats_of now rows =
    map (stuffing now) (filter (\<lambda>p. 10 \<le> snd p) (counts_by_ip ''AUTH_LOGIN_FAILED'' rows)) @
    map (rate_abuse now) (filter (\<lambda>p. 5 \<le> snd p) (counts_by_ip ''RATE_LIMIT_EXCEEDED'' rows))"

text \<open>What a scan reports: its alerts, with the level each is logged at.\<close>

definition reportThreats :: "SuspiciousPattern list \<Rightarrow> (string \<times> string) list" where
  "reportThreats patterns = map (\<lambda>p.
     (if sp_severity p = ''critical'' \<or> sp_severity p = ''high'' then ''error'' else ''warn'',
      ''[SECURITY-ALERT] '' @ sp_type p @ '' | severity='' @ sp_severity p @ '' | '' @ sp_description p)) patterns"

definition detectThreats :: "log_repo \<Rightarrow> int \<Rightarrow> SuspiciousPattern list log_act" where
  "detectThreats R now = act_bind (findSuspicious R now 15) (\<lambda>suspicious.
     if suspicious = [] then act_ret [] else act_ret (threats_of now suspicious))"

definition events_of :: "string \<Rightarrow> string \<Rightarrow> int \<Rightarrow> AuditLog list \<Rightarrow> nat" where
  "events_of action ip since t = length (filter (\<lambda>a. al_action a = action \<and> al_ipAddress a = Some ip \<and> since \<le> al_occurredAt a) t)"

lemma counts_by_ip_spec:
  "jm_wf (counts_by_ip action rows) \<and>
   jm_get ip (counts_by_ip action rows) =
     (let n = length (filter (\<lambda>a. al_action a = action \<and> al_ipAddress a = Some ip) rows) in if ip = [] \<or> n = 0 then None else Some n)"
proof -
  have "jm_wf (fold (count_ip action) rows m) \<and>
      jm_get ip (fold (count_ip action) rows m) =
        (let n = length (filter (\<lambda>a. al_action a = action \<and> al_ipAddress a = Some ip) rows) in
         if ip = [] \<or> n = 0 then jm_get ip m else Some ((case jm_get ip m of Some k \<Rightarrow> k | None \<Rightarrow> 0) + n))" if "jm_wf m" for m
    using that
  proof (induction rows arbitrary: m)
    case (Cons a rows)
    have "jm_wf (count_ip action a m)" using Cons.prems by (simp add: count_ip_def split: option.splits)
    note IH = Cons.IH [OF this]
    show ?case
    proof (cases "al_action a = action \<and> al_ipAddress a \<noteq> None \<and> al_ipAddress a \<noteq> Some []")
      case True
      then show ?thesis using IH by (auto simp: count_ip_def Let_def split: option.splits)
    next
      case False
      then have "count_ip action a m = m" by (auto simp: count_ip_def split: option.splits)
      then show ?thesis using IH False by (auto simp: Let_def)
    qed
  qed (simp add: Let_def)
  from this [of "[]"] show ?thesis by (auto simp: counts_by_ip_def Let_def)
qed

lemma counted_iff:
  "0 < k \<Longrightarrow> (ip, n) \<in> set (filter (\<lambda>p. k \<le> snd p) (counts_by_ip action rows)) \<longleftrightarrow>
     ip \<noteq> [] \<and> k \<le> n \<and> n = length (filter (\<lambda>a. al_action a = action \<and> al_ipAddress a = Some ip) rows)"
  using counts_by_ip_spec [of action rows ip] by (auto simp: jm_get_in Let_def split: if_splits)

lemma filter_length_mset: "mset xs = mset ys \<Longrightarrow> length (filter P xs) = length (filter P ys)"
  by (metis mset_filter size_mset)

section \<open>Property of the scan\<close>

text \<open>
  A scan reports an address for credential stuffing exactly when the log holds at least ten
  failed logins from it in the last fifteen minutes, for rate-limit abuse at five refusals, with
  the exact count and severity, each address at most once per pattern.
\<close>

theorem scan_reports_exactly:
  assumes R: "repo_ok al_id body R" and run: "detectThreats R now t = (Inr ps, t')" and ip: "ip \<noteq> []"
  shows "(stuffing now (ip, n) \<in> set ps \<longleftrightarrow> 10 \<le> n \<and> n = events_of ''AUTH_LOGIN_FAILED'' ip (now - 900000) t) \<and>
    (rate_abuse now (ip, n) \<in> set ps \<longleftrightarrow> 5 \<le> n \<and> n = events_of ''RATE_LIMIT_EXCEEDED'' ip (now - 900000) t) \<and>
    distinct (map (\<lambda>p. (sp_type p, sp_ipAddress p)) ps)"
proof -
  let ?P = "\<lambda>a. al_action a \<in> set SUSPICIOUS_ACTIONS \<and> now - 900000 \<le> al_occurredAt a"
  obtain rows where f: "r_find R ?P newest_log t = (Inr rows, t')" and ps: "ps = threats_of now rows"
    using run by (auto simp: detectThreats_def findSuspicious_def act_bind_returns act_ret_def threats_of_def counts_by_ip_def split: if_splits)
  have m: "mset rows = mset (filter ?P t)" using find_returns(2) [OF R f] .
  have len: "length (filter (\<lambda>a. al_action a = action \<and> al_ipAddress a = Some ip) rows) = events_of action ip (now - 900000) t"
    if "action \<in> set SUSPICIOUS_ACTIONS" for action
    using filter_length_mset [OF m] that by (simp add: events_of_def conj_ac) (metis (mono_tags, lifting) filter_cong that)
  have inj: "inj (stuffing now)" "inj (rate_abuse now)" by (auto simp: inj_on_def stuffing_def rate_abuse_def prod_eq_iff)
  have ne: "stuffing now p \<noteq> rate_abuse now p'" for p p' by (simp add: stuffing_def rate_abuse_def)
  have S: "stuffing now (ip, n) \<in> set ps \<longleftrightarrow> 10 \<le> n \<and> n = events_of ''AUTH_LOGIN_FAILED'' ip (now - 900000) t"
    using counted_iff [of 10 ip n "''AUTH_LOGIN_FAILED''" rows] len [of "''AUTH_LOGIN_FAILED''"] ip ne inj(1)
    by (auto simp: ps threats_of_def SUSPICIOUS_ACTIONS_def image_iff dest: injD)
  have A: "rate_abuse now (ip, n) \<in> set ps \<longleftrightarrow> 5 \<le> n \<and> n = events_of ''RATE_LIMIT_EXCEEDED'' ip (now - 900000) t"
    using counted_iff [of 5 ip n "''RATE_LIMIT_EXCEEDED''" rows] len [of "''RATE_LIMIT_EXCEEDED''"] ip ne [symmetric] inj(2)
    by (auto simp: ps threats_of_def SUSPICIOUS_ACTIONS_def image_iff dest: injD)
  have "distinct (map fst (filter P (counts_by_ip action rows)))" for P action
    using counts_by_ip_spec [of action rows] by (simp add: jm_wf_def distinct_map_filter)
  then have "distinct (map (\<lambda>p. (sp_type p, sp_ipAddress p)) ps)"
    by (auto simp: ps threats_of_def stuffing_def rate_abuse_def o_def distinct_map inj_on_def)
  then show ?thesis using S A by blast
qed

definition log_mem :: log_repo where
  "log_mem = mem_repo al_id (\<lambda>i a. a\<lparr>al_id := Some i\<rparr>)"

lemma log_mem_ok: "repo_ok al_id (al_id_update (\<lambda>_. None)) log_mem"
  unfolding log_mem_def by (rule mem_repo_ok) simp_all

definition failed_login :: "nat \<Rightarrow> AuditLog" where
  "failed_login i = \<lparr>al_id = Some i, al_action = ''AUTH_LOGIN_FAILED'', al_userId = None, al_walletAddress = None,
     al_ipAddress = Some ''10.0.0.9'', al_userAgent = None, al_metadata = [], al_occurredAt = int i\<rparr>"

theorem scan_reports_exactly_witness:
  "stuffing 900000 (''10.0.0.9'', 10) \<in> set (threats_of 900000 (map failed_login [0..<10])) \<and>
   fst (detectThreats log_mem 900000 (map failed_login [0..<10])) = Inr [stuffing 900000 (''10.0.0.9'', 10)]"
proof -
  let ?t = "map failed_login [0..<10]"
  have d: "fst (detectThreats log_mem 900000 ?t) = Inr [stuffing 900000 (''10.0.0.9'', 10)]" by code_simp
  have "detectThreats log_mem 900000 ?t = (fst (detectThreats log_mem 900000 ?t), snd (detectThreats log_mem 900000 ?t))"
    by (rule surjective_pairing)
  note run = this [unfolded d]
  have "10 = events_of ''AUTH_LOGIN_FAILED'' ''10.0.0.9'' (900000 - 900000) ?t"
    using scan_reports_exactly [OF log_mem_ok run, of "''10.0.0.9''" 10] by simp
  then show ?thesis using d by (simp add: threats_of_def) code_simp
qed

end
