(* ===== verification/Read_Api.thy ===== *)
theory Read_Api
  imports Projection_Service Js_Doubles
begin

text \<open>
  The read endpoints over the session projections (\<^verbatim>\<open>common/read-api.controller.ts\<close>): the
  achievements and the summary of a player and the paginated history, each behind a cache with a
  time to live, and the counters of \<^verbatim>\<open>common/cache-metrics.service.ts\<close>.  The cache manager, the
  paginated query, and the two printed forms of a date are parameters.
\<close>

section \<open>Cache counters\<close>

record CacheMetricEntry =
  cm_hits :: nat
  cm_misses :: nat
  cm_invalidations :: nat

type_synonym cache_metrics = "(string, CacheMetricEntry) jmap"

definition metric_entry :: "string \<Rightarrow> cache_metrics \<Rightarrow> CacheMetricEntry" where
  "metric_entry key m = (case jm_get key m of Some e \<Rightarrow> e | None \<Rightarrow> \<lparr>cm_hits = 0, cm_misses = 0, cm_invalidations = 0\<rparr>)"

definition recordHit :: "string \<Rightarrow> cache_metrics \<Rightarrow> cache_metrics" where
  "recordHit key m = (let e = metric_entry key m in jm_set key (e\<lparr>cm_hits := cm_hits e + 1\<rparr>) m)"

definition recordMiss :: "string \<Rightarrow> cache_metrics \<Rightarrow> cache_metrics" where
  "recordMiss key m = (let e = metric_entry key m in jm_set key (e\<lparr>cm_misses := cm_misses e + 1\<rparr>) m)"

definition recordInvalidation :: "string \<Rightarrow> cache_metrics \<Rightarrow> cache_metrics" where
  "recordInvalidation key m = (let e = metric_entry key m in jm_set key (e\<lparr>cm_invalidations := cm_invalidations e + 1\<rparr>) m)"

definition metrics_snapshot :: "cache_metrics \<Rightarrow> (string \<times> CacheMetricEntry \<times> rat) list" where
  "metrics_snapshot m = map (\<lambda>(key, e).
     (let total = cm_hits e + cm_misses e in (key, e, if 0 < total then of_nat (cm_hits e) / of_nat total else 0))) m"

section \<open>Answers\<close>

record AchievementEntryDto =
  ae_id :: string
  ae_name :: string
  ae_state :: string
  ae_unlockedAt :: "string option"

record AchievementSummaryDto =
  as_achievements :: "AchievementEntryDto list"
  as_total :: nat
  as_unlocked :: nat

record PlayerSummaryDto =
  py_address :: string
  py_totalSessions :: nat
  py_totalWins :: nat
  py_winRate :: rat
  py_currentStreak :: nat
  py_longestStreak :: nat
  py_lastPlayedAt :: "string option"

record SessionHistoryEntryDto =
  he_sessionId :: string
  he_player :: string
  he_dayId :: jsnum
  he_status :: string
  he_attemptsUsed :: jsnum
  he_finalized :: bool
  he_updatedAt :: string

record SessionHistoryDto =
  hd_sessions :: "SessionHistoryEntryDto list"
  hd_total :: nat
  hd_skip :: jsnum
  hd_take :: jsnum

datatype read_dto = AchievementsDto AchievementSummaryDto | SummaryDto PlayerSummaryDto | HistoryDto SessionHistoryDto

text \<open>The dependencies: the cache, the table, and the printing of dates.\<close>

record ('c, 'v) cache =
  ch_get :: "int \<Rightarrow> string \<Rightarrow> ('c, js_error, 'v option) act"
  ch_set :: "int \<Rightarrow> string \<Rightarrow> 'v \<Rightarrow> int \<Rightarrow> ('c, js_error, unit) act"
  ch_del :: "int \<Rightarrow> string \<Rightarrow> ('c, js_error, unit) act"

record 'c read_deps =
  rp_host :: host
  rp_sessions :: session_repo
  rp_findAndCount :: "(SessionProjectionEntity \<Rightarrow> bool) \<Rightarrow> jsnum \<Rightarrow> jsnum \<Rightarrow> (SessionProjectionEntity list \<times> nat) session_act"
  rp_cache :: "('c, read_dto) cache"
  rp_iso :: "int \<Rightarrow> string"
  rp_dateString :: "int \<Rightarrow> string"

section \<open>Achievements\<close>

definition achievement :: "string \<Rightarrow> string \<Rightarrow> bool \<Rightarrow> AchievementEntryDto" where
  "achievement i name done_now = \<lparr>ae_id = i, ae_name = name, ae_state = (if done_now then ''unlocked'' else ''pending''), ae_unlockedAt = None\<rparr>"

definition achievement_list :: "(int \<Rightarrow> string) \<Rightarrow> int \<Rightarrow> nat \<Rightarrow> AchievementEntryDto list" where
  "achievement_list isoDate now completedDays =
    [(achievement ''first_win'' ''First Win'' (1 \<le> completedDays))
       \<lparr>ae_unlockedAt := if 1 \<le> completedDays then Some (isoDate now) else None\<rparr>,
     achievement ''streak_3'' ''3-Day Streak'' (3 \<le> completedDays),
     achievement ''streak_7'' ''Week Warrior'' (7 \<le> completedDays),
     achievement ''dedicated'' ''Dedicated Player'' (30 \<le> completedDays),
     \<lparr>ae_id = ''perfectionist'', ae_name = ''Perfectionist'', ae_state = ''unavailable'', ae_unlockedAt = None\<rparr>]"

definition no_order :: "SessionProjectionEntity \<Rightarrow> SessionProjectionEntity \<Rightarrow> bool" where
  "no_order a b = False"

definition fetch_achievements :: "'c read_deps \<Rightarrow> int \<Rightarrow> string \<Rightarrow> read_dto session_act" where
  "fetch_achievements D now address =
    act_bind (r_find (rp_sessions D) (\<lambda>s. sp_player s = address) no_order) (\<lambda>sessions.
      let completedDays = length (filter sp_finalized sessions);
          achievements = achievement_list (rp_iso D) now completedDays
      in act_ret (AchievementsDto \<lparr>as_achievements = achievements, as_total = length achievements,
           as_unlocked = length (filter (\<lambda>a. ae_state a = ''unlocked'') achievements)\<rparr>))"

section \<open>The summary of a player\<close>

definition MS_PER_DAY :: int where "MS_PER_DAY = 1000 * 60 * 60 * 24"

definition newest_session :: "SessionProjectionEntity \<Rightarrow> SessionProjectionEntity \<Rightarrow> bool" where
  "newest_session a b = (case (sp_updatedAt a, sp_updatedAt b) of (Some x, Some y) \<Rightarrow> x < y | _ \<Rightarrow> False)"

text \<open>The array sort without a comparator compares what the dates print as.\<close>

definition printed_after :: "(int \<Rightarrow> string) \<Rightarrow> int \<Rightarrow> int \<Rightarrow> bool" where
  "printed_after dateString a b \<longleftrightarrow> 0 < unitCompare (dateString a) (dateString b)"

definition sorted_dates :: "(int \<Rightarrow> string) \<Rightarrow> SessionProjectionEntity list \<Rightarrow> int list" where
  "sorted_dates dateString finalized = rev (sort_by (printed_after dateString) (List.map_filter sp_updatedAt finalized))"

fun recent_streak :: "int \<Rightarrow> int list \<Rightarrow> nat" where
  "recent_streak today [] = 0"
| "recent_streak today (d # ds) = (if (today - d) div MS_PER_DAY \<le> 1 then Suc (recent_streak today ds) else 0)"

definition player_summary :: "'c read_deps \<Rightarrow> int \<Rightarrow> string \<Rightarrow> SessionProjectionEntity list \<Rightarrow> PlayerSummaryDto" where
  "player_summary D now address sessions =
    (let totalSessions = length sessions; finalizedSessions = filter sp_finalized sessions;
         totalWins = length (filter (\<lambda>s. sp_status s = ''Finalized'') finalizedSessions);
         sortedDates = sorted_dates (rp_dateString D) finalizedSessions;
         currentStreak = recent_streak now sortedDates
     in \<lparr>py_address = address, py_totalSessions = totalSessions, py_totalWins = totalWins,
         py_winRate = (if 0 < totalSessions then div_d (of_nat totalWins) (of_nat totalSessions) else 0),
         py_currentStreak = currentStreak, py_longestStreak = currentStreak,
         py_lastPlayedAt = (case sortedDates of [] \<Rightarrow> None | d # _ \<Rightarrow> Some (rp_iso D d))\<rparr>)"

definition fetch_summary :: "'c read_deps \<Rightarrow> int \<Rightarrow> string \<Rightarrow> read_dto session_act" where
  "fetch_summary D now address =
    act_bind (r_find (rp_sessions D) (\<lambda>s. sp_player s = address) newest_session) (\<lambda>sessions.
      act_ret (SummaryDto (player_summary D now address sessions)))"

section \<open>The history\<close>

text \<open>A page: \<^verbatim>\<open>skip\<close> is at least 0, \<^verbatim>\<open>take\<close> between 1 and 100; a text that is no number is \<^verbatim>\<open>NaN\<close>.\<close>

definition page_skip :: "host \<Rightarrow> string option \<Rightarrow> jsnum" where
  "page_skip h skip = num_max (Fin 0) (case skip of None \<Rightarrow> Fin 0 | Some s \<Rightarrow> js_Number h (Str s))"

definition page_take :: "host \<Rightarrow> string option \<Rightarrow> jsnum" where
  "page_take h take' = num_max (Fin 1) (num_min (case take' of None \<Rightarrow> Fin 20 | Some s \<Rightarrow> js_Number h (Str s)) (Fin 100))"

definition history_entry :: "'c read_deps \<Rightarrow> SessionProjectionEntity \<Rightarrow> js_error + SessionHistoryEntryDto" where
  "history_entry D s = (case sp_updatedAt s of
      None \<Rightarrow> Inl (JsError ''TypeError'' ''Cannot read properties of undefined'' [])
    | Some t \<Rightarrow> Inr \<lparr>he_sessionId = sp_sessionId s, he_player = sp_player s, he_dayId = sp_dayId s, he_status = sp_status s,
        he_attemptsUsed = sp_attemptsUsed s, he_finalized = sp_finalized s, he_updatedAt = rp_iso D t\<rparr>)"

fun history_entries :: "'c read_deps \<Rightarrow> SessionProjectionEntity list \<Rightarrow> js_error + SessionHistoryEntryDto list" where
  "history_entries D [] = Inr []"
| "history_entries D (s # ss) = (case history_entry D s of Inl e \<Rightarrow> Inl e
     | Inr x \<Rightarrow> (case history_entries D ss of Inl e \<Rightarrow> Inl e | Inr xs \<Rightarrow> Inr (x # xs)))"

definition fetch_history :: "'c read_deps \<Rightarrow> string option \<Rightarrow> jsnum \<Rightarrow> jsnum \<Rightarrow> read_dto session_act" where
  "fetch_history D player skip take' =
    act_bind (rp_findAndCount D (\<lambda>s. case player of None \<Rightarrow> True | Some p \<Rightarrow> p = [] \<or> sp_player s = p) skip take') (\<lambda>(sessions, total).
      case history_entries D sessions of
        Inl e \<Rightarrow> act_throw e
      | Inr es \<Rightarrow> act_ret (HistoryDto \<lparr>hd_sessions = es, hd_total = total, hd_skip = skip, hd_take = take'\<rparr>))"

section \<open>The endpoints\<close>

datatype read_query = AchievementsOf string | SummaryOf string | HistoryOf "string option" "string option" "string option"

text \<open>The counter, the cache key and the time to live of each endpoint.\<close>

fun query_metric :: "read_query \<Rightarrow> string" where
  "query_metric (AchievementsOf _) = ''achievements''"
| "query_metric (SummaryOf _) = ''playerSummary''"
| "query_metric (HistoryOf _ _ _) = ''sessions''"

fun query_key :: "host \<Rightarrow> read_query \<Rightarrow> string" where
  "query_key h (AchievementsOf address) = ''achievements:'' @ address"
| "query_key h (SummaryOf address) = ''playerSummary:'' @ address"
| "query_key h (HistoryOf player skip take') =
     ''sessions:'' @ (case player of Some p \<Rightarrow> p | None \<Rightarrow> ''all'') @ '':'' @ num_to_string h (page_skip h skip) @ '':'' @
       num_to_string h (page_take h take')"

fun query_ttl :: "read_query \<Rightarrow> int" where
  "query_ttl (AchievementsOf _) = 30000"
| "query_ttl (SummaryOf _) = 15000"
| "query_ttl (HistoryOf _ _ _) = 10000"

fun query_fetch :: "'c read_deps \<Rightarrow> int \<Rightarrow> read_query \<Rightarrow> read_dto session_act" where
  "query_fetch D now (AchievementsOf address) = fetch_achievements D now address"
| "query_fetch D now (SummaryOf address) = fetch_summary D now address"
| "query_fetch D now (HistoryOf player skip take') =
     fetch_history D player (page_skip (rp_host D) skip) (page_take (rp_host D) take')"

record 'c read_world =
  rw_cache :: 'c
  rw_metrics :: cache_metrics
  rw_sessions :: "SessionProjectionEntity list"

definition on_cache :: "('c, js_error, 'a) act \<Rightarrow> ('c read_world, js_error, 'a) act" where
  "on_cache = zoom rw_cache (\<lambda>c w. w\<lparr>rw_cache := c\<rparr>)"

definition on_session_rows :: "'a session_act \<Rightarrow> ('c read_world, js_error, 'a) act" where
  "on_session_rows = zoom rw_sessions (\<lambda>t w. w\<lparr>rw_sessions := t\<rparr>)"

definition on_metrics :: "(cache_metrics \<Rightarrow> cache_metrics) \<Rightarrow> ('c read_world, js_error, unit) act" where
  "on_metrics f = act_modify (\<lambda>w. w\<lparr>rw_metrics := f (rw_metrics w)\<rparr>)"

text \<open>The three endpoints share one shape: ask the cache, else read, enter and answer.\<close>

definition read_endpoint :: "'c read_deps \<Rightarrow> int \<Rightarrow> read_query \<Rightarrow> ('c read_world, js_error, read_dto) act" where
  "read_endpoint D now q =
    act_bind (on_cache (ch_get (rp_cache D) now (query_key (rp_host D) q))) (\<lambda>cached. case cached of
        Some v \<Rightarrow> act_seq (on_metrics (recordHit (query_metric q))) (act_ret v)
      | None \<Rightarrow> act_seq (on_metrics (recordMiss (query_metric q)))
          (act_bind (on_session_rows (query_fetch D now q)) (\<lambda>result.
            act_seq (on_cache (ch_set (rp_cache D) now (query_key (rp_host D) q) result (query_ttl q))) (act_ret result))))"

definition getAchievementSummary :: "'c read_deps \<Rightarrow> int \<Rightarrow> string \<Rightarrow> ('c read_world, js_error, read_dto) act" where
  "getAchievementSummary D now address = read_endpoint D now (AchievementsOf address)"

definition getPlayerSummary :: "'c read_deps \<Rightarrow> int \<Rightarrow> string \<Rightarrow> ('c read_world, js_error, read_dto) act" where
  "getPlayerSummary D now address = read_endpoint D now (SummaryOf address)"

definition getSessionHistory ::
  "'c read_deps \<Rightarrow> int \<Rightarrow> string option \<Rightarrow> string option \<Rightarrow> string option \<Rightarrow> ('c read_world, js_error, read_dto) act" where
  "getSessionHistory D now player skip take' = read_endpoint D now (HistoryOf player skip take')"

definition invalidatePlayerCache :: "'c read_deps \<Rightarrow> int \<Rightarrow> string \<Rightarrow> ('c read_world, js_error, unit) act" where
  "invalidatePlayerCache D now address =
    act_seq (act_for [''achievements:'' @ address, ''playerSummary:'' @ address] (\<lambda>k. on_cache (ch_del (rp_cache D) now k)))
      (on_metrics (recordInvalidation ''player-update''))"

definition invalidateSessionCache :: "'c read_deps \<Rightarrow> int \<Rightarrow> ('c read_world, js_error, unit) act" where
  "invalidateSessionCache D now =
    act_seq (act_for [''sessions:all:0:20''] (\<lambda>k. on_cache (ch_del (rp_cache D) now k)))
      (on_metrics (recordInvalidation ''session-update''))"

section \<open>What the endpoints rely on\<close>

text \<open>
  The cache invents nothing: what is present later under a key was present before or is what was
  entered, and then its time has not passed.  It may forget anything at any moment.
\<close>

definition cache_get_ok :: "('c, 'v) cache \<Rightarrow> (int \<Rightarrow> 'c \<Rightarrow> string \<Rightarrow> 'v option) \<Rightarrow> bool" where
  "cache_get_ok C present \<longleftrightarrow>
    (\<forall>t k c v c'. ch_get C t k c = (Inr (Some v), c') \<longrightarrow> present t c k = Some v) \<and>
    (\<forall>t k c x c' u k' v. ch_get C t k c = (x, c') \<longrightarrow> t \<le> u \<longrightarrow> present u c' k' = Some v \<longrightarrow> present u c k' = Some v)"

definition cache_set_ok :: "('c, 'v) cache \<Rightarrow> (int \<Rightarrow> 'c \<Rightarrow> string \<Rightarrow> 'v option) \<Rightarrow> bool" where
  "cache_set_ok C present \<longleftrightarrow>
    (\<forall>t k v ttl c x c' u k' v'. ch_set C t k v ttl c = (x, c') \<longrightarrow> t \<le> u \<longrightarrow> present u c' k' = Some v' \<longrightarrow>
       k' = k \<and> v' = v \<and> u < t + ttl \<or> present u c k' = Some v')"

definition cache_del_ok :: "('c, 'v) cache \<Rightarrow> (int \<Rightarrow> 'c \<Rightarrow> string \<Rightarrow> 'v option) \<Rightarrow> bool" where
  "cache_del_ok C present \<longleftrightarrow>
    (\<forall>t k c x c' u k' v. ch_del C t k c = (x, c') \<longrightarrow> t \<le> u \<longrightarrow> present u c' k' = Some v \<longrightarrow> present u c k' = Some v) \<and>
    (\<forall>t k c c' u. ch_del C t k c = (Inr (), c') \<longrightarrow> t \<le> u \<longrightarrow> present u c' k = None)"

definition cache_ok :: "('c, 'v) cache \<Rightarrow> (int \<Rightarrow> 'c \<Rightarrow> string \<Rightarrow> 'v option) \<Rightarrow> bool" where
  "cache_ok C present \<longleftrightarrow> cache_get_ok C present \<and> cache_set_ok C present \<and> cache_del_ok C present"

lemma cache_get_present:
  assumes "cache_ok C present" "ch_get C t k c = (Inr (Some v), c')"
  shows "present t c k = Some v"
proof -
  have "cache_get_ok C present" using assms(1) by (simp add: cache_ok_def)
  then show ?thesis using assms(2) by (simp add: cache_get_ok_def)
qed

lemma cache_get_keeps:
  assumes "cache_ok C present" "ch_get C t k c = (x, c')" "t \<le> u" "present u c' k' = Some v"
  shows "present u c k' = Some v"
proof -
  have "cache_get_ok C present" using assms(1) by (simp add: cache_ok_def)
  then show ?thesis using assms(2-) unfolding cache_get_ok_def by meson
qed

lemma cache_setD:
  assumes "cache_ok C present" "ch_set C t k v ttl c = (x, c')" "t \<le> u" "present u c' k' = Some v'"
  shows "k' = k \<and> v' = v \<and> u < t + ttl \<or> present u c k' = Some v'"
proof -
  have "cache_set_ok C present" using assms(1) by (simp add: cache_ok_def)
  then show ?thesis using assms(2-) unfolding cache_set_ok_def by meson
qed

text \<open>A query whose key says which query it is: whole page numbers, and no player called \<^verbatim>\<open>all\<close>.\<close>

definition whole :: "jsnum \<Rightarrow> bool" where
  "whole n \<longleftrightarrow> (\<exists>i. n = num i \<and> \<bar>i\<bar> < 10 ^ 21)"

lemma whole_num: "\<bar>i\<bar> < 10 ^ 21 \<Longrightarrow> whole (num i)"
  by (auto simp: whole_def)

fun query_ok :: "host \<Rightarrow> read_query \<Rightarrow> bool" where
  "query_ok h (HistoryOf player skip take') \<longleftrightarrow> player \<noteq> Some ''all'' \<and> whole (page_skip h skip) \<and> whole (page_take h take')"
| "query_ok h _ \<longleftrightarrow> True"

lemma history_key_inj:
  assumes "whole a" "whole b" "whole a'" "whole b'"
    and "''sessions:'' @ p @ '':'' @ num_to_string h a @ '':'' @ num_to_string h b =
      ''sessions:'' @ p' @ '':'' @ num_to_string h a' @ '':'' @ num_to_string h b'"
  shows "p = p' \<and> a = a' \<and> b = b'"
proof -
  obtain i j i' j' where n: "a = num i" "b = num j" "a' = num i'" "b' = num j'"
    and r: "\<bar>i\<bar> < 10 ^ 21" "\<bar>j\<bar> < 10 ^ 21" "\<bar>i'\<bar> < 10 ^ 21" "\<bar>j'\<bar> < 10 ^ 21" using assms(1-4) by (auto simp: whole_def)
  have "(p @ CHR '':'' # show_int i) @ CHR '':'' # show_int j = (p' @ CHR '':'' # show_int i') @ CHR '':'' # show_int j'"
    using assms(5) unfolding n num_to_string_int [OF r(1)] num_to_string_int [OF r(2)] num_to_string_int [OF r(3)] num_to_string_int [OF r(4)]
    by simp
  then have "p @ CHR '':'' # show_int i = p' @ CHR '':'' # show_int i'" "show_int j = show_int j'"
    using append_sep_inj [OF show_int_no_colon show_int_no_colon, of "p @ CHR '':'' # show_int i" j "p' @ CHR '':'' # show_int i'" j'] by blast+
  moreover have "p = p' \<and> show_int i = show_int i'"
    using calculation(1) append_sep_inj [OF show_int_no_colon show_int_no_colon, of p i p' i'] by blast
  ultimately show ?thesis by (simp add: n show_int_inj)
qed

lemma query_key_inj:
  assumes "query_ok (rp_host D) q" "query_ok (rp_host D) q'" "query_key (rp_host D) q = query_key (rp_host D) q'"
  shows "query_fetch D t q = query_fetch D t q' \<and> query_ttl q = query_ttl q'"
proof (cases q; cases q')
  fix p s k p' s' k'
  assume q: "q = HistoryOf p s k" "q' = HistoryOf p' s' k'"
  have "(case p of Some x \<Rightarrow> x | None \<Rightarrow> ''all'') = (case p' of Some x \<Rightarrow> x | None \<Rightarrow> ''all'') \<and>
      page_skip (rp_host D) s = page_skip (rp_host D) s' \<and> page_take (rp_host D) k = page_take (rp_host D) k'"
    using assms unfolding q query_ok.simps query_key.simps by (intro history_key_inj) blast+
  moreover have "p = p'" using calculation assms(1,2) by (auto simp: q split: option.splits)
  ultimately show ?thesis by (simp add: q)
qed (use assms(3) in simp_all)

lemma query_key_endpoint:
  assumes "query_key h q = query_key h q'"
  shows "query_ttl q = query_ttl q' \<and> (q = q' \<or> (\<exists>p s k p' s' k'. q = HistoryOf p s k \<and> q' = HistoryOf p' s' k'))"
  using assms by (cases q; cases q') simp_all

section \<open>Bounded staleness\<close>

text \<open>A request: when it arrives, the table at that moment, and the query.\<close>

type_synonym read_request = "int \<times> SessionProjectionEntity list \<times> read_query"

definition serve :: "'c read_deps \<Rightarrow> read_request \<Rightarrow> 'c \<times> cache_metrics \<Rightarrow> (js_error + read_dto) \<times> ('c \<times> cache_metrics)" where
  "serve D req st = (case req of (now, tab, q) \<Rightarrow>
     (case read_endpoint D now q \<lparr>rw_cache = fst st, rw_metrics = snd st, rw_sessions = tab\<rparr> of
        (r, w) \<Rightarrow> (r, (rw_cache w, rw_metrics w))))"

definition serve_all :: "'c read_deps \<Rightarrow> read_request list \<Rightarrow> 'c \<times> cache_metrics \<Rightarrow> 'c \<times> cache_metrics" where
  "serve_all D reqs st = fold (\<lambda>req st. snd (serve D req st)) reqs st"

definition accounted :: "'c read_deps \<Rightarrow> (int \<Rightarrow> 'c \<Rightarrow> string \<Rightarrow> read_dto option) \<Rightarrow> read_request set \<Rightarrow> int \<Rightarrow> 'c \<Rightarrow> bool" where
  "accounted D present past now c \<longleftrightarrow> (\<forall>u k v. now \<le> u \<longrightarrow> present u c k = Some v \<longrightarrow>
     (\<exists>(t, tab, q) \<in> past. query_key (rp_host D) q = k \<and> u < t + query_ttl q \<and> fst (query_fetch D t q tab) = Inr v))"

lemma accounted_get:
  assumes "cache_ok C present" "accounted D present past now c" "ch_get C now k c = (x, c')"
  shows "accounted D present past now c'"
  using assms(2) cache_get_keeps [OF assms(1,3)] unfolding accounted_def by blast

lemma accounted_set:
  assumes "cache_ok C present" "accounted D present past now c"
    and "ch_set C now (query_key (rp_host D) q) v (query_ttl q) c = (x, c')" "fst (query_fetch D now q tab) = Inr v"
  shows "accounted D present (insert (now, tab, q) past) now c'"
  unfolding accounted_def
proof (intro allI impI)
  fix u k w
  assume u: "now \<le> u" and p: "present u c' k = Some w"
  from cache_setD [OF assms(1,3) u p]
  show "\<exists>(t, tab, q) \<in> insert (now, tab, q) past. query_key (rp_host D) q = k \<and> u < t + query_ttl q \<and> fst (query_fetch D t q tab) = Inr w"
  proof
    assume "k = query_key (rp_host D) q \<and> w = v \<and> u < now + query_ttl q"
    then show ?thesis using assms(4) by auto
  next
    assume "present u c k = Some w"
    then show ?thesis using assms(2) u unfolding accounted_def by blast
  qed
qed

lemma serve_step:
  assumes C: "cache_ok (rp_cache D) present" and inv: "accounted D present past now (fst st)"
    and s: "serve D (now, tab, q) st = (r, st')"
  shows "accounted D present (insert (now, tab, q) past) now (fst st') \<and>
    (\<forall>v. r = Inr v \<longrightarrow> fst (query_fetch D now q tab) = Inr v \<or> present now (fst st) (query_key (rp_host D) q) = Some v)"
proof -
  let ?k = "query_key (rp_host D) q"
  have more: "accounted D present past now c \<Longrightarrow> accounted D present (insert (now, tab, q) past) now c" for c
    unfolding accounted_def by blast
  obtain x c1 where g: "ch_get (rp_cache D) now ?k (fst st) = (x, c1)" by fastforce
  note inv1 = accounted_get [OF C inv g]
  show ?thesis
  proof (cases x)
    case (Inl e)
    then have "r = Inl e" "fst st' = c1" using s g by (auto simp: serve_def read_endpoint_def on_cache_def zoom_def)
    then show ?thesis using more [OF inv1] by simp
  next
    case (Inr cached)
    show ?thesis
    proof (cases cached)
      case (Some v)
      then have "r = Inr v" "fst st' = c1"
        using s g Inr by (auto simp: serve_def read_endpoint_def on_cache_def on_metrics_def act_defs)
      then show ?thesis using more [OF inv1] cache_get_present [OF C] g Inr Some by simp
    next
      case None
      obtain y tab' where f: "query_fetch D now q tab = (y, tab')" by fastforce
      show ?thesis
      proof (cases y)
        case (Inl e)
        then have "r = Inl e" "fst st' = c1"
          using s g Inr None f by (auto simp: serve_def read_endpoint_def on_cache_def on_metrics_def on_session_rows_def act_defs)
        then show ?thesis using more [OF inv1] by simp
      next
        case y: (Inr v)
        obtain z c2 where e: "ch_set (rp_cache D) now ?k v (query_ttl q) c1 = (z, c2)" by fastforce
        have "fst st' = c2" "\<forall>w. r = Inr w \<longrightarrow> w = v"
          using s g Inr None f y e
          by (auto simp: serve_def read_endpoint_def on_cache_def on_metrics_def on_session_rows_def act_defs split: sum.splits)
        then show ?thesis using accounted_set [OF C inv1 e, of tab] f y by simp
      qed
    qed
  qed
qed

lemma serve_all_accounted:
  assumes C: "cache_ok (rp_cache D) present"
  shows "accounted D present past now (fst st) \<Longrightarrow> sorted_wrt (\<le>) (now # map fst reqs) \<Longrightarrow>
    accounted D present (set reqs \<union> past) (last (now # map fst reqs)) (fst (serve_all D reqs st))"
proof (induction reqs arbitrary: past now st)
  case (Cons req reqs)
  obtain t tab q where req: "req = (t, tab, q)" using prod_cases3 by blast
  obtain r st' where s: "serve D req st = (r, st')" by (rule prod.exhaust)
  have "accounted D present past t (fst st)" using Cons.prems by (auto simp: req accounted_def)
  then have "accounted D present (insert req past) t (fst st')" using serve_step [OF C] s by (simp add: req)
  then have "accounted D present (set reqs \<union> insert req past) (last (t # map fst reqs)) (fst (serve_all D reqs st'))"
    using Cons.prems(2) by (intro Cons.IH) (simp_all add: req)
  then show ?case using s by (simp add: req serve_all_def)
qed (simp add: serve_all_def)

text \<open>
  C27: every answer of the read endpoints is what a fresh read gave, at a moment no further back than
  the endpoint's time to live, for a request with the same cache key, whatever the cache forgets
  and whichever queries came between.  For the achievements and the summary that request was the
  same query.  For the history it was one for the same player and page, provided that page numbers
  are whole and neither request names a player called \<^verbatim>\<open>all\<close>, whose key is that of the unfiltered
  history.
\<close>

theorem read_answers_recent:
  assumes C: "cache_ok (rp_cache D) present" and empty: "\<forall>u k. present u (fst st) k = None"
    and order: "sorted_wrt (\<le>) (map fst (reqs @ [(now, tab, q)]))"
    and ans: "fst (serve D (now, tab, q) (serve_all D reqs st)) = Inr v"
  shows "\<exists>(t, tab', q') \<in> set (reqs @ [(now, tab, q)]). t \<le> now \<and> now < t + query_ttl q \<and>
    fst (query_fetch D t q' tab') = Inr v \<and> query_key (rp_host D) q' = query_key (rp_host D) q \<and>
    ((\<forall>p s k. q \<noteq> HistoryOf p s k) \<longrightarrow> q' = q) \<and>
    (query_ok (rp_host D) q \<and> query_ok (rp_host D) q' \<longrightarrow> fst (query_fetch D t q tab') = Inr v)"
proof -
  let ?st = "serve_all D reqs st"
  obtain r st' where s: "serve D (now, tab, q) ?st = (r, st')" by (rule prod.exhaust)
  obtain first where f: "\<forall>t \<in> set (map fst reqs). first \<le> t" "first \<le> now"
    using order by (cases reqs) (auto simp: sorted_wrt_append)
  have inv: "accounted D present (set reqs) now (fst ?st)"
  proof -
    have "accounted D present {} first (fst st)" using empty by (simp add: accounted_def)
    moreover have "sorted_wrt (\<le>) (first # map fst reqs)" using f(1) order by (auto simp: sorted_wrt_append)
    ultimately have "accounted D present (set reqs \<union> {}) (last (first # map fst reqs)) (fst ?st)"
      by (rule serve_all_accounted [OF C])
    moreover have "last (first # map fst reqs) \<le> now" using f(2) order by (auto simp: sorted_wrt_append last_map)
    ultimately show ?thesis by (auto simp: accounted_def)
  qed
  have "0 < query_ttl q" by (cases q) simp_all
  from serve_step [OF C inv s] ans s have "fst (query_fetch D now q tab) = Inr v \<or> present now (fst ?st) (query_key (rp_host D) q) = Some v" by simp
  then show ?thesis
  proof
    assume "fst (query_fetch D now q tab) = Inr v"
    then show ?thesis using \<open>0 < query_ttl q\<close> by (intro bexI [of _ "(now, tab, q)"]) simp_all
  next
    assume "present now (fst ?st) (query_key (rp_host D) q) = Some v"
    then obtain t tab' q' where p: "(t, tab', q') \<in> set reqs" "query_key (rp_host D) q' = query_key (rp_host D) q"
        "now < t + query_ttl q'" "fst (query_fetch D t q' tab') = Inr v"
      using inv unfolding accounted_def by blast
    have "query_ttl q' = query_ttl q" "(\<forall>p s k. q \<noteq> HistoryOf p s k) \<longrightarrow> q' = q" using query_key_endpoint [OF p(2)] by auto
    moreover have "query_ok (rp_host D) q \<and> query_ok (rp_host D) q' \<longrightarrow> query_fetch D t q' = query_fetch D t q"
      using query_key_inj [of D q' q t] p(2) by blast
    moreover have "t \<le> now" using p(1) order by (force simp: sorted_wrt_append)
    ultimately show ?thesis using p by (intro bexI [of _ "(t, tab', q')"]) auto
  qed
qed

text \<open>A cache in memory, and a table that is paginated as the mapper does it.\<close>

type_synonym mem_cache = "string \<Rightarrow> (read_dto \<times> int) option"

definition mem_present :: "int \<Rightarrow> mem_cache \<Rightarrow> string \<Rightarrow> read_dto option" where
  "mem_present t c k = (case c k of None \<Rightarrow> None | Some (v, e) \<Rightarrow> if t < e then Some v else None)"

definition mem_cache_ops :: "(mem_cache, read_dto) cache" where
  "mem_cache_ops = \<lparr>ch_get = (\<lambda>t k c. (Inr (mem_present t c k), c)), ch_set = (\<lambda>t k v ttl c. (Inr (), c(k \<mapsto> (v, t + ttl)))),
     ch_del = (\<lambda>t k c. (Inr (), c(k := None)))\<rparr>"

lemma mem_cache_ok: "cache_ok mem_cache_ops mem_present"
  by (auto simp: cache_ok_def cache_get_ok_def cache_set_ok_def cache_del_ok_def mem_cache_ops_def mem_present_def
      split: option.splits if_splits)

definition mem_reads :: "mem_cache read_deps" where
  "mem_reads = \<lparr>rp_host = plain_host, rp_sessions = mem_repo sp_id (\<lambda>i s. s\<lparr>sp_id := Some i\<rparr>),
     rp_findAndCount = (\<lambda>P skip take' t. let rows = sort_by newest_session (filter P t)
        in (Inr (take (nat (num_floor take')) (drop (nat (num_floor skip)) rows), length rows), t)),
     rp_cache = mem_cache_ops, rp_iso = show_int, rp_dateString = show_int\<rparr>"

definition a_session :: "nat \<Rightarrow> string \<Rightarrow> string \<Rightarrow> int \<Rightarrow> SessionProjectionEntity" where
  "a_session i player status t = \<lparr>sp_id = Some i, sp_network = ''testnet'', sp_sessionId = show_nat i, sp_player = player, sp_dayId = num 1,
     sp_status = status, sp_attemptsUsed = num 3, sp_finalized = True, sp_schemaVersion = 1, sp_updatedAt = Some t\<rparr>"

abbreviation no_requests :: "mem_cache \<times> cache_metrics" where
  "no_requests \<equiv> (\<lambda>_. None, [])"

text \<open>Nine seconds after the first read the table has a second session; the answer is the first one.\<close>

theorem read_answers_recent_witness:
  "fst (serve mem_reads (9000, [a_session 1 ''p'' ''Won'' 0, a_session 2 ''p'' ''Won'' 5], HistoryOf None None None)
     (serve_all mem_reads [(0, [a_session 1 ''p'' ''Won'' 0], HistoryOf None None None)] no_requests)) =
   fst (query_fetch mem_reads 0 (HistoryOf None None None) [a_session 1 ''p'' ''Won'' 0]) \<and>
   (\<exists>t tab'. t \<le> 9000 \<and> 9000 < t + 10000 \<and> fst (query_fetch mem_reads t (HistoryOf None None None) tab') =
     fst (query_fetch mem_reads 0 (HistoryOf None None None) [a_session 1 ''p'' ''Won'' 0]))"
proof -
  let ?q = "HistoryOf None None None" and ?t1 = "[a_session 1 ''p'' ''Won'' 0]" and ?t2 = "[a_session 1 ''p'' ''Won'' 0, a_session 2 ''p'' ''Won'' 5]"
  let ?D = mem_reads and ?v = "fst (query_fetch mem_reads 0 (HistoryOf None None None) [a_session 1 ''p'' ''Won'' 0])"
  have a: "fst (serve ?D (9000, ?t2, ?q) (serve_all ?D [(0, ?t1, ?q)] no_requests)) = ?v" by code_simp
  have "\<not> isl ?v" by code_simp
  then obtain v where v: "?v = Inr v" by (cases ?v) simp_all
  have "page_skip plain_host None = num 0" "page_take plain_host None = num 20" by code_simp+
  then have "whole (page_skip plain_host None)" "whole (page_take plain_host None)"
    using whole_num [of 0] whole_num [of 20] by simp_all
  then have ok: "query_ok (rp_host ?D) ?q" by (simp add: mem_reads_def)
  have C: "cache_ok (rp_cache ?D) mem_present" using mem_cache_ok by (simp add: mem_reads_def)
  have e: "\<forall>u k. mem_present u (fst no_requests) k = None" by (simp add: mem_present_def)
  have o: "sorted_wrt (\<le>) (map fst ([(0 :: int, ?t1, ?q)] @ [(9000, ?t2, ?q)]))" by simp
  have "fst (serve ?D (9000, ?t2, ?q) (serve_all ?D [(0, ?t1, ?q)] no_requests)) = Inr v" using a v by simp
  from read_answers_recent [OF C e o this] have "\<exists>t tab'. t \<le> 9000 \<and> 9000 < t + query_ttl ?q \<and> fst (query_fetch ?D t ?q tab') = Inr v"
    using ok by auto
  then show ?thesis using a v by auto
qed

text \<open>
  A request for a player called \<^verbatim>\<open>all\<close> has the key of the unfiltered history: its empty answer is
  served to everybody who asks for the history within ten seconds.
\<close>

lemma all_player_shadows:
  "let tab = [a_session 1 ''p'' ''Won'' 0]; st = serve_all mem_reads [(0, tab, HistoryOf (Some ''all'') None None)] no_requests in
   fst (serve mem_reads (5, tab, HistoryOf None None None) st) = Inr (HistoryDto \<lparr>hd_sessions = [], hd_total = 0, hd_skip = num 0, hd_take = num 20\<rparr>) \<and>
   fst (serve mem_reads (5, tab, HistoryOf None None None) no_requests) \<noteq> fst (serve mem_reads (5, tab, HistoryOf None None None) st)"
  by code_simp

section \<open>What the summary counts\<close>

lemma recent_streak_recent: "recent_streak today ds \<le> length (filter (\<lambda>d. today - d < 2 * MS_PER_DAY) ds)"
proof (induction ds)
  case (Cons d ds)
  have "(today - d) div MS_PER_DAY \<le> 1 \<longleftrightarrow> today - d < 2 * MS_PER_DAY" by (simp add: MS_PER_DAY_def) linarith
  then show ?case using Cons by auto
qed simp

text \<open>
  The streak of a summary, current and longest, never exceeds the number of the player's
  finalized sessions of the last two days, and a finalized session counts as a win only if its
  status is \<^verbatim>\<open>Finalized\<close>: one that was projected from an event with the status \<^verbatim>\<open>Won\<close> does not.
\<close>

theorem summary_streak_bound:
  "py_currentStreak (player_summary D now address sessions) \<le>
      length (filter (\<lambda>s. sp_finalized s \<and> (case sp_updatedAt s of Some d \<Rightarrow> now - d < 2 * MS_PER_DAY | None \<Rightarrow> False)) sessions) \<and>
   py_longestStreak (player_summary D now address sessions) = py_currentStreak (player_summary D now address sessions) \<and>
   py_totalWins (player_summary D now address
     (create_projection h (event\<lparr>ev_payload := (''status'', Str ''Won'') # payload\<rparr>) sid old # sessions)) =
   py_totalWins (player_summary D now address sessions)"
proof -
  let ?fin = "filter sp_finalized sessions" and ?P = "\<lambda>d. now - d < 2 * MS_PER_DAY"
  have "length (filter ?P (sorted_dates (rp_dateString D) ?fin)) = length (filter ?P (List.map_filter sp_updatedAt ?fin))"
    unfolding sorted_dates_def by (metis mset_filter mset_rev mset_sort_by size_mset)
  moreover have "length (filter ?P (List.map_filter sp_updatedAt ts)) =
      length (filter (\<lambda>s. case sp_updatedAt s of Some d \<Rightarrow> ?P d | None \<Rightarrow> False) ts)" for ts :: "SessionProjectionEntity list"
    by (induction ts) (auto simp: List.map_filter_simps split: option.splits)
  ultimately have "length (filter ?P (sorted_dates (rp_dateString D) ?fin)) =
      length (filter (\<lambda>s. sp_finalized s \<and> (case sp_updatedAt s of Some d \<Rightarrow> ?P d | None \<Rightarrow> False)) sessions)" by simp
  then have "recent_streak now (sorted_dates (rp_dateString D) ?fin) \<le>
      length (filter (\<lambda>s. sp_finalized s \<and> (case sp_updatedAt s of Some d \<Rightarrow> ?P d | None \<Rightarrow> False)) sessions)"
    using recent_streak_recent [of now "sorted_dates (rp_dateString D) ?fin"] by linarith
  moreover have "sp_status (create_projection h (event\<lparr>ev_payload := (''status'', Str ''Won'') # payload\<rparr>) sid old) = ''Won''"
    by (simp add: create_projection_def readStringField_def get_prop_def)
  ultimately show ?thesis unfolding player_summary_def Let_def by simp
qed

text \<open>Ten days in a row are a streak of two.\<close>

definition day_printed :: "mem_cache read_deps" where
  "day_printed = mem_reads\<lparr>rp_iso := (\<lambda>_. []), rp_dateString := (\<lambda>t. show_int (t div MS_PER_DAY))\<rparr>"

lemma ten_day_streak:
  "py_longestStreak (player_summary day_printed (10 * MS_PER_DAY) ''p'' (map (\<lambda>i. a_session i ''p'' ''Won'' (int i * MS_PER_DAY + 1)) [0..<10])) = 2"
  by code_simp

text \<open>The dates are compared as printed, so a weekday late in the alphabet hides today's game.\<close>

lemma weekday_order:
  "recent_streak (4 * MS_PER_DAY) (sorted_dates (\<lambda>t. if t = 0 then ''Thu Jan 01'' else ''Mon Jan 05'')
     [a_session 1 ''p'' ''Won'' 0, a_session 2 ''p'' ''Won'' (4 * MS_PER_DAY)]) = 0"
  by code_simp

end
