(* ===== verification/Digest_Template.thy ===== *)
theory Digest_Template
  imports Js_Values
begin

text \<open>
  The template of the weekly mail (\<^verbatim>\<open>digest/digest-template.ts\<close>): the scan for placeholders, the
  escaped replacement, and the check of a template before it is stored.  The patterns have no
  real choice points: a word character is no white space, and neither is a brace.
\<close>

section \<open>Placeholders\<close>

definition DIGEST_PLACEHOLDERS :: "string list" where
  "DIGEST_PLACEHOLDERS = [''name'', ''gamesPlayed'', ''winRate'', ''streak'', ''rank'', ''rankChange'']"

definition DEFAULT_DIGEST_SUBJECT :: string where
  "DEFAULT_DIGEST_SUBJECT = ''Your DeWordle week in review''"

definition DEFAULT_DIGEST_HTML :: string where
  \<open>DEFAULT_DIGEST_HTML = intersperse [CHR 0x0A]
    [''<div style="font-family:Arial,Helvetica,sans-serif;max-width:520px;margin:0 auto;padding:24px;background:#0b1020;color:#ffffff;">'',
     ''  <h1 style="margin:0 0 8px;font-size:22px;color:#ffffff;">Hi {{name}}, here is your week</h1>'',
     ''  <p style="margin:0 0 16px;color:#b8c0d9;">A quick look at how you played over the last 7 days.</p>'',
     ''  <table role="presentation" width="100%" style="border-collapse:collapse;">'',
     ''    <tr><td style="padding:10px;background:#151c33;color:#b8c0d9;">Games played</td><td style="padding:10px;background:#151c33;text-align:right;font-weight:bold;">{{gamesPlayed}}</td></tr>'',
     ''    <tr><td style="padding:10px;background:#1b2340;color:#b8c0d9;">Win rate</td><td style="padding:10px;background:#1b2340;text-align:right;font-weight:bold;">{{winRate}}</td></tr>'',
     ''    <tr><td style="padding:10px;background:#151c33;color:#b8c0d9;">Streak</td><td style="padding:10px;background:#151c33;text-align:right;font-weight:bold;">{{streak}}</td></tr>'',
     ''    <tr><td style="padding:10px;background:#1b2340;color:#b8c0d9;">Rank</td><td style="padding:10px;background:#1b2340;text-align:right;font-weight:bold;">{{rank}} ({{rankChange}})</td></tr>'',
     ''  </table>'',
     ''  <p style="margin:16px 0 0;font-size:12px;color:#8a93b2;">You can turn this email off in your profile settings.</p>'',
     ''</div>'']\<close>

definition word_char :: "char \<Rightarrow> bool" where
  "word_char c \<longleftrightarrow> is_letter c \<or> is_digit c \<or> c = CHR ''_''"

text \<open>\<^verbatim>\<open>{{\s*(\w+)\s*}}\<close> at the start of a text: the matched text, the key, and the rest.\<close>

definition match_placeholder :: "string \<Rightarrow> (string \<times> string \<times> string) option" where
  "match_placeholder s =
    (if take 2 s \<noteq> ''{{'' then None
     else (let r = dropWhile js_space (drop 2 s); key = takeWhile word_char r; r' = dropWhile js_space (dropWhile word_char r)
       in if key \<noteq> [] \<and> take 2 r' = ''}}'' then Some (take (length s - length (drop 2 r')) s, key, drop 2 r') else None))"

lemma match_placeholder_shorter: "match_placeholder s = Some (m, key, r) \<Longrightarrow> length r < length s"
proof -
  assume a: "match_placeholder s = Some (m, key, r)"
  then have t: "take 2 s = ''{{''" by (simp add: match_placeholder_def split: if_splits)
  then have "2 \<le> length s" by (metis length_take list.size(3,4) min.cobounded1 numeral_2_eq_2 One_nat_def add_0 plus_1_eq_Suc)
  have "r = drop 2 (dropWhile js_space (dropWhile word_char (dropWhile js_space (drop 2 s))))"
    using a by (simp add: match_placeholder_def Let_def split: if_splits)
  then have "length r \<le> length (drop 2 s)"
    using length_dropWhile_le [of js_space "dropWhile word_char (dropWhile js_space (drop 2 s))"]
      length_dropWhile_le [of word_char "dropWhile js_space (drop 2 s)"] length_dropWhile_le [of js_space "drop 2 s"] by simp
  then show ?thesis using \<open>2 \<le> length s\<close> by simp
qed

text \<open>A text as literal characters and placeholders, found from the left as \<^verbatim>\<open>replace\<close> finds them.\<close>

datatype piece = Literal char | Placeholder string string

function pieces :: "string \<Rightarrow> piece list" where
  "pieces [] = []"
| "pieces (c # s) = (case match_placeholder (c # s) of
      Some (m, key, r) \<Rightarrow> Placeholder m key # pieces r
    | None \<Rightarrow> Literal c # pieces s)"
  by pat_completeness auto
termination
  by (relation "measure length") (auto dest: match_placeholder_shorter)

section \<open>Rendering\<close>

fun escape_char :: "char \<Rightarrow> string" where
  "escape_char c = (if c = CHR ''&'' then ''&amp;'' else if c = CHR ''<'' then ''&lt;'' else if c = CHR ''>'' then ''&gt;''
     else if c = CHR 0x22 then ''&quot;'' else if c = CHR 0x27 then ''&#39;'' else [c])"

text \<open>The five replacements one after the other; the first one is done before any entity is written.\<close>

definition replace_char :: "char \<Rightarrow> string \<Rightarrow> string \<Rightarrow> string" where
  "replace_char c r s = concat (map (\<lambda>x. if x = c then r else [x]) s)"

definition escapeHtml :: "string \<Rightarrow> string" where
  "escapeHtml value = replace_char (CHR 0x27) ''&#39;'' (replace_char (CHR 0x22) ''&quot;''
     (replace_char (CHR ''>'') ''&gt;'' (replace_char (CHR ''<'') ''&lt;'' (replace_char (CHR ''&'') ''&amp;'' value))))"

text \<open>
  The operator \<^verbatim>\<open>in\<close> finds the inherited names too; their values are no strings, and replacing in
  them throws.
\<close>

definition inherited_names :: "string list" where
  "inherited_names = [''constructor'', ''__defineGetter__'', ''__defineSetter__'', ''hasOwnProperty'', ''__lookupGetter__'',
     ''__lookupSetter__'', ''isPrototypeOf'', ''propertyIsEnumerable'', ''toString'', ''valueOf'', ''__proto__'', ''toLocaleString'']"

definition not_a_function :: js_error where
  "not_a_function = JsError ''TypeError'' ''value.replace is not a function'' []"

fun render_pieces :: "(string \<times> string) list \<Rightarrow> piece list \<Rightarrow> js_error + string" where
  "render_pieces vals [] = Inr []"
| "render_pieces vals (Literal c # ps) = (case render_pieces vals ps of Inl e \<Rightarrow> Inl e | Inr s \<Rightarrow> Inr (c # s))"
| "render_pieces vals (Placeholder m key # ps) =
     (case map_of vals key of
        Some v \<Rightarrow> (case render_pieces vals ps of Inl e \<Rightarrow> Inl e | Inr s \<Rightarrow> Inr (escapeHtml v @ s))
      | None \<Rightarrow> if key \<in> set inherited_names then Inl not_a_function
          else (case render_pieces vals ps of Inl e \<Rightarrow> Inl e | Inr s \<Rightarrow> Inr (m @ s)))"

definition renderDigestTemplate :: "string \<Rightarrow> (string \<times> string) list \<Rightarrow> js_error + string" where
  "renderDigestTemplate template vals = render_pieces vals (pieces template)"

section \<open>The check of a template\<close>

definition starts_with :: "string \<Rightarrow> string \<Rightarrow> bool" where
  "starts_with p s \<longleftrightarrow> take (length p) s = p"

text \<open>\<^verbatim>\<open><\s*script\<close> and \<^verbatim>\<open>\son\w+\s*=\<close>, both without regard to case, at the start of a text.\<close>

definition script_at :: "string \<Rightarrow> bool" where
  "script_at s \<longleftrightarrow> (case s of [] \<Rightarrow> False | c # r \<Rightarrow> c = CHR ''<'' \<and> starts_with ''script'' (toLowerCase (dropWhile js_space r)))"

definition handler_at :: "string \<Rightarrow> bool" where
  "handler_at s \<longleftrightarrow> (case s of [] \<Rightarrow> False | c # r \<Rightarrow> js_space c \<and> starts_with ''on'' (toLowerCase r) \<and>
     takeWhile word_char (drop 2 r) \<noteq> [] \<and> starts_with ''='' (dropWhile js_space (dropWhile word_char (drop 2 r))))"

fun anywhere :: "(string \<Rightarrow> bool) \<Rightarrow> string \<Rightarrow> bool" where
  "anywhere P [] = P []"
| "anywhere P (c # s) = (P (c # s) \<or> anywhere P s)"

definition placeholder_keys :: "string \<Rightarrow> string list" where
  "placeholder_keys s = List.map_filter (\<lambda>p. case p of Placeholder _ key \<Rightarrow> Some key | Literal _ \<Rightarrow> None) (pieces s)"

definition validateDigestTemplate :: "string \<Rightarrow> string \<Rightarrow> string option" where
  "validateDigestTemplate subject html =
    (if anywhere script_at html \<or> anywhere handler_at html
     then Some ''Template must not contain scripts or inline event handlers''
     else (let unknown = filter (\<lambda>k. k \<notin> set DIGEST_PLACEHOLDERS) (placeholder_keys (subject @ html)) in
       if unknown \<noteq> [] then Some (''Unknown placeholder(s): '' @ intersperse '', '' (set_of unknown)) else None))"

section \<open>Lemmas\<close>

lemma pieces_keys: "placeholder_keys s = [key. Placeholder m key \<leftarrow> pieces s]"
proof -
  have "List.map_filter (\<lambda>p. case p of Placeholder _ key \<Rightarrow> Some key | Literal _ \<Rightarrow> None) ps = [key. Placeholder m key \<leftarrow> ps]" for ps
    by (induction ps) (auto simp: List.map_filter_simps split: piece.splits)
  then show ?thesis by (simp add: placeholder_keys_def)
qed

text \<open>The pieces of a text are the text.\<close>

fun piece_text :: "piece \<Rightarrow> string" where
  "piece_text (Literal c) = [c]"
| "piece_text (Placeholder m _) = m"

lemma dropWhile_rest: "\<exists>p. s = p @ dropWhile P s"
  by (metis takeWhile_dropWhile_id)

lemma match_placeholder_parts:
  assumes "match_placeholder s = Some (m, key, r)"
  shows "s = m @ r \<and> key \<noteq> [] \<and> list_all word_char key \<and>
    (\<exists>sp sp'. m = ''{{'' @ sp @ key @ sp' @ ''}}'' \<and> list_all js_space sp \<and> list_all js_space sp')"
proof -
  let ?r = "drop 2 s"
  let ?sp = "takeWhile js_space ?r" and ?r1 = "dropWhile js_space ?r"
  let ?r2 = "dropWhile word_char ?r1"
  let ?sp' = "takeWhile js_space ?r2" and ?r3 = "dropWhile js_space ?r2"
  have a: "take 2 s = ''{{''" "key = takeWhile word_char ?r1" "key \<noteq> []" "take 2 ?r3 = ''}}''" "r = drop 2 ?r3"
    "m = take (length s - length r) s"
    using assms by (auto simp: match_placeholder_def Let_def split: if_splits)
  have "s = ''{{'' @ ?r" using a(1) by (metis append_take_drop_id)
  moreover have "?r = ?sp @ key @ ?sp' @ ?r3" using a(2) by simp
  moreover have "?r3 = ''}}'' @ r" using a(4,5) by (metis append_take_drop_id)
  ultimately have s: "s = (''{{'' @ ?sp @ key @ ?sp' @ ''}}'') @ r" by (metis append.assoc)
  then have m: "m = ''{{'' @ ?sp @ key @ ?sp' @ ''}}''" using a(6) by (metis append_eq_conv_conj length_append add_diff_cancel_right')
  have "list_all word_char key" "list_all js_space ?sp" "list_all js_space ?sp'"
    using a(2) by (auto simp: list_all_iff dest: set_takeWhileD)
  then show ?thesis using s m a(3) by blast
qed

lemma pieces_text: "concat (map piece_text (pieces s)) = s"
proof (induction s rule: pieces.induct)
  case (2 c s)
  then show ?case by (auto dest: match_placeholder_parts split: option.splits)
qed simp

lemma escapeHtml_chars: "escapeHtml v = concat (map escape_char v)"
proof -
  have r: "replace_char c r (xs @ ys) = replace_char c r xs @ replace_char c r ys" for c r xs ys
    by (simp add: replace_char_def)
  have one: "escapeHtml [c] = escape_char c" for c
    by (simp add: escapeHtml_def replace_char_def)
  have "escapeHtml (c # v) = escapeHtml [c] @ escapeHtml v" for c v
    using r [of _ _ "[c]" v] unfolding escapeHtml_def by (metis append_Cons append_Nil r)
  then have "escapeHtml (c # v) = escape_char c @ escapeHtml v" for c v by (simp only: one)
  moreover have "escapeHtml [] = []" by (simp add: escapeHtml_def replace_char_def)
  ultimately show ?thesis by (induction v) simp_all
qed

definition markup_char :: "char \<Rightarrow> bool" where
  "markup_char c \<longleftrightarrow> c = CHR ''<'' \<or> c = CHR ''>'' \<or> c = CHR 0x22 \<or> c = CHR 0x27"

lemma escape_no_markup: "filter markup_char (escapeHtml v) = []"
  unfolding escapeHtml_chars by (induction v) (auto simp: markup_char_def)

lemma not_markup: "word_char c \<Longrightarrow> \<not> markup_char c" "js_space c \<Longrightarrow> \<not> markup_char c"
  by (auto simp: markup_char_def word_char_def is_letter_def char_in_def is_digit_def char_between js_space_def)

lemma placeholder_no_markup: "match_placeholder s = Some (m, key, r) \<Longrightarrow> filter markup_char m = []"
proof -
  assume "match_placeholder s = Some (m, key, r)"
  then obtain sp sp' where m: "m = ''{{'' @ sp @ key @ sp' @ ''}}''" "list_all word_char key" "list_all js_space sp" "list_all js_space sp'"
    using match_placeholder_parts by blast
  have "filter markup_char xs = []" if "list_all js_space xs \<or> list_all word_char xs" for xs
    using that not_markup by (auto simp: list_all_iff filter_empty_conv)
  then show ?thesis using m by (simp add: markup_char_def)
qed

lemma render_placeholder:
  assumes "render_pieces vals (Placeholder m key # ps) = Inr out"
  shows "\<exists>u out'. render_pieces vals ps = Inr out' \<and> out = u @ out' \<and> (u = m \<or> (\<exists>v. u = escapeHtml v))"
proof (cases "render_pieces vals ps")
  case (Inl e)
  then show ?thesis using assms by (simp split: option.splits if_splits)
next
  case (Inr out')
  then show ?thesis using assms by (auto split: option.splits if_splits)
qed

lemma render_markup: "render_pieces vals (pieces t) = Inr out \<Longrightarrow> filter markup_char out = filter markup_char t"
proof (induction t arbitrary: out rule: pieces.induct)
  case (2 c s)
  show ?case
  proof (cases "match_placeholder (c # s)")
    case None
    then obtain o' where "render_pieces vals (pieces s) = Inr o'" "out = c # o'" using "2.prems" by (auto split: sum.splits)
    then show ?thesis using "2.IH"(1) [OF None] by simp
  next
    case (Some x)
    obtain m key r where "x = (m, key, r)" by (rule prod_cases3)
    then have x: "match_placeholder (c # s) = Some (m, key, r)" using Some by simp
    note M = placeholder_no_markup [OF x]
    obtain o' u where o: "render_pieces vals (pieces r) = Inr o'" "out = u @ o'" "u = m \<or> (\<exists>v. u = escapeHtml v)"
      using "2.prems" render_placeholder [of "vals" m key "pieces r" out] x by auto
    have "c # s = m @ r" using match_placeholder_parts [OF x] by blast
    moreover have "filter markup_char u = []" using o(3) M escape_no_markup by auto
    moreover have "filter markup_char o' = filter markup_char r" using "2.IH"(2) [OF x] o(1) by blast
    ultimately show ?thesis using o(2) M by (metis append_Nil filter_append)
  qed
qed simp

section \<open>Properties\<close>

text \<open>
  C26: whatever the values are, a rendered template has the markup characters of the template,
  one for one and in the same order: no value can open a tag, close one, or leave an attribute.
  A template that was accepted for storage is always rendered.
\<close>

theorem render_adds_no_markup:
  shows "(renderDigestTemplate template vals = Inr out \<longrightarrow> filter markup_char out = filter markup_char template) \<and>
    (validateDigestTemplate [] template = None \<longrightarrow> map fst vals = DIGEST_PLACEHOLDERS \<longrightarrow> \<not> isl (renderDigestTemplate template vals))"
proof (intro conjI impI)
  assume "renderDigestTemplate template vals = Inr out"
  then show "filter markup_char out = filter markup_char template" unfolding renderDigestTemplate_def by (rule render_markup)
next
  assume v: "validateDigestTemplate [] template = None" and k: "map fst vals = DIGEST_PLACEHOLDERS"
  have "\<forall>key \<in> set (placeholder_keys template). key \<in> set DIGEST_PLACEHOLDERS"
    using v by (auto simp: validateDigestTemplate_def Let_def filter_empty_conv split: if_splits)
  moreover have "key \<in> set (placeholder_keys template)" if "Placeholder m key \<in> set (pieces template)" for m key
    unfolding pieces_keys set_concat set_map using that by (auto intro!: bexI [of _ "Placeholder m key"])
  moreover have "map_of vals key \<noteq> None" if "key \<in> set DIGEST_PLACEHOLDERS" for key
    using that k by (metis map_of_eq_None_iff set_map)
  ultimately have "\<forall>m key. Placeholder m key \<in> set (pieces template) \<longrightarrow> map_of vals key \<noteq> None" by blast
  moreover have "\<forall>m key. Placeholder m key \<in> set ps \<longrightarrow> map_of vals key \<noteq> None \<Longrightarrow> \<not> isl (render_pieces vals ps)" for ps
    by (induction vals ps rule: render_pieces.induct) (fastforce split: sum.splits option.splits)+
  ultimately show "\<not> isl (renderDigestTemplate template vals)" by (simp add: renderDigestTemplate_def)
qed

theorem render_adds_no_markup_witness:
  "(case renderDigestTemplate ''<b>{{ name }}</b> {{streak}}'' (zip DIGEST_PLACEHOLDERS [''<i>&'', [], [], ''3'', [], []]) of
      Inl _ \<Rightarrow> False | Inr out \<Rightarrow> out = ''<b>&lt;i&gt;&amp;</b> 3'' \<and> filter markup_char out = ''<><>'') \<and>
   \<not> isl (renderDigestTemplate ''<b>{{ name }}</b> {{streak}}'' (zip DIGEST_PLACEHOLDERS [''<i>&'', [], [], ''3'', [], []]))"
proof -
  let ?t = "''<b>{{ name }}</b> {{streak}}''" and ?v = "zip DIGEST_PLACEHOLDERS [''<i>&'', [], [], ''3'', [], []]"
  have r: "renderDigestTemplate ?t ?v = Inr ''<b>&lt;i&gt;&amp;</b> 3''" by code_simp
  have c: "validateDigestTemplate [] ?t = None" "map fst ?v = DIGEST_PLACEHOLDERS" by code_simp+
  have "filter markup_char ?t = ''<><>''" by code_simp
  then show ?thesis using render_adds_no_markup [of ?t ?v "''<b>&lt;i&gt;&amp;</b> 3''"] r c by simp
qed

text \<open>The check of handlers wants white space before the name; a slash does as well.\<close>

lemma handler_after_slash: "validateDigestTemplate [] ''<svg/onload=alert(1)>'' = None"
  by code_simp

end
