(* ===== verification/Digest_Service.thy ===== *)
theory Digest_Service
  imports Digest_Template Js_Dates Js_Doubles User_Service Game_Sessions
begin

text \<open>
  The weekly mail (\<^verbatim>\<open>digest/digest-stats.ts\<close>, \<^verbatim>\<open>digest/digest.service.ts\<close>): the numbers of a player,
  the two queries over the sessions, and the run that sends each player one mail a week and
  records the delivery.  The mail transport, the tables of users and templates and the upsert of
  a delivery are parameters; a moment is a number of milliseconds.
\<close>

section \<open>The numbers of a week\<close>

record UserWeekRow =
  uw_userId :: nat
  uw_winsTotal :: nat
  uw_winsBeforeWeek :: nat
  uw_playedWeek :: nat
  uw_winsWeek :: nat
  uw_active :: bool

record DigestStats =
  ds_gamesPlayed :: nat
  ds_winRate :: int
  ds_streak :: nat
  ds_rank :: nat
  ds_rankChange :: int

definition rankFor :: "nat \<Rightarrow> nat list \<Rightarrow> nat" where
  "rankFor wins allWins = 1 + length (filter (\<lambda>w. wins < w) allWins)"

definition range_error :: js_error where
  "range_error = JsError ''RangeError'' ''Invalid time value'' []"

text \<open>The day \<^verbatim>\<open>offset\<close> days after a printed one.\<close>

definition shift_day :: "string \<Rightarrow> int \<Rightarrow> js_error + string" where
  "shift_day d offset = (case date_parse_midnight d of
      Fin r \<Rightarrow> Inr (iso_day (\<lfloor>r\<rfloor> div DAY_MS + offset))
    | _ \<Rightarrow> Inl range_error)"

text \<open>The loop of \<^verbatim>\<open>computeStreak\<close>: \<^verbatim>\<open>None\<close> is a loop that does not end.\<close>

partial_function (option) streak_back :: "string list \<Rightarrow> string \<Rightarrow> nat \<Rightarrow> (js_error + nat) option" where
  "streak_back days cursor streak =
    (if cursor \<in> set days then (case shift_day cursor (-1) of
        Inl e \<Rightarrow> Some (Inl e)
      | Inr c \<Rightarrow> streak_back days c (streak + 1))
     else Some (Inr streak))"

definition computeStreak :: "string list \<Rightarrow> string \<Rightarrow> (js_error + nat) option" where
  "computeStreak playedDays today =
    (if today \<in> set playedDays then streak_back playedDays today 0
     else (case shift_day today (-1) of Inl e \<Rightarrow> Some (Inl e) | Inr c \<Rightarrow> streak_back playedDays c 0))"

definition buildDigestStats :: "UserWeekRow \<Rightarrow> UserWeekRow list \<Rightarrow> nat \<Rightarrow> DigestStats" where
  "buildDigestStats row allRows streak =
    (let rankNow = rankFor (uw_winsTotal row) (map uw_winsTotal allRows);
         rankBefore = rankFor (uw_winsBeforeWeek row) (map uw_winsBeforeWeek allRows)
     in \<lparr>ds_gamesPlayed = uw_playedWeek row, ds_winRate = (if 0 < uw_playedWeek row then percent_d (uw_winsWeek row) (uw_playedWeek row) else 0), ds_streak = streak,
         ds_rank = rankNow, ds_rankChange = int rankBefore - int rankNow\<rparr>)"

definition describeRankChange :: "int \<Rightarrow> string" where
  "describeRankChange change = (if 0 < change then ''up '' @ show_int change
     else if change < 0 then ''down '' @ show_int (- change) else ''no change'')"

text \<open>The Monday of a moment's week; day 0 was a Thursday.\<close>

definition week_day :: "int \<Rightarrow> int" where
  "week_day n = (n + 4) mod 7"

definition week_start_day :: "int \<Rightarrow> int" where
  "week_start_day t = (let n = t div DAY_MS in n - (week_day n + 6) mod 7)"

definition weekStartOf :: "int \<Rightarrow> string" where
  "weekStartOf t = iso_day (week_start_day t)"

section \<open>The queries\<close>

definition players_of :: "GameSession list \<Rightarrow> nat list" where
  "players_of ss = set_of (List.map_filter gs_user ss)"

definition count_sessions :: "(GameSession \<Rightarrow> bool) \<Rightarrow> nat \<Rightarrow> GameSession list \<Rightarrow> nat" where
  "count_sessions P u ss = length (filter (\<lambda>s. gs_user s = Some u \<and> P s) ss)"

definition week_row :: "int \<Rightarrow> int \<Rightarrow> int \<Rightarrow> GameSession list \<Rightarrow> nat \<Rightarrow> UserWeekRow" where
  "week_row start stop activeSince ss u = \<lparr>uw_userId = u,
     uw_winsTotal = count_sessions (\<lambda>s. gs_status s = WON \<and> gs_playedAt s < stop) u ss,
     uw_winsBeforeWeek = count_sessions (\<lambda>s. gs_status s = WON \<and> gs_playedAt s < start) u ss,
     uw_playedWeek = count_sessions (\<lambda>s. gs_status s \<noteq> IN_PROGRESS \<and> start \<le> gs_playedAt s \<and> gs_playedAt s < stop) u ss,
     uw_winsWeek = count_sessions (\<lambda>s. gs_status s = WON \<and> start \<le> gs_playedAt s \<and> gs_playedAt s < stop) u ss,
     uw_active = (0 < count_sessions (\<lambda>s. gs_status s \<noteq> IN_PROGRESS \<and> activeSince \<le> gs_playedAt s \<and> gs_playedAt s < stop) u ss)\<rparr>"

definition loadWeekRows :: "int \<Rightarrow> int \<Rightarrow> int \<Rightarrow> GameSession list \<Rightarrow> UserWeekRow list" where
  "loadWeekRows start stop activeSince ss = map (week_row start stop activeSince ss) (players_of ss)"

definition loadPlayedDays :: "int \<Rightarrow> int \<Rightarrow> GameSession list \<Rightarrow> nat \<Rightarrow> string list" where
  "loadPlayedDays since stop ss u =
    set_of (map (\<lambda>s. iso_day (gs_playedAt s div DAY_MS))
      (filter (\<lambda>s. gs_user s = Some u \<and> gs_status s \<noteq> IN_PROGRESS \<and> since \<le> gs_playedAt s \<and> gs_playedAt s < stop) ss))"

section \<open>The run\<close>

definition ACTIVE_WINDOW_DAYS :: int where "ACTIVE_WINDOW_DAYS = 30"

record DigestDelivery =
  dd_userId :: nat
  dd_weekStart :: string
  dd_status :: string
  dd_error :: "string option"

record DigestTemplate =
  dt_id :: nat
  dt_subject :: string
  dt_bodyHtml :: string
  dt_updatedBy :: "string option"

record 'm digest_world =
  dw_users :: "User list"
  dw_sessions :: "GameSession list"
  dw_templates :: "DigestTemplate list"
  dw_deliveries :: "DigestDelivery list"
  dw_mails :: 'm

record 'm digest_deps =
  dg_users :: user_repo
  dg_sessions :: "(GameSession list, js_error, GameSession list) act"
  dg_templates :: "(DigestTemplate, js_error) repo"
  dg_findDelivery :: "nat \<Rightarrow> string \<Rightarrow> (DigestDelivery list, js_error, DigestDelivery option) act"
  dg_upsert :: "DigestDelivery \<Rightarrow> (DigestDelivery list, js_error, unit) act"
  dg_sendMail :: "string \<Rightarrow> string \<Rightarrow> string \<Rightarrow> ('m, js_error, bool) act"

type_synonym ('m, 'a) digest_act = "('m digest_world, js_error, 'a) act"

definition on_deliveries :: "(DigestDelivery list, js_error, 'a) act \<Rightarrow> ('m, 'a) digest_act" where
  "on_deliveries = zoom dw_deliveries (\<lambda>t w. w\<lparr>dw_deliveries := t\<rparr>)"

definition on_mails :: "('m, js_error, 'a) act \<Rightarrow> ('m, 'a) digest_act" where
  "on_mails = zoom dw_mails (\<lambda>t w. w\<lparr>dw_mails := t\<rparr>)"

definition getTemplate :: "'m digest_deps \<Rightarrow> ('m, string \<times> string) digest_act" where
  "getTemplate D = act_bind (zoom dw_templates (\<lambda>t w. w\<lparr>dw_templates := t\<rparr>) (r_findOne (dg_templates D) (\<lambda>t. dt_id t = 1)))
     (\<lambda>stored. act_ret (case stored of Some t \<Rightarrow> (dt_subject t, dt_bodyHtml t) | None \<Rightarrow> (DEFAULT_DIGEST_SUBJECT, DEFAULT_DIGEST_HTML)))"

definition updateTemplate :: "'m digest_deps \<Rightarrow> string \<Rightarrow> string \<Rightarrow> string \<Rightarrow> ('m, string \<times> string) digest_act" where
  "updateTemplate D subject bodyHtml updatedBy = (case validateDigestTemplate subject bodyHtml of
      Some problem \<Rightarrow> act_throw (BadRequestException problem)
    | None \<Rightarrow> act_seq (zoom dw_templates (\<lambda>t w. w\<lparr>dw_templates := t\<rparr>) (r_save (dg_templates D)
          \<lparr>dt_id = 1, dt_subject = subject, dt_bodyHtml = bodyHtml, dt_updatedBy = Some updatedBy\<rparr>))
        (act_ret (subject, bodyHtml)))"

definition record_delivery :: "'m digest_deps \<Rightarrow> nat \<Rightarrow> string \<Rightarrow> string \<Rightarrow> string option \<Rightarrow> ('m, unit) digest_act" where
  "record_delivery D userId weekStart outcome err =
    on_deliveries (dg_upsert D \<lparr>dd_userId = userId, dd_weekStart = weekStart, dd_status = outcome, dd_error = err\<rparr>)"

definition user_label :: "User \<Rightarrow> string" where
  "user_label user = (case us_username user of Some n \<Rightarrow> if n = [] then us_email user else n | None \<Rightarrow> us_email user)"

definition stat_values :: "User \<Rightarrow> DigestStats \<Rightarrow> string \<Rightarrow> (string \<times> string) list" where
  "stat_values user stats streak = [(''name'', user_label user), (''gamesPlayed'', show_nat (ds_gamesPlayed stats)),
     (''winRate'', show_int (ds_winRate stats) @ ''%''), (''streak'', streak), (''rank'', ''#'' @ show_nat (ds_rank stats)),
     (''rankChange'', describeRankChange (ds_rankChange stats))]"

definition mail_streak :: "nat \<Rightarrow> string" where
  "mail_streak k = show_nat k @ '' day'' @ (if k = 1 then [] else ''s'')"

definition lift_sum :: "js_error + 'a \<Rightarrow> ('m, 'a) digest_act" where
  "lift_sum r = (case r of Inl e \<Rightarrow> act_throw e | Inr a \<Rightarrow> act_ret a)"

text \<open>What became of an eligible player.\<close>

datatype digest_outcome = Skipped | Mailed | MailFailed

definition deliver :: "'m digest_deps \<Rightarrow> nat \<Rightarrow> string \<Rightarrow> string \<Rightarrow> string \<Rightarrow> string \<Rightarrow> ('m, digest_outcome) digest_act" where
  "deliver D userId weekStart to subject html =
    act_catch
      (act_bind (on_mails (dg_sendMail D to subject html)) (\<lambda>accepted.
        if \<not> accepted then act_throw (JsError ''Error'' ''email transport rejected the message'' [])
        else act_seq (record_delivery D userId weekStart ''sent'' None) (act_ret Mailed)))
      (\<lambda>error. act_seq (record_delivery D userId weekStart ''failed'' (Some (err_message error))) (act_ret MailFailed))"

text \<open>
  A streak loop that did not end would stop the run here; on days of four-digit years it ends
  (lemma \<^verbatim>\<open>streak_back_run\<close>).
\<close>

definition never_returns :: js_error where
  "never_returns = JsError ''never returns'' [] []"

definition digest_user ::
  "'m digest_deps \<Rightarrow> string \<Rightarrow> string \<times> string \<Rightarrow> UserWeekRow list \<Rightarrow> (nat \<Rightarrow> string list) \<Rightarrow> string \<Rightarrow> User \<Rightarrow> UserWeekRow \<Rightarrow>
    ('m, digest_outcome) digest_act" where
  "digest_user D weekStart template rows daysByUser today user row =
    (let userId = uw_userId row in
     act_bind (on_deliveries (dg_findDelivery D userId weekStart)) (\<lambda>already.
       if (case already of Some d \<Rightarrow> dd_status d = ''sent'' | None \<Rightarrow> False) then act_ret Skipped
       else (case computeStreak (daysByUser userId) today of
          None \<Rightarrow> act_throw never_returns
        | Some streak \<Rightarrow> act_bind (lift_sum streak) (\<lambda>k.
            let stats = buildDigestStats row rows k in
            act_bind (lift_sum (renderDigestTemplate (snd template) (stat_values user stats (mail_streak k)))) (\<lambda>html.
              act_bind (lift_sum (renderDigestTemplate (fst template) (stat_values user stats (show_nat k)))) (\<lambda>subject.
                deliver D userId weekStart (us_email user) subject html))))))"

text \<open>The loop over the active players who opted in; the result lists what became of each.\<close>

fun digest_loop ::
  "'m digest_deps \<Rightarrow> string \<Rightarrow> string \<times> string \<Rightarrow> UserWeekRow list \<Rightarrow> (nat \<Rightarrow> string list) \<Rightarrow> string \<Rightarrow> (nat \<Rightarrow> User option) \<Rightarrow>
    UserWeekRow list \<Rightarrow> ('m, (nat \<times> digest_outcome) list) digest_act" where
  "digest_loop D weekStart template rows daysByUser today byId [] = act_ret []"
| "digest_loop D weekStart template rows daysByUser today byId (row # rest) =
     (case byId (uw_userId row) of
        None \<Rightarrow> digest_loop D weekStart template rows daysByUser today byId rest
      | Some user \<Rightarrow> act_bind (digest_user D weekStart template rows daysByUser today user row) (\<lambda>r.
          act_bind (digest_loop D weekStart template rows daysByUser today byId rest) (\<lambda>rs. act_ret ((uw_userId row, r) # rs))))"

record DigestRunSummary =
  dr_weekStart :: string
  dr_eligible :: nat
  dr_sent :: nat
  dr_failed :: nat
  dr_skipped :: nat

definition count_outcome :: "digest_outcome \<Rightarrow> (nat \<times> digest_outcome) list \<Rightarrow> nat" where
  "count_outcome r rs = length (filter (\<lambda>x. snd x = r) rs)"

definition run_digest :: "'m digest_deps \<Rightarrow> int \<Rightarrow> ('m, (nat \<times> digest_outcome) list) digest_act" where
  "run_digest D now =
    (let weekStart = weekStartOf now; windowEnd = week_start_day now * DAY_MS; windowStart = windowEnd - 7 * DAY_MS;
         activeSince = windowEnd - ACTIVE_WINDOW_DAYS * DAY_MS; today = iso_day (week_start_day now - 1)
     in act_bind (zoom dw_sessions (\<lambda>t w. w\<lparr>dw_sessions := t\<rparr>) (dg_sessions D)) (\<lambda>ss.
        act_bind (zoom dw_sessions (\<lambda>t w. w\<lparr>dw_sessions := t\<rparr>) (dg_sessions D)) (\<lambda>ss'.
          let rows = loadWeekRows windowStart windowEnd activeSince ss; daysByUser = loadPlayedDays activeSince windowEnd ss'
          in act_bind (getTemplate D) (\<lambda>template.
               act_bind (zoom dw_users (\<lambda>t w. w\<lparr>dw_users := t\<rparr>) (r_find (dg_users D) us_digestOptIn (\<lambda>_ _. False))) (\<lambda>optedIn.
                 digest_loop D weekStart template rows daysByUser today
                   (\<lambda>i. map_of (rev (List.map_filter (\<lambda>u. map_option (\<lambda>k. (k, u)) (us_id u)) optedIn)) i) (filter uw_active rows))))))"

definition sendWeeklyDigest :: "'m digest_deps \<Rightarrow> int \<Rightarrow> ('m, DigestRunSummary) digest_act" where
  "sendWeeklyDigest D now = act_bind (run_digest D now) (\<lambda>rs. act_ret \<lparr>dr_weekStart = weekStartOf now, dr_eligible = length rs,
     dr_sent = count_outcome Mailed rs, dr_failed = count_outcome MailFailed rs, dr_skipped = count_outcome Skipped rs\<rparr>)"

definition handleWeeklyDigest :: "'m digest_deps \<Rightarrow> int \<Rightarrow> ('m, unit) digest_act" where
  "handleWeeklyDigest D now = act_catch (act_seq (sendWeeklyDigest D now) (act_ret ())) (\<lambda>_. act_ret ())"

section \<open>The streak\<close>

lemma shift_iso_day:
  assumes "four_digit_day n"
  shows "shift_day (iso_day n) k = Inr (iso_day (n + k))"
proof -
  have "date_parse_midnight (iso_day n) = num (n * DAY_MS)" using parse_iso_day [OF assms] by blast
  moreover have "\<lfloor>rat_of_int (n * DAY_MS)\<rfloor> div DAY_MS = n" unfolding floor_of_int by (simp add: DAY_MS_def)
  ultimately show ?thesis by (simp only: shift_day_def jsnum.case)
qed

lemma longest_at_exists:
  assumes "finite D"
  shows "\<exists>k \<le> card D. longest_at D d k"
proof -
  let ?J = "{j. run_of d j \<subseteq> D}"
  have card_run: "card (run_of d j) = j" for j by (simp add: run_of_def)
  have le: "j \<le> card D" if "j \<in> ?J" for j using that card_mono [OF assms, of "run_of d j"] card_run by simp
  then have fin: "finite ?J" using finite_subset [of ?J "{..card D}"] by auto
  have "0 \<in> ?J" by simp
  then have m: "Max ?J \<in> ?J" using fin Max_in by blast
  have "run_of d j \<subseteq> D \<longleftrightarrow> j \<le> Max ?J" for j :: nat
  proof
    assume "run_of d j \<subseteq> D"
    then show "j \<le> Max ?J" using Max_ge [OF fin] by simp
  next
    assume "j \<le> Max ?J"
    then show "run_of d j \<subseteq> D" using m run_of_mono [of j "Max ?J" d] by blast
  qed
  then have "longest_at D d (Max ?J)" unfolding longest_at_def by blast
  then show ?thesis using le [OF m] by blast
qed

lemma longest_at_step: "longest_at D d (Suc k) \<Longrightarrow> d \<in> D \<and> longest_at D (d - 1) k"
proof -
  assume a: "longest_at D d (Suc k)"
  then have r: "run_of d (Suc j) \<subseteq> D \<longleftrightarrow> j \<le> k" for j by (simp add: longest_at_def)
  have "d \<in> D" using r [of 0] by (simp add: run_of_Suc)
  then have "run_of (d - 1) j \<subseteq> D \<longleftrightarrow> j \<le> k" for j using r [of j] by (simp add: run_of_Suc)
  then show ?thesis using \<open>d \<in> D\<close> by (simp add: longest_at_def)
qed

lemma longest_at_zero: "longest_at D d 0 \<Longrightarrow> d \<notin> D"
  unfolding longest_at_def by (metis One_nat_def empty_subsetI insert_subset le_zero_eq one_neq_zero run_of_0 run_of_Suc)

text \<open>Days of four-digit years, printed.\<close>

lemma printed_mem:
  assumes "\<forall>n \<in> set ns. four_digit_day n" "four_digit_day c"
  shows "iso_day c \<in> set (map iso_day ns) \<longleftrightarrow> c \<in> set ns"
  using assms iso_day_inj by auto

lemma streak_back_run:
  assumes D: "\<forall>n \<in> set ns. four_digit_day n"
  shows "longest_at (set ns) c k \<Longrightarrow> \<forall>j \<le> k. four_digit_day (c - int j) \<Longrightarrow>
    streak_back (map iso_day ns) (iso_day c) s = Some (Inr (s + k))"
proof (induction k arbitrary: c s)
  case 0
  have "iso_day c \<notin> set (map iso_day ns)"
    using printed_mem [OF D, of c] longest_at_zero [OF "0.prems"(1)] "0.prems"(2) by simp
  then show ?case by (subst streak_back.simps) simp
next
  case (Suc k)
  have c: "four_digit_day c" using Suc.prems(2) by force
  have "c \<in> set ns" "longest_at (set ns) (c - 1) k" using longest_at_step [OF Suc.prems(1)] by simp_all
  moreover have "\<forall>j \<le> k. four_digit_day (c - 1 - int j)"
    using Suc.prems(2) by (metis Suc_le_mono diff_diff_eq int_plus of_nat_1 plus_1_eq_Suc)
  ultimately have "streak_back (map iso_day ns) (iso_day (c - 1)) (s + 1) = Some (Inr (s + 1 + k))" by (intro Suc.IH)
  moreover have "iso_day c \<in> set (map iso_day ns)" using \<open>c \<in> set ns\<close> by simp
  ultimately show ?case using shift_iso_day [OF c, of "-1"] by (subst streak_back.simps) simp
qed

text \<open>
  C25: printing a day and reading it back is the identity on the years of four digits, and on
  such days the backward loop ends: it counts the run of consecutive days that ends today, or
  yesterday when today was not played.
\<close>

theorem streak_loop_exact:
  assumes ns: "\<forall>n \<in> set ns. four_digit_day n" and t: "\<forall>j \<le> card (set ns) + 1. four_digit_day (t - int j)"
  shows "date_parse_midnight (iso_day t) = num (t * DAY_MS) \<and>
    (\<exists>k. computeStreak (map iso_day ns) (iso_day t) = Some (Inr k) \<and> longest_at (set ns) (if t \<in> set ns then t else t - 1) k)"
proof -
  have t0: "four_digit_day t" using t by force
  show ?thesis
  proof (cases "t \<in> set ns")
    case True
    obtain k where k: "k \<le> card (set ns)" "longest_at (set ns) t k" using longest_at_exists [of "set ns" t] by auto
    have "\<forall>j \<le> k. four_digit_day (t - int j)" using t k(1) by auto
    then have "streak_back (map iso_day ns) (iso_day t) 0 = Some (Inr (0 + k))" by (rule streak_back_run [OF ns k(2)])
    then show ?thesis using True k(2) parse_iso_day [OF t0] by (auto simp: computeStreak_def)
  next
    case False
    obtain k where k: "k \<le> card (set ns)" "longest_at (set ns) (t - 1) k" using longest_at_exists [of "set ns" "t - 1"] by auto
    have "four_digit_day (t - 1 - int j)" if "j \<le> k" for j
      using t [rule_format, of "Suc j"] that k(1) by (simp add: algebra_simps)
    then have "streak_back (map iso_day ns) (iso_day (t - 1)) 0 = Some (Inr (0 + k))" by (intro streak_back_run [OF ns k(2)]) simp
    moreover have "iso_day t \<notin> set (map iso_day ns)" using printed_mem [OF ns t0] False by simp
    ultimately show ?thesis using False k(2) parse_iso_day [OF t0] shift_iso_day [OF t0, of "-1"] by (auto simp: computeStreak_def)
  qed
qed

theorem streak_loop_exact_witness:
  "computeStreak (map iso_day [19999, 19998, 19997, 19990]) (iso_day 20000) = Some (Inr 3)"
proof -
  let ?ns = "[19999, 19998, 19997, 19990] :: int list"
  have "\<forall>n \<in> set ?ns. four_digit_day n" by (auto intro!: four_digit_range)
  moreover have "\<forall>j \<le> card (set ?ns) + 1. four_digit_day (20000 - int j)" by (auto intro!: four_digit_range)
  ultimately obtain k where k: "computeStreak (map iso_day ?ns) (iso_day 20000) = Some (Inr k)"
      "longest_at (set ?ns) (if 20000 \<in> set ?ns then 20000 else 20000 - 1) k"
    using streak_loop_exact [of ?ns 20000] by blast
  have "run_of 19999 3 \<subseteq> set ?ns" "19996 \<in> run_of 19999 4 - set ?ns" by (auto simp: run_of_def)
  moreover have "longest_at (set ?ns) 19999 k" using k(2) by simp
  ultimately have "3 \<le> k" "\<not> 4 \<le> k" unfolding longest_at_def by blast+
  then have "k = 3" by simp
  then show ?thesis using k(1) by simp
qed

text \<open>The week starts on the Monday at or before the moment.\<close>

lemma week_start_monday:
  "week_day (week_start_day t) = 1 \<and> week_start_day t * DAY_MS \<le> t \<and> t < (week_start_day t + 7) * DAY_MS"
proof -
  define n where "n = t div DAY_MS"
  define k where "k = ((n + 4) mod 7 + 6) mod 7"
  have w: "week_start_day t = n - k" by (simp add: week_start_day_def week_day_def Let_def n_def k_def)
  have "(n - k + 4) mod 7 = 1" unfolding k_def by presburger
  moreover have k: "0 \<le> k" "k \<le> 6" unfolding k_def by presburger+
  have c: "86400000 * n \<le> t" "t < 86400000 * n + 86400000" unfolding n_def DAY_MS_def by (rule div_below div_above; simp)+
  have "(n - k) * 86400000 \<le> t" "t < (n - k + 7) * 86400000" using k c by (simp_all add: algebra_simps)
  ultimately show ?thesis by (simp add: w week_day_def DAY_MS_def)
qed

section \<open>Deliveries\<close>























text \<open>A mail that was accepted but could not be recorded counts as failed, so the next run repeats it.\<close>

lemma accepted_unrecorded_fails:
  assumes "on_mails (dg_sendMail D to subject html) w = (Inr True, w1)" "record_delivery D u wk ''sent'' None w1 = (Inl e, w2)"
    "record_delivery D u wk ''failed'' (Some (err_message e)) w2 = (Inr (), w3)"
  shows "deliver D u wk to subject html w = (Inr MailFailed, w3)"
  using assms by (simp add: deliver_def act_defs)

















end
