(* ===== verification/Word_Suggestions.thy ===== *)
theory Word_Suggestions
  imports Auth_Service Words
begin

text \<open>
  Suggesting words and voting for them (\<^verbatim>\<open>word-suggestions/word-suggestions.module.ts\<close>).  The
  tables of suggestions and words are parameters; the column of the suggested word is unique.  The
  service is shown to keep, for every suggested word, the set of its voters with their number.
\<close>

section \<open>The service\<close>

definition MAX_LIST_LIMIT :: int where "MAX_LIST_LIMIT = 100"

record WordSuggestion =
  sg_id :: "nat option"
  sg_word :: string
  sg_submittedBy :: string
  sg_submitterId :: "nat option"
  sg_voteCount :: nat
  sg_voters :: "string list option"
  sg_createdAt :: int

record suggestion_world =
  sw_suggestions :: "WordSuggestion list"
  sw_words :: "Word list"

type_synonym suggestion_repo = "(WordSuggestion, js_error) repo"
type_synonym 'a suggestion_act = "(suggestion_world, js_error, 'a) act"

definition on_suggestions :: "(WordSuggestion list, js_error, 'a) act \<Rightarrow> 'a suggestion_act" where
  "on_suggestions = zoom sw_suggestions (\<lambda>t w. w\<lparr>sw_suggestions := t\<rparr>)"

definition on_dictionary :: "(Word list, js_error, 'a) act \<Rightarrow> 'a suggestion_act" where
  "on_dictionary = zoom sw_words (\<lambda>t w. w\<lparr>sw_words := t\<rparr>)"

definition five_letters :: "string \<Rightarrow> bool" where
  "five_letters w \<longleftrightarrow> length w = 5 \<and> list_all (char_in (CHR ''a'') (CHR ''z'')) w"

definition voter_key :: "User \<Rightarrow> string" where
  "voter_key user = (case us_id user of Some i \<Rightarrow> show_nat i | None \<Rightarrow> ''undefined'')"

definition submitter_name :: "User \<Rightarrow> string" where
  "submitter_name user = (case us_username user of
      Some n \<Rightarrow> if n = [] then ''user:'' @ voter_key user else n
    | None \<Rightarrow> ''user:'' @ voter_key user)"

definition quoted :: "string \<Rightarrow> string" where
  "quoted w = [CHR 0x22] @ w @ [CHR 0x22]"

definition new_suggestion :: "string \<Rightarrow> User \<Rightarrow> WordSuggestion" where
  "new_suggestion word user = \<lparr>sg_id = None, sg_word = word, sg_submittedBy = submitter_name user, sg_submitterId = None,
     sg_voteCount = 0, sg_voters = Some [], sg_createdAt = 0\<rparr>"

definition suggest :: "suggestion_repo \<Rightarrow> (Word, js_error) repo \<Rightarrow> string \<Rightarrow> User \<Rightarrow> WordSuggestion suggestion_act" where
  "suggest R W rawWord user =
    (let word = trim (toLowerCase rawWord) in
     if \<not> five_letters word then act_throw (BadRequestException ''Word suggestions must contain letters only'')
     else act_bind (on_dictionary (r_findOne W (\<lambda>w. wd_word w = word))) (\<lambda>inDictionary.
       if inDictionary \<noteq> None then act_throw (ConflictException (quoted word @ '' is already in the dictionary''))
       else act_bind (on_suggestions (r_findOne R (\<lambda>s. sg_word s = word))) (\<lambda>alreadySuggested.
         if alreadySuggested \<noteq> None then act_throw (ConflictException (quoted word @ '' has already been suggested''))
         else act_catch (on_suggestions (r_save R (new_suggestion word user)))
           (\<lambda>_. act_throw (ConflictException (quoted word @ '' has already been suggested''))))))"

text \<open>A vote reads the row and writes it back; the two steps are named for the interleavings below.\<close>

definition read_vote :: "suggestion_repo \<Rightarrow> nat \<Rightarrow> User \<Rightarrow> (WordSuggestion list, js_error, WordSuggestion) act" where
  "read_vote R i user = act_bind (r_findOne R (\<lambda>s. sg_id s = Some i)) (\<lambda>found. case found of
      None \<Rightarrow> act_throw (NotFoundException ''Suggestion not found'')
    | Some suggestion \<Rightarrow>
        let voters = (case sg_voters suggestion of Some v \<Rightarrow> v | None \<Rightarrow> []) in
        if voter_key user \<in> set voters then act_throw (ConflictException ''You have already voted for this suggestion'')
        else act_ret (suggestion\<lparr>sg_voters := Some (voters @ [voter_key user]), sg_voteCount := sg_voteCount suggestion + 1\<rparr>))"

definition vote :: "suggestion_repo \<Rightarrow> nat \<Rightarrow> User \<Rightarrow> WordSuggestion suggestion_act" where
  "vote R i user = on_suggestions (act_bind (read_vote R i user) (r_save R))"

text \<open>\<^verbatim>\<open>rowLimit\<close> is how the database reads a limit that is no whole number.\<close>

definition list_limit :: "jsnum \<Rightarrow> jsnum" where
  "list_limit limit = num_min (num_max (if limit = NaN \<or> limit = num 0 then num 50 else limit) (num 1)) (num MAX_LIST_LIMIT)"

definition by_votes :: "WordSuggestion \<Rightarrow> WordSuggestion \<Rightarrow> bool" where
  "by_votes a b \<longleftrightarrow> sg_voteCount a < sg_voteCount b \<or> (sg_voteCount a = sg_voteCount b \<and> sg_createdAt b < sg_createdAt a)"

definition list_suggestions :: "suggestion_repo \<Rightarrow> (jsnum \<Rightarrow> nat) \<Rightarrow> jsnum \<Rightarrow> WordSuggestion list suggestion_act" where
  "list_suggestions R rowLimit limit = act_bind (on_suggestions (r_find R (\<lambda>_. True) by_votes)) (\<lambda>rows. act_ret (take (rowLimit (list_limit limit)) rows))"

definition listSuggestions :: "suggestion_repo \<Rightarrow> (jsnum \<Rightarrow> nat) \<Rightarrow> string option \<Rightarrow> WordSuggestion list suggestion_act" where
  "listSuggestions R rowLimit limit = list_suggestions R rowLimit (case limit of Some s \<Rightarrow> if s = [] then num 50 else string_to_num s | None \<Rightarrow> num 50)"

section \<open>The votes\<close>

definition sg_body :: "WordSuggestion \<Rightarrow> string \<times> string \<times> nat option \<times> nat \<times> string list option" where
  "sg_body s = (sg_word s, sg_submittedBy s, sg_submitterId s, sg_voteCount s, sg_voters s)"

definition votes_of :: "WordSuggestion \<Rightarrow> string list" where
  "votes_of s = (case sg_voters s of Some v \<Rightarrow> v | None \<Rightarrow> [])"

definition suggestion_wf :: "WordSuggestion \<Rightarrow> bool" where
  "suggestion_wf s \<longleftrightarrow> five_letters (sg_word s) \<and> distinct (votes_of s) \<and> sg_voteCount s = length (votes_of s)"

definition suggestions_wf :: "WordSuggestion list \<Rightarrow> bool" where
  "suggestions_wf t \<longleftrightarrow> keyed sg_id sg_word t \<and> (\<forall>s \<in> set t. suggestion_wf s)"

text \<open>The specification: the voters of every suggested word.\<close>

definition ballots :: "WordSuggestion list \<Rightarrow> string \<Rightarrow> string list option" where
  "ballots t w = map_option votes_of (row_of sg_word w t)"

datatype suggestion_request = Suggest string User | Vote nat User

fun run_request :: "suggestion_repo \<Rightarrow> (Word, js_error) repo \<Rightarrow> suggestion_request \<Rightarrow> WordSuggestion suggestion_act" where
  "run_request R W (Suggest w user) = suggest R W w user"
| "run_request R W (Vote i user) = vote R i user"

lemma votes_of_body: "sg_body s = sg_body s' \<Longrightarrow> votes_of s = votes_of s' \<and> suggestion_wf s = suggestion_wf s' \<and> sg_word s = sg_word s'"
  by (simp add: sg_body_def votes_of_def suggestion_wf_def)

lemma saved_suggestion:
  assumes R: "repo_ok sg_id sg_body R" and wf: "suggestions_wf t" and e: "suggestion_wf e"
    and pk: "sg_id e = Option.bind (row_of sg_word (sg_word e) t) sg_id" and sv: "r_save R e t = (Inr e', t')"
  shows "suggestions_wf t' \<and> ballots t' = (ballots t)(sg_word e \<mapsto> votes_of e) \<and> sg_body e' = sg_body e"
proof -
  have k: "keyed sg_id sg_word t" using wf by (simp add: suggestions_wf_def)
  have U: "keyed sg_id sg_word t' \<and> sg_body e' = sg_body e \<and> row_of sg_word (sg_word e) t' = Some e' \<and>
      (\<forall>w. w \<noteq> sg_word e \<longrightarrow> row_of sg_word w t' = row_of sg_word w t)"
    by (rule save_upsert [OF R k _ pk sv]) (simp add: sg_body_def)
  have "suggestion_wf s" if "s \<in> set t'" for s
  proof -
    have "s = e' \<or> s \<in> set t" using that unfolding save_returns(5) [OF R sv] by blast
    moreover have "suggestion_wf e'" using votes_of_body [of e' e] U e by blast
    ultimately show ?thesis using wf unfolding suggestions_wf_def by blast
  qed
  moreover have "ballots t' w = ((ballots t)(sg_word e \<mapsto> votes_of e)) w" for w
    using U votes_of_body [of e' e] by (simp add: ballots_def)
  ultimately show ?thesis using U by (simp add: suggestions_wf_def fun_eq_iff)
qed

lemma on_suggestions_run: "on_suggestions m w = (r, w') \<Longrightarrow> m (sw_suggestions w) = (r, sw_suggestions w')"
  by (auto simp: on_suggestions_def zoom_def split: prod.splits)

lemma on_dictionary_run: "on_dictionary m w = (r, w') \<Longrightarrow> sw_suggestions w' = sw_suggestions w"
  by (auto simp: on_dictionary_def zoom_def split: prod.splits)

lemma suggest_effect:
  assumes R: "repo_ok sg_id sg_body R" and wf: "suggestions_wf (sw_suggestions w)" and run: "suggest R W raw user w = (r, w')"
  shows "(isl r \<and> sw_suggestions w' = sw_suggestions w) \<or>
    (\<exists>s v. r = Inr s \<and> ballots (sw_suggestions w) v = None \<and> suggestions_wf (sw_suggestions w') \<and>
       ballots (sw_suggestions w') = (ballots (sw_suggestions w))(v \<mapsto> []))"
proof -
  let ?v = "trim (toLowerCase raw)"
  obtain x w1 where d: "on_dictionary (r_findOne W (\<lambda>w. wd_word w = ?v)) w = (x, w1)" by (rule prod.exhaust)
  obtain y w2 where f: "on_suggestions (r_findOne R (\<lambda>s. sg_word s = ?v)) w1 = (y, w2)" by (rule prod.exhaust)
  obtain z w3 where s: "on_suggestions (r_save R (new_suggestion ?v user)) w2 = (z, w3)" by (rule prod.exhaust)
  have 1: "sw_suggestions w1 = sw_suggestions w" by (rule on_dictionary_run [OF d])
  have F: "r_findOne R (\<lambda>s. sg_word s = ?v) (sw_suggestions w1) = (y, sw_suggestions w2)" by (rule on_suggestions_run [OF f])
  have 2: "sw_suggestions w2 = sw_suggestions w1" by (rule findOne_same [OF R F])
  have S: "r_save R (new_suggestion ?v user) (sw_suggestions w2) = (z, sw_suggestions w3)" by (rule on_suggestions_run [OF s])
  show ?thesis
  proof (cases "five_letters ?v \<and> x = Inr None \<and> y = Inr None")
    case False
    have "isl r \<and> (w' = w \<or> w' = w1 \<or> w' = w2)"
      using run d f s False by (cases x; cases y) (auto simp: suggest_def Let_def act_throw_def split: if_splits)
    then show ?thesis using 1 2 by metis
  next
    case True
    then have run': "act_catch (on_suggestions (r_save R (new_suggestion ?v user)))
        (\<lambda>_. act_throw (ConflictException (quoted ?v @ '' has already been suggested''))) w2 = (r, w')"
      using run d f by (simp add: suggest_def Let_def)
    have none: "row_of sg_word ?v (sw_suggestions w) = None"
      using findOne_None [OF R, of "\<lambda>s. sg_word s = ?v" "sw_suggestions w1" "sw_suggestions w2"] F True 1 unfolding row_of_None by simp
    show ?thesis
    proof (cases z)
      case (Inl e)
      then have "isl r" "w' = w3" using run' s by (auto simp: act_catch_def act_throw_def)
      then show ?thesis using save_throws [OF R, of "new_suggestion ?v user"] S Inl 1 2 by simp
    next
      case (Inr e)
      then have r: "r = Inr e" "w' = w3" using run' s by (simp_all add: act_catch_def)
      have wf': "suggestion_wf (new_suggestion ?v user)" using True by (simp add: suggestion_wf_def new_suggestion_def votes_of_def)
      have "suggestions_wf (sw_suggestions w3) \<and>
          ballots (sw_suggestions w3) = (ballots (sw_suggestions w))(sg_word (new_suggestion ?v user) \<mapsto> votes_of (new_suggestion ?v user)) \<and>
          sg_body e = sg_body (new_suggestion ?v user)"
        by (rule saved_suggestion [OF R wf wf']) (use none S Inr 1 2 in \<open>simp_all add: new_suggestion_def\<close>)
      then show ?thesis using r none by (auto simp: new_suggestion_def votes_of_def ballots_def)
    qed
  qed
qed

lemma vote_effect:
  assumes R: "repo_ok sg_id sg_body R" and wf: "suggestions_wf (sw_suggestions w)" and run: "vote R i user w = (r, w')"
  shows "(isl r \<and> sw_suggestions w' = sw_suggestions w) \<or>
    (\<exists>s v b. r = Inr s \<and> ballots (sw_suggestions w) v = Some b \<and> voter_key user \<notin> set b \<and> suggestions_wf (sw_suggestions w') \<and>
       ballots (sw_suggestions w') = (ballots (sw_suggestions w))(v \<mapsto> b @ [voter_key user]))"
proof -
  let ?t = "sw_suggestions w" and ?t' = "sw_suggestions w'"
  have run: "act_bind (read_vote R i user) (r_save R) ?t = (r, ?t')" using on_suggestions_run run unfolding vote_def by blast
  obtain x t1 where f: "r_findOne R (\<lambda>s. sg_id s = Some i) ?t = (x, t1)" by (rule prod.exhaust)
  have t1: "t1 = ?t" by (rule findOne_same [OF R f])
  have voters: "(case sg_voters s of Some v \<Rightarrow> v | None \<Rightarrow> []) = votes_of s" for s by (simp add: votes_of_def)
  show ?thesis
  proof (cases "\<exists>s. x = Inr (Some s) \<and> voter_key user \<notin> set (votes_of s)")
    case False
    then have "isl r \<and> ?t' = ?t" using run f t1
      by (cases x) (auto simp: read_vote_def act_bind_def act_throw_def voters Let_def split: option.splits if_splits prod.splits)
    then show ?thesis by blast
  next
    case True
    then obtain s where x: "x = Inr (Some s)" and new: "voter_key user \<notin> set (votes_of s)" by blast
    let ?e = "s\<lparr>sg_voters := Some (votes_of s @ [voter_key user]), sg_voteCount := sg_voteCount s + 1\<rparr>"
    have sv: "r_save R ?e ?t = (r, ?t')"
      using run f x new t1 by (simp add: read_vote_def act_bind_def act_ret_def voters Let_def)
    have s: "s \<in> set ?t" "sg_id s = Some i" using findOne_Some [OF R] f x t1 by blast+
    have inj: "inj_on sg_word (set ?t)" using wf by (simp add: suggestions_wf_def keyed_def)
    have row: "row_of sg_word (sg_word s) ?t = Some s" using row_of_inj [OF inj] s(1) by simp
    have e: "suggestion_wf ?e" using wf s(1) new by (auto simp: suggestions_wf_def suggestion_wf_def votes_of_def)
    show ?thesis
    proof (cases r)
      case (Inl err)
      then show ?thesis using save_throws [OF R] sv by auto
    next
      case (Inr e')
      have "suggestions_wf ?t' \<and> ballots ?t' = (ballots ?t)(sg_word ?e \<mapsto> votes_of ?e) \<and> sg_body e' = sg_body ?e"
        by (rule saved_suggestion [OF R wf e]) (use row sv Inr in simp_all)
      moreover have "ballots ?t (sg_word s) = Some (votes_of s)" using row by (simp add: ballots_def)
      moreover have "votes_of ?e = votes_of s @ [voter_key user]" "sg_word ?e = sg_word s" by (simp_all add: votes_of_def)
      ultimately show ?thesis using Inr new by metis
    qed
  qed
qed

text \<open>What a request does to the ballots: nothing when it throws, else a new word or one new vote.\<close>

inductive ballot_step :: "(string \<Rightarrow> string list option) \<Rightarrow> (string \<Rightarrow> string list option) \<Rightarrow> bool" where
  refused: "ballot_step b b"
| suggested: "b v = None \<Longrightarrow> ballot_step b (b(v \<mapsto> []))"
| voted: "b v = Some vs \<Longrightarrow> u \<notin> set vs \<Longrightarrow> ballot_step b (b(v \<mapsto> vs @ [u]))"

text \<open>
  C32: requests that are handled one after the other refine the ballots: a request that throws
  changes nothing, a suggestion opens the ballot of a word that has none, a vote adds a voter who
  has not voted, and the stored count is always the number of distinct voters.
\<close>

theorem suggestions_refine_ballots:
  assumes "repo_ok sg_id sg_body R" "suggestions_wf (sw_suggestions w)" "run_request R W q w = (r, w')"
  shows "suggestions_wf (sw_suggestions w') \<and> ballot_step (ballots (sw_suggestions w)) (ballots (sw_suggestions w')) \<and>
    (isl r \<longrightarrow> sw_suggestions w' = sw_suggestions w)"
proof (cases q)
  case (Suggest raw user)
  then show ?thesis using suggest_effect [OF assms(1,2), of W raw user r w'] assms(2,3) by (auto intro: ballot_step.intros)
next
  case (Vote i user)
  then show ?thesis using vote_effect [OF assms(1,2), of i user r w'] assms(2,3) by (auto intro: ballot_step.intros)
qed

text \<open>Two votes that are both read before either is written: the second write loses the first vote.\<close>

definition suggestion_mem :: suggestion_repo where
  "suggestion_mem = mem_repo sg_id (\<lambda>i s. s\<lparr>sg_id := Some i\<rparr>)"

lemma suggestion_mem_ok: "repo_ok sg_id sg_body suggestion_mem"
  unfolding suggestion_mem_def by (rule mem_repo_ok) (simp_all add: sg_body_def)

definition crane :: WordSuggestion where
  "crane = (new_suggestion ''crane'' (some_user 1))\<lparr>sg_id := Some 1\<rparr>"

lemma vote_lost:
  assumes a: "read_vote suggestion_mem 1 (some_user 1) [crane] = (Inr a, [crane])"
    and b: "read_vote suggestion_mem 1 (some_user 2) [crane] = (Inr b, [crane])"
    and "r_save suggestion_mem a [crane] = (x, t)" "r_save suggestion_mem b t = (y, t')"
  shows "ballots t' ''crane'' = Some [''2'']"
proof -
  have n: "show_nat 1 = ''1''" "show_nat 2 = ''2''" by code_simp+
  have "a = crane\<lparr>sg_voters := Some [''1''], sg_voteCount := 1\<rparr>" "b = crane\<lparr>sg_voters := Some [''2''], sg_voteCount := 1\<rparr>"
    using a b n by (auto simp: read_vote_def suggestion_mem_def mem_repo_def crane_def new_suggestion_def voter_key_def some_user_def act_defs)
  then show ?thesis
    using assms(3,4) by (auto simp: suggestion_mem_def mem_repo_def mem_save_def crane_def new_suggestion_def ballots_def row_of_def votes_of_def)
qed

theorem suggestions_refine_ballots_witness:
  "ballot_step (ballots [crane]) (ballots [crane\<lparr>sg_voters := Some [''1''], sg_voteCount := 1\<rparr>])"
proof -
  let ?w = "\<lparr>sw_suggestions = [crane], sw_words = []\<rparr>" and ?e = "crane\<lparr>sg_voters := Some [''1''], sg_voteCount := 1\<rparr>"
  have "show_nat 1 = ''1''" by code_simp
  then have run: "run_request suggestion_mem undefined (Vote 1 (some_user 1)) ?w = (Inr ?e, ?w\<lparr>sw_suggestions := [?e]\<rparr>)"
    by (simp add: vote_def on_suggestions_def zoom_def read_vote_def suggestion_mem_def mem_repo_def mem_save_def crane_def new_suggestion_def
      voter_key_def some_user_def act_defs)
  have "suggestions_wf (sw_suggestions ?w)"
    by (simp add: suggestions_wf_def keyed_def suggestion_wf_def crane_def new_suggestion_def five_letters_def char_in_def votes_of_def)
  from suggestions_refine_ballots [OF suggestion_mem_ok this run] show ?thesis by simp
qed

text \<open>At most a hundred suggestions are listed, and at least one is asked for.\<close>

lemma list_limit_bounds: "\<exists>r. list_limit limit = Fin r \<and> 1 \<le> r \<and> r \<le> 100"
  by (cases limit) (auto simp: list_limit_def num_min_def num_max_def MAX_LIST_LIMIT_def)

end
