(* ===== verification/User_Stats.thy ===== *)
theory User_Stats
  imports Js_Dates Js_Doubles Game_Sessions
begin

text \<open>
  The statistics of a player for a game (\<^verbatim>\<open>user-game-stats/user-game-stats.service.ts\<close>) and the
  queries over them (\<^verbatim>\<open>user/user-stats.repository.ts\<close>).  The library functions for the start of a
  day and the day before are parameters, and so is what the mapper makes of a condition on whole
  entities.  A server in universal time is one instance of the library, a server in a zone that
  changes its offset another.
\<close>

section \<open>Recording a game\<close>

record UserGameStats =
  ug_id :: "nat option"
  ug_user :: nat
  ug_game :: nat
  ug_points :: int
  ug_wins :: nat
  ug_currentStreak :: nat
  ug_longestStreak :: nat
  ug_lastPlayedDate :: "string option"
  ug_totalGamesPlayed :: nat

type_synonym stats_repo = "(UserGameStats, js_error) repo"
type_synonym 'a stats_act = "(UserGameStats list, js_error, 'a) act"

text \<open>\<^verbatim>\<open>startOfDay\<close> and \<^verbatim>\<open>subDays\<close> of the date library.\<close>

record date_lib =
  dl_startOfDay :: "int \<Rightarrow> int"
  dl_subDays :: "int \<Rightarrow> int \<Rightarrow> int"

definition day_string :: "date_lib \<Rightarrow> int \<Rightarrow> string" where
  "day_string L t = iso_date (dl_startOfDay L t div DAY_MS)"

definition first_stats :: "nat \<Rightarrow> nat \<Rightarrow> int \<Rightarrow> bool \<Rightarrow> string \<Rightarrow> UserGameStats" where
  "first_stats user game earnedPoints won today = \<lparr>ug_id = None, ug_user = user, ug_game = game, ug_points = earnedPoints,
     ug_wins = (if won then 1 else 0), ug_currentStreak = 1, ug_longestStreak = 1, ug_lastPlayedDate = Some today, ug_totalGamesPlayed = 1\<rparr>"

definition next_stats :: "UserGameStats \<Rightarrow> int \<Rightarrow> bool \<Rightarrow> string \<Rightarrow> string \<Rightarrow> UserGameStats" where
  "next_stats s earnedPoints won today yesterday =
    (let streak = (if ug_lastPlayedDate s = Some today then ug_currentStreak s
           else if ug_lastPlayedDate s = Some yesterday then ug_currentStreak s + 1 else 1)
     in s\<lparr>ug_points := ug_points s + earnedPoints, ug_wins := ug_wins s + (if won then 1 else 0),
          ug_totalGamesPlayed := ug_totalGamesPlayed s + 1, ug_currentStreak := streak,
          ug_longestStreak := (if ug_longestStreak s < streak then streak else ug_longestStreak s), ug_lastPlayedDate := Some today\<rparr>)"

text \<open>
  The lookup names the user and the game by their whole entities: the mapper compares every column
  they carry, or throws at one that is empty.  Which rows a user and a game then match is a
  parameter.  The clock is read twice, for today and for yesterday.
\<close>

type_synonym entity_where = "nat \<Rightarrow> nat \<Rightarrow> js_error + (UserGameStats \<Rightarrow> bool)"

definition updateStats :: "stats_repo \<Rightarrow> entity_where \<Rightarrow> date_lib \<Rightarrow> int \<Rightarrow> int \<Rightarrow> nat option \<Rightarrow> nat \<Rightarrow> int \<Rightarrow> bool \<Rightarrow> unit stats_act" where
  "updateStats R W L now now' userId game earnedPoints won =
    (case userId of
       None \<Rightarrow> act_ret ()
     | Some user \<Rightarrow>
         if user = 0 then act_ret ()
         else act_bind (case W user game of Inl e \<Rightarrow> act_throw e | Inr cond \<Rightarrow> r_findOne R cond) (\<lambda>stats.
           let todayUTC = day_string L now; yesterdayUTC = day_string L (dl_subDays L now' 1)
           in act_seq (r_save R (case stats of None \<Rightarrow> first_stats user game earnedPoints won todayUTC
                | Some s \<Rightarrow> next_stats s earnedPoints won todayUTC yesterdayUTC)) (act_ret ())))"

section \<open>Queries\<close>

record UserStatsSummary =
  uy_userId :: nat
  uy_totalGamesPlayed :: nat
  uy_totalWins :: nat
  uy_totalPoints :: int
  uy_bestStreak :: nat
  uy_winRate :: rat

definition getStatsSummary :: "UserGameStats list \<Rightarrow> nat \<Rightarrow> UserStatsSummary option" where
  "getStatsSummary t userId =
    (let rows = filter (\<lambda>s. ug_user s = userId) t in
     if rows = [] then None
     else let totalGamesPlayed = sum_list (map ug_totalGamesPlayed rows); totalWins = sum_list (map ug_wins rows)
       in Some \<lparr>uy_userId = userId, uy_totalGamesPlayed = totalGamesPlayed, uy_totalWins = totalWins,
            uy_totalPoints = sum_list (map ug_points rows), uy_bestStreak = foldr max (map ug_longestStreak rows) 0,
            uy_winRate = (if 0 < totalGamesPlayed then div_d (of_nat totalWins) (of_nat totalGamesPlayed) else 0)\<rparr>)"

record GameRow =
  gr_id :: nat
  gr_slug :: string
  gr_name :: string

record UserGameStatRow =
  ur_gameId :: nat
  ur_gameSlug :: string
  ur_gameName :: string
  ur_gamesPlayed :: nat
  ur_wins :: nat
  ur_points :: int
  ur_currentStreak :: nat
  ur_longestStreak :: nat

text \<open>The inner join drops the statistics of a game that is gone; the order is the most played first.\<close>

definition game_of :: "GameRow list \<Rightarrow> nat \<Rightarrow> GameRow option" where
  "game_of games i = List.find (\<lambda>g. gr_id g = i) games"

definition stat_row :: "UserGameStats \<Rightarrow> GameRow \<Rightarrow> UserGameStatRow" where
  "stat_row s g = \<lparr>ur_gameId = gr_id g, ur_gameSlug = gr_slug g, ur_gameName = gr_name g, ur_gamesPlayed = ug_totalGamesPlayed s,
     ur_wins = ug_wins s, ur_points = ug_points s, ur_currentStreak = ug_currentStreak s, ur_longestStreak = ug_longestStreak s\<rparr>"

definition getStatsByGame :: "GameRow list \<Rightarrow> UserGameStats list \<Rightarrow> nat \<Rightarrow> UserGameStatRow list" where
  "getStatsByGame games t userId =
    sort_by (\<lambda>a b. ur_gamesPlayed a < ur_gamesPlayed b)
      (List.map_filter (\<lambda>s. map_option (stat_row s) (game_of games (ug_game s))) (filter (\<lambda>s. ug_user s = userId) t))"

record UserRecentSession =
  rs_sessionId :: "nat option"
  rs_gameSlug :: string
  rs_score :: int
  rs_status :: GameSessionStatus
  rs_playedAt :: int

definition recent_limit :: "jsnum \<Rightarrow> jsnum" where
  "recent_limit limit = num_max (num 1) (num_min limit (num 100))"

definition recent_row :: "GameSession \<Rightarrow> GameRow \<Rightarrow> UserRecentSession" where
  "recent_row s g = \<lparr>rs_sessionId = gs_id s, rs_gameSlug = gr_slug g, rs_score = gs_score s, rs_status = gs_status s, rs_playedAt = gs_playedAt s\<rparr>"

definition getRecentSessions :: "(jsnum \<Rightarrow> nat) \<Rightarrow> GameRow list \<Rightarrow> GameSession list \<Rightarrow> nat \<Rightarrow> jsnum \<Rightarrow> UserRecentSession list" where
  "getRecentSessions rowLimit games ss userId limit =
    take (rowLimit (recent_limit limit)) (sort_by (\<lambda>a b. rs_playedAt a < rs_playedAt b)
      (List.map_filter (\<lambda>s. map_option (recent_row s) (game_of games (gs_game s))) (filter (\<lambda>s. gs_user s = Some userId) ss)))"

section \<open>The numbers of a player\<close>

definition ug_key :: "UserGameStats \<Rightarrow> nat \<times> nat" where
  "ug_key s = (ug_user s, ug_game s)"

definition ug_body :: "UserGameStats \<Rightarrow> (nat \<times> nat) \<times> int \<times> nat \<times> nat \<times> nat \<times> string option \<times> nat" where
  "ug_body s = (ug_key s, ug_points s, ug_wins s, ug_currentStreak s, ug_longestStreak s, ug_lastPlayedDate s, ug_totalGamesPlayed s)"

text \<open>A condition that picks the rows by the two identifiers, as when no column of either entity is empty or changed.\<close>

definition by_ids :: entity_where where
  "by_ids user game = Inr (\<lambda>s. ug_user s = user \<and> ug_game s = game)"

text \<open>The date library of a server whose local days \<^verbatim>\<open>day\<close> begin \<^verbatim>\<open>ahead\<close> milliseconds before the universal ones.\<close>

definition zone_lib :: "(int \<Rightarrow> int) \<Rightarrow> (int \<Rightarrow> int) \<Rightarrow> (int \<Rightarrow> int \<Rightarrow> int) \<Rightarrow> date_lib" where
  "zone_lib day ahead sub = \<lparr>dl_startOfDay = (\<lambda>t. day t * DAY_MS - ahead (day t)), dl_subDays = sub\<rparr>"

definition utc_lib :: date_lib where
  "utc_lib = zone_lib (\<lambda>t. t div DAY_MS) (\<lambda>d. 0) (\<lambda>t n. t - n * DAY_MS)"

definition utc_day :: "int \<Rightarrow> int" where
  "utc_day t = t div DAY_MS"

lemma zone_day_string:
  assumes "0 \<le> ahead (day t)" "ahead (day t) < DAY_MS"
  shows "day_string (zone_lib day ahead sub) t = iso_date (if ahead (day t) = 0 then day t else day t - 1)"
proof -
  have "DAY_MS \<noteq> 0" by (simp add: DAY_MS_def)
  moreover have "(day t * DAY_MS - ahead (day t)) div DAY_MS = day t - 1" if "0 < ahead (day t)"
  proof -
    have "day t * DAY_MS - ahead (day t) = (DAY_MS - ahead (day t)) + DAY_MS * (day t - 1)" by (simp add: algebra_simps)
    also have "\<dots> div DAY_MS = day t - 1 + (DAY_MS - ahead (day t)) div DAY_MS"
      using assms(2) that by (intro div_mult_self2) simp
    also have "(DAY_MS - ahead (day t)) div DAY_MS = 0" using assms(2) that by (intro div_pos_pos_trivial) simp_all
    finally show ?thesis by simp
  qed
  ultimately show ?thesis using assms(1) by (auto simp: day_string_def zone_lib_def)
qed

text \<open>
  Where the clocks go forward an hour on the day \<^verbatim>\<open>d\<close>, as in London, that day and the next one print
  as the same date, so that a game on the next day does not extend the streak.
\<close>

lemma spring_forward_repeats_date:
  assumes "ahead d = 0" "ahead (d + 1) = 3600000" "day t = d" "day t' = d + 1"
  shows "day_string (zone_lib day ahead sub) t' = day_string (zone_lib day ahead sub) t"
    and "ug_lastPlayedDate s = Some (day_string (zone_lib day ahead sub) t) \<Longrightarrow>
      ug_currentStreak (next_stats s p won (day_string (zone_lib day ahead sub) t') y) = ug_currentStreak s"
proof -
  show eq: "day_string (zone_lib day ahead sub) t' = day_string (zone_lib day ahead sub) t"
    using zone_day_string [of ahead day t sub] zone_day_string [of ahead day t' sub] assms by (simp add: DAY_MS_def)
  show "ug_lastPlayedDate s = Some (day_string (zone_lib day ahead sub) t) \<Longrightarrow>
      ug_currentStreak (next_stats s p won (day_string (zone_lib day ahead sub) t') y) = ug_currentStreak s"
    unfolding eq by (simp add: next_stats_def Let_def)
qed

lemma utc_days: "day_string utc_lib t = iso_date (utc_day t)" "day_string utc_lib (dl_subDays utc_lib t 1) = iso_date (utc_day t - 1)"
proof -
  have "(t - DAY_MS) div DAY_MS = t div DAY_MS - 1"
    using div_mult_self1 [of DAY_MS t "- 1"] by (simp add: DAY_MS_def)
  moreover have "DAY_MS \<noteq> 0" by (simp add: DAY_MS_def)
  ultimately show "day_string utc_lib t = iso_date (utc_day t)" "day_string utc_lib (dl_subDays utc_lib t 1) = iso_date (utc_day t - 1)"
    by (simp_all add: utc_lib_def zone_lib_def utc_day_def day_string_def)
qed

text \<open>A game: when it ended, its points and whether it was won.\<close>

type_synonym play = "int \<times> int \<times> bool"

definition tracks :: "(int \<Rightarrow> int) \<Rightarrow> play list \<Rightarrow> UserGameStats \<Rightarrow> bool" where
  "tracks day plays s \<longleftrightarrow> plays \<noteq> [] \<and>
     ug_totalGamesPlayed s = length plays \<and> ug_points s = sum_list (map (\<lambda>p. fst (snd p)) plays) \<and>
     ug_wins s = length (filter (\<lambda>p. snd (snd p)) plays) \<and>
     ug_lastPlayedDate s = Some (iso_date (day (fst (last plays)))) \<and>
     longest_at ((\<lambda>p. day (fst p)) ` set plays) (day (fst (last plays))) (ug_currentStreak s) \<and>
     longest_run ((\<lambda>p. day (fst p)) ` set plays) (ug_longestStreak s)"

lemma tracks_body: "ug_body s = ug_body s' \<Longrightarrow> tracks day plays s = tracks day plays s'"
  by (simp add: tracks_def ug_body_def)

lemma first_tracks: "tracks day [(t, p, won)] (first_stats u g p won (iso_date (day t)))"
proof -
  have at_new: "longest_at {day t} (day t) 1" using longest_at_new [OF longest_at_absent, of "day t" "{}"] by simp
  then have "longest_run {day t} 1" using longest_run_new [of "{}" "day t" 0 1] longest_run_empty by simp
  then show ?thesis using at_new by (simp add: tracks_def first_stats_def)
qed

lemma next_tracks:
  assumes tr: "tracks day plays s" and sorted: "sorted (map (\<lambda>p. day (fst p)) plays @ [day t])"
    and four: "four_digit_day (day t)" "four_digit_day (day t - 1)" "\<forall>q \<in> set plays. four_digit_day (day (fst q))"
  shows "tracks day (plays @ [(t, p, won)]) (next_stats s p won (iso_date (day t)) (iso_date (day t - 1)))"
proof -
  let ?D = "(\<lambda>p. day (fst p)) ` set plays" and ?l = "day (fst (last plays))"
  have ne: "plays \<noteq> []" using tr by (simp add: tracks_def)
  then have last: "last plays \<in> set plays" by simp
  then have l: "?l \<in> ?D" "?l \<le> day t" "four_digit_day ?l" using sorted four(3) by (auto simp: sorted_wrt_append)
  have top: "x \<le> ?l" if "x \<in> ?D" for x
    using that sorted sorted_last [of "map (\<lambda>p. day (fst p)) plays" x] ne by (auto simp: sorted_wrt_append last_map)
  have d: "ug_lastPlayedDate s = Some (iso_date ?l)" and at_l: "longest_at ?D ?l (ug_currentStreak s)"
    and run: "longest_run ?D (ug_longestStreak s)" using tr by (simp_all add: tracks_def)
  let ?k = "ug_currentStreak (next_stats s p won (iso_date (day t)) (iso_date (day t - 1)))"
  have new: "longest_at (insert (day t) ?D) (day t) ?k \<and> longest_run (insert (day t) ?D) (max (ug_longestStreak s) ?k)"
  proof (cases "?l = day t")
    case True
    then have k: "?k = ug_currentStreak s" using d by (simp add: next_stats_def Let_def)
    have "run_of ?l (ug_currentStreak s) \<subseteq> ?D" using at_l by (simp add: longest_at_def)
    then have "ug_currentStreak s \<le> ug_longestStreak s" using run unfolding longest_run_def by blast
    then have "max (ug_longestStreak s) ?k = ug_longestStreak s" unfolding k by simp
    moreover have "insert (day t) ?D = ?D" using True l(1) by auto
    ultimately show ?thesis using at_l run True k by simp
  next
    case False
    then have lt: "?l < day t" using l(2) by simp
    have k: "?k = (if ?l = day t - 1 then ug_currentStreak s + 1 else 1)"
      using d False iso_date_inj [of ?l] l(3) four(1,2) by (auto simp: next_stats_def Let_def)
    have below: "\<forall>x \<in> ?D. x < day t" using top lt by force
    have at_new: "longest_at (insert (day t) ?D) (day t) ?k"
    proof (cases "?l = day t - 1")
      case True
      then show ?thesis using longest_at_new [of ?D "day t"] at_l k by simp
    next
      case no: False
      have "day t - 1 \<notin> ?D" using top [of "day t - 1"] lt no by auto
      then show ?thesis using longest_at_new [OF longest_at_absent] k no by simp
    qed
    then show ?thesis using longest_run_new [OF below run] by simp
  qed
  have "ug_longestStreak (next_stats s p won (iso_date (day t)) (iso_date (day t - 1))) = max (ug_longestStreak s) ?k"
    by (simp add: next_stats_def Let_def)
  then show ?thesis using new tr by (simp add: tracks_def) (simp add: next_stats_def Let_def)
qed

lemma updateStats_step:
  assumes R: "repo_ok ug_id ug_body R" "repo_reliable R" and wf: "keyed ug_id ug_key t0" and u: "0 < u"
  obtains t1 e where "updateStats R by_ids utc_lib t t (Some u) g p won t0 = (Inr (), t1)" "keyed ug_id ug_key t1" "row_of ug_key (u, g) t1 = Some e"
    "ug_body e = ug_body (case row_of ug_key (u, g) t0 of None \<Rightarrow> first_stats u g p won (iso_date (utc_day t))
      | Some s \<Rightarrow> next_stats s p won (iso_date (utc_day t)) (iso_date (utc_day t - 1)))"
    "\<And>k. k \<noteq> (u, g) \<Longrightarrow> row_of ug_key k t1 = row_of ug_key k t0"
proof -
  let ?row = "row_of ug_key (u, g) t0"
  let ?e = "case ?row of None \<Rightarrow> first_stats u g p won (iso_date (utc_day t)) | Some s \<Rightarrow> next_stats s p won (iso_date (utc_day t)) (iso_date (utc_day t - 1))"
  obtain x t0' where f: "r_findOne R (\<lambda>s. ug_key s = (u, g)) t0 = (Inr x, t0')" using reliable_findOne [OF R(2)] .
  then have x: "t0' = t0" "x = ?row" using findOne_row_of [OF R(1) wf f] by simp_all
  have q: "(\<lambda>s. ug_user s = u \<and> ug_game s = g) = (\<lambda>s. ug_key s = (u, g))" by (simp add: ug_key_def fun_eq_iff)
  obtain e t1 where s: "r_save R ?e t0 = (Inr e, t1)" using reliable_save [OF R(2)] .
  have days: "day_string utc_lib t = iso_date (utc_day t)" "day_string utc_lib (dl_subDays utc_lib t 1) = iso_date (utc_day t - 1)"
    by (rule utc_days)+
  have "updateStats R by_ids utc_lib t t (Some u) g p won t0 = (Inr (), t1)"
    using f s u unfolding x updateStats_def by_ids_def sum.case q option.case days Let_def by (simp add: act_seq_def act_bind_def act_ret_def)
  moreover have nk: "ug_key (next_stats s p won a b) = ug_key s" "ug_id (next_stats s p won a b) = ug_id s" for s a b
    by (simp_all add: ug_key_def next_stats_def Let_def)
  moreover have fk: "ug_key (first_stats u g p won a) = (u, g)" for a by (simp add: ug_key_def first_stats_def)
  have k: "ug_key ?e = (u, g)" using row_of_SomeD [of ug_key "(u, g)" t0] nk(1)
    by (cases ?row) (simp_all add: fk)
  have pk: "ug_id ?e = Option.bind (row_of ug_key (ug_key ?e) t0) ug_id"
    unfolding k by (cases ?row) (simp_all add: first_stats_def nk)
  have "keyed ug_id ug_key t1 \<and> ug_body e = ug_body ?e \<and> row_of ug_key (ug_key ?e) t1 = Some e \<and>
      (\<forall>k. k \<noteq> ug_key ?e \<longrightarrow> row_of ug_key k t1 = row_of ug_key k t0)"
    by (rule save_upsert [OF R(1) wf _ pk s]) (simp add: ug_body_def)
  ultimately show ?thesis using that unfolding k by blast
qed

fun play_all :: "stats_repo \<Rightarrow> nat \<Rightarrow> nat \<Rightarrow> play list \<Rightarrow> unit stats_act" where
  "play_all R u g [] = act_ret ()"
| "play_all R u g ((t, p, won) # plays) = act_seq (updateStats R by_ids utc_lib t t (Some u) g p won) (play_all R u g plays)"

lemma play_all_tracks:
  assumes R: "repo_ok ug_id ug_body R" "repo_reliable R" and u: "0 < u"
  shows "keyed ug_id ug_key t \<Longrightarrow> row_of ug_key (u, g) t = Some s \<Longrightarrow> tracks utc_day done s \<Longrightarrow>
    sorted (map (\<lambda>p. utc_day (fst p)) (done @ plays)) \<Longrightarrow>
    \<forall>q \<in> set (done @ plays). four_digit_day (utc_day (fst q)) \<and> four_digit_day (utc_day (fst q) - 1) \<Longrightarrow>
    \<exists>t' e. play_all R u g plays t = (Inr (), t') \<and> row_of ug_key (u, g) t' = Some e \<and> tracks utc_day (done @ plays) e \<and>
      (\<forall>k. k \<noteq> (u, g) \<longrightarrow> row_of ug_key k t' = row_of ug_key k t)"
proof (induction plays arbitrary: t s "done")
  case Nil
  then show ?case by (simp add: act_ret_def)
next
  case (Cons q plays)
  obtain m p won where q: "q = (m, p, won)" by (rule prod_cases3)
  obtain t1 e where st: "updateStats R by_ids utc_lib m m (Some u) g p won t = (Inr (), t1)" "keyed ug_id ug_key t1" "row_of ug_key (u, g) t1 = Some e"
    "ug_body e = ug_body (next_stats s p won (iso_date (utc_day m)) (iso_date (utc_day m - 1)))"
    "\<And>k. k \<noteq> (u, g) \<Longrightarrow> row_of ug_key k t1 = row_of ug_key k t"
    using updateStats_step [where t = m and p = p and won = won and g = g, OF R Cons.prems(1) u] Cons.prems(2) by (metis option.case(2))
  have "tracks utc_day (done @ [q]) (next_stats s p won (iso_date (utc_day m)) (iso_date (utc_day m - 1)))"
    unfolding q by (rule next_tracks [OF Cons.prems(3)]) (use Cons.prems(4,5) q in \<open>auto simp: sorted_wrt_append\<close>)
  then have "tracks utc_day (done @ [q]) e" using tracks_body [OF st(4)] by simp
  from Cons.IH [OF st(2,3) this] Cons.prems(4,5) st(1,5) show ?case by (fastforce simp: q act_seq_def act_bind_def)
qed

text \<open>
  On a server in universal time, when the lookup picks the rows by the identifiers: after the games
  of a player, recorded one after the other, the row of the player and the game counts the games,
  the points and the wins; the current streak is the run of consecutive days that ends on the last
  day played and the longest streak the longest run, and the rows of others are untouched.
\<close>

lemma player_statistics_exact:
  assumes R: "repo_ok ug_id ug_body R" "repo_reliable R" and wf: "keyed ug_id ug_key t"
    and u: "0 < u" "row_of ug_key (u, g) t = None" and plays: "plays \<noteq> []" "sorted (map (\<lambda>p. utc_day (fst p)) plays)"
    and four: "\<forall>q \<in> set plays. four_digit_day (utc_day (fst q)) \<and> four_digit_day (utc_day (fst q) - 1)"
  shows "\<exists>t' s. play_all R u g plays t = (Inr (), t') \<and> row_of ug_key (u, g) t' = Some s \<and> tracks utc_day plays s \<and>
    (\<forall>k. k \<noteq> (u, g) \<longrightarrow> row_of ug_key k t' = row_of ug_key k t)"
proof -
  obtain m p won rest where pl: "plays = (m, p, won) # rest" using plays(1) by (cases plays) auto
  obtain t1 e where st: "updateStats R by_ids utc_lib m m (Some u) g p won t = (Inr (), t1)" "keyed ug_id ug_key t1" "row_of ug_key (u, g) t1 = Some e"
    "ug_body e = ug_body (first_stats u g p won (iso_date (utc_day m)))" "\<And>k. k \<noteq> (u, g) \<Longrightarrow> row_of ug_key k t1 = row_of ug_key k t"
    using updateStats_step [where t = m and p = p and won = won and g = g, OF R wf u(1)] u(2) by (metis option.case(1))
  have "tracks utc_day [(m, p, won)] e" using tracks_body [OF st(4)] first_tracks by simp
  from play_all_tracks [OF R u(1) st(2,3) this, of rest] plays(2) four st(1,5) show ?thesis
    by (fastforce simp: pl act_seq_def act_bind_def)
qed

definition stats_mem :: stats_repo where
  "stats_mem = mem_repo ug_id (\<lambda>i s. s\<lparr>ug_id := Some i\<rparr>)"

lemma stats_mem_ok: "repo_ok ug_id ug_body stats_mem" "repo_reliable stats_mem"
  unfolding stats_mem_def by (rule mem_repo_ok; simp add: ug_body_def ug_key_def) (rule mem_repo_reliable)

text \<open>Two days in a row, the second one twice, then a day after a pause.\<close>

definition four_plays :: "play list" where
  "four_plays = [(0, 100, True), (DAY_MS, 50, False), (DAY_MS + 1000, 80, True), (5 * DAY_MS, 20, False)]"

lemma four_plays_counted:
  "\<exists>t' s. play_all stats_mem 1 1 four_plays [] = (Inr (), t') \<and> row_of ug_key (1, 1) t' = Some s \<and>
    ug_totalGamesPlayed s = 4 \<and> ug_points s = 250 \<and> ug_wins s = 2 \<and> longest_at {0, 1, 5} 5 (ug_currentStreak s) \<and>
    longest_run {0, 1, 5} (ug_longestStreak s)"
proof -
  have days: "map (\<lambda>p. utc_day (fst p)) four_plays = [0, 1, 1, 5]" by (simp add: four_plays_def DAY_MS_def utc_day_def)
  then have img: "(\<lambda>p. utc_day (fst p)) ` set four_plays = {0, 1, 5}" by (metis (no_types, lifting) image_set insert_absorb2 list.simps(15) list.set(1))
  have last: "utc_day (fst (last four_plays)) = 5" by (simp add: four_plays_def DAY_MS_def utc_day_def)
  have four: "\<forall>q \<in> set four_plays. four_digit_day (utc_day (fst q)) \<and> four_digit_day (utc_day (fst q) - 1)"
    by (simp add: four_plays_def DAY_MS_def utc_day_def four_digit_range)
  have "sorted (map (\<lambda>p. utc_day (fst p)) four_plays)" "four_plays \<noteq> []" by (simp add: days) (simp add: four_plays_def)
  from player_statistics_exact [OF stats_mem_ok keyed_Nil _ _ this(2,1) four, of 1 1]
  obtain t' s where "play_all stats_mem 1 1 four_plays [] = (Inr (), t')" "row_of ug_key (1, 1) t' = Some s"
    "tracks utc_day four_plays s" by auto
  then show ?thesis unfolding tracks_def img last by (auto simp: four_plays_def)
qed

text \<open>The win rate of the summary is a share, and the best streak is one of a game.\<close>

lemma summary_bounds:
  assumes "\<forall>s \<in> set t. ug_wins s \<le> ug_totalGamesPlayed s" "getStatsSummary t u = Some y"
  shows "0 \<le> uy_winRate y \<and> uy_winRate y \<le> 1 \<and> uy_totalWins y \<le> uy_totalGamesPlayed y"
proof -
  define wins games where "wins = sum_list (map ug_wins (filter (\<lambda>s. ug_user s = u) t))"
    and "games = sum_list (map ug_totalGamesPlayed (filter (\<lambda>s. ug_user s = u) t))"
  have w: "wins \<le> games" unfolding wins_def games_def by (rule sum_list_mono) (use assms(1) in simp)
  have y: "uy_totalWins y = wins" "uy_totalGamesPlayed y = games" "uy_winRate y = (if 0 < games then div_d (of_nat wins) (of_nat games) else 0)"
    using assms(2) unfolding getStatsSummary_def Let_def wins_def [symmetric] games_def [symmetric] by (auto split: if_splits)
  have "0 < games \<Longrightarrow> 0 \<le> div_d (of_nat wins) (of_nat games) \<and> div_d (of_nat wins) (of_nat games) \<le> 1"
    using to_double_le [of "of_nat wins / of_nat games" 1] w by (simp add: div_d_def divide_simps)
  then show ?thesis using w by (simp add: y)
qed

end
