(* ===== verification/Session_Analytics.thy ===== *)
theory Session_Analytics
  imports Js_Dates Js_Doubles Game_Sessions
begin

text \<open>
  The session analytics of the administrators (\<^verbatim>\<open>analytics/analytics.module.ts\<close>): the window of a
  query, the aggregate over the sessions and the cache of answers.  Reading the sessions, parsing a
  date string and the date function of the database are parameters; each query reads the table
  anew, and every reading of the clock is an argument of its own.
\<close>

section \<open>Moments\<close>

definition two_digits :: "int \<Rightarrow> string" where
  "two_digits n = pad_digits 2 (nat n)"

text \<open>\<^verbatim>\<open>toISOString\<close> of a moment.\<close>

definition iso_time :: "int \<Rightarrow> string" where
  "iso_time t = (let r = t mod DAY_MS in
     iso_date (t div DAY_MS) @ ''T'' @ two_digits (r div 3600000) @ '':'' @ two_digits (r div 60000 mod 60) @ '':'' @
       two_digits (r div 1000 mod 60) @ ''.'' @ pad_digits 3 (nat (r mod 1000)) @ ''Z'')"

section \<open>The aggregate\<close>

definition CACHE_TTL_MS :: int where "CACHE_TTL_MS = 10 * 60 * 1000"

definition DEFAULT_RANGE_DAYS :: int where "DEFAULT_RANGE_DAYS = 30"

record SessionAnalyticsQuery =
  aq_from :: "string option"
  aq_to :: "string option"

record SessionAnalyticsResult =
  ar_from :: string
  ar_to :: string
  ar_totalSessions :: nat
  ar_wonSessions :: nat
  ar_lostSessions :: nat
  ar_winRate :: rat
  ar_averageAttempts :: "rat option"
  ar_dailyActivePlayers :: "(string \<times> nat) list"
  ar_generatedAt :: string

type_synonym session_rows = "GameSession list"

definition in_range :: "int \<Rightarrow> int \<Rightarrow> session_rows \<Rightarrow> session_rows" where
  "in_range from' to ss = filter (\<lambda>s. from' \<le> gs_playedAt s \<and> gs_playedAt s \<le> to) ss"

text \<open>The last attempt of every won session with a history.\<close>

definition attempt_rows :: "session_rows \<Rightarrow> nat list" where
  "attempt_rows ss = map (\<lambda>s. foldr max (map gh_attemptNumber (gs_history s)) 0)
     (filter (\<lambda>s. gs_status s = WON \<and> gs_history s \<noteq> []) ss)"

definition average_attempts :: "nat list \<Rightarrow> rat option" where
  "average_attempts attempts = (if attempts = [] then None
     else Some (div_d (of_int (math_round (mult_d (div_d (of_nat (sum_list attempts)) (of_nat (length attempts))) 100))) 100))"

definition win_rate :: "nat \<Rightarrow> nat \<Rightarrow> rat" where
  "win_rate won lost = (let completed = won + lost in
     if 0 < completed then div_d (of_int (math_round (mult_d (div_d (of_nat won) (of_nat completed)) 10000))) 10000 else 0)"

text \<open>One row a day with its players, in the order of the dates; \<^verbatim>\<open>lt\<close> orders dates as the database does.\<close>

definition daily_rows :: "(int \<Rightarrow> string) \<Rightarrow> (string \<Rightarrow> string \<Rightarrow> bool) \<Rightarrow> session_rows \<Rightarrow> (string \<times> nat) list" where
  "daily_rows date_of lt ss =
    (let rows = filter (\<lambda>s. gs_user s \<noteq> None) ss;
         days = set_of (map (\<lambda>s. date_of (gs_playedAt s)) rows)
     in sort_by (\<lambda>a b. lt (fst b) (fst a))
          (map (\<lambda>d. (d, length (set_of (map gs_user (filter (\<lambda>s. date_of (gs_playedAt s) = d) rows))))) days))"

record analytics_deps =
  an_load :: "(session_rows, js_error, session_rows) act"
  an_date :: "int \<Rightarrow> string"
  an_before :: "string \<Rightarrow> string \<Rightarrow> bool"
  an_parse :: "string \<Rightarrow> int option"

definition aggregate_sessions :: "analytics_deps \<Rightarrow> int \<Rightarrow> int \<Rightarrow> int \<Rightarrow> (session_rows, js_error, SessionAnalyticsResult) act" where
  "aggregate_sessions D generated from' to =
    act_bind (an_load D) (\<lambda>s1. act_bind (an_load D) (\<lambda>s2. act_bind (an_load D) (\<lambda>s3. act_bind (an_load D) (\<lambda>s4. act_bind (an_load D) (\<lambda>s5.
      let won = length (filter (\<lambda>s. gs_status s = WON) (in_range from' to s2));
          lost = length (filter (\<lambda>s. gs_status s = LOST) (in_range from' to s3))
      in act_ret \<lparr>ar_from = iso_time from', ar_to = iso_time to, ar_totalSessions = length (in_range from' to s1), ar_wonSessions = won,
           ar_lostSessions = lost, ar_winRate = win_rate won lost, ar_averageAttempts = average_attempts (attempt_rows (in_range from' to s4)),
           ar_dailyActivePlayers = daily_rows (an_date D) (an_before D) (in_range from' to s5), ar_generatedAt = iso_time generated\<rparr>)))))"

section \<open>The cached answer\<close>

record cached_analytics =
  ca_expiresAt :: int
  ca_value :: SessionAnalyticsResult

record analytics =
  an_cache :: "(string, cached_analytics) jmap"
  an_sessions :: session_rows

text \<open>The readings of the clock: the end of the window, the check of the entry, its expiry, the answer's date.\<close>

record analytics_clock =
  ac_to :: int
  ac_check :: int
  ac_generated :: int
  ac_store :: int

definition moment_of :: "analytics_deps \<Rightarrow> string option \<Rightarrow> int \<Rightarrow> int option" where
  "moment_of D s d = (case s of Some x \<Rightarrow> if x = [] then Some d else an_parse D x | None \<Rightarrow> Some d)"

definition window_of :: "analytics_deps \<Rightarrow> int \<Rightarrow> SessionAnalyticsQuery \<Rightarrow> js_error + int \<times> int" where
  "window_of D now query =
    (let to = moment_of D (aq_to query) now;
         from' = (case aq_from query of
             Some x \<Rightarrow> if x = [] then map_option (\<lambda>t. t - DEFAULT_RANGE_DAYS * DAY_MS) to else an_parse D x
           | None \<Rightarrow> map_option (\<lambda>t. t - DEFAULT_RANGE_DAYS * DAY_MS) to)
     in case (from', to) of
          (Some f, Some t) \<Rightarrow> if t < f then Inl (BadRequestException ([CHR 0x22] @ ''from'' @ [CHR 0x22] @ '' must be before '' @ [CHR 0x22] @ ''to'' @ [CHR 0x22])) else Inr (f, t)
        | _ \<Rightarrow> Inl (BadRequestException ''Invalid date range''))"

definition window_key :: "int \<times> int \<Rightarrow> string" where
  "window_key w = iso_time (fst w) @ ''|'' @ iso_time (snd w)"

definition compute_summary :: "analytics_deps \<Rightarrow> analytics_clock \<Rightarrow> int \<times> int \<Rightarrow> (analytics, js_error, SessionAnalyticsResult) act" where
  "compute_summary D c w =
    act_bind (zoom an_sessions (\<lambda>t s. s\<lparr>an_sessions := t\<rparr>) (aggregate_sessions D (ac_generated c) (fst w) (snd w))) (\<lambda>v.
      act_seq (act_modify (\<lambda>s. s\<lparr>an_cache := jm_set (window_key w) \<lparr>ca_expiresAt = ac_store c + CACHE_TTL_MS, ca_value = v\<rparr> (an_cache s)\<rparr>))
        (act_ret v))"

definition getSummary :: "analytics_deps \<Rightarrow> analytics_clock \<Rightarrow> SessionAnalyticsQuery \<Rightarrow> (analytics, js_error, SessionAnalyticsResult) act" where
  "getSummary D c query s = (case window_of D (ac_to c) query of
      Inl e \<Rightarrow> (Inl e, s)
    | Inr w \<Rightarrow> (case jm_get (window_key w) (an_cache s) of
          Some e \<Rightarrow> if ac_check c < ca_expiresAt e then (Inr (ca_value e), s) else compute_summary D c w s
        | None \<Rightarrow> compute_summary D c w s))"

section \<open>Bounds of the aggregate\<close>

lemma math_round_le: "x \<le> of_int n \<Longrightarrow> math_round x \<le> n" and math_round_ge0: "0 \<le> x \<Longrightarrow> 0 \<le> math_round x"
proof -
  assume "x \<le> of_int n"
  then have "x + 1 / 2 < of_int (n + 1)" by simp
  then show "math_round x \<le> n" unfolding math_round_def by (metis floor_less_iff zle_add1_eq_le)
next
  assume "0 \<le> x"
  then show "0 \<le> math_round x" unfolding math_round_def by simp
qed

text \<open>A number of at most \<^verbatim>\<open>n\<close>, rounded to a decimal fraction, stays between 0 and \<^verbatim>\<open>n\<close>.\<close>

lemma rounded_bounds:
  assumes x: "0 \<le> x" "x \<le> of_int n" and k: "0 < k" "n * k < 2 ^ 53"
  shows "0 \<le> div_d (of_int (math_round (mult_d x (of_int k)))) (of_int k) \<and> div_d (of_int (math_round (mult_d x (of_int k)))) (of_int k) \<le> of_int n"
proof -
  have n: "0 \<le> n" using x by (metis of_int_0_le_iff order_trans)
  have nk: "n < 2 ^ 53" using mult_left_mono [of 1 k n] n k by simp
  have "x * of_int k \<le> of_int (n * k)" using mult_right_mono [OF x(2), of "of_int k"] k(1) by simp
  then have m: "0 \<le> mult_d x (of_int k)" "mult_d x (of_int k) \<le> of_int (n * k)"
    using to_double_le [of "x * of_int k" "n * k"] x(1) k by (simp_all add: mult_d_def)
  let ?r = "math_round (mult_d x (of_int k))"
  have r: "0 \<le> ?r" "?r \<le> n * k" using math_round_ge0 [OF m(1)] math_round_le [OF m(2)] by simp_all
  then have "(of_int ?r :: rat) \<le> of_int (n * k)" by (simp only: of_int_le_iff)
  then have "of_int ?r / of_int k \<le> (of_int n :: rat)" "0 \<le> of_int ?r / (of_int k :: rat)" using k(1) r(1) by (simp_all add: divide_simps)
  then show ?thesis using to_double_le [of "of_int ?r / of_int k" n] nk by (simp add: div_d_def)
qed

lemma win_rate_bounds: "0 \<le> win_rate won lost \<and> win_rate won lost \<le> 1"
proof (cases "won + lost = 0")
  case False
  have "0 \<le> div_d (of_nat won) (of_nat (won + lost))" "div_d (of_nat won) (of_nat (won + lost)) \<le> of_int 1"
    using to_double_le [of "of_nat won / of_nat (won + lost)" 1] False by (simp_all add: div_d_def divide_simps)
  from rounded_bounds [OF this, of 10000] show ?thesis using False by (simp add: win_rate_def Let_def)
qed (simp add: win_rate_def)

lemma average_attempts_bounds:
  assumes "average_attempts attempts = Some a" "\<forall>n \<in> set attempts. n \<le> 6"
  shows "0 \<le> a \<and> a \<le> 6"
proof -
  have ne: "attempts \<noteq> []" using assms(1) by (auto simp: average_attempts_def)
  have "sum_list attempts \<le> 6 * length attempts" using assms(2) by (induction attempts) auto
  then have s: "of_nat (sum_list attempts) \<le> (6 * of_nat (length attempts) :: rat)" by (metis of_nat_le_iff of_nat_mult of_nat_numeral)
  have "0 \<le> div_d (of_nat (sum_list attempts)) (of_nat (length attempts))" "div_d (of_nat (sum_list attempts)) (of_nat (length attempts)) \<le> of_int 6"
    using to_double_le [of "of_nat (sum_list attempts) / of_nat (length attempts)" 6] s ne by (simp_all add: div_d_def divide_simps)
  from rounded_bounds [OF this, of 100] show ?thesis using assms(1) ne by (simp add: average_attempts_def)
qed

text \<open>On a table that is read the same each time, the counts are consistent.\<close>

lemma aggregate_counts:
  assumes "\<And>t. an_load D t = (Inr ss, t)" "aggregate_sessions D g f u t = (Inr v, t')"
  shows "ar_wonSessions v + ar_lostSessions v \<le> ar_totalSessions v \<and> 0 \<le> ar_winRate v \<and> ar_winRate v \<le> 1 \<and>
    ar_dailyActivePlayers v = daily_rows (an_date D) (an_before D) (in_range f u ss)"
proof -
  have "length (filter (\<lambda>s. gs_status s = WON) xs) + length (filter (\<lambda>s. gs_status s = LOST) xs) \<le> length xs" for xs
    by (induction xs) auto
  then show ?thesis using assms(2) win_rate_bounds by (auto simp: aggregate_sessions_def assms(1) Let_def act_ret_def)
qed

text \<open>Every day with a player is listed once, with the number of its players.\<close>

lemma daily_rows_exact:
  "distinct (map fst (daily_rows date lt ss)) \<and>
   set (daily_rows date lt ss) = {(d, card {u. \<exists>s \<in> set ss. gs_user s = Some u \<and> date (gs_playedAt s) = d}) | d.
      \<exists>s \<in> set ss. gs_user s \<noteq> None \<and> date (gs_playedAt s) = d}"
proof -
  define rows where "rows = filter (\<lambda>s. gs_user s \<noteq> None) ss"
  define players where "players d = length (set_of (map gs_user (filter (\<lambda>s. date (gs_playedAt s) = d) rows)))" for d
  define days where "days = set_of (map (\<lambda>s. date (gs_playedAt s)) rows)"
  have D: "mset (daily_rows date lt ss) = mset (map (\<lambda>d. (d, players d)) days)"
    by (simp add: daily_rows_def Let_def rows_def players_def days_def)
  have "players d = card {u. \<exists>s \<in> set ss. gs_user s = Some u \<and> date (gs_playedAt s) = d}" for d
  proof -
    have "set (map gs_user (filter (\<lambda>s. date (gs_playedAt s) = d) rows)) = Some ` {u. \<exists>s \<in> set ss. gs_user s = Some u \<and> date (gs_playedAt s) = d}"
      by (force simp: rows_def)
    then have "players d = card (Some ` {u. \<exists>s \<in> set ss. gs_user s = Some u \<and> date (gs_playedAt s) = d})"
      unfolding players_def by (metis distinct_card distinct_set_of set_set_of)
    then show ?thesis by (simp add: card_image)
  qed
  then have p: "(\<lambda>d. (d, players d)) = (\<lambda>d. (d, card {u. \<exists>s \<in> set ss. gs_user s = Some u \<and> date (gs_playedAt s) = d}))" by blast
  have "mset (map fst (daily_rows date lt ss)) = mset (map fst (map (\<lambda>d. (d, players d)) days))"
    unfolding mset_map [of fst] D by simp
  then have "mset (map fst (daily_rows date lt ss)) = mset days" by (simp add: comp_def)
  then have "distinct (map fst (daily_rows date lt ss))" using distinct_set_of mset_eq_imp_distinct_iff unfolding days_def by blast
  moreover have "set (daily_rows date lt ss) = (\<lambda>d. (d, players d)) ` set days" using arg_cong [OF D, of set_mset] by simp
  moreover have "set days = {d. \<exists>s \<in> set ss. gs_user s \<noteq> None \<and> date (gs_playedAt s) = d}" by (auto simp: days_def set_set_of rows_def)
  ultimately show ?thesis unfolding p by auto
qed

section \<open>Windows and the cache\<close>

lemma pad_inj: "m < 10 ^ k \<Longrightarrow> n < 10 ^ k \<Longrightarrow> pad_digits k m = pad_digits k n \<Longrightarrow> m = n"
  using read_pad_digits by metis

text \<open>A moment of the day as hours, minutes, seconds and thousandths.\<close>

lemma clock_parts:
  assumes "0 \<le> r" "r < DAY_MS"
  shows "nat (r div 3600000) < 100 \<and> nat (r div 60000 mod 60) < 100 \<and> nat (r div 1000 mod 60) < 100 \<and> nat (r mod 1000) < 1000 \<and>
    r = 3600000 * (r div 3600000) + 60000 * (r div 60000 mod 60) + 1000 * (r div 1000 mod 60) + r mod 1000"
proof -
  define ms s m h where "ms = r mod 1000" and "s = r div 1000 mod 60" and "m = r div 60000 mod 60" and "h = r div 3600000"
  have "r = 1000 * (r div 1000) + ms" by (simp add: ms_def)
  moreover have "r div 1000 = 60 * (r div 60000) + s" using mult_div_mod_eq [of 60 "r div 1000"] by (simp add: s_def zdiv_zmult2_eq [symmetric])
  moreover have "r div 60000 = 60 * h + m" using mult_div_mod_eq [of 60 "r div 60000"] by (simp add: m_def h_def zdiv_zmult2_eq [symmetric])
  ultimately have r: "r = 3600000 * h + 60000 * m + 1000 * s + ms" by linarith
  have "0 \<le> h" using assms(1) by (simp add: h_def pos_imp_zdiv_nonneg_iff)
  have "0 \<le> ms" "ms < 1000" "0 \<le> s" "s < 60" "0 \<le> m" "m < 60" by (simp_all add: ms_def s_def m_def)
  then have "h < 24" using r assms(2) unfolding DAY_MS_def by linarith
  then have "nat h < 100 \<and> nat m < 100 \<and> nat s < 100 \<and> nat ms < 1000" using \<open>0 \<le> h\<close> \<open>ms < 1000\<close> \<open>s < 60\<close> \<open>m < 60\<close> by linarith
  then show ?thesis using r unfolding ms_def s_def m_def h_def by blast
qed

lemma iso_time_inj:
  assumes d: "four_digit_day (t div DAY_MS)" "four_digit_day (t' div DAY_MS)" and e: "iso_time t = iso_time t'"
  shows "t = t'"
proof -
  let ?r = "t mod DAY_MS" and ?r' = "t' mod DAY_MS"
  have "iso_date (t div DAY_MS) = iso_date (t' div DAY_MS)" using arg_cong [OF e, of "take 10"] length_iso_date d by (simp add: iso_time_def Let_def)
  then have day: "t div DAY_MS = t' div DAY_MS" by (rule iso_date_inj [OF d])
  have parts: "pad_digits 2 (nat (?r div 3600000)) = pad_digits 2 (nat (?r' div 3600000))"
    "pad_digits 2 (nat (?r div 60000 mod 60)) = pad_digits 2 (nat (?r' div 60000 mod 60))"
    "pad_digits 2 (nat (?r div 1000 mod 60)) = pad_digits 2 (nat (?r' div 1000 mod 60))"
    "pad_digits 3 (nat (?r mod 1000)) = pad_digits 3 (nat (?r' mod 1000))"
    using e unfolding iso_time_def Let_def day two_digits_def by (simp_all del: pad_digits.simps)
  have pos: "0 \<le> ?r" "?r < DAY_MS" "0 \<le> ?r'" "?r' < DAY_MS" by (simp_all add: DAY_MS_def)
  note b = clock_parts [OF pos(1,2), THEN conjunct1] clock_parts [OF pos(1,2), THEN conjunct2, THEN conjunct1]
    clock_parts [OF pos(1,2), THEN conjunct2, THEN conjunct2, THEN conjunct1] clock_parts [OF pos(1,2), THEN conjunct2, THEN conjunct2, THEN conjunct2, THEN conjunct1]
  note b' = clock_parts [OF pos(3,4), THEN conjunct1] clock_parts [OF pos(3,4), THEN conjunct2, THEN conjunct1]
    clock_parts [OF pos(3,4), THEN conjunct2, THEN conjunct2, THEN conjunct1] clock_parts [OF pos(3,4), THEN conjunct2, THEN conjunct2, THEN conjunct2, THEN conjunct1]
  have sum: "r = 3600000 * (r div 3600000) + 60000 * (r div 60000 mod 60) + 1000 * (r div 1000 mod 60) + r mod 1000"
    if "0 \<le> r" "r < DAY_MS" for r using clock_parts [OF that] by blast
  have two: "(100 :: nat) = 10 ^ 2" "(1000 :: nat) = 10 ^ 3" by simp_all
  have "nat (?r div 3600000) = nat (?r' div 3600000)" by (rule pad_inj [OF b(1) [unfolded two] b'(1) [unfolded two] parts(1)])
  moreover have "nat (?r div 60000 mod 60) = nat (?r' div 60000 mod 60)" by (rule pad_inj [OF b(2) [unfolded two] b'(2) [unfolded two] parts(2)])
  moreover have "nat (?r div 1000 mod 60) = nat (?r' div 1000 mod 60)" by (rule pad_inj [OF b(3) [unfolded two] b'(3) [unfolded two] parts(3)])
  moreover have "nat (?r mod 1000) = nat (?r' mod 1000)" by (rule pad_inj [OF b(4) [unfolded two(2)] b'(4) [unfolded two(2)] parts(4)])
  moreover have "0 \<le> ?r div 3600000" "0 \<le> ?r' div 3600000" using pos(1,3) by (simp_all only: pos_imp_zdiv_nonneg_iff zero_less_numeral)
  moreover have "0 \<le> ?r div 60000 mod 60" "0 \<le> ?r' div 60000 mod 60" "0 \<le> ?r div 1000 mod 60" "0 \<le> ?r' div 1000 mod 60"
    "0 \<le> ?r mod 1000" "0 \<le> ?r' mod 1000" by (simp_all only: pos_mod_sign zero_less_numeral)
  ultimately have "?r div 3600000 = ?r' div 3600000" "?r div 60000 mod 60 = ?r' div 60000 mod 60" "?r div 1000 mod 60 = ?r' div 1000 mod 60"
    "?r mod 1000 = ?r' mod 1000" by (simp_all only: eq_nat_nat_iff)
  then have "?r = ?r'" using sum [OF pos(1,2)] sum [OF pos(3,4)] by metis
  then show ?thesis using day by (metis div_mult_mod_eq)
qed

lemma length_iso_time: "four_digit_day (t div DAY_MS) \<Longrightarrow> length (iso_time t) = 24"
  by (simp add: iso_time_def Let_def length_iso_date two_digits_def del: pad_digits.simps)

definition window_ok :: "int \<times> int \<Rightarrow> bool" where
  "window_ok w \<longleftrightarrow> four_digit_day (fst w div DAY_MS) \<and> four_digit_day (snd w div DAY_MS)"

lemma window_key_inj:
  assumes "window_ok w" "window_ok w'" "window_key w = window_key w'"
  shows "w = w'"
proof -
  have l: "length (iso_time (fst w)) = length (iso_time (fst w'))" using assms(1,2) by (simp add: window_ok_def length_iso_time)
  then have "iso_time (fst w) = iso_time (fst w')" "iso_time (snd w) = iso_time (snd w')" using assms(3) by (simp_all add: window_key_def)
  then show ?thesis using iso_time_inj assms(1,2) unfolding window_ok_def by (metis prod_eqI)
qed

text \<open>A sequence of queries, with the answers they got and the windows whose aggregate was computed.\<close>

type_synonym analytics_request = "analytics_clock \<times> SessionAnalyticsQuery"

fun serve_queries :: "analytics_deps \<Rightarrow> analytics_request list \<Rightarrow> analytics \<Rightarrow> (js_error + SessionAnalyticsResult) list \<times> analytics" where
  "serve_queries D [] s = ([], s)"
| "serve_queries D ((c, q) # reqs) s = (let (r, s1) = getSummary D c q s; (rs, s2) = serve_queries D reqs s1 in (r # rs, s2))"

definition default_query :: SessionAnalyticsQuery where
  "default_query = \<lparr>aq_from = None, aq_to = None\<rparr>"

definition default_window :: "int \<Rightarrow> int \<times> int" where
  "default_window now = (now - DEFAULT_RANGE_DAYS * DAY_MS, now)"

lemma default_computes:
  assumes "\<And>k e. jm_get k (an_cache s) = Some e \<Longrightarrow> k \<noteq> window_key (default_window (ac_to c))"
  shows "getSummary D c default_query s = compute_summary D c (default_window (ac_to c)) s"
proof -
  have w: "window_of D (ac_to c) default_query = Inr (default_window (ac_to c))"
    by (simp add: window_of_def moment_of_def default_query_def default_window_def DEFAULT_RANGE_DAYS_def DAY_MS_def)
  have "jm_get (window_key (default_window (ac_to c))) (an_cache s) = None" using assms by (metis option.exhaust)
  then show ?thesis by (simp add: getSummary_def w)
qed

lemma compute_keys:
  assumes "compute_summary D c w s = (r, s')"
  shows "(isl r \<and> an_cache s' = an_cache s) \<or> (\<exists>e. \<not> isl r \<and> an_cache s' = jm_set (window_key w) e (an_cache s))"
proof -
  obtain x s1 where a: "zoom an_sessions (\<lambda>t s. s\<lparr>an_sessions := t\<rparr>) (aggregate_sessions D (ac_generated c) (fst w) (snd w)) s = (x, s1)"
    by (rule prod.exhaust)
  then have "an_cache s1 = an_cache s" by (auto simp: zoom_def split: prod.splits)
  then show ?thesis using assms a by (cases x) (auto simp: compute_summary_def act_seq_def act_bind_def act_modify_def act_ret_def)
qed

text \<open>
  The window of a query without bounds ends at the moment of the query, so its answer is never
  taken from the cache: the answers to such queries at different moments are all computed, and each
  leaves an entry behind that no later query of the kind reads.
\<close>

theorem default_queries_never_cached:
  assumes "distinct (map (\<lambda>c. ac_to c) cs)" "\<forall>c \<in> set cs. window_ok (default_window (ac_to c))" "\<And>t. an_load D t = (Inr t, t)"
    and "\<forall>c \<in> set cs. \<forall>k e. jm_get k (an_cache s) = Some e \<longrightarrow> k \<noteq> window_key (default_window (ac_to c))"
    and "serve_queries D (map (\<lambda>c. (c, default_query)) cs) s = (rs, s')"
  shows "length (an_cache s') = length (an_cache s) + length cs"
  using assms(1,2,4,5)
proof (induction cs arbitrary: s rs)
  case (Cons c cs)
  let ?k = "window_key (default_window (ac_to c))"
  obtain r s1 where g: "getSummary D c default_query s = (r, s1)" by (rule prod.exhaust)
  obtain rs2 s2 where rest: "serve_queries D (map (\<lambda>c. (c, default_query)) cs) s1 = (rs2, s2)" by (rule prod.exhaust)
  have s2: "s2 = s'" using Cons.prems(4) g rest by simp
  have comp: "compute_summary D c (default_window (ac_to c)) s = (r, s1)"
    using default_computes [of s c D] Cons.prems(3) g by simp
  have "\<not> isl r" using comp by (auto simp: compute_summary_def aggregate_sessions_def zoom_def assms(3) act_defs Let_def)
  then obtain e where e: "an_cache s1 = jm_set ?k e (an_cache s)" using compute_keys [OF comp] by blast
  have none: "jm_get ?k (an_cache s) = None" using Cons.prems(3) by (metis list.set_intros(1) option.exhaust)
  have "\<forall>c' \<in> set cs. \<forall>k e. jm_get k (an_cache s1) = Some e \<longrightarrow> k \<noteq> window_key (default_window (ac_to c'))"
  proof (intro ballI allI impI)
    fix c' k e' assume c': "c' \<in> set cs" and j: "jm_get k (an_cache s1) = Some e'"
    show "k \<noteq> window_key (default_window (ac_to c'))"
    proof (cases "k = ?k")
      case True
      have "ac_to c' \<noteq> ac_to c" using Cons.prems(1) c' by (metis distinct.simps(2) imageI list.set_map list.simps(9))
      then have "default_window (ac_to c') \<noteq> default_window (ac_to c)" by (simp add: default_window_def)
      then show ?thesis using window_key_inj Cons.prems(2) c' True by (metis list.set_intros)
    next
      case False
      then show ?thesis using Cons.prems(3) c' j e by simp
    qed
  qed
  then have "length (an_cache s2) = length (an_cache s1) + length cs" using Cons.IH [of s1 rs2] Cons.prems(1,2) rest s2 by simp
  moreover have "length (an_cache s1) = length (an_cache s) + 1" using jm_set_new [OF none] e by simp
  ultimately show ?case using s2 by simp
qed simp

definition clock_at :: "int \<Rightarrow> analytics_clock" where
  "clock_at t = \<lparr>ac_to = t, ac_check = t, ac_generated = t, ac_store = t\<rparr>"

definition plain_analytics :: analytics_deps where
  "plain_analytics = \<lparr>an_load = (\<lambda>t. (Inr t, t)), an_date = (\<lambda>t. iso_date (t div DAY_MS)), an_before = (\<lambda>a b. unitCompare a b < 0),
     an_parse = (\<lambda>_. None)\<rparr>"

theorem default_queries_never_cached_witness:
  "length (an_cache (snd (serve_queries plain_analytics (map (\<lambda>c. (c, default_query)) (map clock_at [0, 1, 2])) \<lparr>an_cache = [], an_sessions = []\<rparr>))) = 3"
proof -
  let ?cs = "map clock_at [0, 1, 2]" and ?s = "\<lparr>an_cache = [], an_sessions = []\<rparr>"
  obtain rs s' where run: "serve_queries plain_analytics (map (\<lambda>c. (c, default_query)) ?cs) ?s = (rs, s')" by (rule prod.exhaust)
  have "distinct (map (\<lambda>c. ac_to c) ?cs)" by (simp add: clock_at_def)
  moreover have "\<forall>c \<in> set ?cs. window_ok (default_window (ac_to c))"
    by (simp add: clock_at_def window_ok_def default_window_def DEFAULT_RANGE_DAYS_def DAY_MS_def four_digit_range)
  moreover have "an_load plain_analytics t = (Inr t, t)" for t by (simp add: plain_analytics_def)
  ultimately have "length (an_cache s') = length (an_cache ?s) + length ?cs"
    using default_queries_never_cached [OF _ _ _ _ run] by simp
  then show ?thesis using run by simp
qed

end
