(* ===== verification/Http_Errors.thy ===== *)
theory Http_Errors
  imports Js_Values
begin

text \<open>
  How an exception becomes an answer: the global filter
  (\<^verbatim>\<open>common/filters/global-exception.filter.ts\<close>), the older filter
  (\<^verbatim>\<open>backend/common/filters/http-exception.filter.ts\<close>), and the validation pipe
  (\<^verbatim>\<open>common/pipes/validation.pipe.ts\<close>) whose exception the filter renders.
\<close>

section \<open>Exceptions\<close>

text \<open>An exception of the framework with its status and response, another error, or any thrown value.\<close>

datatype thrown_value = HttpExc nat js string | PlainError string | ThrownValue js

record ErrorResponseBody =
  eb_statusCode :: nat
  eb_message :: js
  eb_error :: js
  eb_timestamp :: string
  eb_path :: string
  eb_errors :: "js list option"

definition has_prop :: "js_record \<Rightarrow> string \<Rightarrow> bool" where
  "has_prop r k \<longleftrightarrow> map_of r k \<noteq> None"

text \<open>\<^verbatim>\<open>JSON.stringify\<close> of a single value, which is \<^verbatim>\<open>undefined\<close> for \<^verbatim>\<open>undefined\<close>.\<close>

definition json_of :: "host \<Rightarrow> js \<Rightarrow> js" where
  "json_of h v = (if v = Undef then Undef else Str (stringify h v))"

definition js_join :: "host \<Rightarrow> string \<Rightarrow> js list \<Rightarrow> string" where
  "js_join h sep xs = intersperse sep (map (\<lambda>x. if nullish x then [] else js_String h x) xs)"

section \<open>The global filter\<close>

definition response_status :: "thrown_value \<Rightarrow> nat" where
  "response_status e = (case e of HttpExc s _ _ \<Rightarrow> s | _ \<Rightarrow> 500)"

definition response_of :: "thrown_value \<Rightarrow> js" where
  "response_of e = (case e of HttpExc _ r _ \<Rightarrow> r | _ \<Rightarrow> Null)"

definition error_text :: "thrown_value \<Rightarrow> string option" where
  "error_text e = (case e of HttpExc _ _ m \<Rightarrow> Some m | PlainError m \<Rightarrow> Some m | ThrownValue _ \<Rightarrow> None)"

definition object_message :: "host \<Rightarrow> js_record \<Rightarrow> js" where
  "object_message h r = (case get_prop r ''message'' of
      Arr xs \<Rightarrow> Str (js_join h '', '' xs)
    | Str s \<Rightarrow> Str s
    | v \<Rightarrow> json_of h v)"

definition object_error :: "host \<Rightarrow> js_record \<Rightarrow> js" where
  "object_error h r = (case get_prop r ''error'' of
      Str s \<Rightarrow> Str s
    | Undef \<Rightarrow> object_message h r
    | v \<Rightarrow> json_of h v)"

definition internal_message :: "bool \<Rightarrow> thrown_value \<Rightarrow> js" where
  "internal_message production e = (case error_text e of
      Some m \<Rightarrow> if production then Str ''Internal server error'' else Str m
    | None \<Rightarrow> Str ''Internal server error'')"

definition message_and_error :: "host \<Rightarrow> bool \<Rightarrow> thrown_value \<Rightarrow> js \<times> js" where
  "message_and_error h production e = (case response_of e of
      Str s \<Rightarrow> (Str s, Str s)
    | Obj r \<Rightarrow> if has_prop r ''message'' then (object_message h r, object_error h r)
        else (internal_message production e, internal_message production e)
    | _ \<Rightarrow> (internal_message production e, internal_message production e))"

definition response_errors :: "js \<Rightarrow> js list option" where
  "response_errors r = (case r of
      Obj kvs \<Rightarrow> (case get_prop kvs ''errors'' of Arr xs \<Rightarrow> Some xs | _ \<Rightarrow> None)
    | _ \<Rightarrow> None)"

definition error_answer :: "host \<Rightarrow> bool \<Rightarrow> string \<Rightarrow> string \<Rightarrow> thrown_value \<Rightarrow> ErrorResponseBody" where
  "error_answer h production timestamp url e =
    (let (message, error) = message_and_error h production e
     in \<lparr>eb_statusCode = response_status e, eb_message = message, eb_error = error, eb_timestamp = timestamp, eb_path = url,
         eb_errors = response_errors (response_of e)\<rparr>)"

text \<open>What the filter logs: the text of a server error and of no other.\<close>

definition error_log :: "host \<Rightarrow> thrown_value \<Rightarrow> string option" where
  "error_log h e = (if 500 \<le> response_status e then Some (case e of HttpExc _ _ m \<Rightarrow> m | PlainError m \<Rightarrow> m | ThrownValue v \<Rightarrow> js_String h v) else None)"

section \<open>The older filter\<close>

record error_request =
  hr_url :: string
  hr_method :: string
  hr_headers :: "(string \<times> string) list"

definition legacy_message :: "host \<Rightarrow> thrown_value \<Rightarrow> js" where
  "legacy_message h e = (case response_of e of
      Str s \<Rightarrow> Str s
    | Obj r \<Rightarrow> if has_prop r ''message'' then (case get_prop r ''message'' of Arr xs \<Rightarrow> Str (js_join h '', '' xs) | v \<Rightarrow> v)
        else (case error_text e of Some m \<Rightarrow> Str m | None \<Rightarrow> Str ''Internal server error'')
    | _ \<Rightarrow> (case error_text e of Some m \<Rightarrow> Str m | None \<Rightarrow> Str ''Internal server error''))"

definition header_or :: "(string \<times> string) list \<Rightarrow> string \<Rightarrow> string \<Rightarrow> string" where
  "header_or hs k d = (case map_of hs k of Some v \<Rightarrow> if v = [] then d else v | None \<Rightarrow> d)"

definition legacy_correlation :: "error_request \<Rightarrow> string" where
  "legacy_correlation q = header_or (hr_headers q) ''x-correlation-id'' (header_or (hr_headers q) ''x-request-id'' ''n/a'')"

definition legacy_answer :: "host \<Rightarrow> string \<Rightarrow> error_request \<Rightarrow> thrown_value \<Rightarrow> js_record" where
  "legacy_answer h timestamp q e = [(''statusCode'', Num (num (int (response_status e)))), (''timestamp'', Str timestamp),
     (''path'', Str (hr_url q)), (''message'', legacy_message h e)]"

definition legacy_log :: "host \<Rightarrow> string \<Rightarrow> error_request \<Rightarrow> thrown_value \<Rightarrow> string" where
  "legacy_log h timestamp q e = stringify h (Obj [(''timestamp'', Str timestamp), (''path'', Str (hr_url q)), (''method'', Str (hr_method q)),
     (''statusCode'', Num (num (int (response_status e)))), (''correlationId'', Str (legacy_correlation q)), (''message'', legacy_message h e)])"

section \<open>The validation pipe\<close>

datatype ValidationError =
  ValidationError (ve_property: string) (ve_constraints: "(string \<times> string) list option") (ve_children: "ValidationError list")

record FieldError =
  fe_field :: string
  fe_constraints :: "string list"

definition field_path :: "string \<Rightarrow> string \<Rightarrow> string" where
  "field_path parent p = (if parent = [] then p
     else if p \<noteq> [] \<and> list_all is_digit p then parent @ ''['' @ p @ '']'' else parent @ ''.'' @ p)"

fun flatten_error :: "string \<Rightarrow> ValidationError \<Rightarrow> FieldError list" where
  "flatten_error parent (ValidationError p constraints children) =
    (let field = field_path parent p;
         own = (case constraints of Some cs \<Rightarrow> [\<lparr>fe_field = field, fe_constraints = map snd cs\<rparr>] | None \<Rightarrow> [])
     in own @ concat (map (flatten_error field) children))"

definition flattenValidationErrors :: "ValidationError list \<Rightarrow> FieldError list" where
  "flattenValidationErrors errors = concat (map (flatten_error []) errors)"

definition field_json :: "FieldError \<Rightarrow> js" where
  "field_json f = Obj [(''field'', Str (fe_field f)), (''constraints'', Arr (map Str (fe_constraints f)))]"

definition validation_exception :: "ValidationError list \<Rightarrow> thrown_value" where
  "validation_exception errors =
    (let fieldErrors = flattenValidationErrors errors
     in HttpExc 422 (Obj [(''statusCode'', Num (num 422)), (''error'', Str ''Unprocessable Entity''),
          (''message'', Arr (map Str (concat (map fe_constraints fieldErrors)))), (''errors'', Arr (map field_json fieldErrors))])
        ''Unprocessable Entity Exception'')"

text \<open>The rate limiter's interceptor: an error 429 without the header gets one.\<close>

definition retry_after_header :: "nat option \<Rightarrow> string option \<Rightarrow> string option" where
  "retry_after_header err_status retryAfter =
    (if err_status = Some 429 \<and> (case retryAfter of None \<Rightarrow> True | Some s \<Rightarrow> s = []) then Some ''60'' else retryAfter)"

section \<open>Properties\<close>

lemma intersperse_map_str: "js_join h sep (map Str xs) = intersperse sep xs"
  by (simp add: js_join_def nullish_def comp_def)

text \<open>The constraint texts of a tree, in the order of the flattened list.\<close>

fun constraint_texts :: "ValidationError \<Rightarrow> string list" where
  "constraint_texts (ValidationError p constraints children) =
    (case constraints of Some cs \<Rightarrow> map snd cs | None \<Rightarrow> []) @ concat (map constraint_texts children)"

lemma flatten_texts: "concat (map fe_constraints (flatten_error parent e)) = constraint_texts e"
proof (induction parent e rule: flatten_error.induct)
  case (1 parent p constraints children)
  have "concat (map fe_constraints (concat (map (flatten_error f) children))) = concat (map constraint_texts children)"
    if "\<forall>c \<in> set children. concat (map fe_constraints (flatten_error f c)) = constraint_texts c" for f
    using that by (induction children) auto
  then show ?case using 1 by (simp add: Let_def split: option.splits)
qed

text \<open>
  The field of a failing constraint, spelled from the names on the way to it: an index in brackets,
  any other name after a dot.  A constraint fails at the path of names to its node.
\<close>

definition path_step :: "string \<Rightarrow> string" where
  "path_step p = (if p \<noteq> [] \<and> list_all is_digit p then ''['' @ p @ '']'' else ''.'' @ p)"

definition path_text :: "string list \<Rightarrow> string" where
  "path_text ps = (case dropWhile (\<lambda>p. p = []) ps of [] \<Rightarrow> [] | p # qs \<Rightarrow> p @ concat (map path_step qs))"

inductive violated :: "ValidationError list \<Rightarrow> string list \<Rightarrow> string list \<Rightarrow> bool" where
  here: "ValidationError p (Some cs) children \<in> set es \<Longrightarrow> violated es [p] (map snd cs)"
| below: "ValidationError p constraints children \<in> set es \<Longrightarrow> violated children ps ts \<Longrightarrow> violated es (p # ps) ts"

lemma path_text_snoc: "path_text (ps @ [p]) = field_path (path_text ps) p"
proof (cases "dropWhile (\<lambda>p. p = []) ps")
  case Nil
  then have "dropWhile (\<lambda>p. p = []) (ps @ [p]) = dropWhile (\<lambda>p. p = []) [p]" by (simp add: dropWhile_append)
  then show ?thesis unfolding path_text_def Nil by (simp add: field_path_def)
next
  case (Cons q qs)
  then have "q \<noteq> []" using hd_dropWhile [of "\<lambda>p. p = []" ps] by simp
  moreover have "dropWhile (\<lambda>p. p = []) (ps @ [p]) = q # qs @ [p]"
    using Cons dropWhile_eq_Nil_conv [of "\<lambda>p. p = []" ps] by (auto simp: dropWhile_append simp del: dropWhile_eq_Nil_conv)
  ultimately show ?thesis using Cons by (simp add: path_text_def field_path_def path_step_def)
qed

text \<open>The errors below a list of nodes, with the names already passed.\<close>

definition fields_from :: "string list \<Rightarrow> ValidationError list \<Rightarrow> FieldError set" where
  "fields_from base es = {\<lparr>fe_field = path_text (base @ ps), fe_constraints = ts\<rparr> | ps ts. violated es ps ts}"

lemma fields_from_Nil: "fields_from base [] = {}"
  by (auto simp: fields_from_def elim: violated.cases)

lemma violated_iff:
  "violated es ps ts \<longleftrightarrow> (\<exists>p constraints children. ValidationError p constraints children \<in> set es \<and>
    ((\<exists>cs. constraints = Some cs \<and> ps = [p] \<and> ts = map snd cs) \<or> (\<exists>qs. ps = p # qs \<and> violated children qs ts)))"
  by (subst violated.simps) blast

lemma violated_Cons:
  "violated (ValidationError p constraints children # es) ps ts \<longleftrightarrow>
    (\<exists>cs. constraints = Some cs \<and> ps = [p] \<and> ts = map snd cs) \<or> (\<exists>qs. ps = p # qs \<and> violated children qs ts) \<or> violated es ps ts"
  unfolding violated_iff [of "ValidationError p constraints children # es"] violated_iff [of es] list.set insert_iff ValidationError.inject
  by blast

lemma mem_fields_from:
  "f \<in> fields_from base es \<longleftrightarrow> (\<exists>ps ts. f = \<lparr>fe_field = path_text (base @ ps), fe_constraints = ts\<rparr> \<and> violated es ps ts)"
  by (simp add: fields_from_def)

lemma fields_from_Cons:
  "fields_from base (ValidationError p constraints children # es) =
    (case constraints of Some cs \<Rightarrow> {\<lparr>fe_field = path_text (base @ [p]), fe_constraints = map snd cs\<rparr>} | None \<Rightarrow> {}) \<union>
    fields_from (base @ [p]) children \<union> fields_from base es"
proof -
  have "f \<in> fields_from base (ValidationError p constraints children # es) \<longleftrightarrow>
    (\<exists>cs. constraints = Some cs \<and> f = \<lparr>fe_field = path_text (base @ [p]), fe_constraints = map snd cs\<rparr>) \<or>
    f \<in> fields_from (base @ [p]) children \<or> f \<in> fields_from base es" for f
    unfolding mem_fields_from violated_Cons append_assoc append_Cons append_Nil by blast
  then show ?thesis by (auto split: option.splits)
qed

lemma flatten_error_fields: "set (flatten_error (path_text base) e) = fields_from base [e]"
proof (induction e arbitrary: base)
  case (ValidationError p constraints children)
  have "set (concat (map (flatten_error (path_text (base @ [p]))) cs)) = fields_from (base @ [p]) cs" if "set cs \<subseteq> set children" for cs
    using that
  proof (induction cs)
    case Nil
    then show ?case by (simp add: fields_from_Nil)
  next
    case (Cons c cs)
    then have "set (flatten_error (path_text (base @ [p])) c) = fields_from (base @ [p]) [c]" using ValidationError.IH by simp
    then show ?case using Cons by (cases c) (simp add: fields_from_Cons fields_from_Nil)
  qed
  from this [of children] show ?case
    by (simp add: fields_from_Cons fields_from_Nil path_text_snoc [symmetric] Let_def split: option.splits)
qed

lemma flatten_fields: "set (flattenValidationErrors es) = {\<lparr>fe_field = path_text ps, fe_constraints = ts\<rparr> | ps ts. violated es ps ts}"
proof -
  have "set (concat (map (flatten_error []) es)) = fields_from [] es"
  proof (induction es)
    case Nil
    then show ?case by (simp add: fields_from_Nil)
  next
    case (Cons e es)
    have "set (flatten_error [] e) = fields_from [] [e]" using flatten_error_fields [of "[]" e] by (simp add: path_text_def)
    then show ?case using Cons by (cases e) (simp add: fields_from_Cons fields_from_Nil)
  qed
  then show ?thesis by (simp add: flattenValidationErrors_def fields_from_def)
qed

text \<open>The answer to a framework error, to one whose response has a message, and to any other error.\<close>

lemmas answer_defs = error_answer_def message_and_error_def response_status_def response_of_def Let_def has_prop_def
  object_message_def object_error_def response_errors_def error_log_def internal_message_def error_text_def

lemma framework_answer:
  "error_answer h production t url (HttpExc s (Str x) m) = \<lparr>eb_statusCode = s, eb_message = Str x, eb_error = Str x,
     eb_timestamp = t, eb_path = url, eb_errors = None\<rparr>"
  "map_of r ''message'' = None \<Longrightarrow> eb_message (error_answer h production t url (HttpExc s (Obj r) m)) =
     Str (if production then ''Internal server error'' else m)"
  "map_of r ''message'' = None \<Longrightarrow> eb_error (error_answer h production t url (HttpExc s (Obj r) m)) =
     Str (if production then ''Internal server error'' else m)"
  by (simp_all add: answer_defs)

lemma object_answer:
  assumes "map_of r ''message'' = Some v"
  shows "eb_message (error_answer h production t url (HttpExc s (Obj r) m)) =
      (case v of Str x \<Rightarrow> Str x | Arr xs \<Rightarrow> Str (js_join h '', '' xs) | _ \<Rightarrow> json_of h v)"
    and "eb_error (error_answer h production t url (HttpExc s (Obj r) m)) =
      (case get_prop r ''error'' of Str y \<Rightarrow> Str y | Undef \<Rightarrow> eb_message (error_answer h production t url (HttpExc s (Obj r) m)) | w \<Rightarrow> json_of h w)"
  using assms by (simp_all add: answer_defs get_prop_def split: js.splits)

lemma validation_answer: "\<exists>fields. error_answer h production t url (validation_exception es) = \<lparr>eb_statusCode = 422,
       eb_message = Str (intersperse '', '' (concat (map constraint_texts es))), eb_error = Str ''Unprocessable Entity'',
       eb_timestamp = t, eb_path = url, eb_errors = Some (map field_json fields)\<rparr> \<and>
       set fields = {\<lparr>fe_field = path_text ps, fe_constraints = ts\<rparr> | ps ts. violated es ps ts} \<and>
       concat (map fe_constraints fields) = concat (map constraint_texts es)"
proof -
  have texts: "concat (map fe_constraints (flattenValidationErrors es)) = concat (map constraint_texts es)"
    by (induction es) (simp_all add: flattenValidationErrors_def flatten_texts)
  then have "error_answer h production t url (validation_exception es) = \<lparr>eb_statusCode = 422,
       eb_message = Str (intersperse '', '' (concat (map constraint_texts es))), eb_error = Str ''Unprocessable Entity'',
       eb_timestamp = t, eb_path = url, eb_errors = Some (map field_json (flattenValidationErrors es))\<rparr>"
    by (simp add: answer_defs validation_exception_def get_prop_def intersperse_map_str)
  then show ?thesis using flatten_fields texts by blast
qed

lemma details_passed: "eb_errors (error_answer h production t url e) = Some xs \<longleftrightarrow> (\<exists>s r m. e = HttpExc s (Obj r) m \<and> map_of r ''errors'' = Some (Arr xs))"
proof -
  have "response_errors v = Some xs \<longleftrightarrow> (\<exists>r. v = Obj r \<and> map_of r ''errors'' = Some (Arr xs))" for v
    by (cases v) (auto simp: response_errors_def get_prop_def split: js.splits option.splits)
  then show ?thesis by (cases e) (simp_all add: error_answer_def response_of_def Let_def split: prod.split)
qed

text \<open>
  C34: every error is answered with the time and the path, a framework error with its own status
  and every other one with 500.  A framework error answered with a text shows that text; one whose
  response has a message shows the message, a list of texts joined by commas, and the error's name
  when it is a text, or the message when there is no name; without a message it shows its own text,
  hidden in production.
  The details are passed on exactly when they are a list.  In production the answer to an error that
  is not the framework's does not depend on it.  The log gets the text of the errors from status 500
  on and of no other.  An invalid body is answered with status 422, the texts of all its violated
  constraints in order as the message, and one detail for each failing node, which names the path
  to it.
\<close>

theorem error_answers_exact:
  "let answer = error_answer h production t url in
    (\<forall>e. eb_timestamp (answer e) = t \<and> eb_path (answer e) = url) \<and>
    (\<forall>s r m. eb_statusCode (answer (HttpExc s r m)) = s) \<and>
    (\<forall>m v. eb_statusCode (answer (PlainError m)) = 500 \<and> eb_statusCode (answer (ThrownValue v)) = 500) \<and>
    (\<forall>s x m. eb_message (answer (HttpExc s (Str x) m)) = Str x \<and> eb_error (answer (HttpExc s (Str x) m)) = Str x) \<and>
    (\<forall>s r m x. map_of r ''message'' = Some (Str x) \<longrightarrow> eb_message (answer (HttpExc s (Obj r) m)) = Str x) \<and>
    (\<forall>s r m xs. map_of r ''message'' = Some (Arr (map Str xs)) \<longrightarrow>
       eb_message (answer (HttpExc s (Obj r) m)) = Str (intersperse '', '' xs)) \<and>
    (\<forall>s r m y v. map_of r ''message'' = Some v \<and> map_of r ''error'' = Some (Str y) \<longrightarrow> eb_error (answer (HttpExc s (Obj r) m)) = Str y) \<and>
    (\<forall>s r m v. map_of r ''message'' = Some v \<and> map_of r ''error'' = None \<longrightarrow>
       eb_error (answer (HttpExc s (Obj r) m)) = eb_message (answer (HttpExc s (Obj r) m))) \<and>
    (\<forall>s r m. map_of r ''message'' = None \<longrightarrow> eb_message (answer (HttpExc s (Obj r) m)) =
       Str (if production then ''Internal server error'' else m) \<and> eb_error (answer (HttpExc s (Obj r) m)) = eb_message (answer (HttpExc s (Obj r) m))) \<and>
    (\<forall>e xs. eb_errors (answer e) = Some xs \<longleftrightarrow> (\<exists>s r m. e = HttpExc s (Obj r) m \<and> map_of r ''errors'' = Some (Arr xs))) \<and>
    (\<forall>m. eb_message (answer (PlainError m)) = Str (if production then ''Internal server error'' else m) \<and>
       eb_error (answer (PlainError m)) = eb_message (answer (PlainError m))) \<and>
    (\<forall>v. eb_message (answer (ThrownValue v)) = Str ''Internal server error'' \<and> eb_error (answer (ThrownValue v)) = Str ''Internal server error'') \<and>
    (\<forall>s r m. error_log h (HttpExc s r m) = (if 500 \<le> s then Some m else None)) \<and>
    (\<forall>m v. error_log h (PlainError m) = Some m \<and> error_log h (ThrownValue v) = Some (js_String h v)) \<and>
    (\<forall>es. \<exists>fields. answer (validation_exception es) = \<lparr>eb_statusCode = 422,
       eb_message = Str (intersperse '', '' (concat (map constraint_texts es))), eb_error = Str ''Unprocessable Entity'',
       eb_timestamp = t, eb_path = url, eb_errors = Some (map field_json fields)\<rparr> \<and>
       set fields = {\<lparr>fe_field = path_text ps, fe_constraints = ts\<rparr> | ps ts. violated es ps ts} \<and>
       concat (map fe_constraints fields) = concat (map constraint_texts es))"
  unfolding Let_def
  by (intro conjI allI impI validation_answer details_passed)
    (auto simp: object_answer framework_answer get_prop_def intersperse_map_str, auto simp: answer_defs split: prod.split)

text \<open>A body whose field \<^verbatim>\<open>a.b[0].c\<close> fails, a framework error whose response names a list of texts, and a database error in production.\<close>

definition nested_error :: ValidationError where
  "nested_error = ValidationError ''a'' None [ValidationError ''b'' None [ValidationError ''0'' None
     [ValidationError ''c'' (Some [(''isInt'', ''c must be an integer'')]) []]]]"

theorem error_answers_exact_witness:
  "\<forall>h t url. (let bad = error_answer h True t url (validation_exception [nested_error]);
     conflict = error_answer h True t url (HttpExc 409 (Obj [(''message'', Arr [Str ''x'', Str ''y''])]) ''Conflict'')
   in eb_message bad = Str ''c must be an integer'' \<and>
     (\<exists>fields. eb_errors bad = Some (map field_json fields) \<and>
       \<lparr>fe_field = ''a.b[0].c'', fe_constraints = [''c must be an integer'']\<rparr> \<in> set fields) \<and>
     eb_statusCode conflict = 409 \<and> eb_message conflict = Str ''x, y'' \<and> eb_error conflict = Str ''x, y'' \<and>
     eb_message (error_answer h True t url (PlainError ''duplicate key'')) = Str ''Internal server error'')"
proof (intro allI)
  fix h t url
  let ?r = "[(''message'', Arr [Str ''x'', Str ''y''])]"
  let ?bad = "error_answer h True t url (validation_exception [nested_error])"
  let ?conflict = "error_answer h True t url (HttpExc 409 (Obj ?r) ''Conflict'')"
  note all = error_answers_exact [of h True t url, unfolded Let_def]
  have below: "violated [nested_error] [''a'', ''b'', ''0'', ''c''] [''c must be an integer'']"
    by (simp add: nested_error_def violated_Cons)
  have path: "path_text [''a'', ''b'', ''0'', ''c''] = ''a.b[0].c''" by (simp add: path_text_def path_step_def is_digit_def char_in_def)
  obtain fields where f: "?bad = \<lparr>eb_statusCode = 422,
      eb_message = Str (intersperse '', '' (concat (map constraint_texts [nested_error]))), eb_error = Str ''Unprocessable Entity'',
      eb_timestamp = t, eb_path = url, eb_errors = Some (map field_json fields)\<rparr>"
    "set fields = {\<lparr>fe_field = path_text ps, fe_constraints = ts\<rparr> | ps ts. violated [nested_error] ps ts}"
    using all [THEN conjunct2, THEN conjunct2, THEN conjunct2, THEN conjunct2, THEN conjunct2, THEN conjunct2, THEN conjunct2, THEN conjunct2, THEN conjunct2, THEN conjunct2, THEN conjunct2, THEN conjunct2, THEN conjunct2, THEN conjunct2] by blast
  have "\<lparr>fe_field = ''a.b[0].c'', fe_constraints = [''c must be an integer'']\<rparr> \<in> set fields"
    unfolding f(2) path [symmetric] using below by blast
  moreover have "eb_message ?bad = Str ''c must be an integer''" unfolding f(1) by (simp add: nested_error_def)
  moreover have "eb_errors ?bad = Some (map field_json fields)" by (simp add: f(1))
  moreover have "eb_message ?conflict = Str (intersperse '', '' [''x'', ''y''])"
    by (rule all [THEN conjunct2, THEN conjunct2, THEN conjunct2, THEN conjunct2, THEN conjunct2, THEN conjunct1, rule_format]) simp
  moreover have "eb_error ?conflict = eb_message ?conflict"
    by (rule all [THEN conjunct2, THEN conjunct2, THEN conjunct2, THEN conjunct2, THEN conjunct2, THEN conjunct2, THEN conjunct2, THEN conjunct1, rule_format, where v = "Arr [Str ''x'', Str ''y'']"]) simp
  moreover have "eb_statusCode ?conflict = 409" by (rule all [THEN conjunct2, THEN conjunct1, rule_format])
  moreover have "eb_message (error_answer h True t url (PlainError ''duplicate key'')) = Str ''Internal server error''"
    using all [THEN conjunct2, THEN conjunct2, THEN conjunct2, THEN conjunct2, THEN conjunct2, THEN conjunct2, THEN conjunct2, THEN conjunct2, THEN conjunct2, THEN conjunct2, THEN conjunct1, rule_format] by simp
  ultimately show "let bad = ?bad; conflict = ?conflict
   in eb_message bad = Str ''c must be an integer'' \<and>
     (\<exists>fields. eb_errors bad = Some (map field_json fields) \<and>
       \<lparr>fe_field = ''a.b[0].c'', fe_constraints = [''c must be an integer'']\<rparr> \<in> set fields) \<and>
     eb_statusCode conflict = 409 \<and> eb_message conflict = Str ''x, y'' \<and> eb_error conflict = Str ''x, y'' \<and>
     eb_message (error_answer h True t url (PlainError ''duplicate key'')) = Str ''Internal server error''"
    unfolding Let_def by (intro conjI exI [of _ fields]) simp_all
qed

text \<open>The older filter shows the text of every error.\<close>

lemma legacy_leaks: "map_of (legacy_answer h t q (PlainError m)) ''message'' = Some (Str m)"
  by (simp add: legacy_answer_def legacy_message_def response_of_def error_text_def)

text \<open>A framework error without a message in its response is hidden in production too.\<close>

lemma bare_response_hidden:
  "\<not> has_prop r ''message'' \<Longrightarrow> eb_message (error_answer h True t url (HttpExc s (Obj r) m)) = Str ''Internal server error''"
  by (simp add: error_answer_def message_and_error_def response_of_def internal_message_def error_text_def Let_def)

end
