(* ===== verification/Http_Middleware.thy ===== *)
theory Http_Middleware
  imports Http_Errors Prelude Js_Doubles
begin

text \<open>
  The middleware, guards and interceptors around the handlers (\<^verbatim>\<open>common/cache\<close>, \<^verbatim>\<open>common/ssr\<close>,
  \<^verbatim>\<open>common/security\<close>, the rate limits, the deprecation headers, the metrics, the shutdown wait)
  and the caches of the leaderboard.  A response is its headers by lower-case name, its status and
  its body; digests, regular expressions and the clock are parameters.
\<close>

section \<open>Responses\<close>

record http_response =
  ht_headers :: "(string, string) jmap"
  ht_status :: nat
  ht_body :: string

definition setHeader :: "string \<Rightarrow> string \<Rightarrow> http_response \<Rightarrow> http_response" where
  "setHeader k v r = r\<lparr>ht_headers := jm_set (toLowerCase k) v (ht_headers r)\<rparr>"

definition removeHeader :: "string \<Rightarrow> http_response \<Rightarrow> http_response" where
  "removeHeader k r = r\<lparr>ht_headers := jm_delete (toLowerCase k) (ht_headers r)\<rparr>"

definition header_of :: "string \<Rightarrow> http_response \<Rightarrow> string option" where
  "header_of k r = jm_get (toLowerCase k) (ht_headers r)"

definition path_starts :: "string list \<Rightarrow> string \<Rightarrow> bool" where
  "path_starts prefixes path = list_ex (\<lambda>p. take (length p) path = p) prefixes"

section \<open>Cache headers\<close>

definition private_routes :: "string list" where
  "private_routes = [''/auth'', ''/users/me'', ''/game/session'', ''/wallet'']"

definition public_routes :: "string list" where
  "public_routes = [''/words'', ''/leaderboard'', ''/stats'']"

definition cdn_cache :: "string \<Rightarrow> string \<Rightarrow> http_response \<Rightarrow> http_response" where
  "cdn_cache method path res =
    (if path_starts private_routes path \<or> method \<noteq> ''GET'' then setHeader ''Cache-Control'' ''no-store'' res
     else if path_starts public_routes path then
       setHeader ''Vary'' ''Accept-Encoding''
         (setHeader ''Cache-Control'' ''public, max-age=60, stale-while-revalidate=300, stale-if-error=86400'' res)
     else setHeader ''Cache-Control'' ''private, max-age=0, must-revalidate'' res)"

section \<open>The cache of rendered pages\<close>

definition SSR_TTL_MS :: int where "SSR_TTL_MS = 60000"

record CacheEntry =
  ce_body :: string
  ce_headers :: "(string, string) jmap"
  ce_status :: nat
  ce_expiresAt :: int

type_synonym ssr_cache = "(string, CacheEntry) jmap"

definition ssr_cacheable :: "string \<Rightarrow> string \<Rightarrow> bool" where
  "ssr_cacheable method path \<longleftrightarrow> method = ''GET'' \<and> path_starts [''/leaderboard'', ''/about''] path"

definition ssr_hit :: "CacheEntry \<Rightarrow> http_response \<Rightarrow> http_response" where
  "ssr_hit e res = (setHeader ''X-Cache'' ''HIT'' (fold (\<lambda>(k, v). setHeader k v) (ce_headers e) res))\<lparr>ht_status := ce_status e, ht_body := ce_body e\<rparr>"

definition kept_headers :: "http_response \<Rightarrow> (string, string) jmap" where
  "kept_headers res = fold (\<lambda>k hs. case header_of k res of Some v \<Rightarrow> if v = [] then hs else jm_set k v hs | None \<Rightarrow> hs)
     [''content-type'', ''cache-control'', ''vary''] []"

text \<open>
  The end of a response that was not in the cache: below 400 it is stored.  \<^verbatim>\<open>render\<close> is the rest of
  the chain; \<^verbatim>\<open>now\<close> and \<^verbatim>\<open>now'\<close> are the clock at the lookup and at the end of the response.
\<close>

definition ssr_store :: "string \<Rightarrow> int \<Rightarrow> http_response \<Rightarrow> ssr_cache \<Rightarrow> ssr_cache" where
  "ssr_store key now' res cache = (if ht_status res < 400 then
       jm_set key \<lparr>ce_body = ht_body res, ce_headers = kept_headers res, ce_status = ht_status res, ce_expiresAt = now' + SSR_TTL_MS\<rparr> cache
     else cache)"

definition ssr_use ::
  "(string \<Rightarrow> string) \<Rightarrow> int \<Rightarrow> int \<Rightarrow> string \<Rightarrow> string \<Rightarrow> string \<Rightarrow> (http_response \<Rightarrow> http_response) \<Rightarrow> http_response \<Rightarrow> ssr_cache \<Rightarrow>
    http_response \<times> ssr_cache" where
  "ssr_use digest now now' method path url render res cache =
    (if \<not> ssr_cacheable method path then (render res, cache)
     else case jm_get (digest url) cache of
         Some e \<Rightarrow> if now < ce_expiresAt e then (ssr_hit e res, cache)
           else (setHeader ''X-Cache'' ''MISS'' (render res), ssr_store (digest url) now' (render res) cache)
       | None \<Rightarrow> (setHeader ''X-Cache'' ''MISS'' (render res), ssr_store (digest url) now' (render res) cache))"

section \<open>Allowed origins\<close>

datatype origin_entry = OriginText string | OriginPattern string

definition buildAllowedOrigins :: "string option \<Rightarrow> origin_entry list" where
  "buildAllowedOrigins env =
    map (\<lambda>o'. if hd o' = CHR ''/'' \<and> last o' = CHR ''/'' then OriginPattern (butlast (tl o')) else OriginText o')
      (filter (\<lambda>s. s \<noteq> []) (map trim (split_on (CHR '','') (case env of Some s \<Rightarrow> s | None \<Rightarrow> []))))"

text \<open>\<^verbatim>\<open>matches p s\<close> is the regular expression \<^verbatim>\<open>p\<close> found in \<^verbatim>\<open>s\<close>.\<close>

definition origin_allowed :: "(string \<Rightarrow> string \<Rightarrow> bool) \<Rightarrow> string option \<Rightarrow> string option \<Rightarrow> js_error + bool" where
  "origin_allowed matches env origin =
    (if (case origin of None \<Rightarrow> True | Some s \<Rightarrow> s = []) \<or>
        list_ex (\<lambda>e. case e of OriginPattern p \<Rightarrow> matches p (the origin) | OriginText t \<Rightarrow> origin = Some t) (buildAllowedOrigins env)
     then Inr True else Inl (JsError ''Error'' ''Origin not allowed'' []))"

section \<open>Limits\<close>

text \<open>The fixed window of the leaderboard.\<close>

definition LB_WINDOW_MS :: int where "LB_WINDOW_MS = 60000"

definition LB_MAX_REQUESTS :: nat where "LB_MAX_REQUESTS = 30"

record window_count =
  wc_count :: nat
  wc_resetAt :: int

definition forwarded_ip :: "string option \<Rightarrow> string option \<Rightarrow> string" where
  "forwarded_ip forwarded ip =
    (let first = (case forwarded of Some f \<Rightarrow> trim (hd (split_on (CHR '','') f)) | None \<Rightarrow> [])
     in if first \<noteq> [] then first else (case ip of Some i \<Rightarrow> if i = [] then ''unknown'' else i | None \<Rightarrow> ''unknown''))"

definition leaderboard_admit :: "int \<Rightarrow> string \<Rightarrow> (string, window_count) jmap \<Rightarrow> bool \<times> (string, window_count) jmap" where
  "leaderboard_admit now ip counts = (case jm_get ip counts of
      None \<Rightarrow> (True, jm_set ip \<lparr>wc_count = 1, wc_resetAt = now + LB_WINDOW_MS\<rparr> counts)
    | Some e \<Rightarrow> if wc_resetAt e < now then (True, jm_set ip \<lparr>wc_count = 1, wc_resetAt = now + LB_WINDOW_MS\<rparr> counts)
        else if LB_MAX_REQUESTS \<le> wc_count e then (False, counts)
        else (True, jm_set ip (e\<lparr>wc_count := wc_count e + 1\<rparr>) counts))"

text \<open>The placeholder of the limiter of the sign-in routes admits every request.\<close>

definition auth_throttler_admit :: "'a \<Rightarrow> bool" where
  "auth_throttler_admit context = True"

section \<open>The leaderboard's answers\<close>

definition LB_TTL_MS :: int where "LB_TTL_MS = 30000"

definition leaderboard_cached ::
  "int \<Rightarrow> int \<Rightarrow> string \<Rightarrow> js_error + 'b \<Rightarrow> (string, 'b \<times> int) jmap \<Rightarrow> (js_error + 'b) \<times> (string, 'b \<times> int) jmap" where
  "leaderboard_cached now now' url answer cache =
    (let computed = (case answer of Inr body \<Rightarrow> (Inr body, jm_set url (body, now' + LB_TTL_MS) cache) | Inl e \<Rightarrow> (Inl e, cache))
     in case jm_get url cache of
          Some (body, expiresAt) \<Rightarrow> if now < expiresAt then (Inr body, cache) else computed
        | None \<Rightarrow> computed)"

section \<open>Correlation\<close>

text \<open>The two middlewares differ on an empty header: only one replaces it.\<close>

definition correlation_of :: "string option \<Rightarrow> string \<Rightarrow> string" where
  "correlation_of header uuid = (case header of Some i \<Rightarrow> i | None \<Rightarrow> uuid)"

definition correlation_nonempty :: "string option \<Rightarrow> string \<Rightarrow> string" where
  "correlation_nonempty header uuid = (case header of Some i \<Rightarrow> if i = [] then uuid else i | None \<Rightarrow> uuid)"

section \<open>Security headers\<close>

definition csp_nonce_policy :: "bool \<Rightarrow> string \<Rightarrow> string" where
  "csp_nonce_policy production nonce =
    (let q = (\<lambda>s. [CHR 0x27] @ s @ [CHR 0x27]); self = q ''self''; n = q (''nonce-'' @ nonce) in
     intersperse ''; '' [''default-src '' @ self,
       ''script-src '' @ self @ '' '' @ n @ (if production then [] else '' '' @ q ''unsafe-eval''),
       ''style-src '' @ self @ '' '' @ n @ '' https://fonts.googleapis.com'', ''font-src '' @ self @ '' https://fonts.gstatic.com'',
       ''img-src '' @ self @ '' data: blob: https://assets.dewordle.io'',
       ''connect-src '' @ self @ '' https://soroban-testnet.stellar.org wss:'', ''frame-ancestors '' @ q ''none'', ''base-uri '' @ self,
       ''form-action '' @ self, ''object-src '' @ q ''none'', ''upgrade-insecure-requests''])"

definition csp_headers :: "bool \<Rightarrow> string \<Rightarrow> http_response \<Rightarrow> http_response" where
  "csp_headers production nonce res =
    setHeader ''Permissions-Policy'' ''camera=(), microphone=(), geolocation=()''
      (setHeader ''Referrer-Policy'' ''strict-origin-when-cross-origin''
        (setHeader ''X-Frame-Options'' ''DENY''
          (setHeader ''X-Content-Type-Options'' ''nosniff''
            (setHeader ''Content-Security-Policy'' (csp_nonce_policy production nonce) res))))"

definition HSTS_MAX_AGE_SECONDS :: nat where "HSTS_MAX_AGE_SECONDS = 31536000"

definition security_headers :: "bool \<Rightarrow> http_response \<Rightarrow> http_response" where
  "security_headers production res =
    (let r1 = setHeader ''X-Content-Type-Options'' ''nosniff'' (setHeader ''X-Frame-Options'' ''DENY'' res);
         r2 = (if production then setHeader ''Strict-Transport-Security'' ''max-age=63072000; includeSubDomains; preload'' r1 else r1);
         r3 = setHeader ''X-XSS-Protection'' ''0'' (setHeader ''Referrer-Policy'' ''strict-origin-when-cross-origin'' r2);
         r4 = setHeader ''Permissions-Policy''
           ''accelerometer=(), camera=(), geolocation=(), gyroscope=(), magnetometer=(), microphone=(), payment=(), usb=()'' r3;
         r5 = setHeader ''Cross-Origin-Resource-Policy'' ''same-site'' (setHeader ''Cross-Origin-Opener-Policy'' ''same-origin'' r4)
     in removeHeader ''Server'' (removeHeader ''X-Powered-By'' r5))"

section \<open>Shutdown\<close>

definition SHUTDOWN_GRACE_MS :: int where "SHUTDOWN_GRACE_MS = 10000"

definition trackJobStart :: "nat \<Rightarrow> nat" where "trackJobStart activeJobs = activeJobs + 1"

definition trackJobEnd :: "nat \<Rightarrow> nat" where "trackJobEnd activeJobs = activeJobs - 1"

text \<open>
  The wait of a shutdown, with the number of active jobs as a function of time: each turn sleeps a
  quarter of a second; the result is the moment the wait is over.
\<close>

function shutdown_wait :: "(int \<Rightarrow> nat) \<Rightarrow> int \<Rightarrow> int \<Rightarrow> int" where
  "shutdown_wait active deadline now = (if 0 < active now \<and> now < deadline then shutdown_wait active deadline (now + 250) else now)"
  by pat_completeness auto
termination
  by (relation "measure (\<lambda>(_, deadline, now). nat (deadline - now))") auto

declare shutdown_wait.simps [simp del]

definition onApplicationShutdown :: "(int \<Rightarrow> nat) \<Rightarrow> int \<Rightarrow> int" where
  "onApplicationShutdown active now = shutdown_wait active (now + SHUTDOWN_GRACE_MS) now"

section \<open>Verification of samples\<close>

record VerificationResult =
  vr_sessionId :: string
  vr_matches :: bool
  vr_verifiedAt :: int

definition verify_percent :: "string option \<Rightarrow> jsnum" where
  "verify_percent env = (case env of None \<Rightarrow> num 5 | Some s \<Rightarrow> string_to_num s)"

definition shouldVerify :: "string option \<Rightarrow> rat \<Rightarrow> bool" where
  "shouldVerify env random = num_lt (Fin (mult_d random 100)) (verify_percent env)"

definition verifySession :: "int \<Rightarrow> string \<Rightarrow> string \<Rightarrow> string \<Rightarrow> VerificationResult \<times> string list" where
  "verifySession now sessionId indexedOutcome onChainOutcome =
    (let same = indexedOutcome = onChainOutcome
     in (\<lparr>vr_sessionId = sessionId, vr_matches = same, vr_verifiedAt = now\<rparr>,
         if same then [] else [''CRITICAL: session '' @ sessionId @ '' mismatch indexed='' @ indexedOutcome @ '' onchain='' @ onChainOutcome]))"

section \<open>Deprecated endpoints\<close>

datatype endpoint_method = HttpGet | HttpPost | HttpPatch | HttpDelete

datatype endpoint_status = EpActive | EpTransitional | EpDeprecated

record EndpointEntry =
  en_path :: string
  en_method :: endpoint_method
  en_status :: endpoint_status
  en_module :: string
  en_migration :: string

text \<open>The catalogue; a dash outside the characters of the model is written as two hyphens.\<close>

definition DEPRECATION_MAP :: "EndpointEntry list" where
  "DEPRECATION_MAP = [
     \<lparr>en_path = ''/games'', en_method = HttpGet, en_status = EpActive, en_module = ''games'', en_migration = ''Replaced by Soroban CoreGameClient.getDayConfig in Wave 6''\<rparr>,
     \<lparr>en_path = ''/games/:id'', en_method = HttpPatch, en_status = EpDeprecated, en_module = ''games'', en_migration = ''Admin game config moves to Soroban admin_registry contract''\<rparr>,
     \<lparr>en_path = ''/games/:id'', en_method = HttpDelete, en_status = EpDeprecated, en_module = ''games'', en_migration = ''Admin game lifecycle moves to Soroban contract''\<rparr>,
     \<lparr>en_path = ''/words/random'', en_method = HttpGet, en_status = EpTransitional, en_module = ''words'', en_migration = ''Will be replaced by Soroban daily puzzle word selection''\<rparr>,
     \<lparr>en_path = ''/words/daily'', en_method = HttpGet, en_status = EpTransitional, en_module = ''words'', en_migration = ''Will be served from Soroban indexer projection in Wave 6''\<rparr>,
     \<lparr>en_path = ''/words/daily/trigger'', en_method = HttpPost, en_status = EpDeprecated, en_module = ''words'', en_migration = ''Manual cron trigger -- removed once Soroban schedule is live''\<rparr>,
     \<lparr>en_path = ''/leaderboard/global'', en_method = HttpGet, en_status = EpActive, en_module = ''leaderboard'', en_migration = ''Will be replaced by Soroban projection-backed leaderboard''\<rparr>,
     \<lparr>en_path = ''/leaderboard/:gameSlug'', en_method = HttpGet, en_status = EpTransitional, en_module = ''leaderboard'', en_migration = ''Per-game leaderboard -- map to Soroban day config''\<rparr>,
     \<lparr>en_path = ''/api/v1/achievements/:address'', en_method = HttpGet, en_status = EpActive, en_module = ''common'', en_migration = ''Projection-backed, canonical read API''\<rparr>,
     \<lparr>en_path = ''/api/v1/players/:address/summary'', en_method = HttpGet, en_status = EpActive, en_module = ''common'', en_migration = ''Projection-backed, canonical read API''\<rparr>,
     \<lparr>en_path = ''/api/v1/sessions'', en_method = HttpGet, en_status = EpActive, en_module = ''common'', en_migration = ''Projection-backed, canonical read API''\<rparr>,
     \<lparr>en_path = ''/auth/register'', en_method = HttpPost, en_status = EpDeprecated, en_module = ''auth'', en_migration = ''Authentication moves to Soroban wallet-based auth''\<rparr>,
     \<lparr>en_path = ''/auth/login'', en_method = HttpPost, en_status = EpDeprecated, en_module = ''auth'', en_migration = ''Authentication moves to Soroban wallet-based auth''\<rparr>]"

definition getEndpointsByStatus :: "endpoint_status \<Rightarrow> EndpointEntry list" where
  "getEndpointsByStatus status' = filter (\<lambda>e. en_status e = status') DEPRECATION_MAP"

definition getActiveEndpoints :: "EndpointEntry list" where "getActiveEndpoints = getEndpointsByStatus EpActive"

definition getTransitionalEndpoints :: "EndpointEntry list" where "getTransitionalEndpoints = getEndpointsByStatus EpTransitional"

definition getDeprecatedEndpoints :: "EndpointEntry list" where "getDeprecatedEndpoints = getEndpointsByStatus EpDeprecated"

text \<open>A handler marked as deprecated gets three headers on success; \<^verbatim>\<open>sunset\<close> is the default date.\<close>

definition deprecation_headers :: "string option \<Rightarrow> string option \<Rightarrow> string \<Rightarrow> http_response \<Rightarrow> http_response" where
  "deprecation_headers version sunsetDate sunset res =
    (if (case version of None \<Rightarrow> True | Some v \<Rightarrow> v = []) then res
     else setHeader ''Link'' (''</api/v2>; rel='' @ [CHR 0x22] @ ''successor-version'' @ [CHR 0x22])
       (setHeader ''Sunset'' (case sunsetDate of Some d \<Rightarrow> if d = [] then sunset else d | None \<Rightarrow> sunset) (setHeader ''Deprecation'' ''true'' res)))"

section \<open>Metrics\<close>

type_synonym labels = "string \<times> string \<times> string"

record http_metrics =
  hm_requests :: "(labels, nat) jmap"
  hm_errors :: "(labels, nat) jmap"
  hm_durations :: "(labels \<times> rat) list"

definition inc :: "labels \<Rightarrow> (labels, nat) jmap \<Rightarrow> (labels, nat) jmap" where
  "inc l m = jm_set l ((case jm_get l m of Some n \<Rightarrow> n | None \<Rightarrow> 0) + 1) m"

text \<open>A handled request: the status of its response, or the status of its error, which is 500 without one.\<close>

datatype handled = Answered nat | Failed "nat option"

definition handled_status :: "handled \<Rightarrow> nat" where
  "handled_status r = (case r of Answered s \<Rightarrow> s | Failed (Some s) \<Rightarrow> if s = 0 then 500 else s | Failed None \<Rightarrow> 500)"

definition observe_request :: "string \<Rightarrow> string \<Rightarrow> rat \<Rightarrow> handled \<Rightarrow> http_metrics \<Rightarrow> http_metrics" where
  "observe_request method route duration r m =
    (let status' = handled_status r; l = (method, route, show_nat status')
     in m\<lparr>hm_durations := hm_durations m @ [(l, duration)], hm_requests := inc l (hm_requests m),
          hm_errors := (case r of Failed _ \<Rightarrow> inc l (hm_errors m) | Answered s \<Rightarrow> if 400 \<le> s then inc l (hm_errors m) else hm_errors m)\<rparr>)"

definition EXCLUDED_ROUTES :: "string list" where "EXCLUDED_ROUTES = [''/health'', ''/metrics'']"

definition prometheus_record :: "string \<Rightarrow> string \<Rightarrow> nat \<Rightarrow> rat \<Rightarrow> http_metrics \<Rightarrow> http_metrics" where
  "prometheus_record method route statusCode durationSeconds m =
    (if route \<in> set EXCLUDED_ROUTES then m
     else let l = (method, route, show_nat statusCode)
       in m\<lparr>hm_durations := hm_durations m @ [(l, durationSeconds)], hm_requests := inc l (hm_requests m)\<rparr>)"

section \<open>What the caches keep\<close>

lemma setHeader_headers: "header_of k (setHeader k' v r) = (if toLowerCase k = toLowerCase k' then Some v else header_of k r)"
  by (simp add: header_of_def setHeader_def)

text \<open>The private routes are never stored, when the path is the route itself; behind a prefix they are not recognized.\<close>

lemma private_no_store: "path_starts private_routes path \<Longrightarrow> header_of ''Cache-Control'' (cdn_cache m path r) = Some ''no-store''"
  by (simp add: cdn_cache_def setHeader_headers)

lemma prefixed_not_recognized:
  "header_of ''Cache-Control'' (cdn_cache ''GET'' (''/api/v1'' @ path) r) = Some ''private, max-age=0, must-revalidate''"
proof -
  have "\<not> path_starts private_routes (''/api/v1'' @ path)" "\<not> path_starts public_routes (''/api/v1'' @ path)"
    by (simp_all add: path_starts_def private_routes_def public_routes_def)
  then show ?thesis by (simp add: cdn_cache_def setHeader_headers)
qed

text \<open>A page from the cache is one that was rendered for the same address in the last minute.\<close>

definition ssr_accounted :: "(string \<Rightarrow> string) \<Rightarrow> (string \<times> string \<times> nat \<times> int) set \<Rightarrow> ssr_cache \<Rightarrow> bool" where
  "ssr_accounted digest seen cache \<longleftrightarrow> (\<forall>k e. jm_get k cache = Some e \<longrightarrow>
     (\<exists>url. digest url = k \<and> (url, ce_body e, ce_status e, ce_expiresAt e - SSR_TTL_MS) \<in> seen))"

lemma ssr_store_accounted:
  assumes "ssr_accounted digest seen cache"
  shows "ssr_accounted digest (insert (url, ht_body res, ht_status res, now') seen) (ssr_store (digest url) now' res cache)"
  using assms by (auto simp: ssr_accounted_def ssr_store_def)

lemma ssr_recent:
  assumes "inj digest" "ssr_accounted digest seen cache" "ssr_cacheable method path"
    and "jm_get (digest url) cache = Some e" "now < ce_expiresAt e"
  shows "\<exists>t. (url, ce_body e, ce_status e, t) \<in> seen \<and> now < t + SSR_TTL_MS \<and>
    fst (ssr_use digest now now' method path url render res cache) = ssr_hit e res"
proof -
  obtain u where u: "digest u = digest url" "(u, ce_body e, ce_status e, ce_expiresAt e - SSR_TTL_MS) \<in> seen"
    using assms(2,4) unfolding ssr_accounted_def by blast
  then have "u = url" using assms(1) by (simp add: inj_eq)
  then show ?thesis using u(2) assms(3-5) by (intro exI [of _ "ce_expiresAt e - SSR_TTL_MS"]) (simp add: ssr_use_def)
qed

text \<open>
  An answer without a body to a conditional request is below 400 too: it is stored, and every
  client that asks within the minute gets it, whether it has the page or not.
\<close>

lemma not_modified_served:
  assumes "ssr_cacheable m p" "jm_get (digest url) cache = None" "ht_status (render1 res1) = 304" "ht_body (render1 res1) = []"
    and "ssr_use digest t0 t1 m p url render1 res1 cache = (r1, cache1)" "t2 < t1 + SSR_TTL_MS"
    and "ssr_use digest t2 t3 m p url render2 res2 cache1 = (r2, cache2)"
  shows "ht_status r2 = 304 \<and> ht_body r2 = []"
proof -
  have "cache1 = ssr_store (digest url) t1 (render1 res1) cache" using assms(1,2,5) by (simp add: ssr_use_def)
  then have "jm_get (digest url) cache1 = Some \<lparr>ce_body = [], ce_headers = kept_headers (render1 res1), ce_status = 304, ce_expiresAt = t1 + SSR_TTL_MS\<rparr>"
    using assms(3,4) by (simp add: ssr_store_def)
  then show ?thesis using assms(1,6,7) by (auto simp: ssr_use_def ssr_hit_def)
qed

section \<open>What the limits admit\<close>

text \<open>A window of the leaderboard admits at most thirty requests of an address.\<close>

fun admitted_count :: "string \<Rightarrow> int list \<Rightarrow> (string, window_count) jmap \<Rightarrow> nat" where
  "admitted_count ip [] counts = 0"
| "admitted_count ip (t # ts) counts = (case leaderboard_admit t ip counts of (ok, c) \<Rightarrow> (if ok then 1 else 0) + admitted_count ip ts c)"

lemma window_admits:
  assumes "jm_get ip counts = Some e" "wc_count e \<le> LB_MAX_REQUESTS" "\<forall>t \<in> set ts. t \<le> wc_resetAt e"
  shows "admitted_count ip ts counts + wc_count e \<le> LB_MAX_REQUESTS"
  using assms
proof (induction ts arbitrary: counts e)
  case (Cons t ts)
  have now: "\<not> wc_resetAt e < t" using Cons.prems(3) by simp
  show ?case
  proof (cases "LB_MAX_REQUESTS \<le> wc_count e")
    case True
    then have "leaderboard_admit t ip counts = (False, counts)" using Cons.prems(1) now by (simp add: leaderboard_admit_def)
    then show ?thesis using Cons.IH [OF Cons.prems(1,2)] Cons.prems(3) by simp
  next
    case False
    let ?e = "e\<lparr>wc_count := wc_count e + 1\<rparr>"
    have a: "leaderboard_admit t ip counts = (True, jm_set ip ?e counts)" using Cons.prems(1) now False by (simp add: leaderboard_admit_def)
    have "admitted_count ip ts (jm_set ip ?e counts) + wc_count ?e \<le> LB_MAX_REQUESTS"
      by (rule Cons.IH) (use Cons.prems(3) False in simp_all)
    then show ?thesis by (simp add: a)
  qed
qed simp

text \<open>The address is the client's own word: with a new one in the header every request is admitted.\<close>

lemma forwarded_header_evades:
  "trim (hd (split_on (CHR '','') f)) \<noteq> [] \<Longrightarrow> jm_get (trim (hd (split_on (CHR '','') f))) counts = None \<Longrightarrow>
    fst (leaderboard_admit now (forwarded_ip (Some f) ip) counts)"
  by (simp add: forwarded_ip_def leaderboard_admit_def Let_def)

text \<open>A single slash in the list of origins is an empty pattern, which is found in every origin.\<close>

lemma slash_allows_all: "(\<And>s. matches [] s) \<Longrightarrow> origin_allowed matches (Some ''/'') origin = Inr True"
  by (simp add: origin_allowed_def buildAllowedOrigins_def trim_def trim_left_def js_space_def)

text \<open>Without patterns exactly the listed origins are allowed, and requests that name none.\<close>

lemma listed_origins:
  assumes "\<forall>e \<in> set (buildAllowedOrigins env). \<exists>t. e = OriginText t"
  shows "origin_allowed matches env (Some s) = Inr True \<longleftrightarrow> s = [] \<or> OriginText s \<in> set (buildAllowedOrigins env)"
proof -
  have "list_ex (\<lambda>e. case e of OriginPattern p \<Rightarrow> matches p (the (Some s)) | OriginText t \<Rightarrow> Some s = Some t) es \<longleftrightarrow> OriginText s \<in> set es"
    if "\<forall>e \<in> set es. \<exists>t. e = OriginText t" for es
    using that by (induction es) auto
  from this [OF assms] show ?thesis unfolding origin_allowed_def option.case by (simp only: split: if_split) blast
qed

section \<open>The wait of a shutdown\<close>

lemma shutdown_wait_ends:
  "(active (shutdown_wait active deadline now) = 0 \<or> deadline \<le> shutdown_wait active deadline now) \<and>
   (now < deadline \<longrightarrow> shutdown_wait active deadline now < deadline + 250) \<and> now \<le> shutdown_wait active deadline now"
proof (induction active deadline now rule: shutdown_wait.induct)
  case (1 active deadline now)
  show ?case
  proof (cases "0 < active now \<and> now < deadline")
    case True
    have "now + 250 < deadline \<or> shutdown_wait active deadline (now + 250) = now + 250" by (subst shutdown_wait.simps) auto
    then show ?thesis using 1 [OF True] True by (subst (1 2 3 4) shutdown_wait.simps) auto
  qed (auto simp: shutdown_wait.simps)
qed

text \<open>The catalogue lists every endpoint under one status.\<close>

lemma deprecation_partition:
  "mset DEPRECATION_MAP = mset getActiveEndpoints + mset getTransitionalEndpoints + mset getDeprecatedEndpoints"
proof -
  have "mset xs = mset (filter (\<lambda>e. en_status e = EpActive) xs) + mset (filter (\<lambda>e. en_status e = EpTransitional) xs) +
      mset (filter (\<lambda>e. en_status e = EpDeprecated) xs)" for xs :: "EndpointEntry list"
  proof (induction xs)
    case (Cons e xs)
    then show ?case by (cases "en_status e") simp_all
  qed simp
  then show ?thesis unfolding getActiveEndpoints_def getTransitionalEndpoints_def getDeprecatedEndpoints_def getEndpointsByStatus_def by blast
qed

text \<open>Every handled request is counted once, and as an error exactly from status 400 on or when it threw.\<close>

definition counted_total :: "(labels, nat) jmap \<Rightarrow> nat" where
  "counted_total m = sum_list (map snd m)"

lemma inc_total: "counted_total (inc l m) = counted_total m + 1"
proof -
  have "counted_total (jm_set l (n + 1) m) = counted_total m + 1" if "n = (case jm_get l m of Some n \<Rightarrow> n | None \<Rightarrow> 0)" for n
    using that
  proof (induction m)
    case (Cons p m)
    then show ?case by (cases p) (auto simp: counted_total_def jm_get_def)
  qed (simp add: counted_total_def)
  then show ?thesis by (simp add: inc_def)
qed

lemma observed_counts:
  "counted_total (hm_requests (observe_request m route d r ms)) = counted_total (hm_requests ms) + 1 \<and>
   counted_total (hm_errors (observe_request m route d r ms)) =
     counted_total (hm_errors ms) + (if (\<exists>s. r = Failed s) \<or> 400 \<le> handled_status r then 1 else 0)"
  by (auto simp: observe_request_def Let_def inc_total handled_status_def split: handled.splits)

text \<open>A share that is no number switches the verification off.\<close>

lemma nan_percent_never: "string_to_num s = NaN \<Longrightarrow> \<not> shouldVerify (Some s) r"
  by (simp add: shouldVerify_def verify_percent_def)

end
