(* ===== verification/Access_Control.thy ===== *)
theory Access_Control
  imports Auth_Service
begin

text \<open>
  Who may call what: the payload check and the user lookup of the token strategy
  (\<^verbatim>\<open>auth/strategies/jwt-strategy.ts\<close>), the guards (\<^verbatim>\<open>auth/guards\<close>) and the table of the handlers
  with their guards and roles, as the controllers declare them, all behind the rate limit of the
  application (\<^verbatim>\<open>common/rate-limit.guard.ts\<close>, provided for every handler by \<^verbatim>\<open>app.module.ts\<close>).  The
  signature check of the token library, the address check of the validation library and the counters
  of the limiter are parameters; the framework runs the guard of the application, then the guards of
  the class, then those of its method, and answers 403 when one says no.
\<close>

section \<open>Token payloads\<close>

record access =
  ac_users :: user_repo
  ac_isEmail :: "string \<Rightarrow> bool"
  ac_verify :: "int \<Rightarrow> string option \<Rightarrow> js_record option"

definition jwt_secret :: "string option \<Rightarrow> js_error + string" where
  "jwt_secret secret = (case secret of
      Some s \<Rightarrow> if s = [] then Inl (JsError ''Error'' ''JWT_SECRET is required'' []) else Inr s
    | None \<Rightarrow> Inl (JsError ''Error'' ''JWT_SECRET is required'' []))"

fun is_number :: "js \<Rightarrow> bool" where
  "is_number (Num n) = num_isFinite n"
| "is_number _ = False"

fun is_string :: "js \<Rightarrow> bool" where
  "is_string (Str s) = True"
| "is_string _ = False"

definition payload_ok :: "(string \<Rightarrow> bool) \<Rightarrow> js_record \<Rightarrow> bool" where
  "payload_ok isEmail p \<longleftrightarrow> is_number (get_prop p ''sub'') \<and>
     (case get_prop p ''email'' of Str s \<Rightarrow> isEmail s | _ \<Rightarrow> False) \<and>
     (case get_prop p ''roles'' of Arr rs \<Rightarrow> list_all is_string rs | _ \<Rightarrow> False)"

definition invalid_payload :: js_error where
  "invalid_payload = UnauthorizedException ''Invalid token payload: missing or malformed user identification fields''"

text \<open>The lookup by the subject: a number that is no row's key finds nothing.\<close>

definition find_subject :: "user_repo \<Rightarrow> js \<Rightarrow> User option user_act" where
  "find_subject R sub = r_findOne R (\<lambda>u. us_id u \<noteq> None \<and> sub = Num (num (user_number u)))"

definition validate_payload :: "access \<Rightarrow> js_record \<Rightarrow> User option user_act" where
  "validate_payload A payload =
    (if \<not> payload_ok (ac_isEmail A) payload then act_throw invalid_payload
     else find_subject (ac_users A) (get_prop payload ''sub''))"

section \<open>Guards\<close>

text \<open>The guard of the strategy: no valid token, or no user for it, is 401.\<close>

definition jwt_guard :: "access \<Rightarrow> int \<Rightarrow> string option \<Rightarrow> User user_act" where
  "jwt_guard A now authorization = (case ac_verify A now authorization of
      None \<Rightarrow> act_throw (UnauthorizedException ''Unauthorized'')
    | Some payload \<Rightarrow> act_bind (validate_payload A payload) (\<lambda>found. case found of
          None \<Rightarrow> act_throw (UnauthorizedException ''Unauthorized'')
        | Some u \<Rightarrow> act_ret u))"

text \<open>The guard with a public key, which keeps the payload itself as the user of the request.\<close>

datatype jwt_verdict = Verified js_record | TokenExpired | TokenInvalid

definition bearer_token :: "string option \<Rightarrow> string option" where
  "bearer_token header = (case header of
      Some h \<Rightarrow> if take 7 h = ''Bearer '' then Some (drop 7 h) else None
    | None \<Rightarrow> None)"

definition rsa_guard :: "(string \<Rightarrow> string \<Rightarrow> jwt_verdict) \<Rightarrow> string option \<Rightarrow> string option \<Rightarrow> js_error + js_record" where
  "rsa_guard verify publicKey header = (case bearer_token header of
      None \<Rightarrow> Inl (UnauthorizedException ''Missing bearer token'')
    | Some token \<Rightarrow>
        if token = [] then Inl (UnauthorizedException ''Missing bearer token'')
        else (case verify token (case publicKey of Some k \<Rightarrow> k | None \<Rightarrow> []) of
            Verified p \<Rightarrow> Inr p
          | TokenExpired \<Rightarrow> Inl (UnauthorizedException ''Token expired'')
          | TokenInvalid \<Rightarrow> Inl (UnauthorizedException ''Invalid token'')))"

definition roles_admit :: "string list option \<Rightarrow> User option \<Rightarrow> js_error + bool" where
  "roles_admit requiredRoles user = (case requiredRoles of
      None \<Rightarrow> Inr True
    | Some rs \<Rightarrow> (case user of
          None \<Rightarrow> Inl (JsError ''TypeError'' (''Cannot read properties of undefined (reading '' @ [CHR 0x27] @ ''role'' @ [CHR 0x27] @ '')'') [])
        | Some u \<Rightarrow> Inr (role_name (us_role u) \<in> set rs)))"

definition ForbiddenException :: "string \<Rightarrow> js_error" where
  "ForbiddenException message = JsError ''ForbiddenException'' message []"

section \<open>Handlers\<close>

datatype guard = JwtAuth | RolesCheck

datatype verb = Get | Post | Put | Patch | Delete

record handler =
  h_verb :: verb
  h_path :: string
  h_guards :: "guard list"
  h_roles :: "string list option"

record controller =
  c_prefix :: string
  c_guards :: "guard list"
  c_roles :: "string list option"
  c_handlers :: "handler list"

definition plain_handler :: "verb \<Rightarrow> string \<Rightarrow> handler" where
  "plain_handler v p = \<lparr>h_verb = v, h_path = p, h_guards = [], h_roles = None\<rparr>"

definition user_handler :: "verb \<Rightarrow> string \<Rightarrow> handler" where
  "user_handler v p = \<lparr>h_verb = v, h_path = p, h_guards = [JwtAuth], h_roles = None\<rparr>"

definition admin_handler :: "verb \<Rightarrow> string \<Rightarrow> handler" where
  "admin_handler v p = \<lparr>h_verb = v, h_path = p, h_guards = [JwtAuth, RolesCheck], h_roles = Some [''admin'']\<rparr>"

definition plain_controller :: "string \<Rightarrow> handler list \<Rightarrow> controller" where
  "plain_controller p hs = \<lparr>c_prefix = p, c_guards = [], c_roles = None, c_handlers = hs\<rparr>"

definition admin_controller :: "string \<Rightarrow> handler list \<Rightarrow> controller" where
  "admin_controller p hs = \<lparr>c_prefix = p, c_guards = [JwtAuth, RolesCheck], c_roles = Some [''admin''], c_handlers = hs\<rparr>"

text \<open>The guards of a handler and the roles in force: those of the method override those of the class.\<close>

definition guards_of :: "controller \<Rightarrow> handler \<Rightarrow> guard list" where
  "guards_of c h = c_guards c @ h_guards h"

definition roles_of :: "controller \<Rightarrow> handler \<Rightarrow> string list option" where
  "roles_of c h = (case h_roles h of Some r \<Rightarrow> Some r | None \<Rightarrow> c_roles c)"

fun run_guards :: "access \<Rightarrow> int \<Rightarrow> string option \<Rightarrow> string list option \<Rightarrow> guard list \<Rightarrow> User option \<Rightarrow> User option user_act" where
  "run_guards A now authorization roles [] user = act_ret user"
| "run_guards A now authorization roles (JwtAuth # gs) user =
     act_bind (jwt_guard A now authorization) (\<lambda>u. run_guards A now authorization roles gs (Some u))"
| "run_guards A now authorization roles (RolesCheck # gs) user = (case roles_admit roles user of
       Inl e \<Rightarrow> act_throw e
     | Inr ok \<Rightarrow> if ok then run_guards A now authorization roles gs user else act_throw (ForbiddenException ''Forbidden resource''))"

text \<open>What a handler declares, and the rate limit of the application in front of it.\<close>

definition declared_gate :: "access \<Rightarrow> int \<Rightarrow> string option \<Rightarrow> controller \<Rightarrow> handler \<Rightarrow> User option user_act" where
  "declared_gate A now authorization c h = run_guards A now authorization (roles_of c h) (guards_of c h) None"

text \<open>
  The library's counters: whether a request, counted under its tracker for its handler, is over
  a limit, and the counters afterwards.  The application's guard names the tracker; it runs before the
  guards that put a user into the request.
\<close>

record 't limiter =
  li_hit :: "int \<Rightarrow> string \<Rightarrow> controller \<Rightarrow> handler \<Rightarrow> 't \<Rightarrow> bool \<times> 't"

definition wallet_tracker :: "string option \<Rightarrow> string option \<Rightarrow> string option \<Rightarrow> string" where
  "wallet_tracker walletAddress address ip = (case walletAddress of Some w \<Rightarrow> w | None \<Rightarrow> (case address of Some a \<Rightarrow> a
     | None \<Rightarrow> (case ip of Some i \<Rightarrow> i | None \<Rightarrow> ''anonymous'')))"

definition ThrottlerException :: js_error where
  "ThrottlerException = JsError ''ThrottlerException'' ''Rate limit exceeded. Please try again later.'' []"

definition rate_limit_guard :: "'t limiter \<Rightarrow> int \<Rightarrow> string option \<Rightarrow> controller \<Rightarrow> handler \<Rightarrow> ('t, js_error, unit) act" where
  "rate_limit_guard L now ip c h counts =
    (let (over, counts') = li_hit L now (wallet_tracker None None ip) c h counts
     in (if over then Inl ThrottlerException else Inr (), counts'))"

definition behind_limit ::
    "'t limiter \<Rightarrow> int \<Rightarrow> string option \<Rightarrow> controller \<Rightarrow> handler \<Rightarrow> ('s, js_error, 'a) act \<Rightarrow> ('t \<times> 's, js_error, 'a) act" where
  "behind_limit L now ip c h body =
     act_seq (zoom fst (\<lambda>t s. (t, snd s)) (rate_limit_guard L now ip c h)) (zoom snd (\<lambda>s t. (fst t, s)) body)"

definition request_gate ::
    "'t limiter \<Rightarrow> access \<Rightarrow> int \<Rightarrow> string option \<Rightarrow> string option \<Rightarrow> controller \<Rightarrow> handler \<Rightarrow> ('t \<times> User list, js_error, User option) act" where
  "request_gate L A now ip authorization c h = behind_limit L now ip c h (declared_gate A now authorization c h)"

section \<open>The controllers\<close>

definition AuthController :: controller where
  "AuthController = plain_controller ''auth''
     [plain_handler Post ''forgot-password'', plain_handler Post ''reset-password'', plain_handler Post ''signup'',
      plain_handler Post ''login'', user_handler Get ''me'', plain_handler Post ''refresh'', plain_handler Post ''logout'',
      user_handler Get ''sessions'', admin_handler Post ''admin/unlock'']"

definition UserController :: controller where
  "UserController = plain_controller ''users''
     [plain_handler Post [], plain_handler Get [], plain_handler Get '':id'', user_handler Patch ''profile'',
      plain_handler Patch '':id'', plain_handler Delete '':id'']"

definition WordsController :: controller where
  "WordsController = plain_controller ''words''
     [plain_handler Get ''test'', plain_handler Get ''random'', plain_handler Get ''daily'', admin_handler Post ''daily/trigger'',
      admin_handler Post ''daily/rotate'', plain_handler Get ''daily/health'', plain_handler Post [], plain_handler Post ''validate'',
      plain_handler Get '':text'']"

definition WordSuggestionsController :: controller where
  "WordSuggestionsController = plain_controller ''words''
     [user_handler Post ''suggest'', user_handler Post ''suggest/:id/vote'', plain_handler Get ''suggestions'']"

definition WordCacheController :: controller where
  "WordCacheController = plain_controller ''words/cache'' [plain_handler Get ''health'']"

definition GameSessionsController :: controller where
  "GameSessionsController = plain_controller ''sessions''
     [user_handler Post [], plain_handler Post ''guest'', user_handler Get ''my-sessions'', plain_handler Get ''guest-sessions'',
      user_handler Post '':id/guess'', plain_handler Post '':id/guest-guess'']"

definition GamesController :: controller where
  "GamesController = plain_controller ''games''
     [admin_handler Post [], plain_handler Get [], admin_handler Patch '':id'', admin_handler Delete '':id'']"

definition LeaderboardController :: controller where
  "LeaderboardController = plain_controller ''leaderboard'' [plain_handler Get ''global'', plain_handler Get '':gameSlug'']"

definition MatchmakingController :: controller where
  "MatchmakingController = plain_controller ''matches''
     [plain_handler Post ''queue'', plain_handler Get '':id'', plain_handler Post '':id/result'']"

definition IndexerController :: controller where
  "IndexerController = plain_controller ''indexer''
     [plain_handler Get ''lag'', plain_handler Get ''health'', plain_handler Post ''ingest'', plain_handler Post ''reset/cursor'',
      plain_handler Get ''records'', plain_handler Post ''reset/projections'']"

definition AuditController :: controller where
  "AuditController = plain_controller ''audit'' [plain_handler Get ''logs'', plain_handler Get ''logs/:id'']"

definition RewardSummaryController :: controller where
  "RewardSummaryController = plain_controller ''rewards'' [plain_handler Get '':player'']"

definition ReadApiController :: controller where
  "ReadApiController = plain_controller ''api/v1''
     [plain_handler Get ''achievements/:address'', plain_handler Get ''players/:address/summary'', plain_handler Get ''sessions'']"

definition DeprecationController :: controller where
  "DeprecationController = plain_controller ''api/v1/deprecation''
     [plain_handler Get [], plain_handler Get ''active'', plain_handler Get ''transitional'', plain_handler Get ''deprecated'']"

definition JobMonitorController :: controller where
  "JobMonitorController = plain_controller ''jobs'' [plain_handler Get ''stats'', plain_handler Get ''dead-letter/:queue'']"

definition MetricsController :: controller where
  "MetricsController = plain_controller ''metrics'' [plain_handler Get []]"

definition AppController :: controller where
  "AppController = plain_controller []
     [plain_handler Get [], plain_handler Get ''health'', plain_handler Get ''test-db'', plain_handler Get ''test-entities'']"

definition AdminQueuesController :: controller where
  "AdminQueuesController = admin_controller ''admin/queues'' [plain_handler Get ''metrics'']"

definition AdminDlqController :: controller where
  "AdminDlqController = admin_controller ''admin/dlq'' [plain_handler Get []]"

definition DigestController :: controller where
  "DigestController = admin_controller ''admin/digest'' [plain_handler Get ''template'', plain_handler Put ''template'']"

definition AnalyticsController :: controller where
  "AnalyticsController = admin_controller ''analytics'' [plain_handler Get ''sessions'']"

definition StatsExportController :: controller where
  "StatsExportController = plain_controller ''api/v1/admin/stats'' [plain_handler Get ''export'']"

definition api_controllers :: "controller list" where
  "api_controllers = [AuthController, UserController, WordsController, WordSuggestionsController, WordCacheController,
     GameSessionsController, GamesController, LeaderboardController, MatchmakingController, IndexerController, AuditController,
     RewardSummaryController, ReadApiController, DeprecationController, JobMonitorController, MetricsController, AppController,
     AdminQueuesController, AdminDlqController, DigestController, AnalyticsController, StatsExportController]"

lemmas controller_defs = AuthController_def UserController_def WordsController_def WordSuggestionsController_def WordCacheController_def
  GameSessionsController_def GamesController_def LeaderboardController_def MatchmakingController_def IndexerController_def
  AuditController_def RewardSummaryController_def ReadApiController_def DeprecationController_def JobMonitorController_def
  MetricsController_def AppController_def AdminQueuesController_def AdminDlqController_def DigestController_def
  AnalyticsController_def StatsExportController_def

lemmas handler_defs = plain_handler_def user_handler_def admin_handler_def plain_controller_def admin_controller_def

section \<open>Lemmas\<close>

text \<open>The user a request is made as: the row whose key the payload of a verified token names.\<close>

definition signed_in :: "access \<Rightarrow> int \<Rightarrow> string option \<Rightarrow> User list \<Rightarrow> User \<Rightarrow> bool" where
  "signed_in A now authorization users u \<longleftrightarrow> u \<in> set users \<and> us_id u \<noteq> None \<and>
     (\<exists>p. ac_verify A now authorization = Some p \<and> payload_ok (ac_isEmail A) p \<and> get_prop p ''sub'' = Num (num (user_number u)))"

lemma user_number_inj:
  assumes "inj_on us_id (set users)" "u \<in> set users" "v \<in> set users" "us_id u \<noteq> None" "us_id v \<noteq> None" "user_number u = user_number v"
  shows "u = v"
proof -
  have "us_id u = us_id v" using assms(4-6) by (auto simp: user_number_def)
  then show ?thesis using assms(1-3) by (simp add: inj_on_eq_iff)
qed

lemma jwt_guard_run:
  assumes "repo_ok us_id us_body (ac_users A)" "repo_reliable (ac_users A)" "inj_on us_id (set users)"
  obtains r where "jwt_guard A now authorization users = (r, users)" "\<And>u. r = Inr u \<longleftrightarrow> signed_in A now authorization users u"
    "\<And>e. r = Inl e \<Longrightarrow> err_name e = ''UnauthorizedException''"
proof (cases "\<exists>p. ac_verify A now authorization = Some p \<and> payload_ok (ac_isEmail A) p")
  case False
  then have no: "\<not> signed_in A now authorization users u" for u by (auto simp: signed_in_def)
  have "\<exists>e. jwt_guard A now authorization users = (Inl e, users) \<and> err_name e = ''UnauthorizedException''"
    using False by (cases "ac_verify A now authorization")
      (simp_all add: jwt_guard_def validate_payload_def act_defs invalid_payload_def UnauthorizedException_def)
  then obtain e where e: "jwt_guard A now authorization users = (Inl e, users)" "err_name e = ''UnauthorizedException''" by blast
  show thesis by (rule that [OF e(1)]) (use no e(2) in auto)
next
  case True
  then obtain p where p: "ac_verify A now authorization = Some p" "payload_ok (ac_isEmail A) p" by blast
  let ?P = "\<lambda>u. us_id u \<noteq> None \<and> get_prop p ''sub'' = Num (num (user_number u))"
  obtain x t where f: "r_findOne (ac_users A) ?P users = (Inr x, t)" using assms(2) by (rule reliable_findOne)
  have t: "t = users" and x: "case x of None \<Rightarrow> \<forall>u \<in> set users. \<not> ?P u | Some u \<Rightarrow> u \<in> set users \<and> ?P u"
    using findOne_returns [OF assms(1) f] by blast+
  have s: "signed_in A now authorization users u \<longleftrightarrow> u \<in> set users \<and> ?P u" for u
    using p by (auto simp: signed_in_def)
  have g: "jwt_guard A now authorization users =
      (case x of None \<Rightarrow> Inl (UnauthorizedException ''Unauthorized'') | Some u \<Rightarrow> Inr u, users)"
    using p f t by (simp add: jwt_guard_def validate_payload_def find_subject_def act_defs split: option.splits)
  show thesis
  proof (rule that [OF g])
    fix u
    show "((case x of None \<Rightarrow> Inl (UnauthorizedException ''Unauthorized'') | Some u \<Rightarrow> Inr u) = Inr u) \<longleftrightarrow> signed_in A now authorization users u"
    proof (cases x)
      case (Some v)
      have "signed_in A now authorization users u \<Longrightarrow> v = u"
        using x Some s [of u] by (intro user_number_inj [OF assms(3)]) auto
      then show ?thesis using x Some s by auto
    qed (use x s in auto)
  qed (auto simp: UnauthorizedException_def split: option.splits)
qed

text \<open>Three kinds of handlers: open ones, ones for signed-in users, and ones for administrators.\<close>

lemma handler_kinds:
  "list_all (\<lambda>c. list_all (\<lambda>h. (guards_of c h, roles_of c h) \<in> {([], None), ([JwtAuth], None), ([JwtAuth, RolesCheck], Some [''admin''])}) (c_handlers c)) api_controllers"
  by (simp add: api_controllers_def controller_defs handler_defs guards_of_def roles_of_def)

lemma handler_kind:
  assumes "c \<in> set api_controllers" "h \<in> set (c_handlers c)"
  obtains "guards_of c h = []" "roles_of c h = None"
  | "guards_of c h = [JwtAuth]" "roles_of c h = None"
  | "guards_of c h = [JwtAuth, RolesCheck]" "roles_of c h = Some [''admin'']"
  using handler_kinds assms by (fastforce simp: list_all_iff)

definition routes_where :: "(controller \<Rightarrow> handler \<Rightarrow> bool) \<Rightarrow> (verb \<times> string \<times> string) list" where
  "routes_where P = concat (map (\<lambda>c. map (\<lambda>h. (h_verb h, c_prefix c, h_path h)) (filter (P c) (c_handlers c))) api_controllers)"

text \<open>The handlers of administrators, and the open handlers that write to accounts, words, games or projections.\<close>

lemma admin_routes: "routes_where (\<lambda>c h. roles_of c h \<noteq> None) =
   [(Post, ''auth'', ''admin/unlock''), (Post, ''words'', ''daily/trigger''), (Post, ''words'', ''daily/rotate''),
    (Post, ''games'', []), (Patch, ''games'', '':id''), (Delete, ''games'', '':id''), (Get, ''admin/queues'', ''metrics''),
    (Get, ''admin/dlq'', []), (Get, ''admin/digest'', ''template''), (Put, ''admin/digest'', ''template''), (Get, ''analytics'', ''sessions'')]"
  by code_simp

lemma open_writers: "routes_where (\<lambda>c h. guards_of c h = [] \<and> h_verb h \<noteq> Get \<and> c_prefix c \<noteq> ''auth'') =
   [(Post, ''users'', []), (Patch, ''users'', '':id''), (Delete, ''users'', '':id''), (Post, ''words'', []), (Post, ''words'', ''validate''),
    (Post, ''sessions'', ''guest''), (Post, ''sessions'', '':id/guest-guess''), (Post, ''matches'', ''queue''), (Post, ''matches'', '':id/result''),
    (Post, ''indexer'', ''ingest''), (Post, ''indexer'', ''reset/cursor''), (Post, ''indexer'', ''reset/projections'')]"
  by code_simp

text \<open>A token says which roles its user had; the guards do not read them.\<close>

lemma roles_claim_unread:
  assumes "payload_ok E p" "payload_ok E q" "get_prop p ''sub'' = get_prop q ''sub''"
  shows "validate_payload \<lparr>ac_users = R, ac_isEmail = E, ac_verify = v\<rparr> p = validate_payload \<lparr>ac_users = R, ac_isEmail = E, ac_verify = v\<rparr> q"
  using assms by (simp add: validate_payload_def)

lemma declared_gate_run:
  assumes "repo_ok us_id us_body (ac_users A)" "repo_reliable (ac_users A)" "inj_on us_id (set users)"
    and "c \<in> set api_controllers" "h \<in> set (c_handlers c)"
  shows "\<exists>r. declared_gate A now authorization c h users = (r, users) \<and>
    (\<forall>v. r = Inr v \<longleftrightarrow> (if guards_of c h = [] then v = None
       else \<exists>u. v = Some u \<and> signed_in A now authorization users u \<and> (roles_of c h \<noteq> None \<longrightarrow> us_role u = Role_admin))) \<and>
    (\<forall>e. r = Inl e \<longrightarrow> (if \<exists>u. signed_in A now authorization users u then e = ForbiddenException ''Forbidden resource''
       else err_name e = ''UnauthorizedException''))"
proof -
  obtain r where g: "jwt_guard A now authorization users = (r, users)" and r: "\<And>u. r = Inr u \<longleftrightarrow> signed_in A now authorization users u"
    and no: "\<And>e. r = Inl e \<Longrightarrow> err_name e = ''UnauthorizedException''"
    using jwt_guard_run [OF assms(1-3)] by blast
  show ?thesis using assms(4,5)
  proof (cases rule: handler_kind)
    case 1
    then show ?thesis by (auto simp: declared_gate_def act_defs)
  next
    case 2
    then show ?thesis using g r no by (cases r) (auto simp: declared_gate_def act_defs)
  next
    case 3
    have admin: "(role_name k = ''admin'') \<longleftrightarrow> k = Role_admin" for k by (cases k) simp_all
    show ?thesis
    proof (cases r)
      case (Inl e)
      then show ?thesis using 3 g r no by (auto simp: declared_gate_def act_defs)
    next
      case (Inr u)
      then have g': "jwt_guard A now authorization users = (Inr u, users)"
        and only: "signed_in A now authorization users w \<longleftrightarrow> w = u" for w using g r [of w] by auto
      have "declared_gate A now authorization c h users =
          (if us_role u = Role_admin then Inr (Some u) else Inl (ForbiddenException ''Forbidden resource''), users)"
        using 3 g' by (simp add: declared_gate_def act_defs roles_admit_def admin)
      then show ?thesis using 3 only by auto
    qed
  qed
qed

section \<open>Properties\<close>

text \<open>
  C35: every handler of the API is behind the rate limit of the application and exactly what it
  declares.  A request over the limit of its address is answered with the limiter's error, whatever
  the handler.  Any other one reaches an open handler without a user, a handler for signed-in users
  exactly as the user whose key a verified, well-formed token names, and one for administrators
  exactly as such a user whose row has the role now, whatever roles the token claims; otherwise it is
  refused, as forbidden when somebody is signed in and as unauthorized when nobody is.  No check
  changes a row.
\<close>

theorem handlers_gated:
  assumes "repo_ok us_id us_body (ac_users A)" "repo_reliable (ac_users A)" "inj_on us_id (set users)"
    and "c \<in> set api_controllers" "h \<in> set (c_handlers c)"
    and hit: "li_hit L now (case ip of Some i \<Rightarrow> i | None \<Rightarrow> ''anonymous'') c h counts = (over, counts')"
  shows "\<exists>r. request_gate L A now ip authorization c h (counts, users) = (r, (counts', users)) \<and>
    (if over then r = Inl ThrottlerException
     else (\<forall>v. r = Inr v \<longleftrightarrow> (if guards_of c h = [] then v = None
         else \<exists>u. v = Some u \<and> signed_in A now authorization users u \<and> (roles_of c h \<noteq> None \<longrightarrow> us_role u = Role_admin))) \<and>
       (\<forall>e. r = Inl e \<longrightarrow> (if \<exists>u. signed_in A now authorization users u then e = ForbiddenException ''Forbidden resource''
         else err_name e = ''UnauthorizedException'')))"
proof -
  have "rate_limit_guard L now ip c h counts = (if over then Inl ThrottlerException else Inr (), counts')"
    using hit by (simp add: rate_limit_guard_def wallet_tracker_def Let_def)
  then have gate: "request_gate L A now ip authorization c h (counts, users) =
      (if over then (Inl ThrottlerException, (counts', users))
       else case declared_gate A now authorization c h users of (r, t) \<Rightarrow> (r, (counts', t)))"
    by (simp add: request_gate_def behind_limit_def act_defs split: prod.split)
  show ?thesis unfolding gate using declared_gate_run [OF assms(1-5), of now authorization] by (cases over) auto
qed

text \<open>The token of an administrator opens the forced rotation of the word of the day.\<close>

definition one_token :: access where
  "one_token = \<lparr>ac_users = user_mem, ac_isEmail = (\<lambda>s. s \<noteq> []),
     ac_verify = (\<lambda>now h. if h = Some ''Bearer t'' then Some [(''sub'', Num (num 1)), (''email'', Str ''a@b.c''), (''roles'', Arr [Str ''user''])] else None)\<rparr>"

definition admin_row :: User where
  "admin_row = (some_user 1)\<lparr>us_role := Role_admin\<rparr>"

text \<open>A limiter that counts the requests of an address and admits two.\<close>

definition two_requests :: "(string \<Rightarrow> nat) limiter" where
  "two_requests = \<lparr>li_hit = (\<lambda>now tracker c h counts. (2 \<le> counts tracker, counts(tracker := counts tracker + 1)))\<rparr>"

theorem handlers_gated_witness:
  "(\<exists>n. request_gate two_requests one_token 0 (Some ''1.2.3.4'') (Some ''Bearer t'') WordsController (admin_handler Post ''daily/rotate'')
       ((\<lambda>_. 0), [admin_row]) = (Inr (Some admin_row), (n, [admin_row]))) \<and>
   (\<exists>n. request_gate two_requests one_token 0 (Some ''1.2.3.4'') (Some ''Bearer t'') WordsController (admin_handler Post ''daily/rotate'')
       ((\<lambda>_. 2), [admin_row]) = (Inl ThrottlerException, (n, [admin_row])))"
proof -
  let ?c = WordsController and ?h = "admin_handler Post ''daily/rotate''" and ?ip = "Some ''1.2.3.4'' :: string option"
  have h: "?c \<in> set api_controllers" "?h \<in> set (c_handlers ?c)" "guards_of ?c ?h \<noteq> []"
    by (simp_all add: api_controllers_def WordsController_def plain_controller_def admin_handler_def guards_of_def)
  have u: "repo_ok us_id us_body (ac_users one_token)" "repo_reliable (ac_users one_token)" "inj_on us_id (set [admin_row])"
    by (simp_all add: one_token_def user_mem_ok user_mem_reliable)
  have s: "signed_in one_token 0 (Some ''Bearer t'') [admin_row] admin_row" "us_role admin_row = Role_admin"
    by (simp_all add: signed_in_def one_token_def payload_ok_def get_prop_def admin_row_def some_user_def user_number_def)
  have l: "li_hit two_requests 0 (case ?ip of Some i \<Rightarrow> i | None \<Rightarrow> ''anonymous'') ?c ?h (\<lambda>_. n) = (2 \<le> n, (\<lambda>_. n)(''1.2.3.4'' := n + 1))" for n
    by (simp add: two_requests_def)
  note gate = handlers_gated [OF u h(1,2) l, where authorization = "Some ''Bearer t''"]
  show ?thesis using gate [of 0] gate [of 2] h(3) s by auto
qed

section \<open>The token of a login\<close>

text \<open>What a login answers with: an access token that names the account whose password fitted.\<close>

lemma login_token:
  assumes V: "users_ok V w" and run: "login V now raw uuid email pw ua ip w = (Inr a, w1)"
  obtains u where "u \<in> set (aw_users w)" "us_email u = trim (toLowerCase email)" "sv_compare V pw (us_password u)"
    "an_access_token a = generateAccessToken V (user_number u) (us_email u) (us_role u)"
proof -
  let ?E = "trim (toLowerCase email)"
  obtain g l where g: "assertCanAttempt (sv_store V) now ?E (aw_lock w) = (g, l)" by force
  have f: "findByEmail (sv_users V) ?E (aw_users w) = (Inr (row_of us_email ?E (aw_users w)), aw_users w)"
    using findByEmail_row V unfolding users_ok_def by blast
  note L = login_def Let_def svc_acts g f
  have g': "g = Inr ()" using run by (cases g) (simp_all add: L)
  show thesis
  proof (cases "login_user V email pw w")
    case None
    then show thesis using run by (simp add: L g' login_user_def split: option.splits if_splits prod.splits sum.splits)
  next
    case (Some u)
    then have u: "row_of us_email ?E (aw_users w) = Some u" "sv_compare V pw (us_password u)"
      by (auto simp: login_user_def split: option.splits if_splits)
    have "an_access_token a = generateAccessToken V (user_number u) (us_email u) (us_role u)"
      using run u by (auto simp: L g' issue_tokens_def split: prod.splits sum.splits)
    then show thesis using that [of u] row_of_SomeD [OF u(1)] u(2) by blast
  qed
qed

text \<open>
  The token library's law: a token it signed verifies, while it is valid, with the claims that were
  signed, to which the library adds its own (\<^verbatim>\<open>iat\<close>, \<^verbatim>\<open>exp\<close>).  Claims are texts, numbers and lists of texts.
\<close>

definition plain_claims :: "js_record \<Rightarrow> bool" where
  "plain_claims p \<longleftrightarrow> distinct (map fst p) \<and> list_all (\<lambda>(k, v). k \<notin> {''iat'', ''exp'', ''nbf''} \<and>
     (case v of Str _ \<Rightarrow> True | Num n \<Rightarrow> num_isFinite n | Arr xs \<Rightarrow> list_all is_string xs | _ \<Rightarrow> False)) p"

definition verifies_signed :: "access \<Rightarrow> (js_record \<Rightarrow> string \<Rightarrow> string) \<Rightarrow> int \<Rightarrow> string \<Rightarrow> bool" where
  "verifies_signed A sign later token \<longleftrightarrow> (\<forall>p expiresIn. plain_claims p \<longrightarrow> sign p expiresIn = token \<longrightarrow>
     (\<exists>q. ac_verify A later (Some (''Bearer '' @ token)) = Some q \<and> (\<forall>k v. map_of p k = Some v \<longrightarrow> map_of q k = Some v)))"

text \<open>What the program signs into the token of an account.\<close>

lemma access_token_claims:
  assumes "verifies_signed A (sv_sign V) later (generateAccessToken V i email role)"
  obtains q where "ac_verify A later (Some (''Bearer '' @ generateAccessToken V i email role)) = Some q"
    "get_prop q ''sub'' = Num (num i)" "get_prop q ''email'' = Str email" "get_prop q ''roles'' = Arr [Str (role_name role)]"
proof -
  let ?p = "[(''sub'', Num (num i)), (''email'', Str email), (''roles'', Arr [Str (role_name role)])]"
  have "plain_claims ?p" by (simp add: plain_claims_def)
  then obtain q where q: "ac_verify A later (Some (''Bearer '' @ generateAccessToken V i email role)) = Some q"
    "\<forall>k v. map_of ?p k = Some v \<longrightarrow> map_of q k = Some v"
    using assms unfolding verifies_signed_def generateAccessToken_def by blast
  from q(2) have "map_of q ''sub'' = Some (Num (num i))" "map_of q ''email'' = Some (Str email)"
    "map_of q ''roles'' = Some (Arr [Str (role_name role)])" by auto
  then show thesis using that q(1) by (simp add: get_prop_def)
qed

text \<open>The row a token admits somewhere: by its key, and to the handlers of administrators by its role now.\<close>

definition admitted_as :: "User \<Rightarrow> User list \<Rightarrow> controller \<Rightarrow> handler \<Rightarrow> User \<Rightarrow> bool" where
  "admitted_as u users c h v \<longleftrightarrow> v \<in> set users \<and> us_id v \<noteq> None \<and> user_number v = user_number u \<and>
     (roles_of c h \<noteq> None \<longrightarrow> us_role v = Role_admin)"

text \<open>
  C36: the access token of a login, presented while the library verifies it, carries the key, the
  address and the role of the account whose address and password the login was given, and admits
  its bearer to every guarded handler exactly as the row of that key is then: a role taken away or
  a removed account is out at once, although the token still lists the old role.  Its address has to
  be one the payload check accepts.
\<close>

theorem token_of_login:
  assumes "users_ok V w" "login V now raw uuid email pw ua ip w = (Inr a, w1)"
    and law: "verifies_signed A (sv_sign V) later (an_access_token a)" and email: "ac_isEmail A (trim (toLowerCase email))"
    and R: "repo_ok us_id us_body (ac_users A)" "repo_reliable (ac_users A)"
  shows "\<exists>u \<in> set (aw_users w). us_email u = trim (toLowerCase email) \<and> sv_compare V pw (us_password u) \<and>
    (\<exists>q. ac_verify A later (Some (''Bearer '' @ an_access_token a)) = Some q \<and> get_prop q ''sub'' = Num (num (user_number u)) \<and>
       get_prop q ''email'' = Str (us_email u) \<and> get_prop q ''roles'' = Arr [Str (role_name (us_role u))]) \<and>
    (\<forall>users c h. inj_on us_id (set users) \<and> c \<in> set api_controllers \<and> h \<in> set (c_handlers c) \<and> guards_of c h \<noteq> [] \<longrightarrow>
       (\<exists>r. declared_gate A later (Some (''Bearer '' @ an_access_token a)) c h users = (r, users) \<and>
         (\<forall>x. r = Inr x \<longleftrightarrow> (\<exists>v. x = Some v \<and> admitted_as u users c h v))))"
proof -
  obtain u where u: "u \<in> set (aw_users w)" "us_email u = trim (toLowerCase email)" "sv_compare V pw (us_password u)"
    "an_access_token a = generateAccessToken V (user_number u) (us_email u) (us_role u)"
    using login_token [OF assms(1,2)] .
  let ?t = "Some (''Bearer '' @ an_access_token a)"
  obtain q where q: "ac_verify A later ?t = Some q" "get_prop q ''sub'' = Num (num (user_number u))"
    "get_prop q ''email'' = Str (us_email u)" "get_prop q ''roles'' = Arr [Str (role_name (us_role u))]"
    using access_token_claims [OF law [unfolded u(4)]] unfolding u(4) .
  have "payload_ok (ac_isEmail A) q" using email u(2) by (simp add: payload_ok_def q)
  then have "signed_in A later ?t users v \<longleftrightarrow> v \<in> set users \<and> us_id v \<noteq> None \<and> user_number v = user_number u" for users v
    using q(1,2) by (auto simp: signed_in_def)
  then have "\<exists>r. declared_gate A later ?t c h users = (r, users) \<and> (\<forall>x. r = Inr x \<longleftrightarrow> (\<exists>v. x = Some v \<and> admitted_as u users c h v))"
    if "inj_on us_id (set users) \<and> c \<in> set api_controllers \<and> h \<in> set (c_handlers c) \<and> guards_of c h \<noteq> []" for users c h
    using declared_gate_run [OF R, of users c h later ?t] that by (auto simp: admitted_as_def)
  then show ?thesis using u(1-3) q by blast
qed

text \<open>An account signs in, gets its token, and the token opens its profile, but not once it is removed.\<close>

definition fresh_world :: "attempt_data auth_world" where
  "fresh_world = \<lparr>aw_users = [some_user 1], aw_resets = [], aw_auth = \<lparr>db_tokens = [], db_sessions = [], db_audit = []\<rparr>,
     aw_lock = \<lparr>lk_store = [], lk_audit = []\<rparr>, aw_mails = []\<rparr>"

definition first_claims :: js_record where
  "first_claims = [(''sub'', Num (num 1)), (''email'', Str ''a@b.c''), (''roles'', Arr [Str ''user''])]"

definition signing_service :: "attempt_data auth_service" where
  "signing_service = plain_service\<lparr>sv_sign := (\<lambda>p x. if p = first_claims then ''jwt'' else ''other'')\<rparr>"

definition jwt_token :: access where
  "jwt_token = one_token\<lparr>ac_verify := (\<lambda>now h. if h = Some ''Bearer jwt'' then Some (first_claims @ [(''iat'', Num (num 0))]) else None)\<rparr>"

theorem token_of_login_witness:
  "\<exists>a w1. login signing_service 0 ''t'' ''f'' ''A@b.c'' [] None None fresh_world = (Inr a, w1) \<and>
     declared_gate jwt_token 60000 (Some (''Bearer '' @ an_access_token a)) AuthController (user_handler Get ''me'') [some_user 1] =
       (Inr (Some (some_user 1)), [some_user 1]) \<and>
     (\<exists>e. declared_gate jwt_token 60000 (Some (''Bearer '' @ an_access_token a)) AuthController (user_handler Get ''me'') [] = (Inl e, []))"
proof -
  let ?c = AuthController and ?h = "user_handler Get ''me''"
  have "case login signing_service 0 ''t'' ''f'' ''A@b.c'' [] None None fresh_world of (Inr a, _) \<Rightarrow> an_access_token a = ''jwt'' | _ \<Rightarrow> False"
    by code_simp
  then obtain a w1 where run: "login signing_service 0 ''t'' ''f'' ''A@b.c'' [] None None fresh_world = (Inr a, w1)"
    and t: "an_access_token a = ''jwt''"
    by (auto split: prod.splits sum.splits)
  have u: "users_ok signing_service fresh_world"
    by (simp add: users_ok_def signing_service_def plain_service_def plain_auth_def fresh_world_def user_mem_ok user_mem_reliable mem_repo_reliable)
  have j: "verifies_signed jwt_token (sv_sign signing_service) 60000 (an_access_token a)"
    unfolding t by (auto simp: verifies_signed_def jwt_token_def signing_service_def first_claims_def split: if_splits)
  have e: "ac_isEmail jwt_token (trim (toLowerCase ''A@b.c''))" unfolding jwt_token_def one_token_def by code_simp
  have R: "repo_ok us_id us_body (ac_users jwt_token)" "repo_reliable (ac_users jwt_token)"
    by (simp_all add: jwt_token_def one_token_def user_mem_ok user_mem_reliable)
  have h: "?c \<in> set api_controllers" "?h \<in> set (c_handlers ?c)" "guards_of ?c ?h \<noteq> []" "roles_of ?c ?h = None"
    by (simp_all add: api_controllers_def AuthController_def plain_controller_def user_handler_def guards_of_def roles_of_def)
  have gate: "\<exists>r. declared_gate jwt_token 60000 (Some (''Bearer '' @ an_access_token a)) ?c ?h users = (r, users) \<and>
      (\<forall>x. r = Inr x \<longleftrightarrow> (\<exists>v. x = Some v \<and> admitted_as (some_user 1) users ?c ?h v))" if "inj_on us_id (set users)" for users
    using token_of_login [OF u run j e R] h that by (auto simp: fresh_world_def)
  have me: "admitted_as (some_user 1) [some_user 1] ?c ?h v \<longleftrightarrow> v = some_user 1" "\<not> admitted_as (some_user 1) [] ?c ?h v" for v
    using h(4) by (auto simp: admitted_as_def some_user_def)
  obtain r where "declared_gate jwt_token 60000 (Some (''Bearer '' @ an_access_token a)) ?c ?h [some_user 1] = (r, [some_user 1])" "r = Inr (Some (some_user 1))"
    using gate [of "[some_user 1]"] me(1) by auto
  moreover obtain r' where "declared_gate jwt_token 60000 (Some (''Bearer '' @ an_access_token a)) ?c ?h [] = (r', [])" "\<forall>x. r' \<noteq> Inr x"
    using gate [of "[]"] me(2) by auto
  ultimately show ?thesis using run by (cases r') auto
qed

end
