(* ===== verification/Response_Mappers.thy ===== *)
theory Response_Mappers
  imports Access_Control Game_Sessions Indexer_Records
begin

text \<open>
  What leaves the backend: the response objects and the mappers from the entities
  (\<^verbatim>\<open>common/dto/response-mappers.ts\<close>).  An optional column is an option, so that the mapper's
  replacement of an undefined value by null is the identity; an entity whose relation was loaded
  is mapped with the related row.
\<close>

section \<open>Players\<close>

record PublicUserDto =
  pu_id :: int
  pu_username :: "string option"
  pu_avatarUrl :: "string option"

record UserDto = PublicUserDto +
  pu_email :: string
  pu_walletAddress :: "string option"

definition toPublicUserDto :: "User \<Rightarrow> PublicUserDto" where
  "toPublicUserDto u = \<lparr>pu_id = user_number u, pu_username = us_username u, pu_avatarUrl = us_avatarUrl u\<rparr>"

definition toUserDto :: "User \<Rightarrow> UserDto" where
  "toUserDto u = PublicUserDto.extend (toPublicUserDto u) (UserDto.fields (us_email u) (us_walletAddress u))"

text \<open>The column for the last access exists, but nothing writes it: it is null in every row.\<close>

record AuthSessionDto =
  sd_id :: "nat option"
  sd_userAgent :: "string option"
  sd_ipAddress :: "string option"
  sd_isActive :: bool
  sd_lastAccessedAt :: "int option"
  sd_createdAt :: int

definition toAuthSessionDto :: "AuthSession \<Rightarrow> AuthSessionDto" where
  "toAuthSessionDto s = \<lparr>sd_id = se_id s, sd_userAgent = se_userAgent s, sd_ipAddress = se_ipAddress s,
     sd_isActive = se_isActive s, sd_lastAccessedAt = None, sd_createdAt = se_createdAt s\<rparr>"

section \<open>Games and sessions\<close>

record GameEntity =
  ge_id :: "nat option"
  ge_slug :: string
  ge_name :: string
  ge_description :: string
  ge_type :: string
  ge_is_active :: bool
  ge_created_at :: int

record GameDto =
  gm_id :: "nat option"
  gm_slug :: string
  gm_name :: string
  gm_description :: string
  gm_type :: string
  gm_is_active :: bool

definition toGameDto :: "GameEntity \<Rightarrow> GameDto" where
  "toGameDto g = \<lparr>gm_id = ge_id g, gm_slug = ge_slug g, gm_name = ge_name g, gm_description = ge_description g,
     gm_type = ge_type g, gm_is_active = ge_is_active g\<rparr>"

record GameSessionDto =
  go_id :: "nat option"
  go_score :: int
  go_durationSeconds :: int
  go_status :: GameSessionStatus
  go_metadata :: "js_record option"
  go_playedAt :: int
  go_game :: "GameDto option"

definition toGameSessionDto :: "(nat \<Rightarrow> GameEntity option) \<Rightarrow> GameSession \<Rightarrow> GameSessionDto" where
  "toGameSessionDto games s = \<lparr>go_id = gs_id s, go_score = gs_score s, go_durationSeconds = gs_durationSeconds s,
     go_status = gs_status s, go_metadata = gs_metadata s, go_playedAt = gs_playedAt s,
     go_game = map_option toGameDto (games (gs_game s))\<rparr>"

record LeaderboardEntryDto =
  le_userId :: "int option"
  le_username :: "string option"
  le_totalScore :: int
  le_wins :: nat
  le_totalSessions :: nat
  le_lastUpdated :: int

definition toLeaderboardEntryDto :: "(nat \<Rightarrow> User option) \<Rightarrow> LeaderboardEntry \<Rightarrow> LeaderboardEntryDto" where
  "toLeaderboardEntryDto users e = (let user = users (lb_user e) in
     \<lparr>le_userId = map_option user_number user, le_username = Option.bind user us_username, le_totalScore = lb_totalScore e,
      le_wins = lb_wins e, le_totalSessions = lb_totalSessions e, le_lastUpdated = lb_lastUpdated e\<rparr>)"

section \<open>Words, test rows and the audit trail\<close>

record WordDto =
  wo_id :: "nat option"
  wo_word :: string
  wo_definition :: "string option"
  wo_example :: "string option"
  wo_partOfSpeech :: "string option"
  wo_phonetics :: "string option"
  wo_difficulty :: "WordDifficulty option"

definition toWordDto :: "Word \<Rightarrow> WordDto" where
  "toWordDto w = \<lparr>wo_id = wd_id w, wo_word = wd_word w, wo_definition = wd_definition w, wo_example = wd_example w,
     wo_partOfSpeech = wd_partOfSpeech w, wo_phonetics = wd_phonetics w, wo_difficulty = wd_difficulty w\<rparr>"

record TestEntity =
  te_id :: "nat option"
  te_name :: string
  te_description :: "string option"
  te_isActive :: bool
  te_createdAt :: int

record TestEntityDto =
  tt_id :: "nat option"
  tt_name :: string
  tt_description :: "string option"
  tt_isActive :: bool

definition toTestEntityDto :: "TestEntity \<Rightarrow> TestEntityDto" where
  "toTestEntityDto t = \<lparr>tt_id = te_id t, tt_name = te_name t, tt_description = te_description t, tt_isActive = te_isActive t\<rparr>"

record AuditTrailDto =
  au_id :: "nat option"
  au_action :: AuditAction
  au_actor :: string
  au_details :: js_record
  au_targetResource :: "string option"
  au_network :: "string option"
  au_createdAt :: int

definition toAuditTrailDto :: "AuditTrailEntity \<Rightarrow> AuditTrailDto" where
  "toAuditTrailDto a = \<lparr>au_id = at_id a, au_action = at_action a, au_actor = at_actor a, au_details = at_details a,
     au_targetResource = at_targetResource a, au_network = at_network a, au_createdAt = at_createdAt a\<rparr>"

section \<open>What the responses keep to themselves\<close>

text \<open>
  Two accounts that a stranger cannot tell apart, two that a person with access to the account
  cannot, and two sessions a player cannot: the mappers give the same response for them.
\<close>

definition same_in_public :: "User \<Rightarrow> User \<Rightarrow> bool" where
  "same_in_public u v \<longleftrightarrow> us_id u = us_id v \<and> us_username u = us_username v \<and> us_avatarUrl u = us_avatarUrl v"

definition same_to_owner :: "User \<Rightarrow> User \<Rightarrow> bool" where
  "same_to_owner u v \<longleftrightarrow> same_in_public u v \<and> us_email u = us_email v \<and> us_walletAddress u = us_walletAddress v"

definition same_to_player :: "GameSession \<Rightarrow> GameSession \<Rightarrow> bool" where
  "same_to_player s t \<longleftrightarrow> (\<exists>sol hist usr. t = s\<lparr>gs_solution := sol, gs_history := hist, gs_user := usr\<rparr>)"

lemma public_dto: "same_in_public u v \<Longrightarrow> toPublicUserDto u = toPublicUserDto v"
  by (simp add: same_in_public_def toPublicUserDto_def user_number_def)

lemma owner_dto: "same_to_owner u v \<Longrightarrow> toUserDto u = toUserDto v"
  by (simp add: same_to_owner_def toUserDto_def public_dto [of u v])

lemma session_dto: "same_to_player s t \<Longrightarrow> toGameSessionDto games s = toGameSessionDto games t"
  by (auto simp: same_to_player_def toGameSessionDto_def)

lemma owner_dto_fields: "pu_email (toUserDto u) = us_email u \<and> pu_walletAddress (toUserDto u) = us_walletAddress u \<and>
    PublicUserDto.truncate (toUserDto u) = toPublicUserDto u"
  by (simp add: toUserDto_def toPublicUserDto_def PublicUserDto.defs UserDto.defs)

end
