(* ===== verification/Api_Handlers.thy ===== *)
theory Api_Handlers
  imports Response_Mappers Word_Scheduler Background_Jobs Digest_Service
begin

text \<open>
  The handlers of the controllers: each runs behind the gate of its declaration, once the rate limit
  of the application has admitted the request (\<^verbatim>\<open>behind_limit\<close>), and calls its service.  A handler acts on the users beside the state of its service; bodies are those the
  validation pipe lets through, clocks and random values are arguments.
\<close>

section \<open>Handlers behind a gate\<close>

definition undefined_property :: "string \<Rightarrow> js_error" where
  "undefined_property p = JsError ''TypeError'' (''Cannot read properties of undefined (reading '' @ [CHR 0x27] @ p @ [CHR 0x27] @ '')'') []"

text \<open>The user the gate left in the request; reading a property of a missing one throws.\<close>

definition with_user :: "string \<Rightarrow> (User \<Rightarrow> ('s, js_error, 'a) act) \<Rightarrow> User option \<Rightarrow> ('s, js_error, 'a) act" where
  "with_user p body user = (case user of Some u \<Rightarrow> body u | None \<Rightarrow> act_throw (undefined_property p))"

definition gated ::
    "access \<Rightarrow> int \<Rightarrow> string option \<Rightarrow> controller \<Rightarrow> handler \<Rightarrow> (User option \<Rightarrow> ('w, js_error, 'a) act) \<Rightarrow> (User list \<times> 'w, js_error, 'a) act" where
  "gated A now authorization c h body =
     act_bind (zoom fst (\<lambda>t s. (t, snd s)) (declared_gate A now authorization c h)) (\<lambda>user. zoom snd (\<lambda>w s. (fst s, w)) (body user))"

definition user_key :: "User \<Rightarrow> nat" where
  "user_key u = nat (user_number u)"

section \<open>Sign-in\<close>

definition auth_gated ::
    "'m auth_service \<Rightarrow> access \<Rightarrow> int \<Rightarrow> string option \<Rightarrow> handler \<Rightarrow> (User option \<Rightarrow> ('m, 'a) svc_act) \<Rightarrow> ('m, 'a) svc_act" where
  "auth_gated V A now authorization h body = act_bind (on_users (declared_gate A now authorization AuthController h)) body"

definition message_answer :: "string \<Rightarrow> js_record" where
  "message_answer m = [(''message'', Str m)]"

definition api_forgotPassword :: "'m auth_service \<Rightarrow> int \<Rightarrow> string \<Rightarrow> string \<Rightarrow> ('m, js_record) svc_act" where
  "api_forgotPassword V now token email = act_seq (forgotPassword V now token email)
     (act_ret (message_answer ''If that email exists, a reset link has been sent.''))"

definition api_resetPassword :: "'m auth_service \<Rightarrow> int \<Rightarrow> string \<Rightarrow> string \<Rightarrow> string \<Rightarrow> ('m, js_record) svc_act" where
  "api_resetPassword V now salt token password = act_seq (resetPassword V now salt token password)
     (act_ret (message_answer ''Password has been reset successfully.''))"

text \<open>The network address a session is recorded with is the forwarding header, as the client sends it.\<close>

definition api_signup ::
    "'m auth_service \<Rightarrow> int \<Rightarrow> string \<Rightarrow> string \<Rightarrow> string \<Rightarrow> string \<Rightarrow> string \<Rightarrow> string \<Rightarrow> string option \<Rightarrow> string option \<Rightarrow> ('m, auth_answer) svc_act" where
  "api_signup V now salt rawToken uuid email password username userAgent forwardedFor =
     signup V now salt rawToken uuid email password username userAgent forwardedFor"

definition api_login ::
    "'m auth_service \<Rightarrow> int \<Rightarrow> string \<Rightarrow> string \<Rightarrow> string \<Rightarrow> string \<Rightarrow> string option \<Rightarrow> string option \<Rightarrow> ('m, auth_answer) svc_act" where
  "api_login V now rawToken uuid email password userAgent forwardedFor = login V now rawToken uuid email password userAgent forwardedFor"

definition api_getProfile :: "'m auth_service \<Rightarrow> access \<Rightarrow> int \<Rightarrow> string option \<Rightarrow> ('m, int \<times> string \<times> int) svc_act" where
  "api_getProfile V A now authorization =
     auth_gated V A now authorization (user_handler Get ''me'') (with_user ''id'' (\<lambda>u. getProfile V (user_key u)))"

definition api_refreshTokens ::
    "'m auth_service \<Rightarrow> int \<Rightarrow> string \<Rightarrow> string \<Rightarrow> string option \<Rightarrow> string option \<Rightarrow> ('m, auth_answer) svc_act" where
  "api_refreshTokens V now rawToken refreshToken userAgent forwardedFor = refreshTokens V now rawToken refreshToken userAgent forwardedFor"

definition api_logout :: "'m auth_service \<Rightarrow> int \<Rightarrow> string \<Rightarrow> ('m, js_record) svc_act" where
  "api_logout V now refreshToken = act_seq (logout V now refreshToken) (act_ret (message_answer ''Logged out successfully''))"

definition api_getSessions :: "'m auth_service \<Rightarrow> access \<Rightarrow> int \<Rightarrow> string option \<Rightarrow> ('m, AuthSessionDto list) svc_act" where
  "api_getSessions V A now authorization = auth_gated V A now authorization (user_handler Get ''sessions'')
     (with_user ''email'' (\<lambda>u. act_bind (getSessions V (us_email u)) (\<lambda>sessions. act_ret (map toAuthSessionDto sessions))))"

definition api_unlockAccount :: "'m auth_service \<Rightarrow> access \<Rightarrow> int \<Rightarrow> string option \<Rightarrow> string \<Rightarrow> ('m, js_record) svc_act" where
  "api_unlockAccount V A now authorization email = auth_gated V A now authorization (admin_handler Post ''admin/unlock'')
     (with_user ''email'' (\<lambda>u. act_bind (unlockAccount V now email (us_email u))
        (\<lambda>wasLocked. act_ret [(''email'', Str email), (''wasLocked'', JBool wasLocked)])))"

section \<open>Users\<close>

definition user_not_found :: "nat \<Rightarrow> js_error" where
  "user_not_found i = NotFoundException (''User '' @ show_nat i @ '' not found'')"

definition users_create :: "user_repo \<Rightarrow> User \<Rightarrow> UserDto user_act" where
  "users_create R createUserDto = act_bind (user_create R createUserDto) (\<lambda>u. act_ret (toUserDto u))"

definition users_findAll :: "user_repo \<Rightarrow> PublicUserDto list user_act" where
  "users_findAll R = act_bind (findAll R) (\<lambda>us. act_ret (map toPublicUserDto us))"

definition users_findOne :: "user_repo \<Rightarrow> nat \<Rightarrow> PublicUserDto user_act" where
  "users_findOne R i = act_bind (findById R i) (\<lambda>found. case found of
      None \<Rightarrow> act_throw (user_not_found i) | Some u \<Rightarrow> act_ret (toPublicUserDto u))"

definition users_updateProfile :: "access \<Rightarrow> int \<Rightarrow> string option \<Rightarrow> js_record \<Rightarrow> UserDto user_act" where
  "users_updateProfile A now authorization dto =
     act_bind (declared_gate A now authorization UserController (user_handler Patch ''profile''))
       (with_user ''id'' (\<lambda>u. act_bind (updateProfile (ac_users A) (user_key u) dto) (\<lambda>v. act_ret (toUserDto v))))"

definition users_update :: "user_repo \<Rightarrow> (js_record \<Rightarrow> User \<Rightarrow> User) \<Rightarrow> nat \<Rightarrow> js_record \<Rightarrow> UserDto user_act" where
  "users_update R merge i dto = act_bind (user_update R merge i dto) (\<lambda>updated. case updated of
      None \<Rightarrow> act_throw (user_not_found i) | Some u \<Rightarrow> act_ret (toUserDto u))"

definition users_remove :: "user_repo \<Rightarrow> nat \<Rightarrow> unit user_act" where
  "users_remove R i = user_remove R i"

section \<open>Games\<close>

text \<open>How the mapper makes a row from a body, and how a body is assigned over a row, are parameters.\<close>

type_synonym 'a games_act = "(GameEntity list, js_error, 'a) act"

definition games_service_create :: "(GameEntity, js_error) repo \<Rightarrow> (js_record \<Rightarrow> GameEntity) \<Rightarrow> js_record \<Rightarrow> GameEntity games_act" where
  "games_service_create R newGame dto = r_save R (newGame dto)"

definition games_service_findAll :: "(GameEntity, js_error) repo \<Rightarrow> GameEntity list games_act" where
  "games_service_findAll R = r_find R ge_is_active (\<lambda>_ _. False)"

definition games_service_update :: "(GameEntity, js_error) repo \<Rightarrow> (js_record \<Rightarrow> GameEntity \<Rightarrow> GameEntity) \<Rightarrow> nat \<Rightarrow> js_record \<Rightarrow> GameEntity games_act" where
  "games_service_update R assign i dto = act_bind (r_findOne R (\<lambda>g. ge_id g = Some i)) (\<lambda>found. case found of
      None \<Rightarrow> act_throw (NotFoundException ''Game not found'') | Some game \<Rightarrow> r_save R (assign dto game))"

definition games_service_remove :: "(GameEntity, js_error) repo \<Rightarrow> nat \<Rightarrow> unit games_act" where
  "games_service_remove R i = act_bind (r_findOne R (\<lambda>g. ge_id g = Some i)) (\<lambda>found. case found of
      None \<Rightarrow> act_throw (NotFoundException ''Game not found'')
    | Some game \<Rightarrow> act_seq (r_delete R (\<lambda>g. ge_id g = ge_id game)) (act_ret ()))"

definition games_create ::
    "access \<Rightarrow> int \<Rightarrow> string option \<Rightarrow> (GameEntity, js_error) repo \<Rightarrow> (js_record \<Rightarrow> GameEntity) \<Rightarrow> js_record \<Rightarrow>
     (User list \<times> GameEntity list, js_error, GameDto) act" where
  "games_create A now authorization R newGame dto = gated A now authorization GamesController (admin_handler Post [])
     (\<lambda>_. act_bind (games_service_create R newGame dto) (\<lambda>g. act_ret (toGameDto g)))"

definition games_findAll :: "(GameEntity, js_error) repo \<Rightarrow> GameDto list games_act" where
  "games_findAll R = act_bind (games_service_findAll R) (\<lambda>gs. act_ret (map toGameDto gs))"

definition games_update ::
    "access \<Rightarrow> int \<Rightarrow> string option \<Rightarrow> (GameEntity, js_error) repo \<Rightarrow> (js_record \<Rightarrow> GameEntity \<Rightarrow> GameEntity) \<Rightarrow> nat \<Rightarrow> js_record \<Rightarrow>
     (User list \<times> GameEntity list, js_error, GameDto) act" where
  "games_update A now authorization R assign i dto = gated A now authorization GamesController (admin_handler Patch '':id'')
     (\<lambda>_. act_bind (games_service_update R assign i dto) (\<lambda>g. act_ret (toGameDto g)))"

definition games_remove ::
    "access \<Rightarrow> int \<Rightarrow> string option \<Rightarrow> (GameEntity, js_error) repo \<Rightarrow> nat \<Rightarrow> (User list \<times> GameEntity list, js_error, nat \<times> bool) act" where
  "games_remove A now authorization R i = gated A now authorization GamesController (admin_handler Delete '':id'')
     (\<lambda>_. act_seq (games_service_remove R i) (act_ret (i, True)))"

section \<open>Game sessions\<close>

definition sessions_createAuth ::
    "access \<Rightarrow> int \<Rightarrow> string option \<Rightarrow> game_deps \<Rightarrow> (nat \<Rightarrow> GameEntity option) \<Rightarrow> nat \<Rightarrow> (nat \<Rightarrow> attempt_result) \<Rightarrow> CreateSessionDto \<Rightarrow>
     (User list \<times> game_world, js_error, GameSessionDto) act" where
  "sessions_createAuth A now authorization D games randomIndex answers dto =
     gated A now authorization GameSessionsController (user_handler Post [])
       (\<lambda>user. act_bind (create_session D randomIndex answers dto (map_option user_key user)) (\<lambda>s. act_ret (toGameSessionDto games s)))"

definition sessions_createGuest ::
    "game_deps \<Rightarrow> (nat \<Rightarrow> GameEntity option) \<Rightarrow> nat \<Rightarrow> (nat \<Rightarrow> attempt_result) \<Rightarrow> CreateSessionDto \<Rightarrow> GameSessionDto game_act" where
  "sessions_createGuest D games randomIndex answers dto =
     act_bind (create_session D randomIndex answers dto None) (\<lambda>s. act_ret (toGameSessionDto games s))"

definition sessions_getMySessions ::
    "access \<Rightarrow> int \<Rightarrow> string option \<Rightarrow> game_deps \<Rightarrow> (nat \<Rightarrow> GameEntity option) \<Rightarrow> (User list \<times> game_world, js_error, GameSessionDto list) act" where
  "sessions_getMySessions A now authorization D games = gated A now authorization GameSessionsController (user_handler Get ''my-sessions'')
     (\<lambda>user. act_bind (getUserSessions D (map_option user_key user) None) (\<lambda>ss. act_ret (map (toGameSessionDto games) ss)))"

definition sessions_getGuestSessions ::
    "game_deps \<Rightarrow> (nat \<Rightarrow> GameEntity option) \<Rightarrow> string option \<Rightarrow> GameSessionDto list game_act" where
  "sessions_getGuestSessions D games guestId = act_bind (getUserSessions D None guestId) (\<lambda>ss. act_ret (map (toGameSessionDto games) ss))"

definition sessions_submitGuess ::
    "access \<Rightarrow> int \<Rightarrow> string option \<Rightarrow> game_deps \<Rightarrow> nat \<Rightarrow> string \<Rightarrow> (User list \<times> game_world, js_error, guess_answer) act" where
  "sessions_submitGuess A now authorization D sessionId guess = gated A now authorization GameSessionsController (user_handler Post '':id/guess'')
     (\<lambda>user. guess_session D sessionId guess (map_option user_key user) None)"

definition sessions_submitGuessAsGuest :: "game_deps \<Rightarrow> nat \<Rightarrow> string \<Rightarrow> string option \<Rightarrow> guess_answer game_act" where
  "sessions_submitGuessAsGuest D sessionId guess guestId = guess_session D sessionId guess None guestId"

section \<open>The leaderboard\<close>

text \<open>The page starts at 0 and has 20 entries unless the query says otherwise.\<close>

definition board_skip :: "string option \<Rightarrow> jsnum" where
  "board_skip q = (case q of None \<Rightarrow> num 0 | Some s \<Rightarrow> string_to_num s)"

definition board_take :: "string option \<Rightarrow> jsnum" where
  "board_take q = (case q of None \<Rightarrow> num 20 | Some s \<Rightarrow> string_to_num s)"

definition leaderboard_global ::
    "(LeaderboardEntry, js_error) repo \<Rightarrow> string option \<Rightarrow> string option \<Rightarrow> (LeaderboardEntry list, js_error, board_total list) act" where
  "leaderboard_global R skip take_n = getGlobalLeaderboard R (board_skip skip) (board_take take_n)"

definition leaderboard_game ::
    "(GameEntity, js_error) repo \<Rightarrow> (LeaderboardEntry, js_error) repo \<Rightarrow> (nat \<Rightarrow> User option) \<Rightarrow> string \<Rightarrow> string option \<Rightarrow> string option \<Rightarrow>
     (GameEntity list \<times> LeaderboardEntry list, js_error, LeaderboardEntryDto list) act" where
  "leaderboard_game G R users gameSlug skip take_n =
     act_bind (zoom fst (\<lambda>t s. (t, snd s)) (r_findOne G (\<lambda>g. ge_slug g = gameSlug))) (\<lambda>found. case found of
         None \<Rightarrow> act_ret []
       | Some game \<Rightarrow> act_bind (zoom snd (\<lambda>t s. (fst s, t)) (getGameLeaderboard R (ge_id game) (board_skip skip) (board_take take_n)))
           (\<lambda>entries. act_ret (map (toLeaderboardEntryDto users) entries)))"

section \<open>Words\<close>

text \<open>Every error of the random word is answered as one that was not found.\<close>

definition words_getRandomWord ::
    "word_entry list \<Rightarrow> nat \<Rightarrow> nat \<Rightarrow> (nat \<Rightarrow> attempt_result) \<Rightarrow> (lru, js_error, EnrichedWord) act" where
  "words_getRandomWord words randomIndex maxCacheSize answers = act_catch (getRandomWord words randomIndex maxCacheSize answers)
     (\<lambda>e. if err_name e = ''NotFoundException'' then act_throw e
       else act_throw (NotFoundException ''Could not retrieve a random word at this time due to an internal issue.''))"

type_synonym 'a words_act = "(Word list, js_error, 'a) act"

definition words_getDailyWord :: "word_repo \<Rightarrow> int \<Rightarrow> WordDto words_act" where
  "words_getDailyWord R todayDate = act_bind (getTodaysWord R todayDate) (\<lambda>w. act_ret (toWordDto w))"

definition words_triggerManual ::
    "access \<Rightarrow> int \<Rightarrow> string option \<Rightarrow> sched_deps \<Rightarrow> int \<Rightarrow> (User list \<times> Word list, js_error, string) act" where
  "words_triggerManual A now authorization D todayDate = gated A now authorization WordsController (admin_handler Post ''daily/trigger'')
     (\<lambda>_. act_seq (ensureTodayWord D todayDate) (act_ret ''Triggered''))"

definition words_rotateDailyWord ::
    "access \<Rightarrow> string option \<Rightarrow> host \<Rightarrow> sched_deps \<Rightarrow> string \<Rightarrow> string \<Rightarrow> int \<Rightarrow> int \<Rightarrow> (User list \<times> Word list, js_error, rotation_answer) act" where
  "words_rotateDailyWord A authorization h D timezone today todayDate now =
     gated A now authorization WordsController (admin_handler Post ''daily/rotate'') (\<lambda>_. rotateNow h D timezone today todayDate now)"

definition words_healthCheck :: "word_repo \<Rightarrow> int \<Rightarrow> string \<Rightarrow> words_health words_act" where
  "words_healthCheck R todayDate nextUpdate = getHealthStatus R todayDate nextUpdate"

definition words_create :: "host \<Rightarrow> word_repo \<Rightarrow> string list \<Rightarrow> lookup list \<Rightarrow> string \<Rightarrow> WordDto words_act" where
  "words_create h R profanityList dictApis word = act_bind (createWord h R profanityList dictApis word) (\<lambda>w. act_ret (toWordDto w))"

definition words_validateWord :: "string list \<Rightarrow> lookup list \<Rightarrow> string \<Rightarrow> word_verdict" where
  "words_validateWord profanityList dictApis word = validateWord profanityList dictApis word"

text \<open>
  The lookup of a word (\<^verbatim>\<open>dewordle/words/providers/enriched-words.ts\<close>): a stored word that was
  enriched is the answer; otherwise the dictionary is asked behind a circuit breaker, which is the
  library's, and the word is stored with what came back, nothing included.
\<close>

definition enrichWord :: "(string \<Rightarrow> js_error + js_record) \<Rightarrow> string \<Rightarrow> js_record option" where
  "enrichWord get text = (case get (''https://external-dict-api/'' @ text) of Inr r \<Rightarrow> Some r | Inl _ \<Rightarrow> None)"

definition unknown_word :: "string \<Rightarrow> Word" where
  "unknown_word text = \<lparr>wd_id = None, wd_word = text, wd_metadata = None, wd_isEnriched = False, wd_definition = None,
     wd_example = None, wd_partOfSpeech = None, wd_phonetics = None, wd_isDaily = False, wd_dailyDate = None,
     wd_difficulty = None, wd_status = PENDING, wd_qualityScore = None, wd_sources = None, wd_createdAt = 0, wd_updatedAt = 0\<rparr>"

definition getWord ::
    "word_repo \<Rightarrow> ((string \<Rightarrow> js_record option) \<Rightarrow> string \<Rightarrow> js_error + js_record option) \<Rightarrow> (string \<Rightarrow> js_error + js_record) \<Rightarrow> string \<Rightarrow> Word words_act" where
  "getWord R fire get text =
     act_bind (r_findOne R (\<lambda>w. wd_word w = text)) (\<lambda>found.
       case (case found of Some w \<Rightarrow> if wd_isEnriched w then Some w else None | None \<Rightarrow> None) of
         Some w \<Rightarrow> act_ret w
       | None \<Rightarrow> act_bind (act_lift (fire (enrichWord get) text)) (\<lambda>apiResponse.
           let word = (case found of Some w \<Rightarrow> w | None \<Rightarrow> unknown_word text)
           in r_save R (word\<lparr>wd_metadata := Some (case apiResponse of Some r \<Rightarrow> r | None \<Rightarrow> []),
                wd_isEnriched := (apiResponse \<noteq> None)\<rparr>)))"

definition words_getWord ::
    "word_repo \<Rightarrow> ((string \<Rightarrow> js_record option) \<Rightarrow> string \<Rightarrow> js_error + js_record option) \<Rightarrow> (string \<Rightarrow> js_error + js_record) \<Rightarrow> string \<Rightarrow> WordDto words_act" where
  "words_getWord R fire get text = act_bind (getWord R fire get text) (\<lambda>w. act_ret (toWordDto w))"

section \<open>Lemmas\<close>

text \<open>A handler behind a gate does what its body does for the user of the request, or nothing.\<close>

lemma gated_run:
  assumes "declared_gate A now authorization c h users = (g, users)"
  shows "gated A now authorization c h body (users, w) =
    (case g of Inl e \<Rightarrow> (Inl e, (users, w)) | Inr user \<Rightarrow> (case body user w of (r, w') \<Rightarrow> (r, (users, w'))))"
  using assms by (simp add: gated_def zoom_def act_bind_def split: sum.splits prod.splits)

text \<open>No request but that of an administrator has an effect behind a gate with roles.\<close>

lemma admin_effect:
  assumes "repo_ok us_id us_body (ac_users A)" "repo_reliable (ac_users A)" "inj_on us_id (set users)"
    and "c \<in> set api_controllers" "h \<in> set (c_handlers c)" "roles_of c h \<noteq> None"
    and run: "gated A now authorization c h body (users, w) = (r, (users', w'))"
  shows "users' = users \<and> ((\<exists>u. signed_in A now authorization users u \<and> us_role u = Role_admin \<and> body (Some u) w = (r, w')) \<or>
     (\<exists>e. r = Inl e) \<and> w' = w)"
proof -
  have g: "guards_of c h \<noteq> []" using handler_kind [OF assms(4,5)] assms(6) by (metis list.distinct(1))
  obtain q where q: "declared_gate A now authorization c h users = (q, users)"
    "\<forall>v. q = Inr v \<longleftrightarrow> (\<exists>u. v = Some u \<and> signed_in A now authorization users u \<and> us_role u = Role_admin)"
    using declared_gate_run [OF assms(1-5), of now authorization] g assms(6) by auto
  show ?thesis
  proof (cases q)
    case (Inl e)
    then show ?thesis using run by (auto simp: gated_run [OF q(1)])
  next
    case (Inr v)
    then obtain u where "v = Some u" "signed_in A now authorization users u" "us_role u = Role_admin" using q(2) by blast
    then show ?thesis using run Inr by (auto simp: gated_run [OF q(1)] split: prod.splits)
  qed
qed

lemma games_in_table:
  "GamesController \<in> set api_controllers" "WordsController \<in> set api_controllers"
  "admin_handler Post [] \<in> set (c_handlers GamesController)" "admin_handler Patch '':id'' \<in> set (c_handlers GamesController)"
  "admin_handler Delete '':id'' \<in> set (c_handlers GamesController)" "admin_handler Post ''daily/rotate'' \<in> set (c_handlers WordsController)"
  "roles_of c (admin_handler v p) \<noteq> None"
  by (simp_all add: api_controllers_def GamesController_def WordsController_def plain_controller_def admin_handler_def roles_of_def)

text \<open>The answer to a new session does not depend on its solution.\<close>

lemma session_answer_hides:
  assumes "sessions_createGuest D games k answers dto s = (Inr d, s1)"
  obtains row where "create_session D k answers dto None s = (Inr row, s1)" "d = toGameSessionDto games (row\<lparr>gs_solution := sol\<rparr>)"
  using assms by (auto simp: sessions_createGuest_def act_bind_def act_ret_def toGameSessionDto_def split: prod.splits sum.splits)




section \<open>Properties\<close>

text \<open>
  The listing of the users shows of every row its key, its name and its picture, and the
  lookup of one shows the same of that row: two tables that agree on these answer alike, whatever
  the addresses, wallets and password hashes are.
\<close>

theorem users_listed_in_public:
  assumes "repo_ok us_id us_body R" "repo_reliable R" "inj_on us_id (set t)"
  shows "(\<exists>ds. users_findAll R t = (Inr ds, t) \<and> set ds = toPublicUserDto ` set t) \<and>
    users_findOne R i t = (case row_of us_id (Some i) t of
       None \<Rightarrow> Inl (user_not_found i) | Some u \<Rightarrow> Inr (toPublicUserDto u), t)"
proof (rule conjI)
  obtain us t' where f: "r_find R (\<lambda>_. True) (\<lambda>_ _. False) t = (Inr us, t')" using assms(2) by (rule reliable_find)
  have "t' = t" "mset us = mset t" using find_returns [OF assms(1) f] by simp_all
  then have "t' = t \<and> set us = set t" by (metis set_mset_mset)
  then show "\<exists>ds. users_findAll R t = (Inr ds, t) \<and> set ds = toPublicUserDto ` set t"
    using f by (auto simp: users_findAll_def findAll_def act_defs)
  obtain x t1 where g: "r_findOne R (\<lambda>u. us_id u = Some i) t = (Inr x, t1)" using assms(2) by (rule reliable_findOne)
  have x: "t1 = t" "case x of None \<Rightarrow> \<forall>u \<in> set t. us_id u \<noteq> Some i | Some u \<Rightarrow> u \<in> set t \<and> us_id u = Some i"
    using findOne_returns [OF assms(1) g] by auto
  then have "row_of us_id (Some i) t = x"
    using row_of_None [of us_id "Some i" t] row_of_inj [OF assms(3), of "Some i"] by (cases x) auto
  then show "users_findOne R i t = (case row_of us_id (Some i) t of
       None \<Rightarrow> Inl (user_not_found i) | Some u \<Rightarrow> Inr (toPublicUserDto u), t)"
    using g x(1) by (cases x) (simp_all add: users_findOne_def findById_def act_defs)
qed

theorem users_listed_in_public_witness:
  "users_findOne user_mem 1 [some_user 1] = (Inr (toPublicUserDto (some_user 1)), [some_user 1])"
proof -
  have "inj_on us_id (set [some_user 1])" by simp
  from users_listed_in_public [OF user_mem_ok user_mem_reliable this, of 1]
  show ?thesis by (simp add: row_of_def some_user_def)
qed




end
