(* ===== verification/Api_Operations.thy ===== *)
theory Api_Operations
  imports Response_Mappers Indexer_Poll Background_Jobs Digest_Service Http_Middleware
begin

text \<open>
  The operational side of the API: the controller of the indexer with its two resets, the audit
  trail, the rewards, the dead letters and the mail template for administrators, the health
  probes, the service of the root controller, and the wait for the database at the start
  (\<^verbatim>\<open>main.ts\<close>).  The indexer's handlers act on its state beside the audit table.
\<close>

section \<open>The indexer\<close>

type_synonym ('r, 'k, 'a) console_act = "(('r, 'k) indexer \<times> AuditTrailEntity list, js_error, 'a) act"

definition on_indexer :: "('r, 'k, 'a) indexer_act \<Rightarrow> ('r, 'k, 'a) console_act" where
  "on_indexer = zoom fst (\<lambda>t s. (t, snd s))"

definition on_trail :: "'a audit_act \<Rightarrow> ('r, 'k, 'a) console_act" where
  "on_trail = zoom snd (\<lambda>t s. (fst s, t))"

definition console_lag :: "('r, 'k) indexer_deps \<Rightarrow> ('r, 'k, IndexerLagSnapshot) console_act" where
  "console_lag D = on_indexer (getLagSnapshot D)"

definition console_health :: "int \<Rightarrow> ('r, 'k, Healthcheck) console_act" where
  "console_health now = on_indexer (act_get (getHealthcheck now))"

text \<open>The event of a request: an observation date that is missing is the current one.\<close>

definition console_event :: "int \<Rightarrow> IngestedEventDto \<Rightarrow> int option \<Rightarrow> IngestedEventDto" where
  "console_event now event observedAt = event\<lparr>ev_observedAt := (case observedAt of Some t \<Rightarrow> t | None \<Rightarrow> now)\<rparr>"

definition console_ingest :: "('r, 'k) indexer_deps \<Rightarrow> int \<Rightarrow> IngestedEventDto \<Rightarrow> int option \<Rightarrow> ('r, 'k, string) console_act" where
  "console_ingest D now event observedAt = on_indexer (act_seq (ingest D now (console_event now event observedAt)) (act_ret ''accepted''))"

text \<open>
  The user of the request, as far as the handlers read it: the wallet and the address.  No guard
  stands before these routes, so that the framework never fills it in.
\<close>

definition console_actor :: "(string option \<times> string option) option \<Rightarrow> string" where
  "console_actor user = (case user of
      None \<Rightarrow> ''unknown''
    | Some (walletAddress, email) \<Rightarrow> (case walletAddress of Some w \<Rightarrow> w | None \<Rightarrow> (case email of Some e \<Rightarrow> e | None \<Rightarrow> ''unknown'')))"

definition reset_refused :: js_record where
  "reset_refused = [(''status'', Str ''refused''), (''reason'', Str ''confirm=true required'')]"

definition cursor_reset_entry :: "string \<Rightarrow> string \<Rightarrow> string \<Rightarrow> AuditLogInput" where
  "cursor_reset_entry network streamKey actor = \<lparr>al_action = CURSOR_RESET, al_actor = Some actor,
     al_details = Some [(''streamKey'', Str streamKey), (''confirm'', Str ''true'')],
     al_targetResource = Some (''cursor:'' @ streamKey), al_network = Some network\<rparr>"

definition console_resetCursor ::
    "('r, 'k) indexer_deps \<Rightarrow> audit_repo \<Rightarrow> string \<Rightarrow> string \<Rightarrow> string option \<Rightarrow> (string option \<times> string option) option \<Rightarrow> ('r, 'k, js_record) console_act" where
  "console_resetCursor D R network streamKey confirm user =
    (if confirm \<noteq> Some ''true'' then act_ret reset_refused
     else act_seq (on_trail (audit_trail_log R (cursor_reset_entry network streamKey (console_actor user))))
       (act_seq (on_indexer (resetCursor D network streamKey))
         (act_ret [(''status'', Str ''ok''), (''action'', Str ''cursor_reset''), (''network'', Str network), (''streamKey'', Str streamKey)])))"

definition projections_reset_entry :: "string \<Rightarrow> AuditLogInput" where
  "projections_reset_entry actor = \<lparr>al_action = PROJECTIONS_RESET, al_actor = Some actor,
     al_details = Some [(''confirm'', Str ''true'')], al_targetResource = None, al_network = None\<rparr>"

definition console_resetProjections ::
    "('r, 'k) indexer_deps \<Rightarrow> audit_repo \<Rightarrow> string option \<Rightarrow> (string option \<times> string option) option \<Rightarrow> ('r, 'k, js_record) console_act" where
  "console_resetProjections D R confirm user =
    (if confirm \<noteq> Some ''true'' then act_ret reset_refused
     else act_seq (on_trail (audit_trail_log R (projections_reset_entry (console_actor user))))
       (act_seq (on_indexer (resetProjections D))
         (act_ret [(''status'', Str ''ok''), (''action'', Str ''projections_reset'')])))"

text \<open>The records of the ledger are not served yet: the answer echoes the page and is empty.\<close>

definition console_records :: "int \<Rightarrow> string option \<Rightarrow> js_record" where
  "console_records limit filterTerm = [(''success'', JBool True),
     (''meta'', Obj [(''requestedLimit'', Num (num limit)), (''filterApplied'', (case filterTerm of Some t \<Rightarrow> if t = [] then Null else Str t | None \<Rightarrow> Null))]),
     (''data'', Arr [])]"

section \<open>The audit trail and the rewards\<close>

definition query_number :: "int option \<Rightarrow> int option" where
  "query_number n = (case n of Some i \<Rightarrow> if i = 0 then None else Some i | None \<Rightarrow> None)"

definition audit_getLogs ::
    "audit_repo \<Rightarrow> AuditAction option \<Rightarrow> string option \<Rightarrow> string option \<Rightarrow> int option \<Rightarrow> int option \<Rightarrow> (AuditTrailEntity list \<times> nat) audit_act" where
  "audit_getLogs R action actor network limit offset = audit_query R \<lparr>aq_action = action, aq_actor = actor, aq_network = network,
     aq_limit = query_number limit, aq_offset = query_number offset\<rparr>"

definition audit_getLogById :: "audit_repo \<Rightarrow> nat \<Rightarrow> AuditTrailDto audit_act" where
  "audit_getLogById R i = act_bind (audit_findById R i) (\<lambda>entry. case entry of
      None \<Rightarrow> act_throw (NotFoundException (''Audit log '' @ show_nat i @ '' not found'')) | Some e \<Rightarrow> act_ret (toAuditTrailDto e))"

definition rewards_getSummary :: "session_repo \<Rightarrow> string \<Rightarrow> string option \<Rightarrow> RewardSummary session_act" where
  "rewards_getSummary R player network = getForPlayer R (case network of Some n \<Rightarrow> n | None \<Rightarrow> ''testnet'') player"

section \<open>Administration\<close>

definition MAX_DLQ_LIMIT :: int where "MAX_DLQ_LIMIT = 500"
definition DEFAULT_DLQ_LIMIT :: int where "DEFAULT_DLQ_LIMIT = 100"

text \<open>The limit as a whole number: what does not parse, and zero, is the default.\<close>

definition dlq_limit :: "string option \<Rightarrow> int" where
  "dlq_limit limit =
    (let parsed = (case js_parseInt (case limit of Some s \<Rightarrow> s | None \<Rightarrow> []) of Fin q \<Rightarrow> if q = 0 then DEFAULT_DLQ_LIMIT else \<lfloor>q\<rfloor> | _ \<Rightarrow> DEFAULT_DLQ_LIMIT)
     in min (max parsed 1) MAX_DLQ_LIMIT)"

definition admin_deadLetters :: "'q dlq \<Rightarrow> string option \<Rightarrow> ('q, js_error, DeadLetterInspection list) act" where
  "admin_deadLetters Q limit = listDeadLetterJobs Q (dlq_limit limit)"

definition admin_queueMetrics :: "'q JobService \<Rightarrow> ('q, js_error, (string \<times> queue_counts) list) act" where
  "admin_queueMetrics S = getQueueStats S"

definition digest_getTemplate :: "'m digest_deps \<Rightarrow> ('m, (string \<times> string) \<times> string list) digest_act" where
  "digest_getTemplate D = act_bind (getTemplate D) (\<lambda>t. act_ret (t, DIGEST_PLACEHOLDERS))"

definition digest_updateTemplate :: "'m digest_deps \<Rightarrow> string \<Rightarrow> string \<Rightarrow> User \<Rightarrow> ('m, string \<times> string) digest_act" where
  "digest_updateTemplate D subject bodyHtml user = updateTemplate D subject bodyHtml (us_email user)"

definition deprecation_getAll :: "EndpointEntry list" where
  "deprecation_getAll = DEPRECATION_MAP"

section \<open>Health\<close>

record ProbeResult =
  pb_name :: string
  pb_ok :: bool
  pb_latencyMs :: int

definition timeProbe :: "int \<Rightarrow> int \<Rightarrow> string \<Rightarrow> js_error + unit \<Rightarrow> ProbeResult" where
  "timeProbe start finish name probe = \<lparr>pb_name = name, pb_ok = (case probe of Inr _ \<Rightarrow> True | Inl _ \<Rightarrow> False), pb_latencyMs = finish - start\<rparr>"

text \<open>The three probes have empty bodies; the answer is its status, the verdict and the probes.\<close>

definition detailed_answer :: "ProbeResult list \<Rightarrow> nat \<times> string \<times> ProbeResult list" where
  "detailed_answer probes = (let healthy = list_all pb_ok probes in (if healthy then 200 else 530, if healthy then ''ok'' else ''degraded'', probes))"

definition detailed_check :: "int \<Rightarrow> (nat \<Rightarrow> int) \<Rightarrow> nat \<times> string \<times> ProbeResult list" where
  "detailed_check start finish = detailed_answer
     [timeProbe start (finish 0) ''postgres'' (Inr ()), timeProbe start (finish 1) ''redis'' (Inr ()), timeProbe start (finish 2) ''stellar-rpc'' (Inr ())]"

text \<open>The first occurrence of the counter's name that digits follow.\<close>

fun connected_clients :: "string \<Rightarrow> nat option" where
  "connected_clients [] = None"
| "connected_clients (c # s) =
    (let name = ''connected_clients:''; rest = drop (length name) (c # s); ds = takeWhile is_digit rest
     in if take (length name) (c # s) = name \<and> ds \<noteq> [] then Some (read_nat ds) else connected_clients s)"

record redis_status =
  rs_up :: bool
  rs_queueStatus :: string
  rs_connectedClients :: "nat option"
  rs_message :: "string option"

definition redis_check :: "string \<Rightarrow> js_error + string \<Rightarrow> js_error + string option \<Rightarrow> (string \<times> redis_status) + redis_status" where
  "redis_check key ping info =
    (let down = (\<lambda>m. Inl (key @ '' check failed'', \<lparr>rs_up = False, rs_queueStatus = ''down'', rs_connectedClients = None, rs_message = Some m\<rparr>))
     in case ping of
          Inl e \<Rightarrow> down (err_message e)
        | Inr pong \<Rightarrow> if pong \<noteq> ''PONG'' then down (''redis ping returned unexpected response: '' @ pong)
            else Inr \<lparr>rs_up = True, rs_queueStatus = ''ready'',
              rs_connectedClients = (case info of Inr (Some i) \<Rightarrow> connected_clients i | _ \<Rightarrow> None), rs_message = None\<rparr>)"

section \<open>The root controller\<close>

definition test_record :: TestEntity where
  "test_record = \<lparr>te_id = None, te_name = ''Database Connection Test'',
     te_description = Some ''This entity confirms successful database connection'', te_isActive = True, te_createdAt = 0\<rparr>"

record connection_test =
  ct_success :: bool
  ct_message :: string
  ct_testEntity :: "TestEntity option"
  ct_error :: "string option"
  ct_timestamp :: int

definition testDatabaseConnection :: "(TestEntity, js_error) repo \<Rightarrow> int \<Rightarrow> (TestEntity list, js_error, connection_test) act" where
  "testDatabaseConnection R now = act_catch
    (act_bind (r_save R test_record) (\<lambda>saved. act_ret \<lparr>ct_success = True, ct_message = ''Database connection successful'',
       ct_testEntity = Some saved, ct_error = None, ct_timestamp = now\<rparr>))
    (\<lambda>e. act_ret \<lparr>ct_success = False, ct_message = ''Database connection failed'', ct_testEntity = None, ct_error = Some (err_message e), ct_timestamp = now\<rparr>)"

definition getTestEntities :: "(TestEntity, js_error) repo \<Rightarrow> (TestEntity list, js_error, TestEntityDto list) act" where
  "getTestEntities R = act_bind (r_find R (\<lambda>_. True) (\<lambda>a b. te_createdAt a < te_createdAt b)) (\<lambda>es. act_ret (map toTestEntityDto es))"

section \<open>The wait for the database\<close>

definition DB_RETRY_ATTEMPTS :: nat where "DB_RETRY_ATTEMPTS = 10"
definition DB_RETRY_BASE_DELAY_MS :: nat where "DB_RETRY_BASE_DELAY_MS = 2000"

text \<open>The outcome of the attempts from one on, and the delays slept between them.\<close>

function wait_from :: "(nat \<Rightarrow> js_error + unit) \<Rightarrow> nat \<Rightarrow> (js_error + unit) \<times> nat list" where
  "wait_from connect attempt =
    (if DB_RETRY_ATTEMPTS < attempt then (Inr (), [])
     else case connect attempt of
         Inr _ \<Rightarrow> (Inr (), [])
       | Inl e \<Rightarrow> if attempt = DB_RETRY_ATTEMPTS then (Inl e, [])
           else (case wait_from connect (attempt + 1) of (r, delays) \<Rightarrow> (r, DB_RETRY_BASE_DELAY_MS * 2 ^ (attempt - 1) # delays)))"
  by pat_completeness auto
termination
  by (relation "measure (\<lambda>(_, attempt). DB_RETRY_ATTEMPTS + 1 - attempt)") auto

declare wait_from.simps [simp del]

definition waitForDatabaseConnection :: "(nat \<Rightarrow> js_error + unit) \<Rightarrow> (js_error + unit) \<times> nat list" where
  "waitForDatabaseConnection connect = wait_from connect 1"

section \<open>Lemmas\<close>

lemma dlq_limit_bounds: "1 \<le> dlq_limit l \<and> dlq_limit l \<le> MAX_DLQ_LIMIT"
  by (simp add: dlq_limit_def MAX_DLQ_LIMIT_def Let_def)

text \<open>The probes test nothing: the detailed answer is always that everything works.\<close>

lemma detailed_always_ok: "fst (detailed_check start finish) = 200 \<and> fst (snd (detailed_check start finish)) = ''ok''"
  by (simp add: detailed_check_def detailed_answer_def timeProbe_def Let_def)

lemma redis_up_iff: "(\<exists>s. redis_check key ping info = Inr s) \<longleftrightarrow> ping = Inr ''PONG''"
  by (auto simp: redis_check_def Let_def split: sum.splits)

text \<open>The wait ends with the first connection, or with the last error; the delay doubles.\<close>

lemma wait_from_outcome:
  assumes "1 \<le> a" "a \<le> k" "k \<le> DB_RETRY_ATTEMPTS" "\<forall>i. a \<le> i \<and> i < k \<longrightarrow> isl (connect i)" "isl (connect k) \<longrightarrow> k = DB_RETRY_ATTEMPTS"
  shows "wait_from connect a = (connect k, map (\<lambda>i. DB_RETRY_BASE_DELAY_MS * 2 ^ (i - 1)) [a..<k])"
  using assms
proof (induction "k - a" arbitrary: a)
  case 0
  then have "a = k" by simp
  then show ?case using 0 by (subst wait_from.simps) (cases "connect k"; simp)
next
  case (Suc n)
  then have a: "a < k" by simp
  obtain e where e: "connect a = Inl e" using Suc.prems(4) a by (cases "connect a") auto
  have "wait_from connect (a + 1) = (connect k, map (\<lambda>i. DB_RETRY_BASE_DELAY_MS * 2 ^ (i - 1)) [a + 1..<k])"
    by (rule Suc.hyps(1)) (use Suc in auto)
  then show ?case using a e Suc.prems(3) by (subst wait_from.simps) (simp add: upt_conv_Cons)
qed

lemma database_wait:
  assumes "1 \<le> k" "k \<le> DB_RETRY_ATTEMPTS" "\<forall>i. 1 \<le> i \<and> i < k \<longrightarrow> isl (connect i)" "connect k = Inr ()"
  shows "waitForDatabaseConnection connect = (Inr (), map (\<lambda>i. DB_RETRY_BASE_DELAY_MS * 2 ^ (i - 1)) [1..<k])"
  using wait_from_outcome [of 1 k connect] assms by (simp add: waitForDatabaseConnection_def)

text \<open>A reset with its confirmation writes the audit entry first; without the entry nothing is reset.\<close>

lemma confirmed_run:
  assumes "repo_ok at_id at_body R"
    and "act_seq (on_trail (audit_trail_log R input)) (act_seq (on_indexer m) (act_ret a)) (x, trail) = (r, (x', trail'))"
  shows "(x' = x \<and> trail' = trail \<and> isl r) \<or>
    (\<exists>e q. set trail' = insert e (set trail) \<and> at_body e = at_body (audit_entry input) \<and> m x = (q, x') \<and> r = (case q of Inl e \<Rightarrow> Inl e | Inr _ \<Rightarrow> Inr a))"
proof -
  obtain q t where l: "r_save R (audit_entry input) trail = (q, t)" by force
  show ?thesis
  proof (cases q)
    case (Inl e)
    then show ?thesis using assms(2) l save_throws [OF assms(1)] by (auto simp: on_trail_def audit_trail_log_def zoom_def act_defs)
  next
    case (Inr e)
    have "set t = insert e (set trail)" "at_body e = at_body (audit_entry input)"
      using save_new_set [OF assms(1) l [unfolded Inr]] save_returns(1) [OF assms(1) l [unfolded Inr]] by (simp_all add: audit_entry_def)
    moreover obtain q' x1 where m: "m x = (q', x1)" by force
    ultimately show ?thesis using assms(2) l Inr
      by (cases q') (auto simp: on_trail_def on_indexer_def audit_trail_log_def zoom_def act_defs)
  qed
qed

text \<open>An event that is stored already changes neither the projections nor the events.\<close>

lemma stored_event_inert:
  assumes "event_repo_ok E" "ev_key e \<in> seen s" "process_event h E S now e s = (r, s')"
  shows "pr_sessions s' = pr_sessions s \<and> pr_events s' = pr_events s"
proof -
  let ?P = "\<lambda>x. (ie_network x, ie_txHash x, ie_eventIndex x) = (ev_network e, ev_txHash e, ev_eventIndex e)"
  obtain q t where f: "r_findOne E ?P (pr_events s) = (q, t)" by force
  have t: "t = pr_events s" using findOne_same [OF assms(1) f] .
  have "\<exists>x \<in> set (pr_events s). ?P x" using assms(2) by (auto simp: seen_def ie_key_def ev_key_def)
  then have "q \<noteq> Inr None" using findOne_None [OF assms(1), of ?P "pr_events s" t] f by auto
  then show ?thesis using assms(3) f t by (cases q) (auto simp: process_event_def on_events_def zoom_def act_defs split: option.splits)
qed

lemma ingest_stored:
  assumes "event_repo_ok (d_events D)" "ev_key e \<in> seen s" "ingest D now e s = (r, s')"
  shows "pr_sessions s' = pr_sessions s \<and> pr_events s' = pr_events s"
proof -
  obtain q r1 where d: "isDuplicate (d_host D) (d_redis D) now (ev_txHash e) (ev_eventIndex e) (ix_redis s) = (q, r1)" by force
  obtain q2 s2 where p: "process_event (d_host D) (d_events D) (d_sessions D) now e (s\<lparr>ix_redis := r1\<rparr>) = (q2, s2)" by force
  have "pr_sessions s2 = pr_sessions s \<and> pr_events s2 = pr_events s"
    using stored_event_inert [OF assms(1) _ p] assms(2) by (simp add: seen_def)
  then show ?thesis using assms(3) d p
    by (auto simp: ingest_def on_redis_def on_cursors_def zoom_def act_defs split: sum.splits prod.splits if_splits)
qed

lemma ingest_all_stored:
  assumes "event_repo_ok (d_events D)"
  shows "\<forall>e \<in> set es. ev_key e \<in> seen s \<Longrightarrow> ingest_all D clock n es s = (r, s') \<Longrightarrow> pr_sessions s' = pr_sessions s"
proof (induction es arbitrary: n s)
  case (Cons e es)
  obtain q s1 where i: "ingest D (clock n) e s = (q, s1)" by force
  have s1: "pr_sessions s1 = pr_sessions s \<and> seen s1 = seen s"
    using ingest_stored [OF assms _ i] Cons.prems(1) by (simp add: seen_def)
  show ?case
  proof (cases q)
    case (Inl x)
    then show ?thesis using Cons.prems(2) i s1 by (simp add: act_seq_def act_bind_def)
  next
    case (Inr u)
    then show ?thesis using Cons.IH [of s1 "n + 1"] Cons.prems i s1 by (simp add: act_seq_def act_bind_def)
  qed
qed (simp add: act_ret_def)

section \<open>Properties\<close>

text \<open>
  C38: neither reset does anything without its confirmation.  With it the audit entry comes first: if
  it cannot be written nothing is reset, and whatever a reset changes, an entry that names the
  action and the actor is in the trail.
\<close>

theorem resets_audited:
  assumes "repo_ok at_id at_body R"
    and "(reset, action) = (console_resetCursor D R network streamKey confirm user, CURSOR_RESET) \<or>
      (reset, action) = (console_resetProjections D R confirm user, PROJECTIONS_RESET)"
    and "reset (x, trail) = (r, (x', trail'))"
  shows "(confirm \<noteq> Some ''true'' \<longrightarrow> r = Inr reset_refused \<and> x' = x \<and> trail' = trail) \<and>
    (x' \<noteq> x \<longrightarrow> (\<exists>e. set trail' = insert e (set trail) \<and> at_action e = action \<and> at_actor e = console_actor user))"
proof (cases "confirm = Some ''true''")
  case False
  then show ?thesis using assms(2,3) by (auto simp: console_resetCursor_def console_resetProjections_def act_ret_def)
next
  case True
  have audited: "\<exists>e. set trail' = insert e (set trail) \<and> at_action e = action \<and> at_actor e = console_actor user"
    if "reset = act_seq (on_trail (audit_trail_log R input)) (act_seq (on_indexer m) (act_ret a))"
      "al_action input = action" "al_actor input = Some (console_actor user)" "x' \<noteq> x" for input m a
    using confirmed_run [OF assms(1) assms(3) [unfolded that(1)]] that(2-4) by (auto simp: audit_entry_def dest!: at_body_fields)
  have "x' \<noteq> x \<longrightarrow> (\<exists>e. set trail' = insert e (set trail) \<and> at_action e = action \<and> at_actor e = console_actor user)"
    using assms(2)
  proof (elim disjE)
    assume "(reset, action) = (console_resetCursor D R network streamKey confirm user, CURSOR_RESET)"
    then have r: "reset = console_resetCursor D R network streamKey (Some ''true'') user" and "action = CURSOR_RESET" using True by simp_all
    then show ?thesis using audited [OF r [unfolded console_resetCursor_def, simplified]] by (auto simp: cursor_reset_entry_def)
  next
    assume "(reset, action) = (console_resetProjections D R confirm user, PROJECTIONS_RESET)"
    then have r: "reset = console_resetProjections D R (Some ''true'') user" and "action = PROJECTIONS_RESET" using True by simp_all
    then show ?thesis using audited [OF r [unfolded console_resetProjections_def, simplified]] by (auto simp: projections_reset_entry_def)
  qed
  then show ?thesis using True by simp
qed

text \<open>
  C39: once the projections are reset they cannot be rebuilt from the chain: with the cursor put
  back and every event delivered again, the rows of the events are still there, each event counts
  as known, and the projections stay empty.
\<close>

theorem reset_not_rebuilt:
  assumes "event_repo_ok (d_events D)" "session_repo_ok (d_sessions D)" "repo_ok at_id at_body R"
    and "console_resetProjections D R (Some ''true'') user (x, trail) = (Inr a, (x1, trail1))"
    and "console_resetCursor D R network streamKey confirm user' (x1, trail1) = (r, (x2, trail2))"
    and "\<forall>e \<in> set es. ev_key e \<in> seen x" "ingest_all D clock n es x2 = (q, x3)"
  shows "pr_sessions x3 = []"
proof -
  have p: "pr_sessions x1 = [] \<and> pr_events x1 = pr_events x"
  proof -
    obtain b c where c: "resetProjections D x = (c, x1)" "Inr a = (case c of Inl e \<Rightarrow> Inl e | Inr _ \<Rightarrow> Inr b)"
      using confirmed_run [OF assms(3) assms(4) [unfolded console_resetProjections_def, simplified]] by auto
    then have "resetProjections D x = (Inr (), x1)" by (cases c) simp_all
    then show ?thesis
      by (auto dest!: delete_set [OF assms(2)] simp: resetProjections_def reset_projections_def on_sessions_def zoom_def act_defs split: sum.splits prod.splits)
  qed
  have c: "pr_sessions x2 = pr_sessions x1 \<and> pr_events x2 = pr_events x1"
  proof (cases "confirm = Some ''true''")
    case True
    have same: "pr_sessions t = pr_sessions s \<and> pr_events t = pr_events s" if "resetCursor D network streamKey s = (z, t)" for s t z
      using that by (auto simp: resetCursor_def on_cursors_def zoom_def act_defs split: sum.splits prod.splits)
    show ?thesis using confirmed_run [OF assms(3), of "cursor_reset_entry network streamKey (console_actor user')"] assms(5) True same
      by (fastforce simp: console_resetCursor_def)
  next
    case False
    then show ?thesis using assms(5) by (simp add: console_resetCursor_def act_ret_def)
  qed
  have "\<forall>e \<in> set es. ev_key e \<in> seen x2" using assms(6) p c by (simp add: seen_def)
  then show ?thesis using ingest_all_stored [OF assms(1) _ assms(7)] p c by simp
qed

definition stored_event :: IngestedEventDto where
  "stored_event = finalized_event ''s1'' 4"

definition projected_indexer :: "(string \<Rightarrow> int option, MalformedEvent list) indexer" where
  "projected_indexer = empty_indexer\<lparr>pr_events := [(create_ingested plain_host stored_event)\<lparr>ie_id := Some 1\<rparr>], pr_sessions := [bare_row]\<rparr>"

lemma projections_reset_mem: "\<exists>x1 t1. console_resetProjections (mem_deps []) audit_mem (Some ''true'') None (projected_indexer, []) =
    (Inr [(''status'', Str ''ok''), (''action'', Str ''projections_reset'')], (x1, t1))"
  by (simp add: console_resetProjections_def on_trail_def on_indexer_def audit_trail_log_def audit_mem_def mem_repo_def mem_save_def Let_def
    audit_entry_def resetProjections_def reset_projections_def on_sessions_def zoom_def act_defs mem_deps_def mem_sessions_def)

theorem reset_not_rebuilt_witness:
  "\<exists>a x1 t1 r x2 t2 q x3. console_resetProjections (mem_deps []) audit_mem (Some ''true'') None (projected_indexer, []) = (Inr a, (x1, t1)) \<and>
     console_resetCursor (mem_deps []) audit_mem ''testnet'' ''core-game'' (Some ''true'') None (x1, t1) = (r, (x2, t2)) \<and>
     ingest_all (mem_deps []) (\<lambda>_. 0) 0 [stored_event] x2 = (q, x3) \<and> pr_sessions projected_indexer \<noteq> [] \<and> pr_sessions x3 = []"
proof -
  let ?D = "mem_deps []"
  have D: "event_repo_ok (d_events ?D)" "session_repo_ok (d_sessions ?D)" using mem_deps_ok(1) [of "[]"] by (simp_all add: deps_ok_def)
  obtain a x1 t1 where p: "console_resetProjections ?D audit_mem (Some ''true'') None (projected_indexer, []) = (Inr a, (x1, t1))"
    using projections_reset_mem by blast
  obtain r x2 t2 where c: "console_resetCursor ?D audit_mem ''testnet'' ''core-game'' (Some ''true'') None (x1, t1) = (r, (x2, t2))"
    by (metis surj_pair)
  obtain q x3 where i: "ingest_all ?D (\<lambda>_. 0) 0 [stored_event] x2 = (q, x3)" by force
  have "ev_key stored_event \<in> seen projected_indexer"
    by (simp add: seen_def projected_indexer_def ie_key_def ev_key_def create_ingested_def)
  then have e: "\<forall>e \<in> set [stored_event]. ev_key e \<in> seen projected_indexer" by simp
  have "pr_sessions projected_indexer \<noteq> []" by (simp add: projected_indexer_def)
  then show ?thesis using reset_not_rebuilt [OF D audit_mem_ok p c e i] p c i by blast
qed

theorem resets_audited_witness:
  "console_resetCursor (mem_deps []) audit_mem ''testnet'' ''core-game'' (Some ''yes'') None (projected_indexer, []) = (Inr reset_refused, (projected_indexer, []))"
proof -
  obtain r x' t' where run: "console_resetCursor (mem_deps []) audit_mem ''testnet'' ''core-game'' (Some ''yes'') None (projected_indexer, []) = (r, (x', t'))"
    by (metis surj_pair)
  from resets_audited [OF audit_mem_ok disjI1 [OF refl] run] run show ?thesis by simp
qed

end
