(* ===== verification/Word_Seeding.thy ===== *)
theory Word_Seeding
  imports Words
begin

text \<open>
  Filling the word table from the list of five-letter words, and the older way of choosing a
  daily word at random (\<^verbatim>\<open>utils/word-seed.service.ts\<close>).  The repository offers four more calls than
  the other services use: a count, a truncation, the insertion of a batch in one statement and the
  row at an offset.  The file is the text read, or \<^verbatim>\<open>None\<close> when it does not exist.  The random
  number is an argument.
\<close>

record seed_repo =
  sr_words :: word_repo
  sr_count :: "(Word list, js_error, nat) act"
  sr_clear :: "(Word list, js_error, unit) act"
  sr_insert :: "Word list \<Rightarrow> (Word list, js_error, unit) act"
  sr_getOne :: "nat \<Rightarrow> (Word list, js_error, Word option) act"

section \<open>Seeding\<close>

text \<open>The trimmed, lower-cased lines of five letters, the first of each.\<close>

definition words_of_file :: "string \<Rightarrow> string list" where
  "words_of_file fileContent =
    set_of (filter (list_all (char_in (CHR ''a'') (CHR ''z'')))
      (filter (\<lambda>word. length word = 5)
        (map (\<lambda>word. toLowerCase (trim word)) (split_on (CHR 0x0A) fileContent))))"

text \<open>\<^verbatim>\<open>new Word()\<close> with the word set; the database fills in the defaults of the other columns.\<close>

definition seeder_new_word :: "string \<Rightarrow> Word" where
  "seeder_new_word w = \<lparr>wd_id = None, wd_word = w, wd_metadata = None, wd_isEnriched = False, wd_definition = None,
     wd_example = None, wd_partOfSpeech = None, wd_phonetics = None, wd_isDaily = False, wd_dailyDate = None,
     wd_difficulty = None, wd_status = PENDING, wd_qualityScore = None, wd_sources = None,
     wd_createdAt = 0, wd_updatedAt = 0\<rparr>"

definition batchSize :: nat where
  "batchSize = 100"

text \<open>The loop over the slices: a batch that fails is logged and skipped.  The result counts the words.\<close>

function insert_batches :: "seed_repo \<Rightarrow> Word list \<Rightarrow> nat \<Rightarrow> (Word list, js_error, nat) act" where
  "insert_batches D wordEntities seededCount =
    (if wordEntities = [] then act_ret seededCount
     else let batch = take batchSize wordEntities in
       act_bind
         (act_catch (act_seq (sr_insert D batch) (act_ret (seededCount + length batch))) (\<lambda>_. act_ret seededCount))
         (insert_batches D (drop batchSize wordEntities)))"
  by pat_completeness auto
termination
  by (relation "measure (\<lambda>(D, ws, n). length ws)") (auto simp: batchSize_def)

declare insert_batches.simps [simp del]

definition file_missing :: js_error where
  "file_missing = JsError ''Error'' ''Words file not found'' []"

definition seeder_seedWords :: "seed_repo \<Rightarrow> string option \<Rightarrow> bool \<Rightarrow> (Word list, js_error, unit) act" where
  "seeder_seedWords D file force =
    act_bind (sr_count D) (\<lambda>existingWordsCount.
      if existingWordsCount > 0 \<and> \<not> force then act_ret ()
      else act_seq (if force \<and> existingWordsCount > 0 then sr_clear D else act_ret ())
        (case file of
           None \<Rightarrow> act_throw file_missing
         | Some fileContent \<Rightarrow>
             act_seq (insert_batches D (map seeder_new_word (words_of_file fileContent)) 0) (act_ret ())))"

section \<open>Choosing a daily word at random\<close>

text \<open>\<^verbatim>\<open>random\<close> is the value of \<^verbatim>\<open>Math.random()\<close>.\<close>

definition seeder_getRandomWord :: "seed_repo \<Rightarrow> rat \<Rightarrow> (Word list, js_error, Word option) act" where
  "seeder_getRandomWord D random =
    act_catch
      (act_bind (sr_count D) (\<lambda>n.
        if n = 0 then act_ret None else sr_getOne D (nat \<lfloor>random * of_nat n\<rfloor>)))
      (\<lambda>_. act_ret None)"

definition getDailyWord :: "seed_repo \<Rightarrow> rat \<Rightarrow> int \<Rightarrow> (Word list, js_error, Word option) act" where
  "getDailyWord D random date =
    act_catch
      (act_bind (r_findOne (sr_words D) (\<lambda>w. wd_isDaily w \<and> wd_dailyDate w = Some date)) (\<lambda>existingDailyWord.
        case existingDailyWord of
          Some w \<Rightarrow> act_ret (Some w)
        | None \<Rightarrow> act_bind (seeder_getRandomWord D random) (\<lambda>randomWord. case randomWord of
            None \<Rightarrow> act_ret None
          | Some w \<Rightarrow> act_seq
              (r_update (sr_words D) (\<lambda>r. wd_id r = wd_id w) (\<lambda>r. r\<lparr>wd_isDaily := True, wd_dailyDate := Some date\<rparr>))
              (r_findOne (sr_words D) (\<lambda>r. wd_id r = wd_id w)))))
      (\<lambda>_. act_ret None)"

definition getTotalWordsCount :: "seed_repo \<Rightarrow> (Word list, js_error, nat) act" where
  "getTotalWordsCount D = sr_count D"

text \<open>
  The update carries \<^verbatim>\<open>dailyDate: undefined\<close>; the mapper leaves out a column whose value is
  undefined, so the dates stay.
\<close>

definition clearDailyWords :: "seed_repo \<Rightarrow> (Word list, js_error, unit) act" where
  "clearDailyWords D = act_seq (r_update (sr_words D) wd_isDaily (\<lambda>r. r\<lparr>wd_isDaily := False\<rparr>)) (act_ret ())"

section \<open>The repository relied on\<close>

text \<open>
  \<^verbatim>\<open>seed_repo_ok\<close>: counting and reading change nothing, truncation empties the table, and a batch
  is inserted as a whole or not at all, with fresh keys; \<^verbatim>\<open>seed_repo_up\<close>: nothing fails but the
  insertion of a word that is in the table or twice in the batch.
\<close>

definition seed_repo_ok :: "seed_repo \<Rightarrow> bool" where
  "seed_repo_ok D \<longleftrightarrow> repo_ok wd_id wd_body (sr_words D) \<and>
     (\<forall>t r t'. sr_count D t = (r, t') \<longrightarrow> t' = t \<and> (\<forall>n. r = Inr n \<longrightarrow> n = length t)) \<and>
     (\<forall>t r t'. sr_clear D t = (Inr r, t') \<longrightarrow> t' = []) \<and>
     (\<forall>b. atomic (sr_insert D b)) \<and>
     (\<forall>b t r t'. sr_insert D b t = (Inr r, t') \<longrightarrow>
        (\<exists>rows. map wd_body rows = map wd_body b \<and> mset t' = mset t + mset rows \<and>
           (distinct (map wd_id t) \<longrightarrow> distinct (map wd_id t')))) \<and>
     (\<forall>i t r t'. sr_getOne D i t = (r, t') \<longrightarrow> t' = t \<and>
        (\<forall>w. r = Inr w \<longrightarrow> (case w of None \<Rightarrow> length t \<le> i | Some e \<Rightarrow> e \<in> set t)))"

definition seed_repo_up :: "seed_repo \<Rightarrow> bool" where
  "seed_repo_up D \<longleftrightarrow> repo_reliable (sr_words D) \<and> returns (sr_count D) \<and> returns (sr_clear D) \<and>
     (\<forall>i. returns (sr_getOne D i)) \<and>
     (\<forall>b t. distinct (map wd_word t @ map wd_word b) \<longrightarrow> (\<exists>r t'. sr_insert D b t = (Inr r, t')))"

lemma seed_words_ok: "seed_repo_ok D \<Longrightarrow> repo_ok wd_id wd_body (sr_words D)"
  by (simp add: seed_repo_ok_def)

lemma seed_count: "seed_repo_ok D \<Longrightarrow> sr_count D t = (Inr n, t') \<Longrightarrow> t' = t \<and> n = length t"
  unfolding seed_repo_ok_def by blast

lemma seed_clear: "seed_repo_ok D \<Longrightarrow> sr_clear D t = (Inr u, t') \<Longrightarrow> t' = []"
  unfolding seed_repo_ok_def by meson

lemma seed_getOne:
  assumes "seed_repo_ok D" "sr_getOne D i t = (Inr x, t')"
  shows "t' = t \<and> (case x of None \<Rightarrow> length t \<le> i | Some e \<Rightarrow> e \<in> set t)"
proof -
  have "\<forall>i t r t'. sr_getOne D i t = (r, t') \<longrightarrow> t' = t \<and>
      (\<forall>w. r = Inr w \<longrightarrow> (case w of None \<Rightarrow> length t \<le> i | Some e \<Rightarrow> e \<in> set t))"
    using assms(1) unfolding seed_repo_ok_def by (elim conjE) assumption
  then show ?thesis using assms(2) by blast
qed

lemma words_of_bodies:
  assumes "map wd_body rows = map wd_body b"
  shows "map wd_word rows = map wd_word b"
proof -
  have "map wd_word (map wd_body rows) = map wd_word (map wd_body b)" using assms by simp
  then show ?thesis by (simp add: comp_def)
qed

lemma insert_words:
  assumes "seed_repo_ok D" "sr_insert D b t = (Inr u, t')"
  shows "mset (map wd_word t') = mset (map wd_word t) + mset (map wd_word b)"
proof -
  obtain rows where rows: "map wd_body rows = map wd_body b" "mset t' = mset t + mset rows"
    using assms unfolding seed_repo_ok_def by blast
  have "mset (map wd_word t') = mset (map wd_word t) + mset (map wd_word rows)"
    using rows(2) by simp
  then show ?thesis using words_of_bodies [OF rows(1)] by simp
qed

lemma insert_fails: "seed_repo_ok D \<Longrightarrow> sr_insert D b t = (Inl e, t') \<Longrightarrow> t' = t"
  unfolding seed_repo_ok_def by (blast dest: atomicD)

text \<open>One round of the loop, when the batch is inserted.\<close>

lemma insert_batches_round:
  assumes "ws \<noteq> []" "sr_insert D (take batchSize ws) t = (Inr u, t1)"
  shows "insert_batches D ws n t =
    insert_batches D (drop batchSize ws) (n + length (take batchSize ws)) t1"
  using assms by (subst insert_batches.simps) (simp add: act_defs Let_def)

lemma insert_batches_skip:
  assumes "ws \<noteq> []" "sr_insert D (take batchSize ws) t = (Inl e, t1)"
  shows "insert_batches D ws n t = insert_batches D (drop batchSize ws) n t1"
  using assms by (subst insert_batches.simps) (simp add: act_defs Let_def)

lemma map_take_drop: "map f (take k xs) @ map f (drop k xs) = map f xs"
  by (simp flip: map_append)

text \<open>Every batch is inserted when no word of it is there yet.\<close>

lemma insert_batches_all:
  assumes ok: "seed_repo_ok D" and up: "seed_repo_up D"
  shows "distinct (map wd_word t @ map wd_word ws) \<Longrightarrow>
    \<exists>t'. insert_batches D ws n t = (Inr (n + length ws), t') \<and>
      mset (map wd_word t') = mset (map wd_word t) + mset (map wd_word ws)"
proof (induction ws arbitrary: t n rule: length_induct)
  case (1 ws)
  show ?case
  proof (cases "ws = []")
    case True
    then show ?thesis by (simp add: insert_batches.simps [of _ "[]"] act_ret_def)
  next
    case False
    define b r where "b = take batchSize ws" and "r = drop batchSize ws"
    have split: "map wd_word ws = map wd_word b @ map wd_word r" by (simp add: b_def r_def map_take_drop)
    have shorter: "length r < length ws" using False by (simp add: r_def batchSize_def)
    have "distinct (map wd_word t @ map wd_word b)" using "1.prems" split by auto
    then obtain u t1 where ins: "sr_insert D b t = (Inr u, t1)"
      using up unfolding seed_repo_up_def by meson
    have words: "mset (map wd_word t1) = mset (map wd_word t) + mset (map wd_word b)"
      by (rule insert_words [OF ok ins])
    then have "mset (map wd_word t1 @ map wd_word r) = mset (map wd_word t @ map wd_word ws)"
      using split by simp
    then have "distinct (map wd_word t1 @ map wd_word r)"
      using "1.prems" mset_eq_imp_distinct_iff by blast
    then obtain t' where "insert_batches D r (n + length b) t1 = (Inr (n + length b + length r), t')"
      "mset (map wd_word t') = mset (map wd_word t1) + mset (map wd_word r)"
      using "1.IH" shorter by blast
    moreover have "length b + length r = length ws"
      by (simp add: b_def r_def)
    moreover have "insert_batches D ws n t = insert_batches D r (n + length b) t1"
      using insert_batches_round [OF False, of D t u t1 n] ins by (simp add: b_def r_def)
    ultimately show ?thesis using words split by (simp add: add.assoc)
  qed
qed

lemma distinct_words_of_file: "distinct (words_of_file s)"
  by (simp add: words_of_file_def distinct_set_of)

lemma words_of_file_sound: "w \<in> set (words_of_file s) \<Longrightarrow> length w = 5 \<and> list_all (char_in (CHR ''a'') (CHR ''z'')) w"
  by (simp add: words_of_file_def set_set_of)

lemma new_words: "map wd_word (map seeder_new_word ws) = ws"
  by (simp add: seeder_new_word_def comp_def)

text \<open>
  A run that is not refused by the words already there leaves exactly the words of the file, each
  once; otherwise it changes nothing.
\<close>

lemma seedWords_exact:
  assumes ok: "seed_repo_ok D" and up: "seed_repo_up D"
  shows "\<exists>t'. seeder_seedWords D (Some fileContent) force t = (Inr (), t') \<and>
    (if t = [] \<or> force then mset (map wd_word t') = mset (words_of_file fileContent) else t' = t)"
proof -
  obtain n where n: "sr_count D t = (Inr n, t)" "n = length t"
    using up seed_count [OF ok] unfolding seed_repo_up_def returns_def by metis
  show ?thesis
  proof (cases "t = [] \<or> force")
    case False
    then show ?thesis by (simp add: seeder_seedWords_def n act_defs)
  next
    case True
    obtain u where u: "(if force \<and> length t > 0 then sr_clear D else act_ret ()) t = (Inr u, [])"
      using True up seed_clear [OF ok] unfolding seed_repo_up_def returns_def
      by (cases "force \<and> length t > 0") (auto simp: act_ret_def, metis)
    let ?ws = "map seeder_new_word (words_of_file fileContent)"
    have "distinct (map wd_word ([] :: Word list) @ map wd_word ?ws)"
      using distinct_words_of_file by (simp add: new_words del: map_map)
    from insert_batches_all [OF ok up this, of 0]
    obtain t' where t': "insert_batches D ?ws 0 [] = (Inr (0 + length ?ws), t')"
      "mset (map wd_word t') = mset (map wd_word ?ws)" by auto
    have run: "seeder_seedWords D (Some fileContent) force t = (Inr (), t')"
      using True u t'(1) by (auto simp: seeder_seedWords_def act_bind_def act_seq_def n act_ret_def)
    have "mset (map wd_word t') = mset (words_of_file fileContent)" using t'(2) unfolding new_words by simp
    then show ?thesis using run True by simp
  qed
qed

section \<open>The daily word\<close>

lemma seeder_getRandomWord_reads:
  assumes "seed_repo_ok D" "seed_repo_up D" "seeder_getRandomWord D random t = (Inr x, t')"
  shows "t' = t \<and> (case x of None \<Rightarrow> True | Some e \<Rightarrow> e \<in> set t)"
proof -
  obtain n where n: "sr_count D t = (Inr n, t)"
    using assms(2) seed_count [OF assms(1)] unfolding seed_repo_up_def returns_def by metis
  obtain y s where y: "sr_getOne D (nat \<lfloor>random * of_nat n\<rfloor>) t = (Inr y, s)"
    using assms(2) unfolding seed_repo_up_def returns_def by meson
  show ?thesis
    using assms(3) seed_getOne [OF assms(1) y] y
    by (auto simp: seeder_getRandomWord_def act_defs n split: if_splits option.splits)
qed

text \<open>The word of a date stays its word: asking again answers the same and changes nothing.\<close>

lemma daily_word_stable:
  assumes ok: "seed_repo_ok D" and up: "seed_repo_up D" and keys: "distinct (map wd_id t)"
    and first: "getDailyWord D random date t = (Inr (Some w), t')"
  shows "getDailyWord D random' date t' = (Inr (Some w), t') \<and> wd_isDaily w \<and> wd_dailyDate w = Some date \<and> w \<in> set t'"
proof -
  let ?P = "\<lambda>w. wd_isDaily w \<and> wd_dailyDate w = Some date"
  let ?f = "\<lambda>r. r\<lparr>wd_isDaily := True, wd_dailyDate := Some date\<rparr>"
  note rok = seed_words_ok [OF ok]
  have rel: "repo_reliable (sr_words D)" using up by (simp add: seed_repo_up_def)
  obtain y t0 where y0: "r_findOne (sr_words D) ?P t = (Inr y, t0)" by (rule reliable_findOne [OF rel])
  then have y: "r_findOne (sr_words D) ?P t = (Inr y, t)" using findOne_same [OF rok] by blast
  show ?thesis
  proof (cases y)
    case (Some v)
    then have "w = v" "t' = t" using first by (simp_all add: getDailyWord_def y act_defs)
    moreover have "v \<in> set t \<and> ?P v" using findOne_Some [OF rok] y Some by blast
    ultimately show ?thesis using y Some by (simp add: getDailyWord_def act_defs)
  next
    case None
    then have none: "\<not> ?P e" if "e \<in> set t" for e using findOne_None [OF rok] y that by blast
    obtain x where x: "seeder_getRandomWord D random t = (Inr x, t)"
    proof (cases "seeder_getRandomWord D random t")
      case (Pair r t1)
      then obtain z where "r = Inr z" by (auto simp: seeder_getRandomWord_def act_defs split: prod.splits sum.splits)
      then show ?thesis using that seeder_getRandomWord_reads [OF ok up] Pair by blast
    qed
    obtain v where v: "x = Some v" "v \<in> set t"
      using first seeder_getRandomWord_reads [OF ok up x] by (cases x) (auto simp: getDailyWord_def y None x act_defs)
    obtain m t1 where u: "r_update (sr_words D) (\<lambda>r. wd_id r = wd_id v) ?f t = (Inr m, t1)" by (rule reliable_update [OF rel])
    have t1: "set t1 = (\<lambda>r. if wd_id r = wd_id v then ?f r else r) ` set t" by (rule update_set [OF rok u])
    have only: "r = v" if "r \<in> set t" "wd_id r = wd_id v" for r
      using keys that v(2) by (auto simp: distinct_map inj_on_def)
    obtain q t2 where q0: "r_findOne (sr_words D) (\<lambda>r. wd_id r = wd_id v) t1 = (Inr q, t2)" by (rule reliable_findOne [OF rel])
    then have q: "r_findOne (sr_words D) (\<lambda>r. wd_id r = wd_id v) t1 = (Inr q, t1)" using findOne_same [OF rok] by blast
    have w: "q = Some w" "t' = t1" using first by (simp_all add: getDailyWord_def y None x v u q act_defs)
    have "w \<in> set t1" "wd_id w = wd_id v" using findOne_Some [OF rok] q w(1) by blast+
    then have wf: "w = ?f v" using t1 only by auto
    have dated: "r = ?f v" if "r \<in> set t1" "?P r" for r using that t1 only none by (auto split: if_splits)
    obtain z t3 where z: "r_findOne (sr_words D) ?P t1 = (Inr z, t3)" by (rule reliable_findOne [OF rel])
    have "z = Some w" "t3 = t1"
    proof -
      show "t3 = t1" using findOne_same [OF rok z] .
      show "z = Some w"
      proof (cases z)
        case None
        then show ?thesis using findOne_None [OF rok] z \<open>w \<in> set t1\<close> wf by fastforce
      next
        case (Some e)
        then show ?thesis using findOne_Some [OF rok] z dated wf by blast
      qed
    qed
    then show ?thesis using w wf \<open>w \<in> set t1\<close> z by (simp add: getDailyWord_def act_defs)
  qed
qed

text \<open>
  Clearing frees every word, but each keeps its date: the scheduler, which looks a word up by its
  date alone, still finds the old one.
\<close>

lemma clearDailyWords_keeps_dates:
  assumes "seed_repo_ok D" "seed_repo_up D"
  shows "\<exists>t'. clearDailyWords D t = (Inr (), t') \<and> (\<forall>w \<in> set t'. \<not> wd_isDaily w) \<and> wd_dailyDate ` set t' = wd_dailyDate ` set t"
proof -
  have "repo_reliable (sr_words D)" using assms(2) by (simp add: seed_repo_up_def)
  then obtain m t' where u: "r_update (sr_words D) wd_isDaily (\<lambda>r. r\<lparr>wd_isDaily := False\<rparr>) t = (Inr m, t')"
    by (rule reliable_update)
  have "set t' = (\<lambda>r. if wd_isDaily r then r\<lparr>wd_isDaily := False\<rparr> else r) ` set t"
    by (rule update_set [OF seed_words_ok [OF assms(1)] u])
  moreover have "(if wd_isDaily r then r\<lparr>wd_isDaily := False\<rparr> else r) = r\<lparr>wd_isDaily := False\<rparr>" for r :: Word
    by (cases r) simp
  ultimately have "set t' = (\<lambda>r. r\<lparr>wd_isDaily := False\<rparr>) ` set t" by simp
  then have "wd_dailyDate ` set t' = wd_dailyDate ` set t" "\<forall>w \<in> set t'. \<not> wd_isDaily w"
    by (simp_all add: image_image)
  then show ?thesis using u by (simp add: clearDailyWords_def act_defs)
qed

section \<open>The table in memory\<close>

primrec number_from :: "nat \<Rightarrow> Word list \<Rightarrow> Word list" where
  "number_from i [] = []"
| "number_from i (w # ws) = w\<lparr>wd_id := Some i\<rparr> # number_from (Suc i) ws"

definition seed_mem :: seed_repo where
  "seed_mem = \<lparr>sr_words = word_mem, sr_count = (\<lambda>t. (Inr (length t), t)), sr_clear = (\<lambda>t. (Inr (), [])),
     sr_insert = (\<lambda>b t. if distinct (map wd_word t @ map wd_word b) then (Inr (), t @ number_from (next_key wd_id t) b)
        else (Inl (JsError ''Error'' ''duplicate key value'' []), t)),
     sr_getOne = (\<lambda>i t. (Inr (if i < length t then Some (t ! i) else None), t))\<rparr>"

lemma number_from_bodies: "map wd_body (number_from i b) = map wd_body b"
  by (induction b arbitrary: i) simp_all

lemma number_from_ids: "map wd_id (number_from i b) = map Some [i..<i + length b]"
  by (induction b arbitrary: i) (simp_all add: upt_conv_Cons del: upt_Suc)

lemma seed_mem_ok: "seed_repo_ok seed_mem"
proof -
  have "distinct (map wd_id (t @ number_from (next_key wd_id t) b))" if "distinct (map wd_id t)" for t b
  proof -
    have "wd_id r \<notin> set (map Some [next_key wd_id t..<next_key wd_id t + length b])" if "r \<in> set t" for r
      using next_key_above [OF that, of wd_id] by auto
    then show ?thesis using that by (auto simp: number_from_ids distinct_map inj_on_def)
  qed
  moreover have "\<exists>rows. map wd_body rows = map wd_body b \<and> mset (number_from i b) = mset rows" for i b
    using number_from_bodies by blast
  ultimately show ?thesis
    using word_mem_ok
    unfolding seed_repo_ok_def seed_mem_def atomic_def by (auto split: if_splits)
qed

lemma seed_mem_up: "seed_repo_up seed_mem"
  using word_mem_reliable by (simp add: seed_repo_up_def seed_mem_def returns_def)

lemma seed_runs:
  "\<exists>t'. seeder_seedWords seed_mem (Some (''Crane'' @ [CHR 0x0A] @ ''abc'' @ [CHR 0x0A] @ ''crane'')) False [] = (Inr (), t') \<and>
     mset (map wd_word t') = {#''crane''#}"
proof -
  have "words_of_file (''Crane'' @ [CHR 0x0A] @ ''abc'' @ [CHR 0x0A] @ ''crane'') = [''crane'']" by code_simp
  then show ?thesis
    using seedWords_exact [OF seed_mem_ok seed_mem_up, of "''Crane'' @ [CHR 0x0A] @ ''abc'' @ [CHR 0x0A] @ ''crane''" False "[]"]
    by simp
qed

end
