(* ===== verification/Web_Auth.thy ===== *)
theory Web_Auth
  imports Js_Values
begin

text \<open>
  The sign-in of the web client: the calls of the API (\<^verbatim>\<open>service/api/auth.ts\<close>), the provider that
  keeps the token in the browser's storage (\<^verbatim>\<open>context/AuthContext.tsx\<close>) and the submission of the
  form (\<^verbatim>\<open>components/LoginModal.tsx\<close>).  An answer of the network is an argument, with the value its
  body parses to; \<^verbatim>\<open>parse\<close> is \<^verbatim>\<open>JSON.parse\<close>.
\<close>

datatype fetched = Unreachable js_error | Answered bool "js option"

definition syntax_error :: js_error where
  "syntax_error = JsError ''SyntaxError'' ''Unexpected token in JSON'' []"

definition read_of_nullish :: "string \<Rightarrow> js_error" where
  "read_of_nullish p = JsError ''TypeError'' (''Cannot read properties of a nullish value: '' @ p) []"

text \<open>Reading a property of any value: one of a primitive is \<^verbatim>\<open>undefined\<close>, one of \<^verbatim>\<open>null\<close> throws.\<close>

fun read_prop :: "js \<Rightarrow> string \<Rightarrow> js_error + js" where
  "read_prop Undef p = Inl (read_of_nullish p)"
| "read_prop Null p = Inl (read_of_nullish p)"
| "read_prop (Obj r) p = Inr (get_prop r p)"
| "read_prop _ p = Inr Undef"

section \<open>The API\<close>

definition getApiUrl :: "string \<Rightarrow> string" where
  "getApiUrl endpoint = ''https://dewordle.onrender.com/api/v1'' @ endpoint"

text \<open>The shared shape of \<^verbatim>\<open>login\<close> and \<^verbatim>\<open>signup\<close>, which differ in the fallback of the message.\<close>

definition web_auth_answer :: "host \<Rightarrow> string \<Rightarrow> fetched \<Rightarrow> js_error + js" where
  "web_auth_answer h fallback answer =
    (case answer of
       Unreachable e \<Rightarrow> Inl e
     | Answered ok body \<Rightarrow>
         (case body of
            None \<Rightarrow> Inl syntax_error
          | Some v \<Rightarrow>
              if ok then Inr v
              else (case read_prop v ''message'' of
                      Inl e \<Rightarrow> Inl e
                    | Inr m \<Rightarrow> Inl (JsError ''Error'' (if truthy m then js_String h m else fallback) []))))"

definition web_api_login :: "host \<Rightarrow> fetched \<Rightarrow> js_error + js" where
  "web_api_login h answer = web_auth_answer h ''Login failed'' answer"

definition web_api_signup :: "host \<Rightarrow> fetched \<Rightarrow> js_error + js" where
  "web_api_signup h answer = web_auth_answer h ''Signup failed'' answer"

definition web_api_verify :: "fetched \<Rightarrow> js_error + bool" where
  "web_api_verify answer = (case answer of Unreachable e \<Rightarrow> Inl e | Answered ok _ \<Rightarrow> Inr ok)"

definition web_api_logout :: "fetched \<Rightarrow> js_error + unit" where
  "web_api_logout answer = (case answer of Unreachable e \<Rightarrow> Inl e | Answered _ _ \<Rightarrow> Inr ())"

section \<open>The provider\<close>

record auth_state =
  au_accessToken :: "js"
  au_user :: "js"
  au_isAuthenticated :: bool
  au_isLoading :: bool

record web_auth =
  wa_storage :: "(string, string) jmap"
  wa_state :: auth_state

type_synonym 'a web_act = "(web_auth, js_error, 'a) act"

definition auth_start :: auth_state where
  "auth_start = \<lparr>au_accessToken = Null, au_user = Null, au_isAuthenticated = False, au_isLoading = True\<rparr>"

definition useAuth :: "'c option \<Rightarrow> js_error + 'c" where
  "useAuth provided = (case provided of
     None \<Rightarrow> Inl (JsError ''Error'' ''useAuth must be used within an AuthProvider'' [])
   | Some v \<Rightarrow> Inr v)"

definition setItem :: "string \<Rightarrow> string \<Rightarrow> unit web_act" where
  "setItem k v = act_modify (\<lambda>w. w\<lparr>wa_storage := jm_set k v (wa_storage w)\<rparr>)"

definition removeItem :: "string \<Rightarrow> unit web_act" where
  "removeItem k = act_modify (\<lambda>w. w\<lparr>wa_storage := jm_delete k (wa_storage w)\<rparr>)"

definition stop_loading :: "unit web_act" where
  "stop_loading = act_modify (\<lambda>w. w\<lparr>wa_state := (wa_state w)\<lparr>au_isLoading := False\<rparr>\<rparr>)"

definition set_signed_in :: "js \<Rightarrow> js \<Rightarrow> unit web_act" where
  "set_signed_in token user = act_modify (\<lambda>w. w\<lparr>wa_state :=
     \<lparr>au_accessToken = token, au_user = user, au_isAuthenticated = True, au_isLoading = False\<rparr>\<rparr>)"

text \<open>What is stored: an item is a text, so the text of the token and that of \<^verbatim>\<open>JSON.stringify\<close>, or of \<^verbatim>\<open>undefined\<close>.\<close>

definition stored_json :: "host \<Rightarrow> js \<Rightarrow> string" where
  "stored_json h v = (if v = Undef then ''undefined'' else stringify h v)"

definition restoreSession :: "(string \<Rightarrow> js option) \<Rightarrow> fetched \<Rightarrow> unit web_act" where
  "restoreSession parse answer = act_catch
    (act_bind (act_get (\<lambda>w. (jm_get ''accessToken'' (wa_storage w), jm_get ''user'' (wa_storage w)))) (\<lambda>(token, userData).
      case (token, userData) of
        (Some tk, Some ud) \<Rightarrow>
          if tk = [] \<or> ud = [] then stop_loading
          else (case parse ud of
            None \<Rightarrow> act_throw syntax_error
          | Some user \<Rightarrow>
              (case answer of
                 Unreachable e \<Rightarrow> act_throw e
               | Answered ok _ \<Rightarrow>
                   if ok then set_signed_in (Str tk) user
                   else act_seq (removeItem ''accessToken'') (act_seq (removeItem ''user'') stop_loading)))
      | _ \<Rightarrow> stop_loading))
    (\<lambda>_. stop_loading)"

definition keep_answer :: "host \<Rightarrow> js_error + js \<Rightarrow> unit web_act" where
  "keep_answer h outcome =
    (case outcome of
       Inl e \<Rightarrow> act_throw e
     | Inr v \<Rightarrow>
         (case read_prop v ''access_token'' of
            Inl e \<Rightarrow> act_throw e
          | Inr token \<Rightarrow>
              act_seq (setItem ''accessToken'' (js_String h token))
                (case read_prop v ''user'' of
                   Inl e \<Rightarrow> act_throw e
                 | Inr user \<Rightarrow> act_seq (setItem ''user'' (stored_json h user)) (set_signed_in token user))))"

definition auth_login :: "host \<Rightarrow> fetched \<Rightarrow> unit web_act" where
  "auth_login h answer = keep_answer h (web_api_login h answer)"

definition auth_signup :: "host \<Rightarrow> fetched \<Rightarrow> unit web_act" where
  "auth_signup h answer = keep_answer h (web_api_signup h answer)"

definition auth_logout :: "unit web_act" where
  "auth_logout = act_seq (removeItem ''accessToken'') (act_seq (removeItem ''user'')
     (act_modify (\<lambda>w. w\<lparr>wa_state :=
        \<lparr>au_accessToken = Null, au_user = Null, au_isAuthenticated = False, au_isLoading = False\<rparr>\<rparr>)))"

section \<open>The form\<close>

record login_form =
  lf_isSignup :: bool
  lf_error :: string
  lf_isLoading :: bool
  lf_open :: bool

text \<open>A successful sign-in closes the form; a successful sign-up leaves it open.\<close>

definition handleSubmit :: "host \<Rightarrow> fetched \<Rightarrow> login_form \<Rightarrow> web_auth \<Rightarrow> login_form \<times> web_auth" where
  "handleSubmit h answer f w =
    (let f1 = f\<lparr>lf_error := [], lf_isLoading := True\<rparr> in
     if lf_isSignup f then
       (case auth_signup h answer w of
          (Inl e, w') \<Rightarrow> (f1\<lparr>lf_error := err_message e, lf_isLoading := False\<rparr>, w')
        | (Inr _, w') \<Rightarrow> (f1\<lparr>lf_isLoading := False\<rparr>, w'))
     else
       (case auth_login h answer w of
          (Inl e, w') \<Rightarrow> (f1\<lparr>lf_error := err_message e, lf_isLoading := False\<rparr>, w')
        | (Inr _, w') \<Rightarrow> (f1\<lparr>lf_open := False, lf_isLoading := False\<rparr>, w')))"

section \<open>What the sign-in guarantees\<close>

lemmas auth_ops = auth_login_def auth_signup_def keep_answer_def auth_logout_def restoreSession_def
  setItem_def removeItem_def stop_loading_def set_signed_in_def

text \<open>A sign-in that fails at the server leaves the provider as it was.\<close>

lemma refused_login_keeps:
  assumes "web_api_login h answer = Inl e"
  shows "auth_login h answer w = (Inl e, w)"
  using assms by (simp add: auth_ops act_defs)

lemma login_run:
  assumes "web_api_login h answer = Inr (Obj r)"
  shows "auth_login h answer w = (Inr (),
    \<lparr>wa_storage = jm_set ''user'' (stored_json h (get_prop r ''user''))
       (jm_set ''accessToken'' (js_String h (get_prop r ''access_token'')) (wa_storage w)),
     wa_state = \<lparr>au_accessToken = get_prop r ''access_token'', au_user = get_prop r ''user'',
       au_isAuthenticated = True, au_isLoading = False\<rparr>\<rparr>)"
  using assms by (simp add: auth_ops act_defs)

text \<open>
  Signing in and opening the page again: with a text as the token and an object as the user, and
  the server accepting the token, the new page has the state the sign-in left.
\<close>

lemma reload_restores:
  assumes "web_api_login h answer = Inr (Obj r)" "get_prop r ''access_token'' = Str tk" "tk \<noteq> []"
    and "get_prop r ''user'' = Obj u" "parse (stringify h (Obj u)) = Some (Obj u)"
  shows "\<exists>w1. auth_login h answer w = (Inr (), w1) \<and>
    restoreSession parse (Answered True body) (w1\<lparr>wa_state := auth_start\<rparr>) = (Inr (), w1)"
  using assms(2-) by (simp add: login_run [OF assms(1)] restoreSession_def set_signed_in_def stored_json_def act_defs)

text \<open>
  An answer without a user: the sign-in succeeds and stores the text \<^verbatim>\<open>undefined\<close>, which is not
  JSON, so every later page is signed out though the token is valid.
\<close>

lemma missing_user_lost_on_reload:
  assumes "web_api_login h answer = Inr (Obj r)" "get_prop r ''user'' = Undef" "parse ''undefined'' = None"
  shows "\<exists>w1. auth_login h answer w = (Inr (), w1) \<and> au_isAuthenticated (wa_state w1) \<and>
    \<not> au_isAuthenticated (wa_state (snd (restoreSession parse verified (w1\<lparr>wa_state := auth_start\<rparr>))))"
  using assms(2-)
  by (auto simp: login_run [OF assms(1)] restoreSession_def stop_loading_def stored_json_def auth_start_def act_defs)

text \<open>At the start of a page, a refused token is removed and the page is signed out.\<close>

lemma refused_token_removed:
  assumes "wa_state w = auth_start" "jm_get ''accessToken'' (wa_storage w) = Some tk" "tk \<noteq> []"
    and "jm_get ''user'' (wa_storage w) = Some ud" "parse ud = Some user" "ud \<noteq> []"
  shows "\<exists>w1. restoreSession parse (Answered False body) w = (Inr (), w1) \<and>
    \<not> au_isAuthenticated (wa_state w1) \<and> \<not> au_isLoading (wa_state w1) \<and>
    jm_get ''accessToken'' (wa_storage w1) = None \<and> jm_get ''user'' (wa_storage w1) = None"
  using assms by (simp add: restoreSession_def removeItem_def stop_loading_def auth_start_def act_defs)

text \<open>
  Later it is not: a page that is signed in and restores again keeps the refused token in its
  state, though the storage is emptied.
\<close>

lemma refused_token_still_signed_in:
  assumes "au_isAuthenticated (wa_state w)" "jm_get ''accessToken'' (wa_storage w) = Some tk" "tk \<noteq> []"
    and "jm_get ''user'' (wa_storage w) = Some ud" "parse ud = Some user" "ud \<noteq> []"
  shows "\<exists>w1. restoreSession parse (Answered False body) w = (Inr (), w1) \<and>
    au_isAuthenticated (wa_state w1) \<and> au_accessToken (wa_state w1) = au_accessToken (wa_state w) \<and>
    jm_get ''accessToken'' (wa_storage w1) = None"
  using assms by (simp add: restoreSession_def removeItem_def stop_loading_def act_defs)

text \<open>Restoring never throws and always ends the loading.\<close>

lemma restore_total:
  "\<exists>w1. restoreSession parse answer w = (Inr (), w1) \<and> \<not> au_isLoading (wa_state w1)"
  by (auto simp: restoreSession_def stop_loading_def set_signed_in_def removeItem_def act_defs
      split: option.split fetched.split)

text \<open>After a form was submitted it is no longer loading, and it shows an error exactly when it failed with a message.\<close>

lemma submit_settles:
  "\<not> lf_isLoading (fst (handleSubmit h answer f w)) \<and>
    lf_isSignup (fst (handleSubmit h answer f w)) = lf_isSignup f"
  by (simp add: handleSubmit_def Let_def split: prod.split sum.split)

lemma login_closes_form:
  assumes "\<not> lf_isSignup f" "lf_open f"
  shows "lf_open (fst (handleSubmit h answer f w)) \<longleftrightarrow> (\<exists>e. fst (auth_login h answer w) = Inl e)"
  using assms by (auto simp: handleSubmit_def Let_def split: prod.split sum.split)

lemma signup_leaves_form_open:
  assumes "lf_isSignup f" "lf_open f"
  shows "lf_open (fst (handleSubmit h answer f w))"
  using assms by (auto simp: handleSubmit_def Let_def split: prod.split sum.split)

lemma reload_runs:
  "\<exists>w1. auth_login plain_host (Answered True (Some (Obj [(''access_token'', Str ''t1''), (''user'', Obj [(''id'', Num (num 7))])])))
      \<lparr>wa_storage = [], wa_state = auth_start\<rparr> = (Inr (), w1) \<and>
    restoreSession (\<lambda>s. Some (Obj [(''id'', Num (num 7))])) (Answered True None) (w1\<lparr>wa_state := auth_start\<rparr>) = (Inr (), w1)"
proof (rule reload_restores [where tk = "''t1''"])
  let ?r = "[(''access_token'', Str ''t1''), (''user'', Obj [(''id'', Num (num 7))])]"
  show "get_prop ?r ''access_token'' = Str ''t1''" "get_prop ?r ''user'' = Obj [(''id'', Num (num 7))]" by code_simp+
qed (simp_all add: web_api_login_def web_auth_answer_def)

end
