(* ===== verification/Contract_Reads.thy ===== *)
theory Contract_Reads
  imports Js_Values
begin

text \<open>
  The hooks of the web client that read the contract (\<^verbatim>\<open>hooks/useContractRead.ts\<close>): one loads the
  registry of a network and builds a client from it, the others read a day or a session through
  that client.  A hook instance is a state machine: its parent renders it with a network and a key,
  and promises settle in any order.  An effect runs after a render in which one of its dependencies
  changed, and its last run is cancelled first.  Runs are numbered by their position in a list.
  \<^verbatim>\<open>build\<close> is the construction of a client, \<^verbatim>\<open>present\<close> the test of the key: a day must not be
  null, a session not null and not empty.
\<close>

datatype run = Live | Cancelled | Settled

record 'd read_state =
  rs_data :: "'d option"
  rs_loading :: bool
  rs_error :: "string option"

record ('c, 'k, 'd) read_hook =
  rh_network :: string
  rh_key :: "'k option"
  rh_clientRef :: "'c option"
  rh_ready :: bool
  rh_state :: "'d read_state"
  rh_loads :: "(string \<times> run) list"
  rh_reads :: "(('c \<times> 'k) \<times> run) list"
  rh_loadDeps :: "string option"
  rh_readDeps :: "('c option \<times> bool \<times> 'k option) option"

section \<open>The hooks\<close>

definition set_read :: "'d option \<Rightarrow> string option \<Rightarrow> ('c, 'k, 'd) read_hook \<Rightarrow> ('c, 'k, 'd) read_hook" where
  "set_read d e h = h\<lparr>rh_state := \<lparr>rs_data = d, rs_loading = False, rs_error = e\<rparr>\<rparr>"

text \<open>The cleanup of an effect: its run is cancelled.\<close>

definition cancel :: "('a \<times> run) list \<Rightarrow> ('a \<times> run) list" where
  "cancel runs = map (\<lambda>(a, r). (a, if r = Live then Cancelled else r)) runs"

definition load_effect :: "('c, 'k, 'd) read_hook \<Rightarrow> ('c, 'k, 'd) read_hook" where
  "load_effect h =
    (if rh_loadDeps h = Some (rh_network h) then h
     else h\<lparr>rh_loads := cancel (rh_loads h) @ [(rh_network h, Live)], rh_loadDeps := Some (rh_network h)\<rparr>)"

definition read_effect :: "('k \<Rightarrow> bool) \<Rightarrow> ('c, 'k, 'd) read_hook \<Rightarrow> ('c, 'k, 'd) read_hook" where
  "read_effect present h =
    (let deps = (rh_clientRef h, rh_ready h, rh_key h) in
     if rh_readDeps h = Some deps then h
     else let h' = h\<lparr>rh_reads := cancel (rh_reads h), rh_readDeps := Some deps\<rparr> in
       (case deps of
          (Some client, True, Some key) \<Rightarrow>
            if present key then set_read None None (h'\<lparr>rh_reads := rh_reads h' @ [((client, key), Live)]\<rparr>) else h'
        | _ \<Rightarrow> h'))"

definition render :: "('k \<Rightarrow> bool) \<Rightarrow> ('c, 'k, 'd) read_hook \<Rightarrow> ('c, 'k, 'd) read_hook" where
  "render present h = read_effect present (load_effect h)"

definition mount_hook :: "('k \<Rightarrow> bool) \<Rightarrow> string \<Rightarrow> 'k option \<Rightarrow> ('c, 'k, 'd) read_hook" where
  "mount_hook present network key = render present
     \<lparr>rh_network = network, rh_key = key, rh_clientRef = None, rh_ready = False,
      rh_state = \<lparr>rs_data = None, rs_loading = False, rs_error = None\<rparr>,
      rh_loads = [], rh_reads = [], rh_loadDeps = None, rh_readDeps = None\<rparr>"

definition parent_render ::
  "('k \<Rightarrow> bool) \<Rightarrow> string \<Rightarrow> 'k option \<Rightarrow> ('c, 'k, 'd) read_hook \<Rightarrow> ('c, 'k, 'd) read_hook" where
  "parent_render present network key h = render present (h\<lparr>rh_network := network, rh_key := key\<rparr>)"

text \<open>Setting the state it has already does not render a component.\<close>

definition setReady :: "('k \<Rightarrow> bool) \<Rightarrow> bool \<Rightarrow> ('c, 'k, 'd) read_hook \<Rightarrow> ('c, 'k, 'd) read_hook" where
  "setReady present b h = (if rh_ready h = b then h else render present (h\<lparr>rh_ready := b\<rparr>))"

text \<open>The registry of run \<^verbatim>\<open>i\<close> arrives or its loading fails; a client that cannot be made counts as a failure.\<close>

definition load_settles ::
  "('k \<Rightarrow> bool) \<Rightarrow> (string \<Rightarrow> 'r \<Rightarrow> 'e + 'c) \<Rightarrow> nat \<Rightarrow> ('e + 'r) \<Rightarrow>
    ('c, 'k, 'd) read_hook \<Rightarrow> ('c, 'k, 'd) read_hook" where
  "load_settles present build i answer h =
    (if i < length (rh_loads h) then
       (case rh_loads h ! i of
          (network, Live) \<Rightarrow>
            (let h' = h\<lparr>rh_loads := (rh_loads h)[i := (network, Settled)]\<rparr> in
             case answer of
               Inl e \<Rightarrow> setReady present False h'
             | Inr registry \<Rightarrow>
                 (case build network registry of
                    Inl e \<Rightarrow> setReady present False h'
                  | Inr client \<Rightarrow> setReady present True (h'\<lparr>rh_clientRef := Some client\<rparr>)))
        | _ \<Rightarrow> h)
     else h)"

text \<open>
  The answer of read \<^verbatim>\<open>i\<close>, or the message it failed with.  A cancelled run drops it.  The state is
  a new object, so the component renders.
\<close>

definition read_settles ::
  "('k \<Rightarrow> bool) \<Rightarrow> nat \<Rightarrow> (string + 'd option) \<Rightarrow> ('c, 'k, 'd) read_hook \<Rightarrow> ('c, 'k, 'd) read_hook" where
  "read_settles present i answer h =
    (if i < length (rh_reads h) then
       (case rh_reads h ! i of
          (req, Live) \<Rightarrow>
            (let h' = h\<lparr>rh_reads := (rh_reads h)[i := (req, Settled)]\<rparr> in
             render present (case answer of Inr d \<Rightarrow> set_read d None h' | Inl message \<Rightarrow> set_read None (Some message) h'))
        | _ \<Rightarrow> h)
     else h)"

text \<open>The two hooks: a day is read by its number, a session by its identifier.\<close>

definition day_present :: "nat \<Rightarrow> bool" where
  "day_present dayId = True"

definition session_present :: "string \<Rightarrow> bool" where
  "session_present sessionId = (sessionId \<noteq> [])"

definition read_error_message :: "string \<Rightarrow> js_error option \<Rightarrow> string" where
  "read_error_message fallback err = (case err of Some e \<Rightarrow> err_message e | None \<Rightarrow> fallback)"

definition day_settles :: "nat \<Rightarrow> (js_error option + 'd option) \<Rightarrow> ('c, nat, 'd) read_hook \<Rightarrow> ('c, nat, 'd) read_hook" where
  "day_settles i answer = read_settles day_present i
     (case answer of Inl err \<Rightarrow> Inl (read_error_message ''Failed to load day config'' err) | Inr d \<Rightarrow> Inr d)"

definition session_settles ::
  "nat \<Rightarrow> (js_error option + 'd option) \<Rightarrow> ('c, string, 'd) read_hook \<Rightarrow> ('c, string, 'd) read_hook" where
  "session_settles i answer = read_settles session_present i
     (case answer of Inl err \<Rightarrow> Inl (read_error_message ''Failed to load session'' err) | Inr d \<Rightarrow> Inr d)"

section \<open>Reachable hooks\<close>

inductive hook_reach ::
  "('k \<Rightarrow> bool) \<Rightarrow> (string \<Rightarrow> 'r \<Rightarrow> 'e + 'c) \<Rightarrow> ('c, 'k, 'd) read_hook \<Rightarrow> bool"
  for present build where
  mounted: "hook_reach present build (mount_hook present network key)"
| rendered: "hook_reach present build h \<Longrightarrow> hook_reach present build (parent_render present network key h)"
| loaded: "hook_reach present build h \<Longrightarrow> hook_reach present build (load_settles present build i answer h)"
| answered: "hook_reach present build h \<Longrightarrow> hook_reach present build (read_settles present i reply h)"

text \<open>
  Only the last read can be live, and a live read was started for the client and the key of the
  last effect; the state never says that anything is loading.
\<close>

definition live_is_last :: "('c, 'k, 'd) read_hook \<Rightarrow> bool" where
  "live_is_last h \<longleftrightarrow> (\<forall>i req. i < length (rh_reads h) \<longrightarrow> rh_reads h ! i = (req, Live) \<longrightarrow>
     Suc i = length (rh_reads h) \<and> rh_readDeps h = Some (Some (fst req), True, Some (snd req)))"

definition hook_ok :: "('c, 'k, 'd) read_hook \<Rightarrow> bool" where
  "hook_ok h \<longleftrightarrow> live_is_last h \<and> \<not> rs_loading (rh_state h)"

lemma cancel_not_live: "i < length runs \<Longrightarrow> cancel runs ! i \<noteq> (a, Live)"
  by (auto simp: cancel_def split: prod.splits if_splits)

lemma length_cancel [simp]: "length (cancel runs) = length runs"
  by (simp add: cancel_def)

lemma load_effect_keeps [simp]:
  "rh_reads (load_effect h) = rh_reads h" "rh_readDeps (load_effect h) = rh_readDeps h"
  "rh_state (load_effect h) = rh_state h" "rh_clientRef (load_effect h) = rh_clientRef h"
  "rh_ready (load_effect h) = rh_ready h" "rh_key (load_effect h) = rh_key h"
  by (simp_all add: load_effect_def)

lemma hook_ok_fields [simp]:
  "hook_ok (h\<lparr>rh_ready := r\<rparr>) = hook_ok h" "hook_ok (h\<lparr>rh_clientRef := c\<rparr>) = hook_ok h"
  "hook_ok (h\<lparr>rh_loads := l\<rparr>) = hook_ok h" "hook_ok (h\<lparr>rh_loadDeps := d\<rparr>) = hook_ok h"
  "hook_ok (h\<lparr>rh_network := n\<rparr>) = hook_ok h" "hook_ok (h\<lparr>rh_key := k\<rparr>) = hook_ok h"
  by (simp_all add: hook_ok_def live_is_last_def)

lemma read_effect_ok: "hook_ok h \<Longrightarrow> hook_ok (read_effect present h)"
  unfolding hook_ok_def live_is_last_def read_effect_def Let_def set_read_def
  by (auto simp: nth_append cancel_not_live less_Suc_eq split: option.splits bool.splits)

lemma render_ok: "hook_ok h \<Longrightarrow> hook_ok (render present h)"
  unfolding render_def by (rule read_effect_ok) (simp add: load_effect_def)

lemma setReady_ok: "hook_ok h \<Longrightarrow> hook_ok (setReady present b h)"
  by (simp add: setReady_def render_ok)

lemma load_settles_ok: "hook_ok h \<Longrightarrow> hook_ok (load_settles present build i answer h)"
  by (auto simp: load_settles_def Let_def intro!: setReady_ok split: prod.splits run.splits sum.splits)

lemma settle_ok:
  assumes "hook_ok h"
  shows "hook_ok (h\<lparr>rh_reads := (rh_reads h)[i := (req, Settled)]\<rparr>)"
proof -
  have "rh_reads h ! j = (q, Live)" if "(rh_reads h)[i := (req, Settled)] ! j = (q, Live)" "j < length (rh_reads h)" for j q
    using that by (cases "i = j") auto
  then show ?thesis using assms unfolding hook_ok_def live_is_last_def by simp blast
qed

lemma set_read_ok: "hook_ok h \<Longrightarrow> hook_ok (set_read d e h)"
  unfolding hook_ok_def live_is_last_def set_read_def by (simp del: split_paired_All)

lemma read_settles_ok: "hook_ok h \<Longrightarrow> hook_ok (read_settles present i reply h)"
  by (auto simp: read_settles_def Let_def intro!: render_ok set_read_ok settle_ok
      split: prod.splits run.splits sum.splits)

lemma reach_hook_ok: "hook_reach present build h \<Longrightarrow> hook_ok h"
proof (induction rule: hook_reach.induct)
  case (mounted network key)
  show ?case unfolding mount_hook_def by (rule render_ok) (simp add: hook_ok_def live_is_last_def)
next
  case (rendered h network key)
  then show ?case unfolding parent_render_def by (intro render_ok) simp
qed (simp_all add: load_settles_ok read_settles_ok)

section \<open>What the hooks show\<close>

text \<open>A hook never says that it is loading, though the interface it returns has a field for it.\<close>

lemma never_loading: "hook_reach present build h \<Longrightarrow> \<not> rs_loading (rh_state h)"
  by (drule reach_hook_ok) (simp add: hook_ok_def)

text \<open>
  C40: an answer counts only when it is that of the last read, and that read was started for the
  client and the key the hook depends on now; any other answer changes nothing.
\<close>

theorem late_answers_dropped:
  assumes "hook_reach present build h" "rh_reads h ! i = (req, r)"
    and "Suc i \<noteq> length (rh_reads h) \<or> rh_readDeps h \<noteq> Some (Some (fst req), True, Some (snd req))"
  shows "read_settles present i reply h = h"
proof (cases "i < length (rh_reads h)")
  case True
  then have "r \<noteq> Live"
    using reach_hook_ok [OF assms(1)] assms(2,3) unfolding hook_ok_def live_is_last_def by blast
  then show ?thesis using True assms(2) by (cases r) (simp_all add: read_settles_def)
qed (simp add: read_settles_def)

text \<open>The day is changed while the first one is being read; its answer arrives afterwards.\<close>

definition two_days :: "(string, nat, string) read_hook" where
  "two_days = parent_render day_present ''testnet'' (Some 6)
     (load_settles day_present (\<lambda>network registry. Inr (network @ registry) :: string + string) 0 (Inr ''r1'')
       (mount_hook day_present ''testnet'' (Some 5)))"

theorem late_answers_dropped_witness:
  "length (rh_reads two_days) = 2 \<and> read_settles day_present 0 (Inr (Some ''day 5'')) two_days = two_days"
proof -
  have reads: "rh_reads two_days = [((''testnetr1'', 5), Cancelled), ((''testnetr1'', 6), Live)]" by code_simp
  have reach: "hook_reach day_present (\<lambda>network registry. Inr (network @ registry) :: string + string) two_days"
    unfolding two_days_def by (intro hook_reach.intros)
  have "rh_reads two_days ! 0 = ((''testnetr1'', 5), Cancelled)" by (simp add: reads)
  then show ?thesis using late_answers_dropped [OF reach, of 0 _ _ "Inr (Some ''day 5'')"] reads by simp
qed

text \<open>
  The client of a new network arrives while that of the old one is in use: nothing renders, so the
  data on show and the last read remain those of the old network; the next render starts a read.
\<close>

lemma new_client_waits:
  assumes "i < length (rh_loads h)" "rh_loads h ! i = (network, Live)" "rh_ready h" "build network registry = Inr client"
  shows "rh_reads (load_settles present build i (Inr registry) h) = rh_reads h"
    "rh_state (load_settles present build i (Inr registry) h) = rh_state h"
    "rh_clientRef (load_settles present build i (Inr registry) h) = Some client"
    "rh_ready (load_settles present build i (Inr registry) h)"
  using assms by (simp_all add: load_settles_def setReady_def)

lemma next_render_reads:
  assumes "rh_clientRef h = Some client" "rh_ready h" "present key"
    "rh_readDeps h \<noteq> Some (Some client, True, Some key)"
  shows "\<exists>h'. parent_render present network (Some key) h = h' \<and> rs_data (rh_state h') = None \<and>
    last (rh_reads h') = ((client, key), Live)"
  using assms by (simp add: parent_render_def render_def read_effect_def load_effect_def set_read_def)

text \<open>The whole story on one hook: the day of the first network is still on show after the second one's client is there.\<close>

lemma network_switch_shows_old_day:
  "rh_state
     (load_settles day_present (\<lambda>network registry. Inr (network, registry) :: string + string \<times> string) 1 (Inr ''r2'')
       (parent_render day_present ''mainnet'' (Some 5)
         (day_settles 0 (Inr (Some ''day 5 of testnet''))
           (load_settles day_present (\<lambda>network registry. Inr (network, registry) :: string + string \<times> string) 0 (Inr ''r1'')
             (mount_hook day_present ''testnet'' (Some 5))))))
   = \<lparr>rs_data = Some ''day 5 of testnet'', rs_loading = False, rs_error = None\<rparr>"
  by code_simp

end
