(* ===== verification/Client_Panels.thy ===== *)
theory Client_Panels
  imports Client_View Client_Flow "HOL-Library.Word"
begin

unbundle bit_operations_syntax

text \<open>
  The logic of the web client's panels: the result card with its share text and letter chart
  (\<^verbatim>\<open>components/SessionResultCard.tsx\<close>, \<^verbatim>\<open>ShareResultCard.tsx\<close>), the on-screen keyboard
  (\<^verbatim>\<open>VirtualKeyboard.tsx\<close>), the profile's identicon (\<^verbatim>\<open>PlayerProfileCard.tsx\<close>), the timeline of a
  transaction, the capabilities of a network and the streak badge.  A text with characters outside
  ASCII is a list of glyphs.  Markup and styles are left out.
\<close>

datatype glyph = Plain string | GreenSquare | YellowSquare | WhiteSquare | MiddleDot | EmDash | Ellipsis

section \<open>The result card\<close>

datatype SessionKind = Daily | Practice | Interrupted

record SessionResultData =
  sd_kind :: SessionKind
  sd_word :: string
  sd_won :: bool
  sd_guessCount :: nat
  sd_streak :: nat
  sd_date :: "string option"
  sd_outcomeCodes :: "int list option"

definition KIND_LABEL :: "SessionKind \<Rightarrow> string" where
  "KIND_LABEL k = (case k of Daily \<Rightarrow> ''Daily'' | Practice \<Rightarrow> ''Practice'' | Interrupted \<Rightarrow> ''Incomplete'')"

definition outcomeCodeToStatus :: "int \<Rightarrow> CellStatus" where
  "outcomeCodeToStatus code = (if code = 2 then CellCorrect else if code = 1 then CellPresent else CellAbsent)"

definition buildShareRows :: "SessionResultData \<Rightarrow> CellStatus list list" where
  "buildShareRows r =
    (let codes = (case sd_outcomeCodes r of Some cs \<Rightarrow> cs | None \<Rightarrow> replicate (sd_guessCount r) 0) in
     map (\<lambda>i.
       if i < sd_guessCount r then
         let code = (if i < length codes then codes ! i else 0); st = outcomeCodeToStatus code in
         replicate 5 (if i + 1 = sd_guessCount r \<and> sd_won r then CellCorrect else st)
       else replicate 5 CellEmpty) [0..<6])"

definition square :: "CellStatus \<Rightarrow> glyph list" where
  "square st = (case st of CellCorrect \<Rightarrow> [GreenSquare] | CellPresent \<Rightarrow> [YellowSquare] | CellAbsent \<Rightarrow> [WhiteSquare] | CellEmpty \<Rightarrow> [])"

definition share_grid :: "CellStatus list list \<Rightarrow> glyph list" where
  "share_grid rows = intersperse [Plain [CHR 0x0A]] (map (\<lambda>row. concat (map square row)) rows)"

definition share_date :: "string option \<Rightarrow> glyph list" where
  "share_date date = (case date of Some d \<Rightarrow> if d = [] then [] else [Plain '' '', MiddleDot, Plain ('' '' @ d)] | None \<Rightarrow> [])"

definition guess_line :: "bool \<Rightarrow> nat \<Rightarrow> string" where
  "guess_line won n = (if won then ''Solved in '' @ show_nat n @ ''/6'' else ''Did not solve'')"

definition share_text :: "string \<Rightarrow> string option \<Rightarrow> bool \<Rightarrow> nat \<Rightarrow> nat \<Rightarrow> CellStatus list list \<Rightarrow> glyph list" where
  "share_text kindLabel date won n streak rows =
     [Plain (''DeWordle '' @ kindLabel)] @ share_date date @
     [Plain ([CHR 0x0A] @ guess_line won n @ '' ''), EmDash, Plain ('' Streak: '' @ show_nat streak @ [CHR 0x0A])] @
     share_grid rows"

definition buildShareText :: "SessionResultData \<Rightarrow> CellStatus list list \<Rightarrow> glyph list" where
  "buildShareText r rows = share_text (KIND_LABEL (sd_kind r)) (sd_date r) (sd_won r) (sd_guessCount r) (sd_streak r) rows"

text \<open>The preview builds its text from its properties; the kind is printed as it is.\<close>

definition card_share_text :: "CellStatus list list \<Rightarrow> bool \<Rightarrow> nat \<Rightarrow> nat \<Rightarrow> string \<Rightarrow> string option \<Rightarrow> glyph list" where
  "card_share_text guesses won n streak kind date = share_text kind date won n streak guesses"

text \<open>Where a share goes: the callback, the platform's dialogue, the clipboard or nowhere.\<close>

datatype share_target = ToCallback | ToDialogue | ToClipboard | Nowhere

definition handleShare :: "bool \<Rightarrow> bool \<Rightarrow> bool \<Rightarrow> share_target" where
  "handleShare onShare canShare hasClipboard =
    (if onShare then ToCallback else if canShare then ToDialogue else if hasClipboard then ToClipboard else Nowhere)"

datatype guess_dot = DotWon | DotMissed | DotLost | DotUnused

definition guess_dots :: "SessionResultData \<Rightarrow> guess_dot list" where
  "guess_dots r = map (\<lambda>i.
     if i < sd_guessCount r then (if sd_won r then DotWon else if i + 1 < sd_guessCount r then DotMissed else DotLost)
     else DotUnused) [0..<6]"

definition guess_score :: "SessionResultData \<Rightarrow> glyph list" where
  "guess_score r = (if sd_kind r = Interrupted then [EmDash] else if sd_won r then [Plain (show_nat (sd_guessCount r) @ ''/6'')] else [Plain ''X/6''])"

section \<open>Letter frequencies\<close>

definition upper_letters :: "string \<Rightarrow> string" where
  "upper_letters word = filter (char_in (CHR ''A'') (CHR ''Z'')) (toUpperCase word)"

definition bump_letter :: "char \<Rightarrow> (char, nat) jmap \<Rightarrow> (char, nat) jmap" where
  "bump_letter letter counts = jm_set letter ((case jm_get letter counts of Some n \<Rightarrow> n | None \<Rightarrow> 0) + 1) counts"

definition tally_letters :: "string \<Rightarrow> (char, nat) jmap" where
  "tally_letters s = fold bump_letter s []"

definition freq_gt :: "host \<Rightarrow> char \<times> nat \<Rightarrow> char \<times> nat \<Rightarrow> bool" where
  "freq_gt h a b \<longleftrightarrow> snd b > snd a \<or> (snd b = snd a \<and> localeCompare h [fst a] [fst b] > 0)"

definition computeLetterFrequencies :: "host \<Rightarrow> string \<Rightarrow> (char \<times> nat) list" where
  "computeLetterFrequencies h word = sort_by (freq_gt h) (tally_letters (upper_letters word))"

definition trackWidth :: rat where
  "trackWidth = 240 - 20 - 24"

definition bar_width :: "nat \<Rightarrow> nat \<Rightarrow> rat" where
  "bar_width maxCount n = max (of_nat n / of_nat maxCount * trackWidth) 4"

section \<open>The on-screen keyboard\<close>

definition ROWS :: "string list list" where
  "ROWS = [map (\<lambda>c. [c]) ''QWERTYUIOP'', map (\<lambda>c. [c]) ''ASDFGHJKL'',
     [''ENTER''] @ map (\<lambda>c. [c]) ''ZXCVBNM'' @ [''BACKSPACE'']]"

datatype key_out = PressLetter string | PressEnter | PressBackspace

definition handleKeyClick :: "bool \<Rightarrow> string \<Rightarrow> key_out option" where
  "handleKeyClick disabled key =
    (if disabled then None else if key = ''ENTER'' then Some PressEnter
     else if key = ''BACKSPACE'' then Some PressBackspace else Some (PressLetter key))"

text \<open>The state: the column of each row that the Tab key stops at.\<close>

definition onKeyFocus :: "nat \<Rightarrow> nat \<Rightarrow> nat list \<Rightarrow> nat list" where
  "onKeyFocus row col active = (if active ! row = col then active else active[row := col])"

definition clamped :: "int \<Rightarrow> nat \<Rightarrow> nat" where
  "clamped i n = nat (min (max i 0) (int n - 1))"

definition focus_target :: "int \<Rightarrow> int \<Rightarrow> nat \<times> nat" where
  "focus_target row col = (let r = clamped row (length ROWS) in (r, clamped col (length (ROWS ! r))))"

text \<open>Focusing a key runs its handler; a disabled key cannot be focused.\<close>

definition focusKey :: "bool \<Rightarrow> int \<Rightarrow> int \<Rightarrow> nat list \<Rightarrow> nat list" where
  "focusKey disabled row col active =
    (if disabled then active else case focus_target row col of (r, c) \<Rightarrow> onKeyFocus r c active)"

datatype vkey = VRight | VLeft | VDown | VUp | VHome | VEnd | VEnter | VSpace | VBackspace | VDelete | VOther

definition onKeyNav :: "bool \<Rightarrow> vkey \<Rightarrow> nat \<Rightarrow> nat \<Rightarrow> nat list \<Rightarrow> nat list \<times> key_out option" where
  "onKeyNav disabled key row col active = (case key of
     VRight \<Rightarrow> (focusKey disabled (int row) (int col + 1) active, None)
   | VLeft \<Rightarrow> (focusKey disabled (int row) (int col - 1) active, None)
   | VDown \<Rightarrow> (focusKey disabled (int row + 1) (int col) active, None)
   | VUp \<Rightarrow> (focusKey disabled (int row - 1) (int col) active, None)
   | VHome \<Rightarrow> (focusKey disabled (int row) 0 active, None)
   | VEnd \<Rightarrow> (focusKey disabled (int row) (int (length (ROWS ! row)) - 1) active, None)
   | VEnter \<Rightarrow> (active, handleKeyClick disabled (ROWS ! row ! col))
   | VSpace \<Rightarrow> (active, handleKeyClick disabled (ROWS ! row ! col))
   | VBackspace \<Rightarrow> (active, if disabled then None else Some PressBackspace)
   | VDelete \<Rightarrow> (active, if disabled then None else Some PressBackspace)
   | VOther \<Rightarrow> (active, None))"

definition initial_cols :: "nat list" where
  "initial_cols = map (\<lambda>_. 0) ROWS"

definition key_tabIndex :: "nat list \<Rightarrow> nat \<Rightarrow> nat \<Rightarrow> int" where
  "key_tabIndex active row col = (if active ! row = col then 0 else -1)"

definition cols_ok :: "nat list \<Rightarrow> bool" where
  "cols_ok active \<longleftrightarrow> length active = length ROWS \<and> (\<forall>r < length ROWS. active ! r < length (ROWS ! r))"

section \<open>The profile\<close>

text \<open>The hash works on 32-bit unsigned integers.\<close>

definition mix_step :: "nat \<Rightarrow> char \<Rightarrow> 32 word \<Rightarrow> 32 word" where
  "mix_step i c h = (h XOR of_nat (of_char c + i)) * 16777619"

primrec address_hash :: "string \<Rightarrow> nat list \<Rightarrow> 32 word \<Rightarrow> 32 word list" where
  "address_hash address [] h = []"
| "address_hash address (i # is) h = (let h' = fold (mix_step i) address h in h' # address_hash address is h')"

definition hash_bits :: "string \<Rightarrow> 32 word list" where
  "hash_bits address = address_hash address [0..<15] 2166136261"

definition identicon_hue :: "string \<Rightarrow> nat" where
  "identicon_hue address = unat (hash_bits address ! 0) mod 360"

text \<open>The last column read has index 15, past the end of the hash: \<^verbatim>\<open>undefined % 2\<close> is not zero.\<close>

definition cell_on :: "32 word list \<Rightarrow> nat \<Rightarrow> nat \<Rightarrow> bool" where
  "cell_on hs x y = (let k = 1 + y * 3 + x in k < length hs \<and> even (unat (hs ! k)))"

definition mirrored_cell :: "32 word list \<Rightarrow> nat \<Rightarrow> nat \<Rightarrow> (nat \<times> nat) list" where
  "mirrored_cell hs y x = (if cell_on hs x y then (x, y) # (if x < 2 then [(4 - x, y)] else []) else [])"

definition identicon_cells :: "string \<Rightarrow> (nat \<times> nat) list" where
  "identicon_cells address = concat (map (\<lambda>y. concat (map (mirrored_cell (hash_bits address) y) [0..<3])) [0..<5])"

definition shortenAddress :: "string \<Rightarrow> glyph list" where
  "shortenAddress address =
    (if length address > 12 then [Plain (take 6 address), Ellipsis, Plain (drop (length address - 4) address)] else [Plain address])"

definition winRate :: "nat \<Rightarrow> nat \<Rightarrow> int" where
  "winRate gamesPlayed wins = (if gamesPlayed > 0 then \<lfloor>of_nat wins / of_nat gamesPlayed * 100 + (1/2 :: rat)\<rfloor> else 0)"

section \<open>The timeline of a transaction\<close>

definition STEPS :: "TxState list" where
  "STEPS = [TxIdle, TxSimulating, TxSigning, TxSubmitting, TxSuccess]"

datatype step_view = StepDone | StepActive | StepAhead

definition timeline :: "TxState \<Rightarrow> step_view list" where
  "timeline st =
    (let isError = (st = TxError); activeIndex = length (takeWhile (\<lambda>s. s \<noteq> st) STEPS) in
     map (\<lambda>i. if \<not> isError \<and> i < activeIndex then StepDone
              else if \<not> isError \<and> i = activeIndex then StepActive else StepAhead) [0..<length STEPS])"

definition timeline_label :: "TxState \<Rightarrow> string option \<Rightarrow> string" where
  "timeline_label st error =
    (case st of
       TxError \<Rightarrow> ''Transaction failed: '' @ (case error of Some e \<Rightarrow> e | None \<Rightarrow> ''Unknown error'')
     | TxIdle \<Rightarrow> ''Transaction status: Idle'' | TxSimulating \<Rightarrow> ''Transaction status: Simulating''
     | TxSigning \<Rightarrow> ''Transaction status: Signing'' | TxSubmitting \<Rightarrow> ''Transaction status: Submitting''
     | TxSuccess \<Rightarrow> ''Transaction status: Confirmed'')"

section \<open>The capabilities of a network\<close>

record capability =
  cp_network :: StellarNetwork
  cp_label :: string
  cp_available :: bool

definition CAPABILITIES :: "capability list" where
  "CAPABILITIES =
    [\<lparr>cp_network = Testnet, cp_label = ''Free transactions'', cp_available = True\<rparr>,
     \<lparr>cp_network = Testnet, cp_label = ''Daily puzzle'', cp_available = True\<rparr>,
     \<lparr>cp_network = Testnet, cp_label = ''Rewards claim'', cp_available = True\<rparr>,
     \<lparr>cp_network = Mainnet, cp_label = ''Free transactions'', cp_available = False\<rparr>,
     \<lparr>cp_network = Mainnet, cp_label = ''Daily puzzle'', cp_available = True\<rparr>,
     \<lparr>cp_network = Mainnet, cp_label = ''Rewards claim'', cp_available = True\<rparr>]"

definition find_capability :: "StellarNetwork \<Rightarrow> string \<Rightarrow> capability option" where
  "find_capability network feature = List.find (\<lambda>c. cp_network c = network \<and> cp_label c = feature) CAPABILITIES"

definition capability_badge :: "StellarNetwork \<Rightarrow> string \<Rightarrow> string" where
  "capability_badge network feature = (case find_capability network feature of
     None \<Rightarrow> ''Unknown'' | Some c \<Rightarrow> if cp_available c then ''Available'' else ''Unavailable'')"

text \<open>The warning that an action is not available: whether it is shown.\<close>

definition capability_callout :: "StellarNetwork \<Rightarrow> string \<Rightarrow> bool" where
  "capability_callout network feature = (case find_capability network feature of None \<Rightarrow> False | Some c \<Rightarrow> \<not> cp_available c)"

definition capability_list :: "StellarNetwork \<Rightarrow> (string \<times> string) list" where
  "capability_list network =
     map (\<lambda>c. (cp_label c, capability_badge network (cp_label c))) (filter (\<lambda>c. cp_network c = network) CAPABILITIES)"

section \<open>The streak badge\<close>

record streak_badge =
  sk_previous :: "int option"
  sk_pulseKey :: nat

definition streak_effect :: "int option \<Rightarrow> streak_badge \<Rightarrow> streak_badge" where
  "streak_effect streak b = (case streak of None \<Rightarrow> b
     | Some n \<Rightarrow> \<lparr>sk_previous = Some n,
         sk_pulseKey = (if (case sk_previous b of Some p \<Rightarrow> n > p | None \<Rightarrow> False) then sk_pulseKey b + 1 else sk_pulseKey b)\<rparr>)"

definition on_fire :: "int \<Rightarrow> bool" where
  "on_fire streak \<longleftrightarrow> streak \<ge> 7"

section \<open>Lemmas: the result card\<close>

lemma buildShareRows_shape:
  "length (buildShareRows r) = 6" "row \<in> set (buildShareRows r) \<Longrightarrow> length row = 5"
  by (auto simp: buildShareRows_def Let_def)

text \<open>The grid shows one status per attempt, five times: it does not show the marks of the letters.\<close>

lemma share_rows_uniform: "row \<in> set (buildShareRows r) \<Longrightarrow> \<exists>st. row = replicate 5 st"
  by (auto simp: buildShareRows_def Let_def)

lemma won_row_green:
  assumes "sd_won r" "0 < sd_guessCount r" "sd_guessCount r \<le> 6"
  shows "buildShareRows r ! (sd_guessCount r - 1) = replicate 5 CellCorrect"
  using assms by (simp add: buildShareRows_def Let_def del: upt_Suc)

text \<open>The card and its preview print the same text but for the name of the kind.\<close>

lemma preview_text:
  "card_share_text rows (sd_won r) (sd_guessCount r) (sd_streak r) (KIND_LABEL (sd_kind r)) (sd_date r) = buildShareText r rows"
  by (simp add: card_share_text_def buildShareText_def)

lemma guess_dots_used:
  assumes "sd_guessCount r \<le> 6"
  shows "length (filter (\<lambda>d. d \<noteq> DotUnused) (guess_dots r)) = sd_guessCount r"
proof -
  have "sd_guessCount r \<in> {0, 1, 2, 3, 4, 5, 6}" using assms by auto
  then show ?thesis by (auto simp: guess_dots_def upt_rec)
qed

section \<open>Lemmas: letter frequencies\<close>

lemma jm_get_fold_count:
  "jm_get c (fold bump_letter s m) =
    (if c \<in> set s then Some ((case jm_get c m of Some n \<Rightarrow> n | None \<Rightarrow> 0) + length (filter (\<lambda>x. x = c) s)) else jm_get c m)"
  by (induction s arbitrary: m) (auto simp: bump_letter_def filter_empty_conv split: option.splits)

lemma jm_wf_tally: "jm_wf (tally_letters s)"
proof -
  have "jm_wf m \<Longrightarrow> jm_wf (fold bump_letter s m)" for m
    by (induction s arbitrary: m) (simp_all add: bump_letter_def)
  then show ?thesis by (simp add: tally_letters_def)
qed

lemma tally_exact: "(c, n) \<in> set (tally_letters s) \<longleftrightarrow> n = length (filter (\<lambda>x. x = c) s) \<and> 0 < n"
proof -
  have "jm_get c (tally_letters s) = (if c \<in> set s then Some (length (filter (\<lambda>x. x = c) s)) else None)"
    by (simp add: tally_letters_def jm_get_fold_count)
  moreover have "c \<in> set s \<longleftrightarrow> 0 < length (filter (\<lambda>x. x = c) s)" by (auto simp: filter_empty_conv)
  ultimately show ?thesis using jm_get_in [OF jm_wf_tally, of c n s] by auto
qed

lemma freq_comparator:
  assumes "collation (localeCompare h)"
  shows "comparator (freq_gt h) (\<lambda>_. True)"
proof unfold_locales
  fix x y z :: "char \<times> nat"
  show "freq_gt h x y \<Longrightarrow> \<not> freq_gt h y x"
    using collation.lc_sign [OF assms, of "[fst x]" "[fst y]"] by (auto simp: freq_gt_def)
  show "\<not> freq_gt h x y \<Longrightarrow> \<not> freq_gt h y z \<Longrightarrow> \<not> freq_gt h x z"
    using collation.lc_trans [OF assms, of "[fst x]" "[fst y]" "[fst z]"] by (auto simp: freq_gt_def not_less)
qed

text \<open>The chart lists every letter of the word once with its number, the most frequent first.\<close>

lemma letter_frequencies_exact:
  "(c, n) \<in> set (computeLetterFrequencies h word) \<longleftrightarrow> n = length (filter (\<lambda>x. x = c) (upper_letters word)) \<and> 0 < n"
  by (simp add: computeLetterFrequencies_def tally_exact)

lemma letter_frequencies_sorted:
  assumes "collation (localeCompare h)"
  shows "sorted_wrt (\<lambda>a b. snd b \<le> snd a) (computeLetterFrequencies h word)"
  using comparator.ordered_sort [OF freq_comparator [OF assms], of "tally_letters (upper_letters word)"]
  by (auto simp: computeLetterFrequencies_def freq_gt_def not_less elim!: sorted_wrt_mono_rel [rotated])

lemma bar_in_track:
  assumes "n \<le> m" "0 < m"
  shows "4 \<le> bar_width m n \<and> bar_width m n \<le> trackWidth"
proof -
  have "of_nat n / of_nat m \<le> (1 :: rat)" using assms by simp
  then have "of_nat n / of_nat m * trackWidth \<le> 1 * trackWidth" by (rule mult_right_mono) (simp add: trackWidth_def)
  then show ?thesis by (simp add: bar_width_def trackWidth_def)
qed

section \<open>Lemmas: the keyboard\<close>

lemma rows_nonempty: "r < length ROWS \<Longrightarrow> 0 < length (ROWS ! r)"
  by (auto simp: ROWS_def less_Suc_eq nth_Cons split: nat.splits)

lemma clamped_less: "0 < n \<Longrightarrow> clamped i n < n"
  by (simp add: clamped_def min_def max_def) linarith

lemma focus_target_in:
  "fst (focus_target r c) < length ROWS \<and> snd (focus_target r c) < length (ROWS ! fst (focus_target r c))"
proof -
  have "0 < length ROWS" by (simp add: ROWS_def)
  then show ?thesis by (simp add: focus_target_def Let_def clamped_less rows_nonempty del: length_greater_0_conv)
qed

lemma initial_cols_ok: "cols_ok initial_cols"
  by (auto simp: cols_ok_def initial_cols_def rows_nonempty simp del: length_greater_0_conv)

lemma onKeyFocus_ok: "cols_ok active \<Longrightarrow> col < length (ROWS ! row) \<Longrightarrow> row < length ROWS \<Longrightarrow> cols_ok (onKeyFocus row col active)"
  by (auto simp: cols_ok_def onKeyFocus_def nth_list_update)

lemma focusKey_ok: "cols_ok active \<Longrightarrow> cols_ok (focusKey disabled row col active)"
  using focus_target_in [of row col] by (auto simp: focusKey_def onKeyFocus_ok split: prod.split)

text \<open>Every key press keeps one stop per row; a disabled keyboard neither moves nor emits.\<close>

lemma onKeyNav_ok: "cols_ok active \<Longrightarrow> cols_ok (fst (onKeyNav disabled key row col active))"
  by (cases key) (simp_all add: onKeyNav_def focusKey_ok)

lemma disabled_keyboard_inert: "onKeyNav True key row col active = (active, None)"
  by (cases key) (simp_all add: onKeyNav_def focusKey_def handleKeyClick_def)

lemma one_stop_per_row:
  assumes "cols_ok active" "r < length ROWS"
  shows "\<exists>!c. c < length (ROWS ! r) \<and> key_tabIndex active r c = 0"
  using assms by (auto simp: cols_ok_def key_tabIndex_def)

lemma enter_is_click:
  "snd (onKeyNav disabled VEnter row col active) = handleKeyClick disabled (ROWS ! row ! col)"
  "snd (onKeyNav disabled VSpace row col active) = snd (onKeyNav disabled VEnter row col active)"
  by (simp_all add: onKeyNav_def)

section \<open>Lemmas: the profile and the timeline\<close>

lemma length_address_hash [simp]: "length (address_hash a is h) = length is"
  by (induction "is" arbitrary: h) (simp_all add: Let_def)

lemma in_mirrored_cell:
  "(x, y) \<in> set (mirrored_cell hs y' x') \<longleftrightarrow> cell_on hs x' y' \<and> y = y' \<and> (x = x' \<or> x = 4 - x' \<and> x' < 2)"
  by (auto simp: mirrored_cell_def)

lemma cells_iff: "(x, y) \<in> set (identicon_cells a) \<longleftrightarrow> y < 5 \<and> x < 5 \<and> cell_on (hash_bits a) (min x (4 - x)) y"
proof -
  have "(x, y) \<in> set (identicon_cells a) \<longleftrightarrow>
      (\<exists>y' < 5. \<exists>x' < 3. cell_on (hash_bits a) x' y' \<and> y = y' \<and> (x = x' \<or> x = 4 - x' \<and> x' < 2))"
    by (simp add: identicon_cells_def in_mirrored_cell Bex_def del: upt_Suc)
  also have "\<dots> \<longleftrightarrow> y < 5 \<and> (\<exists>x' < 3. cell_on (hash_bits a) x' y \<and> (x = x' \<or> x = 4 - x' \<and> x' < 2))"
    by blast
  also have "\<dots> \<longleftrightarrow> y < 5 \<and> x < 5 \<and> cell_on (hash_bits a) (min x (4 - x)) y"
  proof (cases "x \<le> 2")
    case True
    then have "(\<exists>x' < 3. cell_on (hash_bits a) x' y \<and> (x = x' \<or> x = 4 - x' \<and> x' < 2)) \<longleftrightarrow> cell_on (hash_bits a) x y"
      by (auto intro!: exI [of _ x])
    then show ?thesis using True by (auto simp: min_def)
  next
    case False
    then have "(\<exists>x' < 3. cell_on (hash_bits a) x' y \<and> (x = x' \<or> x = 4 - x' \<and> x' < 2)) \<longleftrightarrow> x < 5 \<and> cell_on (hash_bits a) (4 - x) y"
      by (auto intro!: exI [of _ "4 - x"])
    then show ?thesis using False by (auto simp: min_def)
  qed
  finally show ?thesis .
qed

text \<open>The identicon mirrors itself, and the middle of its last row is never drawn.\<close>

lemma identicon_mirrored:
  assumes "x < 5" shows "(x, y) \<in> set (identicon_cells a) \<longleftrightarrow> (4 - x, y) \<in> set (identicon_cells a)"
proof -
  have "min (4 - x) (4 - (4 - x)) = min x (4 - x)" using assms by simp
  moreover have "4 - x < 5" by arith
  ultimately show ?thesis using assms by (simp add: cells_iff)
qed

lemma identicon_hole: "(2, 4) \<notin> set (identicon_cells a)"
  by (simp add: cells_iff cell_on_def hash_bits_def)

lemma winRate_bounds: "wins \<le> gamesPlayed \<Longrightarrow> 0 \<le> winRate gamesPlayed wins \<and> winRate gamesPlayed wins \<le> 100"
proof (cases "gamesPlayed = 0")
  case False
  assume "wins \<le> gamesPlayed"
  then have "of_nat wins / of_nat gamesPlayed * 100 \<le> (100 :: rat)" using False by (simp add: field_simps)
  then show ?thesis using False by (simp add: winRate_def le_floor_iff floor_le_iff add_pos_nonneg)
qed (simp add: winRate_def)

text \<open>At most one step is active, the steps before it are done and none after it; an error shows no step.\<close>

lemma timeline_steps:
  "timeline st = (case st of
     TxIdle \<Rightarrow> [StepActive, StepAhead, StepAhead, StepAhead, StepAhead]
   | TxSimulating \<Rightarrow> [StepDone, StepActive, StepAhead, StepAhead, StepAhead]
   | TxSigning \<Rightarrow> [StepDone, StepDone, StepActive, StepAhead, StepAhead]
   | TxSubmitting \<Rightarrow> [StepDone, StepDone, StepDone, StepActive, StepAhead]
   | TxSuccess \<Rightarrow> [StepDone, StepDone, StepDone, StepDone, StepActive]
   | TxError \<Rightarrow> replicate 5 StepAhead)"
  by (cases st; simp only:; code_simp)

lemma badge_and_callout: "capability_callout network feature \<longleftrightarrow> capability_badge network feature = ''Unavailable''"
  by (simp add: capability_callout_def capability_badge_def split: option.split)

lemma pulse_on_increase:
  "sk_pulseKey (streak_effect (Some n) b) \<noteq> sk_pulseKey b \<longleftrightarrow> (\<exists>p. sk_previous b = Some p \<and> n > p)"
  by (simp add: streak_effect_def split: option.split)

end
