(* ===== verification/Client_Pages.thy ===== *)
theory Client_Pages
  imports Js_Values
begin

text \<open>
  The pages and panels of the web client that fetch or wait: the session history
  (\<^verbatim>\<open>app/sessions/page.tsx\<close>), the achievements (\<^verbatim>\<open>AchievementsView.tsx\<close>), the recovery by a
  transaction's hash (\<^verbatim>\<open>app/recovery/page.tsx\<close>), the claim of rewards (\<^verbatim>\<open>RewardsClaimPanel.tsx\<close>), the
  definition of a word (\<^verbatim>\<open>WordDefinitionTooltip.tsx\<close>), the player's streak
  (\<^verbatim>\<open>hooks/usePlayerStreak.ts\<close>) and the install banner (\<^verbatim>\<open>PwaInstallBanner.tsx\<close>).  A request is started
  in one step and answered in another, so that answers can overtake each other.
\<close>

text \<open>
  An answer: the request throws (an error with a message, or anything else), or a status with a
  body, which parses or throws.
\<close>

datatype 'd answer = Throws "string option" | Answer bool "string + 'd"

definition answer_value :: "string \<Rightarrow> string \<Rightarrow> 'd answer \<Rightarrow> string + 'd" where
  "answer_value notOk other a =
    (case a of
       Throws (Some m) \<Rightarrow> Inl m
     | Throws None \<Rightarrow> Inl other
     | Answer ok body \<Rightarrow> if ok then body else Inl notOk)"

section \<open>The session history\<close>

record 'd history =
  hs_data :: "'d option"
  hs_loading :: bool
  hs_error :: "string option"
  hs_skip :: nat
  hs_address :: "string option"
  hs_requests :: "((nat \<times> string option) \<times> bool) list"

definition history_take :: nat where
  "history_take = 20"

definition history_query :: "nat \<Rightarrow> string option \<Rightarrow> (string \<times> string) list" where
  "history_query skip address =
     [(''skip'', show_nat skip), (''take'', show_nat history_take)] @
     (case address of Some a \<Rightarrow> if a = [] then [] else [(''player'', a)] | None \<Rightarrow> [])"

text \<open>Each request is kept with what it asked for and whether it is open.\<close>

definition fetchSessions :: "'d history \<Rightarrow> 'd history" where
  "fetchSessions s = s\<lparr>hs_loading := True, hs_error := None,
     hs_requests := hs_requests s @ [((hs_skip s, hs_address s), True)]\<rparr>"

definition history_start :: "string option \<Rightarrow> 'd history" where
  "history_start address = fetchSessions
     \<lparr>hs_data = None, hs_loading = False, hs_error = None, hs_skip = 0, hs_address = address, hs_requests = []\<rparr>"

definition sessions_answered :: "nat \<Rightarrow> 'd answer \<Rightarrow> 'd history \<Rightarrow> 'd history" where
  "sessions_answered i a s =
    (if i < length (hs_requests s) \<and> snd (hs_requests s ! i) then
       (let s' = s\<lparr>hs_requests := (hs_requests s)[i := (fst (hs_requests s ! i), False)], hs_loading := False\<rparr> in
        case answer_value ''Failed to fetch sessions'' ''Unknown error'' a of
          Inl m \<Rightarrow> s'\<lparr>hs_error := Some m\<rparr>
        | Inr d \<Rightarrow> s'\<lparr>hs_data := Some d\<rparr>)
     else s)"

definition wallet_changes :: "string option \<Rightarrow> 'd history \<Rightarrow> 'd history" where
  "wallet_changes address s = (if hs_address s = address then s else fetchSessions (s\<lparr>hs_address := address\<rparr>))"

text \<open>The pager is shown with the data when nothing is loading; \<^verbatim>\<open>total\<close> is read from the data.\<close>

definition previous_page :: "'d history \<Rightarrow> 'd history" where
  "previous_page s =
    (if hs_data s = None \<or> hs_loading s \<or> hs_skip s = 0 then s
     else fetchSessions (s\<lparr>hs_skip := hs_skip s - history_take\<rparr>))"

definition next_page :: "('d \<Rightarrow> nat) \<Rightarrow> 'd history \<Rightarrow> 'd history" where
  "next_page rows s =
    (case hs_data s of
       None \<Rightarrow> s
     | Some d \<Rightarrow> if hs_loading s \<or> rows d \<le> hs_skip s + history_take then s
                  else fetchSessions (s\<lparr>hs_skip := hs_skip s + history_take\<rparr>))"

definition range_line :: "('d \<Rightarrow> nat) \<Rightarrow> 'd history \<Rightarrow> (nat \<times> nat \<times> nat) option" where
  "range_line rows s = map_option (\<lambda>d. (hs_skip s + 1, min (hs_skip s + history_take) (rows d), rows d)) (hs_data s)"

inductive history_reach :: "('d \<Rightarrow> nat) \<Rightarrow> 'd history \<Rightarrow> bool" for rows where
  opened: "history_reach rows (history_start address)"
| received: "history_reach rows s \<Longrightarrow> history_reach rows (sessions_answered i a s)"
| switched: "history_reach rows s \<Longrightarrow> history_reach rows (wallet_changes address s)"
| backward: "history_reach rows s \<Longrightarrow> history_reach rows (previous_page s)"
| forward: "history_reach rows s \<Longrightarrow> history_reach rows (next_page rows s)"

lemma fetchSessions_skip [simp]: "hs_skip (fetchSessions s) = hs_skip s"
  by (simp add: fetchSessions_def)

lemma answered_skip [simp]: "hs_skip (sessions_answered i a s) = hs_skip s"
  by (simp add: sessions_answered_def Let_def split: sum.split)

text \<open>The offset is always a whole number of pages.\<close>

lemma page_aligned: "history_reach rows s \<Longrightarrow> history_take dvd hs_skip s"
  by (induction rule: history_reach.induct)
    (auto simp: history_start_def wallet_changes_def previous_page_def next_page_def dvd_diff_nat split: option.split)

text \<open>
  Nothing cancels a request.  After the wallet was switched, the answer for the old address can
  come last: the page then shows the old player's sessions under the new address, not loading.
\<close>

lemma old_player_shown:
  "let s = sessions_answered 0 (Answer True (Inr ''sessions of A''))
         (sessions_answered 1 (Answer True (Inr ''sessions of B'')) (wallet_changes (Some ''B'') (history_start (Some ''A''))))
   in hs_address s = Some ''B'' \<and> hs_data s = Some ''sessions of A'' \<and> \<not> hs_loading s \<and> hs_error s = None"
  by code_simp

text \<open>When one request is open at a time, what is shown is the answer to the last one.\<close>

lemma answer_shown:
  assumes "i < length (hs_requests s)" "snd (hs_requests s ! i)"
  shows "answer_value ''Failed to fetch sessions'' ''Unknown error'' a = Inr d \<Longrightarrow> hs_data (sessions_answered i a s) = Some d"
    "answer_value ''Failed to fetch sessions'' ''Unknown error'' a = Inl m \<Longrightarrow>
      hs_error (sessions_answered i a s) = Some m \<and> hs_data (sessions_answered i a s) = hs_data s"
  using assms by (simp_all add: sessions_answered_def Let_def)

section \<open>The achievements\<close>

record 'd achievements =
  av_summary :: "'d option"
  av_loading :: bool
  av_error :: "string option"
  av_open :: "string list"

text \<open>A wallet that only reads and has no address asks for nothing; otherwise the address or \<^verbatim>\<open>public\<close> is asked for.\<close>

definition fetchAchievements :: "string option \<Rightarrow> bool \<Rightarrow> 'd achievements \<Rightarrow> 'd achievements" where
  "fetchAchievements address readOnly s =
    (let absent = (case address of None \<Rightarrow> True | Some a \<Rightarrow> a = []) in
     if absent \<and> readOnly then s\<lparr>av_summary := None\<rparr>
     else s\<lparr>av_loading := True, av_error := None, av_open := av_open s @ [if absent then ''public'' else the address]\<rparr>)"

definition achievements_answered :: "nat \<Rightarrow> 'd answer \<Rightarrow> 'd achievements \<Rightarrow> 'd achievements" where
  "achievements_answered i a s =
    (if i < length (av_open s) then
       (let s' = s\<lparr>av_loading := False, av_open := take i (av_open s) @ drop (Suc i) (av_open s)\<rparr> in
        case answer_value ''Failed to fetch achievements'' ''Unknown error'' a of
          Inl m \<Rightarrow> s'\<lparr>av_error := Some m\<rparr>
        | Inr d \<Rightarrow> s'\<lparr>av_summary := Some d\<rparr>)
     else s)"

definition progress_percent :: "nat \<Rightarrow> nat \<Rightarrow> rat" where
  "progress_percent unlocked possible = (if possible > 0 then of_nat unlocked / of_nat possible * 100 else 0)"

lemma progress_bounds: "unlocked \<le> possible \<Longrightarrow> 0 \<le> progress_percent unlocked possible \<and> progress_percent unlocked possible \<le> 100"
  by (simp add: progress_percent_def field_simps)

text \<open>Disconnecting clears the summary but not an error shown before.\<close>

lemma disconnect_keeps_error: "av_error (fetchAchievements None True s) = av_error s"
  by (simp add: fetchAchievements_def)

section \<open>Recovery\<close>

record session_row =
  sr_sessionId :: string
  sr_dayId :: nat
  sr_status :: string

datatype recovery = Recovered session_row string | NotRecovered

record recovery_page =
  rp_result :: "recovery option"
  rp_loading :: bool
  rp_error :: "string option"

definition handleRecover :: "string \<Rightarrow> session_row list answer \<Rightarrow> recovery_page \<Rightarrow> recovery_page" where
  "handleRecover txHash a p =
    (if trim txHash = [] then p
     else case answer_value ''Failed to query session history'' ''Recovery lookup failed'' a of
       Inl m \<Rightarrow> \<lparr>rp_result = None, rp_loading = False, rp_error = Some m\<rparr>
     | Inr sessions \<Rightarrow>
         \<lparr>rp_result = Some (case List.find (\<lambda>s. occurs_in (take 12 txHash) (sr_sessionId s)) sessions of
            Some s \<Rightarrow> Recovered s (trim txHash)
          | None \<Rightarrow> NotRecovered),
          rp_loading = False, rp_error = None\<rparr>)"

lemma occurs_in_chars: "occurs_in w s \<Longrightarrow> set w \<subseteq> set s"
proof (induction s)
  case (Cons c s)
  show ?case
  proof (cases "take (length w) (c # s) = w")
    case True
    then show ?thesis using set_take_subset [of "length w" "c # s"] by simp
  next
    case False
    then show ?thesis using Cons by auto
  qed
qed simp

text \<open>
  The identifier is searched for the hash's first twelve characters as typed: the hash is trimmed
  only for the test and the display, so one pasted with a space in front is never found.
\<close>

lemma pasted_space_not_found:
  assumes "trim (CHR '' '' # txHash) \<noteq> []" "\<forall>s \<in> set sessions. CHR '' '' \<notin> set (sr_sessionId s)"
  shows "rp_result (handleRecover (CHR '' '' # txHash) (Answer True (Inr sessions)) p) = Some NotRecovered"
proof -
  have "\<not> occurs_in (take 12 (CHR '' '' # txHash)) (sr_sessionId s)" if "s \<in> set sessions" for s
    using assms(2) that occurs_in_chars [of "take 12 (CHR '' '' # txHash)" "sr_sessionId s"] by auto
  then have "List.find (\<lambda>s. occurs_in (take 12 (CHR '' '' # txHash)) (sr_sessionId s)) sessions = None"
    by (simp add: find_None_iff)
  then show ?thesis using assms(1) by (simp add: handleRecover_def answer_value_def)
qed

lemma recovered_matches:
  assumes "rp_result (handleRecover txHash a p) = Some (Recovered s h)" "rp_result p = None"
  shows "h = trim txHash \<and> occurs_in (take 12 txHash) (sr_sessionId s)"
  using assms by (auto simp: handleRecover_def find_Some_iff split: if_splits sum.splits option.splits)

section \<open>Claiming a reward\<close>

datatype reward_status = Accrued | Claimable | Claiming | PendingConfirmation | Claimed | ClaimFailed

record reward_item =
  ri_id :: string
  ri_status :: reward_status
  ri_txHash :: "string option"

definition set_reward :: "string \<Rightarrow> (reward_item \<Rightarrow> reward_item) \<Rightarrow> reward_item list \<Rightarrow> reward_item list" where
  "set_reward i f items = map (\<lambda>r. if ri_id r = i then f r else r) items"

text \<open>Up to the wait for the wallet; the result says whether the handler waits.\<close>

definition claim_starts :: "bool \<Rightarrow> string \<Rightarrow> reward_item list \<Rightarrow> bool \<times> reward_item list" where
  "claim_starts joined i items =
    (if \<not> joined then (False, set_reward i (\<lambda>r. r\<lparr>ri_status := ClaimFailed\<rparr>) items)
     else (True, set_reward i (\<lambda>r. r\<lparr>ri_status := PendingConfirmation\<rparr>) (set_reward i (\<lambda>r. r\<lparr>ri_status := Claiming\<rparr>) items)))"

text \<open>After it: whether the wallet is connected, and the random identifier shown as the hash.\<close>

definition claim_ends :: "bool \<Rightarrow> string \<Rightarrow> string \<Rightarrow> reward_item list \<Rightarrow> reward_item list" where
  "claim_ends ensured uuid i items =
    set_reward i (\<lambda>r. if ensured then r\<lparr>ri_status := Claimed, ri_txHash := Some uuid\<rparr> else r\<lparr>ri_status := ClaimFailed\<rparr>) items"

definition actionable :: "reward_item list \<Rightarrow> reward_item list" where
  "actionable items = filter (\<lambda>r. ri_status r = Claimable) items"

lemma set_reward_twice:
  "(\<And>r. ri_id (g r) = ri_id r) \<Longrightarrow> set_reward i f (set_reward i g items) = set_reward i (\<lambda>r. f (g r)) items"
  by (simp add: set_reward_def)

lemma claim_run:
  "claim_ends ensured uuid i (snd (claim_starts True i items)) =
    set_reward i (\<lambda>r. if ensured then r\<lparr>ri_status := Claimed, ri_txHash := Some uuid\<rparr> else r\<lparr>ri_status := ClaimFailed\<rparr>) items"
  by (cases ensured) (simp_all add: claim_ends_def claim_starts_def set_reward_twice)

text \<open>
  A claim with a connected wallet ends as claimed with a hash, and no transaction was built, signed
  or submitted for it: the wallet's connection is all it depends on.
\<close>

lemma claim_without_transaction:
  assumes "r \<in> set items" "ri_id r = i"
  shows "r\<lparr>ri_status := Claimed, ri_txHash := Some uuid\<rparr> \<in> set (claim_ends True uuid i (snd (claim_starts True i items)))"
  using assms by (simp add: claim_run) (simp add: set_reward_def image_iff, metis)

lemma claim_leaves_others: "filter (\<lambda>r. ri_id r \<noteq> i) (set_reward i f items) = filter (\<lambda>r. ri_id r \<noteq> i) items"
  if "\<And>r. ri_id (f r) = ri_id r"
  using that by (induction items) (auto simp: set_reward_def)

text \<open>A claim that failed cannot be tried again: the button belongs to claimable rewards.\<close>

lemma failed_claim_not_actionable:
  "filter (\<lambda>r. ri_id r = i) (actionable (snd (claim_starts False i items))) = []"
  by (induction items) (simp_all add: actionable_def claim_starts_def set_reward_def)

section \<open>The definition of a word\<close>

datatype def_status = DefIdle | DefLoading | DefReady | DefError

record definition_tip =
  dt_open :: bool
  dt_status :: def_status
  dt_definition :: "string option"
  dt_cache :: "(string, string) jmap"
  dt_requests :: "string list"

text \<open>A cached definition is shown at once; otherwise it is requested for the word.\<close>

definition loadDefinition :: "string \<Rightarrow> definition_tip \<Rightarrow> definition_tip" where
  "loadDefinition word t =
    (case jm_get word (dt_cache t) of
       Some d \<Rightarrow> t\<lparr>dt_definition := Some d, dt_status := DefReady\<rparr>
     | None \<Rightarrow> t\<lparr>dt_status := DefLoading, dt_requests := dt_requests t @ [word]\<rparr>)"

definition handleOpen :: "string \<Rightarrow> definition_tip \<Rightarrow> definition_tip" where
  "handleOpen word t = (let t' = t\<lparr>dt_open := True\<rparr> in if dt_status t = DefIdle then loadDefinition word t' else t')"

definition handleClose :: "definition_tip \<Rightarrow> definition_tip" where
  "handleClose t = t\<lparr>dt_open := False\<rparr>"

text \<open>The answer holds the definition, which may be missing or empty.\<close>

definition definition_answered :: "string \<Rightarrow> string option answer \<Rightarrow> definition_tip \<Rightarrow> definition_tip" where
  "definition_answered word a t =
    (case answer_value [] [] a of
       Inr (Some d) \<Rightarrow> if d = [] then t\<lparr>dt_status := DefError\<rparr>
          else t\<lparr>dt_definition := Some d, dt_status := DefReady, dt_cache := jm_set word d (dt_cache t)\<rparr>
     | _ \<Rightarrow> t\<lparr>dt_status := DefError\<rparr>)"

definition shown_definition :: "definition_tip \<Rightarrow> string option" where
  "shown_definition t = (if dt_open t \<and> dt_status t = DefReady then dt_definition t else None)"

text \<open>A definition fetched once is read from the cache by the next tip for the word.\<close>

lemma definition_cached:
  assumes "a = Answer True (Inr (Some d))" "d \<noteq> []" "dt_status t2 = DefIdle"
    and "dt_cache t2 = dt_cache (definition_answered word a t)"
  shows "shown_definition (handleOpen word t2) = Some d \<and> dt_requests (handleOpen word t2) = dt_requests t2"
  using assms by (simp add: definition_answered_def answer_value_def handleOpen_def loadDefinition_def shown_definition_def)

text \<open>Only an idle tip loads: given another word it goes on showing the definition it has, and an error stays.\<close>

lemma other_word_not_loaded:
  assumes "dt_status t \<noteq> DefIdle"
  shows "handleOpen word t = t\<lparr>dt_open := True\<rparr>"
  using assms by (simp add: handleOpen_def)

section \<open>The player's streak\<close>

record player_streak =
  ps_streak :: "jsnum option"
  ps_loading :: bool
  ps_error :: "string option"
  ps_live :: "nat option"
  ps_started :: nat

text \<open>
  The effect on a new address: the request under way is cancelled; without an address the state is
  cleared, with one the old streak stays while the new one loads.  Only the live request counts.
\<close>

definition streak_address :: "string option \<Rightarrow> player_streak \<Rightarrow> player_streak" where
  "streak_address address s =
    (if (case address of None \<Rightarrow> True | Some a \<Rightarrow> a = [])
     then s\<lparr>ps_streak := None, ps_loading := False, ps_error := None, ps_live := None\<rparr>
     else s\<lparr>ps_loading := True, ps_error := None, ps_live := Some (ps_started s), ps_started := ps_started s + 1\<rparr>)"

definition streak_answered :: "nat \<Rightarrow> (string option + jsnum) \<Rightarrow> player_streak \<Rightarrow> player_streak" where
  "streak_answered i a s =
    (if ps_live s \<noteq> Some i then s
     else case a of
       Inr current \<Rightarrow> s\<lparr>ps_streak := Some (if num_isFinite current then current else num 0), ps_loading := False, ps_error := None, ps_live := None\<rparr>
     | Inl m \<Rightarrow> s\<lparr>ps_streak := None, ps_loading := False,
         ps_error := Some (case m of Some t \<Rightarrow> t | None \<Rightarrow> ''Failed to load streak''), ps_live := None\<rparr>)"

lemma late_streak_dropped: "ps_live s \<noteq> Some i \<Longrightarrow> streak_answered i a s = s"
  by (simp add: streak_answered_def)

lemma streak_is_finite:
  "(case ps_streak s of Some n \<Rightarrow> num_isFinite n | None \<Rightarrow> True) \<Longrightarrow>
    (case ps_streak (streak_answered i a s) of Some n \<Rightarrow> num_isFinite n | None \<Rightarrow> True)"
  by (simp add: streak_answered_def split: sum.split)

section \<open>The install banner\<close>

record pwa_banner =
  pw_prompt :: bool
  pw_visible :: bool
  pw_installing :: bool
  pw_stored :: "string option"

definition DISMISSAL_WINDOW :: rat where
  "DISMISSAL_WINDOW = 7 * 24 * 60 * 60 * 1000"

text \<open>\<^verbatim>\<open>readable\<close> says whether the storage can be used.\<close>

definition isPwaPromptDismissed :: "bool \<Rightarrow> rat \<Rightarrow> string option \<Rightarrow> bool" where
  "isPwaPromptDismissed readable now stored =
    (case stored of
       None \<Rightarrow> False
     | Some raw \<Rightarrow> readable \<and> raw \<noteq> [] \<and>
         (case js_parseInt raw of Fin dismissedAt \<Rightarrow> now - dismissedAt < DISMISSAL_WINDOW | _ \<Rightarrow> False))"

text \<open>The events reach the banner when it was not dismissed as the page opened.\<close>

definition before_install :: "pwa_banner \<Rightarrow> pwa_banner" where
  "before_install b = b\<lparr>pw_prompt := True, pw_visible := True\<rparr>"

definition app_installed :: "pwa_banner \<Rightarrow> pwa_banner" where
  "app_installed b = b\<lparr>pw_visible := False, pw_prompt := False\<rparr>"

definition dismiss_banner :: "bool \<Rightarrow> nat \<Rightarrow> pwa_banner \<Rightarrow> pwa_banner" where
  "dismiss_banner writable now b =
     b\<lparr>pw_stored := (if writable then Some (show_nat now) else pw_stored b), pw_visible := False, pw_prompt := False\<rparr>"

text \<open>The dialogue: it throws, is accepted or is dismissed.\<close>

datatype install_choice = InstallThrows | InstallAccepted | InstallDismissed

definition handleInstall :: "bool \<Rightarrow> nat \<Rightarrow> install_choice \<Rightarrow> pwa_banner \<Rightarrow> pwa_banner" where
  "handleInstall writable now choice b =
    (if \<not> pw_prompt b then b
     else case choice of
       InstallThrows \<Rightarrow> b\<lparr>pw_installing := False\<rparr>
     | InstallAccepted \<Rightarrow> b\<lparr>pw_visible := False, pw_prompt := False, pw_installing := False\<rparr>
     | InstallDismissed \<Rightarrow> (dismiss_banner writable now b)\<lparr>pw_prompt := False, pw_installing := False\<rparr>)"

lemma parse_show_nat: "js_parseInt (show_nat n) = Fin (of_nat n)"
proof -
  obtain c s where cs: "show_nat n = c # s" using show_nat_nonempty [of n] by (cases "show_nat n") auto
  have d: "list_all is_digit (show_nat n)" by (rule show_nat_digits)
  then have "takeWhile is_digit (show_nat n) = show_nat n" by (simp add: list_all_iff)
  moreover have "\<not> js_space c" "c \<noteq> CHR ''-''" "c \<noteq> CHR ''+''"
    using d cs digit_not_space [of c] digit_not_minus [of c] by (auto simp: is_digit_def char_in_def)
  ultimately show ?thesis using cs read_show_nat [of n] by (simp add: js_parseInt_def Let_def)
qed

text \<open>A dismissed banner stays away for seven days and comes back after them.\<close>

lemma dismissal_lasts:
  "isPwaPromptDismissed True later (pw_stored (dismiss_banner True now b)) \<longleftrightarrow> later < of_nat now + DISMISSAL_WINDOW"
  by (auto simp: isPwaPromptDismissed_def dismiss_banner_def parse_show_nat show_nat_nonempty)

lemma visible_has_prompt:
  "(pw_visible b \<longrightarrow> pw_prompt b) \<Longrightarrow>
    (pw_visible (handleInstall w n c b) \<longrightarrow> pw_prompt (handleInstall w n c b))"
  by (cases c; cases "pw_prompt b") (simp_all add: handleInstall_def dismiss_banner_def)

end
