(* ===== verification/Rpc_Proxy.thy ===== *)
theory Rpc_Proxy
  imports Js_Values
begin

text \<open>
  The development proxy in front of an RPC node (\<^verbatim>\<open>scripts/rpc-proxy.js\<close>): a cache of the answers
  to calls that only read, with an expiry and a bound on its size, and the handler of a request.
  The clock and the node's answer are arguments; the node may fail to answer.
\<close>

record cache_entry =
  ce_value :: js
  ce_expiresAt :: int

record proxy =
  px_cache :: "(string, cache_entry) jmap"
  px_hits :: nat
  px_misses :: nat

definition cacheKey :: "host \<Rightarrow> string \<Rightarrow> js \<Rightarrow> string" where
  "cacheKey h verb params = verb @ '':'' @ (if params = Undef then ''undefined'' else stringify h params)"

definition cacheGet :: "int \<Rightarrow> string \<Rightarrow> proxy \<Rightarrow> js \<times> proxy" where
  "cacheGet now key s =
    (case jm_get key (px_cache s) of
       None \<Rightarrow> (Null, s)
     | Some entry \<Rightarrow>
         if now > ce_expiresAt entry then (Null, s\<lparr>px_cache := jm_delete key (px_cache s)\<rparr>)
         else (ce_value entry, s))"

text \<open>Beyond 500 entries the first one goes, unless its key is empty.\<close>

definition cacheSet :: "int \<Rightarrow> int \<Rightarrow> string \<Rightarrow> js \<Rightarrow> proxy \<Rightarrow> proxy" where
  "cacheSet ttl now key value s =
    (let c = jm_set key \<lparr>ce_value = value, ce_expiresAt = now + ttl\<rparr> (px_cache s) in
     s\<lparr>px_cache := (if length c > 500 \<and> fst (hd c) \<noteq> [] then jm_delete (fst (hd c)) c else c)\<rparr>)"

definition CACHEABLE_METHODS :: "string list" where
  "CACHEABLE_METHODS = [''getLedgerEntry'', ''getTransaction'', ''getLedgerEntries'', ''getNetwork'', ''getLatestLedger'', ''simulateTransaction'']"

definition NONCE_METHODS :: "string list" where
  "NONCE_METHODS = [''sendTransaction'', ''sendTransactionSubmission'']"

datatype node_answer = NoAnswer | Upstream nat js

datatype cache_mark = Hit | Miss | NoMark

text \<open>What the client gets: a response, or none when a promise of the handler is rejected.\<close>

datatype proxy_reply = Reply nat js cache_mark | NoReply

record proxy_request =
  hr_method :: string
  hr_url :: string
  hr_body :: "js option"

definition error_body :: "string \<Rightarrow> js" where
  "error_body m = Obj [(''error'', Str m)]"

definition forwarded :: "node_answer \<Rightarrow> cache_mark \<Rightarrow> proxy_reply" where
  "forwarded u mark = (case u of NoAnswer \<Rightarrow> NoReply | Upstream st body \<Rightarrow> Reply st body mark)"

text \<open>
  A call of a method.  The lookup happens at \<^verbatim>\<open>now\<close>, the store at \<^verbatim>\<open>later\<close>; the second result is
  whether the node was asked.
\<close>

definition rpc_call :: "host \<Rightarrow> int \<Rightarrow> int \<Rightarrow> int \<Rightarrow> node_answer \<Rightarrow> string \<Rightarrow> js \<Rightarrow> proxy \<Rightarrow> (proxy_reply \<times> bool) \<times> proxy" where
  "rpc_call h ttl now later node verb params s =
    (if verb \<in> set NONCE_METHODS then ((forwarded node NoMark, True), s)
     else if verb \<in> set CACHEABLE_METHODS then
       (case cacheGet now (cacheKey h verb params) s of
          (cached, s1) \<Rightarrow>
            if truthy cached then ((Reply 200 cached Hit, False), s1\<lparr>px_hits := px_hits s1 + 1\<rparr>)
            else let s2 = s1\<lparr>px_misses := px_misses s1 + 1\<rparr> in
              (case node of
                 NoAnswer \<Rightarrow> ((NoReply, True), s2)
               | Upstream st body \<Rightarrow>
                   ((Reply st body Miss, True), if st = 200 then cacheSet ttl later (cacheKey h verb params) body s2 else s2)))
     else ((forwarded node NoMark, True), s))"

definition health_body :: "string \<Rightarrow> int \<Rightarrow> proxy \<Rightarrow> js" where
  "health_body upstream_url uptime s = Obj [(''status'', Str ''ok''), (''upstream'', Str upstream_url),
     (''cacheSize'', Num (num (int (length (px_cache s))))), (''cacheHits'', Num (num (int (px_hits s)))),
     (''cacheMisses'', Num (num (int (px_misses s)))), (''uptimeSeconds'', Num (num uptime))]"

text \<open>
  A body of \<^verbatim>\<open>null\<close> has no properties to read, so the handler fails without an answer.  A method
  that is no string is in neither set; it is truthy or missing.
\<close>

definition handle_request :: "host \<Rightarrow> string \<Rightarrow> int \<Rightarrow> int \<Rightarrow> int \<Rightarrow> int \<Rightarrow> node_answer \<Rightarrow> proxy_request \<Rightarrow> proxy \<Rightarrow> (proxy_reply \<times> bool) \<times> proxy" where
  "handle_request h upstream_url uptime ttl now later node req s =
    (if hr_method req = ''OPTIONS'' then ((Reply 204 Undef NoMark, False), s)
     else if hr_method req \<noteq> ''POST'' then ((Reply 405 (error_body ''Method not allowed'') NoMark, False), s)
     else case hr_body req of
       None \<Rightarrow> ((Reply 400 (error_body ''Invalid JSON'') NoMark, False), s)
     | Some Null \<Rightarrow> ((NoReply, False), s)
     | Some body \<Rightarrow>
         (let r = (case body of Obj r \<Rightarrow> r | _ \<Rightarrow> []); verb = get_prop r ''method'' in
          if hr_url req = ''/health'' then ((Reply 200 (health_body upstream_url uptime s) NoMark, False), s)
          else if \<not> truthy verb then ((Reply 400 (error_body ''Missing method'') NoMark, False), s)
          else case verb of
            Str m \<Rightarrow> rpc_call h ttl now later node m (get_prop r ''params'') s
          | _ \<Rightarrow> ((forwarded node NoMark, True), s)))"

section \<open>The bound on the cache\<close>

definition proxy_ok :: "proxy \<Rightarrow> bool" where
  "proxy_ok s \<longleftrightarrow> jm_wf (px_cache s) \<and> length (px_cache s) \<le> 500 \<and> [] \<notin> fst ` set (px_cache s)"

lemma length_jm_set_keys: "length (jm_set k v m) = (if k \<in> fst ` set m then length m else Suc (length m))"
  by (induction k v m rule: jm_set.induct) auto

lemma length_jm_delete_first:
  assumes "jm_wf m" "m \<noteq> []"
  shows "length (jm_delete (fst (hd m)) m) = length m - 1"
proof -
  obtain k v r where m: "m = (k, v) # r" using assms(2) by (cases m) auto
  then have "k \<notin> fst ` set r" using assms(1) by (simp add: jm_wf_def)
  then have "filter (\<lambda>(k', uu). k' \<noteq> k) r = r" by (force simp: filter_id_conv)
  then show ?thesis by (simp add: m jm_delete_def case_prod_beta)
qed

lemma length_jm_delete: "length (jm_delete k m) \<le> length m"
  by (simp add: jm_delete_def)

lemma cacheGet_ok: "proxy_ok s \<Longrightarrow> proxy_ok (snd (cacheGet now key s))"
  using length_jm_delete [of key "px_cache s"]
  by (auto simp: cacheGet_def proxy_ok_def set_jm_delete split: option.split)

lemma cacheSet_ok:
  assumes "proxy_ok s" "key \<noteq> []"
  shows "proxy_ok (cacheSet ttl now key value s)"
proof -
  define c where "c = jm_set key \<lparr>ce_value = value, ce_expiresAt = now + ttl\<rparr> (px_cache s)"
  have c: "jm_wf c" "[] \<notin> fst ` set c" "length c \<le> 501"
    using assms by (auto simp: c_def proxy_ok_def length_jm_set_keys)
  show ?thesis
  proof (cases "length c > 500")
    case False
    then show ?thesis using c by (simp add: cacheSet_def proxy_ok_def Let_def flip: c_def)
  next
    case True
    then have ne: "c \<noteq> []" by auto
    then have "fst (hd c) \<noteq> []" using c(2) by (metis hd_in_set imageI)
    then show ?thesis
      using True c length_jm_delete_first [OF c(1) ne]
      by (auto simp: cacheSet_def proxy_ok_def Let_def set_jm_delete simp flip: c_def)
  qed
qed

lemma cacheKey_nonempty: "cacheKey h verb params \<noteq> []"
  by (simp add: cacheKey_def)

lemma proxy_ok_counters [simp]:
  "proxy_ok (s\<lparr>px_hits := n\<rparr>) = proxy_ok s" "proxy_ok (s\<lparr>px_misses := n\<rparr>) = proxy_ok s"
  by (simp_all add: proxy_ok_def)

lemma rpc_call_ok: "proxy_ok s \<Longrightarrow> proxy_ok (snd (rpc_call h ttl now later node verb params s))"
  using cacheGet_ok [of s now "cacheKey h verb params"]
  by (auto simp: rpc_call_def Let_def cacheSet_ok cacheKey_nonempty split: prod.split node_answer.split)

lemma handle_request_ok: "proxy_ok s \<Longrightarrow> proxy_ok (snd (handle_request h u up ttl now later node req s))"
  by (auto simp: handle_request_def Let_def rpc_call_ok split: option.split js.split)

section \<open>What a client can rely on\<close>

text \<open>A sending call is always forwarded and never stored.\<close>

lemma sending_forwarded:
  assumes "verb \<in> set NONCE_METHODS"
  shows "rpc_call h ttl now later node verb params s = ((forwarded node NoMark, True), s)"
  using assms by (simp add: rpc_call_def)

text \<open>An answer stored is served until it expires, and the node is asked again after that.\<close>

lemma stored_answer_served:
  assumes "verb \<in> set CACHEABLE_METHODS" "jm_get (cacheKey h verb params) (px_cache s) = Some e" "truthy (ce_value e)"
  shows "now \<le> ce_expiresAt e \<Longrightarrow> fst (rpc_call h ttl now later node verb params s) = (Reply 200 (ce_value e) Hit, False)"
    "now > ce_expiresAt e \<Longrightarrow> snd (fst (rpc_call h ttl now later node verb params s))"
proof -
  have "verb \<notin> set NONCE_METHODS" using assms(1) by (auto simp: CACHEABLE_METHODS_def NONCE_METHODS_def)
  then show "now \<le> ce_expiresAt e \<Longrightarrow> fst (rpc_call h ttl now later node verb params s) = (Reply 200 (ce_value e) Hit, False)"
    "now > ce_expiresAt e \<Longrightarrow> snd (fst (rpc_call h ttl now later node verb params s))"
    using assms by (simp_all add: rpc_call_def cacheGet_def Let_def split: node_answer.split)
qed

text \<open>
  The key leaves out the identifier of the request, and the whole body is stored: the second of two
  clients that make the same call gets a response with the first one's identifier.
\<close>

lemma answer_carries_other_id:
  assumes "verb \<in> set CACHEABLE_METHODS" "px_cache s = []" "0 \<le> ttl"
    and "answer = Obj [(''id'', Num (num 1)), (''result'', v)]"
  shows "\<exists>s1. rpc_call h ttl now now (Upstream 200 answer) verb params s = ((Reply 200 answer Miss, True), s1) \<and>
    fst (rpc_call h ttl now now node2 verb params s1) = (Reply 200 answer Hit, False)"
proof -
  let ?s1 = "cacheSet ttl now (cacheKey h verb params) answer (s\<lparr>px_misses := px_misses s + 1\<rparr>)"
  have n: "verb \<notin> set NONCE_METHODS" using assms(1) by (auto simp: CACHEABLE_METHODS_def NONCE_METHODS_def)
  have "jm_get (cacheKey h verb params) (px_cache ?s1) = Some \<lparr>ce_value = answer, ce_expiresAt = now + ttl\<rparr>"
    using assms(2) by (simp add: cacheSet_def jm_get_def)
  then have "fst (rpc_call h ttl now now node2 verb params ?s1) = (Reply 200 answer Hit, False)"
    using stored_answer_served(1) [OF assms(1), of h params ?s1] assms(3,4) by simp
  moreover have "rpc_call h ttl now now (Upstream 200 answer) verb params s = ((Reply 200 answer Miss, True), ?s1)"
    using assms n by (simp add: rpc_call_def cacheGet_def)
  ultimately show ?thesis by blast
qed

text \<open>When the node does not answer, neither does the proxy; and the health page needs a posted JSON body.\<close>

lemma silent_node_silent_proxy:
  assumes "verb \<in> set NONCE_METHODS"
  shows "fst (rpc_call h ttl now later NoAnswer verb params s) = (NoReply, True)"
  using assms by (simp add: rpc_call_def forwarded_def)

lemma health_needs_post:
  assumes "hr_method req = ''GET''"
  shows "fst (handle_request h u up ttl now later node req s) = (Reply 405 (error_body ''Method not allowed'') NoMark, False)"
  using assms by (simp add: handle_request_def)

end
