(* ===== verification/Issue_Triage.thy ===== *)
theory Issue_Triage
  imports Js_Strings Complex_Main
begin

text \<open>
  The scripts that compare proposed issues with those of the tracker
  (\<^verbatim>\<open>scripts/wave-issue-dedupe-checker.js\<close>, \<^verbatim>\<open>scripts/open-issue-overlap-detector.js\<close>) and the one that
  suggests reviewers (\<^verbatim>\<open>scripts/reviewer-load-balancer.js\<close>).  Scores are real numbers, with \<^verbatim>\<open>None\<close> for
  \<^verbatim>\<open>NaN\<close>; the rounding of double precision is not modelled.  Requests, command line and printing are
  left out.
\<close>

section \<open>Tokens and similarity\<close>

text \<open>
  Anything but letters, digits and white space is a space, the text is split at white space, and
  tokens of at most two characters are dropped, the empty ones among them.
\<close>

definition token_char :: "char \<Rightarrow> char" where
  "token_char c = (if char_in (CHR ''a'') (CHR ''z'') c \<or> is_digit c then c else CHR '' '')"

definition tokenize :: "string \<Rightarrow> string list" where
  "tokenize txt = filter (\<lambda>t. length t > 2) (split_on (CHR '' '') (map token_char (toLowerCase txt)))"

definition frequency :: "string list \<Rightarrow> string \<Rightarrow> nat" where
  "frequency tokens t = length (filter (\<lambda>u. u = t) tokens)"

text \<open>
  The counts live in a plain object, whose inherited property \<^verbatim>\<open>constructor\<close> is a function: a token
  of that name makes its count, and so every sum, \<^verbatim>\<open>NaN\<close>.
\<close>

definition dot_product :: "string set \<Rightarrow> (string \<Rightarrow> nat) \<Rightarrow> (string \<Rightarrow> nat) \<Rightarrow> real" where
  "dot_product A f g = (\<Sum>t \<in> A. real (f t) * real (g t))"

definition cosineSimilarity :: "string \<Rightarrow> string \<Rightarrow> real option" where
  "cosineSimilarity textA textB =
    (let tokensA = tokenize textA; tokensB = tokenize textB in
     if tokensA = [] \<or> tokensB = [] then Some 0
     else let allTokens = set tokensA \<union> set tokensB; vecA = frequency tokensA; vecB = frequency tokensB in
       if ''constructor'' \<in> allTokens then None
       else let magnitude = sqrt (dot_product allTokens vecA vecA) * sqrt (dot_product allTokens vecB vecB) in
         Some (if magnitude = 0 then 0 else dot_product allTokens vecA vecB / magnitude))"

definition titleOverlap :: "string \<Rightarrow> string \<Rightarrow> real" where
  "titleOverlap titleA titleB =
    (let tokensA = set (tokenize titleA); tokensB = set (tokenize titleB) in
     if tokensA = {} \<or> tokensB = {} then 0
     else 2 * real (card (tokensA \<inter> tokensB)) / real (card tokensA + card tokensB))"

definition labelOverlap :: "string list \<Rightarrow> string list \<Rightarrow> real" where
  "labelOverlap labelsA labelsB =
    (if labelsA = [] \<or> labelsB = [] then 0
     else let setA = toLowerCase ` set labelsA; setB = toLowerCase ` set labelsB in
       real (card (setA \<inter> setB)) / real (card (setA \<union> setB)))"

section \<open>Scores\<close>

record issue =
  is_number :: nat
  is_title :: string
  is_body :: string
  is_labels :: "string list"
  is_closed :: bool

definition has_prefix :: "string \<Rightarrow> string \<Rightarrow> bool" where
  "has_prefix p s = (take (length p) s = p)"

definition matchByTrack :: "issue \<Rightarrow> issue \<Rightarrow> bool" where
  "matchByTrack proposed existing =
    (let proposedTracks = filter (has_prefix ''track:'') (is_labels proposed);
         existingTracks = filter (has_prefix ''track:'') (is_labels existing) in
     list_ex (\<lambda>t. t \<in> set existingTracks) proposedTracks)"

definition matchByDifficulty :: "issue \<Rightarrow> issue \<Rightarrow> bool" where
  "matchByDifficulty proposed existing =
    (case (List.find (has_prefix ''difficulty:'') (is_labels proposed), List.find (has_prefix ''difficulty:'') (is_labels existing)) of
       (Some p, Some e) \<Rightarrow> p = e
     | _ \<Rightarrow> False)"

text \<open>\<^verbatim>\<open>Math.round(x * 100) / 100\<close>.\<close>

definition round2 :: "real \<Rightarrow> real" where
  "round2 x = of_int \<lfloor>x * 100 + 1 / 2\<rfloor> / 100"

record dedupe_score =
  ds_title :: real
  ds_body :: "real option"
  ds_labels :: real
  ds_track :: real
  ds_difficulty :: real
  ds_combined :: "real option"

definition computeDedupeScore :: "issue \<Rightarrow> issue \<Rightarrow> dedupe_score" where
  "computeDedupeScore proposed existing =
    (let titleSim = titleOverlap (is_title proposed) (is_title existing);
         bodySim = cosineSimilarity (is_body proposed) (is_body existing);
         labelSim = labelOverlap (is_labels proposed) (is_labels existing);
         trackMatch = (if matchByTrack proposed existing then 15 / 100 else 0);
         diffMatch = (if matchByDifficulty proposed existing then 1 / 10 else 0) in
     \<lparr>ds_title = round2 titleSim, ds_body = map_option round2 bodySim, ds_labels = round2 labelSim,
      ds_track = trackMatch, ds_difficulty = diffMatch,
      ds_combined = map_option (\<lambda>b. round2 (min 1
        (titleSim * (35 / 100) + b * (25 / 100) + labelSim * (15 / 100) + trackMatch + diffMatch))) bodySim\<rparr>)"

definition overlap_combined :: "issue \<Rightarrow> issue \<Rightarrow> real option" where
  "overlap_combined proposed existing =
    map_option (\<lambda>b. round2 (titleOverlap (is_title proposed) (is_title existing) * (4 / 10) + b * (35 / 100) +
        labelOverlap (is_labels proposed) (is_labels existing) * (25 / 100)))
      (cosineSimilarity (is_body proposed) (is_body existing))"

section \<open>Reports\<close>

definition at_least :: "real option \<Rightarrow> real \<Rightarrow> bool" where
  "at_least x t = (case x of None \<Rightarrow> False | Some v \<Rightarrow> v \<ge> t)"

definition dedupe_matches :: "real \<Rightarrow> issue \<Rightarrow> issue list \<Rightarrow> issue list \<Rightarrow> (issue \<times> real) list" where
  "dedupe_matches low proposed openIssues closedIssues =
     sort_by (\<lambda>a b. snd b > snd a)
       (map (\<lambda>i. (i, the (ds_combined (computeDedupeScore proposed i))))
         (filter (\<lambda>i. at_least (ds_combined (computeDedupeScore proposed i)) low) (openIssues @ closedIssues)))"

text \<open>The matches of high and of low confidence.\<close>

definition analyseDedupe :: "real \<Rightarrow> real \<Rightarrow> issue \<Rightarrow> issue list \<Rightarrow> issue list \<Rightarrow> (issue \<times> real) list \<times> (issue \<times> real) list" where
  "analyseDedupe high low proposed openIssues closedIssues =
    (let matches = dedupe_matches low proposed openIssues closedIssues in
     (filter (\<lambda>m. snd m \<ge> high) matches, filter (\<lambda>m. \<not> snd m \<ge> high) matches))"

datatype recommendation = NoOverlap | LowOverlap | MediumOverlap | HighOverlap

definition analyseOverlap :: "real \<Rightarrow> issue \<Rightarrow> issue list \<Rightarrow> (issue \<times> real) list \<times> recommendation" where
  "analyseOverlap threshold proposed existingIssues =
    (let overlaps = sort_by (\<lambda>a b. snd b > snd a)
           (map (\<lambda>i. (i, the (overlap_combined proposed i)))
             (filter (\<lambda>i. at_least (overlap_combined proposed i) threshold) existingIssues)) in
     (overlaps,
      if overlaps = [] then NoOverlap
      else if list_ex (\<lambda>o'. snd o' \<ge> 7 / 10) overlaps then HighOverlap
      else if list_ex (\<lambda>o'. snd o' \<ge> 5 / 10) overlaps then MediumOverlap
      else LowOverlap))"

text \<open>Whether a report has findings, which is what the exit status tells.\<close>

definition dedupe_findings :: "((issue \<times> real) list \<times> (issue \<times> real) list) list \<Rightarrow> bool" where
  "dedupe_findings results = (sum_list (map (\<lambda>r. length (fst r)) results) > 0 \<or> sum_list (map (\<lambda>r. length (snd r)) results) > 0)"

definition overlap_findings :: "((issue \<times> real) list \<times> recommendation) list \<Rightarrow> bool" where
  "overlap_findings results = (filter (\<lambda>r. length (fst r) > 0) results \<noteq> [])"

section \<open>Similarity is a measure between 0 and 1\<close>

lemma titleOverlap_sym: "titleOverlap a b = titleOverlap b a"
  by (simp add: titleOverlap_def Let_def Int_commute add.commute disj_commute)

lemma titleOverlap_bounds: "0 \<le> titleOverlap a b \<and> titleOverlap a b \<le> 1"
proof (cases "tokenize a = [] \<or> tokenize b = []")
  case False
  let ?A = "set (tokenize a)" and ?B = "set (tokenize b)"
  have "card (?A \<inter> ?B) \<le> card ?A" "card (?A \<inter> ?B) \<le> card ?B" by (simp_all add: card_mono)
  then have "2 * real (card (?A \<inter> ?B)) \<le> real (card ?A + card ?B)" by linarith
  then show ?thesis using False by (simp add: titleOverlap_def Let_def divide_le_eq)
qed (auto simp: titleOverlap_def Let_def)

lemma labelOverlap_bounds: "0 \<le> labelOverlap a b \<and> labelOverlap a b \<le> 1"
proof (cases "a = [] \<or> b = []")
  case False
  let ?A = "toLowerCase ` set a" and ?B = "toLowerCase ` set b"
  have "real (card (?A \<inter> ?B)) \<le> real (card (?A \<union> ?B))" by (simp add: card_mono le_supI1 Int_subset_iff)
  then show ?thesis using False by (simp add: labelOverlap_def Let_def divide_le_eq)
qed (auto simp: labelOverlap_def)

text \<open>The inequality of Cauchy and Schwarz on the two count vectors.\<close>

lemma dot_nonneg: "0 \<le> dot_product A f g"
  by (simp add: dot_product_def sum_nonneg)

lemma dot_square_le: "(dot_product A f g)\<^sup>2 \<le> dot_product A f f * dot_product A g g"
proof -
  let ?P = "\<lambda>s t. (real (f s) * real (f s)) * (real (g t) * real (g t))"
  let ?R = "\<lambda>s t. (real (f s) * real (g s)) * (real (f t) * real (g t))"
  have "(real (f s) * real (g t) - real (f t) * real (g s))\<^sup>2 = ?P s t + ?P t s - 2 * ?R s t" for s t
    by (simp add: power2_eq_square algebra_simps)
  then have "0 \<le> (\<Sum>s \<in> A. \<Sum>t \<in> A. ?P s t + ?P t s - 2 * ?R s t)"
    by (metis (no_types, lifting) sum_nonneg zero_le_power2)
  also have "\<dots> = (\<Sum>s \<in> A. \<Sum>t \<in> A. ?P s t) + (\<Sum>s \<in> A. \<Sum>t \<in> A. ?P t s) - 2 * (\<Sum>s \<in> A. \<Sum>t \<in> A. ?R s t)"
    by (simp only: sum.distrib sum_subtractf sum_distrib_left)
  also have "(\<Sum>s \<in> A. \<Sum>t \<in> A. ?P t s) = (\<Sum>s \<in> A. \<Sum>t \<in> A. ?P s t)" by (rule sum.swap)
  also have "(\<Sum>s \<in> A. \<Sum>t \<in> A. ?P s t) = dot_product A f f * dot_product A g g" by (simp only: dot_product_def sum_product)
  also have "(\<Sum>s \<in> A. \<Sum>t \<in> A. ?R s t) = (dot_product A f g)\<^sup>2" by (simp only: dot_product_def sum_product power2_eq_square)
  finally show ?thesis by simp
qed

lemma cosine_bounds: "cosineSimilarity a b = Some c \<Longrightarrow> 0 \<le> c \<and> c \<le> 1"
proof -
  let ?A = "set (tokenize a) \<union> set (tokenize b)"
  let ?f = "frequency (tokenize a)" and ?g = "frequency (tokenize b)"
  have "dot_product ?A ?f ?g \<le> sqrt (dot_product ?A ?f ?f * dot_product ?A ?g ?g)"
    using dot_square_le by (rule real_le_rsqrt)
  then have le: "dot_product ?A ?f ?g \<le> sqrt (dot_product ?A ?f ?f) * sqrt (dot_product ?A ?g ?g)" by (simp add: real_sqrt_mult)
  have "0 \<le> sqrt (dot_product ?A ?f ?f) * sqrt (dot_product ?A ?g ?g)" by (simp add: dot_nonneg)
  then have "dot_product ?A ?f ?g / (sqrt (dot_product ?A ?f ?f) * sqrt (dot_product ?A ?g ?g)) \<le> 1"
    using le by (metis divide_le_eq_1 divide_eq_0_iff less_le zero_le_one)
  then show "cosineSimilarity a b = Some c \<Longrightarrow> 0 \<le> c \<and> c \<le> 1"
    by (auto simp: cosineSimilarity_def Let_def dot_nonneg split: if_splits)
qed

lemma cosine_same:
  assumes "tokenize a \<noteq> []" "''constructor'' \<notin> set (tokenize a)"
  shows "cosineSimilarity a a = Some 1"
proof -
  let ?A = "set (tokenize a)" and ?f = "frequency (tokenize a)"
  obtain t where t: "t \<in> ?A" using assms(1) by (cases "tokenize a") auto
  then have "0 < real (?f t) * real (?f t)" by (auto simp: frequency_def filter_empty_conv)
  then have "0 < dot_product ?A ?f ?f"
    unfolding dot_product_def using t by (intro sum_pos2 [of _ t]) simp_all
  then show ?thesis using assms by (simp add: cosineSimilarity_def Let_def)
qed

section \<open>Scores of the dedupe checker\<close>

lemma round2_mono: "x \<le> y \<Longrightarrow> round2 x \<le> round2 y"
  by (simp add: round2_def divide_right_mono floor_mono)

lemma round2_0 [simp]: "round2 0 = 0" and round2_1 [simp]: "round2 1 = 1"
  by (simp_all add: round2_def)

text \<open>Every score is between 0 and 1.\<close>

lemma dedupe_score_bounds:
  assumes "ds_combined (computeDedupeScore p e) = Some c"
  shows "0 \<le> c \<and> c \<le> 1"
proof -
  obtain b where b: "cosineSimilarity (is_body p) (is_body e) = Some b"
    using assms by (auto simp: computeDedupeScore_def Let_def)
  let ?x = "titleOverlap (is_title p) (is_title e) * (35 / 100) + b * (25 / 100) +
    labelOverlap (is_labels p) (is_labels e) * (15 / 100) + (if matchByTrack p e then 15 / 100 else 0) + (if matchByDifficulty p e then 1 / 10 else 0)"
  have "c = round2 (min 1 ?x)" using assms b by (simp add: computeDedupeScore_def Let_def)
  moreover have "0 \<le> ?x"
    using titleOverlap_bounds [of "is_title p" "is_title e"] cosine_bounds [OF b] labelOverlap_bounds [of "is_labels p" "is_labels e"] by simp
  ultimately show ?thesis
    using round2_mono [of 0 "min 1 ?x"] round2_mono [of "min 1 ?x" 1] by simp
qed

text \<open>A body with the word \<^verbatim>\<open>constructor\<close> has no score, so a verbatim copy of such an issue is not reported at all.\<close>

lemma constructor_never_matches:
  assumes "''constructor'' \<in> set (tokenize (is_body p))"
  shows "dedupe_matches low p [p] [] = []" "fst (analyseOverlap threshold p [p]) = []"
proof -
  have "tokenize (is_body p) \<noteq> []" using assms by auto
  then have "cosineSimilarity (is_body p) (is_body p) = None" using assms by (simp add: cosineSimilarity_def Let_def)
  then show "dedupe_matches low p [p] [] = []" "fst (analyseOverlap threshold p [p]) = []"
    by (simp_all add: dedupe_matches_def analyseOverlap_def computeDedupeScore_def overlap_combined_def at_least_def Let_def)
qed

text \<open>
  A verbatim copy without labels scores 0.6, below the default threshold 0.7: it is reported as a
  suggestion of low confidence.  The overlap detector, whose weights are others, calls it high.
\<close>

lemma exact_copy_scores:
  assumes "tokenize (is_title p) \<noteq> []" "tokenize (is_body p) \<noteq> []" "''constructor'' \<notin> set (tokenize (is_body p))" "is_labels p = []"
  shows "ds_combined (computeDedupeScore p p) = Some (60 / 100)" "overlap_combined p p = Some (75 / 100)"
proof -
  have "titleOverlap (is_title p) (is_title p) = 1" using assms(1) by (simp add: titleOverlap_def Let_def)
  moreover have "cosineSimilarity (is_body p) (is_body p) = Some 1" using assms by (simp add: cosine_same)
  ultimately show "ds_combined (computeDedupeScore p p) = Some (60 / 100)" "overlap_combined p p = Some (75 / 100)"
    using assms(4)
    by (simp_all add: computeDedupeScore_def overlap_combined_def labelOverlap_def matchByTrack_def matchByDifficulty_def round2_def Let_def)
qed

lemma exact_copy_low_confidence:
  assumes "tokenize (is_title p) \<noteq> []" "tokenize (is_body p) \<noteq> []" "''constructor'' \<notin> set (tokenize (is_body p))" "is_labels p = []"
  shows "analyseDedupe (7 / 10) (35 / 100) p [p] [] = ([], [(p, 60 / 100)])"
  using exact_copy_scores(1) [OF assms] by (simp add: analyseDedupe_def dedupe_matches_def at_least_def Let_def)

text \<open>The two groups partition the issues that score at least the low threshold.\<close>

lemma dedupe_groups:
  "mset (fst (analyseDedupe high low p os cs)) + mset (snd (analyseDedupe high low p os cs)) = mset (dedupe_matches low p os cs)"
  by (simp add: analyseDedupe_def Let_def flip: multiset_partition)

lemma dedupe_matches_iff:
  "(i, c) \<in> set (dedupe_matches low p os cs) \<longleftrightarrow>
    i \<in> set os \<union> set cs \<and> ds_combined (computeDedupeScore p i) = Some c \<and> low \<le> c"
  by (force simp: dedupe_matches_def at_least_def split: option.splits)

section \<open>Suggesting reviewers\<close>

definition TRACK_REVIEWERS :: "(string \<times> string list) list" where
  "TRACK_REVIEWERS =
    [(''FE'', [''fe-maintainer'', ''dx-reviewer'']), (''BE'', [''be-maintainer'', ''qa-reviewer'']),
     (''SC'', [''sc-maintainer'', ''security-reviewer'']), (''SDK'', [''sdk-maintainer'', ''fe-maintainer'']),
     (''DEVOPS'', [''devops-maintainer'', ''be-maintainer'']), (''QA'', [''qa-maintainer'']),
     (''SECURITY'', [''security-maintainer'', ''sc-maintainer'']), (''DX'', [''dx-maintainer'', ''docs-reviewer'']),
     (''DOCS'', [''docs-maintainer'', ''dx-reviewer'']), (''AI/AUTOMATION'', [''automation-maintainer'', ''docs-reviewer''])]"

text \<open>A pull request is the list of its requested reviewers; each counts once per request.\<close>

definition add_requests :: "string list \<Rightarrow> (string, nat) jmap \<Rightarrow> (string, nat) jmap" where
  "add_requests pr load = fold (\<lambda>r l. jm_set r ((case jm_get r l of Some n \<Rightarrow> n | None \<Rightarrow> 0) + 1) l) (set_of pr) load"

definition computeReviewerLoad :: "string list list \<Rightarrow> (string, nat) jmap" where
  "computeReviewerLoad openPRs = fold add_requests openPRs []"

definition load_of :: "(string, nat) jmap \<Rightarrow> string \<Rightarrow> nat" where
  "load_of load r = (case jm_get r load of Some n \<Rightarrow> n | None \<Rightarrow> 0)"

definition line_end :: "char \<Rightarrow> bool" where
  "line_end c \<longleftrightarrow> c = CHR 0x0A \<or> c = CHR 0x0D"

text \<open>The label pattern: \<^verbatim>\<open>track\<close>, a colon or a slash, and the rest of a line that is the rest of the label.\<close>

definition track_label :: "string \<Rightarrow> string option" where
  "track_label label =
    (if toLowerCase (take 5 label) = ''track'' \<and> length label > 6 \<and> label ! 5 \<in> {CHR '':'', CHR ''/''} \<and>
        list_all (\<lambda>c. \<not> line_end c) (drop 6 label)
     then Some (toUpperCase (drop 6 label)) else None)"

text \<open>The title pattern at one position: \<^verbatim>\<open>[W5][TRACK]\<close>; the first position that matches counts.\<close>

definition track_here :: "string \<Rightarrow> string option" where
  "track_here s =
    (case s of
       b # w # r \<Rightarrow>
         (let ds = takeWhile is_digit r; r' = dropWhile is_digit r; t = takeWhile (\<lambda>c. c \<noteq> CHR '']'') (drop 2 r') in
          if b = CHR ''['' \<and> (w = CHR ''W'' \<or> w = CHR ''w'') \<and> ds \<noteq> [] \<and> take 2 r' = ''][''
             \<and> t \<noteq> [] \<and> length t < length (drop 2 r')
          then Some (toUpperCase t) else None)
     | _ \<Rightarrow> None)"

fun track_in_title :: "string \<Rightarrow> string option" where
  "track_in_title [] = None"
| "track_in_title (c # s) = (case track_here (c # s) of Some t \<Rightarrow> Some t | None \<Rightarrow> track_in_title s)"

fun first_track :: "string list \<Rightarrow> string option" where
  "first_track [] = None"
| "first_track (l # ls) = (case track_label l of Some t \<Rightarrow> Some t | None \<Rightarrow> first_track ls)"

definition detectTrack :: "string \<Rightarrow> string list \<Rightarrow> string option" where
  "detectTrack prTitle prLabels = (case first_track prLabels of Some t \<Rightarrow> Some t | None \<Rightarrow> track_in_title prTitle)"

definition suggestReviewers :: "string option \<Rightarrow> (string, nat) jmap \<Rightarrow> string list" where
  "suggestReviewers track load =
    (let candidates = (case track of Some t \<Rightarrow> (case map_of TRACK_REVIEWERS t of Some c \<Rightarrow> c | None \<Rightarrow> []) | None \<Rightarrow> []) in
     if candidates = [] then [] else take 2 (sort_by (\<lambda>a b. load_of load a > load_of load b) candidates))"

definition reviewers_for :: "string \<Rightarrow> string list \<Rightarrow> string list list \<Rightarrow> string list" where
  "reviewers_for prTitle prLabels openPRs =
    (if ''no-auto-assign'' \<in> set prLabels then []
     else suggestReviewers (detectTrack prTitle prLabels) (computeReviewerLoad openPRs))"

lemma load_of_bump:
  "load_of (fold (\<lambda>r l. jm_set r ((case jm_get r l of Some n \<Rightarrow> n | None \<Rightarrow> 0) + 1) l) rs load) x =
    load_of load x + length (filter (\<lambda>r. r = x) rs)"
  by (induction rs arbitrary: load) (auto simp: load_of_def)

text \<open>The load of a reviewer is the number of open requests that ask for them.\<close>

lemma reviewer_load_exact: "load_of (computeReviewerLoad openPRs) x = length (filter (\<lambda>pr. x \<in> set pr) openPRs)"
proof -
  have one: "length (filter (\<lambda>r. r = x) (set_of pr)) = (if x \<in> set pr then 1 else 0)" for pr
  proof -
    have "length (filter (\<lambda>r. r = x) (set_of pr)) = card (set (filter (\<lambda>r. r = x) (set_of pr)))"
      by (rule distinct_card [symmetric]) (simp add: distinct_set_of)
    also have "set (filter (\<lambda>r. r = x) (set_of pr)) = (if x \<in> set pr then {x} else {})" by (auto simp: set_set_of)
    finally show ?thesis by simp
  qed
  have add: "load_of (add_requests pr load) x = load_of load x + (if x \<in> set pr then 1 else 0)" for pr load
    unfolding add_requests_def by (simp only: load_of_bump one)
  have "load_of (fold add_requests openPRs load) x = load_of load x + length (filter (\<lambda>pr. x \<in> set pr) openPRs)" for load
    by (induction openPRs arbitrary: load) (simp_all add: add)
  then show ?thesis by (simp add: computeReviewerLoad_def load_of_def)
qed

lemma load_comparator: "comparator (\<lambda>a b. load_of load a > load_of load b) (\<lambda>_. True)"
  by unfold_locales auto

text \<open>At most two are suggested, and nobody with a higher load than a candidate left out.\<close>

lemma suggested_least_busy:
  assumes "r \<in> set (suggestReviewers (Some t) load)" "map_of TRACK_REVIEWERS t = Some cs" "c \<in> set cs" "c \<notin> set (suggestReviewers (Some t) load)"
  shows "load_of load r \<le> load_of load c \<and> r \<in> set cs \<and> length (suggestReviewers (Some t) load) \<le> 2"
proof -
  let ?s = "sort_by (\<lambda>a b. load_of load a > load_of load b) cs"
  have sug: "suggestReviewers (Some t) load = take 2 ?s" using assms by (auto simp: suggestReviewers_def)
  have ord: "sorted_wrt (\<lambda>x y. \<not> load_of load x > load_of load y) (take 2 ?s @ drop 2 ?s)"
    using comparator.ordered_sort [OF load_comparator, of cs load] by simp
  have all: "set cs = set (take 2 ?s) \<union> set (drop 2 ?s)" by (metis append_take_drop_id set_append set_sort_by)
  then have "c \<in> set (drop 2 ?s)" "r \<in> set (take 2 ?s)" using assms sug by auto
  then have "\<not> load_of load r > load_of load c" using ord unfolding sorted_wrt_append by blast
  then show ?thesis using sug all \<open>r \<in> set (take 2 ?s)\<close> by simp
qed

end
