(* ===== verification/Dependency_Links.thy ===== *)
theory Dependency_Links
  imports Js_Values
begin

text \<open>
  The check of an issue's dependencies (\<^verbatim>\<open>scripts/validate-dependency-links.js\<close>): the sections of
  its body that list them, the references in those sections, their validation against the tracker
  and the verdict.  The regular expressions are written out as matchers; whether an issue exists is
  asked of a parameter, which may fail.  The text of the report is left out.
\<close>

section \<open>Sections\<close>

definition DEPENDENCY_HEADINGS :: "string list" where
  "DEPENDENCY_HEADINGS = [''dependencies'', ''dependency'', ''blocked by'', ''blocked-by'', ''blockers'', ''depends on'', ''depends-on'']"

text \<open>
  One to six hashes, white space, and the rest of the line, which \<^verbatim>\<open>.\<close> matches unless a line
  terminator is in it.  When only white space follows, its last character is the rest.
\<close>

definition not_line_end :: "char \<Rightarrow> bool" where
  "not_line_end c \<longleftrightarrow> c \<noteq> CHR 0x0A \<and> c \<noteq> CHR 0x0D"

definition atx_heading :: "string \<Rightarrow> string option" where
  "atx_heading line =
    (let hashes = takeWhile (\<lambda>c. c = CHR ''#'') line; r = dropWhile (\<lambda>c. c = CHR ''#'') line;
         spaces = takeWhile js_space r; txt = dropWhile js_space r in
     if hashes = [] \<or> length hashes > 6 \<or> spaces = [] then None
     else if txt \<noteq> [] then (if list_all not_line_end txt then Some txt else None)
     else if length spaces > 1 \<and> not_line_end (last spaces) then Some [last spaces] else None)"

text \<open>One or two stars, text without stars, one or two stars, perhaps a colon, white space.\<close>

definition bold_heading :: "string \<Rightarrow> string option" where
  "bold_heading line =
    (let opening = takeWhile (\<lambda>c. c = CHR ''*'') line; r = dropWhile (\<lambda>c. c = CHR ''*'') line;
         txt = takeWhile (\<lambda>c. c \<noteq> CHR ''*'') r; r' = dropWhile (\<lambda>c. c \<noteq> CHR ''*'') r;
         closing = takeWhile (\<lambda>c. c = CHR ''*'') r'; after = dropWhile (\<lambda>c. c = CHR ''*'') r';
         trailer = (if after \<noteq> [] \<and> hd after = CHR '':'' then tl after else after) in
     if length opening \<in> {1, 2} \<and> txt \<noteq> [] \<and> length closing \<in> {1, 2} \<and> list_all js_space trailer
     then Some txt else None)"

definition heading_of :: "string \<Rightarrow> string option" where
  "heading_of line = (case atx_heading line of Some h \<Rightarrow> Some h | None \<Rightarrow> bold_heading line)"

definition heading_name :: "string \<Rightarrow> string" where
  "heading_name h = (let s = toLowerCase (trim h) in if s \<noteq> [] \<and> last s = CHR '':'' then butlast s else s)"

definition is_dependency_heading :: "string \<Rightarrow> bool" where
  "is_dependency_heading heading = list_ex (\<lambda>h. take (length h) heading = h) DEPENDENCY_HEADINGS"

record section_scan =
  sc_sections :: "string list"
  sc_capturing :: bool
  sc_current :: "string list"

definition join_lines :: "string list \<Rightarrow> string" where
  "join_lines ls = intersperse [CHR 0x0A] ls"

definition close_section :: "section_scan \<Rightarrow> section_scan" where
  "close_section s = s\<lparr>sc_sections := (if sc_capturing s \<and> sc_current s \<noteq> [] then sc_sections s @ [join_lines (sc_current s)] else sc_sections s)\<rparr>"

definition scan_line :: "string \<Rightarrow> section_scan \<Rightarrow> section_scan" where
  "scan_line line s =
    (case heading_of line of
       Some h \<Rightarrow>
         if is_dependency_heading (heading_name h) then (close_section s)\<lparr>sc_capturing := True, sc_current := []\<rparr>
         else if sc_capturing s then (close_section s)\<lparr>sc_capturing := False, sc_current := []\<rparr>
         else s
     | None \<Rightarrow> if sc_capturing s then s\<lparr>sc_current := sc_current s @ [line]\<rparr> else s)"

definition extractDependencySections :: "string \<Rightarrow> string list" where
  "extractDependencySections body =
    (if body = [] then []
     else sc_sections (close_section (fold scan_line (split_on (CHR 0x0A) body)
       \<lparr>sc_sections = [], sc_capturing = False, sc_current = []\<rparr>)))"

section \<open>References\<close>

record issue_ref =
  if_raw :: string
  if_number :: nat

text \<open>
  A pattern at a position: the digits of its group and what follows the match.  A run of
  characters of a class is greedy; what follows it is not in the class, so there is one way to match.
\<close>

definition greedy_run :: "(char \<Rightarrow> bool) \<Rightarrow> string \<Rightarrow> (string \<times> string) option" where
  "greedy_run P s = (let r = takeWhile P s in if r = [] then None else Some (r, dropWhile P s))"

definition skip_ci :: "string \<Rightarrow> string \<Rightarrow> string option" where
  "skip_ci p s = (if toLowerCase (take (length p) s) = p then Some (drop (length p) s) else None)"

definition url_part :: "char \<Rightarrow> bool" where
  "url_part c \<longleftrightarrow> c \<noteq> CHR ''/'' \<and> \<not> js_space c"

definition name_part :: "char \<Rightarrow> bool" where
  "name_part c \<longleftrightarrow> is_letter c \<or> is_digit c \<or> c \<in> {CHR ''_'', CHR ''.'', CHR ''-''}"

text \<open>\<^verbatim>\<open>https?://github.com/<owner>/<repo>/issues/<n>\<close>, or \<^verbatim>\<open>pull\<close>, in any case.\<close>

definition url_ref :: "string \<Rightarrow> (string \<times> string) option" where
  "url_ref s =
    Option.bind (case skip_ci ''https://github.com/'' s of Some r \<Rightarrow> Some r | None \<Rightarrow> skip_ci ''http://github.com/'' s) (\<lambda>r.
    Option.bind (greedy_run url_part r) (\<lambda>(_, r). Option.bind (skip_ci ''/'' r) (\<lambda>r.
    Option.bind (greedy_run url_part r) (\<lambda>(_, r). Option.bind (skip_ci ''/'' r) (\<lambda>r.
    Option.bind (case skip_ci ''issues/'' r of Some r \<Rightarrow> Some r | None \<Rightarrow> skip_ci ''pull/'' r) (\<lambda>r.
    greedy_run is_digit r))))))"

definition repo_ref :: "string \<Rightarrow> (string \<times> string) option" where
  "repo_ref s =
    Option.bind (greedy_run name_part s) (\<lambda>(_, r). Option.bind (skip_ci ''/'' r) (\<lambda>r.
    Option.bind (greedy_run name_part r) (\<lambda>(_, r). Option.bind (skip_ci ''#'' r) (\<lambda>r. greedy_run is_digit r))))"

definition bare_ref :: "string \<Rightarrow> (string \<times> string) option" where
  "bare_ref s = Option.bind (skip_ci ''#'' s) (\<lambda>r. greedy_run is_digit r)"

definition before_bare :: "char option \<Rightarrow> bool" where
  "before_bare c = (case c of None \<Rightarrow> True | Some x \<Rightarrow> \<not> (is_letter x \<or> is_digit x \<or> x \<in> {CHR ''_'', CHR ''/'', CHR ''-''}))"

text \<open>
  A global search: from each position on, the first match, and the next search after it.  \<^verbatim>\<open>ok\<close> is
  the condition on the character before.
\<close>

function scan_refs :: "(char option \<Rightarrow> bool) \<Rightarrow> (string \<Rightarrow> (string \<times> string) option) \<Rightarrow> char option \<Rightarrow> string \<Rightarrow> issue_ref list" where
  "scan_refs ok M prev [] = []"
| "scan_refs ok M prev (c # s) =
    (case (if ok prev then M (c # s) else None) of
       None \<Rightarrow> scan_refs ok M (Some c) s
     | Some (ds, rest) \<Rightarrow>
         (let k = length s - length rest in
          \<lparr>if_raw = c # take k s, if_number = read_nat ds\<rparr> # scan_refs ok M (Some ((c # s) ! k)) (drop k s)))"
  by pat_completeness auto
termination
  by (relation "measure (\<lambda>(ok, M, prev, s). length s)") auto

declare scan_refs.simps [simp del]

definition add_ref :: "issue_ref \<Rightarrow> issue_ref list \<Rightarrow> issue_ref list" where
  "add_ref r refs = (if if_number r \<in> if_number ` set refs then refs else refs @ [r])"

definition extractIssueRefs :: "string \<Rightarrow> issue_ref list" where
  "extractIssueRefs txt =
    fold add_ref (scan_refs (\<lambda>_. True) url_ref None txt @ scan_refs (\<lambda>_. True) repo_ref None txt @
      scan_refs before_bare bare_ref None txt) []"

section \<open>Validation\<close>

datatype ref_error = SelfReference issue_ref | MissingIssue issue_ref

text \<open>\<^verbatim>\<open>exists_issue\<close> is the answer of the tracker; the first failure ends the validation.\<close>

fun validateRefs :: "(nat \<Rightarrow> js_error + bool) \<Rightarrow> nat \<Rightarrow> issue_ref list \<Rightarrow> js_error + ref_error list" where
  "validateRefs exists_issue issueNumber [] = Inr []"
| "validateRefs exists_issue issueNumber (r # refs) =
    (if if_number r = issueNumber then
       (case validateRefs exists_issue issueNumber refs of Inl e \<Rightarrow> Inl e | Inr es \<Rightarrow> Inr (SelfReference r # es))
     else case exists_issue (if_number r) of
       Inl e \<Rightarrow> Inl e
     | Inr found \<Rightarrow>
         (case validateRefs exists_issue issueNumber refs of
            Inl e \<Rightarrow> Inl e
          | Inr es \<Rightarrow> Inr (if found then es else MissingIssue r # es)))"

definition issueExists :: "(nat \<Rightarrow> js_error + nat) \<Rightarrow> nat \<Rightarrow> js_error + bool" where
  "issueExists tracker n = (case tracker n of Inl e \<Rightarrow> Inl e | Inr st \<Rightarrow> Inr (st = 200))"

definition report_passed :: "bool \<Rightarrow> issue_ref list \<Rightarrow> ref_error list \<Rightarrow> bool" where
  "report_passed sectionFound refs errors = (if \<not> sectionFound then True else if refs = [] then False else errors = [])"

definition check_issue :: "(nat \<Rightarrow> js_error + nat) \<Rightarrow> nat \<Rightarrow> string \<Rightarrow> js_error + bool" where
  "check_issue tracker issueNumber body =
    (let sections = extractDependencySections body; refs = extractIssueRefs (join_lines sections) in
     case validateRefs (issueExists tracker) issueNumber refs of
       Inl e \<Rightarrow> Inl e
     | Inr errors \<Rightarrow> Inr (report_passed (sections \<noteq> []) refs errors))"

section \<open>What a passing check means\<close>

lemma validateRefs_none:
  "validateRefs ex n refs = Inr [] \<longleftrightarrow> (\<forall>r \<in> set refs. if_number r \<noteq> n \<and> ex (if_number r) = Inr True)"
  by (induction refs) (auto split: sum.splits)

lemma refs_distinct: "distinct (map if_number (extractIssueRefs s))"
proof -
  have "distinct (map if_number refs) \<Longrightarrow> distinct (map if_number (fold add_ref rs refs))" for rs refs
    by (induction rs arbitrary: refs) (simp_all add: add_ref_def)
  then show ?thesis by (simp add: extractIssueRefs_def)
qed

text \<open>
  A body passes exactly when it has no dependency section, or its sections name at least one issue
  and every one they name exists and is another issue.
\<close>

lemma check_passes_iff:
  "check_issue tracker n body = Inr True \<longleftrightarrow>
    (let sections = extractDependencySections body; refs = extractIssueRefs (join_lines sections) in
     if sections = [] then (\<exists>es. validateRefs (issueExists tracker) n refs = Inr es)
     else refs \<noteq> [] \<and> (\<forall>r \<in> set refs. if_number r \<noteq> n \<and> tracker (if_number r) = Inr 200))"
proof -
  have ex: "issueExists tracker k = Inr True \<longleftrightarrow> tracker k = Inr 200" for k
    by (auto simp: issueExists_def split: sum.split)
  show ?thesis
    using validateRefs_none [of "issueExists tracker" n "extractIssueRefs (join_lines (extractDependencySections body))"]
    by (auto simp: check_issue_def report_passed_def Let_def ex split: sum.splits)
qed

text \<open>
  A heading with hashes whose line ends in a carriage return is no heading, since the dot does not
  match one: in a body with line ends of two characters no such section is found.
\<close>

lemma carriage_return_no_heading:
  assumes "h \<noteq> []" "list_all (\<lambda>c. \<not> js_space c) h" "n > 0"
  shows "heading_of (replicate n (CHR ''#'') @ CHR '' '' # h @ [CHR 0x0D]) = None"
proof -
  let ?l = "replicate n (CHR ''#'') @ CHR '' '' # h @ [CHR 0x0D]"
  have hd: "\<not> js_space (hd h)" using assms by (cases h) auto
  have r: "dropWhile (\<lambda>c. c = CHR ''#'') ?l = CHR '' '' # h @ [CHR 0x0D]"
    by (induction n) simp_all
  have "dropWhile js_space (CHR '' '' # h @ [CHR 0x0D]) = h @ [CHR 0x0D]"
    using assms(1) hd by (cases h) (simp_all add: js_space_def)
  then have "atx_heading ?l = None"
    using assms(1) r by (simp add: atx_heading_def Let_def not_line_end_def)
  moreover have "bold_heading ?l = None"
    using assms(3) by (cases n) (simp_all add: bold_heading_def Let_def)
  ultimately show ?thesis by (simp add: heading_of_def)
qed

lemma split_on_none: "d \<notin> set s \<Longrightarrow> split_on d s = [s]"
  by (induction s) auto

lemma split_on_first: "d \<notin> set a \<Longrightarrow> split_on d (a @ d # b) = a # split_on d b"
  by (induction a) auto

text \<open>The same body with the two kinds of line ends.\<close>

lemma crlf_section_missed:
  "extractDependencySections (''## Dependencies'' @ [CHR 0x0A] @ ''- #12'') = [''- #12'']"
  "extractDependencySections (''## Dependencies'' @ [CHR 0x0D, CHR 0x0A] @ ''- #12'' @ [CHR 0x0D]) = []"
proof -
  have lf: "split_on (CHR 0x0A) (''## Dependencies'' @ [CHR 0x0A] @ ''- #12'') = [''## Dependencies'', ''- #12'']"
    and crlf: "split_on (CHR 0x0A) (''## Dependencies'' @ [CHR 0x0D, CHR 0x0A] @ ''- #12'' @ [CHR 0x0D])
      = [''## Dependencies'' @ [CHR 0x0D], ''- #12'' @ [CHR 0x0D]]"
    using split_on_first [of "CHR 0x0A" "''## Dependencies''" "''- #12''"]
      split_on_first [of "CHR 0x0A" "''## Dependencies'' @ [CHR 0x0D]" "''- #12'' @ [CHR 0x0D]"]
    by (simp_all add: split_on_none del: split_on.simps)
  have h: "heading_of ''## Dependencies'' = Some ''Dependencies''" "heading_of ''- #12'' = None" "heading_of (''- #12'' @ [CHR 0x0D]) = None"
    by (simp_all add: heading_of_def atx_heading_def bold_heading_def Let_def js_space_def not_line_end_def)
  have h2: "heading_of (''## Dependencies'' @ [CHR 0x0D]) = None"
    using carriage_return_no_heading [of "''Dependencies''" 2] by (simp add: js_space_def numeral_eq_Suc)
  have "toLowerCase (trim ''Dependencies'') = ''dependencies''" by code_simp
  then have h3: "is_dependency_heading (heading_name ''Dependencies'')"
    by (simp add: heading_name_def is_dependency_heading_def DEPENDENCY_HEADINGS_def Let_def)
  show "extractDependencySections (''## Dependencies'' @ [CHR 0x0A] @ ''- #12'') = [''- #12'']"
    unfolding extractDependencySections_def lf by (simp add: scan_line_def h h3 close_section_def join_lines_def)
  show "extractDependencySections (''## Dependencies'' @ [CHR 0x0D, CHR 0x0A] @ ''- #12'' @ [CHR 0x0D]) = []"
    unfolding extractDependencySections_def crlf using h h2 by (simp add: scan_line_def close_section_def)
qed

lemma references_found:
  "map if_number (extractIssueRefs ''o/r#7 #9 a#3'') = [7, 9]"
  by code_simp

end
