(* ===== verification/Release_Checks.thy ===== *)
theory Release_Checks
  imports Sdk_Network Sdk_Events
begin

text \<open>
  The checks a release runs over what it publishes: the registry bundle
  (\<^verbatim>\<open>scripts/validate-registry-bundle.js\<close>), the health payload
  (\<^verbatim>\<open>scripts/validate-health-payload.js\<close>) and the event schemas
  (\<^verbatim>\<open>scripts/check-event-schemas.ts\<close>), with the registry loader of the client library as the
  consumer of a bundle.  \<^verbatim>\<open>Date.parse\<close> is a parameter; reading the file and printing are left out.
\<close>

section \<open>Errors of a check\<close>

record check_error =
  ce_path :: string
  ce_message :: string

abbreviation check_err :: "string \<Rightarrow> string \<Rightarrow> check_error" where
  "check_err p m \<equiv> \<lparr>ce_path = p, ce_message = m\<rparr>"

text \<open>A value that passes \<^verbatim>\<open>!v || typeof v !== "object"\<close>: an array passes it.\<close>

definition object_like :: "js \<Rightarrow> bool" where
  "object_like v \<longleftrightarrow> truthy v \<and> js_typeof v = ''object''"

definition filled_string :: "js \<Rightarrow> bool" where
  "filled_string v \<longleftrightarrow> truthy v \<and> js_typeof v = ''string''"

fun object_keys :: "js \<Rightarrow> string list" where
  "object_keys (Obj r) = map fst r"
| "object_keys (Arr xs) = map show_nat [0..<length xs]"
| "object_keys _ = []"

text \<open>What the script prints for a reader and its exit code.\<close>

definition check_run :: "string \<Rightarrow> check_error list \<Rightarrow> string list \<times> nat" where
  "check_run subject errors =
    (if errors = [] then ([subject @ '' is valid''], 0)
     else ((subject @ '' validation errors:'') # map (\<lambda>e. ''  - '' @ ce_path e @ '': '' @ ce_message e) errors, 1))"

section \<open>The registry bundle\<close>

definition VALID_NETWORKS :: "string list" where
  "VALID_NETWORKS = [''testnet'', ''mainnet'', ''local'']"

definition REQUIRED_CONTRACTS :: "string list" where
  "REQUIRED_CONTRACTS = [''admin_registry'', ''core_game'', ''rewards'', ''achievements'']"

definition network_errors :: "js \<Rightarrow> check_error list" where
  "network_errors network =
    (if \<not> filled_string network then [check_err ''network'' ''Must be a non-empty string'']
     else if network \<notin> Str ` set VALID_NETWORKS then [check_err ''network'' (''Must be one of: '' @ intersperse '', '' VALID_NETWORKS)]
     else [])"

definition optional_string_errors :: "string \<Rightarrow> js \<Rightarrow> check_error list" where
  "optional_string_errors path v =
    (if v \<noteq> Undef \<and> js_typeof v \<noteq> ''string'' then [check_err path ''Must be a string''] else [])"

definition contract_errors :: "js \<Rightarrow> check_error list" where
  "contract_errors contracts =
    (let missing = filter (\<lambda>k. \<not> filled_string (js_member contracts k)) REQUIRED_CONTRACTS;
         unknownKeys = filter (\<lambda>k. k \<notin> set REQUIRED_CONTRACTS) (object_keys contracts) in
     map (\<lambda>k. check_err (''contracts.'' @ k) ''Must be a non-empty string (contract ID)'') missing @
     (if unknownKeys \<noteq> [] then [check_err ''contracts'' (''Unexpected contract keys: '' @ intersperse '', '' unknownKeys)] else []))"

definition validate_bundle :: "js \<Rightarrow> check_error list" where
  "validate_bundle bundle =
    (if \<not> object_like bundle then [check_err ''$'' ''Bundle must be a non-null object'']
     else
       network_errors (js_member bundle ''network'') @
       optional_string_errors ''rpcUrl'' (js_member bundle ''rpcUrl'') @
       optional_string_errors ''passphrase'' (js_member bundle ''passphrase'') @
       (if \<not> object_like (js_member bundle ''contracts'') then [check_err ''contracts'' ''Must be an object'']
        else contract_errors (js_member bundle ''contracts'')))"

lemma filled_string_iff: "filled_string v \<longleftrightarrow> (\<exists>s. v = Str s \<and> s \<noteq> [])"
  by (cases v) (auto simp: filled_string_def)

lemma object_like_iff: "object_like v \<longleftrightarrow> (\<exists>r. v = Obj r) \<or> (\<exists>xs. v = Arr xs)"
  by (cases v) (auto simp: object_like_def)

lemma contract_errors_none:
  "contract_errors c = [] \<longleftrightarrow>
     (\<forall>k \<in> set REQUIRED_CONTRACTS. filled_string (js_member c k)) \<and> set (object_keys c) \<subseteq> set REQUIRED_CONTRACTS"
  by (auto simp: contract_errors_def Let_def filter_empty_conv)

text \<open>
  What the check accepts: an object with a network of the three, strings where there is an endpoint
  or a passphrase, and the four contracts, each with a non-empty string, and no other key.
\<close>

lemma member_object: "js_member b k \<noteq> Undef \<Longrightarrow> \<exists>r. b = Obj r"
  by (cases b) auto

lemma validate_bundle_ok:
  "validate_bundle b = [] \<longleftrightarrow>
    js_member b ''network'' \<in> Str ` set VALID_NETWORKS \<and>
    (\<forall>k \<in> {''rpcUrl'', ''passphrase''}. js_member b k = Undef \<or> js_typeof (js_member b k) = ''string'') \<and>
    (\<forall>k \<in> set REQUIRED_CONTRACTS. filled_string (js_member (js_member b ''contracts'') k)) \<and>
    set (object_keys (js_member b ''contracts'')) \<subseteq> set REQUIRED_CONTRACTS" (is "?l \<longleftrightarrow> ?r")
proof -
  have n: "network_errors v = [] \<longleftrightarrow> v \<in> Str ` set VALID_NETWORKS" for v
    by (auto simp: network_errors_def filled_string_iff VALID_NETWORKS_def)
  have o: "optional_string_errors p v = [] \<longleftrightarrow> v = Undef \<or> js_typeof v = ''string''" for p v
    by (simp add: optional_string_errors_def)
  have ob: "object_like b" if "js_member b ''network'' \<in> Str ` set VALID_NETWORKS"
    using that member_object [of b "''network''"] by (auto simp: object_like_iff)
  have oc: "object_like c" if "filled_string (js_member c ''rewards'')" for c
    using that member_object [of c "''rewards''"] by (auto simp: object_like_iff filled_string_iff)
  have rw: "''rewards'' \<in> set REQUIRED_CONTRACTS" by (simp add: REQUIRED_CONTRACTS_def)
  show ?thesis
  proof
    assume ?l
    then show ?r by (auto simp: validate_bundle_def n o contract_errors_none split: if_splits)
  next
    assume r: ?r
    then have "object_like b" "object_like (js_member b ''contracts'')" using ob oc rw by blast+
    then show ?l using r by (simp add: validate_bundle_def n o contract_errors_none)
  qed
qed

text \<open>
  A bundle that passes loads in the client library, with its own network and addresses, when its
  network is one of the library's and no address is blank.  The check knows the network
  \<^verbatim>\<open>local\<close> and the library does not.
\<close>

lemma valid_bundle_loads:
  assumes v: "validate_bundle b = []" and n: "js_member b ''network'' \<noteq> Str ''local''"
    and t: "\<And>k s. js_member (js_member b ''contracts'') (key_name k) = Str s \<Longrightarrow> trim s \<noteq> []"
  shows "\<exists>r. loadRegistryFromJson h b = Inr r \<and> Str (cr_network r) = js_member b ''network'' \<and>
    (\<forall>k. Str (contract_of r k) = js_member (js_member b ''contracts'') (key_name k))"
proof -
  let ?c = "\<lambda>k. js_member (js_member b ''contracts'') (key_name k)"
  have req: "key_name k \<in> set REQUIRED_CONTRACTS" for k by (cases k) (simp_all add: REQUIRED_CONTRACTS_def)
  have c: "\<exists>s. ?c k = Str s \<and> trim s \<noteq> []" for k
    using v req [of k] t [of k] unfolding validate_bundle_ok filled_string_iff by blast
  have m: "missing_keys ?c contract_keys = Inr []" unfolding missing_keys_none using c by blast
  have net: "js_member b ''network'' \<in> Str ` set known_networks"
    using v n unfolding validate_bundle_ok by (auto simp: VALID_NETWORKS_def known_networks_def)
  have "object_like b" "object_like (js_member b ''contracts'')"
    using net c [of K_rewards] member_object [of b "''network''"] member_object [of "js_member b ''contracts''" "key_name K_rewards"]
    by (auto simp: object_like_iff)
  then have "loadRegistryFromJson h b = Inr (registry_of (as_string (js_member b ''network'')) (\<lambda>k. as_string (?c k)))"
    using net m by (simp add: loadRegistryFromJson_def object_like_def Let_def)
  moreover have "Str (as_string (js_member b ''network'')) = js_member b ''network''" using net by auto
  moreover have "Str (as_string (?c k)) = ?c k" for k using c [of k] by auto
  ultimately show ?thesis by auto
qed

definition demo_bundle :: "string \<Rightarrow> string \<Rightarrow> js" where
  "demo_bundle network address = Obj [(''network'', Str network),
     (''contracts'', Obj (map (\<lambda>k. (k, Str address)) REQUIRED_CONTRACTS))]"

lemma local_bundle_refused:
  "validate_bundle (demo_bundle ''local'' ''CA'') = [] \<and> (\<forall>r. loadRegistryFromJson h (demo_bundle ''local'' ''CA'') \<noteq> Inr r)"
  by (simp add: validate_bundle_ok demo_bundle_def get_prop_def VALID_NETWORKS_def REQUIRED_CONTRACTS_def filled_string_def
      loadRegistryFromJson_def known_networks_def)

lemma blank_bundle_refused:
  "validate_bundle (demo_bundle ''testnet'' '' '') = [] \<and> (\<forall>r. loadRegistryFromJson h (demo_bundle ''testnet'' '' '') \<noteq> Inr r)"
  by (simp add: validate_bundle_ok demo_bundle_def get_prop_def VALID_NETWORKS_def REQUIRED_CONTRACTS_def filled_string_def
      loadRegistryFromJson_def known_networks_def contract_keys_def trim_def trim_left_def js_space_def)

text \<open>The sample bundle of the test network has no addresses yet and fails its own check.\<close>

lemma sample_bundle_invalid:
  "map ce_path (validate_bundle (demo_bundle ''testnet'' [])) =
     [''contracts.admin_registry'', ''contracts.core_game'', ''contracts.rewards'', ''contracts.achievements'']"
  by (simp add: validate_bundle_def object_like_def network_errors_def optional_string_errors_def contract_errors_def demo_bundle_def
      get_prop_def VALID_NETWORKS_def REQUIRED_CONTRACTS_def filled_string_def Let_def)

section \<open>The health payload\<close>

definition VALID_STATUSES :: "string list" where
  "VALID_STATUSES = [''healthy'', ''degraded'', ''down'']"

definition expectedProducers :: "string list" where
  "expectedProducers = [''backend'', ''indexer'', ''frontend'', ''soroban'']"

text \<open>The pattern \<^verbatim>\<open>^\d+\.\d+\.\d+\<close>.\<close>

fun dotted_numbers :: "nat \<Rightarrow> string \<Rightarrow> bool" where
  "dotted_numbers 0 s = (takeWhile is_digit s \<noteq> [])"
| "dotted_numbers (Suc n) s = (takeWhile is_digit s \<noteq> [] \<and>
     (case dropWhile is_digit s of [] \<Rightarrow> False | c # r \<Rightarrow> c = CHR ''.'' \<and> dotted_numbers n r))"

definition quoted_text :: "string \<Rightarrow> string" where
  "quoted_text s = [CHR 0x22] @ s @ [CHR 0x22]"

definition producer_errors :: "js \<Rightarrow> string \<Rightarrow> check_error list" where
  "producer_errors producers name =
    (let producer = js_member producers name in
     if \<not> object_like producer then [check_err (''producers.'' @ name) ''Must be an object'']
     else
       (if js_member producer ''status'' \<in> Str ` set VALID_STATUSES then []
        else [check_err (''producers.'' @ name @ ''.status'') (''Must be one of: '' @ intersperse '', '' VALID_STATUSES)]) @
       (case js_member producer ''version'' of
          Str v \<Rightarrow> if dotted_numbers 2 v then []
            else [check_err (''producers.'' @ name @ ''.version'') (quoted_text v @ '' does not look like semver'')]
        | _ \<Rightarrow> []))"

definition nonnegative_number :: "js \<Rightarrow> bool" where
  "nonnegative_number v \<longleftrightarrow> (case v of Num n \<Rightarrow> \<not> num_lt n (Fin 0) | _ \<Rightarrow> False)"

definition count_errors :: "js \<Rightarrow> string \<Rightarrow> check_error list" where
  "count_errors summary k =
    (if nonnegative_number (js_member summary k) then [] else [check_err (''summary.'' @ k) ''Must be a non-negative number''])"

text \<open>The operator \<^verbatim>\<open>+\<close>: of numbers, or of texts when one side is a text or an object.\<close>

fun plus_operand :: "host \<Rightarrow> js \<Rightarrow> js" where
  "plus_operand h (Arr xs) = Str (js_String h (Arr xs))"
| "plus_operand h (Obj r) = Str (js_String h (Obj r))"
| "plus_operand h v = v"

definition js_plus :: "host \<Rightarrow> js \<Rightarrow> js \<Rightarrow> js" where
  "js_plus h a b =
    (let x = plus_operand h a; y = plus_operand h b in
     if js_typeof x = ''string'' \<or> js_typeof y = ''string'' then Str (js_String h x @ js_String h y)
     else Num (num_add (js_Number h x) (js_Number h y)))"

text \<open>\<^verbatim>\<open>a === b\<close> where \<^verbatim>\<open>a\<close> is not an object.\<close>

fun same_primitive :: "js \<Rightarrow> js \<Rightarrow> bool" where
  "same_primitive (Num a) (Num b) = num_eq a b"
| "same_primitive (Arr _) b = False"
| "same_primitive (Obj _) b = False"
| "same_primitive a b = (a = b)"

definition summary_errors :: "host \<Rightarrow> js \<Rightarrow> check_error list" where
  "summary_errors h summary =
    (let total = js_member summary ''total_services'';
         computedTotal = js_plus h (js_plus h (js_member summary ''healthy'') (js_member summary ''degraded'')) (js_member summary ''down'') in
     concat (map (count_errors summary) [''total_services'', ''healthy'', ''degraded'', ''down'']) @
     (if total \<noteq> Undef \<and> \<not> same_primitive computedTotal total
      then [check_err ''summary'' (''healthy + degraded + down ('' @ js_String h computedTotal @ '') != total_services ('' @ js_String h total @ '')'')]
      else []))"

definition validate_health :: "(js \<Rightarrow> jsnum) \<Rightarrow> host \<Rightarrow> js \<Rightarrow> check_error list" where
  "validate_health date_parse h payload =
    (if \<not> object_like payload then [check_err ''$'' ''Payload must be a non-null object'']
     else
       (let generated = js_member payload ''generated_at'' in
        if \<not> truthy generated \<or> date_parse generated = NaN then [check_err ''generated_at'' ''Must be a valid ISO 8601 timestamp''] else []) @
       (if filled_string (js_member payload ''version'') then [] else [check_err ''version'' ''Must be a non-empty string'']) @
       (let producers = js_member payload ''producers'' in
        if \<not> object_like producers then [check_err ''producers'' ''Must be an object'']
        else concat (map (producer_errors producers) expectedProducers) @
          summary_errors h (let s = js_member payload ''summary'' in if truthy s then s else Obj [])))"

lemma nonnegative_iff: "nonnegative_number v \<longleftrightarrow> (\<exists>n. v = Num n \<and> \<not> num_lt n (Fin 0))"
  by (cases v) (auto simp: nonnegative_number_def)

lemma producer_ok: "producer_errors ps name = [] \<Longrightarrow> js_member (js_member ps name) ''status'' \<in> Str ` set VALID_STATUSES"
  by (auto simp: producer_errors_def Let_def split: if_splits)

lemma summary_ok:
  assumes "summary_errors h s = []"
  shows "\<exists>t a b c. js_member s ''total_services'' = Num t \<and> js_member s ''healthy'' = Num a \<and> js_member s ''degraded'' = Num b \<and>
    js_member s ''down'' = Num c \<and> num_eq (num_add (num_add a b) c) t"
proof -
  have "\<forall>k \<in> {''total_services'', ''healthy'', ''degraded'', ''down''}. count_errors s k = []"
    using assms by (simp add: summary_errors_def Let_def)
  then have "\<forall>k \<in> {''total_services'', ''healthy'', ''degraded'', ''down''}. \<exists>n. js_member s k = Num n"
    by (auto simp: count_errors_def nonnegative_iff split: if_splits)
  then obtain t a b c where m: "js_member s ''total_services'' = Num t" "js_member s ''healthy'' = Num a"
    "js_member s ''degraded'' = Num b" "js_member s ''down'' = Num c" by auto
  then show ?thesis using assms by (simp add: summary_errors_def js_plus_def m split: if_splits)
qed

text \<open>A payload that passes gives every service one of the three states, and its counts add up.\<close>

lemma valid_health:
  assumes "validate_health dp h p = []"
  shows "(\<forall>name \<in> set expectedProducers. js_member (js_member (js_member p ''producers'') name) ''status'' \<in> Str ` set VALID_STATUSES) \<and>
    (\<exists>t a b c. js_member (js_member p ''summary'') ''total_services'' = Num t \<and> js_member (js_member p ''summary'') ''healthy'' = Num a \<and>
       js_member (js_member p ''summary'') ''degraded'' = Num b \<and> js_member (js_member p ''summary'') ''down'' = Num c \<and>
       num_eq (num_add (num_add a b) c) t)"
proof -
  let ?s = "let s = js_member p ''summary'' in if truthy s then s else Obj []"
  have ps: "\<forall>name \<in> set expectedProducers. producer_errors (js_member p ''producers'') name = []" and s: "summary_errors h ?s = []"
    using assms by (auto simp: validate_health_def Let_def split: if_splits)
  have "truthy (js_member p ''summary'')"
    using summary_ok [OF s] by (cases "truthy (js_member p ''summary'')") (auto simp: get_prop_def)
  then have "?s = js_member p ''summary''" by simp
  then show ?thesis using ps producer_ok summary_ok [OF s] by auto
qed

text \<open>The counts are not compared with the producers: four services that are down, summarized as healthy, pass.\<close>

definition demo_health :: "string \<Rightarrow> js" where
  "demo_health status = Obj [(''generated_at'', Str ''2026-06-25T12:00:00Z''), (''version'', Str ''1.0.0''),
     (''producers'', Obj (map (\<lambda>n. (n, Obj [(''status'', Str status)])) expectedProducers)),
     (''summary'', Obj [(''total_services'', Num (Fin 4)), (''healthy'', Num (Fin 4)), (''degraded'', Num (Fin 0)), (''down'', Num (Fin 0))])]"

lemma counts_unchecked: "dp (Str ''2026-06-25T12:00:00Z'') \<noteq> NaN \<Longrightarrow> validate_health dp h (demo_health ''down'') = []"
  by (simp add: validate_health_def demo_health_def object_like_def get_prop_def filled_string_def expectedProducers_def
      producer_errors_def VALID_STATUSES_def summary_errors_def count_errors_def nonnegative_number_def js_plus_def)

section \<open>The event schemas\<close>

type_synonym field_shape = "string \<times> string"

record schema_shape =
  sh_topic :: string
  sh_family :: event_family
  sh_topicFields :: "field_shape list"
  sh_payloadFields :: "field_shape list"

record SchemaSnapshot =
  sn_version :: nat
  sn_schemas :: "schema_shape list"

definition schema_shape_of :: "EventSchema \<Rightarrow> schema_shape" where
  "schema_shape_of s = \<lparr>sh_topic = es_topic s, sh_family = es_family s,
     sh_topicFields = map (\<lambda>f. (sf_name f, sf_type f)) (es_topicFields s),
     sh_payloadFields = map (\<lambda>f. (sf_name f, sf_type f)) (es_payloadFields s)\<rparr>"

definition buildSnapshot :: SchemaSnapshot where
  "buildSnapshot = \<lparr>sn_version = SCHEMA_VERSION, sn_schemas = map schema_shape_of EVENT_SCHEMAS\<rparr>"

record SchemaDiff =
  sd_added :: "string list"
  sd_removed :: "string list"
  sd_fieldChanges :: "(string \<times> string) list"

definition added_text :: "string \<Rightarrow> field_shape \<Rightarrow> string" where
  "added_text kind f = ''added '' @ kind @ '' field '' @ quoted_text (fst f) @ '' ('' @ snd f @ '')''"

definition retyped_text :: "string \<Rightarrow> field_shape \<Rightarrow> string \<Rightarrow> string" where
  "retyped_text kind f old = kind @ '' field '' @ quoted_text (fst f) @ '' type changed from '' @ quoted_text old @ '' to '' @ quoted_text (snd f)"

definition removed_text :: "string \<Rightarrow> field_shape \<Rightarrow> string" where
  "removed_text kind f = ''removed '' @ kind @ '' field '' @ quoted_text (fst f)"

definition find_field :: "string \<Rightarrow> field_shape list \<Rightarrow> field_shape option" where
  "find_field name fs = List.find (\<lambda>f. fst f = name) fs"

text \<open>The first two loops add or retype the fields of the current schema, the last two remove.\<close>

definition kept_fields :: "string \<Rightarrow> string \<Rightarrow> field_shape list \<Rightarrow> field_shape list \<Rightarrow> (string \<times> string) list" where
  "kept_fields topic kind prev cur = concat (map (\<lambda>f. case find_field (fst f) prev of
      None \<Rightarrow> [(topic, added_text kind f)]
    | Some p \<Rightarrow> if snd p \<noteq> snd f then [(topic, retyped_text kind f (snd p))] else []) cur)"

definition lost_fields :: "string \<Rightarrow> string \<Rightarrow> field_shape list \<Rightarrow> field_shape list \<Rightarrow> (string \<times> string) list" where
  "lost_fields topic kind prev cur =
    map (\<lambda>p. (topic, removed_text kind p)) (filter (\<lambda>p. find_field (fst p) cur = None) prev)"

definition schema_changes :: "schema_shape \<Rightarrow> schema_shape \<Rightarrow> (string \<times> string) list" where
  "schema_changes p c = (let t = sh_topic c in
     kept_fields t ''topic'' (sh_topicFields p) (sh_topicFields c) @ kept_fields t ''payload'' (sh_payloadFields p) (sh_payloadFields c) @
     lost_fields t ''topic'' (sh_topicFields p) (sh_topicFields c) @ lost_fields t ''payload'' (sh_payloadFields p) (sh_payloadFields c))"

definition diffSnapshots :: "SchemaSnapshot \<Rightarrow> SchemaSnapshot \<Rightarrow> SchemaDiff" where
  "diffSnapshots prev cur =
    (let prevTopics = set_of (map sh_topic (sn_schemas prev)); currTopics = set_of (map sh_topic (sn_schemas cur)) in
     \<lparr>sd_added = filter (\<lambda>t. t \<notin> set prevTopics) currTopics,
      sd_removed = filter (\<lambda>t. t \<notin> set currTopics) prevTopics,
      sd_fieldChanges = concat (map (\<lambda>c. case List.find (\<lambda>s. sh_topic s = sh_topic c) (sn_schemas prev) of
          None \<Rightarrow> [] | Some p \<Rightarrow> schema_changes p c) (sn_schemas cur))\<rparr>)"

definition change_breaks :: "string \<Rightarrow> bool" where
  "change_breaks change \<longleftrightarrow> take 8 change = ''removed '' \<or> occurs_in ''type changed'' change"

definition hasBreakingChanges :: "SchemaDiff \<Rightarrow> bool" where
  "hasBreakingChanges diff \<longleftrightarrow> sd_removed diff \<noteq> [] \<or> list_ex (\<lambda>c. change_breaks (snd c)) (sd_fieldChanges diff)"

text \<open>What the script runs: the topics it finds new, whether it found a breaking change, its exit code.\<close>

definition schema_check :: "SchemaSnapshot \<Rightarrow> string list \<times> bool \<times> nat" where
  "schema_check snapshot =
    (let topics = map sh_topic (sn_schemas snapshot);
         added = filter (\<lambda>t. length (filter (\<lambda>u. u \<noteq> t) topics) = length topics) topics;
         breaking = hasBreakingChanges \<lparr>sd_added = added, sd_removed = [], sd_fieldChanges = []\<rparr> in
     (added, breaking, if breaking then 1 else 0))"

text \<open>
  The comparison finds a breaking change wherever a topic or a field is lost or a field gets
  another type.
\<close>

lemma occurs_in_append: "occurs_in w (w @ s)"
proof (cases "w @ s")
  case (Cons a r)
  have "take (length w) (w @ s) = w" by simp
  then show ?thesis unfolding Cons by simp
qed simp

lemma occurs_in_prefix: "occurs_in w s \<Longrightarrow> occurs_in w (r @ s)"
  by (induction r) simp_all

lemma removed_breaks [simp]: "change_breaks (removed_text kind f)"
  by (simp add: change_breaks_def removed_text_def)

lemma retyped_breaks [simp]: "change_breaks (retyped_text kind f old)"
proof -
  have "retyped_text kind f old = (kind @ '' field '' @ quoted_text (fst f) @ '' '') @ ''type changed'' @
      ('' from '' @ quoted_text old @ '' to '' @ quoted_text (snd f))"
    by (simp add: retyped_text_def)
  then have "occurs_in ''type changed'' (retyped_text kind f old)"
    using occurs_in_prefix [OF occurs_in_append] by metis
  then show ?thesis by (simp add: change_breaks_def)
qed

definition fields_broken :: "field_shape list \<Rightarrow> field_shape list \<Rightarrow> bool" where
  "fields_broken prev cur \<longleftrightarrow> list_ex (\<lambda>p. find_field (fst p) cur = None) prev \<or>
     list_ex (\<lambda>f. case find_field (fst f) prev of None \<Rightarrow> False | Some p \<Rightarrow> snd p \<noteq> snd f) cur"

definition schema_broken :: "schema_shape \<Rightarrow> schema_shape \<Rightarrow> bool" where
  "schema_broken p c \<longleftrightarrow> fields_broken (sh_topicFields p) (sh_topicFields c) \<or> fields_broken (sh_payloadFields p) (sh_payloadFields c)"

definition snapshot_broken :: "SchemaSnapshot \<Rightarrow> SchemaSnapshot \<Rightarrow> bool" where
  "snapshot_broken prev cur \<longleftrightarrow> (\<exists>p \<in> set (sn_schemas prev). sh_topic p \<notin> sh_topic ` set (sn_schemas cur)) \<or>
     list_ex (\<lambda>c. case List.find (\<lambda>s. sh_topic s = sh_topic c) (sn_schemas prev) of None \<Rightarrow> False | Some p \<Rightarrow> schema_broken p c) (sn_schemas cur)"

definition plain_fields :: "schema_shape \<Rightarrow> bool" where
  "plain_fields c \<longleftrightarrow> list_all (\<lambda>f. \<not> occurs_in ''type changed'' (added_text ''topic'' f)) (sh_topicFields c) \<and>
     list_all (\<lambda>f. \<not> occurs_in ''type changed'' (added_text ''payload'' f)) (sh_payloadFields c)"

lemma kept_breaks:
  assumes "list_all (\<lambda>f. \<not> occurs_in ''type changed'' (added_text kind f)) cur"
  shows "list_ex (\<lambda>c. change_breaks (snd c)) (kept_fields t kind prev cur) \<longleftrightarrow>
    list_ex (\<lambda>f. case find_field (fst f) prev of None \<Rightarrow> False | Some p \<Rightarrow> snd p \<noteq> snd f) cur"
proof -
  have "\<not> change_breaks (added_text kind f)" if "f \<in> set cur" for f
    using assms that by (auto simp: change_breaks_def list_all_iff) (simp add: added_text_def)
  then have "list_ex (\<lambda>c. change_breaks (snd c)) (case find_field (fst f) prev of None \<Rightarrow> [(t, added_text kind f)]
      | Some p \<Rightarrow> if snd p \<noteq> snd f then [(t, retyped_text kind f (snd p))] else []) \<longleftrightarrow>
      (case find_field (fst f) prev of None \<Rightarrow> False | Some p \<Rightarrow> snd p \<noteq> snd f)" if "f \<in> set cur" for f
    using that by (cases "find_field (fst f) prev") simp_all
  moreover have "list_ex P (concat (map g cur)) \<longleftrightarrow> (\<exists>f \<in> set cur. list_ex P (g f))" for P and g :: "field_shape \<Rightarrow> (string \<times> string) list"
    by (auto simp: list_ex_iff)
  ultimately show ?thesis unfolding kept_fields_def by (simp add: list_ex_iff [of _ cur])
qed

lemma lost_breaks:
  "list_ex (\<lambda>c. change_breaks (snd c)) (lost_fields t kind prev cur) \<longleftrightarrow> list_ex (\<lambda>p. find_field (fst p) cur = None) prev"
  by (induction prev) (auto simp: lost_fields_def)

lemma changes_break: "plain_fields c \<Longrightarrow> list_ex (\<lambda>c. change_breaks (snd c)) (schema_changes p c) \<longleftrightarrow> schema_broken p c"
  by (auto simp: schema_changes_def plain_fields_def kept_breaks lost_breaks schema_broken_def fields_broken_def Let_def)

lemma hasBreakingChanges_iff:
  assumes "\<And>c. c \<in> set (sn_schemas cur) \<Longrightarrow> plain_fields c"
  shows "hasBreakingChanges (diffSnapshots prev cur) \<longleftrightarrow> snapshot_broken prev cur"
proof -
  have "sd_removed (diffSnapshots prev cur) \<noteq> [] \<longleftrightarrow> (\<exists>p \<in> set (sn_schemas prev). sh_topic p \<notin> sh_topic ` set (sn_schemas cur))"
    by (simp add: diffSnapshots_def Let_def filter_empty_conv set_set_of)
  moreover have "list_ex (\<lambda>c. change_breaks (snd c)) (sd_fieldChanges (diffSnapshots prev cur)) \<longleftrightarrow>
      (\<exists>c \<in> set (sn_schemas cur). list_ex (\<lambda>c. change_breaks (snd c))
        (case List.find (\<lambda>s. sh_topic s = sh_topic c) (sn_schemas prev) of None \<Rightarrow> [] | Some p \<Rightarrow> schema_changes p c))"
    by (auto simp: diffSnapshots_def Let_def list_ex_iff)
  moreover have "list_ex (\<lambda>c. change_breaks (snd c)) (case o' of None \<Rightarrow> [] | Some p \<Rightarrow> schema_changes p c) \<longleftrightarrow>
      (case o' of None \<Rightarrow> False | Some p \<Rightarrow> schema_broken p c)" if "c \<in> set (sn_schemas cur)" for c o'
    using changes_break [OF assms [OF that]] by (cases o') auto
  ultimately show ?thesis by (auto simp: hasBreakingChanges_def snapshot_broken_def list_ex_iff)
qed

text \<open>
  The script never calls the comparison.  It looks for a topic that the snapshot without that
  topic does not lack, so it finds nothing new and nothing broken, whatever the schemas are.
\<close>

lemma schema_check_blind: "schema_check snapshot = ([], False, 0)"
proof -
  have "length (filter (\<lambda>u. u \<noteq> t) ts) \<noteq> length ts" if "t \<in> set ts" for t and ts :: "string list"
    using that length_filter_less [of t ts "\<lambda>u. u \<noteq> t"] by simp
  then have "filter (\<lambda>t. length (filter (\<lambda>u. u \<noteq> t) ts) = length ts) ts = []" for ts :: "string list"
    by (simp add: filter_empty_conv)
  then show ?thesis by (simp add: schema_check_def Let_def hasBreakingChanges_def)
qed

end
