(* ===== verification/Env_Config.thy ===== *)
theory Env_Config
  imports Js_Values
begin

text \<open>
  Configuration of the backend: the validation of the environment at start-up
  (\<^verbatim>\<open>config/env.validation.ts\<close>), the connection options of the database in the four places that
  build them (\<^verbatim>\<open>config/database.config.ts\<close>, \<^verbatim>\<open>app.module.ts\<close>, \<^verbatim>\<open>database/database.config.ts\<close>,
  \<^verbatim>\<open>data-source.ts\<close>), the request limits of the application module and error tracking
  (\<^verbatim>\<open>common/sentry/sentry.ts\<close>).  Conversion and checking of the validated class, the parsing of
  a URL, the configuration service and the tracking client are parameters.
\<close>

section \<open>The address of the node\<close>

datatype NodeEnv = Development | Production | Test

fun node_env_name :: "NodeEnv \<Rightarrow> string" where
  "node_env_name Development = ''development''"
| "node_env_name Production = ''production''"
| "node_env_name Test = ''test''"

datatype EnvStellarNetwork = Env_testnet | Env_mainnet

fun stellar_network_name :: "EnvStellarNetwork \<Rightarrow> string" where
  "stellar_network_name Env_testnet = ''testnet''"
| "stellar_network_name Env_mainnet = ''mainnet''"

record parsed_url =
  pu_protocol :: string
  pu_hostname :: string

text \<open>The parser throws on a text that is no URL, which is \<^term>\<open>None\<close>.\<close>

definition isSafeRpcUrl :: "(string \<Rightarrow> parsed_url option) \<Rightarrow> js \<Rightarrow> string \<Rightarrow> bool" where
  "isSafeRpcUrl parse_url env text' =
    (if text' = [] then False
     else case parse_url text' of
       None \<Rightarrow> False
     | Some url \<Rightarrow>
         if env = Str (node_env_name Production) \<or> env = Str (node_env_name Test) then pu_protocol url = ''https:''
         else if pu_protocol url = ''http:'' then pu_hostname url = ''localhost'' \<or> pu_hostname url = ''127.0.0.1''
         else pu_protocol url = ''https:'')"

section \<open>The variables\<close>

text \<open>The checks the class declares for a variable, in the order of the source (\<^verbatim>\<open>At_least\<close> and
  \<^verbatim>\<open>At_most\<close> are \<^verbatim>\<open>Min\<close> and \<^verbatim>\<open>Max\<close>), and its default.\<close>

datatype env_check = IsOptional | IsNotEmpty | IsString | IsInt | At_least int | At_most int | IsEnum "string list" | IsUrl bool | IsSafeRpcUrl

record env_variable =
  ev_name :: string
  ev_checks :: "env_check list"
  ev_default :: "js option"

definition required_text :: "string \<Rightarrow> env_variable" where
  "required_text name = \<lparr>ev_name = name, ev_checks = [IsNotEmpty, IsString], ev_default = None\<rparr>"

definition EnvironmentVariables :: "env_variable list" where
  "EnvironmentVariables = [
    \<lparr>ev_name = ''NODE_ENV'', ev_checks = [IsOptional, IsEnum (map node_env_name [Development, Production, Test])],
      ev_default = Some (Str (node_env_name Development))\<rparr>,
    \<lparr>ev_name = ''PORT'', ev_checks = [IsOptional, IsInt, At_least 1, At_most 65535], ev_default = Some (Num (num 3000))\<rparr>,
    required_text ''DB_HOST'',
    \<lparr>ev_name = ''DB_PORT'', ev_checks = [IsOptional, IsInt, At_least 1, At_most 65535], ev_default = Some (Num (num 5432))\<rparr>,
    required_text ''DB_USERNAME'', required_text ''DB_PASSWORD'', required_text ''DB_NAME'', required_text ''JWT_SECRET'',
    \<lparr>ev_name = ''FRONTEND_URL'', ev_checks = [IsOptional, IsUrl False], ev_default = Some (Str ''http://localhost:3000'')\<rparr>,
    \<lparr>ev_name = ''SOROBAN_RPC_URL'', ev_checks = [IsNotEmpty, IsSafeRpcUrl], ev_default = None\<rparr>,
    required_text ''SOROBAN_CORE_GAME_CONTRACT_ID'',
    \<lparr>ev_name = ''SOROBAN_NETWORK'', ev_checks = [IsOptional, IsEnum (map stellar_network_name [Env_testnet, Env_mainnet])],
      ev_default = Some (Str (stellar_network_name Env_testnet))\<rparr>,
    \<lparr>ev_name = ''INDEXER_MAX_PAYLOAD_BYTES'', ev_checks = [IsOptional, IsInt, At_least 1], ev_default = Some (Num (num 8192))\<rparr>]"

text \<open>
  The checker answers an error for each variable that fails: its constraints with their messages,
  or none.  The converter and the checker get the declarations.
\<close>

definition startup_report :: "string \<Rightarrow> string" where
  "startup_report messages = ''Environment validation failed at startup:'' @ [CHR 0x0A] @ ''  '' @ messages @ [CHR 0x0A, CHR 0x0A] @
     ''Check your .env file or deployment config.''"

definition validateEnv ::
    "(env_variable list \<Rightarrow> js_record \<Rightarrow> js_record) \<Rightarrow> (env_variable list \<Rightarrow> js_record \<Rightarrow> (string \<times> string) list option list) \<Rightarrow>
     js_record \<Rightarrow> js_error + js_record" where
  "validateEnv plainToInstance validateSync config =
    (let validated = plainToInstance EnvironmentVariables config; errors = validateSync EnvironmentVariables validated in
     if errors \<noteq> [] then
       let messages = intersperse ([CHR 0x0A] @ ''  '') (concat (map (\<lambda>e. case e of None \<Rightarrow> [] | Some cs \<Rightarrow> map snd cs) errors)) in
       Inl (JsError ''Error'' (startup_report messages) [])
     else Inr validated)"

section \<open>Settings\<close>

text \<open>\<^verbatim>\<open>Number.parseInt(get(k) ?? d, 10)\<close> for the environment and for the configuration service.\<close>

definition env_int :: "(string \<Rightarrow> string option) \<Rightarrow> string \<Rightarrow> string \<Rightarrow> jsnum" where
  "env_int env k d = js_parseInt (case env k of Some s \<Rightarrow> s | None \<Rightarrow> d)"

definition setting_int :: "host \<Rightarrow> (string \<Rightarrow> js) \<Rightarrow> string \<Rightarrow> string \<Rightarrow> jsnum" where
  "setting_int h get k d = js_parseInt (js_String h (coalesce (get k) (Str d)))"

text \<open>\<^verbatim>\<open>true\<close> stands for an encrypted connection whose certificate is not checked.\<close>

record database_options =
  do_host :: js
  do_port :: jsnum
  do_username :: js
  do_password :: js
  do_database :: js
  do_ssl :: bool
  do_synchronize :: bool
  do_logging :: bool

record database_retry =
  ro_retryAttempts :: jsnum
  ro_retryDelay :: jsnum

record pool_options =
  po_max :: jsnum
  po_min :: jsnum
  po_connectionTimeoutMillis :: jsnum
  po_idleTimeoutMillis :: jsnum
  po_statement_timeout :: jsnum
  po_query_timeout :: jsnum
  po_maxUses :: jsnum

definition env_text :: "(string \<Rightarrow> string option) \<Rightarrow> string \<Rightarrow> string \<Rightarrow> string" where
  "env_text env k d = (case env k of Some s \<Rightarrow> s | None \<Rightarrow> d)"

definition databaseConfig :: "(string \<Rightarrow> string option) \<Rightarrow> database_options \<times> database_retry" where
  "databaseConfig env =
    (let nodeEnv = env_text env ''NODE_ENV'' ''development'' in
     (\<lparr>do_host = Str (env_text env ''DB_HOST'' ''localhost''), do_port = env_int env ''DB_PORT'' ''5432'',
       do_username = Str (env_text env ''DB_USERNAME'' ''postgres''), do_password = Str (env_text env ''DB_PASSWORD'' ''postgres''),
       do_database = Str (env_text env ''DB_NAME'' ''dewordle''), do_ssl = (env ''DB_SSL'' = Some ''true''),
       do_synchronize = (nodeEnv = ''development''), do_logging = (nodeEnv = ''development'')\<rparr>,
      \<lparr>ro_retryAttempts = env_int env ''DB_RETRY_ATTEMPTS'' ''10'', ro_retryDelay = env_int env ''DB_RETRY_DELAY_MS'' ''2000''\<rparr>))"

definition pool_settings :: "host \<Rightarrow> (string \<Rightarrow> js) \<Rightarrow> pool_options" where
  "pool_settings h get = \<lparr>po_max = setting_int h get ''DB_POOL_MAX'' ''20'', po_min = setting_int h get ''DB_POOL_MIN'' ''2'',
     po_connectionTimeoutMillis = setting_int h get ''DB_POOL_CONNECTION_TIMEOUT_MS'' ''10000'',
     po_idleTimeoutMillis = setting_int h get ''DB_POOL_IDLE_TIMEOUT_MS'' ''30000'',
     po_statement_timeout = setting_int h get ''DB_POOL_STATEMENT_TIMEOUT_MS'' ''10000'',
     po_query_timeout = setting_int h get ''DB_POOL_QUERY_TIMEOUT_MS'' ''10000'',
     po_maxUses = setting_int h get ''DB_POOL_MAX_USES'' ''7500''\<rparr>"

definition app_database :: "host \<Rightarrow> (string \<Rightarrow> js) \<Rightarrow> database_options \<times> pool_options" where
  "app_database h get =
    (\<lparr>do_host = get ''DB_HOST'', do_port = setting_int h get ''DB_PORT'' ''5432'', do_username = get ''DB_USERNAME'',
      do_password = get ''DB_PASSWORD'', do_database = get ''DB_NAME'', do_ssl = (get ''DB_SSL'' = Str ''true''),
      do_synchronize = (get ''NODE_ENV'' = Str ''development''), do_logging = (get ''NODE_ENV'' = Str ''development'')\<rparr>,
     pool_settings h get)"

definition AppDataSource :: "host \<Rightarrow> (string \<Rightarrow> js) \<Rightarrow> database_options \<times> pool_options" where
  "AppDataSource h get =
    (\<lparr>do_host = get ''DB_HOST'', do_port = setting_int h get ''DB_PORT'' ''5432'', do_username = get ''DB_USERNAME'',
      do_password = get ''DB_PASSWORD'', do_database = get ''DB_NAME'', do_ssl = (get ''DB_SSL'' = Str ''true''),
      do_synchronize = False, do_logging = (get ''NODE_ENV'' = Str ''development'')\<rparr>,
     pool_settings h get)"

text \<open>Which file the command-line data source reads; a set but empty path counts as not set.\<close>

definition env_file :: "(string \<Rightarrow> string option) \<Rightarrow> string" where
  "env_file env = (case env ''ENV_FILE_PATH'' of
      Some (c # p) \<Rightarrow> c # p
    | _ \<Rightarrow> if env ''NODE_ENV'' = Some ''production'' then ''.env'' else ''.env.development'')"

record tuned_options =
  to_url :: "string option"
  to_ssl :: bool
  to_max :: jsnum
  to_min :: jsnum
  to_idleTimeoutMillis :: jsnum
  to_statement_timeout :: jsnum
  to_connectionTimeoutMillis :: jsnum
  to_synchronize :: bool
  to_logging :: "string list"
  to_migrations :: "string list"
  to_migrationsRun :: bool

definition getDatabaseConfig :: "(string \<Rightarrow> string option) \<Rightarrow> tuned_options" where
  "getDatabaseConfig env =
    (let isProduction = (env ''NODE_ENV'' = Some ''production'') in
     \<lparr>to_url = env ''DATABASE_URL'', to_ssl = isProduction, to_max = env_int env ''DB_POOL_MAX'' ''20'', to_min = env_int env ''DB_POOL_MIN'' ''2'',
      to_idleTimeoutMillis = num 30000, to_statement_timeout = num 10000, to_connectionTimeoutMillis = num 5000,
      to_synchronize = (\<not> isProduction), to_logging = (if isProduction then [''error''] else [''query'', ''error'', ''warn'']),
      to_migrations = (if isProduction then [''dist/migrations/*.js''] else []), to_migrationsRun = isProduction\<rparr>)"

record throttler =
  th_ttl :: jsnum
  th_limit :: jsnum

definition throttlers :: "host \<Rightarrow> (string \<Rightarrow> js) \<Rightarrow> throttler list" where
  "throttlers h get = map (\<lambda>(k, d). \<lparr>th_ttl = num_mul (setting_int h get ''RATE_LIMIT_TTL'' ''60'') (num 1000), th_limit = setting_int h get k d\<rparr>)
    [(''RATE_LIMIT_AUTH'', ''5''), (''RATE_LIMIT_GAME_SESSIONS'', ''30''), (''RATE_LIMIT_READ_API'', ''100'')]"

section \<open>Error tracking\<close>

record SentryConfig =
  sc_dsn :: "string option"
  sc_environment :: string
  sc_release :: "string option"
  sc_tracesSampleRate :: jsnum
  sc_profilesSampleRate :: jsnum
  sc_sendDefaultPii :: bool

definition buildSentryConfig :: "(string \<Rightarrow> string option) \<Rightarrow> SentryConfig" where
  "buildSentryConfig env = \<lparr>sc_dsn = env ''SENTRY_DSN'', sc_environment = env_text env ''NODE_ENV'' ''development'',
     sc_release = env ''npm_package_version'',
     sc_tracesSampleRate = (if env ''NODE_ENV'' = Some ''production'' then Fin (1 / 10) else Fin 1),
     sc_profilesSampleRate = Fin (1 / 10), sc_sendDefaultPii = False\<rparr>"

definition ends_with :: "string \<Rightarrow> string \<Rightarrow> bool" where
  "ends_with w s \<longleftrightarrow> length w \<le> length s \<and> drop (length s - length w) s = w"

definition beforeSend :: "js_record \<Rightarrow> js_record option" where
  "beforeSend event = (case get_prop event ''request'' of
      Obj req \<Rightarrow> (case get_prop req ''url'' of Str u \<Rightarrow> if ends_with ''/health'' u then None else Some event | _ \<Rightarrow> Some event)
    | _ \<Rightarrow> Some event)"

text \<open>Whether the packages load is a parameter; the client then starts or throws.\<close>

datatype sentry_start = No_dsn | Not_installed | Started SentryConfig

definition initSentry :: "(string \<Rightarrow> string option) \<Rightarrow> (SentryConfig \<Rightarrow> bool) \<Rightarrow> sentry_start" where
  "initSentry env starts =
    (let config = buildSentryConfig env in
     if sc_dsn config = None \<or> sc_dsn config = Some [] then No_dsn
     else if starts config then Started config else Not_installed)"

section \<open>What the configuration guarantees\<close>

text \<open>
  An accepted address is an encrypted one, or a local one outside production and test; which
  includes an environment that is not named at all.
\<close>

lemma isSafeRpcUrl_iff:
  "isSafeRpcUrl parse_url env t \<longleftrightarrow> t \<noteq> [] \<and> (\<exists>url. parse_url t = Some url \<and>
     (pu_protocol url = ''https:'' \<or> env \<notin> Str ` {''production'', ''test''} \<and> pu_protocol url = ''http:'' \<and>
        pu_hostname url \<in> {''localhost'', ''127.0.0.1''}))"
  by (auto simp: isSafeRpcUrl_def split: option.splits)

text \<open>A variable has a default exactly when it may be left out.\<close>

lemma optional_have_defaults: "\<forall>v \<in> set EnvironmentVariables. ev_default v \<noteq> None \<longleftrightarrow> IsOptional \<in> set (ev_checks v)"
  by (simp add: EnvironmentVariables_def required_text_def)

lemma variables_distinct: "distinct (map ev_name EnvironmentVariables)"
  by (simp add: EnvironmentVariables_def required_text_def)

lemma validateEnv_ok:
  "validateEnv conv check config = Inr v \<longleftrightarrow>
     v = conv EnvironmentVariables config \<and> check EnvironmentVariables v = []"
  by (auto simp: validateEnv_def Let_def)

lemma in_intersperse: "x \<in> set xs \<Longrightarrow> \<exists>a b. intersperse sep xs = a @ x @ b"
proof (induction xs)
  case (Cons y ys)
  show ?case
  proof (cases "x = y")
    case True
    then have "intersperse sep (y # ys) = [] @ x @ (if ys = [] then [] else sep @ intersperse sep ys)" by simp
    then show ?thesis by blast
  next
    case False
    then have "x \<in> set ys" using Cons.prems by simp
    then obtain a b where "intersperse sep ys = a @ x @ b" and "ys \<noteq> []" using Cons.IH by (cases ys) auto
    then have "intersperse sep (y # ys) = (y @ sep @ a) @ x @ b" by simp
    then show ?thesis by blast
  qed
qed simp

text \<open>A refusal reports every failed constraint of every variable at once.\<close>

lemma validateEnv_reports_all:
  assumes "Some cs \<in> set (check EnvironmentVariables (conv EnvironmentVariables config))" and "(k, m) \<in> set cs"
  shows "\<exists>e a b. validateEnv conv check config = Inl e \<and> err_message e = a @ m @ b"
proof -
  let ?errors = "check EnvironmentVariables (conv EnvironmentVariables config)"
  let ?ms = "concat (map (\<lambda>e. case e of None \<Rightarrow> [] | Some cs \<Rightarrow> map snd cs) ?errors)"
  have "m \<in> set ?ms" using assms by force
  then obtain a b where "intersperse ([CHR 0x0A] @ ''  '') ?ms = a @ m @ b" using in_intersperse by blast
  moreover have "?errors \<noteq> []" using assms by auto
  ultimately have "validateEnv conv check config = Inl (JsError ''Error'' (startup_report (a @ m @ b)) [])"
    by (simp add: validateEnv_def Let_def)
  moreover have "startup_report (a @ m @ b) = (''Environment validation failed at startup:'' @ [CHR 0x0A] @ ''  '' @ a) @ m @
      (b @ [CHR 0x0A, CHR 0x0A] @ ''Check your .env file or deployment config.'')"
    by (simp add: startup_report_def)
  ultimately show ?thesis by (metis js_error.sel(2))
qed

text \<open>In production no place lets the object-relational mapper change the schema on its own.\<close>

lemma production_never_synchronizes:
  assumes "env ''NODE_ENV'' = Some ''production''" and "get ''NODE_ENV'' = Str ''production''"
  shows "\<not> do_synchronize (fst (databaseConfig env))" "\<not> do_synchronize (fst (app_database h get))"
    "\<not> do_synchronize (fst (AppDataSource h get))" "\<not> to_synchronize (getDatabaseConfig env)"
  using assms by (simp_all add: databaseConfig_def app_database_def AppDataSource_def getDatabaseConfig_def env_text_def)

text \<open>
  With every variable set, the application module builds the options of the factory.  It does so
  itself: the retry settings have no effect on it, and without variables its options are others.
\<close>

definition lookup_js :: "(string \<Rightarrow> string option) \<Rightarrow> string \<Rightarrow> js" where
  "lookup_js env k = opt_str (env k)"

lemma module_matches_factory:
  assumes "\<forall>k \<in> {''DB_HOST'', ''DB_USERNAME'', ''DB_PASSWORD'', ''DB_NAME'', ''NODE_ENV''}. env k \<noteq> None"
  shows "fst (app_database h (lookup_js env)) = fst (databaseConfig env)"
proof -
  have i: "js_String h (coalesce (opt_str x) (Str d)) = (case x of Some s \<Rightarrow> s | None \<Rightarrow> d)" for x d by (cases x) auto
  have t: "opt_str x = Str a \<longleftrightarrow> x = Some a" for x a by (cases x) auto
  obtain a b c d e where "env ''DB_HOST'' = Some a" "env ''DB_USERNAME'' = Some b" "env ''DB_PASSWORD'' = Some c"
    "env ''DB_NAME'' = Some d" "env ''NODE_ENV'' = Some e" using assms by auto
  then show ?thesis
    by (simp add: app_database_def databaseConfig_def lookup_js_def setting_int_def env_int_def env_text_def i t)
qed

lemma module_ignores_factory:
  "app_database h (get(''DB_RETRY_ATTEMPTS'' := v, ''DB_RETRY_DELAY_MS'' := w)) = app_database h get"
  "fst (app_database h (lookup_js Map.empty)) \<noteq> fst (databaseConfig Map.empty)"
  by (simp_all add: app_database_def pool_settings_def setting_int_def databaseConfig_def lookup_js_def Let_def)

text \<open>Without settings the three limits are five, thirty and a hundred requests a minute.\<close>

lemma default_throttlers:
  assumes "\<And>k. get k = Undef"
  shows "throttlers h get = map (\<lambda>n. \<lparr>th_ttl = num 60000, th_limit = num n\<rparr>) [5, 30, 100]"
  using assms by (simp add: throttlers_def setting_int_def js_parseInt_def read_nat_def is_digit_def char_in_def js_space_def
      num_mul_def Let_def)

text \<open>Tracking starts only with a data source name, never sends personal data, and leaves out health checks.\<close>

lemma sentry_started:
  "initSentry env starts = Started c \<Longrightarrow> \<not> sc_sendDefaultPii c \<and> (\<exists>d. d \<noteq> [] \<and> sc_dsn c = Some d \<and> env ''SENTRY_DSN'' = Some d)"
  by (auto simp: initSentry_def Let_def buildSentryConfig_def split: if_splits)

lemma ends_with_iff: "ends_with w s \<longleftrightarrow> (\<exists>r. s = r @ w)"
proof
  assume "ends_with w s"
  then have "s = take (length s - length w) s @ w" by (metis append_take_drop_id ends_with_def)
  then show "\<exists>r. s = r @ w" by blast
qed (auto simp: ends_with_def)

lemma beforeSend_none:
  "beforeSend event = None \<longleftrightarrow> (\<exists>req r. get_prop event ''request'' = Obj req \<and> get_prop req ''url'' = Str (r @ ''/health''))"
  by (auto simp: beforeSend_def ends_with_iff split: js.splits)

lemma beforeSend_unchanged: "beforeSend event = Some e \<Longrightarrow> e = event"
  by (auto simp: beforeSend_def split: js.splits if_splits)

end
