(* ===== verification/Spec2Isabelle.thy ===== *)
theory Spec2Isabelle
  imports Wordle_Engine Indexer_Queue Indexer_Poll Auth_Service Dictionary_Helper Words
    Word_Scheduler Game_Sessions Matchmaking Sdk_Network Sdk_Client Sdk_Wallet Sdk_Events
    Indexer_Records Sanitization Client_Words Client_Statistics Client_Stores Client_Flow Client_Sync
    Client_Settings Client_View Pool_Pressure Background_Jobs Dictionary_Service Security_Monitor Read_Api
    Js_Dates Js_Doubles Digest_Template Digest_Service
    Word_Suggestions User_Stats Session_Analytics Http_Errors Http_Middleware
    Access_Control Response_Mappers Api_Handlers Api_Operations
    Word_Seeding Web_Auth Contract_Reads Client_Panels Client_Pages Rpc_Proxy Issue_Triage Dependency_Links
    Release_Checks Env_Config
begin

text \<open>
  A verification library for the TypeScript of DeWordle, a word game with a Soroban contract
  behind it: the backend's game engine, its sign-in, word, session and matchmaking services, and
  the indexer that reads contract events from an RPC node into database projections, the client
  library that builds, submits and follows the transactions of the contract, the web client's
  stores and screens, and some of the maintenance scripts.

  \<^bold>\<open>The program.\<close>  The backend (\<^verbatim>\<open>backend/src\<close>) is a set of services with injected dependencies:
  repositories of an object-relational mapper, a key-value server, an HTTP client, a clock and
  configuration.  \<^verbatim>\<open>dewordle/wordle.engine.ts\<close> marks a guess; \<^verbatim>\<open>game-sessions/\<close> plays it against
  the session's solution, which \<^verbatim>\<open>dewordle/words/\<close> chose and \<^verbatim>\<open>utils/dictionary.helper.ts\<close>
  enriched.  \<^verbatim>\<open>auth/\<close> and \<^verbatim>\<open>user/\<close> sign players in behind a lockout, and exchange refresh
  tokens.  \<^verbatim>\<open>matchmaking/\<close> pairs waiting players.  \<^verbatim>\<open>indexer/\<close> polls the RPC node: a cycle reads
  the cursor of its stream, fetches raw events past it, checks and normalizes them, sorts them by
  stream position and ingests each one, which deduplicates, stores, projects and checkpoints it.
  The client library (\<^verbatim>\<open>soroban/sdk/ts\<close>) loads a registry of contract addresses, checks that a
  contract is compatible, builds calls and polls for their results, and decodes events.

  \<^bold>\<open>How the model corresponds to it.\<close>  A method is a function from the state of its object to a
  thrown error or a result and a new state (\<^verbatim>\<open>act\<close> in Prelude); what was mutated before a
  throw stays mutated.  A service that calls another contains its state, and \<^verbatim>\<open>zoom\<close> runs the
  callee on it.  A repository, the key-value server, the HTTP client, collation, the digest,
  password hashing, random values and the clock are parameters.  What the services rely on of
  them is stated as predicates (\<^verbatim>\<open>repo_ok\<close>, \<^verbatim>\<open>redis_ok\<close>, \<^verbatim>\<open>transaction_ok\<close>, \<^verbatim>\<open>collation\<close>),
  which in-memory implementations meet; the witnesses run on those.  Numbers are rationals with
  the infinities and \<^verbatim>\<open>NaN\<close> (\<^verbatim>\<open>jsnum\<close>): rounding to double precision is not modelled.
  Strings are ASCII.  Logging is left out.  A method runs to completion before the next one
  starts; the interleavings modelled are those of whole methods, timers included.

  \<^bold>\<open>The theories.\<close>
  \<^item> Prelude: methods with state and exceptions, the stable array sort and the locale of a
    comparator, the insertion-ordered map and the locale of a key-value store.
  \<^item> Js_Strings, Js_Values: the string methods, numbers, parsed values, conversions,
    \<^verbatim>\<open>JSON.stringify\<close>, and the locale of collation with code-unit order as its model.
  \<^item> Repository: the persistence interface, tables with a unique key, and the upsert lemma that
    every service with such a table uses.
  \<^item> Wordle_Engine: \<^verbatim>\<open>dewordle/wordle.engine.ts\<close> against a declarative marking rule.
  \<^item> Event_Ordering, Indexer_Queue: stream positions and the comparator on events
    (\<^verbatim>\<open>processors/event-ordering.util.ts\<close>), the bounded queue (\<^verbatim>\<open>queue/indexer-queue.service.ts\<close>)
    and the locale of a bounded queue.
  \<^item> Rpc_Validator, Event_Normalizer: the structural and the semantic check of raw events.
  \<^item> Event_Dedup: the deduplication keys and the replay alert.
  \<^item> Cursor_Service, Projection_Service, Admin_Registry, Event_Hash, Event_Processor: the tables
    the indexer keeps.  Each has an abstract view (a position per stream, a map of session
    columns, a role per address, the set of stored keys) and lemmas that every method refines an
    operation on it or leaves it alone.
  \<^item> Indexer_Service, Indexer_Poll: the poll cycle and what it guarantees, from the relation
    \<^verbatim>\<open>advances\<close> that every step, failed ones included, satisfies to the refinement of a
    fault-free cycle.
  \<^item> Login_Attempts, Account_Lockout: the counters behind the sign-in, in memory and over the
    server (\<^verbatim>\<open>auth/login-attempt.store.ts\<close>), the locale of a counter store, and the lock with
    its doubling time (\<^verbatim>\<open>auth/account-lockout.service.ts\<close>).
  \<^item> Refresh_Tokens: token families (\<^verbatim>\<open>auth/refresh-token.service.ts\<close>), the states a service
    can reach, the invariant that a family has one token left to exchange, and the session limit.
    What the mapper makes of a null in a condition is a parameter of these theories.
  \<^item> User_Service, Auth_Service: the user table (\<^verbatim>\<open>user/user.service.ts\<close>) and the composition of
    lockout, users and tokens into the sign-in endpoints (\<^verbatim>\<open>auth/auth.service.ts\<close>).
  \<^item> Words, Dictionary_Helper, Word_Service, Word_Scheduler: the word cache and its agreement with
    the table (\<^verbatim>\<open>words/word-cache.service.ts\<close>, \<^verbatim>\<open>word-validation.service.ts\<close>), the enrichment
    cache as a least-recently-used list (\<^verbatim>\<open>utils/dictionary.helper.ts\<close>), scoring and dictionary
    validation (\<^verbatim>\<open>words/words.service.ts\<close> and its providers), the daily rotation with its retries
    (\<^verbatim>\<open>words/word.scheduler.ts\<close>).
  \<^item> Game_Sessions: sessions, guesses and the leaderboard (\<^verbatim>\<open>game-sessions/\<close>, \<^verbatim>\<open>leaderboard/\<close>),
    with the invariant that a session's status and marks are those of its guesses.
  \<^item> Matchmaking: the queue, its timers and the matches (\<^verbatim>\<open>matchmaking/matchmaking.module.ts\<close>).

  \<^item> Indexer_Records: the audit trail, the registry snapshots as an upsert of a table with its
    entry in the trail, the reward summary of a player, and the worker's tick.
  \<^item> Sanitization: the stripping of request bodies, the masking of audit logs and the redaction of
    wallet addresses (\<^verbatim>\<open>common/middleware\<close>, \<^verbatim>\<open>common/*.util.ts\<close>).
  \<^item> Sdk_Network: contract registries, their loaders and their diagnosis (\<^verbatim>\<open>network.ts\<close>,
    \<^verbatim>\<open>registry*.ts\<close>), typed and round trips of their JSON and environment forms.
  \<^item> Sdk_Tx, Sdk_Compat, Sdk_Client: transactions and their polling (\<^verbatim>\<open>tx-builder.ts\<close>), version
    comparison and the compatibility guard (\<^verbatim>\<open>contract-compat.ts\<close>), the contract clients.
  \<^item> Sdk_Wallet, Sdk_Events: the wallet's state machine, its stored queue and retried submissions
    (\<^verbatim>\<open>wallet-state.ts\<close>, \<^verbatim>\<open>retry-deploy-batch-read.ts\<close>), and the decoding of contract events.
  \<^item> Client_Words, Client_Stores: the guesses, marks and hard mode of the web client
    (\<^verbatim>\<open>frontend/src/lib/word-validation.ts\<close>), shown to agree with the engine, and the stores its
    views subscribe to (\<^verbatim>\<open>store/\<close>).
  \<^item> Client_Statistics: streaks and histogram (\<^verbatim>\<open>lib/game-statistics.ts\<close>) against runs of days.
  \<^item> Client_Flow: a transaction from the click to its confirmation (\<^verbatim>\<open>lib/stellar/\<close>,
    \<^verbatim>\<open>hooks/useGameplayTx.ts\<close>, the wallet provider) as a state machine of suspended executions.
  \<^item> Client_Sync: the dictionary stores behind the locale of their interface, the offline session
    with its queue of results as steps with overlapping flushes, the synchronization of devices.
  \<^item> Client_Settings, Client_View: stored settings and theme, the introduction, the content
    security policy, the keyboard, latency and the routes the client serves.
  \<^item> Web_Auth: the provider that keeps the token in the browser's storage, the calls of the API and
    the form (\<^verbatim>\<open>context/AuthContext.tsx\<close>, \<^verbatim>\<open>service/api/auth.ts\<close>, \<^verbatim>\<open>LoginModal.tsx\<close>), with what a reload
    of the page restores.
  \<^item> Contract_Reads: the hooks that read the contract (\<^verbatim>\<open>hooks/useContractRead.ts\<close>) as a state machine
    of renders, effects and answers, with the invariant that only the last read can count.
  \<^item> Client_Panels, Client_Pages: what the panels compute (share text, letter chart, on-screen
    keyboard, identicon, timeline) and what the pages do with requests that can overtake each other
    (history, achievements, recovery, claims, definitions, the install banner).

  \<^item> Js_Dates, Js_Doubles: calendar days with their printing and parsing, and the rounding of doubles
    for the places where it shows.
  \<^item> Digest_Template, Digest_Service: the template of the weekly mail and the run that sends it
    (\<^verbatim>\<open>digest/\<close>).
  \<^item> Dictionary_Service, Read_Api, Session_Analytics, User_Stats, Word_Suggestions: the dictionary with
    its fallback (\<^verbatim>\<open>word/\<close>), the cached read endpoints (\<^verbatim>\<open>common/read-api.controller.ts\<close>), the
    analytics and their cache (\<^verbatim>\<open>analytics/\<close>), the statistics of a player and game
    (\<^verbatim>\<open>user-game-stats/\<close>, exact on a server in universal time), the suggested words as ballots (\<^verbatim>\<open>word-suggestions/\<close>).
  \<^item> Word_Seeding: filling the word table from a file, in batches (\<^verbatim>\<open>utils/word-seed.service.ts\<close>).
  \<^item> Pool_Pressure, Background_Jobs, Security_Monitor: the retries under connection pressure
    (\<^verbatim>\<open>database/\<close>), jobs and dead letters, the request limiter, the audit log and the scan over it
    (\<^verbatim>\<open>common/\<close>).
  \<^item> Http_Errors, Http_Middleware, Access_Control, Response_Mappers, Api_Handlers, Api_Operations: the
    layer of HTTP.  Errors become answers, caches and limits stand around the handlers, the rate limit
    of the application and then guards decide who may call what, mappers choose the fields that leave the server, and the handlers
    compose the services above; the operator's console, rewards, audit and health are in
    Api_Operations, where a reset of the indexer is followed through audit, cursor and projections.
  \<^item> Env_Config: the validation of the environment (\<^verbatim>\<open>config/env.validation.ts\<close>), the options of the
    database in the places that build them, the request limits and error tracking.
  \<^item> Rpc_Proxy, Issue_Triage, Dependency_Links: three groups of scripts with logic of their own: the
    caching proxy in front of a node (\<^verbatim>\<open>scripts/rpc-proxy.js\<close>), the scores of similar issues and the
    choice of reviewers, and the check of an issue's dependencies.
  \<^item> Release_Checks: the checks of the registry bundle, the health payload and the event schemas
    (\<^verbatim>\<open>scripts/validate-registry-bundle.js\<close>, \<^verbatim>\<open>validate-health-payload.js\<close>,
    \<^verbatim>\<open>check-event-schemas.ts\<close>): what each accepts, that an accepted bundle loads in the client
    library, and that the comparison of schemas finds every breaking change but is never run.

  \<^bold>\<open>Interfaces.\<close>  The contracts between components are locales, each interpreted on the model where
  its provider is defined: a comparator (the array sort), collation, a key-value store, a bounded
  queue, a counter store, a dictionary store.

  \<^bold>\<open>Loops.\<close>  Most loops of the source run over an array, so their models are structurally
  recursive and total; no fuel is used.  The retries of the daily rotation and the polling of a
  transaction recur on the number of attempts left, a reconnection on the retries left, the retries
  under pressure and the wait for the database on the attempts left, the wait of the shutdown on the
  time left, the batches of the seeding and the search for references on what is left of the list or
  text, each with that measure.  A retried submission has a bound that need not be a number, and the
  backward loop over the days of a streak ends only when a day is missing; both are partial functions
  into options, and that they return is proved, the first for the bounds that are numbers.  The
  removal of markup, the decoding of entities and the redaction recur on the rest of the text after a
  match, with their termination proofs.

  \<^bold>\<open>Not modelled.\<close>  Some of what is left of the repository's TypeScript and JavaScript has no logic
  to check: the markup and styles of views, the wiring of modules, entities, transfer objects and
  migrations, telemetry and tracing set-up, generators and test helpers.  Most of the maintenance
  scripts (report generators, link and issue checkers other than the modelled ones), with their
  command lines and requests, are text processing outside the game and are left out.  The contracts in Rust and shell scripts are
  outside the library.
\<close>

end
